(* ===== verification/Prelude.thy ===== *)
theory Prelude
  imports Main "HOL-Library.Word" "HOL-Library.Signed_Division"
begin

text \<open>
  Shared vocabulary of the development: the exceptions of the TypeScript code, the
  state-and-exception monad in which the interpreter's functions are written (the state
  survives a throw, as object fields do in the source), the arithmetic of JavaScript's
  bigint as integers, and generic lemmas on lists, words and maps that the components share.
\<close>

unbundle bit_operations_syntax

named_theorems wf_intros \<open>preservation of well-formedness by the operations\<close>
named_theorems evm_defs \<open>definitions that symbolic execution of a handler unfolds\<close>

section \<open>Exceptions\<close>

datatype evm_error =
    OUT_OF_GAS | CODESTORE_OUT_OF_GAS | CODESIZE_EXCEEDS_MAXIMUM | STACK_UNDERFLOW
  | STACK_OVERFLOW | INVALID_JUMP | INVALID_OPCODE | OUT_OF_RANGE | REVERT
  | STATIC_STATE_CHANGE | INTERNAL_ERROR | CREATE_COLLISION | STOP | REFUND_EXHAUSTED
  | VALUE_OVERFLOW | INSUFFICIENT_BALANCE | INVALID_BYTECODE_RESULT
  | INITCODE_SIZE_VIOLATION | INVALID_INPUT_LENGTH | INVALID_EOF_FORMAT
  | BLS_12_381_INVALID_INPUT_LENGTH | BLS_12_381_POINT_NOT_ON_CURVE | BLS_12_381_INPUT_EMPTY
  | BLS_12_381_FP_NOT_IN_FIELD | BN254_FP_NOT_IN_FIELD | INVALID_COMMITMENT
  | INVALID_INPUTS | INVALID_PROOF

text \<open>
  What a function of the source can throw: an \<open>EVMError\<close>, possibly with the location
  appended to its message, the runtime's \<open>TypeError\<close>
  (mixing a bigint with undefined, reading a property of undefined) or \<open>RangeError\<close>
  (division by the bigint zero) or \<open>ReferenceError\<close>, or a plain \<open>Error\<close> with its message.
  \<open>NeverReturns\<close> is not a throw: it marks a loop that does not end or an \<open>await\<close> that is never
  resumed, in the parts of the program where that can happen, and no handler catches it.
\<close>

datatype exn = EVMError evm_error | EVMErrorAt evm_error string | TypeError | RangeError
  | ReferenceError string | PlainError string | NeverReturns

section \<open>The state-and-exception monad\<close>

type_synonym ('s, 'a) sx = "'s \<Rightarrow> (exn + 'a) \<times> 's"

definition returnE :: "'a \<Rightarrow> ('s, 'a) sx" where
  "returnE x = (\<lambda>s. (Inr x, s))"

definition throwE :: "exn \<Rightarrow> ('s, 'a) sx" where
  "throwE e = (\<lambda>s. (Inl e, s))"

definition bindE :: "('s, 'a) sx \<Rightarrow> ('a \<Rightarrow> ('s, 'b) sx) \<Rightarrow> ('s, 'b) sx" where
  "bindE m f = (\<lambda>s. case m s of (Inl e, s') \<Rightarrow> (Inl e, s') | (Inr x, s') \<Rightarrow> f x s')"

definition seqE :: "('s, 'a) sx \<Rightarrow> ('s, 'b) sx \<Rightarrow> ('s, 'b) sx" where
  "seqE m k = bindE m (\<lambda>_. k)"

definition getsE :: "('s \<Rightarrow> 'a) \<Rightarrow> ('s, 'a) sx" where
  "getsE f = (\<lambda>s. (Inr (f s), s))"

definition modifyE :: "('s \<Rightarrow> 's) \<Rightarrow> ('s, unit) sx" where
  "modifyE f = (\<lambda>s. (Inr (), f s))"

definition liftE :: "exn + 'a \<Rightarrow> ('s, 'a) sx" where
  "liftE r = (\<lambda>s. (r, s))"

definition whenE :: "bool \<Rightarrow> ('s, unit) sx \<Rightarrow> ('s, unit) sx" where
  "whenE b m = (if b then m else returnE ())"

lemma bindE_run:
  "bindE m f s = (case m s of (Inl e, s') \<Rightarrow> (Inl e, s') | (Inr x, s') \<Rightarrow> f x s')"
  by (simp add: bindE_def)

lemma seqE_run:
  "seqE m k s = (case m s of (Inl e, s') \<Rightarrow> (Inl e, s') | (Inr x, s') \<Rightarrow> k s')"
  by (simp add: seqE_def bindE_def)

lemma returnE_run [simp]: "returnE x s = (Inr x, s)"
  by (simp add: returnE_def)

lemma throwE_run [simp]: "throwE e s = (Inl e, s)"
  by (simp add: throwE_def)

lemma getsE_run [simp]: "getsE f s = (Inr (f s), s)"
  by (simp add: getsE_def)

lemma modifyE_run [simp]: "modifyE f s = (Inr (), f s)"
  by (simp add: modifyE_def)

lemma liftE_run [simp]: "liftE r s = (r, s)"
  by (simp add: liftE_def)

lemma whenE_run [simp]: "whenE b m s = (if b then m s else (Inr (), s))"
  by (simp add: whenE_def)

lemma bindE_Inr: "m s = (Inr x, s') \<Longrightarrow> bindE m f s = f x s'"
  by (simp add: bindE_run)

lemma bindE_Inl: "m s = (Inl e, s') \<Longrightarrow> bindE m f s = (Inl e, s')"
  by (simp add: bindE_run)

lemma bindE_returnE [simp]: "bindE (returnE x) f = f x"
  by (rule ext) (simp add: bindE_run)

lemma bindE_assoc: "bindE (bindE m f) g = bindE m (\<lambda>x. bindE (f x) g)"
  by (rule ext) (simp add: bindE_run split: prod.split sum.split)

lemmas sx_run = bindE_run seqE_run

text \<open>Fallible functions without state.\<close>

definition bindR :: "exn + 'a \<Rightarrow> ('a \<Rightarrow> exn + 'b) \<Rightarrow> exn + 'b" where
  "bindR r f = (case r of Inl e \<Rightarrow> Inl e | Inr x \<Rightarrow> f x)"

lemma bindR_simps [simp]: "bindR (Inl e) f = Inl e" "bindR (Inr x) f = f x"
  by (simp_all add: bindR_def)

lemma bindR_eq_Inr: "bindR r f = Inr y \<longleftrightarrow> (\<exists>x. r = Inr x \<and> f x = Inr y)"
  by (cases r) simp_all

lemma bindR_cong [fundef_cong]: "r = r' \<Longrightarrow> (\<And>x. r' = Inr x \<Longrightarrow> f x = g x) \<Longrightarrow> bindR r f = bindR r' g"
  by (cases r') simp_all

section \<open>JavaScript's bigint and array operations\<close>

text \<open>
  A bigint is an integer. Its \<open>/\<close> and \<open>%\<close> truncate towards zero (\<open>sdiv\<close>, \<open>smod\<close>), its
  bitwise operators are those of the two's complement integer, and a shift by a negative
  amount shifts the other way.
\<close>

definition asUintN :: "nat \<Rightarrow> int \<Rightarrow> int" where
  "asUintN bits x = take_bit bits x"

definition asIntN :: "nat \<Rightarrow> int \<Rightarrow> int" where
  "asIntN bits x = (if bits = 0 then 0 else signed_take_bit (bits - 1) x)"

definition bigint_shl :: "int \<Rightarrow> int \<Rightarrow> int" where
  "bigint_shl x n = (if n \<ge> 0 then push_bit (nat n) x else drop_bit (nat (- n)) x)"

definition bigint_shr :: "int \<Rightarrow> int \<Rightarrow> int" where
  "bigint_shr x n = (if n \<ge> 0 then drop_bit (nat n) x else push_bit (nat (- n)) x)"

text \<open>\<open>store[i] = v\<close> on an array: in place below the length, an append at the length. The
  fill for an index beyond the length (a hole in the source) is \<open>h\<close>.\<close>

definition array_set :: "'a \<Rightarrow> 'a list \<Rightarrow> nat \<Rightarrow> 'a \<Rightarrow> 'a list" where
  "array_set h xs i v =
     (if i < length xs then xs[i := v] else xs @ replicate (i - length xs) h @ [v])"

lemma length_array_set [simp]: "length (array_set h xs i v) = max (length xs) (Suc i)"
  by (simp add: array_set_def)

lemma nth_array_set:
  "j \<le> i \<Longrightarrow> i \<le> length xs \<Longrightarrow>
   array_set h xs i v ! j = (if j = i then v else xs ! j)"
  by (auto simp: array_set_def nth_append)

lemma take_array_set:
  "i \<le> length xs \<Longrightarrow> take (Suc i) (array_set h xs i v) = take i xs @ [v]"
  by (auto simp: array_set_def take_Suc_conv_app_nth nth_append)

lemma take_array_set_below [simp]:
  "n \<le> i \<Longrightarrow> i \<le> length xs \<Longrightarrow> take n (array_set h xs i v) = take n xs"
  by (auto simp: array_set_def)

lemma asUintN_bounds [simp]: "0 \<le> asUintN n x" "asUintN n x < 2 ^ n"
  by (simp_all add: asUintN_def)

lemma asUintN_mod: "asUintN n x = x mod 2 ^ n"
  by (simp add: asUintN_def take_bit_eq_mod)

lemma asUintN_id: "0 \<le> x \<Longrightarrow> x < 2 ^ n \<Longrightarrow> asUintN n x = x"
  by (simp add: asUintN_def take_bit_int_eq_self_iff)

section \<open>Lists\<close>

lemma take_rev_snoc: "n < length xs \<Longrightarrow> take (Suc n) xs = take n xs @ [xs ! n]"
  by (rule take_Suc_conv_app_nth)

lemma rev_take_nth:
  "i < n \<Longrightarrow> n \<le> length xs \<Longrightarrow> rev (take n xs) ! i = xs ! (n - 1 - i)"
  by (simp add: rev_nth)

end
