(* ===== verification/ChainTables.thy ===== *)
theory ChainTables
  imports Prelude
begin

text \<open>
  The tables of \<open>src/packages/chain-config/src/hardforks\<close>: the order of the hardforks, the EIPs
  each of them activates (\<open>hardforks.ts\<close>, with the numbers of \<open>eips.ts\<close>) and the parameters each
  EIP sets (\<open>params.ts\<close>).
\<close>

section \<open>Tables\<close>

text \<open>A parameter is a bigint, a JavaScript number or null.\<close>

datatype param_value = PBig int | PNum int | PNull

type_synonym params = "(string \<times> param_value) list"

definition HARDFORK_ORDER :: "string list" where
  "HARDFORK_ORDER = [''chainstart'', ''homestead'', ''dao'',
     ''tangerineWhistle'', ''spuriousDragon'', ''byzantium'', ''constantinople'', ''petersburg'',
     ''istanbul'', ''muirGlacier'', ''berlin'', ''london'', ''arrowGlacier'',
     ''grayGlacier'', ''paris'', ''mergeNetsplitBlock'', ''shanghai'', ''cancun'', ''prague'',
     ''osaka'', ''bpo1'', ''bpo2'', ''bpo3'', ''bpo4'', ''bpo5'']"

definition HARDFORK_EIPS_entries :: "(string \<times> nat list) list" where
  "HARDFORK_EIPS_entries = [
     (''chainstart'', [1]),
     (''homestead'', [606]),
     (''tangerineWhistle'', [608]),
     (''spuriousDragon'', [607]),
     (''byzantium'', [609]),
     (''constantinople'', [1013]),
     (''petersburg'', [1716]),
     (''istanbul'', [1679]),
     (''muirGlacier'', [2384]),
     (''berlin'', [2565, 2929, 2930, 2718]),
     (''london'', [1559, 3198, 3529, 3541]),
     (''arrowGlacier'', [4345]),
     (''grayGlacier'', [5133]),
     (''paris'', [3675, 4399]),
     (''shanghai'', [3651, 3855, 3860, 4895]),
     (''cancun'', [1153, 4788, 4844, 5656, 6780, 7516, 7594]),
     (''prague'', [2537, 2935, 6110, 7002, 7251, 7623, 7685, 7691, 7702, 7825]),
     (''osaka'', [663, 3540, 3670, 4200, 4750, 5450, 6206, 7069, 7480, 7620, 7692, 7698, 7934, 7939]),
     (''dao'', []),
     (''mergeNetsplitBlock'', []),
     (''bpo1'', [99001]),
     (''bpo2'', [99002]),
     (''bpo3'', []),
     (''bpo4'', []),
     (''bpo5'', [])]"

definition HARDFORK_EIPS :: "string \<Rightarrow> nat list option" where
  "HARDFORK_EIPS = map_of HARDFORK_EIPS_entries"

definition EIP1_PARAMS :: params where
  "EIP1_PARAMS = [
     (''minGasLimit'', PBig 3000), (''gasLimitBoundDivisor'', PBig 1024),
     (''maxRefundQuotient'', PBig 2), (''targetBlobGasPerBlock'', PBig 0),
     (''blobGasPerBlob'', PBig 0), (''maxBlobGasPerBlock'', PBig 0),
     (''maxExtraDataSize'', PBig 32), (''minimumDifficulty'', PBig 1),
     (''difficultyBoundDivisor'', PBig 2048), (''durationLimit'', PBig 1),
     (''difficultyBombDelay'', PBig 0), (''minerReward'', PBig 5000000000000000000),
     (''basefeeGas'', PBig 2), (''expGas'', PBig 10), (''expByteGas'', PBig 10),
     (''keccak256Gas'', PBig 30), (''keccak256WordGas'', PBig 6), (''sloadGas'', PBig 50),
     (''sstoreSetGas'', PBig 20000), (''sstoreResetGas'', PBig 5000),
     (''sstoreRefundGas'', PBig 15000), (''jumpdestGas'', PBig 1), (''logGas'', PBig 375),
     (''logDataGas'', PBig 8), (''logTopicGas'', PBig 375), (''createGas'', PBig 32000),
     (''callGas'', PBig 40), (''callStipendGas'', PBig 2300),
     (''callValueTransferGas'', PBig 9000), (''callNewAccountGas'', PBig 25000),
     (''selfdestructRefundGas'', PBig 24000), (''memoryGas'', PBig 3),
     (''quadCoefficientDivGas'', PBig 512), (''createDataGas'', PBig 200), (''copyGas'', PBig 3),
     (''ecRecoverGas'', PBig 3000), (''sha256Gas'', PBig 60), (''sha256WordGas'', PBig 12),
     (''ripemd160Gas'', PBig 600), (''ripemd160WordGas'', PBig 120), (''identityGas'', PBig 15),
     (''identityWordGas'', PBig 3), (''stopGas'', PBig 0), (''addGas'', PBig 3),
     (''mulGas'', PBig 5), (''subGas'', PBig 3), (''divGas'', PBig 5), (''sdivGas'', PBig 5),
     (''modGas'', PBig 5), (''smodGas'', PBig 5), (''addmodGas'', PBig 8),
     (''mulmodGas'', PBig 8), (''signextendGas'', PBig 5), (''ltGas'', PBig 3),
     (''gtGas'', PBig 3), (''sltGas'', PBig 3), (''sgtGas'', PBig 3), (''eqGas'', PBig 3),
     (''iszeroGas'', PBig 3), (''andGas'', PBig 3), (''orGas'', PBig 3), (''xorGas'', PBig 3),
     (''notGas'', PBig 3), (''byteGas'', PBig 3), (''addressGas'', PBig 2),
     (''balanceGas'', PBig 20), (''originGas'', PBig 2), (''callerGas'', PBig 2),
     (''callvalueGas'', PBig 2), (''calldataloadGas'', PBig 3), (''calldatasizeGas'', PBig 2),
     (''calldatacopyGas'', PBig 3), (''codesizeGas'', PBig 2), (''codecopyGas'', PBig 3),
     (''gaspriceGas'', PBig 2), (''extcodesizeGas'', PBig 20), (''extcodecopyGas'', PBig 20),
     (''blockhashGas'', PBig 20), (''coinbaseGas'', PBig 2), (''timestampGas'', PBig 2),
     (''numberGas'', PBig 2), (''difficultyGas'', PBig 2), (''gaslimitGas'', PBig 2),
     (''popGas'', PBig 2), (''mloadGas'', PBig 3), (''mstoreGas'', PBig 3),
     (''mstore8Gas'', PBig 3), (''sstoreGas'', PBig 0), (''jumpGas'', PBig 8),
     (''jumpiGas'', PBig 10), (''pcGas'', PBig 2), (''msizeGas'', PBig 2), (''gasGas'', PBig 2),
     (''pushGas'', PBig 3), (''dupGas'', PBig 3), (''swapGas'', PBig 3),
     (''callcodeGas'', PBig 40), (''returnGas'', PBig 0), (''invalidGas'', PBig 0),
     (''selfdestructGas'', PBig 0), (''prevrandaoGas'', PBig 0), (''stackLimit'', PNum 1024),
     (''txGas'', PBig 21000), (''txCreationGas'', PBig 32000), (''txDataZeroGas'', PBig 4),
     (''txDataNonZeroGas'', PBig 68), (''accessListStorageKeyGas'', PBig 0),
     (''accessListAddressGas'', PBig 0)]"

definition EIP606_PARAMS :: params where
  "EIP606_PARAMS = [
     (''delegatecallGas'', PBig 40), (''difficultyBombDelay'', PBig 5000000)]"

definition EIP607_PARAMS :: params where
  "EIP607_PARAMS = [
     (''expByteGas'', PBig 50), (''maxCodeSize'', PNum 24576)]"

definition EIP608_PARAMS :: params where
  "EIP608_PARAMS = [
     (''sloadGas'', PBig 200), (''callGas'', PBig 700), (''extcodesizeGas'', PBig 700),
     (''extcodecopyGas'', PBig 700), (''balanceGas'', PBig 400), (''delegatecallGas'', PBig 700),
     (''callcodeGas'', PBig 700), (''selfdestructGas'', PBig 5000)]"

definition EIP609_PARAMS :: params where
  "EIP609_PARAMS = [
     (''modexpGquaddivisorGas'', PBig 20), (''bn254AddGas'', PBig 500),
     (''bn254MulGas'', PBig 40000), (''bn254PairingGas'', PBig 100000),
     (''bn254PairingWordGas'', PBig 80000), (''revertGas'', PBig 0),
     (''staticcallGas'', PBig 700), (''returndatasizeGas'', PBig 2),
     (''returndatacopyGas'', PBig 3), (''difficultyBombDelay'', PBig 3000000),
     (''minerReward'', PBig 3000000000000000000)]"

definition EIP1013_PARAMS :: params where
  "EIP1013_PARAMS = [
     (''netSstoreNoopGas'', PBig 200), (''netSstoreInitGas'', PBig 20000),
     (''netSstoreCleanGas'', PBig 5000), (''netSstoreDirtyGas'', PBig 200),
     (''netSstoreClearRefundGas'', PBig 15000), (''netSstoreResetRefundGas'', PBig 4800),
     (''netSstoreResetClearRefundGas'', PBig 19800), (''shlGas'', PBig 3), (''shrGas'', PBig 3),
     (''sarGas'', PBig 3), (''extcodehashGas'', PBig 400), (''create2Gas'', PBig 32000),
     (''minerReward'', PBig 2000000000000000000)]"

definition EIP1679_PARAMS :: params where
  "EIP1679_PARAMS = [
     (''blake2RoundGas'', PBig 1), (''bn254AddGas'', PBig 150), (''bn254MulGas'', PBig 6000),
     (''bn254PairingGas'', PBig 45000), (''bn254PairingWordGas'', PBig 34000),
     (''sstoreSentryEIP2200Gas'', PBig 2300), (''sstoreNoopEIP2200Gas'', PBig 800),
     (''sstoreDirtyEIP2200Gas'', PBig 800), (''sstoreInitEIP2200Gas'', PBig 20000),
     (''sstoreInitRefundEIP2200Gas'', PBig 19200), (''sstoreCleanEIP2200Gas'', PBig 5000),
     (''sstoreCleanRefundEIP2200Gas'', PBig 4200), (''sstoreClearRefundEIP2200Gas'', PBig 15000),
     (''balanceGas'', PBig 700), (''extcodehashGas'', PBig 700), (''chainidGas'', PBig 2),
     (''selfbalanceGas'', PBig 5), (''sloadGas'', PBig 800), (''txDataNonZeroGas'', PBig 16)]"

definition EIP1716_PARAMS :: params where
  "EIP1716_PARAMS = [
     (''netSstoreNoopGas'', PNull), (''netSstoreInitGas'', PNull),
     (''netSstoreCleanGas'', PNull), (''netSstoreDirtyGas'', PNull),
     (''netSstoreClearRefundGas'', PNull), (''netSstoreResetRefundGas'', PNull),
     (''netSstoreResetClearRefundGas'', PNull)]"

definition EIP2384_PARAMS :: params where
  "EIP2384_PARAMS = [
     (''difficultyBombDelay'', PBig 9000000)]"

definition EIP1559_PARAMS :: params where
  "EIP1559_PARAMS = [
     (''baseFeeMaxChangeDenominator'', PBig 8), (''elasticityMultiplier'', PBig 2),
     (''initialBaseFee'', PBig 1000000000)]"

definition EIP2565_PARAMS :: params where
  "EIP2565_PARAMS = [
     (''modexpGquaddivisorGas'', PBig 3)]"

definition EIP2929_PARAMS :: params where
  "EIP2929_PARAMS = [
     (''coldsloadGas'', PBig 2100), (''coldaccountaccessGas'', PBig 2600),
     (''warmstoragereadGas'', PBig 100), (''sstoreCleanEIP2200Gas'', PBig 2900),
     (''sstoreNoopEIP2200Gas'', PBig 100), (''sstoreDirtyEIP2200Gas'', PBig 100),
     (''sstoreInitRefundEIP2200Gas'', PBig 19900), (''sstoreCleanRefundEIP2200Gas'', PBig 4900),
     (''callGas'', PBig 0), (''callcodeGas'', PBig 0), (''delegatecallGas'', PBig 0),
     (''staticcallGas'', PBig 0), (''balanceGas'', PBig 0), (''extcodesizeGas'', PBig 0),
     (''extcodecopyGas'', PBig 0), (''extcodehashGas'', PBig 0), (''sloadGas'', PBig 0),
     (''sstoreGas'', PBig 0)]"

definition EIP2930_PARAMS :: params where
  "EIP2930_PARAMS = [
     (''accessListStorageKeyGas'', PBig 1900), (''accessListAddressGas'', PBig 2400)]"

definition EIP2935_PARAMS :: params where
  "EIP2935_PARAMS = [
     (''historyStorageAddress'', PBig 21693734551179282564423033930679318143314229),
     (''historyServeWindow'', PBig 8192),
     (''systemAddress'', PBig 1461501637330902918203684832716283019655932542974)]"

definition EIP3198_PARAMS :: params where
  "EIP3198_PARAMS = [
     (''basefeeGas'', PBig 2)]"

definition EIP3529_PARAMS :: params where
  "EIP3529_PARAMS = [
     (''maxRefundQuotient'', PBig 5), (''selfdestructRefundGas'', PBig 0),
     (''sstoreClearRefundEIP2200Gas'', PBig 4800)]"

definition EIP3554_PARAMS :: params where
  "EIP3554_PARAMS = [
     (''difficultyBombDelay'', PBig 9500000)]"

definition EIP3855_PARAMS :: params where
  "EIP3855_PARAMS = [
     (''push0Gas'', PBig 2)]"

definition EIP3860_PARAMS :: params where
  "EIP3860_PARAMS = [
     (''initCodeWordGas'', PBig 2), (''maxInitCodeSize'', PNum 49152)]"

definition EIP4345_PARAMS :: params where
  "EIP4345_PARAMS = [
     (''difficultyBombDelay'', PBig 10700000)]"

definition EIP4399_PARAMS :: params where
  "EIP4399_PARAMS = [
     (''prevrandaoGas'', PBig 2)]"

definition EIP4788_PARAMS :: params where
  "EIP4788_PARAMS = [
     (''historicalRootsLength'', PBig 8191)]"

definition EIP4844_PARAMS :: params where
  "EIP4844_PARAMS = [
     (''targetBlobGasPerBlock'', PBig 393216), (''blobGasPerBlob'', PBig 131072),
     (''maxBlobGasPerBlock'', PBig 786432), (''blobGasPriceUpdateFraction'', PBig 3338477),
     (''minBlobGas'', PBig 1), (''blobBaseCost'', PBig 8192),
     (''kzgPointEvaluationPrecompileGas'', PBig 50000), (''blobhashGas'', PBig 3),
     (''blobCommitmentVersionKzg'', PNum 1), (''fieldElementsPerBlob'', PNum 4096)]"

definition EIP5133_PARAMS :: params where
  "EIP5133_PARAMS = [
     (''difficultyBombDelay'', PBig 11400000)]"

definition EIP5656_PARAMS :: params where
  "EIP5656_PARAMS = [
     (''mcopyGas'', PBig 3)]"

definition EIP663_PARAMS :: params where
  "EIP663_PARAMS = [
     (''dupnGas'', PBig 3), (''swapnGas'', PBig 3), (''exchangeGas'', PBig 3)]"

definition EIP1153_PARAMS :: params where
  "EIP1153_PARAMS = [
     (''tstoreGas'', PBig 100), (''tloadGas'', PBig 100)]"

definition EIP2537_PARAMS :: params where
  "EIP2537_PARAMS = [
     (''bls12381G1AddGas'', PBig 375), (''bls12381G1MulGas'', PBig 12000),
     (''bls12381G2AddGas'', PBig 600), (''bls12381G2MulGas'', PBig 22500),
     (''bls12381PairingBaseGas'', PBig 37700), (''bls12381PairingPerPairGas'', PBig 32600),
     (''bls12381MapG1Gas'', PBig 5500), (''bls12381MapG2Gas'', PBig 23800)]"

definition EIP4200_PARAMS :: params where
  "EIP4200_PARAMS = [
     (''rjumpGas'', PBig 2), (''rjumpiGas'', PBig 4), (''rjumpvGas'', PBig 4)]"

definition EIP4750_PARAMS :: params where
  "EIP4750_PARAMS = [
     (''callfGas'', PBig 5), (''retfGas'', PBig 3)]"

definition EIP6206_PARAMS :: params where
  "EIP6206_PARAMS = [
     (''jumpfGas'', PBig 5)]"

definition EIP6800_PARAMS :: params where
  "EIP6800_PARAMS = [
     (''createGas'', PBig 1000), (''coldsloadGas'', PBig 0)]"

definition EIP7002_PARAMS :: params where
  "EIP7002_PARAMS = [
     (''systemAddress'', PBig 1461501637330902918203684832716283019655932542974),
     (''withdrawalRequestPredeployAddress'', PBig 817336022611862939366240017674853872070658)]"

definition EIP7069_PARAMS :: params where
  "EIP7069_PARAMS = [
     (''extcallGas'', PBig 0), (''extdelegatecallGas'', PBig 0), (''extstaticcallGas'', PBig 0),
     (''returndataloadGas'', PBig 3), (''minRetainedGas'', PBig 5000),
     (''minCalleeGas'', PBig 2300)]"

definition EIP7251_PARAMS :: params where
  "EIP7251_PARAMS = [
     (''systemAddress'', PBig 1461501637330902918203684832716283019655932542974),
     (''consolidationRequestPredeployAddress'', PBig 16365465459783978374881923886502306505585233)]"

definition EIP7480_PARAMS :: params where
  "EIP7480_PARAMS = [
     (''dataloadGas'', PBig 4), (''dataloadnGas'', PBig 3), (''datasizeGas'', PBig 2),
     (''datacopyGas'', PBig 3)]"

definition EIP7516_PARAMS :: params where
  "EIP7516_PARAMS = [
     (''blobbasefeeGas'', PBig 2)]"

definition EIP7594_PARAMS :: params where
  "EIP7594_PARAMS = [
     (''maxBlobsPerTx'', PNum 6)]"

definition EIP7620_PARAMS :: params where
  "EIP7620_PARAMS = [
     (''eofcreateGas'', PBig 32000), (''returncontractGas'', PBig 0)]"

definition EIP7623_PARAMS :: params where
  "EIP7623_PARAMS = [
     (''totalCostFloorPerToken'', PBig 10)]"

definition EIP7691_PARAMS :: params where
  "EIP7691_PARAMS = [
     (''targetBlobGasPerBlock'', PBig 786432), (''maxBlobGasPerBlock'', PBig 1179648),
     (''blobGasPriceUpdateFraction'', PBig 5007716)]"

definition EIP7702_PARAMS :: params where
  "EIP7702_PARAMS = [
     (''perAuthBaseGas'', PBig 12500), (''perEmptyAccountCost'', PBig 25000)]"

definition EIP7825_PARAMS :: params where
  "EIP7825_PARAMS = [
     (''maxTransactionGasLimit'', PBig 16777216)]"

definition EIP7934_PARAMS :: params where
  "EIP7934_PARAMS = [
     (''maxRlpBlockSize'', PBig 10485760)]"

definition EIP7939_PARAMS :: params where
  "EIP7939_PARAMS = [
     (''clzGas'', PBig 5)]"

definition BPO1_BLOB_PARAMS :: params where
  "BPO1_BLOB_PARAMS = [
     (''targetBlobGasPerBlock'', PBig 1048576), (''maxBlobGasPerBlock'', PBig 1572864),
     (''blobGasPriceUpdateFraction'', PBig 5007716)]"

definition BPO2_BLOB_PARAMS :: params where
  "BPO2_BLOB_PARAMS = [
     (''targetBlobGasPerBlock'', PBig 2097152), (''maxBlobGasPerBlock'', PBig 3145728),
     (''blobGasPriceUpdateFraction'', PBig 5007716)]"

definition EIP_PARAMS_entries :: "(nat \<times> params) list" where
  "EIP_PARAMS_entries = [
     (1, EIP1_PARAMS),
     (606, EIP606_PARAMS),
     (607, EIP607_PARAMS),
     (608, EIP608_PARAMS),
     (609, EIP609_PARAMS),
     (1013, EIP1013_PARAMS),
     (1679, EIP1679_PARAMS),
     (1716, EIP1716_PARAMS),
     (2384, EIP2384_PARAMS),
     (1559, EIP1559_PARAMS),
     (2565, EIP2565_PARAMS),
     (2929, EIP2929_PARAMS),
     (2930, EIP2930_PARAMS),
     (2935, EIP2935_PARAMS),
     (3198, EIP3198_PARAMS),
     (3529, EIP3529_PARAMS),
     (3554, EIP3554_PARAMS),
     (3855, EIP3855_PARAMS),
     (3860, EIP3860_PARAMS),
     (4345, EIP4345_PARAMS),
     (4399, EIP4399_PARAMS),
     (4788, EIP4788_PARAMS),
     (4844, EIP4844_PARAMS),
     (5133, EIP5133_PARAMS),
     (5656, EIP5656_PARAMS),
     (663, EIP663_PARAMS),
     (1153, EIP1153_PARAMS),
     (2537, EIP2537_PARAMS),
     (4200, EIP4200_PARAMS),
     (4750, EIP4750_PARAMS),
     (6206, EIP6206_PARAMS),
     (6800, EIP6800_PARAMS),
     (7002, EIP7002_PARAMS),
     (7069, EIP7069_PARAMS),
     (7251, EIP7251_PARAMS),
     (7480, EIP7480_PARAMS),
     (7516, EIP7516_PARAMS),
     (7594, EIP7594_PARAMS),
     (7620, EIP7620_PARAMS),
     (7623, EIP7623_PARAMS),
     (7691, EIP7691_PARAMS),
     (7702, EIP7702_PARAMS),
     (7825, EIP7825_PARAMS),
     (7934, EIP7934_PARAMS),
     (7939, EIP7939_PARAMS),
     (99001, BPO1_BLOB_PARAMS),
     (99002, BPO2_BLOB_PARAMS)]"

definition EIP_PARAMS :: "nat \<Rightarrow> params option" where
  "EIP_PARAMS = map_of EIP_PARAMS_entries"

lemmas param_tables = EIP1_PARAMS_def EIP606_PARAMS_def EIP607_PARAMS_def EIP608_PARAMS_def EIP609_PARAMS_def EIP1013_PARAMS_def EIP1679_PARAMS_def EIP1716_PARAMS_def EIP2384_PARAMS_def EIP1559_PARAMS_def EIP2565_PARAMS_def EIP2929_PARAMS_def EIP2930_PARAMS_def EIP2935_PARAMS_def EIP3198_PARAMS_def EIP3529_PARAMS_def EIP3554_PARAMS_def EIP3855_PARAMS_def EIP3860_PARAMS_def EIP4345_PARAMS_def EIP4399_PARAMS_def EIP4788_PARAMS_def EIP4844_PARAMS_def EIP5133_PARAMS_def EIP5656_PARAMS_def EIP663_PARAMS_def EIP1153_PARAMS_def EIP2537_PARAMS_def EIP4200_PARAMS_def EIP4750_PARAMS_def EIP6206_PARAMS_def EIP6800_PARAMS_def EIP7002_PARAMS_def EIP7069_PARAMS_def EIP7251_PARAMS_def EIP7480_PARAMS_def EIP7516_PARAMS_def EIP7594_PARAMS_def EIP7620_PARAMS_def EIP7623_PARAMS_def EIP7691_PARAMS_def EIP7702_PARAMS_def EIP7825_PARAMS_def EIP7934_PARAMS_def EIP7939_PARAMS_def BPO1_BLOB_PARAMS_def BPO2_BLOB_PARAMS_def

end
