(* ===== verification/Hardforks.thy ===== *)
theory Hardforks
  imports ChainTables
begin

text \<open>
  The functional hardfork manager of \<open>src/packages/chain-config/src/config/functional\<close>, which
  every other package asks which hardfork a block belongs to, whether an EIP is active and what
  a parameter is worth. The manager's state is the frozen configuration built from the chain's
  specification; its methods are functions of it.
\<close>

section \<open>The static order of the hardforks\<close>

text \<open>\<open>xs.indexOf(x)\<close>: the first position, or -1.\<close>

fun indexOf :: "string list \<Rightarrow> string \<Rightarrow> int" where
  "indexOf [] x = -1"
| "indexOf (y # ys) x = (if y = x then 0 else let r = indexOf ys x in if r = -1 then -1 else r + 1)"

definition getHardforkIndex :: "string \<Rightarrow> int" where
  "getHardforkIndex hardfork = indexOf HARDFORK_ORDER hardfork"

text \<open>\<open>slice(0, index + 1)\<close>; for an unknown name the index is -1 and the slice empty.\<close>

definition getHardforkSequence :: "string \<Rightarrow> string list" where
  "getHardforkSequence hardfork = take (nat (getHardforkIndex hardfork + 1)) HARDFORK_ORDER"

text \<open>A JavaScript Set of numbers as the list of its elements in insertion order.\<close>

definition set_add :: "nat list \<Rightarrow> nat \<Rightarrow> nat list" where
  "set_add s x = (if x \<in> set s then s else s @ [x])"

definition hardfork_eips :: "string \<Rightarrow> nat list" where
  "hardfork_eips name = (case HARDFORK_EIPS name of None \<Rightarrow> [] | Some eips \<Rightarrow> eips)"

definition getActiveEIPsAtHardfork :: "string \<Rightarrow> nat list" where
  "getActiveEIPsAtHardfork hardfork =
     foldl (\<lambda>s hf. foldl set_add s (hardfork_eips hf)) [] (getHardforkSequence hardfork)"

section \<open>The frozen configuration\<close>

record hardfork_entry =
  hf_name :: string
  hf_block :: "int option"
  hf_timestamp :: "int option"

record chain_config =
  chain_cfg_name :: string
  chain_cfg_chainId :: int
  defaultHardfork :: "string option"
  consensus_type :: string
  consensus_algorithm :: string
  chain_cfg_hardforks :: "hardfork_entry list"

record chain_spec =
  spec_hardforks :: "hardfork_entry list"
  spec_chainId :: int
  spec_chain :: "chain_config option"

record frozen_config =
  cfg_spec :: chain_spec
  cfg_hardforkIndex :: "string \<Rightarrow> nat option"
  cfg_eipToHardfork :: "nat \<Rightarrow> string option"
  cfg_cumulativeEips :: "string \<Rightarrow> nat list option"

text \<open>Entry \<open>i\<close> comes too late when an earlier entry has a later place in \<open>HARDFORK_ORDER\<close>.\<close>

definition misplaced :: "string list \<Rightarrow> nat \<Rightarrow> nat \<Rightarrow> bool" where
  "misplaced names i j =
     (let oi = indexOf HARDFORK_ORDER (names ! i); oj = indexOf HARDFORK_ORDER (names ! j)
      in oi \<noteq> -1 \<and> oj \<noteq> -1 \<and> oj > oi)"

definition add_hardfork :: "frozen_config \<times> nat list \<times> nat \<Rightarrow> hardfork_entry \<Rightarrow> frozen_config \<times> nat list \<times> nat" where
  "add_hardfork acc hf = (case acc of (cfg, cumulative, i) \<Rightarrow>
     let eips = hardfork_eips (hf_name hf);
         cumulative' = foldl set_add cumulative eips
     in (cfg\<lparr>cfg_hardforkIndex := (cfg_hardforkIndex cfg)(hf_name hf \<mapsto> i),
             cfg_eipToHardfork := foldl (\<lambda>m eip. if m eip = None then m(eip \<mapsto> hf_name hf) else m)
                                    (cfg_eipToHardfork cfg) eips,
             cfg_cumulativeEips := (cfg_cumulativeEips cfg)(hf_name hf \<mapsto> cumulative')\<rparr>,
         cumulative', i + 1))"

definition empty_config :: "chain_spec \<Rightarrow> frozen_config" where
  "empty_config spec = \<lparr>cfg_spec = spec, cfg_hardforkIndex = (\<lambda>_. None),
     cfg_eipToHardfork = (\<lambda>_. None), cfg_cumulativeEips = (\<lambda>_. None)\<rparr>"

definition validateAndSetChainSchema :: "chain_spec \<Rightarrow> exn + frozen_config" where
  "validateAndSetChainSchema spec =
     (case spec_hardforks spec of
        [] \<Rightarrow> Inl (PlainError ''Chain spec must have at least one hardfork'')
      | first # _ \<Rightarrow>
          if hf_block first \<noteq> Some 0 \<and> hf_block first \<noteq> None
          then Inl (PlainError ''First hardfork must have block 0 or null'')
          else let names = map hf_name (spec_hardforks spec) in
            if \<exists>i\<in>set [0..<length names]. \<exists>j\<in>set [0..<i]. misplaced names i j
            then Inl (ReferenceError ''name is not defined'')
            else if spec_chainId spec \<le> 0 then Inl (PlainError ''Chain ID must be positive'')
            else Inr (fst (foldl add_hardfork (empty_config spec, [], 0) (spec_hardforks spec))))"

text \<open>\<open>createHardforkManagerFromConfig\<close> of \<open>builder.ts\<close>.\<close>

definition createHardforkManagerFromConfig :: "chain_config \<Rightarrow> exn + frozen_config" where
  "createHardforkManagerFromConfig chainConfig =
     validateAndSetChainSchema \<lparr>spec_hardforks = chain_cfg_hardforks chainConfig,
       spec_chainId = chain_cfg_chainId chainConfig, spec_chain = Some chainConfig\<rparr>"

section \<open>Queries\<close>

definition isEIPActiveAtHardfork :: "frozen_config \<Rightarrow> nat \<Rightarrow> string \<Rightarrow> bool" where
  "isEIPActiveAtHardfork config eip hardfork =
     (case cfg_cumulativeEips config hardfork of None \<Rightarrow> False | Some c \<Rightarrow> eip \<in> set c)"

definition getActiveEips :: "frozen_config \<Rightarrow> string \<Rightarrow> nat list" where
  "getActiveEips config hardfork =
     (case cfg_cumulativeEips config hardfork of None \<Rightarrow> [] | Some c \<Rightarrow> c)"

definition getHardforkForEIP :: "frozen_config \<Rightarrow> nat \<Rightarrow> string option" where
  "getHardforkForEIP config eip = cfg_eipToHardfork config eip"

definition find_entry :: "frozen_config \<Rightarrow> string \<Rightarrow> hardfork_entry option" where
  "find_entry config hardfork = List.find (\<lambda>h. hf_name h = hardfork) (spec_hardforks (cfg_spec config))"

definition hardforkBlock :: "frozen_config \<Rightarrow> string \<Rightarrow> int option" where
  "hardforkBlock config hardfork = Option.bind (find_entry config hardfork) hf_block"

definition hardforkTimestamp :: "frozen_config \<Rightarrow> string \<Rightarrow> int option" where
  "hardforkTimestamp config hardfork = Option.bind (find_entry config hardfork) hf_timestamp"

text \<open>The two loops of \<open>getHardforkByBlock\<close> run down from the last entry to the first match.\<close>

fun scan_down :: "nat \<Rightarrow> (nat \<Rightarrow> bool) \<Rightarrow> int" where
  "scan_down 0 P = -1"
| "scan_down (Suc i) P = (if P i then int i else scan_down i P)"

definition reached_block :: "int \<Rightarrow> hardfork_entry \<Rightarrow> bool" where
  "reached_block blockNumber hf = (case hf_block hf of None \<Rightarrow> False | Some b \<Rightarrow> blockNumber \<ge> b)"

definition reached_time :: "int \<Rightarrow> hardfork_entry \<Rightarrow> bool" where
  "reached_time timestamp hf = (case hf_timestamp hf of None \<Rightarrow> False | Some t \<Rightarrow> timestamp \<ge> t)"

definition default_index :: "frozen_config \<Rightarrow> int" where
  "default_index config =
     (case Option.bind (spec_chain (cfg_spec config)) defaultHardfork of
        None \<Rightarrow> -1
      | Some d \<Rightarrow> if d = [] then -1 else indexOf (map hf_name (spec_hardforks (cfg_spec config))) d)"

definition result_index :: "frozen_config \<Rightarrow> int option \<Rightarrow> int option \<Rightarrow> int" where
  "result_index config blockNumber timestamp =
     (let hardforks = spec_hardforks (cfg_spec config); n = length hardforks;
          blockResultIndex = (case blockNumber of None \<Rightarrow> -1
             | Some b \<Rightarrow> scan_down n (\<lambda>i. reached_block b (hardforks ! i)));
          timestampResultIndex = (case timestamp of None \<Rightarrow> -1
             | Some t \<Rightarrow> scan_down n (\<lambda>i. reached_time t (hardforks ! i)));
          resultIndex = max blockResultIndex timestampResultIndex;
          defaultHfIndex = default_index config
      in if defaultHfIndex \<ge> 0 \<and> resultIndex < defaultHfIndex then defaultHfIndex else resultIndex)"

definition getHardforkByBlock :: "frozen_config \<Rightarrow> int option \<Rightarrow> int option \<Rightarrow> string" where
  "getHardforkByBlock config blockNumber timestamp =
     (let hardforks = spec_hardforks (cfg_spec config);
          resultIndex = result_index config blockNumber timestamp
      in if resultIndex \<ge> 0 then hf_name (hardforks ! nat resultIndex)
         else case Option.bind (spec_chain (cfg_spec config)) defaultHardfork of
                Some d \<Rightarrow> d
              | None \<Rightarrow> hf_name (hardforks ! (length hardforks - 1)))"

definition isHardforkAfter :: "frozen_config \<Rightarrow> string \<Rightarrow> string \<Rightarrow> bool" where
  "isHardforkAfter config hardfork target =
     (case (cfg_hardforkIndex config hardfork, cfg_hardforkIndex config target) of
        (Some hfIdx, Some targetIdx) \<Rightarrow> hfIdx \<ge> targetIdx
      | _ \<Rightarrow> let orderHfIdx = indexOf HARDFORK_ORDER hardfork;
                 orderTargetIdx = indexOf HARDFORK_ORDER target
             in if orderHfIdx = -1 \<or> orderTargetIdx = -1 then False
                else orderHfIdx \<ge> orderTargetIdx)"

definition merge_params :: "(string \<Rightarrow> param_value option) \<Rightarrow> nat \<Rightarrow> (string \<Rightarrow> param_value option)" where
  "merge_params m eip = (case EIP_PARAMS eip of None \<Rightarrow> m | Some ps \<Rightarrow> m ++ map_of ps)"

definition getParamsAtHardfork :: "frozen_config \<Rightarrow> string \<Rightarrow> (string \<Rightarrow> param_value option)" where
  "getParamsAtHardfork config hardfork =
     (case cfg_hardforkIndex config hardfork of
        None \<Rightarrow> (\<lambda>_. None)
      | Some targetIndex \<Rightarrow>
          foldl (\<lambda>result hf. result ++ foldl merge_params (\<lambda>_. None) (hardfork_eips (hf_name hf)))
            (\<lambda>_. None) (take (targetIndex + 1) (spec_hardforks (cfg_spec config))))"

definition pick_param :: "string \<Rightarrow> param_value option \<Rightarrow> nat \<Rightarrow> param_value option" where
  "pick_param param result eip =
     (case EIP_PARAMS eip of None \<Rightarrow> result
      | Some ps \<Rightarrow> (case map_of ps param of None \<Rightarrow> result | Some v \<Rightarrow> Some v))"

definition getParamAtHardfork :: "frozen_config \<Rightarrow> string \<Rightarrow> string \<Rightarrow> param_value option" where
  "getParamAtHardfork config param hardfork =
     (let result = map_of EIP1_PARAMS param in
      case cfg_hardforkIndex config hardfork of
        None \<Rightarrow> result
      | Some targetIndex \<Rightarrow>
          foldl (\<lambda>r hf. foldl (pick_param param) r (hardfork_eips (hf_name hf)))
            result (take (targetIndex + 1) (spec_hardforks (cfg_spec config))))"

definition getLatestHardfork :: "frozen_config \<Rightarrow> string" where
  "getLatestHardfork config =
     (let hardforks = spec_hardforks (cfg_spec config) in
      if hardforks = [] then ''chainstart''
      else let latestHf = last hardforks in
        if hf_block latestHf = None \<and> hf_timestamp latestHf \<noteq> None
        then getHardforkByBlock config None (Some 18446744073709551615)
        else hf_name latestHf)"

text \<open>The argument of the context-taking methods: nothing, a hardfork name or a block.\<close>

datatype hf_context = NoContext | ByName string | ByBlock int "int option"

definition getHardforkFromContext :: "frozen_config \<Rightarrow> hf_context \<Rightarrow> string" where
  "getHardforkFromContext config context =
     (case context of NoContext \<Rightarrow> getLatestHardfork config
      | ByName hardfork \<Rightarrow> hardfork
      | ByBlock b t \<Rightarrow> getHardforkByBlock config (Some b) t)"

definition manager_getHardforkByBlock :: "frozen_config \<Rightarrow> int option \<Rightarrow> int option \<Rightarrow> string" where
  "manager_getHardforkByBlock config blockNumber timestamp =
     (if blockNumber \<noteq> None \<or> timestamp \<noteq> None then getHardforkByBlock config blockNumber timestamp
      else getLatestHardfork config)"

definition manager_getParam :: "frozen_config \<Rightarrow> string \<Rightarrow> hf_context \<Rightarrow> param_value option" where
  "manager_getParam config param context =
     getParamAtHardfork config param (getHardforkFromContext config context)"

definition isEIPActiveAtBlock :: "frozen_config \<Rightarrow> nat \<Rightarrow> (int \<times> int option) option \<Rightarrow> bool" where
  "isEIPActiveAtBlock config eip blockNum =
     (let hardfork = (case blockNum of Some (b, t) \<Rightarrow> getHardforkByBlock config (Some b) t
                      | None \<Rightarrow> getLatestHardfork config)
      in if hardfork = [] then False else isEIPActiveAtHardfork config eip hardfork)"

abbreviation hardforkGte :: "frozen_config \<Rightarrow> string \<Rightarrow> string \<Rightarrow> bool" where
  "hardforkGte \<equiv> isHardforkAfter"

section \<open>Sets of EIPs\<close>

lemma set_foldl_set_add [simp]: "set (foldl set_add s xs) = set s \<union> set xs"
  by (induction xs arbitrary: s) (auto simp: set_add_def)

lemma distinct_foldl_set_add: "distinct s \<Longrightarrow> distinct (foldl set_add s xs)"
  by (induction xs arbitrary: s) (auto simp: set_add_def)

section \<open>What validation builds\<close>

text \<open>After the entries \<open>hfs\<close>, every known name has the index of its last entry and the EIPs of
  all entries up to it.\<close>

definition eips_upto :: "hardfork_entry list \<Rightarrow> nat \<Rightarrow> nat set" where
  "eips_upto hfs k = (\<Union>h\<in>set (take (k + 1) hfs). set (hardfork_eips (hf_name h)))"

definition indexed :: "hardfork_entry list \<Rightarrow> frozen_config \<Rightarrow> string \<Rightarrow> bool" where
  "indexed hfs cfg n =
     (case cfg_hardforkIndex cfg n of
        None \<Rightarrow> n \<notin> hf_name ` set hfs \<and> cfg_cumulativeEips cfg n = None
      | Some k \<Rightarrow> k < length hfs \<and> hf_name (hfs ! k) = n
          \<and> (\<exists>c. cfg_cumulativeEips cfg n = Some c \<and> set c = eips_upto hfs k))"

lemma eips_upto_append [simp]: "k < length hfs \<Longrightarrow> eips_upto (hfs @ xs) k = eips_upto hfs k"
  by (simp add: eips_upto_def)

lemma fold_add_hardfork:
  assumes "foldl add_hardfork (empty_config spec, [], 0) hfs = (cfg, cum, i)"
  shows "i = length hfs \<and> cfg_spec cfg = spec
       \<and> set cum = (\<Union>h\<in>set hfs. set (hardfork_eips (hf_name h))) \<and> (\<forall>n. indexed hfs cfg n)"
  using assms
proof (induction hfs arbitrary: cfg cum i rule: rev_induct)
  case Nil
  then show ?case by (auto simp: empty_config_def indexed_def)
next
  case (snoc h hfs)
  obtain cfg0 cum0 i0 where prev: "foldl add_hardfork (empty_config spec, [], 0) hfs = (cfg0, cum0, i0)"
    by (cases "foldl add_hardfork (empty_config spec, [], 0) hfs") auto
  note IH = snoc.IH [OF prev]
  have step: "add_hardfork (cfg0, cum0, i0) h = (cfg, cum, i)" using snoc.prems prev by simp
  have cum: "set cum = (\<Union>h\<in>set (hfs @ [h]). set (hardfork_eips (hf_name h)))"
    using step IH by (auto simp: add_hardfork_def Let_def)
  have upto: "eips_upto (hfs @ [h]) (length hfs) = set cum"
    by (simp add: eips_upto_def cum)
  have "indexed (hfs @ [h]) cfg n" for n
  proof (cases "n = hf_name h")
    case True
    then show ?thesis using step IH upto
      by (auto simp: indexed_def add_hardfork_def Let_def)
  next
    case False
    from IH have "indexed hfs cfg0 n" by simp
    with False step show ?thesis
      by (auto simp: indexed_def add_hardfork_def Let_def nth_append split: option.splits)
  qed
  with step IH cum show ?case by (auto simp: add_hardfork_def Let_def)
qed

definition valid_config :: "frozen_config \<Rightarrow> bool" where
  "valid_config cfg \<longleftrightarrow> (\<exists>spec. validateAndSetChainSchema spec = Inr cfg)"

lemma valid_config_spec:
  assumes "valid_config cfg"
  shows "spec_hardforks (cfg_spec cfg) \<noteq> []" "\<And>n. indexed (spec_hardforks (cfg_spec cfg)) cfg n"
proof -
  obtain spec where v: "validateAndSetChainSchema spec = Inr cfg"
    using assms by (auto simp: valid_config_def)
  obtain cfg' cum i where f: "foldl add_hardfork (empty_config spec, [], 0) (spec_hardforks spec) = (cfg', cum, i)"
    by (cases "foldl add_hardfork (empty_config spec, [], 0) (spec_hardforks spec)") auto
  with v have "cfg' = cfg"
    by (auto simp: validateAndSetChainSchema_def Let_def split: list.splits if_splits)
  with fold_add_hardfork [OF f] have "cfg_spec cfg = spec" "\<forall>n. indexed (spec_hardforks spec) cfg n" by auto
  moreover have "spec_hardforks spec \<noteq> []"
    using v by (auto simp: validateAndSetChainSchema_def)
  ultimately show "spec_hardforks (cfg_spec cfg) \<noteq> []" "\<And>n. indexed (spec_hardforks (cfg_spec cfg)) cfg n"
    by auto
qed

lemma isEIPActive_iff:
  assumes "valid_config cfg"
  shows "isEIPActiveAtHardfork cfg eip hf \<longleftrightarrow>
    (\<exists>k. cfg_hardforkIndex cfg hf = Some k \<and> eip \<in> eips_upto (spec_hardforks (cfg_spec cfg)) k)"
proof (cases "cfg_hardforkIndex cfg hf")
  case None
  with valid_config_spec(2) [OF assms, of hf] show ?thesis
    by (simp add: isEIPActiveAtHardfork_def indexed_def)
next
  case (Some k)
  with valid_config_spec(2) [OF assms, of hf] obtain c
    where "cfg_cumulativeEips cfg hf = Some c" "set c = eips_upto (spec_hardforks (cfg_spec cfg)) k"
    by (auto simp: indexed_def)
  with Some show ?thesis by (simp add: isEIPActiveAtHardfork_def)
qed

lemma eips_upto_mono: "j \<le> k \<Longrightarrow> eips_upto hfs j \<subseteq> eips_upto hfs k"
  unfolding eips_upto_def using set_take_subset_set_take [of "j + 1" "k + 1" hfs]
  by (intro UN_mono) simp_all

text \<open>An EIP that no hardfork lists is active nowhere.\<close>

lemma unlisted_eip_inactive:
  assumes "valid_config cfg" "\<And>hf. eip \<notin> set (hardfork_eips hf)"
  shows "\<not> isEIPActiveAtHardfork cfg eip hf"
  using assms by (auto simp: isEIPActive_iff eips_upto_def)

lemma hardfork_eips_listed:
  "eip \<in> set (hardfork_eips hf) \<Longrightarrow> eip \<in> set (concat (map snd HARDFORK_EIPS_entries))"
proof -
  assume "eip \<in> set (hardfork_eips hf)"
  then obtain eips where "map_of HARDFORK_EIPS_entries hf = Some eips" "eip \<in> set eips"
    by (cases "map_of HARDFORK_EIPS_entries hf") (auto simp: hardfork_eips_def HARDFORK_EIPS_def)
  from map_of_SomeD [OF this(1)] this(2) show ?thesis by force
qed

lemma eip_6800_unlisted: "6800 \<notin> set (hardfork_eips hf)" "7864 \<notin> set (hardfork_eips hf)"
  using hardfork_eips_listed [of 6800 hf] hardfork_eips_listed [of 7864 hf]
  by (auto simp: HARDFORK_EIPS_entries_def)

section \<open>Selecting the hardfork of a block\<close>

lemma scan_down_cases:
  "(scan_down n P = -1 \<and> (\<forall>i<n. \<not> P i)) \<or>
   (\<exists>i. scan_down n P = int i \<and> i < n \<and> P i \<and> (\<forall>j. i < j \<and> j < n \<longrightarrow> \<not> P j))"
  by (induction n) (auto simp: less_Suc_eq)

lemma scan_down_greatest:
  "i < n \<Longrightarrow> P i \<Longrightarrow> int i \<le> scan_down n P"
  using scan_down_cases [of n P] by (metis nat_le_linear not_less of_nat_le_iff order_le_less)

lemma scan_down_mono: "(\<And>i. P i \<Longrightarrow> Q i) \<Longrightarrow> scan_down n P \<le> scan_down n Q"
  using scan_down_cases [of n P] scan_down_cases [of n Q] scan_down_greatest [of _ n Q]
  by fastforce

lemma scan_down_lt: "scan_down n P < int n"
  using scan_down_cases [of n P] by auto

lemma indexOf_lt: "indexOf xs x < int (length xs)"
  by (induction xs) (auto simp: Let_def)

lemma default_index_lt: "spec_hardforks (cfg_spec cfg) \<noteq> [] \<Longrightarrow>
   default_index cfg < int (length (spec_hardforks (cfg_spec cfg)))"
  using indexOf_lt [of "map hf_name (spec_hardforks (cfg_spec cfg))"]
  by (auto simp: default_index_def split: option.split)

text \<open>Entry \<open>i\<close> is activated by the block number or by the timestamp.\<close>

definition activated :: "frozen_config \<Rightarrow> int option \<Rightarrow> int option \<Rightarrow> nat \<Rightarrow> bool" where
  "activated cfg b t i \<longleftrightarrow>
     (\<exists>b0 b1. b = Some b0 \<and> hf_block (spec_hardforks (cfg_spec cfg) ! i) = Some b1 \<and> b1 \<le> b0)
     \<or> (\<exists>t0 t1. t = Some t0 \<and> hf_timestamp (spec_hardforks (cfg_spec cfg) ! i) = Some t1 \<and> t1 \<le> t0)"

lemma activated_reached:
  "activated cfg b t i =
     ((case b of None \<Rightarrow> False | Some b \<Rightarrow> reached_block b (spec_hardforks (cfg_spec cfg) ! i)) \<or>
      (case t of None \<Rightarrow> False | Some t \<Rightarrow> reached_time t (spec_hardforks (cfg_spec cfg) ! i)))"
  by (auto simp: activated_def reached_block_def reached_time_def split: option.splits)

lemma scan_down_ge: "-1 \<le> scan_down n P"
  using scan_down_cases [of n P] by auto

lemma scan_down_or:
  "max (scan_down n P) (scan_down n Q) = scan_down n (\<lambda>i. P i \<or> Q i)"
  using scan_down_ge [of _ P] scan_down_ge [of _ Q] scan_down_lt [of _ P] scan_down_lt [of _ Q]
  by (induction n) (auto simp: max_def order_less_le, (smt (verit))+)

lemma scan_down_False [simp]: "scan_down n (\<lambda>i. False) = -1"
  by (induction n) simp_all

lemma result_index_scan:
  "result_index cfg b t = (let r = scan_down (length (spec_hardforks (cfg_spec cfg))) (activated cfg b t)
     in if default_index cfg \<ge> 0 \<and> r < default_index cfg then default_index cfg else r)"
proof -
  have "activated cfg b t = (\<lambda>i. (case b of None \<Rightarrow> False | Some b \<Rightarrow> reached_block b (spec_hardforks (cfg_spec cfg) ! i)) \<or>
      (case t of None \<Rightarrow> False | Some t \<Rightarrow> reached_time t (spec_hardforks (cfg_spec cfg) ! i)))"
    by (simp add: fun_eq_iff activated_reached)
  then have "max (case b of None \<Rightarrow> -1 | Some b \<Rightarrow> scan_down (length (spec_hardforks (cfg_spec cfg)))
                (\<lambda>i. reached_block b (spec_hardforks (cfg_spec cfg) ! i)))
          (case t of None \<Rightarrow> -1 | Some t \<Rightarrow> scan_down (length (spec_hardforks (cfg_spec cfg)))
                (\<lambda>i. reached_time t (spec_hardforks (cfg_spec cfg) ! i)))
      = scan_down (length (spec_hardforks (cfg_spec cfg))) (activated cfg b t)"
    by (cases b; cases t) (simp_all add: scan_down_or max_absorb1 max_absorb2 scan_down_ge)
  then show ?thesis by (simp only: result_index_def Let_def)
qed

lemma activated_mono:
  "\<lbrakk>activated cfg (Some b) (Some t) i; b \<le> b'; t \<le> t'\<rbrakk> \<Longrightarrow> activated cfg (Some b') (Some t') i"
  by (auto simp: activated_reached reached_block_def reached_time_def split: option.splits)

section \<open>Parameters\<close>

lemma merge_params_at: "merge_params m eip p = pick_param p (m p) eip"
  by (cases "EIP_PARAMS eip") (simp_all add: merge_params_def pick_param_def map_add_def)

lemma merge_params_fold: "foldl merge_params m eips p = foldl (pick_param p) (m p) eips"
  by (induction eips arbitrary: m) (simp_all add: merge_params_at)

lemma pick_param_fold:
  "foldl (pick_param p) r eips = (case foldl (pick_param p) None eips of None \<Rightarrow> r | Some v \<Rightarrow> Some v)"
proof (induction eips arbitrary: r rule: rev_induct)
  case (snoc e es)
  show ?case
    unfolding foldl_append foldl_Cons foldl_Nil snoc.IH [of r]
    by (cases "EIP_PARAMS e") (simp_all add: pick_param_def split: option.split)
qed simp

lemma getParams_fold:
  "foldl (\<lambda>r hf. foldl (pick_param p) r (hardfork_eips (hf_name hf))) (m p) hfs
   = foldl (\<lambda>m hf. m ++ foldl merge_params (\<lambda>_. None) (hardfork_eips (hf_name hf))) m hfs p"
proof (induction hfs arbitrary: m)
  case (Cons h hs)
  have "foldl (pick_param p) (m p) (hardfork_eips (hf_name h))
      = (m ++ foldl merge_params (\<lambda>_. None) (hardfork_eips (hf_name h))) p"
    by (subst pick_param_fold) (simp add: map_add_def merge_params_fold)
  then show ?case by (simp add: Cons)
qed simp

text \<open>A parameter that only EIP 1 sets is the same at every hardfork.\<close>

text \<open>The parameters that no EIP after the first table changes.\<close>

definition later_names :: "string list" where
  "later_names = concat (map (\<lambda>(eip, ps). if eip = 1 then [] else map fst ps) EIP_PARAMS_entries)"

lemmas later_names_list = later_names_def [unfolded EIP_PARAMS_entries_def param_tables, simplified]

definition only_eip1 :: "string \<Rightarrow> bool" where
  "only_eip1 p \<longleftrightarrow> p \<notin> set later_names"

lemma pick_param_only:
  assumes "only_eip1 p" "map_of EIP1_PARAMS p = Some v" "r = Some v"
  shows "pick_param p r eip = Some v"
proof (cases "EIP_PARAMS eip")
  case (Some ps)
  then have mem: "(eip, ps) \<in> set EIP_PARAMS_entries" by (simp add: EIP_PARAMS_def map_of_SomeD)
  show ?thesis
  proof (cases "eip = 1")
    case True
    then have "ps = EIP1_PARAMS" using Some by (simp add: EIP_PARAMS_def EIP_PARAMS_entries_def)
    then show ?thesis using Some assms by (simp add: pick_param_def)
  next
    case False
    with mem assms(1) have "map_of ps p = None"
      by (force simp: only_eip1_def later_names_def map_of_eq_None_iff)
    then show ?thesis using Some assms by (simp add: pick_param_def)
  qed
qed (use assms in \<open>simp add: pick_param_def\<close>)

lemma foldl_fixed: "(\<And>x. f r x = r) \<Longrightarrow> foldl f r xs = r"
  by (induction xs) simp_all

lemma getParam_only_eip1:
  assumes "only_eip1 p" "map_of EIP1_PARAMS p = Some v"
  shows "getParamAtHardfork cfg p hf = Some v"
  by (auto simp: getParamAtHardfork_def Let_def assms pick_param_only [OF assms refl] foldl_fixed
           split: option.split)

lemma getParam_in_tables:
  assumes "getParamAtHardfork cfg name hf = Some p"
  shows "(name, p) \<in> set EIP1_PARAMS \<or> (\<exists>(eip, ps) \<in> set EIP_PARAMS_entries. (name, p) \<in> set ps)"
proof -
  define good where "good r \<longleftrightarrow> (\<forall>p. r = Some p \<longrightarrow> (name, p) \<in> set EIP1_PARAMS
    \<or> (\<exists>(eip, ps) \<in> set EIP_PARAMS_entries. (name, p) \<in> set ps))" for r
  have pick: "good r \<Longrightarrow> good (pick_param name r eip)" for r eip
    by (fastforce simp: good_def pick_param_def EIP_PARAMS_def split: option.splits dest: map_of_SomeD)
  have picks: "good r \<Longrightarrow> good (foldl (pick_param name) r eips)" for r eips
    by (induction eips arbitrary: r) (auto intro: pick)
  have forks: "good r \<Longrightarrow> good (foldl (\<lambda>r hf. foldl (pick_param name) r (hardfork_eips (hf_name hf))) r hfs)" for r hfs
    by (induction hfs arbitrary: r) (auto intro: picks)
  have "good (map_of EIP1_PARAMS name)" by (auto simp: good_def dest: map_of_SomeD)
  then have "good (getParamAtHardfork cfg name hf)"
    by (auto simp: getParamAtHardfork_def Let_def intro: forks split: option.split)
  then show ?thesis using assms by (simp add: good_def)
qed

text \<open>A parameter has a value wherever an EIP that sets it is active.\<close>

lemma pick_keeps: "r \<noteq> None \<Longrightarrow> foldl (pick_param name) r eips \<noteq> None"
  by (induction eips arbitrary: r) (auto simp: pick_param_def split: option.split)

lemma picks_keep: "r \<noteq> None \<Longrightarrow> foldl (\<lambda>r hf. foldl (pick_param name) r (hardfork_eips (hf_name hf))) r hfs \<noteq> None"
proof (induction hfs arbitrary: r)
  case (Cons h hfs)
  then show ?case using pick_keeps [OF Cons.prems, of name "hardfork_eips (hf_name h)"] by (simp del: not_None_eq)
qed simp

lemma pick_sets: "eip \<in> set eips \<Longrightarrow> EIP_PARAMS eip = Some ps \<Longrightarrow> map_of ps name \<noteq> None \<Longrightarrow> foldl (pick_param name) r eips \<noteq> None"
proof (induction eips arbitrary: r)
  case (Cons e eips)
  show ?case
  proof (cases "e = eip")
    case True
    then have "pick_param name r e \<noteq> None" using Cons.prems by (auto simp: pick_param_def)
    then show ?thesis using pick_keeps [of "pick_param name r e" name eips] by simp
  qed (use Cons in simp)
qed simp

lemma getParam_active:
  assumes "valid_config cfg" "isEIPActiveAtHardfork cfg eip hf" "EIP_PARAMS eip = Some ps" "map_of ps name \<noteq> None"
  shows "getParamAtHardfork cfg name hf \<noteq> None"
proof -
  obtain k h where k: "cfg_hardforkIndex cfg hf = Some k" "h \<in> set (take (k + 1) (spec_hardforks (cfg_spec cfg)))"
    "eip \<in> set (hardfork_eips (hf_name h))" using assms(1,2) by (auto simp: isEIPActive_iff eips_upto_def)
  obtain as bs where split: "take (k + 1) (spec_hardforks (cfg_spec cfg)) = as @ h # bs" using k(2) split_list by fastforce
  show ?thesis using k(1) split picks_keep [OF pick_sets [OF k(3) assms(3,4)], where hfs = bs]
    by (simp add: getParamAtHardfork_def Let_def del: not_None_eq)
qed

text \<open>Looking up a literal name in a literal table.\<close>

lemmas table_lookup = map_of_Cons_code(2) if_True if_False list.inject list.distinct char.inject simp_thms

lemma constant_params [simp]:
  "getParamAtHardfork cfg ''memoryGas'' hf = Some (PBig 3)"
  "getParamAtHardfork cfg ''quadCoefficientDivGas'' hf = Some (PBig 512)"
  "getParamAtHardfork cfg ''callStipendGas'' hf = Some (PBig 2300)"
  "getParamAtHardfork cfg ''callValueTransferGas'' hf = Some (PBig 9000)"
  "getParamAtHardfork cfg ''jumpGas'' hf = Some (PBig 8)"
  "getParamAtHardfork cfg ''jumpiGas'' hf = Some (PBig 10)"
  "getParamAtHardfork cfg ''stackLimit'' hf = Some (PNum 1024)"
  by (rule getParam_only_eip1,
      simp add: only_eip1_def later_names_list, simp only: EIP1_PARAMS_def table_lookup)+

section \<open>Properties\<close>

text \<open>C4: In every configuration that validation builds, an EIP is active at a hardfork exactly
  when the chain lists the hardfork and some entry at or before it activates the EIP; so no
  hardfork deactivates an EIP: what is active at a listed hardfork stays active at every listed
  hardfork that \<open>hardforkGte\<close> puts at or after it.\<close>

theorem eip_activation_cumulative:
  assumes "valid_config cfg"
  shows "(isEIPActiveAtHardfork cfg eip hf \<longleftrightarrow>
           (\<exists>k. cfg_hardforkIndex cfg hf = Some k \<and>
             (\<exists>h\<in>set (take (k + 1) (spec_hardforks (cfg_spec cfg))). eip \<in> set (hardfork_eips (hf_name h)))))
       \<and> (\<forall>hf'. isEIPActiveAtHardfork cfg eip hf \<and> cfg_hardforkIndex cfg hf' \<noteq> None
             \<and> hardforkGte cfg hf' hf \<longrightarrow> isEIPActiveAtHardfork cfg eip hf')"
proof (intro conjI allI impI)
  show "isEIPActiveAtHardfork cfg eip hf \<longleftrightarrow>
           (\<exists>k. cfg_hardforkIndex cfg hf = Some k \<and>
             (\<exists>h\<in>set (take (k + 1) (spec_hardforks (cfg_spec cfg))). eip \<in> set (hardfork_eips (hf_name h))))"
    by (simp add: isEIPActive_iff [OF assms] eips_upto_def)
  fix hf' assume h: "isEIPActiveAtHardfork cfg eip hf \<and> cfg_hardforkIndex cfg hf' \<noteq> None \<and> hardforkGte cfg hf' hf"
  then obtain k k' where "cfg_hardforkIndex cfg hf = Some k" "cfg_hardforkIndex cfg hf' = Some k'" "k \<le> k'"
    "eip \<in> eips_upto (spec_hardforks (cfg_spec cfg)) k"
    by (auto simp: isEIPActive_iff [OF assms] isHardforkAfter_def)
  then show "isEIPActiveAtHardfork cfg eip hf'"
    using eips_upto_mono [of k k'] by (auto simp: isEIPActive_iff [OF assms])
qed

text \<open>C3: \<open>getHardforkByBlock\<close> answers with the latest entry of the chain that the block number or
  the timestamp activates, raised to the chain's default hardfork when that is later, and the
  answer never goes back as the block number and the timestamp grow.\<close>

theorem hardfork_by_block_latest:
  assumes "valid_config cfg" "i < length (spec_hardforks (cfg_spec cfg))" "activated cfg b t i"
  shows "\<exists>r. result_index cfg b t = int r \<and> r < length (spec_hardforks (cfg_spec cfg))
      \<and> getHardforkByBlock cfg b t = hf_name (spec_hardforks (cfg_spec cfg) ! r)
      \<and> i \<le> r \<and> default_index cfg \<le> int r \<and> (activated cfg b t r \<or> int r = default_index cfg)
      \<and> (\<forall>b0 t0 b' t'. b = Some b0 \<and> t = Some t0 \<and> b0 \<le> b' \<and> t0 \<le> t' \<longrightarrow>
           result_index cfg b t \<le> result_index cfg (Some b') (Some t'))"
proof -
  let ?n = "length (spec_hardforks (cfg_spec cfg))"
  let ?s = "scan_down ?n (activated cfg b t)"
  have i: "int i \<le> ?s" using assms(2,3) by (rule scan_down_greatest)
  from scan_down_cases [of ?n "activated cfg b t"] i
  have s: "?s < int ?n" "activated cfg b t (nat ?s)" by auto
  have d: "default_index cfg < int ?n"
    by (rule default_index_lt [OF valid_config_spec(1) [OF assms(1)]])
  have res: "result_index cfg b t = max (default_index cfg) ?s"
    using i by (auto simp: result_index_scan Let_def max_def)
  have "0 \<le> max (default_index cfg) ?s" using i by linarith
  then obtain r where max: "max (default_index cfg) ?s = int r" by (rule nonneg_int_cases) blast
  with res have r: "result_index cfg b t = int r" by simp
  have mono: "result_index cfg (Some b0) (Some t0) \<le> result_index cfg (Some b') (Some t')"
    if "b0 \<le> b'" "t0 \<le> t'" for b0 t0 b' t'
    using scan_down_mono [of "activated cfg (Some b0) (Some t0)" "activated cfg (Some b') (Some t')" ?n]
          activated_mono that by (auto simp: result_index_scan Let_def)
  show ?thesis
  proof (intro exI [of _ r] conjI)
    show "result_index cfg b t = int r" by (rule r)
    show "r < ?n" using s(1) d max by linarith
    show "getHardforkByBlock cfg b t = hf_name (spec_hardforks (cfg_spec cfg) ! r)"
      using r by (simp add: getHardforkByBlock_def Let_def)
    show "i \<le> r" "default_index cfg \<le> int r" using i max by linarith+
    show "activated cfg b t r \<or> int r = default_index cfg"
    proof (cases "?s = int r")
      case True
      with s(2) show ?thesis by simp
    next
      case False
      with max show ?thesis by linarith
    qed
    show "\<forall>b0 t0 b' t'. b = Some b0 \<and> t = Some t0 \<and> b0 \<le> b' \<and> t0 \<le> t' \<longrightarrow>
           result_index cfg b t \<le> result_index cfg (Some b') (Some t')"
      using mono by blast
  qed
qed

text \<open>C5: Looking one parameter up and building the whole parameter table of a hardfork agree at
  every known hardfork: \<open>getParamAtHardfork\<close> is the entry of \<open>getParamsAtHardfork\<close>, and the value
  of EIP 1 where the table has none.\<close>

theorem getParam_agrees_with_table:
  "cfg_hardforkIndex cfg hf \<noteq> None \<Longrightarrow>
   getParamAtHardfork cfg p hf =
     (case getParamsAtHardfork cfg hf p of Some v \<Rightarrow> Some v | None \<Rightarrow> map_of EIP1_PARAMS p)"
proof -
  assume "cfg_hardforkIndex cfg hf \<noteq> None"
  then obtain k where k: "cfg_hardforkIndex cfg hf = Some k" by blast
  let ?hfs = "take (k + 1) (spec_hardforks (cfg_spec cfg))"
  have add: "foldl (\<lambda>m hf. m ++ f hf) a hfs = a ++ foldl (\<lambda>m hf. m ++ f hf) (\<lambda>_. None) hfs" for a f hfs
    by (induction hfs rule: rev_induct) simp_all
  show ?thesis
    using getParams_fold [of p "map_of EIP1_PARAMS" ?hfs]
    by (simp add: getParamAtHardfork_def getParamsAtHardfork_def k Let_def)
       (subst add, simp add: map_add_def)
qed

section \<open>A concrete chain\<close>

definition tiny_spec :: chain_spec where
  "tiny_spec = \<lparr>spec_hardforks = [
       \<lparr>hf_name = ''chainstart'', hf_block = Some 0, hf_timestamp = None\<rparr>,
       \<lparr>hf_name = ''homestead'', hf_block = Some 5, hf_timestamp = None\<rparr>,
       \<lparr>hf_name = ''shanghai'', hf_block = None, hf_timestamp = Some 100\<rparr>],
     spec_chainId = 7, spec_chain = None\<rparr>"

definition tiny_config :: frozen_config where
  "tiny_config = fst (foldl add_hardfork (empty_config tiny_spec, [], 0) (spec_hardforks tiny_spec))"

lemma tiny_valid: "valid_config tiny_config"
proof -
  have "map (indexOf HARDFORK_ORDER) [''chainstart'', ''homestead'', ''shanghai''] = [0, 1, 16]"
    by (simp add: HARDFORK_ORDER_def)
  then have "\<not> (\<exists>i\<in>set [0..<3]. \<exists>j\<in>set [0..<i]. misplaced [''chainstart'', ''homestead'', ''shanghai''] i j)"
    by (auto simp: misplaced_def Let_def numeral_3_eq_3 less_Suc_eq nth_Cons')
  then have "validateAndSetChainSchema tiny_spec = Inr tiny_config"
    by (simp add: validateAndSetChainSchema_def tiny_config_def tiny_spec_def)
  then show ?thesis unfolding valid_config_def by blast
qed

lemma tiny_spec_hardforks: "cfg_spec tiny_config = tiny_spec"
  by (simp add: tiny_config_def tiny_spec_def add_hardfork_def empty_config_def Let_def)

lemma tiny_index:
  "cfg_hardforkIndex tiny_config ''homestead'' = Some 1" "cfg_hardforkIndex tiny_config ''shanghai'' = Some 2"
  by (simp_all add: tiny_config_def tiny_spec_def add_hardfork_def empty_config_def Let_def)

lemma tiny_eips: "hardfork_eips ''chainstart'' = [1]" "hardfork_eips ''homestead'' = [606]"
    "hardfork_eips ''shanghai'' = [3651, 3855, 3860, 4895]"
  unfolding hardfork_eips_def HARDFORK_EIPS_def HARDFORK_EIPS_entries_def
  by (simp_all only: table_lookup option.case)

lemma tiny_active: "isEIPActiveAtHardfork tiny_config eip ''shanghai'' \<longleftrightarrow> eip \<in> {1, 606, 3651, 3855, 3860, 4895}"
  by (auto simp: isEIPActive_iff [OF tiny_valid] tiny_index tiny_spec_hardforks tiny_spec_def eips_upto_def tiny_eips)

theorem eip_activation_cumulative_witness:
  "isEIPActiveAtHardfork tiny_config 606 ''homestead'' \<and> isEIPActiveAtHardfork tiny_config 606 ''shanghai''"
proof
  show home: "isEIPActiveAtHardfork tiny_config 606 ''homestead''"
    using eip_activation_cumulative [OF tiny_valid, of 606 "''homestead''"]
    by (auto simp: tiny_index tiny_spec_hardforks tiny_spec_def hardfork_eips_def HARDFORK_EIPS_def
             HARDFORK_EIPS_entries_def)
  have "hardforkGte tiny_config ''shanghai'' ''homestead''" by (simp add: isHardforkAfter_def tiny_index)
  with home eip_activation_cumulative [OF tiny_valid, of 606 "''homestead''"] tiny_index(2)
  show "isEIPActiveAtHardfork tiny_config 606 ''shanghai''" by blast
qed

theorem hardfork_by_block_latest_witness:
  "\<exists>r. r < 3 \<and> 1 \<le> r \<and> activated tiny_config (Some 9) (Some 50) 1
     \<and> getHardforkByBlock tiny_config (Some 9) (Some 50) = hf_name (spec_hardforks tiny_spec ! r)"
proof -
  have len: "length (spec_hardforks tiny_spec) = 3" by (simp add: tiny_spec_def)
  have act: "activated tiny_config (Some 9) (Some 50) 1"
    by (simp add: tiny_spec_hardforks tiny_spec_def activated_reached reached_block_def)
  have "1 < length (spec_hardforks (cfg_spec tiny_config))" by (simp add: tiny_spec_hardforks len)
  from hardfork_by_block_latest [OF tiny_valid this act] act
  show ?thesis unfolding tiny_spec_hardforks len by blast
qed

theorem getParam_agrees_with_table_witness:
  "getParamAtHardfork tiny_config ''memoryGas'' ''homestead'' =
     (case getParamsAtHardfork tiny_config ''homestead'' ''memoryGas'' of Some v \<Rightarrow> Some v
      | None \<Rightarrow> map_of EIP1_PARAMS ''memoryGas'')"
  by (rule getParam_agrees_with_table) (simp add: tiny_index)

end
