(* ===== verification/ChainPresets.thy ===== *)
theory ChainPresets
  imports Hardforks
begin

text \<open>
  The chain presets of \<open>src/packages/chain-config/src/chains/presets/chains.ts\<close> as far as the
  hardfork manager reads them (boot nodes, DNS names, genesis fields and fork hashes are not
  modelled), and what the manager answers for them.
\<close>

definition hf_at :: "string \<Rightarrow> int \<Rightarrow> hardfork_entry" where
  "hf_at name b = \<lparr>hf_name = name, hf_block = Some b, hf_timestamp = None\<rparr>"

definition hf_ts :: "string \<Rightarrow> int \<Rightarrow> hardfork_entry" where
  "hf_ts name t = \<lparr>hf_name = name, hf_block = None, hf_timestamp = Some t\<rparr>"

definition hf_off :: "string \<Rightarrow> hardfork_entry" where
  "hf_off name = \<lparr>hf_name = name, hf_block = None, hf_timestamp = None\<rparr>"

definition Mainnet :: chain_config where
  "Mainnet = \<lparr>chain_cfg_name = ''mainnet'', chain_cfg_chainId = 1,
     defaultHardfork = Some ''prague'', consensus_type = ''pow'', consensus_algorithm = ''ethash'',
     chain_cfg_hardforks = [
       hf_at ''chainstart'' 0, hf_at ''homestead'' 1150000, hf_at ''dao'' 1920000,
       hf_at ''tangerineWhistle'' 2463000, hf_at ''spuriousDragon'' 2675000,
       hf_at ''byzantium'' 4370000, hf_at ''constantinople'' 7280000,
       hf_at ''petersburg'' 7280000, hf_at ''istanbul'' 9069000, hf_at ''muirGlacier'' 9200000,
       hf_at ''berlin'' 12244000, hf_at ''london'' 12965000, hf_at ''arrowGlacier'' 13773000,
       hf_at ''grayGlacier'' 15050000, hf_at ''paris'' 15537394, hf_off ''mergeNetsplitBlock'',
       hf_ts ''shanghai'' 1681338455, hf_ts ''cancun'' 1710338135, hf_ts ''prague'' 1746612311,
       hf_ts ''osaka'' 1764798551, hf_ts ''bpo1'' 1765290071, hf_ts ''bpo2'' 1767747671]\<rparr>"

definition Sepolia :: chain_config where
  "Sepolia = \<lparr>chain_cfg_name = ''sepolia'', chain_cfg_chainId = 11155111,
     defaultHardfork = Some ''prague'', consensus_type = ''pow'', consensus_algorithm = ''ethash'',
     chain_cfg_hardforks = [
       hf_at ''chainstart'' 0, hf_at ''homestead'' 0, hf_at ''tangerineWhistle'' 0,
       hf_at ''spuriousDragon'' 0, hf_at ''byzantium'' 0, hf_at ''constantinople'' 0,
       hf_at ''petersburg'' 0, hf_at ''istanbul'' 0, hf_at ''muirGlacier'' 0, hf_at ''berlin'' 0,
       hf_at ''london'' 0, hf_at ''paris'' 1450409, hf_at ''mergeNetsplitBlock'' 1735371,
       hf_ts ''shanghai'' 1677557088, hf_ts ''cancun'' 1706655072, hf_ts ''prague'' 1741159776,
       hf_ts ''osaka'' 1760427360, hf_ts ''bpo1'' 1761017184, hf_ts ''bpo2'' 1761607008]\<rparr>"

definition Holesky :: chain_config where
  "Holesky = \<lparr>chain_cfg_name = ''holesky'', chain_cfg_chainId = 17000,
     defaultHardfork = Some ''prague'', consensus_type = ''pos'', consensus_algorithm = ''casper'',
     chain_cfg_hardforks = [
       hf_at ''chainstart'' 0, hf_at ''homestead'' 0, hf_at ''tangerineWhistle'' 0,
       hf_at ''spuriousDragon'' 0, hf_at ''byzantium'' 0, hf_at ''constantinople'' 0,
       hf_at ''petersburg'' 0, hf_at ''istanbul'' 0, hf_at ''muirGlacier'' 0, hf_at ''berlin'' 0,
       hf_at ''london'' 0, hf_at ''paris'' 0, hf_at ''mergeNetsplitBlock'' 0,
       hf_ts ''shanghai'' 1696000704, hf_ts ''cancun'' 1707305664, hf_ts ''prague'' 1740434112,
       hf_ts ''osaka'' 1759308480, hf_ts ''bpo1'' 1759800000, hf_ts ''bpo2'' 1760389824]\<rparr>"

definition Hoodi :: chain_config where
  "Hoodi = \<lparr>chain_cfg_name = ''hoodi'', chain_cfg_chainId = 560048,
     defaultHardfork = Some ''cancun'', consensus_type = ''pos'', consensus_algorithm = ''casper'',
     chain_cfg_hardforks = [
       hf_at ''chainstart'' 0, hf_at ''homestead'' 0, hf_at ''tangerineWhistle'' 0,
       hf_at ''spuriousDragon'' 0, hf_at ''byzantium'' 0, hf_at ''constantinople'' 0,
       hf_at ''petersburg'' 0, hf_at ''istanbul'' 0, hf_at ''muirGlacier'' 0, hf_at ''berlin'' 0,
       hf_at ''london'' 0, hf_at ''paris'' 0, hf_at ''mergeNetsplitBlock'' 0,
       hf_ts ''shanghai'' 0, hf_ts ''cancun'' 0, hf_ts ''prague'' 1742999832,
       hf_ts ''osaka'' 1761677592, hf_ts ''bpo1'' 1762365720, hf_ts ''bpo2'' 1762955544]\<rparr>"

section \<open>Validation\<close>

lemma sorted_not_misplaced:
  assumes "sorted (map (indexOf HARDFORK_ORDER) names)" "i < length names" "j < i"
  shows "\<not> misplaced names i j"
proof -
  have "map (indexOf HARDFORK_ORDER) names ! j \<le> map (indexOf HARDFORK_ORDER) names ! i"
    using assms by (intro sorted_nth_mono) auto
  then show ?thesis using assms by (auto simp: misplaced_def Let_def)
qed

lemma validate_ok:
  assumes "spec_hardforks spec = h # hs" "hf_block h = Some 0 \<or> hf_block h = None"
    "sorted (map (indexOf HARDFORK_ORDER) (map hf_name (spec_hardforks spec)))" "0 < spec_chainId spec"
  shows "\<exists>cfg. validateAndSetChainSchema spec = Inr cfg \<and> cfg_spec cfg = spec"
proof -
  have "\<not> (\<exists>i\<in>set [0..<length (map hf_name (spec_hardforks spec))]. \<exists>j\<in>set [0..<i].
             misplaced (map hf_name (spec_hardforks spec)) i j)"
    using sorted_not_misplaced [OF assms(3)] by auto
  then have v: "validateAndSetChainSchema spec
      = Inr (fst (foldl add_hardfork (empty_config spec, [], 0) (spec_hardforks spec)))"
    unfolding validateAndSetChainSchema_def Let_def using assms(1,2,4) by (simp only: list.case if_False) auto
  obtain cfg cum i where f: "foldl add_hardfork (empty_config spec, [], 0) (spec_hardforks spec) = (cfg, cum, i)"
    by (cases "foldl add_hardfork (empty_config spec, [], 0) (spec_hardforks spec)") auto
  from fold_add_hardfork [OF f] v f show ?thesis by auto
qed

lemmas preset_defs = hf_at_def hf_ts_def hf_off_def

lemma preset_valid:
  assumes "chain_cfg_hardforks c = hf_at n 0 # hs" "0 < chain_cfg_chainId c"
    "sorted (map (indexOf HARDFORK_ORDER) (map hf_name (chain_cfg_hardforks c)))"
  shows "\<exists>cfg. createHardforkManagerFromConfig c = Inr cfg
     \<and> cfg_spec cfg = \<lparr>spec_hardforks = chain_cfg_hardforks c, spec_chainId = chain_cfg_chainId c, spec_chain = Some c\<rparr>"
  unfolding createHardforkManagerFromConfig_def
proof (rule validate_ok [of _ "hf_at n 0" hs])
  let ?spec = "\<lparr>spec_hardforks = chain_cfg_hardforks c, spec_chainId = chain_cfg_chainId c, spec_chain = Some c\<rparr>"
  show "sorted (map (indexOf HARDFORK_ORDER) (map hf_name (spec_hardforks ?spec)))"
    unfolding chain_spec.simps by (rule assms(3))
qed (simp_all add: assms(1,2) hf_at_def)

definition preset_names :: "string list" where
  "preset_names = [''chainstart'', ''homestead'', ''tangerineWhistle'', ''spuriousDragon'', ''byzantium'',
     ''constantinople'', ''petersburg'', ''istanbul'', ''muirGlacier'', ''berlin'', ''london'', ''paris'',
     ''mergeNetsplitBlock'', ''shanghai'', ''cancun'', ''prague'', ''osaka'', ''bpo1'', ''bpo2'']"

lemma preset_names_sorted: "sorted (map (indexOf HARDFORK_ORDER) preset_names)"
  by (simp add: preset_names_def HARDFORK_ORDER_def)

lemma Mainnet_sorted: "sorted (map (indexOf HARDFORK_ORDER) (map hf_name (chain_cfg_hardforks Mainnet)))"
  by (simp add: Mainnet_def preset_defs HARDFORK_ORDER_def)

lemma Mainnet_simps:
  "chain_cfg_hardforks Mainnet = hf_at ''chainstart'' 0 # tl (chain_cfg_hardforks Mainnet)"
  "chain_cfg_chainId Mainnet = 1" "defaultHardfork Mainnet = Some ''prague''"
  by (simp_all add: Mainnet_def)

lemma testnet_names:
  "map hf_name (chain_cfg_hardforks Sepolia) = preset_names"
  "map hf_name (chain_cfg_hardforks Holesky) = preset_names"
  "map hf_name (chain_cfg_hardforks Hoodi) = preset_names"
  by (simp_all add: Sepolia_def Holesky_def Hoodi_def preset_names_def preset_defs)

lemma testnet_simps:
  "chain_cfg_hardforks Sepolia = hf_at ''chainstart'' 0 # tl (chain_cfg_hardforks Sepolia)"
  "chain_cfg_hardforks Holesky = hf_at ''chainstart'' 0 # tl (chain_cfg_hardforks Holesky)"
  "chain_cfg_hardforks Hoodi = hf_at ''chainstart'' 0 # tl (chain_cfg_hardforks Hoodi)"
  "0 < chain_cfg_chainId Sepolia" "0 < chain_cfg_chainId Holesky" "0 < chain_cfg_chainId Hoodi"
  by (simp_all add: Sepolia_def Holesky_def Hoodi_def)

lemma Mainnet_valid:
  "\<exists>cfg. createHardforkManagerFromConfig Mainnet = Inr cfg \<and> cfg_spec cfg =
     \<lparr>spec_hardforks = chain_cfg_hardforks Mainnet, spec_chainId = 1, spec_chain = Some Mainnet\<rparr>"
proof -
  have "0 < chain_cfg_chainId Mainnet" by (simp only: Mainnet_simps)
  from preset_valid [OF Mainnet_simps(1) this Mainnet_sorted] show ?thesis
    by (simp only: Mainnet_simps(2))
qed

section \<open>Mainnet's default hardfork\<close>

lemma Mainnet_timing:
  "i < 22 \<Longrightarrow> i > 18 \<Longrightarrow> hf_block (chain_cfg_hardforks Mainnet ! i) = None
      \<and> (\<exists>t. hf_timestamp (chain_cfg_hardforks Mainnet ! i) = Some t \<and> 1764798551 \<le> t)"
proof -
  assume "i < 22" "i > 18"
  then consider "i = 19" | "i = 20" | "i = 21" by linarith
  then show ?thesis by cases (simp_all add: Mainnet_def preset_defs)
qed

lemma Mainnet_length: "length (chain_cfg_hardforks Mainnet) = 22"
  by (simp add: Mainnet_def)

lemma Mainnet_default_index:
  "indexOf (map hf_name (chain_cfg_hardforks Mainnet)) ''prague'' = 18"
  "hf_name (chain_cfg_hardforks Mainnet ! 18) = ''prague''"
  by (simp_all add: Mainnet_def preset_defs)

text \<open>The Mainnet preset names prague as its default hardfork, and the manager treats that as
  a floor: before the Osaka timestamp every block of the chain, the genesis block included, is
  executed under the rules of Prague, whatever its number.\<close>

theorem Mainnet_floor_is_prague:
  assumes "createHardforkManagerFromConfig Mainnet = Inr cfg"
    and "case t of None \<Rightarrow> True | Some ts \<Rightarrow> ts < 1764798551"
  shows "getHardforkByBlock cfg (Some b) t = ''prague''"
proof -
  from Mainnet_valid assms(1) have spec: "cfg_spec cfg =
     \<lparr>spec_hardforks = chain_cfg_hardforks Mainnet, spec_chainId = 1, spec_chain = Some Mainnet\<rparr>"
    by auto
  then have d: "default_index cfg = 18"
    by (simp add: default_index_def Mainnet_simps(3) Mainnet_default_index(1))
  have "\<not> activated cfg (Some b) t i" if "i < 22" "18 < i" for i
    using Mainnet_timing [OF that] assms(2)
    by (auto simp: activated_reached spec reached_block_def reached_time_def split: option.splits)
  then have "scan_down 22 (activated cfg (Some b) t) \<le> 18"
    using scan_down_cases [of 22 "activated cfg (Some b) t"] by force
  then have "result_index cfg (Some b) t = 18"
    by (auto simp: result_index_scan Let_def d spec Mainnet_length)
  then show ?thesis
    by (simp add: getHardforkByBlock_def Let_def spec Mainnet_default_index(2))
qed

theorem Mainnet_floor_is_prague_witness:
  "\<exists>cfg. createHardforkManagerFromConfig Mainnet = Inr cfg
      \<and> getHardforkByBlock cfg (Some 0) None = ''prague''
      \<and> getHardforkByBlock cfg (Some 12965000) (Some 1628166822) = ''prague''"
proof -
  obtain cfg where "createHardforkManagerFromConfig Mainnet = Inr cfg" using Mainnet_valid by blast
  then show ?thesis
    using Mainnet_floor_is_prague [of cfg None 0] Mainnet_floor_is_prague [of cfg "Some 1628166822" 12965000]
    by simp
qed

end
