(* ===== verification/Bytes.thy ===== *)
theory Bytes
  imports Prelude
begin

text \<open>
  Byte arrays and hexadecimal strings: \<open>src/packages/utils/src/bytes.ts\<close> and
  \<open>internal.ts\<close>. A Uint8Array is a list of 8-bit words, a string a char list. The two
  conversions the file imports from the package ethereum-cryptography are the parameter
  \<open>externals\<close>; what the code relies on is \<open>noble_ok\<close>, their documented behaviour. The lemmas
  show that the conversions through hexadecimal text compute the big-endian value.
\<close>

type_synonym byte = "8 word"
type_synonym bytes = "byte list"

section \<open>Third-party functions\<close>

record externals =
  noble_bytesToHex :: "bytes \<Rightarrow> string"
  noble_hexToBytes :: "string \<Rightarrow> exn + bytes"
  keccak256 :: "bytes \<Rightarrow> bytes"

section \<open>Hexadecimal text\<close>

definition hex_digit :: "nat \<Rightarrow> char" where
  "hex_digit d = ''0123456789abcdef'' ! d"

definition hex_val :: "char \<Rightarrow> nat option" where
  "hex_val = map_of (zip ''0123456789abcdefABCDEF''
     [0, 1, 2, 3, 4, 5, 6, 7, 8, 9, 10, 11, 12, 13, 14, 15, 10, 11, 12, 13, 14, 15])"

text \<open>\<open>n.toString(16)\<close> of a bigint or a number.\<close>

fun nat_hex :: "nat \<Rightarrow> string" where
  "nat_hex n = (if n < 16 then [hex_digit n] else nat_hex (n div 16) @ [hex_digit (n mod 16)])"

declare nat_hex.simps [simp del]

definition toString16 :: "int \<Rightarrow> string" where
  "toString16 n = (if n < 0 then ''-'' @ nat_hex (nat (- n)) else nat_hex (nat n))"

text \<open>The value of a string of hexadecimal digits (\<open>BigInt('0x...')\<close>).\<close>

fun parse_hex_from :: "nat \<Rightarrow> string \<Rightarrow> nat option" where
  "parse_hex_from a [] = Some a"
| "parse_hex_from a (c # cs) =
     (case hex_val c of None \<Rightarrow> None | Some d \<Rightarrow> parse_hex_from (16 * a + d) cs)"

definition bigint_of_hex :: "string \<Rightarrow> int" where
  "bigint_of_hex s = (case parse_hex_from 0 s of Some n \<Rightarrow> int n | None \<Rightarrow> 0)"

definition isHexString :: "string \<Rightarrow> bool" where
  "isHexString s = (take 2 s = ''0x'' \<and> list_all (\<lambda>c. hex_val c \<noteq> None) (drop 2 s))"

definition stripHexPrefix :: "string \<Rightarrow> string" where
  "stripHexPrefix str = (if isHexString str then drop 2 str else str)"

definition padToEven :: "string \<Rightarrow> string" where
  "padToEven a = (if length a mod 2 \<noteq> 0 then ''0'' @ a else a)"

definition hexToBytes :: "externals \<Rightarrow> string \<Rightarrow> exn + bytes" where
  "hexToBytes x hex =
     (if take 2 hex \<noteq> ''0x'' then Inl (PlainError ''input string must be 0x prefixed'')
      else noble_hexToBytes x (padToEven (stripHexPrefix hex)))"

definition unprefixedHexToBytes :: "externals \<Rightarrow> string \<Rightarrow> exn + bytes" where
  "unprefixedHexToBytes x hex =
     (if take 2 hex = ''0x'' then Inl (PlainError ''input string cannot be 0x prefixed'')
      else noble_hexToBytes x (padToEven hex))"

definition bytesToHex :: "externals \<Rightarrow> bytes \<Rightarrow> string" where
  "bytesToHex x bs = ''0x'' @ noble_bytesToHex x bs"

section \<open>Conversions between bytes and numbers\<close>

text \<open>The bytes as the source's \<open>littleEndian\<close> branch leaves the caller's array.\<close>

definition bytesToBigInt_arg :: "bool \<Rightarrow> bytes \<Rightarrow> bytes" where
  "bytesToBigInt_arg littleEndian bs = (if littleEndian then rev bs else bs)"

definition bytesToBigInt_le :: "externals \<Rightarrow> bool \<Rightarrow> bytes \<Rightarrow> int" where
  "bytesToBigInt_le x littleEndian bs0 =
     (let bs = bytesToBigInt_arg littleEndian bs0; hex = bytesToHex x bs in
      if hex = ''0x'' then 0
      else if length hex = 4 then uint (bs ! 0)
      else if length hex = 6 then uint (bs ! 0) * 256 + uint (bs ! 1)
      else bigint_of_hex (drop 2 hex))"

abbreviation bytesToBigInt :: "externals \<Rightarrow> bytes \<Rightarrow> int" where
  "bytesToBigInt x bs \<equiv> bytesToBigInt_le x False bs"

definition MAX_SAFE_INTEGER :: int where
  "MAX_SAFE_INTEGER = 9007199254740991"

definition bytesToInt :: "externals \<Rightarrow> bytes \<Rightarrow> exn + int" where
  "bytesToInt x bs = (let res = bytesToBigInt x bs in
     if res > MAX_SAFE_INTEGER then Inl (PlainError ''Number exceeds 53 bits'') else Inr res)"

definition intToHex :: "int \<Rightarrow> exn + string" where
  "intToHex i = (if i > MAX_SAFE_INTEGER \<or> i < 0
     then Inl (PlainError ''Received an invalid integer type'') else Inr (''0x'' @ toString16 i))"

definition intToBytes :: "externals \<Rightarrow> int \<Rightarrow> exn + bytes" where
  "intToBytes x i = (case intToHex i of Inl e \<Rightarrow> Inl e | Inr hex \<Rightarrow> hexToBytes x hex)"

definition bigIntToBytes_le :: "externals \<Rightarrow> bool \<Rightarrow> int \<Rightarrow> exn + bytes" where
  "bigIntToBytes_le x littleEndian num =
     (case hexToBytes x (''0x'' @ padToEven (toString16 num)) of
        Inl e \<Rightarrow> Inl e
      | Inr bs \<Rightarrow> Inr (if littleEndian then rev bs else bs))"

abbreviation bigIntToBytes :: "externals \<Rightarrow> int \<Rightarrow> exn + bytes" where
  "bigIntToBytes x num \<equiv> bigIntToBytes_le x False num"

definition bigIntToHex :: "int \<Rightarrow> string" where
  "bigIntToHex num = ''0x'' @ toString16 num"

section \<open>Padding, stripping, comparing\<close>

text \<open>\<open>msg.subarray(-length)\<close>: the last \<open>length\<close> bytes, but all of them for length 0.\<close>

definition subarray_last :: "nat \<Rightarrow> bytes \<Rightarrow> bytes" where
  "subarray_last n msg = (if n = 0 then msg else drop (length msg - n) msg)"

definition setLength :: "bytes \<Rightarrow> nat \<Rightarrow> bool \<Rightarrow> bytes" where
  "setLength msg len right =
     (if right then
        (if length msg < len then msg @ replicate (len - length msg) 0 else take len msg)
      else
        (if length msg < len then replicate (len - length msg) 0 @ msg
         else subarray_last len msg))"

definition setLengthLeft :: "bytes \<Rightarrow> nat \<Rightarrow> bytes" where
  "setLengthLeft msg len = setLength msg len False"

definition setLengthRight :: "bytes \<Rightarrow> nat \<Rightarrow> bytes" where
  "setLengthRight msg len = setLength msg len True"

fun stripZeros :: "bytes \<Rightarrow> bytes" where
  "stripZeros [] = []"
| "stripZeros (b # bs) = (if b = 0 then stripZeros bs else b # bs)"

definition unpadBytes :: "bytes \<Rightarrow> bytes" where
  "unpadBytes a = stripZeros a"

definition fromSigned :: "externals \<Rightarrow> bytes \<Rightarrow> int" where
  "fromSigned x num = asIntN 256 (bytesToBigInt x num)"

definition toUnsigned :: "externals \<Rightarrow> int \<Rightarrow> exn + bytes" where
  "toUnsigned x num = bigIntToBytes x (asUintN 256 num)"

definition validateNoLeadingZeroes :: "externals \<Rightarrow> (string \<times> bytes option) list \<Rightarrow> exn + unit" where
  "validateNoLeadingZeroes x values =
     (case List.find (\<lambda>(k, v). case v of Some (b # _) \<Rightarrow> b = 0 | _ \<Rightarrow> False) values of
        None \<Rightarrow> Inr ()
      | Some (k, v) \<Rightarrow>
          Inl (PlainError (k @ '' cannot have leading zeroes, received: '' @ bytesToHex x (the v))))"

definition bigIntMax :: "int \<Rightarrow> int list \<Rightarrow> int" where
  "bigIntMax a as = foldl (\<lambda>m e. if e > m then e else m) a as"

definition bigIntMin :: "int \<Rightarrow> int list \<Rightarrow> int" where
  "bigIntMin a as = foldl (\<lambda>m e. if e < m then e else m) a as"

definition bigIntToUnpaddedBytes :: "externals \<Rightarrow> int \<Rightarrow> exn + bytes" where
  "bigIntToUnpaddedBytes x v = map_sum id unpadBytes (bigIntToBytes x v)"

definition intToUnpaddedBytes :: "externals \<Rightarrow> int \<Rightarrow> exn + bytes" where
  "intToUnpaddedBytes x v = map_sum id unpadBytes (intToBytes x v)"

definition bigIntToAddressBytes :: "externals \<Rightarrow> bool \<Rightarrow> int \<Rightarrow> exn + bytes" where
  "bigIntToAddressBytes x strict v =
     (case bigIntToBytes x v of
        Inl e \<Rightarrow> Inl e
      | Inr addressBytes \<Rightarrow>
          if strict \<and> length addressBytes > 20 then Inl (PlainError ''Invalid address bytes length'')
          else Inr (setLengthLeft addressBytes 20))"

definition compareBytes :: "externals \<Rightarrow> bytes \<Rightarrow> bytes \<Rightarrow> int" where
  "compareBytes x value1 value2 =
     (let v1 = bytesToBigInt x value1; v2 = bytesToBigInt x value2 in
      if v1 > v2 then 1 else if v1 < v2 then -1 else 0)"

text \<open>\<open>result.set(arr, pad)\<close>, and the copying loop of \<open>concatBytes\<close>.\<close>

definition bytes_set :: "bytes \<Rightarrow> bytes \<Rightarrow> nat \<Rightarrow> bytes" where
  "bytes_set result arr pad = take pad result @ arr @ drop (pad + length arr) result"

fun concat_loop :: "bytes list \<Rightarrow> nat \<Rightarrow> bytes \<Rightarrow> bytes" where
  "concat_loop [] pad result = result"
| "concat_loop (arr # arrays) pad result =
     concat_loop arrays (pad + length arr) (bytes_set result arr pad)"

definition concatBytes :: "bytes list \<Rightarrow> bytes" where
  "concatBytes arrays =
     (if length arrays = 1 then arrays ! 0
      else concat_loop arrays 0 (replicate (foldl (\<lambda>a arr. a + length arr) 0 arrays) 0))"

lemma foldl_length: "foldl (\<lambda>a arr. a + length arr) a arrays = a + length (concat arrays)"
  by (induction arrays arbitrary: a) auto

lemma concat_loop_eq:
  "length result = pad + length (concat arrays) \<Longrightarrow>
   concat_loop arrays pad result = take pad result @ concat arrays"
  by (induction arrays arbitrary: pad result) (auto simp: bytes_set_def)

lemma concatBytes_eq [simp]: "concatBytes arrays = concat arrays"
proof (cases arrays)
  case (Cons a as)
  have "concat_loop arrays 0 (replicate (foldl (\<lambda>a arr. a + length arr) 0 arrays) 0) = concat arrays"
    by (subst concat_loop_eq) (simp_all add: foldl_length)
  then show ?thesis using Cons by (cases as) (simp_all add: concatBytes_def)
qed (simp add: concatBytes_def)

section \<open>Documented behaviour of the hexadecimal codec\<close>

definition byte_hex :: "byte \<Rightarrow> string" where
  "byte_hex b = [hex_digit (unat b div 16), hex_digit (unat b mod 16)]"

definition hex_of_bytes :: "bytes \<Rightarrow> string" where
  "hex_of_bytes bs = concat (map byte_hex bs)"

fun hex_pairs :: "string \<Rightarrow> bytes option" where
  "hex_pairs [] = Some []"
| "hex_pairs [c] = None"
| "hex_pairs (c # d # cs) =
     (case (hex_val c, hex_val d, hex_pairs cs) of
        (Some h, Some l, Some bs) \<Rightarrow> Some (of_nat (16 * h + l) # bs)
      | _ \<Rightarrow> None)"

text \<open>\<open>bytesToHex\<close> prints two lower case digits per byte; \<open>hexToBytes\<close> parses pairs of digits
  of either case and throws on any other string.\<close>

definition noble_ok :: "externals \<Rightarrow> bool" where
  "noble_ok x \<longleftrightarrow> (\<forall>bs. noble_bytesToHex x bs = hex_of_bytes bs)
     \<and> (\<forall>s. case hex_pairs s of Some bs \<Rightarrow> noble_hexToBytes x s = Inr bs
            | None \<Rightarrow> (\<exists>e. noble_hexToBytes x s = Inl e))"

text \<open>A concrete codec, for evaluation.\<close>

definition sample_externals :: externals where
  "sample_externals = \<lparr>
     noble_bytesToHex = hex_of_bytes,
     noble_hexToBytes = (\<lambda>s. case hex_pairs s of Some bs \<Rightarrow> Inr bs
                           | None \<Rightarrow> Inl (PlainError ''invalid hex'')),
     keccak256 = (\<lambda>bs. setLengthLeft (take 32 bs) 32)\<rparr>"

lemma noble_ok_sample [simp]: "noble_ok sample_externals"
  by (auto simp: noble_ok_def sample_externals_def split: option.split)

section \<open>The big-endian value\<close>

definition be_step :: "int \<Rightarrow> byte \<Rightarrow> int" where
  "be_step a b = a * 256 + uint b"

definition be_value :: "bytes \<Rightarrow> int" where
  "be_value bs = foldl be_step 0 bs"

fun be_bytes :: "nat \<Rightarrow> bytes" where
  "be_bytes n = (if n < 256 then [of_nat n] else be_bytes (n div 256) @ [of_nat (n mod 256)])"

declare be_bytes.simps [simp del]

lemma hex_val_digit [simp]: "d < 16 \<Longrightarrow> hex_val (hex_digit d) = Some d"
proof -
  have "list_all (\<lambda>d. hex_val (hex_digit d) = Some d) [0, 1, 2, 3, 4, 5, 6, 7, 8, 9, 10, 11, 12, 13, 14, 15]"
    by (simp add: hex_digit_def hex_val_def)
  moreover assume "d < 16"
  then have "d \<in> set [0, 1, 2, 3, 4, 5, 6, 7, 8, 9, 10, 11, 12, 13, 14, 15]" by simp presburger
  ultimately show ?thesis by (simp only: list_all_iff)
qed

lemma unat_byte_split [simp]: "unat (b :: byte) div 16 < 16" "unat (b :: byte) mod 16 < 16"
  using unsigned_less [of b, where 'a = nat] by simp_all

lemma hex_pairs_byte: "hex_pairs (byte_hex b @ s) = map_option (Cons b) (hex_pairs s)"
proof -
  have "of_nat (16 * (unat b div 16) + unat b mod 16) = b" by simp
  then show ?thesis by (simp add: byte_hex_def split: option.split)
qed

lemma hex_pairs_of_bytes [simp]: "hex_pairs (hex_of_bytes bs) = Some bs"
  by (induction bs) (simp_all add: hex_of_bytes_def hex_pairs_byte)

lemma length_hex_of_bytes [simp]: "length (hex_of_bytes bs) = 2 * length bs"
  by (induction bs) (simp_all add: hex_of_bytes_def byte_hex_def)

lemma parse_hex_bytes:
  "parse_hex_from a (hex_of_bytes bs) = Some (nat (foldl be_step (int a) bs))"
proof (induction bs arbitrary: a)
  case (Cons b bs)
  have "16 * (16 * a + unat b div 16) + unat b mod 16 = a * 256 + unat b"
    using mult_div_mod_eq [of 16 "unat b"] by (simp add: distrib_left)
  then have "int (16 * (16 * a + unat b div 16) + unat b mod 16) = be_step (int a) b"
    by (simp add: be_step_def)
  then show ?case
    using Cons [of "16 * (16 * a + unat b div 16) + unat b mod 16"]
    by (simp add: hex_of_bytes_def byte_hex_def)
qed (simp add: hex_of_bytes_def)

lemma bytesToHex_noble: "noble_ok x \<Longrightarrow> bytesToHex x bs = ''0x'' @ hex_of_bytes bs"
  by (simp add: bytesToHex_def noble_ok_def)

lemma be_step_bounds: "0 \<le> a \<Longrightarrow> 0 \<le> be_step a b"
  by (simp add: be_step_def)

lemma be_value_from: "foldl be_step a bs = a * 256 ^ length bs + be_value bs"
proof (induction bs rule: rev_induct)
  case (snoc b bs)
  then show ?case by (simp add: be_value_def be_step_def algebra_simps)
qed (simp add: be_value_def)

lemma be_value_Nil [simp]: "be_value [] = 0"
  by (simp add: be_value_def)

lemma be_value_append: "be_value (xs @ ys) = be_value xs * 256 ^ length ys + be_value ys"
  using be_value_from [of "be_value xs" ys] by (simp add: be_value_def)

lemma be_value_single [simp]: "be_value [b] = uint b"
  by (simp add: be_value_def be_step_def)

lemma be_value_Cons: "be_value (b # bs) = uint b * 256 ^ length bs + be_value bs"
  using be_value_append [of "[b]" bs] by simp

lemma be_value_bounds: "0 \<le> be_value bs" "be_value bs < 256 ^ length bs"
proof (induction bs)
  case (Cons b bs)
  { case 1 then show ?case using Cons by (simp add: be_value_Cons) }
  { case 2
    have "uint b \<le> 255" using uint_lt2p [of b] by simp
    then have "uint b * 256 ^ length bs \<le> 255 * 256 ^ length bs" by (intro mult_right_mono) simp_all
    with Cons(2) have "uint b * 256 ^ length bs + be_value bs < 255 * 256 ^ length bs + 256 ^ length bs"
      by linarith
    then show ?case by (simp add: be_value_Cons)
  }
qed simp_all

lemma be_value_replicate_zero [simp]: "be_value (replicate n 0 @ bs) = be_value bs"
  by (induction n) (simp_all add: be_value_Cons)

lemma be_value_stripZeros [simp]: "be_value (stripZeros bs) = be_value bs"
  by (induction bs) (simp_all add: be_value_Cons)

text \<open>\<open>bytesToBigInt\<close> is the big-endian value, on its two cached paths as on the general one.\<close>

lemma bytesToBigInt_le_eq:
  assumes "noble_ok x"
  shows "bytesToBigInt_le x le bs = be_value (if le then rev bs else bs)"
proof -
  let ?bs = "if le then rev bs else bs"
  have gen: "bigint_of_hex (hex_of_bytes bs') = be_value bs'" for bs'
    using be_value_bounds(1) [of bs'] by (simp add: bigint_of_hex_def parse_hex_bytes be_value_def)
  consider "length ?bs = 0" | "length ?bs = 1" | "length ?bs = 2" | "length ?bs > 2" by linarith
  then show ?thesis
  proof cases
    case 1
    then have "bs = []" by (simp split: if_splits)
    then show ?thesis using assms
      by (simp add: bytesToBigInt_le_def bytesToBigInt_arg_def bytesToHex_noble hex_of_bytes_def)
  next
    case 2
    then obtain b where "?bs = [b]" by (cases ?bs) auto
    then show ?thesis using assms
      by (simp add: bytesToBigInt_le_def bytesToBigInt_arg_def bytesToHex_noble hex_of_bytes_def byte_hex_def)
  next
    case 3
    then obtain b c where "?bs = [b, c]" by (cases ?bs; cases "tl ?bs") auto
    then show ?thesis using assms
      by (simp add: bytesToBigInt_le_def bytesToBigInt_arg_def bytesToHex_noble hex_of_bytes_def
                    byte_hex_def be_value_Cons)
  next
    case 4
    then have "hex_of_bytes ?bs \<noteq> []" using length_hex_of_bytes [of ?bs] by (metis less_nat_zero_code list.size(3) mult_is_0 numeral_eq_iff zero_neq_numeral)
    then show ?thesis using assms 4
      by (simp add: bytesToBigInt_le_def bytesToBigInt_arg_def bytesToHex_noble gen Let_def)
  qed
qed

lemma bytesToBigInt_eq [simp]: "noble_ok x \<Longrightarrow> bytesToBigInt x bs = be_value bs"
  by (simp add: bytesToBigInt_le_eq)

section \<open>Printing a number\<close>

lemma byte_hex_of_nat:
  "n < 256 \<Longrightarrow> byte_hex (of_nat n) = [hex_digit (n div 16), hex_digit (n mod 16)]"
  by (simp add: byte_hex_def unsigned_of_nat take_bit_nat_eq_self)

lemma nat_hex_step: "16 \<le> n \<Longrightarrow> nat_hex n = nat_hex (n div 16) @ [hex_digit (n mod 16)]"
  by (subst nat_hex.simps) simp

lemma nat_hex_256:
  assumes "256 \<le> n"
  shows "nat_hex n = nat_hex (n div 256) @ byte_hex (of_nat (n mod 256))"
proof -
  have a: "16 \<le> n" "16 \<le> n div 16" using assms by auto
  have b: "n div 16 div 16 = n div 256" by (simp flip: div_mult2_eq)
  have "n mod 256 = 16 * (n div 16 mod 16) + n mod 16"
    using mod_mult2_eq [of n 16 16] by simp
  then have c: "n div 16 mod 16 = n mod 256 div 16" "n mod 16 = n mod 256 mod 16"
    by (simp_all add: mod_mod_cancel)
  show ?thesis
    using nat_hex_step [OF a(1)] nat_hex_step [OF a(2)] by (simp add: b c byte_hex_of_nat)
qed

lemma padToEven_append: "length t mod 2 = 0 \<Longrightarrow> padToEven (s @ t) = padToEven s @ t"
  by (simp add: padToEven_def) presburger

lemma padToEven_nat_hex: "padToEven (nat_hex n) = hex_of_bytes (be_bytes n)"
proof (induction n rule: be_bytes.induct)
  case (1 n)
  consider "n < 16" | "16 \<le> n" "n < 256" | "256 \<le> n" by linarith
  then show ?case
  proof cases
    case a: 1
    then show ?thesis
      by (simp add: nat_hex.simps be_bytes.simps hex_of_bytes_def byte_hex_of_nat padToEven_def hex_digit_def)
  next
    case b: 2
    then have "n div 16 < 16" by simp
    with b show ?thesis
      by (simp add: nat_hex_step nat_hex.simps [of "n div 16"] be_bytes.simps hex_of_bytes_def
            byte_hex_of_nat padToEven_def)
  next
    case c: 3
    then show ?thesis
      using 1 by (simp add: nat_hex_256 be_bytes.simps [of n] hex_of_bytes_def padToEven_append byte_hex_def)
  qed
qed

lemma hexToBytes_noble:
  "noble_ok x \<Longrightarrow> hexToBytes x (''0x'' @ hex_of_bytes bs) = Inr bs"
proof -
  have digits: "list_all (\<lambda>c. hex_val c \<noteq> None) (hex_of_bytes bs)"
    by (induction bs) (simp_all add: hex_of_bytes_def byte_hex_def)
  have even: "padToEven (hex_of_bytes bs) = hex_of_bytes bs" by (simp add: padToEven_def)
  assume "noble_ok x"
  then have "case hex_pairs (hex_of_bytes bs) of Some bs' \<Rightarrow> noble_hexToBytes x (hex_of_bytes bs) = Inr bs'
             | None \<Rightarrow> \<exists>e. noble_hexToBytes x (hex_of_bytes bs) = Inl e"
    unfolding noble_ok_def by blast
  then have "noble_hexToBytes x (hex_of_bytes bs) = Inr bs" by simp
  then show ?thesis
    using digits even by (simp add: hexToBytes_def stripHexPrefix_def isHexString_def)
qed

lemma bigIntToBytes_le_eq:
  assumes "noble_ok x" "0 \<le> n"
  shows "bigIntToBytes_le x le n = Inr (if le then rev (be_bytes (nat n)) else be_bytes (nat n))"
  using assms hexToBytes_noble [OF assms(1), of "be_bytes (nat n)"]
  by (simp add: bigIntToBytes_le_def toString16_def padToEven_nat_hex)

lemma bigIntToBytes_eq [simp]:
  "noble_ok x \<Longrightarrow> 0 \<le> n \<Longrightarrow> bigIntToBytes x n = Inr (be_bytes (nat n))"
  by (simp add: bigIntToBytes_le_eq)

lemma be_value_be_bytes [simp]: "be_value (be_bytes n) = int n"
proof (induction n rule: be_bytes.induct)
  case (1 n)
  show ?case
  proof (cases "n < 256")
    case True
    then show ?thesis by (simp add: be_bytes.simps unsigned_of_nat take_bit_nat_eq_self)
  next
    case False
    have "uint (of_nat (n mod 256) :: byte) = int (n mod 256)"
      by (simp add: unsigned_of_nat take_bit_nat_eq_self)
    with 1 [OF False] False show ?thesis
      by (subst be_bytes.simps) (simp add: be_value_append zdiv_int zmod_int)
  qed
qed

lemma length_be_bytes_le: "n < 256 ^ k \<Longrightarrow> 0 < k \<Longrightarrow> length (be_bytes n) \<le> k"
proof (induction n arbitrary: k rule: be_bytes.induct)
  case (1 n)
  show ?case
  proof (cases "n < 256")
    case False
    from 1 obtain j where k: "k = Suc j" by (cases k) auto
    with 1 False have "0 < j" by (cases j) auto
    moreover have "n div 256 < 256 ^ j"
      using 1(2) by (intro less_mult_imp_div_less) (simp add: k mult.commute)
    ultimately show ?thesis
      using 1(1) [OF False, of j] False by (subst be_bytes.simps) (simp add: k)
  qed (use 1 in \<open>simp add: be_bytes.simps\<close>)
qed

lemma be_value_Cons_div:
  "be_value (a # as) div 256 ^ length as = uint a" "be_value (a # as) mod 256 ^ length as = be_value as"
  using be_value_bounds [of as] by (simp_all add: be_value_Cons)

lemma be_value_inj: "length as = length bs \<Longrightarrow> be_value as = be_value bs \<Longrightarrow> as = bs"
proof (induction as bs rule: list_induct2)
  case (Cons a as b bs)
  then have "uint a = uint b" "be_value as = be_value bs"
    using be_value_Cons_div [of a as] be_value_Cons_div [of b bs] by metis+
  with Cons show ?case by (simp add: word_uint_eq_iff)
qed simp

section \<open>Padding\<close>

lemma setLengthLeft_short: "length msg \<le> n \<Longrightarrow> setLengthLeft msg n = replicate (n - length msg) 0 @ msg"
  by (cases "length msg = n") (auto simp: setLengthLeft_def setLength_def subarray_last_def)

lemma setLengthLeft_long: "0 < n \<Longrightarrow> n \<le> length msg \<Longrightarrow> setLengthLeft msg n = drop (length msg - n) msg"
  by (auto simp: setLengthLeft_def setLength_def subarray_last_def)

lemma length_setLengthLeft: "0 < n \<Longrightarrow> length (setLengthLeft msg n) = n"
  by (cases "length msg \<le> n") (simp_all add: setLengthLeft_short setLengthLeft_long)

lemma length_setLengthRight [simp]: "length (setLengthRight msg n) = n"
  by (simp add: setLengthRight_def setLength_def)

lemma setLengthRight_nth:
  "i < n \<Longrightarrow> setLengthRight msg n ! i = (if i < length msg then msg ! i else 0)"
  by (auto simp: setLengthRight_def setLength_def nth_append)

lemma be_value_setLengthLeft [simp]: "length msg \<le> n \<Longrightarrow> be_value (setLengthLeft msg n) = be_value msg"
  by (simp add: setLengthLeft_short)

text \<open>A 256-bit value and its 32 bytes.\<close>

definition word_bytes :: "int \<Rightarrow> bytes" where
  "word_bytes v = setLengthLeft (be_bytes (nat v)) 32"

lemma word_bytes_value:
  assumes "0 \<le> v" "v < 2 ^ 256"
  shows "be_value (word_bytes v) = v" "length (word_bytes v) = 32"
proof -
  have "nat v < 256 ^ 32" using assms by (simp add: nat_less_iff)
  then have "length (be_bytes (nat v)) \<le> 32" using length_be_bytes_le [of "nat v" 32] by simp
  then show "be_value (word_bytes v) = v" using assms by (simp add: word_bytes_def)
  show "length (word_bytes v) = 32" by (simp add: word_bytes_def length_setLengthLeft)
qed

lemma word_bytes_be_value: "length bs = 32 \<Longrightarrow> word_bytes (be_value bs) = bs"
proof -
  assume len: "length bs = 32"
  with be_value_bounds [of bs] have "0 \<le> be_value bs" "be_value bs < 2 ^ 256" by auto
  from word_bytes_value [OF this] len show ?thesis by (intro be_value_inj) auto
qed

lemma be_value_32 [simp]: "length bs \<le> 32 \<Longrightarrow> be_value bs < 2 ^ 256"
proof -
  assume "length bs \<le> 32"
  then have "(256 :: int) ^ length bs \<le> 256 ^ 32" by (intro power_increasing) auto
  with be_value_bounds(2) [of bs] show ?thesis by simp
qed

section \<open>Properties\<close>

text \<open>The 32-byte big-endian words that MSTORE, PUSH32 and the storage handlers use round
  trip: converting a bigint below \<open>2^256\<close> with \<open>bigIntToBytes\<close> and left padding it to 32 bytes gives
  32 bytes that \<open>bytesToBigInt\<close> reads back, and every 32-byte array is recovered from its bigint.\<close>

theorem word_bytes_roundtrip:
  assumes "noble_ok x"
  shows "(\<forall>v. 0 \<le> v \<and> v < 2 ^ 256 \<longrightarrow>
           (\<exists>bs. map_sum id (\<lambda>b. setLengthLeft b 32) (bigIntToBytes x v) = Inr bs
              \<and> length bs = 32 \<and> bytesToBigInt x bs = v))
       \<and> (\<forall>bs. length bs = 32 \<longrightarrow>
           map_sum id (\<lambda>b. setLengthLeft b 32) (bigIntToBytes x (bytesToBigInt x bs)) = Inr bs)"
proof (intro conjI allI impI)
  fix v :: int assume "0 \<le> v \<and> v < 2 ^ 256"
  then show "\<exists>bs. map_sum id (\<lambda>b. setLengthLeft b 32) (bigIntToBytes x v) = Inr bs
          \<and> length bs = 32 \<and> bytesToBigInt x bs = v"
    using assms word_bytes_value [of v] by (simp add: word_bytes_def)
next
  fix bs :: bytes assume "length bs = 32"
  then show "map_sum id (\<lambda>b. setLengthLeft b 32) (bigIntToBytes x (bytesToBigInt x bs)) = Inr bs"
    using assms word_bytes_be_value [of bs] be_value_bounds(1) [of bs] by (simp add: word_bytes_def)
qed

theorem word_bytes_roundtrip_witness:
  "\<exists>bs. map_sum id (\<lambda>b. setLengthLeft b 32) (bigIntToBytes sample_externals 258) = Inr bs
      \<and> length bs = 32 \<and> bytesToBigInt sample_externals bs = 258"
proof -
  have "(0 :: int) \<le> 258 \<and> (258 :: int) < 2 ^ 256" by simp
  with word_bytes_roundtrip [OF noble_ok_sample] show ?thesis by blast
qed

end
