(* ===== verification/Rlp.thy ===== *)
theory Rlp
  imports Bytes
begin

text \<open>
  Recursive length prefix encoding: \<open>encode.ts\<close>, \<open>decode.ts\<close> and \<open>utils.ts\<close> of \<open>src/packages/rlp/src\<close>.
  A character of a string is a code unit below 256. The lengths the decoder computes are JavaScript
  numbers, here exact: they differ from the exact value only above 2^53, more than any array holds,
  where both are refused. Error messages are shortened to their fixed part.
\<close>

section \<open>Utilities (\<open>utils.ts\<close>)\<close>

definition cachedHexes :: "string list" where
  "cachedHexes = map (\<lambda>i. let s = nat_hex i in replicate (2 - length s) CHR ''0'' @ s) [0..<256]"

definition rlp_bytesToHex :: "bytes \<Rightarrow> string" where
  "rlp_bytesToHex uint8a = foldl (\<lambda>hex b. hex @ cachedHexes ! unat b) [] uint8a"

definition parseHexByte :: "string \<Rightarrow> exn + nat" where
  "parseHexByte hexByte = (case (if hexByte = [] then None else parse_hex_from 0 hexByte) of
     None \<Rightarrow> Inl (PlainError ''Invalid byte sequence'') | Some n \<Rightarrow> Inr n)"

definition asciiToBase16 :: "nat \<Rightarrow> nat option" where
  "asciiToBase16 c = (if 48 \<le> c \<and> c \<le> 57 then Some (c - 48)
     else if 65 \<le> c \<and> c \<le> 70 then Some (c - (65 - 10))
     else if 97 \<le> c \<and> c \<le> 102 then Some (c - (97 - 10)) else None)"

text \<open>The loop of \<open>hexToBytes\<close> over the pairs of digits.\<close>

fun rlp_hex_loop :: "string \<Rightarrow> exn + bytes" where
  "rlp_hex_loop (c # d # hex) = (case (asciiToBase16 (of_char c), asciiToBase16 (of_char d)) of
     (Some n1, Some n2) \<Rightarrow> bindR (rlp_hex_loop hex) (\<lambda>bs. Inr (of_nat (n1 * 16 + n2) # bs))
   | _ \<Rightarrow> Inl (PlainError ''hex string expected, got non-hex character''))"
| "rlp_hex_loop _ = Inr []"

text \<open>The source keeps the prefix where it means to drop it.\<close>

definition rlp_hexToBytes :: "string \<Rightarrow> exn + bytes" where
  "rlp_hexToBytes hex0 =
     (let hex = (if take 2 hex0 = ''0x'' then take 2 hex0 else hex0) in
      if length hex mod 2 \<noteq> 0 then Inl (PlainError ''padded hex string expected, got unpadded hex'')
      else rlp_hex_loop hex)"

definition utf8ToBytes :: "string \<Rightarrow> bytes" where
  "utf8ToBytes utf = concat (map (\<lambda>c. let n = of_char c :: nat in
     if n < 128 then [of_nat n] else [of_nat (0xc0 + n div 64), of_nat (0x80 + n mod 64)]) utf)"

definition numberToHex :: "int \<Rightarrow> exn + string" where
  "numberToHex integer =
     (if integer < 0 then Inl (PlainError ''Invalid integer as argument, must be unsigned!'')
      else let hex = toString16 integer in Inr (if length hex mod 2 \<noteq> 0 then ''0'' @ hex else hex))"

definition rlp_isHexString :: "string \<Rightarrow> bool" where
  "rlp_isHexString str \<longleftrightarrow> 2 \<le> length str \<and> str ! 0 = CHR ''0'' \<and> str ! 1 = CHR ''x''"

definition rlp_stripHexPrefix :: "string \<Rightarrow> string" where
  "rlp_stripHexPrefix str = (if rlp_isHexString str then drop 2 str else str)"

definition safeSlice :: "bytes \<Rightarrow> nat \<Rightarrow> nat \<Rightarrow> exn + bytes" where
  "safeSlice input start end' =
     (if length input < end' then Inl (PlainError ''invalid RLP (safeSlice): end slice of Uint8Array out-of-bounds'')
      else Inr (drop start (take end' input)))"

section \<open>Encoding (\<open>encode.ts\<close>)\<close>

datatype rlp_input = RString string | RNumber int | RBytes bytes | RArray "rlp_input list" | RNull

definition toBytes :: "rlp_input \<Rightarrow> exn + bytes" where
  "toBytes v = (case v of
     RBytes bs \<Rightarrow> Inr bs
   | RString s \<Rightarrow> if rlp_isHexString s then rlp_hexToBytes (padToEven (rlp_stripHexPrefix s)) else Inr (utf8ToBytes s)
   | RNumber n \<Rightarrow> if n = 0 then Inr [] else bindR (numberToHex n) rlp_hexToBytes
   | RNull \<Rightarrow> Inr []
   | RArray _ \<Rightarrow> Inl (PlainError ''toBytes: received unsupported type object''))"

definition encodeLength :: "nat \<Rightarrow> nat \<Rightarrow> exn + bytes" where
  "encodeLength len offset =
     (if len < 56 then Inr [of_nat (len + offset)]
      else bindR (numberToHex (int len)) (\<lambda>hexLength.
        let lLength = length hexLength div 2 in
        bindR (numberToHex (int (offset + 55 + lLength))) (\<lambda>firstByte.
          rlp_hexToBytes (firstByte @ hexLength))))"

definition encode_bytes :: "bytes \<Rightarrow> exn + bytes" where
  "encode_bytes inputBuf =
     (if length inputBuf = 1 \<and> unat (inputBuf ! 0) < 128 then Inr inputBuf
      else bindR (encodeLength (length inputBuf) 128) (\<lambda>h. Inr (concatBytes [h, inputBuf])))"

fun encode :: "rlp_input \<Rightarrow> exn + bytes" and encode_loop :: "rlp_input list \<Rightarrow> exn + bytes list" where
  "encode (RArray input) = bindR (encode_loop input) (\<lambda>output.
     bindR (encodeLength (foldl (\<lambda>n e. n + length e) 0 output) 192) (\<lambda>h. Inr (concatBytes (h # output))))"
| "encode v = bindR (toBytes v) encode_bytes"
| "encode_loop [] = Inr []"
| "encode_loop (v # input) = bindR (encode v) (\<lambda>encoded.
     bindR (encode_loop input) (\<lambda>output. Inr (encoded # output)))"

section \<open>Decoding (\<open>decode.ts\<close>)\<close>

datatype rlp_data = DBytes bytes | DList "rlp_data list"

definition decodeLength :: "bytes \<Rightarrow> exn + nat" where
  "decodeLength v = (if v \<noteq> [] \<and> v ! 0 = 0 then Inl (PlainError ''invalid RLP: extra zeros'')
     else parseHexByte (rlp_bytesToHex v))"

definition decode_short :: "bytes \<Rightarrow> nat \<Rightarrow> exn + rlp_data \<times> bytes" where
  "decode_short input firstByte =
     (let len = firstByte - 0x7f in
      bindR (if firstByte = 0x80 then Inr [] else safeSlice input 1 len) (\<lambda>data.
        if len = 2 \<and> unat (data ! 0) < 0x80
        then Inl (PlainError ''invalid RLP encoding: invalid prefix, single byte < 0x80 are not prefixed'')
        else Inr (DBytes data, drop len input)))"

definition decode_long :: "bytes \<Rightarrow> nat \<Rightarrow> exn + rlp_data \<times> bytes" where
  "decode_long input firstByte =
     (let lLength = firstByte - 0xb6 in
      if length input - 1 < lLength then Inl (PlainError ''invalid RLP: not enough bytes for string length'')
      else bindR (safeSlice input 1 lLength) (\<lambda>v. bindR (decodeLength v) (\<lambda>len.
        if len \<le> 55 then Inl (PlainError ''invalid RLP: expected string length to be greater than 55'')
        else bindR (safeSlice input lLength (len + lLength)) (\<lambda>data.
          Inr (DBytes data, drop (len + lLength) input)))))"

text \<open>The payload of a list and the position behind it.\<close>

definition list_payload :: "bytes \<Rightarrow> nat \<Rightarrow> exn + bytes \<times> nat" where
  "list_payload input firstByte =
     (if firstByte \<le> 0xf7 then
        let len = firstByte - 0xbf in bindR (safeSlice input 1 len) (\<lambda>inner. Inr (inner, len))
      else
        let lLength = firstByte - 0xf6 in
        bindR (safeSlice input 1 lLength) (\<lambda>v. bindR (decodeLength v) (\<lambda>len.
          if len < 56 then Inl (PlainError ''invalid RLP: encoded list too short'')
          else
            let totalLength = lLength + len in
            if totalLength > length input then Inl (PlainError ''invalid RLP: total length is larger than the data'')
            else bindR (safeSlice input lLength totalLength) (\<lambda>inner. Inr (inner, totalLength)))))"

lemma safeSlice_Inr: "safeSlice input s e = Inr bs \<longleftrightarrow> e \<le> length input \<and> bs = drop s (take e input)"
  by (auto simp: safeSlice_def)

lemma list_payload_shorter: "list_payload input b = Inr (inner, n) \<Longrightarrow> 0xc0 \<le> b \<Longrightarrow> input \<noteq> [] \<Longrightarrow>
    length inner < length input \<and> 0 < n \<and> n \<le> length input"
  by (auto simp: list_payload_def bindR_eq_Inr safeSlice_Inr Let_def split: if_splits)

text \<open>Of an empty input the first byte is undefined, and its length is parsed from the empty string.\<close>

function (domintros) rlp_decode :: "bytes \<Rightarrow> exn + rlp_data \<times> bytes" and decode_items :: "bytes \<Rightarrow> exn + rlp_data list" where
  "rlp_decode input =
     (if input = [] then Inl (PlainError ''Invalid byte sequence'')
      else let firstByte = unat (input ! 0) in
        if firstByte \<le> 0x7f then Inr (DBytes (take 1 input), drop 1 input)
        else if firstByte \<le> 0xb7 then decode_short input firstByte
        else if firstByte \<le> 0xbf then decode_long input firstByte
        else bindR (list_payload input firstByte) (\<lambda>p. bindR (decode_items (fst p))
          (\<lambda>decoded. Inr (DList decoded, drop (snd p) input))))"
| "decode_items innerRemainder =
     (if innerRemainder = [] then Inr []
      else bindR (rlp_decode innerRemainder) (\<lambda>d. bindR (decode_items (snd d)) (\<lambda>ds. Inr (fst d # ds))))"
  by pat_completeness auto

lemma decode_shorter:
  "rlp_decode_decode_items_dom (Inl input) \<Longrightarrow> rlp_decode input = Inr d \<Longrightarrow> length (snd d) < length input"
  by (cases "input = []")
     (auto simp: rlp_decode.psimps Let_def decode_short_def decode_long_def bindR_eq_Inr safeSlice_Inr
       dest: list_payload_shorter split: if_splits)

termination rlp_decode
proof (relation "measure (\<lambda>x. case x of Inl bs \<Rightarrow> 2 * length bs | Inr bs \<Rightarrow> 2 * length bs + 1)")
qed (auto dest: decode_shorter list_payload_shorter)

declare rlp_decode.simps [simp del] decode_items.simps [simp del]

datatype decoded = Plain rlp_data | Streamed rlp_data bytes

definition input_length_zero :: "rlp_input \<Rightarrow> bool" where
  "input_length_zero v \<longleftrightarrow> v = RNull \<or> v = RString [] \<or> v = RBytes [] \<or> v = RArray []"

definition decode :: "rlp_input \<Rightarrow> bool \<Rightarrow> exn + decoded" where
  "decode input stream =
     (if input_length_zero input then Inr (Plain (DBytes []))
      else bindR (toBytes input) (\<lambda>inputBytes. bindR (rlp_decode inputBytes) (\<lambda>d.
        if stream then Inr (Streamed (fst d) (snd d))
        else if snd d \<noteq> [] then Inl (PlainError ''invalid RLP: remainder must be zero'')
        else Inr (Plain (fst d)))))"

section \<open>Lengths\<close>

lemma cachedHexes_byte: "cachedHexes ! unat (b :: byte) = byte_hex b"
proof -
  have "unat b < 256" using unsigned_less [of b, where ?'a = nat] by simp
  then have "nat_hex (unat b) = (if unat b < 16 then [hex_digit (unat b)] else byte_hex b)"
    using nat_hex_step [of "unat b"] nat_hex.simps [of "unat b"] nat_hex.simps [of "unat b div 16"] by (simp add: byte_hex_def)
  then show ?thesis using \<open>unat b < 256\<close> by (simp add: cachedHexes_def byte_hex_def Let_def hex_digit_def)
qed

lemma rlp_bytesToHex_eq: "rlp_bytesToHex bs = hex_of_bytes bs"
proof -
  have "foldl (\<lambda>hex b. hex @ cachedHexes ! unat b) s bs = s @ hex_of_bytes bs" for s
    by (induction bs arbitrary: s) (simp_all add: hex_of_bytes_def cachedHexes_byte)
  then show ?thesis by (simp add: rlp_bytesToHex_def)
qed

lemma decodeLength_eq: "v \<noteq> [] \<Longrightarrow> decodeLength v =
    (if v ! 0 = 0 then Inl (PlainError ''invalid RLP: extra zeros'') else Inr (nat (be_value v)))"
proof -
  assume v: "v \<noteq> []"
  then have "hex_of_bytes v \<noteq> []" by (cases v) (simp_all add: hex_of_bytes_def byte_hex_def)
  then show ?thesis using v
    by (simp add: decodeLength_def rlp_bytesToHex_eq parseHexByte_def parse_hex_bytes be_value_def)
qed

lemma asciiToBase16_digit: "d < 16 \<Longrightarrow> asciiToBase16 (of_char (hex_digit d)) = Some d"
  unfolding hex_digit_def asciiToBase16_def
  by (simp add: numeral_eq_Suc less_Suc_eq; elim disjE; simp add: of_char_def)

lemma rlp_hex_loop_eq: "rlp_hex_loop (hex_of_bytes bs) = Inr bs"
proof (induction bs)
  case (Cons b bs)
  have "of_nat (unat b div 16 * 16 + unat b mod 16) = b" unfolding div_mult_mod_eq by simp
  then show ?case using Cons by (simp add: hex_of_bytes_def byte_hex_def asciiToBase16_digit del: of_nat_add of_nat_mult)
qed (simp add: hex_of_bytes_def)

lemma hex_digit_not_x: "d < 16 \<Longrightarrow> hex_digit d \<noteq> CHR ''x''"
  using asciiToBase16_digit [of d] by (auto simp: asciiToBase16_def of_char_def)

lemma rlp_hexToBytes_eq: "rlp_hexToBytes (hex_of_bytes bs) = Inr bs"
proof (cases bs)
  case (Cons b bs')
  then have "take 2 (hex_of_bytes bs) \<noteq> ''0x''"
    using hex_digit_not_x by (simp add: hex_of_bytes_def byte_hex_def)
  then show ?thesis by (simp add: rlp_hexToBytes_def rlp_hex_loop_eq)
qed (simp add: rlp_hexToBytes_def hex_of_bytes_def)

lemma numberToHex_eq: "numberToHex (int n) = Inr (hex_of_bytes (be_bytes n))"
  using padToEven_nat_hex [of n] by (simp add: numberToHex_def toString16_def Let_def padToEven_def)

lemma hex_of_bytes_append: "hex_of_bytes (as @ bs) = hex_of_bytes as @ hex_of_bytes bs"
  by (simp add: hex_of_bytes_def)

definition long_header :: "nat \<Rightarrow> nat \<Rightarrow> bytes" where
  "long_header len offset = be_bytes (offset + 55 + length (be_bytes len)) @ be_bytes len"

lemma encodeLength_eq: "encodeLength len offset =
    Inr (if len < 56 then [of_nat (len + offset)] else long_header len offset)"
proof -
  have n: "numberToHex (int offset + 55 + int (length (be_bytes len)))
      = Inr (hex_of_bytes (be_bytes (offset + 55 + length (be_bytes len))))"
    using numberToHex_eq [of "offset + 55 + length (be_bytes len)"] by simp
  show ?thesis
    by (simp add: encodeLength_def numberToHex_eq n long_header_def rlp_hexToBytes_eq flip: hex_of_bytes_append)
qed

lemma encode_bytes_eq: "encode_bytes bs = Inr (if length bs = 1 \<and> unat (bs ! 0) < 128 then bs
    else if length bs < 56 then of_nat (length bs + 128) # bs else long_header (length bs) 128 @ bs)"
  by (simp add: encode_bytes_def encodeLength_eq)

lemma hd_be_bytes: "0 < n \<Longrightarrow> be_bytes n ! 0 \<noteq> 0"
proof (induction n rule: be_bytes.induct)
  case (1 n)
  have ne: "be_bytes m \<noteq> []" for m by (subst be_bytes.simps) simp
  show ?case
  proof (cases "n < 256")
    case True
    then have "unat (of_nat n :: byte) = n" by (simp add: unsigned_of_nat take_bit_nat_eq_self)
    then have "(of_nat n :: byte) \<noteq> 0" using 1(2) by (metis unat_0 neq0_conv)
    then show ?thesis using True by (simp add: be_bytes.simps)
  next
    case False
    then show ?thesis using 1(1) [OF False] ne [of "n div 256"] by (subst be_bytes.simps) (simp add: nth_append div_greater_zero_iff)
  qed
qed

text \<open>A length of at most eight bytes fits the first byte.\<close>

lemma long_header_eq:
  assumes "n < 2 ^ 64" "offset \<le> 192"
  shows "long_header n offset = of_nat (offset + 55 + length (be_bytes n)) # be_bytes n"
    "length (be_bytes n) \<le> 8" "be_bytes n \<noteq> []" "unat (of_nat (offset + 55 + length (be_bytes n)) :: byte) = offset + 55 + length (be_bytes n)"
proof -
  show le: "length (be_bytes n) \<le> 8" using length_be_bytes_le [of n 8] assms by simp
  show "be_bytes n \<noteq> []" by (subst be_bytes.simps) simp
  have small: "offset + 55 + length (be_bytes n) < 256" using le assms by simp
  then show "unat (of_nat (offset + 55 + length (be_bytes n)) :: byte) = offset + 55 + length (be_bytes n)"
    by (simp add: unsigned_of_nat take_bit_nat_eq_self del: of_nat_add)
  show "long_header n offset = of_nat (offset + 55 + length (be_bytes n)) # be_bytes n"
    using small by (simp add: long_header_def be_bytes.simps [of "offset + 55 + length (be_bytes n)"] del: of_nat_add)
qed


section \<open>Decoding inverts encoding\<close>

fun data_input :: "rlp_data \<Rightarrow> rlp_input" where
  "data_input (DBytes bs) = RBytes bs"
| "data_input (DList ds) = RArray (map data_input ds)"

lemma decode_short_string:
  assumes "length bs < 56" "\<not> (length bs = 1 \<and> unat (bs ! 0) < 128)"
  shows "rlp_decode (of_nat (length bs + 128) # bs @ rest) = Inr (DBytes bs, rest)"
proof -
  have "unat (of_nat (length bs + 128) :: byte) = length bs + 128"
    using assms(1) by (simp add: unsigned_of_nat take_bit_nat_eq_self del: of_nat_add)
  then show ?thesis using assms
    by (subst rlp_decode.simps)
       (auto simp: Let_def decode_short_def safeSlice_def nth_append length_Suc_conv simp del: of_nat_add)
qed

lemma be_bytes_len: "decodeLength (be_bytes n) = Inr n" if "0 < n"
proof -
  have "be_bytes n \<noteq> []" by (subst be_bytes.simps) simp
  then show ?thesis using hd_be_bytes [OF that] by (simp add: decodeLength_eq)
qed

lemma decode_long_string:
  assumes "56 \<le> length bs" "length bs < 2 ^ 64"
  shows "rlp_decode (long_header (length bs) 128 @ bs @ rest) = Inr (DBytes bs, rest)"
proof -
  note h = long_header_eq [OF assms(2), of 128, simplified]
  let ?l = "length (be_bytes (length bs))"
  have "decodeLength (be_bytes (length bs)) = Inr (length bs)" using be_bytes_len [of "length bs"] assms(1) by linarith
  then have "decode_long ((183 + of_nat ?l) # be_bytes (length bs) @ bs @ rest) (183 + ?l) = Inr (DBytes bs, rest)"
    using assms(1) by (auto simp: decode_long_def safeSlice_def Let_def)
  then show ?thesis using h
    by (subst rlp_decode.simps) (simp add: Let_def)
qed


lemma decode_list:
  assumes "length p < 2 ^ 64" "decode_items p = Inr ds"
  shows "rlp_decode ((if length p < 56 then [of_nat (length p + 192)] else long_header (length p) 192) @ p @ rest) = Inr (DList ds, rest)"
proof (cases "length p < 56")
  case True
  then have "unat (of_nat (length p + 192) :: byte) = length p + 192"
    by (simp add: unsigned_of_nat take_bit_nat_eq_self del: of_nat_add)
  then show ?thesis using True assms(2)
    by (subst rlp_decode.simps) (simp add: Let_def list_payload_def safeSlice_def del: of_nat_add)
next
  case False
  note h = long_header_eq [OF assms(1), of 192, simplified]
  let ?l = "length (be_bytes (length p))"
  have "decodeLength (be_bytes (length p)) = Inr (length p)" using be_bytes_len [of "length p"] False by linarith
  moreover have "0 < ?l" using h(3) by simp
  ultimately have "list_payload ((247 + of_nat ?l) # be_bytes (length p) @ p @ rest) (247 + ?l) = Inr (p, Suc (?l + length p))"
    using False by (auto simp: list_payload_def safeSlice_def Let_def)
  then show ?thesis using False h assms(2)
    by (subst rlp_decode.simps) (simp add: Let_def)
qed

lemma encode_loop_total:
  "\<exists>bs. encode (data_input d) = Inr bs \<and> bs \<noteq> []" 
proof (induction d)
  case (DBytes bs)
  then show ?case by (auto simp: toBytes_def encode_bytes_eq long_header_def be_bytes.simps [of "_ + _"])
next
  case (DList ds)
  then have "\<exists>out. encode_loop (map data_input ds) = Inr out" by (induction ds) (auto simp: bindR_eq_Inr, force)
  then show ?case by (auto simp: encodeLength_eq long_header_def be_bytes.simps [of "_ + _"])
qed

lemma decode_encode:
  "encode (data_input d) = Inr bs \<Longrightarrow> length bs < 2 ^ 64 \<Longrightarrow> rlp_decode (bs @ rest) = Inr (d, rest)"
proof (induction d arbitrary: bs rest)
  case (DBytes b)
  consider (one) "length b = 1" "unat (b ! 0) < 128" | (short) "\<not> (length b = 1 \<and> unat (b ! 0) < 128)" "length b < 56"
    | (long) "56 \<le> length b" by force
  then show ?case
  proof cases
    case one
    then obtain x where "b = [x]" "unat x < 128" by (auto simp: length_Suc_conv)
    then show ?thesis using DBytes by (subst rlp_decode.simps) (auto simp: toBytes_def encode_bytes_eq Let_def)
  next
    case short
    then show ?thesis using decode_short_string [of b rest] DBytes by (auto simp: toBytes_def encode_bytes_eq)
  next
    case long
    then have "bs = long_header (length b) 128 @ b" using DBytes(1) by (auto simp: toBytes_def encode_bytes_eq)
    then show ?thesis using decode_long_string [OF long, of rest] DBytes(2) by simp
  qed
next
  case (DList ds)
  have items: "encode_loop (map data_input es) = Inr out \<Longrightarrow> length (concat out) < 2 ^ 64 \<Longrightarrow>
      set es \<subseteq> set ds \<Longrightarrow> decode_items (concat out) = Inr es" for es out
  proof (induction es arbitrary: out)
    case Nil
    then show ?case by (auto simp: decode_items.simps)
  next
    case (Cons e es)
    then obtain b out' where b: "encode (data_input e) = Inr b" "encode_loop (map data_input es) = Inr out'" "out = b # out'"
      by (auto simp: bindR_eq_Inr)
    then have "rlp_decode (b @ concat out') = Inr (e, concat out')" using DList(1) [of e b "concat out'"] Cons.prems by simp
    moreover have "b \<noteq> []" using encode_loop_total [of e] b(1) by auto
    moreover have "decode_items (concat out') = Inr es" using Cons.IH [OF b(2)] Cons.prems b(3) by simp
    ultimately show ?case by (subst decode_items.simps) (simp add: b(3))
  qed
  obtain out where out: "encode_loop (map data_input ds) = Inr out"
    "bs = (if length (concat out) < 56 then [of_nat (length (concat out) + 192)] else long_header (length (concat out)) 192) @ concat out"
    using DList(2) by (auto simp: bindR_eq_Inr encodeLength_eq foldl_length split: if_splits)
  then have "length (concat out) < 2 ^ 64" using DList(3) by (simp split: if_splits)
  then show ?case using decode_list items [OF out(1)] out(2) by simp
qed


section \<open>Encoding inverts decoding\<close>

lemma be_bytes_be_value:
  assumes "v \<noteq> []" "v ! 0 \<noteq> 0"
  shows "be_bytes (nat (be_value v)) = v"
proof -
  obtain b bs where v: "v = b # bs" using assms(1) by (cases v) auto
  have "1 \<le> uint b" using assms(2) v unsigned_greater_eq [of b] by (metis int_one_le_iff_zero_less nth_Cons_0 order_le_less uint_0_iff)
  then have "1 * 256 ^ length bs \<le> uint b * 256 ^ length bs" by (intro mult_right_mono) simp_all
  then have ge: "256 ^ length bs \<le> be_value v" using be_value_bounds(1) [of bs] unfolding v be_value_Cons by linarith
  have val: "be_value (be_bytes (nat (be_value v))) = be_value v" using be_value_bounds(1) [of v] by simp
  have "be_value v < 256 ^ length v" by (rule be_value_bounds)
  then have "nat (be_value v) < 256 ^ length v" using be_value_bounds(1) [of v] by (simp add: nat_less_iff)
  then have le: "length (be_bytes (nat (be_value v))) \<le> length v" using length_be_bytes_le assms(1) by simp
  have "(256 :: int) ^ length bs < 256 ^ length (be_bytes (nat (be_value v)))"
    using be_value_bounds(2) [of "be_bytes (nat (be_value v))"] ge val by linarith
  then have "length bs < length (be_bytes (nat (be_value v)))" by (rule power_less_imp_less_exp [rotated]) simp
  then show ?thesis using be_value_inj [of "be_bytes (nat (be_value v))" v] le val v by simp
qed

lemma decodeLength_inv: "decodeLength v = Inr n \<Longrightarrow> v \<noteq> [] \<Longrightarrow> be_bytes n = v"
  using be_bytes_be_value [of v] by (simp add: decodeLength_eq split: if_splits)

lemma byte_eqI: "unat (b :: byte) = n \<Longrightarrow> b = of_nat n"
  by auto

lemma decode_short_inv:
  assumes "decode_short (x # xs) (unat x) = Inr (d, rest)" "128 \<le> unat x" "unat x \<le> 0xb7"
  shows "\<exists>bs. d = DBytes bs \<and> encode_bytes bs = Inr (x # bs) \<and> xs = bs @ rest"
proof -
  define n where "n = unat x - 128"
  have n: "unat x = n + 128" "n < 56" using assms(2,3) by (simp_all add: n_def)
  have x: "x = of_nat (n + 128)" by (rule byte_eqI) (rule n(1))
  have d: "d = DBytes (take n xs)" "rest = drop n xs" "n \<le> length xs" "n = 1 \<longrightarrow> \<not> unat (take n xs ! 0) < 128"
    using assms(1) unfolding n(1) by (auto simp: decode_short_def Let_def bindR_eq_Inr safeSlice_Inr split: if_splits)
  then show ?thesis using n(2) x by (auto simp: encode_bytes_eq simp del: of_nat_add)
qed

lemma take_drop_twice: "take l xs @ take n (drop l xs) @ drop (l + n) xs = xs"
  by (metis append_take_drop_id drop_drop add.commute)

lemma decode_long_inv:
  assumes "decode_long (x # xs) (unat x) = Inr (d, rest)" "0xb7 < unat x" "unat x \<le> 0xbf"
  shows "\<exists>bs. d = DBytes bs \<and> encode_bytes bs = Inr (long_header (length bs) 128 @ bs) \<and> x # xs = long_header (length bs) 128 @ bs @ rest"
proof -
  define l where "l = unat x - 0xb7"
  have l: "unat x = 183 + l" "0 < l" "l \<le> 8" using assms(2,3) by (simp_all add: l_def)
  obtain len where len: "l < length xs + 1" "decodeLength (take l xs) = Inr len" "56 \<le> len" "l + len \<le> length xs"
    "d = DBytes (take len (drop l xs))" "rest = drop (l + len) xs"
    using assms(1) unfolding l(1)
    by (auto simp: decode_long_def Let_def bindR_eq_Inr safeSlice_Inr take_drop add.commute split: if_splits)
  have v: "be_bytes len = take l xs" using decodeLength_inv [OF len(2)] l(2) len(4) len(3) by (cases xs) auto
  have "length (take len (drop l xs)) = len" using len(4) by simp
  moreover have "x # xs = long_header len 128 @ take len (drop l xs) @ rest"
  proof -
    have "long_header len 128 = x # take l xs"
      using l len(4) byte_eqI [OF l(1)] by (simp add: long_header_def v be_bytes.simps [of "183 + l"] min_absorb2)
    then show ?thesis using take_drop_twice [of l xs len] len(6) by simp
  qed
  ultimately show ?thesis using len(3,5) by (auto simp: encode_bytes_eq)
qed

lemma list_payload_inv:
  assumes "list_payload (x # xs) (unat x) = Inr (p, n)" "0xc0 \<le> unat x"
  shows "x # xs = (if length p < 56 then [of_nat (length p + 192)] else long_header (length p) 192) @ p @ drop n (x # xs)"
proof (cases "unat x \<le> 0xf7")
  case True
  then have "unat x = length p + 192 \<and> length p < 56 \<and> xs = p @ drop n (x # xs)"
    using assms by (auto simp: list_payload_def bindR_eq_Inr safeSlice_Inr Let_def take_Cons' drop_Cons' split: if_splits)
  then show ?thesis using byte_eqI [of x "length p + 192"] by (simp del: of_nat_add)
next
  case False
  define l where "l = unat x - 0xf7"
  have l: "unat x = 247 + l" "0 < l" using False by (simp_all add: l_def)
  obtain len where len: "l \<le> length xs" "decodeLength (take l xs) = Inr len" "56 \<le> len" "l + len \<le> length xs"
    "p = take len (drop l xs)" "n = Suc (l + len)"
    using assms(1) l(2) unfolding l(1)
    by (auto simp: list_payload_def Let_def bindR_eq_Inr safeSlice_Inr take_drop add.commute split: if_splits)
  have v: "be_bytes len = take l xs" using decodeLength_inv [OF len(2)] l(2) len(4) len(3) by (cases xs) auto
  have "247 + l < 256" using unsigned_less [of x, where ?'a = nat] l(1) by simp
  then have "long_header len 192 = x # take l xs"
    using l len(1) byte_eqI [OF l(1)] by (simp add: long_header_def v be_bytes.simps [of "247 + l"] min_absorb2)
  moreover have "length p = len" using len(4,5) by simp
  ultimately show ?thesis using len(3,5,6)
    using take_drop_twice [of l xs len] by simp
qed

lemma encode_decode_all:
  "\<And>d rest. rlp_decode input = Inr (d, rest) \<Longrightarrow> \<exists>bs. encode (data_input d) = Inr bs \<and> input = bs @ rest"
  "\<And>ds. decode_items inner = Inr ds \<Longrightarrow> \<exists>out. encode_loop (map data_input ds) = Inr out \<and> concat out = inner"
proof (induction input and inner rule: rlp_decode_decode_items.induct)
  case (1 input)
  then obtain x xs where input: "input = x # xs" by (cases input) (auto simp: rlp_decode.simps)
  consider (byte) "unat x < 128" | (short) "128 \<le> unat x" "unat x \<le> 0xb7" | (long) "0xb7 < unat x" "unat x \<le> 0xbf"
    | (list) "0xc0 \<le> unat x" by force
  then show ?case
  proof cases
    case byte
    then show ?thesis using 1(2) by (subst (asm) rlp_decode.simps) (auto simp: input Let_def toBytes_def encode_bytes_eq)
  next
    case short
    then have "decode_short (x # xs) (unat x) = Inr (d, rest)" using 1(2) by (subst (asm) rlp_decode.simps) (simp add: input Let_def)
    then show ?thesis using decode_short_inv short by (fastforce simp: input toBytes_def)
  next
    case long
    then have "decode_long (x # xs) (unat x) = Inr (d, rest)" using 1(2) by (subst (asm) rlp_decode.simps) (simp add: input Let_def)
    then show ?thesis using decode_long_inv long by (fastforce simp: input toBytes_def)
  next
    case list
    then obtain p n ds where p: "list_payload (x # xs) (unat x) = Inr (p, n)" "decode_items p = Inr ds" "d = DList ds" "rest = drop n (x # xs)"
      using 1(2) by (subst (asm) rlp_decode.simps) (auto simp: input Let_def bindR_eq_Inr)
    obtain out where "encode_loop (map data_input ds) = Inr out" "concat out = p"
      using 1(1) [OF _ refl] p(1,2) list by (fastforce simp: input)
    then show ?thesis using list_payload_inv [OF p(1) list] p(3,4)
      by (auto simp: encodeLength_eq foldl_length input)
  qed
next
  case (2 inner)
  show ?case
  proof (cases "inner = []")
    case True
    then show ?thesis using 2(3) by (simp add: decode_items.simps)
  next
    case False
    then obtain e r es where e: "rlp_decode inner = Inr (e, r)" "decode_items r = Inr es" "ds = e # es"
      using 2(3) by (subst (asm) decode_items.simps) (auto simp: bindR_eq_Inr)
    then show ?thesis using 2(1) [OF False e(1)] 2(2) [OF False e(1)] by fastforce
  qed
qed


section \<open>Properties\<close>

lemma hexToBytes_of_prefixed: "rlp_hexToBytes (''0x'' @ s) = Inl (PlainError ''hex string expected, got non-hex character'')"
  by (simp add: rlp_hexToBytes_def asciiToBase16_def of_char_def)

lemma encode_number: "0 \<le> n \<Longrightarrow> encode (RNumber n) = encode_bytes (if n = 0 then [] else be_bytes (nat n))"
  using numberToHex_eq [of "nat n"] by (simp add: toBytes_def rlp_hexToBytes_eq)

text \<open>C21: Encoding never fails on nested byte strings, and decoding its result, as a whole or as the prefix of a
  stream, gives the same nested byte strings back with the rest of the stream untouched (an encoding
  has less than 2^64 bytes).\<close>

theorem rlp_roundtrip:
  "\<exists>bs. encode (data_input d) = Inr bs \<and> (length bs < 2 ^ 64 \<longrightarrow>
     decode (RBytes bs) False = Inr (Plain d) \<and> decode (RBytes (bs @ rest)) True = Inr (Streamed d rest))"
proof -
  obtain bs where bs: "encode (data_input d) = Inr bs" "bs \<noteq> []" using encode_loop_total by blast
  show ?thesis
    using decode_encode [OF bs(1), of "[]"] decode_encode [OF bs(1), of rest] bs
    by (intro exI [of _ bs]) (simp add: decode_def input_length_zero_def toBytes_def)
qed

theorem rlp_roundtrip_witness:
  "decode (RBytes [0xc4, 0x83, 1, 2, 3]) False = Inr (Plain (DList [DBytes [1, 2, 3]]))"
proof -
  have "encode (data_input (DList [DBytes [1, 2, 3]])) = Inr [0xc4, 0x83, 1, 2, 3]"
    by (simp add: toBytes_def encode_bytes_eq encodeLength_eq)
  then show ?thesis using rlp_roundtrip [of "DList [DBytes [1, 2, 3]]" "[]"] by auto
qed

text \<open>C22: The encoding is canonical: the decoder accepts a non-empty byte string only when encoding what it
  returns gives the same bytes, so no two byte strings decode to the same value; a superfluous prefix,
  a length with leading zeros or a long form of a short length is refused.\<close>

theorem rlp_canonical:
  assumes "decode (RBytes bs) False = Inr (Plain d)" "bs \<noteq> []"
  shows "encode (data_input d) = Inr bs"
proof -
  have "rlp_decode bs = Inr (d, [])"
    using assms by (auto simp: decode_def input_length_zero_def toBytes_def bindR_eq_Inr split: if_splits)
  then show ?thesis using encode_decode_all(1) [of bs d "[]"] by auto
qed

theorem rlp_canonical_witness: "encode (data_input (DBytes [0x80])) = Inr [0x81, 0x80]"
  by (rule rlp_canonical)
     (simp_all add: decode_def input_length_zero_def toBytes_def rlp_decode.simps [of "[0x81, 0x80]"] decode_short_def safeSlice_def)

end
