(* ===== verification/CheckpointDb.thy ===== *)
theory CheckpointDb
  imports Rlp "HOL-Library.AList"
begin

text \<open>
  The databases below the Merkle Patricia trie: the in-memory database
  \<open>packages/utils/src/mapDB.ts\<close> and the checkpointing layer over it,
  \<open>packages/merkel-trie/src/db/checkpointDB.ts\<close>. A key stands for its hexadecimal text. The cache
  of the package lru-cache is the parameter \<open>lru\<close> of the operations. The lemmas describe the layer
  without a cache by the contents it shows, one per open checkpoint.
\<close>

section \<open>The in-memory database (\<open>mapDB.ts\<close>)\<close>

datatype value_encoding = EncString | EncBytes

datatype db_value = DbString string | DbBytes bytes

type_synonym map_db = "bytes \<Rightarrow> db_value option"

datatype ('k, 'v) db_op = PutOp 'k 'v | DelOp 'k

definition mapdb_get :: "bytes \<Rightarrow> map_db \<Rightarrow> db_value option" where
  "mapdb_get key db = db key"

definition mapdb_put :: "bytes \<Rightarrow> db_value \<Rightarrow> map_db \<Rightarrow> map_db" where
  "mapdb_put key val db = db(key \<mapsto> val)"

definition mapdb_del :: "bytes \<Rightarrow> map_db \<Rightarrow> map_db" where
  "mapdb_del key db = db(key := None)"

fun mapdb_batch :: "(bytes, db_value) db_op list \<Rightarrow> map_db \<Rightarrow> map_db" where
  "mapdb_batch [] db = db"
| "mapdb_batch (DelOp k # ops) db = mapdb_batch ops (mapdb_del k db)"
| "mapdb_batch (PutOp k v # ops) db = mapdb_batch ops (mapdb_put k v db)"

section \<open>The checkpointing layer (\<open>checkpointDB.ts\<close>)\<close>

text \<open>A diff cache is a JavaScript Map: its entries in the order of insertion, with the value
  undefined (a deletion) as \<open>None\<close>.\<close>

record diff_cache =
  cp_keyValueMap :: "(bytes \<times> bytes option) list"
  cp_root :: bytes

record db_stats =
  cache_reads :: nat
  cache_hits :: nat
  cache_writes :: nat
  db_reads :: nat
  db_hits :: nat
  db_writes :: nat

record 'c checkpoint_db =
  cd_checkpoints :: "diff_cache list"
  cd_db :: map_db
  cd_cacheSize :: nat
  cd_valueEncoding :: value_encoding
  cd_cache :: "'c option"
  cd_stats :: db_stats

record 'c lru =
  lru_new :: "nat \<Rightarrow> 'c"
  lru_get :: "bytes \<Rightarrow> 'c \<Rightarrow> bytes option \<times> 'c"
  lru_set :: "bytes \<Rightarrow> bytes option \<Rightarrow> 'c \<Rightarrow> 'c"
  lru_size :: "'c \<Rightarrow> nat"

definition zero_stats :: db_stats where
  "zero_stats = \<lparr>cache_reads = 0, cache_hits = 0, cache_writes = 0, db_reads = 0, db_hits = 0, db_writes = 0\<rparr>"

definition new_checkpoint_db :: "'c lru \<Rightarrow> map_db \<Rightarrow> nat option \<Rightarrow> value_encoding option \<Rightarrow> 'c checkpoint_db" where
  "new_checkpoint_db L db cacheSize encoding =
     (let n = (case cacheSize of None \<Rightarrow> 0 | Some n \<Rightarrow> n) in
      \<lparr>cd_checkpoints = [], cd_db = db, cd_cacheSize = n,
       cd_valueEncoding = (case encoding of None \<Rightarrow> EncString | Some e \<Rightarrow> e),
       cd_cache = (if n > 0 then Some (lru_new L n) else None), cd_stats = zero_stats\<rparr>)"

definition setCheckpoints :: "diff_cache list \<Rightarrow> 'c checkpoint_db \<Rightarrow> 'c checkpoint_db" where
  "setCheckpoints cps d = d\<lparr>cd_checkpoints := map (\<lambda>c. \<lparr>cp_keyValueMap = cp_keyValueMap c, cp_root = cp_root c\<rparr>) cps\<rparr>"

definition db_hasCheckpoints :: "'c checkpoint_db \<Rightarrow> bool" where
  "db_hasCheckpoints d = (length (cd_checkpoints d) > 0)"

definition db_checkpoint :: "bytes \<Rightarrow> ('c checkpoint_db, unit) sx" where
  "db_checkpoint root = modifyE (\<lambda>d. d\<lparr>cd_checkpoints := cd_checkpoints d @ [\<lparr>cp_keyValueMap = [], cp_root = root\<rparr>]\<rparr>)"

definition set_diff :: "bytes \<Rightarrow> bytes option \<Rightarrow> 'c checkpoint_db \<Rightarrow> 'c checkpoint_db" where
  "set_diff key v d = d\<lparr>cd_checkpoints := butlast (cd_checkpoints d) @
     [cp_keyValueMap_update (AList.update key v) (last (cd_checkpoints d))]\<rparr>"

definition count :: "(db_stats \<Rightarrow> db_stats) \<Rightarrow> 'c checkpoint_db \<Rightarrow> 'c checkpoint_db" where
  "count f d = d\<lparr>cd_stats := f (cd_stats d)\<rparr>"

text \<open>What a value becomes on its way to the disk, and back.\<close>

definition stored :: "externals \<Rightarrow> value_encoding \<Rightarrow> bytes \<Rightarrow> db_value" where
  "stored x encoding v = (case encoding of EncBytes \<Rightarrow> DbBytes v | EncString \<Rightarrow> DbString (noble_bytesToHex x v))"

definition unstored :: "externals \<Rightarrow> db_value \<Rightarrow> exn + bytes" where
  "unstored x v = (case v of DbBytes b \<Rightarrow> Inr b | DbString s \<Rightarrow> unprefixedHexToBytes x s)"

definition cached_value :: "'c lru \<Rightarrow> bytes \<Rightarrow> ('c checkpoint_db, bytes option) sx" where
  "cached_value L key = (\<lambda>d. case cd_cache d of None \<Rightarrow> (Inr None, d)
     | Some c \<Rightarrow> let r = lru_get L key c in
         (Inr (fst r), count (\<lambda>s. s\<lparr>cache_reads := cache_reads s + 1,
            cache_hits := cache_hits s + (if fst r = None then 0 else 1)\<rparr>) (d\<lparr>cd_cache := Some (snd r)\<rparr>)))"

text \<open>The loop over the diff caches, latest checkpoint first.\<close>

fun find_diff :: "diff_cache list \<Rightarrow> bytes \<Rightarrow> bytes option option" where
  "find_diff [] key = None"
| "find_diff (c # cs) key = (case map_of (cp_keyValueMap c) key of Some v \<Rightarrow> Some v | None \<Rightarrow> find_diff cs key)"

definition remember :: "'c lru \<Rightarrow> bytes \<Rightarrow> bytes option \<Rightarrow> 'c checkpoint_db \<Rightarrow> 'c checkpoint_db" where
  "remember L key v d = (let d1 = d\<lparr>cd_cache := map_option (lru_set L key v) (cd_cache d)\<rparr> in
     if db_hasCheckpoints d1 then set_diff key v d1 else d1)"

definition read_disk :: "externals \<Rightarrow> 'c lru \<Rightarrow> bytes \<Rightarrow> ('c checkpoint_db, bytes option) sx" where
  "read_disk x L key =
     bindE (getsE (\<lambda>d. mapdb_get key (cd_db d))) (\<lambda>value.
     seqE (modifyE (count (\<lambda>s. s\<lparr>db_reads := db_reads s + 1, db_hits := db_hits s + (if value = None then 0 else 1)\<rparr>)))
     (bindE (case value of None \<Rightarrow> returnE None | Some v \<Rightarrow> liftE (map_sum id Some (unstored x v))) (\<lambda>returnValue.
      seqE (modifyE (remember L key returnValue)) (returnE returnValue))))"

definition db_get :: "externals \<Rightarrow> 'c lru \<Rightarrow> bytes \<Rightarrow> ('c checkpoint_db, bytes option) sx" where
  "db_get x L key =
     bindE (cached_value L key) (\<lambda>cached. if cached \<noteq> None then returnE cached
       else bindE (getsE (\<lambda>d. find_diff (rev (cd_checkpoints d)) key)) (\<lambda>found.
         case found of Some v \<Rightarrow> returnE v | None \<Rightarrow> read_disk x L key))"

definition db_put :: "externals \<Rightarrow> 'c lru \<Rightarrow> bytes \<Rightarrow> bytes \<Rightarrow> ('c checkpoint_db, unit) sx" where
  "db_put x L key v = modifyE (\<lambda>d.
     if db_hasCheckpoints d then set_diff key (Some v) d
     else let d1 = count (\<lambda>s. s\<lparr>db_writes := db_writes s + 1\<rparr>) (d\<lparr>cd_db := mapdb_put key (stored x (cd_valueEncoding d) v) (cd_db d)\<rparr>)
       in case cd_cache d1 of None \<Rightarrow> d1
          | Some c \<Rightarrow> count (\<lambda>s. s\<lparr>cache_writes := cache_writes s + 1\<rparr>) (d1\<lparr>cd_cache := Some (lru_set L key (Some v) c)\<rparr>))"

definition db_del :: "'c lru \<Rightarrow> bytes \<Rightarrow> ('c checkpoint_db, unit) sx" where
  "db_del L key = modifyE (\<lambda>d.
     if db_hasCheckpoints d then set_diff key None d
     else let d1 = count (\<lambda>s. s\<lparr>db_writes := db_writes s + 1\<rparr>) (d\<lparr>cd_db := mapdb_del key (cd_db d)\<rparr>)
       in case cd_cache d1 of None \<Rightarrow> d1
          | Some c \<Rightarrow> count (\<lambda>s. s\<lparr>cache_writes := cache_writes s + 1\<rparr>) (d1\<lparr>cd_cache := Some (lru_set L key None c)\<rparr>))"

fun batch_loop :: "externals \<Rightarrow> 'c lru \<Rightarrow> (bytes, bytes) db_op list \<Rightarrow> ('c checkpoint_db, unit) sx" where
  "batch_loop x L [] = returnE ()"
| "batch_loop x L (PutOp k v # ops) = seqE (db_put x L k v) (batch_loop x L ops)"
| "batch_loop x L (DelOp k # ops) = seqE (db_del L k) (batch_loop x L ops)"

definition converted_op :: "externals \<Rightarrow> value_encoding \<Rightarrow> (bytes, bytes) db_op \<Rightarrow> (bytes, db_value) db_op" where
  "converted_op x encoding bop = (case bop of PutOp k v \<Rightarrow> PutOp k (stored x encoding v) | DelOp k \<Rightarrow> DelOp k)"

definition db_batch :: "externals \<Rightarrow> 'c lru \<Rightarrow> (bytes, bytes) db_op list \<Rightarrow> ('c checkpoint_db, unit) sx" where
  "db_batch x L opStack = bindE (getsE db_hasCheckpoints) (\<lambda>checkpointed.
     if checkpointed then batch_loop x L opStack
     else modifyE (\<lambda>d. count (\<lambda>s. s\<lparr>db_writes := db_writes s + length opStack\<rparr>)
       (d\<lparr>cd_db := mapdb_batch (map (converted_op x (cd_valueEncoding d)) opStack) (cd_db d)\<rparr>)))"

definition flush_op :: "bytes \<times> bytes option \<Rightarrow> (bytes, bytes) db_op" where
  "flush_op e = (case snd e of None \<Rightarrow> DelOp (fst e) | Some v \<Rightarrow> PutOp (fst e) v)"

definition pop_checkpoint :: "('c checkpoint_db, diff_cache) sx" where
  "pop_checkpoint = (\<lambda>d. if cd_checkpoints d = [] then (Inl TypeError, d)
     else (Inr (last (cd_checkpoints d)), d\<lparr>cd_checkpoints := butlast (cd_checkpoints d)\<rparr>))"

definition db_commit :: "externals \<Rightarrow> 'c lru \<Rightarrow> ('c checkpoint_db, unit) sx" where
  "db_commit x L = bindE pop_checkpoint (\<lambda>c. bindE (getsE db_hasCheckpoints) (\<lambda>nested.
     if \<not> nested then db_batch x L (map flush_op (cp_keyValueMap c))
     else modifyE (\<lambda>d. foldl (\<lambda>d e. set_diff (fst e) (snd e) d) d (cp_keyValueMap c))))"

definition db_revert :: "('c checkpoint_db, bytes) sx" where
  "db_revert = bindE pop_checkpoint (\<lambda>c. returnE (cp_root c))"

definition take_stats :: "'c lru \<Rightarrow> bool \<Rightarrow> ('c checkpoint_db, db_stats \<times> nat) sx" where
  "take_stats L reset = (\<lambda>d. (Inr (cd_stats d, case cd_cache d of None \<Rightarrow> 0 | Some c \<Rightarrow> lru_size L c),
     if reset then d\<lparr>cd_stats := zero_stats\<rparr> else d))"

definition db_shallowCopy :: "'c lru \<Rightarrow> 'c checkpoint_db \<Rightarrow> 'c checkpoint_db" where
  "db_shallowCopy L d = new_checkpoint_db L (cd_db d) (Some (cd_cacheSize d)) (Some (cd_valueEncoding d))"

section \<open>The contents shown at each checkpoint\<close>

text \<open>The diff caches are listed latest first. A layer overrides what is below it; \<open>saved\<close> lists what
  the next reverts would show, with the root each checkpoint recorded.\<close>

type_synonym contents = "bytes \<Rightarrow> bytes option"

definition disk_view :: "externals \<Rightarrow> map_db \<Rightarrow> contents" where
  "disk_view x db = (\<lambda>k. case db k of None \<Rightarrow> None | Some v \<Rightarrow> (case unstored x v of Inr b \<Rightarrow> Some b | Inl _ \<Rightarrow> None))"

definition layer :: "diff_cache \<Rightarrow> contents \<Rightarrow> contents" where
  "layer c v = (\<lambda>k. case map_of (cp_keyValueMap c) k of Some r \<Rightarrow> r | None \<Rightarrow> v k)"

fun layers :: "contents \<Rightarrow> diff_cache list \<Rightarrow> contents" where
  "layers base [] = base"
| "layers base (c # cs) = layer c (layers base cs)"

fun saved_layers :: "contents \<Rightarrow> diff_cache list \<Rightarrow> (bytes \<times> contents) list" where
  "saved_layers base [] = []"
| "saved_layers base (c # cs) = (cp_root c, layers base cs) # saved_layers base cs"

definition cd_view :: "externals \<Rightarrow> 'c checkpoint_db \<Rightarrow> contents" where
  "cd_view x d = layers (disk_view x (cd_db d)) (rev (cd_checkpoints d))"

definition cd_saved :: "externals \<Rightarrow> 'c checkpoint_db \<Rightarrow> (bytes \<times> contents) list" where
  "cd_saved x d = saved_layers (disk_view x (cd_db d)) (rev (cd_checkpoints d))"

text \<open>Without a cache, with decodable values on disk and diff caches that are maps.\<close>

definition db_ok :: "externals \<Rightarrow> 'c checkpoint_db \<Rightarrow> bool" where
  "db_ok x d \<longleftrightarrow> cd_cache d = None \<and> (\<forall>k v. cd_db d k = Some v \<longrightarrow> (\<exists>b. unstored x v = Inr b))
     \<and> (\<forall>c\<in>set (cd_checkpoints d). distinct (map fst (cp_keyValueMap c)))"

text \<open>\<open>d\<close> changed to \<open>d'\<close> by a write that leaves every outer checkpoint as it is.\<close>

definition db_keeps :: "externals \<Rightarrow> 'c checkpoint_db \<Rightarrow> 'c checkpoint_db \<Rightarrow> bool" where
  "db_keeps x d d' \<longleftrightarrow> (db_ok x d \<longrightarrow> db_ok x d' \<and> cd_saved x d' = cd_saved x d)"

fun apply_ops :: "(bytes, bytes) db_op list \<Rightarrow> contents \<Rightarrow> contents" where
  "apply_ops [] v = v"
| "apply_ops (PutOp k b # ops) v = apply_ops ops (v(k \<mapsto> b))"
| "apply_ops (DelOp k # ops) v = apply_ops ops (v(k := None))"

lemma db_keeps_refl [simp]: "db_keeps x d d"
  by (simp add: db_keeps_def)

lemma db_keeps_trans: "db_keeps x d e \<Longrightarrow> db_keeps x e f \<Longrightarrow> db_keeps x d f"
  by (auto simp: db_keeps_def)

lemma hex_not_prefixed: "take 2 (hex_of_bytes v) \<noteq> ''0x''"
  using hex_digit_not_x [OF unat_byte_split(2)] by (cases v) (auto simp: hex_of_bytes_def byte_hex_def Let_def)

lemma unstored_stored [simp]: "noble_ok x \<Longrightarrow> unstored x (stored x e v) = Inr v"
  using hex_pairs_of_bytes [of v] hex_not_prefixed [of v]
  by (cases e) (auto simp: unstored_def stored_def unprefixedHexToBytes_def noble_ok_def padToEven_def dest: spec [of _ "hex_of_bytes v"])

lemma unstored_cases [simp]: "unstored x (DbBytes b) = Inr b"
  by (simp add: unstored_def)

lemma apply_ops_append [simp]: "apply_ops (as @ bs) v = apply_ops bs (apply_ops as v)"
proof (induction as arbitrary: v)
  case (Cons b as)
  then show ?case by (cases b) (simp_all del: fun_upd_apply)
qed simp

lemma find_diff_layers: "layers base cs k = (case find_diff cs k of Some v \<Rightarrow> v | None \<Rightarrow> base k)"
  by (induction cs) (auto simp: layer_def split: option.split)

lemma layer_update [simp]: "layer (cp_keyValueMap_update (AList.update k v) c) w = (layer c w)(k := v)"
  by (auto simp: layer_def update_conv split: option.split)

lemma last_butlast_rev: "xs \<noteq> [] \<Longrightarrow> rev xs = last xs # rev (butlast xs)"
  by (induction xs rule: rev_induct) simp_all

text \<open>A write into the latest diff cache.\<close>

lemma set_diff_run:
  assumes "db_ok x d" "db_hasCheckpoints d"
  shows "db_ok x (set_diff k v d)" "cd_view x (set_diff k v d) = (cd_view x d)(k := v)"
    "cd_saved x (set_diff k v d) = cd_saved x d" "db_hasCheckpoints (set_diff k v d)"
proof -
  have ne: "cd_checkpoints d \<noteq> []" using assms(2) by (simp add: db_hasCheckpoints_def)
  then obtain cs c where cs: "cd_checkpoints d = cs @ [c]" by (cases "cd_checkpoints d" rule: rev_cases) auto
  with assms(1) show "db_ok x (set_diff k v d)"
    by (auto simp: db_ok_def set_diff_def distinct_update)
  show "cd_view x (set_diff k v d) = (cd_view x d)(k := v)" "cd_saved x (set_diff k v d) = cd_saved x d"
    "db_hasCheckpoints (set_diff k v d)"
    by (simp_all add: cs cd_view_def cd_saved_def set_diff_def db_hasCheckpoints_def)
qed

lemma count_simps [simp]:
  "cd_view x (count f d) = cd_view x d" "cd_saved x (count f d) = cd_saved x d" "db_ok x (count f d) = db_ok x d"
  "db_hasCheckpoints (count f d) = db_hasCheckpoints d" "cd_cache (count f d) = cd_cache d"
  "cd_checkpoints (count f d) = cd_checkpoints d" "cd_db (count f d) = cd_db d"
  "cd_valueEncoding (count f d) = cd_valueEncoding d"
  by (simp_all add: count_def cd_view_def cd_saved_def db_ok_def db_hasCheckpoints_def)

lemma no_checkpoints: "\<not> db_hasCheckpoints d \<Longrightarrow> cd_checkpoints d = []"
  by (simp add: db_hasCheckpoints_def)

lemma disk_view_put [simp]: "noble_ok x \<Longrightarrow> disk_view x (mapdb_put k (stored x e v) db) = (disk_view x db)(k \<mapsto> v)"
  by (auto simp: disk_view_def mapdb_put_def)

lemma disk_view_del [simp]: "disk_view x (mapdb_del k db) = (disk_view x db)(k := None)"
  by (auto simp: disk_view_def mapdb_del_def)

lemma disk_view_batch:
  "noble_ok x \<Longrightarrow> disk_view x (mapdb_batch (map (converted_op x e) ops) db) = apply_ops ops (disk_view x db)"
proof (induction ops arbitrary: db)
  case (Cons b ops)
  then show ?case by (cases b) (simp_all add: converted_op_def)
qed simp

lemma batch_decodable:
  assumes "noble_ok x"
  shows "(\<forall>k v. db k = Some v \<longrightarrow> (\<exists>b. unstored x v = Inr b)) \<Longrightarrow>
    mapdb_batch (map (converted_op x e) ops) db k = Some v \<Longrightarrow> \<exists>b. unstored x v = Inr b"
proof (induction ops arbitrary: db)
  case (Cons b ops)
  have "\<forall>k v. mapdb_batch [converted_op x e b] db k = Some v \<longrightarrow> (\<exists>b. unstored x v = Inr b)"
    using Cons.prems(1) assms by (cases b) (auto simp: converted_op_def mapdb_put_def mapdb_del_def)
  then show ?case using Cons.IH [of "mapdb_batch [converted_op x e b] db"] Cons.prems(2)
    by (cases b) (simp_all add: converted_op_def)
qed auto

section \<open>The operations on the contents\<close>

lemma db_get_run:
  assumes "db_ok x d"
  shows "\<exists>d'. db_get x L k d = (Inr (cd_view x d k), d') \<and> db_ok x d' \<and> cd_view x d' = cd_view x d
    \<and> cd_saved x d' = cd_saved x d"
proof (cases "find_diff (rev (cd_checkpoints d)) k")
  case (Some v)
  then show ?thesis using assms
    by (simp add: db_get_def sx_run cached_value_def db_ok_def cd_view_def find_diff_layers)
next
  case None
  define r where "r = disk_view x (cd_db d) k"
  have r: "cd_view x d k = r" using None by (simp add: cd_view_def find_diff_layers r_def)
  have disk: "(case cd_db d k of None \<Rightarrow> returnE None | Some v \<Rightarrow> liftE (map_sum id Some (unstored x v))) d1 = (Inr r, d1)" for d1 :: "'a checkpoint_db"
    using assms by (cases "cd_db d k") (force simp: r_def disk_view_def db_ok_def)+
  have cache: "cd_cache d = None" using assms by (simp add: db_ok_def)
  define d1 where "d1 = count (\<lambda>s. s\<lparr>db_reads := db_reads s + 1, db_hits := db_hits s + (if cd_db d k = None then 0 else 1)\<rparr>) d"
  have d1: "db_ok x d1" "cd_view x d1 = cd_view x d" "cd_saved x d1 = cd_saved x d" "cd_cache d1 = None"
    using assms cache by (simp_all add: d1_def)
  have run: "db_get x L k d = (Inr r, remember L k r d1)"
    using None cache by (simp add: db_get_def read_disk_def sx_run cached_value_def mapdb_get_def disk d1_def cong: if_cong)
  have rem: "remember L k r d1 = (if db_hasCheckpoints d1 then set_diff k r d1 else d1)"
  proof -
    have same: "d1\<lparr>cd_cache := None\<rparr> = d1" using d1(4) by (cases d1) simp
    show ?thesis by (simp add: remember_def Let_def d1(4) same)
  qed
  show ?thesis using run rem set_diff_run [OF d1(1), of k r] d1 r by (auto simp: fun_upd_idem)
qed

lemma db_put_run:
  assumes "db_ok x d" "noble_ok x"
  shows "\<exists>d'. db_put x L k v d = (Inr (), d') \<and> db_ok x d' \<and> cd_view x d' = (cd_view x d)(k \<mapsto> v)
    \<and> cd_saved x d' = cd_saved x d \<and> db_hasCheckpoints d' = db_hasCheckpoints d"
proof (cases "db_hasCheckpoints d")
  case True
  then show ?thesis using set_diff_run [OF assms(1) True, of k "Some v"] by (simp add: db_put_def)
next
  case False
  then show ?thesis using assms no_checkpoints [OF False]
    by (auto simp: db_put_def Let_def db_ok_def cd_view_def cd_saved_def mapdb_put_def [symmetric] db_hasCheckpoints_def)
       (auto simp: mapdb_put_def split: if_splits)
qed

lemma db_del_run:
  assumes "db_ok x d"
  shows "\<exists>d'. db_del L k d = (Inr (), d') \<and> db_ok x d' \<and> cd_view x d' = (cd_view x d)(k := None)
    \<and> cd_saved x d' = cd_saved x d \<and> db_hasCheckpoints d' = db_hasCheckpoints d"
proof (cases "db_hasCheckpoints d")
  case True
  then show ?thesis using set_diff_run [OF assms True, of k None] by (simp add: db_del_def)
next
  case False
  then show ?thesis using assms no_checkpoints [OF False]
    by (auto simp: db_del_def Let_def db_ok_def cd_view_def cd_saved_def db_hasCheckpoints_def)
       (auto simp: mapdb_del_def split: if_splits)
qed

lemma batch_loop_run:
  assumes "noble_ok x"
  shows "db_ok x d \<Longrightarrow> \<exists>d'. batch_loop x L ops d = (Inr (), d') \<and> db_ok x d' \<and> cd_view x d' = apply_ops ops (cd_view x d)
    \<and> cd_saved x d' = cd_saved x d"
proof (induction ops arbitrary: d)
  case (Cons b ops)
  show ?case
  proof (cases b)
    case (PutOp k v)
    obtain d1 where d1: "db_put x L k v d = (Inr (), d1)" "db_ok x d1" "cd_view x d1 = (cd_view x d)(k \<mapsto> v)" "cd_saved x d1 = cd_saved x d"
      using db_put_run [OF Cons.prems assms] by blast
    then show ?thesis using Cons.IH [OF d1(2)] by (auto simp: PutOp sx_run simp del: fun_upd_apply)
  next
    case (DelOp k)
    obtain d1 where d1: "db_del L k d = (Inr (), d1)" "db_ok x d1" "cd_view x d1 = (cd_view x d)(k := None)" "cd_saved x d1 = cd_saved x d"
      using db_del_run [OF Cons.prems] by blast
    then show ?thesis using Cons.IH [OF d1(2)] by (auto simp: DelOp sx_run simp del: fun_upd_apply)
  qed
qed simp

lemma db_batch_run:
  assumes "db_ok x d" "noble_ok x"
  shows "\<exists>d'. db_batch x L ops d = (Inr (), d') \<and> db_ok x d' \<and> cd_view x d' = apply_ops ops (cd_view x d)
    \<and> cd_saved x d' = cd_saved x d"
proof (cases "db_hasCheckpoints d")
  case True
  then show ?thesis using batch_loop_run [OF assms(2,1)] by (simp add: db_batch_def sx_run)
next
  case False
  then have "cd_checkpoints d = []" by (rule no_checkpoints)
  then show ?thesis using assms False
    by (auto simp: db_batch_def sx_run db_ok_def cd_view_def cd_saved_def disk_view_batch intro: batch_decodable)
qed

lemma db_checkpoint_run:
  assumes "db_ok x d"
  shows "\<exists>d'. db_checkpoint root d = (Inr (), d') \<and> db_ok x d' \<and> cd_view x d' = cd_view x d
    \<and> cd_saved x d' = (root, cd_view x d) # cd_saved x d \<and> db_hasCheckpoints d'"
  using assms by (auto simp: db_checkpoint_def db_ok_def cd_view_def cd_saved_def layer_def db_hasCheckpoints_def)

lemma saved_split: "saved_layers base rcs = fr # rest \<Longrightarrow> \<exists>c cs. rcs = c # cs \<and> fr = (cp_root c, layers base cs) \<and> rest = saved_layers base cs"
  by (cases rcs) auto

lemma checkpoints_split:
  assumes "cd_saved x d = (r, v) # rest"
  obtains c cs where "cd_checkpoints d = cs @ [c]" "r = cp_root c" "v = layers (disk_view x (cd_db d)) (rev cs)"
    "rest = saved_layers (disk_view x (cd_db d)) (rev cs)"
proof -
  from saved_split [OF assms [unfolded cd_saved_def]] obtain c cs where "rev (cd_checkpoints d) = c # cs" "r = cp_root c"
    "v = layers (disk_view x (cd_db d)) cs" "rest = saved_layers (disk_view x (cd_db d)) cs" by auto
  then show ?thesis using that [of "rev cs" c] by (simp add: rev_eq_Cons_iff)
qed

lemma db_revert_run:
  assumes "db_ok x d" "cd_saved x d = (r, v) # rest"
  shows "\<exists>d'. db_revert d = (Inr r, d') \<and> db_ok x d' \<and> cd_view x d' = v \<and> cd_saved x d' = rest"
proof -
  obtain c cs where "cd_checkpoints d = cs @ [c]" "r = cp_root c" "v = layers (disk_view x (cd_db d)) (rev cs)"
    "rest = saved_layers (disk_view x (cd_db d)) (rev cs)"
    by (rule checkpoints_split [OF assms(2)])
  then show ?thesis using assms(1)
    by (auto simp: db_revert_def sx_run pop_checkpoint_def db_ok_def cd_view_def cd_saved_def)
qed

text \<open>Writing the entries of a diff cache one by one is laying it over the contents.\<close>

lemma layer_fold:
  "distinct (map fst es) \<Longrightarrow> foldl (\<lambda>w e. w(fst e := snd e)) v es = (\<lambda>k. case map_of es k of Some r \<Rightarrow> r | None \<Rightarrow> v k)"
proof (induction es arbitrary: v)
  case (Cons e es)
  have "map_of es (fst e) = None" using Cons.prems by (auto simp: map_of_eq_None_iff)
  then show ?case using Cons by (auto simp: fun_eq_iff split: option.split)
qed simp

lemma apply_flush: "apply_ops (map flush_op es) v = foldl (\<lambda>w e. w(fst e := snd e)) v es"
  by (induction es arbitrary: v) (auto simp: flush_op_def split: option.split simp del: fun_upd_apply)

lemma merge_run:
  "db_ok x d \<Longrightarrow> db_hasCheckpoints d \<Longrightarrow> let d' = foldl (\<lambda>d e. set_diff (fst e) (snd e) d) d es in
    db_ok x d' \<and> cd_view x d' = foldl (\<lambda>w e. w(fst e := snd e)) (cd_view x d) es \<and> cd_saved x d' = cd_saved x d"
proof (induction es arbitrary: d)
  case (Cons e es)
  note s = set_diff_run [OF Cons.prems, of "fst e" "snd e"]
  show ?case using Cons.IH [OF s(1,4)] s by (simp add: Let_def del: fun_upd_apply)
qed simp

lemma db_commit_run:
  assumes "db_ok x d" "noble_ok x" "cd_saved x d = (r, v) # rest"
  shows "\<exists>d'. db_commit x L d = (Inr (), d') \<and> db_ok x d' \<and> cd_view x d' = cd_view x d \<and> cd_saved x d' = rest"
proof -
  obtain c cs where cs: "cd_checkpoints d = cs @ [c]" "v = layers (disk_view x (cd_db d)) (rev cs)"
    "rest = saved_layers (disk_view x (cd_db d)) (rev cs)"
    by (rule checkpoints_split [OF assms(3)])
  define e where "e = d\<lparr>cd_checkpoints := cs\<rparr>"
  have e: "db_ok x e" "cd_view x e = v" "cd_saved x e = rest" "pop_checkpoint d = (Inr c, e)"
    using assms(1) cs by (auto simp: e_def db_ok_def cd_view_def cd_saved_def pop_checkpoint_def)
  have "distinct (map fst (cp_keyValueMap c))" using assms(1) cs(1) by (simp add: db_ok_def)
  then have top: "foldl (\<lambda>w e. w(fst e := snd e)) v (cp_keyValueMap c) = cd_view x d"
    by (simp add: layer_fold cd_view_def cs layer_def)
  show ?thesis
  proof (cases "db_hasCheckpoints e")
    case True
    then show ?thesis using merge_run [OF e(1) True, of "cp_keyValueMap c"] top e
      by (simp add: db_commit_def sx_run Let_def)
  next
    case False
    obtain d' where "db_batch x L (map flush_op (cp_keyValueMap c)) e = (Inr (), d')" "db_ok x d'"
      "cd_view x d' = apply_ops (map flush_op (cp_keyValueMap c)) v" "cd_saved x d' = rest"
      using db_batch_run [OF e(1) assms(2), of L "map flush_op (cp_keyValueMap c)"] e by auto
    then show ?thesis using False top e by (simp add: db_commit_def sx_run apply_flush)
  qed
qed

text \<open>With a cache the layer is not this faithful: a cached value hides a later write of another value
  under the same key, both inside a checkpoint, where \<open>put\<close> leaves the cache alone, and through \<open>batch\<close>,
  which never updates it.\<close>

lemma cached_read_is_stale:
  assumes "cd_cache d = Some c" "lru_get L k c = (Some v, c')"
  shows "db_hasCheckpoints d \<Longrightarrow> fst (seqE (db_put x L k v2) (db_get x L k) d) = Inr (Some v)"
    "db_hasCheckpoints d \<Longrightarrow> fst (seqE (db_del L k) (db_get x L k) d) = Inr (Some v)"
    "\<not> db_hasCheckpoints d \<Longrightarrow> fst (seqE (db_batch x L [DelOp k]) (db_get x L k) d) = Inr (Some v)"
  using assms
  by (simp_all add: sx_run db_put_def db_del_def db_get_def cached_value_def set_diff_def db_batch_def count_def)

end
