(* ===== verification/MptNodes.thy ===== *)
theory MptNodes
  imports Rlp
begin

text \<open>
  Nibbles, hex prefixes and nodes of the Merkle Patricia trie: \<open>packages/merkel-trie/src/util/nibbles.ts\<close>,
  \<open>util/hex.ts\<close>, \<open>util/encoding.ts\<close> and the classes of \<open>node/\<close>. A nibble array is a list of numbers. The
  fields of a node hold what RLP encodes: a byte array, null, or the raw form of an embedded node, an array.
\<close>

section \<open>Nibbles (\<open>nibbles.ts\<close>)\<close>

type_synonym nibbles = "nat list"

definition bytesToNibbles :: "bytes \<Rightarrow> nibbles" where
  "bytesToNibbles key = concat (map (\<lambda>b. [unat (drop_bit 4 b), unat b mod 16]) key)"

definition nibblesTypeToPackedBytes :: "nibbles \<Rightarrow> bytes" where
  "nibblesTypeToPackedBytes arr = map (\<lambda>i. of_nat (arr ! (2 * i) * 16 + arr ! (2 * i + 1))) [0..<length arr div 2]"

fun compare_loop :: "nibbles \<Rightarrow> nibbles \<Rightarrow> int" where
  "compare_loop (a # n1) (b # n2) = (if a < b then - 1 else if a > b then 1 else compare_loop n1 n2)"
| "compare_loop _ _ = 0"

definition nibblesCompare :: "nibbles \<Rightarrow> nibbles \<Rightarrow> int" where
  "nibblesCompare n1 n2 = (let res = compare_loop n1 n2 in
     if res = 0 then (if length n1 < length n2 then - 1 else if length n1 > length n2 then 1 else res) else res)"

fun matchingNibbleLength :: "nibbles \<Rightarrow> nibbles \<Rightarrow> nat" where
  "matchingNibbleLength (a # n1) (b # n2) = (if a = b then Suc (matchingNibbleLength n1 n2) else 0)"
| "matchingNibbleLength _ _ = 0"

section \<open>Hex prefixes (\<open>hex.ts\<close>)\<close>

definition addHexPrefix :: "nibbles \<Rightarrow> bool \<Rightarrow> nibbles" where
  "addHexPrefix key terminator =
     (let key1 = (if length key mod 2 \<noteq> 0 then 1 # key else 0 # 0 # key)
      in if terminator then key1[0 := key1 ! 0 + 2] else key1)"

definition removeHexPrefix :: "nibbles \<Rightarrow> nibbles" where
  "removeHexPrefix val = (if val \<noteq> [] \<and> val ! 0 mod 2 \<noteq> 0 then drop 1 val else drop 2 val)"

definition isTerminator :: "nibbles \<Rightarrow> bool" where
  "isTerminator key = (key \<noteq> [] \<and> key ! 0 > 1)"

section \<open>Compact encoding of byte-sized nibbles (\<open>encoding.ts\<close>)\<close>

definition hasTerminator :: "bytes \<Rightarrow> bool" where
  "hasTerminator ns = (length ns > 0 \<and> ns ! (length ns - 1) = 16)"

text \<open>A write behind the end of the array has no effect.\<close>

definition nibblesToBytes :: "bytes \<Rightarrow> bytes" where
  "nibblesToBytes ns = map (\<lambda>i. push_bit 4 (ns ! (2 * i)) OR ns ! (2 * i + 1)) [0..<length ns div 2]"

definition hexToKeybytes :: "bytes \<Rightarrow> exn + bytes" where
  "hexToKeybytes hex0 = (let hex = (if hasTerminator hex0 then butlast hex0 else hex0) in
     if length hex mod 2 = 1 then Inl (PlainError ''Can't convert hex key of odd length'') else Inr (nibblesToBytes hex))"

definition nibblesToCompactBytes :: "bytes \<Rightarrow> bytes" where
  "nibblesToCompactBytes ns =
     (let terminator = (if hasTerminator ns then 1 else 0);
          n1 = (if hasTerminator ns then butlast ns else ns);
          b0 = push_bit 5 terminator :: byte
      in if length n1 mod 2 = 1 then concatBytes [[b0 OR push_bit 4 1 OR n1 ! 0], nibblesToBytes (drop 1 n1)]
         else concatBytes [[b0], nibblesToBytes n1])"

definition bytesToNibbles16 :: "bytes \<Rightarrow> bytes" where
  "bytesToNibbles16 str = concat (map (\<lambda>b. [b div 16, b mod 16]) str) @ [16]"

definition compactBytesToNibbles :: "bytes \<Rightarrow> bytes" where
  "compactBytesToNibbles compact =
     (if length compact = 0 then compact
      else let base = bytesToNibbles16 compact;
               base1 = (if base ! 0 < 2 then butlast base else base)
           in drop (2 - unat (base1 ! 0 AND 1)) base1)"

definition nibbleTypeToByteType :: "nibbles \<Rightarrow> bytes" where
  "nibbleTypeToByteType arr = map of_nat arr"

definition byteTypeToNibbleType :: "bytes \<Rightarrow> nibbles" where
  "byteTypeToNibbleType key = map (\<lambda>b. unat b mod 16) key"

section \<open>Nodes (\<open>node/*.ts\<close>)\<close>

datatype mpt_node =
    BranchMPTNode (node_branches: "rlp_input list") (node_value: rlp_input)
  | ExtensionMPTNode (node_nibbles: nibbles) (node_value: rlp_input)
  | LeafMPTNode (node_nibbles: nibbles) (node_value: rlp_input)

definition is_branch :: "mpt_node \<Rightarrow> bool" where
  "is_branch n = (case n of BranchMPTNode _ _ \<Rightarrow> True | _ \<Rightarrow> False)"

definition new_branch :: mpt_node where
  "new_branch = BranchMPTNode (replicate 16 RNull) RNull"

text \<open>\<open>x !== null && x.length > 0\<close> of a field.\<close>

fun nonempty :: "rlp_input \<Rightarrow> bool" where
  "nonempty (RBytes b) = (b \<noteq> [])"
| "nonempty (RArray a) = (a \<noteq> [])"
| "nonempty (RString s) = (s \<noteq> [])"
| "nonempty _ = False"

definition branch_from_array :: "rlp_input list \<Rightarrow> mpt_node" where
  "branch_from_array arr = BranchMPTNode (take 16 arr) (arr ! 16)"

text \<open>\<open>value()\<close> of a branch hides an empty value; \<open>value(v)\<close> leaves the value as it is when \<open>v\<close> is null.\<close>

fun get_value :: "mpt_node \<Rightarrow> rlp_input" where
  "get_value (BranchMPTNode bs v) = (if nonempty v then v else RNull)"
| "get_value (ExtensionMPTNode k v) = v"
| "get_value (LeafMPTNode k v) = v"

fun set_value :: "rlp_input \<Rightarrow> mpt_node \<Rightarrow> mpt_node" where
  "set_value v (BranchMPTNode bs w) = BranchMPTNode bs (if v = RNull then w else v)"
| "set_value v (ExtensionMPTNode k w) = ExtensionMPTNode k v"
| "set_value v (LeafMPTNode k w) = LeafMPTNode k v"

text \<open>A branch has no method \<open>key\<close>: calling it is a TypeError.\<close>

fun get_key :: "mpt_node \<Rightarrow> exn + nibbles" where
  "get_key (BranchMPTNode bs v) = Inl TypeError"
| "get_key (ExtensionMPTNode k v) = Inr k"
| "get_key (LeafMPTNode k v) = Inr k"

fun set_key :: "nibbles \<Rightarrow> mpt_node \<Rightarrow> mpt_node" where
  "set_key k (ExtensionMPTNode _ v) = ExtensionMPTNode k v"
| "set_key k (LeafMPTNode _ v) = LeafMPTNode k v"
| "set_key k n = n"

definition encodedKey :: "nibbles \<Rightarrow> bool \<Rightarrow> nibbles" where
  "encodedKey k isLeaf = addHexPrefix k isLeaf"

fun raw :: "mpt_node \<Rightarrow> rlp_input list" where
  "raw (BranchMPTNode bs v) = bs @ [v]"
| "raw (ExtensionMPTNode k v) = [RBytes (nibblesTypeToPackedBytes (encodedKey k False)), v]"
| "raw (LeafMPTNode k v) = [RBytes (nibblesTypeToPackedBytes (encodedKey k True)), v]"

definition serialize :: "mpt_node \<Rightarrow> exn + bytes" where
  "serialize n = encode (RArray (raw n))"

text \<open>\<open>branches[i] = v\<close>; an index that is not a number (undefined) leaves the array alone.\<close>

fun setBranch :: "nat option \<Rightarrow> rlp_input \<Rightarrow> mpt_node \<Rightarrow> mpt_node" where
  "setBranch (Some i) v (BranchMPTNode bs w) = BranchMPTNode (array_set RNull bs i v) w"
| "setBranch _ v n = n"

definition getBranch :: "nat \<Rightarrow> rlp_input list \<Rightarrow> exn + rlp_input" where
  "getBranch i bs = (if i < length bs then Inr (if nonempty (bs ! i) then bs ! i else RNull) else Inl TypeError)"

definition getChildren :: "rlp_input list \<Rightarrow> (nat \<times> rlp_input) list" where
  "getChildren bs = filter (\<lambda>p. nonempty (snd p)) (map (\<lambda>i. (i, bs ! i)) [0..<16])"

text \<open>A raw node whose path is not a byte array cannot be written by the program; it is outside the model.\<close>

definition decodeRawMPTNode :: "rlp_input list \<Rightarrow> exn + mpt_node" where
  "decodeRawMPTNode rw =
     (if length rw = 17 then Inr (branch_from_array rw)
      else if length rw = 2 then
        (case rw ! 0 of
           RBytes p \<Rightarrow> let ns = bytesToNibbles p in
             Inr (if isTerminator ns then LeafMPTNode (removeHexPrefix ns) (rw ! 1)
                  else ExtensionMPTNode (removeHexPrefix ns) (rw ! 1))
         | _ \<Rightarrow> Inl (PlainError ''unmodelled: path is not a byte array''))
      else Inl (PlainError ''Invalid node''))"

definition decodeMPTNode :: "bytes \<Rightarrow> exn + mpt_node" where
  "decodeMPTNode node = bindR (decode (RBytes node) False) (\<lambda>d. case d of
       Plain (DList ds) \<Rightarrow> decodeRawMPTNode (map data_input ds)
     | _ \<Rightarrow> Inl (PlainError ''Invalid node''))"

section \<open>Round trips\<close>

lemma length_bytesToNibbles [simp]: "length (bytesToNibbles bs) = 2 * length bs"
  by (induction bs) (simp_all add: bytesToNibbles_def)

lemma bytesToNibbles_Cons: "bytesToNibbles (b # bs) = unat b div 16 # unat b mod 16 # bytesToNibbles bs"
  by (simp add: bytesToNibbles_def drop_bit_eq_div unat_div)

lemma bytesToNibbles_Nil [simp]: "bytesToNibbles [] = []"
  by (simp add: bytesToNibbles_def)

lemma bytesToNibbles_small: "n \<in> set (bytesToNibbles bs) \<Longrightarrow> n < 16"
  using unat_byte_split by (induction bs) (auto simp: bytesToNibbles_Cons)

lemma packed_Cons2: "nibblesTypeToPackedBytes (a # b # ns) = of_nat (a * 16 + b) # nibblesTypeToPackedBytes ns"
proof -
  have "[0..<length (a # b # ns) div 2] = 0 # map Suc [0..<length ns div 2]"
    by (simp add: upt_conv_Cons map_Suc_upt)
  then show ?thesis by (simp add: nibblesTypeToPackedBytes_def)
qed

lemma packed_Nil [simp]: "nibblesTypeToPackedBytes [] = []"
  by (simp add: nibblesTypeToPackedBytes_def)

lemma nibbles_of_packed:
  "length ns mod 2 = 0 \<Longrightarrow> (\<forall>n\<in>set ns. n < 16) \<Longrightarrow> bytesToNibbles (nibblesTypeToPackedBytes ns) = ns"
proof (induction ns rule: induct_list012)
  case (3 a b ns)
  then have "a * 16 + b < 256" by auto
  then have "unat (of_nat (a * 16 + b) :: byte) = a * 16 + b" by (simp add: unat_of_nat take_bit_eq_mod del: of_nat_add of_nat_mult)
  then show ?case using 3 by (simp add: packed_Cons2 bytesToNibbles_Cons del: of_nat_add of_nat_mult)
qed auto

lemma packed_of_nibbles: "nibblesTypeToPackedBytes (bytesToNibbles bs) = bs"
proof (induction bs)
  case (Cons b bs)
  have "(of_nat (unat b div 16 * 16 + unat b mod 16) :: byte) = b" by (simp del: of_nat_add of_nat_mult)
  then show ?case using Cons by (simp add: bytesToNibbles_Cons packed_Cons2)
qed (simp add: bytesToNibbles_def)

lemma hex_prefix_even: "length (addHexPrefix k t) mod 2 = 0"
  by (auto simp: addHexPrefix_def Let_def) presburger+

lemma hex_prefix_small: "(\<forall>n\<in>set k. n < 16) \<Longrightarrow> \<forall>n\<in>set (addHexPrefix k t). n < 16"
  by (auto simp: addHexPrefix_def Let_def)

lemma remove_hex_prefix [simp]: "removeHexPrefix (addHexPrefix k t) = k"
  by (auto simp: addHexPrefix_def removeHexPrefix_def Let_def)

lemma terminator_hex_prefix [simp]: "isTerminator (addHexPrefix k t) = t"
  by (auto simp: addHexPrefix_def isTerminator_def Let_def)

lemma hex_path_roundtrip:
  "(\<forall>n\<in>set k. n < 16) \<Longrightarrow> bytesToNibbles (nibblesTypeToPackedBytes (encodedKey k t)) = addHexPrefix k t"
  by (simp add: encodedKey_def nibbles_of_packed hex_prefix_even hex_prefix_small)

end
