(* ===== verification/Mpt.thy ===== *)
theory Mpt
  imports CheckpointDb MptNodes
begin

text \<open>
  The Merkle Patricia trie, \<open>packages/merkel-trie/src/mpt.ts\<close>, with the walk of
  \<open>util/walkController.ts\<close>, the proofs of \<open>proof/proof.ts\<close> and the lock of \<open>packages/utils/src/lock.ts\<close>.
  The walk that \<open>findPath\<close> starts schedules one child at a time, so it is a loop; a walk that does not
  end and a lock nobody releases are \<open>NeverReturns\<close>. The hash function is the parameter \<open>keccak256\<close>.
\<close>

section \<open>State\<close>

record mpt_opts =
  useKeyHashing :: bool
  keyPrefix :: "bytes option"
  useRootPersistence :: bool
  useNodePruning :: bool
  opt_cacheSize :: nat
  opt_valueEncoding :: "value_encoding option"

record 'c mpt =
  mpt_options :: mpt_opts
  mpt_db :: "'c checkpoint_db"
  mpt_root :: bytes
  mpt_hashLen :: nat
  lock_permits :: nat

type_synonym ('c, 'a) mptM = "('c mpt, 'a) sx"

definition default_opts :: mpt_opts where
  "default_opts = \<lparr>useKeyHashing = False, keyPrefix = None, useRootPersistence = False, useNodePruning = False, opt_cacheSize = 0, opt_valueEncoding = None\<rparr>"

definition ROOT_DB_KEY :: bytes where
  "ROOT_DB_KEY = utf8ToBytes ''__root__''"

definition RLP_EMPTY_STRING :: bytes where
  "RLP_EMPTY_STRING = [0x80]"

definition mpt_hash :: "externals \<Rightarrow> bytes \<Rightarrow> bytes" where
  "mpt_hash x msg = keccak256 x msg"

definition EMPTY_TRIE_ROOT :: "externals \<Rightarrow> bytes" where
  "EMPTY_TRIE_ROOT x = mpt_hash x RLP_EMPTY_STRING"

definition appliedKey :: "externals \<Rightarrow> mpt_opts \<Rightarrow> bytes \<Rightarrow> bytes" where
  "appliedKey x opts key = (if useKeyHashing opts then mpt_hash x key else key)"

definition with_prefix :: "mpt_opts \<Rightarrow> bytes \<Rightarrow> bytes" where
  "with_prefix opts key = (case keyPrefix opts of None \<Rightarrow> key | Some p \<Rightarrow> concatBytes [p, key])"

definition on_db :: "('c checkpoint_db, 'a) sx \<Rightarrow> ('c, 'a) mptM" where
  "on_db m = (\<lambda>s. case m (mpt_db s) of (r, d) \<Rightarrow> (r, s\<lparr>mpt_db := d\<rparr>))"

definition acquire :: "('c, unit) mptM" where
  "acquire = (\<lambda>s. if lock_permits s > 0 then (Inr (), s\<lparr>lock_permits := lock_permits s - 1\<rparr>) else (Inl NeverReturns, s))"

definition release :: "('c, unit) mptM" where
  "release = modifyE (\<lambda>s. s\<lparr>lock_permits := lock_permits s + 1\<rparr>)"

definition set_root :: "bytes \<Rightarrow> ('c, unit) mptM" where
  "set_root value = (\<lambda>s. if length value \<noteq> mpt_hashLen s then (Inl (PlainError ''Invalid root length''), s)
     else (Inr (), s\<lparr>mpt_root := value\<rparr>))"

definition new_mpt :: "externals \<Rightarrow> 'c lru \<Rightarrow> mpt_opts \<Rightarrow> map_db option \<Rightarrow> bytes option \<Rightarrow> exn + 'c mpt" where
  "new_mpt x L opts db root =
     (if opt_valueEncoding opts \<noteq> None \<and> db = None then Inl (PlainError ''`valueEncoding` can only be set if a `db` is provided'')
      else let e = (case db of None \<Rightarrow> EncBytes | Some _ \<Rightarrow> (case opt_valueEncoding opts of None \<Rightarrow> EncString | Some e \<Rightarrow> e));
               d = new_checkpoint_db L (case db of None \<Rightarrow> (\<lambda>_. None) | Some m \<Rightarrow> m) (Some (opt_cacheSize opts)) (Some e);
               s = \<lparr>mpt_options = opts, mpt_db = d, mpt_root = EMPTY_TRIE_ROOT x,
                    mpt_hashLen = length (EMPTY_TRIE_ROOT x), lock_permits = 1\<rparr>
           in case root of None \<Rightarrow> Inr s
              | Some r \<Rightarrow> (case set_root r s of (Inl err, _) \<Rightarrow> Inl err | (Inr _, t) \<Rightarrow> Inr t))"

section \<open>Reading\<close>

abbreviation Missing :: exn where
  "Missing \<equiv> PlainError ''Missing node in DB''"

definition lookupNode :: "externals \<Rightarrow> 'c lru \<Rightarrow> rlp_input \<Rightarrow> ('c, mpt_node) mptM" where
  "lookupNode x L node = (case node of
       RArray rw \<Rightarrow> liftE (decodeRawMPTNode rw)
     | RBytes h \<Rightarrow> bindE (getsE mpt_options) (\<lambda>opts. bindE (on_db (db_get x L (with_prefix opts h))) (\<lambda>value.
         case value of None \<Rightarrow> throwE Missing | Some v \<Rightarrow> liftE (decodeMPTNode v)))
     | _ \<Rightarrow> throwE TypeError)"

text \<open>What \<open>findPath\<close> does at a node: it finishes, or goes on to a child with the progress made.\<close>

datatype visit_result = Finished "mpt_node option" nibbles | Descend rlp_input nat

fun match_key :: "nibbles \<Rightarrow> nibbles \<Rightarrow> nat \<Rightarrow> nat option" where
  "match_key [] targetKey progress = Some progress"
| "match_key (k # ks) targetKey progress =
     (if progress < length targetKey \<and> k = targetKey ! progress then match_key ks targetKey (progress + 1) else None)"

definition visit :: "nibbles \<Rightarrow> nat \<Rightarrow> mpt_node \<Rightarrow> exn + visit_result" where
  "visit targetKey progress node = (case node of
       BranchMPTNode bs v \<Rightarrow>
         if progress = length targetKey then Inr (Finished (Some node) [])
         else bindR (getBranch (targetKey ! progress) bs) (\<lambda>branchNode.
           if branchNode = RNull then Inr (Finished None (drop progress targetKey))
           else Inr (Descend branchNode (progress + 1)))
     | LeafMPTNode k v \<Rightarrow>
         if length targetKey - progress > length k then Inr (Finished None (drop progress targetKey))
         else (case match_key k targetKey progress of
             None \<Rightarrow> Inr (Finished None (drop progress targetKey))
           | Some p \<Rightarrow> Inr (Finished (Some node) []))
     | ExtensionMPTNode k v \<Rightarrow>
         (case match_key k targetKey progress of
             None \<Rightarrow> Inr (Finished None (drop progress targetKey))
           | Some p \<Rightarrow> Inr (Descend v p)))"

type_synonym stack_slots = "mpt_node option list"

partial_function (option) walk :: "externals \<Rightarrow> 'c lru \<Rightarrow> nibbles \<Rightarrow> rlp_input \<Rightarrow> nat \<Rightarrow> stack_slots \<Rightarrow> 'c mpt
    \<Rightarrow> ((exn + mpt_node option \<times> nibbles) \<times> stack_slots \<times> 'c mpt) option" where
  "walk x L targetKey ref progress stack s =
     (case lookupNode x L ref s of
        (Inl e, t) \<Rightarrow> Some (Inl e, stack, t)
      | (Inr node, t) \<Rightarrow>
          let stack1 = array_set None stack progress (Some node) in
          (case visit targetKey progress node of
             Inl e \<Rightarrow> Some (Inl e, stack1, t)
           | Inr (Finished n remaining) \<Rightarrow> Some (Inr (n, remaining), stack1, t)
           | Inr (Descend child p) \<Rightarrow> walk x L targetKey child p stack1 t))"

record path =
  path_node :: "mpt_node option"
  path_remaining :: nibbles
  path_stack :: "mpt_node list"

definition filled :: "stack_slots \<Rightarrow> mpt_node list" where
  "filled stack = map the (filter (\<lambda>e. e \<noteq> None) stack)"

definition findPath :: "externals \<Rightarrow> 'c lru \<Rightarrow> bytes \<Rightarrow> bool \<Rightarrow> ('c, path) mptM" where
  "findPath x L key throwIfMissing = (\<lambda>s.
     let targetKey = bytesToNibbles key in
     case walk x L targetKey (RBytes (mpt_root s)) 0 (replicate (length targetKey) None) s of
       None \<Rightarrow> (Inl NeverReturns, s)
     | Some (Inl e, stack, t) \<Rightarrow>
         if e \<noteq> Missing \<or> throwIfMissing then (Inl e, t)
         else (Inr \<lparr>path_node = None, path_remaining = [], path_stack = filled stack\<rparr>, t)
     | Some (Inr (n, remaining), stack, t) \<Rightarrow>
         (Inr \<lparr>path_node = n, path_remaining = remaining, path_stack = filled stack\<rparr>, t))"

definition mpt_get :: "externals \<Rightarrow> 'c lru \<Rightarrow> bytes \<Rightarrow> bool \<Rightarrow> ('c, rlp_input) mptM" where
  "mpt_get x L key throwIfMissing =
     bindE (getsE mpt_options) (\<lambda>opts. bindE (findPath x L (appliedKey x opts key) throwIfMissing) (\<lambda>p.
       returnE (case path_node p of None \<Rightarrow> RNull
         | Some n \<Rightarrow> if path_remaining p = [] then get_value n else RNull)))"

definition checkRoot :: "externals \<Rightarrow> 'c lru \<Rightarrow> bytes \<Rightarrow> ('c, bool) mptM" where
  "checkRoot x L root = (\<lambda>s. case lookupNode x L (RBytes root) s of
       (Inr _, t) \<Rightarrow> (Inr True, t)
     | (Inl e, t) \<Rightarrow> if e = Missing then (Inr (root = EMPTY_TRIE_ROOT x), t) else (Inl e, t))"

section \<open>Saving\<close>

definition persistRoot :: "externals \<Rightarrow> 'c lru \<Rightarrow> ('c, unit) mptM" where
  "persistRoot x L = (\<lambda>s. let opts = mpt_options s in
     if useRootPersistence opts then on_db (db_put x L (with_prefix opts (appliedKey x opts ROOT_DB_KEY)) (mpt_root s)) s
     else (Inr (), s))"

type_synonym node_ops = "(bytes, bytes) db_op list"

definition formatNode :: "externals \<Rightarrow> mpt_opts \<Rightarrow> mpt_node \<Rightarrow> bool \<Rightarrow> bool \<Rightarrow> exn + rlp_input \<times> node_ops" where
  "formatNode x opts node topLevel remove =
     bindR (serialize node) (\<lambda>encoded.
       if length encoded \<ge> 32 \<or> topLevel then
         let lastRoot = mpt_hash x encoded; key = with_prefix opts lastRoot in
         Inr (RBytes lastRoot, if remove then (if useNodePruning opts then [DelOp key] else []) else [PutOp key encoded])
       else Inr (RArray (raw node), []))"

text \<open>\<open>key.splice(start)\<close>: a negative start counts from the end.\<close>

definition splice_from :: "'a list \<Rightarrow> int \<Rightarrow> 'a list" where
  "splice_from xs start = (if start < 0 then take (nat (int (length xs) + start)) xs else take (nat start) xs)"

definition pop_key :: "nibbles \<Rightarrow> nat option" where
  "pop_key key = (if key = [] then None else Some (last key))"

text \<open>A node of the stack gets the reference to the node saved before it; the nibbles that led to that
  node are taken off the key.\<close>

definition relink :: "nibbles \<Rightarrow> mpt_node \<Rightarrow> rlp_input option \<Rightarrow> mpt_node \<times> nibbles" where
  "relink key node lastRoot =
     (let key1 = (case get_key node of Inl _ \<Rightarrow> key | Inr k \<Rightarrow> splice_from key (int (length key) - int (length k)))
      in case (node, lastRoot) of
           (ExtensionMPTNode _ _, Some r) \<Rightarrow> (set_value r node, key1)
         | (BranchMPTNode _ _, Some r) \<Rightarrow> (setBranch (pop_key key1) r node, butlast key1)
         | _ \<Rightarrow> (node, key1))"

text \<open>The loop of \<open>saveStack\<close>; the stack is listed last node first.\<close>

fun save_loop :: "externals \<Rightarrow> mpt_opts \<Rightarrow> nibbles \<Rightarrow> mpt_node list \<Rightarrow> rlp_input option \<Rightarrow> node_ops \<Rightarrow> exn + rlp_input option \<times> node_ops" where
  "save_loop x opts key [] lastRoot opStack = Inr (lastRoot, opStack)"
| "save_loop x opts key (node # stack) lastRoot opStack =
     (case relink key node lastRoot of (node1, key1) \<Rightarrow>
        bindR (formatNode x opts node1 (stack = []) False) (\<lambda>(newRoot, ops).
          save_loop x opts key1 stack (Some newRoot) (opStack @ ops)))"

text \<open>The last node saved is at the top level, so it is referenced by its hash.\<close>

definition saveStack :: "externals \<Rightarrow> 'c lru \<Rightarrow> nibbles \<Rightarrow> mpt_node list \<Rightarrow> node_ops \<Rightarrow> ('c, unit) mptM" where
  "saveStack x L key stack opStack =
     bindE (getsE mpt_options) (\<lambda>opts. bindE (liftE (save_loop x opts key (rev stack) None opStack)) (\<lambda>(lastRoot, ops).
       seqE (case lastRoot of None \<Rightarrow> returnE () | Some (RBytes r) \<Rightarrow> set_root r | Some _ \<Rightarrow> throwE (PlainError ''Invalid root length''))
       (seqE (on_db (db_batch x L ops)) (persistRoot x L))))"

section \<open>Writing\<close>

definition createInitialNode :: "externals \<Rightarrow> 'c lru \<Rightarrow> bytes \<Rightarrow> bytes \<Rightarrow> ('c, unit) mptM" where
  "createInitialNode x L key value =
     bindE (liftE (serialize (LeafMPTNode (bytesToNibbles key) (RBytes value)))) (\<lambda>encoded.
     seqE (set_root (mpt_hash x encoded))
     (bindE (getsE (\<lambda>s. with_prefix (mpt_options s) (mpt_root s))) (\<lambda>rootKey.
      seqE (on_db (db_put x L rootKey encoded)) (persistRoot x L))))"

fun path_length :: "mpt_node list \<Rightarrow> nat" where
  "path_length [] = 0"
| "path_length (BranchMPTNode _ _ # ns) = 1 + path_length ns"
| "path_length (ExtensionMPTNode k _ # ns) = length k + path_length ns"
| "path_length (LeafMPTNode k _ # ns) = length k + path_length ns"

definition matches_leaf :: "mpt_node \<Rightarrow> nibbles \<Rightarrow> nibbles \<Rightarrow> mpt_node list \<Rightarrow> bool" where
  "matches_leaf lastNode key keyRemainder stack = (case lastNode of
       LeafMPTNode k _ \<Rightarrow> length keyRemainder = 0 \<and> matchingNibbleLength k (drop (path_length stack) key) = length k
     | _ \<Rightarrow> False)"

text \<open>The new branch takes what is left of the last node, either relinked under a shorter key or, for an
  extension of which nothing is left, its child directly.\<close>

definition attach_rest :: "externals \<Rightarrow> mpt_opts \<Rightarrow> mpt_node \<Rightarrow> nibbles \<Rightarrow> exn + mpt_node \<times> node_ops" where
  "attach_rest x opts lastNode lastKey = (case lastKey of
       [] \<Rightarrow> Inr (set_value (get_value lastNode) new_branch, [])
     | branchKey # lastKey1 \<Rightarrow>
         if lastKey1 \<noteq> [] \<or> (case lastNode of LeafMPTNode _ _ \<Rightarrow> True | _ \<Rightarrow> False)
         then bindR (formatNode x opts (set_key lastKey1 lastNode) False False) (\<lambda>(formatted, ops).
           Inr (setBranch (Some branchKey) formatted new_branch, ops))
         else bindR (formatNode x opts lastNode False True) (\<lambda>(_, ops).
           Inr (setBranch (Some branchKey) (get_value lastNode) new_branch, ops)))"

definition updated_stack :: "externals \<Rightarrow> mpt_opts \<Rightarrow> nibbles \<Rightarrow> bytes \<Rightarrow> nibbles \<Rightarrow> mpt_node \<Rightarrow> mpt_node list \<Rightarrow> exn + mpt_node list \<times> node_ops" where
  "updated_stack x opts key value keyRemainder lastNode stack =
     (if matches_leaf lastNode key keyRemainder stack then Inr (stack @ [set_value (RBytes value) lastNode], [])
      else if is_branch lastNode then
        (if keyRemainder \<noteq> [] then Inr (stack @ [lastNode, LeafMPTNode (tl keyRemainder) (RBytes value)], [])
         else Inr (stack @ [set_value (RBytes value) lastNode], []))
      else
        let lastKey = node_nibbles lastNode;
            matchingLength = matchingNibbleLength lastKey keyRemainder;
            extensions = (if matchingLength \<noteq> 0 then [ExtensionMPTNode (take matchingLength lastKey) (RBytes value)] else []);
            rest = drop matchingLength keyRemainder
        in bindR (attach_rest x opts lastNode (drop matchingLength lastKey)) (\<lambda>(branch, ops).
             Inr (stack @ extensions @ (if rest \<noteq> [] then [branch, LeafMPTNode (tl rest) (RBytes value)]
               else [set_value (RBytes value) branch]), ops)))"

definition updateNode :: "externals \<Rightarrow> 'c lru \<Rightarrow> bytes \<Rightarrow> bytes \<Rightarrow> nibbles \<Rightarrow> mpt_node list \<Rightarrow> ('c, unit) mptM" where
  "updateNode x L k value keyRemainder stack =
     (if stack = [] then throwE (PlainError ''Stack underflow'')
      else bindE (getsE mpt_options) (\<lambda>opts.
        bindE (liftE (updated_stack x opts (bytesToNibbles k) value keyRemainder (last stack) (butlast stack))) (\<lambda>(stack1, toSave).
          saveStack x L (bytesToNibbles k) stack1 toSave)))"

text \<open>\<open>processBranchMPTNode\<close>: the node left alone on a branch is joined with what is above the branch.\<close>

definition processBranch :: "nibbles \<Rightarrow> nat \<Rightarrow> mpt_node \<Rightarrow> mpt_node option \<Rightarrow> mpt_node list \<Rightarrow> nibbles \<times> mpt_node list" where
  "processBranch key branchKey branchNode parentNode stack =
     (case parentNode of
        Some (ExtensionMPTNode parentKey pv) \<Rightarrow>
          (case get_key branchNode of
             Inl _ \<Rightarrow> (key @ [branchKey], stack @ [ExtensionMPTNode (parentKey @ [branchKey]) pv, branchNode])
           | Inr k \<Rightarrow> (key @ branchKey # k, stack @ [set_key (parentKey @ branchKey # k) branchNode]))
      | Some (LeafMPTNode parentKey pv) \<Rightarrow>
          (case get_key branchNode of
             Inl _ \<Rightarrow> (key @ [branchKey], stack @ [LeafMPTNode (parentKey @ [branchKey]) pv, branchNode])
           | Inr k \<Rightarrow> (key @ branchKey # k, stack @ [set_key (parentKey @ branchKey # k) branchNode]))
      | _ \<Rightarrow>
          let stack1 = stack @ (case parentNode of None \<Rightarrow> [] | Some p \<Rightarrow> [p]) in
          (case get_key branchNode of
             Inl _ \<Rightarrow> (key @ [branchKey], stack1 @ [ExtensionMPTNode [branchKey] (RBytes []), branchNode])
           | Inr k \<Rightarrow> (key @ branchKey # k, stack1 @ [set_key (branchKey # k) branchNode])))"

definition pop_node :: "'a list \<Rightarrow> 'a option" where
  "pop_node xs = (if xs = [] then None else Some (last xs))"

text \<open>Taking the last node off its branch: the branch, what is above it, the rest of the key.\<close>

definition detach :: "externals \<Rightarrow> mpt_opts \<Rightarrow> nibbles \<Rightarrow> mpt_node \<Rightarrow> mpt_node \<Rightarrow> mpt_node list
    \<Rightarrow> exn + mpt_node \<times> mpt_node option \<times> mpt_node list \<times> nibbles \<times> node_ops" where
  "detach x opts key lastNode parentNode stack =
     (case get_key lastNode of
        Inl _ \<Rightarrow> Inr (set_value RNull lastNode, Some parentNode, stack, key, [])
      | Inr lastNodeKey \<Rightarrow>
          if \<not> is_branch parentNode then Inl (PlainError ''Expected branch node'')
          else let key1 = splice_from key (int (length key) - int (length lastNodeKey)) in
            bindR (formatNode x opts lastNode False True) (\<lambda>(_, ops).
              Inr (setBranch (pop_key key1) RNull parentNode, pop_node stack, butlast stack, butlast key1, ops)))"

definition pruned_child :: "externals \<Rightarrow> mpt_opts \<Rightarrow> rlp_input \<Rightarrow> exn + node_ops" where
  "pruned_child x opts branchNode =
     (if useNodePruning opts then (case branchNode of
          RArray rw \<Rightarrow> bindR (encode (RArray rw)) (\<lambda>e. Inr [DelOp (appliedKey x opts e)])
        | RBytes h \<Rightarrow> Inr [DelOp h] | _ \<Rightarrow> Inl TypeError)
      else Inr [])"

definition deleteNode :: "externals \<Rightarrow> 'c lru \<Rightarrow> bytes \<Rightarrow> mpt_node list \<Rightarrow> ('c, unit) mptM" where
  "deleteNode x L k stack0 =
     (case pop_node stack0 of None \<Rightarrow> throwE (PlainError ''missing last node'') | Some lastNode0 \<Rightarrow>
      (case pop_node (butlast stack0) of None \<Rightarrow> set_root (EMPTY_TRIE_ROOT x) | Some parentNode0 \<Rightarrow>
       bindE (getsE mpt_options) (\<lambda>opts.
       bindE (liftE (detach x opts (bytesToNibbles k) lastNode0 parentNode0 (butlast (butlast stack0))))
         (\<lambda>(lastNode, parentNode, stack, key, opStack).
         let branchNodes = getChildren (node_branches lastNode) in
         if length branchNodes = 1 then
           (let (branchNodeKey, branchNode) = branchNodes ! 0 in
            bindE (liftE (pruned_child x opts branchNode)) (\<lambda>ops.
            bindE (lookupNode x L branchNode) (\<lambda>foundNode.
              let (key1, stack1) = processBranch key branchNodeKey foundNode parentNode stack in
              saveStack x L key1 stack1 (opStack @ ops))))
         else saveStack x L key (stack @ (case parentNode of None \<Rightarrow> [] | Some p \<Rightarrow> [p]) @ [lastNode]) opStack))))"

fun serialize_all :: "mpt_node list \<Rightarrow> exn + bytes list" where
  "serialize_all [] = Inr []"
| "serialize_all (n # ns) = bindR (serialize n) (\<lambda>e. bindR (serialize_all ns) (\<lambda>es. Inr (e # es)))"

definition prune_ops :: "externals \<Rightarrow> mpt_opts \<Rightarrow> mpt_node list \<Rightarrow> exn + node_ops" where
  "prune_ops x opts stack = bindR (serialize_all stack) (\<lambda>es. Inr (map (\<lambda>e. DelOp (with_prefix opts (mpt_hash x e))) es))"

definition mpt_del :: "externals \<Rightarrow> 'c lru \<Rightarrow> bytes \<Rightarrow> bool \<Rightarrow> ('c, unit) mptM" where
  "mpt_del x L key skipKeyTransform =
     seqE acquire (bindE (getsE mpt_options) (\<lambda>opts.
       let applied = (if skipKeyTransform then key else appliedKey x opts key) in
       bindE (findPath x L applied False) (\<lambda>p.
       bindE (if useNodePruning opts \<and> path_node p \<noteq> None then liftE (prune_ops x opts (path_stack p)) else returnE []) (\<lambda>ops.
       seqE (if path_node p \<noteq> None then deleteNode x L applied (path_stack p) else returnE ())
       (seqE (if useNodePruning opts then on_db (db_batch x L ops) else returnE ())
       (seqE (persistRoot x L) release))))))"

definition replaced_ops :: "externals \<Rightarrow> 'c lru \<Rightarrow> bytes \<Rightarrow> bytes \<Rightarrow> mpt_node list \<Rightarrow> ('c, node_ops) mptM" where
  "replaced_ops x L key value stack = bindE (getsE mpt_options) (\<lambda>opts.
     if useNodePruning opts then bindE (mpt_get x L key False) (\<lambda>val.
       if val \<noteq> RBytes value then liftE (prune_ops x opts stack) else returnE [])
     else returnE [])"

definition put_value :: "externals \<Rightarrow> 'c lru \<Rightarrow> bytes \<Rightarrow> bytes \<Rightarrow> bytes \<Rightarrow> ('c, unit) mptM" where
  "put_value x L key applied value = bindE (getsE mpt_root) (\<lambda>root.
     if root = EMPTY_TRIE_ROOT x then createInitialNode x L applied value
     else bindE (findPath x L applied False) (\<lambda>p.
       bindE (replaced_ops x L key value (path_stack p)) (\<lambda>ops.
       seqE (updateNode x L applied value (path_remaining p) (path_stack p))
       (bindE (getsE mpt_options) (\<lambda>opts. if useNodePruning opts then on_db (db_batch x L ops) else returnE ())))))"

definition mpt_put :: "externals \<Rightarrow> 'c lru \<Rightarrow> bytes \<Rightarrow> bytes option \<Rightarrow> bool \<Rightarrow> ('c, unit) mptM" where
  "mpt_put x L key value skipKeyTransform =
     bindE (getsE mpt_options) (\<lambda>opts.
       if useRootPersistence opts \<and> key = ROOT_DB_KEY
       then throwE (PlainError ''Attempted to set '__root__' key but it is not allowed.'')
       else if value = None \<or> value = Some [] then mpt_del x L key False
       else seqE acquire
         (seqE (put_value x L key (if skipKeyTransform then key else appliedKey x opts key) (the value))
         (seqE (persistRoot x L) release)))"

fun mpt_batch_loop :: "externals \<Rightarrow> 'c lru \<Rightarrow> (bytes, bytes option) db_op list \<Rightarrow> bool \<Rightarrow> ('c, unit) mptM" where
  "mpt_batch_loop x L [] skip = returnE ()"
| "mpt_batch_loop x L (PutOp k v # ops) skip =
     (if v = None then throwE (PlainError ''Invalid batch db operation'')
      else seqE (mpt_put x L k v skip) (mpt_batch_loop x L ops skip))"
| "mpt_batch_loop x L (DelOp k # ops) skip = seqE (mpt_del x L k skip) (mpt_batch_loop x L ops skip)"

definition mpt_batch :: "externals \<Rightarrow> 'c lru \<Rightarrow> (bytes, bytes option) db_op list \<Rightarrow> bool \<Rightarrow> ('c, unit) mptM" where
  "mpt_batch x L ops skipKeyTransform = seqE (mpt_batch_loop x L ops skipKeyTransform) (persistRoot x L)"

section \<open>Checkpoints\<close>

definition mpt_hasCheckpoints :: "'c mpt \<Rightarrow> bool" where
  "mpt_hasCheckpoints s = db_hasCheckpoints (mpt_db s)"

definition mpt_checkpoint :: "('c, unit) mptM" where
  "mpt_checkpoint = bindE (getsE mpt_root) (\<lambda>root. on_db (db_checkpoint root))"

definition mpt_commit :: "externals \<Rightarrow> 'c lru \<Rightarrow> ('c, unit) mptM" where
  "mpt_commit x L = bindE (getsE mpt_hasCheckpoints) (\<lambda>has.
     if \<not> has then throwE (PlainError ''trying to commit when not checkpointed'')
     else seqE acquire (seqE (on_db (db_commit x L)) (seqE (persistRoot x L) release)))"

definition mpt_revert :: "externals \<Rightarrow> 'c lru \<Rightarrow> ('c, unit) mptM" where
  "mpt_revert x L = bindE (getsE mpt_hasCheckpoints) (\<lambda>has.
     if \<not> has then throwE (PlainError ''trying to revert when not checkpointed'')
     else seqE acquire (bindE (on_db db_revert) (\<lambda>root. seqE (set_root root) (seqE (persistRoot x L) release))))"

definition mpt_flushCheckpoints :: "('c, unit) mptM" where
  "mpt_flushCheckpoints = modifyE (\<lambda>s. s\<lparr>mpt_db := (mpt_db s)\<lparr>cd_checkpoints := []\<rparr>\<rparr>)"

text \<open>A copy shares the database below; by value here.\<close>

definition mpt_shallowCopy :: "externals \<Rightarrow> 'c lru \<Rightarrow> bool \<Rightarrow> bytes option option \<Rightarrow> nat option \<Rightarrow> 'c mpt \<Rightarrow> exn + 'c mpt" where
  "mpt_shallowCopy x L includeCheckpoints prefix cache s =
     (let opts = (mpt_options s)\<lparr>opt_cacheSize := (case cache of None \<Rightarrow> 0 | Some n \<Rightarrow> n),
            keyPrefix := (case prefix of None \<Rightarrow> keyPrefix (mpt_options s) | Some p \<Rightarrow> p)\<rparr> in
      bindR (new_mpt x L opts (Some (cd_db (mpt_db s))) (Some (mpt_root s))) (\<lambda>trie.
        Inr (if includeCheckpoints \<and> mpt_hasCheckpoints s
             then trie\<lparr>mpt_db := setCheckpoints (cd_checkpoints (mpt_db s)) (mpt_db trie)\<rparr> else trie)))"

section \<open>Proofs (\<open>proof.ts\<close>, \<open>constructors.ts\<close>)\<close>

definition createMerkleProof :: "externals \<Rightarrow> 'c lru \<Rightarrow> bytes \<Rightarrow> ('c, bytes list) mptM" where
  "createMerkleProof x L key = bindE (getsE mpt_options) (\<lambda>opts.
     bindE (findPath x L (appliedKey x opts key) False) (\<lambda>p. liftE (serialize_all (path_stack p))))"

definition updateMPTFromMerkleProof :: "externals \<Rightarrow> 'c lru \<Rightarrow> bytes list \<Rightarrow> bool \<Rightarrow> ('c, bytes option) mptM" where
  "updateMPTFromMerkleProof x L proof shouldVerifyRoot = bindE (getsE mpt_options) (\<lambda>opts.
     let keys = map (\<lambda>n. with_prefix opts (mpt_hash x n)) proof in
     bindE (getsE mpt_root) (\<lambda>root.
       if shouldVerifyRoot \<and> keys \<noteq> [] \<and> root \<noteq> keys ! 0
       then throwE (PlainError ''The provided proof does not have the expected trie root'')
       else seqE (on_db (db_batch x L (map2 PutOp keys proof)))
         (returnE (if keys = [] then None else Some (keys ! 0)))))"

definition verifyMPTWithMerkleProof :: "externals \<Rightarrow> 'c lru \<Rightarrow> 'c mpt \<Rightarrow> bytes \<Rightarrow> bytes \<Rightarrow> bytes list \<Rightarrow> exn + rlp_input" where
  "verifyMPTWithMerkleProof x L trie rootHash key proof =
     bindR (new_mpt x L default_opts None (Some rootHash)) (\<lambda>proofTrie.
       case updateMPTFromMerkleProof x L proof True proofTrie of
         (Inl NeverReturns, _) \<Rightarrow> Inl NeverReturns
       | (Inl _, _) \<Rightarrow> Inl (PlainError ''Invalid proof nodes given'')
       | (Inr _, t) \<Rightarrow>
           (case mpt_get x L (appliedKey x (mpt_options trie) key) True t of
              (Inr v, _) \<Rightarrow> Inr v
            | (Inl e, _) \<Rightarrow> if e = Missing then Inl (PlainError ''Invalid proof provided'') else Inl e))"

definition createMPTFromProof :: "externals \<Rightarrow> 'c lru \<Rightarrow> bytes list \<Rightarrow> mpt_opts \<Rightarrow> map_db option \<Rightarrow> bytes option \<Rightarrow> exn + 'c mpt" where
  "createMPTFromProof x L proof opts db root =
     bindR (new_mpt x L opts db root) (\<lambda>trie.
       case bindE (updateMPTFromMerkleProof x L proof (root \<noteq> None)) (\<lambda>r.
              seqE (case r of None \<Rightarrow> returnE () | Some h \<Rightarrow> set_root h) (persistRoot x L)) trie of
         (Inl e, _) \<Rightarrow> Inl e | (Inr _, t) \<Rightarrow> Inr t)"

text \<open>\<open>createMPT\<close> reads the root that an earlier trie kept in the database, or records the given one.\<close>

definition createMPT :: "externals \<Rightarrow> 'c lru \<Rightarrow> mpt_opts \<Rightarrow> map_db option \<Rightarrow> bytes option \<Rightarrow> exn + 'c mpt" where
  "createMPT x L opts db root =
     (let e = (if opt_valueEncoding opts = Some EncBytes then EncBytes else EncString);
          key = with_prefix opts (if useKeyHashing opts then mpt_hash x ROOT_DB_KEY else ROOT_DB_KEY) in
      case db of
        None \<Rightarrow> new_mpt x L opts db root
      | Some m \<Rightarrow> if \<not> useRootPersistence opts then new_mpt x L opts db root
          else (case root of
              None \<Rightarrow> (case mapdb_get key m of None \<Rightarrow> new_mpt x L opts db None
                 | Some v \<Rightarrow> bindR (unstored x v) (\<lambda>r. new_mpt x L opts db (Some r)))
            | Some r \<Rightarrow> new_mpt x L opts (Some (mapdb_put key (stored x e r) m)) root))"

definition verifyMerkleProof :: "externals \<Rightarrow> 'c lru \<Rightarrow> bytes \<Rightarrow> bytes list \<Rightarrow> mpt_opts \<Rightarrow> map_db option \<Rightarrow> bytes option \<Rightarrow> exn + rlp_input" where
  "verifyMerkleProof x L key proof opts db root =
     (case bindR (createMPTFromProof x L proof opts db root) (\<lambda>t. fst (mpt_get x L key True t)) of
        Inr v \<Rightarrow> Inr v | Inl NeverReturns \<Rightarrow> Inl NeverReturns | Inl _ \<Rightarrow> Inl (PlainError ''Invalid proof provided''))"

end
