(* ===== verification/MptTrie.thy ===== *)
theory MptTrie
  imports MptNodes
begin

text \<open>
  What the Merkle Patricia trie means: an abstract trie with its lookup, insertion and deletion as
  recursive functions, and the canonical form that the Ethereum specification asks for. Two
  canonical tries with the same contents are equal, so the root hash depends on the contents only.
\<close>

section \<open>Abstract tries\<close>

datatype trie = TLeaf nibbles bytes | TExt nibbles trie | TBranch "trie option list" "bytes option"

abbreviation nibs :: "nibbles \<Rightarrow> bool" where
  "nibs k \<equiv> \<forall>n\<in>set k. n < 16"

definition is_tbranch :: "trie \<Rightarrow> bool" where
  "is_tbranch t = (case t of TBranch _ _ \<Rightarrow> True | _ \<Rightarrow> False)"

definition children :: "trie option list \<Rightarrow> nat" where
  "children cs = length (filter (\<lambda>c. c \<noteq> None) cs)"

lemma child_size [termination_simp]: "i < length cs \<Longrightarrow> cs ! i = Some t \<Longrightarrow> size t < size_list (size_option size) cs"
  using nth_mem [of i cs] size_list_estimation' [of "cs ! i" cs "Suc (size t)" "size_option size"] by auto

lemma child_in_size [termination_simp]: "Some t \<in> set cs \<Longrightarrow> size t < Suc (size_list (size_option size) cs)"
  using size_list_estimation' [of "Some t" cs "Suc (size t)" "size_option size"] by auto

fun t_lookup :: "trie \<Rightarrow> nibbles \<Rightarrow> bytes option" where
  "t_lookup (TLeaf k v) ks = (if ks = k then Some v else None)"
| "t_lookup (TExt k t) ks = (if take (length k) ks = k then t_lookup t (drop (length k) ks) else None)"
| "t_lookup (TBranch cs v) [] = v"
| "t_lookup (TBranch cs v) (i # ks) = (if i < length cs then (case cs ! i of None \<Rightarrow> None | Some t \<Rightarrow> t_lookup t ks) else None)"

text \<open>The canonical form: no empty value, no empty extension, only branches below extensions, at least
  two entries in a branch.\<close>

fun t_ok :: "trie \<Rightarrow> bool" where
  "t_ok (TLeaf k v) \<longleftrightarrow> nibs k \<and> v \<noteq> []"
| "t_ok (TExt k t) \<longleftrightarrow> nibs k \<and> k \<noteq> [] \<and> is_tbranch t \<and> t_ok t"
| "t_ok (TBranch cs v) \<longleftrightarrow> length cs = 16 \<and> (\<forall>c\<in>set cs. case c of None \<Rightarrow> True | Some t \<Rightarrow> t_ok t) \<and> v \<noteq> Some []
     \<and> 2 \<le> children cs + (if v = None then 0 else 1)"

definition t_ext :: "nibbles \<Rightarrow> trie \<Rightarrow> trie" where
  "t_ext k t = (if k = [] then t else TExt k t)"

text \<open>A node with the key \<open>k\<close> gives way to a branch where \<open>ks\<close> leaves \<open>k\<close>; \<open>below\<close> is what remains of the node
  under a shorter key and \<open>here\<close> its value.\<close>

definition t_fork :: "(nibbles \<Rightarrow> trie) \<Rightarrow> bytes option \<Rightarrow> nibbles \<Rightarrow> nibbles \<Rightarrow> bytes \<Rightarrow> trie" where
  "t_fork below here k ks v =
     (let cs = (case k of [] \<Rightarrow> replicate 16 None | i # k' \<Rightarrow> (replicate 16 None)[i := Some (below k')]);
          w = (case k of [] \<Rightarrow> here | _ \<Rightarrow> None)
      in case ks of [] \<Rightarrow> TBranch cs (Some v) | j # ks' \<Rightarrow> TBranch (cs[j := Some (TLeaf ks' v)]) w)"

definition t_split :: "nibbles \<Rightarrow> (nibbles \<Rightarrow> trie) \<Rightarrow> bytes option \<Rightarrow> nibbles \<Rightarrow> bytes \<Rightarrow> trie" where
  "t_split k below here ks v =
     (let m = matchingNibbleLength k ks in t_ext (take m k) (t_fork below here (drop m k) (drop m ks) v))"

fun t_insert :: "nibbles \<Rightarrow> bytes \<Rightarrow> trie \<Rightarrow> trie" where
  "t_insert ks v (TLeaf k w) = (if ks = k then TLeaf k v else t_split k (\<lambda>k'. TLeaf k' w) (Some w) ks v)"
| "t_insert ks v (TExt k t) = (if take (length k) ks = k then TExt k (t_insert (drop (length k) ks) v t)
     else t_split k (\<lambda>k'. t_ext k' t) None ks v)"
| "t_insert [] v (TBranch cs w) = TBranch cs (Some v)"
| "t_insert (i # ks) v (TBranch cs w) =
     TBranch (cs[i := Some (if i < length cs then (case cs ! i of None \<Rightarrow> TLeaf ks v | Some t \<Rightarrow> t_insert ks v t) else TLeaf ks v)]) w"

definition t_join :: "nibbles \<Rightarrow> trie \<Rightarrow> trie" where
  "t_join k t = (case t of TLeaf k' v \<Rightarrow> TLeaf (k @ k') v | TExt k' u \<Rightarrow> TExt (k @ k') u | TBranch _ _ \<Rightarrow> t_ext k t)"

definition only_child :: "trie option list \<Rightarrow> (nat \<times> trie) option" where
  "only_child cs = (case filter (\<lambda>p. snd p \<noteq> None) (zip [0..<length cs] cs) of [(i, Some t)] \<Rightarrow> Some (i, t) | _ \<Rightarrow> None)"

definition t_collapse :: "trie option list \<Rightarrow> bytes option \<Rightarrow> trie" where
  "t_collapse cs v = (if children cs = 0 \<and> v \<noteq> None then TLeaf [] (the v) else case only_child cs of Some (i, t) \<Rightarrow> if v = None then t_join [i] t else TBranch cs v | None \<Rightarrow> TBranch cs v)"

fun t_delete :: "nibbles \<Rightarrow> trie \<Rightarrow> trie option" where
  "t_delete ks (TLeaf k v) = (if ks = k then None else Some (TLeaf k v))"
| "t_delete ks (TExt k t) = (if take (length k) ks = k then map_option (t_join k) (t_delete (drop (length k) ks) t) else Some (TExt k t))"
| "t_delete [] (TBranch cs v) = Some (t_collapse cs None)"
| "t_delete (i # ks) (TBranch cs v) = (if i < length cs then (case cs ! i of None \<Rightarrow> Some (TBranch cs v)
     | Some t \<Rightarrow> (case t_delete ks t of None \<Rightarrow> Some (t_collapse (cs[i := None]) v)
        | Some t' \<Rightarrow> Some (TBranch (cs[i := Some t']) v))) else Some (TBranch cs v))"

section \<open>Common prefixes\<close>

lemma matching_le: "matchingNibbleLength a b \<le> length a" "matchingNibbleLength a b \<le> length b"
  by (induction a b rule: matchingNibbleLength.induct) auto

lemma matching_take: "take (matchingNibbleLength a b) a = take (matchingNibbleLength a b) b"
  by (induction a b rule: matchingNibbleLength.induct) auto

lemma matching_differ: "drop (matchingNibbleLength a b) a = i # a' \<Longrightarrow> drop (matchingNibbleLength a b) b = j # b' \<Longrightarrow> i \<noteq> j"
  by (induction a b rule: matchingNibbleLength.induct) (auto split: if_splits)

lemma matching_full: "matchingNibbleLength a b = length a \<longleftrightarrow> take (length a) b = a"
  by (induction a b rule: matchingNibbleLength.induct) auto

lemma take_drop_prefix: "take (length k) ks = k \<longleftrightarrow> ks = k @ drop (length k) ks"
  by (metis append_eq_conv_conj append_take_drop_id)

section \<open>Insertion\<close>

lemma lookup_ext [simp]: "t_lookup (t_ext k t) ks = (if take (length k) ks = k then t_lookup t (drop (length k) ks) else None)"
  by (simp add: t_ext_def)

lemma lookup_branch: "t_lookup (TBranch cs v) ks = (case ks of [] \<Rightarrow> v | i # ks' \<Rightarrow>
    if i < length cs then (case cs ! i of None \<Rightarrow> None | Some t \<Rightarrow> t_lookup t ks') else None)"
  by (cases ks) simp_all

definition forks :: "nibbles \<Rightarrow> nibbles \<Rightarrow> bool" where
  "forks k ks \<longleftrightarrow> (\<forall>i a j b. k = i # a \<longrightarrow> ks = j # b \<longrightarrow> i \<noteq> j)"

lemma split_parts:
  obtains p k' ks' where "k = p @ k'" "ks = p @ ks'" "forks k' ks'" "p = take (matchingNibbleLength k ks) k"
    "k' = drop (matchingNibbleLength k ks) k" "ks' = drop (matchingNibbleLength k ks) ks"
    "t_split k below here ks v = t_ext p (t_fork below here k' ks' v)"
proof -
  let ?m = "matchingNibbleLength k ks"
  have "forks (drop ?m k) (drop ?m ks)" using matching_differ by (auto simp: forks_def)
  moreover have "k = take ?m k @ drop ?m k" "ks = take ?m k @ drop ?m ks"
    by (simp, metis append_take_drop_id matching_take)
  ultimately show ?thesis using that [of "take ?m k" "drop ?m k" "drop ?m ks"] by (simp add: t_split_def Let_def)
qed

lemma lookup_fork:
  assumes "nibs k" "nibs ks" "forks k ks"
  shows "t_lookup (t_fork below here k ks v) q = (case q of
      [] \<Rightarrow> if ks = [] then Some v else if k = [] then here else None
    | i # r \<Rightarrow> (case ks of j # ks' \<Rightarrow> if i = j then (if r = ks' then Some v else None) else
          (case k of i' # k' \<Rightarrow> if i = i' then t_lookup (below k') r else None | [] \<Rightarrow> None)
        | [] \<Rightarrow> (case k of i' # k' \<Rightarrow> if i = i' then t_lookup (below k') r else None | [] \<Rightarrow> None)))"
  using assms by (auto simp: t_fork_def Let_def lookup_branch nth_list_update forks_def split: list.split)

lemma lookup_split_leaf:
  assumes "nibs k" "nibs ks" "ks \<noteq> k"
  shows "t_lookup (t_split k (\<lambda>k'. TLeaf k' w) (Some w) ks v) q = (if q = ks then Some v else if q = k then Some w else None)"
proof -
  obtain p k' ks' where s: "k = p @ k'" "ks = p @ ks'" "forks k' ks'"
    "t_split k (\<lambda>k'. TLeaf k' w) (Some w) ks v = t_ext p (t_fork (\<lambda>k'. TLeaf k' w) (Some w) k' ks' v)"
    by (rule split_parts)
  show ?thesis
  proof (cases "take (length p) q = p")
    case True
    then obtain r where "q = p @ r" by (metis append_take_drop_id)
    then show ?thesis using s assms by (auto simp: lookup_fork forks_def split: list.split)
  next
    case False
    then show ?thesis using s by auto
  qed
qed

lemma lookup_split_ext:
  assumes "nibs k" "nibs ks" "take (length k) ks \<noteq> k"
  shows "t_lookup (t_split k (\<lambda>k'. t_ext k' t) None ks v) q = (if q = ks then Some v else t_lookup (TExt k t) q)"
proof -
  obtain p k' ks' where s: "k = p @ k'" "ks = p @ ks'" "forks k' ks'"
    "t_split k (\<lambda>k'. t_ext k' t) None ks v = t_ext p (t_fork (\<lambda>k'. t_ext k' t) None k' ks' v)"
    by (rule split_parts)
  have "k' \<noteq> []" using assms(3) s by auto
  show ?thesis
  proof (cases "take (length p) q = p")
    case True
    then obtain r where "q = p @ r" by (metis append_take_drop_id)
    then show ?thesis using s assms(1,2) \<open>k' \<noteq> []\<close> by (auto simp: lookup_fork forks_def split: list.split)
  next
    case False
    have "take (length p) (take (length k) q) = take (length p) q" using s(1) by simp
    then have "take (length k) q \<noteq> k" using False s(1) by (metis append_eq_conv_conj)
    then show ?thesis using s False by auto
  qed
qed

lemma ok_child: "t_ok (TBranch cs v) \<Longrightarrow> i < length cs \<Longrightarrow> cs ! i = Some t \<Longrightarrow> t_ok t"
  using nth_mem [of i cs] by (auto simp del: nth_mem)

lemma lookup_nibs: "t_ok t \<Longrightarrow> t_lookup t ks \<noteq> None \<Longrightarrow> nibs ks"
proof (induction t ks rule: t_lookup.induct)
  case (2 k t ks)
  then have "ks = k @ drop (length k) ks" "nibs (drop (length k) ks)" by (auto simp: take_drop_prefix split: if_splits)
  then show ?case using 2(2) by (metis Un_iff set_append t_ok.simps(2))
next
  case (4 cs v i ks)
  then obtain t where t: "i < length cs" "cs ! i = Some t" "t_lookup t ks \<noteq> None"
    by (auto split: if_splits option.splits)
  then have "nibs ks" using 4(1) [OF t(1,2)] ok_child [OF 4(2) t(1,2)] by blast
  then show ?case using 4(2) t(1) by auto
qed (auto split: if_splits)

theorem lookup_insert:
  "t_ok t \<Longrightarrow> nibs ks \<Longrightarrow> t_lookup (t_insert ks v t) = (t_lookup t)(ks \<mapsto> v)"
proof (induction ks v t rule: t_insert.induct)
  case (1 ks v k w)
  then show ?case by (auto simp: lookup_split_leaf)
next
  case (2 ks v k t)
  show ?case
  proof (cases "take (length k) ks = k")
    case True
    then have "ks = k @ drop (length k) ks" by (simp add: take_drop_prefix)
    moreover have "nibs (drop (length k) ks)" using 2(3) by (auto dest: in_set_dropD)
    ultimately show ?thesis using 2(1) [OF True] 2(2) True by (auto simp: fun_eq_iff) (metis append_take_drop_id)
  next
    case False
    then show ?thesis using 2(2,3) by (auto simp: lookup_split_ext fun_eq_iff)
  qed
next
  case (4 i ks v cs w)
  have i: "i < length cs" using 4(2,3) by auto
  have "t_lookup (case cs ! i of None \<Rightarrow> TLeaf ks v | Some t \<Rightarrow> t_insert ks v t)
      = (case cs ! i of None \<Rightarrow> (\<lambda>_. None) | Some t \<Rightarrow> t_lookup t)(ks \<mapsto> v)"
    using 4(1) [OF i] ok_child [OF 4(2) i] 4(3) by (cases "cs ! i") (auto simp: fun_eq_iff)
  then show ?case using i by (auto simp: fun_eq_iff lookup_branch nth_list_update split: list.split option.split)
qed (auto simp: fun_eq_iff lookup_branch split: list.split)

lemma children_Cons: "children (c # cs) = (if c = None then 0 else 1) + children cs"
  by (simp add: children_def)

lemma children_update: "i < length cs \<Longrightarrow> children (cs[i := c]) + (if cs ! i = None then 0 else 1) = children cs + (if c = None then 0 else 1)"
proof (induction cs arbitrary: i)
  case (Cons d cs)
  show ?case
  proof (cases i)
    case (Suc j)
    then show ?thesis using Cons.IH [of j] Cons.prems by (simp add: children_Cons)
  qed (simp add: children_Cons)
qed simp

lemma children_none [simp]: "children (replicate n None) = 0"
  by (simp add: children_def)

lemma ok_update: "\<forall>c\<in>set cs. case c of None \<Rightarrow> True | Some t \<Rightarrow> t_ok t \<Longrightarrow> (case d of None \<Rightarrow> True | Some t \<Rightarrow> t_ok t) \<Longrightarrow>
    \<forall>c\<in>set (cs[i := d]). case c of None \<Rightarrow> True | Some t \<Rightarrow> t_ok t"
  by (auto dest!: subsetD [OF set_update_subset_insert])

lemma ok_fork:
  assumes "nibs k" "nibs ks" "forks k ks" "k \<noteq> ks" "v \<noteq> []" "here \<noteq> Some []" "k = [] \<longrightarrow> here \<noteq> None"
    "\<And>i k'. k = i # k' \<Longrightarrow> t_ok (below k')"
  shows "t_ok (t_fork below here k ks v) \<and> is_tbranch (t_fork below here k ks v)"
proof -
  have none: "\<forall>c\<in>set (replicate 16 None). case c of None \<Rightarrow> True | Some t \<Rightarrow> t_ok t" by simp
  show ?thesis
  proof (cases k)
    case Nil
    then obtain j ks' where "ks = j # ks'" using assms(4) by (cases ks) auto
    then show ?thesis using assms Nil children_update [of j "replicate 16 None" "Some (TLeaf ks' v)"]
      by (auto simp: t_fork_def Let_def is_tbranch_def dest!: subsetD [OF set_update_subset_insert])
  next
    case (Cons i k')
    then have i: "i < 16" "t_ok (below k')" using assms by auto
    let ?cs = "(replicate 16 None)[i := Some (below k')]"
    have c1: "children ?cs = 1" using children_update [of i "replicate 16 None" "Some (below k')"] i by simp
    have ok1: "\<forall>c\<in>set ?cs. case c of None \<Rightarrow> True | Some t \<Rightarrow> t_ok t" using ok_update [OF none, of "Some (below k')" i] i by simp
    show ?thesis
    proof (cases ks)
      case Nil
      then show ?thesis using assms(5) Cons c1 ok1 by (simp add: t_fork_def is_tbranch_def)
    next
      case ks: (Cons j ks')
      then have j: "j < 16" "j \<noteq> i" using assms Cons by (auto simp: forks_def)
      have "children (?cs[j := Some (TLeaf ks' v)]) = 2"
        using children_update [of j ?cs "Some (TLeaf ks' v)"] j c1 by simp
      moreover have "t_ok (TLeaf ks' v)" using assms ks by auto
      ultimately show ?thesis using ok_update [OF ok1, of "Some (TLeaf ks' v)" j] ks Cons
        by (simp add: t_fork_def is_tbranch_def)
    qed
  qed
qed

lemma ok_ext: "nibs k \<Longrightarrow> t_ok t \<Longrightarrow> is_tbranch t \<Longrightarrow> t_ok (t_ext k t)"
  by (simp add: t_ext_def)

lemma nibs_parts: "nibs (p @ q) \<longleftrightarrow> nibs p \<and> nibs q"
  by auto

lemma ok_split:
  assumes "nibs k" "nibs ks" "k \<noteq> ks" "v \<noteq> []" "here \<noteq> Some []" "here = None \<longrightarrow> take (length k) ks \<noteq> k"
    "\<And>p i k'. k = p @ i # k' \<Longrightarrow> t_ok (below k')"
  shows "t_ok (t_split k below here ks v)"
proof -
  obtain p k' ks' where s: "k = p @ k'" "ks = p @ ks'" "forks k' ks'"
    "t_split k below here ks v = t_ext p (t_fork below here k' ks' v)"
    by (rule split_parts)
  have "t_ok (t_fork below here k' ks' v) \<and> is_tbranch (t_fork below here k' ks' v)"
    using assms s(1,2) by (intro ok_fork [OF _ _ s(3)]) auto
  then show ?thesis using s assms(1) by (auto intro: ok_ext)
qed

lemma branch_insert: "is_tbranch t \<Longrightarrow> is_tbranch (t_insert ks v t)"
  by (cases t; cases ks) (auto simp: is_tbranch_def)

lemma ok_insert: "t_ok t \<Longrightarrow> nibs ks \<Longrightarrow> v \<noteq> [] \<Longrightarrow> t_ok (t_insert ks v t)"
proof (induction ks v t rule: t_insert.induct)
  case (1 ks v k w)
  then show ?case by (auto intro!: ok_split)
next
  case (2 ks v k t)
  then show ?case
    by (auto simp: branch_insert dest: in_set_dropD intro!: ok_split ok_ext)
next
  case (3 v cs w)
  then show ?case by (auto split: if_splits)
next
  case (4 i ks v cs w)
  have i: "i < length cs" using 4(2,3) by auto
  define t where "t = (case cs ! i of None \<Rightarrow> TLeaf ks v | Some t \<Rightarrow> t_insert ks v t)"
  have "t_ok t" using 4(1) [OF i] 4(3,4) ok_child [OF 4(2) i] by (cases "cs ! i") (auto simp: t_def)
  then show ?case using ok_update [of cs "Some t" i] 4(2) children_update [OF i, of "Some t"] i
    by (simp add: t_def [symmetric] split: if_splits)
qed

section \<open>Canonical tries are determined by their contents\<close>

lemma some_child: "0 < children cs \<Longrightarrow> \<exists>i t. i < length cs \<and> cs ! i = Some t"
proof (induction cs)
  case (Cons c cs)
  then show ?case
  proof (cases c)
    case None
    then obtain i t where "i < length cs" "cs ! i = Some t" using Cons by (auto simp: children_Cons)
    then show ?thesis by (intro exI [of _ "Suc i"]) auto
  qed (rule exI [of _ 0], auto)
qed (simp add: children_def)

lemma has_key: "t_ok t \<Longrightarrow> \<exists>ks. t_lookup t ks \<noteq> None"
proof (induction t)
  case (TExt k t)
  then obtain ks where "t_lookup t ks \<noteq> None" by auto
  then show ?case by (intro exI [of _ "k @ ks"]) simp
next
  case (TBranch cs v)
  show ?case
  proof (cases v)
    case None
    then obtain i t where i: "i < length cs" "cs ! i = Some t" using TBranch.prems some_child [of cs] by auto
    then have "t_ok t" using ok_child TBranch.prems by blast
    moreover have "Some t \<in> set cs" using i nth_mem [of i cs] by simp
    ultimately obtain ks where "t_lookup t ks \<noteq> None" using TBranch.IH i by fastforce
    then show ?thesis using i by (intro exI [of _ "i # ks"]) simp
  qed (rule exI [of _ "[]"], simp)
qed auto

lemma child_key: "t_ok (TBranch cs v) \<Longrightarrow> i < length cs \<Longrightarrow> cs ! i \<noteq> None \<Longrightarrow> \<exists>r. t_lookup (TBranch cs v) (i # r) \<noteq> None"
proof -
  assume a: "t_ok (TBranch cs v)" "i < length cs" "cs ! i \<noteq> None"
  then obtain t where t: "cs ! i = Some t" by blast
  obtain r where "t_lookup t r \<noteq> None" using has_key [OF ok_child [OF a(1,2) t]] by blast
  then show ?thesis using a t by (intro exI [of _ r]) simp
qed

lemma branch_key: "t_ok (TBranch cs v) \<Longrightarrow> \<exists>i r. t_lookup (TBranch cs v) (i # r) \<noteq> None"
proof -
  assume a: "t_ok (TBranch cs v)"
  then have "0 < children cs" by (simp split: if_splits)
  then obtain i t where "i < length cs" "cs ! i = Some t" using some_child by blast
  then show ?thesis using child_key [OF a, of i] by blast
qed

lemma no_common_head:
  assumes "t_ok (TBranch cs v)"
  shows "\<exists>ks. t_lookup (TBranch cs v) ks \<noteq> None \<and> (\<forall>r. ks \<noteq> i # r)"
proof (cases v)
  case None
  have "0 < children (cs[i := None])"
    using assms None children_update [of i cs None]
    by (cases "i < length cs") (auto simp: list_update_beyond split: if_splits)
  then obtain j t where "j < length cs" "cs[i := None] ! j = Some t" using some_child [of "cs[i := None]"] by auto
  then have "j \<noteq> i" "j < length cs" "cs ! j \<noteq> None" by (cases "j = i"; simp)+
  then show ?thesis using child_key [OF assms, of j] by blast
qed (rule exI [of _ "[]"], simp)

lemma two_keys: "t_ok t \<Longrightarrow> \<forall>k v. t \<noteq> TLeaf k v \<Longrightarrow> \<exists>a b. a \<noteq> b \<and> t_lookup t a \<noteq> None \<and> t_lookup t b \<noteq> None"
proof (induction t)
  case (TExt k t)
  then have "\<forall>k v. t \<noteq> TLeaf k v" by (auto simp: is_tbranch_def)
  then obtain a b where "a \<noteq> b" "t_lookup t a \<noteq> None" "t_lookup t b \<noteq> None" using TExt by auto
  then show ?case by (intro exI [of _ "k @ a"] exI [of _ "k @ b"]) simp
next
  case (TBranch cs v)
  obtain i r where "t_lookup (TBranch cs v) (i # r) \<noteq> None" using branch_key TBranch.prems by blast
  moreover obtain b where "t_lookup (TBranch cs v) b \<noteq> None" "\<forall>r. b \<noteq> i # r" using no_common_head TBranch.prems by blast
  ultimately show ?case by blast
qed auto

lemma ext_keys: "t_lookup (TExt k t) ks \<noteq> None \<longleftrightarrow> (\<exists>r. ks = k @ r \<and> t_lookup t r \<noteq> None)"
  by (auto simp: take_drop_prefix)

lemma ext_prefix_le:
  assumes "t_ok (TExt k t)" "t_lookup (TExt k t) = t_lookup t'" "\<forall>ks. t_lookup t' ks \<noteq> None \<longrightarrow> (\<exists>r. ks = k' @ r)"
  shows "\<exists>d. k = k' @ d"
proof -
  from has_key [of t] assms(1) obtain r where "t_lookup t r \<noteq> None" by auto
  then have "t_lookup t' (k @ r) \<noteq> None" using assms(2) ext_keys [of k t] by metis
  then obtain s where s: "k @ r = k' @ s" using assms(3) by blast
  show ?thesis
  proof (rule ccontr)
    assume "\<nexists>d. k = k' @ d"
    then obtain i d where d: "k' = k @ i # d" using s by (auto simp: append_eq_append_conv2 neq_Nil_conv)
    obtain cs v where t: "t = TBranch cs v" using assms(1) by (auto simp: is_tbranch_def split: trie.splits)
    obtain q where q: "t_lookup t q \<noteq> None" "\<forall>r. q \<noteq> i # r" using no_common_head [of cs v i] assms(1) t by auto
    then have "t_lookup t' (k @ q) \<noteq> None" using assms(2) ext_keys [of k t] by metis
    then show False using assms(3) d q(2) by auto
  qed
qed

theorem canonical_unique: "t_ok t \<Longrightarrow> t_ok t' \<Longrightarrow> t_lookup t = t_lookup t' \<Longrightarrow> t = t'"
proof (induction t arbitrary: t')
  case (TLeaf k v)
  have "\<exists>k' v'. t' = TLeaf k' v'" using two_keys [OF TLeaf(2)] TLeaf(3) by (metis option.distinct(1) t_lookup.simps(1))
  then show ?case using TLeaf(3) by (metis option.inject option.distinct(1) t_lookup.simps(1))
next
  case (TExt k t)
  show ?case
  proof (cases t')
    case (TLeaf k' v)
    then show ?thesis using two_keys [OF TExt(2)] TExt(4) by (metis option.distinct(1) t_lookup.simps(1) trie.distinct(1))
  next
    case (TExt k' u)
    have "\<exists>d. k = k' @ d" using ext_prefix_le [OF TExt.prems(1,3)] ext_keys [of k' u] TExt by blast
    moreover have "\<exists>d. k' = k @ d" using ext_prefix_le [OF TExt.prems(2) [unfolded TExt], of "TExt k t" k] ext_keys [of k t] TExt.prems(3) TExt by metis
    ultimately have "k' = k" by auto
    moreover have "t_lookup t r = t_lookup u r" for r
      using fun_cong [OF TExt.prems(3), of "k @ r"] TExt \<open>k' = k\<close> by simp
    then have "t = u" using TExt.IH [of u] TExt.prems TExt by auto
    ultimately show ?thesis using TExt by simp
  next
    case (TBranch cs v)
    obtain i d where k: "k = i # d" using TExt(2) by (cases k) auto
    obtain q where "t_lookup t' q \<noteq> None" "\<forall>r. q \<noteq> i # r" using no_common_head [of cs v i] TExt(3) TBranch by auto
    then have "t_lookup (TExt k t) q \<noteq> None" by (simp only: TExt.prems(3)) simp
    then obtain r where "q = k @ r" unfolding ext_keys by blast
    then show ?thesis using \<open>\<forall>r. q \<noteq> i # r\<close> k by simp
  qed
next
  case (TBranch cs v)
  show ?case
  proof (cases t')
    case (TLeaf k' w)
    then show ?thesis using two_keys [OF TBranch(2)] TBranch(4) by (metis option.distinct(1) t_lookup.simps(1) trie.distinct(3))
  next
    case (TExt k u)
    obtain i d where k: "k = i # d" using TBranch.prems(2) TExt by (cases k) auto
    obtain q where "t_lookup t' q \<noteq> None" "\<forall>r. q \<noteq> i # r" using no_common_head [OF TBranch.prems(1), of i] TBranch.prems(3) by auto
    then have "t_lookup (TExt k u) q \<noteq> None" using TExt by metis
    then obtain r where "q = k @ r" unfolding ext_keys by blast
    then show ?thesis using \<open>\<forall>r. q \<noteq> i # r\<close> k by simp
  next
    case t': (TBranch ds w)
    have "v = w" using fun_cong [OF TBranch.prems(3), of "[]"] t' by simp
    moreover have "cs ! i = ds ! i" if i: "i < 16" for i
    proof -
      have l: "i < length cs" "i < length ds" using i TBranch.prems t' by auto
      have eq: "(case cs ! i of None \<Rightarrow> None | Some t \<Rightarrow> t_lookup t r) = (case ds ! i of None \<Rightarrow> None | Some t \<Rightarrow> t_lookup t r)" for r
        using fun_cong [OF TBranch.prems(3), of "i # r"] t' l by simp
      show ?thesis
      proof (cases "cs ! i")
        case None
        then show ?thesis using eq child_key [OF TBranch.prems(2) [unfolded t'] l(2)] l by (cases "ds ! i") auto
      next
        case (Some t)
        then have t: "t_ok t" using ok_child [OF TBranch.prems(1) l(1)] by simp
        then obtain u where u: "ds ! i = Some u" using eq Some has_key [OF t] by (cases "ds ! i") auto
        then have "t_ok u" using ok_child [OF TBranch.prems(2) [unfolded t'] l(2)] by simp
        moreover have "t_lookup t = t_lookup u" using eq Some u by (auto simp: fun_eq_iff)
        moreover have "cs ! i \<in> set cs" using l by simp
        ultimately show ?thesis using TBranch.IH [of "cs ! i" t u] Some u t by auto
      qed
    qed
    ultimately show ?thesis using t' TBranch.prems by (auto intro: nth_equalityI)
  qed
qed

section \<open>Deletion\<close>

lemma lookup_join [simp]: "t_lookup (t_join k t) = t_lookup (t_ext k t)"
proof
  fix q
  show "t_lookup (t_join k t) q = t_lookup (t_ext k t) q"
  proof (cases "take (length k) q = k")
    case True
    then obtain r where "q = k @ r" by (metis append_take_drop_id)
    then show ?thesis by (auto simp: t_join_def split: trie.split)
  next
    case False
    then have "take (length (k @ k')) q \<noteq> k @ k'" for k'
      by (metis append_eq_conv_conj append_take_drop_id append.assoc)
    then show ?thesis using False by (auto simp: t_join_def split: trie.split)
  qed
qed

lemma ok_join: "nibs k \<Longrightarrow> t_ok t \<Longrightarrow> t_ok (t_join k t)"
  by (auto simp: t_join_def ok_ext is_tbranch_def split: trie.split)

lemma filled_slots:
  assumes "length is = length cs"
  shows "length (filter (\<lambda>p. snd p \<noteq> None) (zip is cs)) = children cs"
  using assms by (induction "is" cs rule: list_induct2) (auto simp: children_def)

lemma only_child_Some: "only_child cs = Some (i, t) \<Longrightarrow> i < length cs \<and> cs ! i = Some t \<and> (\<forall>j < length cs. j \<noteq> i \<longrightarrow> cs ! j = None)"
proof -
  let ?f = "filter (\<lambda>p. snd p \<noteq> None) (zip [0..<length cs] cs)"
  assume "only_child cs = Some (i, t)"
  then have "?f = [(i, Some t)]" by (auto simp: only_child_def split: list.splits prod.splits option.splits)
  then have "set ?f = {(i, Some t)}" by simp
  moreover have mem: "p \<in> set ?f \<longleftrightarrow> fst p < length cs \<and> snd p = cs ! fst p \<and> snd p \<noteq> None" for p
    by (auto simp: in_set_zip intro!: exI [of _ "fst p"])
  ultimately have only: "(j, c) = (i, Some t) \<longleftrightarrow> j < length cs \<and> c = cs ! j \<and> c \<noteq> None" for j c
    by (metis fst_conv snd_conv singleton_iff)
  have "cs ! j = None" if "j < length cs" "j \<noteq> i" for j using only [of j "cs ! j"] that by blast
  then show ?thesis using only [of i "Some t"] by simp
qed

lemma only_child_None: "only_child cs = None \<Longrightarrow> children cs \<noteq> 1"
proof
  let ?f = "filter (\<lambda>p. snd p \<noteq> None) (zip [0..<length cs] cs)"
  assume none: "only_child cs = None" and "children cs = 1"
  then have "length ?f = 1" using filled_slots [of "[0..<length cs]" cs] by simp
  then obtain i c where f: "?f = [(i, c)]" by (auto simp: length_Suc_conv)
  then have "(i, c) \<in> set ?f" by simp
  then have "c \<noteq> None" by auto
  then show False using none f by (auto simp: only_child_def)
qed

lemma lookup_collapse [simp]: "t_lookup (t_collapse cs v) = t_lookup (TBranch cs v)"
proof (cases "children cs = 0 \<and> v \<noteq> None")
  case True
  then have "cs ! i = None" if "i < length cs" for i using that children_update [of i cs None] by (auto split: if_splits)
  then show ?thesis using True by (auto simp: t_collapse_def fun_eq_iff lookup_branch split: list.split)
next
  case False
  show ?thesis
  proof (cases "only_child cs")
    case (Some p)
    then obtain i t where p: "only_child cs = Some (i, t)" by (cases p) auto
    note only = only_child_Some [OF p]
    have "t_lookup (t_ext [i] t) q = t_lookup (TBranch cs None) q" for q
      using only by (cases q) auto
    then show ?thesis using p False by (auto simp: t_collapse_def)
  qed (use False in \<open>auto simp: t_collapse_def\<close>)
qed

lemma ok_collapse:
  assumes "length cs = 16" "\<forall>c\<in>set cs. case c of None \<Rightarrow> True | Some t \<Rightarrow> t_ok t" "v \<noteq> Some []"
    "1 \<le> children cs + (if v = None then 0 else 1)"
  shows "t_ok (t_collapse cs v)"
proof (cases "only_child cs")
  case (Some p)
  then obtain i t where p: "only_child cs = Some (i, t)" by (cases p) auto
  then have "children cs \<noteq> 0" using children_update [of i cs None] only_child_Some [OF p] by auto
  from only_child_Some [OF p] have "i < 16" "Some t \<in> set cs" using assms(1) nth_mem [of i cs] by auto
  then have "t_ok (t_join [i] t)" using assms(2) by (fastforce intro: ok_join)
  then show ?thesis using p assms \<open>children cs \<noteq> 0\<close> by (auto simp: t_collapse_def)
next
  case None
  then show ?thesis using assms only_child_None [OF None] by (cases v) (auto simp: t_collapse_def)
qed

lemma delete_shape: "is_tbranch t \<Longrightarrow> t_delete ks t \<noteq> None"
  by (cases t; cases ks) (auto simp: is_tbranch_def split: option.split)

theorem delete_ok:
  "t_ok t \<Longrightarrow> case t_delete ks t of None \<Rightarrow> \<exists>v. t = TLeaf ks v
     | Some t' \<Rightarrow> t_ok t' \<and> t_lookup t' = (t_lookup t)(ks := None)"
proof (induction ks t rule: t_delete.induct)
  case (2 ks k t)
  show ?case
  proof (cases "take (length k) ks = k")
    case True
    obtain t' where t': "t_delete (drop (length k) ks) t = Some t'" using delete_shape [of t] 2(2) by auto
    then have "t_ok t'" "t_lookup t' = (t_lookup t)(drop (length k) ks := None)" using 2(1) [OF True] 2(2) by auto
    then have "t_lookup (t_join k t') q = ((t_lookup (TExt k t))(ks := None)) q" for q
      using True by (auto simp: fun_eq_iff) (metis append_take_drop_id)
    then show ?thesis using t' True \<open>t_ok t'\<close> 2(2) by (auto simp: fun_eq_iff intro: ok_join)
  next
    case False
    then show ?thesis using 2(2) by (auto simp: fun_eq_iff)
  qed
next
  case (3 cs v)
  then have "t_ok (t_collapse cs None)" by (intro ok_collapse) (auto split: if_splits)
  then show ?case by (auto simp: fun_eq_iff lookup_branch split: list.split)
next
  case (4 i ks cs v)
  show ?case
  proof (cases "i < length cs \<and> cs ! i \<noteq> None")
    case True
    then obtain t where i: "i < length cs" "cs ! i = Some t" by blast
    then have t: "t_ok t" using ok_child [OF 4(2)] by blast
    show ?thesis
    proof (cases "t_delete ks t")
      case None
      then obtain w where "t = TLeaf ks w" using 4(1) [OF i t] by auto
      moreover have "t_ok (t_collapse (cs[i := None]) v)"
        using 4(2) children_update [OF i(1), of None] i(2) ok_update [of cs None i]
        by (intro ok_collapse) (auto split: if_splits)
      ultimately show ?thesis using i None
        by (auto simp: fun_eq_iff lookup_branch nth_list_update split: list.split option.split)
    next
      case (Some t')
      then have t': "t_ok t'" "t_lookup t' = (t_lookup t)(ks := None)" using 4(1) [OF i t] by auto
      then have "t_ok (TBranch (cs[i := Some t']) v)"
        using 4(2) children_update [OF i(1), of "Some t'"] i(2) ok_update [of cs "Some t'" i] by auto
      then show ?thesis using i Some t'
        by (auto simp: fun_eq_iff lookup_branch nth_list_update split: list.split option.split)
    qed
  next
    case False
    then show ?thesis using 4(2) by (auto simp: fun_eq_iff lookup_branch split: list.split option.split)
  qed
qed auto

end
