(* ===== verification/MptStore.thy ===== *)
theory MptStore
  imports Mpt MptTrie
begin

text \<open>
  How a database holds an abstract trie: the encoding of each node, the reference to a child (its hash,
  or the raw node itself when its encoding is shorter than 32 bytes), and the walk of \<open>findPath\<close> as the
  path of the abstract trie. The lemmas hold for a database that lacks nodes as well, as long as what
  it returns under the hash of a node is that node.
\<close>

section \<open>Encodings\<close>

definition rlp_enc :: "rlp_data list \<Rightarrow> bytes" where
  "rlp_enc ds = (case encode (data_input (DList ds)) of Inr e \<Rightarrow> e | Inl _ \<Rightarrow> [])"

definition ref_of :: "externals \<Rightarrow> rlp_data list \<Rightarrow> rlp_data" where
  "ref_of x ds = (if length (rlp_enc ds) \<ge> 32 then DBytes (mpt_hash x (rlp_enc ds)) else DList ds)"

fun raw_data :: "externals \<Rightarrow> trie \<Rightarrow> rlp_data list" where
  "raw_data x (TLeaf k v) = [DBytes (nibblesTypeToPackedBytes (encodedKey k True)), DBytes v]"
| "raw_data x (TExt k t) = [DBytes (nibblesTypeToPackedBytes (encodedKey k False)), ref_of x (raw_data x t)]"
| "raw_data x (TBranch cs v) = map (\<lambda>c. case c of None \<Rightarrow> DBytes [] | Some t \<Rightarrow> ref_of x (raw_data x t)) cs
     @ [DBytes (case v of None \<Rightarrow> [] | Some b \<Rightarrow> b)]"

definition enc :: "externals \<Rightarrow> trie \<Rightarrow> bytes" where
  "enc x t = rlp_enc (raw_data x t)"

definition node_ref :: "externals \<Rightarrow> trie \<Rightarrow> rlp_input" where
  "node_ref x t = data_input (ref_of x (raw_data x t))"

definition slot :: "externals \<Rightarrow> trie option \<Rightarrow> rlp_input" where
  "slot x c = (case c of None \<Rightarrow> RBytes [] | Some t \<Rightarrow> node_ref x t)"

definition opt_bytes :: "bytes option \<Rightarrow> rlp_input" where
  "opt_bytes v = RBytes (case v of None \<Rightarrow> [] | Some b \<Rightarrow> b)"

text \<open>The node that reading a stored trie gives.\<close>

definition dnode :: "externals \<Rightarrow> trie \<Rightarrow> mpt_node" where
  "dnode x t = (case t of TLeaf k v \<Rightarrow> LeafMPTNode k (RBytes v)
     | TExt k u \<Rightarrow> ExtensionMPTNode k (node_ref x u)
     | TBranch cs v \<Rightarrow> BranchMPTNode (map (slot x) cs) (opt_bytes v))"

fun subs :: "trie \<Rightarrow> trie set" where
  "subs (TLeaf k v) = {TLeaf k v}"
| "subs (TExt k t) = insert (TExt k t) (subs t)"
| "subs (TBranch cs v) = insert (TBranch cs v) (\<Union>c\<in>set cs. case c of None \<Rightarrow> {} | Some t \<Rightarrow> subs t)"

definition encs :: "externals \<Rightarrow> trie \<Rightarrow> bytes set" where
  "encs x t = enc x ` subs t"

lemma encode_list [simp]: "encode (RArray (map data_input ds)) = Inr (rlp_enc ds)"
  using encode_loop_total [of "DList ds"] by (auto simp: rlp_enc_def split: sum.split)

lemma rlp_enc_ne [simp]: "rlp_enc ds \<noteq> []"
  using encode_loop_total [of "DList ds"] by (auto simp: rlp_enc_def)

lemma raw_dnode: "map data_input (raw_data x t) = raw (dnode x t)"
  by (cases t) (auto simp: dnode_def node_ref_def slot_def opt_bytes_def split: option.split)

lemma serialize_dnode [simp]: "serialize (dnode x t) = Inr (enc x t)"
  unfolding serialize_def enc_def raw_dnode [symmetric] by (rule encode_list)

lemma decode_raw_data: "t_ok t \<Longrightarrow> decodeRawMPTNode (map data_input (raw_data x t)) = Inr (dnode x t)"
  by (cases t) (auto simp: decodeRawMPTNode_def dnode_def hex_path_roundtrip node_ref_def branch_from_array_def
      slot_def opt_bytes_def nth_append Let_def split: option.split)

lemma decode_enc: "t_ok t \<Longrightarrow> length (enc x t) < 2 ^ 64 \<Longrightarrow> decodeMPTNode (enc x t) = Inr (dnode x t)"
  using decode_encode [of "DList (raw_data x t)" "enc x t" "[]"] encode_list [of "raw_data x t"]
  by (simp del: encode.simps add: enc_def decodeMPTNode_def decode_def input_length_zero_def toBytes_def decode_raw_data)

lemma self_sub [simp]: "t \<in> subs t"
  by (cases t) simp_all

lemma child_subs: "cs ! i = Some t \<Longrightarrow> i < length cs \<Longrightarrow> subs t \<subseteq> subs (TBranch cs v)"
  using nth_mem [of i cs] by (force simp del: nth_mem)

lemma subs_trans: "u \<in> subs t \<Longrightarrow> subs u \<subseteq> subs t"
proof (induction t)
  case (TBranch cs v)
  then consider "u = TBranch cs v" | t where "Some t \<in> set cs" "u \<in> subs t" by (auto split: option.splits)
  then show ?case
  proof cases
    case 2
    then have "subs u \<subseteq> subs t" using TBranch.IH [of "Some t" t] by auto
    then show ?thesis using 2 by force
  qed simp
qed auto

lemma subs_ok: "t_ok t \<Longrightarrow> u \<in> subs t \<Longrightarrow> t_ok u"
proof (induction t)
  case (TBranch cs v)
  then show ?case by (fastforce split: option.splits)
qed auto

section \<open>Databases that hold a trie\<close>

definition node_key :: "externals \<Rightarrow> mpt_opts \<Rightarrow> bytes \<Rightarrow> bytes" where
  "node_key x opts e = with_prefix opts (mpt_hash x e)"

definition stored_in :: "externals \<Rightarrow> mpt_opts \<Rightarrow> contents \<Rightarrow> trie \<Rightarrow> bool" where
  "stored_in x opts w u \<longleftrightarrow> 32 \<le> length (enc x u) \<longrightarrow> w (node_key x opts (enc x u)) = Some (enc x u)"

definition agrees_on :: "externals \<Rightarrow> mpt_opts \<Rightarrow> contents \<Rightarrow> trie \<Rightarrow> bool" where
  "agrees_on x opts w u \<longleftrightarrow> 32 \<le> length (enc x u) \<longrightarrow> w (node_key x opts (enc x u)) \<in> {None, Some (enc x u)}"

definition fits :: "externals \<Rightarrow> trie \<Rightarrow> bool" where
  "fits x t \<longleftrightarrow> (\<forall>u\<in>subs t. length (enc x u) < 2 ^ 64)"

text \<open>Nothing but the diff caches and the statistics changed, and what they show is the same.\<close>

definition mpt_same :: "externals \<Rightarrow> 'c mpt \<Rightarrow> 'c mpt \<Rightarrow> bool" where
  "mpt_same x s t \<longleftrightarrow> mpt_options t = mpt_options s \<and> mpt_root t = mpt_root s \<and> mpt_hashLen t = mpt_hashLen s
     \<and> lock_permits t = lock_permits s \<and> db_ok x (mpt_db t) \<and> cd_view x (mpt_db t) = cd_view x (mpt_db s)
     \<and> cd_saved x (mpt_db t) = cd_saved x (mpt_db s)"

abbreviation mpt_view :: "externals \<Rightarrow> 'c mpt \<Rightarrow> contents" where
  "mpt_view x s \<equiv> cd_view x (mpt_db s)"

lemma mpt_same_refl: "db_ok x (mpt_db s) \<Longrightarrow> mpt_same x s s"
  by (simp add: mpt_same_def)

lemma mpt_same_trans: "mpt_same x s t \<Longrightarrow> mpt_same x t u \<Longrightarrow> mpt_same x s u"
  by (simp add: mpt_same_def)

lemma get_same:
  assumes "db_ok x (mpt_db s)"
  obtains s' where "on_db (db_get x L k) s = (Inr (mpt_view x s k), s')" "mpt_same x s s'"
proof -
  obtain d' where "db_get x L k (mpt_db s) = (Inr (cd_view x (mpt_db s) k), d')" "db_ok x d'"
    "cd_view x d' = cd_view x (mpt_db s)" "cd_saved x d' = cd_saved x (mpt_db s)"
    using db_get_run [OF assms] by blast
  then show ?thesis by (intro that [of "s\<lparr>mpt_db := d'\<rparr>"]) (simp_all add: on_db_def mpt_same_def)
qed

lemma lookup_hash:
  assumes "db_ok x (mpt_db s)" "mpt_view x s (node_key x (mpt_options s) (enc x t)) \<in> {None, Some (enc x t)}"
    "t_ok t" "length (enc x t) < 2 ^ 64"
  obtains s' where "mpt_same x s s'" "lookupNode x L (RBytes (mpt_hash x (enc x t))) s =
     ((if mpt_view x s (node_key x (mpt_options s) (enc x t)) = None then Inl Missing else Inr (dnode x t)), s')"
proof -
  obtain s' where s': "on_db (db_get x L (node_key x (mpt_options s) (enc x t))) s =
     (Inr (mpt_view x s (node_key x (mpt_options s) (enc x t))), s')" "mpt_same x s s'"
    by (rule get_same [OF assms(1)])
  show ?thesis
    using that [OF s'(2)] s' assms(2) decode_enc [OF assms(3,4)]
    by (auto simp: lookupNode_def sx_run node_key_def)
qed

lemma lookup_ref:
  assumes "db_ok x (mpt_db s)" "agrees_on x (mpt_options s) (mpt_view x s) t" "t_ok t" "length (enc x t) < 2 ^ 64"
  obtains s' r where "mpt_same x s s'" "lookupNode x L (node_ref x t) s = (r, s')" "r = Inr (dnode x t) \<or> r = Inl Missing"
    "stored_in x (mpt_options s) (mpt_view x s) t \<longrightarrow> r = Inr (dnode x t)"
proof (cases "32 \<le> length (enc x t)")
  case True
  then have "mpt_view x s (node_key x (mpt_options s) (enc x t)) \<in> {None, Some (enc x t)}"
    using assms(2) by (simp add: agrees_on_def)
  from lookup_hash [OF assms(1) this assms(3,4)] obtain s' where "mpt_same x s s'"
    "lookupNode x L (RBytes (mpt_hash x (enc x t))) s =
     ((if mpt_view x s (node_key x (mpt_options s) (enc x t)) = None then Inl Missing else Inr (dnode x t)), s')" by blast
  then show ?thesis using that [of s'] True
    by (auto simp: node_ref_def ref_of_def enc_def stored_in_def split: if_splits)
next
  case False
  then show ?thesis using that [of s "Inr (dnode x t)"] mpt_same_refl [OF assms(1)] decode_raw_data [OF assms(3)]
    by (simp add: node_ref_def ref_of_def enc_def lookupNode_def)
qed

section \<open>The walk\<close>

text \<open>The subtries on the way to a key, and where the way ends.\<close>

fun t_path :: "trie \<Rightarrow> nibbles \<Rightarrow> trie list \<times> trie option \<times> nibbles" where
  "t_path (TLeaf k v) ks = ([TLeaf k v], if ks = k then (Some (TLeaf k v), []) else (None, ks))"
| "t_path (TExt k t) ks = (if take (length k) ks = k
     then (case t_path t (drop (length k) ks) of (st, r) \<Rightarrow> (TExt k t # st, r)) else ([TExt k t], None, ks))"
| "t_path (TBranch cs v) [] = ([TBranch cs v], Some (TBranch cs v), [])"
| "t_path (TBranch cs v) (i # ks) = (if i < length cs then (case cs ! i of None \<Rightarrow> ([TBranch cs v], None, i # ks)
     | Some t \<Rightarrow> (case t_path t ks of (st, r) \<Rightarrow> (TBranch cs v # st, r))) else ([TBranch cs v], None, i # ks))"

lemma match_key_eq: "p \<le> length target \<Longrightarrow> match_key k target p = (if take (length k) (drop p target) = k then Some (p + length k) else None)"
proof (induction k arbitrary: p)
  case (Cons a k)
  show ?case
  proof (cases "p < length target")
    case True
    then have "drop p target = target ! p # drop (Suc p) target" by (simp add: Cons_nth_drop_Suc)
    then show ?thesis using True Cons.IH [of "Suc p"] by auto
  qed (use Cons.prems in simp)
qed simp

lemma filled_set:
  assumes "p \<le> length st" "\<forall>i<length st. p \<le> i \<longrightarrow> st ! i = None"
  shows "filled (array_set None st p (Some n)) = filled (take p st) @ [n]"
    "p < q \<Longrightarrow> filled (take q (array_set None st p (Some n))) = filled (take p st) @ [n]"
proof -
  have none: "filter (\<lambda>e. e \<noteq> None) (drop m st) = []" if "p \<le> m" for m
    using assms that by (auto simp: filter_empty_conv in_set_conv_nth)
  have eq: "array_set None st p (Some n) = take p st @ Some n # drop (Suc p) st"
    using assms(1) by (auto simp: array_set_def upd_conv_take_nth_drop)
  then show "filled (array_set None st p (Some n)) = filled (take p st) @ [n]"
    using none [of "Suc p"] by (simp add: filled_def)
  have "filter (\<lambda>e. e \<noteq> None) (take m (drop (Suc p) st)) = []" for m
    using none [of "Suc p"] by (auto simp: filter_empty_conv dest: in_set_takeD)
  then show "filled (take q (array_set None st p (Some n))) = filled (take p st) @ [n]" if "p < q"
    using that assms(1) by (cases q) (simp_all add: eq filled_def take_Cons split: nat.split)
qed

lemma data_input_nonempty: "nonempty (node_ref x t) \<and> node_ref x t \<noteq> RNull" if "\<forall>m. length (keccak256 x m) = 32"
proof -
  have "mpt_hash x e \<noteq> []" for e using that by (metis length_0_conv mpt_hash_def zero_neq_numeral)
  moreover have "raw_data x t \<noteq> []" by (cases t) simp_all
  ultimately show ?thesis by (auto simp: node_ref_def ref_of_def)
qed

definition hash32 :: "externals \<Rightarrow> bool" where
  "hash32 x \<longleftrightarrow> (\<forall>m. length (keccak256 x m) = 32)"

lemma getBranch_slot: "hash32 x \<Longrightarrow> i < length cs \<Longrightarrow> getBranch i (map (slot x) cs) =
    Inr (case cs ! i of None \<Rightarrow> RNull | Some t \<Rightarrow> node_ref x t)"
  using data_input_nonempty by (auto simp: getBranch_def slot_def hash32_def split: option.split)

definition free_slots :: "stack_slots \<Rightarrow> nat \<Rightarrow> nat \<Rightarrow> bool" where
  "free_slots st p n \<longleftrightarrow> length st = n \<and> p \<le> n \<and> (\<forall>i<n. p \<le> i \<longrightarrow> st ! i = None)"

lemma free_slots_set: "free_slots st p n \<Longrightarrow> p < q \<Longrightarrow> q \<le> n \<Longrightarrow> free_slots (array_set None st p (Some v)) q n"
  by (auto simp: free_slots_def array_set_def)

text \<open>One round: the node at \<open>ref\<close> is the one of \<open>t\<close>, and the walk goes on as the abstract path does, or stops at
  a node that is missing.\<close>

definition walks_like :: "externals \<Rightarrow> nibbles \<Rightarrow> nat \<Rightarrow> trie \<Rightarrow> stack_slots \<Rightarrow> bool \<Rightarrow> 'c mpt
    \<Rightarrow> ((exn + mpt_node option \<times> nibbles) \<times> stack_slots \<times> 'c mpt) option \<Rightarrow> bool" where
  "walks_like x target p t st whole s res \<longleftrightarrow> (\<exists>r st' s'. res = Some (r, st', s') \<and> mpt_same x s s' \<and>
     (r = Inl Missing \<and> \<not> whole \<or>
      (case t_path t (drop p target) of (path, n, remaining) \<Rightarrow>
         r = Inr (map_option (dnode x) n, remaining) \<and> filled st' = filled (take p st) @ map (dnode x) path)))"

lemma walk_step:
  "lookupNode x L ref s = (Inr node, t) \<Longrightarrow> walk x L target ref p st s =
     (let st1 = array_set None st p (Some node) in
      case visit target p node of Inl e \<Rightarrow> Some (Inl e, st1, t)
       | Inr (Finished n remaining) \<Rightarrow> Some (Inr (n, remaining), st1, t)
       | Inr (Descend child q) \<Rightarrow> walk x L target child q st1 t)"
  by (subst walk.simps) simp

lemma walk_missing: "lookupNode x L ref s = (Inl e, t) \<Longrightarrow> walk x L target ref p st s = Some (Inl e, st, t)"
  by (subst walk.simps) simp

definition all_subs :: "(trie \<Rightarrow> bool) \<Rightarrow> trie \<Rightarrow> bool" where
  "all_subs P t \<longleftrightarrow> (\<forall>u\<in>subs t. P u)"

lemma all_subs_mono: "all_subs P t \<Longrightarrow> subs u \<subseteq> subs t \<Longrightarrow> all_subs P u"
  by (auto simp: all_subs_def)

lemma same_agrees: "mpt_same x s s' \<Longrightarrow> agrees_on x (mpt_options s') (mpt_view x s') = agrees_on x (mpt_options s) (mpt_view x s)"
    "mpt_same x s s' \<Longrightarrow> stored_in x (mpt_options s') (mpt_view x s') = stored_in x (mpt_options s) (mpt_view x s)"
  by (simp_all add: mpt_same_def)

lemma same_ok: "mpt_same x s s' \<Longrightarrow> db_ok x (mpt_db s')"
  by (simp add: mpt_same_def)

text \<open>The nodes on the way to a key are there.\<close>

definition path_stored :: "externals \<Rightarrow> 'c mpt \<Rightarrow> trie \<Rightarrow> nibbles \<Rightarrow> bool" where
  "path_stored x s t ks \<longleftrightarrow> (\<forall>u\<in>set (fst (t_path t ks)). stored_in x (mpt_options s) (mpt_view x s) u)"

lemma path_head: "t \<in> set (fst (t_path t ks))"
  by (cases "(t, ks)" rule: t_path.cases) (auto split: option.split prod.split)

lemma path_stored_same: "mpt_same x s s' \<Longrightarrow> path_stored x s' t ks = path_stored x s t ks"
  by (simp add: path_stored_def same_agrees)

lemma walk_descend:
  assumes "db_ok x (mpt_db s)" "t_ok t"
    and "all_subs (\<lambda>u. agrees_on x (mpt_options s) (mpt_view x s) u \<and> length (enc x u) < 2 ^ 64) t"
    and "whole \<longrightarrow> path_stored x s t (drop q target)"
    and "\<And>s2. lookupNode x L (node_ref x t) s = (Inr (dnode x t), s2) \<Longrightarrow> mpt_same x s s2 \<Longrightarrow>
      walks_like x target q t st whole s (walk x L target (node_ref x t) q st s)"
  shows "walks_like x target q t st whole s (walk x L target (node_ref x t) q st s)"
proof -
  have ag: "agrees_on x (mpt_options s) (mpt_view x s) t" "length (enc x t) < 2 ^ 64"
    using assms(3) by (auto simp: all_subs_def)
  obtain s2 r where r: "mpt_same x s s2" "lookupNode x L (node_ref x t) s = (r, s2)" "r = Inr (dnode x t) \<or> r = Inl Missing"
    "stored_in x (mpt_options s) (mpt_view x s) t \<longrightarrow> r = Inr (dnode x t)" by (rule lookup_ref [OF assms(1) ag(1) assms(2) ag(2)])
  show ?thesis
  proof (cases "r = Inl Missing")
    case True
    then show ?thesis using walk_missing [of x L "node_ref x t" s Missing s2] r assms(4) path_head [of t "drop q target"]
      by (auto simp: walks_like_def path_stored_def)
  qed (use r assms(5) in auto)
qed

lemma walk_child:
  assumes "mpt_same x s s1" "free_slots st p n" "p < q" "n = length target" "q \<le> n"
    and "t_path t (drop p target) = (t # fst (t_path u (drop q target)), snd (t_path u (drop q target)))"
    and "walks_like x target q u (array_set None st p (Some (dnode x t))) whole s1 res"
  shows "walks_like x target p t st whole s res"
proof -
  have "filled (take q (array_set None st p (Some (dnode x t)))) = filled (take p st) @ [dnode x t]"
    using filled_set(2) [of p st q] assms(2,3) by (auto simp: free_slots_def)
  moreover obtain path n rest where "t_path u (drop q target) = (path, n, rest)" by (cases "t_path u (drop q target)") auto
  moreover from this assms(7) obtain r st' s' where "res = Some (r, st', s')" "mpt_same x s1 s'"
    "r = Inl Missing \<and> \<not> whole \<or> r = Inr (map_option (dnode x) n, rest) \<and>
       filled st' = filled (take q (array_set None st p (Some (dnode x t)))) @ map (dnode x) path"
    by (auto simp: walks_like_def)
  ultimately show ?thesis using mpt_same_trans [OF assms(1)] assms(6) by (auto simp: walks_like_def)
qed

theorem walk_path:
  assumes "hash32 x" "nibs target"
  shows "t_ok t \<Longrightarrow> all_subs (\<lambda>u. agrees_on x (mpt_options s) (mpt_view x s) u \<and> length (enc x u) < 2 ^ 64) t \<Longrightarrow>
    (whole \<longrightarrow> path_stored x s t (drop p target)) \<Longrightarrow> free_slots st p (length target) \<Longrightarrow>
    lookupNode x L ref s = (Inr (dnode x t), s1) \<Longrightarrow> mpt_same x s s1 \<Longrightarrow>
    walks_like x target p t st whole s (walk x L target ref p st s)"
proof (induction t arbitrary: ref p st s s1)
  case (TLeaf k v)
  have fill: "filled (array_set None st p (Some (dnode x (TLeaf k v)))) = filled (take p st) @ [dnode x (TLeaf k v)]"
    using filled_set(1) [of p st] TLeaf.prems(4) by (auto simp: free_slots_def)
  have "p \<le> length target" using TLeaf.prems(4) by (simp add: free_slots_def)
  then have "visit target p (dnode x (TLeaf k v)) =
      Inr (if drop p target = k then Finished (Some (dnode x (TLeaf k v))) [] else Finished None (drop p target))"
    by (auto simp: visit_def dnode_def match_key_eq) 
  then show ?case using fill TLeaf.prems(6)
    by (auto simp: walk_step [OF TLeaf.prems(5)] walks_like_def Let_def)
next
  case (TExt k t)
  have p: "p \<le> length target" using TExt.prems(4) by (simp add: free_slots_def)
  have fill: "filled (array_set None st p (Some (dnode x (TExt k t)))) = filled (take p st) @ [dnode x (TExt k t)]"
    using filled_set(1) [of p st] TExt.prems(4) by (auto simp: free_slots_def)
  show ?case
  proof (cases "take (length k) (drop p target) = k")
    case False
    then show ?thesis using p fill TExt.prems(6)
      by (auto simp: walk_step [OF TExt.prems(5)] walks_like_def Let_def visit_def dnode_def match_key_eq)
  next
    case True
    let ?st = "array_set None st p (Some (dnode x (TExt k t)))" and ?q = "p + length k"
    have q: "p < ?q" "?q \<le> length target" using TExt.prems(1) arg_cong [OF True, of length] p by auto
    have "walk x L target ref p st s = walk x L target (node_ref x t) ?q ?st s1"
      using True p by (simp add: walk_step [OF TExt.prems(5)] Let_def visit_def dnode_def match_key_eq)
    moreover have sub: "all_subs (\<lambda>u. agrees_on x (mpt_options s1) (mpt_view x s1) u \<and> length (enc x u) < 2 ^ 64) t"
      "whole \<longrightarrow> path_stored x s1 t (drop ?q target)"
      using TExt.prems(2,3) same_agrees [OF TExt.prems(6)] path_stored_same [OF TExt.prems(6)] True
      by (auto simp: all_subs_def path_stored_def split_def add.commute)
    moreover have "walks_like x target ?q t ?st whole s1 (walk x L target (node_ref x t) ?q ?st s1)"
      by (rule walk_descend [OF same_ok [OF TExt.prems(6)] _ sub])
         (use TExt.prems(1) TExt.IH [OF _ sub free_slots_set [OF TExt.prems(4) q]] in auto)
    moreover have "t_path (TExt k t) (drop p target) = (TExt k t # fst (t_path t (drop ?q target)), snd (t_path t (drop ?q target)))"
      using True by (simp add: split_def add.commute)
    ultimately show ?thesis using walk_child [OF TExt.prems(6,4) q(1) refl q(2)] by simp
  qed
next
  case (TBranch cs v)
  have p: "p \<le> length target" using TBranch.prems(4) by (simp add: free_slots_def)
  have fill: "filled (array_set None st p (Some (dnode x (TBranch cs v)))) = filled (take p st) @ [dnode x (TBranch cs v)]"
    using filled_set(1) [of p st] TBranch.prems(4) by (auto simp: free_slots_def)
  show ?case
  proof (cases "p = length target")
    case True
    then show ?thesis using fill TBranch.prems(6)
      by (auto simp: walk_step [OF TBranch.prems(5)] walks_like_def Let_def visit_def dnode_def)
  next
    case False
    then have "p < length target" using p by simp
    then have d: "drop p target = target ! p # drop (Suc p) target" by (simp add: Cons_nth_drop_Suc)
    have i: "target ! p < length cs" using TBranch.prems(1) assms(2) \<open>p < length target\<close> by simp
    have visit: "visit target p (dnode x (TBranch cs v)) = Inr (case cs ! (target ! p) of
        None \<Rightarrow> Finished None (drop p target) | Some t \<Rightarrow> Descend (node_ref x t) (p + 1))"
      using False getBranch_slot [OF assms(1) i] data_input_nonempty assms(1)
      by (auto simp: visit_def dnode_def hash32_def split: option.split)
    show ?thesis
    proof (cases "cs ! (target ! p)")
      case None
      then show ?thesis using visit fill TBranch.prems(6) d i
        by (auto simp: walk_step [OF TBranch.prems(5)] walks_like_def Let_def)
    next
      case (Some t)
      let ?st = "array_set None st p (Some (dnode x (TBranch cs v)))"
      have q: "p < Suc p" "Suc p \<le> length target" using \<open>p < length target\<close> by auto
      have "walk x L target ref p st s = walk x L target (node_ref x t) (Suc p) ?st s1"
        using visit Some by (simp add: walk_step [OF TBranch.prems(5)] Let_def)
      moreover have sub: "all_subs (\<lambda>u. agrees_on x (mpt_options s1) (mpt_view x s1) u \<and> length (enc x u) < 2 ^ 64) t"
        "whole \<longrightarrow> path_stored x s1 t (drop (Suc p) target)"
        using TBranch.prems(2,3) same_agrees [OF TBranch.prems(6)] all_subs_mono [OF _ child_subs [OF Some i]]
          path_stored_same [OF TBranch.prems(6)] Some i d by (auto simp: path_stored_def split_def)
      moreover have t: "t_ok t" "Some t \<in> set cs" using ok_child [OF TBranch.prems(1) i Some] nth_mem [OF i] Some by auto
      moreover have "walks_like x target (Suc p) t ?st whole s1 (walk x L target (node_ref x t) (Suc p) ?st s1)"
        by (rule walk_descend [OF same_ok [OF TBranch.prems(6)] t(1) sub])
           (use TBranch.IH [OF t(2) _ t(1) sub free_slots_set [OF TBranch.prems(4) q]] in auto)
      moreover have "t_path (TBranch cs v) (drop p target) = (TBranch cs v # fst (t_path t (drop (Suc p) target)), snd (t_path t (drop (Suc p) target)))"
        using Some i by (simp add: d split_def)
      ultimately show ?thesis using walk_child [OF TBranch.prems(6,4) q(1) refl q(2)] by simp
    qed
  qed
qed

section \<open>Finding and getting\<close>

text \<open>A trie object in use: no persistence of the root, no pruning, no cache, lock free, and nothing stored
  under the hash that stands for the empty trie.\<close>

definition ready :: "externals \<Rightarrow> 'c mpt \<Rightarrow> bool" where
  "ready x s \<longleftrightarrow> db_ok x (mpt_db s) \<and> mpt_hashLen s = 32 \<and> lock_permits s = 1 \<and> \<not> useRootPersistence (mpt_options s)
     \<and> \<not> useNodePruning (mpt_options s) \<and> mpt_view x s (node_key x (mpt_options s) RLP_EMPTY_STRING) = None"

definition holds :: "externals \<Rightarrow> 'c mpt \<Rightarrow> trie option \<Rightarrow> bool" where
  "holds x s T = (case T of None \<Rightarrow> mpt_root s = EMPTY_TRIE_ROOT x
     | Some t \<Rightarrow> t_ok t \<and> fits x t \<and> mpt_root s = mpt_hash x (enc x t) \<and> mpt_root s \<noteq> EMPTY_TRIE_ROOT x
         \<and> mpt_view x s (node_key x (mpt_options s) (enc x t)) = Some (enc x t)
         \<and> all_subs (stored_in x (mpt_options s) (mpt_view x s)) t)"

definition content :: "trie option \<Rightarrow> nibbles \<Rightarrow> bytes option" where
  "content T = (case T of None \<Rightarrow> (\<lambda>_. None) | Some t \<Rightarrow> t_lookup t)"

definition js_value :: "bytes option \<Rightarrow> rlp_input" where
  "js_value v = (case v of None \<Rightarrow> RNull | Some b \<Rightarrow> RBytes b)"

lemma ready_same: "mpt_same x s t \<Longrightarrow> ready x s \<Longrightarrow> ready x t"
  by (simp add: mpt_same_def ready_def)

lemma holds_same: "mpt_same x s t \<Longrightarrow> holds x s T \<Longrightarrow> holds x t T"
  using same_agrees(2) [of x s t] by (auto simp: mpt_same_def holds_def split: option.splits)

lemma path_lookup:
  "t_path t ks = (st, n, rest) \<Longrightarrow> t_ok t \<Longrightarrow> t_lookup t ks = (case n of Some (TLeaf k v) \<Rightarrow> Some v | Some (TBranch cs v) \<Rightarrow> v | _ \<Rightarrow> None)
     \<and> (n \<noteq> None \<longrightarrow> rest = [] \<and> (\<exists>k u. n = Some (TExt k u)) = False)"
proof (induction t ks arbitrary: st rule: t_path.induct)
  case (4 cs v i ks)
  show ?case
  proof (cases "i < length cs \<and> cs ! i \<noteq> None")
    case True
    then obtain t where t: "i < length cs" "cs ! i = Some t" by blast
    then show ?thesis using 4(1) [OF t] 4(2) ok_child [OF 4(3) t] by (auto split: prod.splits)
  qed (use 4(2,3) in \<open>auto split: if_splits\<close>)
qed (auto split: if_splits prod.splits)

lemma path_node_sub: "t_path t ks = (st, n, rest) \<Longrightarrow> t_ok t \<Longrightarrow> n = None \<or> the n \<in> subs t"
proof (induction t ks arbitrary: st rule: t_path.induct)
  case (4 cs v i ks)
  show ?case
  proof (cases "i < length cs \<and> cs ! i \<noteq> None")
    case True
    then obtain t where t: "i < length cs" "cs ! i = Some t" by blast
    then show ?thesis using 4(1) [OF t] 4(2) ok_child [OF 4(3) t] child_subs [OF t(2,1), of v]
      by (auto split: prod.splits)
  qed (use 4(2,3) in \<open>auto split: if_splits\<close>)
qed (auto split: if_splits prod.splits)

lemma get_value_dnode: "t_ok t \<Longrightarrow> get_value (dnode x t) = (case t of TLeaf k v \<Rightarrow> RBytes v | TBranch cs v \<Rightarrow> js_value v | TExt k u \<Rightarrow> node_ref x u)"
  by (auto simp: dnode_def opt_bytes_def js_value_def split: trie.split option.split)

lemma nibs_bytes [simp]: "nibs (bytesToNibbles key)"
  using bytesToNibbles_small by blast

lemma filled_none [simp]: "filled (replicate n None) = []" "filled [] = []"
  by (induction n) (simp_all add: filled_def)

lemma findPath_empty:
  assumes "db_ok x (mpt_db s)" "mpt_view x s (node_key x (mpt_options s) RLP_EMPTY_STRING) = None" "mpt_root s = EMPTY_TRIE_ROOT x"
  shows "\<exists>s'. mpt_same x s s' \<and> findPath x L key thr s =
    ((if thr then Inl Missing else Inr \<lparr>path_node = None, path_remaining = [], path_stack = []\<rparr>), s')"
proof -
  obtain s' where s': "on_db (db_get x L (node_key x (mpt_options s) RLP_EMPTY_STRING)) s = (Inr None, s')" "mpt_same x s s'"
    using get_same [OF assms(1), of L "node_key x (mpt_options s) RLP_EMPTY_STRING"] assms(2) by metis
  then have "lookupNode x L (RBytes (mpt_root s)) s = (Inl Missing, s')"
    using assms(3) by (simp add: lookupNode_def sx_run EMPTY_TRIE_ROOT_def node_key_def)
  then show ?thesis using s'(2) by (auto simp: findPath_def Let_def walk_missing)
qed

lemma findPath_general:
  fixes s :: "'c mpt"
  assumes "hash32 x" "db_ok x (mpt_db s)" "t_ok t" "mpt_root s = mpt_hash x (enc x t)"
    "mpt_view x s (node_key x (mpt_options s) (enc x t)) \<in> {None, Some (enc x t)}" "fits x t"
    "all_subs (agrees_on x (mpt_options s) (mpt_view x s)) t"
    "whole \<longrightarrow> mpt_view x s (node_key x (mpt_options s) (enc x t)) \<noteq> None \<and> path_stored x s t (bytesToNibbles key)"
  shows "\<exists>s' r. mpt_same x s s' \<and> findPath x L key True s = (r, s') \<and> (r = Inl Missing \<and> \<not> whole \<or>
    (case t_path t (bytesToNibbles key) of (path, n, rest) \<Rightarrow>
      r = Inr \<lparr>path_node = map_option (dnode x) n, path_remaining = rest, path_stack = map (dnode x) path\<rparr>))"
proof -
  let ?k = "bytesToNibbles key" and ?view = "mpt_view x s (node_key x (mpt_options s) (enc x t))"
  have "length (enc x t) < 2 ^ 64" using assms(6) self_sub [of t] by (auto simp: fits_def)
  from lookup_hash [OF assms(2,5,3) this] obtain s1 where s1: "mpt_same x s s1"
    "lookupNode x L (RBytes (mpt_root s)) s = ((if ?view = None then Inl Missing else Inr (dnode x t)), s1)"
    using assms(4) by metis
  show ?thesis
  proof (cases "?view = None")
    case True
    then show ?thesis using s1 assms(8) by (auto simp: findPath_def Let_def walk_missing)
  next
    case False
    then have look: "lookupNode x L (RBytes (mpt_root s)) s = (Inr (dnode x t), s1)" using s1 by simp
    have "all_subs (\<lambda>u. agrees_on x (mpt_options s) (mpt_view x s) u \<and> length (enc x u) < 2 ^ 64) t"
      using assms(6,7) by (auto simp: all_subs_def fits_def)
    moreover have "free_slots (replicate (length ?k) None) 0 (length ?k)" by (simp add: free_slots_def)
    ultimately have "walks_like x ?k 0 t (replicate (length ?k) None) whole s
        (walk x L ?k (RBytes (mpt_root s)) 0 (replicate (length ?k) None) s)"
      using walk_path [OF assms(1) nibs_bytes assms(3) _ _ _ look s1(1), of whole] assms(8) by (metis drop0)
    moreover obtain path n rest where p: "t_path t ?k = (path, n, rest)" by (cases "t_path t ?k") auto
    moreover have "filled (take 0 (replicate (length ?k) None)) = []" by (simp add: filled_def)
    ultimately obtain r st' s' where "walk x L ?k (RBytes (mpt_root s)) 0 (replicate (length ?k) None) s = Some (r, st', s')"
      "mpt_same x s s'" "r = Inl Missing \<and> \<not> whole \<or> r = Inr (map_option (dnode x) n, rest) \<and> filled st' = map (dnode x) path"
      by (auto simp: walks_like_def)
    then show ?thesis using p by (auto simp: findPath_def Let_def)
  qed
qed

lemma path_subs: "t_ok t \<Longrightarrow> set (fst (t_path t ks)) \<subseteq> subs t"
proof (induction t ks rule: t_path.induct)
  case (4 cs v i ks)
  show ?case
  proof (cases "i < length cs \<and> cs ! i \<noteq> None")
    case True
    then obtain t where t: "i < length cs" "cs ! i = Some t" by blast
    then show ?thesis using 4(1) [OF t ok_child [OF 4(2) t]] child_subs [OF t(2,1), of v] by (auto simp: split_def)
  qed (use 4(2) in \<open>auto split: if_splits\<close>)
qed (auto simp: split_def)

lemma all_stored_path: "t_ok t \<Longrightarrow> all_subs (stored_in x (mpt_options s) (mpt_view x s)) t \<Longrightarrow> path_stored x s t ks"
  using path_subs [of t ks] by (auto simp: all_subs_def path_stored_def)

lemma findPath_lenient: "findPath x L key True s = (Inr p, s') \<Longrightarrow> findPath x L key False s = (Inr p, s')"
  by (auto simp: findPath_def Let_def split: option.splits prod.splits sum.splits if_splits)

lemma agrees_stored: "stored_in x opts w u \<Longrightarrow> agrees_on x opts w u"
  by (simp add: stored_in_def agrees_on_def)

lemma findPath_holds:
  assumes "hash32 x" "ready x s" "holds x s (Some t)" "t_path t (bytesToNibbles key) = (path, n, rest)"
  shows "\<exists>s'. mpt_same x s s' \<and> findPath x L key thr s =
    (Inr \<lparr>path_node = map_option (dnode x) n, path_remaining = rest, path_stack = map (dnode x) path\<rparr>, s')"
proof -
  have "\<exists>s'. mpt_same x s s' \<and> findPath x L key True s =
    (Inr \<lparr>path_node = map_option (dnode x) n, path_remaining = rest, path_stack = map (dnode x) path\<rparr>, s')"
    using findPath_general [OF assms(1), where s = s and t = t and whole = True and L = L and key = key] assms(2-4) agrees_stored
      all_stored_path [of t x s] by (auto simp: ready_def holds_def all_subs_def)
  then show ?thesis using findPath_lenient [of x L key s] by (cases thr) auto
qed

lemma found_value:
  assumes "t_path t ks = (path, n, rest)" "t_ok t"
  shows "(case map_option (dnode x) n of None \<Rightarrow> RNull | Some m \<Rightarrow> if rest = [] then get_value m else RNull) = js_value (t_lookup t ks)"
proof (cases n)
  case (Some m)
  then have "m \<in> subs t" using path_node_sub [OF assms] by simp
  then have "t_ok m" using subs_ok assms(2) by blast
  then show ?thesis using path_lookup [OF assms] Some by (auto simp: get_value_dnode js_value_def split: trie.split)
qed (use path_lookup [OF assms] in \<open>simp add: js_value_def\<close>)

lemma get_holds:
  assumes "hash32 x" "ready x s" "holds x s T" "T \<noteq> None \<or> \<not> thr"
  shows "\<exists>s'. mpt_same x s s' \<and> mpt_get x L key thr s =
    (Inr (js_value (content T (bytesToNibbles (appliedKey x (mpt_options s) key)))), s')"
proof (cases T)
  case None
  then show ?thesis using findPath_empty [of x s L "appliedKey x (mpt_options s) key" thr] assms
    by (auto simp: mpt_get_def sx_run ready_def holds_def content_def js_value_def)
next
  case (Some t)
  let ?k = "appliedKey x (mpt_options s) key"
  obtain path n rest where p: "t_path t (bytesToNibbles ?k) = (path, n, rest)" by (cases "t_path t (bytesToNibbles ?k)") auto
  have t: "t_ok t" using assms(3) Some by (simp add: holds_def)
  obtain s' where s': "mpt_same x s s'" "findPath x L ?k thr s =
    (Inr \<lparr>path_node = map_option (dnode x) n, path_remaining = rest, path_stack = map (dnode x) path\<rparr>, s')"
    using findPath_holds [OF assms(1,2) _ p] assms(3) Some by blast
  have "(case map_option (dnode x) n of None \<Rightarrow> RNull | Some m \<Rightarrow> if rest = [] then get_value m else RNull)
      = js_value (t_lookup t (bytesToNibbles ?k))" by (rule found_value [OF p t])
  then show ?thesis using s' Some by (cases n) (auto simp: mpt_get_def sx_run content_def)
qed

end
