(* ===== verification/MptUpdate.thy ===== *)
theory MptUpdate
  imports MptStore
begin

text \<open>
  The operations that change a trie, \<open>put\<close> and \<open>del\<close> with \<open>saveStack\<close>, against the abstract insertion and
  deletion: the state that represents a trie goes to a state that represents the changed trie.
\<close>

section \<open>Nodes in memory\<close>

text \<open>A node built in memory stands for a trie when its fields encode as the trie's do (null as the empty
  byte array).\<close>

fun node_for :: "externals \<Rightarrow> mpt_node \<Rightarrow> trie \<Rightarrow> bool" where
  "node_for x (LeafMPTNode k w) t \<longleftrightarrow> (\<exists>v. t = TLeaf k v \<and> w = RBytes v)"
| "node_for x (ExtensionMPTNode k r) t \<longleftrightarrow> (\<exists>u. t = TExt k u \<and> encode r = encode (node_ref x u))"
| "node_for x (BranchMPTNode bs w) t \<longleftrightarrow> (\<exists>cs v. t = TBranch cs v \<and> list_all2 (\<lambda>b c. encode b = encode (slot x c)) bs cs
     \<and> encode w = encode (opt_bytes v))"

lemma node_for_dnode [simp]: "node_for x (dnode x t) t"
  by (auto simp: dnode_def list_all2_conv_all_nth split: trie.split)

lemma encode_array_cong: "list_all2 (\<lambda>a b. encode a = encode b) as bs \<Longrightarrow> encode (RArray as) = encode (RArray bs)"
proof -
  assume "list_all2 (\<lambda>a b. encode a = encode b) as bs"
  then have "encode_loop as = encode_loop bs" by (induction rule: list_all2_induct) simp_all
  then show ?thesis by simp
qed

lemma serialize_for: "node_for x n t \<Longrightarrow> serialize n = Inr (enc x t)"
proof -
  assume n: "node_for x n t"
  then have "list_all2 (\<lambda>a b. encode a = encode b) (raw n) (raw (dnode x t))"
    by (cases n) (auto simp: dnode_def list_all2_map2 list_all2_same intro!: list_all2_appendI)
  then show ?thesis using encode_array_cong [of "raw n" "raw (dnode x t)"] serialize_dnode [of x t]
    by (simp del: encode.simps serialize_dnode add: serialize_def)
qed

abbreviation put_node :: "externals \<Rightarrow> mpt_opts \<Rightarrow> bytes \<Rightarrow> (bytes, bytes) db_op" where
  "put_node x opts e \<equiv> PutOp (node_key x opts e) e"

lemma format_for:
  assumes "node_for x n t"
  obtains r ops where "formatNode x opts n toplevel False = Inr (r, ops)" "toplevel \<Longrightarrow> r = RBytes (mpt_hash x (enc x t))"
    "\<not> toplevel \<Longrightarrow> encode r = encode (node_ref x t)" "set ops \<subseteq> {put_node x opts (enc x t)}"
    "32 \<le> length (enc x t) \<or> toplevel \<Longrightarrow> put_node x opts (enc x t) \<in> set ops"
proof (cases "32 \<le> length (enc x t) \<or> toplevel")
  case True
  then show ?thesis using that serialize_for [OF assms]
    by (auto simp: formatNode_def node_key_def node_ref_def ref_of_def enc_def Let_def)
next
  case False
  have "encode (RArray (raw n)) = Inr (enc x t)" using serialize_for [OF assms] by (simp add: serialize_def)
  moreover have "encode (node_ref x t) = Inr (enc x t)"
    using False encode_list [of "raw_data x t"] by (simp del: encode.simps add: node_ref_def ref_of_def enc_def)
  ultimately show ?thesis using that False serialize_for [OF assms] by (auto simp: formatNode_def)
qed

lemma format_below: "node_for x n t \<Longrightarrow> \<exists>r ops. formatNode x opts n False False = Inr (r, ops) \<and> encode r = encode (node_ref x t)
    \<and> set ops \<subseteq> {put_node x opts (enc x t)} \<and> (32 \<le> length (enc x t) \<longrightarrow> put_node x opts (enc x t) \<in> set ops)"
  by (erule format_for [where opts = opts and toplevel = False]) auto

lemma format_top: "node_for x n t \<Longrightarrow> \<exists>ops. formatNode x opts n True False = Inr (RBytes (mpt_hash x (enc x t)), ops)
    \<and> set ops = {put_node x opts (enc x t)}"
  by (erule format_for [where opts = opts and toplevel = True]) auto

section \<open>Saving a stack\<close>

text \<open>The stack without its first node, none of which is at the top level.\<close>

fun save_below :: "externals \<Rightarrow> mpt_opts \<Rightarrow> nibbles \<Rightarrow> mpt_node list \<Rightarrow> rlp_input option \<Rightarrow> node_ops \<Rightarrow> exn + rlp_input option \<times> nibbles \<times> node_ops" where
  "save_below x opts key [] lastRoot opStack = Inr (lastRoot, key, opStack)"
| "save_below x opts key (node # stack) lastRoot opStack =
     (case relink key node lastRoot of (node1, key1) \<Rightarrow>
        bindR (formatNode x opts node1 False False) (\<lambda>(newRoot, ops).
          save_below x opts key1 stack (Some newRoot) (opStack @ ops)))"

lemma save_below_snoc: "save_below x opts key (ns @ [n]) r ops = bindR (save_below x opts key ns r ops) (\<lambda>(r1, key1, ops1).
    save_below x opts key1 [n] r1 ops1)"
  by (induction ns arbitrary: key r ops) (simp_all add: bindR_def split: prod.split sum.split)

lemma save_loop_snoc: "save_loop x opts key (ns @ [n]) r ops = bindR (save_below x opts key ns r ops) (\<lambda>(r1, key1, ops1).
    save_loop x opts key1 [n] r1 ops1)"
  by (induction ns arbitrary: key r ops) (simp_all add: bindR_def split: prod.split sum.split)

text \<open>A stack of nodes with the key that leads through it stands for a trie: all nodes but the last are
  relinked, and the subtries beside the path satisfy \<open>P\<close> (they are stored).\<close>

definition own_key :: "trie \<Rightarrow> nibbles" where
  "own_key t = (case t of TLeaf k _ \<Rightarrow> k | TExt k _ \<Rightarrow> k | TBranch _ _ \<Rightarrow> [])"

inductive builds :: "externals \<Rightarrow> (trie \<Rightarrow> bool) \<Rightarrow> mpt_node list \<Rightarrow> nibbles \<Rightarrow> trie \<Rightarrow> bool" for x P where
  builds_last: "node_for x n t \<Longrightarrow> (\<And>u. u \<in> subs t \<Longrightarrow> u \<noteq> t \<Longrightarrow> P u) \<Longrightarrow> builds x P [n] (own_key t) t"
| builds_ext: "builds x P ns ks u \<Longrightarrow> builds x P (ExtensionMPTNode k r # ns) (k @ ks) (TExt k u)"
| builds_branch: "builds x P ns ks u \<Longrightarrow> i < length cs \<Longrightarrow> cs ! i = Some u \<Longrightarrow> length bs = length cs \<Longrightarrow>
     (\<And>j. j < length cs \<Longrightarrow> j \<noteq> i \<Longrightarrow> encode (bs ! j) = encode (slot x (cs ! j))) \<Longrightarrow>
     encode w = encode (opt_bytes v) \<Longrightarrow>
     (\<And>j c s. j < length cs \<Longrightarrow> j \<noteq> i \<Longrightarrow> cs ! j = Some c \<Longrightarrow> s \<in> subs c \<Longrightarrow> P s) \<Longrightarrow>
     builds x P (BranchMPTNode bs w # ns) (i # ks) (TBranch cs v)"

lemma builds_mono: "builds x P ns ks t \<Longrightarrow> (\<And>u. P u \<Longrightarrow> Q u) \<Longrightarrow> builds x Q ns ks t"
  by (induction rule: builds.induct) (blast intro: builds.intros)+

lemma splice_end [simp]: "splice_from (pre @ k) (int (length (pre @ k)) - int (length k)) = pre"
  by (simp add: splice_from_def)

lemma relink_leaf [simp]: "relink (pre @ k) (LeafMPTNode k v) r = (LeafMPTNode k v, pre)"
  by (cases r) (simp_all add: relink_def Let_def splice_from_def)

lemma relink_ext [simp]: "relink (pre @ k) (ExtensionMPTNode k v) (Some r) = (ExtensionMPTNode k r, pre)"
    "relink (pre @ k) (ExtensionMPTNode k v) None = (ExtensionMPTNode k v, pre)"
  by (simp_all add: relink_def Let_def splice_from_def)

lemma relink_branch [simp]: "relink pre (BranchMPTNode bs w) None = (BranchMPTNode bs w, pre)"
    "relink (pre @ [i]) (BranchMPTNode bs w) (Some r) = (BranchMPTNode (array_set RNull bs i r) w, pre)"
  by (simp_all add: relink_def Let_def pop_key_def)

definition saves :: "externals \<Rightarrow> mpt_opts \<Rightarrow> (trie \<Rightarrow> bool) \<Rightarrow> trie set \<Rightarrow> node_ops \<Rightarrow> bool" where
  "saves x opts P U ops \<longleftrightarrow> set ops \<subseteq> put_node x opts ` enc x ` U
     \<and> (\<forall>u\<in>U. P u \<or> (32 \<le> length (enc x u) \<longrightarrow> put_node x opts (enc x u) \<in> set ops))"

lemma relink_last: "node_for x n t \<Longrightarrow> relink (pre @ own_key t) n None = (n, pre)"
  by (cases n) (auto simp: own_key_def)

lemma child_of_subs: "u \<in> subs (TBranch cs v) \<Longrightarrow> u \<noteq> TBranch cs v \<Longrightarrow> \<exists>j c. j < length cs \<and> cs ! j = Some c \<and> u \<in> subs c"
  by (auto simp: in_set_conv_nth split: option.splits) blast

lemma subs_size: "u \<in> subs t \<Longrightarrow> size u \<le> size t"
proof (induction t)
  case (TBranch cs v)
  then consider "u = TBranch cs v" | c where "Some c \<in> set cs" "u \<in> subs c" by (auto split: option.splits)
  then show ?case
  proof cases
    case 2
    then show ?thesis using TBranch.IH [of "Some c" c] child_in_size [of c cs] by simp
  qed simp
qed auto

lemma child_proper: "i < length cs \<Longrightarrow> cs ! i = Some u \<Longrightarrow> subs u \<subseteq> subs (TBranch cs v) - {TBranch cs v}"
  using child_subs [of cs i u v] subs_size [of "TBranch cs v" u] child_size [of i cs u] by auto

lemma ext_proper: "subs u \<subseteq> subs (TExt k u) - {TExt k u}"
  using subs_size [of "TExt k u" u] by auto

lemma saves_extend:
  assumes "saves x opts P (subs u - {u}) ops1" "set ops2 \<subseteq> {put_node x opts (enc x u)}"
    "32 \<le> length (enc x u) \<longrightarrow> put_node x opts (enc x u) \<in> set ops2" "subs u \<subseteq> U" "\<And>s. s \<in> U \<Longrightarrow> s \<notin> subs u \<Longrightarrow> P s"
  shows "saves x opts P U (ops1 @ ops2)"
  unfolding saves_def
proof (intro conjI ballI)
  have "set ops1 \<subseteq> put_node x opts ` enc x ` U" using assms(1,4) unfolding saves_def by (meson Diff_subset image_mono order_trans)
  moreover have "put_node x opts (enc x u) \<in> put_node x opts ` enc x ` U" using assms(4) self_sub [of u] by blast
  ultimately show "set (ops1 @ ops2) \<subseteq> put_node x opts ` enc x ` U" using assms(2) by auto
next
  fix s assume "s \<in> U"
  then show "P s \<or> (32 \<le> length (enc x s) \<longrightarrow> put_node x opts (enc x s) \<in> set (ops1 @ ops2))"
    using assms(1,3,5) by (cases "s \<in> subs u"; cases "s = u") (auto simp: saves_def)
qed

lemma save_builds:
  "builds x P ns ks t \<Longrightarrow> \<exists>r key1 ops1 n1. save_below x opts (pre @ ks) (rev (tl ns)) None ops = Inr (r, key1, ops @ ops1)
     \<and> relink key1 (hd ns) r = (n1, pre) \<and> node_for x n1 t \<and> saves x opts P (subs t - {t}) ops1"
proof (induction arbitrary: pre rule: builds.induct)
  case (builds_last n t)
  then show ?case by (auto simp: relink_last saves_def)
next
  case (builds_ext ns ks u k r)
  have ns: "rev ns = rev (tl ns) @ [hd ns]" using builds_ext.hyps by (cases ns) (auto elim: builds.cases)
  obtain r1 key1 ops1 n1 where b: "save_below x opts ((pre @ k) @ ks) (rev (tl ns)) None ops = Inr (r1, key1, ops @ ops1)"
    "relink key1 (hd ns) r1 = (n1, pre @ k)" "node_for x n1 u" "saves x opts P (subs u - {u}) ops1"
    using builds_ext.IH [of "pre @ k"] by blast
  obtain r2 ops2 where f: "formatNode x opts n1 False False = Inr (r2, ops2)" "encode r2 = encode (node_ref x u)"
    "set ops2 \<subseteq> {put_node x opts (enc x u)}" "32 \<le> length (enc x u) \<longrightarrow> put_node x opts (enc x u) \<in> set ops2"
    using format_below [OF b(3), of opts] by blast
  have "saves x opts P (subs (TExt k u) - {TExt k u}) (ops1 @ ops2)"
    by (rule saves_extend [OF b(4) f(3,4) ext_proper]) auto
  then show ?case using b f by (simp add: ns save_below_snoc)
next
  case (builds_branch ns ks u i cs bs w v)
  have ns: "rev ns = rev (tl ns) @ [hd ns]" using builds_branch.hyps(1) by (cases ns) (auto elim: builds.cases)
  obtain r1 key1 ops1 n1 where b: "save_below x opts ((pre @ [i]) @ ks) (rev (tl ns)) None ops = Inr (r1, key1, ops @ ops1)"
    "relink key1 (hd ns) r1 = (n1, pre @ [i])" "node_for x n1 u" "saves x opts P (subs u - {u}) ops1"
    using builds_branch.IH [of "pre @ [i]"] by blast
  obtain r2 ops2 where f: "formatNode x opts n1 False False = Inr (r2, ops2)" "encode r2 = encode (node_ref x u)"
    "set ops2 \<subseteq> {put_node x opts (enc x u)}" "32 \<le> length (enc x u) \<longrightarrow> put_node x opts (enc x u) \<in> set ops2"
    using format_below [OF b(3), of opts] by blast
  have "node_for x (BranchMPTNode (array_set RNull bs i r2) w) (TBranch cs v)"
  proof -
    have "encode (bs[i := r2] ! j) = encode (slot x (cs ! j))" if "j < length cs" for j
      using that builds_branch.hyps(2-5) f(2) by (cases "j = i") (simp_all add: slot_def)
    then have "list_all2 (\<lambda>b c. encode b = encode (slot x c)) (bs[i := r2]) cs"
      using builds_branch.hyps(4) by (simp add: list_all2_conv_all_nth)
    then show ?thesis using builds_branch.hyps(2,4,6) by (simp add: array_set_def)
  qed
  moreover have "saves x opts P (subs (TBranch cs v) - {TBranch cs v}) (ops1 @ ops2)"
  proof (rule saves_extend [OF b(4) f(3,4) child_proper [OF builds_branch.hyps(2,3)]])
    fix s assume s: "s \<in> subs (TBranch cs v) - {TBranch cs v}" "s \<notin> subs u"
    then obtain j c where j: "j < length cs" "cs ! j = Some c" "s \<in> subs c" using child_of_subs by blast
    then have "j \<noteq> i" using s(2) builds_branch.hyps(3) by auto
    then show "P s" using builds_branch.hyps(7) j by blast
  qed
  ultimately show ?case using b f by (simp add: ns save_below_snoc)
qed

lemma builds_nonempty: "builds x P ns ks t \<Longrightarrow> ns \<noteq> []"
  by (auto elim: builds.cases)

lemma save_loop_builds:
  assumes "builds x P ns ks t"
  shows "\<exists>ops1. save_loop x opts ks (rev ns) None ops = Inr (Some (RBytes (mpt_hash x (enc x t))), ops @ ops1)
    \<and> saves x opts P (subs t) ops1 \<and> put_node x opts (enc x t) \<in> set ops1"
proof -
  have ns: "rev ns = rev (tl ns) @ [hd ns]" using builds_nonempty [OF assms] by (cases ns) auto
  obtain r key1 ops1 n1 where b: "save_below x opts ks (rev (tl ns)) None ops = Inr (r, key1, ops @ ops1)"
    "relink key1 (hd ns) r = (n1, [])" "node_for x n1 t" "saves x opts P (subs t - {t}) ops1"
    using save_builds [OF assms, of opts "[]" ops] by auto
  obtain ops2 where f: "formatNode x opts n1 True False = Inr (RBytes (mpt_hash x (enc x t)), ops2)"
    "set ops2 = {put_node x opts (enc x t)}"
    using format_top [OF b(3), of opts] by blast
  have "saves x opts P (subs t) (ops1 @ ops2)" by (rule saves_extend [OF b(4)]) (auto simp: f(2))
  then show ?thesis using b f by (simp add: ns save_loop_snoc)
qed

section \<open>Collision-free encodings\<close>

text \<open>The hash of the root of the empty trie and the hashes of the encodings at hand differ.\<close>

definition collision_free :: "externals \<Rightarrow> bytes set \<Rightarrow> bool" where
  "collision_free x E \<longleftrightarrow> inj_on (keccak256 x) (insert RLP_EMPTY_STRING E)"

lemma node_key_eq: "node_key x opts a = node_key x opts b \<longleftrightarrow> mpt_hash x a = mpt_hash x b"
  by (cases "keyPrefix opts") (simp_all add: node_key_def with_prefix_def)

lemma hash_eq: "collision_free x E \<Longrightarrow> a \<in> insert RLP_EMPTY_STRING E \<Longrightarrow> b \<in> insert RLP_EMPTY_STRING E \<Longrightarrow>
    mpt_hash x a = mpt_hash x b \<longleftrightarrow> a = b"
  unfolding collision_free_def mpt_hash_def by (rule inj_on_eq_iff)

lemma enc_not_empty: "enc x t \<noteq> RLP_EMPTY_STRING"
proof -
  let ?ds = "raw_data x t"
  obtain out where out: "encode_loop (map data_input ?ds) = Inr out"
    using encode_loop_total [of "DList ?ds"] by (auto simp: bindR_eq_Inr)
  then have "enc x t = (if length (concat out) < 56 then [of_nat (length (concat out) + 192)]
      else long_header (length (concat out)) 192) @ concat out"
    by (simp add: enc_def rlp_enc_def encodeLength_eq foldl_length)
  then consider "enc x t = of_nat (length (concat out) + 192) # concat out" | "length (enc x t) \<ge> 56" by (auto split: if_splits)
  then show ?thesis
  proof cases
    case 1
    then show ?thesis by (cases "concat out") (simp_all add: RLP_EMPTY_STRING_def)
  next
    case 2
    then show ?thesis by (auto simp: RLP_EMPTY_STRING_def)
  qed
qed

lemma not_empty_root: "collision_free x E \<Longrightarrow> enc x t \<in> E \<Longrightarrow> mpt_hash x (enc x t) \<noteq> EMPTY_TRIE_ROOT x
    \<and> node_key x opts (enc x t) \<noteq> node_key x opts RLP_EMPTY_STRING"
  using enc_not_empty [of x t] hash_eq [of x E "enc x t" RLP_EMPTY_STRING]
  by (simp add: EMPTY_TRIE_ROOT_def node_key_eq)

text \<open>Writing encodings under their hashes keeps every other encoding.\<close>

lemma apply_puts:
  "set ops \<subseteq> put_node x opts ` E \<Longrightarrow> collision_free x (E \<union> F) \<Longrightarrow> e \<in> E \<union> F \<Longrightarrow>
    apply_ops ops w (node_key x opts e) = (if put_node x opts e \<in> set ops then Some e else w (node_key x opts e))"
proof (induction ops arbitrary: w)
  case (Cons b ops)
  then obtain e' where e': "b = put_node x opts e'" "e' \<in> E" by auto
  then have "node_key x opts e' = node_key x opts e \<longleftrightarrow> e' = e" 
    using hash_eq [OF Cons.prems(2), of e' e] Cons.prems(3) by (simp add: node_key_eq)
  then show ?case using Cons e' by auto
qed simp

lemma apply_puts_other: "set ops \<subseteq> put_node x opts ` E \<Longrightarrow> (\<And>e. e \<in> E \<Longrightarrow> node_key x opts e \<noteq> k) \<Longrightarrow> apply_ops ops w k = w k"
proof (induction ops arbitrary: w)
  case (Cons b ops)
  then obtain e' where "b = put_node x opts e'" "e' \<in> E" by auto
  then show ?case using Cons by auto
qed simp

section \<open>Saving leaves a state that holds the trie\<close>

text \<open>\<open>s\<close> became \<open>t\<close> by writing nodes and moving the root.\<close>

definition becomes :: "externals \<Rightarrow> 'c mpt \<Rightarrow> 'c mpt \<Rightarrow> trie option \<Rightarrow> bool" where
  "becomes x s t T \<longleftrightarrow> ready x t \<and> holds x t T \<and> mpt_options t = mpt_options s \<and> cd_saved x (mpt_db t) = cd_saved x (mpt_db s)"

lemma write_ops_run:
  assumes "db_ok x (mpt_db s)" "noble_ok x"
  shows "\<exists>s'. on_db (db_batch x L ops) s = (Inr (), s') \<and> mpt_options s' = mpt_options s \<and> mpt_root s' = mpt_root s
    \<and> mpt_hashLen s' = mpt_hashLen s \<and> lock_permits s' = lock_permits s \<and> db_ok x (mpt_db s')
    \<and> mpt_view x s' = apply_ops ops (mpt_view x s) \<and> cd_saved x (mpt_db s') = cd_saved x (mpt_db s)"
  using db_batch_run [OF assms, of L ops] by (auto simp: on_db_def)

lemma saveStack_run:
  fixes s :: "'c mpt"
  assumes ok: "hash32 x" "noble_ok x" "t_ok t" "fits x t" "collision_free x (encs x t)"
    and s: "db_ok x (mpt_db s)" "mpt_hashLen s = 32" "\<not> useRootPersistence (mpt_options s)" "\<not> useNodePruning (mpt_options s)"
      "mpt_view x s (node_key x (mpt_options s) RLP_EMPTY_STRING) = None"
    and b: "builds x P ns ks t" "set ops \<subseteq> put_node x (mpt_options s) ` encs x t"
    and P: "\<And>u. u \<in> subs t \<Longrightarrow> P u \<Longrightarrow> 32 \<le> length (enc x u) \<Longrightarrow>
        mpt_view x s (node_key x (mpt_options s) (enc x u)) = Some (enc x u) \<or> put_node x (mpt_options s) (enc x u) \<in> set ops"
  shows "\<exists>s'. saveStack x L ks ns ops s = (Inr (), s') \<and> lock_permits s' = lock_permits s \<and>
    becomes x (s\<lparr>lock_permits := 1\<rparr>) (s'\<lparr>lock_permits := 1\<rparr>) (Some t)"
proof -
  let ?o = "mpt_options s" and ?root = "mpt_hash x (enc x t)"
  obtain ops1 where l: "save_loop x ?o ks (rev ns) None ops = Inr (Some (RBytes ?root), ops @ ops1)"
    "saves x ?o P (subs t) ops1" "put_node x ?o (enc x t) \<in> set ops1"
    using save_loop_builds [OF b(1)] by blast
  define s1 where "s1 = s\<lparr>mpt_root := ?root\<rparr>"
  have s1: "set_root ?root s = (Inr (), s1)" using ok(1) s(2) by (simp add: set_root_def s1_def hash32_def mpt_hash_def)
  have "db_ok x (mpt_db s1)" using s(1) by (simp add: s1_def)
  then obtain s2 where s2: "on_db (db_batch x L (ops @ ops1)) s1 = (Inr (), s2)" "mpt_options s2 = mpt_options s1" "mpt_root s2 = mpt_root s1"
    "mpt_hashLen s2 = mpt_hashLen s1" "lock_permits s2 = lock_permits s1" "db_ok x (mpt_db s2)"
    "mpt_view x s2 = apply_ops (ops @ ops1) (mpt_view x s1)" "cd_saved x (mpt_db s2) = cd_saved x (mpt_db s1)"
    using write_ops_run [of x s1 L "ops @ ops1"] ok(2) by blast
  have run: "saveStack x L ks ns ops s = (Inr (), s2)"
    using l(1) s1 s2(1,2) s(3) by (simp add: saveStack_def sx_run persistRoot_def Let_def) (simp add: s1_def)
  have puts: "set (ops @ ops1) \<subseteq> put_node x ?o ` encs x t" using b(2) l(2) by (auto simp: saves_def encs_def)
  have view: "mpt_view x s2 (node_key x ?o e) = (if put_node x ?o e \<in> set (ops @ ops1) then Some e else mpt_view x s (node_key x ?o e))"
    if "e \<in> encs x t" for e
    using apply_puts [OF puts, of "encs x t" e] that ok(5) s2(7) by (simp add: s1_def)
  have stored: "stored_in x ?o (mpt_view x s2) u" if u: "u \<in> subs t" for u
    using view [of "enc x u"] P [OF u] l(2) u by (auto simp: stored_in_def saves_def encs_def)
  have root: "mpt_view x s2 (node_key x ?o (enc x t)) = Some (enc x t)" using view [of "enc x t"] l(3) by (simp add: encs_def)
  have "mpt_view x s2 (node_key x ?o RLP_EMPTY_STRING) = None"
    using apply_puts_other [OF puts, of "node_key x ?o RLP_EMPTY_STRING" "mpt_view x s1"] not_empty_root [OF ok(5)] s(5) s2(7)
    by (auto simp: s1_def encs_def)
  moreover have "?root \<noteq> EMPTY_TRIE_ROOT x" using not_empty_root [OF ok(5), of t] by (simp add: encs_def)
  ultimately show ?thesis
    using run ok(3,4) s s2 stored root by (auto simp: becomes_def ready_def holds_def all_subs_def s1_def)
qed

section \<open>Inserting\<close>

text \<open>What \<open>_updateNode\<close> puts in place of the last node of the path.\<close>

definition new_tail :: "externals \<Rightarrow> mpt_opts \<Rightarrow> bytes \<Rightarrow> nibbles \<Rightarrow> mpt_node \<Rightarrow> bool \<Rightarrow> exn + mpt_node list \<times> node_ops" where
  "new_tail x opts value rest l matched =
     (if matched then Inr ([set_value (RBytes value) l], [])
      else if is_branch l then
        (if rest \<noteq> [] then Inr ([l, LeafMPTNode (tl rest) (RBytes value)], []) else Inr ([set_value (RBytes value) l], []))
      else let m = matchingNibbleLength (node_nibbles l) rest;
               extensions = (if m \<noteq> 0 then [ExtensionMPTNode (take m (node_nibbles l)) (RBytes value)] else []);
               rest1 = drop m rest
           in bindR (attach_rest x opts l (drop m (node_nibbles l))) (\<lambda>(branch, ops).
             Inr (extensions @ (if rest1 \<noteq> [] then [branch, LeafMPTNode (tl rest1) (RBytes value)]
               else [set_value (RBytes value) branch]), ops)))"

lemma updated_stack_tail: "updated_stack x opts key value rest l st =
    bindR (new_tail x opts value rest l (matches_leaf l key rest st)) (\<lambda>(ns, ops). Inr (st @ ns, ops))"
  by (auto simp: updated_stack_def new_tail_def Let_def bindR_def split: sum.split)

definition stored_or_put :: "externals \<Rightarrow> mpt_opts \<Rightarrow> trie \<Rightarrow> node_ops \<Rightarrow> trie \<Rightarrow> bool" where
  "stored_or_put x opts t ops u \<longleftrightarrow> u \<in> subs t \<or> (32 \<le> length (enc x u) \<longrightarrow> put_node x opts (enc x u) \<in> set ops)"

text \<open>The branch that takes what is left of the last node.\<close>

definition fork_slots :: "(nibbles \<Rightarrow> trie) \<Rightarrow> nibbles \<Rightarrow> trie option list" where
  "fork_slots below k = (case k of [] \<Rightarrow> replicate 16 None | i # k' \<Rightarrow> (replicate 16 None)[i := Some (below k')])"

lemma null_slot: "encode RNull = encode (slot x None)"
  by (simp add: slot_def toBytes_def)

lemma new_branch_slots: "list_all2 (\<lambda>b c. encode b = encode (slot x c)) (replicate 16 RNull) (replicate 16 None)"
  by (simp add: list_all2_conv_all_nth null_slot del: encode.simps)

lemma slot_update:
  "list_all2 (\<lambda>b c. encode b = encode (slot x c)) bs cs \<Longrightarrow> encode r = encode (slot x c) \<Longrightarrow>
    list_all2 (\<lambda>b c. encode b = encode (slot x c)) (bs[i := r]) (cs[i := c])"
  by (rule list_all2_update_cong)

lemma format_remove: "\<not> useNodePruning opts \<Longrightarrow> node_for x n t \<Longrightarrow> \<exists>r. formatNode x opts n False True = Inr (r, [])"
  using serialize_for [of x n t] by (cases "32 \<le> length (enc x t)") (simp_all add: formatNode_def Let_def)

lemma attach_leaf:
  assumes "nibs k"
  shows "\<exists>bs wv ops. attach_rest x opts (LeafMPTNode j (RBytes w)) k = Inr (BranchMPTNode bs wv, ops)
    \<and> list_all2 (\<lambda>b c. encode b = encode (slot x c)) bs (fork_slots (\<lambda>k'. TLeaf k' w) k)
    \<and> encode wv = encode (opt_bytes (if k = [] then Some w else None))
    \<and> (\<forall>i k'. k = i # k' \<longrightarrow> saves x opts (\<lambda>_. False) {TLeaf k' w} ops) \<and> (k = [] \<longrightarrow> ops = [])"
proof (cases k)
  case Nil
  then show ?thesis using new_branch_slots by (simp add: attach_rest_def new_branch_def fork_slots_def opt_bytes_def)
next
  case (Cons i k')
  obtain r ops where f: "formatNode x opts (LeafMPTNode k' (RBytes w)) False False = Inr (r, ops)" "encode r = encode (node_ref x (TLeaf k' w))"
    "set ops \<subseteq> {put_node x opts (enc x (TLeaf k' w))}" "32 \<le> length (enc x (TLeaf k' w)) \<longrightarrow> put_node x opts (enc x (TLeaf k' w)) \<in> set ops"
    using format_below [of x "LeafMPTNode k' (RBytes w)" "TLeaf k' w" opts] by auto
  have "i < 16" using assms Cons by simp
  then have "attach_rest x opts (LeafMPTNode j (RBytes w)) k = Inr (BranchMPTNode ((replicate 16 RNull)[i := r]) RNull, ops)"
    using f(1) Cons by (simp add: attach_rest_def new_branch_def array_set_def)
  moreover have "encode r = encode (slot x (Some (TLeaf k' w)))" using f(2) by (simp add: slot_def)
  ultimately show ?thesis using slot_update [OF new_branch_slots] f(3,4) Cons
    by (auto simp: fork_slots_def opt_bytes_def toBytes_def saves_def)
qed

lemma attach_ext:
  assumes "nibs k" "k \<noteq> []" "\<not> useNodePruning opts"
  shows "\<exists>bs wv ops. attach_rest x opts (ExtensionMPTNode j (node_ref x u)) k = Inr (BranchMPTNode bs wv, ops)
    \<and> list_all2 (\<lambda>b c. encode b = encode (slot x c)) bs (fork_slots (\<lambda>k'. t_ext k' u) k)
    \<and> encode wv = encode (opt_bytes None)
    \<and> (\<forall>i k'. k = i # k' \<longrightarrow> saves x opts (\<lambda>s. s \<in> subs u) {t_ext k' u} ops)"
proof -
  obtain i k' where k: "k = i # k'" "i < 16" using assms by (cases k) auto
  show ?thesis
  proof (cases "k' = []")
    case True
    obtain r where "formatNode x opts (ExtensionMPTNode j (node_ref x u)) False True = Inr (r, [])"
      using format_remove [OF assms(3), of x "ExtensionMPTNode j (node_ref x u)" "TExt j u"] by auto
    then have "attach_rest x opts (ExtensionMPTNode j (node_ref x u)) k = Inr (BranchMPTNode ((replicate 16 RNull)[i := node_ref x u]) RNull, [])"
      using k True by (simp add: attach_rest_def new_branch_def array_set_def)
    moreover have "encode (node_ref x u) = encode (slot x (Some (t_ext k' u)))" using True by (simp add: slot_def t_ext_def)
    ultimately show ?thesis using slot_update [OF new_branch_slots] k True
      by (auto simp: fork_slots_def opt_bytes_def toBytes_def saves_def t_ext_def)
  next
    case False
    obtain r ops where f: "formatNode x opts (ExtensionMPTNode k' (node_ref x u)) False False = Inr (r, ops)" "encode r = encode (node_ref x (TExt k' u))"
      "set ops \<subseteq> {put_node x opts (enc x (TExt k' u))}" "32 \<le> length (enc x (TExt k' u)) \<longrightarrow> put_node x opts (enc x (TExt k' u)) \<in> set ops"
      using format_below [of x "ExtensionMPTNode k' (node_ref x u)" "TExt k' u" opts] by auto
    have "attach_rest x opts (ExtensionMPTNode j (node_ref x u)) k = Inr (BranchMPTNode ((replicate 16 RNull)[i := r]) RNull, ops)"
      using f(1) k False by (simp add: attach_rest_def new_branch_def array_set_def)
    moreover have "encode r = encode (slot x (Some (t_ext k' u)))" using f(2) False by (simp add: slot_def t_ext_def)
    ultimately show ?thesis using slot_update [OF new_branch_slots] f(3,4) k False
      by (auto simp: fork_slots_def opt_bytes_def toBytes_def saves_def t_ext_def)
  qed
qed

lemma fork_slots_Some: "j < 16 \<Longrightarrow> fork_slots below k ! j = Some c \<Longrightarrow> \<exists>k'. k = j # k' \<and> c = below k'"
  by (cases k; cases "hd k = j") (auto simp: fork_slots_def)

lemma length_fork_slots [simp]: "length (fork_slots below k) = 16"
  by (simp add: fork_slots_def split: list.split)

lemma t_fork_eq: "t_fork below here k ks v = (let w = (if k = [] then here else None) in
    case ks of [] \<Rightarrow> TBranch (fork_slots below k) (Some v) | j # ks' \<Rightarrow> TBranch ((fork_slots below k)[j := Some (TLeaf ks' v)]) w)"
  by (simp add: t_fork_def fork_slots_def split: list.split)

lemma fork_builds:
  assumes "list_all2 (\<lambda>b c. encode b = encode (slot x c)) bs (fork_slots below k)" "encode wv = encode (opt_bytes (if k = [] then here else None))"
    "nibs ks" "forks k ks" "\<And>i k' s. k = i # k' \<Longrightarrow> s \<in> subs (below k') \<Longrightarrow> P s"
  shows "builds x P (if ks \<noteq> [] then [BranchMPTNode bs wv, LeafMPTNode (tl ks) (RBytes v)] else [set_value (RBytes v) (BranchMPTNode bs wv)])
    ks (t_fork below here k ks v)"
proof (cases ks)
  case Nil
  let ?t = "TBranch (fork_slots below k) (Some v)"
  have "builds x P [BranchMPTNode bs (RBytes v)] (own_key ?t) ?t"
  proof (rule builds_last)
    fix u assume u: "u \<in> subs ?t" "u \<noteq> ?t"
    obtain j c where "j < 16" "fork_slots below k ! j = Some c" "u \<in> subs c" using child_of_subs [OF u] by auto
    then show "P u" using fork_slots_Some assms(5) by blast
  qed (use assms(1) in \<open>simp add: opt_bytes_def\<close>)
  then show ?thesis using Nil by (simp add: t_fork_eq own_key_def)
next
  case (Cons j ks')
  then have j: "j < 16" using assms(3) by simp
  have leaf: "builds x P [LeafMPTNode ks' (RBytes v)] ks' (TLeaf ks' v)"
    using builds_last [of x "LeafMPTNode ks' (RBytes v)" "TLeaf ks' v" P] by (simp add: own_key_def)
  have "builds x P (BranchMPTNode bs wv # [LeafMPTNode ks' (RBytes v)]) (j # ks')
      (TBranch ((fork_slots below k)[j := Some (TLeaf ks' v)]) (if k = [] then here else None))"
  proof (rule builds_branch [OF leaf])
    fix m c s assume "m < length ((fork_slots below k)[j := Some (TLeaf ks' v)])" "m \<noteq> j"
      "(fork_slots below k)[j := Some (TLeaf ks' v)] ! m = Some c" "s \<in> subs c"
    then show "P s" using fork_slots_Some [of m below k c] assms(5) by auto
  qed (use j assms(1,2) in \<open>auto simp: list_all2_conv_all_nth\<close>)
  then show ?thesis using Cons by (simp add: t_fork_eq)
qed

lemma fork_below: "nibs k \<Longrightarrow> forks k ks \<Longrightarrow> k = i # k' \<Longrightarrow> subs (below k') \<subseteq> subs (t_fork below here k ks v)"
proof -
  assume a: "nibs k" "forks k ks" "k = i # k'"
  have "i < 16" using a by simp
  then have "fork_slots below k ! i = Some (below k')" using a(3) by (simp add: fork_slots_def)
  moreover have "ks = j # ks' \<Longrightarrow> j \<noteq> i" for j ks' using a by (auto simp: forks_def)
  ultimately show ?thesis using \<open>i < 16\<close> child_subs [of _ i "below k'"]
    by (cases ks) (auto simp: t_fork_eq Let_def)
qed

lemma subs_t_ext: "subs t \<subseteq> subs (t_ext k t)"
  by (auto simp: t_ext_def)

lemma split_builds:
  assumes "builds x P ns ks' (t_fork below here k' ks' v)"
  shows "builds x P ((if p \<noteq> [] then [ExtensionMPTNode p (RBytes v)] else []) @ ns) (p @ ks') (t_ext p (t_fork below here k' ks' v))"
  using assms builds_ext [OF assms] by (simp add: t_ext_def)

lemma new_tail_split:
  assumes "nibs k" "nibs ks" "\<not> is_branch l" "node_nibbles l = k"
    and "\<And>p k' ks'. k = p @ k' \<Longrightarrow> ks = p @ ks' \<Longrightarrow> forks k' ks' \<Longrightarrow> \<exists>bs wv ops. attach_rest x opts l k' = Inr (BranchMPTNode bs wv, ops)
       \<and> list_all2 (\<lambda>b c. encode b = encode (slot x c)) bs (fork_slots below k')
       \<and> encode wv = encode (opt_bytes (if k' = [] then here else None))
       \<and> (\<forall>i k''. k' = i # k'' \<longrightarrow> saves x opts Q {below k''} ops \<and> (\<forall>s\<in>subs (below k''). s = below k'' \<or> s \<in> subs t))
       \<and> (k' = [] \<longrightarrow> ops = [])"
    and "\<And>u. Q u \<Longrightarrow> u \<in> subs t"
  shows "\<exists>ns ops. new_tail x opts v ks l False = Inr (ns, ops)
    \<and> builds x (stored_or_put x opts t ops) ns ks (t_split k below here ks v)
    \<and> set ops \<subseteq> put_node x opts ` encs x (t_split k below here ks v)"
proof -
  obtain p k' ks' where s: "k = p @ k'" "ks = p @ ks'" "forks k' ks'" "p = take (matchingNibbleLength k ks) k"
    "k' = drop (matchingNibbleLength k ks) k" "ks' = drop (matchingNibbleLength k ks) ks"
    "t_split k below here ks v = t_ext p (t_fork below here k' ks' v)"
    by (rule split_parts)
  obtain bs wv ops where a: "attach_rest x opts l k' = Inr (BranchMPTNode bs wv, ops)"
    "list_all2 (\<lambda>b c. encode b = encode (slot x c)) bs (fork_slots below k')"
    "encode wv = encode (opt_bytes (if k' = [] then here else None))"
    "\<And>i k''. k' = i # k'' \<Longrightarrow> saves x opts Q {below k''} ops \<and> (\<forall>s\<in>subs (below k''). s = below k'' \<or> s \<in> subs t)"
    "k' = [] \<Longrightarrow> ops = []"
    using assms(5) [OF s(1-3)] by blast
  let ?ns = "if ks' \<noteq> [] then [BranchMPTNode bs wv, LeafMPTNode (tl ks') (RBytes v)] else [set_value (RBytes v) (BranchMPTNode bs wv)]"
  have "matchingNibbleLength k ks \<noteq> 0 \<longleftrightarrow> p \<noteq> []" using s(4) matching_le(1) [of k ks] by (cases k) auto
  then have run: "new_tail x opts v ks l False = Inr ((if p \<noteq> [] then [ExtensionMPTNode p (RBytes v)] else []) @ ?ns, ops)"
    using assms(3,4) a(1) s(4-6) by (auto simp: new_tail_def Let_def)
  have "builds x (stored_or_put x opts t ops) ?ns ks' (t_fork below here k' ks' v)"
  proof (rule fork_builds [OF a(2,3) _ s(3)])
    show "nibs ks'" using assms(2) s(2) by simp
  next
    fix i k'' q assume k': "k' = i # k''" "q \<in> subs (below k'')"
    then show "stored_or_put x opts t ops q" using a(4) [OF k'(1)] assms(6) by (auto simp: stored_or_put_def saves_def)
  qed
  then have "builds x (stored_or_put x opts t ops) ((if p \<noteq> [] then [ExtensionMPTNode p (RBytes v)] else []) @ ?ns) ks (t_split k below here ks v)"
    using split_builds s(2,7) by metis
  moreover have "set ops \<subseteq> put_node x opts ` encs x (t_split k below here ks v)"
  proof (cases k')
    case (Cons i k'')
    have "nibs k'" using assms(1) s(1) by simp
    from fork_below [OF this s(3) Cons, of below here v] have "below k'' \<in> subs (t_split k below here ks v)"
      using s(7) subs_t_ext [of "t_fork below here k' ks' v" p] self_sub [of "below k''"] by (metis subsetD)
    then show ?thesis using a(4) [OF Cons] by (auto simp: saves_def encs_def)
  qed (use a(5) in simp)
  ultimately show ?thesis using run by blast
qed

lemma tail_leaf:
  assumes "nibs k" "nibs ks" "ks \<noteq> k"
  shows "\<exists>ns ops. new_tail x opts v ks (LeafMPTNode k (RBytes w)) False = Inr (ns, ops)
    \<and> builds x (stored_or_put x opts (TLeaf k w) ops) ns ks (t_insert ks v (TLeaf k w))
    \<and> set ops \<subseteq> put_node x opts ` encs x (t_insert ks v (TLeaf k w))"
proof -
  have "\<exists>ns ops. new_tail x opts v ks (LeafMPTNode k (RBytes w)) False = Inr (ns, ops)
    \<and> builds x (stored_or_put x opts (TLeaf k w) ops) ns ks (t_split k (\<lambda>k'. TLeaf k' w) (Some w) ks v)
    \<and> set ops \<subseteq> put_node x opts ` encs x (t_split k (\<lambda>k'. TLeaf k' w) (Some w) ks v)"
  proof (rule new_tail_split [where Q = "\<lambda>_. False"])
    fix p k' ks' assume "k = p @ k'"
    then have "nibs k'" using assms(1) by simp
    from attach_leaf [OF this, of x opts k w] show "\<exists>bs wv ops. attach_rest x opts (LeafMPTNode k (RBytes w)) k' = Inr (BranchMPTNode bs wv, ops)
       \<and> list_all2 (\<lambda>b c. encode b = encode (slot x c)) bs (fork_slots (\<lambda>k'. TLeaf k' w) k')
       \<and> encode wv = encode (opt_bytes (if k' = [] then Some w else None))
       \<and> (\<forall>i k''. k' = i # k'' \<longrightarrow> saves x opts (\<lambda>_. False) {TLeaf k'' w} ops \<and>
          (\<forall>s\<in>subs (TLeaf k'' w). s = TLeaf k'' w \<or> s \<in> subs (TLeaf k w))) \<and> (k' = [] \<longrightarrow> ops = [])" by auto
  qed (use assms in \<open>auto simp: is_branch_def\<close>)
  then show ?thesis using assms(3) by simp
qed

lemma tail_ext:
  assumes "nibs k" "nibs ks" "take (length k) ks \<noteq> k" "\<not> useNodePruning opts"
  shows "\<exists>ns ops. new_tail x opts v ks (ExtensionMPTNode k (node_ref x u)) False = Inr (ns, ops)
    \<and> builds x (stored_or_put x opts (TExt k u) ops) ns ks (t_insert ks v (TExt k u))
    \<and> set ops \<subseteq> put_node x opts ` encs x (t_insert ks v (TExt k u))"
proof -
  have "\<exists>ns ops. new_tail x opts v ks (ExtensionMPTNode k (node_ref x u)) False = Inr (ns, ops)
    \<and> builds x (stored_or_put x opts (TExt k u) ops) ns ks (t_split k (\<lambda>k'. t_ext k' u) None ks v)
    \<and> set ops \<subseteq> put_node x opts ` encs x (t_split k (\<lambda>k'. t_ext k' u) None ks v)"
  proof (rule new_tail_split [where Q = "\<lambda>s. s \<in> subs u"])
    fix p k' ks' assume p: "k = p @ k'" "ks = p @ ks'"
    then have k': "nibs k'" "k' \<noteq> []" using assms(1,3) by auto
    from attach_ext [OF k' assms(4), of x k u] k'(2) show "\<exists>bs wv ops. attach_rest x opts (ExtensionMPTNode k (node_ref x u)) k' = Inr (BranchMPTNode bs wv, ops)
       \<and> list_all2 (\<lambda>b c. encode b = encode (slot x c)) bs (fork_slots (\<lambda>k'. t_ext k' u) k')
       \<and> encode wv = encode (opt_bytes (if k' = [] then None else None))
       \<and> (\<forall>i k''. k' = i # k'' \<longrightarrow> saves x opts (\<lambda>s. s \<in> subs u) {t_ext k'' u} ops \<and>
          (\<forall>s\<in>subs (t_ext k'' u). s = t_ext k'' u \<or> s \<in> subs (TExt k u))) \<and> (k' = [] \<longrightarrow> ops = [])"
      by (auto simp: t_ext_def)
  qed (use assms in \<open>auto simp: is_branch_def\<close>)
  then show ?thesis using assms(3) by simp
qed

lemma dnode_ext: "dnode x (TExt k t) = ExtensionMPTNode k (node_ref x t)"
  by (simp add: dnode_def)

lemma dnode_branch: "dnode x (TBranch cs w) = BranchMPTNode (map (slot x) cs) (opt_bytes w)"
  by (simp add: dnode_def)

lemma path_nonempty: "t_path t ks = (path, n, rest) \<Longrightarrow> path \<noteq> []"
  by (induction t ks arbitrary: path rule: t_path.induct) (auto split: prod.splits if_splits option.splits)

lemma stored_mono: "stored_or_put x opts t ops u \<Longrightarrow> subs t \<subseteq> subs t' \<Longrightarrow> stored_or_put x opts t' ops u"
  by (auto simp: stored_or_put_def)

definition at_leaf :: "trie \<Rightarrow> trie option \<Rightarrow> bool" where
  "at_leaf l n \<longleftrightarrow> n \<noteq> None \<and> (case l of TLeaf _ _ \<Rightarrow> True | _ \<Rightarrow> False)"

text \<open>The whole stack: the path without its last node, then the new tail, builds the trie with the insertion.\<close>

theorem insert_builds:
  assumes "\<not> useNodePruning opts"
  shows "t_ok t \<Longrightarrow> nibs ks \<Longrightarrow> t_path t ks = (path, n, rest) \<Longrightarrow>
    \<exists>ns ops. new_tail x opts v rest (dnode x (last path)) (at_leaf (last path) n) = Inr (ns, ops)
    \<and> builds x (stored_or_put x opts t ops) (map (dnode x) (butlast path) @ ns) ks (t_insert ks v t)
    \<and> set ops \<subseteq> put_node x opts ` encs x (t_insert ks v t)"
proof (induction t ks arbitrary: path rule: t_path.induct)
  case (1 k w ks)
  show ?case
  proof (cases "ks = k")
    case True
    then show ?thesis using 1(3) builds_last [of x "LeafMPTNode k (RBytes v)" "TLeaf k v"]
      by (auto simp: at_leaf_def new_tail_def dnode_def own_key_def)
  next
    case False
    then show ?thesis using tail_leaf [of k ks x opts v w] 1 by (auto simp: at_leaf_def dnode_def)
  qed
next
  case (2 k t ks)
  show ?case
  proof (cases "take (length k) ks = k")
    case True
    obtain path' where p: "t_path t (drop (length k) ks) = (path', n, rest)" "path = TExt k t # path'"
      using 2(4) True by (auto split: prod.splits)
    have "nibs (drop (length k) ks)" using 2(3) by (auto dest: in_set_dropD)
    then obtain ns ops where IH: "new_tail x opts v rest (dnode x (last path')) (at_leaf (last path') n) = Inr (ns, ops)"
      "builds x (stored_or_put x opts t ops) (map (dnode x) (butlast path') @ ns) (drop (length k) ks) (t_insert (drop (length k) ks) v t)"
      "set ops \<subseteq> put_node x opts ` encs x (t_insert (drop (length k) ks) v t)"
      using 2(1) [OF True _ _ p(1)] 2(2) by auto
    have "builds x (stored_or_put x opts (TExt k t) ops) (map (dnode x) (butlast path') @ ns) (drop (length k) ks) (t_insert (drop (length k) ks) v t)"
      by (rule builds_mono [OF IH(2)]) (erule stored_mono, auto)
    from builds_ext [OF this, of k "node_ref x t"] True show ?thesis
      using IH(1,3) p(2) path_nonempty [OF p(1)] take_drop_prefix [of k ks] dnode_ext [of x k t]
      by (auto simp: encs_def)
  next
    case False
    then show ?thesis using tail_ext [OF _ _ False assms, of x v t] 2 by (auto simp: at_leaf_def dnode_def)
  qed
next
  case (3 cs w)
  have "node_for x (BranchMPTNode (map (slot x) cs) (RBytes v)) (TBranch cs (Some v))"
    by (simp add: list_all2_map1 list_all2_same opt_bytes_def)
  moreover have "u \<in> subs (TBranch cs (Some v)) \<Longrightarrow> u \<noteq> TBranch cs (Some v) \<Longrightarrow> u \<in> subs (TBranch cs w)" for u
    by auto
  ultimately show ?case using 3 builds_last [of x "BranchMPTNode (map (slot x) cs) (RBytes v)" "TBranch cs (Some v)"]
    by (auto simp: at_leaf_def new_tail_def dnode_def own_key_def is_branch_def stored_or_put_def)
next
  case (4 cs w i ks)
  have i: "i < length cs" using 4(2,3) by simp
  show ?case
  proof (cases "cs ! i")
    case None
    let ?t = "TBranch (cs[i := Some (TLeaf ks v)]) w"
    have leaf: "builds x (stored_or_put x opts (TBranch cs w) []) [LeafMPTNode ks (RBytes v)] ks (TLeaf ks v)"
      using builds_last [of x "LeafMPTNode ks (RBytes v)" "TLeaf ks v"] by (simp add: own_key_def)
    have "builds x (stored_or_put x opts (TBranch cs w) []) (BranchMPTNode (map (slot x) cs) (opt_bytes w) # [LeafMPTNode ks (RBytes v)]) (i # ks) ?t"
    proof (rule builds_branch [OF leaf])
      fix j c s assume "j < length (cs[i := Some (TLeaf ks v)])" "j \<noteq> i" "cs[i := Some (TLeaf ks v)] ! j = Some c" "s \<in> subs c"
      then show "stored_or_put x opts (TBranch cs w) [] s" using child_subs [of cs j c w] by (auto simp: stored_or_put_def)
    qed (use i in auto)
    then show ?thesis using None i 4(4) by (auto simp: at_leaf_def new_tail_def dnode_def is_branch_def)
  next
    case (Some t)
    obtain path' where p: "t_path t ks = (path', n, rest)" "path = TBranch cs w # path'"
      using 4(4) Some i by (auto split: prod.splits)
    have t: "t_ok t" using ok_child [OF 4(2) i Some] .
    obtain ns ops where IH: "new_tail x opts v rest (dnode x (last path')) (at_leaf (last path') n) = Inr (ns, ops)"
      "builds x (stored_or_put x opts t ops) (map (dnode x) (butlast path') @ ns) ks (t_insert ks v t)"
      "set ops \<subseteq> put_node x opts ` encs x (t_insert ks v t)"
      using 4(1) [OF i Some t _ p(1)] 4(3) by auto
    let ?t = "TBranch (cs[i := Some (t_insert ks v t)]) w"
    have "builds x (stored_or_put x opts (TBranch cs w) ops) (map (dnode x) (butlast path') @ ns) ks (t_insert ks v t)"
      by (rule builds_mono [OF IH(2)]) (erule stored_mono, rule child_subs [OF Some i])
    then have "builds x (stored_or_put x opts (TBranch cs w) ops) (BranchMPTNode (map (slot x) cs) (opt_bytes w) # map (dnode x) (butlast path') @ ns) (i # ks) ?t"
    proof (rule builds_branch)
      fix j c s assume "j < length (cs[i := Some (t_insert ks v t)])" "j \<noteq> i" "cs[i := Some (t_insert ks v t)] ! j = Some c" "s \<in> subs c"
      then show "stored_or_put x opts (TBranch cs w) ops s" using child_subs [of cs j c w] by (auto simp: stored_or_put_def)
    qed (use i in auto)
    moreover have "subs (t_insert ks v t) \<subseteq> subs ?t" using child_subs [of "cs[i := Some (t_insert ks v t)]" i] i by simp
    then have "set ops \<subseteq> put_node x opts ` encs x ?t" using IH(3) unfolding encs_def by (meson image_mono order_trans)
    ultimately show ?thesis using IH(1) p(2) path_nonempty [OF p(1)] Some i dnode_branch [of x cs w] by auto
  qed
qed

section \<open>put\<close>

lemma path_leaf:
  "t_path t ks = (path, n, rest) \<Longrightarrow> t_ok t \<Longrightarrow> last path = TLeaf k v \<Longrightarrow>
    drop (path_length (map (dnode x) (butlast path))) ks = (if n = None then rest else k) \<and> (n = None \<longrightarrow> rest \<noteq> k)"
proof (induction t ks arbitrary: path rule: t_path.induct)
  case (2 k' t ks)
  show ?case
  proof (cases "take (length k') ks = k'")
    case True
    obtain path' where p: "t_path t (drop (length k') ks) = (path', n, rest)" "path = TExt k' t # path'"
      using 2(2) True by (auto split: prod.splits)
    then show ?thesis using 2(1) [OF True p(1)] 2(3,4) path_nonempty [OF p(1)] by (simp add: dnode_def add.commute)
  qed (use 2 in auto)
next
  case (4 cs w i ks)
  show ?case
  proof (cases "i < length cs \<and> cs ! i \<noteq> None")
    case True
    then obtain t where t: "i < length cs" "cs ! i = Some t" by blast
    then obtain path' where p: "t_path t ks = (path', n, rest)" "path = TBranch cs w # path'"
      using 4(2) by (auto split: prod.splits)
    then show ?thesis using 4(1) [OF t p(1)] ok_child [OF 4(3) t] 4(4) path_nonempty [OF p(1)] by (simp add: dnode_def)
  qed (use 4 in \<open>auto split: if_splits\<close>)
qed (auto split: if_splits)

lemma matches_leaf_path:
  assumes "t_path t ks = (path, n, rest)" "t_ok t"
  shows "matches_leaf (dnode x (last path)) ks rest (map (dnode x) (butlast path)) = at_leaf (last path) n"
proof (cases "last path")
  case (TLeaf k v)
  have "n \<noteq> None \<longrightarrow> rest = []" using path_lookup [OF assms] by simp
  then show ?thesis using path_leaf [OF assms TLeaf, of x] TLeaf
    by (cases n) (auto simp: matches_leaf_def at_leaf_def dnode_def matching_full)
qed (auto simp: matches_leaf_def at_leaf_def dnode_def)

text \<open>A key and value that go in: \<open>put\<close> stores the applied key.\<close>

definition inserted :: "trie option \<Rightarrow> nibbles \<Rightarrow> bytes \<Rightarrow> trie" where
  "inserted T ks v = (case T of None \<Rightarrow> TLeaf ks v | Some t \<Rightarrow> t_insert ks v t)"

lemma inserted_ok: "(case T of None \<Rightarrow> True | Some t \<Rightarrow> t_ok t) \<Longrightarrow> nibs ks \<Longrightarrow> v \<noteq> [] \<Longrightarrow>
    t_ok (inserted T ks v) \<and> content (Some (inserted T ks v)) = (content T)(ks \<mapsto> v)"
  by (auto simp: inserted_def content_def ok_insert lookup_insert fun_eq_iff split: option.splits)

lemma update_run:
  fixes s :: "'c mpt"
  assumes ok: "hash32 x" "noble_ok x" "fits x (t_insert (bytesToNibbles key) v t)" "collision_free x (encs x (t_insert (bytesToNibbles key) v t))"
    and s: "db_ok x (mpt_db s)" "mpt_hashLen s = 32" "\<not> useRootPersistence (mpt_options s)" "\<not> useNodePruning (mpt_options s)"
      "mpt_view x s (node_key x (mpt_options s) RLP_EMPTY_STRING) = None"
    and t: "holds x s (Some t)" "t_path t (bytesToNibbles key) = (path, n, rest)" "v \<noteq> []"
  shows "\<exists>s'. updateNode x L key v rest (map (dnode x) path) s = (Inr (), s') \<and> lock_permits s' = lock_permits s \<and>
    becomes x (s\<lparr>lock_permits := 1\<rparr>) (s'\<lparr>lock_permits := 1\<rparr>) (Some (t_insert (bytesToNibbles key) v t))"
proof -
  let ?k = "bytesToNibbles key" and ?o = "mpt_options s"
  have tok: "t_ok t" using t(1) by (simp add: holds_def)
  obtain ns ops where b: "new_tail x ?o v rest (dnode x (last path)) (at_leaf (last path) n) = Inr (ns, ops)"
    "builds x (stored_or_put x ?o t ops) (map (dnode x) (butlast path) @ ns) ?k (t_insert ?k v t)"
    "set ops \<subseteq> put_node x ?o ` encs x (t_insert ?k v t)"
    using insert_builds [OF s(4) tok nibs_bytes t(2)] by blast
  have stack: "map (dnode x) path \<noteq> []" "last (map (dnode x) path) = dnode x (last path)"
    "butlast (map (dnode x) path) = map (dnode x) (butlast path)"
    using path_nonempty [OF t(2)] by (simp_all add: last_map map_butlast)
  have P: "stored_or_put x ?o t ops u \<Longrightarrow> 32 \<le> length (enc x u) \<Longrightarrow>
      mpt_view x s (node_key x ?o (enc x u)) = Some (enc x u) \<or> put_node x ?o (enc x u) \<in> set ops" for u
    using t(1) by (auto simp: stored_or_put_def holds_def all_subs_def stored_in_def)
  obtain s' where s': "saveStack x L ?k (map (dnode x) (butlast path) @ ns) ops s = (Inr (), s')" "lock_permits s' = lock_permits s"
    "becomes x (s\<lparr>lock_permits := 1\<rparr>) (s'\<lparr>lock_permits := 1\<rparr>) (Some (t_insert ?k v t))"
    using saveStack_run [OF ok(1,2) ok_insert [OF tok nibs_bytes t(3)] ok(3,4) s b(2,3) P] by blast
  have "updateNode x L key v rest (map (dnode x) path) s = saveStack x L ?k (map (dnode x) (butlast path) @ ns) ops s"
    using stack b(1) matches_leaf_path [OF t(2) tok, of x] by (simp add: updateNode_def sx_run updated_stack_tail)
  then show ?thesis using s' by simp
qed

lemma initial_run:
  fixes s :: "'c mpt"
  assumes ok: "hash32 x" "noble_ok x" "fits x (TLeaf (bytesToNibbles key) v)" "collision_free x (encs x (TLeaf (bytesToNibbles key) v))"
    and s: "db_ok x (mpt_db s)" "mpt_hashLen s = 32" "\<not> useRootPersistence (mpt_options s)" "\<not> useNodePruning (mpt_options s)"
      "mpt_view x s (node_key x (mpt_options s) RLP_EMPTY_STRING) = None" "v \<noteq> []"
  shows "\<exists>s'. createInitialNode x L key v s = (Inr (), s') \<and> lock_permits s' = lock_permits s \<and>
    becomes x (s\<lparr>lock_permits := 1\<rparr>) (s'\<lparr>lock_permits := 1\<rparr>) (Some (TLeaf (bytesToNibbles key) v))"
proof -
  let ?t = "TLeaf (bytesToNibbles key) v" and ?o = "mpt_options s"
  let ?root = "mpt_hash x (enc x ?t)"
  have ser: "serialize (LeafMPTNode (bytesToNibbles key) (RBytes v)) = Inr (enc x ?t)" by (rule serialize_for) simp
  define s1 where "s1 = s\<lparr>mpt_root := ?root\<rparr>"
  have root: "set_root ?root s = (Inr (), s1)" using ok(1) s(2) by (simp add: set_root_def s1_def hash32_def mpt_hash_def)
  obtain d where d: "db_put x L (node_key x ?o (enc x ?t)) (enc x ?t) (mpt_db s) = (Inr (), d)" "db_ok x d"
    "cd_view x d = (mpt_view x s)(node_key x ?o (enc x ?t) \<mapsto> enc x ?t)" "cd_saved x d = cd_saved x (mpt_db s)"
    using db_put_run [OF s(1) ok(2)] by blast
  define s2 where "s2 = s1\<lparr>mpt_db := d\<rparr>"
  have run: "createInitialNode x L key v s = (Inr (), s2)"
    using d(1) s(3) by (simp add: createInitialNode_def sx_run ser root on_db_def node_key_def [symmetric] persistRoot_def Let_def)
       (simp add: s2_def s1_def node_key_def on_db_def)
  have "?root \<noteq> EMPTY_TRIE_ROOT x" "node_key x ?o (enc x ?t) \<noteq> node_key x ?o RLP_EMPTY_STRING"
    using not_empty_root [OF ok(4), of ?t] by (simp_all add: encs_def)
  then show ?thesis using run s d ok(3) 
    by (auto simp: becomes_def ready_def holds_def all_subs_def stored_in_def s2_def s1_def)
qed

theorem put_holds:
  assumes ok: "hash32 x" "noble_ok x" "ready x s" "holds x s T" "v \<noteq> []"
    and new: "T' = inserted T (bytesToNibbles (appliedKey x (mpt_options s) key)) v" "fits x T'" "collision_free x (encs x T')"
  shows "\<exists>s'. mpt_put x L key (Some v) False s = (Inr (), s') \<and> becomes x s s' (Some T')"
proof -
  let ?o = "mpt_options s"
  let ?k = "appliedKey x ?o key"
  define s1 where "s1 = s\<lparr>lock_permits := 0\<rparr>"
  have acq: "acquire s = (Inr (), s1)" using ok(3) by (simp add: acquire_def ready_def s1_def)
  have s1: "db_ok x (mpt_db s1)" "mpt_hashLen s1 = 32" "\<not> useRootPersistence (mpt_options s1)" "\<not> useNodePruning (mpt_options s1)"
    "mpt_view x s1 (node_key x (mpt_options s1) RLP_EMPTY_STRING) = None" "mpt_options s1 = ?o" "mpt_root s1 = mpt_root s" "holds x s1 T"
    "s1\<lparr>lock_permits := 1\<rparr> = s"
    using ok(3,4) by (auto simp: ready_def s1_def holds_def split: option.splits)
  have "\<exists>s'. put_value x L key ?k v s1 = (Inr (), s') \<and> lock_permits s' = 0 \<and> becomes x s (s'\<lparr>lock_permits := 1\<rparr>) (Some T')"
  proof (cases T)
    case None
    then have "T' = TLeaf (bytesToNibbles ?k) v" using new(1) by (simp add: inserted_def)
    with new(2,3) obtain s' where "createInitialNode x L ?k v s1 = (Inr (), s')" "lock_permits s' = lock_permits s1"
      "becomes x s (s'\<lparr>lock_permits := 1\<rparr>) (Some T')"
      using initial_run [of x ?k v s1 L] ok(1,2,5) s1(1-5,9) by auto
    then show ?thesis using None ok(4) s1(7) by (auto simp: put_value_def sx_run holds_def s1_def)
  next
    case (Some t)
    obtain path n rest where p: "t_path t (bytesToNibbles ?k) = (path, n, rest)" by (cases "t_path t (bytesToNibbles ?k)") auto
    have ready: "ready x (s1\<lparr>lock_permits := 1\<rparr>)" "holds x (s1\<lparr>lock_permits := 1\<rparr>) (Some t)" using ok(3,4) s1(9) Some by simp_all
    have t: "t_ok t" "mpt_root s1 = mpt_hash x (enc x t)" "fits x t" "mpt_root s1 \<noteq> EMPTY_TRIE_ROOT x"
      "mpt_view x s1 (node_key x ?o (enc x t)) = Some (enc x t)" "all_subs (stored_in x ?o (mpt_view x s1)) t"
      using s1(6,8) Some by (auto simp: holds_def)
    obtain s2 where s2: "mpt_same x s1 s2" "findPath x L ?k True s1 =
        (Inr \<lparr>path_node = map_option (dnode x) n, path_remaining = rest, path_stack = map (dnode x) path\<rparr>, s2)"
      using findPath_general [OF ok(1) s1(1) t(1,2), where whole = True and L = L and key = ?k] t(3,5,6) s1(6) p agrees_stored
        all_stored_path [OF t(1), of x s1] by (auto simp: all_subs_def)
    then have find: "findPath x L ?k False s1 =
        (Inr \<lparr>path_node = map_option (dnode x) n, path_remaining = rest, path_stack = map (dnode x) path\<rparr>, s2)"
      using findPath_lenient by blast
    have s2': "db_ok x (mpt_db s2)" "mpt_hashLen s2 = 32" "\<not> useRootPersistence (mpt_options s2)" "\<not> useNodePruning (mpt_options s2)"
      "mpt_view x s2 (node_key x (mpt_options s2) RLP_EMPTY_STRING) = None" "mpt_options s2 = ?o"
      using s2(1) s1 by (auto simp: mpt_same_def)
    have "holds x s2 (Some t)" using holds_same [OF s2(1)] s1(8) Some by simp
    moreover have T': "T' = t_insert (bytesToNibbles ?k) v t" using new(1) Some by (simp add: inserted_def)
    ultimately obtain s3 where s3: "updateNode x L ?k v rest (map (dnode x) path) s2 = (Inr (), s3)" "lock_permits s3 = lock_permits s2"
      "becomes x (s2\<lparr>lock_permits := 1\<rparr>) (s3\<lparr>lock_permits := 1\<rparr>) (Some T')"
      using update_run [OF ok(1,2) _ _ s2'(1-5) _ p ok(5), of L] new(2,3) by auto
    have "put_value x L key ?k v s1 = (Inr (), s3)"
      using t(4) find s2'(4,6) s3 by (simp add: put_value_def sx_run replaced_ops_def) (simp add: becomes_def)
    moreover have "becomes x s (s3\<lparr>lock_permits := 1\<rparr>) (Some T')" "lock_permits s3 = 0"
      using s3 s2(1) by (auto simp: becomes_def mpt_same_def s1_def)
    ultimately show ?thesis by blast
  qed
  then obtain s4 where s4: "put_value x L key ?k v s1 = (Inr (), s4)" "lock_permits s4 = 0" "becomes x s (s4\<lparr>lock_permits := 1\<rparr>) (Some T')" by blast
  have "ready x (s4\<lparr>lock_permits := 1\<rparr>)" using s4(3) by (simp add: becomes_def)
  then have "\<not> useRootPersistence (mpt_options s4)" by (simp add: ready_def)
  then have "mpt_put x L key (Some v) False s = (Inr (), s4\<lparr>lock_permits := 1\<rparr>)"
    using acq s4 ok(3,5) by (simp add: mpt_put_def sx_run persistRoot_def release_def Let_def ready_def)
  then show ?thesis using s4(3) by blast
qed

section \<open>Deleting\<close>

text \<open>Without values on branches, as when no key is a prefix of another. (A value on a branch is never deleted,
  and a collapse loses it: the lemmas at the end of the theory TrieLaws.)\<close>

fun no_values :: "trie \<Rightarrow> bool" where
  "no_values (TLeaf k v) \<longleftrightarrow> True"
| "no_values (TExt k t) \<longleftrightarrow> no_values t"
| "no_values (TBranch cs v) \<longleftrightarrow> v = None \<and> (\<forall>c\<in>set cs. case c of None \<Rightarrow> True | Some t \<Rightarrow> no_values t)"

lemma no_values_child: "no_values (TBranch cs v) \<Longrightarrow> i < length cs \<Longrightarrow> cs ! i = Some t \<Longrightarrow> no_values t"
  using nth_mem [of i cs] by (auto simp del: nth_mem)

definition joined :: "nibbles \<Rightarrow> nat \<Rightarrow> mpt_node \<Rightarrow> mpt_node list \<Rightarrow> nibbles \<times> mpt_node list" where
  "joined key j cn ns = processBranch key j cn (pop_node ns) (butlast ns)"

lemma joined_cons: "ns \<noteq> [] \<or> is_branch n \<Longrightarrow> joined (q @ key) j cn (n # ns) = (case joined key j cn ns of (k1, st) \<Rightarrow> (q @ k1, n # st))"
  by (cases ns rule: rev_cases; cases n)
     (auto simp: joined_def processBranch_def pop_node_def is_branch_def butlast_append Let_def split: mpt_node.split sum.split)

lemma join_join: "c \<noteq> [] \<Longrightarrow> t_join k (t_join c t) = t_join (k @ c) t"
  by (cases t) (auto simp: t_join_def t_ext_def)

lemma joined_builds:
  assumes "\<And>u. u \<in> subs c \<Longrightarrow> P u"
  shows "builds x P (snd (joined q j (dnode x c) (if q = [] then [] else [ExtensionMPTNode q r])))
    (fst (joined q j (dnode x c) (if q = [] then [] else [ExtensionMPTNode q r]))) (t_join (q @ [j]) c)"
proof (cases c)
  case (TLeaf k v)
  then show ?thesis using builds_last [of x "LeafMPTNode (q @ j # k) (RBytes v)" "TLeaf (q @ j # k) v" P]
    by (cases "q = []") (simp_all add: joined_def processBranch_def pop_node_def dnode_def t_join_def own_key_def)
next
  case (TExt k u)
  then have "u' \<in> subs (TExt (q @ j # k) u) \<Longrightarrow> u' \<noteq> TExt (q @ j # k) u \<Longrightarrow> P u'" for u' using assms by auto
  then show ?thesis using TExt builds_last [of x "ExtensionMPTNode (q @ j # k) (node_ref x u)" "TExt (q @ j # k) u" P]
    by (cases "q = []") (simp_all add: joined_def processBranch_def pop_node_def dnode_def t_join_def own_key_def)
next
  case (TBranch cs v)
  have "builds x P [dnode x c] (own_key c) c" using assms by (intro builds_last) auto
  from builds_ext [OF this, of "q @ [j]"] show ?thesis using TBranch
    by (cases "q = []") (simp_all add: joined_def processBranch_def pop_node_def dnode_def t_join_def own_key_def t_ext_def)
qed

inductive_cases builds_branchE: "builds x P (BranchMPTNode bs w # ns) ks t"

lemma only_child_update: "only_child (cs[i := None]) = Some (j, c) \<Longrightarrow> j < length cs \<and> cs ! j = Some c"
  using only_child_Some [of "cs[i := None]" j c] by (cases "j = i") (auto simp: nth_list_update_eq)

lemma builds_branch_head: "builds x P (n # ns) ks t \<Longrightarrow> is_branch n \<Longrightarrow> is_tbranch t"
  by (cases n) (auto elim: builds_branchE simp: is_branch_def is_tbranch_def)

lemma only_child_children: "only_child cs \<noteq> None \<longleftrightarrow> children cs = 1"
proof
  assume "only_child cs \<noteq> None"
  then have "length (filter (\<lambda>p. snd p \<noteq> None) (zip [0..<length cs] cs)) = 1"
    by (auto simp: only_child_def split: list.splits prod.splits option.splits)
  then show "children cs = 1" using filled_slots [of "[0..<length cs]" cs] by simp
qed (use only_child_None in blast)

text \<open>The stack that deletion saves, for the branch that loses its entry \<open>i\<close>.\<close>

definition del_builds :: "externals \<Rightarrow> trie \<Rightarrow> trie list \<Rightarrow> trie option list \<Rightarrow> nat \<Rightarrow> nibbles \<Rightarrow> trie \<Rightarrow> bool" where
  "del_builds x t path0 cs i kp t' \<longleftrightarrow> (case only_child (cs[i := None]) of
       None \<Rightarrow> builds x (\<lambda>u. u \<in> subs t) (map (dnode x) path0 @ [BranchMPTNode ((map (slot x) cs)[i := RNull]) (opt_bytes None)]) kp t'
     | Some (j, c) \<Rightarrow> (case joined kp j (dnode x c) (map (dnode x) path0) of (k1, st) \<Rightarrow> builds x (\<lambda>u. u \<in> subs t) st k1 t'))"

lemma del_builds_base:
  assumes "i < length cs"
  shows "del_builds x (TBranch cs None) [] cs i [] (t_collapse (cs[i := None]) None)"
proof (cases "only_child (cs[i := None])")
  case None
  let ?t = "TBranch (cs[i := None]) None"
  have "builds x (\<lambda>u. u \<in> subs (TBranch cs None)) [BranchMPTNode ((map (slot x) cs)[i := RNull]) (opt_bytes None)] (own_key ?t) ?t"
  proof (rule builds_last)
    have "list_all2 (\<lambda>b c. encode b = encode (slot x c)) ((map (slot x) cs)[i := RNull]) (cs[i := None])"
      by (rule slot_update [OF _ null_slot]) (simp add: list_all2_map1 list_all2_same)
    then show "node_for x (BranchMPTNode ((map (slot x) cs)[i := RNull]) (opt_bytes None)) ?t" by simp
  next
    fix u assume "u \<in> subs ?t" "u \<noteq> ?t"
    then obtain j c where j: "j < length cs" "cs[i := None] ! j = Some c" "u \<in> subs c" using child_of_subs [of u "cs[i := None]" None] by auto
    then have "cs ! j = Some c" by (cases "j = i") auto
    then show "u \<in> subs (TBranch cs None)" using child_subs [of cs j c None] j by blast
  qed
  then show ?thesis using None by (simp add: del_builds_def t_collapse_def own_key_def)
next
  case (Some p)
  then obtain j c where p: "only_child (cs[i := None]) = Some (j, c)" by (cases p) auto
  then have "j < length cs" "cs ! j = Some c" using only_child_update [OF p] by simp_all
  then have "u \<in> subs c \<Longrightarrow> u \<in> subs (TBranch cs None)" for u using child_subs by blast
  from joined_builds [of c "\<lambda>u. u \<in> subs (TBranch cs None)" x "[]" j, OF this] show ?thesis
    using p by (auto simp: del_builds_def t_collapse_def split: prod.split)
qed

lemma del_builds_ext:
  assumes "del_builds x t path0 cs i kp t'" "path0 = [] \<longrightarrow> kp = [] \<and> t = TBranch cs None \<and> t' = t_collapse (cs[i := None]) None"
    "path0 \<noteq> [] \<longrightarrow> hd path0 = t" "is_tbranch t" "k \<noteq> []" "i < length cs"
  shows "del_builds x (TExt k t) (TExt k t # path0) cs i (k @ kp) (t_join k t')"
proof -
  have branch: "is_branch (dnode x t)" using assms(4) by (auto simp: is_tbranch_def is_branch_def dnode_def split: trie.splits)
  have join: "builds x (\<lambda>u. u \<in> subs (TExt k t)) (ExtensionMPTNode k (node_ref x t) # ns) (k @ k1) (t_join k t')"
    if "builds x (\<lambda>u. u \<in> subs t) ns k1 t'" "is_branch (hd ns)" for ns k1
  proof -
    have "is_tbranch t'" using that builds_nonempty [OF that(1)] builds_branch_head by (cases ns) auto
    then have "t_join k t' = TExt k t'" using assms(5) by (auto simp: t_join_def t_ext_def is_tbranch_def split: trie.splits)
    moreover have "builds x (\<lambda>u. u \<in> subs (TExt k t)) ns k1 t'" by (rule builds_mono [OF that(1)]) auto
    ultimately show ?thesis using builds_ext by fastforce
  qed
  show ?thesis
  proof (cases "only_child (cs[i := None])")
    case None
    let ?ns = "map (dnode x) path0 @ [BranchMPTNode ((map (slot x) cs)[i := RNull]) (opt_bytes None)]"
    have "is_branch (hd ?ns)" using assms(3) branch by (cases path0) (auto simp: is_branch_def)
    then show ?thesis using join [of ?ns kp] assms(1) None by (simp add: del_builds_def dnode_ext)
  next
    case (Some p)
    then obtain j c where p: "only_child (cs[i := None]) = Some (j, c)" by (cases p) auto
    obtain k1 st where st: "joined kp j (dnode x c) (map (dnode x) path0) = (k1, st)" by fastforce
    show ?thesis
    proof (cases path0)
      case Nil
      then have t: "kp = []" "t = TBranch cs None" "t' = t_collapse (cs[i := None]) None" using assms(2) by auto
      have t': "t' = t_join [j] c" using p t(3) by (auto simp: t_collapse_def)
      have "j < length cs" "cs ! j = Some c" using only_child_update [OF p] by simp_all
      then have "u \<in> subs c \<Longrightarrow> u \<in> subs (TExt k t)" for u using child_subs [of cs j c None] t(2) by auto
      from joined_builds [of c "\<lambda>u. u \<in> subs (TExt k t)" x k j "node_ref x t", OF this] show ?thesis
        using p Nil t' assms(5) by (auto simp: del_builds_def join_join dnode_ext t(1) split: prod.split)
    next
      case (Cons t0 path1)
      then have "is_branch (dnode x t0)" using assms(3) branch by simp
      then obtain k2 st2 where st2: "joined kp j (dnode x c) (map (dnode x) path0) = (k2, dnode x t0 # st2)"
        using joined_cons [of "map (dnode x) path1" "dnode x t0" "[]" kp j "dnode x c"] Cons
        by (auto split: prod.splits)
      then have "builds x (\<lambda>u. u \<in> subs t) (dnode x t0 # st2) k2 t'" using assms(1) p by (simp add: del_builds_def)
      from join [OF this] st2 show ?thesis using p Cons \<open>is_branch (dnode x t0)\<close>
        joined_cons [of "map (dnode x) path0" "dnode x (TExt k t)" k kp j "dnode x c"]
        by (simp add: del_builds_def dnode_ext)
    qed
  qed
qed

lemma del_builds_branch:
  assumes "del_builds x t path0 cs i kp t'" "m < length ds" "ds ! m = Some t"
  shows "del_builds x (TBranch ds v) (TBranch ds v # path0) cs i (m # kp) (TBranch (ds[m := Some t']) v)"
proof -
  have step: "builds x (\<lambda>u. u \<in> subs (TBranch ds v)) (dnode x (TBranch ds v) # ns) (m # k1) (TBranch (ds[m := Some t']) v)"
    if "builds x (\<lambda>u. u \<in> subs t) ns k1 t'" for ns k1
  proof -
    have "builds x (\<lambda>u. u \<in> subs (TBranch ds v)) ns k1 t'"
      using child_subs [OF assms(3,2), of v] by (intro builds_mono [OF that]) auto
    then show ?thesis unfolding dnode_branch
    proof (rule builds_branch)
      fix j c s assume "j < length (ds[m := Some t'])" "j \<noteq> m" "ds[m := Some t'] ! j = Some c" "s \<in> subs c"
      then show "s \<in> subs (TBranch ds v)" using child_subs [of ds j c v] by auto
    qed (use assms(2) in auto)
  qed
  have "is_branch (dnode x (TBranch ds v))" by (simp add: dnode_branch is_branch_def)
  from joined_cons [OF disjI2 [OF this], of "[m]" kp] show ?thesis
    using assms(1) step by (auto simp: del_builds_def simp del: subs.simps split: option.splits prod.splits)
qed

lemma path_end: "t_path t ks = (path, Some l, rest) \<Longrightarrow> last path = l"
proof (induction t ks arbitrary: path rule: t_path.induct)
  case (2 k t ks)
  then show ?case by (auto dest: path_nonempty split: if_splits prod.splits)
next
  case (4 cs v i ks)
  then show ?case by (auto dest: path_nonempty split: if_splits prod.splits option.splits)
qed (auto split: if_splits)

theorem delete_builds:
  "t_ok t \<Longrightarrow> no_values t \<Longrightarrow> t_path t ks = (path, Some (TLeaf k v), rest) \<Longrightarrow> t \<noteq> TLeaf k v \<Longrightarrow>
    \<exists>path0 cs i kp. path = path0 @ [TBranch cs None, TLeaf k v] \<and> ks = kp @ i # k \<and> i < length cs \<and> length cs = 16
      \<and> cs ! i = Some (TLeaf k v) \<and> TBranch cs None \<in> subs t \<and> (path0 \<noteq> [] \<longrightarrow> hd path0 = t)
      \<and> (path0 = [] \<longrightarrow> kp = [] \<and> t = TBranch cs None \<and> the (t_delete ks t) = t_collapse (cs[i := None]) None)
      \<and> del_builds x t path0 cs i kp (the (t_delete ks t))"
proof (induction t ks arbitrary: path rule: t_path.induct)
  case (1 k' w ks)
  then show ?case by (auto split: if_splits)
next
  case (2 k' t ks)
  then have True: "take (length k') ks = k'" by (auto split: if_splits)
  have t: "t_ok t" "is_tbranch t" "no_values t" "k' \<noteq> []" using 2(2,3) by auto
  then have "t \<noteq> TLeaf k v" by (auto simp: is_tbranch_def)
  obtain path' where p: "t_path t (drop (length k') ks) = (path', Some (TLeaf k v), rest)" "path = TExt k' t # path'"
    using 2(4) True by (auto split: prod.splits)
  obtain path0 cs i kp where IH: "path' = path0 @ [TBranch cs None, TLeaf k v]" "drop (length k') ks = kp @ i # k" "i < length cs"
    "length cs = 16" "cs ! i = Some (TLeaf k v)" "TBranch cs None \<in> subs t" "path0 \<noteq> [] \<longrightarrow> hd path0 = t"
    "path0 = [] \<longrightarrow> kp = [] \<and> t = TBranch cs None \<and> the (t_delete (drop (length k') ks) t) = t_collapse (cs[i := None]) None"
    "del_builds x t path0 cs i kp (the (t_delete (drop (length k') ks) t))"
    using 2(1) [OF True t(1,3) p(1) \<open>t \<noteq> TLeaf k v\<close>] by blast
  obtain t' where t': "t_delete (drop (length k') ks) t = Some t'" using delete_shape [OF t(2)] by blast
  have "del_builds x (TExt k' t) (TExt k' t # path0) cs i (k' @ kp) (t_join k' t')"
    using del_builds_ext [OF IH(9) IH(8) IH(7) t(2,4) IH(3)] t' by simp
  moreover have "ks = (k' @ kp) @ i # k" using True IH(2) take_drop_prefix [of k' ks] by auto
  moreover have "path = (TExt k' t # path0) @ [TBranch cs None, TLeaf k v]" using p(2) IH(1) by simp
  moreover have "the (t_delete ks (TExt k' t)) = t_join k' t'" using True t' by simp
  ultimately show ?case using IH(3-6) by (intro exI [of _ "TExt k' t # path0"] exI [of _ cs] exI [of _ i] exI [of _ "k' @ kp"]) simp
next
  case (4 ds w m ks)
  then have m: "m < length ds" and w: "w = None" by (auto split: if_splits)
  obtain t where t: "ds ! m = Some t" using 4(4) m by (cases "ds ! m") auto
  have tok: "t_ok t" "no_values t" using ok_child [OF 4(2) m t] no_values_child [OF 4(3) m t] by auto
  obtain path' where p: "t_path t ks = (path', Some (TLeaf k v), rest)" "path = TBranch ds w # path'"
    using 4(4) m t by (auto split: prod.splits)
  show ?case
  proof (cases "t = TLeaf k v")
    case True
    then have "ks = k" "path' = [TLeaf k v]" using p(1) by (auto split: if_splits)
    moreover have "del_builds x (TBranch ds None) [] ds m [] (t_collapse (ds[m := None]) None)" by (rule del_builds_base [OF m])
    ultimately show ?thesis using p(2) m t True w 4(2)
      by (intro exI [of _ "[]"] exI [of _ ds] exI [of _ m] exI [of _ "[]"]) simp
  next
    case False
    obtain path0 cs i kp where IH: "path' = path0 @ [TBranch cs None, TLeaf k v]" "ks = kp @ i # k" "i < length cs"
      "length cs = 16" "cs ! i = Some (TLeaf k v)" "TBranch cs None \<in> subs t" "path0 = [] \<longrightarrow> kp = [] \<and> t = TBranch cs None"
      "del_builds x t path0 cs i kp (the (t_delete ks t))"
      using 4(1) [OF m t tok p(1) False] by blast
    have "t_delete ks t \<noteq> None" using delete_ok [OF tok(1), of ks] False p(1) by (auto split: option.splits if_splits)
    then obtain t' where t': "t_delete ks t = Some t'" by blast
    have "del_builds x (TBranch ds w) (TBranch ds w # path0) cs i (m # kp) (TBranch (ds[m := Some t']) w)"
      using del_builds_branch [OF IH(8) m t] t' by simp
    moreover have "the (t_delete (m # ks) (TBranch ds w)) = TBranch (ds[m := Some t']) w" using m t t' by simp
    moreover have "TBranch cs None \<in> subs (TBranch ds w)" using IH(6) child_subs [OF t m] by blast
    ultimately show ?thesis using IH(1-5) p(2)
      by (intro exI [of _ "TBranch ds w # path0"] exI [of _ cs] exI [of _ i] exI [of _ "m # kp"]) (simp del: subs.simps t_delete.simps)
  qed
qed (auto split: if_splits)

section \<open>del\<close>

lemma filter_indices: "filter (\<lambda>p. snd p \<noteq> None) (zip [0..<length ds] ds) = map (\<lambda>i. (i, ds ! i)) (filter (\<lambda>i. ds ! i \<noteq> None) [0..<length ds])"
proof -
  have "zip [0..<length ds] ds = map (\<lambda>i. (i, ds ! i)) [0..<length ds]" by (rule nth_equalityI) auto
  then show ?thesis by (simp add: filter_map o_def)
qed

lemma children_of_cut:
  assumes "hash32 x" "length cs = 16" "i < 16"
  shows "getChildren ((map (slot x) cs)[i := RNull]) =
    map (\<lambda>j. (j, node_ref x (the (cs[i := None] ! j)))) (filter (\<lambda>j. cs[i := None] ! j \<noteq> None) [0..<16])"
proof -
  have s: "(map (slot x) cs)[i := RNull] ! j = (if j = i then RNull else slot x (cs ! j))" if "j < 16" for j
    using assms that by (auto simp: nth_list_update)
  have ne: "nonempty ((map (slot x) cs)[i := RNull] ! j) \<longleftrightarrow> cs[i := None] ! j \<noteq> None" if "j < 16" for j
    using s [OF that] that assms data_input_nonempty by (auto simp: nth_list_update slot_def hash32_def split: option.splits)
  have "getChildren ((map (slot x) cs)[i := RNull]) = map (\<lambda>j. (j, (map (slot x) cs)[i := RNull] ! j))
      (filter (\<lambda>j. nonempty ((map (slot x) cs)[i := RNull] ! j)) [0..<16])"
    by (simp add: getChildren_def filter_map o_def)
  also have "filter (\<lambda>j. nonempty ((map (slot x) cs)[i := RNull] ! j)) [0..<16] = filter (\<lambda>j. cs[i := None] ! j \<noteq> None) [0..<16]"
    using ne by (intro filter_cong) auto
  also have "map (\<lambda>j. (j, (map (slot x) cs)[i := RNull] ! j)) (filter (\<lambda>j. cs[i := None] ! j \<noteq> None) [0..<16])
      = map (\<lambda>j. (j, node_ref x (the (cs[i := None] ! j)))) (filter (\<lambda>j. cs[i := None] ! j \<noteq> None) [0..<16])"
    using s assms by (intro map_cong) (auto simp: nth_list_update slot_def)
  finally show ?thesis .
qed

lemma one_child:
  assumes "hash32 x" "length cs = 16" "i < 16"
  shows "only_child (cs[i := None]) = Some (j, c) \<Longrightarrow> getChildren ((map (slot x) cs)[i := RNull]) = [(j, node_ref x c)]"
    "only_child (cs[i := None]) = None \<Longrightarrow> length (getChildren ((map (slot x) cs)[i := RNull])) \<noteq> 1"
proof -
  let ?f = "filter (\<lambda>j. cs[i := None] ! j \<noteq> None) [0..<16]"
  note z = filter_indices [of "cs[i := None]"]
  show "getChildren ((map (slot x) cs)[i := RNull]) = [(j, node_ref x c)]" if "only_child (cs[i := None]) = Some (j, c)"
  proof -
    have "filter (\<lambda>p. snd p \<noteq> None) (zip [0..<length (cs[i := None])] (cs[i := None])) = [(j, Some c)]"
      using that by (auto simp: only_child_def split: list.splits prod.splits option.splits)
    then have "map (\<lambda>i'. (i', cs[i := None] ! i')) ?f = [(j, Some c)]" using z assms(2) by simp
    then have "?f = [j]" "cs[i := None] ! j = Some c" by (auto simp: map_eq_Cons_conv)
    then show ?thesis using children_of_cut [OF assms] by simp
  qed
  show "length (getChildren ((map (slot x) cs)[i := RNull])) \<noteq> 1" if "only_child (cs[i := None]) = None"
  proof -
    have "length ?f = children (cs[i := None])"
      using z filled_slots [of "[0..<length (cs[i := None])]" "cs[i := None]"] assms(2) by simp
    then show ?thesis using only_child_None [OF that] children_of_cut [OF assms] by simp
  qed
qed

lemma detach_leaf:
  assumes "\<not> useNodePruning opts" "i < length bs"
  shows "detach x opts (kp @ i # k) (LeafMPTNode k (RBytes v)) (BranchMPTNode bs w) st =
    Inr (BranchMPTNode (bs[i := RNull]) w, pop_node st, butlast st, kp, [])"
proof -
  obtain r where r: "formatNode x opts (LeafMPTNode k (RBytes v)) False True = Inr (r, [])"
    using format_remove [OF assms(1), of x "LeafMPTNode k (RBytes v)" "TLeaf k v"] by auto
  have "splice_from (kp @ i # k) (int (length (kp @ i # k)) - int (length k)) = kp @ [i]"
    using splice_end [of "kp @ [i]" k] by simp
  then show ?thesis using r assms(2) by (simp add: detach_def is_branch_def pop_key_def array_set_def)
qed

text \<open>A stack whose other subtries are those of the trie in the database.\<close>

lemma save_kept:
  fixes s :: "'c mpt"
  assumes ok: "hash32 x" "noble_ok x"
    and s: "db_ok x (mpt_db s)" "mpt_hashLen s = 32" "\<not> useRootPersistence (mpt_options s)" "\<not> useNodePruning (mpt_options s)"
      "mpt_view x s (node_key x (mpt_options s) RLP_EMPTY_STRING) = None"
    and t: "holds x s (Some t)" and t': "t_ok t'" "fits x t'" "collision_free x (encs x t')"
    and b: "builds x (\<lambda>u. u \<in> subs t) st k1 t'" and same: "mpt_same x s s1"
  shows "\<exists>s'. saveStack x L k1 st [] s1 = (Inr (), s') \<and> lock_permits s' = lock_permits s \<and>
      becomes x (s\<lparr>lock_permits := 1\<rparr>) (s'\<lparr>lock_permits := 1\<rparr>) (Some t')"
proof -
  have s1: "db_ok x (mpt_db s1)" "mpt_hashLen s1 = 32" "\<not> useRootPersistence (mpt_options s1)" "\<not> useNodePruning (mpt_options s1)"
    "mpt_view x s1 (node_key x (mpt_options s1) RLP_EMPTY_STRING) = None" using same s by (auto simp: mpt_same_def)
  have "u \<in> subs t \<Longrightarrow> 32 \<le> length (enc x u) \<Longrightarrow> mpt_view x s1 (node_key x (mpt_options s1) (enc x u)) = Some (enc x u)" for u
    using holds_same [OF same t] by (auto simp: holds_def all_subs_def stored_in_def)
  then obtain s' where "saveStack x L k1 st [] s1 = (Inr (), s')" "lock_permits s' = lock_permits s1"
    "becomes x (s1\<lparr>lock_permits := 1\<rparr>) (s'\<lparr>lock_permits := 1\<rparr>) (Some t')"
    using saveStack_run [OF ok t' s1 b, of "[]" L] by auto
  then show ?thesis using same by (auto simp: mpt_same_def becomes_def)
qed

lemma deleteNode_run:
  fixes s :: "'c mpt"
  assumes ok: "hash32 x" "noble_ok x"
    and s: "db_ok x (mpt_db s)" "mpt_hashLen s = 32" "\<not> useRootPersistence (mpt_options s)" "\<not> useNodePruning (mpt_options s)"
      "mpt_view x s (node_key x (mpt_options s) RLP_EMPTY_STRING) = None"
    and t: "holds x s (Some t)" "no_values t" "t_path t (bytesToNibbles key) = (path, Some (TLeaf k v), rest)"
    and new: "T' = t_delete (bytesToNibbles key) t" "\<And>t'. T' = Some t' \<Longrightarrow> fits x t' \<and> collision_free x (encs x t')"
  shows "\<exists>s'. deleteNode x L key (map (dnode x) path) s = (Inr (), s') \<and> lock_permits s' = lock_permits s \<and>
    becomes x (s\<lparr>lock_permits := 1\<rparr>) (s'\<lparr>lock_permits := 1\<rparr>) T'"
proof (cases "t = TLeaf k v")
  case True
  then have p: "path = [TLeaf k v]" "T' = None" using t(3) new(1) by (auto split: if_splits)
  have "length (EMPTY_TRIE_ROOT x) = 32" using ok(1) by (simp add: EMPTY_TRIE_ROOT_def mpt_hash_def hash32_def)
  then show ?thesis using p s by (auto simp: deleteNode_def pop_node_def set_root_def becomes_def ready_def holds_def)
next
  case False
  let ?ks = "bytesToNibbles key" and ?o = "mpt_options s"
  have tok: "t_ok t" using t(1) by (simp add: holds_def)
  obtain path0 cs i kp where d: "path = path0 @ [TBranch cs None, TLeaf k v]" "?ks = kp @ i # k" "i < length cs" "length cs = 16"
    "cs ! i = Some (TLeaf k v)" "TBranch cs None \<in> subs t" "del_builds x t path0 cs i kp (the (t_delete ?ks t))"
    using delete_builds [OF tok t(2,3) False, of x] by blast
  obtain t' where t': "t_delete ?ks t = Some t'" using delete_ok [OF tok, of ?ks] False t(3) by (auto split: option.splits if_splits)
  then have T': "T' = Some t'" "t_ok t'" "fits x t'" "collision_free x (encs x t')" using new delete_ok [OF tok, of ?ks] by auto
  let ?bs = "map (slot x) cs" and ?ns = "map (dnode x) path0"
  have stack: "pop_node (map (dnode x) path) = Some (LeafMPTNode k (RBytes v))"
    "pop_node (butlast (map (dnode x) path)) = Some (BranchMPTNode ?bs (opt_bytes None))"
    "butlast (butlast (map (dnode x) path)) = ?ns"
    by (simp_all add: d(1) pop_node_def butlast_append dnode_def)
  have cut: "detach x ?o ?ks (LeafMPTNode k (RBytes v)) (BranchMPTNode ?bs (opt_bytes None)) ?ns =
      Inr (BranchMPTNode (?bs[i := RNull]) (opt_bytes None), pop_node ?ns, butlast ?ns, kp, [])"
    using detach_leaf [OF s(4), of i ?bs x kp k v "opt_bytes None" ?ns] d(2,3) by simp
  note save = save_kept [OF ok s t(1) T'(2-4), where L = L, folded T'(1)]
  show ?thesis
  proof (cases "only_child (cs[i := None])")
    case None
    have "builds x (\<lambda>u. u \<in> subs t) (?ns @ [BranchMPTNode (?bs[i := RNull]) (opt_bytes None)]) kp t'"
      using d(7) None t' by (simp add: del_builds_def)
    from save [OF this mpt_same_refl [OF s(1)]] obtain s' where s': "saveStack x L kp (?ns @ [BranchMPTNode (?bs[i := RNull]) (opt_bytes None)]) [] s = (Inr (), s')"
      "lock_permits s' = lock_permits s" "becomes x (s\<lparr>lock_permits := 1\<rparr>) (s'\<lparr>lock_permits := 1\<rparr>) T'" by blast
    have snoc: "butlast ?ns @ (case pop_node ?ns of None \<Rightarrow> [] | Some p \<Rightarrow> [p]) @ ys = ?ns @ ys" for ys
      by (cases path0 rule: rev_cases) (simp_all add: pop_node_def)
    have "deleteNode x L key (map (dnode x) path) s = saveStack x L kp (?ns @ [BranchMPTNode (?bs[i := RNull]) (opt_bytes None)]) [] s"
      using stack cut one_child(2) [OF ok(1) d(4) _ None] d(3,4) by (simp add: deleteNode_def sx_run Let_def snoc)
    then show ?thesis using s' by simp
  next
    case (Some p)
    then obtain j c where p: "only_child (cs[i := None]) = Some (j, c)" by (cases p) auto
    have jc: "j < length cs" "cs ! j = Some c" using only_child_update [OF p] by simp_all
    then have c: "c \<in> subs t" using child_subs [OF jc(2,1), of None] subs_trans [OF d(6)] self_sub [of c] by blast
    then have "t_ok c" "length (enc x c) < 2 ^ 64" "stored_in x ?o (mpt_view x s) c"
      using subs_ok [OF tok] t(1) by (auto simp: holds_def fits_def all_subs_def)
    then obtain s1 where s1: "mpt_same x s s1" "lookupNode x L (node_ref x c) s = (Inr (dnode x c), s1)"
      using lookup_ref [OF s(1) agrees_stored, of c] by metis
    obtain k1 st where st: "joined kp j (dnode x c) ?ns = (k1, st)" by fastforce
    then have "builds x (\<lambda>u. u \<in> subs t) st k1 t'" using d(7) p t' by (simp add: del_builds_def)
    from save [OF this s1(1)] obtain s' where s': "saveStack x L k1 st [] s1 = (Inr (), s')"
      "lock_permits s' = lock_permits s" "becomes x (s\<lparr>lock_permits := 1\<rparr>) (s'\<lparr>lock_permits := 1\<rparr>) T'" by blast
    have "deleteNode x L key (map (dnode x) path) s = saveStack x L k1 st [] s1"
      using stack cut one_child(1) [OF ok(1) d(4) _ p] d(3,4) s(4) s1(2) st
      by (simp add: deleteNode_def sx_run Let_def pruned_child_def joined_def)
    then show ?thesis using s' by simp
  qed
qed

text \<open>What a deletion leaves: the trie itself when the walk finds no node.\<close>

definition deleted :: "trie option \<Rightarrow> nibbles \<Rightarrow> trie option" where
  "deleted T ks = (case T of None \<Rightarrow> None | Some t \<Rightarrow> if fst (snd (t_path t ks)) = None then T else t_delete ks t)"

definition ends_at_branch :: "trie \<Rightarrow> nibbles \<Rightarrow> bool" where
  "ends_at_branch t ks \<longleftrightarrow> (\<exists>cs v. fst (snd (t_path t ks)) = Some (TBranch cs v))"

lemma deleted_content: "(case T of None \<Rightarrow> True | Some t \<Rightarrow> t_ok t) \<Longrightarrow> content (deleted T ks) = (content T)(ks := None)"
proof (cases T)
  case (Some t)
  assume a: "case T of None \<Rightarrow> True | Some t \<Rightarrow> t_ok t"
  then have t: "t_ok t" using Some by simp
  obtain path n rest where p: "t_path t ks = (path, n, rest)" by (cases "t_path t ks") auto
  show ?thesis
  proof (cases "n = None")
    case True
    then have "t_lookup t ks = None" using path_lookup [OF p t] by simp
    then show ?thesis using Some p True by (auto simp: deleted_def content_def)
  next
    case False
    then show ?thesis using Some p delete_ok [OF t, of ks]
      by (auto simp: deleted_def content_def fun_eq_iff split: option.splits)
  qed
qed (auto simp: deleted_def content_def)

theorem del_holds:
  assumes ok: "hash32 x" "noble_ok x" "ready x s" "holds x s T"
    and key: "ks = bytesToNibbles (appliedKey x (mpt_options s) key)" "\<And>t. T = Some t \<Longrightarrow> no_values t \<and> \<not> ends_at_branch t ks"
    and new: "\<And>t'. deleted T ks = Some t' \<Longrightarrow> fits x t' \<and> collision_free x (encs x t')"
  shows "\<exists>s'. mpt_del x L key False s = (Inr (), s') \<and> becomes x s s' (deleted T ks)"
proof -
  let ?o = "mpt_options s"
  let ?k = "appliedKey x ?o key"
  define s1 where "s1 = s\<lparr>lock_permits := 0\<rparr>"
  have acq: "acquire s = (Inr (), s1)" using ok(3) by (simp add: acquire_def ready_def s1_def)
  have s1: "db_ok x (mpt_db s1)" "\<not> useNodePruning (mpt_options s1)"
    "mpt_view x s1 (node_key x (mpt_options s1) RLP_EMPTY_STRING) = None" "mpt_options s1 = ?o" "mpt_root s1 = mpt_root s" "holds x s1 T"
    "s1\<lparr>lock_permits := 1\<rparr> = s"
    using ok(3,4) by (auto simp: ready_def s1_def holds_def split: option.splits)
  have "\<exists>n path rest s2 s3. mpt_same x s1 s2 \<and> findPath x L ?k False s1 = (Inr \<lparr>path_node = n, path_remaining = rest, path_stack = path\<rparr>, s2)
     \<and> (if n \<noteq> None then deleteNode x L ?k path else returnE ()) s2 = (Inr (), s3) \<and> lock_permits s3 = 0
     \<and> becomes x s (s3\<lparr>lock_permits := 1\<rparr>) (deleted T ks)"
  proof (cases T)
    case None
    obtain s2 where s2: "mpt_same x s1 s2" "findPath x L ?k False s1 = (Inr \<lparr>path_node = None, path_remaining = [], path_stack = []\<rparr>, s2)"
      using findPath_empty [OF s1(1,3), of L ?k False] s1(6) None by (auto simp: holds_def)
    moreover have "becomes x s (s2\<lparr>lock_permits := 1\<rparr>) (deleted T ks)" "lock_permits s2 = 0"
      using s2(1) ok(3,4) None by (auto simp: becomes_def mpt_same_def ready_def holds_def deleted_def s1_def)
    ultimately show ?thesis by (intro exI [of _ None] exI [of _ "[]"] exI [of _ "[]"] exI [of _ s2]) simp
  next
    case (Some t)
    obtain path n rest where p: "t_path t ks = (path, n, rest)" by (cases "t_path t ks") auto
    have t: "t_ok t" "mpt_root s1 = mpt_hash x (enc x t)" "fits x t"
      "mpt_view x s1 (node_key x ?o (enc x t)) = Some (enc x t)" "all_subs (stored_in x ?o (mpt_view x s1)) t"
      using s1(4,6) Some by (auto simp: holds_def)
    obtain s2 where s2: "mpt_same x s1 s2" "findPath x L ?k True s1 =
        (Inr \<lparr>path_node = map_option (dnode x) n, path_remaining = rest, path_stack = map (dnode x) path\<rparr>, s2)"
      using findPath_general [OF ok(1) s1(1) t(1,2), where whole = True and L = L and key = ?k] t(3-5) s1(4) p key(1) agrees_stored
        all_stored_path [OF t(1), of x s1] by (auto simp: all_subs_def)
    then have find: "findPath x L ?k False s1 =
        (Inr \<lparr>path_node = map_option (dnode x) n, path_remaining = rest, path_stack = map (dnode x) path\<rparr>, s2)"
      using findPath_lenient by blast
    have s2': "db_ok x (mpt_db s2)" "mpt_hashLen s2 = 32" "\<not> useRootPersistence (mpt_options s2)" "\<not> useNodePruning (mpt_options s2)"
      "mpt_view x s2 (node_key x (mpt_options s2) RLP_EMPTY_STRING) = None" "holds x s2 (Some t)" "lock_permits s2 = 0"
      using s2(1) s1 ok(3) holds_same [OF s2(1) s1(6)] Some by (auto simp: mpt_same_def ready_def s1_def)
    have outer: "becomes x (s2\<lparr>lock_permits := 1\<rparr>) u T2 \<Longrightarrow> becomes x s u T2" for u T2
      using s2(1) s1(4) by (auto simp: becomes_def mpt_same_def s1_def)
    show ?thesis
    proof (cases n)
      case None
      have "becomes x s (s2\<lparr>lock_permits := 1\<rparr>) (deleted T ks)"
        using s2' None Some p by (intro outer) (auto simp: becomes_def ready_def holds_def deleted_def)
      then show ?thesis using s2(1) find None s2'(7) by auto
    next
      case n: (Some l)
      then obtain k v where l: "l = TLeaf k v"
        using key(2) [OF Some] path_lookup [OF p t(1)] p by (cases l) (auto simp: ends_at_branch_def)
      have "deleted T ks = t_delete ks t" using Some p n by (simp add: deleted_def)
      then obtain s3 where "deleteNode x L ?k (map (dnode x) path) s2 = (Inr (), s3)" "lock_permits s3 = 0"
        "becomes x (s2\<lparr>lock_permits := 1\<rparr>) (s3\<lparr>lock_permits := 1\<rparr>) (deleted T ks)"
        using deleteNode_run [OF ok(1,2) s2'(1-6), of ?k path k v rest "deleted T ks" L] key Some p n l new s2'(7) by auto
      then show ?thesis using s2(1) find n outer by auto
    qed
  qed
  then obtain n path rest s2 s3 where run: "mpt_same x s1 s2" "findPath x L ?k False s1 = (Inr \<lparr>path_node = n, path_remaining = rest, path_stack = path\<rparr>, s2)"
     "(if n \<noteq> None then deleteNode x L ?k path else returnE ()) s2 = (Inr (), s3)" "lock_permits s3 = 0"
     "becomes x s (s3\<lparr>lock_permits := 1\<rparr>) (deleted T ks)" by blast
  have "ready x (s3\<lparr>lock_permits := 1\<rparr>)" using run(5) by (simp add: becomes_def)
  then have "\<not> useRootPersistence (mpt_options s3)" by (simp add: ready_def)
  then have "mpt_del x L key False s = (Inr (), s3\<lparr>lock_permits := 1\<rparr>)"
    using acq run s1(2,4) by (cases "n = None") (simp_all add: mpt_del_def sx_run persistRoot_def release_def Let_def)
  then show ?thesis using run(5) by blast
qed

end
