(* ===== verification/MptSafety.thy ===== *)
theory MptSafety
  imports MptUpdate
begin

text \<open>
  The root hash of the Merkle Patricia trie depends on the contents only and, when the hashes do not
  collide, determines them; what Merkle proofs verify to against a root.
\<close>

section \<open>The root and the contents\<close>

lemma same_root:
  assumes "holds x s T" "holds x s' T'" "content T = content T'"
  shows "mpt_root s = mpt_root s'"
proof (cases T)
  case None
  have "T' = None"
  proof (rule ccontr)
    assume "T' \<noteq> None"
    then obtain t where "T' = Some t" by blast
    then show False using assms None has_key [of t] by (auto simp: holds_def content_def fun_eq_iff)
  qed
  then show ?thesis using assms None by (simp add: holds_def)
next
  case (Some t)
  then obtain t' where t': "T' = Some t'"
    using assms has_key [of t] by (cases T') (auto simp: holds_def content_def fun_eq_iff)
  then have "t = t'" using canonical_unique [of t t'] assms Some by (auto simp: holds_def content_def)
  then show ?thesis using assms Some t' by (simp add: holds_def)
qed

lemma data_input_inj [simp]: "data_input a = data_input b \<longleftrightarrow> a = b"
proof (induction a arbitrary: b)
  case (DList as)
  have "map data_input as = map data_input bs \<Longrightarrow> as = bs" for bs
    using DList by (induction as arbitrary: bs) (auto simp: map_eq_Cons_conv)
  then show ?case by (cases b) auto
qed (case_tac b, auto)

lemma enc_inj: "t_ok t \<Longrightarrow> t_ok t' \<Longrightarrow> length (enc x t) < 2 ^ 64 \<Longrightarrow> enc x t = enc x t' \<Longrightarrow> dnode x t = dnode x t'"
  using decode_enc [of t x] decode_enc [of t' x] by simp

lemma ref_eq:
  assumes "node_ref x t = node_ref x t'" "collision_free x (encs x t \<union> encs x t')" "t_ok t" "t_ok t'"
    "length (enc x t) < 2 ^ 64"
  shows "dnode x t = dnode x t'"
proof -
  have "enc x t \<in> encs x t \<union> encs x t'" "enc x t' \<in> encs x t \<union> encs x t'" by (simp_all add: encs_def)
  then have "mpt_hash x (enc x t) = mpt_hash x (enc x t') \<longleftrightarrow> enc x t = enc x t'" using hash_eq [OF assms(2)] by auto
  then have "enc x t = enc x t'"
    using assms(1) by (auto simp: node_ref_def ref_of_def enc_def split: if_splits)
  then show ?thesis using enc_inj assms by blast
qed

lemma slot_eq: "hash32 x \<Longrightarrow> slot x c = slot x d \<Longrightarrow> (c = None \<longleftrightarrow> d = None) \<and> (\<forall>t u. c = Some t \<longrightarrow> d = Some u \<longrightarrow> node_ref x t = node_ref x u)"
proof -
  assume x: "hash32 x" and s: "slot x c = slot x d"
  have "node_ref x t \<noteq> RBytes []" for t
  proof
    assume "node_ref x t = RBytes []"
    then show False using data_input_nonempty [of x t] x by (simp add: hash32_def)
  qed
  then show ?thesis using s by (cases c; cases d) (auto simp: slot_def dest: sym)
qed

lemma collision_free_subset: "collision_free x E \<Longrightarrow> F \<subseteq> E \<Longrightarrow> collision_free x F"
  by (auto simp: collision_free_def intro: inj_on_subset)

text \<open>Equal nodes stand for equal tries, down to the leaves, when the hashes do not collide.\<close>

lemma binding:
  assumes "hash32 x"
  shows "t_ok t \<Longrightarrow> t_ok t' \<Longrightarrow> fits x t \<Longrightarrow> collision_free x (encs x t \<union> encs x t') \<Longrightarrow> dnode x t = dnode x t' \<Longrightarrow> t = t'"
proof (induction t arbitrary: t')
  case (TLeaf k v)
  then show ?case by (cases t') (auto simp: dnode_def)
next
  case (TExt k t)
  then obtain u where u: "t' = TExt k u" "node_ref x t = node_ref x u" by (cases t') (auto simp: dnode_def)
  have cf: "collision_free x (encs x t \<union> encs x u)"
    by (rule collision_free_subset [OF TExt.prems(4)]) (auto simp: encs_def u(1))
  have "fits x t" "length (enc x t) < 2 ^ 64" using TExt.prems(3) by (auto simp: fits_def)
  then show ?case using TExt.IH [of u] ref_eq [OF u(2) cf] TExt.prems(1,2) u(1) cf by auto
next
  case (TBranch cs v)
  then obtain ds w where t': "t' = TBranch ds w" "map (slot x) cs = map (slot x) ds" "opt_bytes v = opt_bytes w"
    by (cases t') (auto simp: dnode_def)
  have len: "length cs = length ds" using arg_cong [OF t'(2), of length] by simp
  have "v = w" using t' TBranch.prems(1,2) by (auto simp: opt_bytes_def split: option.splits)
  moreover have "cs ! i = ds ! i" if i: "i < length cs" for i
  proof -
    have "slot x (cs ! i) = slot x (ds ! i)" using arg_cong [OF t'(2), of "\<lambda>xs. xs ! i"] i len by simp
    note s = slot_eq [OF assms this]
    show ?thesis
    proof (cases "cs ! i")
      case (Some t)
      then obtain u where u: "ds ! i = Some u" "node_ref x t = node_ref x u" using s by auto
      have tu: "t_ok t" "t_ok u" using ok_child [OF TBranch.prems(1) i Some] ok_child [of ds w i u] TBranch.prems(2) t'(1) u(1) i len by auto
      have sub: "subs t \<subseteq> subs (TBranch cs v)" "subs u \<subseteq> subs t'" using child_subs [OF Some i] child_subs [OF u(1)] t'(1) i len by auto
      then have cf: "collision_free x (encs x t \<union> encs x u)"
        by (intro collision_free_subset [OF TBranch.prems(4)]) (auto simp: encs_def)
      have f: "fits x t" "length (enc x t) < 2 ^ 64" using TBranch.prems(3) sub(1) self_sub [of t] unfolding fits_def by blast+
      have "cs ! i \<in> set cs" using i by simp
      then show ?thesis using TBranch.IH [of "cs ! i" t u] Some u tu cf f ref_eq [OF u(2) cf tu f(2)] by auto
    qed (use s in simp)
  qed
  ultimately show ?case using t'(1) len by (auto intro: nth_equalityI)
qed

lemma same_content:
  assumes "hash32 x" "holds x s T" "holds x s' T'" "mpt_root s = mpt_root s'"
    "collision_free x ((case T of None \<Rightarrow> {} | Some t \<Rightarrow> encs x t) \<union> (case T' of None \<Rightarrow> {} | Some t \<Rightarrow> encs x t))"
  shows "T = T'"
proof (cases T; cases T')
  fix t t' assume T: "T = Some t" "T' = Some t'"
  have cf: "collision_free x (encs x t \<union> encs x t')" using assms(5) T by simp
  have ok: "t_ok t" "t_ok t'" "fits x t" "length (enc x t) < 2 ^ 64" using assms(2,3) T by (auto simp: holds_def fits_def)
  have "mpt_hash x (enc x t) = mpt_hash x (enc x t')" using assms(2-4) T by (simp add: holds_def)
  then have "enc x t = enc x t'" using hash_eq [OF cf, of "enc x t" "enc x t'"] by (auto simp: encs_def)
  then show "T = T'" using binding [OF assms(1) ok(1-3) cf] enc_inj [OF ok(1,2,4)] T by simp
qed (use assms in \<open>auto simp: holds_def\<close>)

section \<open>Merkle proofs\<close>

lemma map2_self: "map2 g (map h xs) xs = map (\<lambda>e. g (h e) e) xs"
  by (induction xs) simp_all

lemma puts_of_proof: "map2 PutOp (map (\<lambda>n. with_prefix opts (mpt_hash x n)) proof) proof = map (put_node x opts) proof" for "proof"
  by (induction "proof") (simp_all add: node_key_def)

definition proof_trie :: "externals \<Rightarrow> 'c lru \<Rightarrow> bytes \<Rightarrow> 'c mpt" where
  "proof_trie x L root = \<lparr>mpt_options = default_opts, mpt_db = new_checkpoint_db L (\<lambda>_. None) (Some 0) (Some EncBytes),
     mpt_root = root, mpt_hashLen = length (EMPTY_TRIE_ROOT x), lock_permits = 1\<rparr>"

lemma new_proof_trie: "hash32 x \<Longrightarrow> length root = 32 \<Longrightarrow> new_mpt x L default_opts None (Some root) = Inr (proof_trie x L root)"
  by (simp add: new_mpt_def default_opts_def proof_trie_def set_root_def hash32_def EMPTY_TRIE_ROOT_def mpt_hash_def Let_def)

lemma proof_trie_db: "db_ok x (mpt_db (proof_trie x L root))" "mpt_view x (proof_trie x L root) k = None"
  by (simp_all add: proof_trie_def new_checkpoint_db_def db_ok_def cd_view_def disk_view_def Let_def)

text \<open>After the nodes of a proof are in, the database agrees with any trie whose encodings do not collide with them.\<close>

lemma proof_loaded:
  fixes "proof" :: "bytes list"
  assumes "hash32 x" "noble_ok x"
  shows "\<exists>s. updateMPTFromMerkleProof x L proof True (proof_trie x L root) =
      ((if proof \<noteq> [] \<and> root \<noteq> mpt_hash x (hd proof) then Inl (PlainError ''The provided proof does not have the expected trie root'')
        else Inr (if proof = [] then None else Some (mpt_hash x (hd proof)))), s)
    \<and> (proof = [] \<or> root = mpt_hash x (hd proof) \<longrightarrow> db_ok x (mpt_db s) \<and> mpt_options s = default_opts \<and> mpt_root s = root
        \<and> mpt_view x s = apply_ops (map (put_node x default_opts) proof) (\<lambda>_. None))"
proof -
  let ?s = "proof_trie x L root :: 'a mpt"
  have o: "mpt_options ?s = default_opts" "mpt_root ?s = root" by (simp_all add: proof_trie_def)
  have key: "with_prefix default_opts h = h" for h by (simp add: with_prefix_def default_opts_def)
  obtain s where s: "on_db (db_batch x L (map (put_node x default_opts) proof)) ?s = (Inr (), s)" "mpt_options s = mpt_options ?s"
    "mpt_root s = mpt_root ?s" "db_ok x (mpt_db s)" "mpt_view x s = apply_ops (map (put_node x default_opts) proof) (mpt_view x ?s)"
    using write_ops_run [OF proof_trie_db(1) assms(2), where L = L and ops = "map (put_node x default_opts) proof"] by blast
  have "mpt_view x ?s = (\<lambda>_. None)" using proof_trie_db(2) by blast
  then show ?thesis using s o
    by (cases "proof") (auto simp: updateMPTFromMerkleProof_def sx_run Let_def puts_of_proof map2_self key node_key_def)
qed

lemma agrees_after_puts:
  assumes "collision_free x (set ns \<union> encs x t)" "u \<in> subs t"
  shows "apply_ops (map (put_node x opts) ns) (\<lambda>_. None) (node_key x opts (enc x u)) = (if enc x u \<in> set ns then Some (enc x u) else None)"
proof -
  have "put_node x opts (enc x u) \<in> set (map (put_node x opts) ns) \<longleftrightarrow> enc x u \<in> set ns" by auto
  then show ?thesis using apply_puts [of "map (put_node x opts) ns" x opts "set ns" "encs x t" "enc x u" "\<lambda>_. None"] assms
    by (simp add: encs_def)
qed

text \<open>Verifying against the root of a trie returns what the trie holds or fails; it succeeds when the nodes on the
  path are in the proof.\<close>

theorem verify_result:
  assumes x: "hash32 x" "noble_ok x" and t: "t_ok t" "fits x t" "collision_free x (set ns \<union> encs x t)"
    and ks: "ks = bytesToNibbles (appliedKey x (mpt_options trie) key)"
  shows "verifyMPTWithMerkleProof x L trie (mpt_hash x (enc x t)) key ns \<in>
      {Inr (js_value (t_lookup t ks)), Inl (PlainError ''Invalid proof provided''), Inl (PlainError ''Invalid proof nodes given'')}"
    "ns \<noteq> [] \<Longrightarrow> hd ns = enc x t \<Longrightarrow> enc x ` set (fst (t_path t ks)) \<subseteq> set ns \<Longrightarrow>
      verifyMPTWithMerkleProof x L trie (mpt_hash x (enc x t)) key ns = Inr (js_value (t_lookup t ks))"
proof -
  let ?root = "mpt_hash x (enc x t)"
  let ?good = "ns = [] \<or> ?root = mpt_hash x (hd ns)"
  have new: "new_mpt x L default_opts None (Some ?root) = Inr (proof_trie x L ?root)"
    using new_proof_trie [OF x(1), of ?root L] x(1) by (simp add: hash32_def mpt_hash_def)
  obtain s where s: "updateMPTFromMerkleProof x L ns True (proof_trie x L ?root) =
      ((if ns \<noteq> [] \<and> ?root \<noteq> mpt_hash x (hd ns) then Inl (PlainError ''The provided proof does not have the expected trie root'')
        else Inr (if ns = [] then None else Some (mpt_hash x (hd ns)))), s)"
    "?good \<longrightarrow> db_ok x (mpt_db s) \<and> mpt_options s = default_opts \<and> mpt_root s = ?root
        \<and> mpt_view x s = apply_ops (map (put_node x default_opts) ns) (\<lambda>_. None)"
    using proof_loaded [OF x, of L ns ?root] by blast
  have main: "\<exists>r s'. mpt_get x L (appliedKey x (mpt_options trie) key) True s = (r, s') \<and>
      (r = Inl Missing \<and> \<not> (ns \<noteq> [] \<and> hd ns = enc x t \<and> enc x ` set (fst (t_path t ks)) \<subseteq> set ns) \<or> r = Inr (js_value (t_lookup t ks)))" if ?good
  proof -
    have view: "mpt_view x s (node_key x (mpt_options s) (enc x u)) = (if enc x u \<in> set ns then Some (enc x u) else None)" if "u \<in> subs t" for u
      using agrees_after_puts [OF t(3) that] s(2) \<open>?good\<close> by simp
    let ?whole = "ns \<noteq> [] \<and> hd ns = enc x t \<and> enc x ` set (fst (t_path t ks)) \<subseteq> set ns"
    have agrees: "all_subs (agrees_on x (mpt_options s) (mpt_view x s)) t" using view by (simp add: all_subs_def agrees_on_def)
    have wh: "?whole \<longrightarrow> mpt_view x s (node_key x (mpt_options s) (enc x t)) \<noteq> None \<and> path_stored x s t (bytesToNibbles (appliedKey x (mpt_options trie) key))"
    proof (intro impI conjI)
      assume whole: ?whole
      have on_path: "mpt_view x s (node_key x (mpt_options s) (enc x u)) = Some (enc x u)" if "u \<in> set (fst (t_path t ks))" for u
      proof -
        have "u \<in> subs t" using path_subs [OF t(1), of ks] that by blast
        moreover have "enc x u \<in> set ns" using whole that by blast
        ultimately show ?thesis using view by simp
      qed
      then show "path_stored x s t (bytesToNibbles (appliedKey x (mpt_options trie) key))" using ks by (simp add: path_stored_def stored_in_def)
      show "mpt_view x s (node_key x (mpt_options s) (enc x t)) \<noteq> None" using on_path [OF path_head] by simp
    qed
    obtain path n rest where p: "t_path t ks = (path, n, rest)" by (cases "t_path t ks") auto
    have here: "mpt_view x s (node_key x (mpt_options s) (enc x t)) \<in> {None, Some (enc x t)}" using view [of t] by simp
    have good: "db_ok x (mpt_db s)" "mpt_root s = mpt_hash x (enc x t)" "mpt_options s = default_opts" using s(2) \<open>?good\<close> by auto
    from findPath_general [OF x(1) good(1) t(1) good(2) here t(2) agrees wh, of L]
    obtain s' r where f: "findPath x L (appliedKey x (mpt_options trie) key) True s = (r, s')" "r = Inl Missing \<and> \<not> ?whole \<or>
        r = Inr \<lparr>path_node = map_option (dnode x) n, path_remaining = rest, path_stack = map (dnode x) path\<rparr>"
      using p ks by auto
    have "appliedKey x (mpt_options s) k = k" for k using good(3) by (simp add: appliedKey_def default_opts_def)
    then have "mpt_get x L (appliedKey x (mpt_options trie) key) True s = (case r of Inl e \<Rightarrow> (Inl e, s')
        | Inr found \<Rightarrow> (Inr (case path_node found of None \<Rightarrow> RNull | Some m \<Rightarrow> if path_remaining found = [] then get_value m else RNull), s'))"
      using f(1) by (cases r) (auto simp: mpt_get_def sx_run split: option.split)
    then show ?thesis using f(2) found_value [OF p t(1), of x] by (elim disjE; cases n) simp_all
  qed
  show "verifyMPTWithMerkleProof x L trie ?root key ns \<in>
      {Inr (js_value (t_lookup t ks)), Inl (PlainError ''Invalid proof provided''), Inl (PlainError ''Invalid proof nodes given'')}"
    using main s(1) new by (cases ?good) (auto simp: verifyMPTWithMerkleProof_def)
  show "verifyMPTWithMerkleProof x L trie ?root key ns = Inr (js_value (t_lookup t ks))"
    if "ns \<noteq> []" "hd ns = enc x t" "enc x ` set (fst (t_path t ks)) \<subseteq> set ns"
    using main s(1) new that by (auto simp: verifyMPTWithMerkleProof_def)
qed

lemma serialize_path: "serialize_all (map (dnode x) ts) = Inr (map (enc x) ts)"
  by (induction ts) simp_all

lemma path_starts: "\<exists>ts. fst (t_path t ks) = t # ts"
  by (cases "(t, ks)" rule: t_path.cases) (auto split: option.split prod.split)

lemma create_holds:
  assumes "hash32 x" "ready x s" "holds x s (Some t)"
  shows "\<exists>s'. mpt_same x s s' \<and> createMerkleProof x L key s =
    (Inr (map (enc x) (fst (t_path t (bytesToNibbles (appliedKey x (mpt_options s) key))))), s')"
proof -
  let ?k = "appliedKey x (mpt_options s) key"
  obtain path n rest where p: "t_path t (bytesToNibbles ?k) = (path, n, rest)" by (cases "t_path t (bytesToNibbles ?k)") auto
  from findPath_holds [OF assms p, where thr = False and L = L] show ?thesis using p by (auto simp: createMerkleProof_def sx_run serialize_path)
qed

end
