(* ===== verification/Checkpoints.thy ===== *)
theory Checkpoints
  imports Prelude
begin

text \<open>
  The contract that every revertible part of the EVM's state offers: checkpoint, commit, revert
  around arbitrary writes. \<open>frames\<close> is the current contents followed by the contents that the
  next reverts would restore. The transient storage, the state manager and the journal of warm
  addresses interpret the locale; the lemma they share is that a revert undoes everything a
  balanced run did since its checkpoint, whatever nesting of commits and reverts it contains.
\<close>

section \<open>Balanced runs\<close>

text \<open>Sequences of writes and properly nested checkpoint-commit and checkpoint-revert pairs.\<close>

inductive balanced :: "('s \<Rightarrow> 's \<Rightarrow> bool) \<Rightarrow> ('s, unit) sx \<Rightarrow> ('s, unit) sx \<Rightarrow> ('s, unit) sx \<Rightarrow> 's \<Rightarrow> 's \<Rightarrow> bool"
  for write1 :: "'s \<Rightarrow> 's \<Rightarrow> bool" and checkpoint commit revert :: "('s, unit) sx"
where
  done_run: "balanced write1 checkpoint commit revert s s"
| write_run: "balanced write1 checkpoint commit revert s t \<Longrightarrow> write1 t u \<Longrightarrow>
    balanced write1 checkpoint commit revert s u"
| commit_run: "balanced write1 checkpoint commit revert s t \<Longrightarrow> checkpoint t = (Inr (), u) \<Longrightarrow>
    balanced write1 checkpoint commit revert u v \<Longrightarrow> commit v = (Inr (), w) \<Longrightarrow>
    balanced write1 checkpoint commit revert s w"
| revert_run: "balanced write1 checkpoint commit revert s t \<Longrightarrow> checkpoint t = (Inr (), u) \<Longrightarrow>
    balanced write1 checkpoint commit revert u v \<Longrightarrow> revert v = (Inr (), w) \<Longrightarrow>
    balanced write1 checkpoint commit revert s w"

section \<open>The interface\<close>

locale checkpointed =
  fixes frames :: "'s \<Rightarrow> 'f list" and wf :: "'s \<Rightarrow> bool"
    and write1 :: "'s \<Rightarrow> 's \<Rightarrow> bool"
    and checkpoint commit revert :: "('s, unit) sx"
  assumes frames_ne: "wf s \<Longrightarrow> frames s \<noteq> []"
    and write_law: "wf s \<Longrightarrow> write1 s t \<Longrightarrow> wf t \<and> tl (frames t) = tl (frames s)"
    and checkpoint_law: "wf s \<Longrightarrow> \<exists>t. checkpoint s = (Inr (), t) \<and> wf t
           \<and> frames t = hd (frames s) # frames s"
    and commit_law: "wf s \<Longrightarrow> frames s = x # y # zs \<Longrightarrow>
           \<exists>t. commit s = (Inr (), t) \<and> wf t \<and> frames t = x # zs"
    and revert_law: "wf s \<Longrightarrow> frames s = x # y # zs \<Longrightarrow>
           \<exists>t. revert s = (Inr (), t) \<and> wf t \<and> frames t = y # zs"
begin

lemma balanced_keeps_frames:
  "balanced write1 checkpoint commit revert s t \<Longrightarrow> wf s \<Longrightarrow> wf t \<and> tl (frames t) = tl (frames s)"
proof (induction rule: balanced.induct)
  case (write_run s t u)
  then show ?case using write_law by auto
next
  case (commit_run s t u v w)
  then have t: "wf t" "tl (frames t) = tl (frames s)" by auto
  then obtain x ys where ft: "frames t = x # ys" using frames_ne by (cases "frames t") auto
  from checkpoint_law [OF t(1)] commit_run.hyps(2) ft have u: "wf u" "frames u = x # x # ys" by auto
  with commit_run.IH(2) have v: "wf v" "tl (frames v) = x # ys" by auto
  then obtain z where fv: "frames v = z # x # ys" using frames_ne [OF v(1)] by (cases "frames v") auto
  from commit_law [OF v(1) fv] commit_run.hyps(4) t(2) ft show ?case by auto
next
  case (revert_run s t u v w)
  then have t: "wf t" "tl (frames t) = tl (frames s)" by auto
  then obtain x ys where ft: "frames t = x # ys" using frames_ne by (cases "frames t") auto
  from checkpoint_law [OF t(1)] revert_run.hyps(2) ft have u: "wf u" "frames u = x # x # ys" by auto
  with revert_run.IH(2) have v: "wf v" "tl (frames v) = x # ys" by auto
  then obtain z where fv: "frames v = z # x # ys" using frames_ne [OF v(1)] by (cases "frames v") auto
  from revert_law [OF v(1) fv] revert_run.hyps(4) t(2) ft show ?case by auto
qed simp

text \<open>Checkpoint, any balanced run, revert: everything is as before. With commit instead of
  revert the current contents stay and the outer frames are as before.\<close>

lemma revert_restores:
  assumes "wf s" "checkpoint s = (Inr (), t)" "balanced write1 checkpoint commit revert t u"
  shows "\<exists>v. revert u = (Inr (), v) \<and> wf v \<and> frames v = frames s"
proof -
  obtain x ys where fs: "frames s = x # ys" using frames_ne [OF assms(1)] by (cases "frames s") auto
  from checkpoint_law [OF assms(1)] assms(2) fs have t: "wf t" "frames t = x # x # ys" by auto
  from balanced_keeps_frames [OF assms(3) t(1)] t(2) have u: "wf u" "tl (frames u) = x # ys" by auto
  then obtain z where "frames u = z # x # ys" using frames_ne [OF u(1)] by (cases "frames u") auto
  from revert_law [OF u(1) this] fs show ?thesis by auto
qed

lemma commit_keeps:
  assumes "wf s" "checkpoint s = (Inr (), t)" "balanced write1 checkpoint commit revert t u"
  shows "\<exists>v. commit u = (Inr (), v) \<and> wf v \<and> frames v = hd (frames u) # tl (frames s)"
proof -
  obtain x ys where fs: "frames s = x # ys" using frames_ne [OF assms(1)] by (cases "frames s") auto
  from checkpoint_law [OF assms(1)] assms(2) fs have t: "wf t" "frames t = x # x # ys" by auto
  from balanced_keeps_frames [OF assms(3) t(1)] t(2) have u: "wf u" "tl (frames u) = x # ys" by auto
  then obtain z where "frames u = z # x # ys" using frames_ne [OF u(1)] by (cases "frames u") auto
  from commit_law [OF u(1) this] fs \<open>frames u = z # x # ys\<close> show ?thesis by auto
qed

end

end
