(* ===== verification/MptCheckpoints.thy ===== *)
theory MptCheckpoints
  imports MptSafety Checkpoints
begin

text \<open>
  Checkpoints of the Merkle Patricia trie. Whatever an operation of the trie does, it leaves the contents
  that the open checkpoints saved alone, and when it returns it has released the lock. So the trie
  offers the contract \<open>checkpointed\<close>: its frames are the root and the contents of the database.
\<close>

section \<open>What every operation keeps\<close>

definition trie_kept :: "externals \<Rightarrow> 'c mpt \<Rightarrow> 'c mpt \<Rightarrow> bool" where
  "trie_kept x s t \<longleftrightarrow> db_ok x (mpt_db t) \<and> mpt_options t = mpt_options s \<and> mpt_hashLen t = mpt_hashLen s
     \<and> cd_saved x (mpt_db t) = cd_saved x (mpt_db s)
     \<and> (length (mpt_root s) = mpt_hashLen s \<longrightarrow> length (mpt_root t) = mpt_hashLen s)"

text \<open>A piece of an operation that, when it returns, has released the lock \<open>n\<close> times.\<close>

definition keeps :: "externals \<Rightarrow> nat \<Rightarrow> ('c, 'a) mptM \<Rightarrow> bool" where
  "keeps x n m \<longleftrightarrow> (\<forall>s r t. db_ok x (mpt_db s) \<longrightarrow> m s = (r, t) \<longrightarrow>
     trie_kept x s t \<and> ((\<exists>a. r = Inr a) \<longrightarrow> lock_permits t = lock_permits s + n))"

named_theorems keeps_intros \<open>what the operations of the trie keep\<close>

lemma keepsD: "keeps x n m \<Longrightarrow> m s = (r, t) \<Longrightarrow> db_ok x (mpt_db s) \<Longrightarrow> trie_kept x s t"
  "keeps x n m \<Longrightarrow> m s = (Inr a, t) \<Longrightarrow> db_ok x (mpt_db s) \<Longrightarrow> lock_permits t = lock_permits s + n"
  by (auto simp: keeps_def)

lemma kept_trans: "trie_kept x s t \<Longrightarrow> trie_kept x t u \<Longrightarrow> trie_kept x s u"
  by (auto simp: trie_kept_def)

lemma kept_refl: "db_ok x (mpt_db s) \<Longrightarrow> trie_kept x s s"
  by (simp add: trie_kept_def)

lemma keeps_bind [keeps_intros]: "keeps x 0 m \<Longrightarrow> (\<And>a. keeps x n (f a)) \<Longrightarrow> keeps x n (bindE m f)"
  unfolding keeps_def
proof (intro allI impI)
  fix s r t assume m: "\<forall>s r t. db_ok x (mpt_db s) \<longrightarrow> m s = (r, t) \<longrightarrow>
     trie_kept x s t \<and> ((\<exists>a. r = Inr a) \<longrightarrow> lock_permits t = lock_permits s + 0)"
    and f: "\<And>a. \<forall>s r t. db_ok x (mpt_db s) \<longrightarrow> f a s = (r, t) \<longrightarrow>
     trie_kept x s t \<and> ((\<exists>a. r = Inr a) \<longrightarrow> lock_permits t = lock_permits s + n)"
    and s: "db_ok x (mpt_db s)" "bindE m f s = (r, t)"
  obtain r1 s1 where s1: "m s = (r1, s1)" by fastforce
  then have k: "trie_kept x s s1" "(\<exists>a. r1 = Inr a) \<longrightarrow> lock_permits s1 = lock_permits s" using m s(1) by auto
  show "trie_kept x s t \<and> ((\<exists>a. r = Inr a) \<longrightarrow> lock_permits t = lock_permits s + n)"
  proof (cases r1)
    case (Inr a)
    then have "f a s1 = (r, t)" using s(2) s1 by (simp add: bindE_run)
    moreover have "db_ok x (mpt_db s1)" using k(1) by (simp add: trie_kept_def)
    ultimately have "trie_kept x s1 t" "(\<exists>a. r = Inr a) \<longrightarrow> lock_permits t = lock_permits s1 + n" using f [of a] by auto
    then show ?thesis using k Inr kept_trans by auto
  qed (use s(2) s1 k in \<open>auto simp: bindE_run\<close>)
qed

lemma keeps_seq [keeps_intros]: "keeps x 0 m \<Longrightarrow> keeps x n k \<Longrightarrow> keeps x n (seqE m k)"
  unfolding seqE_def by (rule keeps_bind)

lemma keeps_simple [keeps_intros]: "keeps x 0 (returnE a)" "keeps x n (throwE e)" "keeps x 0 (getsE g)" "keeps x 0 (liftE r)"
  by (simp_all add: keeps_def trie_kept_def)

lemma keeps_root [keeps_intros]: "keeps x 0 (set_root v)"
  by (auto simp: keeps_def trie_kept_def set_root_def)

lemma keeps_release [keeps_intros]: "keeps x 1 release"
  by (auto simp: keeps_def trie_kept_def release_def)

lemma keeps_acquire [keeps_intros]: "keeps x 1 m \<Longrightarrow> keeps x 0 (seqE acquire m)"
  unfolding keeps_def
proof (intro allI impI)
  fix s r t assume m: "\<forall>s r t. db_ok x (mpt_db s) \<longrightarrow> m s = (r, t) \<longrightarrow>
     trie_kept x s t \<and> ((\<exists>a. r = Inr a) \<longrightarrow> lock_permits t = lock_permits s + 1)"
    and s: "db_ok x (mpt_db s)" "seqE acquire m s = (r, t)"
  show "trie_kept x s t \<and> ((\<exists>a. r = Inr a) \<longrightarrow> lock_permits t = lock_permits s + 0)"
  proof (cases "lock_permits s > 0")
    case True
    then have "m (s\<lparr>lock_permits := lock_permits s - 1\<rparr>) = (r, t)" using s(2) by (simp add: sx_run acquire_def)
    moreover have "db_ok x (mpt_db (s\<lparr>lock_permits := lock_permits s - 1\<rparr>))" using s(1) by simp
    ultimately have "trie_kept x (s\<lparr>lock_permits := lock_permits s - 1\<rparr>) t"
      "(\<exists>a. r = Inr a) \<longrightarrow> lock_permits t = lock_permits (s\<lparr>lock_permits := lock_permits s - 1\<rparr>) + 1" using m by blast+
    then show ?thesis using True by (simp add: trie_kept_def)
  next
    case False
    then show ?thesis using s by (auto simp: sx_run acquire_def trie_kept_def)
  qed
qed

lemma keeps_if [keeps_intros]: "(b \<Longrightarrow> keeps x n m) \<Longrightarrow> (\<not> b \<Longrightarrow> keeps x n k) \<Longrightarrow> keeps x n (if b then m else k)"
  by simp

lemma keeps_cases [keeps_intros]:
  "keeps x n m \<Longrightarrow> (\<And>v. keeps x n (f v)) \<Longrightarrow> keeps x n (case a of None \<Rightarrow> m | Some v \<Rightarrow> f v)"
  "(\<And>u v. keeps x n (g u v)) \<Longrightarrow> keeps x n (case p of (u, v) \<Rightarrow> g u v)"
  "(\<And>b. keeps x n (h1 b)) \<Longrightarrow> (\<And>b. keeps x n (h2 b)) \<Longrightarrow> (\<And>b. keeps x n (h3 b)) \<Longrightarrow> (\<And>b. keeps x n (h4 b)) \<Longrightarrow> keeps x n i \<Longrightarrow>
    keeps x n (case_rlp_input h1 h2 h3 h4 i j)"
  by (auto split: option.split prod.split rlp_input.split)

lemma keeps_on_db: "(\<And>d. db_ok x d \<Longrightarrow> \<exists>r d'. m d = (r, d') \<and> db_ok x d' \<and> cd_saved x d' = cd_saved x d) \<Longrightarrow> keeps x 0 (on_db m)"
  by (force simp: keeps_def on_db_def trie_kept_def split: prod.splits)

lemma keeps_db [keeps_intros]:
  "keeps x 0 (on_db (db_get x L k))"
  "noble_ok x \<Longrightarrow> keeps x 0 (on_db (db_put x L k v))"
  "noble_ok x \<Longrightarrow> keeps x 0 (on_db (db_batch x L ops))"
  by (rule keeps_on_db; metis db_get_run db_put_run db_batch_run)+



section \<open>The operations\<close>

lemma keeps_lookup [keeps_intros]: "keeps x 0 (lookupNode x L ref)"
  unfolding lookupNode_def by (intro keeps_intros)

lemma walk_keeps:
  assumes "walk x L key ref p st s = Some (r, st', t)" "db_ok x (mpt_db s)"
  shows "trie_kept x s t \<and> lock_permits t = lock_permits s"
proof -
  have look: "trie_kept x s t \<and> lock_permits t = lock_permits s"
    if s: "lookupNode x L ref s = (r, t)" "db_ok x (mpt_db s)" for L :: "'a lru" and ref s r t
  proof (cases ref)
    case (RBytes h)
    obtain s' where "on_db (db_get x L (with_prefix (mpt_options s) h)) s = (Inr (mpt_view x s (with_prefix (mpt_options s) h)), s')" "mpt_same x s s'"
      by (rule get_same [OF s(2)])
    then show ?thesis using RBytes s(1)
      by (auto simp: lookupNode_def sx_run mpt_same_def trie_kept_def split: option.splits)
  qed (use s in \<open>auto simp: lookupNode_def kept_refl\<close>)
  define P where "P = (\<lambda>x' (L :: 'a lru) (key :: nibbles) (ref :: rlp_input) (p :: nat) (st :: stack_slots) (s :: 'a mpt) (y :: (exn + mpt_node option \<times> nibbles) \<times> stack_slots \<times> 'a mpt).
    x' = x \<longrightarrow> db_ok x (mpt_db s) \<longrightarrow> trie_kept x s (snd (snd y)) \<and> lock_permits (snd (snd y)) = lock_permits s)"
  have step: "P x' L key ref p st s y"
    if IH: "\<And>x' L key ref p st s y. w x' L key ref p st s = Some y \<Longrightarrow> P x' L key ref p st s y"
      and eq: "(case lookupNode x' L ref s of (Inl e, t) \<Rightarrow> Some (Inl e, st, t)
        | (Inr node, t) \<Rightarrow> let stack1 = array_set None st p (Some node) in
          (case visit key p node of Inl e \<Rightarrow> Some (Inl e, stack1, t) | Inr (Finished n remaining) \<Rightarrow> Some (Inr (n, remaining), stack1, t)
           | Inr (Descend child p) \<Rightarrow> w x' L key child p stack1 t)) = Some y" for w x' L key ref p st s y
    unfolding P_def
    proof (intro impI)
      assume x': "x' = x"
      assume ok: "db_ok x (mpt_db s)"
      obtain r1 s1 where s1: "lookupNode x L ref s = (r1, s1)" by fastforce
      note s1' = look [OF s1 ok]
      then have ok1: "db_ok x (mpt_db s1)" by (simp add: trie_kept_def)
      show "trie_kept x s (snd (snd y)) \<and> lock_permits (snd (snd y)) = lock_permits s"
      proof (cases "\<exists>child q st1. w x L key child q st1 s1 = Some y")
        case True
        then have "trie_kept x s1 (snd (snd y))" "lock_permits (snd (snd y)) = lock_permits s1" using IH ok1 unfolding P_def by blast+
        then show ?thesis using s1' kept_trans by auto
      next
        case False
        then show ?thesis using eq s1 s1' x' by (auto simp: Let_def split: sum.splits visit_result.splits)
      qed
    qed
  have "P x L key ref p st s (r, st', t)"
  proof (rule walk.raw_induct [of P "((((((x, L), key), ref), p), st), s)" "(r, st', t)", unfolded prod.case])
    show "walk x L key ref p st s = Some (r, st', t)" by (rule assms(1))
  qed (rule step [rotated], assumption, blast)
  then show ?thesis using assms(2) by (simp add: P_def)
qed


lemma keeps_findPath [keeps_intros]: "keeps x 0 (findPath x L key thr)"
  unfolding keeps_def findPath_def Let_def
  by (auto simp: kept_refl dest!: walk_keeps split: option.splits sum.splits if_splits prod.splits)

lemma keeps_get [keeps_intros]: "keeps x 0 (mpt_get x L key thr)"
  unfolding mpt_get_def by (intro keeps_intros)

lemma keeps_persist [keeps_intros]: "noble_ok x \<Longrightarrow> keeps x 0 (persistRoot x L)"
  unfolding keeps_def
proof (intro allI impI)
  fix s r t assume s: "noble_ok x" "db_ok x (mpt_db s)" "persistRoot x L s = (r, t)"
  show "trie_kept x s t \<and> ((\<exists>a. r = Inr a) \<longrightarrow> lock_permits t = lock_permits s + 0)"
  proof (cases "useRootPersistence (mpt_options s)")
    case True
    then have "on_db (db_put x L (with_prefix (mpt_options s) (appliedKey x (mpt_options s) ROOT_DB_KEY)) (mpt_root s)) s = (r, t)"
      using s(3) by (simp add: persistRoot_def Let_def)
    then show ?thesis using keepsD [OF keeps_db(2) [OF s(1)] _ s(2)] by auto
  qed (use s in \<open>auto simp: persistRoot_def kept_refl\<close>)
qed

lemma keeps_save [keeps_intros]: "noble_ok x \<Longrightarrow> keeps x 0 (saveStack x L key st ops)"
  unfolding saveStack_def by (intro keeps_intros)

lemma keeps_initial [keeps_intros]: "noble_ok x \<Longrightarrow> keeps x 0 (createInitialNode x L key v)"
  unfolding createInitialNode_def by (intro keeps_intros)

lemma keeps_update [keeps_intros]: "noble_ok x \<Longrightarrow> keeps x 0 (updateNode x L k v rest st)"
  unfolding updateNode_def by (intro keeps_intros)

lemma keeps_delete [keeps_intros]: "noble_ok x \<Longrightarrow> keeps x 0 (deleteNode x L k st)"
  unfolding deleteNode_def Let_def by (intro keeps_intros)

lemma keeps_replaced [keeps_intros]: "keeps x 0 (replaced_ops x L key v st)"
  unfolding replaced_ops_def by (intro keeps_intros)

lemma keeps_put_value [keeps_intros]: "noble_ok x \<Longrightarrow> keeps x 0 (put_value x L key k v)"
  unfolding put_value_def by (intro keeps_intros)

lemma keeps_del [keeps_intros]: "noble_ok x \<Longrightarrow> keeps x 0 (mpt_del x L key skip)"
  unfolding mpt_del_def Let_def by (intro keeps_intros)

lemma keeps_put [keeps_intros]: "noble_ok x \<Longrightarrow> keeps x 0 (mpt_put x L key v skip)"
  unfolding mpt_put_def by (intro keeps_intros)

lemma keeps_batch_loop: "noble_ok x \<Longrightarrow> keeps x 0 (mpt_batch_loop x L ops skip)"
  by (induction x L ops skip rule: mpt_batch_loop.induct) (simp_all only: mpt_batch_loop.simps, (intro keeps_intros | simp)+)

lemma keeps_batch [keeps_intros]: "noble_ok x \<Longrightarrow> keeps x 0 (mpt_batch x L ops skip)"
  unfolding mpt_batch_def by (intro keeps_intros keeps_batch_loop)


section \<open>The contract\<close>

text \<open>A call of the trie that returns.\<close>

definition trie_call :: "externals \<Rightarrow> 'c lru \<Rightarrow> 'c mpt \<Rightarrow> 'c mpt \<Rightarrow> bool" where
  "trie_call x L s t \<longleftrightarrow> (\<exists>key v skip. mpt_put x L key v skip s = (Inr (), t)) \<or> (\<exists>key skip. mpt_del x L key skip s = (Inr (), t))
     \<or> (\<exists>ops skip. mpt_batch x L ops skip s = (Inr (), t)) \<or> (\<exists>key thr v. mpt_get x L key thr s = (Inr v, t))"

definition trie_frames :: "externals \<Rightarrow> 'c mpt \<Rightarrow> (bytes \<times> contents) list" where
  "trie_frames x s = (mpt_root s, mpt_view x s) # cd_saved x (mpt_db s)"

definition trie_wf :: "externals \<Rightarrow> 'c mpt \<Rightarrow> bool" where
  "trie_wf x s \<longleftrightarrow> noble_ok x \<and> db_ok x (mpt_db s) \<and> lock_permits s = 1 \<and> \<not> useRootPersistence (mpt_options s)
     \<and> length (mpt_root s) = mpt_hashLen s \<and> (\<forall>f\<in>set (cd_saved x (mpt_db s)). length (fst f) = mpt_hashLen s)"

lemma call_keeps:
  assumes "noble_ok x" "trie_call x L s t" "db_ok x (mpt_db s)"
  shows "trie_kept x s t \<and> lock_permits t = lock_permits s"
  using assms(2) unfolding trie_call_def
  using keepsD [OF keeps_put [OF assms(1)] _ assms(3)] keepsD [OF keeps_del [OF assms(1)] _ assms(3)]
    keepsD [OF keeps_batch [OF assms(1)] _ assms(3)] keepsD [OF keeps_get _ assms(3)] by (metis add_0_right)

lemma saved_checkpoints: "cd_saved x d \<noteq> [] \<longleftrightarrow> db_hasCheckpoints d"
  by (cases "rev (cd_checkpoints d)") (auto simp: cd_saved_def db_hasCheckpoints_def)

lemma trie_checkpoint_law:
  assumes "trie_wf x s"
  shows "\<exists>t. mpt_checkpoint s = (Inr (), t) \<and> trie_wf x t \<and> trie_frames x t = hd (trie_frames x s) # trie_frames x s"
proof -
  obtain d' where "db_checkpoint (mpt_root s) (mpt_db s) = (Inr (), d')" "db_ok x d'" "cd_view x d' = mpt_view x s"
    "cd_saved x d' = (mpt_root s, mpt_view x s) # cd_saved x (mpt_db s)"
    using db_checkpoint_run [of x "mpt_db s" "mpt_root s"] assms by (auto simp: trie_wf_def)
  then show ?thesis using assms by (auto simp: mpt_checkpoint_def sx_run on_db_def trie_wf_def trie_frames_def)
qed

lemma trie_commit_law:
  assumes "trie_wf x s" "trie_frames x s = a # b # rest"
  shows "\<exists>t. mpt_commit x L s = (Inr (), t) \<and> trie_wf x t \<and> trie_frames x t = a # rest"
proof -
  have saved: "cd_saved x (mpt_db s) = (fst b, snd b) # rest" "a = (mpt_root s, mpt_view x s)"
    using assms(2) by (simp_all add: trie_frames_def)
  obtain d' where "db_commit x L (mpt_db s) = (Inr (), d')" "db_ok x d'" "cd_view x d' = mpt_view x s" "cd_saved x d' = rest"
    using db_commit_run [OF _ _ saved(1), of L] assms(1) by (auto simp: trie_wf_def)
  moreover have "mpt_hasCheckpoints s" using saved(1) saved_checkpoints [of x "mpt_db s"] by (simp add: mpt_hasCheckpoints_def)
  ultimately show ?thesis using assms(1) saved
    by (auto simp: mpt_commit_def sx_run on_db_def acquire_def release_def persistRoot_def trie_wf_def trie_frames_def Let_def)
qed

lemma trie_revert_law:
  assumes "trie_wf x s" "trie_frames x s = a # b # rest"
  shows "\<exists>t. mpt_revert x L s = (Inr (), t) \<and> trie_wf x t \<and> trie_frames x t = b # rest"
proof -
  have saved: "cd_saved x (mpt_db s) = (fst b, snd b) # rest" using assms(2) by (simp add: trie_frames_def)
  obtain d' where "db_revert (mpt_db s) = (Inr (fst b), d')" "db_ok x d'" "cd_view x d' = snd b" "cd_saved x d' = rest"
    using db_revert_run [OF _ saved] assms(1) by (auto simp: trie_wf_def)
  moreover have "mpt_hasCheckpoints s" using saved saved_checkpoints [of x "mpt_db s"] by (simp add: mpt_hasCheckpoints_def)
  ultimately show ?thesis using assms(1) saved
    by (auto simp: mpt_revert_def sx_run on_db_def acquire_def release_def persistRoot_def set_root_def trie_wf_def trie_frames_def Let_def)
qed

interpretation trie_cp: checkpointed "trie_frames x" "trie_wf x" "trie_call x L" mpt_checkpoint "mpt_commit x L" "mpt_revert x L"
  for x :: externals and L :: "'c lru"
proof unfold_locales
  fix s t :: "'c mpt" assume "trie_wf x s" "trie_call x L s t"
  then show "trie_wf x t \<and> tl (trie_frames x t) = tl (trie_frames x s)"
    using call_keeps [of x L s t] by (auto simp: trie_wf_def trie_kept_def trie_frames_def)
qed (erule (1) trie_commit_law trie_revert_law | erule trie_checkpoint_law | simp add: trie_frames_def)+

end
