(* ===== verification/TrieLaws.thy ===== *)
theory TrieLaws
  imports MptCheckpoints
begin

text \<open>
  What the Merkle Patricia trie guarantees: reads see the last writes, writing in any order gives the same root, the
  root commits to the contents, Merkle proofs are sound and complete, and a revert undoes every change since
  the checkpoint. The last section shows where the code departs from the map it implements.
\<close>

section \<open>A concrete trie\<close>

definition no_lru :: "unit lru" where
  "no_lru = \<lparr>lru_new = (\<lambda>_. ()), lru_get = (\<lambda>_ c. (None, c)), lru_set = (\<lambda>_ _ c. c), lru_size = (\<lambda>_. 0)\<rparr>"

definition sample_trie :: "unit mpt" where
  "sample_trie = \<lparr>mpt_options = default_opts, mpt_db = new_checkpoint_db no_lru (\<lambda>_. None) (Some 0) (Some EncBytes),
     mpt_root = EMPTY_TRIE_ROOT sample_externals, mpt_hashLen = 32, lock_permits = 1\<rparr>"

lemma hash32_sample [simp]: "hash32 sample_externals"
  by (simp add: hash32_def sample_externals_def length_setLengthLeft)

lemma sample_ready: "ready sample_externals sample_trie" "holds sample_externals sample_trie None"
  by (simp_all add: ready_def holds_def sample_trie_def new_checkpoint_db_def db_ok_def cd_view_def disk_view_def default_opts_def)

lemma sample_options [simp]: "mpt_options sample_trie = default_opts"
  by (simp add: sample_trie_def)

lemma default_key [simp]: "appliedKey x default_opts k = k"
  by (simp add: appliedKey_def default_opts_def)

abbreviation sample_leaf :: trie where
  "sample_leaf \<equiv> TLeaf [1, 2] [0xAB]"

lemma sample_key: "bytesToNibbles [0x12] = [1, 2]"
  by code_simp

lemma sample_enc: "enc sample_externals sample_leaf = [0xC5, 0x82, 0x20, 0x12, 0x81, 0xAB]"
  by code_simp

lemma sample_fits: "fits sample_externals sample_leaf" "collision_free sample_externals (encs sample_externals sample_leaf)"
proof -
  have "inj_on (keccak256 sample_externals) {[0x80], [0xC5, 0x82, 0x20, 0x12, 0x81, 0xAB]}"
    by (simp add: sample_externals_def setLengthLeft_short)
  then show "fits sample_externals sample_leaf" "collision_free sample_externals (encs sample_externals sample_leaf)"
    using sample_enc by (simp_all add: fits_def collision_free_def encs_def RLP_EMPTY_STRING_def)
qed


section \<open>Reads see the last writes\<close>

lemma holds_ok: "holds x s T \<Longrightarrow> case T of None \<Rightarrow> True | Some t \<Rightarrow> t_ok t"
  by (auto simp: holds_def split: option.splits)

lemma reads:
  assumes "hash32 x" "becomes x s s' T"
  shows "\<exists>s''. mpt_get x L k False s' = (Inr (js_value (content T (bytesToNibbles (appliedKey x (mpt_options s) k)))), s'')"
  using get_holds [OF assms(1), of s' T False L k] assms(2) by (auto simp: becomes_def)

text \<open>C25: put refines the update of a map: on a trie whose database holds the trie T, \<open>put\<close> of a non-empty value
  returns with the lock released; the database holds the trie with the key inserted, whose contents are those of T
  with the key mapped to the value; and every later \<open>get\<close> returns what that map says, null for an absent key.\<close>

theorem trie_put_then_get:
  assumes ok: "hash32 x" "noble_ok x" "ready x s" "holds x s T" "v \<noteq> []"
    and new: "T' = inserted T (bytesToNibbles (appliedKey x (mpt_options s) key)) v" "fits x T'" "collision_free x (encs x T')"
  shows "\<exists>s'. mpt_put x L key (Some v) False s = (Inr (), s') \<and> ready x s' \<and> holds x s' (Some T')
    \<and> content (Some T') = (content T)(bytesToNibbles (appliedKey x (mpt_options s) key) \<mapsto> v)
    \<and> (\<forall>k. \<exists>s''. mpt_get x L k False s' = (Inr (js_value
         (((content T)(bytesToNibbles (appliedKey x (mpt_options s) key) \<mapsto> v)) (bytesToNibbles (appliedKey x (mpt_options s) k)))), s''))"
proof -
  obtain s' where s': "mpt_put x L key (Some v) False s = (Inr (), s')" "becomes x s s' (Some T')"
    using put_holds [OF ok new] by blast
  have c: "content (Some T') = (content T)(bytesToNibbles (appliedKey x (mpt_options s) key) \<mapsto> v)"
    using inserted_ok [OF holds_ok [OF ok(4)] nibs_bytes ok(5)] new(1) by simp
  show ?thesis using s' c reads [OF ok(1) s'(2), of L] by (auto simp: becomes_def simp del: fun_upd_apply)
qed

theorem trie_put_then_get_witness:
  "\<exists>s'. mpt_put sample_externals no_lru [0x12] (Some [0xAB]) False sample_trie = (Inr (), s')
    \<and> (\<exists>s''. mpt_get sample_externals no_lru [0x12] False s' = (Inr (RBytes [0xAB]), s''))
    \<and> (\<exists>s''. mpt_get sample_externals no_lru [0x34] False s' = (Inr RNull, s''))"
proof -
  have k: "bytesToNibbles [0x34] = [3, 4]" by code_simp
  have "inserted None (bytesToNibbles (appliedKey sample_externals (mpt_options sample_trie) [0x12])) [0xAB] = sample_leaf"
    by (simp add: inserted_def sample_key)
  from trie_put_then_get [OF hash32_sample noble_ok_sample sample_ready, of "[0xAB]" sample_leaf "[0x12]", OF _ this [symmetric] sample_fits,
    of no_lru]
  obtain s' where s': "mpt_put sample_externals no_lru [0x12] (Some [0xAB]) False sample_trie = (Inr (), s')"
    "\<forall>k. \<exists>s''. mpt_get sample_externals no_lru k False s' = (Inr (js_value (((content None)([1, 2] \<mapsto> [0xAB])) (bytesToNibbles k))), s'')"
    by (auto simp: sample_key)
  show ?thesis using s'(1) s'(2) [rule_format, of "[0x12]"] s'(2) [rule_format, of "[0x34]"] sample_key k
    by (auto simp: js_value_def content_def)
qed

text \<open>C26: del refines the removal of a key: where no branch of the trie holds a value, as with keys of one length
  (or hashed keys), \<open>del\<close> returns with the lock released, the database holds the trie without the key, collapsed to its
  canonical form, and every later \<open>get\<close> returns what the map without the key says.\<close>

theorem trie_del_then_get:
  assumes ok: "hash32 x" "noble_ok x" "ready x s" "holds x s T"
    and key: "ks = bytesToNibbles (appliedKey x (mpt_options s) key)" "\<And>t. T = Some t \<Longrightarrow> no_values t \<and> \<not> ends_at_branch t ks"
    and new: "\<And>t'. deleted T ks = Some t' \<Longrightarrow> fits x t' \<and> collision_free x (encs x t')"
  shows "\<exists>s'. mpt_del x L key False s = (Inr (), s') \<and> ready x s' \<and> holds x s' (deleted T ks) \<and> content (deleted T ks) = (content T)(ks := None)
    \<and> (\<forall>k. \<exists>s''. mpt_get x L k False s' = (Inr (js_value (((content T)(ks := None)) (bytesToNibbles (appliedKey x (mpt_options s) k)))), s''))"
proof -
  obtain s' where s': "mpt_del x L key False s = (Inr (), s')" "becomes x s s' (deleted T ks)"
    using del_holds [OF ok key new] by blast
  have c: "content (deleted T ks) = (content T)(ks := None)" by (rule deleted_content [OF holds_ok [OF ok(4)]])
  show ?thesis using s' c reads [OF ok(1) s'(2), of L] by (auto simp: becomes_def simp del: fun_upd_apply)
qed

lemma sample_full: "\<exists>s. mpt_put sample_externals no_lru [0x12] (Some [0xAB]) False sample_trie = (Inr (), s)
    \<and> becomes sample_externals sample_trie s (Some sample_leaf)"
  using put_holds [OF hash32_sample noble_ok_sample sample_ready, of "[0xAB]" sample_leaf "[0x12]" no_lru] sample_fits sample_key
  by (simp add: inserted_def)

theorem trie_del_then_get_witness:
  "\<exists>s s'. mpt_put sample_externals no_lru [0x12] (Some [0xAB]) False sample_trie = (Inr (), s)
    \<and> mpt_del sample_externals no_lru [0x12] False s = (Inr (), s') \<and> mpt_root s' = EMPTY_TRIE_ROOT sample_externals
    \<and> (\<exists>s''. mpt_get sample_externals no_lru [0x12] False s' = (Inr RNull, s''))"
proof -
  obtain s where s: "mpt_put sample_externals no_lru [0x12] (Some [0xAB]) False sample_trie = (Inr (), s)"
    "becomes sample_externals sample_trie s (Some sample_leaf)" using sample_full by blast
  have d: "deleted (Some sample_leaf) [1, 2] = None" by (simp add: deleted_def)
  have "ready sample_externals s" "holds sample_externals s (Some sample_leaf)" "mpt_options s = default_opts"
    using s(2) by (simp_all add: becomes_def)
  from trie_del_then_get [OF hash32_sample noble_ok_sample this(1,2), of "[1, 2]" "[0x12]" no_lru] this(3)
  obtain s' where s': "mpt_del sample_externals no_lru [0x12] False s = (Inr (), s')" "holds sample_externals s' None"
    "\<forall>k. \<exists>s''. mpt_get sample_externals no_lru k False s' = (Inr (js_value (((content (Some sample_leaf))([1, 2] := None)) (bytesToNibbles k))), s'')"
    by (auto simp: sample_key d [unfolded One_nat_def] ends_at_branch_def)
  have "\<exists>s''. mpt_get sample_externals no_lru [0x12] False s' = (Inr RNull, s'')"
    using s'(3) [rule_format, of "[0x12]"] by (simp add: sample_key js_value_def)
  then show ?thesis using s(1) s'(1,2) by (auto simp: holds_def)
qed


section \<open>The root commits to the contents\<close>

text \<open>C27: two databases that hold tries have the same root exactly when the tries have the same contents, whatever the
  order of the writes that led there; from equal contents to equal roots always, and back as long as no two of the
  encodings involved have the same hash.\<close>

theorem root_commits_to_contents:
  assumes "hash32 x" "holds x s T" "holds x s' T'"
    and "collision_free x ((case T of None \<Rightarrow> {} | Some t \<Rightarrow> encs x t) \<union> (case T' of None \<Rightarrow> {} | Some t \<Rightarrow> encs x t))"
  shows "mpt_root s = mpt_root s' \<longleftrightarrow> content T = content T'"
  using same_root [OF assms(2,3)] same_content [OF assms(1-3) _ assms(4)] by blast

theorem root_commits_to_contents_witness:
  "\<exists>s. mpt_put sample_externals no_lru [0x12] (Some [0xAB]) False sample_trie = (Inr (), s) \<and> mpt_root s \<noteq> mpt_root sample_trie"
proof -
  obtain s where s: "mpt_put sample_externals no_lru [0x12] (Some [0xAB]) False sample_trie = (Inr (), s)"
    "becomes sample_externals sample_trie s (Some sample_leaf)" using sample_full by blast
  have "content (Some sample_leaf) \<noteq> content None" by (auto simp: content_def fun_eq_iff)
  then show ?thesis using s root_commits_to_contents [OF hash32_sample _ sample_ready(2), of s "Some sample_leaf"] sample_fits(2)
    by (simp add: becomes_def)
qed

section \<open>Merkle proofs\<close>

text \<open>The empty trie makes the empty proof, and the empty proof against its root is refused.\<close>

lemma empty_trie_proof:
  assumes x: "hash32 x" "noble_ok x" and s: "ready x s" "holds x s None"
  shows "\<exists>s'. createMerkleProof x L key s = (Inr [], s')"
    "verifyMPTWithMerkleProof x L s (mpt_root s) key [] = Inl (PlainError ''Invalid proof provided'')"
proof -
  have root: "mpt_root s = EMPTY_TRIE_ROOT x" using s(2) by (simp add: holds_def)
  have view: "mpt_view x s (node_key x (mpt_options s) RLP_EMPTY_STRING) = None" using s(1) by (simp add: ready_def)
  show "\<exists>s'. createMerkleProof x L key s = (Inr [], s')"
    using findPath_empty [OF _ view root, of L "appliedKey x (mpt_options s) key" False] s(1)
    by (auto simp: createMerkleProof_def sx_run ready_def)
  let ?root = "mpt_root s"
  have new: "new_mpt x L default_opts None (Some ?root) = Inr (proof_trie x L ?root)"
    using new_proof_trie [OF x(1), of ?root L] x(1) by (simp add: root hash32_def mpt_hash_def EMPTY_TRIE_ROOT_def)
  obtain t where t: "updateMPTFromMerkleProof x L [] True (proof_trie x L ?root) = (Inr None, t)"
    "db_ok x (mpt_db t)" "mpt_options t = default_opts" "mpt_root t = ?root" "mpt_view x t = (\<lambda>_. None)"
    using proof_loaded [OF x, of L "[]" ?root] by auto
  obtain t' where "findPath x L (appliedKey x default_opts (appliedKey x (mpt_options s) key)) True t = (Inl Missing, t')"
    using findPath_empty [OF t(2), of L _ True] t(4,5) root by fastforce
  then have "mpt_get x L (appliedKey x (mpt_options s) key) True t = (Inl Missing, t')" by (simp add: mpt_get_def sx_run t(3))
  then show "verifyMPTWithMerkleProof x L s ?root key [] = Inl (PlainError ''Invalid proof provided'')"
    by (simp add: verifyMPTWithMerkleProof_def new t(1))
qed

text \<open>C28: Merkle proofs are complete and sound. The proof that a trie with contents makes for a key, present or absent,
  verifies against its root to the value (or null). And whatever nodes a prover sends, verifying them against the root of
  such a trie gives what that trie holds under the key, or fails: no list of nodes proves a wrong value or a wrong absence,
  unless it exhibits a hash collision. The empty trie is the exception to completeness: its proof is the empty list, and
  verifying that against its root fails, so the absence of a key from the empty trie has no proof.\<close>

theorem merkle_proofs_sound_and_complete:
  assumes x: "hash32 x" "noble_ok x" and s: "ready x s" "holds x s T"
    and ks: "ks = bytesToNibbles (appliedKey x (mpt_options s) key)"
  shows "case T of
      Some t \<Rightarrow> (\<exists>ns s'. createMerkleProof x L key s = (Inr ns, s') \<and> (collision_free x (encs x t) \<longrightarrow>
          verifyMPTWithMerkleProof x L s (mpt_root s) key ns = Inr (js_value (content (Some t) ks))))
        \<and> (\<forall>ns. collision_free x (set ns \<union> encs x t) \<longrightarrow> verifyMPTWithMerkleProof x L s (mpt_root s) key ns \<in>
          {Inr (js_value (content (Some t) ks)), Inl (PlainError ''Invalid proof provided''), Inl (PlainError ''Invalid proof nodes given'')})
    | None \<Rightarrow> (\<exists>s'. createMerkleProof x L key s = (Inr [], s'))
        \<and> verifyMPTWithMerkleProof x L s (mpt_root s) key [] = Inl (PlainError ''Invalid proof provided'')"
proof (cases T)
  case None
  then show ?thesis using empty_trie_proof [OF x s(1)] s(2) by simp
next
  case (Some t)
  have s2: "holds x s (Some t)" using s(2) Some by simp
  have t: "t_ok t" "fits x t" "mpt_root s = mpt_hash x (enc x t)" using s2 by (simp_all add: holds_def)
  let ?path = "fst (t_path t ks)"
  obtain s' where s': "createMerkleProof x L key s = (Inr (map (enc x) ?path), s')"
    using create_holds [OF x(1) s(1) s2, of L key] ks by auto
  obtain ts where ts: "?path = t # ts" using path_starts [of t ks] by blast
  have "set (map (enc x) ?path) \<union> encs x t = encs x t" using path_subs [OF t(1), of ks] by (auto simp: encs_def)
  then have "collision_free x (encs x t) \<Longrightarrow> verifyMPTWithMerkleProof x L s (mpt_root s) key (map (enc x) ?path) = Inr (js_value (content (Some t) ks))"
    using verify_result(2) [OF x t(1,2) _ ks, of "map (enc x) ?path" L] ts t(3) by (simp add: content_def)
  then have "\<exists>ns s'. createMerkleProof x L key s = (Inr ns, s') \<and> (collision_free x (encs x t) \<longrightarrow>
      verifyMPTWithMerkleProof x L s (mpt_root s) key ns = Inr (js_value (content (Some t) ks)))" using s' by blast
  moreover have "verifyMPTWithMerkleProof x L s (mpt_root s) key ns \<in>
      {Inr (js_value (content (Some t) ks)), Inl (PlainError ''Invalid proof provided''), Inl (PlainError ''Invalid proof nodes given'')}"
    if "collision_free x (set ns \<union> encs x t)" for ns
    using verify_result(1) [OF x t(1,2) that ks] t(3) by (simp add: content_def)
  ultimately show ?thesis using Some by auto
qed

theorem merkle_proofs_witness:
  "\<exists>s ns s'. mpt_put sample_externals no_lru [0x12] (Some [0xAB]) False sample_trie = (Inr (), s)
    \<and> createMerkleProof sample_externals no_lru [0x12] s = (Inr ns, s')
    \<and> verifyMPTWithMerkleProof sample_externals no_lru s (mpt_root s) [0x12] ns = Inr (RBytes [0xAB])
    \<and> verifyMPTWithMerkleProof sample_externals no_lru s (mpt_root s) [0x12] [[0xC5, 0x82, 0x20, 0x12, 0x81, 0xAB]] \<in>
      {Inr (RBytes [0xAB]), Inl (PlainError ''Invalid proof provided''), Inl (PlainError ''Invalid proof nodes given'')}"
proof -
  obtain s where s: "mpt_put sample_externals no_lru [0x12] (Some [0xAB]) False sample_trie = (Inr (), s)"
    "becomes sample_externals sample_trie s (Some sample_leaf)" using sample_full by blast
  have b: "ready sample_externals s" "holds sample_externals s (Some sample_leaf)" "mpt_options s = default_opts" using s(2) by (simp_all add: becomes_def)
  have val: "js_value (content (Some sample_leaf) (bytesToNibbles (appliedKey sample_externals (mpt_options s) [0x12]))) = RBytes [0xAB]"
    using b(3) by (simp add: sample_key content_def js_value_def)
  have "set [[0xC5, 0x82, 0x20, 0x12, 0x81, 0xAB]] \<union> encs sample_externals sample_leaf = encs sample_externals sample_leaf"
    using sample_enc by (simp add: encs_def)
  moreover note merkle_proofs_sound_and_complete [OF hash32_sample noble_ok_sample b(1,2) refl, where L = no_lru and key = "[0x12]", unfolded option.case val]
  ultimately show ?thesis using s(1) sample_fits(2) by metis
qed

section \<open>Checkpoints\<close>

text \<open>C29: revert undoes, for the trie, everything since its checkpoint: after a checkpoint and any run of calls of put,
  del, batch and get that returned and of properly nested commits and reverts, \<open>revert\<close> succeeds and restores the
  root, the contents of the database and what every outer checkpoint would restore; \<open>commit\<close> instead keeps the
  current root and contents and leaves the outer checkpoints as they were.\<close>

theorem trie_revert_restores:
  fixes s t u :: "'c mpt"
  assumes "trie_wf x s" "mpt_checkpoint s = (Inr (), t)" "balanced (trie_call x L) mpt_checkpoint (mpt_commit x L) (mpt_revert x L) t u"
  shows "(\<exists>v. mpt_revert x L u = (Inr (), v) \<and> trie_wf x v \<and> trie_frames x v = trie_frames x s)
    \<and> (\<exists>v. mpt_commit x L u = (Inr (), v) \<and> trie_wf x v \<and> trie_frames x v = hd (trie_frames x u) # tl (trie_frames x s))"
  using trie_cp.revert_restores [OF assms] trie_cp.commit_keeps [OF assms] by blast+

theorem trie_revert_restores_witness:
  "\<exists>t u v. mpt_checkpoint sample_trie = (Inr (), t) \<and> mpt_put sample_externals no_lru [0x12] (Some [0xAB]) False t = (Inr (), u)
    \<and> mpt_root u \<noteq> mpt_root sample_trie \<and> mpt_revert sample_externals no_lru u = (Inr (), v) \<and> mpt_root v = mpt_root sample_trie"
proof -
  have wf: "trie_wf sample_externals sample_trie"
    using sample_ready(1) by (simp add: trie_wf_def ready_def) (simp add: sample_trie_def new_checkpoint_db_def cd_saved_def EMPTY_TRIE_ROOT_def mpt_hash_def
      sample_externals_def length_setLengthLeft)
  obtain t where t: "mpt_checkpoint sample_trie = (Inr (), t)" "trie_wf sample_externals t"
    "trie_frames sample_externals t = hd (trie_frames sample_externals sample_trie) # trie_frames sample_externals sample_trie"
    using trie_cp.checkpoint_law [OF wf] by blast
  have same: "mpt_root t = mpt_root sample_trie" "mpt_view sample_externals t = mpt_view sample_externals sample_trie"
    using t(3) by (simp_all add: trie_frames_def)
  have opt: "mpt_options t = default_opts" "mpt_hashLen t = 32" using t(1) by (auto simp: mpt_checkpoint_def sx_run on_db_def sample_trie_def split: prod.splits sum.splits)
  have "ready sample_externals t" "holds sample_externals t None" using t(2) same opt sample_ready
    by (simp_all add: ready_def trie_wf_def holds_def default_opts_def)
  from put_holds [OF hash32_sample noble_ok_sample this, of "[0xAB]" sample_leaf "[0x12]" no_lru] opt(1)
  obtain u where u: "mpt_put sample_externals no_lru [0x12] (Some [0xAB]) False t = (Inr (), u)" "becomes sample_externals t u (Some sample_leaf)"
    using sample_fits sample_key by (auto simp: inserted_def)
  have "trie_call sample_externals no_lru t u" using u(1) by (auto simp: trie_call_def)
  then have "balanced (trie_call sample_externals no_lru) mpt_checkpoint (mpt_commit sample_externals no_lru) (mpt_revert sample_externals no_lru) t u"
    by (blast intro: balanced.intros)
  from trie_revert_restores [OF wf t(1) this] obtain v where v: "mpt_revert sample_externals no_lru u = (Inr (), v)"
    "trie_frames sample_externals v = trie_frames sample_externals sample_trie" by blast
  have "mpt_root u \<noteq> mpt_root sample_trie" using u(2) sample_ready(2) unfolding becomes_def holds_def by auto
  then show ?thesis using t(1) u(1) v by (auto simp: trie_frames_def)
qed


section \<open>Batches return\<close>

definition with_puts :: "externals \<Rightarrow> mpt_opts \<Rightarrow> (bytes \<times> bytes) list \<Rightarrow> trie option \<Rightarrow> trie option" where
  "with_puts x opts kvs T = foldl (\<lambda>T (k, v). Some (inserted T (bytesToNibbles (appliedKey x opts k)) v)) T kvs"

fun map_puts :: "externals \<Rightarrow> mpt_opts \<Rightarrow> (bytes \<times> bytes) list \<Rightarrow> (nibbles \<Rightarrow> bytes option) \<Rightarrow> nibbles \<Rightarrow> bytes option" where
  "map_puts x opts [] m = m"
| "map_puts x opts ((k, v) # kvs) m = map_puts x opts kvs (m(bytesToNibbles (appliedKey x opts k) \<mapsto> v))"

abbreviation put_ops :: "(bytes \<times> bytes) list \<Rightarrow> (bytes, bytes option) db_op list" where
  "put_ops kvs \<equiv> map (\<lambda>(k, v). PutOp k (Some v)) kvs"

definition sound_trie :: "externals \<Rightarrow> trie option \<Rightarrow> bool" where
  "sound_trie x T \<longleftrightarrow> (case T of None \<Rightarrow> True | Some t \<Rightarrow> fits x t \<and> collision_free x (encs x t))"

lemma batch_loop_holds:
  assumes "hash32 x" "noble_ok x"
  shows "ready x s \<Longrightarrow> holds x s T \<Longrightarrow> \<forall>(k, v)\<in>set kvs. v \<noteq> [] \<Longrightarrow>
    \<forall>n\<le>length kvs. sound_trie x (with_puts x (mpt_options s) (take n kvs) T) \<Longrightarrow>
    \<exists>s'. mpt_batch_loop x L (put_ops kvs) False s = (Inr (), s') \<and> becomes x s s' (with_puts x (mpt_options s) kvs T)
      \<and> content (with_puts x (mpt_options s) kvs T) = map_puts x (mpt_options s) kvs (content T)"
proof (induction kvs arbitrary: s T)
  case Nil
  then show ?case by (simp add: with_puts_def becomes_def)
next
  case (Cons kv kvs)
  obtain k v where kv: "kv = (k, v)" by fastforce
  let ?ks = "bytesToNibbles (appliedKey x (mpt_options s) k)"
  let ?t = "inserted T ?ks v"
  have v: "v \<noteq> []" using Cons.prems(3) kv by simp
  have rest: "with_puts x (mpt_options s) (take (Suc n) (kv # kvs)) T = with_puts x (mpt_options s) (take n kvs) (Some ?t)" for n
    by (simp add: with_puts_def kv)
  have "fits x ?t" "collision_free x (encs x ?t)" using Cons.prems(4) [rule_format, of 1] rest [of 0] by (simp_all add: sound_trie_def with_puts_def)
  then obtain s1 where s1: "mpt_put x L k (Some v) False s = (Inr (), s1)" "becomes x s s1 (Some ?t)"
    using put_holds [OF assms Cons.prems(1,2) v refl] by blast
  have s1': "ready x s1" "holds x s1 (Some ?t)" "mpt_options s1 = mpt_options s" "cd_saved x (mpt_db s1) = cd_saved x (mpt_db s)"
    using s1(2) by (simp_all add: becomes_def)
  have "\<forall>n\<le>length kvs. sound_trie x (with_puts x (mpt_options s1) (take n kvs) (Some ?t))"
  proof (intro allI impI)
    fix n assume "n \<le> length kvs"
    then show "sound_trie x (with_puts x (mpt_options s1) (take n kvs) (Some ?t))"
      using Cons.prems(4) [rule_format, of "Suc n"] rest [of n] s1'(3) by simp
  qed
  with Cons.IH [OF s1'(1,2)] Cons.prems(3) obtain s2 where s2: "mpt_batch_loop x L (put_ops kvs) False s1 = (Inr (), s2)"
    "becomes x s1 s2 (with_puts x (mpt_options s) kvs (Some ?t))"
    "content (with_puts x (mpt_options s) kvs (Some ?t)) = map_puts x (mpt_options s) kvs (content (Some ?t))"
    using s1'(3) by auto
  have "content (Some ?t) = (content T)(?ks \<mapsto> v)" using inserted_ok [OF holds_ok [OF Cons.prems(2)] nibs_bytes v] by simp
  then show ?case using s1(1) s2 s1'(3,4) kv by (auto simp: sx_run becomes_def with_puts_def)
qed

text \<open>C30: a batch of puts always returns. Each of its calls finds its path in finitely many steps, takes the lock and gives it
  back, so \<open>batch\<close> on a trie whose lock is free returns with the lock free again, and the trie holds the entries in
  the order given, later ones over earlier ones.\<close>

theorem trie_batch_returns:
  assumes "hash32 x" "noble_ok x" "ready x s" "holds x s T" "\<forall>(k, v)\<in>set kvs. v \<noteq> []"
    and "\<forall>n\<le>length kvs. sound_trie x (with_puts x (mpt_options s) (take n kvs) T)"
  shows "\<exists>s'. mpt_batch x L (put_ops kvs) False s = (Inr (), s') \<and> lock_permits s' = 1
    \<and> holds x s' (with_puts x (mpt_options s) kvs T)
    \<and> content (with_puts x (mpt_options s) kvs T) = map_puts x (mpt_options s) kvs (content T)"
proof -
  obtain s' where s': "mpt_batch_loop x L (put_ops kvs) False s = (Inr (), s')" "becomes x s s' (with_puts x (mpt_options s) kvs T)"
    "content (with_puts x (mpt_options s) kvs T) = map_puts x (mpt_options s) kvs (content T)"
    using batch_loop_holds [OF assms(1,2), of s T kvs L] assms(3-6) by blast
  have "ready x s'" "holds x s' (with_puts x (mpt_options s) kvs T)" using s'(2) by (simp_all add: becomes_def)
  then show ?thesis using s'(1,3) by (auto simp: mpt_batch_def sx_run persistRoot_def ready_def Let_def)
qed

theorem trie_batch_returns_witness:
  "\<exists>s'. mpt_batch sample_externals no_lru [PutOp [0x12] (Some [0xAB]), PutOp [0x12] (Some [0xAB])] False sample_trie = (Inr (), s') \<and> lock_permits s' = 1"
proof -
  have i: "inserted (Some sample_leaf) [1, 2] [0xAB] = sample_leaf" "inserted None [1, 2] [0xAB] = sample_leaf"
    by (simp_all add: inserted_def t_split_def)
  have "with_puts sample_externals default_opts (take n [([0x12], [0xAB]), ([0x12], [0xAB])]) None \<in> {None, Some sample_leaf}" for n
    using i by (auto simp: with_puts_def sample_key take_Cons split: nat.split)
  moreover have "sound_trie sample_externals T" if "T \<in> {None, Some sample_leaf}" for T
    using that sample_fits unfolding sound_trie_def by auto
  ultimately have "\<forall>n\<le>length [([0x12], [0xAB]), ([0x12], [0xAB])]. sound_trie sample_externals
      (with_puts sample_externals (mpt_options sample_trie) (take n [([0x12], [0xAB]), ([0x12], [0xAB])]) None)" by simp
  from trie_batch_returns [OF hash32_sample noble_ok_sample sample_ready _ this, of no_lru] show ?thesis by auto
qed

section \<open>Where the code departs from the map\<close>

text \<open>\<open>BranchMPTNode.value(null)\<close> reads the value instead of clearing it, so deleting a key that ends at a branch
  leaves the value there.\<close>

lemma branch_value_stays:
  "detach x opts key (BranchMPTNode bs v) parent stack = Inr (BranchMPTNode bs v, Some parent, stack, key, [])"
  by (simp add: detach_def)

text \<open>When deletion leaves a branch with one child, the branch goes away with whatever value it has: the key that
  ends there is lost along with the deleted one.\<close>

lemma collapse_loses_branch_value:
  assumes "pop_key (splice_from (bytesToNibbles k) (int (length (bytesToNibbles k)) - int (length lk))) = Some i"
    "length (getChildren (bs[i := RNull])) = 1" "i < length bs"
  shows "deleteNode x L k (stack @ [BranchMPTNode bs v, LeafMPTNode lk lv]) = deleteNode x L k (stack @ [BranchMPTNode bs w, LeafMPTNode lk lv])"
proof (rule ext)
  fix s
  show "deleteNode x L k (stack @ [BranchMPTNode bs v, LeafMPTNode lk lv]) s = deleteNode x L k (stack @ [BranchMPTNode bs w, LeafMPTNode lk lv]) s"
    using assms by (cases "formatNode x (mpt_options s) (LeafMPTNode lk lv) False True")
      (simp_all add: deleteNode_def pop_node_def detach_def is_branch_def butlast_append array_set_def sx_run Let_def split: prod.split)
qed

text \<open>A key that ends at the root node, as the empty key does at a branch, deletes the whole trie.\<close>

lemma deleting_at_the_root_empties: "deleteNode x L k [n] = set_root (EMPTY_TRIE_ROOT x)"
  by (simp add: deleteNode_def pop_node_def)

text \<open>A call that throws keeps the lock, and no later write returns.\<close>

lemma failed_call_keeps_lock:
  assumes "lock_permits s = 1" "findPath x L (if skip then key else appliedKey x (mpt_options s) key) False (s\<lparr>lock_permits := 0\<rparr>) = (Inl e, t)"
    "lock_permits t = 0"
  shows "mpt_del x L key skip s = (Inl e, t)" "v \<noteq> [] \<Longrightarrow> \<not> useRootPersistence (mpt_options t) \<Longrightarrow> fst (mpt_put x L k (Some v) skip t) = Inl NeverReturns"
  using assms by (cases skip, simp_all add: mpt_del_def mpt_put_def sx_run acquire_def Let_def)

end
