(* ===== verification/EvmStack.thy ===== *)
theory EvmStack
  imports Prelude
begin

text \<open>
  The operand stack of \<open>src/packages/evm/src/stack.ts\<close>. The class keeps an array that never
  shrinks and a separate length, so popped items stay in the array; \<open>stack_view\<close> is the
  list of the reachable items, top first, and each operation is shown to implement the
  corresponding list operation, with the source's order of the underflow and overflow checks.
\<close>

section \<open>State and operations\<close>

record stack =
  stk_store :: "int list"
  stk_maxHeight :: nat
  stk_len :: nat

definition new_stack :: "nat option \<Rightarrow> stack" where
  "new_stack maxHeight =
     \<lparr>stk_store = [], stk_maxHeight = (case maxHeight of None \<Rightarrow> 1024 | Some h \<Rightarrow> h), stk_len = 0\<rparr>"

type_synonym 'a stack_op = "(stack, 'a) sx"

definition store_at :: "int \<Rightarrow> stack \<Rightarrow> stack" where
  "store_at v st = st\<lparr>stk_store := array_set 0 (stk_store st) (stk_len st) v, stk_len := stk_len st + 1\<rparr>"

definition stack_push :: "int \<Rightarrow> unit stack_op" where
  "stack_push v = (\<lambda>st.
     if stk_len st \<ge> stk_maxHeight st then (Inl (EVMError STACK_OVERFLOW), st)
     else (Inr (), store_at v st))"

definition stack_pop :: "int stack_op" where
  "stack_pop = (\<lambda>st.
     if stk_len st < 1 then (Inl (EVMError STACK_UNDERFLOW), st)
     else (Inr (stk_store st ! (stk_len st - 1)), st\<lparr>stk_len := stk_len st - 1\<rparr>))"

fun popN_loop :: "nat \<Rightarrow> int list \<Rightarrow> stack \<Rightarrow> int list \<times> stack" where
  "popN_loop 0 arr st = (arr, st)"
| "popN_loop (Suc k) arr st =
     popN_loop k (arr @ [stk_store st ! (stk_len st - 1)]) (st\<lparr>stk_len := stk_len st - 1\<rparr>)"

definition stack_popN :: "nat \<Rightarrow> int list stack_op" where
  "stack_popN num = (\<lambda>st.
     if stk_len st < num then (Inl (EVMError STACK_UNDERFLOW), st)
     else if num = 0 then (Inr [], st)
     else case popN_loop num [] st of (arr, st') \<Rightarrow> (Inr arr, st'))"

fun peek_loop :: "nat \<Rightarrow> nat \<Rightarrow> int list \<Rightarrow> stack \<Rightarrow> exn + int list" where
  "peek_loop 0 start arr st = Inr arr"
| "peek_loop (Suc k) start arr st =
     (if start < 1 then Inl (EVMError STACK_UNDERFLOW)
      else peek_loop k (start - 1) (arr @ [stk_store st ! (start - 1)]) st)"

definition stack_peek :: "nat \<Rightarrow> int list stack_op" where
  "stack_peek num = (\<lambda>st. (peek_loop num (stk_len st) [] st, st))"

definition stack_swap :: "nat \<Rightarrow> unit stack_op" where
  "stack_swap position = (\<lambda>st.
     if stk_len st \<le> position then (Inl (EVMError STACK_UNDERFLOW), st)
     else let head = stk_len st - 1; i = head - position;
              tmp = stk_store st ! head;
              s1 = (stk_store st)[head := stk_store st ! i]
          in (Inr (), st\<lparr>stk_store := s1[i := tmp]\<rparr>))"

definition stack_dup :: "nat \<Rightarrow> unit stack_op" where
  "stack_dup position = (\<lambda>st.
     if stk_len st < position then (Inl (EVMError STACK_UNDERFLOW), st)
     else if stk_len st \<ge> stk_maxHeight st then (Inl (EVMError STACK_OVERFLOW), st)
     else (Inr (), store_at (stk_store st ! (stk_len st - position)) st))"

definition stack_exchange :: "nat \<Rightarrow> nat \<Rightarrow> unit stack_op" where
  "stack_exchange swap1 swap2 = (\<lambda>st.
     let headIndex = int (stk_len st) - 1;
         i1 = headIndex - int swap1; i2 = headIndex - int swap2
     in if i1 < 0 \<or> i2 < 0 then (Inl (EVMError STACK_UNDERFLOW), st)
        else let cache = stk_store st ! nat i2;
                 s1 = (stk_store st)[nat i2 := stk_store st ! nat i1]
             in (Inr (), st\<lparr>stk_store := s1[nat i1 := cache]\<rparr>))"

definition getStack :: "stack \<Rightarrow> int list" where
  "getStack st = take (stk_len st) (stk_store st)"

section \<open>Invariant and abstraction\<close>

definition stack_wf :: "stack \<Rightarrow> bool" where
  "stack_wf st \<longleftrightarrow> stk_len st \<le> length (stk_store st) \<and> stk_len st \<le> stk_maxHeight st"

definition stack_view :: "stack \<Rightarrow> int list" where
  "stack_view st = rev (getStack st)"

lemma new_stack_wf [wf_intros]: "stack_wf (new_stack h)"
  by (simp add: new_stack_def stack_wf_def)

lemma new_stack_view [simp]: "stack_view (new_stack h) = []"
  by (simp add: new_stack_def stack_view_def getStack_def)

lemma length_stack_view [simp]: "stack_wf st \<Longrightarrow> length (stack_view st) = stk_len st"
  by (simp add: stack_view_def getStack_def stack_wf_def)

lemma stack_view_nth:
  "stack_wf st \<Longrightarrow> i < stk_len st \<Longrightarrow>
   stack_view st ! i = stk_store st ! (stk_len st - 1 - i)"
  by (simp add: stack_view_def getStack_def stack_wf_def rev_take_nth)

text \<open>Dropping the top \<open>n\<close> reachable items is a decrement of the length.\<close>

definition shrink :: "nat \<Rightarrow> stack \<Rightarrow> stack" where
  "shrink n st = st\<lparr>stk_len := stk_len st - n\<rparr>"

lemma shrink_wf [wf_intros]: "stack_wf st \<Longrightarrow> stack_wf (shrink n st)"
  by (auto simp: stack_wf_def shrink_def)

lemma shrink_view: "stack_wf st \<Longrightarrow> n \<le> stk_len st \<Longrightarrow> stack_view (shrink n st) = drop n (stack_view st)"
  by (simp add: stack_wf_def shrink_def stack_view_def getStack_def drop_rev)

lemma shrink_simps [simp]:
  "stk_len (shrink n st) = stk_len st - n"
  "stk_store (shrink n st) = stk_store st"
  "stk_maxHeight (shrink n st) = stk_maxHeight st"
  "shrink n (shrink m st) = shrink (m + n) st"
  "shrink 0 st = st"
  by (simp_all add: shrink_def)

lemma store_at_wf [wf_intros]:
  "stack_wf st \<Longrightarrow> stk_len st < stk_maxHeight st \<Longrightarrow> stack_wf (store_at v st)"
  by (auto simp: stack_wf_def store_at_def)

lemma store_at_view: "stack_wf st \<Longrightarrow> stack_view (store_at v st) = v # stack_view st"
  by (simp add: stack_wf_def store_at_def stack_view_def getStack_def take_array_set)

lemma store_at_simps [simp]:
  "stk_len (store_at v st) = Suc (stk_len st)"
  "stk_maxHeight (store_at v st) = stk_maxHeight st"
  by (simp_all add: store_at_def)

section \<open>Each operation on the reachable items\<close>

lemma push_run:
  assumes "stack_wf st"
  shows "stack_push v st =
    (if length (stack_view st) < stk_maxHeight st then (Inr (), store_at v st)
     else (Inl (EVMError STACK_OVERFLOW), st))"
  using assms by (simp add: stack_push_def)

lemma pop_run:
  assumes "stack_wf st"
  shows "stack_pop st =
    (case stack_view st of [] \<Rightarrow> (Inl (EVMError STACK_UNDERFLOW), st)
     | v # _ \<Rightarrow> (Inr v, shrink 1 st))"
proof (cases "stack_view st")
  case Nil
  then show ?thesis using length_stack_view [OF assms] by (simp add: stack_pop_def)
next
  case (Cons v vs)
  with length_stack_view [OF assms] have "stk_len st = Suc (length vs)" by simp
  moreover from this stack_view_nth [OF assms, of 0] Cons
  have "stk_store st ! (stk_len st - 1) = v" by simp
  ultimately show ?thesis using Cons by (simp add: stack_pop_def shrink_def)
qed

lemma popN_loop_run:
  "stack_wf st \<Longrightarrow> k \<le> stk_len st \<Longrightarrow>
   popN_loop k arr st = (arr @ take k (stack_view st), shrink k st)"
proof (induction k arr st rule: popN_loop.induct)
  case (2 k arr st)
  have st': "st\<lparr>stk_len := stk_len st - 1\<rparr> = shrink 1 st" by (simp add: shrink_def)
  have "length (stack_view st) = stk_len st" using 2(2) by (rule length_stack_view)
  with 2(3) have len: "0 < stk_len st" "stack_view st \<noteq> []" by auto
  then have "take (Suc k) (stack_view st) = stack_view st ! 0 # take k (drop 1 (stack_view st))"
    by (cases "stack_view st") auto
  moreover have "stack_view st ! 0 = stk_store st ! (stk_len st - 1)"
    using 2 len by (simp add: stack_view_nth)
  ultimately show ?case
    using 2 len by (simp only: popN_loop.simps st') (simp add: shrink_view wf_intros)
qed simp

lemma popN_run:
  assumes "stack_wf st"
  shows "stack_popN n st =
    (if n \<le> length (stack_view st) then (Inr (take n (stack_view st)), shrink n st)
     else (Inl (EVMError STACK_UNDERFLOW), st))"
  using assms by (auto simp: stack_popN_def popN_loop_run)

lemma peek_loop_run:
  "stack_wf st \<Longrightarrow> start \<le> stk_len st \<Longrightarrow>
   peek_loop k start arr st =
     (if k \<le> start then Inr (arr @ take k (drop (stk_len st - start) (stack_view st)))
      else Inl (EVMError STACK_UNDERFLOW))"
proof (induction k start arr st rule: peek_loop.induct)
  case (2 k start arr st)
  show ?case
  proof (cases "start < 1")
    case False
    let ?d = "stk_len st - start"
    have lt: "?d < length (stack_view st)" using 2 False by simp
    have "drop ?d (stack_view st) = stack_view st ! ?d # drop (stk_len st - (start - 1)) (stack_view st)"
      using 2(3) False by (simp add: Cons_nth_drop_Suc [OF lt, symmetric] Suc_diff_le)
    moreover have "stack_view st ! ?d = stk_store st ! (start - 1)"
      using 2 False by (simp add: stack_view_nth)
    ultimately show ?thesis using 2 False by auto
  qed simp
qed simp

lemma peek_run:
  "stack_wf st \<Longrightarrow> stack_peek n st =
    ((if n \<le> length (stack_view st) then Inr (take n (stack_view st))
      else Inl (EVMError STACK_UNDERFLOW)), st)"
  by (simp add: stack_peek_def peek_loop_run)

lemma dup_run:
  assumes "stack_wf st" "0 < n"
  shows "stack_dup n st =
    (if length (stack_view st) < n then (Inl (EVMError STACK_UNDERFLOW), st)
     else if length (stack_view st) \<ge> stk_maxHeight st then (Inl (EVMError STACK_OVERFLOW), st)
     else (Inr (), store_at (stack_view st ! (n - 1)) st))"
  using assms by (auto simp: stack_dup_def stack_view_nth)

text \<open>SWAP and EXCHANGE on the reachable items: two positions counted from the top.\<close>

definition exchange_list :: "nat \<Rightarrow> nat \<Rightarrow> 'a list \<Rightarrow> 'a list" where
  "exchange_list i j xs = xs[i := xs ! j, j := xs ! i]"

lemma length_exchange_list [simp]: "length (exchange_list i j xs) = length xs"
  by (simp add: exchange_list_def)

lemma exchange_store_view:
  assumes wf: "stack_wf st" and i: "i < stk_len st" and j: "j < stk_len st"
  defines "st' \<equiv> st\<lparr>stk_store := (stk_store st)
             [stk_len st - 1 - i := stk_store st ! (stk_len st - 1 - j),
              stk_len st - 1 - j := stk_store st ! (stk_len st - 1 - i)]\<rparr>"
  shows "stack_wf st'" "stack_view st' = exchange_list i j (stack_view st)"
proof -
  show wf': "stack_wf st'" using wf by (simp add: st'_def stack_wf_def)
  have len: "stk_len st' = stk_len st" by (simp add: st'_def)
  show "stack_view st' = exchange_list i j (stack_view st)"
  proof (rule nth_equalityI)
    show "length (stack_view st') = length (exchange_list i j (stack_view st))"
      using wf wf' len by simp
    fix k assume "k < length (stack_view st')"
    then have k: "k < stk_len st" using wf' len by simp
    have "stack_view st' ! k = stk_store st' ! (stk_len st - 1 - k)"
      using stack_view_nth [OF wf', of k] k len by simp
    then show "stack_view st' ! k = exchange_list i j (stack_view st) ! k"
      using wf i j k
      by (auto simp: st'_def exchange_list_def stack_view_nth nth_list_update stack_wf_def)
  qed
qed

lemma swap_under:
  "stack_wf st \<Longrightarrow> length (stack_view st) \<le> n \<Longrightarrow>
   stack_swap n st = (Inl (EVMError STACK_UNDERFLOW), st)"
  by (simp add: stack_swap_def)

lemma swap_run:
  assumes "stack_wf st" "n < length (stack_view st)"
  shows "\<exists>store. stack_swap n st = (Inr (), st\<lparr>stk_store := store\<rparr>)
           \<and> stack_wf (st\<lparr>stk_store := store\<rparr>)
           \<and> stack_view (st\<lparr>stk_store := store\<rparr>) = exchange_list 0 n (stack_view st)"
proof -
  have "n < stk_len st" "0 < stk_len st" using assms by auto
  then show ?thesis
    using exchange_store_view [OF assms(1), of 0 n] assms by (auto simp: stack_swap_def Let_def)
qed

lemma exchange_run:
  assumes "stack_wf st" "i < length (stack_view st)" "j < length (stack_view st)"
  shows "\<exists>store. stack_exchange i j st = (Inr (), st\<lparr>stk_store := store\<rparr>)
           \<and> stack_wf (st\<lparr>stk_store := store\<rparr>)
           \<and> stack_view (st\<lparr>stk_store := store\<rparr>) = exchange_list j i (stack_view st)"
proof -
  have ij: "i < stk_len st" "j < stk_len st" using assms by auto
  then have nats: "nat (int (stk_len st) - 1 - int i) = stk_len st - 1 - i"
    "nat (int (stk_len st) - 1 - int j) = stk_len st - 1 - j"
    "\<not> int (stk_len st) - 1 - int i < 0" "\<not> int (stk_len st) - 1 - int j < 0"
    by linarith+
  show ?thesis
    unfolding stack_exchange_def Let_def nats if_False
    using exchange_store_view [OF assms(1) ij(2) ij(1)] nats(3,4) by auto
qed

section \<open>The interface the instructions rely on\<close>

text \<open>
  An instruction sees the operand stack of its machine through \<open>push\<close> and \<open>popN\<close>. \<open>same\<close>
  relates two machine states that differ at most in the operand stack.
\<close>

locale operand_stack =
  fixes view :: "'s \<Rightarrow> int list" and wf :: "'s \<Rightarrow> bool" and cap :: "'s \<Rightarrow> nat"
    and same :: "'s \<Rightarrow> 's \<Rightarrow> bool"
    and push :: "int \<Rightarrow> ('s, unit) sx" and popN :: "nat \<Rightarrow> ('s, int list) sx"
  assumes height: "wf s \<Longrightarrow> length (view s) \<le> cap s"
    and same_refl: "same s s"
    and same_trans: "same s t \<Longrightarrow> same t u \<Longrightarrow> same s u"
    and same_cap: "same s t \<Longrightarrow> cap t = cap s"
    and push_ok: "wf s \<Longrightarrow> length (view s) < cap s \<Longrightarrow>
      \<exists>t. push v s = (Inr (), t) \<and> wf t \<and> view t = v # view s \<and> same s t"
    and push_full: "wf s \<Longrightarrow> length (view s) = cap s \<Longrightarrow>
      push v s = (Inl (EVMError STACK_OVERFLOW), s)"
    and popN_ok: "wf s \<Longrightarrow> n \<le> length (view s) \<Longrightarrow>
      \<exists>t. popN n s = (Inr (take n (view s)), t) \<and> wf t \<and> view t = drop n (view s) \<and> same s t"
    and popN_under: "wf s \<Longrightarrow> length (view s) < n \<Longrightarrow>
      popN n s = (Inl (EVMError STACK_UNDERFLOW), s)"
begin

text \<open>An operator pops its operands and pushes one result: it cannot overflow.\<close>

lemma operator_ok:
  assumes "wf s" "view s = xs @ rest" "n = length xs" "xs \<noteq> []"
  shows "\<exists>t. bindE (popN n) (\<lambda>ys. push (f ys)) s = (Inr (), t)
           \<and> wf t \<and> view t = f xs # rest \<and> same s t"
proof -
  obtain u where u: "popN n s = (Inr xs, u)" "wf u" "view u = rest" "same s u"
    using popN_ok [OF assms(1), of n] assms by auto
  have "length (view u) < cap u"
    using height [OF assms(1)] assms u same_cap [OF u(4)] by (cases xs) auto
  from push_ok [OF u(2) this, of "f xs"] u show ?thesis
    by (auto simp: bindE_run dest: same_trans)
qed

lemma operator_under:
  "wf s \<Longrightarrow> length (view s) < n \<Longrightarrow>
   bindE (popN n) k s = (Inl (EVMError STACK_UNDERFLOW), s)"
  by (simp add: popN_under bindE_run)

text \<open>Popping what was just pushed gives it back and restores the items.\<close>

lemma push_popN:
  assumes "wf s" "length (view s) < cap s"
  shows "\<exists>t. seqE (push v) (popN 1) s = (Inr [v], t) \<and> wf t \<and> view t = view s \<and> same s t"
proof -
  obtain u where u: "push v s = (Inr (), u)" "wf u" "view u = v # view s" "same s u"
    using push_ok [OF assms] by blast
  from popN_ok [OF u(2), of 1] u show ?thesis
    by (auto simp: seqE_run dest: same_trans)
qed

end

definition same_height :: "stack \<Rightarrow> stack \<Rightarrow> bool" where
  "same_height s t \<longleftrightarrow> stk_maxHeight s = stk_maxHeight t"

interpretation raw: operand_stack stack_view stack_wf stk_maxHeight same_height stack_push stack_popN
proof
  fix s :: stack and v assume wf: "stack_wf s"
  show "length (stack_view s) \<le> stk_maxHeight s" using wf by (simp add: stack_wf_def)
  show "\<exists>t. stack_push v s = (Inr (), t) \<and> stack_wf t \<and> stack_view t = v # stack_view s \<and> same_height s t"
    if "length (stack_view s) < stk_maxHeight s"
    using that wf by (auto simp: push_run store_at_view same_height_def wf_intros)
  show "stack_push v s = (Inl (EVMError STACK_OVERFLOW), s)"
    if "length (stack_view s) = stk_maxHeight s"
    using that wf by (simp add: push_run)
  fix n
  show "\<exists>t. stack_popN n s = (Inr (take n (stack_view s)), t) \<and> stack_wf t \<and>
          stack_view t = drop n (stack_view s) \<and> same_height s t"
    if "n \<le> length (stack_view s)"
    using that wf by (auto simp: popN_run shrink_view same_height_def wf_intros)
  show "stack_popN n s = (Inl (EVMError STACK_UNDERFLOW), s)" if "length (stack_view s) < n"
    using that wf by (simp add: popN_run)
qed (auto simp: same_height_def)

section \<open>Refinement of lists\<close>

text \<open>What each operation means on the list of items, top first, with a bound \<open>h\<close>.\<close>

definition list_push :: "nat \<Rightarrow> int \<Rightarrow> int list \<Rightarrow> exn + (unit \<times> int list)" where
  "list_push h v xs = (if length xs < h then Inr ((), v # xs) else Inl (EVMError STACK_OVERFLOW))"

definition list_pop :: "int list \<Rightarrow> exn + (int \<times> int list)" where
  "list_pop xs = (case xs of [] \<Rightarrow> Inl (EVMError STACK_UNDERFLOW) | v # vs \<Rightarrow> Inr (v, vs))"

definition list_popN :: "nat \<Rightarrow> int list \<Rightarrow> exn + (int list \<times> int list)" where
  "list_popN n xs = (if n \<le> length xs then Inr (take n xs, drop n xs) else Inl (EVMError STACK_UNDERFLOW))"

definition list_peek :: "nat \<Rightarrow> int list \<Rightarrow> exn + (int list \<times> int list)" where
  "list_peek n xs = (if n \<le> length xs then Inr (take n xs, xs) else Inl (EVMError STACK_UNDERFLOW))"

definition list_swap :: "nat \<Rightarrow> int list \<Rightarrow> exn + (unit \<times> int list)" where
  "list_swap n xs = (if n < length xs then Inr ((), exchange_list 0 n xs) else Inl (EVMError STACK_UNDERFLOW))"

definition list_dup :: "nat \<Rightarrow> nat \<Rightarrow> int list \<Rightarrow> exn + (unit \<times> int list)" where
  "list_dup h n xs = (if length xs < n then Inl (EVMError STACK_UNDERFLOW)
     else if h \<le> length xs then Inl (EVMError STACK_OVERFLOW) else Inr ((), xs ! (n - 1) # xs))"

definition list_exchange :: "nat \<Rightarrow> nat \<Rightarrow> int list \<Rightarrow> exn + (unit \<times> int list)" where
  "list_exchange i j xs = (if i < length xs \<and> j < length xs then Inr ((), exchange_list j i xs)
     else Inl (EVMError STACK_UNDERFLOW))"

definition stack_refines :: "stack \<Rightarrow> 'a stack_op \<Rightarrow> (int list \<Rightarrow> exn + ('a \<times> int list)) \<Rightarrow> bool" where
  "stack_refines st m spec =
     (case spec (stack_view st) of
        Inl e \<Rightarrow> m st = (Inl e, st)
      | Inr (r, ys) \<Rightarrow> \<exists>st'. m st = (Inr r, st') \<and> stack_wf st' \<and> stack_view st' = ys
                          \<and> stk_maxHeight st' = stk_maxHeight st)"

text \<open>C1: Every operation of the stack class refines the corresponding operation on the list of
  its items: the same results, the same new items, the maximum height never exceeded, and in
  the error cases the same error (DUP checks underflow before overflow) with the stack untouched.\<close>

theorem stack_refines_list:
  assumes "stack_wf st" "0 < n"
  shows "stack_refines st (stack_push v) (list_push (stk_maxHeight st) v)
       \<and> stack_refines st stack_pop list_pop
       \<and> stack_refines st (stack_popN k) (list_popN k)
       \<and> stack_refines st (stack_peek k) (list_peek k)
       \<and> stack_refines st (stack_swap k) (list_swap k)
       \<and> stack_refines st (stack_dup n) (list_dup (stk_maxHeight st) n)
       \<and> stack_refines st (stack_exchange k j) (list_exchange k j)"
proof (intro conjI)
  note wf = assms(1)
  show "stack_refines st (stack_push v) (list_push (stk_maxHeight st) v)"
    using wf by (auto simp: stack_refines_def list_push_def push_run store_at_view wf_intros)
  show "stack_refines st stack_pop list_pop"
  proof (cases "stack_view st")
    case (Cons a as)
    then have "1 \<le> stk_len st" using length_stack_view [OF wf] by simp
    then show ?thesis using wf Cons
      by (auto simp: stack_refines_def list_pop_def pop_run shrink_view wf_intros)
  qed (use wf in \<open>simp add: stack_refines_def list_pop_def pop_run\<close>)
  show "stack_refines st (stack_popN k) (list_popN k)"
    using wf by (auto simp: stack_refines_def list_popN_def popN_run shrink_view wf_intros)
  show "stack_refines st (stack_peek k) (list_peek k)"
    using wf by (auto simp: stack_refines_def list_peek_def peek_run)
  show "stack_refines st (stack_swap k) (list_swap k)"
    using wf swap_run [OF wf, of k] by (auto simp: stack_refines_def list_swap_def swap_under)
  show "stack_refines st (stack_dup n) (list_dup (stk_maxHeight st) n)"
    using assms by (auto simp: stack_refines_def list_dup_def dup_run store_at_view wf_intros)
  show "stack_refines st (stack_exchange k j) (list_exchange k j)"
    using wf exchange_run [OF wf, of k j]
    by (auto simp: stack_refines_def list_exchange_def) (auto simp: stack_exchange_def Let_def)
qed

theorem stack_refines_list_witness:
  "stack_refines (store_at 7 (new_stack None)) (stack_dup 1) (list_dup 1024 1)
   \<and> list_dup 1024 1 (stack_view (store_at 7 (new_stack None))) = Inr ((), [7, 7])"
proof
  have wf: "stack_wf (store_at 7 (new_stack None))"
    by (rule store_at_wf) (simp_all add: new_stack_wf, simp add: new_stack_def)
  have h: "stk_maxHeight (store_at 7 (new_stack None)) = 1024" by (simp add: new_stack_def)
  show "stack_refines (store_at 7 (new_stack None)) (stack_dup 1) (list_dup 1024 1)"
    using stack_refines_list [OF wf, of 1] unfolding h by simp
  show "list_dup 1024 1 (stack_view (store_at 7 (new_stack None))) = Inr ((), [7, 7])"
    by (simp add: store_at_view new_stack_wf list_dup_def)
qed

end
