(* ===== verification/EvmMemory.thy ===== *)
theory EvmMemory
  imports Bytes
begin

text \<open>
  The machine memory of \<open>src/packages/evm/src/memory.ts\<close>: a byte array that grows in
  containers of 8192 bytes. The abstraction \<open>mem_byte\<close> is the infinite zero-initialised byte
  array of the EVM; reading and writing refine it.
\<close>

definition ceil_to :: "nat \<Rightarrow> nat \<Rightarrow> nat" where
  "ceil_to value ceiling = (let r = value mod ceiling in if r = 0 then value else value + ceiling - r)"

definition CONTAINER_SIZE :: nat where
  "CONTAINER_SIZE = 8192"

record memory =
  mem_store :: bytes

definition new_memory :: memory where
  "new_memory = \<lparr>mem_store = replicate CONTAINER_SIZE 0\<rparr>"

text \<open>\<open>Math.ceil(a / b)\<close> for a non-negative \<open>a\<close>.\<close>

definition div_up :: "nat \<Rightarrow> nat \<Rightarrow> nat" where
  "div_up a b = (a + b - 1) div b"

definition memory_extend :: "nat \<Rightarrow> nat \<Rightarrow> memory \<Rightarrow> memory" where
  "memory_extend offset sz m =
     (if sz = 0 then m
      else let newSize = ceil_to (offset + sz) 32;
               sizeDiff = int newSize - int (length (mem_store m))
           in if sizeDiff > 0
              then m\<lparr>mem_store := concatBytes [mem_store m,
                        replicate (div_up (nat sizeDiff) CONTAINER_SIZE * CONTAINER_SIZE) 0]\<rparr>
              else m)"

text \<open>The length of the array that \<open>extend\<close> asks the engine for, or of the one there is.\<close>

definition extended_length :: "nat \<Rightarrow> nat \<Rightarrow> memory \<Rightarrow> nat" where
  "extended_length offset sz m =
     (let stored = length (mem_store m); newSize = ceil_to (offset + sz) 32
      in if sz = 0 \<or> newSize \<le> stored then stored
         else stored + div_up (newSize - stored) CONTAINER_SIZE * CONTAINER_SIZE)"

definition memory_write :: "nat \<Rightarrow> nat \<Rightarrow> bytes \<Rightarrow> (memory, unit) sx" where
  "memory_write offset sz value = (\<lambda>m.
     if sz = 0 then (Inr (), m)
     else let m1 = memory_extend offset sz m in
       if length value \<noteq> sz then (Inl (PlainError ''Invalid value size''), m1)
       else if offset + sz > length (mem_store m1)
       then (Inl (PlainError ''Value exceeds memory capacity''), m1)
       else (Inr (), m1\<lparr>mem_store := bytes_set (mem_store m1) value offset\<rparr>))"

text \<open>
  \<open>subarray\<close> clips its bounds to the array; the copy into a fresh array of \<open>sz\<close> bytes leaves
  zeros after the loaded bytes. With \<open>avoidCopy\<close> the loaded view itself is returned.
\<close>

definition subarray :: "bytes \<Rightarrow> nat \<Rightarrow> nat \<Rightarrow> bytes" where
  "subarray bs from to = drop from (take to bs)"

definition memory_read :: "nat \<Rightarrow> nat \<Rightarrow> bool \<Rightarrow> (memory, bytes) sx" where
  "memory_read offset sz avoidCopy = (\<lambda>m.
     let m1 = memory_extend offset sz m;
         loaded = subarray (mem_store m1) offset (offset + sz)
     in (Inr (if avoidCopy then loaded else bytes_set (replicate sz 0) loaded 0), m1))"

section \<open>Abstraction and invariant\<close>

definition mem_byte :: "memory \<Rightarrow> nat \<Rightarrow> byte" where
  "mem_byte m i = (if i < length (mem_store m) then mem_store m ! i else 0)"

definition memory_wf :: "memory \<Rightarrow> bool" where
  "memory_wf m \<longleftrightarrow> 0 < length (mem_store m) \<and> CONTAINER_SIZE dvd length (mem_store m)"

definition mem_slice :: "memory \<Rightarrow> nat \<Rightarrow> nat \<Rightarrow> bytes" where
  "mem_slice m offset sz = map (mem_byte m) [offset..<offset + sz]"

lemma length_mem_slice [simp]: "length (mem_slice m offset sz) = sz"
  by (simp add: mem_slice_def)

lemma new_memory_wf [wf_intros]: "memory_wf new_memory"
  by (simp add: new_memory_def memory_wf_def CONTAINER_SIZE_def)

lemma new_memory_byte [simp]: "mem_byte new_memory i = 0"
  by (simp add: mem_byte_def new_memory_def)

lemma ceil_to_ge: "0 < c \<Longrightarrow> v \<le> ceil_to v c"
proof -
  assume "0 < c"
  then have "v mod c < c" by simp
  then have "v \<le> v + c - v mod c" by linarith
  then show ?thesis by (simp add: ceil_to_def Let_def)
qed

lemma ceil_to_dvd: "0 < c \<Longrightarrow> c dvd ceil_to v c"
proof -
  assume c: "0 < c"
  have "v + c - v mod c = (v div c + 1) * c" if "v mod c \<noteq> 0"
    using c by (simp add: minus_mod_eq_div_mult [symmetric] mod_less_eq_dividend)
  then show ?thesis using c by (auto simp: ceil_to_def Let_def dvd_eq_mod_eq_0)
qed

lemma div_up_mult: "0 < b \<Longrightarrow> a \<le> div_up a b * b"
proof -
  assume b: "0 < b"
  have "(a + b - 1) = (a + b - 1) div b * b + (a + b - 1) mod b" by simp
  moreover have "(a + b - 1) mod b < b" using b by simp
  ultimately show ?thesis unfolding div_up_def using b by linarith
qed

lemma memory_extend_store:
  "\<exists>n. mem_store (memory_extend offset sz m) = mem_store m @ replicate n 0 \<and> CONTAINER_SIZE dvd n"
  by (auto simp: memory_extend_def Let_def intro: exI [of _ 0])

lemma extended_length: "length (mem_store (memory_extend offset sz m)) = extended_length offset sz m"
proof -
  have "nat (int a - int b) = a - b" for a b :: nat by simp
  then show ?thesis by (auto simp: extended_length_def memory_extend_def Let_def)
qed

text \<open>Containers: the length is the least multiple of the container size that covers the range.\<close>

lemma extended_length_max:
  assumes "memory_wf m" "0 < sz"
  shows "extended_length offset sz m = max (length (mem_store m)) (div_up (ceil_to (offset + sz) 32) CONTAINER_SIZE * CONTAINER_SIZE)"
proof -
  let ?new = "ceil_to (offset + sz) 32"
  obtain k where k: "length (mem_store m) = 8192 * k" using assms(1) by (auto simp: memory_wf_def CONTAINER_SIZE_def)
  show ?thesis
  proof (cases "?new \<le> 8192 * k")
    case True
    then have "div_up ?new CONTAINER_SIZE \<le> k" by (simp add: div_up_def CONTAINER_SIZE_def)
    then show ?thesis using True k assms(2) by (simp add: extended_length_def Let_def CONTAINER_SIZE_def)
  next
    case False
    then have "?new + 8191 = (?new - 8192 * k + 8191) + 8192 * k" by simp
    then have "div_up ?new CONTAINER_SIZE = (?new - 8192 * k + 8191 + 8192 * k) div 8192" by (simp only: div_up_def CONTAINER_SIZE_def)
    also have "\<dots> = div_up (?new - 8192 * k) CONTAINER_SIZE + k" by (simp add: div_up_def CONTAINER_SIZE_def)
    finally show ?thesis using False k assms(2) by (simp add: extended_length_def Let_def CONTAINER_SIZE_def algebra_simps)
  qed
qed

lemma memory_extend_wf [wf_intros]: "memory_wf m \<Longrightarrow> memory_wf (memory_extend offset sz m)"
  using memory_extend_store [of offset sz m] by (auto simp: memory_wf_def)

lemma memory_extend_byte [simp]: "mem_byte (memory_extend offset sz m) i = mem_byte m i"
  using memory_extend_store [of offset sz m] by (auto simp: mem_byte_def nth_append)

lemma memory_extend_length:
  "0 < sz \<Longrightarrow> offset + sz \<le> length (mem_store (memory_extend offset sz m))"
proof -
  assume s: "0 < sz"
  let ?new = "ceil_to (offset + sz) 32" and ?len = "length (mem_store m)"
  have new: "offset + sz \<le> ?new" by (rule ceil_to_ge) simp
  show ?thesis
  proof (cases "int ?new - int ?len > 0")
    case True
    have "?new - ?len \<le> div_up (?new - ?len) CONTAINER_SIZE * CONTAINER_SIZE"
      by (rule div_up_mult) (simp add: CONTAINER_SIZE_def)
    moreover have "nat (int ?new - int ?len) = ?new - ?len" by simp
    ultimately show ?thesis
      using s new True by (simp add: memory_extend_def Let_def)
  qed (use s new in \<open>simp add: memory_extend_def Let_def\<close>)
qed

lemma memory_extend_0 [simp]: "memory_extend offset 0 m = m"
  by (simp add: memory_extend_def)

lemma subarray_slice:
  "offset + sz \<le> length (mem_store m) \<Longrightarrow> subarray (mem_store m) offset (offset + sz) = mem_slice m offset sz"
  by (rule nth_equalityI) (simp_all add: subarray_def mem_slice_def mem_byte_def)

section \<open>Reading and writing refine the infinite array\<close>

lemma memory_read_run:
  assumes "0 < sz"
  shows "memory_read offset sz avoidCopy m
       = (Inr (mem_slice m offset sz), memory_extend offset sz m)"
proof -
  have "offset + sz \<le> length (mem_store (memory_extend offset sz m))"
    by (rule memory_extend_length [OF assms])
  from subarray_slice [OF this]
  have "subarray (mem_store (memory_extend offset sz m)) offset (offset + sz)
      = mem_slice m offset sz"
    by (simp add: mem_slice_def)
  then show ?thesis by (simp add: memory_read_def Let_def bytes_set_def)
qed

lemma memory_read_0 [simp]: "memory_read offset 0 avoidCopy m = (Inr [], m)"
  by (simp add: memory_read_def subarray_def bytes_set_def)

lemma memory_read_eq: "memory_read offset sz avoidCopy m
       = (Inr (mem_slice m offset sz), memory_extend offset sz m)"
  by (cases "sz = 0") (simp_all add: memory_read_run mem_slice_def)

lemma memory_write_run:
  assumes "length value = sz"
  shows "\<exists>m'. memory_write offset sz value m = (Inr (), m') \<and> (memory_wf m \<longrightarrow> memory_wf m')
     \<and> (\<forall>i. mem_byte m' i = (if offset \<le> i \<and> i < offset + sz then value ! (i - offset) else mem_byte m i))"
proof (cases "sz = 0")
  case False
  let ?m = "memory_extend offset sz m"
  have len: "offset + sz \<le> length (mem_store ?m)" using False by (intro memory_extend_length) simp
  define m' where "m' = ?m\<lparr>mem_store := bytes_set (mem_store ?m) value offset\<rparr>"
  have len': "length (mem_store m') = length (mem_store ?m)"
    using len assms by (simp add: m'_def bytes_set_def)
  have "mem_byte m' i = (if offset \<le> i \<and> i < offset + sz then value ! (i - offset) else mem_byte ?m i)" for i
    using len assms by (auto simp: m'_def mem_byte_def bytes_set_def nth_append min_def)
  moreover have "memory_wf m'" if "memory_wf m"
    using memory_extend_wf [OF that, of offset sz] len' by (simp add: memory_wf_def)
  ultimately show ?thesis
    using False assms len by (intro exI [of _ m']) (simp add: memory_write_def m'_def Let_def)
qed (use assms in \<open>auto simp: memory_write_def\<close>)

lemma memory_write_bad_size:
  "sz \<noteq> 0 \<Longrightarrow> length value \<noteq> sz \<Longrightarrow>
   memory_write offset sz value m = (Inl (PlainError ''Invalid value size''), memory_extend offset sz m)"
  by (simp add: memory_write_def)

section \<open>The interface of a byte-addressed memory\<close>

text \<open>What MLOAD, MSTORE, MCOPY, RETURN and the copy instructions rely on.\<close>

locale byte_memory =
  fixes byte_at :: "'m \<Rightarrow> nat \<Rightarrow> byte" and wf :: "'m \<Rightarrow> bool"
    and rd :: "nat \<Rightarrow> nat \<Rightarrow> bool \<Rightarrow> ('m, bytes) sx"
    and wr :: "nat \<Rightarrow> nat \<Rightarrow> bytes \<Rightarrow> ('m, unit) sx"
  assumes read_ok: "wf m \<Longrightarrow> \<exists>m'. rd off sz c m = (Inr (map (byte_at m) [off..<off + sz]), m')
      \<and> wf m' \<and> byte_at m' = byte_at m"
    and write_ok: "wf m \<Longrightarrow> \<exists>m'. wr off (length bs) bs m = (Inr (), m') \<and> wf m'
      \<and> byte_at m' = (\<lambda>i. if off \<le> i \<and> i < off + length bs then bs ! (i - off) else byte_at m i)"
begin

lemma map_byte_at_written:
  "map (\<lambda>i. if off \<le> i \<and> i < off + length bs then bs ! (i - off) else f i) [off..<off + length bs] = bs"
  by (rule nth_equalityI) simp_all

lemma read_written:
  assumes "wf m"
  shows "\<exists>m'. seqE (wr off (length bs) bs) (rd off (length bs) c) m = (Inr bs, m') \<and> wf m'"
proof -
  obtain m1 where m1: "wr off (length bs) bs m = (Inr (), m1)" "wf m1"
    "byte_at m1 = (\<lambda>i. if off \<le> i \<and> i < off + length bs then bs ! (i - off) else byte_at m i)"
    using write_ok [OF assms] by blast
  then show ?thesis
    using read_ok [OF m1(2), of off "length bs" c] by (auto simp: seqE_run map_byte_at_written)
qed

lemma read_disjoint:
  assumes "wf m" "o2 + s2 \<le> off \<or> off + length bs \<le> o2"
  shows "\<exists>m'. seqE (wr off (length bs) bs) (rd o2 s2 c) m
              = (Inr (map (byte_at m) [o2..<o2 + s2]), m') \<and> wf m'"
proof -
  obtain m1 where m1: "wr off (length bs) bs m = (Inr (), m1)" "wf m1"
    "byte_at m1 = (\<lambda>i. if off \<le> i \<and> i < off + length bs then bs ! (i - off) else byte_at m i)"
    using write_ok [OF assms(1)] by blast
  have "map (byte_at m1) [o2..<o2 + s2] = map (byte_at m) [o2..<o2 + s2]"
    using assms(2) by (auto simp: m1(3))
  then show ?thesis using read_ok [OF m1(2), of o2 s2 c] m1(1) by (auto simp: seqE_run)
qed

text \<open>Reading and writing the same range elsewhere is a copy that tolerates overlap: the
  bytes written are the ones before the copy.\<close>

lemma copy_ok:
  assumes "wf m"
  shows "\<exists>m'. bindE (rd src sz c) (\<lambda>data. wr dst sz data) m = (Inr (), m') \<and> wf m'
     \<and> byte_at m' = (\<lambda>i. if dst \<le> i \<and> i < dst + sz then byte_at m (src + (i - dst)) else byte_at m i)"
proof -
  obtain m1 where m1: "rd src sz c m = (Inr (map (byte_at m) [src..<src + sz]), m1)" "wf m1"
    "byte_at m1 = byte_at m"
    using read_ok [OF assms] by blast
  from write_ok [OF m1(2), of dst "map (byte_at m) [src..<src + sz]"] m1 show ?thesis
    by (auto simp: bindE_run fun_eq_iff)
qed

end

interpretation mem: byte_memory mem_byte memory_wf memory_read memory_write
proof
  fix m off sz and bs :: bytes and c assume wf: "memory_wf m"
  show "\<exists>m'. memory_read off sz c m = (Inr (map (mem_byte m) [off..<off + sz]), m')
      \<and> memory_wf m' \<and> mem_byte m' = mem_byte m"
    using wf by (simp add: memory_read_eq mem_slice_def fun_eq_iff wf_intros)
  show "\<exists>m'. memory_write off (length bs) bs m = (Inr (), m') \<and> memory_wf m'
      \<and> mem_byte m' = (\<lambda>i. if off \<le> i \<and> i < off + length bs then bs ! (i - off) else mem_byte m i)"
    using memory_write_run [of bs "length bs" off m] wf by (auto simp: fun_eq_iff)
qed

section \<open>Properties\<close>

text \<open>C2: The container-based memory implements the EVM's infinite zero-initialised byte array:
  a read returns the bytes of the abstract array and changes none of them, whatever growth it
  causes, a write changes exactly the written range, and a write whose buffer has another length
  than announced is refused without changing a byte. The length stays a positive multiple of 8192.\<close>

theorem memory_refines_array:
  assumes "memory_wf m"
  shows "(\<exists>m'. memory_read off sz c m = (Inr (map (mem_byte m) [off..<off + sz]), m')
            \<and> memory_wf m' \<and> mem_byte m' = mem_byte m)
       \<and> (\<exists>m'. memory_write off (length bs) bs m = (Inr (), m') \<and> memory_wf m'
            \<and> mem_byte m' = (\<lambda>i. if off \<le> i \<and> i < off + length bs then bs ! (i - off) else mem_byte m i))
       \<and> (0 < sz \<and> length bs \<noteq> sz \<longrightarrow>
            (\<exists>m'. memory_write off sz bs m = (Inl (PlainError ''Invalid value size''), m')
               \<and> memory_wf m' \<and> mem_byte m' = mem_byte m))"
proof (intro conjI impI)
  show "\<exists>m'. memory_read off sz c m = (Inr (map (mem_byte m) [off..<off + sz]), m')
          \<and> memory_wf m' \<and> mem_byte m' = mem_byte m" by (rule mem.read_ok [OF assms])
  show "\<exists>m'. memory_write off (length bs) bs m = (Inr (), m') \<and> memory_wf m'
      \<and> mem_byte m' = (\<lambda>i. if off \<le> i \<and> i < off + length bs then bs ! (i - off) else mem_byte m i)"
    by (rule mem.write_ok [OF assms])
  assume "0 < sz \<and> length bs \<noteq> sz"
  then show "\<exists>m'. memory_write off sz bs m = (Inl (PlainError ''Invalid value size''), m')
               \<and> memory_wf m' \<and> mem_byte m' = mem_byte m"
    using assms by (simp add: memory_write_bad_size fun_eq_iff wf_intros)
qed

theorem memory_refines_array_witness:
  "\<exists>m'. memory_write 8190 3 [1, 2, 3] new_memory = (Inr (), m') \<and> memory_wf m' \<and> mem_byte m' 8191 = 2"
proof -
  have "\<exists>m'. memory_write 8190 (length [1, 2, 3 :: byte]) [1, 2, 3] new_memory = (Inr (), m') \<and> memory_wf m'
      \<and> mem_byte m' = (\<lambda>i. if 8190 \<le> i \<and> i < 8190 + length [1, 2, 3 :: byte] then [1, 2, 3] ! (i - 8190) else mem_byte new_memory i)"
    using memory_refines_array [OF new_memory_wf, where off = 8190 and sz = 0 and c = False
        and bs = "[1, 2, 3]"] by blast
  then show ?thesis by (auto simp: fun_eq_iff numeral_3_eq_3)
qed

end
