(* ===== verification/TransientStorage.thy ===== *)
theory TransientStorage
  imports Bytes Checkpoints
begin

text \<open>
  The transient storage of EIP-1153, \<open>src/packages/evm/src/transientStorage.ts\<close>: nested maps
  with a change journal and a stack of journal lengths. An address and a slot key are the byte
  arrays whose hexadecimal text keys the maps of the source.
\<close>

section \<open>State and operations\<close>

record ts_change =
  tc_addr :: bytes
  tc_key :: bytes
  tc_prevValue :: bytes

record transient_storage =
  ts_storage :: "bytes \<Rightarrow> (bytes \<Rightarrow> bytes option) option"
  ts_changeJournal :: "ts_change list"
  ts_indices :: "nat list"

definition new_transient_storage :: transient_storage where
  "new_transient_storage = \<lparr>ts_storage = (\<lambda>_. None), ts_changeJournal = [], ts_indices = [0]\<rparr>"

definition zero_word :: bytes where
  "zero_word = replicate 32 0"

definition ts_get :: "bytes \<Rightarrow> bytes \<Rightarrow> transient_storage \<Rightarrow> bytes" where
  "ts_get addr key ts =
     (case ts_storage ts addr of None \<Rightarrow> zero_word
      | Some m \<Rightarrow> (case m key of None \<Rightarrow> zero_word | Some v \<Rightarrow> v))"

definition ts_put :: "bytes \<Rightarrow> bytes \<Rightarrow> bytes \<Rightarrow> (transient_storage, unit) sx" where
  "ts_put addr key val = (\<lambda>ts.
     if length key \<noteq> 32
     then (Inl (PlainError ''Transient storage key must be 32 bytes long''), ts)
     else if length val > 32
     then (Inl (PlainError ''Transient storage value cannot be longer than 32 bytes''), ts)
     else let storage = (if ts_storage ts addr = None then (ts_storage ts)(addr \<mapsto> (\<lambda>_. None))
                         else ts_storage ts);
              m = the (storage addr);
              prevValue = (case m key of None \<Rightarrow> zero_word | Some v \<Rightarrow> v)
          in (Inr (), ts\<lparr>ts_storage := storage(addr \<mapsto> m(key \<mapsto> val)),
                ts_changeJournal := ts_changeJournal ts @
                  [\<lparr>tc_addr = addr, tc_key = key, tc_prevValue = prevValue\<rparr>]\<rparr>))"

definition ts_commit :: "(transient_storage, unit) sx" where
  "ts_commit = (\<lambda>ts. if ts_indices ts = [] then (Inl (PlainError ''Nothing to commit''), ts)
     else (Inr (), ts\<lparr>ts_indices := butlast (ts_indices ts)\<rparr>))"

definition ts_checkpoint :: "(transient_storage, unit) sx" where
  "ts_checkpoint = (\<lambda>ts.
     (Inr (), ts\<lparr>ts_indices := ts_indices ts @ [length (ts_changeJournal ts)]\<rparr>))"

text \<open>The undo loop runs from the end of the journal down to the checkpoint; \<open>get(addr)!.set\<close>
  on a missing map is a TypeError.\<close>

fun ts_undo :: "nat \<Rightarrow> nat \<Rightarrow> (transient_storage, unit) sx" where
  "ts_undo 0 low = returnE ()"
| "ts_undo (Suc i) low = (\<lambda>ts.
     if low \<le> i then
       let c = ts_changeJournal ts ! i in
       case ts_storage ts (tc_addr c) of
         None \<Rightarrow> (Inl TypeError, ts)
       | Some m \<Rightarrow> ts_undo i low
           (ts\<lparr>ts_storage := (ts_storage ts)(tc_addr c \<mapsto> m(tc_key c \<mapsto> tc_prevValue c))\<rparr>)
     else (Inr (), ts))"

definition ts_revert :: "(transient_storage, unit) sx" where
  "ts_revert = (\<lambda>ts.
     if ts_indices ts = [] then (Inl (PlainError ''Nothing to revert''), ts)
     else let lastCheckpoint = last (ts_indices ts);
              ts1 = ts\<lparr>ts_indices := butlast (ts_indices ts)\<rparr>
          in seqE (ts_undo (length (ts_changeJournal ts)) lastCheckpoint)
               (modifyE (\<lambda>t. t\<lparr>ts_changeJournal := take lastCheckpoint (ts_changeJournal t)\<rparr>)) ts1)"

definition ts_clear :: "transient_storage \<Rightarrow> transient_storage" where
  "ts_clear ts = ts\<lparr>ts_storage := (\<lambda>_. None), ts_changeJournal := []\<rparr>"

section \<open>Abstraction\<close>

type_synonym ts_view = "bytes \<times> bytes \<Rightarrow> bytes"

definition ts_view :: "transient_storage \<Rightarrow> ts_view" where
  "ts_view ts = (\<lambda>(addr, key). ts_get addr key ts)"

definition undo_change :: "ts_change \<Rightarrow> ts_view \<Rightarrow> ts_view" where
  "undo_change c v = v((tc_addr c, tc_key c) := tc_prevValue c)"

definition view_at :: "transient_storage \<Rightarrow> nat \<Rightarrow> ts_view" where
  "view_at ts i = foldr undo_change (drop i (ts_changeJournal ts)) (ts_view ts)"

definition ts_frames :: "transient_storage \<Rightarrow> ts_view list" where
  "ts_frames ts = ts_view ts # map (view_at ts) (rev (ts_indices ts))"

definition ts_wf :: "transient_storage \<Rightarrow> bool" where
  "ts_wf ts \<longleftrightarrow> sorted (ts_indices ts) \<and> (\<forall>i\<in>set (ts_indices ts). i \<le> length (ts_changeJournal ts))
     \<and> (\<forall>c\<in>set (ts_changeJournal ts). ts_storage ts (tc_addr c) \<noteq> None)"

definition ts_write :: "transient_storage \<Rightarrow> transient_storage \<Rightarrow> bool" where
  "ts_write s t \<longleftrightarrow> (\<exists>addr key v. ts_put addr key v s = (Inr (), t))"

lemma ts_put_run:
  assumes "length key = 32" "length v \<le> 32"
  shows "\<exists>t. ts_put addr key v ts = (Inr (), t) \<and> ts_indices t = ts_indices ts
     \<and> ts_changeJournal t = ts_changeJournal ts @ [\<lparr>tc_addr = addr, tc_key = key, tc_prevValue = ts_get addr key ts\<rparr>]
     \<and> ts_view t = (ts_view ts)((addr, key) := v)
     \<and> (\<forall>a. ts_storage ts a \<noteq> None \<longrightarrow> ts_storage t a \<noteq> None) \<and> ts_storage t addr \<noteq> None"
proof -
  let ?st = "if ts_storage ts addr = None then (ts_storage ts)(addr \<mapsto> (\<lambda>_. None)) else ts_storage ts"
  have prev: "(case the (?st addr) key of None \<Rightarrow> zero_word | Some v \<Rightarrow> v) = ts_get addr key ts"
    by (cases "ts_storage ts addr") (simp_all add: ts_get_def)
  define t where "t = ts\<lparr>ts_storage := ?st(addr \<mapsto> (the (?st addr))(key \<mapsto> v)),
    ts_changeJournal := ts_changeJournal ts @ [\<lparr>tc_addr = addr, tc_key = key, tc_prevValue = ts_get addr key ts\<rparr>]\<rparr>"
  have "ts_put addr key v ts = (Inr (), t)"
    using assms prev by (simp add: ts_put_def t_def Let_def)
  moreover have "ts_view t = (ts_view ts)((addr, key) := v)"
    by (auto simp: t_def ts_view_def ts_get_def fun_eq_iff split: option.split)
  ultimately show ?thesis by (simp add: t_def)
qed

lemma undo_put:
  "undo_change \<lparr>tc_addr = a, tc_key = k, tc_prevValue = ts_get a k s\<rparr> ((ts_view s)((a, k) := v)) = ts_view s"
  by (auto simp: undo_change_def ts_view_def)

lemma ts_write_law:
  assumes "ts_wf s" "ts_write s t"
  shows "ts_wf t \<and> tl (ts_frames t) = tl (ts_frames s)"
proof -
  obtain addr key v where put: "ts_put addr key v s = (Inr (), t)" using assms(2) by (auto simp: ts_write_def)
  then have "length key = 32" "length v \<le> 32" by (auto simp: ts_put_def split: if_splits)
  from ts_put_run [OF this, of addr s] put
  have t: "ts_indices t = ts_indices s"
    "ts_changeJournal t = ts_changeJournal s @ [\<lparr>tc_addr = addr, tc_key = key, tc_prevValue = ts_get addr key s\<rparr>]"
    "ts_view t = (ts_view s)((addr, key) := v)"
    "\<forall>a. ts_storage s a \<noteq> None \<longrightarrow> ts_storage t a \<noteq> None" "ts_storage t addr \<noteq> None"
    by auto
  have "view_at t i = view_at s i" if "i \<le> length (ts_changeJournal s)" for i
    using that by (simp add: view_at_def t(2,3) undo_put)
  then have "map (view_at t) (rev (ts_indices s)) = map (view_at s) (rev (ts_indices s))"
    using assms(1) by (auto simp: ts_wf_def)
  moreover have "ts_wf t" using assms(1) t by (auto simp: ts_wf_def)
  ultimately show ?thesis by (simp add: ts_frames_def t(1))
qed

lemma ts_undo_run:
  assumes "i \<le> length (ts_changeJournal ts)" "k \<le> i"
    and "\<forall>c\<in>set (ts_changeJournal ts). ts_storage ts (tc_addr c) \<noteq> None"
  shows "\<exists>t. ts_undo i k ts = (Inr (), t) \<and> ts_indices t = ts_indices ts
     \<and> ts_changeJournal t = ts_changeJournal ts
     \<and> ts_view t = foldr undo_change (drop k (take i (ts_changeJournal ts))) (ts_view ts)
     \<and> (\<forall>a. ts_storage ts a \<noteq> None \<longrightarrow> ts_storage t a \<noteq> None)"
  using assms
proof (induction i arbitrary: ts)
  case (Suc i)
  let ?c = "ts_changeJournal ts ! i"
  show ?case
  proof (cases "k \<le> i")
    case True
    obtain m where m: "ts_storage ts (tc_addr ?c) = Some m" using Suc by fastforce
    define ts1 where "ts1 = ts\<lparr>ts_storage := (ts_storage ts)(tc_addr ?c \<mapsto> m(tc_key ?c \<mapsto> tc_prevValue ?c))\<rparr>"
    have view: "ts_view ts1 = undo_change ?c (ts_view ts)"
      using m by (auto simp: ts1_def ts_view_def ts_get_def undo_change_def fun_eq_iff)
    have ts1: "ts_changeJournal ts1 = ts_changeJournal ts" "ts_indices ts1 = ts_indices ts"
      "\<forall>a. ts_storage ts a \<noteq> None \<longrightarrow> ts_storage ts1 a \<noteq> None"
      by (simp_all add: ts1_def)
    have "ts_undo (Suc i) k ts = ts_undo i k ts1" using True m by (simp add: ts1_def Let_def)
    moreover have "drop k (take (Suc i) (ts_changeJournal ts)) = drop k (take i (ts_changeJournal ts)) @ [?c]"
      using Suc(2) True by (simp add: take_Suc_conv_app_nth)
    moreover obtain t where "ts_undo i k ts1 = (Inr (), t)" "ts_indices t = ts_indices ts1"
      "ts_changeJournal t = ts_changeJournal ts1"
      "ts_view t = foldr undo_change (drop k (take i (ts_changeJournal ts1))) (ts_view ts1)"
      "\<forall>a. ts_storage ts1 a \<noteq> None \<longrightarrow> ts_storage t a \<noteq> None"
      using Suc.IH [of ts1] Suc.prems True ts1 by auto
    ultimately show ?thesis using ts1 view by auto
  next
    case False
    with Suc show ?thesis by simp
  qed
qed simp

lemma view_at_split:
  "i \<le> k \<Longrightarrow> k \<le> length (ts_changeJournal ts) \<Longrightarrow>
   view_at ts i = foldr undo_change (drop i (take k (ts_changeJournal ts))) (view_at ts k)"
proof -
  assume "i \<le> k" "k \<le> length (ts_changeJournal ts)"
  then have "drop i (ts_changeJournal ts)
     = drop i (take k (ts_changeJournal ts)) @ drop k (ts_changeJournal ts)"
    by (subst append_take_drop_id [of k "ts_changeJournal ts", symmetric])
       (simp only: drop_append length_take, simp add: min_def)
  then show ?thesis by (simp add: view_at_def)
qed

lemma ts_revert_law:
  assumes wf: "ts_wf s" and fr: "ts_frames s = x # y # zs"
  shows "\<exists>t. ts_revert s = (Inr (), t) \<and> ts_wf t \<and> ts_frames t = y # zs"
proof -
  from fr have ne: "ts_indices s \<noteq> []" by (auto simp: ts_frames_def)
  then obtain js k where js: "ts_indices s = js @ [k]" by (cases "ts_indices s" rule: rev_cases) auto
  with wf have k: "k \<le> length (ts_changeJournal s)" "\<forall>i\<in>set js. i \<le> k" "sorted js"
    by (auto simp: ts_wf_def sorted_append)
  define s1 where "s1 = s\<lparr>ts_indices := js\<rparr>"
  have s1: "ts_changeJournal s1 = ts_changeJournal s" "ts_storage s1 = ts_storage s" "ts_view s1 = ts_view s"
    "ts_indices s1 = js"
    by (simp_all add: s1_def ts_view_def ts_get_def)
  obtain t where t: "ts_undo (length (ts_changeJournal s1)) k s1 = (Inr (), t)" "ts_indices t = js"
    "ts_changeJournal t = ts_changeJournal s"
    "ts_view t = view_at s k" "\<forall>a. ts_storage s a \<noteq> None \<longrightarrow> ts_storage t a \<noteq> None"
    using ts_undo_run [of "length (ts_changeJournal s1)" s1 k] k wf s1 by (auto simp: ts_wf_def view_at_def)
  define u where "u = t\<lparr>ts_changeJournal := take k (ts_changeJournal t)\<rparr>"
  have u: "ts_view u = view_at s k" "ts_indices u = js" "ts_changeJournal u = take k (ts_changeJournal s)"
    using t by (simp_all add: u_def ts_view_def ts_get_def)
  have "ts_revert s = (Inr (), u)"
    using t(1) js by (simp add: ts_revert_def Let_def seqE_run s1_def u_def)
  moreover have "ts_wf u"
    using wf k t by (auto simp: ts_wf_def u u_def dest: in_set_takeD)
  moreover have "ts_frames u = y # zs"
  proof -
    have "view_at u i = view_at s i" if "i \<in> set js" for i
      using that k view_at_split [of i k s] by (simp add: view_at_def [of u] u)
    then have eq: "map (view_at u) (rev js) = map (view_at s) (rev js)" by simp
    show ?thesis unfolding ts_frames_def u(1,2) eq using fr js by (simp add: ts_frames_def)
  qed
  ultimately show ?thesis by blast
qed

interpretation ts: checkpointed ts_frames ts_wf ts_write ts_checkpoint ts_commit ts_revert
proof
  fix s t x y zs assume wf: "ts_wf s"
  show "ts_frames s \<noteq> []" by (simp add: ts_frames_def)
  show "ts_write s t \<Longrightarrow> ts_wf t \<and> tl (ts_frames t) = tl (ts_frames s)" by (rule ts_write_law [OF wf])
  show "\<exists>t. ts_checkpoint s = (Inr (), t) \<and> ts_wf t \<and> ts_frames t = hd (ts_frames s) # ts_frames s"
  proof -
    define t where "t = s\<lparr>ts_indices := ts_indices s @ [length (ts_changeJournal s)]\<rparr>"
    have j: "ts_changeJournal t = ts_changeJournal s" "ts_view t = ts_view s"
      "ts_storage t = ts_storage s" "ts_indices t = ts_indices s @ [length (ts_changeJournal s)]"
      by (simp_all add: t_def ts_view_def ts_get_def)
    have va: "view_at t = view_at s" by (simp add: view_at_def fun_eq_iff j)
    have "ts_frames t = hd (ts_frames s) # ts_frames s"
      unfolding ts_frames_def j(2,4) va by (simp add: view_at_def)
    moreover have "ts_wf t" using wf by (simp add: ts_wf_def j sorted_append)
    ultimately show ?thesis by (simp add: ts_checkpoint_def t_def)
  qed
  assume fr: "ts_frames s = x # y # zs"
  show "\<exists>t. ts_revert s = (Inr (), t) \<and> ts_wf t \<and> ts_frames t = y # zs" by (rule ts_revert_law [OF wf fr])
  show "\<exists>t. ts_commit s = (Inr (), t) \<and> ts_wf t \<and> ts_frames t = x # zs"
  proof -
    from fr have "ts_indices s \<noteq> []" by (auto simp: ts_frames_def)
    then obtain js k where js: "ts_indices s = js @ [k]" by (cases "ts_indices s" rule: rev_cases) auto
    define t where "t = s\<lparr>ts_indices := js\<rparr>"
    have j: "ts_changeJournal t = ts_changeJournal s" "ts_view t = ts_view s"
      "ts_storage t = ts_storage s" "ts_indices t = js"
      by (simp_all add: t_def ts_view_def ts_get_def)
    have va: "view_at t = view_at s" by (simp add: view_at_def fun_eq_iff j)
    have "ts_frames t = x # zs" using fr js unfolding ts_frames_def j(2,4) va by simp
    moreover have "ts_wf t" using wf js by (simp add: ts_wf_def j sorted_append)
    ultimately show ?thesis using js by (simp add: ts_commit_def t_def)
  qed
qed

section \<open>Properties\<close>

text \<open>C8: After a checkpoint of the transient storage, any balanced run of puts and nested
  checkpoint-commit and checkpoint-revert pairs followed by a revert leaves every slot of every
  address with the value it had before the checkpoint, the revert never hits a missing map, and
  the outer checkpoints still restore what they would have restored.\<close>

theorem transient_revert_restores:
  assumes "ts_wf s" "ts_checkpoint s = (Inr (), t)"
    and "balanced ts_write ts_checkpoint ts_commit ts_revert t u"
  shows "\<exists>v. ts_revert u = (Inr (), v) \<and> ts_wf v \<and> (\<forall>addr key. ts_get addr key v = ts_get addr key s)
           \<and> ts_frames v = ts_frames s"
proof -
  obtain v where v: "ts_revert u = (Inr (), v)" "ts_wf v" "ts_frames v = ts_frames s"
    using ts.revert_restores [OF assms] by blast
  then have "ts_view v = ts_view s" by (simp add: ts_frames_def)
  then have "\<forall>addr key. ts_get addr key v = ts_get addr key s" by (simp add: ts_view_def fun_eq_iff)
  with v show ?thesis by blast
qed

lemma new_ts_wf: "ts_wf new_transient_storage"
  by (simp add: ts_wf_def new_transient_storage_def)

theorem transient_revert_restores_witness:
  "\<exists>t u v. ts_checkpoint new_transient_storage = (Inr (), t) \<and> ts_put [1] zero_word [7] t = (Inr (), u)
     \<and> ts_get [1] zero_word u = [7] \<and> ts_revert u = (Inr (), v) \<and> ts_get [1] zero_word v = zero_word"
proof -
  obtain t where t: "ts_checkpoint new_transient_storage = (Inr (), t)" by (simp add: ts_checkpoint_def)
  obtain u where u: "ts_put [1] zero_word [7] t = (Inr (), u)" "ts_view u = (ts_view t)(([1], zero_word) := [7])"
    using ts_put_run [of zero_word "[7]" "[1]" t] by (auto simp: zero_word_def)
  then have "ts_write t u" by (auto simp: ts_write_def)
  then have "balanced ts_write ts_checkpoint ts_commit ts_revert t u"
    by (blast intro: balanced.intros)
  from transient_revert_restores [OF new_ts_wf t this] obtain v
    where "ts_revert u = (Inr (), v)" "ts_get [1] zero_word v = ts_get [1] zero_word new_transient_storage" by blast
  moreover have "ts_get [1] zero_word new_transient_storage = zero_word"
    by (simp add: ts_get_def new_transient_storage_def)
  moreover have "ts_get [1] zero_word u = [7]" using fun_cong [OF u(2), of "([1], zero_word)"] by (simp add: ts_view_def)
  ultimately show ?thesis using t u(1) by auto
qed

end
