(* ===== verification/StateManager.thy ===== *)
theory StateManager
  imports Bytes Checkpoints
begin

text \<open>
  Accounts (\<open>src/packages/utils/src/account.ts\<close>), addresses (\<open>src/packages/utils/src/address.ts\<close>)
  and the state manager that the EVM uses by default,
  \<open>src/packages/state-manager/src/simpleStateManager.ts\<close>, with its cache of original storage
  values. The state manager keeps three stacks of maps; the top maps are current. Accounts are
  full accounts: the null fields of stateless execution are not modelled.
\<close>

section \<open>Accounts\<close>

definition KECCAK256_NULL :: bytes where
  "KECCAK256_NULL = [0xc5, 0xd2, 0x46, 0x01, 0x86, 0xf7, 0x23, 0x3c, 0x92, 0x7e, 0x7d, 0xb2, 0xdc, 0xc7,
     0x03, 0xc0, 0xe5, 0x00, 0xb6, 0x53, 0xca, 0x82, 0x27, 0x3b, 0x7b, 0xfa, 0xd8, 0x04, 0x5d, 0x85,
     0xa4, 0x70]"

definition KECCAK256_RLP :: bytes where
  "KECCAK256_RLP = [0x56, 0xe8, 0x1f, 0x17, 0x1b, 0xcc, 0x55, 0xa6, 0xff, 0x83, 0x45, 0xe6, 0x92, 0xc0,
     0xf8, 0x6e, 0x5b, 0x48, 0xe0, 0x1b, 0x99, 0x6c, 0xad, 0xc0, 0x01, 0x62, 0x2f, 0xb5, 0xe3, 0x63,
     0xb4, 0x21]"

record account =
  acc_nonce :: int
  acc_balance :: int
  acc_storageRoot :: bytes
  acc_codeHash :: bytes
  acc_codeSize :: int
  acc_version :: int

definition account_validate :: "account \<Rightarrow> exn + account" where
  "account_validate a =
     (if acc_nonce a < 0 then Inl (PlainError ''nonce must be greater than zero'')
      else if acc_balance a < 0 then Inl (PlainError ''balance must be greater than zero'')
      else if length (acc_storageRoot a) \<noteq> 32 then Inl (PlainError ''storageRoot must have a length of 32'')
      else if length (acc_codeHash a) \<noteq> 32 then Inl (PlainError ''codeHash must have a length of 32'')
      else if acc_codeSize a < 0 then Inl (PlainError ''codeSize must be greater than zero'')
      else Inr a)"

text \<open>\<open>new Account(nonce, balance)\<close> before validation, the other arguments at their defaults.\<close>

definition account_of :: "int \<Rightarrow> int \<Rightarrow> account" where
  "account_of nonce balance = \<lparr>acc_nonce = nonce, acc_balance = balance, acc_storageRoot = KECCAK256_RLP,
     acc_codeHash = KECCAK256_NULL, acc_codeSize = 0, acc_version = 0\<rparr>"

definition new_account :: account where
  "new_account = account_of 0 0"

definition isContract :: "account \<Rightarrow> bool" where
  "isContract a \<longleftrightarrow> acc_codeHash a \<noteq> KECCAK256_NULL \<or> acc_codeSize a \<noteq> 0"

definition account_isEmpty :: "account \<Rightarrow> bool" where
  "account_isEmpty a =
     (if acc_balance a \<noteq> 0 \<or> acc_codeHash a \<noteq> KECCAK256_NULL then False
      else acc_balance a = 0 \<and> acc_nonce a = 0 \<and> acc_codeHash a = KECCAK256_NULL)"

lemma new_account_valid: "account_validate new_account = Inr new_account"
  by (simp add: account_validate_def new_account_def account_of_def KECCAK256_NULL_def KECCAK256_RLP_def)

section \<open>Addresses\<close>

type_synonym address = bytes

definition mk_address :: "bytes \<Rightarrow> exn + address" where
  "mk_address bs = (if length bs \<noteq> 20 then Inl (PlainError ''Invalid address length'') else Inr bs)"

definition createZeroAddress :: address where
  "createZeroAddress = replicate 20 0"

definition address_isZero :: "address \<Rightarrow> bool" where
  "address_isZero a \<longleftrightarrow> a = replicate 20 0"

definition isPrecompileOrSystemAddress :: "externals \<Rightarrow> address \<Rightarrow> bool" where
  "isPrecompileOrSystemAddress x a \<longleftrightarrow> bytesToBigInt x a \<ge> 0 \<and> bytesToBigInt x a \<le> 0xffff"

definition createAddressFromBigInt :: "externals \<Rightarrow> int \<Rightarrow> exn + address" where
  "createAddressFromBigInt x v =
     (case bigIntToBytes x v of
        Inl e \<Rightarrow> Inl e
      | Inr bs \<Rightarrow> if length bs > 20 then Inl (PlainError ''Invalid address, too long'')
                  else mk_address (setLengthLeft bs 20))"

section \<open>The simple state manager\<close>

record simple_sm =
  accountStack :: "(address \<Rightarrow> account option) list"
  codeStack :: "(address \<Rightarrow> bytes option) list"
  storageStack :: "(address \<times> bytes \<Rightarrow> bytes option) list"
  originalStorageCache :: "address \<times> bytes \<Rightarrow> bytes option"

type_synonym 'a sm_op = "(simple_sm, 'a) sx"

text \<open>The top of a stack: reading an entry of a missing top is a TypeError; copying a missing
  top gives an empty map.\<close>

definition top_map :: "('k \<Rightarrow> 'v option) list \<Rightarrow> 'k \<Rightarrow> 'v option" where
  "top_map st = (if st = [] then (\<lambda>_. None) else last st)"

definition set_top :: "'a list \<Rightarrow> 'a \<Rightarrow> 'a list" where
  "set_top st m = butlast st @ [m]"

definition checkpointSync :: "simple_sm \<Rightarrow> simple_sm" where
  "checkpointSync sm = sm\<lparr>accountStack := accountStack sm @ [top_map (accountStack sm)],
     codeStack := codeStack sm @ [top_map (codeStack sm)],
     storageStack := storageStack sm @ [top_map (storageStack sm)]\<rparr>"

definition new_simple_sm :: simple_sm where
  "new_simple_sm = checkpointSync \<lparr>accountStack = [], codeStack = [], storageStack = [],
     originalStorageCache = (\<lambda>_. None)\<rparr>"

definition sm_getAccount :: "address \<Rightarrow> account option sm_op" where
  "sm_getAccount a = (\<lambda>sm. if accountStack sm = [] then (Inl TypeError, sm)
     else (Inr (last (accountStack sm) a), sm))"

definition sm_putAccount :: "address \<Rightarrow> account option \<Rightarrow> unit sm_op" where
  "sm_putAccount a acc = (\<lambda>sm. if accountStack sm = [] then (Inl TypeError, sm)
     else (Inr (), sm\<lparr>accountStack := set_top (accountStack sm) ((last (accountStack sm))(a := acc))\<rparr>))"

definition sm_deleteAccount :: "address \<Rightarrow> unit sm_op" where
  "sm_deleteAccount a = sm_putAccount a None"

text \<open>\<open>modifyAccountFields\<close>, the given fields as the update they make on the account.\<close>

definition sm_modifyAccountFields :: "address \<Rightarrow> (account \<Rightarrow> account) \<Rightarrow> unit sm_op" where
  "sm_modifyAccountFields a upd =
     bindE (sm_getAccount a) (\<lambda>acc.
       sm_putAccount a (Some (upd (case acc of None \<Rightarrow> new_account | Some b \<Rightarrow> b))))"

definition sm_getCode :: "address \<Rightarrow> bytes sm_op" where
  "sm_getCode a = (\<lambda>sm. if codeStack sm = [] then (Inl TypeError, sm)
     else (Inr (case last (codeStack sm) a of None \<Rightarrow> [] | Some c \<Rightarrow> c), sm))"

definition sm_putCode :: "externals \<Rightarrow> address \<Rightarrow> bytes \<Rightarrow> unit sm_op" where
  "sm_putCode x a val = (\<lambda>sm. if codeStack sm = [] then (Inl TypeError, sm)
     else seqE (bindE (sm_getAccount a)
                  (\<lambda>acc. if acc = None then sm_putAccount a (Some new_account) else returnE ()))
            (sm_modifyAccountFields a (\<lambda>acc. acc\<lparr>acc_codeHash := keccak256 x val\<rparr>))
          (sm\<lparr>codeStack := set_top (codeStack sm) ((last (codeStack sm))(a \<mapsto> val))\<rparr>))"

definition sm_getCodeSize :: "address \<Rightarrow> int sm_op" where
  "sm_getCodeSize a = bindE (sm_getCode a) (\<lambda>c. returnE (int (length c)))"

definition sm_getStorage :: "address \<Rightarrow> bytes \<Rightarrow> bytes sm_op" where
  "sm_getStorage a key = (\<lambda>sm. if storageStack sm = [] then (Inl TypeError, sm)
     else (Inr (case last (storageStack sm) (a, key) of None \<Rightarrow> [] | Some v \<Rightarrow> v), sm))"

definition sm_putStorage :: "address \<Rightarrow> bytes \<Rightarrow> bytes \<Rightarrow> unit sm_op" where
  "sm_putStorage a key val = (\<lambda>sm. if storageStack sm = [] then (Inl TypeError, sm)
     else (Inr (), sm\<lparr>storageStack :=
       set_top (storageStack sm) ((last (storageStack sm))((a, key) \<mapsto> val))\<rparr>))"

definition sm_clearStorage :: "address \<Rightarrow> unit sm_op" where
  "sm_clearStorage a = returnE ()"

definition sm_checkpoint :: "unit sm_op" where
  "sm_checkpoint = modifyE checkpointSync"

text \<open>\<open>splice(-2, 1)\<close>: drops the last element but one, or the only element.\<close>

definition splice_below_top :: "'a list \<Rightarrow> 'a list" where
  "splice_below_top xs = (if length xs \<ge> 2 then butlast (butlast xs) @ [last xs] else [])"

definition sm_commit :: "unit sm_op" where
  "sm_commit = modifyE (\<lambda>sm. sm\<lparr>accountStack := splice_below_top (accountStack sm),
     codeStack := splice_below_top (codeStack sm), storageStack := splice_below_top (storageStack sm)\<rparr>)"

definition sm_revert :: "unit sm_op" where
  "sm_revert = modifyE (\<lambda>sm. sm\<lparr>accountStack := butlast (accountStack sm),
     codeStack := butlast (codeStack sm), storageStack := butlast (storageStack sm)\<rparr>)"

definition sm_shallowCopy :: "simple_sm \<Rightarrow> simple_sm" where
  "sm_shallowCopy sm = new_simple_sm\<lparr>accountStack := accountStack new_simple_sm @ accountStack sm,
     codeStack := codeStack new_simple_sm @ codeStack sm,
     storageStack := storageStack new_simple_sm @ storageStack sm\<rparr>"

text \<open>\<open>originalStorageCache.get\<close>: the value cached first, else the current one, cached now.\<close>

definition original_put :: "address \<Rightarrow> bytes \<Rightarrow> bytes \<Rightarrow> simple_sm \<Rightarrow> simple_sm" where
  "original_put a key v sm = (if originalStorageCache sm (a, key) = None
     then sm\<lparr>originalStorageCache := (originalStorageCache sm)((a, key) \<mapsto> v)\<rparr> else sm)"

definition sm_getOriginalStorage :: "address \<Rightarrow> bytes \<Rightarrow> bytes sm_op" where
  "sm_getOriginalStorage a key = (\<lambda>sm.
     case originalStorageCache sm (a, key) of
       Some v \<Rightarrow> (Inr v, sm)
     | None \<Rightarrow> bindE (sm_getStorage a key)
                (\<lambda>v. seqE (modifyE (original_put a key v)) (returnE v)) sm)"

definition sm_clearOriginal :: "simple_sm \<Rightarrow> simple_sm" where
  "sm_clearOriginal sm = sm\<lparr>originalStorageCache := (\<lambda>_. None)\<rparr>"

section \<open>Frames\<close>

type_synonym sm_frame =
  "(address \<Rightarrow> account option) \<times> (address \<Rightarrow> bytes option) \<times> (address \<times> bytes \<Rightarrow> bytes option)"

definition sm_frames :: "simple_sm \<Rightarrow> sm_frame list" where
  "sm_frames sm = rev (zip (accountStack sm) (zip (codeStack sm) (storageStack sm)))"

definition sm_wf :: "simple_sm \<Rightarrow> bool" where
  "sm_wf sm \<longleftrightarrow> accountStack sm \<noteq> [] \<and> length (codeStack sm) = length (accountStack sm)
     \<and> length (storageStack sm) = length (accountStack sm)"

definition sm_write :: "externals \<Rightarrow> simple_sm \<Rightarrow> simple_sm \<Rightarrow> bool" where
  "sm_write x s t \<longleftrightarrow>
     (\<exists>a acc. sm_putAccount a acc s = (Inr (), t)) \<or> (\<exists>a. sm_deleteAccount a s = (Inr (), t))
   \<or> (\<exists>a f. sm_modifyAccountFields a f s = (Inr (), t)) \<or> (\<exists>a c. sm_putCode x a c s = (Inr (), t))
   \<or> (\<exists>a k v. sm_putStorage a k v s = (Inr (), t)) \<or> (\<exists>a k v. sm_getOriginalStorage a k s = (Inr v, t))"

text \<open>All writes change at most the top of each stack.\<close>

definition same_below :: "simple_sm \<Rightarrow> simple_sm \<Rightarrow> bool" where
  "same_below s t \<longleftrightarrow> butlast (accountStack t) = butlast (accountStack s)
     \<and> butlast (codeStack t) = butlast (codeStack s) \<and> butlast (storageStack t) = butlast (storageStack s)
     \<and> accountStack t \<noteq> [] \<and> codeStack t \<noteq> [] \<and> storageStack t \<noteq> []"

lemma set_top_simps [simp]: "set_top st m \<noteq> []" "last (set_top st m) = m" "butlast (set_top st m) = butlast st"
  "st \<noteq> [] \<Longrightarrow> length (set_top st m) = length st"
  by (simp_all add: set_top_def)

lemma same_below_refl: "sm_wf s \<Longrightarrow> same_below s s"
  by (auto simp: same_below_def sm_wf_def)

lemma same_below_trans: "same_below s t \<Longrightarrow> same_below t u \<Longrightarrow> same_below s u"
  by (simp add: same_below_def)

lemma butlast_eq_length: "butlast xs = butlast ys \<Longrightarrow> xs \<noteq> [] \<Longrightarrow> ys \<noteq> [] \<Longrightarrow> length xs = length ys"
  by (metis length_butlast diff_Suc_1 length_Suc_conv neq_Nil_conv)

lemma same_below_wf: "sm_wf s \<Longrightarrow> same_below s t \<Longrightarrow> sm_wf t"
  unfolding sm_wf_def same_below_def
  by (metis butlast_eq_length length_0_conv)

lemma same_below_frames: "sm_wf s \<Longrightarrow> same_below s t \<Longrightarrow> tl (sm_frames t) = tl (sm_frames s)"
proof -
  have tl_rev: "tl (rev xs) = rev (butlast xs)" for xs :: "'x list"
    by (cases xs rule: rev_cases) simp_all
  have bl: "butlast (zip as bs) = zip (butlast as) (butlast bs)" if "length as = length bs"
    for as :: "'x list" and bs :: "'y list"
    using that by (simp add: butlast_conv_take take_zip)
  assume wf: "sm_wf s" and b: "same_below s t"
  from same_below_wf [OF this] have "sm_wf t" .
  with wf b show ?thesis
    by (simp add: sm_frames_def tl_rev bl sm_wf_def same_below_def)
qed

lemma putAccount_below: "sm_wf s \<Longrightarrow> sm_putAccount a acc s = (Inr (), t) \<Longrightarrow> same_below s t"
  by (auto simp: sm_putAccount_def same_below_def sm_wf_def split: if_splits)

lemma modify_below: "sm_wf s \<Longrightarrow> sm_modifyAccountFields a f s = (Inr (), t) \<Longrightarrow> same_below s t"
  by (auto simp: sm_modifyAccountFields_def sm_getAccount_def bindE_run split: if_splits
           elim!: putAccount_below [rotated])

lemma putCode_run:
  assumes "sm_wf s"
  shows "\<exists>t. sm_putCode x a c s = (Inr (), t) \<and> same_below s t
     \<and> last (codeStack t) = (last (codeStack s))(a \<mapsto> c) \<and> last (storageStack t) = last (storageStack s)
     \<and> last (accountStack t) = (last (accountStack s))(a \<mapsto>
          (case last (accountStack s) a of None \<Rightarrow> new_account | Some b \<Rightarrow> b)\<lparr>acc_codeHash := keccak256 x c\<rparr>)"
  using assms
  by (cases "last (accountStack s) a")
     (auto simp: sm_putCode_def sm_modifyAccountFields_def sm_getAccount_def sm_putAccount_def sx_run
                 same_below_def sm_wf_def)

lemma sm_write_below:
  assumes "sm_wf s" "sm_write x s t"
  shows "same_below s t"
  using assms(2) unfolding sm_write_def
proof (elim disjE exE)
  show "sm_putAccount a acc s = (Inr (), t) \<Longrightarrow> same_below s t" for a acc
    by (rule putAccount_below [OF assms(1)])
  show "sm_deleteAccount a s = (Inr (), t) \<Longrightarrow> same_below s t" for a
    using putAccount_below [OF assms(1)] by (simp add: sm_deleteAccount_def)
  show "sm_modifyAccountFields a f s = (Inr (), t) \<Longrightarrow> same_below s t" for a f
    by (rule modify_below [OF assms(1)])
  show "sm_putCode x a c s = (Inr (), t) \<Longrightarrow> same_below s t" for a c
    using putCode_run [OF assms(1), of x a c] by auto
  show "sm_putStorage a k v s = (Inr (), t) \<Longrightarrow> same_below s t" for a k v
    using assms(1) by (auto simp: sm_putStorage_def same_below_def sm_wf_def split: if_splits)
  show "sm_getOriginalStorage a k s = (Inr v, t) \<Longrightarrow> same_below s t" for a k v
    using same_below_refl [OF assms(1)]
    by (auto simp: sm_getOriginalStorage_def sm_getStorage_def original_put_def sx_run same_below_def
             split: option.splits if_splits)
qed

lemma zip3_snoc:
  "length as = length bs \<Longrightarrow> length bs = length cs \<Longrightarrow>
   zip (as @ [a]) (zip (bs @ [b]) (cs @ [c])) = zip as (zip bs cs) @ [(a, b, c)]"
  by simp

lemma sm_frames_snoc:
  assumes "accountStack sm = as @ [a]" "codeStack sm = bs @ [b]" "storageStack sm = cs @ [c]"
    "length as = length bs" "length bs = length cs"
  shows "sm_frames sm = (a, b, c) # rev (zip as (zip bs cs))"
  by (simp add: sm_frames_def assms)

lemma sm_wf_cases:
  assumes "sm_wf sm"
  obtains as a bs b cs c where "accountStack sm = as @ [a]" "codeStack sm = bs @ [b]"
    "storageStack sm = cs @ [c]" "length as = length bs" "length bs = length cs"
proof -
  obtain as a where "accountStack sm = as @ [a]" using assms
    by (cases "accountStack sm" rule: rev_cases) (auto simp: sm_wf_def)
  moreover obtain bs b where "codeStack sm = bs @ [b]" using assms
    by (cases "codeStack sm" rule: rev_cases) (auto simp: sm_wf_def)
  moreover obtain cs c where "storageStack sm = cs @ [c]" using assms
    by (cases "storageStack sm" rule: rev_cases) (auto simp: sm_wf_def)
  ultimately show thesis using assms that by (auto simp: sm_wf_def)
qed

interpretation sm: checkpointed sm_frames sm_wf "sm_write x" sm_checkpoint sm_commit sm_revert for x
proof
  fix s t X Y zs assume wf: "sm_wf s"
  obtain as a bs b cs c where s: "accountStack s = as @ [a]" "codeStack s = bs @ [b]"
    "storageStack s = cs @ [c]" "length as = length bs" "length bs = length cs"
    using sm_wf_cases [OF wf] by blast
  note fr = sm_frames_snoc [OF s]
  show "sm_frames s \<noteq> []" by (simp add: fr)
  show "sm_write x s t \<Longrightarrow> sm_wf t \<and> tl (sm_frames t) = tl (sm_frames s)"
    using same_below_wf [OF wf] same_below_frames [OF wf] sm_write_below [OF wf] by blast
  show "\<exists>t. sm_checkpoint s = (Inr (), t) \<and> sm_wf t \<and> sm_frames t = hd (sm_frames s) # sm_frames s"
    using s by (simp add: sm_checkpoint_def checkpointSync_def sm_wf_def top_map_def sm_frames_def)
  assume XY: "sm_frames s = X # Y # zs"
  then have "as \<noteq> []" using fr s by (cases as) auto
  then obtain as' a' where as: "as = as' @ [a']" by (cases as rule: rev_cases) auto
  with s obtain bs' b' where bs: "bs = bs' @ [b']" by (cases bs rule: rev_cases) auto
  with s as obtain cs' c' where cs: "cs = cs' @ [c']" by (cases cs rule: rev_cases) auto
  note all = s [unfolded as bs cs]
  show "\<exists>t. sm_commit s = (Inr (), t) \<and> sm_wf t \<and> sm_frames t = X # zs"
    using XY all by (auto simp: sm_commit_def sm_wf_def splice_below_top_def sm_frames_def butlast_append)
  show "\<exists>t. sm_revert s = (Inr (), t) \<and> sm_wf t \<and> sm_frames t = Y # zs"
    using XY all by (auto simp: sm_revert_def sm_wf_def sm_frames_def butlast_append)
qed

section \<open>Properties\<close>

lemma sm_get_frames:
  assumes "sm_wf s"
  shows "sm_getAccount a s = (Inr (fst (hd (sm_frames s)) a), s)"
    and "sm_getCode a s = (Inr (case fst (snd (hd (sm_frames s))) a of None \<Rightarrow> [] | Some c \<Rightarrow> c), s)"
    and "sm_getStorage a k s = (Inr (case snd (snd (hd (sm_frames s))) (a, k) of None \<Rightarrow> [] | Some v \<Rightarrow> v), s)"
proof -
  obtain as a' bs b cs c where s: "accountStack s = as @ [a']" "codeStack s = bs @ [b]"
    "storageStack s = cs @ [c]" "length as = length bs" "length bs = length cs"
    using sm_wf_cases [OF assms] by blast
  show "sm_getAccount a s = (Inr (fst (hd (sm_frames s)) a), s)"
    "sm_getCode a s = (Inr (case fst (snd (hd (sm_frames s))) a of None \<Rightarrow> [] | Some c \<Rightarrow> c), s)"
    "sm_getStorage a k s = (Inr (case snd (snd (hd (sm_frames s))) (a, k) of None \<Rightarrow> [] | Some v \<Rightarrow> v), s)"
    by (simp_all add: sm_getAccount_def sm_getCode_def sm_getStorage_def sm_frames_snoc [OF s] s)
qed

text \<open>C7: A revert of the state manager undoes every account, code and storage write made since
  its checkpoint, including those of nested checkpoints that were committed, while a commit keeps
  the current contents and leaves what the outer checkpoints would restore unchanged.\<close>

theorem sm_checkpoint_revert_commit:
  assumes "sm_wf s" "sm_checkpoint s = (Inr (), t)"
    and "balanced (sm_write x) sm_checkpoint sm_commit sm_revert t u"
  shows "(\<exists>v. sm_revert u = (Inr (), v) \<and> sm_wf v \<and> sm_frames v = sm_frames s
            \<and> (\<forall>a k. fst (sm_getAccount a v) = fst (sm_getAccount a s) \<and> fst (sm_getCode a v) = fst (sm_getCode a s)
                 \<and> fst (sm_getStorage a k v) = fst (sm_getStorage a k s)))
       \<and> (\<exists>v. sm_commit u = (Inr (), v) \<and> sm_wf v \<and> tl (sm_frames v) = tl (sm_frames s)
            \<and> (\<forall>a k. fst (sm_getAccount a v) = fst (sm_getAccount a u) \<and> fst (sm_getCode a v) = fst (sm_getCode a u)
                 \<and> fst (sm_getStorage a k v) = fst (sm_getStorage a k u)))"
proof
  obtain v where v: "sm_revert u = (Inr (), v)" "sm_wf v" "sm_frames v = sm_frames s"
    using sm.revert_restores [OF assms] by blast
  then show "\<exists>v. sm_revert u = (Inr (), v) \<and> sm_wf v \<and> sm_frames v = sm_frames s
            \<and> (\<forall>a k. fst (sm_getAccount a v) = fst (sm_getAccount a s) \<and> fst (sm_getCode a v) = fst (sm_getCode a s)
                 \<and> fst (sm_getStorage a k v) = fst (sm_getStorage a k s))"
    by (simp add: sm_get_frames assms(1))
  obtain w where w: "sm_commit u = (Inr (), w)" "sm_wf w" "sm_frames w = hd (sm_frames u) # tl (sm_frames s)"
    using sm.commit_keeps [OF assms] by blast
  have "sm_wf t" using sm.checkpoint_law [OF assms(1)] assms(2) by auto
  then have "sm_wf u" using sm.balanced_keeps_frames [OF assms(3)] by blast
  with w show "\<exists>v. sm_commit u = (Inr (), v) \<and> sm_wf v \<and> tl (sm_frames v) = tl (sm_frames s)
            \<and> (\<forall>a k. fst (sm_getAccount a v) = fst (sm_getAccount a u) \<and> fst (sm_getCode a v) = fst (sm_getCode a u)
                 \<and> fst (sm_getStorage a k v) = fst (sm_getStorage a k u))"
    by (simp add: sm_get_frames)
qed

lemma new_simple_sm_wf: "sm_wf new_simple_sm"
  by (simp add: sm_wf_def new_simple_sm_def checkpointSync_def)

theorem sm_checkpoint_revert_commit_witness:
  "\<exists>t u v. sm_checkpoint new_simple_sm = (Inr (), t) \<and> sm_putStorage [1] [2] [3] t = (Inr (), u)
     \<and> sm_getStorage [1] [2] u = (Inr [3], u) \<and> sm_revert u = (Inr (), v)
     \<and> fst (sm_getStorage [1] [2] v) = Inr []"
proof -
  obtain t where t: "sm_checkpoint new_simple_sm = (Inr (), t)" by (simp add: sm_checkpoint_def)
  have ne: "storageStack t \<noteq> []" using t by (auto simp: sm_checkpoint_def checkpointSync_def)
  then obtain u where u: "sm_putStorage [1] [2] [3] t = (Inr (), u)" "sm_getStorage [1] [2] u = (Inr [3], u)"
    by (simp add: sm_putStorage_def sm_getStorage_def)
  then have "sm_write sample_externals t u" unfolding sm_write_def by blast
  then have "balanced (sm_write sample_externals) sm_checkpoint sm_commit sm_revert t u"
    by (blast intro: balanced.intros)
  from sm_checkpoint_revert_commit [OF new_simple_sm_wf t this] obtain v where
    "sm_revert u = (Inr (), v)" "fst (sm_getStorage [1] [2] v) = fst (sm_getStorage [1] [2] new_simple_sm)" by blast
  moreover have "fst (sm_getStorage [1] [2] new_simple_sm) = Inr []"
    by (simp add: sm_getStorage_def new_simple_sm_def checkpointSync_def top_map_def)
  ultimately show ?thesis using t u by auto
qed

end
