(* ===== verification/Journal.thy ===== *)
theory Journal
  imports StateManager Hardforks
begin

text \<open>
  The journal of \<open>src/packages/evm/src/journal.ts\<close>: warm addresses and slots (EIP-2929), touched
  accounts (EIP-161) and the checkpoints of the state manager it wraps. Each entry of
  \<open>journalDiff\<close> carries the height at which it was opened and what was added while it was last;
  a revert undoes the entries from the end down to one of a smaller height. An address or slot is
  the byte array whose hexadecimal text keys the sets of the source.
\<close>

section \<open>State\<close>

record diff_item =
  diff_addresses :: "bytes set"
  diff_slots :: "bytes \<Rightarrow> bytes set option"
  diff_touched :: "bytes set"

definition empty_diff :: diff_item where
  "empty_diff = \<lparr>diff_addresses = {}, diff_slots = (\<lambda>_. None), diff_touched = {}\<rparr>"

record journal =
  jr_journal :: "bytes \<Rightarrow> bytes set option"
  jr_alwaysWarm :: "bytes \<Rightarrow> bytes set option"
  jr_touched :: "bytes list"
  jr_diff :: "(int \<times> diff_item) list"
  jr_height :: int
  jr_accessList :: "(bytes \<Rightarrow> bytes set option) option"
  jr_reportPreimages :: bool

text \<open>The journal together with the state manager it holds.\<close>

record world =
  wl_sm :: simple_sm
  wl_journal :: journal

type_synonym 'a world_op = "(world, 'a) sx"

definition RIPEMD160_ADDRESS :: bytes where
  "RIPEMD160_ADDRESS = replicate 19 0 @ [3]"

definition cleanJournal :: "journal \<Rightarrow> journal" where
  "cleanJournal j = j\<lparr>jr_height := 0, jr_journal := (\<lambda>_. None), jr_alwaysWarm := (\<lambda>_. None),
     jr_touched := [], jr_diff := [(0, empty_diff)]\<rparr>"

definition new_journal :: journal where
  "new_journal = cleanJournal \<lparr>jr_journal = (\<lambda>_. None), jr_alwaysWarm = (\<lambda>_. None), jr_touched = [],
     jr_diff = [], jr_height = 0, jr_accessList = None, jr_reportPreimages = False\<rparr>"

definition startReportingAccessList :: "journal \<Rightarrow> journal" where
  "startReportingAccessList j = j\<lparr>jr_accessList := Some (\<lambda>_. None)\<rparr>"

definition startReportingPreimages :: "journal \<Rightarrow> journal" where
  "startReportingPreimages j = j\<lparr>jr_reportPreimages := True\<rparr>"

section \<open>Operations on the journal's own fields\<close>

text \<open>\<open>journalDiff[journalDiff.length - 1][1]\<close> updated in place.\<close>

definition update_last_diff :: "(diff_item \<Rightarrow> diff_item) \<Rightarrow> journal \<Rightarrow> journal" where
  "update_last_diff f j = j\<lparr>jr_diff := butlast (jr_diff j) @
     [(fst (last (jr_diff j)), f (snd (last (jr_diff j))))]\<rparr>"

text \<open>The simple state manager has no \<open>getAppliedKey\<close>: reporting preimages makes touching throw.\<close>

definition touchAccount :: "bytes \<Rightarrow> (journal, unit) sx" where
  "touchAccount a = (\<lambda>j.
     if jr_reportPreimages j
     then (Inl (PlainError ''touchAccount: stateManager.getAppliedKey can not be undefined if preimage storing is enabled''), j)
     else if a \<in> set (jr_touched j) then (Inr (), j)
     else (Inr (), update_last_diff (\<lambda>d. d\<lparr>diff_touched := insert a (diff_touched d)\<rparr>)
                     (j\<lparr>jr_touched := jr_touched j @ [a]\<rparr>)))"

definition j_push :: "int \<Rightarrow> journal \<Rightarrow> journal" where
  "j_push h j = j\<lparr>jr_height := h, jr_diff := jr_diff j @ [(h, empty_diff)]\<rparr>"

definition j_checkpoint :: "(journal, unit) sx" where
  "j_checkpoint = modifyE (\<lambda>j. j_push (jr_height j + 1) j)"

definition j_commit :: "(journal, unit) sx" where
  "j_commit = modifyE (\<lambda>j. j_push (jr_height j - 1) j)"

text \<open>Undoing one entry: its addresses leave the warm map, its slots leave the sets of the
  addresses still there, its touched accounts, except RIPEMD160, are no longer touched.\<close>

definition undo_journal :: "diff_item \<Rightarrow> (bytes \<Rightarrow> bytes set option) \<Rightarrow> (bytes \<Rightarrow> bytes set option)" where
  "undo_journal d m = (\<lambda>a. if a \<in> diff_addresses d then None
     else case m a of None \<Rightarrow> None
       | Some slots \<Rightarrow> Some (case diff_slots d a of None \<Rightarrow> slots | Some del \<Rightarrow> slots - del))"

definition undo_touched :: "diff_item \<Rightarrow> bytes list \<Rightarrow> bytes list" where
  "undo_touched d ts = filter (\<lambda>a. a \<notin> diff_touched d \<or> a = RIPEMD160_ADDRESS) ts"

text \<open>The loop at index \<open>i - 1\<close>; the result is \<open>finalI\<close> and the journal.\<close>

fun revert_loop :: "nat \<Rightarrow> nat \<Rightarrow> journal \<Rightarrow> nat \<times> journal" where
  "revert_loop 0 finalI j = (finalI, j)"
| "revert_loop (Suc i) finalI j =
     (let (height, diff) = jr_diff j ! i in
      if height < jr_height j then (i, j)
      else revert_loop i i (j\<lparr>jr_journal := undo_journal diff (jr_journal j),
                              jr_touched := undo_touched diff (jr_touched j)\<rparr>))"

definition j_revert :: "(journal, unit) sx" where
  "j_revert = modifyE (\<lambda>j.
     case revert_loop (length (jr_diff j)) 0 j of
       (finalI, j') \<Rightarrow> j'\<lparr>jr_diff := (if jr_diff j = [] then [] else take (finalI + 1) (jr_diff j')),
                         jr_height := jr_height j' - 1\<rparr>)"

definition addAlwaysWarmAddress :: "bytes \<Rightarrow> bool \<Rightarrow> journal \<Rightarrow> journal" where
  "addAlwaysWarmAddress a addToAccessList j =
     (let j1 = (if jr_alwaysWarm j a = None then j\<lparr>jr_alwaysWarm := (jr_alwaysWarm j)(a \<mapsto> {})\<rparr> else j)
      in case jr_accessList j1 of
           Some al \<Rightarrow> if addToAccessList \<and> al a = None then j1\<lparr>jr_accessList := Some (al(a \<mapsto> {}))\<rparr> else j1
         | None \<Rightarrow> j1)"

definition addAlwaysWarmSlot :: "bytes \<Rightarrow> bytes \<Rightarrow> bool \<Rightarrow> journal \<Rightarrow> journal" where
  "addAlwaysWarmSlot a slot addToAccessList j =
     (let j1 = addAlwaysWarmAddress a addToAccessList j;
          j2 = j1\<lparr>jr_alwaysWarm := (jr_alwaysWarm j1)(a \<mapsto> insert slot (the (jr_alwaysWarm j1 a)))\<rparr>
      in case jr_accessList j2 of
           Some al \<Rightarrow> if addToAccessList then j2\<lparr>jr_accessList := Some (al(a \<mapsto> insert slot (the (al a))))\<rparr> else j2
         | None \<Rightarrow> j2)"

definition isWarmedAddress :: "bytes \<Rightarrow> journal \<Rightarrow> bool" where
  "isWarmedAddress a j \<longleftrightarrow> jr_journal j a \<noteq> None \<or> jr_alwaysWarm j a \<noteq> None"

definition addWarmedAddress :: "bytes \<Rightarrow> journal \<Rightarrow> journal" where
  "addWarmedAddress a j =
     (let j1 = (if jr_journal j a = None
                then update_last_diff (\<lambda>d. d\<lparr>diff_addresses := insert a (diff_addresses d)\<rparr>)
                       (j\<lparr>jr_journal := (jr_journal j)(a \<mapsto> {})\<rparr>)
                else j)
      in case jr_accessList j1 of
           Some al \<Rightarrow> if al a = None then j1\<lparr>jr_accessList := Some (al(a \<mapsto> {}))\<rparr> else j1
         | None \<Rightarrow> j1)"

definition always_has_slot :: "bytes \<Rightarrow> bytes \<Rightarrow> journal \<Rightarrow> bool" where
  "always_has_slot a slot j = (case jr_alwaysWarm j a of None \<Rightarrow> False | Some slots \<Rightarrow> slot \<in> slots)"

definition isWarmedStorage :: "bytes \<Rightarrow> bytes \<Rightarrow> journal \<Rightarrow> bool" where
  "isWarmedStorage a slot j =
     (case jr_journal j a of
        None \<Rightarrow> always_has_slot a slot j
      | Some slots \<Rightarrow> if slot \<in> slots then True else always_has_slot a slot j)"

text \<open>\<open>accessList.get(address)!.add\<close> on a missing set is a TypeError.\<close>

definition addWarmedStorage :: "bytes \<Rightarrow> bytes \<Rightarrow> (journal, unit) sx" where
  "addWarmedStorage a slot = (\<lambda>j.
     let j1 = (if jr_journal j a = None then addWarmedAddress a j else j);
         slots = the (jr_journal j1 a);
         j2 = (if slot \<notin> slots
               then update_last_diff (\<lambda>d. d\<lparr>diff_slots := (diff_slots d)(a \<mapsto>
                        insert slot (case diff_slots d a of None \<Rightarrow> {} | Some s \<Rightarrow> s))\<rparr>)
                      (j1\<lparr>jr_journal := (jr_journal j1)(a \<mapsto> insert slot slots)\<rparr>)
               else j1)
     in case jr_accessList j2 of
          None \<Rightarrow> (Inr (), j2)
        | Some al \<Rightarrow> (case al a of
             None \<Rightarrow> (Inl TypeError, j2)
           | Some s \<Rightarrow> (Inr (), j2\<lparr>jr_accessList := Some (al(a \<mapsto> insert slot s))\<rparr>)))"

section \<open>Operations with the state manager\<close>

definition on_journal :: "(journal, 'a) sx \<Rightarrow> 'a world_op" where
  "on_journal m = (\<lambda>w. case m (wl_journal w) of (r, j) \<Rightarrow> (r, w\<lparr>wl_journal := j\<rparr>))"

definition on_sm :: "'a sm_op \<Rightarrow> 'a world_op" where
  "on_sm m = (\<lambda>w. case m (wl_sm w) of (r, sm) \<Rightarrow> (r, w\<lparr>wl_sm := sm\<rparr>))"

definition journal_putAccount :: "address \<Rightarrow> account option \<Rightarrow> unit world_op" where
  "journal_putAccount a acc = seqE (on_journal (touchAccount a)) (on_sm (sm_putAccount a acc))"

definition journal_deleteAccount :: "address \<Rightarrow> unit world_op" where
  "journal_deleteAccount a = seqE (on_journal (touchAccount a)) (on_sm (sm_deleteAccount a))"

definition journal_checkpoint :: "unit world_op" where
  "journal_checkpoint = seqE (on_journal j_checkpoint) (on_sm sm_checkpoint)"

definition journal_commit :: "unit world_op" where
  "journal_commit = seqE (on_journal j_commit) (on_sm sm_commit)"

definition journal_revert :: "unit world_op" where
  "journal_revert = seqE (on_journal j_revert) (on_sm sm_revert)"

text \<open>\<open>cleanup\<close>: from Spurious Dragon on, delete the touched accounts that are empty. Deleting
  touches the account again, which the loop over the set does not revisit.\<close>

fun cleanup_loop :: "bytes list \<Rightarrow> unit world_op" where
  "cleanup_loop [] = returnE ()"
| "cleanup_loop (a # as) =
     bindE (on_sm (sm_getAccount a)) (\<lambda>acc.
       seqE (if (case acc of None \<Rightarrow> True | Some b \<Rightarrow> account_isEmpty b)
             then journal_deleteAccount a else returnE ())
            (cleanup_loop as))"

definition journal_cleanup :: "frozen_config \<Rightarrow> string \<Rightarrow> unit world_op" where
  "journal_cleanup common fork =
     seqE (bindE (getsE (\<lambda>w. jr_touched (wl_journal w))) (\<lambda>touched.
             whenE (hardforkGte common fork ''spuriousDragon'') (cleanup_loop touched)))
       (on_journal (modifyE (\<lambda>j. (cleanJournal j)\<lparr>jr_accessList := None, jr_reportPreimages := False\<rparr>)))"

section \<open>Frames of the journal\<close>

text \<open>What a revert restores: the warm map and the touched set without RIPEMD160, which \<open>revert\<close> leaves touched. The map of
  always-warm addresses is no part of a frame, since nothing undoes it before the end of the transaction.\<close>

type_synonym jframe = "(bytes \<Rightarrow> bytes set option) \<times> bytes set"

definition j_current :: "journal \<Rightarrow> jframe" where
  "j_current j = (jr_journal j, set (jr_touched j) - {RIPEMD160_ADDRESS})"

definition undo_frame :: "int \<times> diff_item \<Rightarrow> jframe \<Rightarrow> jframe" where
  "undo_frame e f = (undo_journal (snd e) (fst f), snd f - diff_touched (snd e))"

definition diff_suffix :: "int \<Rightarrow> (int \<times> diff_item) list \<Rightarrow> (int \<times> diff_item) list" where
  "diff_suffix k xs = rev (takeWhile (\<lambda>e. k \<le> fst e) (rev xs))"

definition frame_at :: "journal \<Rightarrow> nat \<Rightarrow> jframe" where
  "frame_at j k = foldr undo_frame (diff_suffix (int k) (jr_diff j)) (j_current j)"

definition j_frames :: "journal \<Rightarrow> jframe list" where
  "j_frames j = j_current j # map (frame_at j) (rev [1..<Suc (nat (jr_height j))])"

definition j_wf :: "journal \<Rightarrow> bool" where
  "j_wf j \<longleftrightarrow> 0 \<le> jr_height j \<and> jr_diff j \<noteq> [] \<and> fst (hd (jr_diff j)) = 0
     \<and> fst (last (jr_diff j)) = jr_height j \<and> successively (\<lambda>a b. fst b \<le> fst a + 1) (jr_diff j)"

lemma diff_suffix_snoc:
  "diff_suffix k (xs @ [e]) = (if k \<le> fst e then diff_suffix k xs @ [e] else [])"
  by (simp add: diff_suffix_def)

lemma undo_empty [simp]: "undo_frame (h, empty_diff) f = f"
  by (cases f) (auto simp: undo_frame_def undo_journal_def empty_diff_def fun_eq_iff split: option.split)

text \<open>Additions recorded in the last entry do not change what any revert restores.\<close>

lemma recorded_frames:
  assumes "j_wf j" "jr_height t = jr_height j"
    and "jr_diff t = butlast (jr_diff j) @ [(jr_height j, d')]"
    and "undo_frame (jr_height j, d') (j_current t) = undo_frame (last (jr_diff j)) (j_current j)"
  shows "j_wf t \<and> tl (j_frames t) = tl (j_frames j)"
proof -
  obtain xs d where xs: "jr_diff j = xs @ [(jr_height j, d)]"
    using assms(1) by (cases "jr_diff j" rule: rev_cases) (auto simp: j_wf_def)
  have eq: "frame_at t k = frame_at j k" if "int k \<le> jr_height j" for k
    using assms(3,4) that by (simp add: frame_at_def diff_suffix_snoc xs)
  have "map (frame_at t) (rev [1..<Suc (nat (jr_height j))]) = map (frame_at j) (rev [1..<Suc (nat (jr_height j))])"
    using eq by auto
  moreover have "j_wf t" using assms(1-3)
    by (auto simp: j_wf_def xs successively_append_iff hd_append split: if_splits)
  ultimately show ?thesis by (simp add: j_frames_def assms(2))
qed

lemma j_wf_last: "j_wf j \<Longrightarrow> last (jr_diff j) = (jr_height j, snd (last (jr_diff j)))"
  by (auto simp: j_wf_def prod_eq_iff)

lemma update_last_diff_simps [simp]:
  "jr_height (update_last_diff f j) = jr_height j"
  "jr_journal (update_last_diff f j) = jr_journal j"
  "jr_touched (update_last_diff f j) = jr_touched j"
  "jr_alwaysWarm (update_last_diff f j) = jr_alwaysWarm j"
  "jr_accessList (update_last_diff f j) = jr_accessList j"
  "jr_diff (update_last_diff f j) = butlast (jr_diff j) @ [(fst (last (jr_diff j)), f (snd (last (jr_diff j))))]"
  by (simp_all add: update_last_diff_def)

lemma j_current_update [simp]: "j_current (update_last_diff f j) = j_current j"
  by (simp add: j_current_def)

definition j_keeps :: "journal \<Rightarrow> journal \<Rightarrow> bool" where
  "j_keeps s t \<longleftrightarrow> j_wf s \<longrightarrow> j_wf t \<and> tl (j_frames t) = tl (j_frames s)"

lemma j_keeps_trans: "j_keeps s t \<Longrightarrow> j_keeps t u \<Longrightarrow> j_keeps s u"
  by (simp add: j_keeps_def)

lemma j_keeps_refl [simp]: "j_keeps s s"
  by (simp add: j_keeps_def)

lemma j_keeps_accessList [simp]: "j_keeps s (t\<lparr>jr_accessList := al\<rparr>) = j_keeps s t"
  by (simp add: j_keeps_def j_wf_def j_frames_def frame_at_def[abs_def] j_current_def)

lemma j_keeps_alwaysWarm [simp]: "j_keeps s (t\<lparr>jr_alwaysWarm := aw\<rparr>) = j_keeps s t"
  by (simp add: j_keeps_def j_wf_def j_frames_def frame_at_def[abs_def] j_current_def)

lemma j_keeps_recorded:
  assumes "\<And>d. undo_frame (h, f d) (j_current t) = undo_frame (h, d) (j_current s)"
    and "jr_height t = jr_height s" "jr_diff t = jr_diff s"
  shows "j_keeps s (update_last_diff f t)"
  unfolding j_keeps_def
proof
  assume wf: "j_wf s"
  have last: "fst (last (jr_diff s)) = jr_height s" using wf by (simp add: j_wf_def)
  show "j_wf (update_last_diff f t) \<and> tl (j_frames (update_last_diff f t)) = tl (j_frames s)"
  proof (rule recorded_frames [OF wf])
    show "undo_frame (jr_height s, f (snd (last (jr_diff s)))) (j_current (update_last_diff f t))
        = undo_frame (last (jr_diff s)) (j_current s)"
      using assms(1) by (simp add: undo_frame_def)
  qed (simp_all add: assms(2,3) last)
qed

lemma touch_keeps: "touchAccount a j = (Inr (), t) \<Longrightarrow> j_keeps j t"
proof -
  assume t: "touchAccount a j = (Inr (), t)"
  show ?thesis
  proof (cases "a \<in> set (jr_touched j)")
    case False
    with t have "t = update_last_diff (\<lambda>d. d\<lparr>diff_touched := insert a (diff_touched d)\<rparr>) (j\<lparr>jr_touched := jr_touched j @ [a]\<rparr>)"
      by (auto simp: touchAccount_def split: if_splits)
    also have "j_keeps j \<dots>"
      by (rule j_keeps_recorded [where h = 0])
         (use False in \<open>auto simp: undo_frame_def undo_journal_def j_current_def fun_eq_iff split: option.split\<close>)
    finally show ?thesis .
  qed (use t in \<open>auto simp: touchAccount_def split: if_splits\<close>)
qed

lemma addWarmedAddress_keeps: "j_keeps j (addWarmedAddress a j)"
proof -
  let ?j = "if jr_journal j a = None
            then update_last_diff (\<lambda>d. d\<lparr>diff_addresses := insert a (diff_addresses d)\<rparr>)
                   (j\<lparr>jr_journal := (jr_journal j)(a \<mapsto> {})\<rparr>) else j"
  have "j_keeps j ?j"
  proof (cases "jr_journal j a = None")
    case True
    have "j_keeps j (update_last_diff (\<lambda>d. d\<lparr>diff_addresses := insert a (diff_addresses d)\<rparr>)
                   (j\<lparr>jr_journal := (jr_journal j)(a \<mapsto> {})\<rparr>))"
      by (rule j_keeps_recorded [where h = 0])
         (use True in \<open>auto simp: undo_frame_def undo_journal_def j_current_def fun_eq_iff split: option.split\<close>)
    with True show ?thesis by simp
  next
    case False
    then show ?thesis by (simp only: if_False j_keeps_refl)
  qed
  then show ?thesis by (auto simp: addWarmedAddress_def Let_def split: option.split)
qed

lemma addWarmedAddress_some: "jr_journal (addWarmedAddress a j) a \<noteq> None"
  by (auto simp: addWarmedAddress_def Let_def split: option.split)

lemma addWarmedStorage_keeps: "addWarmedStorage a slot j = (Inr (), t) \<Longrightarrow> j_keeps j t"
proof -
  assume t: "addWarmedStorage a slot j = (Inr (), t)"
  define j1 where "j1 = (if jr_journal j a = None then addWarmedAddress a j else j)"
  have "jr_journal j1 a \<noteq> None"
  proof (cases "jr_journal j a = None")
    case True
    then have "j1 = addWarmedAddress a j" by (simp add: j1_def)
    with addWarmedAddress_some [of a j] show ?thesis by metis
  next
    case False
    then have "j1 = j" unfolding j1_def by (simp only: if_False)
    with False show ?thesis by metis
  qed
  then obtain slots where slots: "jr_journal j1 a = Some slots" by blast
  define j2 where "j2 = (if slot \<notin> slots
               then update_last_diff (\<lambda>d. d\<lparr>diff_slots := (diff_slots d)(a \<mapsto>
                        insert slot (case diff_slots d a of None \<Rightarrow> {} | Some s \<Rightarrow> s))\<rparr>)
                      (j1\<lparr>jr_journal := (jr_journal j1)(a \<mapsto> insert slot slots)\<rparr>)
               else j1)"
  have "j_keeps j j1" by (simp add: j1_def addWarmedAddress_keeps)
  moreover have "j_keeps j1 j2"
  proof (cases "slot \<in> slots")
    case False
    have "j_keeps j1 (update_last_diff (\<lambda>d. d\<lparr>diff_slots := (diff_slots d)(a \<mapsto>
                        insert slot (case diff_slots d a of None \<Rightarrow> {} | Some s \<Rightarrow> s))\<rparr>)
                      (j1\<lparr>jr_journal := (jr_journal j1)(a \<mapsto> insert slot slots)\<rparr>))"
      by (rule j_keeps_recorded [where h = 0])
         (use False slots in \<open>auto simp: undo_frame_def undo_journal_def j_current_def fun_eq_iff split: option.split\<close>)
    with False show ?thesis by (simp add: j2_def)
  qed (simp add: j2_def)
  ultimately have "j_keeps j j2" by (rule j_keeps_trans)
  moreover have "t = j2 \<or> (\<exists>al. t = j2\<lparr>jr_accessList := al\<rparr>)"
    using t slots by (auto simp: addWarmedStorage_def Let_def j1_def [symmetric] j2_def split: option.splits if_splits)
  ultimately show ?thesis by auto
qed

section \<open>Checkpoint, commit and revert\<close>

lemma j_frames_nat:
  "jr_height j = int n \<Longrightarrow> j_frames j = j_current j # map (frame_at j) (rev [1..<Suc n])"
  by (simp add: j_frames_def)

lemma rev_upt_Suc: "rev [1..<Suc (Suc n)] = Suc n # rev [1..<Suc n]"
  by simp

lemma frame_at_push:
  "int k \<le> h \<Longrightarrow> frame_at (j_push h j) k = frame_at j k"
  by (simp add: frame_at_def j_push_def diff_suffix_snoc j_current_def)

lemma frame_at_self: "j_wf j \<Longrightarrow> jr_height j < int k \<Longrightarrow> frame_at j k = j_current j"
proof -
  assume "j_wf j" "jr_height j < int k"
  then obtain xs d where "jr_diff j = xs @ [(jr_height j, d)]"
    by (cases "jr_diff j" rule: rev_cases) (auto simp: j_wf_def)
  with \<open>jr_height j < int k\<close> show ?thesis by (simp add: frame_at_def diff_suffix_snoc)
qed

lemma j_push_wf: "j_wf j \<Longrightarrow> 0 \<le> h \<Longrightarrow> h \<le> jr_height j + 1 \<Longrightarrow> j_wf (j_push h j)"
  by (auto simp: j_wf_def j_push_def successively_append_iff hd_append)

lemma j_current_push [simp]: "j_current (j_push h j) = j_current j"
  by (simp add: j_current_def j_push_def)

lemma j_checkpoint_frames:
  assumes "j_wf j"
  shows "j_wf (j_push (jr_height j + 1) j) \<and> j_frames (j_push (jr_height j + 1) j) = hd (j_frames j) # j_frames j"
proof
  obtain n where n: "jr_height j = int n" using assms by (auto simp: j_wf_def dest: zero_le_imp_eq_int)
  let ?t = "j_push (jr_height j + 1) j"
  show "j_wf ?t" by (rule j_push_wf [OF assms]) (use assms in \<open>simp_all add: j_wf_def\<close>)
  have top: "frame_at ?t (Suc n) = j_current j"
    using frame_at_self [OF assms, of "Suc n"] frame_at_push [of "Suc n" "jr_height j + 1" j] n by simp
  have below: "map (frame_at ?t) (rev [1..<Suc n]) = map (frame_at j) (rev [1..<Suc n])"
    using n by (auto simp: frame_at_push)
  have "jr_height ?t = int (Suc n)" using n by (simp add: j_push_def)
  then have "j_frames ?t = j_current j # j_current j # map (frame_at j) (rev [1..<Suc n])"
    by (simp only: j_frames_nat rev_upt_Suc list.map top below j_current_push)
  then show "j_frames ?t = hd (j_frames j) # j_frames j" by (simp only: j_frames_nat [OF n] list.sel)
qed

lemma j_commit_frames:
  assumes "j_wf j" "j_frames j = x # y # zs"
  shows "j_wf (j_push (jr_height j - 1) j) \<and> j_frames (j_push (jr_height j - 1) j) = x # zs"
proof
  have pos: "0 < jr_height j" using assms by (cases "jr_height j = 0") (auto simp: j_frames_def j_wf_def)
  then obtain n where n: "jr_height j = int (Suc n)" by (metis pos_int_cases gr0_conv_Suc)
  let ?t = "j_push (jr_height j - 1) j"
  show "j_wf ?t" by (rule j_push_wf [OF assms(1)]) (use pos in simp_all)
  have h: "jr_height ?t = int n" using n by (simp add: j_push_def)
  have "map (frame_at ?t) (rev [1..<Suc n]) = map (frame_at j) (rev [1..<Suc n])"
    using n by (auto simp: frame_at_push)
  then have "j_frames ?t = j_current j # map (frame_at j) (rev [1..<Suc n])"
    by (simp only: j_frames_nat [OF h] j_current_push)
  moreover have "j_frames j = j_current j # frame_at j (Suc n) # map (frame_at j) (rev [1..<Suc n])"
    by (simp only: j_frames_nat [OF n] rev_upt_Suc list.map)
  ultimately show "j_frames ?t = x # zs" using assms(2) by simp
qed

definition undo_entries :: "(int \<times> diff_item) list \<Rightarrow> journal \<Rightarrow> journal" where
  "undo_entries es j = j\<lparr>jr_journal := foldr (\<lambda>e. undo_journal (snd e)) es (jr_journal j),
     jr_touched := foldr (\<lambda>e. undo_touched (snd e)) es (jr_touched j)\<rparr>"

lemma revert_loop_run:
  "jr_diff j = ps @ e # ss @ rest \<Longrightarrow> fst e < jr_height j \<Longrightarrow> \<forall>e\<in>set ss. jr_height j \<le> fst e \<Longrightarrow>
   revert_loop (length ps + 1 + length ss) f j = (length ps, undo_entries ss j)"
proof (induction ss arbitrary: rest j f rule: rev_induct)
  case Nil
  then show ?case by (cases e) (simp add: undo_entries_def nth_append)
next
  case (snoc s ss)
  let ?j = "undo_entries [s] j"
  have "jr_diff j ! (length ps + 1 + length ss) = s"
    using snoc.prems(1) by (simp add: nth_append)
  moreover have "jr_height j \<le> fst s" using snoc.prems(3) by simp
  ultimately have "revert_loop (length ps + 1 + length (ss @ [s])) f j
      = revert_loop (length ps + 1 + length ss) (length ps + 1 + length ss) ?j"
    by (cases s) (simp add: undo_entries_def)
  also have "\<dots> = (length ps, undo_entries ss ?j)"
    using snoc.prems by (intro snoc.IH [of _ "s # rest"]) (auto simp: undo_entries_def)
  also have "undo_entries ss ?j = undo_entries (ss @ [s]) j" by (simp add: undo_entries_def)
  finally show ?case .
qed

lemma undo_entries_current:
  "j_current (undo_entries es j) = foldr undo_frame es (j_current j)"
proof (induction es arbitrary: j)
  case (Cons e es)
  have "set (foldr (\<lambda>e. undo_touched (snd e)) (e # es) (jr_touched j)) - {RIPEMD160_ADDRESS}
      = (set (foldr (\<lambda>e. undo_touched (snd e)) es (jr_touched j)) - {RIPEMD160_ADDRESS}) - diff_touched (snd e)"
    by (auto simp: undo_touched_def)
  with Cons [of j] show ?case
    by (auto simp: j_current_def undo_entries_def undo_frame_def prod_eq_iff)
qed (simp add: undo_entries_def j_current_def)

lemma diff_suffix_split:
  assumes "xs \<noteq> []" "fst (hd xs) < k"
  obtains ps e where "xs = ps @ e # diff_suffix k xs" "fst e < k" "\<forall>e\<in>set (diff_suffix k xs). k \<le> fst e"
proof -
  let ?P = "\<lambda>e. k \<le> fst e"
  have all: "\<forall>e\<in>set (diff_suffix k xs). k \<le> fst e"
    by (auto simp: diff_suffix_def dest: set_takeWhileD)
  have "hd xs \<in> set (rev xs)" "\<not> ?P (hd xs)" using assms by auto
  then have "dropWhile ?P (rev xs) \<noteq> []" by (auto simp: dropWhile_eq_Nil_conv)
  then obtain e qs where qs: "dropWhile ?P (rev xs) = e # qs" by (cases "dropWhile ?P (rev xs)") auto
  then have "\<not> ?P e" using hd_dropWhile [of ?P "rev xs"] by simp
  have "rev xs = takeWhile ?P (rev xs) @ e # qs" using qs by (metis takeWhile_dropWhile_id)
  then have "xs = rev (takeWhile ?P (rev xs) @ e # qs)" by (metis rev_rev_ident)
  then have "xs = rev qs @ e # diff_suffix k xs" by (simp add: diff_suffix_def)
  with \<open>\<not> ?P e\<close> all show thesis by (intro that [of "rev qs" e]) auto
qed

lemma diff_suffix_append:
  "\<forall>e\<in>set ss. k \<le> fst e \<Longrightarrow> diff_suffix k (ps @ ss) = diff_suffix k ps @ ss"
  by (simp add: diff_suffix_def takeWhile_append)

lemma j_revert_frames:
  assumes wf: "j_wf j" and fr: "j_frames j = x # y # zs"
  shows "\<exists>t. j_revert j = (Inr (), t) \<and> j_wf t \<and> j_frames t = y # zs"
proof -
  have pos: "0 < jr_height j" using assms by (cases "jr_height j = 0") (auto simp: j_frames_def j_wf_def)
  then obtain n where n: "jr_height j = int (Suc n)" by (metis pos_int_cases gr0_conv_Suc)
  define S where "S = diff_suffix (jr_height j) (jr_diff j)"
  obtain ps e where split: "jr_diff j = ps @ e # S" "fst e < jr_height j" "\<forall>e\<in>set S. jr_height j \<le> fst e"
    using diff_suffix_split [of "jr_diff j" "jr_height j"] wf pos by (auto simp: j_wf_def S_def)
  define t where "t = (undo_entries S j)\<lparr>jr_diff := ps @ [e], jr_height := int n\<rparr>"
  have "revert_loop (length ps + 1 + length S) 0 j = (length ps, undo_entries S j)"
    using revert_loop_run [of j ps e S "[]" 0] split by simp
  moreover have "length (jr_diff j) = length ps + 1 + length S" "jr_diff j \<noteq> []"
    "take (length ps + 1) (jr_diff j) = ps @ [e]" by (simp_all add: split(1))
  moreover have "jr_diff (undo_entries S j) = jr_diff j" by (simp add: undo_entries_def)
  ultimately have run: "j_revert j = (Inr (), t)"
    by (simp only: j_revert_def modifyE_run prod.case if_False) (simp add: t_def n undo_entries_def)
  have S: "S \<noteq> []"
  proof -
    obtain xs l where "jr_diff j = xs @ [l]" using wf by (cases "jr_diff j" rule: rev_cases) (auto simp: j_wf_def)
    then show ?thesis using wf by (simp add: S_def diff_suffix_snoc j_wf_def)
  qed
  have succ: "successively (\<lambda>a b. fst b \<le> fst a + 1) ((ps @ [e]) @ S)"
    using wf split(1) by (simp add: j_wf_def)
  then have "fst (hd S) \<le> fst e + 1" using S unfolding successively_append_iff by simp
  moreover have "jr_height j \<le> fst (hd S)" using split(3) S by simp
  ultimately have e: "fst e = int n" using split(2) n by simp
  have "successively (\<lambda>a b. fst b \<le> fst a + 1) (ps @ [e])"
    using succ by (simp only: successively_append_iff [of _ "ps @ [e]"])
  then have twf: "j_wf t"
    using wf split(1) e by (auto simp: t_def j_wf_def hd_append split: if_splits)
  have cur: "j_current t = frame_at j (Suc n)"
    using undo_entries_current [of S j] n by (simp add: t_def j_current_def frame_at_def S_def)
  have below: "frame_at t k = frame_at j k" if "k \<le> n" for k
  proof -
    have "\<forall>e\<in>set S. int k \<le> fst e" using split(3) that n by auto
    from diff_suffix_append [OF this, of "ps @ [e]"] split(1)
    have "diff_suffix (int k) (jr_diff j) = diff_suffix (int k) (ps @ [e]) @ S" by simp
    moreover have "j_current t = foldr undo_frame S (j_current j)"
      using undo_entries_current [of S j] by (simp add: t_def j_current_def)
    ultimately show ?thesis by (simp add: frame_at_def t_def [THEN arg_cong [of _ _ jr_diff]])
  qed
  have h: "jr_height t = int n" by (simp add: t_def)
  have "map (frame_at t) (rev [1..<Suc n]) = map (frame_at j) (rev [1..<Suc n])" using below by auto
  then have "j_frames t = frame_at j (Suc n) # map (frame_at j) (rev [1..<Suc n])"
    by (simp only: j_frames_nat [OF h] cur)
  moreover have "j_frames j = j_current j # frame_at j (Suc n) # map (frame_at j) (rev [1..<Suc n])"
    by (simp only: j_frames_nat [OF n] rev_upt_Suc list.map)
  ultimately have "j_frames t = y # zs" using fr by simp
  with run twf show ?thesis by blast
qed

text \<open>What may happen to the journal between a checkpoint and its end.\<close>

definition j_write :: "journal \<Rightarrow> journal \<Rightarrow> bool" where
  "j_write s t \<longleftrightarrow> (\<exists>a. touchAccount a s = (Inr (), t)) \<or> (\<exists>a. t = addWarmedAddress a s)
     \<or> (\<exists>a slot. addWarmedStorage a slot s = (Inr (), t)) \<or> s = t"

lemma j_write_keeps: "j_write s t \<Longrightarrow> j_keeps s t"
  by (auto simp: j_write_def touch_keeps addWarmedAddress_keeps addWarmedStorage_keeps)

interpretation jr: checkpointed j_frames j_wf j_write j_checkpoint j_commit j_revert
proof
  fix s t x y zs assume wf: "j_wf s"
  show "j_frames s \<noteq> []" by (simp add: j_frames_def)
  show "j_write s t \<Longrightarrow> j_wf t \<and> tl (j_frames t) = tl (j_frames s)"
    using j_write_keeps wf by (auto simp: j_keeps_def)
  show "\<exists>t. j_checkpoint s = (Inr (), t) \<and> j_wf t \<and> j_frames t = hd (j_frames s) # j_frames s"
    using j_checkpoint_frames [OF wf] by (simp add: j_checkpoint_def)
  assume fr: "j_frames s = x # y # zs"
  show "\<exists>t. j_commit s = (Inr (), t) \<and> j_wf t \<and> j_frames t = x # zs"
    using j_commit_frames [OF wf fr] by (simp add: j_commit_def)
  show "\<exists>t. j_revert s = (Inr (), t) \<and> j_wf t \<and> j_frames t = y # zs"
    by (rule j_revert_frames [OF wf fr])
qed

section \<open>Journal and state manager together\<close>

definition world_frames :: "world \<Rightarrow> (jframe \<times> sm_frame) list" where
  "world_frames w = zip (j_frames (wl_journal w)) (sm_frames (wl_sm w))"

definition world_wf :: "world \<Rightarrow> bool" where
  "world_wf w \<longleftrightarrow> j_wf (wl_journal w) \<and> sm_wf (wl_sm w)
     \<and> length (j_frames (wl_journal w)) = length (sm_frames (wl_sm w))"

definition world_write :: "externals \<Rightarrow> world \<Rightarrow> world \<Rightarrow> bool" where
  "world_write x v w \<longleftrightarrow> (\<exists>a acc. journal_putAccount a acc v = (Inr (), w))
     \<or> (\<exists>a. journal_deleteAccount a v = (Inr (), w))
     \<or> (j_write (wl_journal v) (wl_journal w) \<and> wl_sm w = wl_sm v)
     \<or> (sm_write x (wl_sm v) (wl_sm w) \<and> wl_journal w = wl_journal v)"

lemma zip_tl: "tl (zip as bs) = zip (tl as) (tl bs)" if "as \<noteq> []" "bs \<noteq> []"
  using that by (cases as; cases bs) auto

lemma world_parts:
  assumes "world_wf v" "j_wf (wl_journal w) \<and> tl (j_frames (wl_journal w)) = tl (j_frames (wl_journal v))"
    "sm_wf (wl_sm w) \<and> tl (sm_frames (wl_sm w)) = tl (sm_frames (wl_sm v))"
  shows "world_wf w \<and> tl (world_frames w) = tl (world_frames v)"
proof -
  have ne: "j_frames j \<noteq> []" for j by (simp add: j_frames_def)
  have sne: "sm_frames (wl_sm v) \<noteq> []" "sm_frames (wl_sm w) \<noteq> []"
    using assms sm.frames_ne by (auto simp: world_wf_def)
  have "length (j_frames (wl_journal w)) = length (sm_frames (wl_sm w))"
    using assms ne [of "wl_journal v"] ne [of "wl_journal w"] sne unfolding world_wf_def
    by (metis Suc_pred' length_greater_0_conv length_tl)
  then show ?thesis using assms ne sne by (simp add: world_wf_def world_frames_def zip_tl)
qed

lemma journal_put_parts:
  "journal_putAccount a acc v = (Inr (), w) \<Longrightarrow> j_write (wl_journal v) (wl_journal w) \<and> sm_write x (wl_sm v) (wl_sm w)"
  "journal_deleteAccount a v = (Inr (), w) \<Longrightarrow> j_write (wl_journal v) (wl_journal w) \<and> sm_write x (wl_sm v) (wl_sm w)"
  by (auto simp: journal_putAccount_def journal_deleteAccount_def seqE_run on_journal_def on_sm_def
                 j_write_def sm_write_def split: prod.splits sum.splits)

interpretation world: checkpointed world_frames world_wf "world_write x"
  journal_checkpoint journal_commit journal_revert for x
proof
  fix s t X Y zs assume wf: "world_wf s"
  then have wfs: "j_wf (wl_journal s)" "sm_wf (wl_sm s)"
    and len: "length (j_frames (wl_journal s)) = length (sm_frames (wl_sm s))"
    by (auto simp: world_wf_def)
  obtain jx jy where jf: "j_frames (wl_journal s) = jx # jy" by (simp add: j_frames_def)
  obtain sx sy where sf: "sm_frames (wl_sm s) = sx # sy"
    using sm.frames_ne [OF wfs(2)] by (cases "sm_frames (wl_sm s)") auto
  show "world_frames s \<noteq> []" by (simp add: world_frames_def jf sf)
  show "world_wf t \<and> tl (world_frames t) = tl (world_frames s)" if "world_write x s t"
  proof -
    have "(j_write (wl_journal s) (wl_journal t) \<or> wl_journal s = wl_journal t)
        \<and> (sm_write x (wl_sm s) (wl_sm t) \<or> wl_sm s = wl_sm t)"
      using that journal_put_parts(1) [where v = s and w = t and x = x] journal_put_parts(2) [where v = s and w = t and x = x]
      by (auto simp: world_write_def)
    then show ?thesis
      using world_parts [OF wf, of t] jr.write_law [OF wfs(1), of "wl_journal t"]
        sm.write_law [OF wfs(2), of x "wl_sm t"] wfs by (elim conjE disjE) auto
  qed
  show "\<exists>t. journal_checkpoint s = (Inr (), t) \<and> world_wf t \<and> world_frames t = hd (world_frames s) # world_frames s"
    using jr.checkpoint_law [OF wfs(1)] sm.checkpoint_law [OF wfs(2)] len
    by (auto simp: journal_checkpoint_def seqE_run on_journal_def on_sm_def world_wf_def world_frames_def jf sf)
  assume fr: "world_frames s = X # Y # zs"
  obtain jx' jz where jy: "jy = jx' # jz" using fr by (cases jy) (auto simp: world_frames_def jf sf)
  obtain sx' sz where sy: "sy = sx' # sz" using fr by (cases sy) (auto simp: world_frames_def jf sf)
  show "\<exists>t. journal_commit s = (Inr (), t) \<and> world_wf t \<and> world_frames t = X # zs"
    using jr.commit_law [OF wfs(1) jf [unfolded jy]] sm.commit_law [OF wfs(2) sf [unfolded sy]] len fr
    by (auto simp: journal_commit_def seqE_run on_journal_def on_sm_def world_wf_def world_frames_def jf sf jy sy)
  show "\<exists>t. journal_revert s = (Inr (), t) \<and> world_wf t \<and> world_frames t = Y # zs"
    using jr.revert_law [OF wfs(1) jf [unfolded jy]] sm.revert_law [OF wfs(2) sf [unfolded sy]] len fr
    by (auto simp: journal_revert_def seqE_run on_journal_def on_sm_def world_wf_def world_frames_def jf sf jy sy)
qed

section \<open>Properties\<close>

text \<open>C6: Reverting the journal to a checkpoint undoes everything a balanced run did since: the
  warm addresses and slots, the touched accounts except RIPEMD160, which stays touched, and the
  accounts, code and storage of the state manager are what they were at the checkpoint.\<close>

theorem journal_revert_restores:
  assumes "world_wf s" "journal_checkpoint s = (Inr (), t)"
    and "balanced (world_write x) journal_checkpoint journal_commit journal_revert t u"
  shows "\<exists>v. journal_revert u = (Inr (), v) \<and> world_wf v
     \<and> jr_journal (wl_journal v) = jr_journal (wl_journal s)
     \<and> set (jr_touched (wl_journal v)) - {RIPEMD160_ADDRESS} = set (jr_touched (wl_journal s)) - {RIPEMD160_ADDRESS}
     \<and> (\<forall>a k. fst (sm_getAccount a (wl_sm v)) = fst (sm_getAccount a (wl_sm s))
          \<and> fst (sm_getCode a (wl_sm v)) = fst (sm_getCode a (wl_sm s))
          \<and> fst (sm_getStorage a k (wl_sm v)) = fst (sm_getStorage a k (wl_sm s)))"
proof -
  obtain v where v: "journal_revert u = (Inr (), v)" "world_wf v" "world_frames v = world_frames s"
    using world.revert_restores [OF assms] by blast
  have ne: "sm_frames (wl_sm w) \<noteq> []" if "world_wf w" for w
    using that sm.frames_ne by (auto simp: world_wf_def)
  have hd: "hd (world_frames w) = (j_current (wl_journal w), hd (sm_frames (wl_sm w)))" if "world_wf w" for w
    using ne [OF that] by (cases "sm_frames (wl_sm w)") (simp_all add: world_frames_def j_frames_def)
  have "j_current (wl_journal v) = j_current (wl_journal s)" "hd (sm_frames (wl_sm v)) = hd (sm_frames (wl_sm s))"
    using hd [OF v(2)] hd [OF assms(1)] v(3) by auto
  moreover have "sm_wf (wl_sm v)" "sm_wf (wl_sm s)" using v(2) assms(1) by (auto simp: world_wf_def)
  ultimately show ?thesis using v(1,2) by (auto simp: sm_get_frames j_current_def)
qed

definition new_world :: world where
  "new_world = \<lparr>wl_sm = new_simple_sm, wl_journal = new_journal\<rparr>"

lemma new_world_wf: "world_wf new_world"
  by (simp add: world_wf_def new_world_def sm_wf_def j_wf_def new_journal_def cleanJournal_def
        j_frames_def sm_frames_def new_simple_sm_def checkpointSync_def)

theorem journal_revert_restores_witness:
  "\<exists>t u v. journal_checkpoint new_world = (Inr (), t) \<and> on_journal (modifyE (addWarmedAddress [1])) t = (Inr (), u)
     \<and> isWarmedAddress [1] (wl_journal u) \<and> journal_revert u = (Inr (), v) \<and> jr_journal (wl_journal v) [1] = None"
proof -
  obtain t where t: "journal_checkpoint new_world = (Inr (), t)"
    by (simp add: journal_checkpoint_def seqE_run on_journal_def on_sm_def j_checkpoint_def sm_checkpoint_def)
  define u where "u = t\<lparr>wl_journal := addWarmedAddress [1] (wl_journal t)\<rparr>"
  have u: "on_journal (modifyE (addWarmedAddress [1])) t = (Inr (), u)"
    "wl_journal u = addWarmedAddress [1] (wl_journal t)" "wl_sm u = wl_sm t"
    by (simp_all add: on_journal_def u_def)
  then have "world_write sample_externals t u" by (auto simp: world_write_def j_write_def)
  then have "balanced (world_write sample_externals) journal_checkpoint journal_commit journal_revert t u"
    by (blast intro: balanced.intros)
  from journal_revert_restores [OF new_world_wf t this] obtain v where
    v: "journal_revert u = (Inr (), v)" "jr_journal (wl_journal v) = jr_journal (wl_journal new_world)" by blast
  have "isWarmedAddress [1] (wl_journal u)" using addWarmedAddress_some u(2) by (simp add: isWarmedAddress_def)
  moreover have "jr_journal (wl_journal v) [1] = None"
    unfolding v(2) by (simp add: new_world_def new_journal_def cleanJournal_def)
  ultimately show ?thesis using t u(1) v(1) by blast
qed

end
