(* ===== verification/RunState.thy ===== *)
theory RunState
  imports EvmStack EvmMemory TransientStorage Journal
begin

text \<open>
  The state of one execution frame: \<open>RunState\<close>, \<open>Env\<close> and the result fields of the class
  \<open>Interpreter\<close> in \<open>src/packages/evm/src/interpreter.ts\<close>, with the EVM-wide state the frame reaches
  (journal, state manager, transient storage), and the interpreter methods the instructions use.
  A handler is a computation in the state-and-exception monad over \<open>run_state\<close>. Accesses that
  only EIP-6800 makes (binary tree witnesses) are the failure \<open>witness_unmodelled\<close>, which no
  configuration reaches since no hardfork activates that EIP.
\<close>

section \<open>Environment\<close>

record block_header =
  hdr_number :: int
  hdr_coinbase :: address
  hdr_timestamp :: int
  hdr_difficulty :: int
  hdr_prevRandao :: bytes
  hdr_gasLimit :: int
  hdr_baseFeePerGas :: "int option"
  hdr_blobGasPrice :: "int option"

record env =
  env_address :: address
  env_caller :: address
  env_callData :: bytes
  env_callValue :: int
  env_code :: bytes
  env_isStatic :: bool
  env_isCreate :: bool
  env_depth :: nat
  env_gasPrice :: int
  env_origin :: address
  env_block :: block_header
  env_contract :: account
  env_codeAddress :: address
  env_gasRefund :: int
  env_eof :: bool
  env_blobVersionedHashes :: "string list"
  env_chargeCodeAccesses :: bool

text \<open>\<open>env.createdAddresses\<close> is the same Set object as the result's \<open>createdAddresses\<close>
  (\<open>runInterpreter\<close> sets both to the message's), so it is kept once, in the run state.

  A log entry: address, topics, data.\<close>

type_synonym log_entry = "address \<times> bytes list \<times> bytes"

record run_state =
  rs_programCounter :: nat
  rs_opCode :: nat
  rs_memory :: memory
  rs_memoryWordCount :: int
  rs_highestMemCost :: int
  rs_stack :: stack
  rs_code :: bytes
  rs_shouldDoJumpAnalysis :: bool
  rs_validJumps :: "nat list"
  rs_cachedPushes :: "nat \<Rightarrow> int option"
  rs_env :: env
  rs_messageGasLimit :: "int option"
  rs_gasRefund :: int
  rs_gasLeft :: int
  rs_returnBytes :: bytes
  res_logs :: "log_entry list"
  res_returnValue :: "bytes option"
  res_selfdestruct :: "address list"
  res_createdAddresses :: "address list option"
  rs_world :: world
  rs_transient :: transient_storage

type_synonym 'a evm = "(run_state, 'a) sx"

text \<open>What is fixed during a run: the third-party functions, the chain configuration, the fork,
  and the collaborators outside the package (block hashes, the clique signer of a header, and of the
  JavaScript engine the longest \<open>Uint8Array\<close> that it makes, in every engine less than \<open>2 ^ 53\<close>).\<close>

record evm_ctx =
  ctx_ext :: externals
  ctx_common :: frozen_config
  ctx_fork :: string
  ctx_blockHash :: "int \<Rightarrow> exn + bytes"
  ctx_cliqueSigner :: "block_header \<Rightarrow> address"
  ctx_allowUnlimitedInitCodeSize :: bool
  ctx_maxArrayLength :: nat

definition eip_active :: "evm_ctx \<Rightarrow> nat \<Rightarrow> bool" where
  "eip_active c eip = isEIPActiveAtHardfork (ctx_common c) eip (ctx_fork c)"

definition fork_gte :: "evm_ctx \<Rightarrow> string \<Rightarrow> bool" where
  "fork_gte c target = hardforkGte (ctx_common c) (ctx_fork c) target"

text \<open>\<open>getParamAtHardfork(name, fork)!\<close> used as a bigint: arithmetic with undefined, null or a
  number throws a TypeError.\<close>

definition param_at :: "evm_ctx \<Rightarrow> string \<Rightarrow> param_value option" where
  "param_at c name = getParamAtHardfork (ctx_common c) name (ctx_fork c)"

definition param :: "evm_ctx \<Rightarrow> string \<Rightarrow> int evm" where
  "param c name = liftE (case param_at c name of Some (PBig v) \<Rightarrow> Inr v | _ \<Rightarrow> Inl TypeError)"

text \<open>\<open>Number(getParamAtHardfork(name, fork)!)\<close>: NaN for undefined, which compares false.\<close>

definition param_number :: "evm_ctx \<Rightarrow> string \<Rightarrow> int option" where
  "param_number c name = (case param_at c name of Some (PBig v) \<Rightarrow> Some v | Some (PNum v) \<Rightarrow> Some v
     | Some PNull \<Rightarrow> Some 0 | None \<Rightarrow> None)"

definition witness_unmodelled :: "'a evm" where
  "witness_unmodelled = throwE (PlainError ''the EIP-6800 access witness is not modelled'')"

text \<open>The run state and result the constructor of \<open>Interpreter\<close> builds.\<close>

definition new_run_state :: "env \<Rightarrow> int \<Rightarrow> world \<Rightarrow> transient_storage \<Rightarrow> run_state" where
  "new_run_state env gasLeft w t =
     \<lparr>rs_programCounter = 0, rs_opCode = 0xfe, rs_memory = new_memory, rs_memoryWordCount = 0,
      rs_highestMemCost = 0, rs_stack = new_stack None, rs_code = [], rs_shouldDoJumpAnalysis = True,
      rs_validJumps = [], rs_cachedPushes = (\<lambda>_. None), rs_env = env, rs_messageGasLimit = None,
      rs_gasRefund = env_gasRefund env, rs_gasLeft = gasLeft, rs_returnBytes = [], res_logs = [],
      res_returnValue = None, res_selfdestruct = [], res_createdAddresses = None,
      rs_world = w, rs_transient = t\<rparr>"

text \<open>A concrete frame for evaluation: the given code at address 1, an empty world.\<close>

definition sample_header :: block_header where
  "sample_header = \<lparr>hdr_number = 1, hdr_coinbase = createZeroAddress, hdr_timestamp = 1, hdr_difficulty = 0,
     hdr_prevRandao = replicate 32 0, hdr_gasLimit = 30000000, hdr_baseFeePerGas = Some 7, hdr_blobGasPrice = Some 1\<rparr>"

definition sample_env :: "bytes \<Rightarrow> bytes \<Rightarrow> env" where
  "sample_env code data = \<lparr>env_address = replicate 19 0 @ [1], env_caller = createZeroAddress, env_callData = data,
     env_callValue = 0, env_code = code, env_isStatic = False, env_isCreate = False, env_depth = 0,
     env_gasPrice = 1, env_origin = createZeroAddress, env_block = sample_header, env_contract = new_account,
     env_codeAddress = replicate 19 0 @ [1], env_gasRefund = 0, env_eof = False, env_blobVersionedHashes = [],
     env_chargeCodeAccesses = False\<rparr>"

definition sample_world :: world where
  "sample_world = \<lparr>wl_sm = new_simple_sm, wl_journal = new_journal\<rparr>"

definition sample_frame :: "bytes \<Rightarrow> int \<Rightarrow> run_state" where
  "sample_frame code gas = new_run_state (sample_env code []) gas sample_world new_transient_storage"

definition sample_ctx :: evm_ctx where
  "sample_ctx = \<lparr>ctx_ext = sample_externals, ctx_common = tiny_config, ctx_fork = ''shanghai'',
     ctx_blockHash = (\<lambda>_. Inl TypeError), ctx_cliqueSigner = (\<lambda>_. createZeroAddress),
     ctx_allowUnlimitedInitCodeSize = False, ctx_maxArrayLength = 2 ^ 32\<rparr>"

section \<open>Lifting\<close>

definition onStack :: "(stack, 'a) sx \<Rightarrow> 'a evm" where
  "onStack m = (\<lambda>rs. case m (rs_stack rs) of (r, st) \<Rightarrow> (r, rs\<lparr>rs_stack := st\<rparr>))"

definition onMemory :: "(memory, 'a) sx \<Rightarrow> 'a evm" where
  "onMemory m = (\<lambda>rs. case m (rs_memory rs) of (r, mm) \<Rightarrow> (r, rs\<lparr>rs_memory := mm\<rparr>))"

definition onWorld :: "'a world_op \<Rightarrow> 'a evm" where
  "onWorld m = (\<lambda>rs. case m (rs_world rs) of (r, w) \<Rightarrow> (r, rs\<lparr>rs_world := w\<rparr>))"

definition onTransient :: "(transient_storage, 'a) sx \<Rightarrow> 'a evm" where
  "onTransient m = (\<lambda>rs. case m (rs_transient rs) of (r, t) \<Rightarrow> (r, rs\<lparr>rs_transient := t\<rparr>))"

definition push :: "int \<Rightarrow> unit evm" where
  "push v = onStack (stack_push v)"

definition pop :: "int evm" where
  "pop = onStack stack_pop"

definition popN :: "nat \<Rightarrow> int list evm" where
  "popN n = onStack (stack_popN n)"

definition trap :: "evm_error \<Rightarrow> 'a evm" where
  "trap e = throwE (EVMError e)"

text \<open>Destructuring of \<open>popN\<close>.\<close>

definition pop2 :: "(int \<Rightarrow> int \<Rightarrow> 'a evm) \<Rightarrow> 'a evm" where
  "pop2 f = bindE (popN 2) (\<lambda>v. f (v ! 0) (v ! 1))"

definition pop3 :: "(int \<Rightarrow> int \<Rightarrow> int \<Rightarrow> 'a evm) \<Rightarrow> 'a evm" where
  "pop3 f = bindE (popN 3) (\<lambda>v. f (v ! 0) (v ! 1) (v ! 2))"

definition pop4 :: "(int \<Rightarrow> int \<Rightarrow> int \<Rightarrow> int \<Rightarrow> 'a evm) \<Rightarrow> 'a evm" where
  "pop4 f = bindE (popN 4) (\<lambda>v. f (v ! 0) (v ! 1) (v ! 2) (v ! 3))"

section \<open>Interpreter methods\<close>

definition useGas :: "int \<Rightarrow> unit evm" where
  "useGas amount = (\<lambda>rs.
     let left = rs_gasLeft rs - amount in
     if left < 0 then (Inl (EVMError OUT_OF_GAS), rs\<lparr>rs_gasLeft := 0\<rparr>)
     else (Inr (), rs\<lparr>rs_gasLeft := left\<rparr>))"

definition refundGas :: "int \<Rightarrow> unit evm" where
  "refundGas amount = modifyE (\<lambda>rs. rs\<lparr>rs_gasRefund := rs_gasRefund rs + amount\<rparr>)"

definition subRefund :: "int \<Rightarrow> unit evm" where
  "subRefund amount = (\<lambda>rs.
     let r = rs_gasRefund rs - amount in
     if r < 0 then (Inl (EVMError REFUND_EXHAUSTED), rs\<lparr>rs_gasRefund := 0\<rparr>)
     else (Inr (), rs\<lparr>rs_gasRefund := r\<rparr>))"

definition addStipend :: "int \<Rightarrow> unit evm" where
  "addStipend amount = modifyE (\<lambda>rs. rs\<lparr>rs_gasLeft := rs_gasLeft rs + amount\<rparr>)"

definition set_contract :: "account \<Rightarrow> unit evm" where
  "set_contract acc = modifyE (\<lambda>rs. rs\<lparr>rs_env := (rs_env rs)\<lparr>env_contract := acc\<rparr>\<rparr>)"

definition getExternalBalance :: "address \<Rightarrow> int evm" where
  "getExternalBalance a = bindE (getsE rs_env) (\<lambda>env.
     if a = env_address env then returnE (acc_balance (env_contract env))
     else bindE (onWorld (on_sm (sm_getAccount a)))
       (\<lambda>acc. returnE (acc_balance (case acc of None \<Rightarrow> new_account | Some b \<Rightarrow> b))))"

definition storageStore :: "bytes \<Rightarrow> bytes \<Rightarrow> unit evm" where
  "storageStore key val = bindE (getsE (\<lambda>rs. env_address (rs_env rs))) (\<lambda>a.
     seqE (onWorld (on_sm (sm_putStorage a key val)))
       (bindE (onWorld (on_sm (sm_getAccount a)))
         (\<lambda>acc. case acc of
            None \<Rightarrow> throwE (PlainError ''could not read account while persisting memory'')
          | Some b \<Rightarrow> set_contract b)))"

definition storageLoad :: "bytes \<Rightarrow> bool \<Rightarrow> bytes evm" where
  "storageLoad key original = bindE (getsE (\<lambda>rs. env_address (rs_env rs))) (\<lambda>a.
     if original then onWorld (on_sm (sm_getOriginalStorage a key))
     else onWorld (on_sm (sm_getStorage a key)))"

definition transientStorageStore :: "bytes \<Rightarrow> bytes \<Rightarrow> unit evm" where
  "transientStorageStore key val = bindE (getsE (\<lambda>rs. env_address (rs_env rs)))
     (\<lambda>a. onTransient (ts_put a key val))"

definition transientStorageLoad :: "bytes \<Rightarrow> bytes evm" where
  "transientStorageLoad key = getsE (\<lambda>rs. ts_get (env_address (rs_env rs)) key (rs_transient rs))"

definition finish :: "bytes \<Rightarrow> unit evm" where
  "finish returnData = seqE (modifyE (\<lambda>rs. rs\<lparr>res_returnValue := Some returnData\<rparr>)) (trap STOP)"

definition interp_revert :: "bytes \<Rightarrow> unit evm" where
  "interp_revert returnData = seqE (modifyE (\<lambda>rs. rs\<lparr>res_returnValue := Some returnData\<rparr>)) (trap REVERT)"

definition interp_log :: "bytes \<Rightarrow> int \<Rightarrow> bytes list \<Rightarrow> unit evm" where
  "interp_log data numberOfTopics topics =
     (if numberOfTopics < 0 \<or> numberOfTopics > 4 then trap OUT_OF_RANGE
      else if int (length topics) \<noteq> numberOfTopics then trap INTERNAL_ERROR
      else modifyE (\<lambda>rs. rs\<lparr>res_logs := res_logs rs @ [(env_address (rs_env rs), topics, data)]\<rparr>))"

definition getCallDataSize :: "run_state \<Rightarrow> int" where
  "getCallDataSize rs = int (length (env_callData (rs_env rs)))"

definition getCodeSize :: "run_state \<Rightarrow> int" where
  "getCodeSize rs = int (length (env_code (rs_env rs)))"

definition getReturnDataSize :: "run_state \<Rightarrow> int" where
  "getReturnDataSize rs = int (length (rs_returnBytes rs))"

definition getCaller :: "evm_ctx \<Rightarrow> run_state \<Rightarrow> int" where
  "getCaller c rs = bytesToBigInt (ctx_ext c) (env_caller (rs_env rs))"

definition getTxOrigin :: "evm_ctx \<Rightarrow> run_state \<Rightarrow> int" where
  "getTxOrigin c rs = bytesToBigInt (ctx_ext c) (env_origin (rs_env rs))"

definition getBlockCoinbase :: "evm_ctx \<Rightarrow> run_state \<Rightarrow> int" where
  "getBlockCoinbase c rs =
     (let hdr = env_block (rs_env rs);
          coinbase = (if map_option consensus_algorithm (spec_chain (cfg_spec (ctx_common c))) = Some ''clique''
                      then ctx_cliqueSigner c hdr else hdr_coinbase hdr)
      in bytesToBigInt (ctx_ext c) coinbase)"

definition getBlockPrevRandao :: "evm_ctx \<Rightarrow> run_state \<Rightarrow> int" where
  "getBlockPrevRandao c rs = bytesToBigInt (ctx_ext c) (hdr_prevRandao (env_block (rs_env rs)))"

definition getBlockBaseFee :: "int evm" where
  "getBlockBaseFee = bindE (getsE (\<lambda>rs. hdr_baseFeePerGas (env_block (rs_env rs))))
     (\<lambda>fee. case fee of None \<Rightarrow> throwE (PlainError ''Block has no Base Fee'') | Some v \<Rightarrow> returnE v)"

definition getBlobBaseFee :: "int evm" where
  "getBlobBaseFee = bindE (getsE (\<lambda>rs. hdr_blobGasPrice (env_block (rs_env rs))))
     (\<lambda>fee. case fee of None \<Rightarrow> throwE (PlainError ''Block has no Blob Base Fee'') | Some v \<Rightarrow> returnE v)"

definition getChainId :: "evm_ctx \<Rightarrow> int" where
  "getChainId c = spec_chainId (cfg_spec (ctx_common c))"

section \<open>The frame as a machine with an operand stack\<close>

definition stk :: "run_state \<Rightarrow> int list" where
  "stk rs = stack_view (rs_stack rs)"

definition frame_wf :: "run_state \<Rightarrow> bool" where
  "frame_wf rs \<longleftrightarrow> stack_wf (rs_stack rs)"

text \<open>Two frames that differ at most in the operand stack.\<close>

definition same_frame :: "run_state \<Rightarrow> run_state \<Rightarrow> bool" where
  "same_frame rs t \<longleftrightarrow> (\<exists>st. t = rs\<lparr>rs_stack := st\<rparr> \<and> stk_maxHeight st = stk_maxHeight (rs_stack rs))"

lemma onStack_ok:
  assumes "m (rs_stack rs) = (Inr r, st)" "stack_wf st" "stk_maxHeight st = stk_maxHeight (rs_stack rs)"
  shows "\<exists>t. onStack m rs = (Inr r, t) \<and> frame_wf t \<and> stk t = stack_view st \<and> same_frame rs t"
  using assms by (auto simp: onStack_def frame_wf_def stk_def same_frame_def)

interpretation frame: operand_stack stk frame_wf "\<lambda>rs. stk_maxHeight (rs_stack rs)" same_frame push popN
proof
  fix s t u :: run_state
  show "frame_wf s \<Longrightarrow> length (stk s) \<le> stk_maxHeight (rs_stack s)"
    using raw.height by (simp add: frame_wf_def stk_def)
  show "same_frame s s" unfolding same_frame_def by (intro exI [of _ "rs_stack s"]) simp
  show "same_frame s t \<Longrightarrow> same_frame t u \<Longrightarrow> same_frame s u" by (auto simp: same_frame_def)
  show "same_frame s t \<Longrightarrow> stk_maxHeight (rs_stack t) = stk_maxHeight (rs_stack s)" by (auto simp: same_frame_def)
next
  fix s :: run_state and v :: int and n :: nat assume wf: "frame_wf s"
  then have wf': "stack_wf (rs_stack s)" by (simp add: frame_wf_def)
  show "\<exists>t. push v s = (Inr (), t) \<and> frame_wf t \<and> stk t = v # stk s \<and> same_frame s t"
    if "length (stk s) < stk_maxHeight (rs_stack s)"
    using raw.push_ok [OF wf', of v] that onStack_ok [of "stack_push v" s]
    by (fastforce simp: stk_def push_def same_height_def)
  show "push v s = (Inl (EVMError STACK_OVERFLOW), s)" if "length (stk s) = stk_maxHeight (rs_stack s)"
    using raw.push_full [OF wf'] that by (simp add: push_def onStack_def stk_def)
  show "\<exists>t. popN n s = (Inr (take n (stk s)), t) \<and> frame_wf t \<and> stk t = drop n (stk s) \<and> same_frame s t"
    if "n \<le> length (stk s)"
    using raw.popN_ok [OF wf', of n] that onStack_ok [of "stack_popN n" s]
    by (fastforce simp: stk_def popN_def same_height_def)
  show "popN n s = (Inl (EVMError STACK_UNDERFLOW), s)" if "length (stk s) < n"
    using raw.popN_under [OF wf'] that by (simp add: popN_def onStack_def stk_def)
qed

lemma pop_popN: "frame_wf rs \<Longrightarrow> bindE pop k rs = bindE (popN 1) (\<lambda>v. k (v ! 0)) rs"
proof -
  assume "frame_wf rs"
  then have wf: "stack_wf (rs_stack rs)" by (simp add: frame_wf_def)
  show ?thesis
  proof (cases "stack_view (rs_stack rs)")
    case Nil
    then show ?thesis using wf by (simp add: pop_def popN_def onStack_def bindE_run pop_run popN_run)
  next
    case (Cons v vs)
    then have "1 \<le> stk_len (rs_stack rs)" using length_stack_view [OF wf] by simp
    then show ?thesis using wf Cons by (simp add: pop_def popN_def onStack_def bindE_run pop_run popN_run)
  qed
qed

section \<open>Instructions on a stack of 256-bit words\<close>

text \<open>\<open>m\<close> implements \<open>g\<close> on the top \<open>n\<close> words: it replaces them by the result and changes nothing
  else, or it underflows and changes nothing at all.\<close>

definition implements :: "unit evm \<Rightarrow> nat \<Rightarrow> (256 word list \<Rightarrow> 256 word) \<Rightarrow> bool" where
  "implements m n g \<longleftrightarrow> (\<forall>rs ws. frame_wf rs \<and> stk rs = map uint ws \<longrightarrow>
     (if length ws < n then m rs = (Inl (EVMError STACK_UNDERFLOW), rs)
      else \<exists>t. m rs = (Inr (), t) \<and> frame_wf t \<and> stk t = map uint (g (take n ws) # drop n ws)
             \<and> same_frame rs t))"

lemma implements_operator:
  assumes "\<And>ws. length ws = n \<Longrightarrow> F (map uint ws) = uint (g ws)" "0 < n"
    and "\<And>rs. frame_wf rs \<Longrightarrow> m rs = bindE (popN n) (\<lambda>ys. push (F ys)) rs"
  shows "implements m n g"
  unfolding implements_def
proof (intro allI impI)
  fix rs and ws :: "256 word list" assume a: "frame_wf rs \<and> stk rs = map uint ws"
  show "if length ws < n then m rs = (Inl (EVMError STACK_UNDERFLOW), rs)
      else \<exists>t. m rs = (Inr (), t) \<and> frame_wf t \<and> stk t = map uint (g (take n ws) # drop n ws) \<and> same_frame rs t"
  proof (cases "length ws < n")
    case True
    then show ?thesis using a frame.operator_under [of rs n] assms(3) by simp
  next
    case False
    have "stk rs = map uint (take n ws) @ map uint (drop n ws)" using a by (simp flip: map_append)
    moreover have "n = length (map uint (take n ws))" "map uint (take n ws) \<noteq> []" using False assms(2) by auto
    ultimately obtain t where "bindE (popN n) (\<lambda>ys. push (F ys)) rs = (Inr (), t)" "frame_wf t"
      "stk t = F (map uint (take n ws)) # map uint (drop n ws)" "same_frame rs t"
      using frame.operator_ok [of rs "map uint (take n ws)" "map uint (drop n ws)" n F] a by blast
    then show ?thesis using False assms(1) [of "take n ws"] assms(3) a by simp
  qed
qed

end
