(* ===== verification/Arithmetic.thy ===== *)
theory Arithmetic
  imports RunState
begin

text \<open>
  The arithmetic and comparison instructions, \<open>src/packages/evm/src/opcodes/instructions/arithmetic.ts\<close>
  and \<open>comparison.ts\<close>, with the helpers of \<open>opcodes/util.ts\<close> they use. The handlers compute on
  bigints; the theorems show that on 256-bit stack items they are the machine word operations.
\<close>

section \<open>Helpers of \<open>util.ts\<close>\<close>

definition TWO_POW256 :: int where
  "TWO_POW256 = 0x10000000000000000000000000000000000000000000000000000000000000000"

definition mod_pos :: "int \<Rightarrow> int \<Rightarrow> int" where
  "mod_pos a b = (let r = a smod b in if r < 0 then b + r else r)"

definition fromTwos :: "int \<Rightarrow> int" where
  "fromTwos a = asIntN 256 a"

definition toTwos :: "int \<Rightarrow> int" where
  "toTwos a = asUintN 256 a"

definition bigint_abs :: "int \<Rightarrow> int" where
  "bigint_abs a = (if a > 0 then a else a * (-1))"

definition EXP_N :: int where
  "EXP_N = 115792089237316195423570985008687907853269984665640564039457584007913129639936"

text \<open>The square-and-multiply loop; the exponent halves until it is not positive.\<close>

function exponentiation_loop :: "int \<Rightarrow> int \<Rightarrow> int \<Rightarrow> int" where
  "exponentiation_loop t bas exp =
     (if exp > 0 then
        exponentiation_loop (if exp smod 2 \<noteq> 0 then (t * bas) smod EXP_N else t)
          ((bas * bas) smod EXP_N) (exp sdiv 2)
      else t)"
  by pat_completeness auto

termination
proof (relation "measure (\<lambda>(t, bas, exp). nat exp)")
  fix t bas exp :: int assume "0 < exp"
  then have "exp sdiv 2 < exp" by (simp add: signed_divide_int_def)
  then show "((if exp smod 2 \<noteq> 0 then (t * bas) smod EXP_N else t, (bas * bas) smod EXP_N, exp sdiv 2), t, bas, exp)
      \<in> measure (\<lambda>(t, bas, exp). nat exp)"
    using \<open>0 < exp\<close> by simp
qed simp

declare exponentiation_loop.simps [simp del]

definition exponentiation :: "int \<Rightarrow> int \<Rightarrow> int" where
  "exponentiation bas exp = exponentiation_loop 1 bas exp"

section \<open>Handlers\<close>

definition opAdd :: "unit evm" where
  "opAdd = pop2 (\<lambda>a b. push (mod_pos (a + b) TWO_POW256))"

definition opMul :: "unit evm" where
  "opMul = pop2 (\<lambda>a b. push (mod_pos (a * b) TWO_POW256))"

definition opSub :: "unit evm" where
  "opSub = pop2 (\<lambda>a b. push (mod_pos (a - b) TWO_POW256))"

definition opDiv :: "unit evm" where
  "opDiv = pop2 (\<lambda>a b. push (if b = 0 then 0 else mod_pos (a sdiv b) TWO_POW256))"

definition opSdiv :: "unit evm" where
  "opSdiv = pop2 (\<lambda>a b. push (if b = 0 then 0 else toTwos (fromTwos a sdiv fromTwos b)))"

definition opMod :: "unit evm" where
  "opMod = pop2 (\<lambda>a b. push (if b = 0 then b else mod_pos a b))"

definition opSmod :: "unit evm" where
  "opSmod = pop2 (\<lambda>a b. push (toTwos (if b = 0 then b else fromTwos a smod fromTwos b)))"

definition opAddmod :: "unit evm" where
  "opAddmod = pop3 (\<lambda>a b c. push (if c = 0 then 0 else mod_pos (a + b) c))"

definition opMulmod :: "unit evm" where
  "opMulmod = pop3 (\<lambda>a b c. push (if c = 0 then 0 else mod_pos (a * b) c))"

definition opExp :: "unit evm" where
  "opExp = pop2 (\<lambda>base exponent.
     if base = 2 \<and> exponent = 96 then push 79228162514264337593543950336
     else if base = 2 \<and> exponent = 160 then push 1461501637330902918203684832716283019655932542976
     else if base = 2 \<and> exponent = 224
       then push 26959946667150639794667015087019630673637144422540572481103610249216
     else if exponent = 0 then push 1
     else if base = 0 then push base
     else push (exponentiation base exponent))"

definition opSignextend :: "unit evm" where
  "opSignextend = pop2 (\<lambda>k val.
     if k < 31 then
       let signBit = k * 8 + 7;
           mask = bigint_shl 1 signBit - 1
       in if (bigint_shr val signBit) AND 1 \<noteq> 0
          then push (val OR asUintN 256 (NOT mask))
          else push (val AND mask)
     else push val)"

definition bool_bigint :: "bool \<Rightarrow> int" where
  "bool_bigint b = (if b then 1 else 0)"

definition opLt :: "unit evm" where
  "opLt = pop2 (\<lambda>a b. push (bool_bigint (a < b)))"

definition opGt :: "unit evm" where
  "opGt = pop2 (\<lambda>a b. push (bool_bigint (a > b)))"

definition opSlt :: "unit evm" where
  "opSlt = pop2 (\<lambda>a b. push (bool_bigint (fromTwos a < fromTwos b)))"

definition opSgt :: "unit evm" where
  "opSgt = pop2 (\<lambda>a b. push (bool_bigint (fromTwos a > fromTwos b)))"

definition opEq :: "unit evm" where
  "opEq = pop2 (\<lambda>a b. push (bool_bigint (a = b)))"

definition opIszero :: "unit evm" where
  "opIszero = bindE pop (\<lambda>a. push (bool_bigint (a = 0)))"

section \<open>Operators as word operations\<close>

lemma two_lists: "length ws = 2 \<Longrightarrow> \<exists>a b. ws = [a, b]"
  by (cases ws; cases "tl ws") auto

lemma three_lists: "length ws = 3 \<Longrightarrow> \<exists>a b c. ws = [a, b, c]"
  by (cases ws; cases "tl ws"; cases "tl (tl ws)") auto

lemma implements_pop2:
  assumes "\<And>a b. F (uint a) (uint b) = uint (g a b)"
  shows "implements (pop2 (\<lambda>a b. push (F a b))) 2 (\<lambda>ws. g (ws ! 0) (ws ! 1))"
proof (rule implements_operator [where F = "\<lambda>ys. F (ys ! 0) (ys ! 1)"])
  fix ws :: "256 word list" assume "length ws = 2"
  then obtain a b where "ws = [a, b]" using two_lists by blast
  then show "F (map uint ws ! 0) (map uint ws ! 1) = uint (g (ws ! 0) (ws ! 1))" by (simp add: assms)
qed (simp_all add: pop2_def)

lemma implements_pop3:
  assumes "\<And>a b c. F (uint a) (uint b) (uint c) = uint (g a b c)"
  shows "implements (pop3 (\<lambda>a b c. push (F a b c))) 3 (\<lambda>ws. g (ws ! 0) (ws ! 1) (ws ! 2))"
proof (rule implements_operator [where F = "\<lambda>ys. F (ys ! 0) (ys ! 1) (ys ! 2)"])
  fix ws :: "256 word list" assume "length ws = 3"
  then obtain a b c where "ws = [a, b, c]" using three_lists by blast
  then show "F (map uint ws ! 0) (map uint ws ! 1) (map uint ws ! 2) = uint (g (ws ! 0) (ws ! 1) (ws ! 2))"
    by (simp add: assms)
qed (simp_all add: pop3_def)

lemma implements_pop1:
  assumes "\<And>a. F (uint a) = uint (g a)"
  shows "implements (bindE pop (\<lambda>a. push (F a))) 1 (\<lambda>ws. g (ws ! 0))"
proof (rule implements_operator [where F = "\<lambda>ys. F (ys ! 0)"])
  fix ws :: "256 word list" assume "length ws = 1"
  then obtain a where "ws = [a]" by (cases ws) auto
  then show "F (map uint ws ! 0) = uint (g (ws ! 0))" by (simp add: assms)
qed (simp_all add: pop_popN)

lemma smod_eq_mod: "0 \<le> (a :: int) \<Longrightarrow> 0 \<le> b \<Longrightarrow> a smod b = a mod b"
  by (simp add: signed_modulo_int_def signed_divide_int_def sgn_if minus_mult_div_eq_mod minus_div_mult_eq_mod)

lemma sdiv_eq_div: "0 \<le> (a :: int) \<Longrightarrow> 0 \<le> b \<Longrightarrow> a sdiv b = a div b"
  by (simp add: signed_divide_int_def sgn_if)

lemma TWO_POW256_eq: "TWO_POW256 = 2 ^ 256"
  by (simp add: TWO_POW256_def)

lemma mod_pos_eq:
  assumes "0 < b"
  shows "mod_pos a b = a mod b"
proof (cases "0 \<le> a")
  case True
  with assms show ?thesis by (simp add: mod_pos_def smod_eq_mod Let_def not_less)
next
  case False
  then have neg: "a smod b = - ((- a) mod b)"
    using assms by (simp add: signed_modulo_int_def signed_divide_int_def sgn_if minus_div_mult_eq_mod [symmetric] algebra_simps)
  show ?thesis
  proof (cases "(- a) mod b = 0")
    case True
    then have "a mod b = 0" by (simp only: mod_eq_0_iff_dvd dvd_minus_iff)
    with True neg show ?thesis by (simp add: mod_pos_def)
  next
    case nz: False
    then have "a mod b = b - (- a) mod b" using zmod_zminus1_eq_if [of "- a" b] by simp
    moreover have lt: "a smod b < 0"
    proof -
      have "0 \<le> (- a) mod b" using assms by simp
      with nz have "0 < (- a) mod b" by (metis order_less_le)
      then show ?thesis unfolding neg by linarith
    qed
    moreover have "mod_pos a b = b + a smod b" using lt by (simp only: mod_pos_def Let_def if_True)
    ultimately show ?thesis using neg by linarith
  qed
qed

lemma mod_pow_uint: "mod_pos z TWO_POW256 = uint (word_of_int z :: 256 word)"
  by (simp add: mod_pos_eq TWO_POW256_eq uint_word_of_int)

lemma fromTwos_uint: "fromTwos (uint (w :: 256 word)) = sint w"
  by (simp add: fromTwos_def asIntN_def signed_take_bit_eq_take_bit_minus sint_uint)

lemma toTwos_uint: "toTwos z = uint (word_of_int z :: 256 word)"
  by (simp add: toTwos_def asUintN_def uint_word_of_int take_bit_eq_mod)

lemma exponentiation_loop_eq:
  assumes "0 \<le> t" "t < EXP_N" "0 \<le> bas"
  shows "exponentiation_loop t bas exp = (t * bas ^ nat exp) mod EXP_N"
  using assms
proof (induction t bas exp rule: exponentiation_loop.induct)
  case (1 t bas exp)
  have N: "0 < EXP_N" by (simp add: EXP_N_def)
  show ?case
  proof (cases "exp > 0")
    case True
    define n where "n = nat (exp div 2)"
    have half: "exp sdiv 2 = exp div 2" "exp smod 2 = exp mod 2"
      using True by (simp_all add: sdiv_eq_div smod_eq_mod)
    let ?t = "if exp mod 2 \<noteq> 0 then (t * bas) mod EXP_N else t"
    let ?b = "(bas * bas) mod EXP_N"
    have sm: "(t * bas) smod EXP_N = (t * bas) mod EXP_N" "(bas * bas) smod EXP_N = ?b"
      using 1 N by (simp_all add: smod_eq_mod)
    have "exponentiation_loop t bas exp = exponentiation_loop ?t ?b (exp div 2)"
      using True by (subst exponentiation_loop.simps) (simp add: half sm)
    also have "\<dots> = (?t * ?b ^ n) mod EXP_N"
    proof -
      have tb: "0 \<le> ?t" "?t < EXP_N" "0 \<le> ?b" using 1(2-4) N by auto
      show ?thesis using 1(1) [OF True] tb by (simp only: half sm n_def)
    qed
    also have "\<dots> = (?t * (bas * bas) ^ n) mod EXP_N"
      by (metis mod_mult_right_eq power_mod)
    also have "\<dots> = (t * bas ^ nat exp) mod EXP_N"
    proof (cases "exp mod 2 = 0")
      case even: True
      then have "exp = 2 * (exp div 2)" by presburger
      then have "nat exp = 2 * n" using True by (simp add: n_def)
      then show ?thesis using even by (simp add: power_mult power2_eq_square)
    next
      case odd: False
      then have "exp = 2 * (exp div 2) + 1" by presburger
      then have "nat exp = Suc (2 * n)" using True by (simp add: n_def)
      then have pow: "t * bas ^ nat exp = (t * bas) * (bas * bas) ^ n" by (simp add: power_mult power2_eq_square)
      have "(if exp mod 2 \<noteq> 0 then (t * bas) mod EXP_N else t) = (t * bas) mod EXP_N" using odd by simp
      then show ?thesis unfolding pow by (simp only: mod_mult_left_eq)
    qed
    finally show ?thesis .
  next
    case False
    then show ?thesis using 1 by (subst exponentiation_loop.simps) simp
  qed
qed

lemma uint_power: "uint ((a :: 256 word) ^ n) = (uint a ^ n) mod EXP_N"
proof -
  have "a ^ n = word_of_int (uint a ^ n)" by (induction n) (simp_all add: wi_hom_mult [symmetric])
  then show ?thesis unfolding EXP_N_def by (simp only: uint_word_of_int) simp
qed

lemma exp_uint:
  "(if uint a = 2 \<and> uint b = 96 then 79228162514264337593543950336
    else if uint a = 2 \<and> uint b = 160 then 1461501637330902918203684832716283019655932542976
    else if uint a = 2 \<and> uint b = 224 then 26959946667150639794667015087019630673637144422540572481103610249216
    else if uint b = 0 then 1 else if uint a = 0 then uint a else exponentiation (uint a) (uint b))
   = uint ((a :: 256 word) ^ unat (b :: 256 word))"
proof -
  have "exponentiation (uint a) (uint b) = (1 * uint a ^ nat (uint b)) mod EXP_N"
    unfolding exponentiation_def by (rule exponentiation_loop_eq) (simp_all add: EXP_N_def)
  then have loop: "exponentiation (uint a) (uint b) = uint (a ^ unat b)"
    unfolding uint_power unat_eq_nat_uint by simp
  have two: "uint (a ^ unat b) = 2 ^ n mod EXP_N" if "uint a = 2" "uint b = int n" for n
    using that by (simp add: uint_power unat_eq_nat_uint)
  have zero: "uint (a ^ unat b) = 0" if "uint a = 0" "uint b \<noteq> 0"
  proof -
    have "a = 0" "unat b \<noteq> 0" using that by (simp_all add: unsigned_eq_0_iff)
    then show ?thesis by (simp add: power_0_left)
  qed
  have one: "uint (a ^ unat b) = 1" if "uint b = 0"
    using that by (simp add: unat_eq_nat_uint)
  have t96: "uint (a ^ unat b) = 79228162514264337593543950336" if "uint a = 2 \<and> uint b = 96"
    using two [of 96] that by (simp add: EXP_N_def)
  have t160: "uint (a ^ unat b) = 1461501637330902918203684832716283019655932542976" if "uint a = 2 \<and> uint b = 160"
    using two [of 160] that by (simp add: EXP_N_def)
  have t224: "uint (a ^ unat b) = 26959946667150639794667015087019630673637144422540572481103610249216"
    if "uint a = 2 \<and> uint b = 224"
    using two [of 224] that by (simp add: EXP_N_def)
  show ?thesis
  proof (cases "uint a = 2 \<and> uint b = 96 \<or> uint a = 2 \<and> uint b = 160 \<or> uint a = 2 \<and> uint b = 224")
    case True
    then show ?thesis by (elim disjE) (simp_all only: t96 t160 t224 if_True if_False, simp_all)
  next
    case False
    then show ?thesis using loop one zero by (simp only: if_False simp_thms de_Morgan_disj split: if_split) simp
  qed
qed

text \<open>SIGNEXTEND sets or clears the bits above the sign bit.\<close>

lemma signextend_uint:
  fixes val :: "256 word"
  assumes "n < 256"
  shows "(if bigint_shr (uint val) (int n) AND 1 \<noteq> 0
          then uint val OR asUintN 256 (NOT (bigint_shl 1 (int n) - 1))
          else uint val AND (bigint_shl 1 (int n) - 1)) = uint (signed_take_bit n val)"
proof -
  have m: "bigint_shl 1 (int n) - 1 = mask n" by (simp add: bigint_shl_def mask_eq_exp_minus_1)
  have b: "bigint_shr (uint val) (int n) AND 1 \<noteq> 0 \<longleftrightarrow> bit val n"
  proof -
    have "bigint_shr (uint val) (int n) AND 1 \<noteq> 0 \<longleftrightarrow> odd (drop_bit n (uint val))"
      by (simp add: bigint_shr_def and_one_eq odd_iff_mod_2_eq_one)
    also have "\<dots> \<longleftrightarrow> bit (uint val) n" by (simp only: bit_iff_odd_drop_bit)
    also have "\<dots> \<longleftrightarrow> bit val n" using assms by (simp add: bit_uint_iff)
    finally show ?thesis .
  qed
  show ?thesis
    unfolding m b using assms
    by (intro bit_eqI)
       (auto simp: bit_simps asUintN_def bit_signed_take_bit_iff min_def not_less dest: bit_imp_le_length)
qed

lemma opAdd_word: "implements opAdd 2 (\<lambda>ws. ws ! 0 + ws ! 1)"
  unfolding opAdd_def
  by (rule implements_pop2 [where F = "\<lambda>a b. mod_pos (a + b) TWO_POW256" and g = "(+)"])
     (simp add: mod_pow_uint wi_hom_add [symmetric])

lemma opMul_word: "implements opMul 2 (\<lambda>ws. ws ! 0 * ws ! 1)"
  unfolding opMul_def
  by (rule implements_pop2 [where F = "\<lambda>a b. mod_pos (a * b) TWO_POW256" and g = "(*)"])
     (simp add: mod_pow_uint wi_hom_mult [symmetric])

lemma opSub_word: "implements opSub 2 (\<lambda>ws. ws ! 0 - ws ! 1)"
  unfolding opSub_def
  by (rule implements_pop2 [where F = "\<lambda>a b. mod_pos (a - b) TWO_POW256" and g = "(-)"])
     (simp add: mod_pow_uint wi_hom_sub [symmetric])

lemma div_uint: "(if uint b = 0 then 0 else mod_pos (uint a sdiv uint b) TWO_POW256) = uint ((a :: 256 word) div b)"
  by (simp add: sdiv_eq_div mod_pow_uint uint_div_distrib [symmetric] unsigned_eq_0_iff)

lemma opDiv_word: "implements opDiv 2 (\<lambda>ws. ws ! 0 div ws ! 1)"
  unfolding opDiv_def
  by (rule implements_pop2 [where F = "\<lambda>a b. if b = 0 then 0 else mod_pos (a sdiv b) TWO_POW256" and g = "(div)"])
     (rule div_uint)

lemma opSdiv_word: "implements opSdiv 2 (\<lambda>ws. word_of_int (sint (ws ! 0) sdiv sint (ws ! 1)))"
  unfolding opSdiv_def
  by (rule implements_pop2 [where F = "\<lambda>a b. if b = 0 then 0 else toTwos (fromTwos a sdiv fromTwos b)"
        and g = "\<lambda>a b. word_of_int (sint a sdiv sint b)"])
     (auto simp: toTwos_uint fromTwos_uint unsigned_eq_0_iff signed_divide_int_def)

lemma mod_uint: "(if uint b = 0 then uint b else mod_pos (uint a) (uint b)) =
    uint (if b = 0 then 0 else (a :: 256 word) mod b)"
proof (cases "b = 0")
  case False
  then have "0 < uint b" by (simp add: word_neq_0_conv [symmetric] less_le unsigned_eq_0_iff)
  then show ?thesis using False by (simp add: mod_pos_eq uint_mod_distrib)
qed simp

lemma opMod_word: "implements opMod 2 (\<lambda>ws. if ws ! 1 = 0 then 0 else ws ! 0 mod ws ! 1)"
  unfolding opMod_def
  by (rule implements_pop2 [where F = "\<lambda>a b. if b = 0 then b else mod_pos a b"
        and g = "\<lambda>a b. if b = 0 then 0 else a mod b"])
     (rule mod_uint)

lemma opSmod_word:
  "implements opSmod 2 (\<lambda>ws. if ws ! 1 = 0 then 0 else word_of_int (sint (ws ! 0) smod sint (ws ! 1)))"
  unfolding opSmod_def
  by (rule implements_pop2 [where F = "\<lambda>a b. toTwos (if b = 0 then b else fromTwos a smod fromTwos b)"
        and g = "\<lambda>a b. if b = 0 then 0 else word_of_int (sint a smod sint b)"])
     (auto simp: toTwos_uint fromTwos_uint unsigned_eq_0_iff)

lemma modulus_uint:
  assumes "c \<noteq> (0 :: 256 word)" "0 \<le> z"
  shows "mod_pos z (uint c) = uint (word_of_int (z mod uint c) :: 256 word)"
proof -
  have c: "0 < uint c" using assms(1) by (simp add: less_le unsigned_eq_0_iff)
  have "z mod uint c < uint c" using c by (rule pos_mod_bound)
  also have "uint c < 2 ^ 256" using uint_lt2p [of c] by simp
  finally have "z mod uint c mod 2 ^ 256 = z mod uint c" using c by (intro mod_pos_pos_trivial pos_mod_sign)
  then show ?thesis using c by (simp add: mod_pos_eq uint_word_of_int)
qed

lemma opAddmod_word: "implements opAddmod 3 (\<lambda>ws. if ws ! 2 = 0 then 0
     else word_of_int ((uint (ws ! 0) + uint (ws ! 1)) mod uint (ws ! 2)))"
  unfolding opAddmod_def
  by (rule implements_pop3 [where F = "\<lambda>a b c. if c = 0 then 0 else mod_pos (a + b) c"
        and g = "\<lambda>a b c. if c = 0 then 0 else word_of_int ((uint a + uint b) mod uint c)"])
     (auto simp: modulus_uint unsigned_eq_0_iff)

lemma opMulmod_word: "implements opMulmod 3 (\<lambda>ws. if ws ! 2 = 0 then 0
     else word_of_int ((uint (ws ! 0) * uint (ws ! 1)) mod uint (ws ! 2)))"
  unfolding opMulmod_def
  by (rule implements_pop3 [where F = "\<lambda>a b c. if c = 0 then 0 else mod_pos (a * b) c"
        and g = "\<lambda>a b c. if c = 0 then 0 else word_of_int ((uint a * uint b) mod uint c)"])
     (auto simp: modulus_uint unsigned_eq_0_iff)

lemma opExp_push: "opExp = pop2 (\<lambda>a b. push (
    if a = 2 \<and> b = 96 then 79228162514264337593543950336
    else if a = 2 \<and> b = 160 then 1461501637330902918203684832716283019655932542976
    else if a = 2 \<and> b = 224 then 26959946667150639794667015087019630673637144422540572481103610249216
    else if b = 0 then 1 else if a = 0 then a else exponentiation a b))"
  unfolding opExp_def by (rule arg_cong [where f = pop2]) (intro ext, simp only: if_distrib [where f = push])

lemma opExp_word: "implements opExp 2 (\<lambda>ws. ws ! 0 ^ unat (ws ! 1))"
  unfolding opExp_push
proof (rule implements_pop2 [where g = "\<lambda>a b. a ^ unat b"])
  fix a b :: "256 word"
  show "(if uint a = 2 \<and> uint b = 96 then 79228162514264337593543950336
    else if uint a = 2 \<and> uint b = 160 then 1461501637330902918203684832716283019655932542976
    else if uint a = 2 \<and> uint b = 224 then 26959946667150639794667015087019630673637144422540572481103610249216
    else if uint b = 0 then 1 else if uint a = 0 then uint a else exponentiation (uint a) (uint b))
    = uint (a ^ unat b)"
    by (fact exp_uint)
qed

lemma opSignextend_push: "opSignextend = pop2 (\<lambda>k val. push (
    if k < 31 then
      (if bigint_shr val (k * 8 + 7) AND 1 \<noteq> 0 then val OR asUintN 256 (NOT (bigint_shl 1 (k * 8 + 7) - 1))
       else val AND (bigint_shl 1 (k * 8 + 7) - 1))
    else val))"
  unfolding opSignextend_def Let_def
  by (rule arg_cong [where f = pop2]) (intro ext, simp only: if_distrib [where f = push])

lemma opSignextend_word: "implements opSignextend 2 (\<lambda>ws. if ws ! 0 < 31
     then signed_take_bit (8 * unat (ws ! 0) + 7) (ws ! 1) else ws ! 1)"
  unfolding opSignextend_push
proof (rule implements_pop2 [where g = "\<lambda>k val. if k < 31 then signed_take_bit (8 * unat k + 7) val else val"])
  fix k val :: "256 word"
  have lt: "uint k < 31 \<longleftrightarrow> k < 31" by (simp add: word_less_def)
  have idx: "uint k * 8 + 7 = int (8 * unat k + 7)" by simp
  show "(if uint k < 31 then
      (if bigint_shr (uint val) (uint k * 8 + 7) AND 1 \<noteq> 0
       then uint val OR asUintN 256 (NOT (bigint_shl 1 (uint k * 8 + 7) - 1))
       else uint val AND (bigint_shl 1 (uint k * 8 + 7) - 1)) else uint val)
    = uint (if k < 31 then signed_take_bit (8 * unat k + 7) val else val)"
  proof (cases "k < 31")
    case True
    then have "8 * unat k + 7 < 256" by (simp add: word_less_nat_alt)
    from signextend_uint [OF this, of val] show ?thesis using True by (simp only: lt idx if_True)
  next
    case False
    then show ?thesis by (simp only: lt if_False)
  qed
qed

text \<open>C10: ADD, MUL, SUB, DIV, SDIV, MOD, SMOD, ADDMOD, MULMOD, EXP and SIGNEXTEND, computed by the
  handlers on bigints, replace their 256-bit operands on the stack by exactly the machine word result
  (wrap-around, truncated signed division, zero divisors give zero, square-and-multiply is the
  power), change nothing else of the frame, and underflow without effect on a short stack.\<close>

theorem arithmetic_ops_are_word_ops:
  "implements opAdd 2 (\<lambda>ws. ws ! 0 + ws ! 1) \<and>
   implements opMul 2 (\<lambda>ws. ws ! 0 * ws ! 1) \<and>
   implements opSub 2 (\<lambda>ws. ws ! 0 - ws ! 1) \<and>
   implements opDiv 2 (\<lambda>ws. ws ! 0 div ws ! 1) \<and>
   implements opSdiv 2 (\<lambda>ws. word_of_int (sint (ws ! 0) sdiv sint (ws ! 1))) \<and>
   implements opMod 2 (\<lambda>ws. if ws ! 1 = 0 then 0 else ws ! 0 mod ws ! 1) \<and>
   implements opSmod 2 (\<lambda>ws. if ws ! 1 = 0 then 0 else word_of_int (sint (ws ! 0) smod sint (ws ! 1))) \<and>
   implements opAddmod 3 (\<lambda>ws. if ws ! 2 = 0 then 0
     else word_of_int ((uint (ws ! 0) + uint (ws ! 1)) mod uint (ws ! 2))) \<and>
   implements opMulmod 3 (\<lambda>ws. if ws ! 2 = 0 then 0
     else word_of_int ((uint (ws ! 0) * uint (ws ! 1)) mod uint (ws ! 2))) \<and>
   implements opExp 2 (\<lambda>ws. ws ! 0 ^ unat (ws ! 1)) \<and>
   implements opSignextend 2 (\<lambda>ws. if ws ! 0 < 31
     then signed_take_bit (8 * unat (ws ! 0) + 7) (ws ! 1) else ws ! 1)"
  by (intro conjI opAdd_word opMul_word opSub_word opDiv_word opSdiv_word opMod_word opSmod_word
      opAddmod_word opMulmod_word opExp_word opSignextend_word)

lemma uint_eq_iff: "uint (a :: 256 word) = uint b \<longleftrightarrow> a = b"
  by (simp add: word_uint_eq_iff)

lemma bool_word [simp]: "bool_bigint P = uint (if P then 1 else 0 :: 256 word)"
  by (simp add: bool_bigint_def)

text \<open>C11: LT, GT, SLT, SGT, EQ and ISZERO are the unsigned and signed word comparisons of their
  operands, pushed as 1 or 0.\<close>

theorem comparison_ops_are_word_ops:
  "implements opLt 2 (\<lambda>ws. if ws ! 0 < ws ! 1 then 1 else 0) \<and>
   implements opGt 2 (\<lambda>ws. if ws ! 0 > ws ! 1 then 1 else 0) \<and>
   implements opSlt 2 (\<lambda>ws. if ws ! 0 <s ws ! 1 then 1 else 0) \<and>
   implements opSgt 2 (\<lambda>ws. if ws ! 1 <s ws ! 0 then 1 else 0) \<and>
   implements opEq 2 (\<lambda>ws. if ws ! 0 = ws ! 1 then 1 else 0) \<and>
   implements opIszero 1 (\<lambda>ws. if ws ! 0 = 0 then 1 else 0)"
  unfolding opLt_def opGt_def opSlt_def opSgt_def opEq_def opIszero_def
  by (intro conjI implements_pop2 [where F = "\<lambda>a b. bool_bigint (a < b)" and g = "\<lambda>a b. if a < b then 1 else 0"]
      implements_pop2 [where F = "\<lambda>a b. bool_bigint (a > b)" and g = "\<lambda>a b. if a > b then 1 else 0"]
      implements_pop2 [where F = "\<lambda>a b. bool_bigint (fromTwos a < fromTwos b)" and g = "\<lambda>a b. if a <s b then 1 else 0"]
      implements_pop2 [where F = "\<lambda>a b. bool_bigint (fromTwos a > fromTwos b)" and g = "\<lambda>a b. if b <s a then 1 else 0"]
      implements_pop2 [where F = "\<lambda>a b. bool_bigint (a = b)" and g = "\<lambda>a b. if a = b then 1 else 0"]
      implements_pop1 [where F = "\<lambda>a. bool_bigint (a = 0)" and g = "\<lambda>a. if a = 0 then 1 else 0"])
     (simp_all add: fromTwos_uint word_less_def word_sless_alt unsigned_eq_0_iff uint_eq_iff)

end
