(* ===== verification/Bitwise.thy ===== *)
theory Bitwise
  imports Arithmetic
begin

text \<open>
  The bitwise instructions, \<open>src/packages/evm/src/opcodes/instructions/bitwise.ts\<close>, and the theorem
  that they are the bit operations of 256-bit words.
\<close>

section \<open>Handlers\<close>

definition MAX_INTEGER_BIGINT :: int where
  "MAX_INTEGER_BIGINT = 0xffffffffffffffffffffffffffffffffffffffffffffffffffffffffffffffff"

definition opAnd :: "unit evm" where
  "opAnd = pop2 (\<lambda>a b. push (a AND b))"

definition opOr :: "unit evm" where
  "opOr = pop2 (\<lambda>a b. push (a OR b))"

definition opXor :: "unit evm" where
  "opXor = pop2 (\<lambda>a b. push (a XOR b))"

definition opNot :: "unit evm" where
  "opNot = bindE pop (\<lambda>a. push (asUintN 256 (NOT a)))"

definition opByte :: "unit evm" where
  "opByte = pop2 (\<lambda>pos w.
     if pos > 32 then push 0
     else push (bigint_shr w ((31 - pos) * 8) AND 255))"

definition opShl :: "unit evm" where
  "opShl = pop2 (\<lambda>a b.
     if a > 256 then push 0
     else push (bigint_shl b a AND MAX_INTEGER_BIGINT))"

definition opShr :: "unit evm" where
  "opShr = pop2 (\<lambda>a b.
     if a > 256 then push 0
     else push (bigint_shr b a))"

definition opSar :: "unit evm" where
  "opSar = pop2 (\<lambda>a b.
     let isSigned = asIntN 256 b < 0
     in if a > 256 then (if isSigned then push MAX_INTEGER_BIGINT else push 0)
        else
          let c = bigint_shr b a
          in if isSigned then
               let shiftedOutWidth = 255 - a;
                   mask = bigint_shl (bigint_shr MAX_INTEGER_BIGINT shiftedOutWidth) shiftedOutWidth
               in push (c OR mask)
             else push c)"

text \<open>\<open>x.toString(2)\<close> of a positive bigint: binary digits, most significant first, no leading zero.\<close>

fun toString2 :: "nat \<Rightarrow> string" where
  "toString2 n = (if n < 2 then (if n = 0 then ''0'' else ''1'')
     else toString2 (n div 2) @ (if n mod 2 = 0 then ''0'' else ''1''))"

declare toString2.simps [simp del]

definition opClz :: "unit evm" where
  "opClz = bindE pop (\<lambda>x.
     if x = 0 then push 256
     else push (256 - int (length (toString2 (nat x)))))"

section \<open>Bits of a stack item\<close>

lemma MAX_mask: "MAX_INTEGER_BIGINT = mask 256"
  by (simp add: MAX_INTEGER_BIGINT_def mask_eq_exp_minus_1)

lemma uint_high: "256 \<le> n \<Longrightarrow> \<not> bit (uint (w :: 256 word)) n"
  by (simp add: bit_uint_iff)

lemma amount:
  obtains n where "uint (a :: 256 word) = int n" "unat a = n"
  by (rule that [of "unat a"]) simp_all

lemma not_uint: "asUintN 256 (NOT (uint (a :: 256 word))) = uint (NOT a)"
  by (intro bit_eqI) (auto simp: asUintN_def bit_simps)

lemma byte_uint:
  fixes pos w :: "256 word"
  shows "(if uint pos > 32 then 0 else bigint_shr (uint w) ((31 - uint pos) * 8) AND 255)
    = uint (if pos < 32 then drop_bit (8 * (31 - unat pos)) w AND 255 else 0)"
proof -
  have m: "(255 :: int) = mask 8" "(255 :: 256 word) = mask 8" by (simp_all add: mask_eq_exp_minus_1)
  have lt: "pos < 32 \<longleftrightarrow> unat pos < 32" by (simp add: word_less_nat_alt)
  obtain n where u: "uint pos = int n" "unat pos = n" by (rule amount)
  consider (lo) "n < 32" | (eq) "n = 32" | (hi) "32 < n" by linarith
  then show ?thesis
  proof cases
    case lo
    then have "nat (248 - int n * 8) = 8 * (31 - n)" by arith
    then show ?thesis using lo
      unfolding lt m u
      by (simp add: bigint_shr_def) (intro bit_eqI, auto simp: bit_simps dest: bit_imp_le_length)
  next
    case eq
    have "push_bit 8 (uint w) AND 255 = 0" unfolding m by (rule bit_eqI) (auto simp: bit_simps)
    then show ?thesis using eq unfolding lt u by (simp add: bigint_shr_def)
  next
    case hi
    then show ?thesis unfolding lt u by simp
  qed
qed

lemma shl_uint:
  fixes a b :: "256 word"
  shows "(if uint a > 256 then 0 else bigint_shl (uint b) (uint a) AND MAX_INTEGER_BIGINT)
    = uint (push_bit (unat a) b)"
proof -
  obtain n where u: "uint a = int n" "unat a = n" by (rule amount)
  have "push_bit n (uint b) AND mask 256 = uint (push_bit n b)"
    by (intro bit_eqI) (auto simp: bit_simps)
  then show ?thesis unfolding u by (simp add: bigint_shl_def MAX_mask)
qed

lemma shr_uint:
  fixes a b :: "256 word"
  shows "(if uint a > 256 then 0 else bigint_shr (uint b) (uint a)) = uint (drop_bit (unat a) b)"
proof -
  obtain n where u: "uint a = int n" "unat a = n" by (rule amount)
  have "uint (drop_bit n b) = drop_bit n (uint b)"
    by (intro bit_eqI) (auto simp: bit_simps dest: bit_imp_le_length)
  moreover have "drop_bit n (uint b) = 0" if "256 < n" using that
    by (intro bit_eqI) (auto simp: bit_simps dest: bit_imp_le_length)
  ultimately show ?thesis unfolding u by (simp add: bigint_shr_def)
qed

lemma sar_small:
  fixes b :: "256 word"
  assumes "bit b 255" "n \<le> 256"
  shows "bigint_shr (uint b) (int n)
      OR bigint_shl (bigint_shr MAX_INTEGER_BIGINT (255 - int n)) (255 - int n) = uint (signed_drop_bit n b)"
proof (cases "n = 256")
  case True
  have m: "bigint_shl (bigint_shr MAX_INTEGER_BIGINT (255 - int n)) (255 - int n) = mask 256"
    using True by (simp add: bigint_shl_def bigint_shr_def MAX_INTEGER_BIGINT_def mask_eq_exp_minus_1)
  show ?thesis unfolding m using assms True
    by (intro bit_eqI) (auto simp: bigint_shr_def bit_simps bit_signed_drop_bit_iff)
next
  case False
  then obtain k where k: "n = 255 - k" "k \<le> 255" using assms by (intro that [of "255 - n"]) auto
  then have d: "255 - int n = int k" by simp
  have "bit b (n + i)" if "i < 256 - n" "k \<le> i" for i
  proof -
    have "n + i = 255" using that k by linarith
    then show ?thesis using assms by simp
  qed
  moreover have "256 - n = Suc k" using k by simp
  ultimately show ?thesis unfolding d using assms
    by (intro bit_eqI)
       (auto simp: bigint_shr_def bigint_shl_def MAX_mask bit_simps bit_signed_drop_bit_iff not_le
             dest: bit_imp_le_length)
qed


lemma sar_uint:
  fixes a b :: "256 word"
  shows "(if uint a > 256 then (if asIntN 256 (uint b) < 0 then MAX_INTEGER_BIGINT else 0)
     else if asIntN 256 (uint b) < 0
       then bigint_shr (uint b) (uint a)
         OR bigint_shl (bigint_shr MAX_INTEGER_BIGINT (255 - uint a)) (255 - uint a)
       else bigint_shr (uint b) (uint a))
    = uint (signed_drop_bit (unat a) b)"
proof -
  obtain n where u: "uint a = int n" "unat a = n" by (rule amount)
  have s: "asIntN 256 (uint b) < 0 \<longleftrightarrow> bit b 255"
    by (simp add: asIntN_def bit_uint_iff signed_take_bit_negative_iff)
  have pos: "drop_bit n (uint b) = uint (signed_drop_bit n b)" if "\<not> bit b 255"
    using that by (intro bit_eqI) (auto simp: bit_simps bit_signed_drop_bit_iff dest: bit_imp_le_length)
  have neg: "MAX_INTEGER_BIGINT = uint (signed_drop_bit n b)" if "bit b 255" "256 < n"
    using that by (intro bit_eqI) (auto simp: MAX_mask bit_simps bit_signed_drop_bit_iff dest: bit_imp_le_length)
  have out: "drop_bit n (uint b) = 0" if "256 < n"
    using that by (intro bit_eqI) (auto simp: bit_simps dest: bit_imp_le_length)
  show ?thesis
  proof (cases "bit b 255")
    case True
    show ?thesis
    proof (cases "256 < n")
      case big: True
      then show ?thesis using True neg s unfolding u by simp
    next
      case False
      then have "n \<le> 256" by simp
      from sar_small [OF True this] show ?thesis using True False unfolding u s by simp
    qed
  next
    case False
    then show ?thesis using pos out unfolding u s by (auto simp: bigint_shr_def)
  qed
qed

text \<open>The binary representation of a positive number has one digit more than its highest bit.\<close>

lemma toString2_length:
  "0 < n \<Longrightarrow> 2 ^ (length (toString2 n) - 1) \<le> n \<and> n < 2 ^ length (toString2 n) \<and> 0 < length (toString2 n)"
proof (induction n rule: toString2.induct)
  case (1 n)
  show ?case
  proof (cases "n < 2")
    case True
    then show ?thesis using 1 by (subst (1 2 3) toString2.simps) auto
  next
    case False
    define l where "l = length (toString2 (n div 2))"
    have len: "length (toString2 n) = Suc l"
      using False by (subst toString2.simps) (simp add: l_def)
    have ih: "2 ^ (l - 1) \<le> n div 2" "n div 2 < 2 ^ l" "0 < l" using 1 False by (auto simp: l_def)
    have "(2 :: nat) ^ l = 2 * 2 ^ (l - 1)" using ih(3) by (cases l) auto
    then have "2 ^ l \<le> n" using ih(1) by linarith
    moreover have "n < 2 ^ Suc l" using ih(2) by simp
    ultimately show ?thesis unfolding len by simp
  qed
qed

definition leading_zeros :: "256 word \<Rightarrow> nat" where
  "leading_zeros w = length (takeWhile (\<lambda>i. \<not> bit w i) (rev [0..<256]))"

lemma takeWhile_all: "takeWhile (\<lambda>_. True) xs = xs"
  by (induction xs) auto

lemma takeWhile_rev_upt:
  assumes "P m" "\<forall>i. m < i \<and> i < n \<longrightarrow> \<not> P i" "m < n"
  shows "length (takeWhile (\<lambda>i. \<not> P i) (rev [0..<n])) = n - Suc m"
  using assms
proof (induction n)
  case (Suc n)
  then show ?case by (cases "m = n") (auto simp: Suc_diff_le)
qed simp

lemma clz_uint:
  assumes "w \<noteq> (0 :: 256 word)"
  shows "256 - length (toString2 (unat w)) = leading_zeros w" "length (toString2 (unat w)) \<le> 256"
proof -
  define m where "m = length (toString2 (unat w)) - 1"
  have "0 < unat w" using assms by (simp add: unat_gt_0)
  from toString2_length [OF this]
  have m: "2 ^ m \<le> unat w" "unat w < 2 ^ Suc m" "length (toString2 (unat w)) = Suc m"
    by (auto simp: m_def)
  have "unat w < 2 ^ 256" using unsigned_less [of w] by simp
  with m(1) have "(2 :: nat) ^ m < 2 ^ 256" by linarith
  then have "m < 256" using power_less_imp_less_exp [of "2 :: nat" m 256] by simp
  have "bit w m"
  proof -
    have "unat w div 2 ^ m = 1" using m(1,2) by (intro div_nat_eqI) auto
    then have "odd (unat w div 2 ^ m)" by simp
    then have "bit (unat w) m" by (rule iffD2 [OF bit_iff_odd])
    then show ?thesis by (simp add: bit_unsigned_iff)
  qed
  moreover have "\<not> bit w i" if "m < i" for i
  proof -
    have "(2 :: nat) ^ Suc m \<le> 2 ^ i" using that by (intro power_increasing) auto
    then have "unat w div 2 ^ i = 0" using m(2) by simp
    then have "\<not> bit (unat w) i" by (simp only: bit_iff_odd) simp
    then show ?thesis by (auto simp: bit_unsigned_iff dest: bit_imp_le_length)
  qed
  ultimately have "leading_zeros w = 256 - Suc m"
    unfolding leading_zeros_def using \<open>m < 256\<close> by (intro takeWhile_rev_upt) auto
  then show "256 - length (toString2 (unat w)) = leading_zeros w" "length (toString2 (unat w)) \<le> 256"
    using m(3) \<open>m < 256\<close> by simp_all
qed


section \<open>The instructions are word operations\<close>

lemma opByte_push: "opByte = pop2 (\<lambda>pos w. push (
    if pos > 32 then 0 else bigint_shr w ((31 - pos) * 8) AND 255))"
  unfolding opByte_def by (rule arg_cong [where f = pop2]) (intro ext, simp only: if_distrib [where f = push])

lemma opShl_push: "opShl = pop2 (\<lambda>a b. push (if a > 256 then 0 else bigint_shl b a AND MAX_INTEGER_BIGINT))"
  unfolding opShl_def by (rule arg_cong [where f = pop2]) (intro ext, simp only: if_distrib [where f = push])

lemma opShr_push: "opShr = pop2 (\<lambda>a b. push (if a > 256 then 0 else bigint_shr b a))"
  unfolding opShr_def by (rule arg_cong [where f = pop2]) (intro ext, simp only: if_distrib [where f = push])

lemma opSar_push: "opSar = pop2 (\<lambda>a b. push (
    if a > 256 then (if asIntN 256 b < 0 then MAX_INTEGER_BIGINT else 0)
    else if asIntN 256 b < 0
      then bigint_shr b a OR bigint_shl (bigint_shr MAX_INTEGER_BIGINT (255 - a)) (255 - a)
      else bigint_shr b a))"
  unfolding opSar_def Let_def
  by (rule arg_cong [where f = pop2]) (intro ext, simp only: if_distrib [where f = push])

lemma opClz_push: "opClz = bindE pop (\<lambda>x. push (if x = 0 then 256 else 256 - int (length (toString2 (nat x)))))"
  unfolding opClz_def by (rule arg_cong [where f = "bindE pop"]) (intro ext, simp only: if_distrib [where f = push])

lemma clz_push_uint:
  "(if uint w = 0 then 256 else 256 - int (length (toString2 (nat (uint w)))))
   = uint (word_of_nat (leading_zeros w) :: 256 word)"
proof (cases "w = 0")
  case True
  show ?thesis using True by (simp add: leading_zeros_def takeWhile_all)
next
  case False
  have "uint w \<noteq> 0" using False by (simp add: unsigned_eq_0_iff)
  moreover have "leading_zeros w \<le> 256" unfolding leading_zeros_def
    using length_takeWhile_le [of _ "rev [0..<256]"] by (metis length_rev length_upt diff_zero)
  then have "leading_zeros w mod 2 ^ 256 = leading_zeros w" by simp
  then have "uint (word_of_nat (leading_zeros w) :: 256 word) = int (leading_zeros w)"
    by (simp add: unsigned_of_nat take_bit_eq_mod flip: of_nat_mod)
  ultimately show ?thesis using clz_uint [OF False] by (simp add: of_nat_diff)
qed

lemma opClz_word: "implements opClz 1 (\<lambda>ws. word_of_nat (leading_zeros (ws ! 0)))"
  unfolding opClz_push by (rule implements_pop1 [where g = "\<lambda>w. word_of_nat (leading_zeros w)"]) (rule clz_push_uint)

lemma opSar_word: "implements opSar 2 (\<lambda>ws. signed_drop_bit (unat (ws ! 0)) (ws ! 1))"
  unfolding opSar_push
  by (rule implements_pop2 [where g = "\<lambda>a b. signed_drop_bit (unat a) b"]) (rule sar_uint)

lemma opShl_word: "implements opShl 2 (\<lambda>ws. push_bit (unat (ws ! 0)) (ws ! 1))"
  unfolding opShl_push
  by (rule implements_pop2 [where g = "\<lambda>a b. push_bit (unat a) b"]) (rule shl_uint)

lemma opShr_word: "implements opShr 2 (\<lambda>ws. drop_bit (unat (ws ! 0)) (ws ! 1))"
  unfolding opShr_push
  by (rule implements_pop2 [where g = "\<lambda>a b. drop_bit (unat a) b"]) (rule shr_uint)

lemma opByte_word: "implements opByte 2 (\<lambda>ws. if ws ! 0 < 32
    then drop_bit (8 * (31 - unat (ws ! 0))) (ws ! 1) AND 255 else 0)"
  unfolding opByte_push
  by (rule implements_pop2 [where g = "\<lambda>pos w. if pos < 32 then drop_bit (8 * (31 - unat pos)) w AND 255 else 0"])
     (rule byte_uint)

text \<open>C12: AND, OR, XOR, NOT, BYTE, SHL, SHR, SAR and CLZ replace their operands by the result of the
  corresponding operation on 256-bit words, for every shift amount and every byte position up to
  2^256 - 1 (so a shift of 256 or more gives zero, or all ones for a negative SAR).\<close>

theorem bitwise_ops_are_word_ops:
  "implements opAnd 2 (\<lambda>ws. ws ! 0 AND ws ! 1) \<and>
   implements opOr 2 (\<lambda>ws. ws ! 0 OR ws ! 1) \<and>
   implements opXor 2 (\<lambda>ws. ws ! 0 XOR ws ! 1) \<and>
   implements opNot 1 (\<lambda>ws. NOT (ws ! 0)) \<and>
   implements opByte 2 (\<lambda>ws. if ws ! 0 < 32
     then drop_bit (8 * (31 - unat (ws ! 0))) (ws ! 1) AND 255 else 0) \<and>
   implements opShl 2 (\<lambda>ws. push_bit (unat (ws ! 0)) (ws ! 1)) \<and>
   implements opShr 2 (\<lambda>ws. drop_bit (unat (ws ! 0)) (ws ! 1)) \<and>
   implements opSar 2 (\<lambda>ws. signed_drop_bit (unat (ws ! 0)) (ws ! 1)) \<and>
   implements opClz 1 (\<lambda>ws. word_of_nat (leading_zeros (ws ! 0)))"
  unfolding opAnd_def opOr_def opXor_def opNot_def
  by (intro conjI opByte_word opShl_word opShr_word opSar_word opClz_word
      implements_pop2 [where F = "\<lambda>a b. a AND b" and g = "(AND)"]
      implements_pop2 [where F = "\<lambda>a b. a OR b" and g = "(OR)"]
      implements_pop2 [where F = "\<lambda>a b. a XOR b" and g = "(XOR)"]
      implements_pop1 [where F = "\<lambda>a. asUintN 256 (NOT a)" and g = "NOT"])
     (simp_all add: unsigned_and_eq unsigned_or_eq unsigned_xor_eq not_uint)

end
