(* ===== verification/OpcodeUtil.thy ===== *)
theory OpcodeUtil
  imports Bitwise
begin

text \<open>
  The helpers of \<open>src/packages/evm/src/opcodes/util.ts\<close> that read or charge the running frame:
  memory expansion, the call gas cap, data slices, jump validity, call output, SSTORE's first rule
  set. The lemmas give the bounds and the path independence of the memory charge.
\<close>

section \<open>Definitions\<close>

definition MASK_160 :: int where
  "MASK_160 = bigint_shl 1 160 - 1"

definition createAddressFromStackBigInt :: "externals \<Rightarrow> int \<Rightarrow> exn + address" where
  "createAddressFromStackBigInt x v = createAddressFromBigInt x (v AND MASK_160)"

definition equalsBytes :: "bytes \<Rightarrow> bytes \<Rightarrow> bool" where
  "equalsBytes a b \<longleftrightarrow> length a = length b \<and> list_all (\<lambda>i. a ! i = b ! i) [0..<length a]"

definition setLengthLeftStorage :: "bytes \<Rightarrow> bytes" where
  "setLengthLeftStorage v =
     (if equalsBytes v (replicate (length v) 0) then [] else setLengthLeft v 32)"

text \<open>\<open>n.toString()\<close> of a number.\<close>

fun nat_dec :: "nat \<Rightarrow> string" where
  "nat_dec n = (if n < 10 then [''0123456789'' ! n] else nat_dec (n div 10) @ [''0123456789'' ! (n mod 10)])"

declare nat_dec.simps [simp del]

definition int_dec :: "int \<Rightarrow> string" where
  "int_dec n = (if n < 0 then ''-'' @ nat_dec (nat (- n)) else nat_dec (nat n))"

definition describeLocation :: "externals \<Rightarrow> run_state \<Rightarrow> string" where
  "describeLocation x rs =
     bytesToHex x (keccak256 x (env_code (rs_env rs))) @ ''/'' @ bytesToHex x (env_address (rs_env rs))
     @ '':'' @ int_dec (int (rs_programCounter rs) - 1)"

text \<open>\<open>trap(INVALID_JUMP + ' at ' + describeLocation(runState))\<close>\<close>

definition trap_invalid_jump :: "externals \<Rightarrow> 'a evm" where
  "trap_invalid_jump x = (\<lambda>rs. (Inl (EVMErrorAt INVALID_JUMP (describeLocation x rs)), rs))"

text \<open>Division by the bigint zero is a RangeError.\<close>

definition divCeil :: "int \<Rightarrow> int \<Rightarrow> exn + int" where
  "divCeil a b =
     (if b = 0 then Inl RangeError
      else let d = a sdiv b; modulus = mod_pos a b in
        if modulus = 0 then Inr d
        else Inr (if d < 0 then d - 1 else d + 1))"

definition getDataSlice :: "bytes \<Rightarrow> int \<Rightarrow> int \<Rightarrow> bytes" where
  "getDataSlice data offset0 len0 =
     (let len = int (length data);
          offset = (if offset0 > len then len else offset0);
          e = offset + len0;
          e' = (if e > len then len else e)
      in setLengthRight (subarray data (nat offset) (nat e')) (nat len0))"

definition jumpIsValid :: "run_state \<Rightarrow> nat \<Rightarrow> bool" where
  "jumpIsValid rs dest \<longleftrightarrow> dest < length (rs_validJumps rs) \<and> rs_validJumps rs ! dest = 1"

definition maxCallGas :: "evm_ctx \<Rightarrow> int \<Rightarrow> int \<Rightarrow> int" where
  "maxCallGas c gasLimit gasLeft =
     (if fork_gte c ''tangerineWhistle''
      then let gasAllowed = gasLeft - gasLeft sdiv 64
           in if gasLimit > gasAllowed then gasAllowed else gasLimit
      else gasLimit)"

text \<open>\<open>words * fee + (words * words) / quadCoefficient\<close>\<close>

definition memory_cost :: "int \<Rightarrow> int \<Rightarrow> int \<Rightarrow> exn + int" where
  "memory_cost ws fee quadCoefficient =
     (if quadCoefficient = 0 then Inl RangeError
      else Inr (ws * fee + (ws * ws) sdiv quadCoefficient))"

definition subMemUsage :: "evm_ctx \<Rightarrow> int \<Rightarrow> int \<Rightarrow> int evm" where
  "subMemUsage c offset len =
     (if len = 0 then returnE 0
      else bindE (liftE (divCeil (offset + len) 32)) (\<lambda>newMemoryWordCount.
        bindE (getsE rs_memoryWordCount) (\<lambda>wc.
          if newMemoryWordCount \<le> wc then returnE 0
          else bindE (param c ''memoryGas'') (\<lambda>fee.
            bindE (param c ''quadCoefficientDivGas'') (\<lambda>quadCoefficient.
              bindE (liftE (memory_cost newMemoryWordCount fee quadCoefficient)) (\<lambda>cost.
                bindE (getsE rs_highestMemCost) (\<lambda>highest.
                  seqE (whenE (cost > highest) (modifyE (\<lambda>rs. rs\<lparr>rs_highestMemCost := cost\<rparr>)))
                    (seqE (modifyE (\<lambda>rs. rs\<lparr>rs_memoryWordCount := newMemoryWordCount\<rparr>))
                       (returnE (if cost > highest then cost - highest else cost))))))))))"

definition writeCallOutput :: "int \<Rightarrow> int \<Rightarrow> unit evm" where
  "writeCallOutput outOffset outLength =
     bindE (getsE rs_returnBytes) (\<lambda>returnData.
       if length returnData > 0 then
         let memOffset = nat outOffset;
             dataLength = (if int (length returnData) < outLength then length returnData else nat outLength);
             data = getDataSlice returnData 0 (int dataLength)
         in seqE (onMemory (modifyE (memory_extend memOffset dataLength)))
              (onMemory (memory_write memOffset dataLength data))
       else returnE ())"

definition updateSstoreGas :: "evm_ctx \<Rightarrow> bytes \<Rightarrow> bytes \<Rightarrow> int evm" where
  "updateSstoreGas c currentStorage val =
     (if (val = [] \<and> currentStorage = []) \<or> (val \<noteq> [] \<and> currentStorage \<noteq> [])
      then param c ''sstoreResetGas''
      else if val = [] \<and> currentStorage \<noteq> []
      then bindE (param c ''sstoreResetGas'') (\<lambda>gas.
             bindE (param c ''sstoreRefundGas'') (\<lambda>r. seqE (refundGas r) (returnE gas)))
      else param c ''sstoreSetGas'')"

section \<open>Facts\<close>

lemma equalsBytes_eq [simp]: "equalsBytes a b \<longleftrightarrow> a = b"
  by (auto simp: equalsBytes_def list_all_iff intro: nth_equalityI)

lemma divCeil_eq: "0 \<le> a \<Longrightarrow> 0 < b \<Longrightarrow> divCeil a b = Inr ((a + b - 1) div b)"
proof -
  assume a: "0 \<le> a" "0 < b"
  have e: "a = a div b * b + a mod b" "a mod b < b" "0 \<le> a mod b" using a by simp_all
  have "(a + b - 1) div b = (if a mod b = 0 then a div b else a div b + 1)"
  proof (cases "a mod b = 0")
    case True
    then have "a + b - 1 = (b - 1) + a div b * b" using e(1) by linarith
    also have "\<dots> div b = a div b + (b - 1) div b" using a by (intro div_mult_self1) simp
    finally show ?thesis using a True by simp
  next
    case False
    then have "a + b - 1 = (a mod b - 1) + (a div b + 1) * b" using e(1) by (simp add: algebra_simps)
    also have "\<dots> div b = (a div b + 1) + (a mod b - 1) div b" using a by (intro div_mult_self1) simp
    also have "(a mod b - 1) div b = 0" using False e(2,3) by (intro div_pos_pos_trivial) linarith+
    finally show ?thesis using False by simp
  qed
  moreover have "0 \<le> a div b" using a by (simp add: pos_imp_zdiv_nonneg_iff)
  ultimately show ?thesis using a
    by (simp add: divCeil_def sdiv_eq_div mod_pos_eq Let_def)
qed

lemma getDataSlice_nth:
  assumes "0 \<le> offset" "0 \<le> len" "i < nat len"
  shows "getDataSlice data offset len ! i
       = (if nat offset + i < length data then data ! (nat offset + i) else 0)"
proof -
  define o' where "o' = min (nat offset) (length data)"
  have "getDataSlice data offset len = setLengthRight (take (nat len) (drop o' data)) (nat len)"
    using assms unfolding getDataSlice_def Let_def subarray_def o'_def
    by (intro arg_cong2 [where f = setLengthRight] refl) (auto simp: min_def take_drop nat_add_distrib add.commute)
  then show ?thesis using assms by (auto simp: setLengthRight_nth o'_def min_def)
qed

lemma length_getDataSlice [simp]: "length (getDataSlice data offset len) = nat len"
  by (simp add: getDataSlice_def Let_def)

lemma getDataSlice_eq:
  assumes "0 \<le> offset" "0 \<le> len"
  shows "getDataSlice data offset len
       = map (\<lambda>i. if nat offset + i < length data then data ! (nat offset + i) else 0) [0..<nat len]"
  using getDataSlice_nth [OF assms] by (intro nth_equalityI) simp_all


section \<open>The memory charge\<close>

text \<open>The total charge for a memory of \<open>w\<close> words, and what the frame keeps of it.\<close>

definition memory_total :: "int \<Rightarrow> int" where
  "memory_total w = 3 * w + (w * w) div 512"

definition memory_paid :: "run_state \<Rightarrow> bool" where
  "memory_paid rs \<longleftrightarrow> 0 \<le> rs_memoryWordCount rs
     \<and> rs_highestMemCost rs = memory_total (rs_memoryWordCount rs)"

definition words_after :: "int \<Rightarrow> int \<times> int \<Rightarrow> int" where
  "words_after w = (\<lambda>(offset, len). if len = 0 then w else max w ((offset + len + 31) div 32))"

lemma memory_total_mono:
  assumes "0 \<le> v" "v < w"
  shows "memory_total v < memory_total w"
proof -
  have "v * v \<le> w * w" using assms by (intro mult_mono) auto
  then have "(v * v) div 512 \<le> (w * w) div 512" by (rule zdiv_mono1) simp
  then show ?thesis using assms unfolding memory_total_def by linarith
qed

lemma param_run [simp]:
  "param c ''memoryGas'' rs = (Inr 3, rs)" "param c ''quadCoefficientDivGas'' rs = (Inr 512, rs)"
  "param c ''callStipendGas'' rs = (Inr 2300, rs)" "param c ''callValueTransferGas'' rs = (Inr 9000, rs)"
  by (simp_all add: param_def param_at_def)

lemma subMemUsage_run:
  assumes "memory_paid rs" "0 \<le> offset" "0 \<le> len"
  defines "w \<equiv> words_after (rs_memoryWordCount rs) (offset, len)"
  shows "subMemUsage c offset len rs
       = (Inr (memory_total w - memory_total (rs_memoryWordCount rs)),
          rs\<lparr>rs_highestMemCost := memory_total w, rs_memoryWordCount := w\<rparr>)"
proof (cases "len = 0")
  case True
  then show ?thesis using assms by (simp add: subMemUsage_def words_after_def memory_paid_def)
next
  case False
  define n where "n = (offset + len + 31) div 32"
  have d: "divCeil (offset + len) 32 = Inr n" using divCeil_eq [of "offset + len" 32] assms(2,3) by (simp add: n_def)
  have w: "w = max (rs_memoryWordCount rs) n" using False by (simp add: w_def words_after_def n_def)
  show ?thesis
  proof (cases "n \<le> rs_memoryWordCount rs")
    case True
    then show ?thesis using False d assms(1) by (simp add: subMemUsage_def bindE_run w memory_paid_def)
  next
    case bigger: False
    have pos: "0 \<le> rs_memoryWordCount rs" "rs_highestMemCost rs = memory_total (rs_memoryWordCount rs)"
      using assms(1) by (simp_all add: memory_paid_def)
    have "0 \<le> n" using bigger pos by linarith
    then have "n * n sdiv 512 = n * n div 512" by (simp add: sdiv_eq_div)
    then have cost: "memory_cost n 3 512 = Inr (memory_total n)" by (simp add: memory_cost_def memory_total_def)
    have more: "memory_total n > memory_total (rs_memoryWordCount rs)"
      using memory_total_mono [of "rs_memoryWordCount rs" n] bigger pos by simp
    have "w = n" using bigger w by simp
    then show ?thesis using False bigger d cost more pos
      by (simp add: subMemUsage_def bindE_run seqE_run)
  qed
qed

lemma words_after_ge: "w \<le> words_after w a"
  by (cases a) (simp add: words_after_def)

text \<open>A sequence of accesses, each charged in turn.\<close>

fun charge_all :: "evm_ctx \<Rightarrow> (int \<times> int) list \<Rightarrow> int evm" where
  "charge_all c [] = returnE 0"
| "charge_all c ((offset, len) # as) =
     bindE (subMemUsage c offset len) (\<lambda>g. bindE (charge_all c as) (\<lambda>t. returnE (g + t)))"

lemma charge_all_run:
  assumes "memory_paid rs" "\<forall>(offset, len) \<in> set as. 0 \<le> offset \<and> 0 \<le> len"
  defines "w \<equiv> foldl words_after (rs_memoryWordCount rs) as"
  shows "charge_all c as rs = (Inr (memory_total w - memory_total (rs_memoryWordCount rs)),
          rs\<lparr>rs_highestMemCost := memory_total w, rs_memoryWordCount := w\<rparr>)"
  using assms(1,2) unfolding w_def
proof (induction as arbitrary: rs)
  case Nil
  then show ?case by (simp add: memory_paid_def)
next
  case (Cons a as)
  obtain offset len where a: "a = (offset, len)" by force
  let ?w = "words_after (rs_memoryWordCount rs) (offset, len)"
  let ?rs = "rs\<lparr>rs_highestMemCost := memory_total ?w, rs_memoryWordCount := ?w\<rparr>"
  have "0 \<le> offset" "0 \<le> len" using Cons.prems(2) a by auto
  note step = subMemUsage_run [OF Cons.prems(1) this, of c]
  have "memory_paid ?rs"
    using Cons.prems(1) words_after_ge [of "rs_memoryWordCount rs" "(offset, len)"] by (simp add: memory_paid_def)
  from Cons.IH [OF this] Cons.prems(2) show ?case
    by (simp add: a step bindE_run)
qed

lemma memory_total_bound:
  assumes "0 \<le> w" "memory_total w < 2 ^ 64"
  shows "w < 2 ^ 37"
proof (rule ccontr)
  assume "\<not> w < 2 ^ 37"
  then have "2 ^ 37 * 2 ^ 37 \<le> w * w" by (intro mult_mono) auto
  then have "(2 ^ 37 * 2 ^ 37) div 512 \<le> (w * w) div 512" by (rule zdiv_mono1) simp
  then show False using assms by (simp add: memory_total_def)
qed

lemma foldl_words_after_ge: "w \<le> foldl words_after w as"
  by (induction as arbitrary: w) (auto intro: order_trans [OF words_after_ge])

lemma foldl_words_after_covers:
  assumes "(offset, len) \<in> set as" "len \<noteq> 0"
  shows "offset + len \<le> 32 * foldl words_after w as"
  using assms(1)
proof (induction as arbitrary: w)
  case (Cons a as)
  show ?case
  proof (cases "a = (offset, len)")
    case True
    have "(offset + len + 31) div 32 \<le> words_after w a" using True assms(2) by (simp add: words_after_def)
    also have "\<dots> \<le> foldl words_after (words_after w a) as" by (rule foldl_words_after_ge)
    finally have "(offset + len + 31) div 32 \<le> foldl words_after w (a # as)" by simp
    then show ?thesis by linarith
  next
    case False
    then show ?thesis using Cons by simp
  qed
qed simp

text \<open>C9: However a frame's memory accesses are ordered and split, the gas charged by
  \<open>subMemUsage\<close> adds up to the cost 3w + floor(w^2/512) of the final word count less that of the
  initial one; the word count ends as the least one that covers every access; and any sequence
  whose cost is below 2^64 stays below 2^42 bytes, so that converting its offsets and lengths to
  JavaScript numbers is exact.\<close>

theorem memory_charge_path_independent:
  assumes "memory_paid rs" "\<forall>(offset, len) \<in> set as. 0 \<le> offset \<and> 0 \<le> len"
  shows "\<exists>t w. charge_all c as rs
         = (Inr (memory_total w - memory_total (rs_memoryWordCount rs)), t)
       \<and> memory_paid t \<and> rs_memoryWordCount t = w \<and> rs_memoryWordCount rs \<le> w
       \<and> (\<forall>(offset, len) \<in> set as. len \<noteq> 0 \<longrightarrow> offset + len \<le> 32 * w)
       \<and> (\<forall>v. rs_memoryWordCount rs \<le> v \<and> (\<forall>(offset, len) \<in> set as. len \<noteq> 0 \<longrightarrow> offset + len \<le> 32 * v)
              \<longrightarrow> w \<le> v)
       \<and> (memory_total w < 2 ^ 64 \<longrightarrow> (\<forall>(offset, len) \<in> set as. len \<noteq> 0 \<longrightarrow> offset + len < 2 ^ 42))"
proof -
  define w where "w = foldl words_after (rs_memoryWordCount rs) as"
  have ge: "rs_memoryWordCount rs \<le> w" unfolding w_def by (rule foldl_words_after_ge)
  have cover: "\<forall>(offset, len) \<in> set as. len \<noteq> 0 \<longrightarrow> offset + len \<le> 32 * w"
    using foldl_words_after_covers unfolding w_def by blast
  have pos: "0 \<le> w" using ge assms(1) by (simp add: memory_paid_def)
  have least: "foldl words_after u as \<le> v"
    if "u \<le> v" "\<forall>(offset, len) \<in> set as. len \<noteq> 0 \<longrightarrow> offset + len \<le> 32 * v" for u v
    using that by (induction as arbitrary: u) (auto simp: words_after_def)
  have "w < 2 ^ 37" if "memory_total w < 2 ^ 64" using memory_total_bound [OF pos that] .
  then have "memory_total w < 2 ^ 64 \<longrightarrow> (\<forall>(offset, len) \<in> set as. len \<noteq> 0 \<longrightarrow> offset + len < 2 ^ 42)"
    using cover by fastforce
  moreover have "\<forall>v. rs_memoryWordCount rs \<le> v \<and> (\<forall>(offset, len) \<in> set as. len \<noteq> 0 \<longrightarrow> offset + len \<le> 32 * v)
              \<longrightarrow> w \<le> v"
    using least [of "rs_memoryWordCount rs"] unfolding w_def by blast
  moreover have "memory_paid (rs\<lparr>rs_highestMemCost := memory_total w, rs_memoryWordCount := w\<rparr>)"
    using pos by (simp add: memory_paid_def)
  moreover note charge_all_run [OF assms, of c, folded w_def]
  ultimately show ?thesis using ge cover
    by (intro exI [of _ "rs\<lparr>rs_highestMemCost := memory_total w, rs_memoryWordCount := w\<rparr>"] exI [of _ w]) simp
qed

theorem memory_charge_path_independent_witness:
  "\<exists>t. charge_all sample_ctx [(64, 40), (0, 32), (7, 0)] (sample_frame [] 1000) = (Inr 12, t)
     \<and> rs_memoryWordCount t = 4"
proof -
  have paid: "memory_paid (sample_frame [] 1000)"
    by (simp add: memory_paid_def memory_total_def sample_frame_def new_run_state_def)
  have wc: "rs_memoryWordCount (sample_frame [] 1000) = 0" by (simp add: sample_frame_def new_run_state_def)
  obtain t w where t: "charge_all sample_ctx [(64, 40), (0, 32), (7, 0)] (sample_frame [] 1000)
        = (Inr (memory_total w), t)" "rs_memoryWordCount t = w" "104 \<le> 32 * w" "w \<le> 4"
    using memory_charge_path_independent [OF paid, of "[(64, 40), (0, 32), (7, 0)]" sample_ctx]
    by (auto simp: wc memory_total_def)
  have w: "w = 4" using t(3,4) by linarith
  have "memory_total w = 12" by (simp add: w memory_total_def)
  then show ?thesis using t(1,2) w by metis
qed

end
