(* ===== verification/Instructions.thy ===== *)
theory Instructions
  imports OpcodeUtil
begin

text \<open>
  The instructions of \<open>src/packages/evm/src/opcodes/instructions\<close> that act on one frame: stack, memory,
  control flow, hashing, storage, logs, block and environment access. Handlers that read the
  configuration or use byte conversions take the context as first argument.
\<close>

section \<open>Stack (\<open>stack.ts\<close>)\<close>

definition opPop :: "unit evm" where
  "opPop = bindE pop (\<lambda>_. returnE ())"

definition opPush0 :: "unit evm" where
  "opPush0 = push 0"

text \<open>A PUSH whose cached value is missing would push undefined; \<open>push_boundaries\<close> shows that
  instruction boundaries always have one.\<close>

definition opPush :: "evm_ctx \<Rightarrow> unit evm" where
  "opPush c = (\<lambda>rs.
     let numToPush = rs_opCode rs - 0x5f in
     seqE (whenE (eip_active c 6800 \<and> env_chargeCodeAccesses (rs_env rs)) witness_unmodelled)
       (if \<not> rs_shouldDoJumpAnalysis rs then
          seqE (case rs_cachedPushes rs (rs_programCounter rs) of
                  Some v \<Rightarrow> push v
                | None \<Rightarrow> throwE (PlainError ''undefined on the stack is not modelled''))
            (modifyE (\<lambda>rs. rs\<lparr>rs_programCounter := rs_programCounter rs + numToPush\<rparr>))
        else
          let loaded = subarray (rs_code rs) (rs_programCounter rs) (rs_programCounter rs + numToPush);
              loadedBytes = (if length loaded < numToPush then setLengthRight loaded numToPush else loaded)
          in seqE (modifyE (\<lambda>rs. rs\<lparr>rs_programCounter := rs_programCounter rs + numToPush\<rparr>))
               (push (bytesToBigInt (ctx_ext c) loadedBytes))) rs)"

definition opDup :: "unit evm" where
  "opDup = (\<lambda>rs. onStack (stack_dup (rs_opCode rs - 0x7f)) rs)"

definition opSwap :: "unit evm" where
  "opSwap = (\<lambda>rs. onStack (stack_swap (rs_opCode rs - 0x8f)) rs)"

section \<open>Memory (\<open>memory.ts\<close>)\<close>

definition mem_read :: "int \<Rightarrow> int \<Rightarrow> bool \<Rightarrow> bytes evm" where
  "mem_read offset len avoidCopy = onMemory (memory_read (nat offset) (nat len) avoidCopy)"

definition mem_write :: "int \<Rightarrow> int \<Rightarrow> bytes \<Rightarrow> unit evm" where
  "mem_write offset len val = onMemory (memory_write (nat offset) (nat len) val)"

text \<open>\<open>setLengthLeft(bigIntToBytes(v), 32)\<close>\<close>

definition word_buf :: "evm_ctx \<Rightarrow> int \<Rightarrow> bytes evm" where
  "word_buf c v = liftE (map_sum id (\<lambda>b. setLengthLeft b 32) (bigIntToBytes (ctx_ext c) v))"

definition opMload :: "evm_ctx \<Rightarrow> unit evm" where
  "opMload c = bindE pop (\<lambda>pos. bindE (mem_read pos 32 True) (\<lambda>w. push (bytesToBigInt (ctx_ext c) w)))"

definition opMstore :: "evm_ctx \<Rightarrow> unit evm" where
  "opMstore c = pop2 (\<lambda>offset w. bindE (word_buf c w) (\<lambda>buf. mem_write offset 32 buf))"

definition opMstore8 :: "evm_ctx \<Rightarrow> unit evm" where
  "opMstore8 c = pop2 (\<lambda>offset b.
     bindE (liftE (bigIntToBytes (ctx_ext c) (b AND 255))) (\<lambda>buf. mem_write offset 1 buf))"

definition opMsize :: "unit evm" where
  "opMsize = bindE (getsE rs_memoryWordCount) (\<lambda>n. push (n * 32))"

text \<open>From Cancun on the memory of MCOPY is not charged, so its operands are not bounded by gas: \<open>new Uint8Array\<close> throws a
  RangeError for a length beyond the limit of the engine. Operands of \<open>2 ^ 53\<close> and more, which \<open>Number\<close> would round, ask for
  a memory beyond every limit.\<close>

definition allocate :: "evm_ctx \<Rightarrow> int \<Rightarrow> int \<Rightarrow> unit evm" where
  "allocate c offset len = (\<lambda>rs. let n = extended_length (nat offset) (nat len) (rs_memory rs) in
     if n > ctx_maxArrayLength c \<and> n > length (mem_store (rs_memory rs)) then (Inl RangeError, rs) else (Inr (), rs))"

definition opMcopy :: "evm_ctx \<Rightarrow> unit evm" where
  "opMcopy c = pop3 (\<lambda>dst src len.
     if len \<noteq> 0 then seqE (allocate c src len) (bindE (mem_read src len True) (\<lambda>data.
       seqE (allocate c dst len) (mem_write dst len data)))
     else returnE ())"

section \<open>Control flow (\<open>control.ts\<close>)\<close>

definition opStop :: "unit evm" where
  "opStop = trap STOP"

definition opJump :: "evm_ctx \<Rightarrow> unit evm" where
  "opJump c = bindE pop (\<lambda>dest rs.
     if dest > getCodeSize rs then trap_invalid_jump (ctx_ext c) rs
     else if \<not> jumpIsValid rs (nat dest) then trap_invalid_jump (ctx_ext c) rs
     else (Inr (), rs\<lparr>rs_programCounter := nat dest\<rparr>))"

definition opJumpi :: "evm_ctx \<Rightarrow> unit evm" where
  "opJumpi c = pop2 (\<lambda>dest cond rs.
     if cond \<noteq> 0 then
       if dest > getCodeSize rs then trap_invalid_jump (ctx_ext c) rs
       else if \<not> jumpIsValid rs (nat dest) then trap_invalid_jump (ctx_ext c) rs
       else (Inr (), rs\<lparr>rs_programCounter := nat dest\<rparr>)
     else (Inr (), rs))"

definition opPc :: "unit evm" where
  "opPc = bindE (getsE rs_programCounter) (\<lambda>pc. push (int pc - 1))"

definition opGas :: "unit evm" where
  "opGas = bindE (getsE rs_gasLeft) push"

definition opJumpdest :: "unit evm" where
  "opJumpdest = returnE ()"

text \<open>The data at an offset, without touching memory for length 0.\<close>

definition read_data :: "int \<Rightarrow> int \<Rightarrow> bool \<Rightarrow> bytes evm" where
  "read_data offset len avoidCopy = (if len \<noteq> 0 then mem_read offset len avoidCopy else returnE [])"

definition opReturn :: "unit evm" where
  "opReturn = pop2 (\<lambda>offset len. bindE (read_data offset len False) finish)"

definition opRevert :: "unit evm" where
  "opRevert = pop2 (\<lambda>offset len. bindE (read_data offset len False) interp_revert)"

definition opInvalid :: "unit evm" where
  "opInvalid = trap INVALID_OPCODE"

section \<open>Hashing (\<open>crypto.ts\<close>)\<close>

definition opKeccak256 :: "evm_ctx \<Rightarrow> unit evm" where
  "opKeccak256 c = pop2 (\<lambda>offset len. bindE (read_data offset len False)
     (\<lambda>data. push (bigint_of_hex (drop 2 (bytesToHex (ctx_ext c) (keccak256 (ctx_ext c) data))))))"

section \<open>Storage (\<open>storage.ts\<close>)\<close>

definition loaded_value :: "evm_ctx \<Rightarrow> bytes \<Rightarrow> int" where
  "loaded_value c v = (if v \<noteq> [] then bytesToBigInt (ctx_ext c) v else 0)"

definition stored_value :: "evm_ctx \<Rightarrow> int \<Rightarrow> bytes evm" where
  "stored_value c v = (if v = 0 then returnE [] else liftE (bigIntToBytes (ctx_ext c) v))"

definition opSload :: "evm_ctx \<Rightarrow> unit evm" where
  "opSload c = bindE pop (\<lambda>key. bindE (word_buf c key) (\<lambda>keyBuf.
     bindE (storageLoad keyBuf False) (\<lambda>v. push (loaded_value c v))))"

definition opSstore :: "evm_ctx \<Rightarrow> unit evm" where
  "opSstore c = pop2 (\<lambda>key val. bindE (word_buf c key) (\<lambda>keyBuf.
     bindE (stored_value c val) (\<lambda>v. storageStore keyBuf v)))"

definition opTload :: "evm_ctx \<Rightarrow> unit evm" where
  "opTload c = bindE pop (\<lambda>key. bindE (word_buf c key) (\<lambda>keyBuf.
     bindE (transientStorageLoad keyBuf) (\<lambda>v. push (loaded_value c v))))"

definition opTstore :: "evm_ctx \<Rightarrow> unit evm" where
  "opTstore c = bindE (getsE (\<lambda>rs. env_isStatic (rs_env rs))) (\<lambda>static.
     if static then trap STATIC_STATE_CHANGE
     else pop2 (\<lambda>key val. bindE (word_buf c key) (\<lambda>keyBuf.
       bindE (stored_value c val) (\<lambda>v. transientStorageStore keyBuf v))))"

section \<open>Logs (\<open>log.ts\<close>)\<close>

text \<open>\<open>topics.map(...)\<close>: the first conversion that throws ends it.\<close>

fun word_bufs :: "evm_ctx \<Rightarrow> int list \<Rightarrow> bytes list evm" where
  "word_bufs c [] = returnE []"
| "word_bufs c (a # as) = bindE (word_buf c a) (\<lambda>b. bindE (word_bufs c as) (\<lambda>bs. returnE (b # bs)))"

definition opLog :: "evm_ctx \<Rightarrow> unit evm" where
  "opLog c = pop2 (\<lambda>memOffset memLength. bindE (getsE rs_opCode) (\<lambda>opCode.
     let topicsCount = opCode - 0xa0 in
     bindE (popN topicsCount) (\<lambda>topics. bindE (word_bufs c topics) (\<lambda>topicsBuf.
       bindE (read_data memOffset memLength False) (\<lambda>mem. interp_log mem (int topicsCount) topicsBuf)))))"

section \<open>Block (\<open>block.ts\<close>)\<close>

definition header :: "(block_header \<Rightarrow> 'a) \<Rightarrow> run_state \<Rightarrow> 'a" where
  "header f rs = f (env_block (rs_env rs))"

definition historyAddress :: "evm_ctx \<Rightarrow> string \<Rightarrow> address evm" where
  "historyAddress c hf = bindE
     (liftE (case getParamAtHardfork (ctx_common c) ''historyStorageAddress'' hf of
        Some (PBig v) \<Rightarrow> bigIntToAddressBytes (ctx_ext c) True v | _ \<Rightarrow> Inl TypeError))
     (\<lambda>bs. liftE (mk_address bs))"

definition big_param_at :: "evm_ctx \<Rightarrow> string \<Rightarrow> string \<Rightarrow> int evm" where
  "big_param_at c name hf = liftE (case getParamAtHardfork (ctx_common c) name hf of
     Some (PBig v) \<Rightarrow> Inr v | _ \<Rightarrow> Inl TypeError)"

text \<open>\<open>number % historyServeWindow\<close>: a RangeError for a zero window.\<close>

definition bigint_mod :: "int \<Rightarrow> int \<Rightarrow> exn + int" where
  "bigint_mod a b = (if b = 0 then Inl RangeError else Inr (a smod b))"

definition opBlockhash :: "evm_ctx \<Rightarrow> unit evm" where
  "opBlockhash c = bindE pop (\<lambda>number. bindE (getsE (header hdr_number)) (\<lambda>blockNumber.
     if eip_active c 7709 then
       if number \<ge> blockNumber then push 0
       else
         let diff = blockNumber - number in
         if diff > 256 \<or> diff \<le> 0 then push 0
         else
           let eip2935Hardfork = (case getHardforkForEIP (ctx_common c) 2935 of None \<Rightarrow> ctx_fork c | Some h \<Rightarrow> h) in
           bindE (historyAddress c eip2935Hardfork) (\<lambda>history.
             bindE (big_param_at c ''historyServeWindow'' eip2935Hardfork) (\<lambda>window.
               bindE (liftE (bigint_mod number window)) (\<lambda>slot.
                 bindE (word_buf c slot) (\<lambda>key.
                   seqE (whenE (eip_active c 6800) witness_unmodelled)
                     (bindE (onWorld (on_sm (sm_getStorage history key)))
                       (\<lambda>v. push (bytesToBigInt (ctx_ext c) v)))))))
     else
       let diff = blockNumber - number in
       if diff > 256 \<or> diff \<le> 0 then push 0
       else bindE (liftE (ctx_blockHash c number)) (\<lambda>h. push (bytesToBigInt (ctx_ext c) h))))"

definition opCoinbase :: "evm_ctx \<Rightarrow> unit evm" where
  "opCoinbase c = bindE (getsE (getBlockCoinbase c)) push"

definition opTimestamp :: "unit evm" where
  "opTimestamp = bindE (getsE (header hdr_timestamp)) push"

definition opNumber :: "unit evm" where
  "opNumber = bindE (getsE (header hdr_number)) push"

definition opDifficulty :: "evm_ctx \<Rightarrow> unit evm" where
  "opDifficulty c = (if eip_active c 4399 then bindE (getsE (getBlockPrevRandao c)) push
     else bindE (getsE (header hdr_difficulty)) push)"

definition opGaslimit :: "unit evm" where
  "opGaslimit = bindE (getsE (header hdr_gasLimit)) push"

definition opChainid :: "evm_ctx \<Rightarrow> unit evm" where
  "opChainid c = push (getChainId c)"

definition opSelfbalance :: "unit evm" where
  "opSelfbalance = bindE (getsE (\<lambda>rs. acc_balance (env_contract (rs_env rs)))) push"

definition opBasefee :: "unit evm" where
  "opBasefee = bindE getBlockBaseFee push"

definition opBlobhash :: "unit evm" where
  "opBlobhash = bindE pop (\<lambda>index. bindE (getsE (\<lambda>rs. env_blobVersionedHashes (rs_env rs))) (\<lambda>hashes.
     if int (length hashes) > index then push (bigint_of_hex (drop 2 (hashes ! nat index))) else push 0))"

definition opBlobbasefee :: "unit evm" where
  "opBlobbasefee = bindE getBlobBaseFee push"

section \<open>Environment (\<open>environment.ts\<close>)\<close>

definition opAddress :: "evm_ctx \<Rightarrow> unit evm" where
  "opAddress c = bindE (getsE (\<lambda>rs. bytesToBigInt (ctx_ext c) (env_address (rs_env rs)))) push"

definition stack_address :: "evm_ctx \<Rightarrow> int \<Rightarrow> address evm" where
  "stack_address c v = liftE (createAddressFromStackBigInt (ctx_ext c) v)"

definition opBalance :: "evm_ctx \<Rightarrow> unit evm" where
  "opBalance c = bindE pop (\<lambda>v. bindE (stack_address c v) (\<lambda>a. bindE (getExternalBalance a) push))"

definition opOrigin :: "evm_ctx \<Rightarrow> unit evm" where
  "opOrigin c = bindE (getsE (getTxOrigin c)) push"

definition opCaller :: "evm_ctx \<Rightarrow> unit evm" where
  "opCaller c = bindE (getsE (getCaller c)) push"

definition opCallvalue :: "unit evm" where
  "opCallvalue = bindE (getsE (\<lambda>rs. env_callValue (rs_env rs))) push"

definition opCalldataload :: "evm_ctx \<Rightarrow> unit evm" where
  "opCalldataload c = bindE pop (\<lambda>pos rs.
     (if pos > getCallDataSize rs then push 0
      else
        let i = nat pos;
            sub = subarray (env_callData (rs_env rs)) i (i + 32);
            loaded = (if sub \<noteq> [] then sub else [0]);
            r = bytesToBigInt (ctx_ext c) loaded
        in push (if length loaded < 32 then bigint_shl r (8 * int (32 - length loaded)) else r)) rs)"

definition opCalldatasize :: "unit evm" where
  "opCalldatasize = bindE (getsE getCallDataSize) push"

text \<open>The three copy instructions share this body: pop three, slice, write.\<close>

definition copy_slice :: "(run_state \<Rightarrow> bytes) \<Rightarrow> unit evm" where
  "copy_slice source = pop3 (\<lambda>memOffset dataOffset dataLength.
     if dataLength \<noteq> 0 then
       bindE (getsE source) (\<lambda>src. mem_write memOffset dataLength (getDataSlice src dataOffset dataLength))
     else returnE ())"

definition opCalldatacopy :: "unit evm" where
  "opCalldatacopy = copy_slice (\<lambda>rs. env_callData (rs_env rs))"

definition opCodesize :: "unit evm" where
  "opCodesize = bindE (getsE getCodeSize) push"

definition opCodecopy :: "unit evm" where
  "opCodecopy = copy_slice (\<lambda>rs. env_code (rs_env rs))"

definition opGasprice :: "unit evm" where
  "opGasprice = bindE (getsE (\<lambda>rs. env_gasPrice (rs_env rs))) push"

definition EOFBYTES :: bytes where
  "EOFBYTES = [0xef, 0]"

definition isEOF :: "bytes \<Rightarrow> bool" where
  "isEOF code \<longleftrightarrow> equalsBytes EOFBYTES (subarray code 0 (length EOFBYTES))"

definition EOFHASH :: "externals \<Rightarrow> bytes" where
  "EOFHASH x = keccak256 x EOFBYTES"

definition opExtcodesize :: "evm_ctx \<Rightarrow> unit evm" where
  "opExtcodesize c = bindE pop (\<lambda>v. bindE (stack_address c v) (\<lambda>a.
     bindE (onWorld (on_sm (sm_getCode a))) (\<lambda>code.
       if isEOF code then push (int (length EOFBYTES)) else push (int (length code)))))"

definition opExtcodecopy :: "evm_ctx \<Rightarrow> unit evm" where
  "opExtcodecopy c = pop4 (\<lambda>v memOffset codeOffset dataLength.
     if dataLength \<noteq> 0 then
       bindE (stack_address c v) (\<lambda>a. bindE (onWorld (on_sm (sm_getCode a))) (\<lambda>code.
         mem_write memOffset dataLength
           (getDataSlice (if isEOF code then EOFBYTES else code) codeOffset dataLength)))
     else returnE ())"

definition opReturndatasize :: "unit evm" where
  "opReturndatasize = bindE (getsE getReturnDataSize) push"

definition opReturndatacopy :: "unit evm" where
  "opReturndatacopy = copy_slice rs_returnBytes"

definition opExtcodehash :: "evm_ctx \<Rightarrow> unit evm" where
  "opExtcodehash c = bindE pop (\<lambda>v. bindE (stack_address c v) (\<lambda>a.
     bindE (onWorld (on_sm (sm_getCode a))) (\<lambda>code.
       if isEOF code then push (bytesToBigInt (ctx_ext c) (EOFHASH (ctx_ext c)))
       else bindE (onWorld (on_sm (sm_getAccount a))) (\<lambda>acc.
         case acc of
           None \<Rightarrow> push 0
         | Some b \<Rightarrow> if account_isEmpty b then push 0
             else push (bigint_of_hex (drop 2 (bytesToHex (ctx_ext c) (acc_codeHash b))))))))"

end
