(* ===== verification/FrameFacts.thy ===== *)
theory FrameFacts
  imports Instructions
begin

text \<open>
  Running instructions symbolically: what popping, peeking, pushing, reading and writing memory do
  to a well-formed frame, as equations, and the properties of the memory, data and storage
  instructions that follow from them.
\<close>

section \<open>The operand stack\<close>

definition dropped :: "nat \<Rightarrow> run_state \<Rightarrow> run_state" where
  "dropped n rs = rs\<lparr>rs_stack := shrink n (rs_stack rs)\<rparr>"

definition pushed :: "int \<Rightarrow> run_state \<Rightarrow> run_state" where
  "pushed v rs = rs\<lparr>rs_stack := store_at v (rs_stack rs)\<rparr>"

definition has_room :: "run_state \<Rightarrow> bool" where
  "has_room rs \<longleftrightarrow> length (stk rs) < stk_maxHeight (rs_stack rs)"

lemma dropped_fields [simp]:
  "rs_memory (dropped n rs) = rs_memory rs" "rs_world (dropped n rs) = rs_world rs"
  "rs_transient (dropped n rs) = rs_transient rs" "rs_env (dropped n rs) = rs_env rs"
  "rs_programCounter (dropped n rs) = rs_programCounter rs" "rs_opCode (dropped n rs) = rs_opCode rs"
  "rs_gasLeft (dropped n rs) = rs_gasLeft rs" "rs_gasRefund (dropped n rs) = rs_gasRefund rs"
  "rs_memoryWordCount (dropped n rs) = rs_memoryWordCount rs"
  "rs_returnBytes (dropped n rs) = rs_returnBytes rs" "rs_validJumps (dropped n rs) = rs_validJumps rs"
  "rs_cachedPushes (dropped n rs) = rs_cachedPushes rs" "rs_code (dropped n rs) = rs_code rs"
  "res_logs (dropped n rs) = res_logs rs" "rs_messageGasLimit (dropped n rs) = rs_messageGasLimit rs"
  by (simp_all add: dropped_def)

lemma pushed_fields [simp]:
  "rs_memory (pushed v rs) = rs_memory rs" "rs_world (pushed v rs) = rs_world rs"
  "rs_transient (pushed v rs) = rs_transient rs" "rs_env (pushed v rs) = rs_env rs"
  "rs_programCounter (pushed v rs) = rs_programCounter rs" "rs_opCode (pushed v rs) = rs_opCode rs"
  "rs_gasLeft (pushed v rs) = rs_gasLeft rs" "rs_gasRefund (pushed v rs) = rs_gasRefund rs"
  "rs_returnBytes (pushed v rs) = rs_returnBytes rs"
  by (simp_all add: pushed_def)

lemma stk_dropped [simp]: "frame_wf rs \<Longrightarrow> n \<le> length (stk rs) \<Longrightarrow> stk (dropped n rs) = drop n (stk rs)"
  by (simp add: stk_def dropped_def frame_wf_def shrink_view)

lemma wf_dropped [simp]: "frame_wf rs \<Longrightarrow> frame_wf (dropped n rs)"
  by (auto simp: dropped_def frame_wf_def stack_wf_def)

lemma stk_pushed [simp]: "frame_wf rs \<Longrightarrow> stk (pushed v rs) = v # stk rs"
  by (simp add: stk_def pushed_def frame_wf_def store_at_view)

lemma room_dropped [simp]: "frame_wf rs \<Longrightarrow> 0 < n \<Longrightarrow> n \<le> length (stk rs) \<Longrightarrow> has_room (dropped n rs)"
  using length_stack_view [of "rs_stack rs"]
  by (simp add: has_room_def) (auto simp: dropped_def frame_wf_def stk_def stack_wf_def)

lemma popN_eq: "frame_wf rs \<Longrightarrow> popN n rs =
    (if n \<le> length (stk rs) then (Inr (take n (stk rs)), dropped n rs) else (Inl (EVMError STACK_UNDERFLOW), rs))"
  by (simp add: popN_def onStack_def popN_run frame_wf_def stk_def dropped_def)

lemma pop_eq: "frame_wf rs \<Longrightarrow> pop rs =
    (case stk rs of [] \<Rightarrow> (Inl (EVMError STACK_UNDERFLOW), rs) | v # _ \<Rightarrow> (Inr v, dropped 1 rs))"
  by (simp add: pop_def onStack_def pop_run frame_wf_def stk_def dropped_def split: list.split)

lemma push_eq: "frame_wf rs \<Longrightarrow> push v rs =
    (if has_room rs then (Inr (), pushed v rs) else (Inl (EVMError STACK_OVERFLOW), rs))"
  by (simp add: push_def onStack_def push_run frame_wf_def stk_def pushed_def has_room_def)

lemma wf_pushed [simp]: "frame_wf rs \<Longrightarrow> has_room rs \<Longrightarrow> frame_wf (pushed v rs)"
  using length_stack_view [of "rs_stack rs"]
  by (simp add: pushed_def frame_wf_def has_room_def stk_def stack_wf_def store_at_def)

lemma pop1_run: "frame_wf rs \<Longrightarrow> stk rs = a # vs \<Longrightarrow> bindE pop f rs = f a (dropped 1 rs)"
  by (simp add: bindE_run pop_eq)

lemma pop2_run: "frame_wf rs \<Longrightarrow> stk rs = a # b # vs \<Longrightarrow> pop2 f rs = f a b (dropped 2 rs)"
  by (simp add: pop2_def bindE_run popN_eq numeral_2_eq_2)

lemma pop3_run: "frame_wf rs \<Longrightarrow> stk rs = a # b # c # vs \<Longrightarrow> pop3 f rs = f a b c (dropped 3 rs)"
  by (simp add: pop3_def bindE_run popN_eq numeral_3_eq_3)

lemma pop4_run: "frame_wf rs \<Longrightarrow> stk rs = a # b # c # d # vs \<Longrightarrow> pop4 f rs = f a b c d (dropped 4 rs)"
  by (simp add: pop4_def bindE_run popN_eq numeral_eq_Suc)

lemmas pops_run = pop1_run pop2_run pop3_run pop4_run

lemma frame_updates [simp]:
  "frame_wf (rs\<lparr>rs_world := w\<rparr>) = frame_wf rs" "stk (rs\<lparr>rs_world := w\<rparr>) = stk rs"
  "frame_wf (rs\<lparr>rs_env := e\<rparr>) = frame_wf rs" "stk (rs\<lparr>rs_env := e\<rparr>) = stk rs"
  "frame_wf (rs\<lparr>rs_transient := ts\<rparr>) = frame_wf rs" "stk (rs\<lparr>rs_transient := ts\<rparr>) = stk rs"
  by (simp_all add: frame_wf_def stk_def)

lemma world_unchanged: "rs_world rs = w \<Longrightarrow> rs\<lparr>rs_world := w\<rparr> = rs"
  by auto

section \<open>Memory\<close>

definition written :: "int \<Rightarrow> bytes \<Rightarrow> memory \<Rightarrow> memory" where
  "written off bs m = snd (memory_write (nat off) (length bs) bs m)"

lemma frame_mem_fields [simp]:
  "frame_wf (rs\<lparr>rs_memory := m\<rparr>) = frame_wf rs" "stk (rs\<lparr>rs_memory := m\<rparr>) = stk rs"
  "has_room (rs\<lparr>rs_memory := m\<rparr>) = has_room rs"
  by (simp_all add: frame_wf_def stk_def has_room_def)

lemma mem_read_eq: "mem_read off len c rs =
    (Inr (mem_slice (rs_memory rs) (nat off) (nat len)),
     rs\<lparr>rs_memory := memory_extend (nat off) (nat len) (rs_memory rs)\<rparr>)"
  by (simp add: mem_read_def onMemory_def memory_read_eq)

lemma read_data_eq: "0 \<le> len \<Longrightarrow> read_data off len c rs =
    (Inr (mem_slice (rs_memory rs) (nat off) (nat len)),
     rs\<lparr>rs_memory := memory_extend (nat off) (nat len) (rs_memory rs)\<rparr>)"
  by (auto simp: read_data_def mem_read_eq mem_slice_def)

lemma mem_write_eq:
  assumes "length bs = nat len"
  shows "mem_write off len bs rs = (Inr (), rs\<lparr>rs_memory := written off bs (rs_memory rs)\<rparr>)"
  using memory_write_run [OF assms, of "nat off" "rs_memory rs"]
  by (auto simp: mem_write_def onMemory_def written_def assms)

lemma written_byte: "mem_byte (written off bs m) i =
    (if nat off \<le> i \<and> i < nat off + length bs then bs ! (i - nat off) else mem_byte m i)"
  using memory_write_run [OF refl, of "nat off" bs m] by (auto simp: written_def)

lemma written_wf [simp]: "memory_wf m \<Longrightarrow> memory_wf (written off bs m)"
  using memory_write_run [OF refl, of "nat off" bs m] by (auto simp: written_def)

lemma word_buf_eq:
  assumes "noble_ok (ctx_ext c)" "0 \<le> v"
  shows "word_buf c v rs = (Inr (word_bytes v), rs)"
  using assms by (simp add: word_buf_def word_bytes_def)

lemma slice_written:
  "mem_slice (written off bs m) (nat off) (length bs) = bs"
  by (rule nth_equalityI) (simp_all add: mem_slice_def written_byte)

section \<open>Properties of the memory and data instructions\<close>

lemma opMstore_run:
  assumes "noble_ok (ctx_ext c)" "frame_wf rs" "stk rs = off # w # vs" "0 \<le> w" "w < 2 ^ 256"
  shows "opMstore c rs
       = (Inr (), (dropped 2 rs)\<lparr>rs_memory := written off (word_bytes w) (rs_memory rs)\<rparr>)"
  using assms word_bytes_value [OF assms(4,5)]
  by (simp add: opMstore_def pops_run bindE_run word_buf_eq mem_write_eq)

lemma opMload_run:
  assumes "noble_ok (ctx_ext c)" "frame_wf rs" "stk rs = off # vs"
  shows "opMload c rs = (Inr (), pushed (be_value (mem_slice (rs_memory rs) (nat off) 32))
           ((dropped 1 rs)\<lparr>rs_memory := memory_extend (nat off) 32 (rs_memory rs)\<rparr>))"
  using assms by (simp add: opMload_def pops_run) (simp add: bindE_run mem_read_eq push_eq)


lemma slice_disjoint:
  assumes "o2 + n \<le> nat off \<or> nat off + length bs \<le> o2"
  shows "mem_slice (written off bs m) o2 n = mem_slice m o2 n"
  using assms by (intro nth_equalityI) (auto simp: mem_slice_def written_byte)

lemma slice_extend [simp]: "mem_slice (memory_extend o1 s1 m) o2 s2 = mem_slice m o2 s2"
  by (simp add: mem_slice_def)

text \<open>C13: MSTORE writes the 32 big-endian bytes of the word at the offset and no other byte; a
  following MLOAD of the same offset pushes that word back, and one of a disjoint range pushes what
  the memory held before.\<close>

theorem mstore_then_mload:
  assumes "noble_ok (ctx_ext c)" "frame_wf rs" "memory_wf (rs_memory rs)"
    and "stk rs = off # w # off2 # vs" "0 \<le> off" "0 \<le> off2" "0 \<le> w" "w < 2 ^ 256"
  shows "\<exists>t u. opMstore c rs = (Inr (), t) \<and> opMload c t = (Inr (), u)
     \<and> (\<forall>i. mem_byte (rs_memory t) i = (if nat off \<le> i \<and> i < nat off + 32
              then word_bytes w ! (i - nat off) else mem_byte (rs_memory rs) i))
     \<and> (off2 = off \<longrightarrow> stk u = w # vs)
     \<and> (off2 + 32 \<le> off \<or> off + 32 \<le> off2 \<longrightarrow>
          stk u = be_value (mem_slice (rs_memory rs) (nat off2) 32) # vs)
     \<and> memory_wf (rs_memory u) \<and> rs_gasLeft u = rs_gasLeft rs"
proof -
  define t where "t = (dropped 2 rs)\<lparr>rs_memory := written off (word_bytes w) (rs_memory rs)\<rparr>"
  define u where "u = pushed (be_value (mem_slice (rs_memory t) (nat off2) 32))
      ((dropped 1 t)\<lparr>rs_memory := memory_extend (nat off2) 32 (rs_memory t)\<rparr>)"
  have len: "length (word_bytes w) = 32" "be_value (word_bytes w) = w"
    using word_bytes_value [OF assms(7,8)] by simp_all
  have st: "frame_wf t" "stk t = off2 # vs" using assms by (simp_all add: t_def)
  have "opMload c t = (Inr (), u)" using opMload_run [OF assms(1) st] by (simp add: u_def)
  moreover have "stk u = be_value (mem_slice (rs_memory t) (nat off2) 32) # vs"
    using st by (simp add: u_def)
  moreover have "mem_slice (rs_memory t) (nat off) 32 = word_bytes w"
    using slice_written [of off "word_bytes w"] len by (simp add: t_def)
  moreover have "mem_slice (rs_memory t) (nat off2) 32 = mem_slice (rs_memory rs) (nat off2) 32"
    if "off2 + 32 \<le> off \<or> off + 32 \<le> off2"
  proof -
    have "nat off2 + 32 \<le> nat off \<or> nat off + 32 \<le> nat off2" using that assms(5,6) by linarith
    then show ?thesis using slice_disjoint [of "nat off2" 32 off "word_bytes w"] len by (simp add: t_def)
  qed
  moreover note opMstore_run [OF assms(1,2) assms(4) assms(7,8), folded t_def]
  moreover have "memory_wf (rs_memory u)" using assms(3) by (simp add: u_def t_def memory_extend_wf)
  ultimately show ?thesis using len
    by (intro exI [of _ t] exI [of _ u]) (auto simp: t_def u_def written_byte)
qed

theorem mstore_then_mload_witness:
  "\<exists>rs t u. stk rs = [64, 258, 64] \<and> opMstore sample_ctx rs = (Inr (), t) \<and> opMload sample_ctx t = (Inr (), u)
     \<and> stk u = [258]"
proof -
  let ?rs = "pushed 64 (pushed 258 (pushed 64 (sample_frame [] 100)))"
  have wf: "frame_wf ?rs" "stk ?rs = [64, 258, 64]" "memory_wf (rs_memory ?rs)"
    by (simp_all add: sample_frame_def new_run_state_def pushed_def frame_wf_def stk_def stack_wf_def
        new_stack_def store_at_def array_set_def stack_view_def getStack_def new_memory_wf)
  have "noble_ok (ctx_ext sample_ctx)" by (simp add: sample_ctx_def)
  moreover have "(0 :: int) \<le> 64" "(0 :: int) \<le> 258" "(258 :: int) < 2 ^ 256" by simp_all
  ultimately have "\<exists>t u. opMstore sample_ctx ?rs = (Inr (), t) \<and> opMload sample_ctx t = (Inr (), u) \<and> stk u = [258]"
    using mstore_then_mload [of sample_ctx ?rs 64 258 64 "[]"] wf by blast
  then show ?thesis using wf(2) by blast
qed

text \<open>C14: MCOPY moves a memory range as memmove does, when both ranges fit in an array of the engine: the destination
  holds what the source held before the instruction even when the ranges overlap, and every other byte keeps its
  value. When a range asks for a longer memory, which no gas prevents from Cancun on, MCOPY throws a RangeError, which is
  not an exception of the EVM.\<close>

theorem mcopy_is_memmove:
  assumes "frame_wf rs" "memory_wf (rs_memory rs)" "stk rs = dst # src # len # vs" "0 \<le> len"
    and limit: "length (mem_store (rs_memory rs)) \<le> ctx_maxArrayLength c"
    and fits: "fits = (len = 0 \<or> extended_length (nat src) (nat len) (rs_memory rs) \<le> ctx_maxArrayLength c
      \<and> extended_length (nat dst) (nat len) (rs_memory rs) \<le> ctx_maxArrayLength c)"
  shows "if fits then \<exists>t. opMcopy c rs = (Inr (), t) \<and> stk t = vs \<and> memory_wf (rs_memory t)
       \<and> (\<forall>i. mem_byte (rs_memory t) i = (if nat dst \<le> i \<and> i < nat dst + nat len
                then mem_byte (rs_memory rs) (nat src + (i - nat dst)) else mem_byte (rs_memory rs) i))
     else \<exists>t. opMcopy c rs = (Inl RangeError, t)"
proof (cases "len = 0")
  case True
  then show ?thesis using assms by (auto simp: opMcopy_def pops_run)
next
  case False
  let ?m = "rs_memory rs" and ?max = "ctx_maxArrayLength c"
  let ?n = "memory_extend (nat src) (nat len) ?m"
  define data where "data = mem_slice ?m (nat src) (nat len)"
  have len: "0 < nat len" using False assms(4) by simp
  obtain a b where ext: "extended_length (nat src) (nat len) ?m = max (length (mem_store ?m)) a"
    "extended_length (nat dst) (nat len) ?m = max (length (mem_store ?m)) b" "length (mem_store ?n) = max (length (mem_store ?m)) a"
    "extended_length (nat dst) (nat len) ?n = max (max (length (mem_store ?m)) a) b"
    using extended_length_max [OF assms(2) len] extended_length_max [OF memory_extend_wf [OF assms(2)] len] extended_length by metis
  have second: "extended_length (nat src) (nat len) ?m \<le> ?max \<Longrightarrow>
      (extended_length (nat dst) (nat len) ?n > ?max \<and> extended_length (nat dst) (nat len) ?n > length (mem_store ?n)
        \<longleftrightarrow> extended_length (nat dst) (nat len) ?m > ?max)"
    using limit by (auto simp: ext max_def)
  have first: "extended_length (nat src) (nat len) ?m > ?max \<Longrightarrow> extended_length (nat src) (nat len) ?m > length (mem_store ?m)"
    using limit by simp
  have run: "opMcopy c rs = (if extended_length (nat src) (nat len) ?m > ?max then (Inl RangeError, dropped 3 rs)
      else if extended_length (nat dst) (nat len) ?m > ?max then (Inl RangeError, (dropped 3 rs)\<lparr>rs_memory := ?n\<rparr>)
      else (Inr (), (dropped 3 rs)\<lparr>rs_memory := written dst data ?n\<rparr>))"
    using assms(1,3) False first second
    by (simp add: opMcopy_def pops_run)
      (auto simp add: allocate_def Let_def seqE_run bindE_run mem_read_eq mem_write_eq data_def)
  show ?thesis
  proof (cases fits)
    case True
    then have "opMcopy c rs = (Inr (), (dropped 3 rs)\<lparr>rs_memory := written dst data ?n\<rparr>)" using False fits by (simp add: run)
    moreover have "data ! (i - nat dst) = mem_byte ?m (nat src + (i - nat dst))" if "nat dst \<le> i" "i < nat dst + nat len" for i
    proof -
      have "i - nat dst < nat len" using that by linarith
      then show ?thesis by (simp add: data_def mem_slice_def)
    qed
    moreover have "length data = nat len" by (simp add: data_def mem_slice_def)
    ultimately have "opMcopy c rs = (Inr (), (dropped 3 rs)\<lparr>rs_memory := written dst data ?n\<rparr>)"
      "\<forall>i. mem_byte (written dst data ?n) i = (if nat dst \<le> i \<and> i < nat dst + nat len
        then mem_byte ?m (nat src + (i - nat dst)) else mem_byte ?m i)" by (simp_all add: written_byte)
    then show ?thesis using assms(1-3) True by (simp add: memory_extend_wf)
  next
    case no: False
    then show ?thesis using False fits by (auto simp: run not_le)
  qed
qed


theorem mcopy_is_memmove_witness:
  "\<exists>rs t. stk rs = [1, 0, 3] \<and> opMcopy sample_ctx rs = (Inr (), t)
     \<and> mem_byte (rs_memory t) 2 = mem_byte (rs_memory rs) 1"
proof -
  let ?rs = "pushed 1 (pushed 0 (pushed 3 (sample_frame [] 100)))"
  have wf: "frame_wf ?rs" "stk ?rs = [1, 0, 3]" "memory_wf (rs_memory ?rs)"
    by (simp_all add: sample_frame_def new_run_state_def pushed_def frame_wf_def stk_def stack_wf_def
        new_stack_def store_at_def array_set_def stack_view_def getStack_def new_memory_wf)
  have store: "length (mem_store (rs_memory ?rs)) = 8192"
    by (simp add: sample_frame_def new_run_state_def pushed_def new_memory_def CONTAINER_SIZE_def)
  have "ctx_maxArrayLength sample_ctx = 2 ^ 32" by (simp add: sample_ctx_def)
  then have limit: "length (mem_store (rs_memory ?rs)) \<le> ctx_maxArrayLength sample_ctx"
    "extended_length (nat 0) (nat 3) (rs_memory ?rs) \<le> ctx_maxArrayLength sample_ctx"
    "extended_length (nat 1) (nat 3) (rs_memory ?rs) \<le> ctx_maxArrayLength sample_ctx"
    using store by (simp_all add: extended_length_def ceil_to_def Let_def)
  from mcopy_is_memmove [OF wf(1,3,2) _ limit(1) refl] limit(2,3) obtain t where "opMcopy sample_ctx ?rs = (Inr (), t)"
    "\<forall>i. mem_byte (rs_memory t) i = (if nat 1 \<le> i \<and> i < nat 1 + nat 3
       then mem_byte (rs_memory ?rs) (nat 0 + (i - nat 1)) else mem_byte (rs_memory ?rs) i)" by auto
  then show ?thesis using wf(2) by (intro exI [of _ ?rs] exI [of _ t]) simp
qed

text \<open>A range of a byte string that continues with zeros beyond its end.\<close>

definition zero_extended :: "bytes \<Rightarrow> nat \<Rightarrow> nat \<Rightarrow> bytes" where
  "zero_extended data off len = map (\<lambda>i. if off + i < length data then data ! (off + i) else 0) [0..<len]"

lemma length_zero_extended [simp]: "length (zero_extended data off len) = len"
  by (simp add: zero_extended_def)

lemma zero_extended_append:
  "zero_extended data off len = take len (drop off data) @ replicate (len - (length data - off)) 0"
proof (rule nth_equalityI)
  fix i assume "i < length (zero_extended data off len)"
  then show "zero_extended data off len ! i
      = (take len (drop off data) @ replicate (len - (length data - off)) 0) ! i"
    by (auto simp: zero_extended_def nth_append)
qed (simp add: zero_extended_def)

lemma be_value_zeros [simp]: "be_value (replicate n 0) = 0"
  using be_value_replicate_zero [of n "[]"] by simp

lemma be_value_padded: "be_value (bs @ replicate n 0) = bigint_shl (be_value bs) (8 * int n)"
  by (simp add: be_value_append bigint_shl_def push_bit_eq_mult nat_mult_distrib power_mult)

lemma opCalldataload_run:
  assumes "noble_ok (ctx_ext c)" "frame_wf rs" "stk rs = pos # vs" "0 \<le> pos"
  shows "opCalldataload c rs
       = (Inr (), pushed (be_value (zero_extended (env_callData (rs_env rs)) (nat pos) 32)) (dropped 1 rs))"
proof -
  let ?data = "env_callData (rs_env rs)"
  define sub where "sub = take 32 (drop (nat pos) ?data)"
  define loaded where "loaded = (if sub \<noteq> [] then sub else [0])"
  have push: "push v (dropped 1 rs) = (Inr (), pushed v (dropped 1 rs))" for v
    using assms by (simp add: push_eq)
  have sub_eq: "subarray ?data (nat pos) (nat pos + 32) = sub"
    by (simp add: subarray_def sub_def take_drop add.commute)
  consider (out) "int (length ?data) < pos" | (inside) "pos \<le> int (length ?data)" by linarith
  then show ?thesis
  proof cases
    case out
    then have "drop (nat pos) ?data = []" by simp
    then have "be_value (zero_extended ?data (nat pos) 32) = 0" by (simp add: zero_extended_append)
    then show ?thesis using assms out push by (simp add: opCalldataload_def pops_run getCallDataSize_def)
  next
    case inside
    have ze: "zero_extended ?data (nat pos) 32 = sub @ replicate (32 - length sub) 0"
      by (simp add: zero_extended_append sub_def min_def)
    have "(if length loaded < 32 then bigint_shl (be_value loaded) (8 * int (32 - length loaded)) else be_value loaded)
        = be_value (zero_extended ?data (nat pos) 32)"
    proof (cases "sub = []")
      case True
      then show ?thesis by (simp add: ze loaded_def bigint_shl_def)
    next
      case False
      have "length sub \<le> 32" by (simp add: sub_def)
      then show ?thesis using False unfolding ze loaded_def be_value_padded
        by (cases "length sub = 32") (simp_all add: bigint_shl_def)
    qed
    then show ?thesis using assms inside push sub_eq unfolding loaded_def
      by (cases "sub = []"; cases "length sub < 32")
         (simp_all add: opCalldataload_def pops_run getCallDataSize_def Let_def)
  qed
qed

lemma getDataSlice_zero_extended:
  "0 \<le> off \<Longrightarrow> 0 \<le> len \<Longrightarrow> getDataSlice data off len = zero_extended data (nat off) (nat len)"
  by (simp add: getDataSlice_eq zero_extended_def)

lemma copy_slice_run:
  assumes "frame_wf rs" "memory_wf (rs_memory rs)" "stk rs = dst # off # len # vs" "0 \<le> off" "0 \<le> len"
    and "source (dropped 3 rs) = source rs"
  shows "\<exists>t. copy_slice source rs = (Inr (), t) \<and> stk t = vs \<and> memory_wf (rs_memory t)
     \<and> (\<forall>i. mem_byte (rs_memory t) i = (if nat dst \<le> i \<and> i < nat dst + nat len
              then zero_extended (source rs) (nat off) (nat len) ! (i - nat dst) else mem_byte (rs_memory rs) i))"
proof (cases "len = 0")
  case True
  then show ?thesis using assms by (auto simp: copy_slice_def pops_run)
next
  case False
  then have "copy_slice source rs = (Inr (), (dropped 3 rs)\<lparr>rs_memory :=
      written dst (zero_extended (source rs) (nat off) (nat len)) (rs_memory rs)\<rparr>)"
    using assms by (simp add: copy_slice_def pops_run)
      (simp add: bindE_run mem_write_eq getDataSlice_zero_extended)
  then show ?thesis using assms by (auto simp: written_byte)
qed

text \<open>CALLDATALOAD pushes the 32 bytes of the call data at any 256-bit position as a big-endian
  number, and CALLDATACOPY, CODECOPY and RETURNDATACOPY write exactly the requested range to memory,
  where data beyond the end of the source reads as zero; no other byte of the memory changes.\<close>

theorem data_reads_are_zero_extended:
  assumes "noble_ok (ctx_ext c)" "frame_wf rs" "memory_wf (rs_memory rs)"
    and "stk rs = dst # off # len # vs" "0 \<le> dst" "0 \<le> off" "0 \<le> len"
    and "(op, source) \<in> {(opCalldatacopy, env_callData (rs_env rs)), (opCodecopy, env_code (rs_env rs)),
                          (opReturndatacopy, rs_returnBytes rs)}"
  shows "(\<exists>t. opCalldataload c rs = (Inr (), t)
            \<and> stk t = be_value (zero_extended (env_callData (rs_env rs)) (nat dst) 32) # off # len # vs)
     \<and> (\<exists>t. op rs = (Inr (), t) \<and> stk t = vs \<and> memory_wf (rs_memory t)
          \<and> (\<forall>i. mem_byte (rs_memory t) i = (if nat dst \<le> i \<and> i < nat dst + nat len
                 then zero_extended source (nat off) (nat len) ! (i - nat dst) else mem_byte (rs_memory rs) i)))"
proof
  show "\<exists>t. opCalldataload c rs = (Inr (), t)
      \<and> stk t = be_value (zero_extended (env_callData (rs_env rs)) (nat dst) 32) # off # len # vs"
    using opCalldataload_run [OF assms(1,2,4,5)] assms(2,4) by simp
next
  note run = copy_slice_run [OF assms(2,3,4,6,7)]
  show "\<exists>t. op rs = (Inr (), t) \<and> stk t = vs \<and> memory_wf (rs_memory t)
     \<and> (\<forall>i. mem_byte (rs_memory t) i = (if nat dst \<le> i \<and> i < nat dst + nat len
          then zero_extended source (nat off) (nat len) ! (i - nat dst) else mem_byte (rs_memory rs) i))"
    using assms(8) run [of "\<lambda>rs. env_callData (rs_env rs)"] run [of "\<lambda>rs. env_code (rs_env rs)"]
      run [of rs_returnBytes]
    by (auto simp: opCalldatacopy_def opCodecopy_def opReturndatacopy_def)
qed

theorem data_reads_are_zero_extended_witness:
  "\<exists>rs t. stk rs = [0, 1, 2] \<and> opCodecopy rs = (Inr (), t)
     \<and> mem_byte (rs_memory t) 0 = 8 \<and> mem_byte (rs_memory t) 1 = 0"
proof -
  let ?rs = "pushed 0 (pushed 1 (pushed 2 (sample_frame [7, 8] 100)))"
  have wf: "frame_wf ?rs" "stk ?rs = [0, 1, 2]" "memory_wf (rs_memory ?rs)" "env_code (rs_env ?rs) = [7, 8]"
    by (simp_all add: sample_frame_def sample_env_def new_run_state_def pushed_def frame_wf_def stk_def stack_wf_def
        new_stack_def store_at_def array_set_def stack_view_def getStack_def new_memory_wf)
  have n: "noble_ok (ctx_ext sample_ctx)" by (simp add: sample_ctx_def)
  have "\<exists>t. opCodecopy ?rs = (Inr (), t) \<and> stk t = [] \<and> memory_wf (rs_memory t)
          \<and> (\<forall>i. mem_byte (rs_memory t) i = (if nat 0 \<le> i \<and> i < nat 0 + nat 2
                 then zero_extended [7, 8] (nat 1) (nat 2) ! (i - nat 0) else mem_byte (rs_memory ?rs) i))"
    using data_reads_are_zero_extended [OF n wf(1,3,2), of opCodecopy "[7, 8]"] wf(4) by simp
  then obtain t where "opCodecopy ?rs = (Inr (), t)"
    "\<And>i. mem_byte (rs_memory t) i = (if nat 0 \<le> i \<and> i < nat 0 + nat 2
         then zero_extended [7, 8] (nat 1) (nat 2) ! (i - nat 0) else mem_byte (rs_memory ?rs) i)" by blast
  then show ?thesis using wf(2) by (intro exI [of _ ?rs] exI [of _ t]) (simp add: zero_extended_def)
qed

end
