(* ===== verification/StorageFacts.thy ===== *)
theory StorageFacts
  imports FrameFacts
begin

text \<open>
  SLOAD and SSTORE on the simple state manager and TLOAD and TSTORE on the transient storage, as
  functions of the storage maps they read and write.
\<close>

definition slot_value :: "run_state \<Rightarrow> int \<Rightarrow> int" where
  "slot_value rs k = be_value (case last (storageStack (wl_sm (rs_world rs))) (env_address (rs_env rs), word_bytes k)
     of None \<Rightarrow> [] | Some v \<Rightarrow> v)"

definition transient_value :: "run_state \<Rightarrow> int \<Rightarrow> int" where
  "transient_value rs k = be_value (ts_get (env_address (rs_env rs)) (word_bytes k) (rs_transient rs))"

definition own_account :: "run_state \<Rightarrow> account option" where
  "own_account rs = last (accountStack (wl_sm (rs_world rs))) (env_address (rs_env rs))"

lemma loaded_value_eq: "noble_ok (ctx_ext c) \<Longrightarrow> loaded_value c v = be_value v"
  by (simp add: loaded_value_def)

lemma stored_value_eq: "noble_ok (ctx_ext c) \<Longrightarrow> 0 \<le> v \<Longrightarrow>
    stored_value c v rs = (Inr (if v = 0 then [] else be_bytes (nat v)), rs)"
  by (simp add: stored_value_def)

lemma word_bytes_inj:
  "0 \<le> k \<Longrightarrow> k < 2 ^ 256 \<Longrightarrow> 0 \<le> l \<Longrightarrow> l < 2 ^ 256 \<Longrightarrow> word_bytes k = word_bytes l \<longleftrightarrow> k = l"
  using word_bytes_value(1) by metis

definition sm_stored :: "bytes \<Rightarrow> bytes \<Rightarrow> bytes \<Rightarrow> simple_sm \<Rightarrow> simple_sm" where
  "sm_stored a key v sm = sm\<lparr>storageStack := set_top (storageStack sm) ((last (storageStack sm))((a, key) \<mapsto> v))\<rparr>"

lemma opSload_run:
  assumes "noble_ok (ctx_ext c)" "frame_wf rs" "sm_wf (wl_sm (rs_world rs))" "stk rs = k # vs" "0 \<le> k"
  shows "opSload c rs = (Inr (), pushed (slot_value rs k) (dropped 1 rs))"
  using assms by (simp add: opSload_def pops_run)
    (auto simp: bindE_run word_buf_eq storageLoad_def onWorld_def on_sm_def sm_getStorage_def sm_wf_def
       loaded_value_eq push_eq slot_value_def world_unchanged)

lemma opSstore_run:
  assumes "noble_ok (ctx_ext c)" "frame_wf rs" "sm_wf (wl_sm (rs_world rs))" "stk rs = k # v # vs"
    and "0 \<le> k" "0 \<le> v" "own_account rs = Some acc"
  shows "\<exists>t. opSstore c rs = (Inr (), t) \<and> frame_wf t \<and> stk t = vs
     \<and> wl_sm (rs_world t) = sm_stored (env_address (rs_env rs)) (word_bytes k)
           (if v = 0 then [] else be_bytes (nat v)) (wl_sm (rs_world rs))
     \<and> rs_env t = (rs_env rs)\<lparr>env_contract := acc\<rparr> \<and> rs_transient t = rs_transient rs"
  using assms by (simp add: opSstore_def pops_run)
    (auto simp: bindE_run seqE_run word_buf_eq stored_value_eq storageStore_def onWorld_def on_sm_def
       sm_putStorage_def sm_getAccount_def sm_wf_def own_account_def set_contract_def sm_stored_def
       split: option.split)

lemma slot_value_stored:
  assumes "sm_wf (wl_sm (rs_world rs))" "0 \<le> k" "k < 2 ^ 256" "0 \<le> l" "l < 2 ^ 256" "0 \<le> v"
    and "wl_sm (rs_world t) = sm_stored (env_address (rs_env rs)) (word_bytes k)
           (if v = 0 then [] else be_bytes (nat v)) (wl_sm (rs_world rs))"
    and "env_address (rs_env t) = env_address (rs_env rs)"
  shows "slot_value t l = (if l = k then v else slot_value rs l)"
  using assms word_bytes_inj [OF assms(2-5)] by (auto simp: slot_value_def sm_stored_def)

lemma opTload_run:
  assumes "noble_ok (ctx_ext c)" "frame_wf rs" "stk rs = k # vs" "0 \<le> k"
  shows "opTload c rs = (Inr (), pushed (transient_value rs k) (dropped 1 rs))"
  using assms by (simp add: opTload_def pops_run)
    (simp add: bindE_run word_buf_eq transientStorageLoad_def loaded_value_eq push_eq transient_value_def)

lemma opTstore_run:
  assumes "noble_ok (ctx_ext c)" "frame_wf rs" "stk rs = k # v # vs"
    and "0 \<le> k" "k < 2 ^ 256" "0 \<le> v" "v < 2 ^ 256" "\<not> env_isStatic (rs_env rs)"
  shows "\<exists>t. opTstore c rs = (Inr (), t) \<and> frame_wf t \<and> stk t = vs \<and> rs_env t = rs_env rs
     \<and> rs_world t = rs_world rs
     \<and> ts_view (rs_transient t) = (ts_view (rs_transient rs))
          ((env_address (rs_env rs), word_bytes k) := (if v = 0 then [] else be_bytes (nat v)))"
proof -
  obtain val where val: "val = (if v = 0 then [] else be_bytes (nat v))" by simp
  have "nat v < 256 ^ 32" using assms(6,7) by (simp add: nat_less_iff)
  then have "length val \<le> 32" using length_be_bytes_le [of "nat v" 32] by (simp add: val)
  with word_bytes_value(2) [OF assms(4,5)] obtain ts where
    "ts_put (env_address (rs_env rs)) (word_bytes k) val (rs_transient rs) = (Inr (), ts)"
    "ts_view ts = (ts_view (rs_transient rs))((env_address (rs_env rs), word_bytes k) := val)"
    using ts_put_run by blast
  then show ?thesis using assms unfolding val [symmetric]
    by (simp add: opTstore_def bindE_run pop2_run [OF assms(2,3)])
       (simp add: bindE_run word_buf_eq stored_value_eq val [symmetric] transientStorageStore_def onTransient_def)
qed

text \<open>C15: SSTORE of a word and SLOAD of any slot of the same contract: the stored slot reads back the
  word, every other slot what it held before; TSTORE and TLOAD satisfy the same laws on the transient
  storage without touching the persistent one, and TSTORE in a static frame fails with the static
  state change error before it pops anything.\<close>

theorem storage_reads_back:
  assumes "noble_ok (ctx_ext c)" "frame_wf rs" "sm_wf (wl_sm (rs_world rs))" "own_account rs = Some acc"
    and "stk rs = k # v # l # vs" "0 \<le> k" "k < 2 ^ 256" "0 \<le> l" "l < 2 ^ 256" "0 \<le> v" "v < 2 ^ 256"
  shows "(\<exists>t u. opSstore c rs = (Inr (), t) \<and> opSload c t = (Inr (), u)
            \<and> stk u = (if l = k then v else slot_value rs l) # vs
            \<and> rs_transient u = rs_transient rs)
     \<and> (if env_isStatic (rs_env rs) then opTstore c rs = (Inl (EVMError STATIC_STATE_CHANGE), rs)
        else \<exists>t u. opTstore c rs = (Inr (), t) \<and> opTload c t = (Inr (), u)
            \<and> stk u = (if l = k then v else transient_value rs l) # vs
            \<and> rs_world u = rs_world rs)"
proof
  obtain t where t: "opSstore c rs = (Inr (), t)" "frame_wf t" "stk t = l # vs"
    "wl_sm (rs_world t) = sm_stored (env_address (rs_env rs)) (word_bytes k)
           (if v = 0 then [] else be_bytes (nat v)) (wl_sm (rs_world rs))"
    "rs_env t = (rs_env rs)\<lparr>env_contract := acc\<rparr>" "rs_transient t = rs_transient rs"
    using opSstore_run [OF assms(1,2,3,5,6,10,4)] by blast
  have "sm_wf (wl_sm (rs_world t))" using assms(3) t(4)
    by (auto simp: sm_wf_def sm_stored_def set_top_def)
  from opSload_run [OF assms(1) t(2) this t(3) assms(8)]
  have "opSload c t = (Inr (), pushed (slot_value t l) (dropped 1 t))" .
  moreover have "slot_value t l = (if l = k then v else slot_value rs l)"
    by (rule slot_value_stored [OF assms(3,6-10) t(4)]) (simp add: t(5))
  ultimately show "\<exists>t u. opSstore c rs = (Inr (), t) \<and> opSload c t = (Inr (), u)
      \<and> stk u = (if l = k then v else slot_value rs l) # vs \<and> rs_transient u = rs_transient rs"
    using t by (intro exI [of _ t] exI [of _ "pushed (slot_value t l) (dropped 1 t)"]) simp
next
  show "if env_isStatic (rs_env rs) then opTstore c rs = (Inl (EVMError STATIC_STATE_CHANGE), rs)
        else \<exists>t u. opTstore c rs = (Inr (), t) \<and> opTload c t = (Inr (), u)
            \<and> stk u = (if l = k then v else transient_value rs l) # vs \<and> rs_world u = rs_world rs"
  proof (cases "env_isStatic (rs_env rs)")
    case True
    then show ?thesis by (simp add: opTstore_def bindE_run trap_def)
  next
    case False
    then obtain t where t: "opTstore c rs = (Inr (), t)" "frame_wf t" "stk t = l # vs" "rs_env t = rs_env rs"
      "rs_world t = rs_world rs"
      "ts_view (rs_transient t) = (ts_view (rs_transient rs))
          ((env_address (rs_env rs), word_bytes k) := (if v = 0 then [] else be_bytes (nat v)))"
      using opTstore_run [OF assms(1,2,5,6,7,10,11)] by blast
    have "transient_value r l = be_value (ts_view (rs_transient r) (env_address (rs_env r), word_bytes l))" for r
      by (simp add: transient_value_def ts_view_def)
    then have "transient_value t l = (if l = k then v else transient_value rs l)"
      using t(4,6) word_bytes_inj [OF assms(6-9)] assms(10) by auto
    moreover have "opTload c t = (Inr (), pushed (transient_value t l) (dropped 1 t))"
      by (rule opTload_run [OF assms(1) t(2,3) assms(8)])
    ultimately have "opTstore c rs = (Inr (), t) \<and> opTload c t = (Inr (), pushed (transient_value t l) (dropped 1 t))
        \<and> stk (pushed (transient_value t l) (dropped 1 t)) = (if l = k then v else transient_value rs l) # vs
        \<and> rs_world (pushed (transient_value t l) (dropped 1 t)) = rs_world rs"
      using t by simp
    then show ?thesis using False by auto
  qed
qed

theorem storage_reads_back_witness:
  "\<exists>rs t u. stk rs = [1, 5, 1] \<and> opTstore sample_ctx rs = (Inr (), t) \<and> opTload sample_ctx t = (Inr (), u)
     \<and> stk u = [5]"
proof -
  let ?sm = "new_simple_sm\<lparr>accountStack := [(\<lambda>_. None)(replicate 19 0 @ [1] \<mapsto> new_account)]\<rparr>"
  let ?rs = "pushed 1 (pushed 5 (pushed 1 ((sample_frame [] 100)\<lparr>rs_world := \<lparr>wl_sm = ?sm, wl_journal = new_journal\<rparr>\<rparr>)))"
  have wf: "frame_wf ?rs" "stk ?rs = [1, 5, 1]" "\<not> env_isStatic (rs_env ?rs)"
    "own_account ?rs = Some new_account" "sm_wf (wl_sm (rs_world ?rs))"
    by (simp_all add: sample_frame_def sample_env_def new_run_state_def pushed_def frame_wf_def stk_def stack_wf_def
        new_stack_def store_at_def array_set_def stack_view_def getStack_def own_account_def sm_wf_def
        new_simple_sm_def checkpointSync_def)
  have n: "noble_ok (ctx_ext sample_ctx)" by (simp add: sample_ctx_def)
  have b: "(0 :: int) \<le> 1" "(1 :: int) < 2 ^ 256" "(0 :: int) \<le> 5" "(5 :: int) < 2 ^ 256" by simp_all
  obtain rs where rs: "frame_wf rs" "stk rs = [1, 5, 1]" "\<not> env_isStatic (rs_env rs)"
    "own_account rs = Some new_account" "sm_wf (wl_sm (rs_world rs))"
    using wf that by metis
  from storage_reads_back [OF n rs(1,5,4,2) b(1,2,1,2,3,4)] rs(3) show ?thesis
    using rs(2) by (auto simp: split: if_splits)
qed

end
