(* ===== verification/Calls.thy ===== *)
theory Calls
  imports StorageFacts
begin

text \<open>
  Messages between frames: the class \<open>Message\<close> (\<open>src/packages/evm/src/message.ts\<close>), the interpreter
  methods that send one (\<open>call\<close>, \<open>callCode\<close>, \<open>callStatic\<close>, \<open>callDelegate\<close>, \<open>create\<close>, \<open>create2\<close>,
  \<open>_baseCall\<close>, \<open>_selfDestruct\<close>, \<open>_getReturnCode\<close> of \<open>interpreter.ts\<close>), and the instructions of
  \<open>opcodes/instructions/system.ts\<close>. The EVM's \<open>runCall\<close>, which runs the callee, is the argument
  \<open>rc\<close> of these definitions; the theory Evm applies them to the model of \<open>runCall\<close>.
\<close>

section \<open>Messages and results\<close>

record message =
  msg_to :: "address option"
  msg_value :: int
  msg_caller :: address
  msg_gasLimit :: int
  msg_data :: bytes
  msg_depth :: nat
  msg_code :: "bytes option"
  msg_codeAddress :: "address option"
  msg_isStatic :: bool
  msg_salt :: "bytes option"
  msg_isCreate :: bool
  msg_chargeCodeAccesses :: bool
  msg_selfdestruct :: "address list option"
  msg_createdAddresses :: "address list option"
  msg_delegatecall :: bool
  msg_gasRefund :: int
  msg_blobVersionedHashes :: "string list"

record exec_result =
  er_executionGasUsed :: int
  er_exceptionError :: "exn option"
  er_returnValue :: bytes
  er_gasRefund :: "int option"
  er_logs :: "log_entry list option"
  er_selfdestruct :: "address list option"
  er_createdAddresses :: "address list option"

text \<open>The sets a message carries are shared objects: \<open>ev_selfdestruct\<close> and \<open>ev_createdAddresses\<close> are
  their contents when the call returns.\<close>

record evm_result =
  ev_createdAddress :: "address option"
  ev_execResult :: exec_result
  ev_selfdestruct :: "address list"
  ev_createdAddresses :: "address list"

type_synonym run_call = "message \<Rightarrow> (world \<times> transient_storage, evm_result) sx"

definition message_validate :: "message \<Rightarrow> exn + message" where
  "message_validate m = (if msg_value m < 0 then Inl (PlainError ''value field cannot be negative'') else Inr m)"

definition default_message :: "int \<Rightarrow> message" where
  "default_message gasLimit = \<lparr>msg_to = None, msg_value = 0, msg_caller = createZeroAddress,
     msg_gasLimit = gasLimit, msg_data = [], msg_depth = 0, msg_code = None, msg_codeAddress = None,
     msg_isStatic = False, msg_salt = None, msg_isCreate = False, msg_chargeCodeAccesses = False,
     msg_selfdestruct = None, msg_createdAddresses = None, msg_delegatecall = False,
     msg_gasRefund = 0, msg_blobVersionedHashes = []\<rparr>"

text \<open>\<open>codeAddress\<close>: the explicit one, or the target.\<close>

definition message_codeAddress :: "message \<Rightarrow> exn + address" where
  "message_codeAddress m = (case msg_codeAddress m of Some a \<Rightarrow> Inr a
     | None \<Rightarrow> (case msg_to m of Some a \<Rightarrow> Inr a | None \<Rightarrow> Inl (PlainError ''Missing codeAddress'')))"

text \<open>\<open>Set.add\<close> on an insertion-ordered set.\<close>

definition set_insert :: "'a \<Rightarrow> 'a list \<Rightarrow> 'a list" where
  "set_insert x xs = (if x \<in> set xs then xs else xs @ [x])"

definition set_add_all :: "'a list \<Rightarrow> 'a list \<Rightarrow> 'a list" where
  "set_add_all new xs = foldl (\<lambda>acc x. set_insert x acc) xs new"

lemma set_set_insert [simp]: "set (set_insert x xs) = insert x (set xs)"
  by (auto simp: set_insert_def)

lemma set_set_add_all [simp]: "set (set_add_all new xs) = set new \<union> set xs"
  unfolding set_add_all_def by (induction new arbitrary: xs) auto

section \<open>Sending a message (\<open>interpreter.ts\<close>)\<close>

definition onEvmState :: "(world \<times> transient_storage, 'a) sx \<Rightarrow> 'a evm" where
  "onEvmState m = (\<lambda>rs. case m (rs_world rs, rs_transient rs) of
     (r, (w, ts)) \<Rightarrow> (r, rs\<lparr>rs_world := w, rs_transient := ts\<rparr>))"

definition call_depth_reached :: "evm_ctx \<Rightarrow> run_state \<Rightarrow> bool" where
  "call_depth_reached c rs = (case param_number c ''stackLimit'' of
     None \<Rightarrow> False | Some n \<Rightarrow> int (env_depth (rs_env rs)) \<ge> n)"

text \<open>Without EIP-6780 the set of created addresses is left alone.\<close>

definition adopt_sets :: "evm_ctx \<Rightarrow> evm_result \<Rightarrow> unit evm" where
  "adopt_sets c res =
     seqE (modifyE (\<lambda>rs. rs\<lparr>res_selfdestruct := set_add_all (ev_selfdestruct res) (res_selfdestruct rs)\<rparr>))
       (if eip_active c 6780 then
          bindE (getsE res_createdAddresses) (\<lambda>created. case created of
            Some xs \<Rightarrow> modifyE (\<lambda>rs. rs\<lparr>res_createdAddresses := Some (set_add_all (ev_createdAddresses res) xs)\<rparr>)
          | None \<Rightarrow> if ev_createdAddresses res = [] then returnE () else throwE TypeError)
        else returnE ())"

definition refresh_contract :: "unit evm" where
  "refresh_contract = bindE (getsE (\<lambda>rs. env_address (rs_env rs))) (\<lambda>a.
     bindE (onWorld (on_sm (sm_getAccount a))) (\<lambda>acc. case acc of
       None \<Rightarrow> throwE (PlainError ''could not read contract account'')
     | Some b \<Rightarrow> set_contract b))"

definition adopt_refund :: "exec_result \<Rightarrow> unit evm" where
  "adopt_refund er = modifyE (\<lambda>rs. rs\<lparr>rs_gasRefund := (case er_gasRefund er of None \<Rightarrow> 0 | Some g \<Rightarrow> g)\<rparr>)"

definition append_logs :: "exec_result \<Rightarrow> unit evm" where
  "append_logs er = (case er_logs er of None \<Rightarrow> returnE ()
     | Some ls \<Rightarrow> modifyE (\<lambda>rs. rs\<lparr>res_logs := res_logs rs @ ls\<rparr>))"

definition getReturnCode :: "exec_result \<Rightarrow> bool \<Rightarrow> run_state \<Rightarrow> int" where
  "getReturnCode er isEOFCreate rs =
     (if \<not> env_eof (rs_env rs) \<or> isEOFCreate then (if er_exceptionError er \<noteq> None then 0 else 1)
      else (case er_exceptionError er of
              Some e \<Rightarrow> if e = EVMError REVERT then 1 else 2
            | None \<Rightarrow> 0))"

definition copy_created :: "evm_ctx \<Rightarrow> run_state \<Rightarrow> address list option \<Rightarrow> address list option" where
  "copy_created c rs old = (if eip_active c 6780
     then Some (case res_createdAddresses rs of None \<Rightarrow> [] | Some xs \<Rightarrow> xs) else old)"

text \<open>What \<open>_baseCall\<close> does with the result of \<open>runCall\<close>.\<close>

definition base_results :: "evm_ctx \<Rightarrow> evm_result \<Rightarrow> int evm" where
  "base_results c results =
     (let er = ev_execResult results in
      seqE (append_logs er)
     (seqE (useGas (er_executionGasUsed er))
     (seqE (whenE (er_exceptionError er = None \<or> er_exceptionError er = Some (EVMError REVERT))
              (modifyE (\<lambda>rs. rs\<lparr>rs_returnBytes := er_returnValue er\<rparr>)))
     (seqE (whenE (er_exceptionError er = None)
              (seqE (adopt_sets c results) (seqE refresh_contract (adopt_refund er))))
        (getsE (getReturnCode er False))))))"

definition baseCall :: "evm_ctx \<Rightarrow> run_call \<Rightarrow> message \<Rightarrow> int evm" where
  "baseCall c rc msg0 = (\<lambda>rs0.
     let msg = msg0\<lparr>msg_selfdestruct := Some (res_selfdestruct rs0), msg_gasRefund := rs_gasRefund rs0,
                    msg_createdAddresses := copy_created c rs0 (msg_createdAddresses msg0)\<rparr>;
         rs = rs0\<lparr>rs_returnBytes := []\<rparr>
     in if call_depth_reached c rs
           \<or> (\<not> msg_delegatecall msg \<and> acc_balance (env_contract (rs_env rs)) < msg_value msg)
        then (Inr 0, rs)
        else bindE (onEvmState (rc msg)) (base_results c) rs)"

definition child_message :: "run_state \<Rightarrow> int \<Rightarrow> int \<Rightarrow> bytes \<Rightarrow> message" where
  "child_message rs gasLimit val data = (default_message gasLimit)
     \<lparr>msg_caller := env_address (rs_env rs), msg_value := val, msg_data := data,
      msg_isStatic := env_isStatic (rs_env rs), msg_depth := env_depth (rs_env rs) + 1,
      msg_blobVersionedHashes := env_blobVersionedHashes (rs_env rs)\<rparr>"

definition send :: "evm_ctx \<Rightarrow> run_call \<Rightarrow> (run_state \<Rightarrow> message) \<Rightarrow> int evm" where
  "send c rc m = bindE (getsE m) (\<lambda>msg. bindE (liftE (message_validate msg)) (baseCall c rc))"

definition interp_call :: "evm_ctx \<Rightarrow> run_call \<Rightarrow> int \<Rightarrow> address \<Rightarrow> int \<Rightarrow> bytes \<Rightarrow> int evm" where
  "interp_call c rc gasLimit a val data =
     send c rc (\<lambda>rs. (child_message rs gasLimit val data)\<lparr>msg_to := Some a\<rparr>)"

definition interp_callCode :: "evm_ctx \<Rightarrow> run_call \<Rightarrow> int \<Rightarrow> address \<Rightarrow> int \<Rightarrow> bytes \<Rightarrow> int evm" where
  "interp_callCode c rc gasLimit a val data =
     send c rc (\<lambda>rs. (child_message rs gasLimit val data)
       \<lparr>msg_to := Some (env_address (rs_env rs)), msg_codeAddress := Some a\<rparr>)"

definition interp_callStatic :: "evm_ctx \<Rightarrow> run_call \<Rightarrow> int \<Rightarrow> address \<Rightarrow> int \<Rightarrow> bytes \<Rightarrow> int evm" where
  "interp_callStatic c rc gasLimit a val data =
     send c rc (\<lambda>rs. (child_message rs gasLimit val data)\<lparr>msg_to := Some a, msg_isStatic := True\<rparr>)"

definition interp_callDelegate :: "evm_ctx \<Rightarrow> run_call \<Rightarrow> int \<Rightarrow> address \<Rightarrow> int \<Rightarrow> bytes \<Rightarrow> int evm" where
  "interp_callDelegate c rc gasLimit a val data =
     send c rc (\<lambda>rs. (child_message rs gasLimit val data)
       \<lparr>msg_caller := env_caller (rs_env rs), msg_to := Some (env_address (rs_env rs)),
        msg_codeAddress := Some a, msg_delegatecall := True\<rparr>)"

definition MAX_UINT64 :: int where
  "MAX_UINT64 = 0xffffffffffffffff"

definition exceeds_initcode :: "evm_ctx \<Rightarrow> int \<Rightarrow> bool" where
  "exceeds_initcode c len = (case param_number c ''maxInitCodeSize'' of None \<Rightarrow> False | Some n \<Rightarrow> len > n)"

text \<open>What \<open>create\<close> does with the result of \<open>runCall\<close>, and the message it sends.\<close>

definition create_results :: "evm_ctx \<Rightarrow> evm_result \<Rightarrow> int evm" where
  "create_results c results =
     (let er = ev_execResult results in
      seqE (append_logs er)
     (seqE (useGas (er_executionGasUsed er))
     (seqE (whenE (er_exceptionError er = Some (EVMError REVERT))
              (modifyE (\<lambda>rs. rs\<lparr>rs_returnBytes := er_returnValue er\<rparr>)))
        (if er_exceptionError er = None \<or> er_exceptionError er = Some (EVMError CODESTORE_OUT_OF_GAS)
         then seqE (adopt_sets c results) (seqE refresh_contract (seqE (adopt_refund er)
                (case ev_createdAddress results of
                   Some a \<Rightarrow> returnE (bytesToBigInt (ctx_ext c) a)
                 | None \<Rightarrow> getsE (getReturnCode er True))))
         else getsE (getReturnCode er True)))))"

definition create_message :: "evm_ctx \<Rightarrow> int \<Rightarrow> int \<Rightarrow> bytes \<Rightarrow> bytes option \<Rightarrow> address list \<Rightarrow> run_state \<Rightarrow> message" where
  "create_message c gasLimit val codeToRun salt selfdestruct rs = (default_message gasLimit)
     \<lparr>msg_caller := env_address (rs_env rs), msg_value := val, msg_data := codeToRun,
      msg_salt := salt, msg_depth := env_depth (rs_env rs) + 1,
      msg_selfdestruct := Some selfdestruct, msg_gasRefund := rs_gasRefund rs,
      msg_blobVersionedHashes := env_blobVersionedHashes (rs_env rs),
      msg_createdAddresses := copy_created c rs None\<rparr>"

definition create_send :: "evm_ctx \<Rightarrow> run_call \<Rightarrow> (run_state \<Rightarrow> message) \<Rightarrow> int evm" where
  "create_send c rc m = bindE (getsE m) (\<lambda>msg. bindE (liftE (message_validate msg)) (\<lambda>msg.
     bindE (onEvmState (rc msg)) (create_results c)))"

definition interp_create :: "evm_ctx \<Rightarrow> run_call \<Rightarrow> int \<Rightarrow> int \<Rightarrow> bytes \<Rightarrow> bytes option \<Rightarrow> int evm" where
  "interp_create c rc gasLimit val codeToRun salt = (\<lambda>rs0.
     let selfdestruct = res_selfdestruct rs0;
         rs = rs0\<lparr>rs_returnBytes := []\<rparr>;
         contract = env_contract (rs_env rs)
     in if call_depth_reached c rs \<or> acc_balance contract < val then (Inr 0, rs)
        else if acc_nonce contract \<ge> MAX_UINT64 then (Inr 0, rs)
        else
          let contract' = contract\<lparr>acc_nonce := acc_nonce contract + 1\<rparr> in
          seqE (set_contract contract')
         (seqE (onWorld (journal_putAccount (env_address (rs_env rs)) (Some contract')))
            (if eip_active c 3860 \<and> exceeds_initcode c (int (length codeToRun)) \<and> \<not> ctx_allowUnlimitedInitCodeSize c
             then returnE 0
             else create_send c rc (create_message c gasLimit val codeToRun salt selfdestruct))) rs)"

definition interp_selfDestruct :: "evm_ctx \<Rightarrow> address \<Rightarrow> unit evm" where
  "interp_selfDestruct c toAddress = bindE (getsE (\<lambda>rs. env_address (rs_env rs))) (\<lambda>self.
     bindE (getsE res_selfdestruct) (\<lambda>destructed.
       seqE (if self \<notin> set destructed then bindE (param c ''selfdestructRefundGas'') refundGas else returnE ())
      (seqE (modifyE (\<lambda>rs. rs\<lparr>res_selfdestruct := set_insert self (res_selfdestruct rs)\<rparr>))
      (seqE (if toAddress \<noteq> self then
               bindE (onWorld (on_sm (sm_getAccount toAddress))) (\<lambda>acc.
                 bindE (getsE (\<lambda>rs. acc_balance (env_contract (rs_env rs)))) (\<lambda>bal.
                   let b = (case acc of None \<Rightarrow> new_account | Some b \<Rightarrow> b) in
                   onWorld (journal_putAccount toAddress (Some (b\<lparr>acc_balance := acc_balance b + bal\<rparr>)))))
             else returnE ())
      (bindE (if \<not> eip_active c 6780 then returnE True
              else bindE (getsE res_createdAddresses) (\<lambda>created. case created of
                     None \<Rightarrow> throwE TypeError
                   | Some xs \<Rightarrow> returnE (self \<in> set xs \<or> toAddress \<noteq> self)))
         (\<lambda>doModify.
            seqE (if doModify then onWorld (on_sm (sm_modifyAccountFields self (\<lambda>a. a\<lparr>acc_balance := 0\<rparr>)))
                  else returnE ())
              (trap STOP)))))))"

section \<open>Instructions (\<open>system.ts\<close>)\<close>

text \<open>\<open>messageGasLimit!\<close>, set by the dynamic gas handler of the same instruction, and cleared.\<close>

definition take_messageGasLimit :: "int evm" where
  "take_messageGasLimit = bindE (getsE rs_messageGasLimit) (\<lambda>g. case g of
     None \<Rightarrow> throwE TypeError
   | Some v \<Rightarrow> seqE (modifyE (\<lambda>rs. rs\<lparr>rs_messageGasLimit := None\<rparr>)) (returnE v))"

definition initcode_violation :: "evm_ctx \<Rightarrow> int \<Rightarrow> bool" where
  "initcode_violation c len \<longleftrightarrow> eip_active c 3860
     \<and> (case getParamAtHardfork (ctx_common c) ''maxInitCodeSize''
              (case getHardforkForEIP (ctx_common c) 3860 of None \<Rightarrow> ctx_fork c | Some h \<Rightarrow> h) of
          Some (PBig n) \<Rightarrow> len > n | Some (PNum n) \<Rightarrow> len > n | Some PNull \<Rightarrow> len > 0 | None \<Rightarrow> False)
     \<and> \<not> ctx_allowUnlimitedInitCodeSize c"

definition create_body :: "evm_ctx \<Rightarrow> run_call \<Rightarrow> int \<Rightarrow> int \<Rightarrow> int \<Rightarrow> bytes option evm \<Rightarrow> unit evm" where
  "create_body c rc val offset len getSalt =
     (if initcode_violation c len then trap INITCODE_SIZE_VIOLATION
      else bindE take_messageGasLimit (\<lambda>gasLimit. bindE (read_data offset len True) (\<lambda>data.
        if isEOF data then push 0
        else bindE getSalt (\<lambda>salt. bindE (interp_create c rc gasLimit val data salt) push))))"

definition opCreate :: "evm_ctx \<Rightarrow> run_call \<Rightarrow> unit evm" where
  "opCreate c rc = pop3 (\<lambda>val offset len. create_body c rc val offset len (returnE None))"

definition opCreate2 :: "evm_ctx \<Rightarrow> run_call \<Rightarrow> unit evm" where
  "opCreate2 c rc = bindE (getsE (\<lambda>rs. env_isStatic (rs_env rs))) (\<lambda>static.
     if static then trap STATIC_STATE_CHANGE
     else pop4 (\<lambda>val offset len salt. create_body c rc val offset len
            (bindE (word_buf c salt) (\<lambda>s. returnE (Some s)))))"

text \<open>The stipend of a call that sends value, added to the frame's gas and to the callee's limit.\<close>

definition with_stipend :: "evm_ctx \<Rightarrow> int \<Rightarrow> (int \<Rightarrow> 'a evm) \<Rightarrow> 'a evm" where
  "with_stipend c val k = bindE (getsE rs_messageGasLimit) (\<lambda>g. case g of
     None \<Rightarrow> throwE TypeError
   | Some gasLimit \<Rightarrow>
       if val \<noteq> 0 then bindE (param c ''callStipendGas'') (\<lambda>s. seqE (addStipend s) (k (gasLimit + s)))
       else k gasLimit)"

definition clear_messageGasLimit :: "unit evm" where
  "clear_messageGasLimit = modifyE (\<lambda>rs. rs\<lparr>rs_messageGasLimit := None\<rparr>)"

definition finish_call :: "int \<Rightarrow> int \<Rightarrow> int evm \<Rightarrow> unit evm" where
  "finish_call outOffset outLength m =
     bindE m (\<lambda>ret. seqE (writeCallOutput outOffset outLength) (push ret))"

definition opCall :: "evm_ctx \<Rightarrow> run_call \<Rightarrow> unit evm" where
  "opCall c rc = bindE (popN 7) (\<lambda>v.
     bindE (stack_address c (v ! 1)) (\<lambda>toAddress. bindE (read_data (v ! 3) (v ! 4) True) (\<lambda>data.
       with_stipend c (v ! 2) (\<lambda>gasLimit. seqE clear_messageGasLimit
         (finish_call (v ! 5) (v ! 6) (interp_call c rc gasLimit toAddress (v ! 2) data))))))"

definition opCallcode :: "evm_ctx \<Rightarrow> run_call \<Rightarrow> unit evm" where
  "opCallcode c rc = bindE (popN 7) (\<lambda>v.
     bindE (stack_address c (v ! 1)) (\<lambda>toAddress.
       with_stipend c (v ! 2) (\<lambda>gasLimit. seqE clear_messageGasLimit
         (bindE (read_data (v ! 3) (v ! 4) True) (\<lambda>data.
           finish_call (v ! 5) (v ! 6) (interp_callCode c rc gasLimit toAddress (v ! 2) data))))))"

definition opDelegatecall :: "evm_ctx \<Rightarrow> run_call \<Rightarrow> unit evm" where
  "opDelegatecall c rc = bindE (getsE (\<lambda>rs. env_callValue (rs_env rs))) (\<lambda>val.
     bindE (popN 6) (\<lambda>v. bindE (stack_address c (v ! 1)) (\<lambda>toAddress.
       bindE (read_data (v ! 2) (v ! 3) True) (\<lambda>data. bindE take_messageGasLimit (\<lambda>gasLimit.
         finish_call (v ! 4) (v ! 5) (interp_callDelegate c rc gasLimit toAddress val data))))))"

definition opStaticcall :: "evm_ctx \<Rightarrow> run_call \<Rightarrow> unit evm" where
  "opStaticcall c rc = bindE (popN 6) (\<lambda>v. bindE (stack_address c (v ! 1)) (\<lambda>toAddress.
     bindE take_messageGasLimit (\<lambda>gasLimit. bindE (read_data (v ! 2) (v ! 3) True) (\<lambda>data.
       finish_call (v ! 4) (v ! 5) (interp_callStatic c rc gasLimit toAddress 0 data)))))"

definition opSelfdestruct :: "evm_ctx \<Rightarrow> unit evm" where
  "opSelfdestruct c = bindE pop (\<lambda>v. bindE (stack_address c v) (interp_selfDestruct c))"

end
