(* ===== verification/DynamicGas.thy ===== *)
theory DynamicGas
  imports Calls
begin

text \<open>
  The dynamic gas handlers: \<open>src/packages/evm/src/opcodes/instructions/gas.ts\<close> and the ones the EIP
  modules install, \<open>opcodes/eips/eip-1283.ts\<close>, \<open>eip-2200.ts\<close>, \<open>eip-2929.ts\<close>. A handler maps the gas charged so
  far to the gas to charge, peeking at the operands and warming addresses and slots on the way. The
  handlers of the EOF instructions are modelled for legacy frames, where they fail at once.
\<close>

section \<open>EIP-2929 access costs\<close>

definition peek :: "nat \<Rightarrow> int list evm" where
  "peek n = onStack (stack_peek n)"

definition peek1 :: "int evm" where
  "peek1 = bindE (peek 1) (\<lambda>v. returnE (v ! 0))"

definition no_witness :: "evm_ctx \<Rightarrow> unit evm" where
  "no_witness c = whenE (eip_active c 6800) witness_unmodelled"

definition eip_fork :: "evm_ctx \<Rightarrow> nat \<Rightarrow> string" where
  "eip_fork c eip = (case getHardforkForEIP (ctx_common c) eip of None \<Rightarrow> ctx_fork c | Some h \<Rightarrow> h)"

definition journal_of :: "run_state \<Rightarrow> journal" where
  "journal_of rs = wl_journal (rs_world rs)"

definition accessAddressEIP2929 :: "evm_ctx \<Rightarrow> address \<Rightarrow> bool \<Rightarrow> bool \<Rightarrow> int evm" where
  "accessAddressEIP2929 c a chargeGas isSelfdestruct =
     (if \<not> eip_active c 2929 then returnE 0
      else bindE (getsE (\<lambda>rs. isWarmedAddress a (journal_of rs))) (\<lambda>warm.
        if \<not> warm then
          seqE (onWorld (on_journal (modifyE (addWarmedAddress a))))
            (if chargeGas \<and> \<not> eip_active c 6800
             then big_param_at c ''coldaccountaccessGas'' (eip_fork c 2929) else returnE 0)
        else if chargeGas \<and> \<not> isSelfdestruct
        then big_param_at c ''warmstoragereadGas'' (eip_fork c 2929)
        else returnE 0))"

definition accessStorageEIP2929 :: "evm_ctx \<Rightarrow> bytes \<Rightarrow> bool \<Rightarrow> bool \<Rightarrow> int evm" where
  "accessStorageEIP2929 c key isSstore chargeGas =
     (if \<not> eip_active c 2929 then returnE 0
      else bindE (getsE (\<lambda>rs. env_address (rs_env rs))) (\<lambda>a.
        bindE (getsE (\<lambda>rs. isWarmedStorage a key (journal_of rs))) (\<lambda>warm.
          if \<not> warm then
            seqE (onWorld (on_journal (addWarmedStorage a key)))
              (if chargeGas \<and> \<not> eip_active c 6800
               then big_param_at c ''coldsloadGas'' (eip_fork c 2929) else returnE 0)
          else if chargeGas \<and> (\<not> isSstore \<or> eip_active c 6800)
          then big_param_at c ''warmstoragereadGas'' (eip_fork c 2929)
          else returnE 0)))"

definition DELEGATION_7702_FLAG :: bytes where
  "DELEGATION_7702_FLAG = [0xef, 0x01, 0x00]"

definition eip7702GasCost :: "evm_ctx \<Rightarrow> address \<Rightarrow> bool \<Rightarrow> int evm" where
  "eip7702GasCost c a charge2929Gas = bindE (onWorld (on_sm (sm_getCode a))) (\<lambda>code.
     if equalsBytes (subarray code 0 3) DELEGATION_7702_FLAG
     then accessAddressEIP2929 c (subarray code 3 24) charge2929Gas False
     else returnE 0)"

section \<open>Handlers of \<open>gas.ts\<close>\<close>

text \<open>\<open>gas += cost\<close>\<close>

definition plus_cost :: "int \<Rightarrow> int evm \<Rightarrow> (int \<Rightarrow> 'a evm) \<Rightarrow> 'a evm" where
  "plus_cost gas cost k = bindE cost (\<lambda>g. k (gas + g))"

definition word_cost :: "evm_ctx \<Rightarrow> string \<Rightarrow> int \<Rightarrow> int evm" where
  "word_cost c name len = bindE (param c name) (\<lambda>p. bindE (liftE (divCeil len 32)) (\<lambda>ws. returnE (p * ws)))"

definition access_cost :: "evm_ctx \<Rightarrow> address \<Rightarrow> int evm" where
  "access_cost c a = (if eip_active c 2929 then accessAddressEIP2929 c a True False else returnE 0)"

type_synonym dynamic_gas = "evm_ctx \<Rightarrow> int \<Rightarrow> int evm"

definition dynamicGasExp :: dynamic_gas where
  "dynamicGasExp c gas = bindE (peek 2) (\<lambda>v.
     let exponent = v ! 1 in
     if exponent = 0 then returnE gas
     else
       let byteLength = div_up (length (toString2 (nat exponent))) 8 in
       if byteLength < 1 \<or> byteLength > 32 then trap OUT_OF_RANGE
       else bindE (param c ''expByteGas'') (\<lambda>p. returnE (gas + int byteLength * p)))"

definition dynamicGasKeccak256 :: dynamic_gas where
  "dynamicGasKeccak256 c gas = bindE (peek 2) (\<lambda>v.
     plus_cost gas (subMemUsage c (v ! 0) (v ! 1)) (\<lambda>gas.
       plus_cost gas (word_cost c ''keccak256WordGas'' (v ! 1)) returnE))"

definition dynamicGasBalance :: dynamic_gas where
  "dynamicGasBalance c gas = bindE peek1 (\<lambda>v. bindE (stack_address c v) (\<lambda>a.
     seqE (no_witness c) (plus_cost gas (access_cost c a) returnE)))"

definition copy_cost :: "evm_ctx \<Rightarrow> int \<Rightarrow> int evm" where
  "copy_cost c len = (if len \<noteq> 0 then word_cost c ''copyGas'' len else returnE 0)"

definition dynamicGasCalldatacopy :: dynamic_gas where
  "dynamicGasCalldatacopy c gas = bindE (peek 3) (\<lambda>v.
     plus_cost gas (subMemUsage c (v ! 0) (v ! 2)) (\<lambda>gas. plus_cost gas (copy_cost c (v ! 2)) returnE))"

definition dynamicGasCodecopy :: dynamic_gas where
  "dynamicGasCodecopy c gas = bindE (peek 3) (\<lambda>v.
     plus_cost gas (subMemUsage c (v ! 0) (v ! 2)) (\<lambda>gas. plus_cost gas (copy_cost c (v ! 2)) (\<lambda>gas.
       bindE (getsE (\<lambda>rs. env_chargeCodeAccesses (rs_env rs))) (\<lambda>charge.
         seqE (whenE (v ! 2 \<noteq> 0 \<and> charge) (no_witness c)) (returnE gas)))))"

definition dynamicGasExtcodesize :: dynamic_gas where
  "dynamicGasExtcodesize c gas = bindE peek1 (\<lambda>v. bindE (stack_address c v) (\<lambda>a.
     seqE (no_witness c) (plus_cost gas (access_cost c a) returnE)))"

definition dynamicGasExtcodecopy :: dynamic_gas where
  "dynamicGasExtcodecopy c gas = bindE (peek 4) (\<lambda>v. bindE (stack_address c (v ! 0)) (\<lambda>a.
     plus_cost gas (subMemUsage c (v ! 1) (v ! 3)) (\<lambda>gas. seqE (no_witness c)
       (plus_cost gas (access_cost c a) (\<lambda>gas. plus_cost gas (copy_cost c (v ! 3)) returnE)))))"

definition dynamicGasReturndatacopy :: dynamic_gas where
  "dynamicGasReturndatacopy c gas = bindE (peek 3) (\<lambda>v. bindE (getsE getReturnDataSize) (\<lambda>n.
     bindE (getsE (\<lambda>rs. env_eof (rs_env rs))) (\<lambda>eof.
       if v ! 1 + v ! 2 > n \<and> \<not> eof then trap OUT_OF_GAS
       else plus_cost gas (subMemUsage c (v ! 0) (v ! 2)) (\<lambda>gas.
              plus_cost gas (copy_cost c (v ! 2)) returnE))))"

definition dynamicGasExtcodehash :: dynamic_gas where
  "dynamicGasExtcodehash c gas = bindE peek1 (\<lambda>v. bindE (stack_address c v) (\<lambda>a.
     seqE (no_witness c) (plus_cost gas (access_cost c a) returnE)))"

definition dynamicGasMload :: dynamic_gas where
  "dynamicGasMload c gas = bindE peek1 (\<lambda>pos. plus_cost gas (subMemUsage c pos 32) returnE)"

definition dynamicGasMstore :: dynamic_gas where
  "dynamicGasMstore c gas = bindE peek1 (\<lambda>offset. plus_cost gas (subMemUsage c offset 32) returnE)"

definition dynamicGasMstore8 :: dynamic_gas where
  "dynamicGasMstore8 c gas = bindE peek1 (\<lambda>offset. plus_cost gas (subMemUsage c offset 1) returnE)"

definition dynamicGasSload :: dynamic_gas where
  "dynamicGasSload c gas = bindE peek1 (\<lambda>key. bindE (word_buf c key) (\<lambda>keyBuf. seqE (no_witness c)
     (if eip_active c 2929 then plus_cost gas (accessStorageEIP2929 c keyBuf False True) returnE
      else returnE gas)))"

text \<open>The checks and loads all SSTORE handlers start with: key bytes, value bytes, current storage.\<close>

definition sstore_operands :: "evm_ctx \<Rightarrow> (bytes \<Rightarrow> bytes \<Rightarrow> bytes \<Rightarrow> int evm) \<Rightarrow> int evm" where
  "sstore_operands c k = bindE (getsE (\<lambda>rs. env_isStatic (rs_env rs))) (\<lambda>static.
     if static then trap STATIC_STATE_CHANGE
     else bindE (peek 2) (\<lambda>v. bindE (word_buf c (v ! 0)) (\<lambda>keyBytes.
       bindE (stored_value c (v ! 1)) (\<lambda>val. bindE (storageLoad keyBytes False) (\<lambda>cur.
         k keyBytes val (setLengthLeftStorage cur))))))"

definition dynamicGasSstore :: dynamic_gas where
  "dynamicGasSstore c gas = sstore_operands c (\<lambda>keyBytes val currentStorage.
     plus_cost gas (updateSstoreGas c currentStorage (setLengthLeftStorage val)) (\<lambda>gas. seqE (no_witness c)
       (if eip_active c 2929 then plus_cost gas (accessStorageEIP2929 c keyBytes True True) returnE
        else returnE gas)))"

definition dynamicGasMcopy :: dynamic_gas where
  "dynamicGasMcopy c gas = bindE (peek 3) (\<lambda>v.
     let wordsCopied = (v ! 2 + 31) sdiv 32; gas = gas + 3 * wordsCopied in
     plus_cost gas (subMemUsage c (v ! 1) (v ! 2)) (\<lambda>gas. plus_cost gas (subMemUsage c (v ! 0) (v ! 2)) returnE))"

definition dynamicGasLog :: dynamic_gas where
  "dynamicGasLog c gas = bindE (getsE (\<lambda>rs. env_isStatic (rs_env rs))) (\<lambda>static.
     if static then trap STATIC_STATE_CHANGE
     else bindE (peek 2) (\<lambda>v. bindE (getsE rs_opCode) (\<lambda>opCode.
       let topicsCount = int opCode - 0xa0 in
       if topicsCount < 0 \<or> topicsCount > 4 then trap OUT_OF_RANGE
       else plus_cost gas (subMemUsage c (v ! 0) (v ! 1)) (\<lambda>gas.
         bindE (param c ''logTopicGas'') (\<lambda>t. bindE (param c ''logDataGas'') (\<lambda>d.
           returnE (gas + (t * topicsCount + v ! 1 * d))))))))"

text \<open>\<open>interpreter.getGasLeft()\<close>\<close>

definition gasLeft :: "int evm" where
  "gasLeft = getsE rs_gasLeft"

definition set_messageGasLimit :: "int \<Rightarrow> unit evm" where
  "set_messageGasLimit g = modifyE (\<lambda>rs. rs\<lparr>rs_messageGasLimit := Some g\<rparr>)"

definition create_limit :: "evm_ctx \<Rightarrow> int \<Rightarrow> int evm" where
  "create_limit c gas = bindE gasLeft (\<lambda>left.
     seqE (set_messageGasLimit (maxCallGas c (left - gas) (left - gas))) (returnE gas))"

definition dynamicGasCreate :: dynamic_gas where
  "dynamicGasCreate c gas = bindE (getsE (\<lambda>rs. env_isStatic (rs_env rs))) (\<lambda>static.
     if static then trap STATIC_STATE_CHANGE
     else bindE (peek 3) (\<lambda>v. bindE (getsE (\<lambda>rs. env_address (rs_env rs))) (\<lambda>a.
       plus_cost gas (if eip_active c 2929 then accessAddressEIP2929 c a False False else returnE 0) (\<lambda>gas.
         plus_cost gas (if eip_active c 3860
             then bindE (big_param_at c ''initCodeWordGas'' (eip_fork c 3860)) (\<lambda>p. returnE (((v ! 2 + 31) sdiv 32) * p))
             else returnE 0) (\<lambda>gas.
           plus_cost gas (subMemUsage c (v ! 1) (v ! 2)) (create_limit c))))))"

definition dynamicGasCreate2 :: dynamic_gas where
  "dynamicGasCreate2 c gas = bindE (getsE (\<lambda>rs. env_isStatic (rs_env rs))) (\<lambda>static.
     if static then trap STATIC_STATE_CHANGE
     else bindE (peek 4) (\<lambda>v.
       plus_cost gas (subMemUsage c (v ! 1) (v ! 2)) (\<lambda>gas. bindE (getsE (\<lambda>rs. env_address (rs_env rs))) (\<lambda>a.
         plus_cost gas (if eip_active c 2929 then accessAddressEIP2929 c a False False else returnE 0) (\<lambda>gas.
           plus_cost gas (if eip_active c 3860
               then bindE (param c ''initCodeWordGas'') (\<lambda>p. returnE (((v ! 2 + 31) sdiv 32) * p))
               else returnE 0) (\<lambda>gas.
             plus_cost gas (word_cost c ''keccak256WordGas'' (v ! 2)) (create_limit c)))))))"

text \<open>The part the four call handlers share after the memory costs: the accesses of EIP-2929 and 7702.\<close>

definition call_access :: "evm_ctx \<Rightarrow> int \<Rightarrow> address \<Rightarrow> (int \<Rightarrow> int evm) \<Rightarrow> int evm" where
  "call_access c gas a k = seqE (no_witness c) (plus_cost gas (access_cost c a) (\<lambda>gas.
     plus_cost gas (if eip_active c 7702 then eip7702GasCost c a True else returnE 0) k))"

definition call_memory :: "evm_ctx \<Rightarrow> int \<Rightarrow> int \<Rightarrow> int \<Rightarrow> int \<Rightarrow> int \<Rightarrow> (int \<Rightarrow> int evm) \<Rightarrow> int evm" where
  "call_memory c gas inOffset inLength outOffset outLength k =
     plus_cost gas (subMemUsage c inOffset inLength) (\<lambda>gas. plus_cost gas (subMemUsage c outOffset outLength) k)"

definition dynamicGasCall :: dynamic_gas where
  "dynamicGasCall c gas = bindE (peek 7) (\<lambda>v. bindE (stack_address c (v ! 1)) (\<lambda>toAddress.
     bindE (getsE (\<lambda>rs. env_isStatic (rs_env rs))) (\<lambda>static.
       let val = v ! 2 in
       if static \<and> val \<noteq> 0 then trap OUT_OF_GAS
       else call_memory c gas (v ! 3) (v ! 4) (v ! 5) (v ! 6) (\<lambda>gas.
         call_access c gas toAddress (\<lambda>gas.
           plus_cost gas (if val \<noteq> 0 \<and> \<not> eip_active c 6800 then param c ''callValueTransferGas'' else returnE 0) (\<lambda>gas.
             bindE (onWorld (on_sm (sm_getAccount toAddress))) (\<lambda>acc.
               plus_cost gas
                 (if fork_gte c ''spuriousDragon'' then
                    (if (case acc of None \<Rightarrow> True | Some b \<Rightarrow> account_isEmpty b) \<and> val \<noteq> 0
                     then param c ''callNewAccountGas'' else returnE 0)
                  else if acc = None then param c ''callNewAccountGas'' else returnE 0)
                 (\<lambda>gas. bindE gasLeft (\<lambda>left.
                   let gasLimit = maxCallGas c (v ! 0) (left - gas) in
                   if gasLimit > left - gas then trap OUT_OF_GAS
                   else if gas > left then trap OUT_OF_GAS
                   else seqE (set_messageGasLimit gasLimit) (returnE gas)))))))))) "

definition dynamicGasCallcode :: dynamic_gas where
  "dynamicGasCallcode c gas = bindE (peek 7) (\<lambda>v. bindE (stack_address c (v ! 1)) (\<lambda>toAddress.
     call_memory c gas (v ! 3) (v ! 4) (v ! 5) (v ! 6) (\<lambda>gas.
       call_access c gas toAddress (\<lambda>gas.
         plus_cost gas (if v ! 2 \<noteq> 0 then param c ''callValueTransferGas'' else returnE 0) (\<lambda>gas.
           bindE gasLeft (\<lambda>left.
             let gasLimit = maxCallGas c (v ! 0) (left - gas) in
             if gasLimit > left - gas then trap OUT_OF_GAS
             else seqE (set_messageGasLimit gasLimit) (returnE gas)))))))"

definition dynamicGasReturn :: dynamic_gas where
  "dynamicGasReturn c gas = bindE (peek 2) (\<lambda>v. plus_cost gas (subMemUsage c (v ! 0) (v ! 1)) returnE)"

definition dynamicGasDelegatecall :: dynamic_gas where
  "dynamicGasDelegatecall c gas = bindE (peek 6) (\<lambda>v. bindE (stack_address c (v ! 1)) (\<lambda>toAddress.
     call_memory c gas (v ! 2) (v ! 3) (v ! 4) (v ! 5) (\<lambda>gas.
       call_access c gas toAddress (\<lambda>gas. bindE gasLeft (\<lambda>left.
         let gasLimit = maxCallGas c (v ! 0) (left - gas) in
         if gasLimit > left - gas then trap OUT_OF_GAS
         else seqE (set_messageGasLimit gasLimit) (returnE gas))))))"

definition dynamicGasStaticcall :: dynamic_gas where
  "dynamicGasStaticcall c gas = bindE (peek 6) (\<lambda>v.
     call_memory c gas (v ! 2) (v ! 3) (v ! 4) (v ! 5) (\<lambda>gas. bindE (stack_address c (v ! 1)) (\<lambda>toAddress.
       call_access c gas toAddress (\<lambda>gas. bindE gasLeft (\<lambda>left.
         seqE (set_messageGasLimit (maxCallGas c (v ! 0) (left - gas))) (returnE gas))))))"

definition dynamicGasRevert :: dynamic_gas where
  "dynamicGasRevert c gas = bindE (peek 2) (\<lambda>v. plus_cost gas (subMemUsage c (v ! 0) (v ! 1)) returnE)"

text \<open>Whether SELFDESTRUCT pays for a new account (\<open>deductGas\<close>).\<close>

definition new_account_charged :: "evm_ctx \<Rightarrow> address \<Rightarrow> int \<Rightarrow> bool evm" where
  "new_account_charged c toAddress balance =
     (if fork_gte c ''spuriousDragon'' then
        (if balance > 0 then bindE (onWorld (on_sm (sm_getAccount toAddress)))
           (\<lambda>acc. returnE (case acc of None \<Rightarrow> True | Some b \<Rightarrow> account_isEmpty b))
         else returnE False)
      else if fork_gte c ''tangerineWhistle'' then
        bindE (onWorld (on_sm (sm_getAccount toAddress))) (\<lambda>acc. returnE (acc = None))
      else returnE False)"

definition dynamicGasSelfdestruct :: dynamic_gas where
  "dynamicGasSelfdestruct c gas = bindE (getsE (\<lambda>rs. env_isStatic (rs_env rs))) (\<lambda>static.
     if static then trap STATIC_STATE_CHANGE
     else bindE peek1 (\<lambda>v. bindE (stack_address c v) (\<lambda>toAddress.
       bindE (getsE (\<lambda>rs. env_address (rs_env rs))) (\<lambda>self. bindE (getExternalBalance self) (\<lambda>balance.
         bindE (new_account_charged c toAddress balance)
           (\<lambda>deductGas. plus_cost gas (if deductGas then param c ''callNewAccountGas'' else returnE 0) (\<lambda>gas.
             bindE (getsE (\<lambda>rs. env_chargeCodeAccesses (rs_env rs))) (\<lambda>charge.
               seqE (whenE charge (no_witness c))
                 (plus_cost gas (if eip_active c 2929 then accessAddressEIP2929 c toAddress True True else returnE 0)
                    returnE))))))))) "

text \<open>The gas handlers of EOF instructions in a legacy frame.\<close>

definition eof_only :: "'a evm" where
  "eof_only = bindE (getsE (\<lambda>rs. env_eof (rs_env rs))) (\<lambda>eof.
     if \<not> eof then trap INVALID_OPCODE else throwE (PlainError ''EOF frames are not modelled''))"

section \<open>EIP-1283 and EIP-2200\<close>

definition sstore1283_dirty :: "evm_ctx \<Rightarrow> string \<Rightarrow> bytes \<Rightarrow> bytes \<Rightarrow> bytes \<Rightarrow> unit evm" where
  "sstore1283_dirty c hf original current val =
     seqE (if original \<noteq> [] then
             (if current = [] then bindE (big_param_at c ''netSstoreClearRefundGas'' hf) subRefund
              else if val = [] then bindE (big_param_at c ''netSstoreClearRefundGas'' hf) refundGas
              else returnE ())
           else returnE ())
       (if equalsBytes original val then
          (if original = [] then bindE (big_param_at c ''netSstoreResetClearRefundGas'' hf) refundGas
           else bindE (big_param_at c ''netSstoreResetRefundGas'' hf) refundGas)
        else returnE ())"

definition dynamicGasSstoreEIP1283 :: dynamic_gas where
  "dynamicGasSstoreEIP1283 c gas = sstore_operands c (\<lambda>keyBytes val current.
     bindE (storageLoad keyBytes True) (\<lambda>orig.
       let original = setLengthLeftStorage orig; hf = eip_fork c 1283 in
       if equalsBytes current val then plus_cost gas (big_param_at c ''netSstoreNoopGas'' hf) returnE
       else if equalsBytes original current then
         (if original = [] then plus_cost gas (big_param_at c ''netSstoreInitGas'' hf) returnE
          else seqE (if val = [] then bindE (big_param_at c ''netSstoreClearRefundGas'' hf) refundGas else returnE ())
                 (plus_cost gas (big_param_at c ''netSstoreCleanGas'' hf) returnE))
       else seqE (sstore1283_dirty c hf original current val)
              (plus_cost gas (big_param_at c ''netSstoreDirtyGas'' hf) returnE)))"

text \<open>The cold surcharge of EIP-2929, charged on every path.\<close>

definition sstore_cold :: "evm_ctx \<Rightarrow> bytes \<Rightarrow> int evm" where
  "sstore_cold c keyBytes =
     (if eip_active c 2929 then
        bindE (getsE (\<lambda>rs. env_address (rs_env rs))) (\<lambda>a.
          bindE (getsE (\<lambda>rs. isWarmedStorage a keyBytes (journal_of rs))) (\<lambda>warm.
            if \<not> warm then
              seqE (onWorld (on_journal (addWarmedStorage a keyBytes)))
                (if \<not> eip_active c 6800 then param c ''coldsloadGas'' else returnE 0)
            else returnE 0))
      else returnE 0)"

definition sstore2200_dirty :: "evm_ctx \<Rightarrow> int \<Rightarrow> int \<Rightarrow> bytes \<Rightarrow> bytes \<Rightarrow> bytes \<Rightarrow> unit evm" where
  "sstore2200_dirty c warmStorageReadCost sstoreResetGas original current val =
     seqE (if original \<noteq> [] then
             (if current = [] then bindE (param c ''sstoreClearRefundEIP2200Gas'') subRefund
              else if val = [] then bindE (param c ''sstoreClearRefundEIP2200Gas'') refundGas
              else returnE ())
           else returnE ())
       (if equalsBytes original val then
          (if original = []
           then bindE (param c ''sstoreInitEIP2200Gas'') (\<lambda>g. refundGas (g - warmStorageReadCost))
           else refundGas (sstoreResetGas - warmStorageReadCost))
        else returnE ())"

definition dynamicGasSstoreEIP2200 :: dynamic_gas where
  "dynamicGasSstoreEIP2200 c gas = sstore_operands c (\<lambda>keyBytes v current.
     bindE (storageLoad keyBytes True) (\<lambda>orig.
       let original = setLengthLeftStorage orig; val = setLengthLeftStorage v in
       bindE gasLeft (\<lambda>left. bindE (param c ''sstoreSentryEIP2200Gas'') (\<lambda>sentry.
         if left \<le> sentry then trap OUT_OF_GAS
         else bindE (sstore_cold c keyBytes) (\<lambda>cold.
           bindE (param c ''sstoreNoopEIP2200Gas'') (\<lambda>warmStorageReadCost.
             bindE (param c ''sstoreCleanEIP2200Gas'') (\<lambda>sstoreResetGas.
               if equalsBytes current val then returnE (gas + cold + warmStorageReadCost)
               else if equalsBytes original current then
                 (if original = []
                  then bindE (param c ''sstoreInitEIP2200Gas'') (\<lambda>g. returnE (gas + cold + g))
                  else seqE (if val = [] then bindE (param c ''sstoreClearRefundEIP2200Gas'') refundGas else returnE ())
                         (returnE (gas + cold + sstoreResetGas)))
               else seqE (sstore2200_dirty c warmStorageReadCost sstoreResetGas original current val)
                      (returnE (gas + cold + warmStorageReadCost)))))))))"

end
