(* ===== verification/JumpTables.thy ===== *)
theory JumpTables
  imports DynamicGas
begin

text \<open>
  The jump tables: \<open>src/packages/evm/src/opcodes/types.ts\<close> (operations), \<open>tables/*.ts\<close> (one table per
  hardfork, each built on the previous one), \<open>eips/*.ts\<close> (the enablers), \<open>constants.ts\<close> (names) and
  \<open>codes.ts\<close> (\<open>buildJumpTable\<close>). A table maps an opcode to its operation; an operation holds the
  handler itself. The instructions of EOF code all start with the same guard, which fails in a
  legacy frame: \<open>eof_handler\<close> is that guard.
\<close>

section \<open>Operations (\<open>types.ts\<close>)\<close>

type_synonym execute = "evm_ctx \<Rightarrow> run_call \<Rightarrow> unit evm"

record operation =
  op_opcode :: nat
  op_name :: string
  op_fullName :: string
  op_execute :: execute
  op_constantGas :: int
  op_dynamicGas :: "dynamic_gas option"
  op_minStack :: nat
  op_maxStack :: nat
  op_isAsync :: bool
  op_undefined :: bool

type_synonym jump_table = "nat \<Rightarrow> operation"

definition makeOperation :: "execute \<Rightarrow> nat \<Rightarrow> nat \<Rightarrow> bool \<Rightarrow> dynamic_gas option \<Rightarrow> operation" where
  "makeOperation execute minStack maxStack isAsync dynamicGas =
     \<lparr>op_opcode = 0, op_name = '''', op_fullName = '''', op_execute = execute, op_constantGas = 0,
      op_dynamicGas = dynamicGas, op_minStack = minStack, op_maxStack = maxStack, op_isAsync = isAsync,
      op_undefined = False\<rparr>"

definition makeUndefinedOperation :: operation where
  "makeUndefinedOperation =
     \<lparr>op_opcode = 0, op_name = ''INVALID'', op_fullName = ''INVALID'',
      op_execute = (\<lambda>_ _. throwE (PlainError ''Invalid opcode'')), op_constantGas = 0,
      op_dynamicGas = None, op_minStack = 0, op_maxStack = 0, op_isAsync = False, op_undefined = True\<rparr>"

definition plain :: "unit evm \<Rightarrow> execute" where
  "plain h = (\<lambda>_ _. h)"

definition with_ctx :: "(evm_ctx \<Rightarrow> unit evm) \<Rightarrow> execute" where
  "with_ctx h = (\<lambda>c _. h c)"

definition eof_handler :: execute where
  "eof_handler = (\<lambda>_ _. eof_only)"

definition eof_gas :: dynamic_gas where
  "eof_gas = (\<lambda>_ _. eof_only)"

definition dynamicGasReturncontract :: dynamic_gas where
  "dynamicGasReturncontract c gas = bindE (peek 2) (\<lambda>v. plus_cost gas (subMemUsage c (v ! 0) (v ! 1)) returnE)"

text \<open>\<open>table[op] = ...\<close> for each entry in turn; no opcode occurs twice in a list.\<close>

definition set_ops :: "(nat \<times> operation) list \<Rightarrow> jump_table \<Rightarrow> jump_table" where
  "set_ops es table = (\<lambda>i. case map_of es i of Some op \<Rightarrow> op | None \<Rightarrow> table i)"

section \<open>Tables by hardfork (\<open>tables/*.ts\<close>)\<close>

text \<open>The entries of the Frontier table by the ranges of its file: arithmetic and logic, environment and
  block, stack and control flow, system operations.\<close>

definition frontier_logic :: "(nat \<times> operation) list" where
  "frontier_logic = [
     (0x00, makeOperation (plain opStop) 0 1024 False None),
     (0x01, makeOperation (plain opAdd) 2 1023 False None),
     (0x02, makeOperation (plain opMul) 2 1023 False None),
     (0x03, makeOperation (plain opSub) 2 1023 False None),
     (0x04, makeOperation (plain opDiv) 2 1023 False None),
     (0x05, makeOperation (plain opSdiv) 2 1023 False None),
     (0x06, makeOperation (plain opMod) 2 1023 False None),
     (0x07, makeOperation (plain opSmod) 2 1023 False None),
     (0x08, makeOperation (plain opAddmod) 3 1022 False None),
     (0x09, makeOperation (plain opMulmod) 3 1022 False None),
     (0x0a, makeOperation (plain opExp) 2 1023 False (Some dynamicGasExp)),
     (0x0b, makeOperation (plain opSignextend) 2 1023 False None),
     (0x10, makeOperation (plain opLt) 2 1023 False None),
     (0x11, makeOperation (plain opGt) 2 1023 False None),
     (0x12, makeOperation (plain opSlt) 2 1023 False None),
     (0x13, makeOperation (plain opSgt) 2 1023 False None),
     (0x14, makeOperation (plain opEq) 2 1023 False None),
     (0x15, makeOperation (plain opIszero) 1 1024 False None),
     (0x16, makeOperation (plain opAnd) 2 1023 False None),
     (0x17, makeOperation (plain opOr) 2 1023 False None),
     (0x18, makeOperation (plain opXor) 2 1023 False None),
     (0x19, makeOperation (plain opNot) 1 1024 False None),
     (0x1a, makeOperation (plain opByte) 2 1023 False None),
     (0x20, makeOperation (with_ctx opKeccak256) 2 1023 False (Some dynamicGasKeccak256))]"

definition frontier_environment :: "(nat \<times> operation) list" where
  "frontier_environment = [
     (0x30, makeOperation (with_ctx opAddress) 0 1025 False None),
     (0x31, makeOperation (with_ctx opBalance) 1 1024 True (Some dynamicGasBalance)),
     (0x32, makeOperation (with_ctx opOrigin) 0 1025 False None),
     (0x33, makeOperation (with_ctx opCaller) 0 1025 False None),
     (0x34, makeOperation (plain opCallvalue) 0 1025 False None),
     (0x35, makeOperation (with_ctx opCalldataload) 1 1024 False None),
     (0x36, makeOperation (plain opCalldatasize) 0 1025 False None),
     (0x37, makeOperation (plain opCalldatacopy) 3 1021 False (Some dynamicGasCalldatacopy)),
     (0x38, makeOperation (plain opCodesize) 0 1025 False None),
     (0x39, makeOperation (plain opCodecopy) 3 1021 False (Some dynamicGasCodecopy)),
     (0x3a, makeOperation (plain opGasprice) 0 1025 False None),
     (0x3b, makeOperation (with_ctx opExtcodesize) 1 1024 True (Some dynamicGasExtcodesize)),
     (0x3c, makeOperation (with_ctx opExtcodecopy) 4 1020 True (Some dynamicGasExtcodecopy)),
     (0x40, makeOperation (with_ctx opBlockhash) 1 1024 True None),
     (0x41, makeOperation (with_ctx opCoinbase) 0 1025 False None),
     (0x42, makeOperation (plain opTimestamp) 0 1025 False None),
     (0x43, makeOperation (plain opNumber) 0 1025 False None),
     (0x44, makeOperation (with_ctx opDifficulty) 0 1025 False None),
     (0x45, makeOperation (plain opGaslimit) 0 1025 False None)]"

definition frontier_flow :: "(nat \<times> operation) list" where
  "frontier_flow = [
     (0x50, makeOperation (plain opPop) 1 1023 False None),
     (0x51, makeOperation (with_ctx opMload) 1 1024 False (Some dynamicGasMload)),
     (0x52, makeOperation (with_ctx opMstore) 2 1022 False (Some dynamicGasMstore)),
     (0x53, makeOperation (with_ctx opMstore8) 2 1022 False (Some dynamicGasMstore8)),
     (0x54, makeOperation (with_ctx opSload) 1 1024 True (Some dynamicGasSload)),
     (0x55, makeOperation (with_ctx opSstore) 2 1022 True (Some dynamicGasSstore)),
     (0x56, makeOperation (with_ctx opJump) 1 1023 False None),
     (0x57, makeOperation (with_ctx opJumpi) 2 1022 False None),
     (0x58, makeOperation (plain opPc) 0 1025 False None),
     (0x59, makeOperation (plain opMsize) 0 1025 False None),
     (0x5a, makeOperation (plain opGas) 0 1025 False None),
     (0x5b, makeOperation (plain opJumpdest) 0 1024 False None)]"

definition frontier_system :: "(nat \<times> operation) list" where
  "frontier_system = [
     (0xf0, makeOperation opCreate 3 1022 True (Some dynamicGasCreate)),
     (0xf1, makeOperation opCall 7 1018 True (Some dynamicGasCall)),
     (0xf2, makeOperation opCallcode 7 1018 True (Some dynamicGasCallcode)),
     (0xf3, makeOperation (plain opReturn) 2 1022 False (Some dynamicGasReturn)),
     (0xfe, makeOperation (plain opInvalid) 0 1024 False None),
     (0xff, makeOperation (with_ctx opSelfdestruct) 1 1023 True (Some dynamicGasSelfdestruct))]"

definition frontier_entries :: "(nat \<times> operation) list" where
  "frontier_entries = frontier_logic @ frontier_environment @ frontier_flow @ frontier_system"

text \<open>The four loops of the Frontier table fill the ranges of PUSH, DUP, SWAP and LOG.\<close>

definition createFrontierJumpTable :: jump_table where
  "createFrontierJumpTable = set_ops frontier_entries (\<lambda>i.
     if 0x60 \<le> i \<and> i \<le> 0x7f then makeOperation (with_ctx opPush) 0 1025 False None
     else if 0x80 \<le> i \<and> i \<le> 0x8f then
       makeOperation (plain opDup) (i - 0x80 + 1) (1025 - (i - 0x80 + 1)) False None
     else if 0x90 \<le> i \<and> i \<le> 0x9f then makeOperation (plain opSwap) (i - 0x90 + 2) 1024 False None
     else if 0xa0 \<le> i \<and> i \<le> 0xa4 then
       makeOperation (with_ctx opLog) (2 + (i - 0xa0)) (1022 - (i - 0xa0)) False (Some dynamicGasLog)
     else makeUndefinedOperation)"

definition createHomesteadJumpTable :: jump_table where
  "createHomesteadJumpTable = set_ops [
     (0xf4, makeOperation opDelegatecall 6 1019 True (Some dynamicGasDelegatecall))]
     createFrontierJumpTable"

definition createTangerineWhistleJumpTable :: jump_table where
  "createTangerineWhistleJumpTable = createHomesteadJumpTable"

definition createByzantiumJumpTable :: jump_table where
  "createByzantiumJumpTable = set_ops [
     (0xfd, makeOperation (plain opRevert) 2 1022 False (Some dynamicGasRevert)),
     (0xfa, makeOperation opStaticcall 6 1019 True (Some dynamicGasStaticcall)),
     (0x3d, makeOperation (plain opReturndatasize) 0 1025 False None),
     (0x3e, makeOperation (plain opReturndatacopy) 3 1021 False (Some dynamicGasReturndatacopy))]
     createTangerineWhistleJumpTable"

definition createConstantinopleJumpTable :: jump_table where
  "createConstantinopleJumpTable = set_ops [
     (0x1b, makeOperation (plain opShl) 2 1023 False None),
     (0x1c, makeOperation (plain opShr) 2 1023 False None),
     (0x1d, makeOperation (plain opSar) 2 1023 False None),
     (0x3f, makeOperation (with_ctx opExtcodehash) 1 1024 True (Some dynamicGasExtcodehash)),
     (0xf5, makeOperation opCreate2 4 1021 True (Some dynamicGasCreate2))]
     createByzantiumJumpTable"

definition createIstanbulJumpTable :: jump_table where
  "createIstanbulJumpTable = set_ops [
     (0x46, makeOperation (with_ctx opChainid) 0 1025 False None),
     (0x47, makeOperation (plain opSelfbalance) 0 1025 False None)]
     createConstantinopleJumpTable"

definition createBerlinJumpTable :: jump_table where
  "createBerlinJumpTable = createIstanbulJumpTable"

definition createLondonJumpTable :: jump_table where
  "createLondonJumpTable = set_ops [
     (0x48, makeOperation (plain opBasefee) 0 1025 False None)]
     createBerlinJumpTable"

definition createParisJumpTable :: jump_table where
  "createParisJumpTable = createLondonJumpTable"

definition createShanghaiJumpTable :: jump_table where
  "createShanghaiJumpTable = set_ops [
     (0x5f, makeOperation (plain opPush0) 0 1025 False None)]
     createParisJumpTable"

definition createCancunJumpTable :: jump_table where
  "createCancunJumpTable = set_ops [
     (0x5c, makeOperation (with_ctx opTload) 1 1024 False None),
     (0x5d, makeOperation (with_ctx opTstore) 2 1022 False None),
     (0x5e, makeOperation (with_ctx opMcopy) 3 1021 False (Some dynamicGasMcopy)),
     (0x49, makeOperation (plain opBlobhash) 1 1024 False None),
     (0x4a, makeOperation (plain opBlobbasefee) 0 1025 False None)]
     createShanghaiJumpTable"

definition createOsakaJumpTable :: jump_table where
  "createOsakaJumpTable = set_ops [
     (0xe0, makeOperation eof_handler 0 1024 False None),
     (0xe1, makeOperation eof_handler 1 1023 False None),
     (0xe2, makeOperation eof_handler 1 1023 False None),
     (0xe3, makeOperation eof_handler 0 1024 False None),
     (0xe4, makeOperation eof_handler 0 1024 False None),
     (0xe5, makeOperation eof_handler 0 1024 False None),
     (0xe6, makeOperation eof_handler 1 1024 False None),
     (0xe7, makeOperation eof_handler 2 1024 False None),
     (0xe8, makeOperation eof_handler 3 1024 False None),
     (0xd0, makeOperation eof_handler 1 1024 False None),
     (0xd1, makeOperation eof_handler 0 1025 False None),
     (0xd2, makeOperation eof_handler 0 1025 False None),
     (0xd3, makeOperation eof_handler 3 1021 False (Some eof_gas)),
     (0xf7, makeOperation eof_handler 1 1024 False None),
     (0xf8, makeOperation eof_handler 4 1021 True (Some eof_gas)),
     (0xf9, makeOperation eof_handler 3 1022 True (Some eof_gas)),
     (0xfb, makeOperation eof_handler 3 1022 True (Some eof_gas)),
     (0xec, makeOperation eof_handler 4 1021 True (Some eof_gas)),
     (0xee, makeOperation eof_handler 2 1022 True (Some dynamicGasReturncontract)),
     (0x1e, makeOperation (plain opClz) 1 1024 False None)]
     createCancunJumpTable"

definition jumpTableFactories :: "(string \<times> jump_table) list" where
  "jumpTableFactories = [
     (''chainstart'', createFrontierJumpTable),
     (''frontier'', createFrontierJumpTable),
     (''dao'', createFrontierJumpTable),
     (''homestead'', createHomesteadJumpTable),
     (''tangerinewhistle'', createTangerineWhistleJumpTable),
     (''spuriousdragon'', createTangerineWhistleJumpTable),
     (''byzantium'', createByzantiumJumpTable),
     (''constantinople'', createConstantinopleJumpTable),
     (''petersburg'', createConstantinopleJumpTable),
     (''istanbul'', createIstanbulJumpTable),
     (''muirglacier'', createIstanbulJumpTable),
     (''berlin'', createBerlinJumpTable),
     (''london'', createLondonJumpTable),
     (''arrowglacier'', createLondonJumpTable),
     (''grayglacier'', createLondonJumpTable),
     (''paris'', createParisJumpTable),
     (''merge'', createParisJumpTable),
     (''mergenetsplitblock'', createParisJumpTable),
     (''shanghai'', createShanghaiJumpTable),
     (''cancun'', createCancunJumpTable),
     (''prague'', createCancunJumpTable),
     (''osaka'', createOsakaJumpTable),
     (''bpo1'', createOsakaJumpTable),
     (''bpo2'', createOsakaJumpTable),
     (''bpo3'', createOsakaJumpTable),
     (''bpo4'', createOsakaJumpTable),
     (''bpo5'', createOsakaJumpTable)]"

text \<open>\<open>toLowerCase\<close> on ASCII text.\<close>

definition lower_char :: "char \<Rightarrow> char" where
  "lower_char ch = (let n = (of_char ch :: nat) in if 65 \<le> n \<and> n \<le> 90 then char_of (n + 32) else ch)"

definition toLowerCase :: "string \<Rightarrow> string" where
  "toLowerCase s = map lower_char s"

definition getJumpTableForHardfork :: "string \<Rightarrow> exn + jump_table" where
  "getJumpTableForHardfork hardfork = (case map_of jumpTableFactories (toLowerCase hardfork) of
     None \<Rightarrow> Inl (PlainError (''Unknown hardfork: '' @ hardfork)) | Some t \<Rightarrow> Inr t)"

section \<open>Enablers (\<open>eips/*.ts\<close>)\<close>

definition set_dynamicGas :: "nat \<Rightarrow> dynamic_gas \<Rightarrow> jump_table \<Rightarrow> jump_table" where
  "set_dynamicGas code g table = table(code := (table code)\<lparr>op_dynamicGas := Some g\<rparr>)"

definition enableEIP1283 :: "jump_table \<Rightarrow> jump_table" where
  "enableEIP1283 table = set_dynamicGas 0x55 dynamicGasSstoreEIP1283 table"

definition enableEIP2200 :: "jump_table \<Rightarrow> jump_table" where
  "enableEIP2200 table = set_dynamicGas 0x55 dynamicGasSstoreEIP2200 table"

definition enableEIP2929 :: "jump_table \<Rightarrow> jump_table" where
  "enableEIP2929 table = table"

definition enableEIP1153 :: "jump_table \<Rightarrow> jump_table" where
  "enableEIP1153 = set_ops [
     (0x5c, makeOperation (with_ctx opTload) 1 1024 False None),
     (0x5d, makeOperation (with_ctx opTstore) 2 1022 False None)]"

definition enableEIP3198 :: "jump_table \<Rightarrow> jump_table" where
  "enableEIP3198 = set_ops [
     (0x48, makeOperation (plain opBasefee) 0 1025 False None)]"

definition enableEIP3855 :: "jump_table \<Rightarrow> jump_table" where
  "enableEIP3855 = set_ops [
     (0x5f, makeOperation (plain opPush0) 0 1025 False None)]"

definition enableEIP4844 :: "jump_table \<Rightarrow> jump_table" where
  "enableEIP4844 = set_ops [
     (0x49, makeOperation (plain opBlobhash) 1 1024 False None)]"

definition enableEIP5656 :: "jump_table \<Rightarrow> jump_table" where
  "enableEIP5656 = set_ops [
     (0x5e, makeOperation (with_ctx opMcopy) 3 1021 False None)]"

definition enableEIP7516 :: "jump_table \<Rightarrow> jump_table" where
  "enableEIP7516 = set_ops [
     (0x4a, makeOperation (plain opBlobbasefee) 0 1025 False None)]"

definition enableEIP663 :: "jump_table \<Rightarrow> jump_table" where
  "enableEIP663 = set_ops [
     (0xe6, makeOperation eof_handler 1 1024 False None),
     (0xe7, makeOperation eof_handler 2 1024 False None),
     (0xe8, makeOperation eof_handler 3 1024 False None)]"

definition enableEIP4200 :: "jump_table \<Rightarrow> jump_table" where
  "enableEIP4200 = set_ops [
     (0xe0, makeOperation eof_handler 0 1024 False None),
     (0xe1, makeOperation eof_handler 1 1023 False None),
     (0xe2, makeOperation eof_handler 1 1023 False None)]"

definition enableEIP4750 :: "jump_table \<Rightarrow> jump_table" where
  "enableEIP4750 = set_ops [
     (0xe3, makeOperation eof_handler 0 1024 False None),
     (0xe4, makeOperation eof_handler 0 1024 False None)]"

definition enableEIP6206 :: "jump_table \<Rightarrow> jump_table" where
  "enableEIP6206 = set_ops [
     (0xe5, makeOperation eof_handler 0 1024 False None)]"

definition enableEIP7069 :: "jump_table \<Rightarrow> jump_table" where
  "enableEIP7069 = set_ops [
     (0xf7, makeOperation eof_handler 1 1024 False None),
     (0xf8, makeOperation eof_handler 4 1021 True None),
     (0xf9, makeOperation eof_handler 3 1022 True None),
     (0xfb, makeOperation eof_handler 3 1022 True None)]"

definition enableEIP7480 :: "jump_table \<Rightarrow> jump_table" where
  "enableEIP7480 = set_ops [
     (0xd0, makeOperation eof_handler 1 1024 False None),
     (0xd1, makeOperation eof_handler 0 1025 False None),
     (0xd2, makeOperation eof_handler 0 1025 False None),
     (0xd3, makeOperation eof_handler 3 1021 False None)]"

definition enableEIP7620 :: "jump_table \<Rightarrow> jump_table" where
  "enableEIP7620 = set_ops [
     (0xec, makeOperation eof_handler 4 1021 True None),
     (0xee, makeOperation eof_handler 2 1022 True None)]"

definition enableEIP7939 :: "jump_table \<Rightarrow> jump_table" where
  "enableEIP7939 = set_ops [
     (0x1e, makeOperation (plain opClz) 1 1024 False None)]"

section \<open>Names (\<open>constants.ts\<close>)\<close>

text \<open>The pairs of \<open>Op\<close> in their order; the reverse map keeps the last name of a code.\<close>

definition Op :: "(string \<times> nat) list" where
  "Op = [
     (''STOP'', 0x00), (''ADD'', 0x01), (''MUL'', 0x02), (''SUB'', 0x03), (''DIV'', 0x04),
     (''SDIV'', 0x05), (''MOD'', 0x06), (''SMOD'', 0x07), (''ADDMOD'', 0x08), (''MULMOD'', 0x09),
     (''EXP'', 0x0a), (''SIGNEXTEND'', 0x0b), (''LT'', 0x10), (''GT'', 0x11), (''SLT'', 0x12),
     (''SGT'', 0x13), (''EQ'', 0x14), (''ISZERO'', 0x15), (''AND'', 0x16), (''OR'', 0x17),
     (''XOR'', 0x18), (''NOT'', 0x19), (''BYTE'', 0x1a), (''SHL'', 0x1b), (''SHR'', 0x1c),
     (''SAR'', 0x1d), (''CLZ'', 0x1e), (''KECCAK256'', 0x20), (''ADDRESS'', 0x30), (''BALANCE'', 0x31),
     (''ORIGIN'', 0x32), (''CALLER'', 0x33), (''CALLVALUE'', 0x34), (''CALLDATALOAD'', 0x35),
     (''CALLDATASIZE'', 0x36), (''CALLDATACOPY'', 0x37), (''CODESIZE'', 0x38), (''CODECOPY'', 0x39),
     (''GASPRICE'', 0x3a), (''EXTCODESIZE'', 0x3b), (''EXTCODECOPY'', 0x3c), (''RETURNDATASIZE'', 0x3d),
     (''RETURNDATACOPY'', 0x3e), (''EXTCODEHASH'', 0x3f), (''BLOCKHASH'', 0x40), (''COINBASE'', 0x41),
     (''TIMESTAMP'', 0x42), (''NUMBER'', 0x43), (''DIFFICULTY'', 0x44), (''PREVRANDAO'', 0x44),
     (''GASLIMIT'', 0x45), (''CHAINID'', 0x46), (''SELFBALANCE'', 0x47), (''BASEFEE'', 0x48),
     (''BLOBHASH'', 0x49), (''BLOBBASEFEE'', 0x4a), (''POP'', 0x50), (''MLOAD'', 0x51),
     (''MSTORE'', 0x52), (''MSTORE8'', 0x53), (''SLOAD'', 0x54), (''SSTORE'', 0x55), (''JUMP'', 0x56),
     (''JUMPI'', 0x57), (''PC'', 0x58), (''MSIZE'', 0x59), (''GAS'', 0x5a), (''JUMPDEST'', 0x5b),
     (''TLOAD'', 0x5c), (''TSTORE'', 0x5d), (''MCOPY'', 0x5e), (''PUSH0'', 0x5f), (''PUSH1'', 0x60),
     (''PUSH2'', 0x61), (''PUSH3'', 0x62), (''PUSH4'', 0x63), (''PUSH5'', 0x64), (''PUSH6'', 0x65),
     (''PUSH7'', 0x66), (''PUSH8'', 0x67), (''PUSH9'', 0x68), (''PUSH10'', 0x69), (''PUSH11'', 0x6a),
     (''PUSH12'', 0x6b), (''PUSH13'', 0x6c), (''PUSH14'', 0x6d), (''PUSH15'', 0x6e), (''PUSH16'', 0x6f),
     (''PUSH17'', 0x70), (''PUSH18'', 0x71), (''PUSH19'', 0x72), (''PUSH20'', 0x73), (''PUSH21'', 0x74),
     (''PUSH22'', 0x75), (''PUSH23'', 0x76), (''PUSH24'', 0x77), (''PUSH25'', 0x78), (''PUSH26'', 0x79),
     (''PUSH27'', 0x7a), (''PUSH28'', 0x7b), (''PUSH29'', 0x7c), (''PUSH30'', 0x7d), (''PUSH31'', 0x7e),
     (''PUSH32'', 0x7f), (''DUP1'', 0x80), (''DUP2'', 0x81), (''DUP3'', 0x82), (''DUP4'', 0x83),
     (''DUP5'', 0x84), (''DUP6'', 0x85), (''DUP7'', 0x86), (''DUP8'', 0x87), (''DUP9'', 0x88),
     (''DUP10'', 0x89), (''DUP11'', 0x8a), (''DUP12'', 0x8b), (''DUP13'', 0x8c), (''DUP14'', 0x8d),
     (''DUP15'', 0x8e), (''DUP16'', 0x8f), (''SWAP1'', 0x90), (''SWAP2'', 0x91), (''SWAP3'', 0x92),
     (''SWAP4'', 0x93), (''SWAP5'', 0x94), (''SWAP6'', 0x95), (''SWAP7'', 0x96), (''SWAP8'', 0x97),
     (''SWAP9'', 0x98), (''SWAP10'', 0x99), (''SWAP11'', 0x9a), (''SWAP12'', 0x9b), (''SWAP13'', 0x9c),
     (''SWAP14'', 0x9d), (''SWAP15'', 0x9e), (''SWAP16'', 0x9f), (''LOG0'', 0xa0), (''LOG1'', 0xa1),
     (''LOG2'', 0xa2), (''LOG3'', 0xa3), (''LOG4'', 0xa4), (''DATALOAD'', 0xd0), (''DATALOADN'', 0xd1),
     (''DATASIZE'', 0xd2), (''DATACOPY'', 0xd3), (''RJUMP'', 0xe0), (''RJUMPI'', 0xe1),
     (''RJUMPV'', 0xe2), (''CALLF'', 0xe3), (''RETF'', 0xe4), (''JUMPF'', 0xe5), (''DUPN'', 0xe6),
     (''SWAPN'', 0xe7), (''EXCHANGE'', 0xe8), (''EOFCREATE'', 0xec), (''RETURNCONTRACT'', 0xee),
     (''CREATE'', 0xf0), (''CALL'', 0xf1), (''CALLCODE'', 0xf2), (''RETURN'', 0xf3),
     (''DELEGATECALL'', 0xf4), (''CREATE2'', 0xf5), (''RETURNDATALOAD'', 0xf7), (''EXTCALL'', 0xf8),
     (''EXTDELEGATECALL'', 0xf9), (''STATICCALL'', 0xfa), (''EXTSTATICCALL'', 0xfb), (''REVERT'', 0xfd),
     (''INVALID'', 0xfe), (''SELFDESTRUCT'', 0xff)]"

definition OpNames :: "nat \<Rightarrow> string option" where
  "OpNames code = map_of (map (\<lambda>(n, k). (k, n)) (rev Op)) code"

section \<open>Building the table (\<open>codes.ts\<close>, \<open>getFullname\<close> of \<open>util.ts\<close>)\<close>

definition getFullname :: "nat \<Rightarrow> string \<Rightarrow> string" where
  "getFullname code name =
     (if name = ''LOG'' then name @ int_dec (int code - 0xa0)
      else if name = ''PUSH'' then name @ int_dec (int code - 0x5f)
      else if name = ''DUP'' then name @ int_dec (int code - 0x7f)
      else if name = ''SWAP'' then name @ int_dec (int code - 0x8f)
      else name)"

definition getBaseName :: "nat \<Rightarrow> string \<Rightarrow> string" where
  "getBaseName opcode fullName =
     (if 0x60 \<le> opcode \<and> opcode \<le> 0x7f then ''PUSH''
      else if 0x80 \<le> opcode \<and> opcode \<le> 0x8f then ''DUP''
      else if 0x90 \<le> opcode \<and> opcode \<le> 0x9f then ''SWAP''
      else if 0xa0 \<le> opcode \<and> opcode \<le> 0xa4 then ''LOG''
      else fullName)"

text \<open>A custom opcode deletes an entry, or adds one with its own handlers.\<close>

datatype custom_opcode = DeleteOpcode nat | AddOpcode nat string int execute "dynamic_gas option"

definition apply_custom :: "jump_table \<Rightarrow> custom_opcode \<Rightarrow> jump_table" where
  "apply_custom table custom = (case custom of
     DeleteOpcode code \<Rightarrow> table(code := makeUndefinedOperation\<lparr>op_opcode := code\<rparr>)
   | AddOpcode code name baseFee logic gas \<Rightarrow>
       table(code := (makeOperation logic 0 1024 True gas)
         \<lparr>op_opcode := code, op_name := name, op_fullName := name, op_constantGas := baseFee\<rparr>))"

text \<open>One round of the metadata loop. \<open>BigInt(null)\<close> is a TypeError.\<close>

definition populate :: "evm_ctx \<Rightarrow> nat \<Rightarrow> operation \<Rightarrow> exn + operation" where
  "populate c opcode op0 =
     (let op = op0\<lparr>op_opcode := opcode\<rparr> in
      if op_name op \<noteq> '''' \<and> op_name op \<noteq> ''INVALID'' then Inr op
      else
        let fullName = (case OpNames opcode of None \<Rightarrow> ''INVALID'' | Some n \<Rightarrow> n);
            baseName = (if opcode = 0x44
              then (if fork_gte c ''paris'' then ''PREVRANDAO'' else ''DIFFICULTY'')
              else getBaseName opcode fullName);
            op1 = op\<lparr>op_name := baseName,
                     op_fullName := (if opcode = 0x44 then baseName else getFullname opcode baseName)\<rparr>
        in if op_undefined op1 then Inr op1
           else case param_at c (toLowerCase baseName @ ''Gas'') of
                  None \<Rightarrow> Inr op1
                | Some (PBig v) \<Rightarrow> Inr (op1\<lparr>op_constantGas := v\<rparr>)
                | Some (PNum v) \<Rightarrow> Inr (op1\<lparr>op_constantGas := v\<rparr>)
                | Some PNull \<Rightarrow> Inl TypeError)"

definition when_table :: "bool \<Rightarrow> (jump_table \<Rightarrow> jump_table) \<Rightarrow> jump_table \<Rightarrow> jump_table" where
  "when_table b f t = (if b then f t else t)"

definition apply_eips :: "evm_ctx \<Rightarrow> jump_table \<Rightarrow> jump_table" where
  "apply_eips c t0 =
     (let t1 = when_table (fork_gte c ''istanbul'') enableEIP1283 t0;
          t2 = when_table (fork_gte c ''constantinople'') enableEIP2200 t1;
          t3 = when_table (eip_active c 2929) enableEIP2929 t2;
          t4 = when_table (eip_active c 1153) enableEIP1153 t3;
          t5 = when_table (eip_active c 3198) enableEIP3198 t4;
          t6 = when_table (eip_active c 3855) enableEIP3855 t5;
          t7 = when_table (eip_active c 4844) enableEIP4844 t6;
          t8 = when_table (eip_active c 5656) enableEIP5656 t7;
          t9 = when_table (eip_active c 7516) enableEIP7516 t8;
          t10 = when_table (eip_active c 663) enableEIP663 t9;
          t11 = when_table (eip_active c 4200) enableEIP4200 t10;
          t12 = when_table (eip_active c 4750) enableEIP4750 t11;
          t13 = when_table (eip_active c 6206) enableEIP6206 t12;
          t14 = when_table (eip_active c 7069) enableEIP7069 t13;
          t15 = when_table (eip_active c 7480) enableEIP7480 t14;
          t16 = when_table (eip_active c 7620) enableEIP7620 t15
      in when_table (eip_active c 7939) enableEIP7939 t16)"

fun populate_all :: "evm_ctx \<Rightarrow> jump_table \<Rightarrow> nat list \<Rightarrow> exn + jump_table" where
  "populate_all c t [] = Inr t"
| "populate_all c t (i # is') =
     (case populate c i (t i) of Inl e \<Rightarrow> Inl e | Inr op \<Rightarrow> populate_all c (t(i := op)) is')"

definition buildJumpTable :: "evm_ctx \<Rightarrow> custom_opcode list \<Rightarrow> exn + jump_table" where
  "buildJumpTable c customOpcodes =
     (case getJumpTableForHardfork (ctx_fork c) of
        Inl e \<Rightarrow> Inl e
      | Inr t \<Rightarrow> populate_all c (foldl apply_custom (apply_eips c t) customOpcodes) [0..<256])"

end
