(* ===== verification/Interpreter.thy ===== *)
theory Interpreter
  imports JumpTables
begin

text \<open>
  The main loop of \<open>src/packages/evm/src/interpreter.ts\<close>: \<open>run\<close>, \<open>runStep\<close>, \<open>lookupOperation\<close> and
  \<open>_getValidJumpDestinations\<close>. The loop runs on fuel, \<open>None\<close> standing for fuel that ran out; the theory
  Termination shows how much fuel is enough. Step events, debug output and profiling do not
  change the state and are left out.
\<close>

section \<open>Jump analysis\<close>

text \<open>What the analysis collects: the byte array \<open>jumps\<close>, the cached PUSH data by program counter,
  and the cached opcodes by position (none inside PUSH data).\<close>

record jump_analysis =
  ja_jumps :: "nat list"
  ja_pushes :: "nat \<Rightarrow> int option"
  ja_opcodesCached :: "nat \<Rightarrow> nat option"

definition lookupOperation :: "jump_table \<Rightarrow> nat \<Rightarrow> operation" where
  "lookupOperation table opcode = table opcode"

text \<open>The data of the PUSH at \<open>i\<close>, padded on the right at the end of the code.\<close>

definition push_data :: "externals \<Rightarrow> bytes \<Rightarrow> nat \<Rightarrow> int" where
  "push_data x code i =
     (let opcode = unat (code ! i);
          bytesToPush = opcode - 0x5f;
          pushBytes = subarray code (i + 1) (i + opcode - 0x5e)
      in bytesToBigInt x (if length pushBytes < bytesToPush then setLengthRight pushBytes bytesToPush else pushBytes))"

function analyse_from :: "externals \<Rightarrow> jump_table \<Rightarrow> bytes \<Rightarrow> nat \<Rightarrow> jump_analysis \<Rightarrow> jump_analysis" where
  "analyse_from x table code i ja =
     (if i < length code then
        let opcode = unat (code ! i);
            ja1 = ja\<lparr>ja_opcodesCached := (ja_opcodesCached ja)(i \<mapsto> op_opcode (lookupOperation table opcode))\<rparr>
        in if 0x60 \<le> opcode \<and> opcode \<le> 0x7f then
             analyse_from x table code (i + (opcode - 0x5f) + 1)
               (ja1\<lparr>ja_pushes := (ja_pushes ja1)(i + 1 \<mapsto> push_data x code i)\<rparr>)
           else if opcode = 0x5b then
             analyse_from x table code (i + 1) (ja1\<lparr>ja_jumps := (ja_jumps ja1)[i := 1]\<rparr>)
           else analyse_from x table code (i + 1) ja1
      else ja)"
  by pat_completeness auto

termination
  by (relation "measure (\<lambda>(x, table, code, i, ja). length code - i)") auto

declare analyse_from.simps [simp del]

definition getValidJumpDestinations :: "externals \<Rightarrow> jump_table \<Rightarrow> bytes \<Rightarrow> jump_analysis" where
  "getValidJumpDestinations x table code = analyse_from x table code 0
     \<lparr>ja_jumps = replicate (length code) 0, ja_pushes = (\<lambda>_. None), ja_opcodesCached = (\<lambda>_. None)\<rparr>"

section \<open>One step\<close>

definition runStep :: "evm_ctx \<Rightarrow> run_call \<Rightarrow> jump_table \<Rightarrow> unit evm" where
  "runStep c rc table = bindE (getsE rs_opCode) (\<lambda>opCode.
     let operation = lookupOperation table opCode in
     bindE (case op_dynamicGas operation of
              Some g \<Rightarrow> g c (op_constantGas operation)
            | None \<Rightarrow> returnE (op_constantGas operation)) (\<lambda>gas.
       bindE (getsE (\<lambda>rs. env_chargeCodeAccesses (rs_env rs))) (\<lambda>charge.
         seqE (whenE charge (no_witness c))
        (if op_undefined operation then trap INVALID_OPCODE
         else seqE (useGas gas)
             (seqE (modifyE (\<lambda>rs. rs\<lparr>rs_programCounter := rs_programCounter rs + 1\<rparr>))
                (op_execute operation c rc))))))"

section \<open>The loop\<close>

definition is_evm_error :: "exn \<Rightarrow> bool" where
  "is_evm_error e = (case e of EVMError _ \<Rightarrow> True | EVMErrorAt _ _ \<Rightarrow> True | _ \<Rightarrow> False)"

text \<open>The local variables of the loop: \<open>None\<close> while the jump analysis is still to be done, else the
  cached opcodes.\<close>

type_synonym loop_state = "(nat \<Rightarrow> nat option) option"

definition is_jump_opcode :: "nat \<Rightarrow> bool" where
  "is_jump_opcode opCode \<longleftrightarrow> opCode = 0x56 \<or> opCode = 0x57 \<or> opCode = 0x5e"

definition fetch :: "evm_ctx \<Rightarrow> jump_table \<Rightarrow> loop_state \<Rightarrow> run_state \<Rightarrow> (exn + nat \<times> loop_state) \<times> run_state" where
  "fetch c table cached rs =
     (let programCounter = rs_programCounter rs in
      case cached of
        None \<Rightarrow>
          let opCode = unat (rs_code rs ! programCounter) in
          if is_jump_opcode opCode then
            let ja = getValidJumpDestinations (ctx_ext c) table (rs_code rs)
            in (Inr (opCode, Some (ja_opcodesCached ja)),
                rs\<lparr>rs_validJumps := ja_jumps ja, rs_cachedPushes := ja_pushes ja, rs_shouldDoJumpAnalysis := False\<rparr>)
          else (Inr (opCode, None), rs)
      | Some ops \<Rightarrow> (case ops programCounter of
            None \<Rightarrow> (Inl TypeError, rs)
          | Some opCode \<Rightarrow> (Inr (opCode, cached), rs)))"

text \<open>The outcome of the loop: an exception that is rethrown, or the \<open>exceptionError\<close>, if any.\<close>

type_synonym loop_result = "((exn + exn option) \<times> run_state) option"

definition after_step :: "(exn + unit) \<Rightarrow> (exn + exn option) option" where
  "after_step r = (case r of
     Inr _ \<Rightarrow> None
   | Inl e \<Rightarrow> Some (if \<not> is_evm_error e then Inl e
                    else if e \<noteq> EVMError STOP then Inr (Some e) else Inr None))"

fun run_loop :: "evm_ctx \<Rightarrow> run_call \<Rightarrow> jump_table \<Rightarrow> nat \<Rightarrow> loop_state \<Rightarrow> run_state \<Rightarrow> loop_result" where
  "run_loop c rc table fuel cached rs =
     (if rs_programCounter rs < length (rs_code rs) then
        case fuel of
          0 \<Rightarrow> None
        | Suc n \<Rightarrow>
            (case fetch c table cached rs of
               (Inl e, rs1) \<Rightarrow> Some (Inl e, rs1)
             | (Inr (opCode, cached'), rs1) \<Rightarrow>
                 if opCode = 0xfe \<and> eip_active c 6800 \<and> env_chargeCodeAccesses (rs_env rs1)
                 then Some (witness_unmodelled rs1)
                 else
                   (case runStep c rc table (rs1\<lparr>rs_opCode := opCode\<rparr>) of
                      (r, rs2) \<Rightarrow> (case after_step r of
                          Some out \<Rightarrow> Some (out, rs2)
                        | None \<Rightarrow> run_loop c rc table n cached' rs2)))
      else Some (Inr None, rs))"

declare run_loop.simps [simp del]

definition EOF_MAGIC :: byte where
  "EOF_MAGIC = 0"

definition EOF_VERSION :: byte where
  "EOF_VERSION = 1"

definition EOF_FORMAT :: byte where
  "EOF_FORMAT = 0xef"

text \<open>\<open>code[i] !== v\<close>, where an index beyond the end is undefined.\<close>

definition byte_is :: "bytes \<Rightarrow> nat \<Rightarrow> byte \<Rightarrow> bool" where
  "byte_is code i v \<longleftrightarrow> i < length code \<and> code ! i = v"

definition interpreter_run :: "evm_ctx \<Rightarrow> run_call \<Rightarrow> jump_table \<Rightarrow> nat \<Rightarrow> bytes \<Rightarrow> nat option \<Rightarrow> run_state \<Rightarrow> loop_result" where
  "interpreter_run c rc table fuel code pc rs0 =
     (if \<not> eip_active c 3540 \<or> \<not> byte_is code 0 EOF_FORMAT then
        let rs = rs0\<lparr>rs_code := code, rs_programCounter := (case pc of None \<Rightarrow> rs_programCounter rs0 | Some p \<Rightarrow> p)\<rparr>
        in if rs_programCounter rs \<noteq> 0 \<and> rs_programCounter rs \<ge> length code
           then Some (Inl (PlainError ''Internal error: program counter not in range''), rs)
           else run_loop c rc table fuel None rs
      else if \<not> byte_is code 1 EOF_MAGIC then Some (Inr (Some (EVMError INVALID_BYTECODE_RESULT)), rs0)
      else if \<not> byte_is code 2 EOF_VERSION then Some (Inr (Some (EVMError INVALID_EOF_FORMAT)), rs0)
      else Some (Inl (PlainError ''EOF frames are not modelled''), rs0\<lparr>rs_code := code\<rparr>))"

text \<open>The constructor refuses a proof-of-authority chain without a clique signer; here a signer is
  always given.\<close>

section \<open>Jump destinations\<close>

text \<open>Instruction boundaries: the positions reached from 0 by skipping PUSH data.\<close>

definition instr_size :: "byte \<Rightarrow> nat" where
  "instr_size b = (if 0x60 \<le> unat b \<and> unat b \<le> 0x7f then unat b - 0x5f + 1 else 1)"

inductive boundary :: "bytes \<Rightarrow> nat \<Rightarrow> bool" for code :: bytes where
  start: "boundary code 0"
| next_instr: "boundary code i \<Longrightarrow> i < length code \<Longrightarrow> boundary code (i + instr_size (code ! i))"

inductive_simps boundary_0: "boundary code 0"

inductive boundary_from :: "bytes \<Rightarrow> nat \<Rightarrow> nat \<Rightarrow> bool" for code :: bytes where
  from_refl: "boundary_from code i i"
| from_step: "i < length code \<Longrightarrow> boundary_from code (i + instr_size (code ! i)) j \<Longrightarrow> boundary_from code i j"

end
