(* ===== verification/FrameLogic.thy ===== *)
theory FrameLogic
  imports Interpreter
begin

text \<open>
  A logic for handlers. \<open>yields X I m J A\<close> says that \<open>m\<close>, started in a state with \<open>X\<close> and \<open>I\<close>, either ends in a
  state with \<open>X\<close> and \<open>J\<close> with a result that satisfies \<open>A\<close>, or throws an EVM error in a state with \<open>X\<close>, or
  throws an internal error, of which nothing is said: it aborts the whole transaction. The locale \<open>frame_invariant\<close> states which
  updates an invariant of frames must survive, and gives the rules for the interpreter methods;
  \<open>stack_invariant\<close> adds the operand stack. Four invariants interpret them: \<open>frame_at\<close> fixes what the
  main loop reads and the gas left, \<open>ready_at\<close> and \<open>gas_at\<close> also the stack, \<open>frame_upto\<close> bounds the gas.
\<close>

section \<open>The judgement\<close>

definition yields :: "('s \<Rightarrow> bool) \<Rightarrow> ('s \<Rightarrow> bool) \<Rightarrow> ('s, 'a) sx \<Rightarrow> ('s \<Rightarrow> bool) \<Rightarrow> ('a \<Rightarrow> bool) \<Rightarrow> bool" where
  "yields X I m J A \<longleftrightarrow> (\<forall>s. X s \<and> I s \<longrightarrow>
     (case m s of (Inl e, t) \<Rightarrow> is_evm_error e \<longrightarrow> X t | (Inr r, t) \<Rightarrow> X t \<and> A r \<and> J t))"

named_theorems yields_rules \<open>rules of the judgement, one per program construct\<close>

lemma yields_at_state: "yields X I m J A \<Longrightarrow> X s \<Longrightarrow> I s \<Longrightarrow>
    case m s of (Inl e, t) \<Rightarrow> is_evm_error e \<longrightarrow> X t | (Inr r, t) \<Rightarrow> X t \<and> A r \<and> J t"
  unfolding yields_def by (erule allE [of _ s], erule mp, rule conjI)

lemma yieldsD: "yields X I m J A \<Longrightarrow> X s \<Longrightarrow> I s \<Longrightarrow> m s = (Inr r, t) \<Longrightarrow> A r \<and> J t"
  using yields_at_state [of X I m J A s] by simp

lemma yields_kept: "yields X I m J A \<Longrightarrow> X s \<Longrightarrow> I s \<Longrightarrow> m s = (Inr r, t) \<Longrightarrow> X t"
  using yields_at_state [of X I m J A s] by simp

lemma yields_thrown: "yields X I m J A \<Longrightarrow> X s \<Longrightarrow> I s \<Longrightarrow> m s = (Inl e, t) \<Longrightarrow> is_evm_error e \<Longrightarrow> X t"
  using yields_at_state [of X I m J A s] by simp

lemma yields_intro:
  assumes "\<And>s r t. X s \<Longrightarrow> I s \<Longrightarrow> m s = (Inr r, t) \<Longrightarrow> X t \<and> A r \<and> J t"
    and "\<And>s e t. X s \<Longrightarrow> I s \<Longrightarrow> m s = (Inl e, t) \<Longrightarrow> is_evm_error e \<Longrightarrow> X t"
  shows "yields X I m J A"
  unfolding yields_def
proof (intro allI impI, erule conjE)
  fix s assume s: "X s" "I s"
  obtain x t where "m s = (x, t)" by (cases "m s")
  then show "case m s of (Inl e, t) \<Rightarrow> is_evm_error e \<longrightarrow> X t | (Inr r, t) \<Rightarrow> X t \<and> A r \<and> J t"
    using assms(1) [OF s] assms(2) [OF s] by (cases x) auto
qed

lemma yieldsI:
  assumes "\<And>s r t. X s \<Longrightarrow> I s \<Longrightarrow> m s = (Inr r, t) \<Longrightarrow> A r \<and> J t" "\<And>s. X s \<Longrightarrow> I s \<Longrightarrow> X (snd (m s))"
  shows "yields X I m J A"
proof (rule yields_intro)
  show "X s \<Longrightarrow> I s \<Longrightarrow> m s = (Inr r, t) \<Longrightarrow> X t \<and> A r \<and> J t" for s r t using assms(1) assms(2) [of s] by simp
  show "X s \<Longrightarrow> I s \<Longrightarrow> m s = (Inl e, t) \<Longrightarrow> is_evm_error e \<Longrightarrow> X t" for s e t using assms(2) [of s] by simp
qed

lemma yields_bind [yields_rules]:
  assumes m: "yields X I m K A" and f: "\<And>r. A r \<Longrightarrow> yields X K (f r) J B"
  shows "yields X I (bindE m f) J B"
proof (rule yields_intro)
  fix s r t assume s: "X s" "I s" "bindE m f s = (Inr r, t)"
  then obtain x u where u: "m s = (Inr x, u)" "f x u = (Inr r, t)"
    by (auto simp: bindE_run split: prod.splits sum.splits)
  have "A x \<and> K u" "X u" using yieldsD [OF m s(1,2) u(1)] yields_kept [OF m s(1,2) u(1)] by simp_all
  then show "X t \<and> B r \<and> J t" using yieldsD [OF f _ _ u(2)] yields_kept [OF f _ _ u(2)] by blast
next
  fix s e t assume s: "X s" "I s" "bindE m f s = (Inl e, t)" "is_evm_error e"
  then consider "m s = (Inl e, t)" | x u where "m s = (Inr x, u)" "f x u = (Inl e, t)"
    by (auto simp: bindE_run split: prod.splits sum.splits)
  then show "X t"
  proof cases
    case 1
    then show ?thesis using yields_thrown [OF m s(1,2)] s(4) by blast
  next
    case 2
    then have "A x \<and> K u" "X u" using yieldsD [OF m s(1,2)] yields_kept [OF m s(1,2)] by blast+
    then show ?thesis using yields_thrown [OF f _ _ 2(2) s(4)] by blast
  qed
qed

lemma yields_seq [yields_rules]:
  "yields X I m K A \<Longrightarrow> yields X K n J B \<Longrightarrow> yields X I (seqE m n) J B"
  unfolding seqE_def by (rule yields_bind)

lemma yields_throw [yields_rules]: "yields X I (throwE e) J A"
  by (rule yieldsI) simp_all

lemma yields_trap [yields_rules]: "yields X I (trap e) J A"
  unfolding trap_def by (rule yields_throw)

lemma yields_return: "A x \<Longrightarrow> yields X I (returnE x) I A"
  by (rule yieldsI) simp_all

lemma yields_gets [yields_rules]: "yields X I (getsE f) I (\<lambda>r. \<exists>s. I s \<and> r = f s)"
  by (rule yieldsI) auto

lemma yields_gets_post: "(\<And>s. I s \<Longrightarrow> A (f s)) \<Longrightarrow> yields X I (getsE f) I A"
  by (rule yieldsI) auto

lemma yields_lift [yields_rules]: "yields X I (liftE r) I (\<lambda>v. r = Inr v)"
  by (rule yieldsI) auto

lemma yields_modify: "(\<And>s. I s \<Longrightarrow> J (f s)) \<Longrightarrow> (\<And>s. X s \<Longrightarrow> I s \<Longrightarrow> X (f s)) \<Longrightarrow> yields X I (modifyE f) J (\<lambda>_. True)"
  by (rule yieldsI) auto

lemma yields_if [yields_rules]:
  "(b \<Longrightarrow> yields X I m J A) \<Longrightarrow> (\<not> b \<Longrightarrow> yields X I n J A) \<Longrightarrow> yields X I (if b then m else n) J A"
  by simp

lemma yields_when [yields_rules]:
  "(b \<Longrightarrow> yields X I m I (\<lambda>_. True)) \<Longrightarrow> yields X I (whenE b m) I (\<lambda>_. True)"
  by (auto simp: whenE_def intro: yields_return)

lemma yields_option [yields_rules]:
  "(v = None \<Longrightarrow> yields X I m J A) \<Longrightarrow> (\<And>x. v = Some x \<Longrightarrow> yields X I (f x) J A) \<Longrightarrow>
   yields X I (case v of None \<Rightarrow> m | Some x \<Rightarrow> f x) J A"
  by (cases v) auto

lemma yields_pre: "yields X K m J A \<Longrightarrow> (\<And>s. I s \<Longrightarrow> K s) \<Longrightarrow> yields X I m J A"
  by (rule yields_intro) (auto dest: yieldsD yields_kept yields_thrown)

lemma yields_post: "yields X I m K A \<Longrightarrow> (\<And>s. K s \<Longrightarrow> J s) \<Longrightarrow> yields X I m J A"
  by (rule yields_intro) (auto dest: yieldsD yields_kept yields_thrown)

text \<open>A function that, started in \<open>s\<close>, runs a computation chosen by \<open>s\<close>.\<close>

lemma yields_at:
  assumes "\<And>s. X s \<Longrightarrow> I s \<Longrightarrow> \<exists>n u. m s = n u \<and> X u \<and> K u \<and> yields X K n J A"
  shows "yields X I m J A"
proof (rule yields_intro)
  show "X s \<Longrightarrow> I s \<Longrightarrow> m s = (Inr r, t) \<Longrightarrow> X t \<and> A r \<and> J t" for s r t
    using assms [of s] yieldsD [of X K _ J A _ r t] yields_kept [of X K _ J A _ r t] by metis
  show "X s \<Longrightarrow> I s \<Longrightarrow> m s = (Inl e, t) \<Longrightarrow> is_evm_error e \<Longrightarrow> X t" for s e t
    using assms [of s] yields_thrown [of X K _ J A _ e t] by metis
qed

section \<open>Nonnegative values\<close>

lemma bytesToBigInt_nonneg [simp]: "0 \<le> bytesToBigInt_le x le bs"
  by (simp add: bytesToBigInt_le_def Let_def bigint_of_hex_def split: option.split)

lemma bigint_of_hex_nonneg [simp]: "0 \<le> bigint_of_hex s"
  by (simp add: bigint_of_hex_def split: option.split)

text \<open>What the checkpoints below the current one hold: of the state manager, the journal and the transient
  storage.\<close>

type_synonym below = "sm_frame list \<times> jframe list \<times> ts_view list"

definition balances_ok :: "simple_sm \<Rightarrow> bool" where
  "balances_ok sm \<longleftrightarrow> (\<forall>m \<in> set (accountStack sm). \<forall>a acc. m a = Some acc \<longrightarrow> 0 \<le> acc_balance acc)"

definition sm_ok :: "below \<Rightarrow> simple_sm \<Rightarrow> bool" where
  "sm_ok F sm \<longleftrightarrow> balances_ok sm \<and> sm_wf sm \<and> tl (sm_frames sm) = fst F"

definition j_ok :: "below \<Rightarrow> journal \<Rightarrow> bool" where
  "j_ok F j \<longleftrightarrow> j_wf j \<and> tl (j_frames j) = fst (snd F)"

definition ts_ok :: "below \<Rightarrow> transient_storage \<Rightarrow> bool" where
  "ts_ok F ts \<longleftrightarrow> ts_wf ts \<and> tl (ts_frames ts) = snd (snd F)"

definition world_ok :: "below \<Rightarrow> world \<Rightarrow> bool" where
  "world_ok F w \<longleftrightarrow> sm_ok F (wl_sm w) \<and> j_ok F (wl_journal w)"

definition opt_nonneg :: "int option \<Rightarrow> bool" where
  "opt_nonneg v = (case v of None \<Rightarrow> True | Some n \<Rightarrow> 0 \<le> n)"

definition header_ok :: "block_header \<Rightarrow> bool" where
  "header_ok h \<longleftrightarrow> 0 \<le> hdr_number h \<and> 0 \<le> hdr_timestamp h \<and> 0 \<le> hdr_difficulty h \<and> 0 \<le> hdr_gasLimit h
     \<and> opt_nonneg (hdr_baseFeePerGas h) \<and> opt_nonneg (hdr_blobGasPrice h)"

definition env_ok :: "env \<Rightarrow> bool" where
  "env_ok e \<longleftrightarrow> 0 \<le> env_callValue e \<and> 0 \<le> env_gasPrice e \<and> header_ok (env_block e)
     \<and> 0 \<le> acc_balance (env_contract e)"

definition frame_core :: "below \<Rightarrow> run_state \<Rightarrow> bool" where
  "frame_core F rs \<longleftrightarrow> frame_wf rs \<and> (\<forall>v \<in> set (stk rs). 0 \<le> v) \<and> memory_paid rs \<and> 0 \<le> rs_gasLeft rs
     \<and> env_ok (rs_env rs) \<and> world_ok F (rs_world rs) \<and> ts_ok F (rs_transient rs)"

text \<open>The gas a call or creation is about to pass on. Between the gas handler, which sets it, and the
  payment it may be negative.\<close>

definition lim_ok :: "run_state \<Rightarrow> bool" where
  "lim_ok rs \<longleftrightarrow> opt_nonneg (rs_messageGasLimit rs)"

definition frame_ok :: "below \<Rightarrow> run_state \<Rightarrow> bool" where
  "frame_ok F rs \<longleftrightarrow> frame_core F rs \<and> lim_ok rs"

text \<open>What the main loop reads of a frame besides the gas left, and the depth, staticness and address of the
  frame.\<close>

type_synonym control_state =
  "nat \<times> nat \<times> bytes \<times> bool \<times> nat list \<times> (nat \<Rightarrow> int option) \<times> nat \<times> bool \<times> address"

definition control :: "run_state \<Rightarrow> control_state" where
  "control rs = (rs_programCounter rs, rs_opCode rs, rs_code rs, rs_shouldDoJumpAnalysis rs,
     rs_validJumps rs, rs_cachedPushes rs, env_depth (rs_env rs), env_isStatic (rs_env rs), env_address (rs_env rs))"

text \<open>What holds also of a frame whose handler threw an EVM error: the balances of the world are nonnegative,
  the checkpoints below are as they were, and the gas left is within a bound.\<close>

definition safe :: "below \<Rightarrow> int \<Rightarrow> run_state \<Rightarrow> bool" where
  "safe F G rs \<longleftrightarrow> world_ok F (rs_world rs) \<and> ts_ok F (rs_transient rs) \<and> 0 \<le> rs_gasLeft rs \<and> rs_gasLeft rs \<le> G"

lemma safe_fields [simp]:
  "safe F G (rs\<lparr>rs_gasRefund := g\<rparr>) = safe F G rs" "safe F G (rs\<lparr>res_logs := logs\<rparr>) = safe F G rs"
  "safe F G (rs\<lparr>rs_returnBytes := bs\<rparr>) = safe F G rs" "safe F G (rs\<lparr>res_selfdestruct := as\<rparr>) = safe F G rs"
  "safe F G (rs\<lparr>res_createdAddresses := created\<rparr>) = safe F G rs" "safe F G (rs\<lparr>rs_messageGasLimit := lim\<rparr>) = safe F G rs"
  "safe F G (rs\<lparr>rs_env := e\<rparr>) = safe F G rs"
  "safe F G (rs\<lparr>rs_memory := mm\<rparr>) = safe F G rs" "safe F G (rs\<lparr>rs_highestMemCost := n\<rparr>) = safe F G rs"
  "safe F G (rs\<lparr>rs_memoryWordCount := n\<rparr>) = safe F G rs" "safe F G (rs\<lparr>rs_stack := st\<rparr>) = safe F G rs"
  "safe F G (rs\<lparr>res_returnValue := v\<rparr>) = safe F G rs" "safe F G (rs\<lparr>rs_programCounter := pc\<rparr>) = safe F G rs"
  by (simp_all add: safe_def)

lemma safe_transient: "safe F G rs \<Longrightarrow> ts_ok F ts \<Longrightarrow> safe F G (rs\<lparr>rs_transient := ts\<rparr>)"
  by (simp add: safe_def)

lemma safe_world: "safe F G rs \<Longrightarrow> world_ok F w \<Longrightarrow> safe F G (rs\<lparr>rs_world := w\<rparr>)"
  by (simp add: safe_def)

definition words_ok :: "stack \<Rightarrow> bool" where
  "words_ok st \<longleftrightarrow> stack_wf st \<and> (\<forall>v \<in> set (stack_view st). 0 \<le> v)"

section \<open>Operations on a part of the frame\<close>

lemma yields_onStack:
  assumes "\<And>rs. I rs \<Longrightarrow> words_ok (rs_stack rs)"
    and "yields (\<lambda>_. True) words_ok m words_ok A"
    and "\<And>rs st. I rs \<Longrightarrow> words_ok st \<Longrightarrow> I (rs\<lparr>rs_stack := st\<rparr>)"
  shows "yields (safe F G) I (onStack m) I A"
proof (rule yieldsI)
  fix s r t assume s: "I s" "onStack m s = (Inr r, t)"
  then obtain st where m: "m (rs_stack s) = (Inr r, st)" "t = s\<lparr>rs_stack := st\<rparr>"
    by (auto simp: onStack_def split: prod.splits)
  show "A r \<and> I t"
    using yieldsD [OF assms(2) TrueI assms(1) [OF s(1)] m(1)] assms(3) [OF s(1)] m(2) by simp
qed (simp add: onStack_def split: prod.split)

lemma yields_onWorld:
  assumes "\<And>rs. I rs \<Longrightarrow> world_ok F (rs_world rs)" "yields (world_ok F) (world_ok F) m (world_ok F) A"
    and "\<And>rs w. I rs \<Longrightarrow> world_ok F w \<Longrightarrow> I (rs\<lparr>rs_world := w\<rparr>)"
  shows "yields (safe F G) I (onWorld m) I A"
proof (rule yields_intro)
  fix s r t assume s: "safe F G s" "I s" "onWorld m s = (Inr r, t)"
  then obtain w where m: "m (rs_world s) = (Inr r, w)" "t = s\<lparr>rs_world := w\<rparr>"
    by (auto simp: onWorld_def split: prod.splits)
  have "A r \<and> world_ok F w" using yieldsD [OF assms(2) assms(1) assms(1) m(1)] s(2) by blast
  then show "safe F G t \<and> A r \<and> I t" using assms(3) s m(2) safe_world by blast
next
  fix s e t assume s: "safe F G s" "I s" "onWorld m s = (Inl e, t)" "is_evm_error e"
  then obtain w where m: "m (rs_world s) = (Inl e, w)" "t = s\<lparr>rs_world := w\<rparr>"
    by (auto simp: onWorld_def split: prod.splits)
  then show "safe F G t" using yields_thrown [OF assms(2) assms(1) assms(1) m(1) s(4)] s safe_world by blast
qed

lemma yields_onTransient:
  assumes "\<And>rs. I rs \<Longrightarrow> ts_ok F (rs_transient rs)" "yields (ts_ok F) (ts_ok F) m (ts_ok F) A"
    and "\<And>rs ts. I rs \<Longrightarrow> ts_ok F ts \<Longrightarrow> I (rs\<lparr>rs_transient := ts\<rparr>)"
  shows "yields (safe F G) I (onTransient m) I A"
proof (rule yields_intro)
  fix s r t assume s: "safe F G s" "I s" "onTransient m s = (Inr r, t)"
  then obtain ts where m: "m (rs_transient s) = (Inr r, ts)" "t = s\<lparr>rs_transient := ts\<rparr>"
    by (auto simp: onTransient_def split: prod.splits)
  have "A r \<and> ts_ok F ts" using yieldsD [OF assms(2) assms(1) assms(1) m(1)] s(2) by blast
  then show "safe F G t \<and> A r \<and> I t" using assms(3) s m(2) safe_transient by blast
next
  fix s e t assume s: "safe F G s" "I s" "onTransient m s = (Inl e, t)" "is_evm_error e"
  then obtain ts where m: "m (rs_transient s) = (Inl e, ts)" "t = s\<lparr>rs_transient := ts\<rparr>"
    by (auto simp: onTransient_def split: prod.splits)
  then show "safe F G t" using yields_thrown [OF assms(2) assms(1) assms(1) m(1) s(4)] s safe_transient by blast
qed

lemma on_sm_yields [yields_rules]:
  assumes "yields (sm_ok F) (sm_ok F) m (sm_ok F) A"
  shows "yields (world_ok F) (world_ok F) (on_sm m) (world_ok F) A"
proof (rule yields_intro)
  fix s r t assume s: "world_ok F s" "on_sm m s = (Inr r, t)"
  then obtain u where u: "m (wl_sm s) = (Inr r, u)" "t = s\<lparr>wl_sm := u\<rparr>" by (auto simp: on_sm_def split: prod.splits)
  have "A r \<and> sm_ok F u" using yieldsD [OF assms _ _ u(1)] s(1) by (simp add: world_ok_def)
  then show "world_ok F t \<and> A r \<and> world_ok F t" using s(1) u(2) by (simp add: world_ok_def)
next
  fix s e t assume s: "world_ok F s" "on_sm m s = (Inl e, t)" "is_evm_error e"
  then obtain u where u: "m (wl_sm s) = (Inl e, u)" "t = s\<lparr>wl_sm := u\<rparr>" by (auto simp: on_sm_def split: prod.splits)
  have "sm_ok F u" using yields_thrown [OF assms _ _ u(1) s(3)] s(1) by (simp add: world_ok_def)
  then show "world_ok F t" using s(1) u(2) by (simp add: world_ok_def)
qed

lemma on_journal_yields [yields_rules]:
  assumes "yields (j_ok F) (j_ok F) m (j_ok F) A"
  shows "yields (world_ok F) (world_ok F) (on_journal m) (world_ok F) A"
proof (rule yields_intro)
  fix s r t assume s: "world_ok F s" "on_journal m s = (Inr r, t)"
  then obtain u where u: "m (wl_journal s) = (Inr r, u)" "t = s\<lparr>wl_journal := u\<rparr>"
    by (auto simp: on_journal_def split: prod.splits)
  have "A r \<and> j_ok F u" using yieldsD [OF assms _ _ u(1)] s(1) by (simp add: world_ok_def)
  then show "world_ok F t \<and> A r \<and> world_ok F t" using s(1) u(2) by (simp add: world_ok_def)
next
  fix s e t assume s: "world_ok F s" "on_journal m s = (Inl e, t)" "is_evm_error e"
  then obtain u where u: "m (wl_journal s) = (Inl e, u)" "t = s\<lparr>wl_journal := u\<rparr>"
    by (auto simp: on_journal_def split: prod.splits)
  have "j_ok F u" using yields_thrown [OF assms _ _ u(1) s(3)] s(1) by (simp add: world_ok_def)
  then show "world_ok F t" using s(1) u(2) by (simp add: world_ok_def)
qed

lemma j_ok_keeps: "j_ok F j \<Longrightarrow> j_keeps j k \<Longrightarrow> j_ok F k"
  by (auto simp: j_ok_def j_keeps_def)

lemma j_ok_yields:
  assumes "\<And>s t. m s = (Inr (), t) \<Longrightarrow> j_keeps s t" "\<And>s e t. m s = (Inl e, t) \<Longrightarrow> \<not> is_evm_error e"
  shows "yields (j_ok F) (j_ok F) m (j_ok F) (\<lambda>_. True)"
  by (rule yields_intro) (use assms j_ok_keeps in \<open>auto simp: unit_all_eq1\<close>)

text \<open>The journal keeps its checkpoints when addresses and slots are warmed and accounts are touched.\<close>

lemma journal_yields [yields_rules]:
  "yields (j_ok F) (j_ok F) (modifyE (addWarmedAddress a)) (j_ok F) (\<lambda>_. True)"
  "yields (j_ok F) (j_ok F) (addWarmedStorage a key) (j_ok F) (\<lambda>_. True)"
  "yields (j_ok F) (j_ok F) (touchAccount a) (j_ok F) (\<lambda>_. True)"
proof -
  show "yields (j_ok F) (j_ok F) (modifyE (addWarmedAddress a)) (j_ok F) (\<lambda>_. True)"
    by (rule j_ok_yields) (auto intro: addWarmedAddress_keeps)
  show "yields (j_ok F) (j_ok F) (addWarmedStorage a key) (j_ok F) (\<lambda>_. True)"
    by (rule j_ok_yields, erule addWarmedStorage_keeps)
       (auto simp: addWarmedStorage_def Let_def is_evm_error_def split: option.splits)
  show "yields (j_ok F) (j_ok F) (touchAccount a) (j_ok F) (\<lambda>_. True)"
    by (rule j_ok_yields, erule touch_keeps)
       (auto simp: touchAccount_def Let_def is_evm_error_def split: if_splits option.splits)
qed

lemma transient_yields [yields_rules]: "yields (ts_ok F) (ts_ok F) (ts_put a key val) (ts_ok F) (\<lambda>_. True)"
proof (rule yields_intro)
  fix s r t assume "ts_ok F s" "ts_put a key val s = (Inr r, t)"
  then show "ts_ok F t \<and> True \<and> ts_ok F t" using ts.write_law [of s t] by (auto simp: ts_ok_def ts_write_def)
qed (auto simp: ts_put_def Let_def split: if_splits)

text \<open>The state manager keeps its checkpoints, and keeps balances nonnegative when it is given nonnegative
  balances.\<close>

definition acc_ok :: "account option \<Rightarrow> bool" where
  "acc_ok acc = (case acc of None \<Rightarrow> True | Some b \<Rightarrow> 0 \<le> acc_balance b)"

lemma sm_ok_write: "sm_ok F s \<Longrightarrow> sm_write sample_externals s t \<Longrightarrow> balances_ok t \<Longrightarrow> sm_ok F t"
  using sm.write_law [of s sample_externals t] by (auto simp: sm_ok_def)

lemma getAccount_yields [yields_rules]: "yields (sm_ok F) (sm_ok F) (sm_getAccount a) (sm_ok F) acc_ok"
  by (rule yieldsI)
     (auto simp: sm_getAccount_def sm_ok_def balances_ok_def acc_ok_def split: if_splits option.split dest: last_in_set)

lemma balances_ok_top:
  "balances_ok sm \<Longrightarrow> accountStack sm \<noteq> [] \<Longrightarrow> acc_ok acc \<Longrightarrow>
   balances_ok (sm\<lparr>accountStack := set_top (accountStack sm) ((last (accountStack sm))(a := acc))\<rparr>)"
  by (auto simp: balances_ok_def set_top_def acc_ok_def split: if_splits dest: in_set_butlastD last_in_set)

lemma putAccount_yields [yields_rules]:
  assumes "acc_ok acc"
  shows "yields (sm_ok F) (sm_ok F) (sm_putAccount a acc) (sm_ok F) (\<lambda>_. True)"
proof (rule yields_intro)
  fix s r t assume s: "sm_ok F s" "sm_putAccount a acc s = (Inr r, t)"
  then have "balances_ok t" using assms by (auto simp: sm_putAccount_def sm_ok_def balances_ok_top split: if_splits)
  moreover have "sm_write sample_externals s t" using s(2) by (auto simp: sm_write_def)
  ultimately show "sm_ok F t \<and> True \<and> sm_ok F t" using sm_ok_write s(1) by blast
qed (auto simp: sm_putAccount_def split: if_splits)

lemma modifyAccountFields_yields [yields_rules]:
  assumes "\<And>b. 0 \<le> acc_balance b \<Longrightarrow> 0 \<le> acc_balance (upd b)"
  shows "yields (sm_ok F) (sm_ok F) (sm_modifyAccountFields a upd) (sm_ok F) (\<lambda>_. True)"
  unfolding sm_modifyAccountFields_def
  by (rule yields_rules)+
     (auto simp: acc_ok_def new_account_def account_of_def intro!: assms split: option.splits)

lemma sm_reads_yields [yields_rules]:
  "yields (sm_ok F) (sm_ok F) (sm_getCode a) (sm_ok F) (\<lambda>_. True)"
  "yields (sm_ok F) (sm_ok F) (sm_getStorage a key) (sm_ok F) (\<lambda>_. True)"
  by (rule yieldsI;
      auto simp: sm_getCode_def sm_getStorage_def split: if_splits option.splits sum.splits prod.splits)+

lemma sm_storage_yields [yields_rules]:
  "yields (sm_ok F) (sm_ok F) (sm_getOriginalStorage a key) (sm_ok F) (\<lambda>_. True)"
  "yields (sm_ok F) (sm_ok F) (sm_putStorage a key val) (sm_ok F) (\<lambda>_. True)"
proof -
  have get: "sm_getOriginalStorage a key s = (r, t) \<Longrightarrow> accountStack t = accountStack s" for s r t
    by (auto simp: sm_getOriginalStorage_def sm_getStorage_def original_put_def bindE_run seqE_run
        split: if_splits option.splits sum.splits prod.splits)
  have put: "sm_putStorage a key val s = (r, t) \<Longrightarrow> accountStack t = accountStack s" for s r t
    by (auto simp: sm_putStorage_def split: if_splits option.splits)
  have thrown: "sm_getOriginalStorage a key s = (Inl e, t) \<Longrightarrow> t = s" "sm_putStorage a key val s = (Inl e, t) \<Longrightarrow> t = s" for s e t
    by (auto simp: sm_getOriginalStorage_def sm_getStorage_def sm_putStorage_def original_put_def bindE_run seqE_run
        split: if_splits option.splits sum.splits prod.splits)
  show "yields (sm_ok F) (sm_ok F) (sm_getOriginalStorage a key) (sm_ok F) (\<lambda>_. True)"
  proof (rule yields_intro)
    fix s r t assume s: "sm_ok F s" "sm_getOriginalStorage a key s = (Inr r, t)"
    then have "balances_ok t" using get by (auto simp: sm_ok_def balances_ok_def)
    moreover have "sm_write sample_externals s t" using s(2) by (auto simp: sm_write_def)
    ultimately show "sm_ok F t \<and> True \<and> sm_ok F t" using sm_ok_write s(1) by blast
  qed (use thrown in blast)
  show "yields (sm_ok F) (sm_ok F) (sm_putStorage a key val) (sm_ok F) (\<lambda>_. True)"
  proof (rule yields_intro)
    fix s r t assume s: "sm_ok F s" "sm_putStorage a key val s = (Inr r, t)"
    then have "balances_ok t" using put by (auto simp: sm_ok_def balances_ok_def)
    moreover have "sm_write sample_externals s t" using s(2) by (auto simp: sm_write_def)
    ultimately show "sm_ok F t \<and> True \<and> sm_ok F t" using sm_ok_write s(1) by blast
  qed (use thrown in blast)
qed

lemma journal_putAccount_yields [yields_rules]:
  "acc_ok acc \<Longrightarrow> yields (world_ok F) (world_ok F) (journal_putAccount a acc) (world_ok F) (\<lambda>_. True)"
  unfolding journal_putAccount_def by (rule yields_rules | assumption)+

text \<open>The operand stack keeps nonnegative words.\<close>

lemma stack_yields [yields_rules]:
  "0 \<le> v \<Longrightarrow> yields (\<lambda>_. True) words_ok (stack_push v) words_ok (\<lambda>_. True)"
  "yields (\<lambda>_. True) words_ok stack_pop words_ok (\<lambda>v. 0 \<le> v)"
  "yields (\<lambda>_. True) words_ok (stack_popN n) words_ok (\<lambda>vs. length vs = n \<and> (\<forall>v \<in> set vs. 0 \<le> v))"
  "yields (\<lambda>_. True) words_ok (stack_peek n) words_ok (\<lambda>vs. length vs = n \<and> (\<forall>v \<in> set vs. 0 \<le> v))"
  subgoal by (rule yieldsI) (auto simp: words_ok_def push_run store_at_view intro: wf_intros split: if_splits)
  subgoal
  proof (rule yieldsI)
    fix s r t assume s: "words_ok s" "stack_pop s = (Inr r, t)"
    then obtain vs where vs: "stack_view s = r # vs" "t = shrink 1 s"
      by (auto simp: words_ok_def pop_run split: list.splits)
    moreover have "1 \<le> stk_len s" using s vs length_stack_view [of s] by (simp add: words_ok_def)
    ultimately show "0 \<le> r \<and> words_ok t" using s by (auto simp: words_ok_def shrink_view intro: wf_intros)
  qed
  subgoal by (rule yieldsI)
    (auto simp: words_ok_def popN_run shrink_view intro: wf_intros dest: in_set_takeD in_set_dropD split: if_splits)
  subgoal by (rule yieldsI) (auto simp: words_ok_def peek_run dest: in_set_takeD split: if_splits)
  done

lemma stack_dup_yields: "0 < n \<Longrightarrow> yields (\<lambda>_. True) words_ok (stack_dup n) words_ok (\<lambda>_. True)"
  by (rule yieldsI)
     (auto simp: words_ok_def dup_run store_at_view intro: wf_intros split: if_splits)

lemma stack_swap_yields: "yields (\<lambda>_. True) words_ok (stack_swap n) words_ok (\<lambda>_. True)"
proof (rule yieldsI)
  fix st r t assume st: "words_ok st" "stack_swap n st = (Inr r, t)"
  show "True \<and> words_ok t"
  proof (cases "n < length (stack_view st)")
    case True
    obtain store where "t = st\<lparr>stk_store := store\<rparr>" "stack_wf t"
      "stack_view t = exchange_list 0 n (stack_view st)"
      using swap_run [of st n] True st by (auto simp: words_ok_def)
    moreover have "set (exchange_list 0 n (stack_view st)) = set (stack_view st)"
      using True set_swap [of 0 "stack_view st" n] by (cases "stack_view st = []") (simp_all add: exchange_list_def)
    ultimately show ?thesis using st by (simp add: words_ok_def)
  next
    case False
    then show ?thesis using swap_under [of st n] st by (auto simp: words_ok_def)
  qed
qed

section \<open>Parameters\<close>

text \<open>All parameters of all tables are nonnegative.\<close>

definition value_ok :: "param_value \<Rightarrow> bool" where
  "value_ok p = (case p of PBig v \<Rightarrow> 0 \<le> v | PNum v \<Rightarrow> 0 \<le> v | PNull \<Rightarrow> True)"

lemma tables_nonneg: "list_all (\<lambda>(eip, ps). list_all (value_ok \<circ> snd) ps) EIP_PARAMS_entries"
  by (simp add: EIP_PARAMS_entries_def param_tables value_ok_def)

lemma EIP1_nonneg: "list_all (value_ok \<circ> snd) EIP1_PARAMS"
  by (simp add: EIP1_PARAMS_def value_ok_def)

lemma getParam_nonneg: "getParamAtHardfork cfg name hf = Some p \<Longrightarrow> value_ok p"
  using getParam_in_tables [of cfg name hf p] tables_nonneg EIP1_nonneg by (fastforce simp: list_all_iff)

section \<open>Invariants of a frame\<close>

locale frame_invariant =
  fixes F :: below and I :: "run_state \<Rightarrow> bool"
  assumes ok: "I rs \<Longrightarrow> frame_core F rs"
    and result_fields: "I rs \<Longrightarrow> I (rs\<lparr>rs_gasRefund := g\<rparr>)" "I rs \<Longrightarrow> I (rs\<lparr>res_logs := logs\<rparr>)"
      "I rs \<Longrightarrow> I (rs\<lparr>rs_returnBytes := bs\<rparr>)" "I rs \<Longrightarrow> I (rs\<lparr>res_selfdestruct := as\<rparr>)"
      "I rs \<Longrightarrow> I (rs\<lparr>res_createdAddresses := created\<rparr>)" "I rs \<Longrightarrow> I (rs\<lparr>rs_messageGasLimit := None\<rparr>)"
      "I rs \<Longrightarrow> I (rs\<lparr>res_returnValue := v\<rparr>)"
    and transient: "I rs \<Longrightarrow> ts_ok F ts \<Longrightarrow> I (rs\<lparr>rs_transient := ts\<rparr>)"
    and world: "I rs \<Longrightarrow> world_ok F w \<Longrightarrow> I (rs\<lparr>rs_world := w\<rparr>)"
    and contract: "I rs \<Longrightarrow> 0 \<le> acc_balance acc \<Longrightarrow> I (rs\<lparr>rs_env := (rs_env rs)\<lparr>env_contract := acc\<rparr>\<rparr>)"
    and memory: "I rs \<Longrightarrow> I (rs\<lparr>rs_memory := mm\<rparr>)"
    and charge: "I rs \<Longrightarrow> rs_memoryWordCount rs \<le> n \<Longrightarrow>
      I (rs\<lparr>rs_highestMemCost := memory_total n, rs_memoryWordCount := n\<rparr>)"
begin

lemma env: "I rs \<Longrightarrow> env_ok (rs_env rs)" and worldI: "I rs \<Longrightarrow> world_ok F (rs_world rs)"
  and transientI: "I rs \<Longrightarrow> ts_ok F (rs_transient rs)"
  using ok by (simp_all add: frame_core_def)

lemma words: "I rs \<Longrightarrow> words_ok (rs_stack rs)"
  using ok by (simp add: frame_core_def frame_wf_def words_ok_def stk_def)

lemma refunds [yields_rules]:
  "yields (safe F G) I (refundGas g) I (\<lambda>_. True)" "yields (safe F G) I (subRefund g) I (\<lambda>_. True)"
  by (rule yieldsI; auto simp: refundGas_def subRefund_def Let_def intro: result_fields split: if_splits)+

lemma on_world [yields_rules]: "yields (world_ok F) (world_ok F) m (world_ok F) A \<Longrightarrow> yields (safe F G) I (onWorld m) I A"
  by (rule yields_onWorld) (auto intro: worldI world)

lemma on_transient [yields_rules]: "yields (ts_ok F) (ts_ok F) m (ts_ok F) A \<Longrightarrow> yields (safe F G) I (onTransient m) I A"
  by (rule yields_onTransient) (auto intro: transientI transient)

lemma on_memory [yields_rules]: "yields (safe F G) I (onMemory m) I (\<lambda>_. True)"
  by (rule yieldsI) (auto simp: onMemory_def intro: memory split: prod.splits)

lemma set_contract_y [yields_rules]: "0 \<le> acc_balance acc \<Longrightarrow> yields (safe F G) I (set_contract acc) I (\<lambda>_. True)"
  unfolding set_contract_def by (rule yields_modify) (simp_all add: contract)

lemma storageLoad_y [yields_rules]: "yields (safe F G) I (storageLoad key original) I (\<lambda>_. True)"
  unfolding storageLoad_def by (rule yields_rules)+

lemma storageStore_y [yields_rules]: "yields (safe F G) I (storageStore key val) I (\<lambda>_. True)"
  unfolding storageStore_def by (rule yields_rules | simp add: acc_ok_def)+

lemma getExternalBalance_y [yields_rules]: "yields (safe F G) I (getExternalBalance a) I (\<lambda>v. 0 \<le> v)"
proof -
  have "yields (safe F G) I (if a = env_address env then returnE (acc_balance (env_contract env))
      else bindE (onWorld (on_sm (sm_getAccount a)))
       (\<lambda>acc. returnE (acc_balance (case acc of None \<Rightarrow> new_account | Some b \<Rightarrow> b)))) I (\<lambda>v. 0 \<le> v)"
    if "0 \<le> acc_balance (env_contract env)" for env
    by (rule yields_if, rule yields_return, use that in simp, (rule yields_rules)+, rule yields_return)
       (auto simp: acc_ok_def new_account_def account_of_def split: option.splits)
  moreover have "yields (safe F G) I (getsE rs_env) I (\<lambda>e. 0 \<le> acc_balance (env_contract e))"
    by (rule yields_gets_post) (use env in \<open>simp add: env_ok_def\<close>)
  ultimately show ?thesis unfolding getExternalBalance_def by (auto intro: yields_bind)
qed

lemma memory_y [yields_rules]:
  "yields (safe F G) I (mem_read offset len b) I (\<lambda>_. True)" "yields (safe F G) I (mem_write offset len val) I (\<lambda>_. True)"
  unfolding mem_read_def mem_write_def by (rule yields_rules)+

lemma allocate_y [yields_rules]: "yields (safe F G) I (allocate c offset len) I (\<lambda>_. True)"
  by (rule yields_intro) (auto simp: allocate_def Let_def is_evm_error_def split: if_splits)

lemma read_data_y [yields_rules]: "yields (safe F G) I (read_data offset len b) I (\<lambda>_. True)"
  unfolding read_data_def by (rule yields_rules | rule yields_return)+ simp

lemma small_y [yields_rules]:
  "yields (safe F G) I (word_buf c v) I (\<lambda>_. True)" "yields (safe F G) I (stored_value c v) I (\<lambda>_. True)"
  "yields (safe F G) I (stack_address c v) I (\<lambda>_. True)" "yields (safe F G) I (no_witness c) I (\<lambda>_. True)"
  by (rule yieldsI; simp add: word_buf_def stored_value_def stack_address_def no_witness_def witness_unmodelled_def
        split: if_splits)+

lemma word_bufs_y [yields_rules]: "yields (safe F G) I (word_bufs c vs) I (\<lambda>_. True)"
  by (induction vs; unfold word_bufs.simps; (rule yields_rules small_y | assumption | rule yields_return | simp)+)

lemma param_y [yields_rules]:
  "yields (safe F G) I (big_param_at c name hf) I (\<lambda>v. 0 \<le> v)" "yields (safe F G) I (param c name) I (\<lambda>v. 0 \<le> v)"
  by (rule yieldsI; force simp: big_param_at_def param_def param_at_def value_ok_def
        split: option.splits param_value.splits dest: getParam_nonneg)+

lemma subMemUsage_y [yields_rules]:
  assumes "0 \<le> offset" "0 \<le> len"
  shows "yields (safe F G) I (subMemUsage c offset len) I (\<lambda>g. 0 \<le> g)"
proof (rule yieldsI)
  fix s r t assume s: "I s" "subMemUsage c offset len s = (Inr r, t)"
  define w where "w = words_after (rs_memoryWordCount s) (offset, len)"
  have paid: "memory_paid s" using ok [OF s(1)] by (simp add: frame_core_def)
  from subMemUsage_run [OF this assms, of c] s(2)
  have t: "t = s\<lparr>rs_highestMemCost := memory_total w, rs_memoryWordCount := w\<rparr>"
    "r = memory_total w - memory_total (rs_memoryWordCount s)" by (simp_all add: w_def)
  have le: "rs_memoryWordCount s \<le> w" unfolding w_def by (rule words_after_ge)
  moreover have "memory_total (rs_memoryWordCount s) \<le> memory_total w"
    using memory_total_mono [of "rs_memoryWordCount s" w] paid le by (cases "rs_memoryWordCount s = w") (auto simp: memory_paid_def)
  ultimately show "0 \<le> r \<and> I t" using charge [OF s(1) le] t by simp
next
  fix s assume "safe F G s" "I s"
  then show "safe F G (snd (subMemUsage c offset len s))"
    using subMemUsage_run [of s, OF _ assms, of c] ok [of s] by (simp add: frame_core_def)
qed

lemma peek_y [yields_rules]: "yields (safe F G) I (peek n) I (\<lambda>vs. length vs = n \<and> (\<forall>v \<in> set vs. 0 \<le> v))"
  by (rule yieldsI)
     (use words in \<open>auto simp: peek_def onStack_def peek_run words_ok_def split: if_splits dest: in_set_takeD\<close>)

lemma peek1_y [yields_rules]: "yields (safe F G) I peek1 I (\<lambda>v. 0 \<le> v)"
  unfolding peek1_def by (rule yields_bind, rule peek_y, rule yields_return) simp

lemma plus_cost_y:
  "yields (safe F G) I cost I (\<lambda>g. 0 \<le> g) \<Longrightarrow> (\<And>g. gas \<le> g \<Longrightarrow> yields (safe F G) I (k g) J B) \<Longrightarrow>
   yields (safe F G) I (plus_cost gas cost k) J B"
  unfolding plus_cost_def by (rule yields_bind [where A = "\<lambda>g. 0 \<le> g" and K = I]) simp_all

lemma accessAddress_y [yields_rules]: "yields (safe F G) I (accessAddressEIP2929 c a charge sd) I (\<lambda>g. 0 \<le> g)"
  unfolding accessAddressEIP2929_def by (rule yields_rules | rule yields_return | simp)+

lemma accessStorage_y [yields_rules]: "yields (safe F G) I (accessStorageEIP2929 c key sstore charge) I (\<lambda>g. 0 \<le> g)"
  unfolding accessStorageEIP2929_def by (rule yields_rules | rule yields_return | simp)+

lemma word_cost_y [yields_rules]:
  assumes "0 \<le> len"
  shows "yields (safe F G) I (word_cost c name len) I (\<lambda>g. 0 \<le> g)"
proof -
  have "(0 :: int) \<le> (len + 31) div 32" using assms by (simp add: pos_imp_zdiv_nonneg_iff)
  then show ?thesis unfolding word_cost_def using divCeil_eq [of len 32] assms
    by - (rule yields_rules | rule yields_return | simp)+
qed

lemma access_y [yields_rules]:
  "yields (safe F G) I (access_cost c a) I (\<lambda>g. 0 \<le> g)" "yields (safe F G) I (eip7702GasCost c a b) I (\<lambda>g. 0 \<le> g)"
  unfolding access_cost_def eip7702GasCost_def by (rule yields_rules | rule yields_return | simp)+

lemma copy_cost_y [yields_rules]: "0 \<le> len \<Longrightarrow> yields (safe F G) I (copy_cost c len) I (\<lambda>g. 0 \<le> g)"
  unfolding copy_cost_def by (rule yields_rules | rule yields_return | simp)+

end

text \<open>Invariants that also allow any gas limit of the next message.\<close>

locale gas_invariant = frame_invariant +
  assumes limits: "I rs \<Longrightarrow> I (rs\<lparr>rs_messageGasLimit := lim\<rparr>)"
begin

lemma limits_y [yields_rules]: "yields (safe F G) I (set_messageGasLimit g) I (\<lambda>_. True)"
  unfolding set_messageGasLimit_def by (rule yields_modify) (simp_all add: limits)

end

text \<open>Invariants that also allow the operand stack to change.\<close>

locale stack_invariant = frame_invariant +
  assumes stack: "I rs \<Longrightarrow> words_ok st \<Longrightarrow> I (rs\<lparr>rs_stack := st\<rparr>)"
    and limit: "I rs \<Longrightarrow> lim_ok rs"
begin

lemma on_stack: "yields (\<lambda>_. True) words_ok m words_ok A \<Longrightarrow> yields (safe F G) I (onStack m) I A"
  by (rule yields_onStack) (auto intro: words stack)

lemma stack_y [yields_rules]:
  "0 \<le> v \<Longrightarrow> yields (safe F G) I (push v) I (\<lambda>_. True)"
  "yields (safe F G) I pop I (\<lambda>v. 0 \<le> v)"
  "yields (safe F G) I (popN n) I (\<lambda>vs. length vs = n \<and> (\<forall>v \<in> set vs. 0 \<le> v))"
  unfolding push_def pop_def popN_def by (rule on_stack stack_yields | assumption)+

lemma pops_y [yields_rules]:
  "(\<And>a b. 0 \<le> a \<Longrightarrow> 0 \<le> b \<Longrightarrow> yields (safe F G) I (f2 a b) J A) \<Longrightarrow> yields (safe F G) I (pop2 f2) J A"
  "(\<And>a b d. 0 \<le> a \<Longrightarrow> 0 \<le> b \<Longrightarrow> 0 \<le> d \<Longrightarrow> yields (safe F G) I (f3 a b d) J A) \<Longrightarrow> yields (safe F G) I (pop3 f3) J A"
  "(\<And>a b d e. 0 \<le> a \<Longrightarrow> 0 \<le> b \<Longrightarrow> 0 \<le> d \<Longrightarrow> 0 \<le> e \<Longrightarrow> yields (safe F G) I (f4 a b d e) J A) \<Longrightarrow> yields (safe F G) I (pop4 f4) J A"
  unfolding pop2_def pop3_def pop4_def by (rule yields_bind, rule stack_y(3), simp)+

end

section \<open>The invariants of the development\<close>

definition frame_at :: "below \<Rightarrow> control_state \<Rightarrow> int \<Rightarrow> run_state \<Rightarrow> bool" where
  "frame_at F k g rs \<longleftrightarrow> frame_ok F rs \<and> control rs = k \<and> rs_gasLeft rs = g"

text \<open>A frame whose operand stack is known, before the gas handler and between it and the payment.\<close>

definition ready_at :: "below \<Rightarrow> control_state \<Rightarrow> int \<Rightarrow> stack \<Rightarrow> run_state \<Rightarrow> bool" where
  "ready_at F k g st rs \<longleftrightarrow> frame_at F k g rs \<and> rs_stack rs = st"

definition gas_at :: "below \<Rightarrow> control_state \<Rightarrow> int \<Rightarrow> stack \<Rightarrow> run_state \<Rightarrow> bool" where
  "gas_at F k g st rs \<longleftrightarrow> frame_core F rs \<and> control rs = k \<and> rs_gasLeft rs = g \<and> rs_stack rs = st"

text \<open>A frame after a call has at most the gas it had before.\<close>

definition frame_upto :: "below \<Rightarrow> control_state \<Rightarrow> int \<Rightarrow> run_state \<Rightarrow> bool" where
  "frame_upto F k g rs \<longleftrightarrow> frame_ok F rs \<and> control rs = k \<and> rs_gasLeft rs \<le> g"

lemmas frame_invs = frame_at_def ready_at_def gas_at_def frame_upto_def frame_ok_def frame_core_def lim_ok_def
  opt_nonneg_def control_def frame_wf_def stk_def env_ok_def world_ok_def memory_paid_def words_ok_def

interpretation at: stack_invariant F "frame_at F k g" for F k g
  by unfold_locales (auto simp: frame_invs)

interpretation ready: frame_invariant F "ready_at F k g st" for F k g st
  by unfold_locales (auto simp: frame_invs)

interpretation gas: gas_invariant F "gas_at F k g st" for F k g st
  by unfold_locales (auto simp: frame_invs)

interpretation upto: stack_invariant F "frame_upto F k g" for F k g
  by unfold_locales (auto simp: frame_invs)

end
