(* ===== verification/GasSafety.thy ===== *)
theory GasSafety
  imports FrameLogic
begin

text \<open>
  Every dynamic gas handler of a legacy instruction returns at least the gas it was given, changes
  neither the gas left nor anything the main loop reads, and keeps the frame well formed.
\<close>

lemma sdiv_words_nonneg: "0 \<le> v \<Longrightarrow> 0 \<le> (v + 31) sdiv (32 :: int)"
  by (simp add: sdiv_eq_div pos_imp_zdiv_nonneg_iff)

context frame_invariant
begin

lemma gas_copies:
  "yields (safe F G) I (dynamicGasKeccak256 c gas) I (\<lambda>r. gas \<le> r)"
  "yields (safe F G) I (dynamicGasCalldatacopy c gas) I (\<lambda>r. gas \<le> r)"
  "yields (safe F G) I (dynamicGasCodecopy c gas) I (\<lambda>r. gas \<le> r)"
  "yields (safe F G) I (dynamicGasReturndatacopy c gas) I (\<lambda>r. gas \<le> r)"
  unfolding dynamicGasKeccak256_def dynamicGasCalldatacopy_def dynamicGasCodecopy_def dynamicGasReturndatacopy_def
  by (rule yields_rules plus_cost_y | rule yields_return | force)+

lemma gas_accounts:
  "yields (safe F G) I (dynamicGasBalance c gas) I (\<lambda>r. gas \<le> r)"
  "yields (safe F G) I (dynamicGasExtcodesize c gas) I (\<lambda>r. gas \<le> r)"
  "yields (safe F G) I (dynamicGasExtcodecopy c gas) I (\<lambda>r. gas \<le> r)"
  "yields (safe F G) I (dynamicGasExtcodehash c gas) I (\<lambda>r. gas \<le> r)"
  "yields (safe F G) I (dynamicGasSload c gas) I (\<lambda>r. gas \<le> r)"
  unfolding dynamicGasBalance_def dynamicGasExtcodesize_def dynamicGasExtcodecopy_def dynamicGasExtcodehash_def
    dynamicGasSload_def
  by (rule yields_rules plus_cost_y | rule yields_return | force)+

lemma gas_memory:
  "yields (safe F G) I (dynamicGasMload c gas) I (\<lambda>r. gas \<le> r)"
  "yields (safe F G) I (dynamicGasMstore c gas) I (\<lambda>r. gas \<le> r)"
  "yields (safe F G) I (dynamicGasMstore8 c gas) I (\<lambda>r. gas \<le> r)"
  "yields (safe F G) I (dynamicGasReturn c gas) I (\<lambda>r. gas \<le> r)"
  "yields (safe F G) I (dynamicGasRevert c gas) I (\<lambda>r. gas \<le> r)"
  unfolding dynamicGasMload_def dynamicGasMstore_def dynamicGasMstore8_def dynamicGasReturn_def dynamicGasRevert_def
  by (rule yields_rules plus_cost_y | rule yields_return | force)+

lemma gas_mcopy: "yields (safe F G) I (dynamicGasMcopy c gas) I (\<lambda>r. gas \<le> r)"
  unfolding dynamicGasMcopy_def Let_def
proof (rule yields_bind, rule peek_y)
  fix v :: "int list" assume "length v = 3 \<and> (\<forall>x \<in> set v. 0 \<le> x)"
  then have v: "0 \<le> v ! 0" "0 \<le> v ! 1" "0 \<le> v ! 2" by simp_all
  have le: "gas + 3 * ((v ! 2 + 31) sdiv 32) \<le> g \<Longrightarrow> g \<le> h \<Longrightarrow> gas \<le> h" for g h
    using sdiv_words_nonneg [OF v(3)] by linarith
  show "yields (safe F G) I (plus_cost (gas + 3 * ((v ! 2 + 31) sdiv 32)) (subMemUsage c (v ! 1) (v ! 2))
      (\<lambda>gas. plus_cost gas (subMemUsage c (v ! 0) (v ! 2)) returnE)) I (\<lambda>r. gas \<le> r)"
    by (rule plus_cost_y subMemUsage_y v | rule yields_return | rule le, assumption+)+
qed

lemma gas_exp: "yields (safe F G) I (dynamicGasExp c gas) I (\<lambda>r. gas \<le> r)"
  unfolding dynamicGasExp_def Let_def
proof -
  have charge: "0 \<le> p \<Longrightarrow> gas \<le> gas + int n * p" for p n by simp
  show "yields (safe F G) I (bindE (peek 2) (\<lambda>v. if v ! 1 = 0 then returnE gas
      else if div_up (length (toString2 (nat (v ! 1)))) 8 < 1 \<or> 32 < div_up (length (toString2 (nat (v ! 1)))) 8
      then trap OUT_OF_RANGE
      else bindE (param c ''expByteGas'')
        (\<lambda>p. returnE (gas + int (div_up (length (toString2 (nat (v ! 1)))) 8) * p)))) I (\<lambda>r. gas \<le> r)"
    by (rule yields_bind, rule peek_y)
       (rule yields_if yields_trap | rule yields_return | rule yields_bind, rule param_y | rule order_refl
        | rule charge, assumption)+
qed

lemma gas_log: "yields (safe F G) I (dynamicGasLog c gas) I (\<lambda>r. gas \<le> r)"
proof -
  have charge: "gas \<le> g + (t * topics + v ! 1 * d)"
    if "gas \<le> g" "0 \<le> t" "0 \<le> topics" "0 \<le> d" "length v = 2 \<and> (\<forall>x \<in> set v. 0 \<le> x)" for g t topics d and v :: "int list"
  proof -
    have "0 \<le> v ! 1" using that(5) by simp
    then show ?thesis using that by (simp add: mult_nonneg_nonneg add_increasing2)
  qed
  show ?thesis unfolding dynamicGasLog_def Let_def
    by (rule yields_rules plus_cost_y | rule yields_return | rule charge | force)+
qed

lemma updateSstoreGas_y [yields_rules]: "yields (safe F G) I (updateSstoreGas c cur val) I (\<lambda>g. 0 \<le> g)"
  unfolding updateSstoreGas_def by (rule yields_rules plus_cost_y | rule yields_return | force)+

lemma sstore_operands_y:
  "(\<And>key val cur. yields (safe F G) I (k key val cur) I (\<lambda>r. gas \<le> r)) \<Longrightarrow> yields (safe F G) I (sstore_operands c k) I (\<lambda>r. gas \<le> r)"
  unfolding sstore_operands_def by (rule yields_rules | assumption)+

lemma sstore_cold_y [yields_rules]: "yields (safe F G) I (sstore_cold c key) I (\<lambda>g. 0 \<le> g)"
  unfolding sstore_cold_def by (rule yields_rules plus_cost_y | rule yields_return | force)+

lemma dirty_y [yields_rules]:
  "yields (safe F G) I (sstore1283_dirty c hf original cur val) I (\<lambda>_. True)"
  "yields (safe F G) I (sstore2200_dirty c w r original cur val) I (\<lambda>_. True)"
  unfolding sstore1283_dirty_def sstore2200_dirty_def by (rule yields_rules plus_cost_y | rule yields_return | force)+

lemma gas_sstore:
  "yields (safe F G) I (dynamicGasSstore c gas) I (\<lambda>r. gas \<le> r)"
  "yields (safe F G) I (dynamicGasSstoreEIP1283 c gas) I (\<lambda>r. gas \<le> r)"
  unfolding dynamicGasSstore_def dynamicGasSstoreEIP1283_def Let_def
  by (rule sstore_operands_y, (rule yields_rules plus_cost_y | rule yields_return | force)+)+

lemma gas_sstore2200: "yields (safe F G) I (dynamicGasSstoreEIP2200 c gas) I (\<lambda>r. gas \<le> r)"
  unfolding dynamicGasSstoreEIP2200_def Let_def gasLeft_def
  by (rule sstore_operands_y, (rule yields_rules plus_cost_y | rule yields_return | force)+)

lemma gas_eof: "yields (safe F G) I (eof_gas c gas) I (\<lambda>r. gas \<le> r)"
  unfolding eof_gas_def eof_only_def by (rule yields_rules plus_cost_y | rule yields_return | force)+

lemma gas_selfdestruct: "yields (safe F G) I (dynamicGasSelfdestruct c gas) I (\<lambda>r. gas \<le> r)"
proof -
  have "yields (safe F G) I (new_account_charged c a bal) I (\<lambda>_. True)" for a bal
    unfolding new_account_charged_def by (rule yields_rules plus_cost_y | rule yields_return | force)+
  then show ?thesis unfolding dynamicGasSelfdestruct_def
    by - (rule yields_rules plus_cost_y | rule yields_return | assumption | force)+
qed

end

context gas_invariant
begin

lemma gas_create:
  "yields (safe F G) I (dynamicGasCreate c gas) I (\<lambda>r. gas \<le> r)"
  "yields (safe F G) I (dynamicGasCreate2 c gas) I (\<lambda>r. gas \<le> r)"
proof -
  have limit: "gas \<le> g \<Longrightarrow> yields (safe F G) I (create_limit c g) I (\<lambda>r. gas \<le> r)" for g
    unfolding create_limit_def gasLeft_def by (rule yields_rules | rule yields_return | assumption)+
  have words: "0 \<le> l \<Longrightarrow> yields (safe F G) I (bindE (big_param_at c name hf) (\<lambda>p. returnE (((l + 31) sdiv 32) * p))) I (\<lambda>g. 0 \<le> g)"
    "0 \<le> l \<Longrightarrow> yields (safe F G) I (bindE (param c name) (\<lambda>p. returnE (((l + 31) sdiv 32) * p))) I (\<lambda>g. 0 \<le> g)" for name hf l
    by (rule yields_bind, rule yields_rules, rule yields_return, simp add: sdiv_words_nonneg)+
  show "yields (safe F G) I (dynamicGasCreate c gas) I (\<lambda>r. gas \<le> r)"
    unfolding dynamicGasCreate_def
    by (rule words | rule yields_rules plus_cost_y limit | rule yields_return | force)+
  show "yields (safe F G) I (dynamicGasCreate2 c gas) I (\<lambda>r. gas \<le> r)"
    unfolding dynamicGasCreate2_def
    by (rule words | rule yields_rules plus_cost_y limit | rule yields_return | force)+
qed

lemma call_access_y:
  "(\<And>g. gas \<le> g \<Longrightarrow> yields (safe F G) I (k g) J B) \<Longrightarrow> yields (safe F G) I (call_access c gas a k) J B"
  unfolding call_access_def
  by (rule yields_rules plus_cost_y | rule yields_return | assumption | force)+

lemma call_memory_y:
  assumes "0 \<le> x1" "0 \<le> x2" "0 \<le> x3" "0 \<le> x4" "\<And>g. gas \<le> g \<Longrightarrow> yields (safe F G) I (k g) J B"
  shows "yields (safe F G) I (call_memory c gas x1 x2 x3 x4 k) J B"
  unfolding call_memory_def by (rule plus_cost_y subMemUsage_y assms | force)+

lemma gas_calls:
  "yields (safe F G) I (dynamicGasCallcode c gas) I (\<lambda>r. gas \<le> r)"
  "yields (safe F G) I (dynamicGasDelegatecall c gas) I (\<lambda>r. gas \<le> r)"
  "yields (safe F G) I (dynamicGasStaticcall c gas) I (\<lambda>r. gas \<le> r)"
  unfolding dynamicGasCallcode_def dynamicGasDelegatecall_def dynamicGasStaticcall_def Let_def gasLeft_def
  by (rule call_access_y call_memory_y yields_rules plus_cost_y | rule yields_return | force)+

end

section \<open>The price of sending value\<close>

text \<open>CALL and CALLCODE with a nonzero value charge at least 9000, more than the stipend they give.\<close>

definition value_price :: "stack \<Rightarrow> int" where
  "value_price st = (if stack_view st ! 2 \<noteq> 0 then 9000 else 0)"

lemma peek_words: "yields (safe F G) (gas_at F k g st) (peek n) (gas_at F k g st)
    (\<lambda>v. length v = n \<and> (\<forall>x \<in> set v. 0 \<le> x) \<and> (2 < n \<longrightarrow> v ! 2 = stack_view st ! 2))"
  by (rule yieldsI)
     (auto simp: peek_def onStack_def peek_run gas_at_def frame_core_def frame_wf_def stk_def
        split: if_splits dest!: in_set_takeD)

lemma value_transfer_y: "yields (safe F G) I (if b then param c ''callValueTransferGas'' else returnE 0) I
    (\<lambda>p. p = (if b then 9000 else 0))"
  by (rule yieldsI) (auto split: if_splits)

lemma plus_value_y:
  "(\<And>g. gas + (if b then 9000 else 0) \<le> g \<Longrightarrow> yields (safe F G) I (k g) J B) \<Longrightarrow>
   yields (safe F G) I (plus_cost gas (if b then param c ''callValueTransferGas'' else returnE 0) k) J B"
  unfolding plus_cost_def by (rule yields_bind, rule value_transfer_y) simp

lemma gas_callcode: "yields (safe F G) (gas_at F k g st) (dynamicGasCallcode c gas) (gas_at F k g st) (\<lambda>r. gas + value_price st \<le> r)"
  unfolding dynamicGasCallcode_def Let_def gasLeft_def
  by (rule yields_bind, rule peek_words)
     (rule gas.call_access_y gas.call_memory_y plus_value_y yields_rules | rule yields_return
      | force simp: value_price_def)+

lemma gas_call:
  assumes "\<not> eip_active c 6800"
  shows "yields (safe F G) (gas_at F k g st) (dynamicGasCall c gas) (gas_at F k g st) (\<lambda>r. gas + value_price st \<le> r)"
proof -
  have account: "yields (safe F G) (gas_at F k g st) (if fork_gte c ''spuriousDragon'' then
        (if b1 then param c ''callNewAccountGas'' else returnE 0)
      else if b2 then param c ''callNewAccountGas'' else returnE 0) (gas_at F k g st) (\<lambda>g. 0 \<le> g)" for b1 b2
    by (rule yields_rules | rule yields_return | simp)+
  show ?thesis
    unfolding dynamicGasCall_def Let_def gasLeft_def simp_thms(21)
    by (rule yields_bind, rule peek_words)
       (rule gas.call_access_y gas.call_memory_y account | (rule plus_value_y)
        | rule gas.plus_cost_y yields_rules | rule yields_return | force simp: value_price_def assms)+
qed

section \<open>The gas limit of the next message\<close>

text \<open>\<open>ends I P m\<close>: started in \<open>I\<close>, a normal result of \<open>m\<close> and the state it leaves satisfy \<open>P\<close>.\<close>

definition ends :: "(run_state \<Rightarrow> bool) \<Rightarrow> ('a \<Rightarrow> run_state \<Rightarrow> bool) \<Rightarrow> 'a evm \<Rightarrow> bool" where
  "ends I P m \<longleftrightarrow> (\<forall>s r t. I s \<longrightarrow> m s = (Inr r, t) \<longrightarrow> P r t)"

lemma ends_bind: "(\<And>x. ends (\<lambda>_. True) P (f x)) \<Longrightarrow> ends I P (bindE m f)"
  by (auto simp: ends_def bindE_run split: prod.splits sum.splits)

lemma ends_more:
  "(\<And>g. ends (\<lambda>_. True) P (k g)) \<Longrightarrow> ends I P (plus_cost gas cost k)"
  "(\<And>g. ends (\<lambda>_. True) P (k g)) \<Longrightarrow> ends I P (call_access c gas a k)"
  "(\<And>g. ends (\<lambda>_. True) P (k g)) \<Longrightarrow> ends I P (call_memory c gas x1 x2 x3 x4 k)"
  "ends I P (trap e)" "(b \<Longrightarrow> ends I P m) \<Longrightarrow> (\<not> b \<Longrightarrow> ends I P n) \<Longrightarrow> ends I P (if b then m else n)"
  unfolding plus_cost_def call_access_def call_memory_def seqE_def
  by (simp_all add: ends_bind) (simp add: ends_def trap_def)

lemma ends_peek:
  assumes "\<And>v. length v = n \<Longrightarrow> \<forall>x \<in> set v. 0 \<le> x \<Longrightarrow> ends (\<lambda>_. True) P (f v)"
  shows "ends (\<lambda>s. words_ok (rs_stack s)) P (bindE (peek n) f)"
proof -
  have "length v = n \<and> (\<forall>x \<in> set v. 0 \<le> x)" if "words_ok (rs_stack s)" "peek n s = (Inr v, t)" for s v t
    using that by (auto simp: peek_def onStack_def peek_run words_ok_def split: if_splits dest!: in_set_takeD)
  then show ?thesis using assms unfolding ends_def bindE_run
    by (fastforce split: prod.splits sum.splits)
qed

text \<open>When the gas can be paid, the limit set for the next message is not negative.\<close>

definition settled :: "int \<Rightarrow> run_state \<Rightarrow> bool" where
  "settled r t \<longleftrightarrow> (r \<le> rs_gasLeft t \<longrightarrow> lim_ok t)"

lemma maxCallGas_nonneg: "0 \<le> limit \<Longrightarrow> 0 \<le> left \<Longrightarrow> 0 \<le> maxCallGas c limit left"
proof -
  assume "0 \<le> limit" "0 \<le> left"
  moreover from this have "left sdiv 64 \<le> left" using sdiv_eq_div [of left 64] by simp
  ultimately show ?thesis by (simp add: maxCallGas_def Let_def)
qed

lemma settled_limit:
  assumes "\<And>left. 0 \<le> left - gas \<Longrightarrow> 0 \<le> f left"
  shows "ends I settled (bindE gasLeft (\<lambda>left. seqE (set_messageGasLimit (f left)) (returnE gas)))"
    "ends I settled (bindE gasLeft (\<lambda>left. if b1 left then trap e1 else seqE (set_messageGasLimit (f left)) (returnE gas)))"
    "ends I settled (bindE gasLeft (\<lambda>left. if b1 left then trap e1 else if b2 left then trap e2
       else seqE (set_messageGasLimit (f left)) (returnE gas)))"
  using assms by (auto simp: ends_def gasLeft_def set_messageGasLimit_def bindE_run seqE_run settled_def lim_ok_def
      opt_nonneg_def trap_def split: if_splits)

lemma settled_create: "ends I settled (dynamicGasCreate c gas)" "ends I settled (dynamicGasCreate2 c gas)"
proof -
  have limit: "ends I settled (create_limit c g)" for I g
    unfolding create_limit_def by (rule settled_limit) (simp add: maxCallGas_nonneg)
  show "ends I settled (dynamicGasCreate c gas)" "ends I settled (dynamicGasCreate2 c gas)"
    unfolding dynamicGasCreate_def dynamicGasCreate2_def by (rule limit ends_bind ends_more)+
qed

lemma settled_calls:
  "ends (\<lambda>s. words_ok (rs_stack s)) settled (dynamicGasCall c gas)"
  "ends (\<lambda>s. words_ok (rs_stack s)) settled (dynamicGasCallcode c gas)"
  "ends (\<lambda>s. words_ok (rs_stack s)) settled (dynamicGasDelegatecall c gas)"
  "ends (\<lambda>s. words_ok (rs_stack s)) settled (dynamicGasStaticcall c gas)"
proof -
  have nonneg: "0 \<le> left - g \<Longrightarrow> 0 \<le> maxCallGas c (v ! 0) (left - g)" if "length v = n" "\<forall>x \<in> set v. 0 \<le> x" "0 < n"
    for v :: "int list" and n left g using that by (intro maxCallGas_nonneg) simp_all
  show "ends (\<lambda>s. words_ok (rs_stack s)) settled (dynamicGasCall c gas)"
    unfolding dynamicGasCall_def Let_def
    by (rule ends_peek) (rule settled_limit, erule nonneg, assumption, simp, assumption | rule ends_bind ends_more)+
  show "ends (\<lambda>s. words_ok (rs_stack s)) settled (dynamicGasCallcode c gas)"
    unfolding dynamicGasCallcode_def Let_def
    by (rule ends_peek) (rule settled_limit, erule nonneg, assumption, simp, assumption | rule ends_bind ends_more)+
  show "ends (\<lambda>s. words_ok (rs_stack s)) settled (dynamicGasDelegatecall c gas)"
    unfolding dynamicGasDelegatecall_def Let_def
    by (rule ends_peek) (rule settled_limit, erule nonneg, assumption, simp, assumption | rule ends_bind ends_more)+
  show "ends (\<lambda>s. words_ok (rs_stack s)) settled (dynamicGasStaticcall c gas)"
    unfolding dynamicGasStaticcall_def Let_def
    by (rule ends_peek) (rule settled_limit, erule nonneg, assumption, simp, assumption | rule ends_bind ends_more)+
qed

end
