(* ===== verification/HandlerSafety.thy ===== *)
theory HandlerSafety
  imports GasSafety
begin

text \<open>
  Every instruction other than jumps, PUSH and calls leaves what the main loop reads and the gas
  as they were and keeps the frame well formed; jumps and PUSH only move the program counter.
\<close>

section \<open>Nonnegative results\<close>

lemma mod_pos_nonneg: "0 < b \<Longrightarrow> 0 \<le> mod_pos a b"
  by (simp add: mod_pos_eq)

lemma mod_pos_256: "0 \<le> mod_pos a TWO_POW256"
  by (rule mod_pos_nonneg) (simp add: TWO_POW256_def)

lemma toTwos_nonneg: "0 \<le> toTwos a"
  by (simp add: toTwos_def)

lemma smod_nonneg: "0 \<le> a \<Longrightarrow> 0 \<le> a smod (b :: int)"
  by (cases "b = 0") (auto simp: signed_modulo_int_def sgn_if)

lemma exponentiation_loop_nonneg: "0 \<le> t \<Longrightarrow> 0 \<le> bas \<Longrightarrow> 0 \<le> exponentiation_loop t bas exp"
proof (induction t bas exp rule: exponentiation_loop.induct)
  case (1 t bas exp)
  then show ?case by (subst exponentiation_loop.simps) (simp add: smod_nonneg)
qed

lemma bool_bigint_nonneg: "0 \<le> bool_bigint b"
  by (simp add: bool_bigint_def)

lemma bigint_shr_nonneg: "0 \<le> x \<Longrightarrow> 0 \<le> bigint_shr x n" "0 \<le> x \<Longrightarrow> 0 \<le> bigint_shl x n"
  by (simp_all add: bigint_shr_def bigint_shl_def)

lemma MAX_nonneg: "0 \<le> MAX_INTEGER_BIGINT"
  by (simp add: MAX_INTEGER_BIGINT_def)

lemmas nonneg_rules = mod_pos_256 toTwos_nonneg smod_nonneg exponentiation_loop_nonneg bool_bigint_nonneg
  bigint_shr_nonneg MAX_nonneg asUintN_bounds(1)

text \<open>What a message leaves as it was: the checkpoints below the current one.\<close>

definition state_ok :: "below \<Rightarrow> world \<times> transient_storage \<Rightarrow> bool" where
  "state_ok F s \<longleftrightarrow> world_ok F (fst s) \<and> ts_ok F (snd s)"

context stack_invariant
begin

lemma arithmetic_y [yields_rules]:
  "yields (safe F G) I opAdd I (\<lambda>_. True)" "yields (safe F G) I opMul I (\<lambda>_. True)" "yields (safe F G) I opSub I (\<lambda>_. True)"
  "yields (safe F G) I opDiv I (\<lambda>_. True)" "yields (safe F G) I opSdiv I (\<lambda>_. True)" "yields (safe F G) I opMod I (\<lambda>_. True)"
  "yields (safe F G) I opSmod I (\<lambda>_. True)" "yields (safe F G) I opAddmod I (\<lambda>_. True)" "yields (safe F G) I opMulmod I (\<lambda>_. True)"
  unfolding opAdd_def opMul_def opSub_def opDiv_def opSdiv_def opMod_def opSmod_def opAddmod_def opMulmod_def
  by (rule yields_rules | simp add: nonneg_rules mod_pos_nonneg)+

lemma exp_y [yields_rules]: "yields (safe F G) I opExp I (\<lambda>_. True)"
  unfolding opExp_def exponentiation_def by (rule yields_rules | simp add: nonneg_rules)+

lemma signextend_y [yields_rules]: "yields (safe F G) I opSignextend I (\<lambda>_. True)"
proof -
  have mask: "0 \<le> bigint_shl 1 (k * 8 + 7) - 1" if "0 \<le> k" for k
    using that by (simp add: bigint_shl_def push_bit_eq_mult)
  show ?thesis unfolding opSignextend_def Let_def
    by (rule yields_rules | simp add: nonneg_rules mask)+
qed

lemma comparison_y [yields_rules]:
  "yields (safe F G) I opLt I (\<lambda>_. True)" "yields (safe F G) I opGt I (\<lambda>_. True)" "yields (safe F G) I opSlt I (\<lambda>_. True)"
  "yields (safe F G) I opSgt I (\<lambda>_. True)" "yields (safe F G) I opEq I (\<lambda>_. True)" "yields (safe F G) I opIszero I (\<lambda>_. True)"
  unfolding opLt_def opGt_def opSlt_def opSgt_def opEq_def opIszero_def
  by (rule yields_rules | rule bool_bigint_nonneg)+

lemma bitwise_y [yields_rules]:
  "yields (safe F G) I opAnd I (\<lambda>_. True)" "yields (safe F G) I opOr I (\<lambda>_. True)" "yields (safe F G) I opXor I (\<lambda>_. True)"
  "yields (safe F G) I opNot I (\<lambda>_. True)" "yields (safe F G) I opByte I (\<lambda>_. True)" "yields (safe F G) I opShl I (\<lambda>_. True)"
  "yields (safe F G) I opShr I (\<lambda>_. True)" "yields (safe F G) I opSar I (\<lambda>_. True)"
  unfolding opAnd_def opOr_def opXor_def opNot_def opByte_def opShl_def opShr_def opSar_def Let_def
  by (rule yields_rules | simp add: nonneg_rules)+

lemma stack_memory_y [yields_rules]:
  "yields (safe F G) I opPop I (\<lambda>_. True)" "yields (safe F G) I opPush0 I (\<lambda>_. True)"
  "yields (safe F G) I (opMload c) I (\<lambda>_. True)" "yields (safe F G) I (opMstore c) I (\<lambda>_. True)" "yields (safe F G) I (opMstore8 c) I (\<lambda>_. True)"
  "yields (safe F G) I (opMcopy c) I (\<lambda>_. True)" "yields (safe F G) I opJumpdest I (\<lambda>_. True)"
  unfolding opPop_def opPush0_def opMload_def opMstore_def opMstore8_def opMcopy_def opJumpdest_def
  by (rule yields_rules | rule yields_return | simp)+

lemma msize_y [yields_rules]: "yields (safe F G) I opMsize I (\<lambda>_. True)"
  unfolding opMsize_def
  by (rule yields_bind, rule yields_gets_post [where A = "\<lambda>n. 0 \<le> n"])
     (use ok in \<open>auto simp: frame_ok_def frame_core_def lim_ok_def memory_paid_def intro: yields_rules\<close>)

lemma gas_y [yields_rules]: "yields (safe F G) I opGas I (\<lambda>_. True)"
  unfolding opGas_def
  by (rule yields_bind, rule yields_gets_post [where A = "\<lambda>n. 0 \<le> n"])
     (use ok in \<open>auto simp: frame_ok_def frame_core_def lim_ok_def intro: yields_rules\<close>)

lemma finish_y [yields_rules]:
  "yields (safe F G) I (finish d) I (\<lambda>_. True)" "yields (safe F G) I (interp_revert d) I (\<lambda>_. True)"
  unfolding finish_def interp_revert_def
  by (rule yields_seq, rule yields_modify [where J = I], simp_all add: result_fields yields_trap)+

lemma control_y [yields_rules]:
  "yields (safe F G) I opStop I (\<lambda>_. True)" "yields (safe F G) I opReturn I (\<lambda>_. True)"
  "yields (safe F G) I opRevert I (\<lambda>_. True)" "yields (safe F G) I opInvalid I (\<lambda>_. True)"
  unfolding opStop_def opReturn_def opRevert_def opInvalid_def by (rule yields_rules)+

lemma keccak_y [yields_rules]: "yields (safe F G) I (opKeccak256 c) I (\<lambda>_. True)"
  unfolding opKeccak256_def by (rule yields_rules | simp)+

lemma storage_y [yields_rules]:
  "yields (safe F G) I (opSload c) I (\<lambda>_. True)" "yields (safe F G) I (opSstore c) I (\<lambda>_. True)"
  unfolding opSload_def opSstore_def by (rule yields_rules | simp add: loaded_value_def)+

lemma transient_y [yields_rules]:
  "yields (safe F G) I (opTload c) I (\<lambda>_. True)" "yields (safe F G) I (opTstore c) I (\<lambda>_. True)"
  unfolding opTload_def opTstore_def transientStorageLoad_def transientStorageStore_def
  by (rule yields_rules | simp add: loaded_value_def)+

lemma log_y [yields_rules]: "yields (safe F G) I (opLog c) I (\<lambda>_. True)"
proof -
  have logged: "yields (safe F G) I (interp_log mem n topics) I (\<lambda>_. True)" for mem n topics
    unfolding interp_log_def by (rule yields_if yields_trap yields_modify | simp add: result_fields)+
  show ?thesis unfolding opLog_def Let_def by (rule yields_rules logged)+
qed

lemma header_gets:
  "(\<And>h. header_ok h \<Longrightarrow> 0 \<le> f h) \<Longrightarrow> yields (safe F G) I (bindE (getsE (header f)) push) I (\<lambda>_. True)"
  by (rule yields_bind, rule yields_gets_post [where A = "\<lambda>n. 0 \<le> n"])
     (use env in \<open>auto simp: header_def env_ok_def intro: yields_rules\<close>)

lemma push_gets:
  "(\<And>rs. I rs \<Longrightarrow> 0 \<le> f rs) \<Longrightarrow> yields (safe F G) I (bindE (getsE f) push) I (\<lambda>_. True)"
  by (rule yields_bind, rule yields_gets_post [where A = "\<lambda>n. 0 \<le> n"]) (auto intro: yields_rules)

lemma block_y [yields_rules]:
  "yields (safe F G) I (opCoinbase c) I (\<lambda>_. True)" "yields (safe F G) I opTimestamp I (\<lambda>_. True)" "yields (safe F G) I opNumber I (\<lambda>_. True)"
  "yields (safe F G) I (opDifficulty c) I (\<lambda>_. True)" "yields (safe F G) I opGaslimit I (\<lambda>_. True)"
  "yields (safe F G) I opSelfbalance I (\<lambda>_. True)"
  unfolding opCoinbase_def opTimestamp_def opNumber_def opDifficulty_def opGaslimit_def opSelfbalance_def
  by (rule yields_if header_gets push_gets
      | use env in \<open>force simp: header_ok_def env_ok_def getBlockCoinbase_def getBlockPrevRandao_def Let_def\<close>)+

lemma fees_y [yields_rules]: "yields (safe F G) I opBasefee I (\<lambda>_. True)" "yields (safe F G) I opBlobbasefee I (\<lambda>_. True)"
proof -
  have some: "hdr_baseFeePerGas (env_block (rs_env rs)) = Some r \<Longrightarrow> 0 \<le> r"
    "hdr_blobGasPrice (env_block (rs_env rs)) = Some r \<Longrightarrow> 0 \<le> r" if "I rs" for rs r
    using env [OF that] by (simp_all add: env_ok_def header_ok_def opt_nonneg_def)
  have nonneg: "yields (safe F G) I getBlockBaseFee I (\<lambda>v. 0 \<le> v)" "yields (safe F G) I getBlobBaseFee I (\<lambda>v. 0 \<le> v)"
    by (auto intro!: yieldsI dest: some simp: getBlockBaseFee_def getBlobBaseFee_def bindE_run split: option.splits)
  show "yields (safe F G) I opBasefee I (\<lambda>_. True)" unfolding opBasefee_def by (rule yields_bind, rule nonneg) (rule stack_y)
  show "yields (safe F G) I opBlobbasefee I (\<lambda>_. True)" unfolding opBlobbasefee_def by (rule yields_bind, rule nonneg) (rule stack_y)
qed

lemma blobhash_y [yields_rules]: "yields (safe F G) I opBlobhash I (\<lambda>_. True)"
  unfolding opBlobhash_def by (rule yields_rules | simp)+

lemma chainid_y: "0 \<le> getChainId c \<Longrightarrow> yields (safe F G) I (opChainid c) I (\<lambda>_. True)"
  unfolding opChainid_def by (rule stack_y)

lemma blockhash_y [yields_rules]: "yields (safe F G) I (opBlockhash c) I (\<lambda>_. True)"
proof -
  have "yields (safe F G) I (historyAddress c hf) I (\<lambda>_. True)" for hf
    unfolding historyAddress_def by (rule yields_bind, rule yields_lift, rule yieldsI) simp_all
  then show ?thesis unfolding opBlockhash_def Let_def witness_unmodelled_def
    by - (rule yields_rules | assumption | simp)+
qed

lemma environment_y [yields_rules]:
  "yields (safe F G) I (opAddress c) I (\<lambda>_. True)" "yields (safe F G) I (opBalance c) I (\<lambda>_. True)" "yields (safe F G) I (opOrigin c) I (\<lambda>_. True)"
  "yields (safe F G) I (opCaller c) I (\<lambda>_. True)" "yields (safe F G) I opCallvalue I (\<lambda>_. True)" "yields (safe F G) I opCalldatasize I (\<lambda>_. True)"
  "yields (safe F G) I opCodesize I (\<lambda>_. True)" "yields (safe F G) I opGasprice I (\<lambda>_. True)" "yields (safe F G) I opReturndatasize I (\<lambda>_. True)"
  unfolding opAddress_def opBalance_def opOrigin_def opCaller_def opCallvalue_def opCalldatasize_def opCodesize_def
    opGasprice_def opReturndatasize_def
  by (rule push_gets yields_rules
      | use env in \<open>force simp: env_ok_def getTxOrigin_def getCaller_def getCallDataSize_def getCodeSize_def
          getReturnDataSize_def\<close>)+

lemma copies_y [yields_rules]:
  "yields (safe F G) I opCalldatacopy I (\<lambda>_. True)" "yields (safe F G) I opCodecopy I (\<lambda>_. True)" "yields (safe F G) I opReturndatacopy I (\<lambda>_. True)"
  "yields (safe F G) I (opExtcodecopy c) I (\<lambda>_. True)"
  unfolding opCalldatacopy_def opCodecopy_def opReturndatacopy_def opExtcodecopy_def copy_slice_def
  by (rule yields_rules | rule yields_return | simp)+

lemma extcode_y [yields_rules]:
  "yields (safe F G) I (opExtcodesize c) I (\<lambda>_. True)" "yields (safe F G) I (opExtcodehash c) I (\<lambda>_. True)"
  unfolding opExtcodesize_def opExtcodehash_def
  by (rule yields_rules | simp)+

lemma calldataload_y [yields_rules]: "yields (safe F G) I (opCalldataload c) I (\<lambda>_. True)"
proof -
  have f: "yields (safe F G) I (\<lambda>rs. (if b rs then push 0 else push (f rs)) rs) I (\<lambda>_. True)" if "\<And>rs. 0 \<le> f rs" for b f
    by (rule yields_at [where K = I]) (metis stack_y(1) order_refl that)
  show ?thesis unfolding opCalldataload_def Let_def
    by (rule yields_bind, rule stack_y, rule f) (simp add: bigint_shl_def)
qed

lemma eof_y [yields_rules]: "yields (safe F G) I eof_only I (\<lambda>_. True)"
  unfolding eof_only_def by (rule yields_rules)+

text \<open>SELFDESTRUCT always ends the frame.\<close>

lemma selfdestruct_y [yields_rules]: "yields (safe F G) I (opSelfdestruct c) I (\<lambda>_. True)"
proof -
  have refund: "yields (safe F G) I (if b then bindE (param c ''selfdestructRefundGas'') refundGas else returnE ()) I (\<lambda>_. True)" for b
    by (rule yields_if, (rule yields_rules)+, rule yields_return) simp
  have credit: "yields (safe F G) I (if a \<noteq> self then
       bindE (onWorld (on_sm (sm_getAccount a))) (\<lambda>acc.
         bindE (getsE (\<lambda>rs. acc_balance (env_contract (rs_env rs)))) (\<lambda>bal.
           let b = (case acc of None \<Rightarrow> new_account | Some b \<Rightarrow> b) in
           onWorld (journal_putAccount a (Some (b\<lparr>acc_balance := acc_balance b + bal\<rparr>)))))
     else returnE ()) I (\<lambda>_. True)" for a self
    unfolding Let_def
    apply (rule yields_if)
     apply (rule yields_bind, rule on_world, rule on_sm_yields, rule getAccount_yields)
     apply (rule yields_bind, rule yields_gets_post [where A = "\<lambda>n. 0 \<le> n"])
      apply (use env in \<open>simp add: env_ok_def\<close>)
     apply (rule on_world, rule journal_putAccount_yields)
     apply (simp add: acc_ok_def new_account_def account_of_def split: option.splits)
    by (rule yields_return) simp
  have modify: "yields (safe F G) I (if \<not> eip_active c 6780 then returnE True
      else bindE (getsE res_createdAddresses) (\<lambda>created. case created of
             None \<Rightarrow> throwE TypeError
           | Some xs \<Rightarrow> returnE (self \<in> set xs \<or> a \<noteq> self))) I (\<lambda>_. True)" for self a
    by (rule yields_rules | rule yields_return | simp)+
  have clear: "yields (safe F G) I (if b then onWorld (on_sm (sm_modifyAccountFields self (\<lambda>a. a\<lparr>acc_balance := 0\<rparr>)))
      else returnE ()) I (\<lambda>_. True)" for b self
    by (rule yields_rules | rule yields_return | simp)+
  have add: "yields (safe F G) I (modifyE (\<lambda>rs. rs\<lparr>res_selfdestruct := set_insert self (res_selfdestruct rs)\<rparr>)) I (\<lambda>_. True)" for self
    by (rule yields_modify) (simp_all add: result_fields)
  show ?thesis
    unfolding opSelfdestruct_def interp_selfDestruct_def
    by (rule refund credit modify clear add | rule yields_rules)+
qed

section \<open>Messages\<close>

lemma on_evm_state:
  assumes "yields (state_ok F) P m Q A" "\<And>s. J s \<Longrightarrow> I s \<and> P (rs_world s, rs_transient s)"
  shows "yields (safe F G) J (onEvmState m) I A"
proof (rule yields_intro)
  fix s r t assume s: "safe F G s" "J s" "onEvmState m s = (Inr r, t)"
  then obtain w ts where m: "m (rs_world s, rs_transient s) = (Inr r, (w, ts))"
    "t = s\<lparr>rs_world := w, rs_transient := ts\<rparr>"
    by (auto simp: onEvmState_def split: prod.splits)
  have i: "I s" "P (rs_world s, rs_transient s)" using assms(2) [OF s(2)] by simp_all
  have "state_ok F (rs_world s, rs_transient s)" using worldI [OF i(1)] transientI [OF i(1)] by (simp add: state_ok_def)
  from yieldsD [OF assms(1) this i(2) m(1)] yields_kept [OF assms(1) this i(2) m(1)]
  have "A r" "world_ok F w" "ts_ok F ts" by (simp_all add: state_ok_def)
  then show "safe F G t \<and> A r \<and> I t"
    using m(2) transient [OF world [OF i(1)]] safe_transient [OF safe_world [OF s(1)]] by simp
next
  fix s e t assume s: "safe F G s" "J s" "onEvmState m s = (Inl e, t)" "is_evm_error e"
  then obtain w ts where m: "m (rs_world s, rs_transient s) = (Inl e, (w, ts))"
    "t = s\<lparr>rs_world := w, rs_transient := ts\<rparr>"
    by (auto simp: onEvmState_def split: prod.splits)
  have i: "I s" "P (rs_world s, rs_transient s)" using assms(2) [OF s(2)] by simp_all
  have "state_ok F (rs_world s, rs_transient s)" using worldI [OF i(1)] transientI [OF i(1)] by (simp add: state_ok_def)
  then have "world_ok F w" "ts_ok F ts" using yields_thrown [OF assms(1) _ i(2) m(1) s(4)] by (simp_all add: state_ok_def)
  then show "safe F G t" using m(2) safe_transient [OF safe_world [OF s(1)]] by simp
qed

lemma call_results_y [yields_rules]:
  "yields (safe F G) I (append_logs er) I (\<lambda>_. True)" "yields (safe F G) I (adopt_refund er) I (\<lambda>_. True)"
  "yields (safe F G) I (modifyE (\<lambda>rs. rs\<lparr>rs_returnBytes := bs\<rparr>)) I (\<lambda>_. True)"
  unfolding append_logs_def adopt_refund_def
  by (rule yields_option yields_modify result_fields | rule yields_return | assumption | simp)+

lemma adopt_sets_y [yields_rules]: "yields (safe F G) I (adopt_sets c res) I (\<lambda>_. True)"
  unfolding adopt_sets_def
  by (rule yields_rules | rule yields_modify, rule result_fields, assumption | rule yields_return | simp)+

lemma refresh_contract_y [yields_rules]: "yields (safe F G) I refresh_contract I (\<lambda>_. True)"
  unfolding refresh_contract_def by (rule yields_rules | simp add: acc_ok_def)+

lemma clear_y [yields_rules]: "yields (safe F G) I clear_messageGasLimit I (\<lambda>_. True)"
  unfolding clear_messageGasLimit_def by (rule yields_modify, rule result_fields, assumption, simp)

lemma limit_y: "yields (safe F G) I (getsE rs_messageGasLimit) I opt_nonneg"
  by (rule yields_gets_post) (use limit in \<open>simp add: lim_ok_def\<close>)

lemma take_y [yields_rules]: "yields (safe F G) I take_messageGasLimit I (\<lambda>g. 0 \<le> g)"
  unfolding take_messageGasLimit_def
  by (rule yields_bind, rule limit_y, rule yields_option, rule yields_throw, rule yields_seq, rule yields_modify,
      rule result_fields, assumption, simp, rule yields_return) (simp add: opt_nonneg_def)

lemma writeCallOutput_y [yields_rules]: "yields (safe F G) I (writeCallOutput off len) I (\<lambda>_. True)"
  unfolding writeCallOutput_def Let_def by (rule yields_rules | rule yields_return | simp)+

end

section \<open>Calls\<close>

text \<open>What the interpreter needs of \<open>runCall\<close> for the message of a nested frame: balances stay nonnegative,
  the checkpoints are as before, and the gas it reports as used is not negative. A creation is only
  sent when its sender can pay the value.\<close>

definition sound_message :: "message \<Rightarrow> bool" where
  "sound_message msg \<longleftrightarrow> 0 < msg_depth msg \<and> 0 \<le> msg_gasLimit msg \<and> 0 \<le> msg_value msg"

definition balance_of :: "address \<Rightarrow> world \<Rightarrow> int" where
  "balance_of a w = acc_balance (case top_map (accountStack (wl_sm w)) a of None \<Rightarrow> new_account | Some acc \<Rightarrow> acc)"

definition funded :: "message \<Rightarrow> world \<times> transient_storage \<Rightarrow> bool" where
  "funded msg s \<longleftrightarrow> (msg_to msg = None \<longrightarrow> msg_value msg \<le> balance_of (msg_caller msg) (fst s))"

definition run_call_ok :: "run_call \<Rightarrow> bool" where
  "run_call_ok rc \<longleftrightarrow> (\<forall>F msg. sound_message msg \<longrightarrow> yields (state_ok F) (funded msg) (rc msg) (\<lambda>_. True)
     (\<lambda>res. 0 \<le> er_executionGasUsed (ev_execResult res)))"

lemma run_call_y: "run_call_ok rc \<Longrightarrow> sound_message msg \<Longrightarrow>
    yields (safe F G) (\<lambda>s. frame_upto F k g s \<and> funded msg (rs_world s, rs_transient s)) (onEvmState (rc msg)) (frame_upto F k g)
      (\<lambda>res. 0 \<le> er_executionGasUsed (ev_execResult res))"
  unfolding run_call_ok_def by (blast intro: upto.on_evm_state)

lemma run_call_to_y: "run_call_ok rc \<Longrightarrow> sound_message msg \<Longrightarrow> msg_to msg \<noteq> None \<Longrightarrow>
    yields (safe F G) (frame_upto F k g) (onEvmState (rc msg)) (frame_upto F k g)
      (\<lambda>res. 0 \<le> er_executionGasUsed (ev_execResult res))"
  by (rule yields_pre [OF run_call_y]) (auto simp: funded_def)

lemma validate_y: "0 < msg_depth msg \<Longrightarrow> 0 \<le> msg_gasLimit msg \<Longrightarrow>
    yields X I (liftE (message_validate msg)) I (\<lambda>m. m = msg \<and> sound_message m)"
  by (rule yields_intro) (auto simp: message_validate_def sound_message_def is_evm_error_def split: if_splits)

lemma useGas_upto: "0 \<le> n \<Longrightarrow> yields (safe F G) (frame_upto F k g) (useGas n) (frame_upto F k g) (\<lambda>_. True)"
  by (rule yieldsI) (auto simp: useGas_def Let_def safe_def frame_upto_def frame_ok_def frame_core_def lim_ok_def frame_wf_def stk_def control_def
      memory_paid_def split: if_splits)

lemma getReturnCode_y: "yields (safe F G) (frame_upto F k g) (getsE (getReturnCode er b)) (frame_upto F k g) (\<lambda>v. 0 \<le> v)"
  by (rule yields_gets_post) (simp add: getReturnCode_def split: option.split)

lemma upto_returnBytes:
  "safe F G s \<Longrightarrow> frame_upto F k g s \<Longrightarrow> safe F G (s\<lparr>rs_returnBytes := bs\<rparr>) \<and> frame_upto F k g (s\<lparr>rs_returnBytes := bs\<rparr>)"
  using upto.result_fields by simp

lemma results_y:
  assumes "0 \<le> er_executionGasUsed (ev_execResult results)"
  shows "yields (safe F G) (frame_upto F k g) (base_results c results) (frame_upto F k g) (\<lambda>v. 0 \<le> v)"
    "yields (safe F G) (frame_upto F k g) (create_results c results) (frame_upto F k g) (\<lambda>v. 0 \<le> v)"
  unfolding base_results_def create_results_def Let_def
  by (rule getReturnCode_y useGas_upto [OF assms] yields_rules | rule yields_return | simp)+

lemma none_y: "yields (safe F G) I (returnE 0) I (\<lambda>v. (0 :: int) \<le> v)"
  by (rule yields_return) simp

lemma baseCall_y:
  assumes "run_call_ok rc" "sound_message msg" "msg_to msg \<noteq> None"
  shows "yields (safe F G) (frame_upto F k g) (baseCall c rc msg) (frame_upto F k g) (\<lambda>v. 0 \<le> v)"
proof (rule yields_at [where K = "frame_upto F k g"])
  fix s assume s: "safe F G s" "frame_upto F k g s"
  let ?m = "msg\<lparr>msg_selfdestruct := Some (res_selfdestruct s), msg_gasRefund := rs_gasRefund s,
      msg_createdAddresses := copy_created c s (msg_createdAddresses msg)\<rparr>"
  have "sound_message ?m" "msg_to ?m \<noteq> None" using assms(2,3) by (simp_all add: sound_message_def)
  then have body: "yields (safe F G) (frame_upto F k g) (bindE (onEvmState (rc ?m)) (base_results c)) (frame_upto F k g) (\<lambda>v. 0 \<le> v)"
    by (intro yields_bind [OF run_call_to_y [OF assms(1)] results_y(1)])
  note s' = upto_returnBytes [OF s, of "[]"]
  show "\<exists>n u. baseCall c rc msg s = n u \<and> safe F G u \<and> frame_upto F k g u
      \<and> yields (safe F G) (frame_upto F k g) n (frame_upto F k g) (\<lambda>v. 0 \<le> v)"
    unfolding baseCall_def Let_def using s' body none_y by (metis (no_types, lifting) returnE_run)
qed

lemma send_y:
  assumes "run_call_ok rc" "\<And>rs. 0 < msg_depth (m rs) \<and> 0 \<le> msg_gasLimit (m rs) \<and> msg_to (m rs) \<noteq> None"
  shows "yields (safe F G) (frame_upto F k g) (send c rc m) (frame_upto F k g) (\<lambda>v. 0 \<le> v)"
  unfolding send_def
  by (rule yields_bind, rule yields_gets, rule yields_bind, rule validate_y)
     (use assms(2) in \<open>auto intro: baseCall_y [OF assms(1)]\<close>)

lemma child_sound: "0 \<le> lim \<Longrightarrow> 0 < msg_depth (child_message rs lim val data) \<and> 0 \<le> msg_gasLimit (child_message rs lim val data)"
  by (simp add: child_message_def default_message_def)

text \<open>A creation is sent after the sender's account, with enough balance, was stored.\<close>

definition control_address :: "control_state \<Rightarrow> address" where
  "control_address k = (case k of (pc, i, code, an, valid, pushes, depth, static, a) \<Rightarrow> a)"

lemma upto_address: "frame_upto F k g s \<Longrightarrow> env_address (rs_env s) = control_address k"
  by (auto simp: frame_upto_def control_def control_address_def)

definition upto_funded :: "below \<Rightarrow> control_state \<Rightarrow> int \<Rightarrow> int \<Rightarrow> run_state \<Rightarrow> bool" where
  "upto_funded F k g val s \<longleftrightarrow> frame_upto F k g s \<and> val \<le> balance_of (control_address k) (rs_world s)"

lemma put_funded_y:
  assumes "0 \<le> acc_balance acc" "val \<le> acc_balance acc"
  shows "yields (safe F G) (frame_upto F k g) (onWorld (journal_putAccount (control_address k) (Some acc)))
    (upto_funded F k g val) (\<lambda>_. True)"
proof (rule yields_intro)
  let ?m = "onWorld (journal_putAccount (control_address k) (Some acc))"
  have y: "yields (safe F G) (frame_upto F k g) ?m (frame_upto F k g) (\<lambda>_. True)"
    by (rule upto.on_world journal_putAccount_yields | simp add: acc_ok_def assms)+
  fix s r t assume s: "safe F G s" "frame_upto F k g s" "?m s = (Inr r, t)"
  have "sm_wf (wl_sm (rs_world s))" using upto.worldI [OF s(2)] by (simp add: world_ok_def sm_ok_def)
  then have "balance_of (control_address k) (rs_world t) = acc_balance acc"
    using s(3) by (auto simp: onWorld_def journal_putAccount_def seqE_run on_journal_def on_sm_def sm_putAccount_def
        balance_of_def top_map_def set_top_def sm_wf_def split: prod.splits sum.splits if_splits)
  then show "safe F G t \<and> True \<and> upto_funded F k g val t"
    using yieldsD [OF y s] yields_kept [OF y s] assms(2) by (simp add: upto_funded_def)
next
  fix s e t assume s: "safe F G s" "frame_upto F k g s" "onWorld (journal_putAccount (control_address k) (Some acc)) s = (Inl e, t)" "is_evm_error e"
  have "acc_ok (Some acc)" using assms(1) by (simp add: acc_ok_def)
  then show "safe F G t" by (rule yields_thrown [OF upto.on_world [OF journal_putAccount_yields] s])
qed

lemma create_send_y:
  assumes "run_call_ok rc" "\<And>rs. 0 < msg_depth (m rs) \<and> 0 \<le> msg_gasLimit (m rs)
      \<and> msg_value (m rs) = val \<and> msg_caller (m rs) = env_address (rs_env rs)"
  shows "yields (safe F G) (upto_funded F k g val) (create_send c rc m) (frame_upto F k g) (\<lambda>v. 0 \<le> v)"
  unfolding create_send_def
proof (rule yields_bind, rule yields_gets)
  fix r assume "\<exists>s. upto_funded F k g val s \<and> r = m s"
  then have r: "0 < msg_depth r" "0 \<le> msg_gasLimit r" "msg_value r = val" "msg_caller r = control_address k"
    using assms(2) by (auto simp: upto_funded_def upto_address)
  show "yields (safe F G) (upto_funded F k g val) (bindE (liftE (message_validate r)) (\<lambda>msg. bindE (onEvmState (rc msg)) (create_results c)))
      (frame_upto F k g) (\<lambda>v. 0 \<le> v)"
  proof (rule yields_bind, rule validate_y [OF r(1,2)])
    fix msg assume "msg = r \<and> sound_message msg"
    then show "yields (safe F G) (upto_funded F k g val) (bindE (onEvmState (rc msg)) (create_results c)) (frame_upto F k g) (\<lambda>v. 0 \<le> v)"
      using r(3,4) by (intro yields_bind [OF yields_pre [OF run_call_y [OF assms(1)]] results_y(2)])
        (auto simp: upto_funded_def funded_def)
  qed
qed

lemma create_y:
  assumes "run_call_ok rc" "0 \<le> lim"
  shows "yields (safe F G) (frame_upto F k g) (interp_create c rc lim val codeToRun salt) (frame_upto F k g) (\<lambda>v. 0 \<le> v)"
proof (rule yields_at [where K = "frame_upto F k g"])
  have rest: "yields (safe F G) (frame_upto F k g) (seqE (set_contract acc)
      (seqE (onWorld (journal_putAccount (control_address k) (Some acc))) (if b then returnE 0
        else create_send c rc (create_message c lim val codeToRun salt sd))))
      (frame_upto F k g) (\<lambda>v. 0 \<le> v)" if "0 \<le> acc_balance acc" "val \<le> acc_balance acc" for acc b sd
  proof (rule yields_seq, rule upto.set_contract_y [OF that(1)], rule yields_seq, rule put_funded_y [OF that], rule yields_if)
    show "yields (safe F G) (upto_funded F k g val) (returnE 0) (frame_upto F k g) (\<lambda>v. (0 :: int) \<le> v)"
      by (rule yields_pre [OF none_y]) (simp add: upto_funded_def)
  qed (rule create_send_y [OF assms(1)], use assms(2) in \<open>simp add: create_message_def default_message_def\<close>)
  fix s assume s: "safe F G s" "frame_upto F k g s"
  have bal: "0 \<le> acc_balance (env_contract (rs_env s))" using upto.env [OF s(2)] by (simp add: env_ok_def)
  note s' = upto_returnBytes [OF s, of "[]"]
  let ?acc = "(env_contract (rs_env s))\<lparr>acc_nonce := acc_nonce (env_contract (rs_env s)) + 1\<rparr>"
  show "\<exists>n u. interp_create c rc lim val codeToRun salt s = n u \<and> safe F G u \<and> frame_upto F k g u
      \<and> yields (safe F G) (frame_upto F k g) n (frame_upto F k g) (\<lambda>v. 0 \<le> v)"
  proof (cases "call_depth_reached c (s\<lparr>rs_returnBytes := []\<rparr>) \<or> acc_balance (env_contract (rs_env s)) < val
      \<or> MAX_UINT64 \<le> acc_nonce (env_contract (rs_env s))")
    case True
    then have "interp_create c rc lim val codeToRun salt s = returnE 0 (s\<lparr>rs_returnBytes := []\<rparr>)"
      by (auto simp: interp_create_def Let_def)
    with s' none_y show ?thesis by blast
  next
    case False
    define n where "n = seqE (set_contract ?acc)
      (seqE (onWorld (journal_putAccount (env_address (rs_env s)) (Some ?acc)))
         (if eip_active c 3860 \<and> exceeds_initcode c (int (length codeToRun)) \<and> \<not> ctx_allowUnlimitedInitCodeSize c
          then returnE 0 else create_send c rc (create_message c lim val codeToRun salt (res_selfdestruct s))))"
    have "interp_create c rc lim val codeToRun salt s = n (s\<lparr>rs_returnBytes := []\<rparr>)"
      using False by (simp add: interp_create_def Let_def n_def)
    moreover have "yields (safe F G) (frame_upto F k g) n (frame_upto F k g) (\<lambda>v. 0 \<le> v)"
      unfolding n_def upto_address [OF s(2)] by (rule rest) (use False bal in simp_all)
    ultimately show ?thesis using s' by blast
  qed
qed

lemma create_body_y:
  assumes "run_call_ok rc" "yields (safe F G) (frame_upto F k g) salt (frame_upto F k g) (\<lambda>_. True)"
  shows "yields (safe F G) (frame_upto F k g) (create_body c rc val off len salt) (frame_upto F k g) (\<lambda>_. True)"
  unfolding create_body_def by (rule assms create_y yields_rules | assumption | simp)+

lemma opCreates_y:
  assumes "run_call_ok rc"
  shows "yields (safe F G) (frame_upto F k g) (opCreate c rc) (frame_upto F k g) (\<lambda>_. True)"
    "yields (safe F G) (frame_upto F k g) (opCreate2 c rc) (frame_upto F k g) (\<lambda>_. True)"
  unfolding opCreate_def opCreate2_def
  by (rule create_body_y assms yields_rules | rule yields_return | simp)+

lemma finish_call_y: "yields (safe F G) I m (frame_upto F k g) (\<lambda>v. 0 \<le> v) \<Longrightarrow>
    yields (safe F G) I (finish_call off len m) (frame_upto F k g) (\<lambda>_. True)"
  unfolding finish_call_def by (rule yields_bind, assumption) (rule yields_rules | assumption)+

text \<open>The stipend a call gives.\<close>

definition stipend :: "int \<Rightarrow> int" where
  "stipend val = (if val \<noteq> 0 then 2300 else 0)"

lemma with_stipend_y:
  assumes "g + stipend val \<le> G" "\<And>l. 0 \<le> l \<Longrightarrow> yields (safe F G) (frame_upto F k (g + stipend val)) (kk l) J A"
  shows "yields (safe F G) (frame_at F k g) (with_stipend c val kk) J A"
proof -
  have add: "yields (safe F G) (frame_at F k g) (addStipend 2300) (frame_upto F k (g + 2300)) (\<lambda>_. True)" if "val \<noteq> 0"
    using assms(1) that unfolding addStipend_def by (intro yields_modify)
      (auto simp: stipend_def safe_def frame_at_def frame_upto_def frame_ok_def frame_core_def lim_ok_def frame_wf_def stk_def control_def memory_paid_def)
  have param: "yields (safe F G) (frame_at F k g) (param c ''callStipendGas'') (frame_at F k g) (\<lambda>s. s = 2300)"
    by (rule yieldsI) simp_all
  have zero: "val = 0 \<Longrightarrow> 0 \<le> l \<Longrightarrow> yields (safe F G) (frame_at F k g) (kk l) J A" for l
    by (rule yields_pre [OF assms(2)]) (simp_all add: frame_at_def frame_upto_def stipend_def)
  have paid: "val \<noteq> 0 \<Longrightarrow> 0 \<le> l \<Longrightarrow> s = 2300 \<Longrightarrow> yields (safe F G) (frame_upto F k (g + 2300)) (kk (l + s)) J A" for l s
    using assms(2) [of "l + s"] by (simp add: stipend_def)
  show ?thesis unfolding with_stipend_def
    apply (rule yields_bind, rule at.limit_y, rule yields_option, rule yields_throw, rule yields_if)
     apply (rule yields_bind, rule param, simp, rule yields_seq, rule add, assumption)
     apply (metis paid opt_nonneg_def option.case(2))
    by (simp add: zero opt_nonneg_def)
qed

lemma popN_words: "yields (safe F G) (ready_at F k g st) (popN n) (frame_at F k g)
    (\<lambda>v. length v = n \<and> (\<forall>x \<in> set v. 0 \<le> x) \<and> (2 < n \<longrightarrow> v ! 2 = stack_view st ! 2))"
proof (rule yields_intro)
  fix s r t assume s: "safe F G s" "ready_at F k g st s" "popN n s = (Inr r, t)"
  have at: "frame_at F k g s" using s(2) by (simp add: ready_at_def)
  have "words_ok st" using s(2) by (auto simp: frame_invs)
  then have "r = take n (stack_view st)" "n \<le> length (stack_view st)"
    using s by (auto simp: popN_def onStack_def ready_at_def popN_run words_ok_def split: if_splits prod.splits)
  then show "safe F G t \<and> (length r = n \<and> (\<forall>x \<in> set r. 0 \<le> x) \<and> (2 < n \<longrightarrow> r ! 2 = stack_view st ! 2)) \<and> frame_at F k g t"
    using yieldsD [OF at.stack_y(3) s(1) at s(3)] yields_kept [OF at.stack_y(3) s(1) at s(3)] by auto
next
  fix s e t assume s: "safe F G s" "ready_at F k g st s" "popN n s = (Inl e, t)" "is_evm_error e"
  then have "frame_at F k g s" by (simp add: ready_at_def)
  then show "safe F G t" by (rule yields_thrown [OF at.stack_y(3) s(1) _ s(3,4)])
qed

lemma value_calls_y:
  assumes "run_call_ok rc" "g + stipend (stack_view st ! 2) \<le> G"
  shows "yields (safe F G) (ready_at F k g st) (opCall c rc) (frame_upto F k (g + stipend (stack_view st ! 2))) (\<lambda>_. True)"
    "yields (safe F G) (ready_at F k g st) (opCallcode c rc) (frame_upto F k (g + stipend (stack_view st ! 2))) (\<lambda>_. True)"
  unfolding opCall_def opCallcode_def interp_call_def interp_callCode_def
  subgoal by (rule yields_bind, rule popN_words, erule conjE)
    (rule with_stipend_y finish_call_y send_y assms(1) yields_rules | simp add: assms(2) child_sound)+
  subgoal by (rule yields_bind, rule popN_words, erule conjE)
    (rule with_stipend_y finish_call_y send_y assms(1) yields_rules | simp add: assms(2) child_sound)+
  done

lemma plain_calls_y:
  assumes "run_call_ok rc"
  shows "yields (safe F G) (frame_upto F k g) (opDelegatecall c rc) (frame_upto F k g) (\<lambda>_. True)"
    "yields (safe F G) (frame_upto F k g) (opStaticcall c rc) (frame_upto F k g) (\<lambda>_. True)"
  unfolding opDelegatecall_def opStaticcall_def interp_callDelegate_def interp_callStatic_def
  by (rule finish_call_y send_y assms yields_rules | simp add: child_sound)+

end
