(* ===== verification/JumpAnalysis.thy ===== *)
theory JumpAnalysis
  imports FrameFacts Interpreter
begin

text \<open>
  What \<open>_getValidJumpDestinations\<close> computes (\<open>src/packages/evm/src/interpreter.ts\<close>): instruction
  boundaries, and the caches the main loop and the handlers read afterwards.
\<close>

section \<open>Boundaries\<close>

lemma instr_size_pos [simp]: "0 < instr_size b"
  by (simp add: instr_size_def)

lemma boundary_from_ge: "boundary_from code i j \<Longrightarrow> i \<le> j"
  by (induction rule: boundary_from.induct) auto

lemma boundary_from_trans: "boundary_from code i j \<Longrightarrow> boundary_from code j k \<Longrightarrow> boundary_from code i k"
  by (induction rule: boundary_from.induct) (auto intro: boundary_from.intros)

lemma boundary_iff: "boundary code j \<longleftrightarrow> boundary_from code 0 j"
proof
  show "boundary code j \<Longrightarrow> boundary_from code 0 j"
  proof (induction rule: boundary.induct)
    case (next_instr i)
    have "boundary_from code i (i + instr_size (code ! i))" using next_instr.hyps by (blast intro: boundary_from.intros)
    then show ?case using next_instr.IH boundary_from_trans by blast
  qed (rule from_refl)
  have "boundary_from code i j \<Longrightarrow> boundary code i \<Longrightarrow> boundary code j" for i
    by (induction rule: boundary_from.induct) (auto intro: boundary.intros)
  then show "boundary_from code 0 j \<Longrightarrow> boundary code j" by (blast intro: boundary.intros)
qed

lemma boundary_from_step:
  "i < length code \<Longrightarrow> boundary_from code i j \<longleftrightarrow> j = i \<or> boundary_from code (i + instr_size (code ! i)) j"
  by (auto elim: boundary_from.cases intro: boundary_from.intros)

lemma boundary_from_end: "\<not> i < length code \<Longrightarrow> boundary_from code i j \<longleftrightarrow> j = i"
  by (auto elim: boundary_from.cases intro: boundary_from.intros)

definition is_push :: "byte \<Rightarrow> bool" where
  "is_push b \<longleftrightarrow> 0x60 \<le> unat b \<and> unat b \<le> 0x7f"

lemma instr_size_push: "instr_size b = (if is_push b then unat b - 0x5f + 1 else 1)"
  by (simp add: instr_size_def is_push_def)

section \<open>The analysis\<close>

text \<open>The analysis from \<open>i\<close> on adds the entries of the boundaries reachable from \<open>i\<close>.\<close>

lemma analyse_from_run:
  assumes "length (ja_jumps ja) = length code"
  shows "analyse_from x table code i ja =
    \<lparr>ja_jumps = map (\<lambda>j. if boundary_from code i j \<and> code ! j = 0x5b then 1 else ja_jumps ja ! j) [0..<length code],
     ja_pushes = (\<lambda>j. if 0 < j \<and> j - 1 < length code \<and> boundary_from code i (j - 1) \<and> is_push (code ! (j - 1))
                      then Some (push_data x code (j - 1)) else ja_pushes ja j),
     ja_opcodesCached = (\<lambda>j. if j < length code \<and> boundary_from code i j
                             then Some (op_opcode (table (unat (code ! j)))) else ja_opcodesCached ja j)\<rparr>"
  using assms
proof (induction x table code i ja rule: analyse_from.induct)
  case (1 x table code i ja)
  show ?case
  proof (cases "i < length code")
    case False
    have "map (\<lambda>j. if boundary_from code i j \<and> code ! j = 0x5b then 1 else ja_jumps ja ! j) [0..<length code]
        = map (\<lambda>j. ja_jumps ja ! j) [0..<length (ja_jumps ja)]"
      using False 1(4) by (auto simp: boundary_from_end)
    then show ?thesis using False
      by (subst analyse_from.simps)
         (cases ja, auto simp: boundary_from_end fun_eq_iff map_nth intro!: jump_analysis.equality)
  next
    case True
    define opcode where "opcode = unat (code ! i)"
    define ja1 where "ja1 = ja\<lparr>ja_opcodesCached := (ja_opcodesCached ja)(i \<mapsto> op_opcode (lookupOperation table opcode))\<rparr>"
    have later: "\<not> boundary_from code (i + instr_size (code ! i)) j" if "j \<le> i" for j
      using boundary_from_ge [of code "i + instr_size (code ! i)" j] that instr_size_pos [of "code ! i"] by linarith
    note split = boundary_from_step [OF True] 
    consider (push) "0x60 \<le> opcode \<and> opcode \<le> 0x7f" | (dest) "opcode = 0x5b" | (other) "\<not> (0x60 \<le> opcode \<and> opcode \<le> 0x7f)" "opcode \<noteq> 0x5b"
      by blast
    then show ?thesis
    proof cases
      case push
      let ?ja = "ja1\<lparr>ja_pushes := (ja_pushes ja1)(i + 1 \<mapsto> push_data x code i)\<rparr>"
      have sz: "i + (opcode - 0x5f) + 1 = i + instr_size (code ! i)" using push by (simp add: instr_size_def opcode_def)
      have p: "is_push (code ! i)" "code ! i \<noteq> 0x5b" using push by (auto simp: is_push_def opcode_def)
      have "analyse_from x table code i ja = analyse_from x table code (i + instr_size (code ! i)) ?ja"
        using True push sz by (subst analyse_from.simps) (simp add: Let_def opcode_def ja1_def)
      also note 1(1) [OF True opcode_def ja1_def push, unfolded sz]
      finally show ?thesis using 1(4) p True
        by (auto simp: ja1_def opcode_def lookupOperation_def split fun_eq_iff later)
    next
      case dest
      let ?ja = "ja1\<lparr>ja_jumps := (ja_jumps ja1)[i := 1]\<rparr>"
      have "analyse_from x table code i ja = analyse_from x table code (i + 1) ?ja"
        using True dest by (subst analyse_from.simps) (simp add: Let_def opcode_def ja1_def)
      moreover have "code ! i = 0x5b"
        using dest by (intro unsigned_word_eqI [where 'a = nat]) (simp add: opcode_def)
      moreover have "\<not> is_push (code ! i)" "instr_size (code ! i) = 1"
        using dest by (auto simp: opcode_def is_push_def instr_size_def)
      moreover note 1(2) [OF True opcode_def ja1_def _ dest]
      ultimately show ?thesis using 1(4) dest later True
        by (auto simp: ja1_def opcode_def lookupOperation_def split fun_eq_iff nth_list_update)
    next
      case other
      have "analyse_from x table code i ja = analyse_from x table code (i + 1) ja1"
        using True other by (subst analyse_from.simps) (auto simp: Let_def opcode_def ja1_def)
      moreover have "code ! i \<noteq> 0x5b" "\<not> is_push (code ! i)" "instr_size (code ! i) = 1"
        using other by (auto simp: opcode_def is_push_def instr_size_def)
      moreover note 1(3) [OF True opcode_def ja1_def other]
      ultimately show ?thesis using 1(4) later True
        by (auto simp: ja1_def opcode_def lookupOperation_def split fun_eq_iff)
    qed
  qed
qed

section \<open>The caches\<close>

text \<open>The operand of the PUSH at \<open>i\<close> as the yellow paper has it: the bytes after it, zero past the end.\<close>

definition push_operand :: "bytes \<Rightarrow> nat \<Rightarrow> int" where
  "push_operand code i = be_value (zero_extended code (i + 1) (unat (code ! i) - 0x5f))"

definition jumpdest :: "bytes \<Rightarrow> nat \<Rightarrow> bool" where
  "jumpdest code j \<longleftrightarrow> j < length code \<and> boundary code j \<and> code ! j = 0x5b"

text \<open>What the fields of a frame hold once the analysis of its code is done.\<close>

definition analysed :: "externals \<Rightarrow> run_state \<Rightarrow> bool" where
  "analysed x rs \<longleftrightarrow> \<not> rs_shouldDoJumpAnalysis rs
     \<and> length (rs_validJumps rs) = length (rs_code rs)
     \<and> (\<forall>j < length (rs_code rs). rs_validJumps rs ! j = (if jumpdest (rs_code rs) j then 1 else 0))
     \<and> (\<forall>i < length (rs_code rs). boundary (rs_code rs) i \<and> is_push (rs_code rs ! i)
          \<longrightarrow> rs_cachedPushes rs (i + 1) = Some (push_data x (rs_code rs) i))"

lemma analysis_fields:
  "getValidJumpDestinations x table code =
    \<lparr>ja_jumps = map (\<lambda>j. if jumpdest code j then 1 else 0) [0..<length code],
     ja_pushes = (\<lambda>j. if 0 < j \<and> j - 1 < length code \<and> boundary code (j - 1) \<and> is_push (code ! (j - 1))
                      then Some (push_data x code (j - 1)) else None),
     ja_opcodesCached = (\<lambda>j. if j < length code \<and> boundary code j
                             then Some (op_opcode (table (unat (code ! j)))) else None)\<rparr>"
  by (simp add: getValidJumpDestinations_def analyse_from_run boundary_iff jumpdest_def fun_eq_iff)

lemma push_bytes_eq:
  assumes "n = k - 0x5f" "0x60 \<le> k"
  shows "(let bs = subarray code (i + 1) (i + k - 0x5e) in if length bs < n then setLengthRight bs n else bs)
       = zero_extended code (i + 1) n"
proof -
  have "i + k - 0x5e = i + 1 + n" using assms by simp
  then have bs: "subarray code (i + 1) (i + k - 0x5e) = take n (drop (i + 1) code)"
    by (simp add: subarray_def take_drop add.commute)
  show ?thesis
  proof (cases "length (take n (drop (i + 1) code)) < n")
    case True
    have "setLengthRight (take n (drop (i + 1) code)) n = zero_extended code (i + 1) n"
      using True by (intro nth_equalityI) (auto simp: zero_extended_def setLengthRight_nth)
    with True show ?thesis unfolding bs Let_def by (simp only: if_True)
  next
    case False
    then have "take n (drop (i + 1) code) = zero_extended code (i + 1) n"
      by (intro nth_equalityI) (auto simp: zero_extended_def)
    with False show ?thesis unfolding bs Let_def by (simp only: if_False)
  qed
qed

lemma push_data_eq: "noble_ok x \<Longrightarrow> is_push (code ! i) \<Longrightarrow> push_data x code i = push_operand code i"
  using push_bytes_eq [OF refl, of "unat (code ! i)" code i]
  by (simp add: push_data_def push_operand_def is_push_def Let_def)

text \<open>C16: The analysis of the code marks exactly the JUMPDEST bytes that are instructions, not PUSH
  data; it caches for exactly the PUSH instructions the operand, the bytes after the instruction
  continued with zeros past the end of the code; and it caches an operation at exactly the
  positions where an instruction starts.\<close>

theorem jump_analysis_correct:
  assumes "noble_ok x" "ja = getValidJumpDestinations x table code"
  shows "length (ja_jumps ja) = length code
    \<and> (\<forall>j < length code. ja_jumps ja ! j = (if boundary code j \<and> code ! j = 0x5b then 1 else 0))
    \<and> (\<forall>i. ja_pushes ja (i + 1) = (if i < length code \<and> boundary code i \<and> is_push (code ! i)
                                   then Some (push_operand code i) else None))
    \<and> ja_pushes ja 0 = None
    \<and> (\<forall>j. ja_opcodesCached ja j = (if j < length code \<and> boundary code j
                                    then Some (op_opcode (table (unat (code ! j)))) else None))"
  unfolding assms(2) analysis_fields
  using push_data_eq [OF assms(1)] by (auto simp: jumpdest_def)

theorem jump_analysis_correct_witness:
  "ja_jumps (getValidJumpDestinations sample_externals (\<lambda>_. makeUndefinedOperation) [0x60, 0x5b, 0x5b]) ! 2 = 1
   \<and> ja_pushes (getValidJumpDestinations sample_externals (\<lambda>_. makeUndefinedOperation) [0x60, 0x5b, 0x5b]) 1 = Some 0x5b"
proof -
  let ?code = "[0x60, 0x5b, 0x5b] :: bytes"
  have n: "noble_ok sample_externals" by simp
  have b: "boundary ?code 0" by (rule boundary.start)
  have "0 + instr_size (?code ! 0) = 2" by (simp add: instr_size_def)
  with boundary.next_instr [OF b] have b2: "boundary ?code 2" by (metis length_greater_0_conv list.distinct(1))
  have p: "is_push (?code ! 0)" "push_operand ?code 0 = 0x5b"
    by (simp_all add: is_push_def push_operand_def zero_extended_def)
  let ?ja = "getValidJumpDestinations sample_externals (\<lambda>_. makeUndefinedOperation) ?code"
  have "?code ! 2 = 0x5b" "(2 :: nat) < length ?code" "(0 :: nat) < length ?code" by simp_all
  with jump_analysis_correct [OF n refl, of "\<lambda>_. makeUndefinedOperation" ?code] b2
  have "ja_jumps ?ja ! 2 = 1" by metis
  moreover have "ja_pushes ?ja (0 + 1) = Some 0x5b"
    using jump_analysis_correct [OF n refl, of "\<lambda>_. makeUndefinedOperation" ?code] b p \<open>0 < length ?code\<close> by metis
  ultimately show ?thesis by simp
qed

section \<open>Jumps and pushes in an analysed frame\<close>

lemma jumpIsValid_iff: "analysed x rs \<Longrightarrow> jumpIsValid rs d \<longleftrightarrow> jumpdest (rs_code rs) d"
  by (auto simp: jumpIsValid_def analysed_def jumpdest_def split: if_splits)

lemma analysed_dropped [simp]: "analysed x (dropped n rs) = analysed x rs"
  by (simp add: analysed_def dropped_def)

text \<open>C17: In a frame whose code has been analysed, JUMP, and JUMPI on a nonzero condition, continue
  at the target exactly when it is a JUMPDEST instruction of the code, and otherwise fail with
  INVALID_JUMP; JUMPI on zero falls through. No jump lands in PUSH data or outside the code.\<close>

theorem jumps_land_on_jumpdests:
  assumes "frame_wf rs" "analysed x rs" "env_code (rs_env rs) = rs_code rs" "stk rs = d # cond # vs" "0 \<le> d"
  shows "(if jumpdest (rs_code rs) (nat d)
          then \<exists>t. opJump c rs = (Inr (), t) \<and> rs_programCounter t = nat d \<and> stk t = cond # vs
          else \<exists>l t. opJump c rs = (Inl (EVMErrorAt INVALID_JUMP l), t))
       \<and> (if cond = 0 then \<exists>t. opJumpi c rs = (Inr (), t) \<and> rs_programCounter t = rs_programCounter rs \<and> stk t = vs
          else if jumpdest (rs_code rs) (nat d)
          then \<exists>t. opJumpi c rs = (Inr (), t) \<and> rs_programCounter t = nat d \<and> stk t = vs
          else \<exists>l t. opJumpi c rs = (Inl (EVMErrorAt INVALID_JUMP l), t))"
proof -
  have big: "\<not> jumpdest (rs_code rs) (nat d)" if "getCodeSize rs < d"
  proof -
    have "\<not> nat d < length (rs_code rs)" using that assms(3) by (simp add: getCodeSize_def)
    then show ?thesis by (simp add: jumpdest_def)
  qed
  have valid: "jumpIsValid (dropped n rs) (nat d) = jumpdest (rs_code rs) (nat d)" for n
    using jumpIsValid_iff [of x "dropped n rs" "nat d"] assms(2) by simp
  have size: "getCodeSize (dropped n rs) = getCodeSize rs" for n by (simp add: getCodeSize_def)
  have pops: "pop rs = (Inr d, dropped 1 rs)" "popN 2 rs = (Inr [d, cond], dropped 2 rs)"
    using assms(1,4) by (simp_all add: pop_eq popN_eq)
  have stk: "stk ((dropped 1 rs)\<lparr>rs_programCounter := p\<rparr>) = cond # vs" "stk ((dropped 2 rs)\<lparr>rs_programCounter := p\<rparr>) = vs"
    "stk (dropped 2 rs) = vs" for p
    using stk_dropped [OF assms(1), of 1] stk_dropped [OF assms(1), of 2] assms(4) by (simp_all add: stk_def)
  show ?thesis using big pops stk
    by (auto simp: opJump_def opJumpi_def pop2_def bindE_run valid size trap_invalid_jump_def split: if_splits)
qed

definition jump_frame :: run_state where
  "jump_frame = pushed 1 (pushed 7 ((sample_frame [0x5f, 0x5b, 0x56] 100)\<lparr>rs_code := [0x5f, 0x5b, 0x56],
     rs_shouldDoJumpAnalysis := False, rs_validJumps := [0, 1, 0]\<rparr>))"

lemma jump_frame_facts:
  "frame_wf jump_frame" "stk jump_frame = [1, 7]" "rs_code jump_frame = [0x5f, 0x5b, 0x56]"
  "env_code (rs_env jump_frame) = rs_code jump_frame"
  by (simp_all add: jump_frame_def sample_frame_def sample_env_def new_run_state_def pushed_def frame_wf_def stk_def stack_wf_def
      new_stack_def store_at_def array_set_def stack_view_def getStack_def)

lemma jump_frame_analysed: "analysed x jump_frame" "jumpdest (rs_code jump_frame) 1"
proof -
  have b: "boundary [0x5f, 0x5b, 0x56] (Suc 0)"
    using boundary.next_instr [OF boundary.start, of "[0x5f, 0x5b, 0x56]"] by (simp add: instr_size_def)
  have "jumpdest [0x5f, 0x5b, 0x56] j \<longleftrightarrow> j = 1" if "j < 3" for j
    using that b by (auto simp: jumpdest_def less_Suc_eq numeral_3_eq_3)
  then show "analysed x jump_frame" "jumpdest (rs_code jump_frame) 1"
    by (auto simp: analysed_def jump_frame_def pushed_def less_Suc_eq numeral_3_eq_3 is_push_def)
qed

theorem jumps_land_on_jumpdests_witness:
  "\<exists>t. opJump sample_ctx jump_frame = (Inr (), t) \<and> rs_programCounter t = 1 \<and> stk t = [7]"
  using jumps_land_on_jumpdests [OF jump_frame_facts(1) jump_frame_analysed(1) jump_frame_facts(4), of 1 7 "[]" sample_ctx]
    jump_frame_facts(2) jump_frame_analysed(2) by simp

text \<open>PUSH reads its operand from the cache after the analysis and from the code before it: both
  push the same value, the bytes after the instruction continued with zeros, and both leave the
  program counter at the next instruction.\<close>

theorem push_cache_transparent:
  assumes "noble_ok (ctx_ext c)" "frame_wf rs" "has_room rs" "analysed (ctx_ext c) rs" "\<not> eip_active c 6800"
    and "i < length (rs_code rs)" "boundary (rs_code rs) i" "is_push (rs_code rs ! i)"
    and "rs_opCode rs = unat (rs_code rs ! i)" "rs_programCounter rs = i + 1"
  shows "\<exists>t. opPush c rs = (Inr (), t)
     \<and> opPush c (rs\<lparr>rs_shouldDoJumpAnalysis := True\<rparr>) = (Inr (), t\<lparr>rs_shouldDoJumpAnalysis := True\<rparr>)
     \<and> stk t = push_operand (rs_code rs) i # stk rs
     \<and> rs_programCounter t = i + instr_size (rs_code rs ! i)"
proof -
  let ?v = "push_operand (rs_code rs) i" 
  define n where "n = unat (rs_code rs ! i) - 0x5f"
  have k: "0x60 \<le> unat (rs_code rs ! i)" using assms(8) by (simp add: is_push_def)
  have cached: "rs_cachedPushes rs (i + 1) = Some ?v" "\<not> rs_shouldDoJumpAnalysis rs"
    using assms(4,6,7,8) push_data_eq [OF assms(1,8)] by (simp_all add: analysed_def)
  have pc: "i + 1 + n = i + unat (rs_code rs ! i) - 0x5e" using k by (simp add: n_def)
  have opn: "rs_opCode rs - 0x5f = n" using assms(9) by (simp add: n_def)
  define loaded where "loaded = subarray (rs_code rs) (i + 1) (i + 1 + n)"
  have direct: "bytesToBigInt (ctx_ext c) (if length loaded < n then setLengthRight loaded n else loaded) = ?v"
    using push_bytes_eq [OF n_def k, of "rs_code rs" i] unfolding loaded_def pc Let_def
    by (simp only: bytesToBigInt_eq [OF assms(1)] push_operand_def n_def)
  define t where "t = (pushed ?v rs)\<lparr>rs_programCounter := i + 1 + n\<rparr>"
  have "opPush c rs = (Inr (), t)"
    using assms(2,3,5,10) cached by (simp add: opn opPush_def Let_def seqE_run push_eq t_def)
  moreover have "opPush c (rs\<lparr>rs_shouldDoJumpAnalysis := True\<rparr>) = (Inr (), t\<lparr>rs_shouldDoJumpAnalysis := True\<rparr>)"
  proof -
    let ?u = "rs\<lparr>rs_shouldDoJumpAnalysis := True, rs_programCounter := i + 1 + n\<rparr>"
    have "frame_wf ?u" "has_room ?u" using assms(2,3) by (simp_all add: frame_wf_def has_room_def stk_def)
    then have "push ?v ?u = (Inr (), t\<lparr>rs_shouldDoJumpAnalysis := True\<rparr>)"
      by (simp add: push_eq t_def pushed_def)
    moreover have "opPush c (rs\<lparr>rs_shouldDoJumpAnalysis := True\<rparr>) = push ?v ?u"
      unfolding direct [symmetric] loaded_def using assms(5,10)
      by (simp add: opn opPush_def Let_def seqE_run)
    ultimately show ?thesis by simp
  qed
  moreover have "stk t = ?v # stk rs" "rs_programCounter t = i + instr_size (rs_code rs ! i)"
    using assms(2,8) by (simp_all add: t_def pushed_def stk_def frame_wf_def store_at_view instr_size_push n_def)
  ultimately show ?thesis by blast
qed

definition push_frame :: run_state where
  "push_frame = (sample_frame [0x61, 0x05] 100)\<lparr>rs_code := [0x61, 0x05], rs_opCode := 0x61, rs_programCounter := 1,
     rs_shouldDoJumpAnalysis := False, rs_validJumps := [0, 0],
     rs_cachedPushes := [Suc 0 \<mapsto> push_data sample_externals [0x61, 0x05] 0]\<rparr>"

lemma push_frame_facts:
  "frame_wf push_frame" "has_room push_frame" "stk push_frame = []" "rs_code push_frame = [0x61, 0x05]"
  "rs_opCode push_frame = 0x61" "rs_programCounter push_frame = 1"
  by (simp_all add: push_frame_def sample_frame_def sample_env_def new_run_state_def frame_wf_def stk_def stack_wf_def
      has_room_def new_stack_def stack_view_def getStack_def)

lemma push_frame_analysed: "analysed sample_externals push_frame"
proof -
  have "\<not> boundary [0x61, 0x05] (Suc 0)"
    unfolding boundary_iff by (auto simp: boundary_from_step instr_size_def dest: boundary_from_ge)
  then show ?thesis
    by (auto simp: analysed_def push_frame_def sample_frame_def new_run_state_def less_Suc_eq jumpdest_def)
qed

theorem push_cache_transparent_witness:
  "\<exists>t. opPush sample_ctx push_frame = (Inr (), t) \<and> stk t = [0x500] \<and> rs_programCounter t = 3"
proof -
  have inactive: "\<not> eip_active sample_ctx 6800"
    by (simp add: eip_active_def sample_ctx_def tiny_active)
  have ext: "ctx_ext sample_ctx = sample_externals" by (simp add: sample_ctx_def)
  have "noble_ok (ctx_ext sample_ctx)" "analysed (ctx_ext sample_ctx) push_frame" "boundary (rs_code push_frame) 0"
    "is_push (rs_code push_frame ! 0)" "rs_opCode push_frame = unat (rs_code push_frame ! 0)"
    "0 < length (rs_code push_frame)" "rs_programCounter push_frame = 0 + 1"
    using push_frame_analysed by (simp_all add: ext push_frame_facts boundary.start is_push_def)
  then obtain t where "opPush sample_ctx push_frame = (Inr (), t)"
    "stk t = push_operand (rs_code push_frame) 0 # stk push_frame"
    "rs_programCounter t = 0 + instr_size (rs_code push_frame ! 0)"
    using push_cache_transparent [of sample_ctx push_frame 0] push_frame_facts(1,2) inactive by blast
  moreover have "zero_extended [0x61, 0x05] 1 2 = [0x05, 0]"
    by (simp add: zero_extended_def upt_rec)
  then have "push_operand (rs_code push_frame) 0 = 0x500" "instr_size (rs_code push_frame ! 0) = 3"
    by (simp_all add: push_frame_facts push_operand_def instr_size_def be_value_Cons)
  ultimately show ?thesis by (auto simp: push_frame_facts(3))
qed

end
