(* ===== verification/TableSafety.thy ===== *)
theory TableSafety
  imports HandlerSafety JumpAnalysis
begin

text \<open>
  Every operation of every jump table of the hardforks before Osaka is safe: its dynamic gas handler
  charges at least the constant gas, and its handler keeps the frame, moves the program counter to
  the next instruction or to a valid jump destination, and gives back no more gas than a call with
  value has paid for.
\<close>

section \<open>Safe operations\<close>

definition sends_value :: "nat \<Rightarrow> bool" where
  "sends_value i \<longleftrightarrow> i = 0xf1 \<or> i = 0xf2"

definition price :: "nat \<Rightarrow> stack \<Rightarrow> int" where
  "price i st = (if sends_value i then value_price st else 0)"

definition bonus :: "nat \<Rightarrow> stack \<Rightarrow> int" where
  "bonus i st = (if sends_value i then stipend (stack_view st ! 2) else 0)"

lemma bonus_price: "bonus i st \<le> price i st" "0 \<le> bonus i st" "0 \<le> price i st"
  by (simp_all add: bonus_def price_def stipend_def value_price_def)

text \<open>A gas handler charges at least its argument and the price of value, and settles the gas limit of the
  next message.\<close>

definition gas_ok :: "evm_ctx \<Rightarrow> nat \<Rightarrow> dynamic_gas option \<Rightarrow> bool" where
  "gas_ok c i d = (case d of None \<Rightarrow> \<not> sends_value i
     | Some h \<Rightarrow> (\<forall>F G k g st gas. yields (safe F G) (ready_at F k g st) (h c gas) (gas_at F k g st)
         (\<lambda>r. gas + price i st \<le> r) \<and> ends (ready_at F k g st) settled (h c gas)))"

text \<open>Where a handler started at \<open>pc\<close>, behind its opcode, leaves the program counter.\<close>

definition goes_to :: "control_state \<Rightarrow> nat \<Rightarrow> bool" where
  "goes_to k pc' = (case k of (pc, i, code, analyse, valid, pushes, env) \<Rightarrow>
     (if 0x60 \<le> i \<and> i \<le> 0x7f then pc' = pc + (i - 0x5f)
      else pc' = pc \<or> (i = 0x56 \<or> i = 0x57) \<and> pc' < length valid \<and> valid ! pc' = 1))"

definition frame_next :: "below \<Rightarrow> control_state \<Rightarrow> int \<Rightarrow> run_state \<Rightarrow> bool" where
  "frame_next F k g rs \<longleftrightarrow> frame_ok F rs \<and> rs_gasLeft rs \<le> g
     \<and> goes_to k (rs_programCounter rs) \<and> snd (control rs) = snd k"

text \<open>What the control part of a frame satisfies when a handler starts: the program counter is behind the
  opcode, and cached operands are nonnegative.\<close>

definition control_ok :: "control_state \<Rightarrow> bool" where
  "control_ok k = (case k of (pc, i, code, analyse, valid, pushes, env) \<Rightarrow>
     1 \<le> pc \<and> (\<forall>p v. pushes p = Some v \<longrightarrow> 0 \<le> v))"

definition exec_ok :: "evm_ctx \<Rightarrow> run_call \<Rightarrow> nat \<Rightarrow> execute \<Rightarrow> bool" where
  "exec_ok c rc i e \<longleftrightarrow> (\<forall>F G pc rest g st. control_ok (pc, i, rest) \<longrightarrow> g + bonus i st \<le> G \<longrightarrow>
     yields (safe F G) (ready_at F (pc, i, rest) g st) (e c rc) (frame_next F (pc, i, rest) (g + bonus i st)) (\<lambda>_. True))"

definition op_ok :: "evm_ctx \<Rightarrow> run_call \<Rightarrow> nat \<times> operation \<Rightarrow> bool" where
  "op_ok c rc = (\<lambda>(i, op). (op_undefined op \<or> gas_ok c i (op_dynamicGas op)) \<and> exec_ok c rc i (op_execute op)
     \<and> (op_undefined op \<longrightarrow> op_dynamicGas op = None) \<and> 0 \<le> op_constantGas op)"

lemma entryI: "exec_ok c rc i e \<Longrightarrow> gas_ok c i d \<Longrightarrow> op_ok c rc (i, makeOperation e mi ma asy d)"
  by (simp add: op_ok_def makeOperation_def)

lemma undefined_ok: "op_ok c rc (i, makeUndefinedOperation)"
  by (simp add: op_ok_def makeUndefinedOperation_def exec_ok_def yields_throw)

section \<open>From the judgement to safe operations\<close>

lemma not_push_next: "frame_upto F (pc, i, rest) g rs \<Longrightarrow> \<not> (0x60 \<le> i \<and> i \<le> 0x7f) \<Longrightarrow> frame_next F (pc, i, rest) g rs"
  by (cases rest) (auto simp: frame_upto_def frame_next_def goes_to_def control_def split: if_splits)

lemma at_upto: "frame_at F k g rs \<Longrightarrow> g \<le> h \<Longrightarrow> frame_upto F k h rs"
  by (simp add: frame_at_def frame_upto_def)

lemma exec_next:
  assumes "\<And>F G pc rest g. control_ok (pc, i, rest) \<Longrightarrow>
      yields (safe F G) (frame_at F (pc, i, rest) g) (e c rc) (frame_next F (pc, i, rest) g) (\<lambda>_. True)"
  shows "exec_ok c rc i e"
  unfolding exec_ok_def
proof (intro allI impI)
  fix F and G g :: int and pc :: nat and rest st assume k: "control_ok (pc, i, rest)"
  have pre: "yields (safe F G) (ready_at F (pc, i, rest) g st) (e c rc) (frame_next F (pc, i, rest) g) (\<lambda>_. True)"
    by (rule yields_pre [OF assms [OF k]]) (simp add: ready_at_def)
  show "yields (safe F G) (ready_at F (pc, i, rest) g st) (e c rc) (frame_next F (pc, i, rest) (g + bonus i st)) (\<lambda>_. True)"
    by (rule yields_post [OF pre]) (use bonus_price(2) [of i st] in \<open>simp add: frame_next_def\<close>)
qed

lemma exec_at:
  assumes "\<And>F G pc rest g. control_ok (pc, i, rest) \<Longrightarrow>
      yields (safe F G) (frame_at F (pc, i, rest) g) (e c rc) (frame_at F (pc, i, rest) g) (\<lambda>_. True)"
    and "\<not> (0x60 \<le> i \<and> i \<le> 0x7f)"
  shows "exec_ok c rc i e"
  by (rule exec_next, rule yields_post [OF assms(1)], assumption)
     (intro not_push_next assms(2), auto intro: at_upto)

lemma exec_plain:
  "(\<And>F G k g. yields (safe F G) (frame_at F k g) h (frame_at F k g) (\<lambda>_. True)) \<Longrightarrow>
   \<not> (0x60 \<le> i \<and> i \<le> 0x7f) \<Longrightarrow> exec_ok c rc i (plain h)"
  by (rule exec_at) (simp_all add: plain_def)

lemma exec_ctx:
  "(\<And>F G k g. yields (safe F G) (frame_at F k g) (h c) (frame_at F k g) (\<lambda>_. True)) \<Longrightarrow>
   \<not> (0x60 \<le> i \<and> i \<le> 0x7f) \<Longrightarrow> exec_ok c rc i (with_ctx h)"
  by (rule exec_at) (simp_all add: with_ctx_def)

lemma exec_upto:
  assumes "\<And>F G k g. yields (safe F G) (frame_upto F k g) (e c rc) (frame_upto F k g) (\<lambda>_. True)"
    and "\<not> (0x60 \<le> i \<and> i \<le> 0x7f)"
  shows "exec_ok c rc i e"
  by (rule exec_next, rule yields_post [OF yields_pre [OF assms(1)]])
     (auto intro: at_upto not_push_next [OF _ assms(2)])

lemma exec_call:
  assumes "\<And>F G k g st. g + bonus i st \<le> G \<Longrightarrow>
      yields (safe F G) (ready_at F k g st) (e c rc) (frame_upto F k (g + bonus i st)) (\<lambda>_. True)"
    and "\<not> (0x60 \<le> i \<and> i \<le> 0x7f)"
  shows "exec_ok c rc i e"
  unfolding exec_ok_def using yields_post [OF assms(1)] not_push_next assms(2) by blast

lemma gas_none: "\<not> sends_value i \<Longrightarrow> gas_ok c i None"
  by (simp add: gas_ok_def)

lemma safe_self: "ready_at F k g st s \<Longrightarrow> safe F g s"
  by (simp add: safe_def ready_at_def frame_at_def frame_ok_def frame_core_def)

lemma gas_some:
  assumes "\<And>F G k g st gas. yields (safe F G) (ready_at F k g st) (h c gas) (ready_at F k g st) (\<lambda>r. gas \<le> r)"
    and "\<not> sends_value i"
  shows "gas_ok c i (Some h)"
proof -
  have "settled r t" if "ready_at F k g st s" "h c gas s = (Inr r, t)" for F k g st gas s r t
    using yieldsD [OF assms(1) safe_self [OF that(1)] that] by (simp add: ready_at_def frame_at_def frame_ok_def settled_def)
  then have "ends (ready_at F k g st) settled (h c gas)" for F k g st gas
    unfolding ends_def by blast
  moreover have "yields (safe F G) (ready_at F k g st) (h c gas) (gas_at F k g st) (\<lambda>r. gas \<le> r)" for F G k g st gas
    by (rule yields_post [OF assms(1)]) (auto simp: ready_at_def gas_at_def frame_at_def frame_ok_def)
  ultimately show ?thesis using assms(2) by (simp add: gas_ok_def price_def)
qed

lemma ready_gas: "yields X (gas_at F k g st) m J A \<Longrightarrow> yields X (ready_at F k g st) m J A"
  by (erule yields_pre) (auto simp: ready_at_def gas_at_def frame_at_def frame_ok_def)

lemma ready_words: "ends (\<lambda>s. words_ok (rs_stack s)) P m \<Longrightarrow> ends (ready_at F k g st) P m"
  unfolding ends_def using ready.words by blast

lemma gas_limit:
  assumes "\<And>F G k g st gas. yields (safe F G) (gas_at F k g st) (h c gas) (gas_at F k g st) (\<lambda>r. gas \<le> r)"
    and "\<And>I gas. ends (\<lambda>s. words_ok (rs_stack s)) settled (h c gas)" and "\<not> sends_value i"
  shows "gas_ok c i (Some h)"
  using assms(3) ready_gas [OF assms(1)] ready_words [OF assms(2)] by (simp add: gas_ok_def price_def)

section \<open>PUSH, DUP, SWAP, PC and the jumps\<close>

lemma advance: "yields (safe F G) (frame_at F (pc, rest) g)
    (modifyE (\<lambda>rs. rs\<lparr>rs_programCounter := rs_programCounter rs + n\<rparr>)) (frame_at F (pc + n, rest) g) (\<lambda>_. True)"
  by (rule yields_modify) (auto simp: frame_invs)

lemma opPush_y:
  assumes "control_ok (pc, i, code, a, valid, pushes, env)"
  shows "yields (safe F G) (frame_at F (pc, i, code, a, valid, pushes, env) g) (opPush c)
    (frame_at F (pc + (i - 0x5f), i, code, a, valid, pushes, env) g) (\<lambda>_. True)"
proof (rule yields_at [where K = "frame_at F (pc, i, code, a, valid, pushes, env) g"])
  let ?k = "(pc, i, code, a, valid, pushes, env)" and ?k' = "(pc + (i - 0x5f), i, code, a, valid, pushes, env)"
  let ?n = "\<lambda>b v. seqE (whenE b witness_unmodelled)
       (if \<not> a then
          seqE (case pushes pc of
                  Some v \<Rightarrow> push v
                | None \<Rightarrow> throwE (PlainError ''undefined on the stack is not modelled''))
            (modifyE (\<lambda>rs. rs\<lparr>rs_programCounter := rs_programCounter rs + (i - 0x5f)\<rparr>))
        else seqE (modifyE (\<lambda>rs. rs\<lparr>rs_programCounter := rs_programCounter rs + (i - 0x5f)\<rparr>))
               (push (bytesToBigInt (ctx_ext c) v)))"
  have cached: "pushes pc = Some v \<Longrightarrow> 0 \<le> v" for v using assms by (simp add: control_ok_def)
  have m: "yields (safe F G) (frame_at F ?k g) (?n b v) (frame_at F ?k' g) (\<lambda>_. True)" for b v
    unfolding witness_unmodelled_def
    by (rule yields_seq, rule yields_when, rule yields_throw, rule yields_if)
       (rule yields_seq yields_option at.stack_y(1) yields_throw advance | simp add: cached)+
  fix s assume s: "safe F G s" "frame_at F ?k g s"
  then have k: "rs_programCounter s = pc" "rs_opCode s = i" "rs_code s = code" "rs_shouldDoJumpAnalysis s = a"
    "rs_cachedPushes s = pushes" by (simp_all add: frame_at_def control_def)
  have eq: "opPush c s = ?n (eip_active c 6800 \<and> env_chargeCodeAccesses (rs_env s))
      (let loaded = subarray code pc (pc + (i - 0x5f))
       in if length loaded < i - 0x5f then setLengthRight loaded (i - 0x5f) else loaded) s"
    by (simp only: opPush_def k Let_def)
  show "\<exists>n u. opPush c s = n u \<and> safe F G u \<and> frame_at F ?k g u \<and> yields (safe F G) (frame_at F ?k g) n (frame_at F ?k' g) (\<lambda>_. True)"
    using eq s m by blast
qed

lemma exec_push: "0x60 \<le> i \<Longrightarrow> i \<le> 0x7f \<Longrightarrow> exec_ok c rc i (with_ctx opPush)"
proof (rule exec_next)
  fix F and G :: int and pc rest and g :: int
  assume i: "0x60 \<le> i" "i \<le> 0x7f" and k: "control_ok (pc, i, rest)"
  obtain code a valid pushes env where rest: "rest = (code, a, valid, pushes, env)" by (cases rest)
  have "yields (safe F G) (frame_at F (pc, i, rest) g) (opPush c) (frame_at F (pc + (i - 0x5f), i, rest) g) (\<lambda>_. True)"
    using opPush_y k by (simp add: rest)
  then show "yields (safe F G) (frame_at F (pc, i, rest) g) (with_ctx opPush c rc) (frame_next F (pc, i, rest) g) (\<lambda>_. True)"
    unfolding with_ctx_def
    by (rule yields_post) (use i in \<open>auto simp: frame_next_def frame_at_def goes_to_def control_def rest\<close>)
qed

lemma jump_y:
  assumes "i = 0x56 \<or> i = 0x57"
  shows "yields (safe F G) (frame_at F (pc, i, rest) g)
    (\<lambda>rs. if getCodeSize rs < dest then trap_invalid_jump (ctx_ext c) rs
      else if \<not> jumpIsValid rs (nat dest) then trap_invalid_jump (ctx_ext c) rs
      else (Inr (), rs\<lparr>rs_programCounter := nat dest\<rparr>)) (frame_next F (pc, i, rest) g) (\<lambda>_. True)"
  by (rule yieldsI)
     (use assms in \<open>auto simp: trap_invalid_jump_def frame_next_def frame_invs goes_to_def jumpIsValid_def split: if_splits\<close>)

lemma stay_y: "\<not> (0x60 \<le> i \<and> i \<le> 0x7f) \<Longrightarrow>
    yields (safe F G) (frame_at F (pc, i, rest) g) (returnE ()) (frame_next F (pc, i, rest) g) (\<lambda>_. True)"
  by (rule yields_post [OF yields_return]) (auto intro: at_upto not_push_next)

lemma exec_jump: "exec_ok c rc 0x56 (with_ctx opJump)" "exec_ok c rc 0x57 (with_ctx opJumpi)"
proof -
  show "exec_ok c rc 0x56 (with_ctx opJump)"
    by (rule exec_next) (unfold with_ctx_def opJump_def, rule yields_bind, rule at.stack_y(2), rule jump_y, simp)
  have jumpi: "yields (safe F G) (frame_at F (pc, 0x57, rest) g)
    (\<lambda>rs. if cond \<noteq> 0 then
       if getCodeSize rs < dest then trap_invalid_jump (ctx_ext c) rs
       else if \<not> jumpIsValid rs (nat dest) then trap_invalid_jump (ctx_ext c) rs
       else (Inr (), rs\<lparr>rs_programCounter := nat dest\<rparr>)
     else (Inr (), rs)) (frame_next F (pc, 0x57, rest) g) (\<lambda>_. True)" for F G pc rest g cond dest
    using jump_y [of "0x57" F G pc rest g dest c] stay_y [of "0x57" F G pc rest g]
    by (cases "cond = 0") (simp_all add: returnE_def)
  show "exec_ok c rc 0x57 (with_ctx opJumpi)"
    by (rule exec_next) (unfold with_ctx_def opJumpi_def, rule at.pops_y(1), rule jumpi)
qed

lemma opPc_y: "1 \<le> pc \<Longrightarrow> yields (safe F G) (frame_at F (pc, rest) g) opPc (frame_at F (pc, rest) g) (\<lambda>_. True)"
  unfolding opPc_def
  by (rule yields_bind, rule yields_gets_post [where A = "\<lambda>p. 1 \<le> p"])
     (auto simp: frame_at_def control_def intro!: at.stack_y)

lemma exec_pc: "exec_ok c rc 0x58 (plain opPc)"
  by (rule exec_at) (auto simp: plain_def control_ok_def split: prod.splits intro: opPc_y)

lemma yields_eq: "(\<And>s. I s \<Longrightarrow> m s = n s) \<Longrightarrow> yields X I n J A \<Longrightarrow> yields X I m J A"
  by (simp add: yields_def)

lemma exec_dup: "0x80 \<le> i \<Longrightarrow> i \<le> 0x8f \<Longrightarrow> exec_ok c rc i (plain opDup)"
  by (rule exec_at, unfold plain_def, rule yields_eq [where n = "onStack (stack_dup (i - 0x7f))"])
     (simp add: opDup_def frame_at_def control_def, rule at.on_stack, rule stack_dup_yields, simp_all)

lemma exec_swap: "0x90 \<le> i \<Longrightarrow> i \<le> 0x9f \<Longrightarrow> exec_ok c rc i (plain opSwap)"
  by (rule exec_at, unfold plain_def, rule yields_eq [where n = "onStack (stack_swap (i - 0x8f))"])
     (auto simp: opSwap_def frame_at_def control_def intro: at.on_stack stack_swap_yields)

section \<open>The tables\<close>

text \<open>What is assumed of the hardfork: the access witness of EIP-6800 and CLZ are not active, and the chain id
  is not negative.\<close>

definition plain_fork :: "evm_ctx \<Rightarrow> bool" where
  "plain_fork c \<longleftrightarrow> \<not> eip_active c 6800 \<and> \<not> eip_active c 7939 \<and> 0 \<le> getChainId c"

definition table_ok :: "evm_ctx \<Rightarrow> run_call \<Rightarrow> jump_table \<Rightarrow> bool" where
  "table_ok c rc table \<longleftrightarrow> (\<forall>i. op_ok c rc (i, table i))"

lemma set_ops_ok: "list_all (op_ok c rc) es \<Longrightarrow> table_ok c rc table \<Longrightarrow> table_ok c rc (set_ops es table)"
  by (auto simp: table_ok_def set_ops_def list_all_iff split: option.split dest!: map_of_SomeD)

lemma list_all_consI: "op_ok c rc e \<Longrightarrow> list_all (op_ok c rc) es \<Longrightarrow> list_all (op_ok c rc) (e # es)"
  and list_all_nilI: "list_all (op_ok c rc) []"
  by simp_all

lemmas entry_rules = list_all_consI list_all_nilI entryI exec_plain exec_ctx gas_none gas_some

lemma logic_ok: "list_all (op_ok c rc) frontier_logic"
  unfolding frontier_logic_def
  by (rule entry_rules at.arithmetic_y at.exp_y at.signextend_y at.comparison_y at.bitwise_y at.control_y at.keccak_y
      ready.gas_exp ready.gas_copies | simp add: sends_value_def)+

lemma environment_ok: "list_all (op_ok c rc) frontier_environment"
  unfolding frontier_environment_def
  by (rule entry_rules at.environment_y at.calldataload_y at.copies_y at.extcode_y at.blockhash_y at.block_y
      ready.gas_accounts ready.gas_copies | simp add: sends_value_def)+

lemma flow_ok: "list_all (op_ok c rc) frontier_flow"
  unfolding frontier_flow_def
  by (rule exec_jump exec_pc entry_rules at.stack_memory_y at.storage_y at.msize_y at.gas_y
      ready.gas_memory ready.gas_accounts ready.gas_sstore | simp add: sends_value_def)+

lemma exec_value_call:
  assumes "run_call_ok rc"
  shows "exec_ok c rc 0xf1 opCall" "exec_ok c rc 0xf2 opCallcode"
  by (rule exec_call; simp add: bonus_def sends_value_def value_calls_y [OF assms])+

lemma gas_okI:
  assumes "\<And>F G k g st gas. yields (safe F G) (gas_at F k g st) (h c gas) (gas_at F k g st) (\<lambda>r. gas + price i st \<le> r)"
    and "\<And>gas. ends (\<lambda>s. words_ok (rs_stack s)) settled (h c gas)"
  shows "gas_ok c i (Some h)"
  unfolding gas_ok_def option.case by (intro allI conjI ready_gas ready_words assms)

lemma gas_value_call: "\<not> eip_active c 6800 \<Longrightarrow> gas_ok c 0xf1 (Some dynamicGasCall)" "gas_ok c 0xf2 (Some dynamicGasCallcode)"
  by (rule gas_okI; simp add: price_def sends_value_def gas_call gas_callcode settled_calls)+

lemma gas_creates: "gas_ok c 0xf0 (Some dynamicGasCreate)" "gas_ok c 0xf5 (Some dynamicGasCreate2)"
  by (rule gas_limit, rule gas.gas_create, rule settled_create, simp add: sends_value_def)+

lemma gas_plain_calls: "gas_ok c 0xf4 (Some dynamicGasDelegatecall)" "gas_ok c 0xfa (Some dynamicGasStaticcall)"
  by (rule gas_limit, rule gas.gas_calls, rule settled_calls, simp add: sends_value_def)+

lemma system_ok: "run_call_ok rc \<Longrightarrow> \<not> eip_active c 6800 \<Longrightarrow> list_all (op_ok c rc) frontier_system"
  unfolding frontier_system_def
  by (rule exec_value_call gas_value_call gas_creates entry_rules exec_upto opCreates_y at.control_y at.selfdestruct_y
      ready.gas_memory ready.gas_selfdestruct | assumption | simp add: sends_value_def)+

lemma frontier_ok: "run_call_ok rc \<Longrightarrow> \<not> eip_active c 6800 \<Longrightarrow> table_ok c rc createFrontierJumpTable"
  unfolding createFrontierJumpTable_def
proof (rule set_ops_ok)
  have log: "exec_ok c rc i (with_ctx opLog)" "gas_ok c i (Some dynamicGasLog)" if "0xa0 \<le> i" "i \<le> 0xa4" for i
    using that by (intro exec_ctx gas_some at.log_y ready.gas_log; simp add: sends_value_def)+
  have none: "0x60 \<le> i \<Longrightarrow> i \<le> 0x9f \<Longrightarrow> gas_ok c i None" for i by (rule gas_none) (simp add: sends_value_def)
  show "table_ok c rc (\<lambda>i.
     if 0x60 \<le> i \<and> i \<le> 0x7f then makeOperation (with_ctx opPush) 0 1025 False None
     else if 0x80 \<le> i \<and> i \<le> 0x8f then
       makeOperation (plain opDup) (i - 0x80 + 1) (1025 - (i - 0x80 + 1)) False None
     else if 0x90 \<le> i \<and> i \<le> 0x9f then makeOperation (plain opSwap) (i - 0x90 + 2) 1024 False None
     else if 0xa0 \<le> i \<and> i \<le> 0xa4 then
       makeOperation (with_ctx opLog) (2 + (i - 0xa0)) (1022 - (i - 0xa0)) False (Some dynamicGasLog)
     else makeUndefinedOperation)"
    unfolding table_ok_def
    by (auto intro!: entryI undefined_ok exec_push exec_dup exec_swap log none)
qed (simp add: frontier_entries_def logic_ok environment_ok flow_ok system_ok)

lemma homestead_ok: "run_call_ok rc \<Longrightarrow> \<not> eip_active c 6800 \<Longrightarrow> table_ok c rc createHomesteadJumpTable"
  unfolding createHomesteadJumpTable_def
  by (rule set_ops_ok frontier_ok gas_plain_calls entry_rules exec_upto plain_calls_y | assumption | simp add: sends_value_def)+

lemma byzantium_ok: "run_call_ok rc \<Longrightarrow> \<not> eip_active c 6800 \<Longrightarrow> table_ok c rc createByzantiumJumpTable"
  unfolding createByzantiumJumpTable_def createTangerineWhistleJumpTable_def
  by (rule set_ops_ok homestead_ok gas_plain_calls entry_rules at.control_y at.environment_y at.copies_y exec_upto plain_calls_y
      ready.gas_memory ready.gas_copies | assumption | simp add: sends_value_def)+

lemma constantinople_ok: "run_call_ok rc \<Longrightarrow> \<not> eip_active c 6800 \<Longrightarrow> table_ok c rc createConstantinopleJumpTable"
  unfolding createConstantinopleJumpTable_def
  by (rule set_ops_ok byzantium_ok gas_creates entry_rules at.bitwise_y at.extcode_y exec_upto opCreates_y
      ready.gas_accounts | assumption | simp add: sends_value_def)+

lemma istanbul_ok: "run_call_ok rc \<Longrightarrow> plain_fork c \<Longrightarrow> table_ok c rc createIstanbulJumpTable"
  unfolding createIstanbulJumpTable_def
  by (rule set_ops_ok constantinople_ok entry_rules at.chainid_y at.block_y | assumption
      | simp add: sends_value_def plain_fork_def)+

lemma london_ok: "run_call_ok rc \<Longrightarrow> plain_fork c \<Longrightarrow> table_ok c rc createLondonJumpTable"
  unfolding createLondonJumpTable_def createBerlinJumpTable_def
  by (rule set_ops_ok istanbul_ok entry_rules at.fees_y | assumption | simp add: sends_value_def)+

lemma shanghai_ok: "run_call_ok rc \<Longrightarrow> plain_fork c \<Longrightarrow> table_ok c rc createShanghaiJumpTable"
  unfolding createShanghaiJumpTable_def createParisJumpTable_def
  by (rule set_ops_ok london_ok entry_rules at.stack_memory_y | assumption | simp add: sends_value_def)+

lemma cancun_ok: "run_call_ok rc \<Longrightarrow> plain_fork c \<Longrightarrow> table_ok c rc createCancunJumpTable"
  unfolding createCancunJumpTable_def
  by (rule set_ops_ok shanghai_ok entry_rules at.transient_y at.stack_memory_y at.blobhash_y at.fees_y ready.gas_mcopy
      | assumption | simp add: sends_value_def)+

section \<open>The enablers\<close>

lemma exec_eof: "exec_ok c rc i eof_handler" if "\<not> (0x60 \<le> i \<and> i \<le> 0x7f)"
  using that by (auto simp: eof_handler_def intro: exec_at at.eof_y)

lemma set_dynamicGas_ok:
  assumes "table_ok c rc table" "gas_ok c i (Some h)" "\<not> op_undefined (table i)"
  shows "table_ok c rc (set_dynamicGas i h table)"
  using assms by (auto simp: table_ok_def set_dynamicGas_def op_ok_def)

lemma enablers_ok:
  assumes "table_ok c rc t"
  shows "table_ok c rc (enableEIP2929 t)" "table_ok c rc (enableEIP1153 t)" "table_ok c rc (enableEIP3198 t)"
    "table_ok c rc (enableEIP3855 t)" "table_ok c rc (enableEIP4844 t)" "table_ok c rc (enableEIP5656 t)"
    "table_ok c rc (enableEIP7516 t)" "table_ok c rc (enableEIP663 t)" "table_ok c rc (enableEIP4200 t)"
    "table_ok c rc (enableEIP4750 t)" "table_ok c rc (enableEIP6206 t)" "table_ok c rc (enableEIP7069 t)"
    "table_ok c rc (enableEIP7480 t)" "table_ok c rc (enableEIP7620 t)"
  unfolding enableEIP2929_def enableEIP1153_def enableEIP3198_def enableEIP3855_def enableEIP4844_def enableEIP5656_def
    enableEIP7516_def enableEIP663_def enableEIP4200_def enableEIP4750_def enableEIP6206_def enableEIP7069_def
    enableEIP7480_def enableEIP7620_def
  by (rule set_ops_ok entry_rules exec_eof assms at.transient_y at.stack_memory_y at.blobhash_y at.fees_y
      | simp add: sends_value_def)+

section \<open>Building the table\<close>

text \<open>The hardforks of Osaka and after use the table that adds the EOF instructions and CLZ.\<close>

definition before_osaka :: "evm_ctx \<Rightarrow> bool" where
  "before_osaka c \<longleftrightarrow>
     toLowerCase (ctx_fork c) \<notin> {''osaka'', ''bpo1'', ''bpo2'', ''bpo3'', ''bpo4'', ''bpo5''}"

definition early_tables :: "jump_table set" where
  "early_tables = {createFrontierJumpTable, createHomesteadJumpTable, createByzantiumJumpTable,
     createConstantinopleJumpTable, createIstanbulJumpTable, createLondonJumpTable, createShanghaiJumpTable,
     createCancunJumpTable}"

lemma early_table:
  assumes "getJumpTableForHardfork hf = Inr t"
    and "toLowerCase hf \<notin> {''osaka'', ''bpo1'', ''bpo2'', ''bpo3'', ''bpo4'', ''bpo5''}"
  shows "t \<in> early_tables"
proof -
  have "list_all (\<lambda>(n, t). t \<in> early_tables \<or> n \<in> {''osaka'', ''bpo1'', ''bpo2'', ''bpo3'', ''bpo4'', ''bpo5''}) jumpTableFactories"
    by (simp add: jumpTableFactories_def early_tables_def createTangerineWhistleJumpTable_def createParisJumpTable_def
        createBerlinJumpTable_def)
  moreover have "(toLowerCase hf, t) \<in> set jumpTableFactories"
    using assms(1) by (auto simp: getJumpTableForHardfork_def split: option.splits dest: map_of_SomeD)
  ultimately show ?thesis using assms(2) by (auto simp: list_all_iff)
qed

lemma early_tables_ok: "t \<in> early_tables \<Longrightarrow> run_call_ok rc \<Longrightarrow> plain_fork c \<Longrightarrow> table_ok c rc t"
  using frontier_ok homestead_ok byzantium_ok constantinople_ok istanbul_ok london_ok shanghai_ok cancun_ok
  by (auto simp: early_tables_def plain_fork_def)

text \<open>The entries of SSTORE and of the jumps are the same in all tables.\<close>

definition common_entries :: "jump_table \<Rightarrow> bool" where
  "common_entries t \<longleftrightarrow> \<not> op_undefined (t 0x55) \<and> op_name (t 0x56) = '''' \<and> \<not> op_undefined (t 0x56)
     \<and> op_name (t 0x57) = '''' \<and> \<not> op_undefined (t 0x57)"

lemma set_ops_common:
  "common_entries t \<Longrightarrow> list_all (\<lambda>e. fst e \<noteq> 0x55 \<and> fst e \<noteq> 0x56 \<and> fst e \<noteq> 0x57) es \<Longrightarrow> common_entries (set_ops es t)"
  by (auto simp: common_entries_def set_ops_def list_all_iff split: option.split dest!: map_of_SomeD)

lemma frontier_common: "common_entries createFrontierJumpTable"
  by (simp add: common_entries_def createFrontierJumpTable_def set_ops_def frontier_entries_def frontier_logic_def
      frontier_environment_def frontier_flow_def makeOperation_def)

lemma early_common: "t \<in> early_tables \<Longrightarrow> common_entries t"
  by (auto simp: early_tables_def createCancunJumpTable_def createShanghaiJumpTable_def createParisJumpTable_def
      createLondonJumpTable_def createBerlinJumpTable_def createIstanbulJumpTable_def createConstantinopleJumpTable_def
      createByzantiumJumpTable_def createTangerineWhistleJumpTable_def createHomesteadJumpTable_def
      intro!: set_ops_common frontier_common)

lemma enablers_common:
  assumes "common_entries t"
  shows "common_entries (enableEIP2929 t)" "common_entries (enableEIP1153 t)" "common_entries (enableEIP3198 t)"
    "common_entries (enableEIP3855 t)" "common_entries (enableEIP4844 t)" "common_entries (enableEIP5656 t)"
    "common_entries (enableEIP7516 t)" "common_entries (enableEIP663 t)" "common_entries (enableEIP4200 t)"
    "common_entries (enableEIP4750 t)" "common_entries (enableEIP6206 t)" "common_entries (enableEIP7069 t)"
    "common_entries (enableEIP7480 t)" "common_entries (enableEIP7620 t)"
  unfolding enableEIP2929_def enableEIP1153_def enableEIP3198_def enableEIP3855_def enableEIP4844_def enableEIP5656_def
    enableEIP7516_def enableEIP663_def enableEIP4200_def enableEIP4750_def enableEIP6206_def enableEIP7069_def
    enableEIP7480_def enableEIP7620_def
  by (rule set_ops_common assms | simp add: assms)+

lemma sstore_common: "common_entries t \<Longrightarrow> common_entries (set_dynamicGas 0x55 h t)"
  by (simp add: common_entries_def set_dynamicGas_def)

definition good_table :: "evm_ctx \<Rightarrow> run_call \<Rightarrow> jump_table \<Rightarrow> bool" where
  "good_table c rc t \<longleftrightarrow> table_ok c rc t \<and> common_entries t"

lemma good_enablers:
  assumes "good_table c rc t"
  shows "good_table c rc (enableEIP2929 t)" "good_table c rc (enableEIP1153 t)" "good_table c rc (enableEIP3198 t)"
    "good_table c rc (enableEIP3855 t)" "good_table c rc (enableEIP4844 t)" "good_table c rc (enableEIP5656 t)"
    "good_table c rc (enableEIP7516 t)" "good_table c rc (enableEIP663 t)" "good_table c rc (enableEIP4200 t)"
    "good_table c rc (enableEIP4750 t)" "good_table c rc (enableEIP6206 t)" "good_table c rc (enableEIP7069 t)"
    "good_table c rc (enableEIP7480 t)" "good_table c rc (enableEIP7620 t)"
  using assms by (simp_all add: good_table_def enablers_ok enablers_common)

lemma good_sstore:
  assumes "good_table c rc t"
  shows "good_table c rc (enableEIP1283 t)" "good_table c rc (enableEIP2200 t)"
proof -
  have "gas_ok c 0x55 (Some dynamicGasSstoreEIP1283)" "gas_ok c 0x55 (Some dynamicGasSstoreEIP2200)"
    by (rule gas_some ready.gas_sstore ready.gas_sstore2200 | simp add: sends_value_def)+
  then show "good_table c rc (enableEIP1283 t)" "good_table c rc (enableEIP2200 t)"
    using assms sstore_common [of t] unfolding good_table_def enableEIP1283_def enableEIP2200_def
    by (auto simp: common_entries_def intro: set_dynamicGas_ok)
qed

lemma good_when:
  assumes "good_table c rc t"
  shows "good_table c rc (when_table b enableEIP2929 t)" "good_table c rc (when_table b enableEIP1153 t)"
    "good_table c rc (when_table b enableEIP3198 t)" "good_table c rc (when_table b enableEIP3855 t)"
    "good_table c rc (when_table b enableEIP4844 t)" "good_table c rc (when_table b enableEIP5656 t)"
    "good_table c rc (when_table b enableEIP7516 t)" "good_table c rc (when_table b enableEIP663 t)"
    "good_table c rc (when_table b enableEIP4200 t)" "good_table c rc (when_table b enableEIP4750 t)"
    "good_table c rc (when_table b enableEIP6206 t)" "good_table c rc (when_table b enableEIP7069 t)"
    "good_table c rc (when_table b enableEIP7480 t)" "good_table c rc (when_table b enableEIP7620 t)"
    "good_table c rc (when_table b enableEIP1283 t)" "good_table c rc (when_table b enableEIP2200 t)"
  using good_enablers [OF assms] good_sstore [OF assms] assms by (cases b; simp add: when_table_def)+

lemma apply_eips_good: "good_table c rc t \<Longrightarrow> plain_fork c \<Longrightarrow> good_table c rc (apply_eips c t)"
  unfolding apply_eips_def Let_def plain_fork_def when_table_def [of _ enableEIP7939]
  by (simp only: simp_thms if_False) (rule good_when | assumption)+

section \<open>Metadata and constant gas\<close>

text \<open>What \<open>populate\<close> computes, for the names it finds.\<close>

definition populated :: "evm_ctx \<Rightarrow> nat \<Rightarrow> operation \<Rightarrow> string \<Rightarrow> string \<Rightarrow> exn + operation" where
  "populated c i op0 bn fn =
     (if op_name (op0\<lparr>op_opcode := i\<rparr>) \<noteq> '''' \<and> op_name (op0\<lparr>op_opcode := i\<rparr>) \<noteq> ''INVALID'' then Inr (op0\<lparr>op_opcode := i\<rparr>)
      else if op_undefined (op0\<lparr>op_opcode := i, op_name := bn, op_fullName := fn\<rparr>)
           then Inr (op0\<lparr>op_opcode := i, op_name := bn, op_fullName := fn\<rparr>)
           else case param_at c (toLowerCase bn @ ''Gas'') of
                  None \<Rightarrow> Inr (op0\<lparr>op_opcode := i, op_name := bn, op_fullName := fn\<rparr>)
                | Some (PBig v) \<Rightarrow> Inr (op0\<lparr>op_opcode := i, op_name := bn, op_fullName := fn, op_constantGas := v\<rparr>)
                | Some (PNum v) \<Rightarrow> Inr (op0\<lparr>op_opcode := i, op_name := bn, op_fullName := fn, op_constantGas := v\<rparr>)
                | Some PNull \<Rightarrow> Inl TypeError)"

lemma populate_shape: "\<exists>bn fn. populate c i op0 = populated c i op0 bn fn"
  unfolding populate_def Let_def populated_def by (intro exI) (rule refl)

lemma populate_result:
  assumes "populate c i op0 = Inr op"
  shows "op_execute op = op_execute op0" "op_dynamicGas op = op_dynamicGas op0" "op_undefined op = op_undefined op0"
    "op_opcode op = i" "0 \<le> op_constantGas op0 \<Longrightarrow> 0 \<le> op_constantGas op"
proof -
  obtain bn fn where eq: "populated c i op0 bn fn = Inr op" using assms populate_shape [of c i op0] by auto
  define par where "par = param_at c (toLowerCase bn @ ''Gas'')"
  have par: "par = Some p \<Longrightarrow> value_ok p" for p
    unfolding par_def param_at_def by (rule getParam_nonneg)
  show "op_execute op = op_execute op0" "op_dynamicGas op = op_dynamicGas op0" "op_undefined op = op_undefined op0"
    "op_opcode op = i" "0 \<le> op_constantGas op0 \<Longrightarrow> 0 \<le> op_constantGas op"
    using eq par unfolding populated_def par_def [symmetric]
    by (auto simp: value_ok_def split: if_splits option.splits param_value.splits)
qed

lemma populate_ok: "populate c i op0 = Inr op \<Longrightarrow> op_ok c rc (i, op0) \<Longrightarrow> op_ok c rc (i, op)"
  using populate_result [of c i op0 op] by (simp add: op_ok_def)

lemma OpNames_eq:
  assumes "list_all (\<lambda>(n, k). k = code \<longrightarrow> n = name) Op" "list_ex (\<lambda>(n, k). k = code) Op"
  shows "OpNames code = Some name"
proof -
  have "code \<in> fst ` set (map (\<lambda>(n, k). (k, n)) (rev Op))" using assms(2) by (force simp: list_ex_iff)
  then obtain n where n: "OpNames code = Some n"
    using dom_map_of_conv_image_fst [of "map (\<lambda>(n, k). (k, n)) (rev Op)"] unfolding OpNames_def by blast
  then have "(n, code) \<in> set Op" by (auto simp: OpNames_def dest!: map_of_SomeD)
  then show ?thesis using assms(1) n by (auto simp: list_all_iff)
qed

lemma populate_names: "OpNames 0x56 = Some ''JUMP''" "OpNames 0x57 = Some ''JUMPI''"
  by (rule OpNames_eq; simp add: Op_def)+

lemma jump_names: "getBaseName 0x56 ''JUMP'' = ''JUMP''" "getBaseName 0x57 ''JUMPI'' = ''JUMPI''"
  by (simp_all add: getBaseName_def)

lemma jump_params: "param_at c (toLowerCase ''JUMP'' @ ''Gas'') = Some (PBig 8)"
  "param_at c (toLowerCase ''JUMPI'' @ ''Gas'') = Some (PBig 10)"
proof -
  have "toLowerCase ''JUMP'' @ ''Gas'' = ''jumpGas''" "toLowerCase ''JUMPI'' @ ''Gas'' = ''jumpiGas''"
    by (simp_all add: toLowerCase_def lower_char_def char_of_def bit_0)
  then show "param_at c (toLowerCase ''JUMP'' @ ''Gas'') = Some (PBig 8)"
    "param_at c (toLowerCase ''JUMPI'' @ ''Gas'') = Some (PBig 10)" by (simp_all add: param_at_def)
qed

lemma populate_jump:
  assumes "populate c i op0 = Inr op" "op_name op0 = ''''" "\<not> op_undefined op0" "i = 0x56 \<or> i = 0x57"
  shows "1 \<le> op_constantGas op"
  using assms(4)
proof
  assume i: "i = 0x56"
  show ?thesis using assms(1-3) by (auto simp: populate_def Let_def populate_names jump_names jump_params i)
next
  assume i: "i = 0x57"
  show ?thesis using assms(1-3) by (auto simp: populate_def Let_def populate_names jump_names jump_params i)
qed

text \<open>A finished table: its operations are safe, carry their opcode, and jumps are charged for.\<close>

definition finished :: "evm_ctx \<Rightarrow> run_call \<Rightarrow> jump_table \<Rightarrow> bool" where
  "finished c rc t \<longleftrightarrow> table_ok c rc t \<and> (\<forall>i < 256. op_opcode (t i) = i)
     \<and> 1 \<le> op_constantGas (t 0x56) \<and> 1 \<le> op_constantGas (t 0x57)"

lemma populate_all_entries:
  assumes "populate_all c t is' = Inr t'" "distinct is'"
  shows "if i \<in> set is' then populate c i (t i) = Inr (t' i) else t' i = t i"
  using assms
proof (induction c t is' rule: populate_all.induct)
  case (2 c t j is')
  then obtain op where op: "populate c j (t j) = Inr op" "populate_all c (t(j := op)) is' = Inr t'"
    by (auto split: sum.splits)
  have "distinct is'" "j \<notin> set is'" using 2(3) by simp_all
  then show ?case using 2(1) [OF op] op(1) by (cases "i = j") (auto split: if_splits)
qed simp

lemma populate_all_ok:
  assumes "populate_all c t is' = Inr t'" "table_ok c rc t" "distinct is'"
  shows "table_ok c rc t'"
  unfolding table_ok_def
proof
  fix i show "op_ok c rc (i, t' i)"
    using populate_all_entries [OF assms(1,3), of i] populate_ok assms(2)
    by (cases "i \<in> set is'") (auto simp: table_ok_def)
qed

lemma built_table_finished:
  assumes "buildJumpTable c [] = Inr table" "before_osaka c" "plain_fork c" "run_call_ok rc"
  shows "finished c rc table"
proof -
  obtain t where t: "getJumpTableForHardfork (ctx_fork c) = Inr t" "populate_all c (apply_eips c t) [0..<256] = Inr table"
    using assms(1) by (auto simp: buildJumpTable_def split: sum.splits)
  have "t \<in> early_tables" using early_table [OF t(1)] assms(2) by (simp add: before_osaka_def)
  then have "good_table c rc t" using early_tables_ok early_common assms(3,4) by (simp add: good_table_def)
  then have good: "good_table c rc (apply_eips c t)" using apply_eips_good assms(3) by blast
  then have "table_ok c rc table"
    and pop: "i < 256 \<Longrightarrow> populate c i (apply_eips c t i) = Inr (table i)" for i
    using populate_all_ok [OF t(2)] populate_all_entries [OF t(2), of i] by (auto simp: good_table_def)
  moreover have "1 \<le> op_constantGas (table 0x56)" "1 \<le> op_constantGas (table 0x57)"
    using good populate_jump [OF pop] by (simp_all add: good_table_def common_entries_def)
  ultimately show ?thesis using populate_result(4) [OF pop] by (simp add: finished_def)
qed

section \<open>No price is null\<close>

text \<open>The parameters set to null are those of EIP-1283 that EIP-1716 removes; none is the price of an
  instruction.\<close>

lemma null_params: "getParamAtHardfork cfg name hf = Some PNull \<Longrightarrow> CHR ''S'' \<in> set name"
proof -
  have tables: "list_all (\<lambda>(eip, ps). list_all (\<lambda>(n, p). p = PNull \<longrightarrow> CHR ''S'' \<in> set n) ps) EIP_PARAMS_entries"
    by (simp add: EIP_PARAMS_entries_def param_tables)
  have "list_all (\<lambda>(n, p). p = PNull \<longrightarrow> CHR ''S'' \<in> set n) EIP1_PARAMS" by (simp add: EIP1_PARAMS_def)
  then show "getParamAtHardfork cfg name hf = Some PNull \<Longrightarrow> CHR ''S'' \<in> set name"
    using getParam_in_tables [of cfg name hf PNull] tables by (fastforce simp: list_all_iff)
qed

lemma lower_char_small: "lower_char ch \<noteq> CHR ''S''"
proof
  assume S: "lower_char ch = CHR ''S''"
  define n where "n = (of_char ch :: nat)"
  have "of_char (lower_char ch) = (if 65 \<le> n \<and> n \<le> 90 then n + 32 else n)"
    by (auto simp: lower_char_def Let_def n_def)
  moreover have "of_char (CHR ''S'') = (83 :: nat)" by simp
  ultimately show False unfolding S by (simp split: if_splits)
qed

lemma price_names: "CHR ''S'' \<notin> set (toLowerCase n @ ''Gas'')"
  using lower_char_small by (auto simp: toLowerCase_def) metis

lemma populate_total: "\<exists>op. populate c i op0 = Inr op"
proof -
  obtain bn fn where eq: "populate c i op0 = populated c i op0 bn fn" using populate_shape by blast
  have "param_at c (toLowerCase bn @ ''Gas'') \<noteq> Some PNull"
    using null_params price_names unfolding param_at_def by blast
  then show ?thesis unfolding eq populated_def
    by (cases "param_at c (toLowerCase bn @ ''Gas'')") (auto split: param_value.split)
qed

lemma populate_all_total: "\<exists>t'. populate_all c t is' = Inr t'"
proof (induction is' arbitrary: t)
  case (Cons i is')
  obtain op where "populate c i (t i) = Inr op" using populate_total by blast
  then show ?case using Cons by simp
qed simp

lemma buildJumpTable_total:
  "getJumpTableForHardfork (ctx_fork c) = Inr t \<Longrightarrow> \<exists>table. buildJumpTable c customOpcodes = Inr table"
  using populate_all_total by (simp add: buildJumpTable_def)

section \<open>Every known hardfork has a table\<close>

lemma known_fork: "(\<exists>t. getJumpTableForHardfork hf = Inr t) \<longleftrightarrow> toLowerCase hf \<in> set (map fst jumpTableFactories)"
  by (auto simp: getJumpTableForHardfork_def dom_map_of_conv_image_fst [symmetric] split: option.splits)

text \<open>C18: The jump table of a hardfork can be built exactly when the hardfork has a factory, whatever
  the parameters of the chain: no price of an instruction is a parameter that was set to null. In a
  table that is built every opcode carries its own number.\<close>

theorem jump_table_total:
  "((\<exists>table. buildJumpTable c [] = Inr table) \<longleftrightarrow> toLowerCase (ctx_fork c) \<in> set (map fst jumpTableFactories))
   \<and> (\<forall>table. buildJumpTable c [] = Inr table \<longrightarrow> (\<forall>i < 256. op_opcode (table i) = i))"
proof -
  have "op_opcode (table i) = i" if b: "buildJumpTable c [] = Inr table" and i: "i < 256" for table i
  proof -
    obtain t where "populate_all c (apply_eips c t) [0..<256] = Inr table"
      using b by (auto simp: buildJumpTable_def split: sum.splits)
    then have "populate c i (apply_eips c t i) = Inr (table i)"
      using populate_all_entries [of c "apply_eips c t" "[0..<256]" table] i by (auto split: if_splits)
    then show ?thesis by (rule populate_result(4))
  qed
  moreover have "(\<exists>table. buildJumpTable c [] = Inr table) \<longleftrightarrow> (\<exists>t. getJumpTableForHardfork (ctx_fork c) = Inr t)"
    using buildJumpTable_total [of c _ "[]"] by (auto simp: buildJumpTable_def split: sum.splits)
  ultimately show ?thesis using known_fork by blast
qed

theorem jump_table_total_witness:
  "\<exists>table. buildJumpTable sample_ctx [] = Inr table \<and> op_opcode (table 0x5b) = 0x5b"
proof -
  have "toLowerCase (ctx_fork sample_ctx) = ''shanghai''"
    by (simp add: sample_ctx_def toLowerCase_def lower_char_def)
  then have "toLowerCase (ctx_fork sample_ctx) \<in> set (map fst jumpTableFactories)"
    by (simp add: jumpTableFactories_def)
  then obtain table where t: "buildJumpTable sample_ctx [] = Inr table"
    using jump_table_total [of sample_ctx] by blast
  then have "op_opcode (table 0x5b) = 0x5b" using jump_table_total [of sample_ctx] by simp
  with t show ?thesis by blast
qed

end
