(* ===== verification/Termination.thy ===== *)
theory Termination
  imports TableSafety
begin

text \<open>
  The main loop ends. Every step burns at least the constant gas of its operation, a jump costs gas,
  and every other step moves the program counter forward; so the gas left and the distance to the
  end of the code bound the number of steps. Every reachable program counter is the start of an
  instruction, so the caches of the jump analysis always hold what the loop looks up.
\<close>

section \<open>One step\<close>

lemma yields_bind_ends:
  assumes "yields X I m K A" "ends I P m" and f: "\<And>r. A r \<Longrightarrow> yields X (\<lambda>s. K s \<and> P r s) (f r) J B"
  shows "yields X I (bindE m f) J B"
proof (rule yields_intro)
  fix s r t assume s: "X s" "I s" "bindE m f s = (Inr r, t)"
  then obtain x u where u: "m s = (Inr x, u)" "f x u = (Inr r, t)"
    by (auto simp: bindE_run split: prod.splits sum.splits)
  have "A x \<and> K u" "X u" "P x u"
    using yieldsD [OF assms(1) s(1,2) u(1)] yields_kept [OF assms(1) s(1,2) u(1)] assms(2) s(2) u(1)
    by (simp_all add: ends_def)
  then show "X t \<and> B r \<and> J t" using yieldsD [OF f _ _ u(2)] yields_kept [OF f _ _ u(2)] by blast
next
  fix s e t assume s: "X s" "I s" "bindE m f s = (Inl e, t)" "is_evm_error e"
  then consider "m s = (Inl e, t)" | x u where "m s = (Inr x, u)" "f x u = (Inl e, t)"
    by (auto simp: bindE_run split: prod.splits sum.splits)
  then show "X t"
  proof cases
    case 1
    then show ?thesis using yields_thrown [OF assms(1) s(1,2)] s(4) by blast
  next
    case 2
    then have "A x \<and> K u" "X u" "P x u"
      using yieldsD [OF assms(1) s(1,2)] yields_kept [OF assms(1) s(1,2)] assms(2) s(2) unfolding ends_def by blast+
    then show ?thesis using yields_thrown [OF f _ _ 2(2) s(4)] by blast
  qed
qed

text \<open>Before the payment the frame is at \<open>gas_at\<close> and the limit of the next message is settled; after it the
  frame is ready for its handler.\<close>

definition priced_at :: "below \<Rightarrow> control_state \<Rightarrow> int \<Rightarrow> stack \<Rightarrow> int \<Rightarrow> run_state \<Rightarrow> bool" where
  "priced_at F k g st n rs \<longleftrightarrow> gas_at F k g st rs \<and> settled n rs"

lemma yields_weaken: "yields X I m J A \<Longrightarrow> (\<And>r. A r \<Longrightarrow> B r) \<Longrightarrow> yields X I m J B"
  by (rule yields_intro) (auto dest: yieldsD yields_kept yields_thrown)

lemma useGas_spent:
  assumes "0 \<le> n"
  shows "yields (safe F G) (priced_at F k g st n) (useGas n) (\<lambda>rs. n \<le> g \<and> ready_at F k (g - n) st rs) (\<lambda>_. True)"
  by (rule yieldsI)
     (use assms in \<open>auto simp: useGas_def Let_def priced_at_def settled_def frame_invs safe_def split: if_splits\<close>)

lemma yields_fact: "(b \<Longrightarrow> yields X I m J A) \<Longrightarrow> yields X (\<lambda>s. b \<and> I s) m J A"
  by (simp add: yields_def)

lemma no_witness_keeps: "yields X I (no_witness c) I (\<lambda>_. True)"
  by (rule yieldsI; simp add: no_witness_def witness_unmodelled_def split: if_splits)

lemma next_pc: "yields (safe F G) (ready_at F (pc, rest) g st)
    (modifyE (\<lambda>rs. rs\<lparr>rs_programCounter := rs_programCounter rs + 1\<rparr>)) (ready_at F (pc + 1, rest) g st) (\<lambda>_. True)"
  by (rule yields_modify) (auto simp: frame_invs)

lemma frame_next_mono: "frame_next F k g rs \<Longrightarrow> g \<le> h \<Longrightarrow> frame_next F k h rs"
  by (simp add: frame_next_def)

lemma gas_okD:
  assumes "gas_ok c i (Some h)"
  shows "yields (safe F G) (ready_at F k g st) (h c gas) (gas_at F k g st) (\<lambda>r. gas + price i st \<le> r)"
    "ends (ready_at F k g st) settled (h c gas)"
  using assms unfolding gas_ok_def option.case by blast+

lemma exec_okD: "exec_ok c rc i e \<Longrightarrow> control_ok (pc, i, rest) \<Longrightarrow> g + bonus i st \<le> G \<Longrightarrow>
    yields (safe F G) (ready_at F (pc, i, rest) g st) (e c rc) (frame_next F (pc, i, rest) (g + bonus i st)) (\<lambda>_. True)"
  unfolding exec_ok_def by blast

lemma ready_gas_at: "ready_at F k g st rs \<Longrightarrow> gas_at F k g st rs \<and> settled n rs"
  by (simp add: ready_at_def gas_at_def frame_at_def frame_ok_def settled_def)

lemma runStep_yields:
  assumes op: "op_ok c rc (i, table i)" and k: "control_ok (pc + 1, i, rest)"
  shows "yields (safe F g) (ready_at F (pc, i, rest) g st) (runStep c rc table)
    (frame_next F (pc + 1, i, rest) (g - op_constantGas (table i))) (\<lambda>_. True)"
proof -
  let ?op = "table i" and ?k = "(pc, i, rest)"
  let ?gas = "case op_dynamicGas ?op of Some h \<Rightarrow> h c (op_constantGas ?op) | None \<Rightarrow> returnE (op_constantGas ?op)"
  have opcode: "yields (safe F g) (ready_at F ?k g st) (getsE rs_opCode) (ready_at F ?k g st) (\<lambda>x. x = i)"
    by (rule yields_gets_post) (auto simp: ready_at_def frame_at_def control_def)
  have const: "0 \<le> op_constantGas ?op" using op by (simp add: op_ok_def)
  have gas: "yields (safe F g) (ready_at F ?k g st) ?gas (gas_at F ?k g st)
      (\<lambda>r. \<not> op_undefined ?op \<longrightarrow> op_constantGas ?op + price i st \<le> r) \<and> ends (ready_at F ?k g st) settled ?gas"
  proof (cases "op_dynamicGas ?op")
    case None
    then have "\<not> op_undefined ?op \<Longrightarrow> price i st = 0" using op by (simp add: op_ok_def gas_ok_def price_def)
    then have "yields (safe F g) (ready_at F ?k g st) ?gas (gas_at F ?k g st)
      (\<lambda>r. \<not> op_undefined ?op \<longrightarrow> op_constantGas ?op + price i st \<le> r)"
      unfolding None option.case by (intro ready_gas yields_return) simp
    moreover have "ends (ready_at F ?k g st) settled ?gas"
      unfolding None by (simp add: ends_def ready_gas_at)
    ultimately show ?thesis by blast
  next
    case (Some h)
    then have "gas_ok c i (Some h)" using op by (auto simp: op_ok_def)
    then show ?thesis unfolding Some option.case by (auto intro: gas_okD yields_weaken)
  qed
  have run: "yields (safe F g) (priced_at F ?k g st r) (seqE (useGas r)
       (seqE (modifyE (\<lambda>rs. rs\<lparr>rs_programCounter := rs_programCounter rs + 1\<rparr>)) (op_execute ?op c rc)))
       (frame_next F (pc + 1, i, rest) (g - op_constantGas ?op)) (\<lambda>_. True)"
    if r: "op_constantGas ?op + price i st \<le> r" for r
  proof (rule yields_seq, rule useGas_spent)
    show "0 \<le> r" using r const bonus_price(3) [of i st] by linarith
    show "yields (safe F g) (\<lambda>rs. r \<le> g \<and> ready_at F ?k (g - r) st rs)
       (seqE (modifyE (\<lambda>rs. rs\<lparr>rs_programCounter := rs_programCounter rs + 1\<rparr>)) (op_execute ?op c rc))
       (frame_next F (pc + 1, i, rest) (g - op_constantGas ?op)) (\<lambda>_. True)"
    proof (rule yields_fact, rule yields_seq, rule next_pc, rule yields_post)
      have "g - r + bonus i st \<le> g" using r bonus_price(1) [of i st] const by linarith
      then show "yields (safe F g) (ready_at F (pc + 1, i, rest) (g - r) st) (op_execute ?op c rc)
          (frame_next F (pc + 1, i, rest) (g - r + bonus i st)) (\<lambda>_. True)"
        using op k by (simp add: op_ok_def exec_okD)
      show "frame_next F (pc + 1, i, rest) (g - r + bonus i st) s \<Longrightarrow>
          frame_next F (pc + 1, i, rest) (g - op_constantGas ?op) s" for s
        by (erule frame_next_mono) (use r bonus_price(1) [of i st] in linarith)
    qed
  qed
  show ?thesis
    unfolding runStep_def Let_def lookupOperation_def
    apply (rule yields_bind, rule opcode, simp only:)
    apply (rule yields_bind_ends, rule gas [THEN conjunct1], rule gas [THEN conjunct2], fold priced_at_def)
    apply (rule yields_bind, rule yields_gets)
    apply (rule yields_seq, rule yields_when, rule no_witness_keeps)
    apply (rule yields_if, rule yields_trap)
    apply (rule run, simp)
    done
qed

section \<open>The invariant of the loop\<close>

definition opcode_cache :: "bytes \<Rightarrow> nat \<Rightarrow> nat option" where
  "opcode_cache code j = (if j < length code \<and> boundary code j then Some (unat (code ! j)) else None)"

definition loop_inv :: "below \<Rightarrow> evm_ctx \<Rightarrow> bytes \<Rightarrow> loop_state \<Rightarrow> run_state \<Rightarrow> bool" where
  "loop_inv F c code cached rs \<longleftrightarrow> frame_ok F rs \<and> rs_code rs = code \<and> boundary code (rs_programCounter rs)
     \<and> (\<forall>p v. rs_cachedPushes rs p = Some v \<longrightarrow> 0 \<le> v)
     \<and> (case cached of None \<Rightarrow> True | Some ops \<Rightarrow> analysed (ctx_ext c) rs \<and> ops = opcode_cache code)"

lemma push_data_nonneg: "0 \<le> push_data x code i"
  by (simp add: push_data_def Let_def)

lemma fetch_run:
  assumes inv: "loop_inv F c code cached rs" and pc: "rs_programCounter rs < length code" and fin: "finished c rc table"
  obtains cached' rs1 where "fetch c table cached rs = (Inr (unat (code ! rs_programCounter rs), cached'), rs1)"
    "loop_inv F c code cached' rs1" "rs_gasLeft rs1 = rs_gasLeft rs" "rs_programCounter rs1 = rs_programCounter rs"
    "is_jump_opcode (unat (code ! rs_programCounter rs)) \<Longrightarrow> cached' \<noteq> None"
proof (cases cached)
  case (Some ops)
  then have "fetch c table cached rs = (Inr (unat (code ! rs_programCounter rs), cached), rs)"
    using inv pc by (simp add: fetch_def Let_def loop_inv_def opcode_cache_def)
  with Some inv that show thesis by blast
next
  case None
  show thesis
  proof (cases "is_jump_opcode (unat (code ! rs_programCounter rs))")
    case False
    then have "fetch c table cached rs = (Inr (unat (code ! rs_programCounter rs), cached), rs)"
      using inv None by (simp add: fetch_def Let_def loop_inv_def)
    with False inv that show thesis by blast
  next
    case True
    define ja where "ja = getValidJumpDestinations (ctx_ext c) table code"
    let ?rs = "rs\<lparr>rs_validJumps := ja_jumps ja, rs_cachedPushes := ja_pushes ja, rs_shouldDoJumpAnalysis := False\<rparr>"
    have run: "fetch c table cached rs = (Inr (unat (code ! rs_programCounter rs), Some (ja_opcodesCached ja)), ?rs)"
      using inv None True by (simp add: fetch_def Let_def loop_inv_def ja_def)
    have "op_opcode (table (unat b)) = unat b" for b :: byte
      using fin unsigned_less [of b, where ?'a = nat] by (simp add: finished_def)
    then have ops: "ja_opcodesCached ja = opcode_cache code"
      unfolding ja_def analysis_fields by (simp add: opcode_cache_def fun_eq_iff)
    have "\<forall>p v. ja_pushes ja p = Some v \<longrightarrow> 0 \<le> v"
      unfolding ja_def analysis_fields by (auto simp: push_data_nonneg)
    moreover have "analysed (ctx_ext c) ?rs"
      using inv unfolding ja_def analysis_fields analysed_def by (auto simp: loop_inv_def jumpdest_def)
    moreover have "frame_ok F ?rs" using inv by (auto simp: loop_inv_def frame_invs)
    ultimately have "loop_inv F c code (Some (ja_opcodesCached ja)) ?rs"
      using inv by (simp add: loop_inv_def ops)
    with run show thesis by (rule that) simp_all
  qed
qed

lemma analysed_control: "snd (control rs) = snd (control rs1) \<Longrightarrow> analysed x rs = analysed x rs1"
  by (auto simp: analysed_def control_def)

text \<open>A step that continues keeps the invariant, burns no negative amount of gas, and burns gas when it does
  not move forward; a step that ends the loop leaves a safe frame.\<close>

lemma step_keeps:
  assumes inv: "loop_inv F c code cached' rs1" and pc: "rs_programCounter rs1 < length code"
    and fin: "finished c rc table"
    and opc: "opc = unat (code ! rs_programCounter rs1)" and jump: "is_jump_opcode opc \<Longrightarrow> cached' \<noteq> None"
    and step: "runStep c rc table (rs1\<lparr>rs_opCode := opc\<rparr>) = (r, rs2)"
  shows "r = Inl e \<Longrightarrow> is_evm_error e \<Longrightarrow> safe F (rs_gasLeft rs1) rs2"
    and "r = Inr () \<Longrightarrow> loop_inv F c code cached' rs2 \<and> rs_gasLeft rs2 \<le> rs_gasLeft rs1
        \<and> (rs_programCounter rs2 \<le> rs_programCounter rs1 \<longrightarrow> rs_gasLeft rs2 < rs_gasLeft rs1)"
proof -
  let ?rs = "rs1\<lparr>rs_opCode := opc\<rparr>" and ?g = "rs_gasLeft rs1" and ?pc = "rs_programCounter rs1"
  define rest where "rest = (code, rs_shouldDoJumpAnalysis rs1, rs_validJumps rs1, rs_cachedPushes rs1,
    env_depth (rs_env rs1), env_isStatic (rs_env rs1), env_address (rs_env rs1))"
  have ok: "frame_ok F rs1" "rs_code rs1 = code" using inv by (simp_all add: loop_inv_def)
  have at: "ready_at F (?pc, opc, rest) ?g (rs_stack rs1) ?rs"
    using ok by (auto simp: frame_invs rest_def)
  have safe: "safe F ?g ?rs" using ok by (simp add: safe_def frame_ok_def frame_core_def)
  have ops: "op_ok c rc (opc, table opc)" using fin by (simp add: finished_def table_ok_def)
  have "control_ok (?pc + 1, opc, rest)" using inv by (auto simp: control_ok_def rest_def loop_inv_def)
  note yields = runStep_yields [where F = F and g = ?g and st = "rs_stack rs1" and i = opc and table = table, OF ops this]
  show "r = Inl e \<Longrightarrow> is_evm_error e \<Longrightarrow> safe F ?g rs2" using yields_thrown [OF yields safe at] step by blast
  assume "r = Inr ()"
  then have next': "frame_next F (?pc + 1, opc, rest) (?g - op_constantGas (table opc)) rs2"
    using yieldsD [OF yields safe at] step by blast
  have const: "0 \<le> op_constantGas (table opc)" "opc = 0x56 \<or> opc = 0x57 \<Longrightarrow> 1 \<le> op_constantGas (table opc)"
    using ops fin by (auto simp: op_ok_def finished_def)
  have ctl: "snd (control rs2) = (opc, rest)" and gas: "rs_gasLeft rs2 \<le> ?g - op_constantGas (table opc)"
    and fr: "frame_ok F rs2" and go: "goes_to (?pc + 1, opc, rest) (rs_programCounter rs2)"
    using next' by (simp_all add: frame_next_def)
  have same: "rs_code rs2 = code" "rs_cachedPushes rs2 = rs_cachedPushes rs1" "rs_validJumps rs2 = rs_validJumps rs1"
    "rs_shouldDoJumpAnalysis rs2 = rs_shouldDoJumpAnalysis rs1"
    using ctl by (simp_all add: control_def rest_def)
  have an: "analysed (ctx_ext c) rs2 = analysed (ctx_ext c) rs1" using same ok by (simp add: analysed_def)
  have size: "instr_size (code ! ?pc) = (if 0x60 \<le> opc \<and> opc \<le> 0x7f then opc - 0x5f + 1 else 1)"
    by (simp add: instr_size_def opc)
  have bnd: "boundary code (?pc + instr_size (code ! ?pc))"
    using inv pc by (auto simp: loop_inv_def intro: boundary.next_instr)
  consider (forward) "rs_programCounter rs2 = ?pc + instr_size (code ! ?pc)"
    | (jump) "opc = 0x56 \<or> opc = 0x57" "rs_programCounter rs2 < length (rs_validJumps rs1)"
        "rs_validJumps rs1 ! rs_programCounter rs2 = 1"
    using go size by (auto simp: goes_to_def rest_def split: if_splits)
  then have "boundary code (rs_programCounter rs2) \<and> (rs_programCounter rs2 \<le> ?pc \<longrightarrow> rs_gasLeft rs2 < ?g)"
  proof cases
    case forward
    moreover have "?pc < ?pc + instr_size (code ! ?pc)" by simp
    ultimately show ?thesis using bnd by (metis not_le)
  next
    case jump
    have "is_jump_opcode opc" using jump(1) by (auto simp only: is_jump_opcode_def)
    then have "analysed (ctx_ext c) rs1" using assms(5) inv by (cases cached') (simp_all add: loop_inv_def)
    then have "rs_validJumps rs1 ! rs_programCounter rs2 = (if jumpdest code (rs_programCounter rs2) then 1 else 0)"
      using jump(2) ok by (simp add: analysed_def)
    then have "jumpdest code (rs_programCounter rs2)" unfolding jump(3) by (metis zero_neq_one)
    then have "boundary code (rs_programCounter rs2)" by (simp only: jumpdest_def)
    then show ?thesis using gas const(2) [OF jump(1)] by linarith
  qed
  moreover from this have "loop_inv F c code cached' rs2"
    using inv fr unfolding loop_inv_def an same by simp
  ultimately show "loop_inv F c code cached' rs2 \<and> rs_gasLeft rs2 \<le> ?g
        \<and> (rs_programCounter rs2 \<le> ?pc \<longrightarrow> rs_gasLeft rs2 < ?g)"
    using gas const(1) by linarith
qed

section \<open>Reachable states\<close>

inductive loop_step :: "evm_ctx \<Rightarrow> run_call \<Rightarrow> jump_table \<Rightarrow> loop_state \<times> run_state \<Rightarrow> loop_state \<times> run_state \<Rightarrow> bool"
  for c :: evm_ctx and rc :: run_call and table :: jump_table where
  "rs_programCounter rs < length (rs_code rs) \<Longrightarrow> fetch c table cached rs = (Inr (opCode, cached'), rs1) \<Longrightarrow>
   \<not> (opCode = 0xfe \<and> eip_active c 6800 \<and> env_chargeCodeAccesses (rs_env rs1)) \<Longrightarrow>
   runStep c rc table (rs1\<lparr>rs_opCode := opCode\<rparr>) = (Inr (), rs2) \<Longrightarrow>
   loop_step c rc table (cached, rs) (cached', rs2)"

inductive_cases loop_stepE: "loop_step c rc table (cached, rs) (cached', rs2)"

lemma loop_step_inv:
  assumes "loop_step c rc table (cached, rs) (cached', rs2)" "loop_inv F c code cached rs" "finished c rc table"
  shows "loop_inv F c code cached' rs2 \<and> rs_gasLeft rs2 \<le> rs_gasLeft rs"
proof -
  obtain opCode rs1 where 1: "rs_programCounter rs < length (rs_code rs)"
    "fetch c table cached rs = (Inr (opCode, cached'), rs1)"
    "runStep c rc table (rs1\<lparr>rs_opCode := opCode\<rparr>) = (Inr (), rs2)"
    using assms(1) by (auto elim: loop_stepE)
  have pc: "rs_programCounter rs < length code" using 1 assms(2) by (simp add: loop_inv_def)
  have "loop_inv F c code cached' rs1" "rs_gasLeft rs1 = rs_gasLeft rs" "rs_programCounter rs1 = rs_programCounter rs"
    "opCode = unat (code ! rs_programCounter rs)" "is_jump_opcode opCode \<Longrightarrow> cached' \<noteq> None"
    using fetch_run [OF assms(2) pc assms(3)] 1(2) by (metis Pair_inject sum.inject(2))+
  with step_keeps(2) [OF _ _ assms(3) _ _ 1(3)] pc show ?thesis by metis
qed

lemma reachable_inv:
  assumes "(loop_step c rc table)\<^sup>*\<^sup>* s t" "finished c rc table" "loop_inv F c code (fst s) (snd s)"
  shows "loop_inv F c code (fst t) (snd t) \<and> rs_gasLeft (snd t) \<le> rs_gasLeft (snd s)"
  using assms
proof (induction rule: rtranclp_induct)
  case (step u v)
  then show ?case using loop_step_inv [of c rc table "fst u" "snd u" "fst v" "snd v" F code] by fastforce
qed simp

section \<open>Fuel\<close>

lemma run_loop_end: "\<not> rs_programCounter rs < length (rs_code rs) \<Longrightarrow> run_loop c rc table fuel cached rs = Some (Inr None, rs)"
  by (subst run_loop.simps) simp

text \<open>One round, for a program counter inside the code.\<close>

lemma run_loop_round:
  assumes "rs_programCounter rs < length (rs_code rs)" "fetch c table cached rs = (Inr (opc, cached'), rs1)"
    "\<not> (opc = 0xfe \<and> eip_active c 6800 \<and> env_chargeCodeAccesses (rs_env rs1))"
    "runStep c rc table (rs1\<lparr>rs_opCode := opc\<rparr>) = (r, rs2)"
  shows "run_loop c rc table (Suc n) cached rs
    = (case after_step r of Some out \<Rightarrow> Some (out, rs2) | None \<Rightarrow> run_loop c rc table n cached' rs2)"
  using assms(3) by (subst run_loop.simps) (simp add: assms(1,2,4) del: de_Morgan_conj)

lemma run_loop_step: "loop_step c rc table (cached, rs) (cached', rs2) \<Longrightarrow>
    run_loop c rc table (Suc n) cached rs = run_loop c rc table n cached' rs2"
  by (erule loop_stepE) (simp add: run_loop_round after_step_def)

lemma measure_forward:
  assumes "(g' :: int) \<le> g" "p < p'" "p < len"
  shows "nat g' * (len + 1) + (len - p') < nat g * (len + 1) + (len - p)"
proof -
  have "nat g' * (len + 1) \<le> nat g * (len + 1)" using assms(1) by (intro mult_right_mono) simp_all
  then show ?thesis using assms(2,3) by linarith
qed

lemma measure_gas:
  assumes "0 \<le> g'" "(g' :: int) < g"
  shows "nat g' * (len + 1) + (len - p') < nat g * (len + 1) + (len - p)"
proof -
  have "Suc (nat g') * (len + 1) \<le> nat g * (len + 1)" using assms by (intro mult_right_mono) simp_all
  then show ?thesis unfolding mult_Suc by linarith
qed

lemma loop_ends:
  assumes "finished c rc table" "plain_fork c"
  shows "loop_inv F c code cached rs \<Longrightarrow>
    nat (rs_gasLeft rs) * (length code + 1) + (length code - rs_programCounter rs) < fuel \<Longrightarrow>
    \<exists>out t. run_loop c rc table fuel cached rs = Some (out, t) \<and> (\<not> isl out \<longrightarrow> safe F (rs_gasLeft rs) t)"
proof (induction fuel arbitrary: cached rs)
  case (Suc n)
  have code: "rs_code rs = code" and ok: "frame_ok F rs" using Suc.prems(1) by (simp_all add: loop_inv_def)
  show ?case
  proof (cases "rs_programCounter rs < length code")
    case False
    then show ?thesis using ok code by (simp add: run_loop_end safe_def frame_ok_def frame_core_def)
  next
    case pc: True
    obtain cached' rs1 where f: "fetch c table cached rs = (Inr (unat (code ! rs_programCounter rs), cached'), rs1)"
      "loop_inv F c code cached' rs1" "rs_gasLeft rs1 = rs_gasLeft rs" "rs_programCounter rs1 = rs_programCounter rs"
      "is_jump_opcode (unat (code ! rs_programCounter rs)) \<Longrightarrow> cached' \<noteq> None"
      using fetch_run [OF Suc.prems(1) pc assms(1)] by blast
    let ?opc = "unat (code ! rs_programCounter rs)"
    obtain r rs2 where step: "runStep c rc table (rs1\<lparr>rs_opCode := ?opc\<rparr>) = (r, rs2)" by fastforce
    have pc1: "rs_programCounter rs1 < length code" and opc: "?opc = unat (code ! rs_programCounter rs1)"
      using pc f(4) by simp_all
    note keep = step_keeps [OF f(2) pc1 assms(1) opc f(5) step]
    have round: "run_loop c rc table (Suc n) cached rs
        = (case after_step r of Some out \<Rightarrow> Some (out, rs2) | None \<Rightarrow> run_loop c rc table n cached' rs2)"
      using run_loop_round [OF _ f(1) _ step] pc code assms(2) by (simp add: plain_fork_def)
    show ?thesis
    proof (cases r)
      case (Inl e)
      then show ?thesis using keep(1) f(3) by (auto simp: round after_step_def)
    next
      case (Inr u)
      then have inv: "loop_inv F c code cached' rs2" and le: "rs_gasLeft rs2 \<le> rs_gasLeft rs"
        and burnt: "rs_programCounter rs2 \<le> rs_programCounter rs \<longrightarrow> rs_gasLeft rs2 < rs_gasLeft rs"
        using keep(2) f(3,4) by simp_all
      have "0 \<le> rs_gasLeft rs2" using inv by (simp add: loop_inv_def frame_ok_def frame_core_def)
      then have "nat (rs_gasLeft rs2) * (length code + 1) + (length code - rs_programCounter rs2)
          < nat (rs_gasLeft rs) * (length code + 1) + (length code - rs_programCounter rs)"
        using measure_forward [OF le _ pc, of "rs_programCounter rs2"]  measure_gas burnt by (metis not_le)
      then obtain out t where "run_loop c rc table n cached' rs2 = Some (out, t)"
          "\<not> isl out \<longrightarrow> safe F (rs_gasLeft rs2) t"
        using Suc.IH [OF inv] Suc.prems(2) by (meson less_trans_Suc Suc_lessD less_le_trans not_less_eq not_less)
      then show ?thesis using Inr le by (auto simp: round after_step_def safe_def)
    qed
  qed
qed simp

lemma more_fuel: "run_loop c rc table n cached rs = Some out \<Longrightarrow> n \<le> m \<Longrightarrow> run_loop c rc table m cached rs = Some out"
proof (induction n arbitrary: cached rs m)
  case 0
  then show ?case by (subst (asm) run_loop.simps) (auto simp: run_loop_end split: if_splits)
next
  case (Suc n)
  then obtain k where m: "m = Suc k" "n \<le> k" by (cases m) auto
  show ?case
  proof (cases "rs_programCounter rs < length (rs_code rs)")
    case False
    then show ?thesis using Suc.prems(1) by (simp add: run_loop_end)
  next
    case True
    then show ?thesis using Suc.prems(1) Suc.IH [OF _ m(2)] unfolding m(1)
      by (subst run_loop.simps, subst (asm) run_loop.simps)
         (auto split: prod.splits sum.splits option.splits if_splits)
  qed
qed

section \<open>Properties\<close>

lemma initial_inv:
  "frame_ok F rs \<Longrightarrow> rs_programCounter rs = 0 \<Longrightarrow> rs_cachedPushes rs = (\<lambda>_. None) \<Longrightarrow> loop_inv F c (rs_code rs) None rs"
  by (simp add: loop_inv_def boundary.start)

text \<open>C19: From the start of a frame on, whatever the code is, every state the main loop reaches has its
  program counter at the start of an instruction or at the end of the code, never inside the data of
  a PUSH; the loop fetches there the byte of the code, with and without the caches of the jump
  analysis; the frame is well formed and has no more gas than at the start.\<close>

theorem loop_stays_on_instructions:
  assumes "buildJumpTable c [] = Inr table" "before_osaka c" "plain_fork c" "run_call_ok rc"
    and "frame_ok F rs" "rs_programCounter rs = 0" "rs_cachedPushes rs = (\<lambda>_. None)"
    and "(loop_step c rc table)\<^sup>*\<^sup>* (None, rs) (cached, t)"
  shows "rs_code t = rs_code rs \<and> boundary (rs_code rs) (rs_programCounter t)
    \<and> (rs_programCounter t < length (rs_code rs) \<longrightarrow>
         (\<exists>cached' t'. fetch c table cached t = (Inr (unat (rs_code rs ! rs_programCounter t), cached'), t')))
    \<and> frame_ok F t \<and> rs_gasLeft t \<le> rs_gasLeft rs"
proof -
  have fin: "finished c rc table" by (rule built_table_finished) fact+
  have inv: "loop_inv F c (rs_code rs) cached t" and gas: "rs_gasLeft t \<le> rs_gasLeft rs"
    using reachable_inv [OF assms(8) fin, of F "rs_code rs"] initial_inv [OF assms(5-7)] by simp_all
  have "\<exists>cached' t'. fetch c table cached t = (Inr (unat (rs_code rs ! rs_programCounter t), cached'), t')"
    if "rs_programCounter t < length (rs_code rs)"
    using fetch_run [OF inv that fin] by blast
  then show ?thesis using inv gas by (simp add: loop_inv_def)
qed

text \<open>C20: The interpreter terminates on every code: with fuel for one round per unit of gas and position
  of the code it returns, with the same result for all larger amounts of fuel. Unless the outcome is an
  internal error that is rethrown, the frame it leaves is safe, also when it ends with an EVM error: no
  negative gas, no more than it was given, no negative balance, and the checkpoints below of the state
  manager, the journal and the transient storage as they were.\<close>

theorem interpreter_terminates:
  assumes "buildJumpTable c [] = Inr table" "before_osaka c" "plain_fork c" "run_call_ok rc"
    and "frame_ok F rs" "rs_programCounter rs = 0" "rs_cachedPushes rs = (\<lambda>_. None)"
  shows "\<exists>out t. (\<forall>fuel \<ge> (nat (rs_gasLeft rs) + 1) * (length code + 1).
      interpreter_run c rc table fuel code None rs = Some (out, t))
    \<and> (\<not> isl out \<longrightarrow> safe F (rs_gasLeft rs) t)"
proof -
  let ?rs = "rs\<lparr>rs_code := code\<rparr>" and ?fuel = "(nat (rs_gasLeft rs) + 1) * (length code + 1)"
  have fin: "finished c rc table" by (rule built_table_finished) fact+
  have ok: "frame_ok F ?rs" using assms(5) by (simp add: frame_invs)
  have inv: "loop_inv F c code None ?rs" using initial_inv [OF ok] assms(6,7) by simp
  have "nat (rs_gasLeft ?rs) * (length code + 1) + (length code - rs_programCounter ?rs) < ?fuel" by simp
  from loop_ends [OF fin assms(3) inv this]
  obtain out t where run: "run_loop c rc table ?fuel None ?rs = Some (out, t)"
    "\<not> isl out \<longrightarrow> safe F (rs_gasLeft rs) t" by auto
  have start: "safe F (rs_gasLeft rs) rs" using assms(5) by (simp add: safe_def frame_ok_def frame_core_def)
  show ?thesis
  proof (cases "\<not> eip_active c 3540 \<or> \<not> byte_is code 0 EOF_FORMAT")
    case True
    have same: "rs\<lparr>rs_code := code, rs_programCounter := rs_programCounter rs\<rparr> = ?rs" by simp
    have "interpreter_run c rc table fuel code None rs = Some (out, t)" if "?fuel \<le> fuel" for fuel
      using more_fuel [OF run(1) that] True assms(6)
      unfolding interpreter_run_def Let_def option.case same by simp
    then show ?thesis using run(2) by blast
  next
    case False
    then have "\<exists>out t. (\<forall>fuel. interpreter_run c rc table fuel code None rs = Some (out, t))
        \<and> (\<not> isl out \<longrightarrow> t = rs)"
      by (simp add: interpreter_run_def)
    then show ?thesis using start by metis
  qed
qed

definition stop_call :: run_call where
  "stop_call msg = throwE (PlainError ''no callee'')"

text \<open>A new transient storage starts with one checkpoint.\<close>

definition sample_below :: below where
  "sample_below = ([], [], tl (ts_frames new_transient_storage))"

lemma sample_facts:
  "before_osaka sample_ctx" "plain_fork sample_ctx" "run_call_ok stop_call"
  "frame_ok sample_below (sample_frame code 100)" "rs_programCounter (sample_frame code 100) = 0"
  "rs_cachedPushes (sample_frame code 100) = (\<lambda>_. None)" "rs_gasLeft (sample_frame code 100) = 100"
proof -
  show "before_osaka sample_ctx" by (simp add: before_osaka_def sample_ctx_def toLowerCase_def lower_char_def)
  show "plain_fork sample_ctx"
    by (simp add: plain_fork_def eip_active_def sample_ctx_def tiny_active getChainId_def tiny_spec_hardforks tiny_spec_def)
  show "run_call_ok stop_call" by (simp add: run_call_ok_def stop_call_def yields_throw)
  have "frame_core sample_below (sample_frame code 100)" unfolding frame_core_def
  proof (intro conjI)
    show "world_ok sample_below (rs_world (sample_frame code 100))"
      by (auto simp: sample_frame_def new_run_state_def sample_world_def world_ok_def sm_ok_def j_ok_def
          new_simple_sm_wf balances_ok_def j_wf_def new_journal_def cleanJournal_def j_frames_def sm_frames_def
          new_simple_sm_def checkpointSync_def top_map_def sm_wf_def sample_below_def)
    show "ts_ok sample_below (rs_transient (sample_frame code 100))"
      by (simp add: sample_frame_def new_run_state_def ts_ok_def new_ts_wf sample_below_def)
  qed (auto simp: sample_frame_def new_run_state_def frame_wf_def stk_def stack_wf_def new_stack_def
        stack_view_def getStack_def memory_paid_def memory_total_def env_ok_def sample_env_def header_ok_def sample_header_def
        opt_nonneg_def new_account_def account_of_def)
  then show "frame_ok sample_below (sample_frame code 100)"
    by (simp add: frame_ok_def lim_ok_def opt_nonneg_def sample_frame_def new_run_state_def)
  show "rs_programCounter (sample_frame code 100) = 0" "rs_cachedPushes (sample_frame code 100) = (\<lambda>_. None)"
    "rs_gasLeft (sample_frame code 100) = 100"
    by (simp_all add: sample_frame_def new_run_state_def)
qed

lemma sample_table: "\<exists>table. buildJumpTable sample_ctx [] = Inr table"
proof -
  have "toLowerCase (ctx_fork sample_ctx) = ''shanghai''" by (simp add: sample_ctx_def toLowerCase_def lower_char_def)
  then have "toLowerCase (ctx_fork sample_ctx) \<in> set (map fst jumpTableFactories)" by (simp add: jumpTableFactories_def)
  then show ?thesis using known_fork buildJumpTable_total by blast
qed

theorem loop_stays_on_instructions_witness:
  "\<exists>table. buildJumpTable sample_ctx [] = Inr table
     \<and> boundary (rs_code (sample_frame [0x5b] 100)) (rs_programCounter (sample_frame [0x5b] 100))"
  using sample_table loop_stays_on_instructions [OF _ sample_facts(1-6) rtranclp.rtrancl_refl] by blast

theorem interpreter_terminates_witness:
  "\<exists>table out t. buildJumpTable sample_ctx [] = Inr table
     \<and> interpreter_run sample_ctx stop_call table 404 [0x5b, 0x60, 0x00] None (sample_frame [0x5b, 0x60, 0x00] 100) = Some (out, t)
     \<and> (\<not> isl out \<longrightarrow> 0 \<le> rs_gasLeft t \<and> rs_gasLeft t \<le> 100)"
proof -
  obtain table where t: "buildJumpTable sample_ctx [] = Inr table" using sample_table by blast
  from interpreter_terminates [OF this sample_facts(1-6), of "[0x5b, 0x60, 0x00]" "[0x5b, 0x60, 0x00]"]
  show ?thesis using t unfolding sample_facts(7) safe_def by auto
qed

end
