(* ===== verification/Evm.thy ===== *)
theory Evm
  imports Termination Rlp
begin

text \<open>
  The class \<open>EVM\<close> of \<open>src/packages/evm/src/evm.ts\<close>: \<open>runCall\<close>, \<open>runCode\<close>, \<open>_executeCall\<close>, \<open>_executeCreate\<close>,
  \<open>runInterpreter\<close> and their helpers. The operations act on the world (state manager and journal) and the
  transient storage; accounts are values, as with a state manager that decodes a new object at each
  read. Nested messages come back through \<open>run_messages\<close>, by recursion on a bound of the call depth; the
  main loop gets fuel for the gas of the message, which the theory Termination shows to be enough. What stands in
  for an exhausted bound is the parameter \<open>unreached\<close>. Precompiled contracts are a
  parameter: a function of data and gas limit for some addresses. Debug output, events, profiling and the
  EIP-6800 access witness are not modelled.
\<close>

section \<open>Results (\<open>OOGResult\<close> and its siblings)\<close>

definition failed_result :: "evm_error \<Rightarrow> int \<Rightarrow> exec_result" where
  "failed_result err gasUsed = \<lparr>er_executionGasUsed = gasUsed, er_exceptionError = Some (EVMError err),
     er_returnValue = [], er_gasRefund = None, er_logs = None, er_selfdestruct = None, er_createdAddresses = None\<rparr>"

definition OOGResult :: "int \<Rightarrow> exec_result" where
  "OOGResult gasLimit = failed_result OUT_OF_GAS gasLimit"

definition COOGResult :: "int \<Rightarrow> exec_result" where
  "COOGResult gasUsedCreateCode = failed_result CODESTORE_OUT_OF_GAS gasUsedCreateCode"

definition INVALID_BYTECODE_result :: "int \<Rightarrow> exec_result" where
  "INVALID_BYTECODE_result gasLimit = failed_result INVALID_BYTECODE_RESULT gasLimit"

definition CodesizeExceedsMaximumError :: "int \<Rightarrow> exec_result" where
  "CodesizeExceedsMaximumError gasUsed = failed_result CODESIZE_EXCEEDS_MAXIMUM gasUsed"

text \<open>\<open>{ ...result, ...over }\<close>, where \<open>over\<close> is one of these.\<close>

definition override :: "exec_result \<Rightarrow> exec_result \<Rightarrow> exec_result" where
  "override result over = result\<lparr>er_returnValue := er_returnValue over,
     er_executionGasUsed := er_executionGasUsed over, er_exceptionError := er_exceptionError over\<rparr>"

text \<open>The \<open>error\<close> property of an exception.\<close>

definition error_of :: "exn \<Rightarrow> evm_error option" where
  "error_of e = (case e of EVMError x \<Rightarrow> Some x | EVMErrorAt x _ \<Rightarrow> Some x | _ \<Rightarrow> None)"

definition defaultBlock :: block_header where
  "defaultBlock = \<lparr>hdr_number = 0, hdr_coinbase = createZeroAddress, hdr_timestamp = 0, hdr_difficulty = 0,
     hdr_prevRandao = replicate 32 0, hdr_gasLimit = 0, hdr_baseFeePerGas = None, hdr_blobGasPrice = None\<rparr>"

section \<open>The object\<close>

type_synonym evm_state = "world \<times> transient_storage"

type_synonym precompile = "bytes \<Rightarrow> int \<Rightarrow> exn + exec_result"

text \<open>What stands in for exhausted bounds: the nested call below the last depth, the outcome of a loop out of
  fuel, and fuel beyond what the gas gives.\<close>

record unreached =
  un_call :: run_call
  un_loop :: "run_state \<Rightarrow> (exn + exn option) \<times> run_state"
  un_extra :: nat

record evm_object =
  eo_ctx :: evm_ctx
  eo_jumpTable :: jump_table
  eo_precompiles :: "address \<Rightarrow> precompile option"
  eo_allowUnlimitedContractSize :: bool
  eo_block :: block_header
  eo_gasPrice :: int
  eo_origin :: address

definition supportedHardforks :: "string list" where
  "supportedHardforks = [''chainstart'', ''homestead'', ''dao'', ''tangerineWhistle'', ''spuriousDragon'', ''byzantium'',
     ''constantinople'', ''petersburg'', ''istanbul'', ''muirGlacier'', ''berlin'', ''london'', ''arrowGlacier'',
     ''grayGlacier'', ''mergeNetsplitBlock'', ''paris'', ''shanghai'', ''cancun'', ''prague'', ''osaka'', ''bpo1'',
     ''bpo2'', ''bpo3'', ''bpo4'', ''bpo5'']"

text \<open>The constructor, given the context with the resolved hardfork.\<close>

definition new_evm :: "evm_ctx \<Rightarrow> custom_opcode list \<Rightarrow> (address \<Rightarrow> precompile option) \<Rightarrow> bool \<Rightarrow> exn + evm_object" where
  "new_evm c customOpcodes precompiles allowUnlimitedContractSize =
     (if ctx_fork c \<notin> set supportedHardforks
      then Inl (PlainError ''Hardfork not set as supported in supportedHardforks'')
      else bindR (buildJumpTable c customOpcodes) (\<lambda>table. Inr \<lparr>eo_ctx = c, eo_jumpTable = table,
        eo_precompiles = precompiles, eo_allowUnlimitedContractSize = allowUnlimitedContractSize,
        eo_block = defaultBlock, eo_gasPrice = 0, eo_origin = createZeroAddress\<rparr>))"

definition on_world :: "'a world_op \<Rightarrow> (evm_state, 'a) sx" where
  "on_world m = (\<lambda>(w, ts). case m w of (r, w') \<Rightarrow> (r, (w', ts)))"

definition on_transient :: "(transient_storage, 'a) sx \<Rightarrow> (evm_state, 'a) sx" where
  "on_transient m = (\<lambda>(w, ts). case m ts of (r, ts') \<Rightarrow> (r, (w, ts')))"

text \<open>\<open>try { await m } catch (e) { errorMessage = e }\<close>.\<close>

definition catchE :: "('s, unit) sx \<Rightarrow> ('s, exn option) sx" where
  "catchE m = (\<lambda>s. case m s of (Inl e, t) \<Rightarrow> (Inr (Some e), t) | (Inr _, t) \<Rightarrow> (Inr None, t))"

definition get_or_new :: "address \<Rightarrow> (evm_state, account) sx" where
  "get_or_new a = bindE (on_world (on_sm (sm_getAccount a)))
     (\<lambda>acc. returnE (case acc of None \<Rightarrow> new_account | Some b \<Rightarrow> b))"

section \<open>Addresses of new contracts (\<open>utils/src/account.ts\<close>)\<close>

definition generateAddress :: "externals \<Rightarrow> bytes \<Rightarrow> bytes \<Rightarrow> exn + bytes" where
  "generateAddress x from nonce =
     bindR (encode (RArray [RBytes from, RBytes (if bytesToBigInt x nonce = 0 then [] else nonce)]))
       (\<lambda>bs. Inr (subarray_last 20 (keccak256 x bs)))"

definition generateAddress2 :: "externals \<Rightarrow> bytes \<Rightarrow> bytes \<Rightarrow> bytes \<Rightarrow> exn + bytes" where
  "generateAddress2 x from salt initCode =
     (if length from \<noteq> 20 then Inl (PlainError ''Expected from to be of length 20'')
      else if length salt \<noteq> 32 then Inl (PlainError ''Expected salt to be of length 32'')
      else bindR (hexToBytes x ''0xff'') (\<lambda>ff.
        Inr (subarray_last 20 (keccak256 x (concatBytes [ff, from, salt, keccak256 x initCode])))))"

definition evm_generateAddress :: "externals \<Rightarrow> message \<Rightarrow> bytes \<Rightarrow> (evm_state, address) sx" where
  "evm_generateAddress x msg code = bindE
     (case msg_salt msg of
        Some salt \<Rightarrow> liftE (generateAddress2 x (msg_caller msg) salt code)
      | None \<Rightarrow> bindE (get_or_new (msg_caller msg)) (\<lambda>acc.
          let newNonce = acc_nonce acc - 1 in
          liftE (bindR (bigIntToBytes x newNonce) (generateAddress x (msg_caller msg)))))
     (\<lambda>addr. liftE (mk_address addr))"

section \<open>Balances\<close>

definition reduceSenderBalance :: "account \<Rightarrow> message \<Rightarrow> (evm_state, unit) sx" where
  "reduceSenderBalance account message =
     (let account = account\<lparr>acc_balance := acc_balance account - msg_value message\<rparr> in
      if acc_balance account < 0 then throwE (EVMError INSUFFICIENT_BALANCE)
      else on_world (journal_putAccount (msg_caller message) (Some account)))"

definition addToBalance :: "account \<Rightarrow> message \<Rightarrow> address \<Rightarrow> (evm_state, unit) sx" where
  "addToBalance toAccount message to =
     (let newBalance = acc_balance toAccount + msg_value message in
      if newBalance > MAX_INTEGER_BIGINT then throwE (EVMError VALUE_OVERFLOW)
      else on_world (journal_putAccount to (Some (toAccount\<lparr>acc_balance := newBalance\<rparr>))))"

definition postMessageCleanup :: "evm_object \<Rightarrow> (evm_state, unit) sx" where
  "postMessageCleanup e = whenE (eip_active (eo_ctx e) 1153) (on_transient (modifyE ts_clear))"

section \<open>Running code\<close>

text \<open>The code address of a creation is undefined; it is read by the access witness only.\<close>

definition message_env :: "evm_object \<Rightarrow> message \<Rightarrow> bytes \<Rightarrow> account \<Rightarrow> bool \<Rightarrow> bool \<Rightarrow> env" where
  "message_env e msg code contract isCreate charge =
     (let to = (case msg_to msg of None \<Rightarrow> createZeroAddress | Some a \<Rightarrow> a) in
      \<lparr>env_address = to, env_caller = msg_caller msg, env_callData = msg_data msg, env_callValue = msg_value msg,
       env_code = code, env_isStatic = msg_isStatic msg, env_isCreate = isCreate, env_depth = msg_depth msg,
       env_gasPrice = eo_gasPrice e, env_origin = eo_origin e, env_block = eo_block e, env_contract = contract,
       env_codeAddress = (case msg_codeAddress msg of None \<Rightarrow> to | Some a \<Rightarrow> a), env_gasRefund = msg_gasRefund msg,
       env_eof = False, env_blobVersionedHashes = msg_blobVersionedHashes msg, env_chargeCodeAccesses = charge\<rparr>)"

definition loop_fuel :: "unreached \<Rightarrow> int \<Rightarrow> bytes \<Rightarrow> nat" where
  "loop_fuel u gas code = (nat gas + 1) * (length code + 1) + un_extra u"

text \<open>The result and the contents of the message's shared sets when the code has run.\<close>

type_synonym run_result = "exec_result \<times> address list \<times> address list option"

definition interpreter_result :: "message \<Rightarrow> exn option \<Rightarrow> run_state \<Rightarrow> run_result" where
  "interpreter_result msg err rs =
     (let gasUsed = (case err of None \<Rightarrow> msg_gasLimit msg - rs_gasLeft rs
            | Some x \<Rightarrow> if error_of x \<noteq> Some REVERT \<and> error_of x \<noteq> Some INVALID_EOF_FORMAT then msg_gasLimit msg
                        else msg_gasLimit msg - rs_gasLeft rs)
      in (\<lparr>er_executionGasUsed = gasUsed, er_exceptionError = err,
           er_returnValue = (case res_returnValue rs of None \<Rightarrow> [] | Some v \<Rightarrow> v),
           er_gasRefund = Some (rs_gasRefund rs),
           er_logs = Some (if err = None then res_logs rs else []),
           er_selfdestruct = Some (if err = None then res_selfdestruct rs else []),
           er_createdAddresses = (if err = None then res_createdAddresses rs else Some [])\<rparr>,
          res_selfdestruct rs, res_createdAddresses rs))"

text \<open>A message without a set of destroyed or created addresses leaves the interpreter its own.\<close>

definition start_frame :: "env \<Rightarrow> message \<Rightarrow> evm_state \<Rightarrow> run_state" where
  "start_frame env msg = (\<lambda>(w, ts). (new_run_state env (msg_gasLimit msg) w ts)
     \<lparr>res_selfdestruct := (case msg_selfdestruct msg of None \<Rightarrow> [] | Some xs \<Rightarrow> xs),
      res_createdAddresses := msg_createdAddresses msg\<rparr>)"

definition run_frame :: "evm_object \<Rightarrow> unreached \<Rightarrow> run_call \<Rightarrow> bytes \<Rightarrow> nat option \<Rightarrow> message \<Rightarrow> run_state \<Rightarrow> (exn + run_result) \<times> evm_state" where
  "run_frame e u rc code pc msg rs =
     (let (out, t) = (case interpreter_run (eo_ctx e) rc (eo_jumpTable e) (loop_fuel u (msg_gasLimit msg) code) code pc rs of
                        None \<Rightarrow> un_loop u rs | Some r \<Rightarrow> r)
      in (case out of Inl x \<Rightarrow> Inl x | Inr err \<Rightarrow> Inr (interpreter_result msg err t), (rs_world t, rs_transient t)))"

definition runInterpreter :: "evm_object \<Rightarrow> unreached \<Rightarrow> run_call \<Rightarrow> message \<Rightarrow> bytes \<Rightarrow> nat option \<Rightarrow> bool \<Rightarrow> bool \<Rightarrow> (evm_state, run_result) sx" where
  "runInterpreter e u rc msg code pc isCreate charge =
     bindE (get_or_new (case msg_to msg of None \<Rightarrow> createZeroAddress | Some a \<Rightarrow> a)) (\<lambda>contract s.
       run_frame e u rc code pc msg (start_frame (message_env e msg code contract isCreate charge) msg s))"

section \<open>Calls\<close>

definition DELEGATION_7702_FLAG :: bytes where
  "DELEGATION_7702_FLAG = [0xef, 0x01, 0x00]"

definition getPrecompile :: "evm_object \<Rightarrow> address \<Rightarrow> precompile option" where
  "getPrecompile e a = eo_precompiles e a"

datatype loaded_code = Bytecode bytes | Native precompile

definition no_code :: "loaded_code \<Rightarrow> bool" where
  "no_code code = (case code of Bytecode bs \<Rightarrow> bs = [] | Native _ \<Rightarrow> False)"

text \<open>The code and whether its accesses are charged. A delegated account's code is that of the account it
  names.\<close>

definition loadCode :: "evm_object \<Rightarrow> message \<Rightarrow> (evm_state, loaded_code \<times> bool) sx" where
  "loadCode e msg = (case msg_code msg of
     Some code \<Rightarrow> returnE (Bytecode code, msg_chargeCodeAccesses msg)
   | None \<Rightarrow> bindE (liftE (message_codeAddress msg)) (\<lambda>codeAddress.
       case getPrecompile e codeAddress of
         Some f \<Rightarrow> returnE (Native f, msg_chargeCodeAccesses msg)
       | None \<Rightarrow> bindE (on_world (on_sm (sm_getCode codeAddress))) (\<lambda>code.
           if eip_active (eo_ctx e) 7702 \<and> take 3 code = DELEGATION_7702_FLAG
           then bindE (liftE (mk_address (drop 3 (take 24 code)))) (\<lambda>address.
             bindE (on_world (on_sm (sm_getCode address))) (\<lambda>code'.
               seqE (whenE (msg_depth msg = 0) (on_world (on_journal (modifyE (addAlwaysWarmAddress address False)))))
                 (returnE (Bytecode code', True))))
           else returnE (Bytecode code, True))))"

definition early_result :: "message \<Rightarrow> exn option \<Rightarrow> exec_result" where
  "early_result msg err = \<lparr>er_executionGasUsed = 0, er_exceptionError = err, er_returnValue = [],
     er_gasRefund = Some (msg_gasRefund msg), er_logs = None, er_selfdestruct = None, er_createdAddresses = None\<rparr>"

text \<open>\<open>runPrecompile\<close>, with the gas refund of the message.\<close>

definition runPrecompile :: "precompile \<Rightarrow> message \<Rightarrow> exn + exec_result" where
  "runPrecompile f msg = map_sum id (\<lambda>r. r\<lparr>er_gasRefund := Some (msg_gasRefund msg)\<rparr>) (f (msg_data msg) (msg_gasLimit msg))"

definition shared_sets :: "message \<Rightarrow> address list \<times> address list option" where
  "shared_sets msg = ((case msg_selfdestruct msg of None \<Rightarrow> [] | Some xs \<Rightarrow> xs), msg_createdAddresses msg)"

definition evm_result_of :: "address option \<Rightarrow> run_result \<Rightarrow> evm_result" where
  "evm_result_of created = (\<lambda>(r, sd, cr). \<lparr>ev_createdAddress = created, ev_execResult = r,
     ev_selfdestruct = sd, ev_createdAddresses = (case cr of None \<Rightarrow> [] | Some xs \<Rightarrow> xs)\<rparr>)"

definition run_loaded :: "evm_object \<Rightarrow> unreached \<Rightarrow> run_call \<Rightarrow> message \<Rightarrow> loaded_code \<Rightarrow> bool \<Rightarrow> (evm_state, run_result) sx" where
  "run_loaded e u rc msg code charge = (case code of
     Native f \<Rightarrow> bindE (liftE (runPrecompile f msg)) (\<lambda>r. returnE (r, shared_sets msg))
   | Bytecode bs \<Rightarrow> runInterpreter e u rc msg bs None False charge)"

text \<open>The value is taken from the sender and given to the recipient; the error of the recipient's side wins.\<close>

definition transfer_value :: "message \<Rightarrow> address \<Rightarrow> (evm_state, exn option) sx" where
  "transfer_value msg to = bindE (get_or_new (msg_caller msg)) (\<lambda>account.
     bindE (if msg_delegatecall msg then returnE None else catchE (reduceSenderBalance account msg)) (\<lambda>err1.
       bindE (get_or_new to) (\<lambda>toAccount.
         bindE (if msg_delegatecall msg then returnE None else catchE (addToBalance toAccount msg to)) (\<lambda>err2.
           returnE (if err2 \<noteq> None then err2 else err1)))))"

definition executeCall :: "evm_object \<Rightarrow> unreached \<Rightarrow> run_call \<Rightarrow> message \<Rightarrow> address \<Rightarrow> (evm_state, evm_result) sx" where
  "executeCall e u rc msg to =
     (if eip_active (eo_ctx e) 6800 then throwE (PlainError ''the EIP-6800 access witness is not modelled'')
      else bindE (transfer_value msg to) (\<lambda>err. bindE (loadCode e msg) (\<lambda>(code, charge).
        if no_code code \<or> err \<noteq> None
        then returnE (evm_result_of None (early_result msg err, shared_sets msg))
        else bindE (run_loaded e u rc msg code charge) (\<lambda>r.
          seqE (whenE (msg_depth msg = 0) (postMessageCleanup e)) (returnE (evm_result_of None r))))))"

section \<open>Creation\<close>

definition big_param :: "evm_ctx \<Rightarrow> string \<Rightarrow> exn + int" where
  "big_param c name = (case param_at c name of Some (PBig v) \<Rightarrow> Inr v | Some (PNum v) \<Rightarrow> Inr v | _ \<Rightarrow> Inl TypeError)"

definition exceeds_code_size :: "evm_ctx \<Rightarrow> int \<Rightarrow> bool" where
  "exceeds_code_size c len = (case param_number c ''maxCodeSize'' of None \<Rightarrow> False | Some n \<Rightarrow> len > n)"

definition collides :: "account \<Rightarrow> bool" where
  "collides acc \<longleftrightarrow> acc_nonce acc > 0 \<or> acc_codeHash acc \<noteq> KECCAK256_NULL \<or> acc_storageRoot acc \<noteq> KECCAK256_RLP"

text \<open>What follows the initialisation code: the deposit of its result. The flag is \<open>CodestoreOOG\<close>. The check
  for the first byte 0xef also sees the data of a revert.\<close>

definition deposit_result :: "evm_object \<Rightarrow> message \<Rightarrow> bytes \<Rightarrow> exec_result \<Rightarrow> exn + exec_result \<times> bool" where
  "deposit_result e msg code result =
     (let c = eo_ctx e; gasLimit = msg_gasLimit msg; size = int (length (er_returnValue result));
          ok = (er_exceptionError result = None) in
      bindR (if ok then bindR (big_param c ''createDataGas'') (\<lambda>p. Inr (size * p)) else Inr 0) (\<lambda>returnFee.
        let totalGas = er_executionGasUsed result + returnFee;
            allowedCodeSize = (\<not> (ok \<and> fork_gte c ''spuriousDragon'' \<and> exceeds_code_size c size)) in
        Inr (if totalGas \<le> gasLimit \<and> (eo_allowUnlimitedContractSize e \<or> allowedCodeSize) then
               (if eip_active c 3541 \<and> byte_is (er_returnValue result) 0 EOF_FORMAT \<and> (\<not> eip_active c 3540 \<or> \<not> isEOF code)
                then (override result (INVALID_BYTECODE_result gasLimit), False)
                else (result\<lparr>er_executionGasUsed := totalGas\<rparr>, False))
             else if fork_gte c ''homestead'' then
               (if \<not> allowedCodeSize then (override result (CodesizeExceedsMaximumError gasLimit), False)
                else (override result (OOGResult gasLimit), False))
             else if totalGas - returnFee \<le> gasLimit then (override result (COOGResult (totalGas - returnFee)), True)
             else (override result (OOGResult gasLimit), False))))"

definition saveCode :: "evm_object \<Rightarrow> address \<Rightarrow> exec_result \<Rightarrow> bool \<Rightarrow> (evm_state, unit) sx" where
  "saveCode e to result CodestoreOOG =
     (if er_exceptionError result = None \<and> er_returnValue result \<noteq> []
      then on_world (on_sm (sm_putCode (ctx_ext (eo_ctx e)) to (er_returnValue result)))
      else if CodestoreOOG \<and> \<not> fork_gte (eo_ctx e) ''homestead''
      then bindE (get_or_new to) (\<lambda>account. on_world (journal_putAccount to (Some account)))
      else returnE ())"

text \<open>The message with the address of the new contract among the created ones.\<close>

definition add_created :: "evm_object \<Rightarrow> address \<Rightarrow> message \<Rightarrow> exn + message" where
  "add_created e to msg = (if eip_active (eo_ctx e) 6780
     then case msg_createdAddresses msg of None \<Rightarrow> Inl TypeError
          | Some xs \<Rightarrow> Inr (msg\<lparr>msg_createdAddresses := Some (set_insert to xs)\<rparr>)
     else Inr msg)"

text \<open>The new account: stored, its storage cleared, its nonce set, the value added.\<close>

definition endow_contract :: "evm_object \<Rightarrow> message \<Rightarrow> address \<Rightarrow> account \<Rightarrow> (evm_state, exn option) sx" where
  "endow_contract e msg to toAccount0 =
     seqE (on_world (journal_putAccount to (Some toAccount0)))
    (seqE (on_world (on_sm (sm_clearStorage to)))
    (bindE (get_or_new to) (\<lambda>acc.
       let toAccount = (if fork_gte (eo_ctx e) ''spuriousDragon'' then acc\<lparr>acc_nonce := acc_nonce acc + 1\<rparr> else acc) in
       catchE (addToBalance toAccount msg to))))"

definition run_create :: "evm_object \<Rightarrow> unreached \<Rightarrow> run_call \<Rightarrow> message \<Rightarrow> address \<Rightarrow> bytes \<Rightarrow> (evm_state, evm_result) sx" where
  "run_create e u rc msg to code =
     bindE (runInterpreter e u rc msg code None True (msg_chargeCodeAccesses msg)) (\<lambda>(result0, sets).
     bindE (liftE (deposit_result e msg code result0)) (\<lambda>(result, CodestoreOOG).
       seqE (saveCode e to result CodestoreOOG)
      (seqE (whenE (msg_depth msg = 0) (postMessageCleanup e))
        (returnE (evm_result_of (Some to) (result, sets))))))"

definition create_failure :: "message \<Rightarrow> address option \<Rightarrow> evm_error \<Rightarrow> evm_result" where
  "create_failure msg to err = evm_result_of to (failed_result err (msg_gasLimit msg), shared_sets msg)"

definition create_at :: "evm_object \<Rightarrow> unreached \<Rightarrow> run_call \<Rightarrow> message \<Rightarrow> address \<Rightarrow> bytes \<Rightarrow> (evm_state, evm_result) sx" where
  "create_at e u rc msg to code = bindE (get_or_new to) (\<lambda>toAccount.
     if collides toAccount then returnE (create_failure msg (Some to) CREATE_COLLISION)
     else bindE (endow_contract e msg to toAccount) (\<lambda>err.
       if code = [] \<or> err \<noteq> None then returnE (evm_result_of (Some to) (early_result msg err, shared_sets msg))
       else run_create e u rc msg to code))"

definition executeCreate :: "evm_object \<Rightarrow> unreached \<Rightarrow> run_call \<Rightarrow> message \<Rightarrow> (evm_state, evm_result) sx" where
  "executeCreate e u rc msg0 =
     (let c = eo_ctx e in
      if eip_active c 6800 then throwE (PlainError ''the EIP-6800 access witness is not modelled'')
      else bindE (get_or_new (msg_caller msg0)) (\<lambda>account.
        seqE (reduceSenderBalance account msg0)
          (if eip_active c 3860 \<and> exceeds_initcode c (int (length (msg_data msg0))) \<and> \<not> ctx_allowUnlimitedInitCodeSize c
           then returnE (create_failure msg0 (msg_to msg0) INITCODE_SIZE_VIOLATION)
           else let code = msg_data msg0 in
             bindE (evm_generateAddress (ctx_ext c) msg0 code) (\<lambda>to.
               bindE (liftE (add_created e to (msg0\<lparr>msg_data := [], msg_to := Some to\<rparr>))) (\<lambda>msg.
                 create_at e u rc msg to code)))))"

section \<open>Messages\<close>

definition bump_nonce :: "message \<Rightarrow> (evm_state, unit) sx" where
  "bump_nonce msg = bindE (get_or_new (msg_caller msg)) (\<lambda>acc.
     on_world (journal_putAccount (msg_caller msg) (Some (acc\<lparr>acc_nonce := acc_nonce acc + 1\<rparr>))))"

definition warm_new_address :: "evm_object \<Rightarrow> string \<Rightarrow> message \<Rightarrow> (evm_state, unit) sx" where
  "warm_new_address e executionHardfork msg =
     (if msg_to msg = None \<and> isEIPActiveAtHardfork (ctx_common (eo_ctx e)) 2929 executionHardfork
      then bindE (evm_generateAddress (ctx_ext (eo_ctx e)) msg (msg_data msg))
             (\<lambda>a. on_world (on_journal (modifyE (addWarmedAddress a))))
      else returnE ())"

definition message_checkpoint :: "evm_object \<Rightarrow> string \<Rightarrow> (evm_state, unit) sx" where
  "message_checkpoint e executionHardfork = seqE (on_world journal_checkpoint)
     (whenE (isEIPActiveAtHardfork (ctx_common (eo_ctx e)) 1153 executionHardfork) (on_transient ts_checkpoint))"

definition execute_message :: "evm_object \<Rightarrow> unreached \<Rightarrow> run_call \<Rightarrow> message \<Rightarrow> (evm_state, evm_result) sx" where
  "execute_message e u rc msg = (case msg_to msg of
     Some to \<Rightarrow> executeCall e u rc msg to | None \<Rightarrow> executeCreate e u rc msg)"

text \<open>An error forfeits refunds, and reverts unless it is the Frontier's failure to pay for the code.\<close>

definition forfeit :: "exec_result \<Rightarrow> exec_result" where
  "forfeit r = (case er_exceptionError r of
     Some x \<Rightarrow> if error_of x \<noteq> Some CODESTORE_OUT_OF_GAS
               then r\<lparr>er_selfdestruct := Some [], er_createdAddresses := Some [], er_gasRefund := Some 0\<rparr> else r
   | None \<Rightarrow> r)"

definition reverts :: "evm_object \<Rightarrow> exec_result \<Rightarrow> bool" where
  "reverts e r = (case er_exceptionError r of None \<Rightarrow> False
     | Some x \<Rightarrow> \<not> (ctx_fork (eo_ctx e) = ''chainstart'' \<and> error_of x = Some CODESTORE_OUT_OF_GAS))"

definition end_message :: "evm_object \<Rightarrow> evm_result \<Rightarrow> (evm_state, evm_result) sx" where
  "end_message e res =
     (let r = forfeit (ev_execResult res) in
      if reverts e r
      then seqE (on_world journal_revert) (seqE (whenE (eip_active (eo_ctx e) 1153) (on_transient ts_revert))
             (returnE (res\<lparr>ev_execResult := r\<lparr>er_logs := Some []\<rparr>\<rparr>)))
      else seqE (on_world journal_commit) (seqE (whenE (eip_active (eo_ctx e) 1153) (on_transient ts_commit))
             (returnE (res\<lparr>ev_execResult := r\<rparr>))))"

text \<open>\<open>runCall\<close> from the message on.\<close>

definition run_message :: "evm_object \<Rightarrow> unreached \<Rightarrow> string \<Rightarrow> run_call \<Rightarrow> run_call" where
  "run_message e u executionHardfork rc msg =
     seqE (whenE (msg_depth msg = 0) (bump_nonce msg))
    (seqE (warm_new_address e executionHardfork msg)
    (seqE (message_checkpoint e executionHardfork)
    (bindE (execute_message e u rc msg) (end_message e))))"

text \<open>The \<open>runCall\<close> of nested frames, for a bounded number of levels.\<close>

fun run_messages :: "evm_object \<Rightarrow> unreached \<Rightarrow> nat \<Rightarrow> run_call" where
  "run_messages e u 0 = un_call u"
| "run_messages e u (Suc n) = run_message e u (ctx_fork (eo_ctx e)) (run_messages e u n)"

section \<open>Entry points\<close>

record run_call_opts =
  opt_blockContext :: "(int \<times> int option) option"
  opt_block :: "block_header option"
  opt_message :: "message option"
  opt_gasPrice :: "int option"
  opt_origin :: "address option"
  opt_caller :: "address option"
  opt_to :: "address option"
  opt_value :: "int option"
  opt_data :: bytes
  opt_gasLimit :: "int option"
  opt_code :: "bytes option"
  opt_depth :: nat
  opt_isStatic :: bool
  opt_salt :: "bytes option"
  opt_selfdestruct :: "address list option"
  opt_createdAddresses :: "address list option"
  opt_delegatecall :: bool
  opt_blobVersionedHashes :: "string list"
  opt_skipBalance :: bool

definition or_else :: "'a option \<Rightarrow> 'a \<Rightarrow> 'a" where
  "or_else v d = (case v of None \<Rightarrow> d | Some a \<Rightarrow> a)"

definition execution_hardfork :: "evm_object \<Rightarrow> run_call_opts \<Rightarrow> string" where
  "execution_hardfork e opts = (case opt_blockContext opts of
     Some (n, t) \<Rightarrow> manager_getHardforkByBlock (ctx_common (eo_ctx e)) (Some n) t
   | None \<Rightarrow> (case opt_block opts of
       Some h \<Rightarrow> manager_getHardforkByBlock (ctx_common (eo_ctx e)) (Some (hdr_number h)) (Some (hdr_timestamp h))
     | None \<Rightarrow> ctx_fork (eo_ctx e)))"

text \<open>The object with the block and the transaction of the call.\<close>

definition for_call :: "evm_object \<Rightarrow> run_call_opts \<Rightarrow> evm_object" where
  "for_call e opts = (case opt_message opts of Some _ \<Rightarrow> e
     | None \<Rightarrow> e\<lparr>eo_block := or_else (opt_block opts) defaultBlock, eo_gasPrice := or_else (opt_gasPrice opts) 0,
         eo_origin := or_else (opt_origin opts) (or_else (opt_caller opts) createZeroAddress)\<rparr>)"

definition opts_message :: "run_call_opts \<Rightarrow> message" where
  "opts_message opts = (default_message (or_else (opt_gasLimit opts) 0xffffff))
     \<lparr>msg_caller := or_else (opt_caller opts) createZeroAddress, msg_to := opt_to opts,
      msg_value := or_else (opt_value opts) 0, msg_data := opt_data opts, msg_code := opt_code opts,
      msg_depth := opt_depth opts, msg_isStatic := opt_isStatic opts, msg_salt := opt_salt opts,
      msg_selfdestruct := Some (or_else (opt_selfdestruct opts) []),
      msg_createdAddresses := Some (or_else (opt_createdAddresses opts) []),
      msg_delegatecall := opt_delegatecall opts, msg_blobVersionedHashes := opt_blobVersionedHashes opts\<rparr>"

text \<open>\<open>skipBalance\<close>: the caller is given at least the value.\<close>

definition fund_caller :: "run_call_opts \<Rightarrow> (evm_state, unit) sx" where
  "fund_caller opts =
     (let caller = or_else (opt_caller opts) createZeroAddress; val = or_else (opt_value opts) 0 in
      if opt_skipBalance opts
      then bindE (get_or_new caller) (\<lambda>acc.
             whenE (acc_balance acc < val) (on_world (journal_putAccount caller (Some (acc\<lparr>acc_balance := val\<rparr>)))))
      else returnE ())"

definition runCall :: "evm_object \<Rightarrow> unreached \<Rightarrow> nat \<Rightarrow> run_call_opts \<Rightarrow> (evm_state, evm_result) sx" where
  "runCall e0 u levels opts =
     (let e = for_call e0 opts in
      bindE (case opt_message opts of
               Some msg \<Rightarrow> returnE msg
             | None \<Rightarrow> seqE (fund_caller opts) (liftE (message_validate (opts_message opts))))
        (run_message e u (execution_hardfork e opts) (run_messages e u levels)))"

definition runCode :: "evm_object \<Rightarrow> unreached \<Rightarrow> nat \<Rightarrow> run_call_opts \<Rightarrow> bytes \<Rightarrow> nat option \<Rightarrow> (evm_state, run_result) sx" where
  "runCode e0 u levels opts code pc =
     (let e = for_call e0 (opts\<lparr>opt_message := None\<rparr>); to = or_else (opt_to opts) createZeroAddress;
          msg = (default_message (or_else (opt_gasLimit opts) 0xffffff))
            \<lparr>msg_code := Some code, msg_data := opt_data opts, msg_to := Some to,
             msg_caller := or_else (opt_caller opts) createZeroAddress, msg_value := or_else (opt_value opts) 0,
             msg_depth := opt_depth opts, msg_selfdestruct := Some (or_else (opt_selfdestruct opts) []),
             msg_isStatic := opt_isStatic opts, msg_blobVersionedHashes := opt_blobVersionedHashes opts\<rparr> in
      bindE (liftE (message_validate msg)) (\<lambda>msg.
        runInterpreter e u (run_messages e u levels) msg code pc False False))"

end
