(* ===== verification/EvmSafety.thy ===== *)
theory EvmSafety
  imports Evm
begin

text \<open>
  Messages keep the world: a message restores the checkpoints it found, a failed one also everything it
  wrote, balances never become negative, and the gas it reports as used is between zero and its gas limit.
  A message throws no EVM error: those end its own frame. From this the interpreter's assumption on nested
  calls, \<open>run_call_ok\<close>, follows for every level of \<open>run_messages\<close>.
\<close>

section \<open>A judgement without EVM errors\<close>

definition delivers :: "('s \<Rightarrow> bool) \<Rightarrow> ('s, 'a) sx \<Rightarrow> ('s \<Rightarrow> bool) \<Rightarrow> ('a \<Rightarrow> bool) \<Rightarrow> bool" where
  "delivers I m J A \<longleftrightarrow> (\<forall>s. I s \<longrightarrow> (case m s of (Inl e, t) \<Rightarrow> \<not> is_evm_error e | (Inr r, t) \<Rightarrow> A r \<and> J t))"

named_theorems delivers_rules

lemma deliversI:
  assumes "\<And>s r t. I s \<Longrightarrow> m s = (Inr r, t) \<Longrightarrow> A r \<and> J t" "\<And>s e t. I s \<Longrightarrow> m s = (Inl e, t) \<Longrightarrow> \<not> is_evm_error e"
  shows "delivers I m J A"
  unfolding delivers_def
proof (intro allI impI)
  fix s assume s: "I s"
  obtain x t where "m s = (x, t)" by (cases "m s")
  then show "case m s of (Inl e, t) \<Rightarrow> \<not> is_evm_error e | (Inr r, t) \<Rightarrow> A r \<and> J t"
    using assms(1) [OF s] assms(2) [OF s] by (cases x) auto
qed

lemma deliversD: "delivers I m J A \<Longrightarrow> I s \<Longrightarrow> m s = (Inr r, t) \<Longrightarrow> A r \<and> J t"
  and delivers_thrown: "delivers I m J A \<Longrightarrow> I s \<Longrightarrow> m s = (Inl e, t) \<Longrightarrow> \<not> is_evm_error e"
  by (auto simp: delivers_def dest!: spec [of _ s])

lemma delivers_bind [delivers_rules]:
  assumes m: "delivers I m K A" and f: "\<And>r. A r \<Longrightarrow> delivers K (f r) J B"
  shows "delivers I (bindE m f) J B"
proof (rule deliversI)
  fix s r t assume s: "I s" "bindE m f s = (Inr r, t)"
  then obtain x u where u: "m s = (Inr x, u)" "f x u = (Inr r, t)" by (auto simp: bindE_run split: prod.splits sum.splits)
  then show "B r \<and> J t" using deliversD [OF m s(1) u(1)] deliversD [OF f _ u(2)] by blast
next
  fix s e t assume s: "I s" "bindE m f s = (Inl e, t)"
  then consider "m s = (Inl e, t)" | x u where "m s = (Inr x, u)" "f x u = (Inl e, t)"
    by (auto simp: bindE_run split: prod.splits sum.splits)
  then show "\<not> is_evm_error e"
    by cases (use delivers_thrown [OF m s(1)] deliversD [OF m s(1)] delivers_thrown [OF f] in blast)+
qed

lemma delivers_seq [delivers_rules]: "delivers I m K A \<Longrightarrow> delivers K n J B \<Longrightarrow> delivers I (seqE m n) J B"
  unfolding seqE_def by (rule delivers_bind)

lemma delivers_return: "(\<And>s. I s \<Longrightarrow> A x \<and> J s) \<Longrightarrow> delivers I (returnE x) J A"
  by (rule deliversI) auto

lemma delivers_value: "A x \<Longrightarrow> delivers I (returnE x) I A"
  by (rule delivers_return) simp

lemma delivers_throw: "\<not> is_evm_error e \<Longrightarrow> delivers I (throwE e) J A"
  by (rule deliversI) auto

lemma delivers_lift: "(\<And>e. r = Inl e \<Longrightarrow> \<not> is_evm_error e) \<Longrightarrow> (\<And>x. r = Inr x \<Longrightarrow> A x) \<Longrightarrow> delivers I (liftE r) I A"
  by (rule deliversI) auto

lemma delivers_if [delivers_rules]:
  "(b \<Longrightarrow> delivers I m J A) \<Longrightarrow> (\<not> b \<Longrightarrow> delivers I n J A) \<Longrightarrow> delivers I (if b then m else n) J A"
  by simp

lemma delivers_when: "(b \<Longrightarrow> delivers I m J (\<lambda>_. True)) \<Longrightarrow> (\<And>s. \<not> b \<Longrightarrow> I s \<Longrightarrow> J s) \<Longrightarrow> delivers I (whenE b m) J (\<lambda>_. True)"
  by (auto simp: whenE_def intro: delivers_return)

lemma delivers_pre: "delivers K m J A \<Longrightarrow> (\<And>s. I s \<Longrightarrow> K s) \<Longrightarrow> delivers I m J A"
  by (auto simp: delivers_def)

lemma delivers_post: "delivers I m K A \<Longrightarrow> (\<And>s. K s \<Longrightarrow> J s) \<Longrightarrow> (\<And>r. A r \<Longrightarrow> B r) \<Longrightarrow> delivers I m J B"
  by (rule deliversI) (auto dest: deliversD delivers_thrown)

lemma delivers_case: "(v = None \<Longrightarrow> delivers I m J A) \<Longrightarrow> (\<And>x. v = Some x \<Longrightarrow> delivers I (f x) J A) \<Longrightarrow>
    delivers I (case v of None \<Rightarrow> m | Some x \<Rightarrow> f x) J A"
  by (cases v) auto

lemma delivers_yields: "delivers I m J A \<Longrightarrow> (\<And>s. X s \<Longrightarrow> P s \<Longrightarrow> I s) \<Longrightarrow> (\<And>s. J s \<Longrightarrow> X s) \<Longrightarrow> yields X P m (\<lambda>_. True) A"
  by (rule yields_intro) (auto dest: deliversD delivers_thrown)

section \<open>The world\<close>

lemma world_okD: "world_ok F w \<Longrightarrow> accountStack (wl_sm w) \<noteq> [] \<and> codeStack (wl_sm w) \<noteq> [] \<and> storageStack (wl_sm w) \<noteq> []"
  by (auto simp: world_ok_def sm_ok_def sm_wf_def)

lemma on_world_d:
  assumes "\<And>w ts. I (w, ts) \<Longrightarrow> case m w of (Inl e, _) \<Rightarrow> \<not> is_evm_error e | (Inr r, w') \<Rightarrow> A r \<and> J (w', ts)"
  shows "delivers I (on_world m) J A"
proof (rule deliversI)
  fix s r t assume s: "I s" "on_world m s = (Inr r, t)"
  obtain w ts where ws: "s = (w, ts)" by fastforce
  then show "A r \<and> J t" using assms [of w ts] s by (auto simp: on_world_def split: prod.splits)
next
  fix s e t assume s: "I s" "on_world m s = (Inl e, t)"
  obtain w ts where ws: "s = (w, ts)" by fastforce
  then show "\<not> is_evm_error e" using assms [of w ts] s by (auto simp: on_world_def split: prod.splits)
qed

text \<open>An operation that keeps the world well formed and throws no EVM error.\<close>

lemma on_world_keeps:
  assumes "yields (world_ok F) (world_ok F) m (world_ok F) A" "\<And>w e t. world_ok F w \<Longrightarrow> m w = (Inl e, t) \<Longrightarrow> \<not> is_evm_error e"
    and "\<And>w ts. I (w, ts) \<Longrightarrow> world_ok F w" "\<And>w w' ts. I (w, ts) \<Longrightarrow> world_ok F w' \<Longrightarrow> J (w', ts)"
  shows "delivers I (on_world m) J A"
proof (rule on_world_d)
  fix w ts assume i: "I (w, ts)"
  obtain x w' where m: "m w = (x, w')" by fastforce
  show "case m w of (Inl e, _) \<Rightarrow> \<not> is_evm_error e | (Inr r, w') \<Rightarrow> A r \<and> J (w', ts)"
    using yieldsD [OF assms(1) assms(3) assms(3), OF i i] assms(2) [OF assms(3) [OF i]] assms(4) [OF i] m by (cases x) auto
qed

lemma get_account_run: "world_ok F w \<Longrightarrow> on_sm (sm_getAccount a) w = (Inr (top_map (accountStack (wl_sm w)) a), w)"
  using world_okD [of F w] by (simp add: on_sm_def sm_getAccount_def top_map_def)

lemma get_or_new_run: "world_ok F w \<Longrightarrow> get_or_new a (w, ts)
    = (Inr (case top_map (accountStack (wl_sm w)) a of None \<Rightarrow> new_account | Some b \<Rightarrow> b), (w, ts))"
  by (simp add: get_or_new_def bindE_run on_world_def get_account_run)

lemma top_balance: "world_ok F w \<Longrightarrow> 0 \<le> balance_of a w"
  using world_okD [of F w] by (auto simp: balance_of_def world_ok_def sm_ok_def balances_ok_def top_map_def
      new_account_def account_of_def split: option.split dest: last_in_set)

text \<open>Reading an account changes nothing and gives its balance.\<close>

lemma get_or_new_d:
  assumes "\<And>s. I s \<Longrightarrow> world_ok F (fst s)" "\<And>s. I s \<Longrightarrow> v \<le> balance_of a (fst s)"
  shows "delivers I (get_or_new a) I (\<lambda>acc. 0 \<le> acc_balance acc \<and> v \<le> acc_balance acc)"
proof (rule deliversI)
  fix s r t assume s: "I s" "get_or_new a s = (Inr r, t)"
  have "acc_balance r = balance_of a (fst s)" "t = s"
    using s(2) get_or_new_run [OF assms(1) [OF s(1)], of a "snd s"] by (simp_all add: balance_of_def)
  then show "(0 \<le> acc_balance r \<and> v \<le> acc_balance r) \<and> I t" using assms(2) [OF s(1)] top_balance [OF assms(1) [OF s(1)]] s(1) by simp
next
  fix s e t assume "I s" "get_or_new a s = (Inl e, t)"
  then show "\<not> is_evm_error e" using get_or_new_run [OF assms(1), of s a "snd s"] by simp
qed

lemma get_or_new_nonneg: "(\<And>s. I s \<Longrightarrow> world_ok F (fst s)) \<Longrightarrow> delivers I (get_or_new a) I (\<lambda>acc. 0 \<le> acc_balance acc)"
  by (rule delivers_post [OF get_or_new_d [where v = 0]]) (auto intro: top_balance)

text \<open>Storing an account: the world stays well formed even when it throws, and no EVM error is thrown.\<close>

lemma put_account_run:
  assumes "world_ok F w" "0 \<le> acc_balance acc" and p: "journal_putAccount a (Some acc) w = (r, w')"
  shows "world_ok F w'" "r = Inl e \<Longrightarrow> \<not> is_evm_error e"
    "r = Inr () \<Longrightarrow> balance_of b w' = (if b = a then acc_balance acc else balance_of b w)"
proof -
  have y: "yields (world_ok F) (world_ok F) (journal_putAccount a (Some acc)) (world_ok F) (\<lambda>_. True)"
    by (rule journal_putAccount_yields) (simp add: acc_ok_def assms(2))
  note ne = world_okD [OF assms(1)]
  have err: "w' = w \<and> \<not> is_evm_error x" if "r = Inl x" for x using p that ne
    by (auto simp: journal_putAccount_def seqE_run on_journal_def on_sm_def sm_putAccount_def touchAccount_def is_evm_error_def
        split: prod.splits sum.splits if_splits)
  then show "r = Inl e \<Longrightarrow> \<not> is_evm_error e" by blast
  show "world_ok F w'"
  proof (cases r)
    case (Inr u)
    then show ?thesis using yieldsD [OF y assms(1) assms(1)] p by blast
  qed (use err assms(1) in blast)
  assume "r = Inr ()"
  then have "wl_sm w' = (wl_sm w)\<lparr>accountStack := set_top (accountStack (wl_sm w)) ((last (accountStack (wl_sm w)))(a := Some acc))\<rparr>"
    using p ne by (auto simp: journal_putAccount_def seqE_run on_journal_def on_sm_def sm_putAccount_def split: prod.splits sum.splits)
  then show "balance_of b w' = (if b = a then acc_balance acc else balance_of b w)"
    using ne by (simp add: balance_of_def top_map_def set_top_def)
qed

lemma put_account_d:
  assumes "0 \<le> acc_balance acc" "\<And>w ts. I (w, ts) \<Longrightarrow> world_ok F w" "\<And>w w' ts. I (w, ts) \<Longrightarrow> world_ok F w' \<Longrightarrow> J (w', ts)"
  shows "delivers I (on_world (journal_putAccount a (Some acc))) J (\<lambda>_. True)"
proof (rule on_world_d)
  fix w ts assume i: "I (w, ts)"
  obtain r w' where p: "journal_putAccount a (Some acc) w = (r, w')" by fastforce
  note run = put_account_run [OF assms(2) [OF i] assms(1) p]
  show "case journal_putAccount a (Some acc) w of (Inl e, _) \<Rightarrow> \<not> is_evm_error e | (Inr r, w') \<Rightarrow> True \<and> J (w', ts)"
    using run(1,2) assms(3) [OF i] p by (auto split: sum.splits)
qed

lemma catch_put_d:
  assumes "0 \<le> acc_balance acc" "\<And>w ts. I (w, ts) \<Longrightarrow> world_ok F w" "\<And>w w' ts. I (w, ts) \<Longrightarrow> world_ok F w' \<Longrightarrow> J (w', ts)"
  shows "delivers I (catchE (on_world (journal_putAccount a (Some acc)))) J (\<lambda>_. True)"
proof (rule deliversI)
  fix s r t assume s: "I s" "catchE (on_world (journal_putAccount a (Some acc))) s = (Inr r, t)"
  obtain w ts where ws: "s = (w, ts)" by fastforce
  obtain x w' where p: "journal_putAccount a (Some acc) w = (x, w')" by fastforce
  have "t = (w', ts)" using s p ws by (auto simp: catchE_def on_world_def split: sum.splits prod.splits)
  then show "True \<and> J t"
    using put_account_run(1) [OF assms(2) assms(1) p] assms(3) s(1) ws by blast
qed (auto simp: catchE_def split: prod.splits sum.splits)


section \<open>The parts of a message\<close>

definition precompiles_ok :: "evm_object \<Rightarrow> bool" where
  "precompiles_ok e \<longleftrightarrow> (\<forall>a f data gas. eo_precompiles e a = Some f \<longrightarrow> 0 \<le> gas \<longrightarrow>
     (case f data gas of Inl x \<Rightarrow> \<not> is_evm_error x | Inr r \<Rightarrow> 0 \<le> er_executionGasUsed r \<and> er_executionGasUsed r \<le> gas))"

text \<open>The hexadecimal codec throws no EVM errors.\<close>

definition noble_plain :: "externals \<Rightarrow> bool" where
  "noble_plain x \<longleftrightarrow> (\<forall>s e. noble_hexToBytes x s = Inl e \<longrightarrow> \<not> is_evm_error e)"

text \<open>An object as the constructor builds it, without custom opcodes, for a fork before Osaka and a block with
  nonnegative fields; precompiled contracts use between none and all of the gas they are given.\<close>

definition evm_ok :: "evm_object \<Rightarrow> bool" where
  "evm_ok e \<longleftrightarrow> buildJumpTable (eo_ctx e) [] = Inr (eo_jumpTable e) \<and> before_osaka (eo_ctx e) \<and> plain_fork (eo_ctx e)
     \<and> 0 \<le> eo_gasPrice e \<and> header_ok (eo_block e) \<and> precompiles_ok e \<and> noble_plain (ctx_ext (eo_ctx e))"

definition gas_within :: "message \<Rightarrow> exec_result \<Rightarrow> bool" where
  "gas_within msg r \<longleftrightarrow> 0 \<le> er_executionGasUsed r \<and> er_executionGasUsed r \<le> msg_gasLimit msg"

lemma state_ok_world: "state_ok F s \<Longrightarrow> world_ok F (fst s)" "state_ok F (w, ts) \<Longrightarrow> world_ok F w"
  "state_ok F (w, ts) \<Longrightarrow> world_ok F w' \<Longrightarrow> state_ok F (w', ts)"
  by (simp_all add: state_ok_def)

lemma get_d [delivers_rules]: "delivers (state_ok F) (get_or_new a) (state_ok F) (\<lambda>acc. 0 \<le> acc_balance acc)"
  by (rule get_or_new_nonneg) (rule state_ok_world)

lemma put_d: "0 \<le> acc_balance acc \<Longrightarrow> delivers (state_ok F) (on_world (journal_putAccount a (Some acc))) (state_ok F) (\<lambda>_. True)"
  by (rule put_account_d) (auto intro: state_ok_world)

lemma world_d:
  assumes "yields (world_ok F) (world_ok F) m (world_ok F) A" "\<And>w e t. world_ok F w \<Longrightarrow> m w = (Inl e, t) \<Longrightarrow> \<not> is_evm_error e"
  shows "delivers (state_ok F) (on_world m) (state_ok F) A"
  by (rule on_world_keeps [OF assms]) (auto intro: state_ok_world)

lemma catch_cases:
  "catchE (if b then throwE x else m) = (if b then returnE (Some x) else catchE m)"
  by (rule ext) (simp add: catchE_def)

lemma reduce_d: "delivers (state_ok F) (catchE (reduceSenderBalance acc msg)) (state_ok F) (\<lambda>_. True)"
  unfolding reduceSenderBalance_def Let_def catch_cases
  by (rule delivers_if, rule delivers_return, simp, rule catch_put_d) (auto intro: state_ok_world)

lemma add_d: "0 \<le> acc_balance acc \<Longrightarrow> 0 \<le> msg_value msg \<Longrightarrow>
    delivers (state_ok F) (catchE (addToBalance acc msg to)) (state_ok F) (\<lambda>_. True)"
  unfolding addToBalance_def Let_def catch_cases
  by (rule delivers_if, rule delivers_return, simp, rule catch_put_d) (auto intro: state_ok_world)

lemma transfer_d: "0 \<le> msg_value msg \<Longrightarrow> delivers (state_ok F) (transfer_value msg to) (state_ok F) (\<lambda>_. True)"
  unfolding transfer_value_def
  by (rule delivers_bind, rule get_d, rule delivers_bind, rule delivers_if, rule delivers_value, rule TrueI, rule reduce_d,
      rule delivers_bind, rule get_d, rule delivers_bind, rule delivers_if, rule delivers_value, rule TrueI, rule add_d,
      assumption, assumption, rule delivers_value, rule TrueI)

lemma always_warm_keeps: "j_ok F j \<Longrightarrow> j_ok F (addAlwaysWarmAddress a b j)"
proof -
  have "jr_journal (addAlwaysWarmAddress a b j) = jr_journal j \<and> jr_touched (addAlwaysWarmAddress a b j) = jr_touched j
      \<and> jr_diff (addAlwaysWarmAddress a b j) = jr_diff j \<and> jr_height (addAlwaysWarmAddress a b j) = jr_height j"
    by (simp add: addAlwaysWarmAddress_def Let_def split: option.split)
  moreover from this have "Journal.frame_at (addAlwaysWarmAddress a b j) = Journal.frame_at j"
    by (intro ext) (simp add: Journal.frame_at_def j_current_def)
  ultimately have "j_frames (addAlwaysWarmAddress a b j) = j_frames j \<and> j_wf (addAlwaysWarmAddress a b j) = j_wf j"
    by (simp add: j_frames_def j_wf_def j_current_def)
  then show "j_ok F j \<Longrightarrow> j_ok F (addAlwaysWarmAddress a b j)" by (simp add: j_ok_def)
qed

lemma always_warm_d: "delivers (state_ok F) (on_world (on_journal (modifyE (addAlwaysWarmAddress a b)))) (state_ok F) (\<lambda>_. True)"
  by (rule on_world_d) (auto simp: on_journal_def state_ok_def world_ok_def intro: always_warm_keeps)

lemma get_code_d: "delivers (state_ok F) (on_world (on_sm (sm_getCode a))) (state_ok F) (\<lambda>_. True)"
  by (rule world_d, rule on_sm_yields, rule sm_reads_yields)
     (auto simp: on_sm_def sm_getCode_def is_evm_error_def split: if_splits)

definition known_code :: "evm_object \<Rightarrow> loaded_code \<Rightarrow> bool" where
  "known_code e code = (case code of Bytecode _ \<Rightarrow> True | Native f \<Rightarrow> \<exists>a. eo_precompiles e a = Some f)"

lemma address_errors: "mk_address bs = Inl e \<Longrightarrow> \<not> is_evm_error e" "message_codeAddress msg = Inl e \<Longrightarrow> \<not> is_evm_error e"
  by (auto simp: mk_address_def message_codeAddress_def is_evm_error_def split: if_splits option.splits)

lemma load_d: "delivers (state_ok F) (loadCode e msg) (state_ok F) (\<lambda>(code, charge). known_code e code)"
  unfolding loadCode_def
  apply (rule delivers_case)
   apply (rule delivers_bind, rule delivers_lift [where A = "\<lambda>_. True"], erule address_errors(2), simp)
   apply (rule delivers_case)
    apply (rule delivers_bind, rule get_code_d, rule delivers_if)
     apply (rule delivers_bind, rule delivers_lift [where A = "\<lambda>_. True"], erule address_errors(1), simp)
     apply (rule delivers_bind, rule get_code_d, rule delivers_seq, rule delivers_when, rule always_warm_d, assumption)
     apply (rule delivers_return, simp add: known_code_def)
    apply (rule delivers_return, simp add: known_code_def)
   apply (rule delivers_return, auto simp: known_code_def getPrecompile_def)[1]
  apply (rule delivers_return, simp add: known_code_def)
  done

section \<open>Frames\<close>

lemma run_loop_errors: "run_loop c rc table fuel cached rs = Some (Inl e, t) \<Longrightarrow> \<not> is_evm_error e"
proof (induction fuel arbitrary: cached rs)
  case 0
  then show ?case by (subst (asm) run_loop.simps) (auto split: if_splits)
next
  case (Suc n)
  have fetch: "fetch c table cached rs = (Inl x, u) \<Longrightarrow> \<not> is_evm_error x" for x u
    by (auto simp: fetch_def Let_def is_evm_error_def split: option.splits if_splits)
  show ?case using Suc.prems Suc.IH fetch
    by (subst (asm) run_loop.simps)
       (auto simp: after_step_def witness_unmodelled_def is_evm_error_def
         split: if_splits prod.splits sum.splits option.splits)
qed

lemma interpreter_errors: "interpreter_run c rc table fuel code pc rs = Some (Inl e, t) \<Longrightarrow> \<not> is_evm_error e"
  by (auto simp: interpreter_run_def Let_def is_evm_error_def [of "PlainError _"] dest: run_loop_errors split: if_splits)

lemma start_frame_ok:
  assumes "evm_ok e" "0 \<le> msg_gasLimit msg" "0 \<le> msg_value msg" "0 \<le> acc_balance contract" "state_ok F s"
  shows "frame_ok F (start_frame (message_env e msg code contract isCreate charge) msg s)"
proof -
  obtain w ts where s: "s = (w, ts)" by fastforce
  show ?thesis using assms
    by (auto simp: s start_frame_def new_run_state_def frame_ok_def frame_core_def frame_wf_def stk_def stack_wf_def new_stack_def
        stack_view_def getStack_def memory_paid_def memory_total_def env_ok_def message_env_def Let_def evm_ok_def
        lim_ok_def opt_nonneg_def state_ok_def)
qed

lemma run_frame_d:
  assumes "evm_ok e" "run_call_ok rc" "frame_ok F rs" "rs_programCounter rs = 0" "rs_cachedPushes rs = (\<lambda>_. None)"
    and "rs_gasLeft rs = msg_gasLimit msg"
  shows "case run_frame e u rc code None msg rs of (Inl x, _) \<Rightarrow> \<not> is_evm_error x
    | (Inr (r, _), s) \<Rightarrow> gas_within msg r \<and> state_ok F s"
proof -
  obtain out t where run: "\<And>fuel. fuel \<ge> (nat (rs_gasLeft rs) + 1) * (length code + 1) \<Longrightarrow>
      interpreter_run (eo_ctx e) rc (eo_jumpTable e) fuel code None rs = Some (out, t)"
    and safe: "\<not> isl out \<Longrightarrow> safe F (rs_gasLeft rs) t"
    using interpreter_terminates [OF _ _ _ assms(2-5), of "eo_ctx e" "eo_jumpTable e" code] assms(1) unfolding evm_ok_def by blast
  have eq: "interpreter_run (eo_ctx e) rc (eo_jumpTable e) (loop_fuel u (msg_gasLimit msg) code) code None rs = Some (out, t)"
    by (rule run) (simp add: loop_fuel_def assms(6))
  show ?thesis
  proof (cases out)
    case (Inl x)
    then show ?thesis using eq interpreter_errors by (simp add: run_frame_def)
  next
    case (Inr err)
    then have "safe F (msg_gasLimit msg) t" using safe assms(6) by simp
    then show ?thesis using Inr eq
      by (auto simp: run_frame_def interpreter_result_def Let_def gas_within_def safe_def state_ok_def split: option.split)
  qed
qed

lemma runInterpreter_d:
  assumes "evm_ok e" "run_call_ok rc" "0 \<le> msg_gasLimit msg" "0 \<le> msg_value msg"
  shows "delivers (state_ok F) (runInterpreter e u rc msg code None isCreate charge) (state_ok F) (\<lambda>(r, _). gas_within msg r)"
  unfolding runInterpreter_def
proof (rule delivers_bind, rule get_d)
  fix contract :: account assume c: "0 \<le> acc_balance contract"
  have "case run_frame e u rc code None msg (start_frame (message_env e msg code contract isCreate charge) msg s) of
      (Inl x, _) \<Rightarrow> \<not> is_evm_error x | (Inr (r, _), t) \<Rightarrow> gas_within msg r \<and> state_ok F t" if "state_ok F s" for s
  proof (rule run_frame_d [OF assms(1,2) start_frame_ok [OF assms(1,3,4) c that]])
    obtain w ts where s: "s = (w, ts)" by fastforce
    let ?rs = "start_frame (message_env e msg code contract isCreate charge) msg s"
    show "rs_programCounter ?rs = 0" "rs_cachedPushes ?rs = (\<lambda>_. None)" "rs_gasLeft ?rs = msg_gasLimit msg"
      by (simp_all add: s start_frame_def new_run_state_def)
  qed
  then show "delivers (state_ok F) (\<lambda>s. run_frame e u rc code None msg (start_frame (message_env e msg code contract isCreate charge) msg s))
      (state_ok F) (\<lambda>(r, _). gas_within msg r)"
    by (intro deliversI) (fastforce split: sum.splits prod.splits)+
qed


section \<open>Creation\<close>

lemma put_code_yields: "yields (sm_ok F) (sm_ok F) (sm_putCode x a val) (sm_ok F) (\<lambda>_. True)"
proof (rule yields_intro)
  let ?tail = "seqE (bindE (sm_getAccount a) (\<lambda>acc. if acc = None then sm_putAccount a (Some new_account) else returnE ()))
      (sm_modifyAccountFields a (\<lambda>acc. acc\<lparr>acc_codeHash := keccak256 x val\<rparr>))"
  have tail: "yields (sm_ok G) (sm_ok G) ?tail (sm_ok G) (\<lambda>_. True)" for G
    by (rule yields_rules | rule yields_return | simp add: acc_ok_def new_account_def account_of_def)+
  fix s r t assume s: "sm_ok F s" "sm_putCode x a val s = (Inr r, t)"
  define s1 where "s1 = s\<lparr>codeStack := set_top (codeStack s) ((last (codeStack s))(a \<mapsto> val))\<rparr>"
  have ne: "codeStack s \<noteq> []" using s(1) by (auto simp: sm_ok_def sm_wf_def)
  then have run: "?tail s1 = (Inr r, t)" using s(2) by (simp add: sm_putCode_def s1_def)
  have ok: "sm_ok (tl (sm_frames s1), undefined) s1"
    using s(1) ne by (auto simp: sm_ok_def s1_def balances_ok_def sm_wf_def set_top_def)
  have "balances_ok t" using yieldsD [OF tail ok ok run] by (simp add: sm_ok_def)
  moreover have "sm_write x s t" using s(2) by (auto simp: sm_write_def)
  ultimately show "sm_ok F t \<and> True \<and> sm_ok F t" using sm.write_law [of s x t] s(1) by (auto simp: sm_ok_def)
next
  fix s e t assume "sm_putCode x a val s = (Inl e, t)" "is_evm_error e"
  then have False
    by (auto simp: sm_putCode_def sm_getAccount_def sm_putAccount_def sm_modifyAccountFields_def bindE_run seqE_run is_evm_error_def
        split: if_splits prod.splits sum.splits)
  then show "sm_ok F t" ..
qed

lemma put_code_d: "delivers (state_ok F) (on_world (on_sm (sm_putCode x a val))) (state_ok F) (\<lambda>_. True)"
  by (rule world_d, rule on_sm_yields, rule put_code_yields)
     (auto simp: on_sm_def sm_putCode_def sm_getAccount_def sm_putAccount_def sm_modifyAccountFields_def bindE_run seqE_run is_evm_error_def
        split: if_splits prod.splits sum.splits)

lemma save_d: "delivers (state_ok F) (saveCode e to r b) (state_ok F) (\<lambda>_. True)"
  unfolding saveCode_def
  by (rule delivers_if, rule put_code_d, rule delivers_if, rule delivers_bind, rule get_d, rule put_d, assumption,
      rule delivers_value, rule TrueI)

lemma big_param_result:
  "big_param c name = Inr p \<Longrightarrow> 0 \<le> p" "big_param c name = Inl x \<Longrightarrow> \<not> is_evm_error x"
  by (auto simp: big_param_def param_at_def is_evm_error_def value_ok_def split: option.splits param_value.splits dest: getParam_nonneg)

text \<open>The deposit stays within the gas of the message.\<close>

lemma deposit_within:
  assumes "gas_within msg r" "0 \<le> msg_gasLimit msg" "deposit_result e msg code r = Inr (r', b)"
  shows "gas_within msg r'"
proof -
  obtain fee where fee: "(if er_exceptionError r = None then bindR (big_param (eo_ctx e) ''createDataGas'')
      (\<lambda>p. Inr (int (length (er_returnValue r)) * p)) else Inr 0) = Inr fee"
    using assms(3) by (auto simp: deposit_result_def Let_def bindR_eq_Inr)
  then have "0 \<le> fee" using big_param_result(1) by (auto simp: bindR_eq_Inr split: if_splits)
  then show ?thesis using assms fee
    by (auto simp: deposit_result_def Let_def gas_within_def override_def INVALID_BYTECODE_result_def OOGResult_def COOGResult_def
        CodesizeExceedsMaximumError_def failed_result_def split: if_splits)
qed

lemma deposit_errors: "deposit_result e msg code r = Inl x \<Longrightarrow> \<not> is_evm_error x"
  by (auto simp: deposit_result_def Let_def bindR_def dest: big_param_result(2) split: sum.splits if_splits)

definition ended_ok :: "below \<Rightarrow> nat \<Rightarrow> evm_state \<Rightarrow> bool" where
  "ended_ok F d s \<longleftrightarrow> world_ok F (fst s)
     \<and> (ts_ok F (snd s) \<or> d = 0 \<and> (\<exists>x. snd s = ts_clear x \<and> ts_indices x \<noteq> []))"

lemma ended: "state_ok F s \<Longrightarrow> ended_ok F d s"
  by (simp add: ended_ok_def state_ok_def)

lemma cleanup_d:
  assumes "eip_active (eo_ctx e) 1153 \<Longrightarrow> snd (snd F) \<noteq> []"
  shows "delivers (state_ok F) (whenE (d = 0) (postMessageCleanup e)) (ended_ok F d) (\<lambda>_. True)"
proof (rule deliversI)
  fix s r t assume s: "state_ok F s" "whenE (d = 0) (postMessageCleanup e) s = (Inr r, t)"
  obtain w ts where ws: "s = (w, ts)" by fastforce
  have "ts_indices ts \<noteq> []" if "eip_active (eo_ctx e) 1153"
    using s(1) assms [OF that] by (auto simp: ws state_ok_def ts_ok_def ts_frames_def)
  then show "True \<and> ended_ok F d t" using s ended [of F s d]
    by (auto simp: ws postMessageCleanup_def on_transient_def ended_ok_def state_ok_def split: if_splits)
qed (auto simp: postMessageCleanup_def on_transient_def split: if_splits prod.splits)

definition can_run :: "evm_object \<Rightarrow> run_call \<Rightarrow> below \<Rightarrow> message \<Rightarrow> bool" where
  "can_run e rc F msg \<longleftrightarrow> evm_ok e \<and> run_call_ok rc \<and> (eip_active (eo_ctx e) 1153 \<longrightarrow> snd (snd F) \<noteq> [])
     \<and> 0 \<le> msg_gasLimit msg \<and> 0 \<le> msg_value msg"

lemma run_loaded_d:
  assumes "can_run e rc F msg" "known_code e code"
  shows "delivers (state_ok F) (run_loaded e u rc msg code charge) (state_ok F) (\<lambda>(r, _). gas_within msg r)"
proof (cases code)
  case (Bytecode bs)
  then show ?thesis using runInterpreter_d assms(1) by (simp add: run_loaded_def can_run_def)
next
  case (Native f)
  then obtain a where a: "eo_precompiles e a = Some f" using assms(2) by (auto simp: known_code_def)
  then have "case f (msg_data msg) (msg_gasLimit msg) of Inl x \<Rightarrow> \<not> is_evm_error x
      | Inr r \<Rightarrow> 0 \<le> er_executionGasUsed r \<and> er_executionGasUsed r \<le> msg_gasLimit msg"
    using assms(1) unfolding can_run_def evm_ok_def precompiles_ok_def by blast
  then show ?thesis unfolding run_loaded_def Native loaded_code.case
    by (intro delivers_bind [where K = "state_ok F" and A = "gas_within msg"] delivers_lift delivers_value)
       (auto simp: runPrecompile_def gas_within_def split: sum.splits)
qed

lemma executeCall_d:
  assumes "can_run e rc F msg"
  shows "delivers (state_ok F) (executeCall e u rc msg to) (ended_ok F (msg_depth msg)) (\<lambda>r. gas_within msg (ev_execResult r))"
  unfolding executeCall_def
  apply (rule delivers_if)
   apply (rule delivers_throw, simp add: is_evm_error_def)
  apply (rule delivers_bind, rule transfer_d, use assms in \<open>simp add: can_run_def\<close>, rule delivers_bind, rule load_d)
  apply (simp only: split_beta)
  apply (rule delivers_if)
   apply (rule delivers_return)
   apply (simp add: ended evm_result_of_def early_result_def gas_within_def shared_sets_def)
   apply (use assms in \<open>simp add: can_run_def\<close>)
  apply (rule delivers_bind, rule run_loaded_d [OF assms], assumption)
  apply (rule delivers_seq, rule cleanup_d, use assms in \<open>simp add: can_run_def\<close>)
  apply (rule delivers_value, simp add: evm_result_of_def split_beta)
  done


lemma codec_errors:
  assumes "noble_plain x"
  shows "hexToBytes x s = Inl e \<Longrightarrow> \<not> is_evm_error e" "bigIntToBytes x n = Inl e \<Longrightarrow> \<not> is_evm_error e"
proof -
  show hex: "hexToBytes x s = Inl e \<Longrightarrow> \<not> is_evm_error e" for s
    using assms by (auto simp: hexToBytes_def noble_plain_def is_evm_error_def split: if_splits)
  show "bigIntToBytes x n = Inl e \<Longrightarrow> \<not> is_evm_error e"
    using hex by (auto simp: bigIntToBytes_le_def split: sum.splits)
qed

lemma address_generation_errors:
  assumes "noble_plain x"
  shows "generateAddress2 x from salt code = Inl e \<Longrightarrow> \<not> is_evm_error e"
    "bindR (bigIntToBytes x n) (generateAddress x from) = Inl e \<Longrightarrow> \<not> is_evm_error e"
proof -
  have "\<exists>bs. encode (RArray [RBytes from, RBytes m]) = Inr bs" for m
    using encode_loop_total [of "DList [DBytes from, DBytes m]"] by auto
  then have "generateAddress x from m \<noteq> Inl e" for m
    unfolding generateAddress_def by (metis bindR_simps(2) sum.distinct(1))
  then show "bindR (bigIntToBytes x n) (generateAddress x from) = Inl e \<Longrightarrow> \<not> is_evm_error e"
    using codec_errors(2) [OF assms, of n] by (cases "bigIntToBytes x n") auto
  show "generateAddress2 x from salt code = Inl e \<Longrightarrow> \<not> is_evm_error e"
    using codec_errors(1) [OF assms, of "''0xff''"]
    by (auto simp: generateAddress2_def bindR_def is_evm_error_def split: if_splits sum.splits)
qed

lemma generate_d:
  assumes "noble_plain x" "\<And>s. I s \<Longrightarrow> world_ok F (fst s)"
  shows "delivers I (evm_generateAddress x msg code) I (\<lambda>_. True)"
proof -
  have "delivers I (bindE (get_or_new (msg_caller msg)) (\<lambda>acc.
          let newNonce = acc_nonce acc - 1 in
          liftE (bindR (bigIntToBytes x newNonce) (generateAddress x (msg_caller msg))))) I (\<lambda>_. True)"
    unfolding Let_def
    by (rule delivers_bind, rule get_or_new_nonneg, erule assms(2), rule delivers_lift)
       (auto dest: address_generation_errors(2) [OF assms(1)])
  moreover have "delivers I (liftE (generateAddress2 x (msg_caller msg) salt code)) I (\<lambda>_. True)" for salt
    by (rule delivers_lift) (auto dest: address_generation_errors(1) [OF assms(1)])
  ultimately show ?thesis unfolding evm_generateAddress_def
    by (intro delivers_bind [where K = I and A = "\<lambda>_. True"], cases "msg_salt msg")
       (auto intro: delivers_lift dest: address_errors(1))
qed

lemma endow_d:
  assumes "0 \<le> acc_balance acc" "0 \<le> msg_value msg"
  shows "delivers (state_ok F) (endow_contract e msg to acc) (state_ok F) (\<lambda>_. True)"
  unfolding endow_contract_def Let_def
  apply (rule delivers_seq, rule put_d [OF assms(1)])
  apply (rule delivers_seq [where K = "state_ok F"])
   apply (rule deliversI; auto simp: on_world_def on_sm_def sm_clearStorage_def split: prod.splits)
  apply (rule delivers_bind, rule get_d, rule add_d)
  using assms(2) by simp_all

lemma run_create_d:
  assumes "can_run e rc F msg"
  shows "delivers (state_ok F) (run_create e u rc msg to code) (ended_ok F (msg_depth msg)) (\<lambda>r. gas_within msg (ev_execResult r))"
proof -
  have ok: "evm_ok e" "run_call_ok rc" "0 \<le> msg_gasLimit msg" "0 \<le> msg_value msg"
    "eip_active (eo_ctx e) 1153 \<Longrightarrow> snd (snd F) \<noteq> []" using assms by (simp_all add: can_run_def)
  have deposit: "delivers (state_ok F) (liftE (deposit_result e msg code r)) (state_ok F) (\<lambda>p. gas_within msg (fst p))"
    if "gas_within msg r" for r
    by (rule delivers_lift, erule deposit_errors) (use deposit_within [OF that ok(3)] in fastforce)
  show ?thesis unfolding run_create_def
    apply (rule delivers_bind, rule runInterpreter_d [OF ok(1-4)])
    apply (simp only: split_beta)
    apply (rule delivers_bind, rule deposit, assumption)
    apply (simp only: split_beta)
    apply (rule delivers_seq, rule save_d, rule delivers_seq, rule cleanup_d, erule ok(5))
    apply (rule delivers_value, simp add: evm_result_of_def split_beta)
    done
qed

lemma create_at_d:
  assumes "can_run e rc F msg"
  shows "delivers (state_ok F) (create_at e u rc msg to code) (ended_ok F (msg_depth msg)) (\<lambda>r. gas_within msg (ev_execResult r))"
proof -
  have gas: "0 \<le> msg_gasLimit msg" "0 \<le> msg_value msg" using assms by (simp_all add: can_run_def)
  show ?thesis unfolding create_at_def
    apply (rule delivers_bind, rule get_d, rule delivers_if)
     apply (rule delivers_return)
     apply (simp add: ended gas_within_def create_failure_def evm_result_of_def failed_result_def shared_sets_def gas)
    apply (rule delivers_bind, rule endow_d, assumption, rule gas)
    apply (rule delivers_if)
     apply (rule delivers_return)
     apply (simp add: ended gas_within_def early_result_def evm_result_of_def shared_sets_def gas)
    apply (rule run_create_d [OF assms])
    done
qed

lemma executeCreate_d:
  assumes "can_run e rc F msg"
  shows "delivers (\<lambda>s. state_ok F s \<and> msg_value msg \<le> balance_of (msg_caller msg) (fst s)) (executeCreate e u rc msg)
    (ended_ok F (msg_depth msg)) (\<lambda>r. gas_within msg (ev_execResult r))"
proof -
  let ?I = "\<lambda>s. state_ok F s \<and> msg_value msg \<le> balance_of (msg_caller msg) (fst s)"
  have gas: "0 \<le> msg_gasLimit msg" "noble_plain (ctx_ext (eo_ctx e))" using assms by (simp_all add: can_run_def evm_ok_def)
  have reduce: "delivers ?I (reduceSenderBalance acc msg) (state_ok F) (\<lambda>_. True)" if "msg_value msg \<le> acc_balance acc" for acc
    unfolding reduceSenderBalance_def Let_def using that
    by (auto intro!: put_account_d intro: state_ok_world)
  have created: "can_run e rc F m \<and> msg_depth m = msg_depth msg \<and> gas_within m = gas_within msg"
    if "add_created e to (msg\<lparr>msg_data := [], msg_to := Some to\<rparr>) = Inr m" for m to
    using that assms by (auto simp: add_created_def can_run_def gas_within_def fun_eq_iff split: if_splits option.splits)
  have at: "delivers (state_ok F) (create_at e u rc m to code) (ended_ok F (msg_depth msg)) (\<lambda>r. gas_within msg (ev_execResult r))"
    if "can_run e rc F m \<and> msg_depth m = msg_depth msg \<and> gas_within m = gas_within msg" for m to code
    using create_at_d [of e rc F m] that by simp
  show ?thesis unfolding executeCreate_def Let_def
    apply (rule delivers_if)
     apply (rule delivers_throw, simp add: is_evm_error_def)
    apply (rule delivers_bind, rule get_or_new_d [where F = F and v = "msg_value msg"], simp add: state_ok_def, simp)
    apply (rule delivers_seq, rule reduce, simp)
    apply (rule delivers_if)
     apply (rule delivers_return)
     apply (simp add: ended gas_within_def create_failure_def evm_result_of_def failed_result_def shared_sets_def gas)
    apply (rule delivers_bind, rule generate_d [where F = F], rule gas, simp add: state_ok_def)
    apply (rule delivers_bind, rule delivers_lift [where A = "\<lambda>m. can_run e rc F m \<and> msg_depth m = msg_depth msg \<and> gas_within m = gas_within msg"])
      apply (auto simp: add_created_def is_evm_error_def split: if_splits option.splits)[1]
     apply (erule created)
    apply (erule at)
    done
qed


section \<open>Checkpoints of a message\<close>

definition below_of :: "evm_object \<Rightarrow> evm_state \<Rightarrow> below" where
  "below_of e s = (sm_frames (wl_sm (fst s)), j_frames (wl_journal (fst s)),
     if eip_active (eo_ctx e) 1153 then ts_frames (snd s) else tl (ts_frames (snd s)))"

text \<open>Whether the hardfork of the call and that of the object agree on transient storage: the checkpoint asks
  the one, commit and revert the other.\<close>

definition agrees_1153 :: "evm_object \<Rightarrow> string \<Rightarrow> bool" where
  "agrees_1153 e hf \<longleftrightarrow> isEIPActiveAtHardfork (ctx_common (eo_ctx e)) 1153 hf = eip_active (eo_ctx e) 1153"

lemma world_op_run: "journal_checkpoint w = (Inr (), w') \<longleftrightarrow> (\<exists>j sm. j_checkpoint (wl_journal w) = (Inr (), j)
    \<and> sm_checkpoint (wl_sm w) = (Inr (), sm) \<and> w' = w\<lparr>wl_journal := j, wl_sm := sm\<rparr>)"
  "journal_commit w = (Inr (), w') \<longleftrightarrow> (\<exists>j sm. j_commit (wl_journal w) = (Inr (), j)
    \<and> sm_commit (wl_sm w) = (Inr (), sm) \<and> w' = w\<lparr>wl_journal := j, wl_sm := sm\<rparr>)"
  "journal_revert w = (Inr (), w') \<longleftrightarrow> (\<exists>j sm. j_revert (wl_journal w) = (Inr (), j)
    \<and> sm_revert (wl_sm w) = (Inr (), sm) \<and> w' = w\<lparr>wl_journal := j, wl_sm := sm\<rparr>)"
  by (auto simp: journal_checkpoint_def journal_commit_def journal_revert_def seqE_run on_journal_def on_sm_def
      split: prod.splits sum.splits)

lemma checkpoint_run:
  assumes "state_ok F s" "agrees_1153 e hf"
  obtains t where "message_checkpoint e hf s = (Inr (), t)" "state_ok (below_of e s) t"
    "\<And>a. balance_of a (fst t) = balance_of a (fst s)" "accountStack (wl_sm (fst t)) \<noteq> []"
proof -
  obtain w ts where s: "s = (w, ts)" by fastforce
  have wf: "j_wf (wl_journal w)" "sm_wf (wl_sm w)" "ts_wf ts" "balances_ok (wl_sm w)"
    using assms(1) by (simp_all add: s state_ok_def world_ok_def sm_ok_def j_ok_def ts_ok_def)
  obtain j where j: "j_checkpoint (wl_journal w) = (Inr (), j)" "j_wf j" "j_frames j = hd (j_frames (wl_journal w)) # j_frames (wl_journal w)"
    using jr.checkpoint_law [OF wf(1)] by blast
  obtain sm where sm: "sm_checkpoint (wl_sm w) = (Inr (), sm)" "sm_wf sm" "sm_frames sm = hd (sm_frames (wl_sm w)) # sm_frames (wl_sm w)"
    using sm.checkpoint_law [OF wf(2)] by blast
  obtain u where u: "ts_checkpoint ts = (Inr (), u)" "ts_wf u" "ts_frames u = hd (ts_frames ts) # ts_frames ts"
    using ts.checkpoint_law [OF wf(3)] by blast
  have ne: "accountStack (wl_sm w) \<noteq> []" using wf(2) by (simp add: sm_wf_def)
  have acc: "accountStack sm = accountStack (wl_sm w) @ [last (accountStack (wl_sm w))]"
    using sm(1) ne by (auto simp: sm_checkpoint_def checkpointSync_def top_map_def)
  have "balances_ok sm" using wf(4) last_in_set [OF ne] by (auto simp: balances_ok_def acc)
  define t where "t = (w\<lparr>wl_journal := j, wl_sm := sm\<rparr>, if eip_active (eo_ctx e) 1153 then u else ts)"
  have "message_checkpoint e hf s = (Inr (), t)"
    using j(1) sm(1) u(1) assms(2)
    by (simp add: message_checkpoint_def s on_world_def on_transient_def seqE_run agrees_1153_def t_def
        journal_checkpoint_def on_journal_def on_sm_def)
  moreover have "state_ok (below_of e s) t"
    using j(2,3) sm(2,3) u(2,3) wf(3) \<open>balances_ok sm\<close>
    by (simp add: state_ok_def below_of_def s t_def world_ok_def sm_ok_def j_ok_def ts_ok_def)
  moreover have "balance_of a (fst t) = balance_of a (fst s)" for a
    using ne by (simp add: t_def s balance_of_def top_map_def acc)
  moreover have "accountStack (wl_sm (fst t)) \<noteq> []" by (simp add: t_def acc)
  ultimately show thesis by (rule that)
qed

text \<open>Ending the message: with the checkpoint discarded, everything is as before it; with the checkpoint
  committed, the checkpoints below are as before.\<close>

lemma splice_subset: "set (splice_below_top xs) \<subseteq> set xs"
  by (auto simp: splice_below_top_def dest: in_set_butlastD intro: last_in_set)

lemma end_world:
  assumes "world_ok F w0" "world_ok (sm_frames (wl_sm w0), j_frames (wl_journal w0), T) w"
  shows "\<exists>w'. journal_revert w = (Inr (), w') \<and> world_ok F w'
      \<and> sm_frames (wl_sm w') = sm_frames (wl_sm w0) \<and> j_frames (wl_journal w') = j_frames (wl_journal w0)"
    "\<exists>w'. journal_commit w = (Inr (), w') \<and> world_ok F w'"
proof -
  have wf0: "sm_wf (wl_sm w0)" "j_wf (wl_journal w0)" using assms(1) by (simp_all add: world_ok_def sm_ok_def j_ok_def)
  have wf: "sm_wf (wl_sm w)" "j_wf (wl_journal w)" "balances_ok (wl_sm w)"
    "tl (sm_frames (wl_sm w)) = sm_frames (wl_sm w0)" "tl (j_frames (wl_journal w)) = j_frames (wl_journal w0)"
    using assms(2) by (simp_all add: world_ok_def sm_ok_def j_ok_def)
  obtain y zs where y: "sm_frames (wl_sm w0) = y # zs" using sm.frames_ne [OF wf0(1)] by (cases "sm_frames (wl_sm w0)") auto
  obtain y' zs' where y': "j_frames (wl_journal w0) = y' # zs'" by (simp add: j_frames_def)
  obtain x where x: "sm_frames (wl_sm w) = x # y # zs"
    using wf(4) y sm.frames_ne [OF wf(1)] by (cases "sm_frames (wl_sm w)") auto
  obtain x' where x': "j_frames (wl_journal w) = x' # y' # zs'"
    using wf(5) y' jr.frames_ne [OF wf(2)] by (cases "j_frames (wl_journal w)") auto
  have F: "zs = fst F" "zs' = fst (snd F)" using assms(1) y y' by (simp_all add: world_ok_def sm_ok_def j_ok_def)
  have bal: "set (accountStack sm) \<subseteq> set (accountStack (wl_sm w)) \<Longrightarrow> balances_ok sm" for sm
    using wf(3) by (auto simp: balances_ok_def)
  obtain sm where sm: "sm_revert (wl_sm w) = (Inr (), sm)" "sm_wf sm" "sm_frames sm = y # zs"
    using sm.revert_law [OF wf(1) x] by blast
  obtain j where j: "j_revert (wl_journal w) = (Inr (), j)" "j_wf j" "j_frames j = y' # zs'"
    using jr.revert_law [OF wf(2) x'] by blast
  have "balances_ok sm" using sm(1) by (intro bal) (auto simp: sm_revert_def dest: in_set_butlastD)
  then show "\<exists>w'. journal_revert w = (Inr (), w') \<and> world_ok F w'
      \<and> sm_frames (wl_sm w') = sm_frames (wl_sm w0) \<and> j_frames (wl_journal w') = j_frames (wl_journal w0)"
    using sm j F y y' by (auto simp: world_op_run world_ok_def sm_ok_def j_ok_def)
  obtain sm where sm: "sm_commit (wl_sm w) = (Inr (), sm)" "sm_wf sm" "sm_frames sm = x # zs"
    using sm.commit_law [OF wf(1) x] by blast
  obtain j where j: "j_commit (wl_journal w) = (Inr (), j)" "j_wf j" "j_frames j = x' # zs'"
    using jr.commit_law [OF wf(2) x'] by blast
  have "balances_ok sm" using sm(1) by (intro bal) (auto simp: sm_commit_def dest: subsetD [OF splice_subset])
  then show "\<exists>w'. journal_commit w = (Inr (), w') \<and> world_ok F w'"
    using sm j F by (auto simp: world_op_run world_ok_def sm_ok_def j_ok_def)
qed


lemma end_transient:
  assumes "ts_ok F ts0" "ts_ok (S, J, ts_frames ts0) ts"
  shows "\<exists>t. ts_revert ts = (Inr (), t) \<and> ts_ok F t \<and> ts_frames t = ts_frames ts0" "\<exists>t. ts_commit ts = (Inr (), t) \<and> ts_ok F t"
proof -
  have wf: "ts_wf ts" "ts_wf ts0" "tl (ts_frames ts) = ts_frames ts0" "tl (ts_frames ts0) = snd (snd F)"
    using assms by (simp_all add: ts_ok_def)
  obtain y zs where y: "ts_frames ts0 = y # zs" by (simp add: ts_frames_def)
  obtain x where x: "ts_frames ts = x # y # zs" using wf(3) y ts.frames_ne [OF wf(1)] by (cases "ts_frames ts") auto
  show "\<exists>t. ts_revert ts = (Inr (), t) \<and> ts_ok F t \<and> ts_frames t = ts_frames ts0"
    using ts.revert_law [OF wf(1) x] wf(4) y by (auto simp: ts_ok_def)
  show "\<exists>t. ts_commit ts = (Inr (), t) \<and> ts_ok F t"
    using ts.commit_law [OF wf(1) x] wf(4) y by (auto simp: ts_ok_def)
qed

lemma end_cleared: "ts_indices x \<noteq> [] \<Longrightarrow> \<exists>t. ts_revert (ts_clear x) = (Inr (), t)"
  "ts_indices x \<noteq> [] \<Longrightarrow> \<exists>t. ts_commit (ts_clear x) = (Inr (), t)"
  by (simp_all add: ts_revert_def ts_commit_def ts_clear_def Let_def seqE_run)

text \<open>What a message leaves when it returns: the checkpoints below, and after an error all the contents.\<close>

definition message_left :: "evm_object \<Rightarrow> below \<Rightarrow> nat \<Rightarrow> evm_state \<Rightarrow> bool \<Rightarrow> evm_state \<Rightarrow> bool" where
  "message_left e F d s failed t \<longleftrightarrow> world_ok F (fst t) \<and> (0 < d \<longrightarrow> ts_ok F (snd t))
     \<and> (failed \<longrightarrow> sm_frames (wl_sm (fst t)) = sm_frames (wl_sm (fst s))
          \<and> j_frames (wl_journal (fst t)) = j_frames (wl_journal (fst s))
          \<and> (0 < d \<and> eip_active (eo_ctx e) 1153 \<longrightarrow> ts_frames (snd t) = ts_frames (snd s)))"

lemma end_run:
  assumes "state_ok F s" "ended_ok (below_of e s) d t"
  obtains t' where "message_left e F d s (reverts e (forfeit (ev_execResult res))) t'"
    "end_message e res t = (Inr (res\<lparr>ev_execResult := (if reverts e (forfeit (ev_execResult res))
       then (forfeit (ev_execResult res))\<lparr>er_logs := Some []\<rparr> else forfeit (ev_execResult res))\<rparr>), t')"
proof -
  obtain w0 ts0 where s: "s = (w0, ts0)" by fastforce
  obtain w ts where t: "t = (w, ts)" by fastforce
  have w0: "world_ok F w0" "ts_ok F ts0" using assms(1) by (simp_all add: s state_ok_def)
  have w: "world_ok (sm_frames (wl_sm w0), j_frames (wl_journal w0), snd (snd (below_of e s))) w"
    using assms(2) by (simp add: ended_ok_def t s below_of_def)
  obtain wr where wr: "journal_revert w = (Inr (), wr)" "world_ok F wr" "sm_frames (wl_sm wr) = sm_frames (wl_sm w0)"
    "j_frames (wl_journal wr) = j_frames (wl_journal w0)" using end_world(1) [OF w0(1) w] by blast
  obtain wc where wc: "journal_commit w = (Inr (), wc)" "world_ok F wc" using end_world(2) [OF w0(1) w] by blast
  have part: "ts_ok (below_of e s) ts \<or> d = 0 \<and> (\<exists>x. ts = ts_clear x \<and> ts_indices x \<noteq> [])"
    using assms(2) by (simp add: ended_ok_def t)
  let ?on = "eip_active (eo_ctx e) 1153" and ?r = "forfeit (ev_execResult res)"
  have idle: "0 < d \<Longrightarrow> ts_ok F ts" if "\<not> ?on"
    using part w0(2) that by (auto simp: below_of_def s ts_ok_def)
  obtain tr where tr: "?on \<Longrightarrow> ts_revert ts = (Inr (), tr)" "?on \<Longrightarrow> 0 < d \<Longrightarrow> ts_ok F tr \<and> ts_frames tr = ts_frames ts0"
    using part end_transient(1) [OF w0(2), of "fst (below_of e s)" "fst (snd (below_of e s))" ts] end_cleared(1)
    by (cases ?on) (auto simp: below_of_def s)
  obtain tc where tc: "?on \<Longrightarrow> ts_commit ts = (Inr (), tc)" "?on \<Longrightarrow> 0 < d \<Longrightarrow> ts_ok F tc"
    using part end_transient(2) [OF w0(2), of "fst (below_of e s)" "fst (snd (below_of e s))" ts] end_cleared(2)
    by (cases ?on) (auto simp: below_of_def s)
  define t' where "t' = (if reverts e ?r then (wr, if ?on then tr else ts) else (wc, if ?on then tc else ts))"
  have "message_left e F d s (reverts e ?r) t'"
    using wr wc tr(2) tc(2) idle by (auto simp: message_left_def t'_def s)
  moreover have "end_message e res t = (Inr (res\<lparr>ev_execResult := (if reverts e ?r then ?r\<lparr>er_logs := Some []\<rparr> else ?r)\<rparr>), t')"
    using wr(1) wc(1) tr(1) tc(1)
    by (simp add: end_message_def Let_def t t'_def on_world_def on_transient_def seqE_run)
  ultimately show thesis by (rule that)
qed

section \<open>Messages\<close>

lemma execute_d:
  assumes "can_run e rc F msg"
  shows "delivers (\<lambda>s. state_ok F s \<and> funded msg s) (execute_message e u rc msg) (ended_ok F (msg_depth msg)) (\<lambda>r. gas_within msg (ev_execResult r))"
proof (cases "msg_to msg")
  case None
  then show ?thesis using executeCreate_d [OF assms] by (simp add: execute_message_def funded_def)
next
  case (Some to)
  then show ?thesis using executeCall_d [OF assms] by (auto simp: execute_message_def intro: delivers_pre)
qed

lemma bump_d:
  "delivers (\<lambda>s. state_ok F s \<and> funded msg s) (whenE b (bump_nonce msg)) (\<lambda>s. state_ok F s \<and> funded msg s) (\<lambda>_. True)"
proof (rule delivers_when)
  show "delivers (\<lambda>s. state_ok F s \<and> funded msg s) (bump_nonce msg) (\<lambda>s. state_ok F s \<and> funded msg s) (\<lambda>_. True)"
  proof (rule deliversI)
    fix s r t assume s: "state_ok F s \<and> funded msg s" "bump_nonce msg s = (Inr r, t)"
    obtain w ts where ws: "s = (w, ts)" by fastforce
    have w: "world_ok F w" using s(1) by (simp add: ws state_ok_def)
    define acc where "acc = (case top_map (accountStack (wl_sm w)) (msg_caller msg) of None \<Rightarrow> new_account | Some b \<Rightarrow> b)"
    have bal: "acc_balance acc = balance_of (msg_caller msg) w" by (simp add: acc_def balance_of_def)
    then have acc: "0 \<le> acc_balance (acc\<lparr>acc_nonce := acc_nonce acc + 1\<rparr>)" using top_balance [OF w] by simp
    obtain w' where p: "journal_putAccount (msg_caller msg) (Some (acc\<lparr>acc_nonce := acc_nonce acc + 1\<rparr>)) w = (Inr (), w')" "t = (w', ts)"
      using s(2) get_or_new_run [OF w, of "msg_caller msg" ts]
      by (auto simp: ws bump_nonce_def bindE_run acc_def on_world_def split: prod.splits)
    show "True \<and> state_ok F t \<and> funded msg t"
      using put_account_run(1) [OF w acc p(1)] put_account_run(3) [OF w acc p(1) refl] s(1) bal
      by (simp add: p(2) ws state_ok_def funded_def)
  next
    fix s e t assume s: "state_ok F s \<and> funded msg s" "bump_nonce msg s = (Inl e, t)"
    have "delivers (state_ok F) (bump_nonce msg) (state_ok F) (\<lambda>_. True)"
      unfolding bump_nonce_def by (rule delivers_bind, rule get_d, rule put_d) simp
    then show "\<not> is_evm_error e" using delivers_thrown [where I = "state_ok F" and s = s] s by blast
  qed
qed simp

lemma warm_d:
  assumes "noble_plain (ctx_ext (eo_ctx e))"
  shows "delivers (\<lambda>s. state_ok F s \<and> funded msg s) (warm_new_address e hf msg) (\<lambda>s. state_ok F s \<and> funded msg s) (\<lambda>_. True)"
  unfolding warm_new_address_def
proof (rule delivers_if, rule delivers_bind, rule generate_d [OF assms, where F = F])
  show "delivers (\<lambda>s. state_ok F s \<and> funded msg s) (on_world (on_journal (modifyE (addWarmedAddress r))))
      (\<lambda>s. state_ok F s \<and> funded msg s) (\<lambda>_. True)" for r
    by (rule on_world_d)
       (use j_ok_keeps [OF _ addWarmedAddress_keeps] in
         \<open>auto simp: on_journal_def state_ok_def world_ok_def funded_def balance_of_def\<close>)
qed (auto simp: state_ok_def intro: delivers_value)


text \<open>A message that returns; \<open>s\<close> is the state before its checkpoint.\<close>

lemma run_message_returns:
  assumes "evm_ok e" "run_call_ok rc" "0 \<le> msg_gasLimit msg" "0 \<le> msg_value msg" "agrees_1153 e hf"
    and "state_ok F s0" "funded msg s0" "run_message e u hf rc msg s0 = (Inr res, t)"
  shows "gas_within msg (ev_execResult res) \<and> (reverts e (ev_execResult res) \<longrightarrow> er_logs (ev_execResult res) = Some [])
    \<and> (\<exists>s. seqE (whenE (msg_depth msg = 0) (bump_nonce msg)) (warm_new_address e hf msg) s0 = (Inr (), s) \<and> state_ok F s
         \<and> message_left e F (msg_depth msg) s (reverts e (ev_execResult res)) t)"
proof -
  have noble: "noble_plain (ctx_ext (eo_ctx e))" using assms(1) by (simp add: evm_ok_def)
  obtain s where s: "seqE (whenE (msg_depth msg = 0) (bump_nonce msg)) (warm_new_address e hf msg) s0 = (Inr (), s)"
    "bindE (seqE (message_checkpoint e hf) (execute_message e u rc msg)) (end_message e) s = (Inr res, t)"
    using assms(8) by (auto simp: run_message_def seqE_run bindE_run split: prod.splits sum.splits)
  have "state_ok F s \<and> funded msg s"
    using deliversD [OF delivers_seq [OF bump_d warm_d [OF noble]] _ s(1)] assms(6,7) by blast
  note ok = conjunct1 [OF this] conjunct2 [OF this]
  obtain c where c: "message_checkpoint e hf s = (Inr (), c)" "state_ok (below_of e s) c"
    "\<And>a. balance_of a (fst c) = balance_of a (fst s)" using checkpoint_run [OF ok(1) assms(5)] by blast
  obtain r x where x: "execute_message e u rc msg c = (Inr r, x)" "end_message e r x = (Inr res, t)"
    using s(2) c(1) by (auto simp: seqE_run bindE_run split: prod.splits sum.splits)
  have run: "can_run e rc (below_of e s) msg"
    using assms(1-4) by (simp add: can_run_def below_of_def ts_frames_def)
  have "funded msg c" using ok(2) c(3) by (simp add: funded_def)
  then have body: "gas_within msg (ev_execResult r)" "ended_ok (below_of e s) (msg_depth msg) x"
    using deliversD [OF execute_d [OF run] _ x(1)] c(2) by blast+
  obtain t' where t': "message_left e F (msg_depth msg) s (reverts e (forfeit (ev_execResult r))) t'"
    "end_message e r x = (Inr (r\<lparr>ev_execResult := (if reverts e (forfeit (ev_execResult r))
       then (forfeit (ev_execResult r))\<lparr>er_logs := Some []\<rparr> else forfeit (ev_execResult r))\<rparr>), t')"
    using end_run [OF ok(1) body(2)] by blast
  have same: "reverts e (ev_execResult res) = reverts e (forfeit (ev_execResult r))"
    "gas_within msg (ev_execResult res) = gas_within msg (ev_execResult r)"
    using x(2) t'(2) by (auto simp: reverts_def forfeit_def gas_within_def split: option.splits if_splits)
  have "reverts e (ev_execResult res) \<longrightarrow> er_logs (ev_execResult res) = Some []" using x(2) t'(2) same(1) by auto
  then show ?thesis using s(1) ok(1) body(1) t' x(2) same by auto
qed

text \<open>A message throws no EVM error.\<close>

lemma run_message_errors:
  assumes "evm_ok e" "run_call_ok rc" "0 \<le> msg_gasLimit msg" "0 \<le> msg_value msg" "agrees_1153 e hf"
    and "state_ok F s0" "funded msg s0" "run_message e u hf rc msg s0 = (Inl err, t)"
  shows "\<not> is_evm_error err"
proof -
  have noble: "noble_plain (ctx_ext (eo_ctx e))" using assms(1) by (simp add: evm_ok_def)
  let ?pre = "seqE (whenE (msg_depth msg = 0) (bump_nonce msg)) (warm_new_address e hf msg)"
  have d: "delivers (\<lambda>s. state_ok F s \<and> funded msg s) ?pre (\<lambda>s. state_ok F s \<and> funded msg s) (\<lambda>_. True)"
    by (rule delivers_seq [OF bump_d warm_d [OF noble]])
  have split: "run_message e u hf rc msg = seqE ?pre (bindE (seqE (message_checkpoint e hf) (execute_message e u rc msg)) (end_message e))"
    by (rule ext) (simp add: run_message_def seqE_run bindE_run split: prod.split sum.split)
  consider "?pre s0 = (Inl err, t)" | s where "?pre s0 = (Inr (), s)"
      "bindE (seqE (message_checkpoint e hf) (execute_message e u rc msg)) (end_message e) s = (Inl err, t)"
    using assms(8) unfolding split by (subst (asm) (1) seqE_run) (auto split: prod.splits sum.splits)
  then show ?thesis
  proof cases
    case 1
    then show ?thesis using delivers_thrown [OF d] assms(6,7) by blast
  next
    case (2 s)
    have "state_ok F s \<and> funded msg s" using deliversD [OF d _ 2(1)] assms(6,7) by blast
    note ok = conjunct1 [OF this] conjunct2 [OF this]
    obtain c where c: "message_checkpoint e hf s = (Inr (), c)" "state_ok (below_of e s) c"
      "\<And>a. balance_of a (fst c) = balance_of a (fst s)" using checkpoint_run [OF ok(1) assms(5)] by blast
    have run: "can_run e rc (below_of e s) msg" using assms(1-4) by (simp add: can_run_def below_of_def ts_frames_def)
    have start: "state_ok (below_of e s) c \<and> funded msg c" using ok(2) c(2,3) by (simp add: funded_def)
    consider "execute_message e u rc msg c = (Inl err, t)"
      | r x where "execute_message e u rc msg c = (Inr r, x)" "end_message e r x = (Inl err, t)"
      using 2(2) c(1) by (auto simp: seqE_run bindE_run split: prod.splits sum.splits)
    then show ?thesis
    proof cases
      case 1
      then show ?thesis using delivers_thrown [OF execute_d [OF run]] start by blast
    next
      case (2 r x)
      have "ended_ok (below_of e s) (msg_depth msg) x" using deliversD [OF execute_d [OF run] start 2(1)] by blast
      then show ?thesis using end_run [OF ok(1)] 2(2) by (metis Pair_inject sum.distinct(1))
    qed
  qed
qed

lemma run_messages_ok:
  assumes "evm_ok e" "run_call_ok (un_call u)"
  shows "run_call_ok (run_messages e u n)"
proof (induction n)
  case (Suc n)
  have "yields (state_ok F) (funded msg) (run_message e u (ctx_fork (eo_ctx e)) (run_messages e u n) msg) (\<lambda>_. True)
      (\<lambda>res. 0 \<le> er_executionGasUsed (ev_execResult res))" if msg: "sound_message msg" for F msg
  proof (rule yields_intro)
    have sound: "0 \<le> msg_gasLimit msg" "0 \<le> msg_value msg" "0 < msg_depth msg" using msg by (simp_all add: sound_message_def)
    have agree: "agrees_1153 e (ctx_fork (eo_ctx e))" by (simp add: agrees_1153_def eip_active_def)
    fix s r t assume s: "state_ok F s" "funded msg s" "run_message e u (ctx_fork (eo_ctx e)) (run_messages e u n) msg s = (Inr r, t)"
    from run_message_returns [OF assms(1) Suc sound(1,2) agree s] sound(3)
    show "state_ok F t \<and> 0 \<le> er_executionGasUsed (ev_execResult r) \<and> True"
      by (auto simp: message_left_def gas_within_def state_ok_def)
  next
    have sound: "0 \<le> msg_gasLimit msg" "0 \<le> msg_value msg" using msg by (simp_all add: sound_message_def)
    have agree: "agrees_1153 e (ctx_fork (eo_ctx e))" by (simp add: agrees_1153_def eip_active_def)
    fix s err t assume "state_ok F s" "funded msg s"
      "run_message e u (ctx_fork (eo_ctx e)) (run_messages e u n) msg s = (Inl err, t)" "is_evm_error err"
    then show "state_ok F t" using run_message_errors [OF assms(1) Suc sound agree] by blast
  qed
  then show ?case by (simp add: run_call_ok_def)
qed (use assms(2) in simp)


section \<open>Properties\<close>

text \<open>C23: A message that fails, whatever its code and its nested messages did, restores what its checkpoint holds: the
  accounts, code and storage of every checkpoint level, and of the journal the map of warm addresses and slots and the
  touched accounts, are as they were before the checkpoint. Two things of the journal are no part of this, as in the code:
  RIPEMD160, once touched, stays touched, and the always-warm addresses are not checkpointed, so that the target of a delegation
  (EIP-7702) stays warm that the outermost message loaded. What comes before the checkpoint stays too, the nonce of the
  sender of a transaction and the warm address of a new contract. Below the outermost message the transient storage is restored as
  well. The result of a failed message has no logs (the Frontier's failure to pay for code is no revert).\<close>

theorem failed_message_restores:
  assumes "evm_ok e" "run_call_ok (un_call u)" "0 \<le> msg_gasLimit msg" "0 \<le> msg_value msg" "agrees_1153 e hf"
    and "state_ok F s0" "funded msg s0"
    and "run_message e u hf (run_messages e u n) msg s0 = (Inr res, t)" "reverts e (ev_execResult res)"
  shows "er_logs (ev_execResult res) = Some [] \<and> (\<exists>s. seqE (whenE (msg_depth msg = 0) (bump_nonce msg)) (warm_new_address e hf msg) s0 = (Inr (), s)
    \<and> sm_frames (wl_sm (fst t)) = sm_frames (wl_sm (fst s))
    \<and> j_frames (wl_journal (fst t)) = j_frames (wl_journal (fst s))
    \<and> (0 < msg_depth msg \<and> eip_active (eo_ctx e) 1153 \<longrightarrow> ts_frames (snd t) = ts_frames (snd s)))"
  using run_message_returns [OF assms(1) run_messages_ok [OF assms(1,2)] assms(3-8)] assms(9)
  by (auto simp: message_left_def)

text \<open>C24: A message that returns reports between none and all of its gas limit as used, leaves no account with a
  negative balance, and leaves the checkpoints of its caller as they were, whether it succeeded or failed.\<close>

theorem message_gas_and_balances:
  assumes "evm_ok e" "run_call_ok (un_call u)" "0 \<le> msg_gasLimit msg" "0 \<le> msg_value msg" "agrees_1153 e hf"
    and "state_ok F s0" "funded msg s0" "run_message e u hf (run_messages e u n) msg s0 = (Inr res, t)"
  shows "0 \<le> er_executionGasUsed (ev_execResult res) \<and> er_executionGasUsed (ev_execResult res) \<le> msg_gasLimit msg
    \<and> (\<forall>a. 0 \<le> balance_of a (fst t)) \<and> world_ok F (fst t) \<and> (0 < msg_depth msg \<longrightarrow> state_ok F t)"
  using run_message_returns [OF assms(1) run_messages_ok [OF assms(1,2)] assms(3-8)] top_balance [where F = F]
  by (auto simp: message_left_def gas_within_def state_ok_def)


text \<open>A message without enough balance, for evaluation.\<close>

definition sample_evm :: "jump_table \<Rightarrow> evm_object" where
  "sample_evm table = \<lparr>eo_ctx = sample_ctx, eo_jumpTable = table, eo_precompiles = (\<lambda>_. None),
     eo_allowUnlimitedContractSize = False, eo_block = sample_header, eo_gasPrice = 1, eo_origin = createZeroAddress\<rparr>"

definition sample_unreached :: unreached where
  "sample_unreached = \<lparr>un_call = stop_call, un_loop = (\<lambda>rs. (Inl TypeError, rs)), un_extra = 0\<rparr>"

definition poor_message :: message where
  "poor_message = (default_message 100)\<lparr>msg_to := Some [2], msg_caller := [1], msg_value := 5, msg_depth := 1\<rparr>"

lemma sample_evm_facts:
  assumes "buildJumpTable sample_ctx [] = Inr table"
  shows "evm_ok (sample_evm table)" "run_call_ok (un_call sample_unreached)" "agrees_1153 (sample_evm table) ''shanghai''"
    "state_ok sample_below (sample_world, new_transient_storage)" "funded poor_message s"
    "0 \<le> msg_gasLimit poor_message" "0 \<le> msg_value poor_message"
proof -
  have "noble_plain sample_externals"
    by (auto simp: noble_plain_def sample_externals_def is_evm_error_def split: option.splits)
  then show "evm_ok (sample_evm table)" using assms sample_facts(1,2)
    by (simp add: evm_ok_def sample_evm_def precompiles_ok_def header_ok_def sample_header_def opt_nonneg_def sample_ctx_def)
  show "run_call_ok (un_call sample_unreached)" using sample_facts(3) by (simp add: sample_unreached_def)
  show "agrees_1153 (sample_evm table) ''shanghai''"
    by (simp add: agrees_1153_def sample_evm_def eip_active_def sample_ctx_def)
  have "frame_ok sample_below (sample_frame [] 100)" by (rule sample_facts)
  then show "state_ok sample_below (sample_world, new_transient_storage)"
    by (simp add: frame_ok_def frame_core_def sample_frame_def new_run_state_def state_ok_def)
  show "funded poor_message s" "0 \<le> msg_gasLimit poor_message" "0 \<le> msg_value poor_message"
    by (simp_all add: funded_def poor_message_def default_message_def)
qed

lemma poor_message_fails:
  "\<exists>res t. run_message (sample_evm table) sample_unreached ''shanghai'' (run_messages (sample_evm table) sample_unreached 0)
     poor_message (sample_world, new_transient_storage) = (Inr res, t) \<and> reverts (sample_evm table) (ev_execResult res)"
proof -
  have off: "\<not> isEIPActiveAtHardfork tiny_config 1153 ''shanghai''" "\<not> isEIPActiveAtHardfork tiny_config 6800 ''shanghai''"
    "\<not> isEIPActiveAtHardfork tiny_config 7702 ''shanghai''"
    by (simp_all add: tiny_active)
  show ?thesis
    by (simp add: run_message_def seqE_run bindE_run poor_message_def default_message_def warm_new_address_def
        message_checkpoint_def sample_evm_def sample_ctx_def off eip_active_def on_world_def journal_checkpoint_def on_journal_def on_sm_def
        j_checkpoint_def j_push_def sm_checkpoint_def checkpointSync_def sample_world_def new_simple_sm_def top_map_def
        new_journal_def cleanJournal_def execute_message_def executeCall_def transfer_value_def get_or_new_def sm_getAccount_def
        catchE_def reduceSenderBalance_def new_account_def account_of_def addToBalance_def MAX_INTEGER_BIGINT_def
        journal_putAccount_def touchAccount_def update_last_diff_def sm_putAccount_def set_top_def loadCode_def message_codeAddress_def
        getPrecompile_def sm_getCode_def no_code_def evm_result_of_def early_result_def shared_sets_def end_message_def forfeit_def
        error_of_def reverts_def journal_revert_def j_revert_def sm_revert_def numeral_2_eq_2 Let_def)
qed


theorem failed_message_restores_witness:
  "\<exists>table res t. run_message (sample_evm table) sample_unreached ''shanghai'' (run_messages (sample_evm table) sample_unreached 0)
     poor_message (sample_world, new_transient_storage) = (Inr res, t)
   \<and> sm_frames (wl_sm (fst t)) = sm_frames (wl_sm sample_world)
   \<and> j_frames (wl_journal (fst t)) = j_frames (wl_journal sample_world)"
proof -
  obtain table where table: "buildJumpTable sample_ctx [] = Inr table" using sample_table by blast
  note facts = sample_evm_facts [OF table]
  obtain res t where run: "run_message (sample_evm table) sample_unreached ''shanghai''
      (run_messages (sample_evm table) sample_unreached 0) poor_message (sample_world, new_transient_storage) = (Inr res, t)"
    "reverts (sample_evm table) (ev_execResult res)" using poor_message_fails by blast
  have pre: "seqE (whenE (msg_depth poor_message = 0) (bump_nonce poor_message))
      (warm_new_address (sample_evm table) ''shanghai'' poor_message) s = (Inr (), s)" for s
    by (simp add: poor_message_def default_message_def warm_new_address_def seqE_run)
  from failed_message_restores [OF facts(1,2,6,7,3-5) run]
  have "sm_frames (wl_sm (fst t)) = sm_frames (wl_sm sample_world)
      \<and> j_frames (wl_journal (fst t)) = j_frames (wl_journal sample_world)" unfolding pre by auto
  then show ?thesis using run(1) by blast
qed

theorem message_gas_and_balances_witness:
  "\<exists>table res t. run_message (sample_evm table) sample_unreached ''shanghai'' (run_messages (sample_evm table) sample_unreached 0)
     poor_message (sample_world, new_transient_storage) = (Inr res, t)
   \<and> er_executionGasUsed (ev_execResult res) \<le> 100 \<and> 0 \<le> balance_of [2] (fst t)"
proof -
  obtain table where table: "buildJumpTable sample_ctx [] = Inr table" using sample_table by blast
  note facts = sample_evm_facts [OF table]
  obtain res t where run: "run_message (sample_evm table) sample_unreached ''shanghai''
      (run_messages (sample_evm table) sample_unreached 0) poor_message (sample_world, new_transient_storage) = (Inr res, t)"
    using poor_message_fails by blast
  have "msg_gasLimit poor_message = 100" by (simp add: poor_message_def default_message_def)
  then have "er_executionGasUsed (ev_execResult res) \<le> 100 \<and> 0 \<le> balance_of [2] (fst t)"
    using message_gas_and_balances [OF facts(1,2,6,7,3-5) run] by simp
  then show ?thesis using run by blast
qed


text \<open>The check of EIP-3541 for the first byte of new code also catches a revert: initialisation code that reverts
  with data beginning with 0xef loses all its gas and its return data.\<close>

lemma deposit_of_revert:
  assumes "eip_active (eo_ctx e) 3541" "\<not> eip_active (eo_ctx e) 3540"
    and "er_exceptionError r = Some (EVMError REVERT)" "er_returnValue r = 0xef # data"
    and "er_executionGasUsed r \<le> msg_gasLimit msg"
  shows "deposit_result e msg code r = Inr (override r (INVALID_BYTECODE_result (msg_gasLimit msg)), False)"
  using assms by (simp add: deposit_result_def Let_def byte_is_def EOF_FORMAT_def)

end
