(* ===== verification/Items.thy ===== *)
theory Items
  imports Hardforks Rlp OpcodeUtil Arithmetic
begin

text \<open>
  What headers and transactions share: parameters read with a default, bigint division, and numbers as items of
  an RLP list.
\<close>

section \<open>Parameters and numbers\<close>

text \<open>\<open>param ?? default\<close>, used as a bigint.\<close>

definition value_or :: "param_value option \<Rightarrow> int \<Rightarrow> exn + int" where
  "value_or v d = (case v of Some (PBig n) \<Rightarrow> Inr n | Some (PNum n) \<Rightarrow> Inl TypeError | _ \<Rightarrow> Inr d)"

definition param_or :: "frozen_config \<Rightarrow> string \<Rightarrow> string \<Rightarrow> int \<Rightarrow> exn + int" where
  "param_or cfg name hf d = value_or (getParamAtHardfork cfg name hf) d"

text \<open>\<open>BigInt(param ?? default)\<close>.\<close>

definition as_bigint :: "param_value option \<Rightarrow> int \<Rightarrow> int" where
  "as_bigint v d = (case v of Some (PBig n) \<Rightarrow> n | Some (PNum n) \<Rightarrow> n | _ \<Rightarrow> d)"

definition to_bigint :: "param_value \<Rightarrow> exn + int" where
  "to_bigint v = (case v of PBig n \<Rightarrow> Inr n | PNum n \<Rightarrow> Inr n | PNull \<Rightarrow> Inl TypeError)"

definition bigint_div :: "int \<Rightarrow> int \<Rightarrow> exn + int" where
  "bigint_div a b = (if b = 0 then Inl RangeError else Inr (a sdiv b))"

definition option_or :: "int option \<Rightarrow> int \<Rightarrow> int" where
  "option_or v d = (case v of None \<Rightarrow> d | Some n \<Rightarrow> n)"

section \<open>Items of a list\<close>

definition int_item :: "externals \<Rightarrow> int \<Rightarrow> exn + rlp_input" where
  "int_item x n = map_sum id RBytes (bigIntToUnpaddedBytes x n)"

fun all_right :: "(exn + 'a) list \<Rightarrow> exn + 'a list" where
  "all_right [] = Inr []"
| "all_right (r # rs) = bindR r (\<lambda>v. bindR (all_right rs) (\<lambda>vs. Inr (v # vs)))"

definition int_bytes :: "int \<Rightarrow> bytes" where
  "int_bytes n = stripZeros (be_bytes (nat n))"

lemma int_item_run: "noble_ok x \<Longrightarrow> 0 \<le> n \<Longrightarrow> int_item x n = Inr (RBytes (int_bytes n))"
  by (simp add: int_item_def bigIntToUnpaddedBytes_def int_bytes_def unpadBytes_def)


lemma stripped_head: "stripZeros bs = b # cs \<Longrightarrow> b \<noteq> 0"
  by (induction bs) (auto split: if_splits)

lemma be_value_int_bytes [simp]: "0 \<le> n \<Longrightarrow> be_value (int_bytes n) = n"
  by (simp add: int_bytes_def)

lemma int_bytes_Nil [simp]: "0 \<le> n \<Longrightarrow> int_bytes n = [] \<longleftrightarrow> n = 0"
proof
  assume "0 \<le> n" "int_bytes n = []"
  then show "n = 0" using be_value_int_bytes [of n] by simp
qed (simp add: int_bytes_def be_bytes.simps)

lemma int_bytes_head: "int_bytes n = b # cs \<Longrightarrow> b \<noteq> 0"
  by (auto simp: int_bytes_def dest: stripped_head)

lemma encoded_list:
  "\<exists>bs. encode (RArray (map data_input ds)) = Inr bs \<and> bs \<noteq> [] \<and> (length bs < 2 ^ 64 \<longrightarrow> decode (RBytes bs) False = Inr (Plain (DList ds)))"
proof -
  obtain bs where bs: "encode (data_input (DList ds)) = Inr bs" "bs \<noteq> []" using encode_loop_total by blast
  then show ?thesis using decode_encode [OF bs(1), of "[]"]
    by (intro exI [of _ bs]) (simp add: decode_def input_length_zero_def Rlp.toBytes_def del: encode.simps)
qed

lemma list_first_byte: "decode (RBytes (b # bs)) False = Inr (Plain (DList ds)) \<Longrightarrow> \<not> b \<le> 0x7f"
proof
  assume d: "decode (RBytes (b # bs)) False = Inr (Plain (DList ds))" and "b \<le> 0x7f"
  then have "unat b \<le> 0x7f" by (simp add: word_le_nat_alt)
  then show False using d by (auto simp: decode_def input_length_zero_def Rlp.toBytes_def rlp_decode.simps [of "b # bs"] split: if_splits)
qed

lemma all_right_Inr: "all_right (map Inr vs) = Inr vs"
  by (induction vs) simp_all

section \<open>A concrete chain\<close>

definition london_spec :: chain_spec where
  "london_spec = \<lparr>spec_hardforks = [
       \<lparr>hf_name = ''chainstart'', hf_block = Some 0, hf_timestamp = None\<rparr>,
       \<lparr>hf_name = ''london'', hf_block = Some 0, hf_timestamp = None\<rparr>], spec_chainId = 1, spec_chain = None\<rparr>"

definition london_config :: frozen_config where
  "london_config = fst (foldl add_hardfork (empty_config london_spec, [], 0) (spec_hardforks london_spec))"

lemma london_valid: "valid_config london_config"
proof -
  have "map (indexOf HARDFORK_ORDER) [''chainstart'', ''london''] = [0, 11]"
    by (simp add: HARDFORK_ORDER_def)
  then have "\<not> (\<exists>i\<in>set [0..<2]. \<exists>j\<in>set [0..<i]. misplaced [''chainstart'', ''london''] i j)"
    by (auto simp: misplaced_def Let_def numeral_2_eq_2 less_Suc_eq nth_Cons')
  then have "validateAndSetChainSchema london_spec = Inr london_config"
    by (simp add: validateAndSetChainSchema_def london_config_def london_spec_def)
  then show ?thesis unfolding valid_config_def by blast
qed

lemma london_eips: "hardfork_eips ''london'' = [1559, 3198, 3529, 3541]"
  unfolding hardfork_eips_def HARDFORK_EIPS_def HARDFORK_EIPS_entries_def
  by (simp_all only: table_lookup option.case)

lemma london_table: "cfg_spec london_config = london_spec" "cfg_hardforkIndex london_config ''london'' = Some 1"
  "cfg_cumulativeEips london_config ''london'' = Some [1, 1559, 3198, 3529, 3541]"
  by (simp_all add: london_config_def london_spec_def add_hardfork_def empty_config_def Let_def london_eips tiny_eips set_add_def)

end
