(* ===== verification/BlockHeader.thy ===== *)
theory BlockHeader
  imports Items
begin

text \<open>
  Block headers, \<open>packages/block/src/header-functional\<close>: their raw form, hash and serialisation, the checks a
  header passes when it is made from bytes (\<open>validation/header\<close> with the conversions of
  \<open>packages/schema\<close>), the gas limit rule, the base fee of EIP-1559, the blob gas price of EIP-4844 and the
  proof-of-work difficulty. The validation library only runs the checks; a failed one is a \<open>PlainError\<close>.
\<close>

section \<open>Headers\<close>

record header_data =
  bh_parentHash :: bytes
  bh_uncleHash :: bytes
  bh_coinbase :: bytes
  bh_stateRoot :: bytes
  bh_transactionsTrie :: bytes
  bh_receiptTrie :: bytes
  bh_logsBloom :: bytes
  bh_difficulty :: int
  bh_number :: int
  bh_gasLimit :: int
  bh_gasUsed :: int
  bh_timestamp :: int
  bh_extraData :: bytes
  bh_mixHash :: bytes
  bh_nonce :: bytes
  bh_baseFeePerGas :: "int option"
  bh_withdrawalsRoot :: "bytes option"
  bh_blobGasUsed :: "int option"
  bh_excessBlobGas :: "int option"
  bh_parentBeaconBlockRoot :: "bytes option"
  bh_requestsHash :: "bytes option"

record frozen_header =
  fh_data :: header_data
  fh_manager :: frozen_config
  fh_hash :: "bytes option"

record parent_header =
  ph_timestamp :: int
  ph_difficulty :: int
  ph_uncleHash :: bytes

definition KECCAK256_RLP_ARRAY :: bytes where
  "KECCAK256_RLP_ARRAY = [0x1d, 0xcc, 0x4d, 0xe8, 0xde, 0xc7, 0x5d, 0x7a, 0xab, 0x85, 0xb5, 0x67, 0xb6, 0xcc, 0xd4, 0x1a,
     0xd3, 0x12, 0x45, 0x1b, 0x94, 0x8a, 0x74, 0x13, 0xf0, 0xa1, 0x42, 0xfd, 0x40, 0xd4, 0x93, 0x47]"

section \<open>Parameters at a header\<close>

definition header_hardfork :: "frozen_header \<Rightarrow> string" where
  "header_hardfork h = manager_getHardforkByBlock (fh_manager h) (Some (bh_number (fh_data h))) (Some (bh_timestamp (fh_data h)))"

definition header_isEIPActive :: "frozen_header \<Rightarrow> nat \<Rightarrow> bool" where
  "header_isEIPActive h eip = isEIPActiveAtBlock (fh_manager h) eip (Some (bh_number (fh_data h), Some (bh_timestamp (fh_data h))))"

definition getPrevRandao :: "frozen_header \<Rightarrow> exn + bytes" where
  "getPrevRandao h = (if \<not> header_isEIPActive h 4399
     then Inl (PlainError ''prevRandao can only be accessed when EIP-4399 is activated'') else Inr (bh_mixHash (fh_data h)))"

definition getConsensusType :: "frozen_header \<Rightarrow> string" where
  "getConsensusType h = (case spec_chain (cfg_spec (fh_manager h)) of None \<Rightarrow> ''pow'' | Some c \<Rightarrow> consensus_type c)"

definition getConsensusAlgorithm :: "frozen_header \<Rightarrow> string" where
  "getConsensusAlgorithm h = (case spec_chain (cfg_spec (fh_manager h)) of None \<Rightarrow> ''ethash'' | Some c \<Rightarrow> consensus_algorithm c)"

section \<open>Gas limit\<close>

definition validateGasLimit :: "frozen_header \<Rightarrow> int \<Rightarrow> exn + unit" where
  "validateGasLimit h parentGasLimit =
     (let cfg = fh_manager h; d = fh_data h; hf = header_hardfork h;
          atLondon = (case hardforkBlock cfg ''london'' of Some b \<Rightarrow> b \<noteq> 0 \<and> bh_number d = b | None \<Rightarrow> False)
      in bindR (case getParamAtHardfork cfg ''elasticityMultiplier'' hf of
             Some v \<Rightarrow> if atLondon then bindR (to_bigint v) (\<lambda>n. Inr (parentGasLimit * n)) else Inr parentGasLimit
           | None \<Rightarrow> Inr parentGasLimit) (\<lambda>adjusted.
         bindR (bigint_div adjusted (as_bigint (getParamAtHardfork cfg ''gasLimitBoundDivisor'' hf) 0)) (\<lambda>a.
           if bh_gasLimit d \<ge> adjusted + a then Inl (PlainError ''gas limit increased too much'')
           else if bh_gasLimit d \<le> adjusted - a then Inl (PlainError ''gas limit decreased too much'')
           else if bh_gasLimit d < adjusted - a then Inl (PlainError ''gas limit below minimum'')
           else Inr ())))"

section \<open>Base fee (EIP-1559)\<close>

text \<open>Arithmetic with an absent base fee is a TypeError; with gas at the target it is returned as it is.\<close>

definition calcNextBaseFee :: "frozen_header \<Rightarrow> exn + int option" where
  "calcNextBaseFee h =
     (if \<not> header_isEIPActive h 1559 then Inl (PlainError ''calcNextBaseFee() requires EIP1559 activation'')
      else let cfg = fh_manager h; d = fh_data h; hf = header_hardfork h in
        bindR (bigint_div (bh_gasLimit d) (as_bigint (getParamAtHardfork cfg ''elasticityMultiplier'' hf) 0)) (\<lambda>parentGasTarget.
        if parentGasTarget = bh_gasUsed d then Inr (bh_baseFeePerGas d)
        else bindR (param_or cfg ''baseFeeMaxChangeDenominator'' hf 8) (\<lambda>denominator.
          case bh_baseFeePerGas d of None \<Rightarrow> Inl TypeError | Some fee \<Rightarrow>
            if bh_gasUsed d > parentGasTarget then
              bindR (bigint_div (fee * (bh_gasUsed d - parentGasTarget)) parentGasTarget) (\<lambda>q. bindR (bigint_div q denominator) (\<lambda>calc.
                Inr (Some ((if calc > 1 then calc else 1) + fee))))
            else
              bindR (bigint_div (fee * (parentGasTarget - bh_gasUsed d)) parentGasTarget) (\<lambda>q. bindR (bigint_div q denominator) (\<lambda>calc.
                let result = fee - calc in Inr (Some (if result > 0 then result else 0)))))))"

section \<open>Blob gas (EIP-4844)\<close>

text \<open>The loop of \<open>fakeExponential\<close>, with \<open>i = k + 1\<close>: the terms shrink as soon as \<open>i\<close> exceeds the numerator.\<close>

lemma abs_sdiv: "\<bar>a sdiv b\<bar> = \<bar>a\<bar> div \<bar>b\<bar>" for a b :: int
  by (auto simp: signed_divide_int_def sgn_mult abs_mult sgn_if div_int_pos_iff)

lemma div_lt: "0 < b \<Longrightarrow> a < c * b \<Longrightarrow> a div b < c" for a b c :: int
  using pos_mod_sign [of b a] minus_mod_eq_div_mult [of a b] mult_less_cancel_right [of "a div b" b c] by linarith

function fakeExponential_loop :: "int \<Rightarrow> int \<Rightarrow> nat \<Rightarrow> int \<Rightarrow> int \<Rightarrow> exn + int" where
  "fakeExponential_loop numerator denominator k acc out =
     (if acc > 0 then
        (if denominator * (int k + 1) = 0 then Inl RangeError
         else fakeExponential_loop numerator denominator (k + 1) ((acc * numerator) sdiv (denominator * (int k + 1))) (out + acc))
      else Inr out)"
  by auto
termination fakeExponential_loop
proof (relation "measures [\<lambda>(n, d, k, acc, out). nat \<bar>n\<bar> - k, \<lambda>(n, d, k, acc, out). nat acc]")
  fix n d acc out :: int and k :: nat
  assume acc: "0 < acc" and d: "d * (int k + 1) \<noteq> 0"
  have "nat ((acc * n) sdiv (d * (int k + 1))) < nat acc" if "nat \<bar>n\<bar> \<le> k"
  proof -
    have n: "\<bar>n\<bar> < \<bar>d * (int k + 1)\<bar>"
    proof -
      have "\<bar>n\<bar> < int k + 1" using that by linarith
      also have "\<dots> \<le> \<bar>d\<bar> * (int k + 1)" using d by (simp add: mult_le_cancel_right1)
      finally show ?thesis by (simp add: abs_mult)
    qed
    then have "acc * \<bar>n\<bar> < acc * \<bar>d * (int k + 1)\<bar>" using acc by simp
    then have "acc * \<bar>n\<bar> div \<bar>d * (int k + 1)\<bar> < acc" using n by (intro div_lt) auto
    then show ?thesis using abs_sdiv [of "acc * n" "d * (int k + 1)"] acc by (simp add: abs_mult)
  qed
  then show "((n, d, k + 1, (acc * n) sdiv (d * (int k + 1)), out + acc), n, d, k, acc, out)
      \<in> measures [\<lambda>(n, d, k, acc, out). nat \<bar>n\<bar> - k, \<lambda>(n, d, k, acc, out). nat acc]"
    by (cases "nat \<bar>n\<bar> \<le> k") auto
qed simp


definition fakeExponential :: "int \<Rightarrow> int \<Rightarrow> int \<Rightarrow> exn + int" where
  "fakeExponential factor numerator denominator =
     bindR (fakeExponential_loop numerator denominator 0 (factor * denominator) 0) (\<lambda>out. bigint_div out denominator)"

definition computeBlobGasPrice :: "int \<Rightarrow> frozen_config \<Rightarrow> string \<Rightarrow> exn + int" where
  "computeBlobGasPrice excessBlobGas cfg hf =
     bindR (param_or cfg ''minBlobGas'' hf 1) (\<lambda>factor.
     bindR (param_or cfg ''blobGasPriceUpdateFraction'' hf 3338477) (\<lambda>fraction.
       fakeExponential factor excessBlobGas fraction))"

definition getBlobGasPrice :: "frozen_header \<Rightarrow> exn + int" where
  "getBlobGasPrice h = (case bh_excessBlobGas (fh_data h) of
       None \<Rightarrow> Inl (PlainError ''excessBlobGas field not populated'')
     | Some excess \<Rightarrow> computeBlobGasPrice excess (fh_manager h) (header_hardfork h))"

definition calcDataFee :: "frozen_header \<Rightarrow> int \<Rightarrow> exn + int" where
  "calcDataFee h numBlobs =
     bindR (param_or (fh_manager h) ''blobGasPerBlob'' (header_hardfork h) 0) (\<lambda>perBlob.
     bindR (getBlobGasPrice h) (\<lambda>price. Inr (perBlob * numBlobs * price)))"

definition calcNextExcessBlobGas :: "frozen_header \<Rightarrow> string \<Rightarrow> exn + int" where
  "calcNextExcessBlobGas h childHardfork =
     (let cfg = fh_manager h; excess = option_or (bh_excessBlobGas (fh_data h)) 0; used = option_or (bh_blobGasUsed (fh_data h)) 0 in
      bindR (param_or cfg ''targetBlobGasPerBlock'' childHardfork 0) (\<lambda>target.
      bindR (param_or cfg ''maxBlobGasPerBlock'' childHardfork 0) (\<lambda>maxGas.
        if excess + used < target then Inr 0
        else bindR (if isEIPActiveAtHardfork cfg 7918 childHardfork then
            bindR (param_or cfg ''blobBaseCost'' childHardfork 0) (\<lambda>blobBaseCost.
            bindR (param_or cfg ''blobGasPerBlob'' childHardfork 0) (\<lambda>gasPerBlob.
            bindR (getBlobGasPrice h) (\<lambda>blobFee.
              if blobBaseCost * option_or (bh_baseFeePerGas (fh_data h)) 0 > gasPerBlob * blobFee
              then bindR (bigint_div (used * (maxGas - target)) maxGas) (\<lambda>increase. Inr (Some (excess + increase)))
              else Inr None)))
          else Inr None) (\<lambda>early. case early of Some v \<Rightarrow> Inr v | None \<Rightarrow> Inr (excess + used - target)))))"

definition calcNextBlobGasPrice :: "frozen_header \<Rightarrow> string \<Rightarrow> exn + int" where
  "calcNextBlobGasPrice h childHardfork =
     bindR (calcNextExcessBlobGas h childHardfork) (\<lambda>excess. computeBlobGasPrice excess (fh_manager h) childHardfork)"

section \<open>Difficulty\<close>

definition ethashCanonicalDifficulty :: "frozen_header \<Rightarrow> parent_header option \<Rightarrow> exn + int" where
  "ethashCanonicalDifficulty h parent = (case parent of
       None \<Rightarrow> Inr (bh_difficulty (fh_data h))
     | Some p \<Rightarrow>
         if getConsensusAlgorithm h \<noteq> ''ethash'' then Inr (bh_difficulty (fh_data h))
         else if getConsensusType h \<noteq> ''pow'' then Inl (PlainError ''difficulty calculation only supported on PoW chains'')
         else let cfg = fh_manager h; d = fh_data h; hf = header_hardfork h; params = getParamsAtHardfork cfg hf;
                elapsed = bh_timestamp d - ph_timestamp p in
           bindR (value_or (params ''minimumDifficulty'') 0) (\<lambda>minimumDifficulty.
           bindR (value_or (params ''difficultyBoundDivisor'') 0) (\<lambda>divisor.
           bindR (bigint_div (ph_difficulty p) divisor) (\<lambda>offset.
           bindR (if hardforkGte cfg hf ''byzantium'' then
                bindR (value_or (params ''difficultyBombDelay'') 0) (\<lambda>delay.
                  let a = (if equalsBytes (ph_uncleHash p) KECCAK256_RLP_ARRAY then 1 else 2) - elapsed sdiv 9;
                      n = bh_number d - delay
                  in Inr (ph_difficulty p + offset * (if - 99 > a then - 99 else a), if n < 0 then 0 else n))
              else if hardforkGte cfg hf ''homestead'' then
                (let a = 1 - elapsed sdiv 10 in Inr (ph_difficulty p + offset * (if - 99 > a then - 99 else a), bh_number d))
              else bindR (value_or (params ''durationLimit'') 13) (\<lambda>durationLimit.
                Inr (if ph_timestamp p + durationLimit > bh_timestamp d then offset + ph_difficulty p else ph_difficulty p - offset, bh_number d)))
             (\<lambda>(dif, num). let e = num sdiv 100000 - 2;
                dif1 = (if e \<ge> 0 then dif + 2 ^ nat e else dif)
              in Inr (if dif1 < minimumDifficulty then minimumDifficulty else dif1))))))"

definition isGenesis :: "frozen_header \<Rightarrow> bool" where
  "isGenesis h \<longleftrightarrow> bh_number (fh_data h) = 0"

section \<open>Raw form, hash and serialisation\<close>

text \<open>An absent field of an active EIP goes in as undefined, which encodes like an empty byte array, or makes the
  conversion of a number a TypeError.\<close>

definition opt_bytes_item :: "bytes option \<Rightarrow> rlp_input" where
  "opt_bytes_item v = (case v of None \<Rightarrow> RNull | Some b \<Rightarrow> RBytes b)"

definition opt_int_item :: "externals \<Rightarrow> int option \<Rightarrow> exn + rlp_input" where
  "opt_int_item x v = (case v of None \<Rightarrow> Inl TypeError | Some n \<Rightarrow> int_item x n)"

definition toRaw :: "externals \<Rightarrow> frozen_header \<Rightarrow> exn + rlp_input list" where
  "toRaw x h = (let d = fh_data h in all_right (
     [Inr (RBytes (bh_parentHash d)), Inr (RBytes (bh_uncleHash d)), Inr (RBytes (bh_coinbase d)), Inr (RBytes (bh_stateRoot d)),
      Inr (RBytes (bh_transactionsTrie d)), Inr (RBytes (bh_receiptTrie d)), Inr (RBytes (bh_logsBloom d)),
      int_item x (bh_difficulty d), int_item x (bh_number d), int_item x (bh_gasLimit d), int_item x (bh_gasUsed d),
      int_item x (bh_timestamp d), Inr (RBytes (bh_extraData d)), Inr (RBytes (bh_mixHash d)), Inr (RBytes (bh_nonce d))]
     @ (if header_isEIPActive h 1559 then [opt_int_item x (bh_baseFeePerGas d)] else [])
     @ (if header_isEIPActive h 4895 then [Inr (opt_bytes_item (bh_withdrawalsRoot d))] else [])
     @ (if header_isEIPActive h 4844 then [opt_int_item x (bh_blobGasUsed d), opt_int_item x (bh_excessBlobGas d)] else [])
     @ (if header_isEIPActive h 4788 then [Inr (opt_bytes_item (bh_parentBeaconBlockRoot d))] else [])
     @ (if header_isEIPActive h 7685 then [Inr (opt_bytes_item (bh_requestsHash d))] else [])))"

definition serialize_header :: "externals \<Rightarrow> frozen_header \<Rightarrow> exn + bytes" where
  "serialize_header x h = bindR (toRaw x h) (\<lambda>items. encode (RArray items))"

definition computeHash :: "externals \<Rightarrow> frozen_header \<Rightarrow> exn + bytes" where
  "computeHash x h = bindR (serialize_header x h) (\<lambda>bs. Inr (keccak256 x bs))"

definition getHash :: "externals \<Rightarrow> frozen_header \<Rightarrow> exn + bytes" where
  "getHash x h = (case fh_hash h of Some v \<Rightarrow> Inr v | None \<Rightarrow> computeHash x h)"

section \<open>Making headers\<close>

text \<open>\<open>zFlexibleType\<close> on a decoded field (a byte array, or a list if the input is malformed) or undefined.\<close>

definition zBytes :: "nat option \<Rightarrow> bytes \<Rightarrow> rlp_data option \<Rightarrow> exn + bytes" where
  "zBytes byteLength defaultValue v =
     bindR (case v of None \<Rightarrow> Inr defaultValue | Some (DBytes b) \<Rightarrow> Inr b | Some (DList _) \<Rightarrow> Inl (PlainError ''Invalid input'')) (\<lambda>b.
       if (case byteLength of None \<Rightarrow> False | Some n \<Rightarrow> length b \<noteq> n \<and> length b > 0) then Inl (PlainError ''Expected bytes'') else Inr b)"

definition zBigInt :: "externals \<Rightarrow> int \<Rightarrow> rlp_data option \<Rightarrow> exn + int" where
  "zBigInt x defaultValue v =
     bindR (case v of None \<Rightarrow> bigIntToBytes x defaultValue | Some (DBytes b) \<Rightarrow> Inr b | Some (DList _) \<Rightarrow> Inl (PlainError ''Invalid input''))
       (\<lambda>b. Inr (bytesToBigInt x b))"

definition zAddress :: "rlp_data option \<Rightarrow> exn + bytes" where
  "zAddress v = (case v of None \<Rightarrow> Inr (replicate 20 0)
     | Some (DBytes b) \<Rightarrow> if length b = 20 then Inr b else Inl (PlainError ''Invalid address'')
     | Some (DList _) \<Rightarrow> Inl (PlainError ''Invalid address''))"

text \<open>A field of an EIP: required (with a default) when the EIP is active, forbidden otherwise.\<close>

definition when_active :: "bool \<Rightarrow> (rlp_data option \<Rightarrow> exn + 'a) \<Rightarrow> rlp_data option \<Rightarrow> exn + 'a option" where
  "when_active active parse v = (if active then bindR (parse v) (\<lambda>a. Inr (Some a))
     else if v = None then Inr None else Inl (PlainError ''field cannot be set before its EIP''))"

text \<open>\<open>valuesArrayToHeaderData\<close>: positions beyond the end are undefined.\<close>

definition value_at :: "rlp_data list \<Rightarrow> nat \<Rightarrow> rlp_data option" where
  "value_at vs i = (if i < length vs then Some (vs ! i) else None)"

definition check_length :: "rlp_data list \<Rightarrow> exn + unit" where
  "check_length vs = (if length vs > 21 then Inl (PlainError ''invalid header. More values than expected were received'')
     else if length vs < 15 then Inl (PlainError ''invalid header. Less values than expected were received'') else Inr ())"


text \<open>The checks on the fields of a header at its block (\<open>validateBlockHeader\<close>). The default of the base fee is
  that of the London block only when the given number is a bigint, which a byte array is not.\<close>

definition validate_fields :: "externals \<Rightarrow> bytes \<Rightarrow> frozen_config \<Rightarrow> rlp_data list \<Rightarrow> exn + header_data" where
  "validate_fields x sha256_null cfg vs = (let v = value_at vs in
     bindR (zBigInt x 0 (v 8)) (\<lambda>number.
     bindR (case v 11 of None \<Rightarrow> Inr None | t \<Rightarrow> map_sum id Some (zBigInt x 0 t)) (\<lambda>time.
     let active = (\<lambda>eip. isEIPActiveAtBlock cfg eip (Some (number, time))) in
     bindR (zBytes (Some 32) (replicate 32 0) (v 0)) (\<lambda>parentHash.
     bindR (zBytes (Some 32) KECCAK256_RLP_ARRAY (v 1)) (\<lambda>uncleHash.
     bindR (zAddress (v 2)) (\<lambda>coinbase.
     bindR (zBytes (Some 32) (replicate 32 0) (v 3)) (\<lambda>stateRoot.
     bindR (zBytes (Some 32) KECCAK256_RLP (v 4)) (\<lambda>transactionsTrie.
     bindR (zBytes (Some 32) KECCAK256_RLP (v 5)) (\<lambda>receiptTrie.
     bindR (zBytes (Some 256) (replicate 256 0) (v 6)) (\<lambda>logsBloom.
     bindR (zBigInt x 0 (v 7)) (\<lambda>difficulty.
     bindR (zBigInt x 0xffffffffffffff (v 9)) (\<lambda>gasLimit.
     bindR (zBigInt x 0 (v 10)) (\<lambda>gasUsed.
     bindR (zBigInt x 0 (v 11)) (\<lambda>timestamp.
     bindR (zBytes None [] (v 12)) (\<lambda>extraData.
     bindR (zBytes (Some 32) (replicate 32 0) (v 13)) (\<lambda>mixHash.
     bindR (zBytes (Some 8) (replicate 8 0) (v 14)) (\<lambda>nonce.
     bindR (when_active (active 1559) (zBigInt x 7) (v 15)) (\<lambda>baseFeePerGas.
     bindR (when_active (active 4895) (zBytes (Some 32) KECCAK256_RLP) (v 16)) (\<lambda>withdrawalsRoot.
     bindR (when_active (active 4844) (zBigInt x 0) (v 17)) (\<lambda>blobGasUsed.
     bindR (when_active (active 4844) (zBigInt x 0) (v 18)) (\<lambda>excessBlobGas.
     bindR (when_active (active 4788) (zBytes (Some 32) (replicate 32 0)) (v 19)) (\<lambda>parentBeaconBlockRoot.
     bindR (when_active (active 7685) (zBytes (Some 32) sha256_null) (v 20)) (\<lambda>requestsHash.
       Inr \<lparr>bh_parentHash = parentHash, bh_uncleHash = uncleHash, bh_coinbase = coinbase, bh_stateRoot = stateRoot,
         bh_transactionsTrie = transactionsTrie, bh_receiptTrie = receiptTrie, bh_logsBloom = logsBloom, bh_difficulty = difficulty,
         bh_number = number, bh_gasLimit = gasLimit, bh_gasUsed = gasUsed, bh_timestamp = timestamp, bh_extraData = extraData,
         bh_mixHash = mixHash, bh_nonce = nonce, bh_baseFeePerGas = baseFeePerGas, bh_withdrawalsRoot = withdrawalsRoot,
         bh_blobGasUsed = blobGasUsed, bh_excessBlobGas = excessBlobGas, bh_parentBeaconBlockRoot = parentBeaconBlockRoot,
         bh_requestsHash = requestsHash\<rparr>)))))))))))))))))))))))"

text \<open>The rules across fields.\<close>

definition check_fields :: "frozen_config \<Rightarrow> bool \<Rightarrow> header_data \<Rightarrow> exn + unit" where
  "check_fields cfg validateConsensus d =
     (if bh_gasUsed d > bh_gasLimit d then Inl (PlainError ''gasUsed exceeds gasLimit'')
      else if (case (bh_baseFeePerGas d, hardforkBlock cfg ''london'') of
            (Some fee, Some london) \<Rightarrow> london \<noteq> 0 \<and> bh_number d = london
              \<and> (case getParamAtHardfork cfg ''initialBaseFee'' ''london'' of Some (PBig n) \<Rightarrow> fee \<noteq> n | _ \<Rightarrow> True)
          | _ \<Rightarrow> False)
      then Inl (PlainError ''Initial EIP-1559 block must have the initial baseFeePerGas'')
      else if \<not> validateConsensus then Inr ()
      else bindR (param_or cfg ''maxExtraDataSize'' (manager_getHardforkByBlock cfg (Some (bh_number d)) None) 32) (\<lambda>maxExtraDataSize.
        if (case spec_chain (cfg_spec cfg) of None \<Rightarrow> ''ethash'' | Some c \<Rightarrow> consensus_algorithm c) = ''ethash''
           \<and> bh_number d > 0 \<and> int (length (bh_extraData d)) > maxExtraDataSize
        then Inl (PlainError ''invalid amount of extra data'') else Inr ()))"

definition validateBlockHeader :: "externals \<Rightarrow> bytes \<Rightarrow> frozen_config \<Rightarrow> bool \<Rightarrow> rlp_data list \<Rightarrow> exn + header_data" where
  "validateBlockHeader x sha256_null cfg validateConsensus vs =
     bindR (validate_fields x sha256_null cfg vs) (\<lambda>d. bindR (check_fields cfg validateConsensus d) (\<lambda>_. Inr d))"

record header_opts =
  ho_manager :: frozen_config
  ho_calcDifficulty :: "parent_header option"
  ho_skipConsensus :: bool
  ho_freeze :: bool

definition fromHeaderData :: "externals \<Rightarrow> bytes \<Rightarrow> header_opts \<Rightarrow> rlp_data list \<Rightarrow> exn + frozen_header" where
  "fromHeaderData x sha256_null opts vs =
     bindR (validateBlockHeader x sha256_null (ho_manager opts) (\<not> ho_skipConsensus opts) vs) (\<lambda>d.
     let h0 = \<lparr>fh_data = d, fh_manager = ho_manager opts, fh_hash = None\<rparr> in
     bindR (ethashCanonicalDifficulty h0 (ho_calcDifficulty opts)) (\<lambda>difficulty.
     let h1 = h0\<lparr>fh_data := d\<lparr>bh_difficulty := difficulty\<rparr>\<rparr> in
     if ho_freeze opts then bindR (computeHash x h1) (\<lambda>hash. Inr (h1\<lparr>fh_hash := Some hash\<rparr>)) else Inr h1))"

definition london_check :: "externals \<Rightarrow> frozen_header \<Rightarrow> rlp_data list \<Rightarrow> exn + unit" where
  "london_check x h vs =
     (if header_isEIPActive h 1559 \<and> value_at vs 15 = None then
        (case hardforkBlock (fh_manager h) ''london'' of None \<Rightarrow> Inl TypeError
         | Some b \<Rightarrow> bindR (bigIntToBytes x b) (\<lambda>bs.
             if value_at vs 8 = Some (DBytes bs) then Inl (PlainError ''invalid header. baseFeePerGas should be provided'') else Inr ()))
      else Inr ())"

definition fromBytesArray :: "externals \<Rightarrow> bytes \<Rightarrow> header_opts \<Rightarrow> rlp_data list \<Rightarrow> exn + frozen_header" where
  "fromBytesArray x sha256_null opts vs =
     bindR (check_length vs) (\<lambda>_.
     bindR (fromHeaderData x sha256_null opts vs) (\<lambda>h.
     bindR (london_check x h vs) (\<lambda>_.
       if header_isEIPActive h 4844 \<and> value_at vs 18 = None then Inl (PlainError ''invalid header. excessBlobGas should be provided'')
       else if header_isEIPActive h 4844 \<and> value_at vs 17 = None then Inl (PlainError ''invalid header. blobGasUsed should be provided'')
       else if header_isEIPActive h 4788 \<and> value_at vs 19 = None then Inl (PlainError ''invalid header. parentBeaconBlockRoot should be provided'')
       else if header_isEIPActive h 7685 \<and> value_at vs 20 = None then Inl (PlainError ''invalid header. requestsHash should be provided'')
       else Inr h)))"

definition fromRLP :: "externals \<Rightarrow> bytes \<Rightarrow> header_opts \<Rightarrow> bytes \<Rightarrow> exn + frozen_header" where
  "fromRLP x sha256_null opts bs =
     bindR (decode (RBytes bs) False) (\<lambda>d. case d of
         Plain (DList vs) \<Rightarrow> fromBytesArray x sha256_null opts vs
       | _ \<Rightarrow> Inl (PlainError ''Invalid serialized header input. Must be array''))"


section \<open>Blob prices\<close>

text \<open>The first \<open>m\<close> terms of the expansion, from the term \<open>acc\<close> on.\<close>

fun partial_sum :: "int \<Rightarrow> int \<Rightarrow> nat \<Rightarrow> int \<Rightarrow> nat \<Rightarrow> int" where
  "partial_sum n d k acc 0 = 0"
| "partial_sum n d k acc (Suc m) = acc + partial_sum n d (k + 1) ((acc * n) div (d * (int k + 1))) m"

lemma partial_sum_zero [simp]: "partial_sum n d k 0 m = 0"
  by (induction m arbitrary: k) simp_all

lemma partial_sum_nonneg: "0 \<le> n \<Longrightarrow> 0 < d \<Longrightarrow> 0 \<le> acc \<Longrightarrow> 0 \<le> partial_sum n d k acc m"
  by (induction m arbitrary: k acc) (simp_all add: div_int_pos_iff zero_le_mult_iff)

lemma term_mono: "0 \<le> n \<Longrightarrow> n \<le> n' \<Longrightarrow> 0 < d \<Longrightarrow> 0 \<le> acc \<Longrightarrow> acc \<le> acc' \<Longrightarrow>
    (acc * n) div (d * (int k + 1)) \<le> (acc' * n') div (d * (int k + 1))"
  by (intro zdiv_mono1 mult_mono) auto

lemma partial_sum_mono: "0 \<le> n \<Longrightarrow> n \<le> n' \<Longrightarrow> 0 < d \<Longrightarrow> 0 \<le> acc \<Longrightarrow> acc \<le> acc' \<Longrightarrow> partial_sum n d k acc m \<le> partial_sum n' d k acc' m"
proof (induction m arbitrary: k acc acc')
  case (Suc m)
  have "0 \<le> (acc * n) div (d * (int k + 1))" using Suc.prems by (simp add: div_int_pos_iff zero_le_mult_iff)
  then have "partial_sum n d (k + 1) ((acc * n) div (d * (int k + 1))) m \<le> partial_sum n' d (k + 1) ((acc' * n') div (d * (int k + 1))) m"
    using term_mono [OF Suc.prems] Suc.prems by (intro Suc.IH) auto
  then show ?case using Suc.prems(5) by simp
qed simp

declare fakeExponential_loop.simps [simp del]

lemma loop_sum:
  "0 \<le> n \<Longrightarrow> 0 < d \<Longrightarrow> 0 \<le> acc \<Longrightarrow> \<exists>N. \<forall>m\<ge>N. fakeExponential_loop n d k acc out = Inr (out + partial_sum n d k acc m)"
proof (induction n d k acc out rule: fakeExponential_loop.induct)
  case (1 n d k acc out)
  show ?case
  proof (cases "acc > 0")
    case True
    have d: "d * (int k + 1) \<noteq> 0" using 1(3) by simp
    have eq: "(acc * n) sdiv (d * (int k + 1)) = (acc * n) div (d * (int k + 1))"
      using 1(2-4) by (intro sdiv_eq_div) auto
    have "0 \<le> (acc * n) div (d * (int k + 1))" using 1(2-4) by (simp add: div_int_pos_iff zero_le_mult_iff)
    then obtain N where N: "\<forall>m\<ge>N. fakeExponential_loop n d (k + 1) ((acc * n) div (d * (int k + 1))) (out + acc)
        = Inr (out + acc + partial_sum n d (k + 1) ((acc * n) div (d * (int k + 1))) m)"
      using 1(1) [OF True d] 1(2,3) eq by auto
    have "fakeExponential_loop n d k acc out = Inr (out + partial_sum n d k acc m)" if "m \<ge> Suc N" for m
      using that N True d by (cases m) (auto simp: fakeExponential_loop.simps [of n d k acc] eq add.assoc)
    then show ?thesis by blast
  next
    case False
    then have "acc = 0" using 1(4) by simp
    then show ?thesis by (auto simp: fakeExponential_loop.simps)
  qed
qed

lemma fakeExponential_sum:
  assumes "0 \<le> n" "0 < d" "0 \<le> f"
  shows "\<exists>N. \<forall>m\<ge>N. fakeExponential f n d = Inr (partial_sum n d 0 (f * d) m div d)"
proof -
  obtain N where N: "\<forall>m\<ge>N. fakeExponential_loop n d 0 (f * d) 0 = Inr (0 + partial_sum n d 0 (f * d) m)"
    using loop_sum [of n d "f * d" 0 0] assms by auto
  have "fakeExponential f n d = Inr (partial_sum n d 0 (f * d) m div d)" if "m \<ge> N" for m
    using N that assms partial_sum_nonneg [of n d "f * d" 0 m]
    by (auto simp: fakeExponential_def bigint_div_def sdiv_eq_div)
  then show ?thesis by blast
qed

lemma fakeExponential_bounds:
  assumes "0 \<le> n" "n \<le> n'" "0 < d" "0 \<le> f"
  shows "\<exists>p p'. fakeExponential f n d = Inr p \<and> fakeExponential f n' d = Inr p' \<and> f + (f * n) div d \<le> p \<and> p \<le> p'"
proof -
  obtain N N' where N: "\<forall>m\<ge>N. fakeExponential f n d = Inr (partial_sum n d 0 (f * d) m div d)"
    "\<forall>m\<ge>N'. fakeExponential f n' d = Inr (partial_sum n' d 0 (f * d) m div d)"
    using fakeExponential_sum [of n d f] fakeExponential_sum [of n' d f] assms by auto
  define m where "m = Suc (Suc (max N N'))"
  have m: "N \<le> m" "N' \<le> m" by (simp_all add: m_def)
  have "partial_sum n d 0 (f * d) m div d \<le> partial_sum n' d 0 (f * d) m div d"
    using assms by (intro zdiv_mono1 partial_sum_mono) auto
  moreover have "f + (f * n) div d \<le> partial_sum n d 0 (f * d) m div d"
  proof -
    have "0 \<le> (f * d * n) div d" "0 \<le> ((f * d * n) div d * n) div (d * 2)" using assms by (simp_all add: div_int_pos_iff zero_le_mult_iff)
    then have "f * d + f * n \<le> partial_sum n d 0 (f * d) m"
      using partial_sum_nonneg [of n d "((f * d * n) div d * n) div (d * 2)" 2 "max N N'"] assms
      by (simp add: m_def algebra_simps numeral_2_eq_2)
    then have "(f * d + f * n) div d \<le> partial_sum n d 0 (f * d) m div d" using assms by (intro zdiv_mono1) auto
    then show ?thesis using assms(3) by simp
  qed
  ultimately show ?thesis using N m by blast
qed

lemma fakeExponential_zero: "0 < d \<Longrightarrow> 0 \<le> f \<Longrightarrow> fakeExponential f 0 d = Inr f"
proof -
  assume a: "0 < d" "0 \<le> f"
  then obtain N where N: "\<forall>m\<ge>N. fakeExponential f 0 d = Inr (partial_sum 0 d 0 (f * d) m div d)" using fakeExponential_sum [of 0 d f] by auto
  have "fakeExponential f 0 d = Inr (partial_sum 0 d 0 (f * d) (Suc N) div d)" by (rule N [rule_format]) simp
  then show ?thesis using a by simp
qed

section \<open>The fee rules\<close>

definition fee_value :: "string \<times> param_value \<Rightarrow> bool" where
  "fee_value e \<longleftrightarrow> (fst e = ''minBlobGas'' \<longrightarrow> snd e = PBig 1) \<and> (fst e = ''elasticityMultiplier'' \<longrightarrow> snd e = PBig 2)
     \<and> (fst e = ''baseFeeMaxChangeDenominator'' \<longrightarrow> snd e = PBig 8)
     \<and> (fst e = ''blobGasPriceUpdateFraction'' \<longrightarrow> snd e = PBig 3338477 \<or> snd e = PBig 5007716)"

lemma fee_tables: "list_all (\<lambda>(eip, ps). list_all fee_value ps) EIP_PARAMS_entries" "list_all fee_value EIP1_PARAMS"
  by (simp_all add: EIP_PARAMS_entries_def param_tables fee_value_def)

lemma fee_params: "getParamAtHardfork cfg name hf = Some p \<Longrightarrow> fee_value (name, p)"
  using getParam_in_tables [of cfg name hf p] fee_tables by (fastforce simp: list_all_iff)

lemma update_fraction: "\<exists>q. param_or cfg ''blobGasPriceUpdateFraction'' hf 3338477 = Inr q \<and> (q = 3338477 \<or> q = 5007716)"
  using fee_params [of cfg "''blobGasPriceUpdateFraction''" hf]
  by (cases "getParamAtHardfork cfg ''blobGasPriceUpdateFraction'' hf") (auto simp: param_or_def value_or_def fee_value_def)

text \<open>C33: The blob gas price is the exponential of the excess over the update fraction that the chain has at the hardfork:
  for every excess it is the sum of the (rounded) terms of the series, of which all from some point on are zero. It is never below
  the minimum of one, is that minimum at no excess, grows with the excess, and is at least what the first two terms say.\<close>

theorem blob_gas_price_bounds:
  assumes "0 \<le> excess" "excess \<le> excess'" and q: "param_or cfg ''blobGasPriceUpdateFraction'' hf 3338477 = Inr q"
  shows "(q = 3338477 \<or> q = 5007716) \<and> (\<exists>p p'. computeBlobGasPrice excess cfg hf = Inr p \<and> computeBlobGasPrice excess' cfg hf = Inr p'
    \<and> (\<exists>N. \<forall>m\<ge>N. p = partial_sum excess q 0 q m div q)
    \<and> 1 + excess div q \<le> p \<and> p \<le> p' \<and> computeBlobGasPrice 0 cfg hf = Inr 1)"
proof -
  have factor: "param_or cfg ''minBlobGas'' hf 1 = Inr 1"
    using fee_params [of cfg "''minBlobGas''" hf] by (auto simp: param_or_def value_or_def fee_value_def split: option.split)
  have val: "q = 3338477 \<or> q = 5007716" using update_fraction [of cfg hf] q by auto
  then have pos: "0 < q" by auto
  obtain N where N: "\<forall>m\<ge>N. fakeExponential 1 excess q = Inr (partial_sum excess q 0 q m div q)"
    using fakeExponential_sum [OF assms(1) pos, of 1] by auto
  obtain p p' where p: "fakeExponential 1 excess q = Inr p" "fakeExponential 1 excess' q = Inr p'" "1 + excess div q \<le> p" "p \<le> p'"
    using fakeExponential_bounds [OF assms(1,2) pos, of 1] by auto
  have "\<forall>m\<ge>N. p = partial_sum excess q 0 q m div q" using N p(1) by simp
  then show ?thesis using p val fakeExponential_zero [OF pos, of 1] by (auto simp: computeBlobGasPrice_def factor q)
qed

theorem blob_gas_price_bounds_witness:
  "\<exists>p p'. computeBlobGasPrice 10 tiny_config ''shanghai'' = Inr p \<and> computeBlobGasPrice 6000000 tiny_config ''shanghai'' = Inr p' \<and> 1 \<le> p
     \<and> computeBlobGasPrice 6000000 tiny_config ''shanghai'' \<noteq> Inr 1"
proof -
  obtain q where q: "param_or tiny_config ''blobGasPriceUpdateFraction'' ''shanghai'' 3338477 = Inr q" "q = 3338477 \<or> q = 5007716"
    using update_fraction by blast
  obtain p p' where "computeBlobGasPrice 10 tiny_config ''shanghai'' = Inr p" "computeBlobGasPrice 6000000 tiny_config ''shanghai'' = Inr p'"
    "1 + 10 div q \<le> p" using blob_gas_price_bounds [OF _ _ q(1), of 10 6000000] by auto
  moreover obtain n where "computeBlobGasPrice 6000000 tiny_config ''shanghai'' = Inr n" "1 + 6000000 div q \<le> n"
    using blob_gas_price_bounds [OF _ _ q(1), of 6000000 6000000] by auto
  ultimately show ?thesis using q(2) by auto
qed

lemma header_eip: "header_isEIPActive h eip \<Longrightarrow> isEIPActiveAtHardfork (fh_manager h) eip (header_hardfork h)"
  by (auto simp: header_isEIPActive_def isEIPActiveAtBlock_def header_hardfork_def manager_getHardforkByBlock_def Let_def split: if_splits)

lemma eip1559_params:
  assumes "valid_config (fh_manager h)" "header_isEIPActive h 1559"
  shows "getParamAtHardfork (fh_manager h) ''elasticityMultiplier'' (header_hardfork h) = Some (PBig 2)"
    "getParamAtHardfork (fh_manager h) ''baseFeeMaxChangeDenominator'' (header_hardfork h) = Some (PBig 8)"
proof -
  have table: "\<exists>ps. EIP_PARAMS 1559 = Some ps \<and> map_of ps ''elasticityMultiplier'' \<noteq> None \<and> map_of ps ''baseFeeMaxChangeDenominator'' \<noteq> None"
    by (simp add: EIP_PARAMS_def EIP_PARAMS_entries_def param_tables)
  then have "getParamAtHardfork (fh_manager h) ''elasticityMultiplier'' (header_hardfork h) \<noteq> None"
    "getParamAtHardfork (fh_manager h) ''baseFeeMaxChangeDenominator'' (header_hardfork h) \<noteq> None"
    using getParam_active [OF assms(1) header_eip [OF assms(2)]] by blast+
  then show "getParamAtHardfork (fh_manager h) ''elasticityMultiplier'' (header_hardfork h) = Some (PBig 2)"
    "getParamAtHardfork (fh_manager h) ''baseFeeMaxChangeDenominator'' (header_hardfork h) = Some (PBig 8)"
    using fee_params [of "fh_manager h"] by (fastforce simp: fee_value_def)+
qed

text \<open>C32: The base fee of EIP-1559 follows the use of gas: where the EIP is active, for a block that used no more than its gas
  limit, gas at the target (half the limit, rounded down) leaves the fee alone, more raises the fee by at least one, less never
  raises it; the fee stays non-negative and moves by at most an eighth, or by one when an eighth is less than one. An odd
  limit allows one unit of gas beyond twice the target: such a block may raise the fee by the share of that unit
  more, an eighth of \<open>fee + fee div target\<close>.\<close>

theorem base_fee_bounds:
  assumes "valid_config (fh_manager h)" "header_isEIPActive h 1559" "bh_baseFeePerGas (fh_data h) = Some fee" "0 \<le> fee"
    and target: "target = bh_gasLimit (fh_data h) div 2" "0 < target" "0 \<le> bh_gasUsed (fh_data h)" "bh_gasUsed (fh_data h) \<le> bh_gasLimit (fh_data h)"
  shows "\<exists>fee'. calcNextBaseFee h = Inr (Some fee') \<and> 0 \<le> fee'
    \<and> (bh_gasUsed (fh_data h) = target \<longrightarrow> fee' = fee)
    \<and> (bh_gasUsed (fh_data h) > target \<longrightarrow> fee < fee' \<and> fee' \<le> fee + max 1 ((fee + fee div target) div 8))
    \<and> (bh_gasUsed (fh_data h) > target \<and> bh_gasUsed (fh_data h) \<le> 2 * target \<longrightarrow> fee' \<le> fee + max 1 (fee div 8))
    \<and> (bh_gasUsed (fh_data h) < target \<longrightarrow> fee' \<le> fee \<and> fee - fee div 8 \<le> fee')"
proof -
  let ?used = "bh_gasUsed (fh_data h)"
  have elasticity: "bigint_div (bh_gasLimit (fh_data h)) 2 = Inr target" using target(1,2) by (simp add: bigint_div_def sdiv_eq_div)
  have share: "0 \<le> (fee * delta) div target div 8 \<and> (fee * delta) div target div 8 \<le> (fee + fee div target) div 8
      \<and> (delta \<le> target \<longrightarrow> (fee * delta) div target div 8 \<le> fee div 8)
      \<and> bigint_div (fee * delta) target = Inr ((fee * delta) div target)
      \<and> bigint_div ((fee * delta) div target) 8 = Inr ((fee * delta) div target div 8)" if "0 \<le> delta" "delta \<le> target + 1" for delta
  proof -
    have "fee * delta \<le> fee * (target + 1)" using that assms(4) by (intro mult_left_mono) auto
    then have "(fee * delta) div target \<le> (fee + fee * target) div target" using target(2) by (intro zdiv_mono1) (simp_all add: algebra_simps)
    then have more: "(fee * delta) div target \<le> fee + fee div target" using target(2) by simp
    have "(fee * delta) div target \<le> fee" if "delta \<le> target"
    proof -
      have "fee * delta \<le> fee * target" using that assms(4) by (intro mult_left_mono) auto
      then show ?thesis using target(2) zdiv_mono1 [of "fee * delta" "fee * target" target] by simp
    qed
    moreover have "0 \<le> fee * delta" using that assms(4) by simp
    moreover from this have "0 \<le> (fee * delta) div target" using target(2) by (simp add: pos_imp_zdiv_nonneg_iff)
    ultimately show ?thesis using target(2) more by (auto simp: bigint_div_def sdiv_eq_div pos_imp_zdiv_nonneg_iff intro: zdiv_mono1)
  qed
  have le: "fee div 8 \<le> fee" using assms(4) by simp
  note run = calcNextBaseFee_def eip1559_params [OF assms(1,2)] as_bigint_def param_or_def value_or_def assms(2,3) Let_def elasticity
  consider "?used = target" | "?used > target" | "?used < target" by linarith
  then show ?thesis
  proof cases
    case 2
    have "?used - target \<le> target + 1" using target(1,4) by linarith
    then show ?thesis using 2 share [of "?used - target"] assms(4) by (auto simp: run)
  next
    case 3
    then show ?thesis using share [of "target - ?used"] target(3) assms(4) le by (auto simp: run)
  qed (simp add: run assms(4))
qed

definition sample_header_data :: header_data where
  "sample_header_data = \<lparr>bh_parentHash = replicate 32 1, bh_uncleHash = KECCAK256_RLP_ARRAY, bh_coinbase = replicate 20 2,
     bh_stateRoot = replicate 32 3, bh_transactionsTrie = KECCAK256_RLP, bh_receiptTrie = KECCAK256_RLP, bh_logsBloom = replicate 256 0,
     bh_difficulty = 0, bh_number = 7, bh_gasLimit = 1000, bh_gasUsed = 900, bh_timestamp = 70, bh_extraData = [], bh_mixHash = replicate 32 4,
     bh_nonce = replicate 8 0, bh_baseFeePerGas = Some 100, bh_withdrawalsRoot = None, bh_blobGasUsed = None, bh_excessBlobGas = None,
     bh_parentBeaconBlockRoot = None, bh_requestsHash = None\<rparr>"

definition sample_block_header :: frozen_header where
  "sample_block_header = \<lparr>fh_data = sample_header_data, fh_manager = london_config, fh_hash = None\<rparr>"


lemma sample_london: "getHardforkByBlock london_config (Some 7) (Some 70) = ''london''"
  by (simp add: getHardforkByBlock_def result_index_def default_index_def london_table london_spec_def reached_block_def reached_time_def
      Let_def numeral_2_eq_2)

lemma sample_eips: "header_isEIPActive sample_block_header eip \<longleftrightarrow> eip \<in> {1, 1559, 3198, 3529, 3541}"
  by (simp add: header_isEIPActive_def isEIPActiveAtBlock_def isEIPActiveAtHardfork_def sample_block_header_def sample_header_data_def
      sample_london london_table)

theorem base_fee_bounds_witness:
  "\<exists>fee'. calcNextBaseFee sample_block_header = Inr (Some fee') \<and> 100 < fee' \<and> fee' \<le> 112"
  using base_fee_bounds [of sample_block_header 100 500] london_valid sample_eips [of 1559]
  by (auto simp: sample_block_header_def sample_header_data_def)


section \<open>Serialisation\<close>

text \<open>A header that validation lets through, with the fields of the EIPs that are active at its block.\<close>

definition has_field :: "bool \<Rightarrow> 'a option \<Rightarrow> ('a \<Rightarrow> bool) \<Rightarrow> bool" where
  "has_field active v good \<longleftrightarrow> (if active then (\<exists>a. v = Some a \<and> good a) else v = None)"

definition header_wf :: "frozen_header \<Rightarrow> bool" where
  "header_wf h \<longleftrightarrow> (let d = fh_data h; active = header_isEIPActive h in
     length (bh_parentHash d) = 32 \<and> length (bh_uncleHash d) = 32 \<and> length (bh_coinbase d) = 20 \<and> length (bh_stateRoot d) = 32
   \<and> length (bh_transactionsTrie d) = 32 \<and> length (bh_receiptTrie d) = 32 \<and> length (bh_logsBloom d) = 256
   \<and> 0 \<le> bh_difficulty d \<and> 0 \<le> bh_number d \<and> 0 \<le> bh_gasLimit d \<and> 0 \<le> bh_gasUsed d \<and> 0 \<le> bh_timestamp d
   \<and> length (bh_mixHash d) = 32 \<and> length (bh_nonce d) = 8
   \<and> has_field (active 1559) (bh_baseFeePerGas d) (\<lambda>n. 0 \<le> n) \<and> has_field (active 4895) (bh_withdrawalsRoot d) (\<lambda>b. length b = 32)
   \<and> has_field (active 4844) (bh_blobGasUsed d) (\<lambda>n. 0 \<le> n) \<and> has_field (active 4844) (bh_excessBlobGas d) (\<lambda>n. 0 \<le> n)
   \<and> has_field (active 4788) (bh_parentBeaconBlockRoot d) (\<lambda>b. length b = 32) \<and> has_field (active 7685) (bh_requestsHash d) (\<lambda>b. length b = 32))"

text \<open>The raw form is positional: no EIP of a later field is active without those of the fields before.\<close>

definition fields_aligned :: "frozen_header \<Rightarrow> bool" where
  "fields_aligned h \<longleftrightarrow> (header_isEIPActive h 4895 \<longrightarrow> header_isEIPActive h 1559) \<and> (header_isEIPActive h 4844 \<longrightarrow> header_isEIPActive h 4895)
     \<and> (header_isEIPActive h 4788 \<longrightarrow> header_isEIPActive h 4844) \<and> (header_isEIPActive h 7685 \<longrightarrow> header_isEIPActive h 4788)"

definition raw_fields :: "frozen_header \<Rightarrow> bytes list" where
  "raw_fields h = (let d = fh_data h in
     [bh_parentHash d, bh_uncleHash d, bh_coinbase d, bh_stateRoot d, bh_transactionsTrie d, bh_receiptTrie d, bh_logsBloom d,
      int_bytes (bh_difficulty d), int_bytes (bh_number d), int_bytes (bh_gasLimit d), int_bytes (bh_gasUsed d),
      int_bytes (bh_timestamp d), bh_extraData d, bh_mixHash d, bh_nonce d]
     @ (if header_isEIPActive h 1559 then [int_bytes (the (bh_baseFeePerGas d))] else [])
     @ (if header_isEIPActive h 4895 then [the (bh_withdrawalsRoot d)] else [])
     @ (if header_isEIPActive h 4844 then [int_bytes (the (bh_blobGasUsed d)), int_bytes (the (bh_excessBlobGas d))] else [])
     @ (if header_isEIPActive h 4788 then [the (bh_parentBeaconBlockRoot d)] else [])
     @ (if header_isEIPActive h 7685 then [the (bh_requestsHash d)] else []))"

lemma zBigInt_run: "noble_ok x \<Longrightarrow> 0 \<le> n \<Longrightarrow> zBigInt x d (Some (DBytes (int_bytes n))) = Inr n"
  by (simp add: zBigInt_def int_bytes_def)

lemma toRaw_run:
  assumes "noble_ok x" "header_wf h"
  shows "toRaw x h = Inr (map RBytes (raw_fields h))"
  using assms
  by (auto simp: toRaw_def raw_fields_def header_wf_def has_field_def Let_def int_item_run opt_int_item_def opt_bytes_item_def)

lemma map_data_input: "map (data_input \<circ> DBytes) bs = map RBytes bs"
  by (induction bs) simp_all

lemma serialize_run:
  assumes "noble_ok x" "header_wf h"
  shows "\<exists>bs. serialize_header x h = Inr bs \<and> bs \<noteq> [] \<and>
    (length bs < 2 ^ 64 \<longrightarrow> decode (RBytes bs) False = Inr (Plain (DList (map DBytes (raw_fields h)))))"
proof -
  obtain bs where bs: "encode (data_input (DList (map DBytes (raw_fields h)))) = Inr bs" "bs \<noteq> []" using encode_loop_total by blast
  then have "serialize_header x h = Inr bs" using toRaw_run [OF assms] by (simp add: serialize_header_def map_data_input del: encode.simps)
  moreover have "length bs < 2 ^ 64 \<Longrightarrow> decode (RBytes bs) False = Inr (Plain (DList (map DBytes (raw_fields h))))"
    using decode_encode [OF bs(1), of "[]"] bs(2) by (simp add: decode_def input_length_zero_def Rlp.toBytes_def)
  ultimately show ?thesis using bs(2) by blast
qed

lemma when_active_field:
  assumes "has_field active v good" "\<And>a. v = Some a \<Longrightarrow> good a \<Longrightarrow> parse (Some (DBytes (f a))) = Inr a"
  shows "when_active active parse (if active then Some (DBytes (f (the v))) else None) = Inr v"
  using assms by (auto simp: when_active_def has_field_def)


lemma raw_at_fixed:
  "value_at (map DBytes (raw_fields h)) 0 = Some (DBytes (bh_parentHash (fh_data h)))"
  "value_at (map DBytes (raw_fields h)) (Suc 0) = Some (DBytes (bh_uncleHash (fh_data h)))"
  "value_at (map DBytes (raw_fields h)) 2 = Some (DBytes (bh_coinbase (fh_data h)))"
  "value_at (map DBytes (raw_fields h)) 3 = Some (DBytes (bh_stateRoot (fh_data h)))"
  "value_at (map DBytes (raw_fields h)) 4 = Some (DBytes (bh_transactionsTrie (fh_data h)))"
  "value_at (map DBytes (raw_fields h)) 5 = Some (DBytes (bh_receiptTrie (fh_data h)))"
  "value_at (map DBytes (raw_fields h)) 6 = Some (DBytes (bh_logsBloom (fh_data h)))"
  "value_at (map DBytes (raw_fields h)) 7 = Some (DBytes (int_bytes (bh_difficulty (fh_data h))))"
  "value_at (map DBytes (raw_fields h)) 8 = Some (DBytes (int_bytes (bh_number (fh_data h))))"
  "value_at (map DBytes (raw_fields h)) 9 = Some (DBytes (int_bytes (bh_gasLimit (fh_data h))))"
  "value_at (map DBytes (raw_fields h)) 10 = Some (DBytes (int_bytes (bh_gasUsed (fh_data h))))"
  "value_at (map DBytes (raw_fields h)) 11 = Some (DBytes (int_bytes (bh_timestamp (fh_data h))))"
  "value_at (map DBytes (raw_fields h)) 12 = Some (DBytes (bh_extraData (fh_data h)))"
  "value_at (map DBytes (raw_fields h)) 13 = Some (DBytes (bh_mixHash (fh_data h)))"
  "value_at (map DBytes (raw_fields h)) 14 = Some (DBytes (bh_nonce (fh_data h)))"
  by (simp_all add: value_at_def raw_fields_def Let_def)

lemma raw_at_active:
  assumes "fields_aligned h"
  shows
  "value_at (map DBytes (raw_fields h)) 15 = (if header_isEIPActive h 1559 then Some (DBytes (int_bytes (the (bh_baseFeePerGas (fh_data h))))) else None)"
  "value_at (map DBytes (raw_fields h)) 16 = (if header_isEIPActive h 4895 then Some (DBytes (the (bh_withdrawalsRoot (fh_data h)))) else None)"
  "value_at (map DBytes (raw_fields h)) 17 = (if header_isEIPActive h 4844 then Some (DBytes (int_bytes (the (bh_blobGasUsed (fh_data h))))) else None)"
  "value_at (map DBytes (raw_fields h)) 18 = (if header_isEIPActive h 4844 then Some (DBytes (int_bytes (the (bh_excessBlobGas (fh_data h))))) else None)"
  "value_at (map DBytes (raw_fields h)) 19 = (if header_isEIPActive h 4788 then Some (DBytes (the (bh_parentBeaconBlockRoot (fh_data h)))) else None)"
  "value_at (map DBytes (raw_fields h)) 20 = (if header_isEIPActive h 7685 then Some (DBytes (the (bh_requestsHash (fh_data h)))) else None)"
  using assms by (auto simp: fields_aligned_def value_at_def raw_fields_def Let_def)

lemma raw_length:
  assumes "fields_aligned h"
  shows "check_length (map DBytes (raw_fields h)) = Inr ()"
  by (simp add: check_length_def raw_fields_def Let_def)

lemma zBytes_run: "length b = n \<Longrightarrow> zBytes (Some n) d (Some (DBytes b)) = Inr b"
  by (simp add: zBytes_def)

lemma zAddress_run: "length b = 20 \<Longrightarrow> zAddress (Some (DBytes b)) = Inr b"
  by (simp add: zAddress_def)

lemma when_active_number:
  assumes "noble_ok x" "has_field active v (\<lambda>n. 0 \<le> n)"
  shows "when_active active (zBigInt x d) (if active then Some (DBytes (int_bytes (the v))) else None) = Inr v"
  using assms(2) zBigInt_run [OF assms(1)] by (rule when_active_field)

lemma when_active_bytes:
  assumes "has_field active v (\<lambda>b. length b = n)"
  shows "when_active active (zBytes (Some n) d) (if active then Some (DBytes (the v)) else None) = Inr v"
  using when_active_field [where f = "\<lambda>b. b", OF assms zBytes_run] .

lemma validate_raw:
  assumes x: "noble_ok x" and ok: "header_wf h" and al: "fields_aligned h"
  shows "validate_fields x sha (fh_manager h) (map DBytes (raw_fields h)) = Inr (fh_data h)"
proof -
  let ?d = "fh_data h"
  have active: "isEIPActiveAtBlock (fh_manager h) eip (Some (bh_number ?d, Some (bh_timestamp ?d))) = header_isEIPActive h eip" for eip
    by (simp add: header_isEIPActive_def)
  have fixed: "length (bh_parentHash ?d) = 32" "length (bh_uncleHash ?d) = 32" "length (bh_coinbase ?d) = 20" "length (bh_stateRoot ?d) = 32"
    "length (bh_transactionsTrie ?d) = 32" "length (bh_receiptTrie ?d) = 32" "length (bh_logsBloom ?d) = 256"
    "0 \<le> bh_difficulty ?d" "0 \<le> bh_number ?d" "0 \<le> bh_gasLimit ?d" "0 \<le> bh_gasUsed ?d" "0 \<le> bh_timestamp ?d"
    "length (bh_mixHash ?d) = 32" "length (bh_nonce ?d) = 8"
    and opt: "has_field (header_isEIPActive h 1559) (bh_baseFeePerGas ?d) (\<lambda>n. 0 \<le> n)"
    "has_field (header_isEIPActive h 4895) (bh_withdrawalsRoot ?d) (\<lambda>b. length b = 32)"
    "has_field (header_isEIPActive h 4844) (bh_blobGasUsed ?d) (\<lambda>n. 0 \<le> n)"
    "has_field (header_isEIPActive h 4844) (bh_excessBlobGas ?d) (\<lambda>n. 0 \<le> n)"
    "has_field (header_isEIPActive h 4788) (bh_parentBeaconBlockRoot ?d) (\<lambda>b. length b = 32)"
    "has_field (header_isEIPActive h 7685) (bh_requestsHash ?d) (\<lambda>b. length b = 32)"
    using ok by (simp_all add: header_wf_def Let_def)
  note number = when_active_number [OF x]
  note data = when_active_bytes
  note z = zBigInt_run [OF x]
  show ?thesis
    unfolding validate_fields_def Let_def raw_at_active [OF al]
    by (simp add: raw_at_fixed zBytes_run zAddress_run z active fixed number [OF opt(1)] data [OF opt(2)] number [OF opt(3)] number [OF opt(4)]
        data [OF opt(5)] data [OF opt(6)] zBytes_def [of None])
qed


lemma hash_irrelevant: "header_isEIPActive (h\<lparr>fh_hash := v\<rparr>) = header_isEIPActive h" "serialize_header x (h\<lparr>fh_hash := v\<rparr>) = serialize_header x h"
  by (simp_all add: header_isEIPActive_def serialize_header_def toRaw_def fun_eq_iff)

lemma made_header:
  assumes "validate_fields x sha (fh_manager h) vs = Inr (fh_data h)" "check_fields (fh_manager h) (\<not> ho_skipConsensus opts) (fh_data h) = Inr ()"
    "ho_manager opts = fh_manager h" "ho_calcDifficulty opts = None" "serialize_header x h = Inr bs"
  shows "fromHeaderData x sha opts vs = Inr (h\<lparr>fh_hash := if ho_freeze opts then Some (keccak256 x bs) else None\<rparr>)"
proof -
  have "serialize_header x \<lparr>fh_data = fh_data h, fh_manager = fh_manager h, fh_hash = None\<rparr> = Inr bs"
    using assms(5) hash_irrelevant(2) [of x None h] by (cases h) simp
  then show ?thesis
    using assms(1-4) by (cases h) (auto simp: fromHeaderData_def validateBlockHeader_def ethashCanonicalDifficulty_def Let_def computeHash_def)
qed

lemma header_reads_back:
  assumes "noble_ok x" "header_wf h" "fields_aligned h"
    "ho_manager opts = fh_manager h" "ho_calcDifficulty opts = None"
    "check_fields (fh_manager h) (\<not> ho_skipConsensus opts) (fh_data h) = Inr ()" "serialize_header x h = Inr bs"
  shows "fromBytesArray x sha opts (map DBytes (raw_fields h)) = Inr (h\<lparr>fh_hash := if ho_freeze opts then Some (keccak256 x bs) else None\<rparr>)"
  using made_header [OF validate_raw [OF assms(1-3)] assms(6,4,5,7)]
  by (simp add: fromBytesArray_def raw_length [OF assms(3)] london_check_def hash_irrelevant raw_at_active [OF assms(3)])

text \<open>C31: a header with well-sized fields, those of its active EIPs and no others, is serialised to bytes from which
  \<open>fromRLP\<close> makes the same header again, with the hash of those bytes when the header is frozen. The hypotheses: the
  big-integer library is the documented one, the EIPs of the positional fields are active in order, and the rules across fields
  hold.\<close>

theorem header_roundtrip:
  assumes "noble_ok x" "header_wf h" "fields_aligned h"
    "ho_manager opts = fh_manager h" "ho_calcDifficulty opts = None"
    "check_fields (fh_manager h) (\<not> ho_skipConsensus opts) (fh_data h) = Inr ()"
  shows "\<exists>bs. serialize_header x h = Inr bs \<and> (length bs < 2 ^ 64 \<longrightarrow>
    fromRLP x sha opts bs = Inr (h\<lparr>fh_hash := if ho_freeze opts then Some (keccak256 x bs) else None\<rparr>))"
proof -
  obtain bs where bs: "serialize_header x h = Inr bs"
    "length bs < 2 ^ 64 \<longrightarrow> decode (RBytes bs) False = Inr (Plain (DList (map DBytes (raw_fields h))))"
    using serialize_run [OF assms(1,2)] by blast
  show ?thesis using header_reads_back [OF assms bs(1), of sha] bs by (auto simp: fromRLP_def)
qed

definition sample_opts :: header_opts where
  "sample_opts = \<lparr>ho_manager = london_config, ho_calcDifficulty = None, ho_skipConsensus = True, ho_freeze = True\<rparr>"

theorem header_roundtrip_witness:
  "\<exists>bs. serialize_header sample_externals sample_block_header = Inr bs \<and> (length bs < 2 ^ 64 \<longrightarrow>
    fromRLP sample_externals [] sample_opts bs = Inr (sample_block_header\<lparr>fh_hash := Some (keccak256 sample_externals bs)\<rparr>))"
proof -
  have "hardforkBlock london_config ''london'' = Some 0"
    by (simp add: hardforkBlock_def london_table london_spec_def find_entry_def)
  then have "check_fields (fh_manager sample_block_header) (\<not> ho_skipConsensus sample_opts) (fh_data sample_block_header) = Inr ()"
    by (simp add: check_fields_def sample_block_header_def sample_header_data_def sample_opts_def)
  moreover have "header_wf sample_block_header" "fields_aligned sample_block_header"
    unfolding header_wf_def fields_aligned_def Let_def has_field_def sample_eips
    by (simp_all add: sample_block_header_def sample_header_data_def KECCAK256_RLP_ARRAY_def KECCAK256_RLP_def)
  ultimately show ?thesis
    using header_roundtrip [OF noble_ok_sample, of sample_block_header sample_opts "[]"]
    by (simp add: sample_opts_def sample_block_header_def)
qed


section \<open>Where the checks fall short\<close>

text \<open>The third check of the gas limit is covered by the second one, and nothing else bounds the limit from below.\<close>

lemma minimum_check_unreachable: "validateGasLimit h parent \<noteq> Inl (PlainError ''gas limit below minimum'')"
  by (auto simp: validateGasLimit_def Let_def to_bigint_def bigint_div_def split: option.splits param_value.splits sum.split)

text \<open>A field of fixed length may be empty.\<close>

lemma empty_field_accepted: "zBytes (Some n) d (Some (DBytes [])) = Inr []"
  by (simp add: zBytes_def)

end
