(* ===== verification/Transactions.thy ===== *)
theory Transactions
  imports Items
begin

text \<open>
  Transactions, \<open>packages/tx/src/tx-functional.ts\<close>: the five kinds, their raw form, serialisation and hash, what is
  signed, the signers of the hardforks with sender recovery, gas and fees, validation, and reading from bytes.
  Decoded lists are not checked by the code, so access lists, authorisation lists, blob hashes and data are kept as
  decoded. The curve library is the parameter \<open>ecdsa\<close>; a hash kept as hexadecimal text is modelled by its bytes.
\<close>

section \<open>Kinds of transactions\<close>

record tx_fields =
  tx_chainId :: int
  tx_nonce :: int
  tx_gasLimit :: int
  tx_to :: "address option"
  tx_value :: int
  tx_data :: rlp_data
  tx_v :: "int option"
  tx_r :: "int option"
  tx_s :: "int option"

text \<open>The inner data of a transaction: its fields and what its kind adds (a legacy one has no chain id of its own). The optional
  sidecar of a blob transaction is left out: the class carries it along, but it is no part of the raw form, of the hashes or of the
  checks, and serialising a transaction loses it.\<close>

datatype tx_inner =
    LegacyTxData tx_fields int
  | AccessListTxData tx_fields int rlp_data
  | DynamicFeeTxData tx_fields int int rlp_data
  | BlobTxData tx_fields int int rlp_data int rlp_data
  | SetCodeTxData tx_fields int int rlp_data rlp_data

fun tx_fields_of :: "tx_inner \<Rightarrow> tx_fields" where
  "tx_fields_of (LegacyTxData f _) = f"
| "tx_fields_of (AccessListTxData f _ _) = f"
| "tx_fields_of (DynamicFeeTxData f _ _ _) = f"
| "tx_fields_of (BlobTxData f _ _ _ _ _) = f"
| "tx_fields_of (SetCodeTxData f _ _ _ _) = f"

fun tx_type :: "tx_inner \<Rightarrow> nat" where
  "tx_type (LegacyTxData _ _) = 0"
| "tx_type (AccessListTxData _ _ _) = 1"
| "tx_type (DynamicFeeTxData _ _ _ _) = 2"
| "tx_type (BlobTxData _ _ _ _ _ _) = 3"
| "tx_type (SetCodeTxData _ _ _ _ _) = 4"

text \<open>The chain id of a legacy transaction is that of EIP-155, read off \<open>v\<close>.\<close>

definition legacy_chainID :: "int option \<Rightarrow> int" where
  "legacy_chainID v = (case v of Some n \<Rightarrow> if n \<ge> 37 then (n - 35) sdiv 2 else 0 | None \<Rightarrow> 0)"

fun chainID :: "tx_inner \<Rightarrow> int" where
  "chainID (LegacyTxData f _) = legacy_chainID (tx_v f)"
| "chainID t = tx_chainId (tx_fields_of t)"

fun accessList :: "tx_inner \<Rightarrow> rlp_data option" where
  "accessList (LegacyTxData _ _) = None"
| "accessList (AccessListTxData _ _ l) = Some l"
| "accessList (DynamicFeeTxData _ _ _ l) = Some l"
| "accessList (BlobTxData _ _ _ l _ _) = Some l"
| "accessList (SetCodeTxData _ _ _ l _) = Some l"

fun gasFeeCap :: "tx_inner \<Rightarrow> int" where
  "gasFeeCap (LegacyTxData _ p) = p"
| "gasFeeCap (AccessListTxData _ p _) = p"
| "gasFeeCap (DynamicFeeTxData _ _ m _) = m"
| "gasFeeCap (BlobTxData _ _ m _ _ _) = m"
| "gasFeeCap (SetCodeTxData _ _ m _ _) = m"

fun gasTipCap :: "tx_inner \<Rightarrow> int" where
  "gasTipCap (LegacyTxData _ p) = p"
| "gasTipCap (AccessListTxData _ p _) = p"
| "gasTipCap (DynamicFeeTxData _ t _ _) = t"
| "gasTipCap (BlobTxData _ t _ _ _ _) = t"
| "gasTipCap (SetCodeTxData _ t _ _ _) = t"

definition tx_gasPrice :: "tx_inner \<Rightarrow> int" where
  "tx_gasPrice t = gasFeeCap t"

definition capped_price :: "int \<Rightarrow> int \<Rightarrow> int option \<Rightarrow> int" where
  "capped_price tipCap feeCap baseFee = (case baseFee of None \<Rightarrow> feeCap
     | Some b \<Rightarrow> let tip = feeCap - b in (if tip > tipCap then tipCap else tip) + b)"

fun effectiveGasPrice :: "tx_inner \<Rightarrow> int option \<Rightarrow> int" where
  "effectiveGasPrice (LegacyTxData _ p) _ = p"
| "effectiveGasPrice (AccessListTxData _ p _) _ = p"
| "effectiveGasPrice (DynamicFeeTxData _ t m _) b = capped_price t m b"
| "effectiveGasPrice (BlobTxData _ t m _ _ _) b = capped_price t m b"
| "effectiveGasPrice (SetCodeTxData _ t m _ _) b = capped_price t m b"

definition with_vrs :: "int \<Rightarrow> int \<Rightarrow> int \<Rightarrow> tx_fields \<Rightarrow> tx_fields" where
  "with_vrs v r s f = f\<lparr>tx_v := Some v, tx_r := Some r, tx_s := Some s\<rparr>"

fun setSignatureValues :: "int \<Rightarrow> int \<Rightarrow> int \<Rightarrow> tx_inner \<Rightarrow> tx_inner" where
  "setSignatureValues v r s (LegacyTxData f p) = LegacyTxData (with_vrs v r s f) p"
| "setSignatureValues v r s (AccessListTxData f p l) = AccessListTxData (with_vrs v r s f) p l"
| "setSignatureValues v r s (DynamicFeeTxData f t m l) = DynamicFeeTxData (with_vrs v r s f) t m l"
| "setSignatureValues v r s (BlobTxData f t m l b hs) = BlobTxData (with_vrs v r s f) t m l b hs"
| "setSignatureValues v r s (SetCodeTxData f t m l auths) = SetCodeTxData (with_vrs v r s f) t m l auths"

section \<open>Raw form and serialisation\<close>

definition to_item :: "address option \<Rightarrow> rlp_input" where
  "to_item to = (case to of None \<Rightarrow> RBytes [] | Some a \<Rightarrow> RBytes a)"

definition sig_item :: "externals \<Rightarrow> int option \<Rightarrow> exn + rlp_input" where
  "sig_item x v = (case v of None \<Rightarrow> Inr (RBytes []) | Some n \<Rightarrow> int_item x n)"

text \<open>The fields that are signed, kind by kind, without those of EIP-155 in the legacy case; they are also the raw form
  without the signature.\<close>

definition legacy_message :: "externals \<Rightarrow> tx_fields \<Rightarrow> int \<Rightarrow> (exn + rlp_input) list" where
  [simp]: "legacy_message x f p =
     [int_item x (tx_nonce f), int_item x p, int_item x (tx_gasLimit f), Inr (to_item (tx_to f)), int_item x (tx_value f), Inr (data_input (tx_data f))]"

definition access_list_message :: "externals \<Rightarrow> tx_fields \<Rightarrow> int \<Rightarrow> rlp_data \<Rightarrow> (exn + rlp_input) list" where
  [simp]: "access_list_message x f p l =
     [int_item x (tx_chainId f), int_item x (tx_nonce f), int_item x p, int_item x (tx_gasLimit f), Inr (to_item (tx_to f)), int_item x (tx_value f),
      Inr (data_input (tx_data f)), Inr (data_input l)]"

definition dynamic_fee_message :: "externals \<Rightarrow> tx_fields \<Rightarrow> int \<Rightarrow> int \<Rightarrow> rlp_data \<Rightarrow> (exn + rlp_input) list" where
  [simp]: "dynamic_fee_message x f t m l =
     [int_item x (tx_chainId f), int_item x (tx_nonce f), int_item x t, int_item x m, int_item x (tx_gasLimit f), Inr (to_item (tx_to f)), int_item x (tx_value f),
      Inr (data_input (tx_data f)), Inr (data_input l)]"

definition blob_message :: "externals \<Rightarrow> tx_fields \<Rightarrow> int \<Rightarrow> int \<Rightarrow> rlp_data \<Rightarrow> int \<Rightarrow> rlp_data \<Rightarrow> (exn + rlp_input) list" where
  [simp]: "blob_message x f t m l b hs =
     [int_item x (tx_chainId f), int_item x (tx_nonce f), int_item x t, int_item x m, int_item x (tx_gasLimit f), Inr (to_item (tx_to f)), int_item x (tx_value f),
      Inr (data_input (tx_data f)), Inr (data_input l), int_item x b, Inr (data_input hs)]"

definition set_code_message :: "externals \<Rightarrow> tx_fields \<Rightarrow> int \<Rightarrow> int \<Rightarrow> rlp_data \<Rightarrow> rlp_data \<Rightarrow> (exn + rlp_input) list" where
  [simp]: "set_code_message x f t m l auths =
     [int_item x (tx_chainId f), int_item x (tx_nonce f), int_item x t, int_item x m, int_item x (tx_gasLimit f), Inr (to_item (tx_to f)), int_item x (tx_value f),
      Inr (data_input (tx_data f)), Inr (data_input l), Inr (data_input auths)]"

fun message_items :: "externals \<Rightarrow> tx_inner \<Rightarrow> (exn + rlp_input) list" where
  "message_items x (LegacyTxData f p) = legacy_message x f p"
| "message_items x (AccessListTxData f p l) = access_list_message x f p l"
| "message_items x (DynamicFeeTxData f t m l) = dynamic_fee_message x f t m l"
| "message_items x (BlobTxData f t m l b hs) = blob_message x f t m l b hs"
| "message_items x (SetCodeTxData f t m l auths) = set_code_message x f t m l auths"

definition tx_raw :: "externals \<Rightarrow> tx_inner \<Rightarrow> exn + rlp_input list" where
  "tx_raw x t = (let f = tx_fields_of t in all_right (message_items x t @ [sig_item x (tx_v f), sig_item x (tx_r f), sig_item x (tx_s f)]))"

text \<open>The kind of a typed transaction is its first byte.\<close>

definition typed :: "tx_inner \<Rightarrow> bytes \<Rightarrow> bytes" where
  "typed t bs = (if tx_type t = 0 then bs else concatBytes [[of_nat (tx_type t)], bs])"

definition tx_serialize :: "externals \<Rightarrow> tx_inner \<Rightarrow> exn + bytes" where
  "tx_serialize x t = bindR (tx_raw x t) (\<lambda>items. bindR (encode (RArray items)) (\<lambda>bs. Inr (typed t bs)))"

definition getMessageToSign :: "externals \<Rightarrow> int \<Rightarrow> tx_inner \<Rightarrow> exn + rlp_input list" where
  "getMessageToSign x chainId t = all_right (message_items x t @
     (if tx_type t = 0 \<and> chainId > 0 then [int_item x chainId, Inr (RBytes []), Inr (RBytes [])] else []))"

definition sigHash :: "externals \<Rightarrow> int \<Rightarrow> tx_inner \<Rightarrow> exn + bytes" where
  "sigHash x chainId t = bindR (getMessageToSign x chainId t) (\<lambda>items. bindR (encode (RArray items)) (\<lambda>bs. Inr (keccak256 x (typed t bs))))"

section \<open>Frozen transactions\<close>

datatype signer = FrontierSigner | HomesteadSigner | EIP155Signer int | EIP2930Signer int | LondonSigner int | CancunSigner int | PragueSigner int

record frozen_tx =
  ft_inner :: tx_inner
  ft_common :: frozen_config
  ft_fork :: string
  ft_senderCache :: "(signer \<times> address) option"

record tx_options =
  to_common :: frozen_config
  to_hardfork :: hf_context

definition newTx :: "tx_inner \<Rightarrow> tx_options \<Rightarrow> frozen_tx" where
  "newTx t opts = \<lparr>ft_inner = t, ft_common = to_common opts, ft_fork = getHardforkFromContext (to_common opts) (to_hardfork opts), ft_senderCache = None\<rparr>"

definition isProtectedV :: "int \<Rightarrow> bool" where
  "isProtectedV v \<longleftrightarrow> v \<noteq> 27 \<and> v \<noteq> 28 \<and> v \<noteq> 1 \<and> v \<noteq> 0"

definition isProtected :: "tx_inner \<Rightarrow> bool" where
  "isProtected t \<longleftrightarrow> (if tx_type t = 0 then (case tx_v (tx_fields_of t) of None \<Rightarrow> False | Some v \<Rightarrow> isProtectedV v) else True)"

definition supportsFeeMarket :: "tx_inner \<Rightarrow> bool" where
  "supportsFeeMarket t \<longleftrightarrow> tx_type t = 2 \<or> tx_type t = 3 \<or> tx_type t = 4"

definition isSigned :: "tx_inner \<Rightarrow> bool" where
  "isSigned t \<longleftrightarrow> (let f = tx_fields_of t in tx_v f \<noteq> None \<and> tx_r f \<noteq> None \<and> tx_s f \<noteq> None)"

definition supports :: "frozen_tx \<Rightarrow> nat \<Rightarrow> bool" where
  "supports tx capability = (let t = ft_inner tx in
     if capability = 155 then
       (if tx_type t = 0 \<and> \<not> isSigned t then hardforkGte (ft_common tx) (ft_fork tx) ''spuriousDragon'' else isProtected t)
     else if capability = 2718 then tx_type t \<noteq> 0
     else if capability = 2930 then tx_type t \<noteq> 0
     else if capability = 1559 then supportsFeeMarket t
     else if capability = 7702 then tx_type t = 4
     else False)"

definition tx_hash :: "externals \<Rightarrow> tx_inner \<Rightarrow> exn + bytes" where
  "tx_hash x t = (if \<not> isSigned t then Inl (PlainError ''Cannot hash unsigned transaction'')
     else bindR (tx_serialize x t) (\<lambda>bs. Inr (keccak256 x bs)))"


section \<open>Signatures\<close>

text \<open>The curve library: \<open>sign\<close> gives the 64-byte compact signature and the recovery bit, \<open>recover\<close> the 65-byte public
  key for a compact signature, a recovery bit and a message hash, \<open>public\<close> the public key of a private key.\<close>

record ecdsa =
  ec_sign :: "bytes \<Rightarrow> bytes \<Rightarrow> exn + bytes \<times> nat option"
  ec_recover :: "bytes \<Rightarrow> nat \<Rightarrow> bytes \<Rightarrow> exn + bytes"
  ec_public :: "bytes \<Rightarrow> bytes"

definition SECP256K1_ORDER :: int where
  "SECP256K1_ORDER = 0xfffffffffffffffffffffffffffffffebaaedce6af48a03bbfd25e8cd0364141"

definition SECP256K1_ORDER_DIV_2 :: int where
  "SECP256K1_ORDER_DIV_2 = SECP256K1_ORDER sdiv 2"

definition calculateSigRecovery :: "int \<Rightarrow> int option \<Rightarrow> int" where
  "calculateSigRecovery v chainId =
     (if v = 0 \<or> v = 1 then v else case chainId of None \<Rightarrow> v - 27 | Some c \<Rightarrow> v - (c * 2 + 35))"

definition isValidSigRecovery :: "int \<Rightarrow> bool" where
  "isValidSigRecovery recovery \<longleftrightarrow> recovery = 0 \<or> recovery = 1"

definition ecrecover :: "ecdsa \<Rightarrow> bytes \<Rightarrow> int \<Rightarrow> bytes \<Rightarrow> bytes \<Rightarrow> int option \<Rightarrow> exn + bytes" where
  "ecrecover E msgHash v r s chainId =
     (let signature = concatBytes [setLengthLeft r 32, setLengthLeft s 32]; recovery = calculateSigRecovery v chainId in
      if \<not> isValidSigRecovery recovery then Inl (PlainError ''Invalid signature v value'')
      else bindR (ec_recover E signature (nat recovery) msgHash) (\<lambda>key. Inr (drop 1 key)))"

definition pubToAddress :: "externals \<Rightarrow> bytes \<Rightarrow> exn + bytes" where
  "pubToAddress x pubKey = (if length pubKey \<noteq> 64 then Inl (PlainError ''Expected pubKey to be of length 64'')
     else Inr (subarray_last 20 (keccak256 x pubKey)))"

definition new_Address :: "bytes \<Rightarrow> exn + address" where
  "new_Address bs = (if length bs \<noteq> 20 then Inl (PlainError ''Invalid address length'') else Inr bs)"

definition recovered :: "externals \<Rightarrow> ecdsa \<Rightarrow> bytes \<Rightarrow> int \<Rightarrow> int \<Rightarrow> int \<Rightarrow> int option \<Rightarrow> exn + address" where
  "recovered x E h v r s chainId =
     bindR (bigIntToUnpaddedBytes x r) (\<lambda>rb. bindR (bigIntToUnpaddedBytes x s) (\<lambda>sb.
     bindR (ecrecover E h v rb sb chainId) (\<lambda>key. bindR (pubToAddress x key) new_Address)))"

definition recoverPlain :: "externals \<Rightarrow> ecdsa \<Rightarrow> bytes \<Rightarrow> int \<Rightarrow> int \<Rightarrow> int \<Rightarrow> exn + address" where
  "recoverPlain x E h r s v = (if v < 27 then Inl (PlainError ''Invalid signature v value'') else recovered x E h v r s None)"

fun bytes_to_int :: "bytes \<Rightarrow> int \<Rightarrow> int" where
  "bytes_to_int [] result = result"
| "bytes_to_int (b # bs) result = bytes_to_int bs ((push_bit 8 result) OR uint b)"

text \<open>R, S and V of a 65-byte signature.\<close>

definition split_signature :: "bytes \<Rightarrow> int \<Rightarrow> exn + int \<times> int \<times> int" where
  "split_signature sig offset = (if length sig \<noteq> 65 then Inl (PlainError ''Invalid signature length'')
     else Inr (bytes_to_int (take 32 sig) 0, bytes_to_int (take 32 (drop 32 sig)) 0, uint (sig ! 64) + offset))"

section \<open>Signers\<close>

fun signer_chainID :: "signer \<Rightarrow> int option" where
  "signer_chainID FrontierSigner = None"
| "signer_chainID HomesteadSigner = None"
| "signer_chainID (EIP155Signer c) = Some c"
| "signer_chainID (EIP2930Signer c) = Some c"
| "signer_chainID (LondonSigner c) = Some c"
| "signer_chainID (CancunSigner c) = Some c"
| "signer_chainID (PragueSigner c) = Some c"

definition signer_hash :: "externals \<Rightarrow> signer \<Rightarrow> tx_inner \<Rightarrow> exn + bytes" where
  "signer_hash x s t = sigHash x (case signer_chainID s of None \<Rightarrow> 0 | Some c \<Rightarrow> c) t"

fun supportsType :: "signer \<Rightarrow> nat \<Rightarrow> bool" where
  "supportsType (EIP2930Signer _) n \<longleftrightarrow> n = 0 \<or> n = 1"
| "supportsType (LondonSigner _) n \<longleftrightarrow> n = 0 \<or> n = 1 \<or> n = 2"
| "supportsType (CancunSigner _) n \<longleftrightarrow> n = 0 \<or> n = 1 \<or> n = 2 \<or> n = 3"
| "supportsType (PragueSigner _) n \<longleftrightarrow> n = 0 \<or> n = 1 \<or> n = 2 \<or> n = 3 \<or> n = 4"
| "supportsType _ n \<longleftrightarrow> n = 0"

definition eip155_signatureValues :: "int \<Rightarrow> tx_inner \<Rightarrow> bytes \<Rightarrow> exn + int \<times> int \<times> int" where
  "eip155_signatureValues c t sig = (if tx_type t \<noteq> 0 then Inl (PlainError ''Transaction type not supported by EIP155Signer'')
     else split_signature sig (if c \<noteq> 0 then 35 + c * 2 else 27))"

definition modern_signatureValues :: "signer \<Rightarrow> int \<Rightarrow> tx_inner \<Rightarrow> bytes \<Rightarrow> exn + int \<times> int \<times> int" where
  "modern_signatureValues s c t sig =
     (if tx_type t = 0 then eip155_signatureValues c t sig
      else if \<not> supportsType s (tx_type t) then Inl (PlainError ''Transaction type not supported'')
      else if chainID t \<noteq> 0 \<and> chainID t \<noteq> c then Inl (PlainError ''Invalid chain ID'')
      else split_signature sig 0)"

fun signatureValues :: "signer \<Rightarrow> tx_inner \<Rightarrow> bytes \<Rightarrow> exn + int \<times> int \<times> int" where
  "signatureValues FrontierSigner t sig =
     (if tx_type t \<noteq> 0 then Inl (PlainError ''Transaction type not supported by FrontierSigner'') else split_signature sig 27)"
| "signatureValues HomesteadSigner t sig =
     (if tx_type t \<noteq> 0 then Inl (PlainError ''Transaction type not supported by FrontierSigner'') else split_signature sig 27)"
| "signatureValues (EIP155Signer c) t sig = eip155_signatureValues c t sig"
| "signatureValues (EIP2930Signer c) t sig = modern_signatureValues (EIP2930Signer c) c t sig"
| "signatureValues (LondonSigner c) t sig = modern_signatureValues (LondonSigner c) c t sig"
| "signatureValues (CancunSigner c) t sig = modern_signatureValues (CancunSigner c) c t sig"
| "signatureValues (PragueSigner c) t sig = modern_signatureValues (PragueSigner c) c t sig"

definition with_signature_of :: "tx_inner \<Rightarrow> (int \<Rightarrow> int \<Rightarrow> int \<Rightarrow> exn + address) \<Rightarrow> exn + address" where
  "with_signature_of t f = (case (tx_v (tx_fields_of t), tx_r (tx_fields_of t), tx_s (tx_fields_of t)) of
       (Some v, Some r, Some s) \<Rightarrow> f v r s
     | _ \<Rightarrow> Inl (PlainError ''Invalid signature: transaction is not signed''))"

definition low_s :: "int \<Rightarrow> exn + address \<Rightarrow> exn + address" where
  "low_s s next = (if s > SECP256K1_ORDER_DIV_2 then Inl (PlainError ''Invalid signature: s-values greater than secp256k1n/2 are invalid'') else next)"

definition frontier_sender :: "externals \<Rightarrow> ecdsa \<Rightarrow> tx_inner \<Rightarrow> exn + address" where
  "frontier_sender x E t = (if tx_type t \<noteq> 0 then Inl (PlainError ''Transaction type not supported by FrontierSigner'')
     else with_signature_of t (\<lambda>v r s. bindR (signer_hash x FrontierSigner t) (\<lambda>h. recoverPlain x E h r s v)))"

definition homestead_sender :: "externals \<Rightarrow> ecdsa \<Rightarrow> tx_inner \<Rightarrow> exn + address" where
  "homestead_sender x E t = (if tx_type t \<noteq> 0 then Inl (PlainError ''Transaction type not supported by HomesteadSigner'')
     else with_signature_of t (\<lambda>v r s. low_s s (bindR (signer_hash x HomesteadSigner t) (\<lambda>h. recovered x E h v r s None))))"

definition eip155_sender :: "externals \<Rightarrow> ecdsa \<Rightarrow> int \<Rightarrow> tx_inner \<Rightarrow> exn + address" where
  "eip155_sender x E c t = (if tx_type t \<noteq> 0 then Inl (PlainError ''Transaction type not supported by EIP155Signer'')
     else if \<not> isProtected t then homestead_sender x E t
     else if chainID t \<noteq> c then Inl (PlainError ''Invalid chain ID'')
     else with_signature_of t (\<lambda>v r s. low_s s (bindR (signer_hash x (EIP155Signer c) t) (\<lambda>h. recovered x E h v r s (Some c)))))"

text \<open>The signers from Berlin on: legacy transactions as EIP-155 has them, \<open>v\<close> of a typed one is the recovery bit.\<close>

definition modern_sender :: "externals \<Rightarrow> ecdsa \<Rightarrow> signer \<Rightarrow> int \<Rightarrow> tx_inner \<Rightarrow> exn + address" where
  "modern_sender x E sg c t = (if tx_type t = 0 then eip155_sender x E c t
     else if \<not> supportsType sg (tx_type t) then Inl (PlainError ''Transaction type not supported'')
     else if chainID t \<noteq> c then Inl (PlainError ''Invalid chain ID'')
     else with_signature_of t (\<lambda>v r s. bindR (signer_hash x sg t) (\<lambda>h. recovered x E h (v + 27) r s None)))"

fun signer_sender :: "externals \<Rightarrow> ecdsa \<Rightarrow> signer \<Rightarrow> tx_inner \<Rightarrow> exn + address" where
  "signer_sender x E FrontierSigner t = frontier_sender x E t"
| "signer_sender x E HomesteadSigner t = homestead_sender x E t"
| "signer_sender x E (EIP155Signer c) t = eip155_sender x E c t"
| "signer_sender x E (EIP2930Signer c) t = modern_sender x E (EIP2930Signer c) c t"
| "signer_sender x E (LondonSigner c) t = modern_sender x E (LondonSigner c) c t"
| "signer_sender x E (CancunSigner c) t = modern_sender x E (CancunSigner c) c t"
| "signer_sender x E (PragueSigner c) t = modern_sender x E (PragueSigner c) c t"

text \<open>\<open>s.equal(other)\<close>: the other signer is of the class of this one, or of a class that extends it, with the same chain.\<close>

fun signer_rank :: "signer \<Rightarrow> nat" where
  "signer_rank (EIP2930Signer _) = 1"
| "signer_rank (LondonSigner _) = 2"
| "signer_rank (CancunSigner _) = 3"
| "signer_rank (PragueSigner _) = 4"
| "signer_rank _ = 0"

fun signer_equal :: "signer \<Rightarrow> signer \<Rightarrow> bool" where
  "signer_equal FrontierSigner other \<longleftrightarrow> other = FrontierSigner"
| "signer_equal HomesteadSigner other \<longleftrightarrow> other = HomesteadSigner"
| "signer_equal (EIP155Signer c) other \<longleftrightarrow> other = EIP155Signer c"
| "signer_equal s other \<longleftrightarrow> signer_rank s \<le> signer_rank other \<and> signer_chainID s = signer_chainID other"

text \<open>\<open>makeSigner\<close> with the fork of a transaction as the context.\<close>

definition makeSigner :: "frozen_config \<Rightarrow> hf_context \<Rightarrow> signer" where
  "makeSigner cfg context = (let c = spec_chainId (cfg_spec cfg);
       hardfork = (if context = NoContext \<or> context = ByName [] then getLatestHardfork cfg else getHardforkFromContext cfg context) in
     if hardforkGte cfg hardfork ''prague'' then PragueSigner c
     else if hardforkGte cfg hardfork ''cancun'' then CancunSigner c
     else if hardforkGte cfg hardfork ''london'' then LondonSigner c
     else if hardforkGte cfg hardfork ''berlin'' then EIP2930Signer c
     else if hardforkGte cfg hardfork ''spuriousDragon'' then EIP155Signer c
     else if hardforkGte cfg hardfork ''homestead'' then HomesteadSigner
     else FrontierSigner)"

text \<open>\<open>sender\<close>: the cached address if a signer equal to this one put it there, otherwise it is recovered and cached.\<close>

definition sender :: "externals \<Rightarrow> ecdsa \<Rightarrow> signer \<Rightarrow> (frozen_tx, address) sx" where
  "sender x E s tx =
     (case ft_senderCache tx of
        Some (s0, a) \<Rightarrow> if signer_equal s0 s then (Inr a, tx)
          else (case signer_sender x E s (ft_inner tx) of Inl e \<Rightarrow> (Inl e, tx) | Inr b \<Rightarrow> (Inr b, tx\<lparr>ft_senderCache := Some (s, b)\<rparr>))
      | None \<Rightarrow> (case signer_sender x E s (ft_inner tx) of Inl e \<Rightarrow> (Inl e, tx) | Inr b \<Rightarrow> (Inr b, tx\<lparr>ft_senderCache := Some (s, b)\<rparr>)))"

definition getSenderAddress :: "externals \<Rightarrow> ecdsa \<Rightarrow> (frozen_tx, address) sx" where
  "getSenderAddress x E tx = sender x E (makeSigner (ft_common tx) (ByName (ft_fork tx))) tx"

definition verifySignature :: "externals \<Rightarrow> ecdsa \<Rightarrow> frozen_tx \<Rightarrow> bool \<times> frozen_tx" where
  "verifySignature x E tx = (case getSenderAddress x E tx of (Inl _, t) \<Rightarrow> (False, t) | (Inr _, t) \<Rightarrow> (True, t))"

definition withSignature :: "signer \<Rightarrow> bytes \<Rightarrow> frozen_tx \<Rightarrow> exn + frozen_tx" where
  "withSignature s sig tx = bindR (signatureValues s (ft_inner tx) sig) (\<lambda>(r, sv, v).
     Inr (tx\<lparr>ft_inner := setSignatureValues v r sv (ft_inner tx), ft_senderCache := None\<rparr>))"

definition signTx :: "externals \<Rightarrow> ecdsa \<Rightarrow> signer \<Rightarrow> bytes \<Rightarrow> frozen_tx \<Rightarrow> exn + frozen_tx" where
  "signTx x E s privateKey tx =
     (if length privateKey \<noteq> 32 then Inl (PlainError ''Private key must be 32 bytes'')
      else bindR (signer_hash x s (ft_inner tx)) (\<lambda>h. bindR (ec_sign E h privateKey) (\<lambda>(compact, recovery).
        case recovery of None \<Rightarrow> Inl (PlainError ''Invalid signature recovery'')
        | Some n \<Rightarrow> if length compact > 65 then Inl RangeError
            else withSignature s ((compact @ replicate (65 - length compact) 0)[64 := of_nat n]) tx)))"


section \<open>Gas and fees\<close>

text \<open>\<open>param!\<close> used as a bigint: without one the arithmetic is a TypeError.\<close>

definition need :: "param_value option \<Rightarrow> exn + int" where
  "need v = (case v of Some (PBig n) \<Rightarrow> Inr n | _ \<Rightarrow> Inl TypeError)"

text \<open>\<open>if (fee) total += fee\<close>.\<close>

definition add_if_set :: "param_value option \<Rightarrow> int \<Rightarrow> exn + int" where
  "add_if_set v fee = (case v of None \<Rightarrow> Inr fee | Some PNull \<Rightarrow> Inr fee | Some (PBig n) \<Rightarrow> Inr (fee + n)
     | Some (PNum n) \<Rightarrow> if n = 0 then Inr fee else Inl TypeError)"

text \<open>A decoded field as an indexed sequence: the items of a list are arrays, never the number zero.\<close>

fun item_length :: "rlp_data \<Rightarrow> nat" where
  "item_length (DBytes bs) = length bs"
| "item_length (DList ds) = length ds"

fun zero_flags :: "rlp_data \<Rightarrow> bool list" where
  "zero_flags (DBytes bs) = map (\<lambda>b. b = 0) bs"
| "zero_flags (DList ds) = map (\<lambda>_. False) ds"

fun data_cost :: "bool list \<Rightarrow> param_value option \<Rightarrow> param_value option \<Rightarrow> int \<Rightarrow> exn + int" where
  "data_cost [] zero nonzero cost = Inr cost"
| "data_cost (z # zs) zero nonzero cost = bindR (need (if z then zero else nonzero)) (\<lambda>n. data_cost zs zero nonzero (cost + n))"

definition toCreationAddress :: "tx_inner \<Rightarrow> bool" where
  "toCreationAddress t \<longleftrightarrow> tx_to (tx_fields_of t) = None \<or> tx_to (tx_fields_of t) = Some []"

definition getDataGas :: "frozen_tx \<Rightarrow> exn + int" where
  "getDataGas tx = (let hf = ft_fork tx; cfg = ft_common tx; f = tx_fields_of (ft_inner tx) in
     bindR (data_cost (zero_flags (tx_data f)) (getParamAtHardfork cfg ''txDataZeroGas'' hf) (getParamAtHardfork cfg ''txDataNonZeroGas'' hf) 0) (\<lambda>cost.
       if tx_to f = None \<and> isEIPActiveAtHardfork cfg 3860 hf
       then bindR (need (getParamAtHardfork cfg ''initCodeWordGas'' hf)) (\<lambda>n. Inr (cost + n * ((int (item_length (tx_data f)) + 31) div 32)))
       else Inr cost))"

text \<open>The number of storage keys of an entry, which is destructured as \<open>[address, storageKeys]\<close>.\<close>

definition storage_keys :: "rlp_data \<Rightarrow> exn + nat" where
  "storage_keys entry = (case entry of DList (_ # keys # _) \<Rightarrow> Inr (item_length keys) | _ \<Rightarrow> Inl TypeError)"

fun access_cost_loop :: "rlp_data list \<Rightarrow> int \<Rightarrow> int \<Rightarrow> int \<Rightarrow> exn + int" where
  "access_cost_loop [] addressCost keyCost cost = Inr cost"
| "access_cost_loop (entry # entries) addressCost keyCost cost =
     bindR (storage_keys entry) (\<lambda>n. access_cost_loop entries addressCost keyCost (cost + addressCost + keyCost * int n))"

definition getAccessListGas :: "rlp_data option \<Rightarrow> frozen_tx \<Rightarrow> exn + int" where
  "getAccessListGas l tx = (case l of None \<Rightarrow> Inr 0
     | Some d \<Rightarrow> if item_length d = 0 then Inr 0 else
         bindR (param_or (ft_common tx) ''accessListAddressGas'' (ft_fork tx) 2400) (\<lambda>addressCost.
         bindR (param_or (ft_common tx) ''accessListStorageKeyGas'' (ft_fork tx) 1900) (\<lambda>keyCost.
           case d of DList entries \<Rightarrow> access_cost_loop entries addressCost keyCost 0 | DBytes _ \<Rightarrow> Inl TypeError)))"

definition getAuthorizationListGas :: "frozen_tx \<Rightarrow> exn + int" where
  "getAuthorizationListGas tx = (case ft_inner tx of
       SetCodeTxData _ _ _ _ auths \<Rightarrow> if item_length auths = 0 then Inr 0
         else bindR (param_or (ft_common tx) ''perAuthBaseGas'' (ft_fork tx) 2500) (\<lambda>n. Inr (n * int (item_length auths)))
     | _ \<Rightarrow> Inr 0)"

definition getIntrinsicGas :: "frozen_tx \<Rightarrow> exn + int" where
  "getIntrinsicGas tx = (let hf = ft_fork tx; cfg = ft_common tx; t = ft_inner tx in
     bindR (getDataGas tx) (\<lambda>dataFee.
     bindR (add_if_set (getParamAtHardfork cfg ''txGas'' hf) dataFee) (\<lambda>fee.
     bindR (if hardforkGte cfg hf ''homestead'' \<and> toCreationAddress t then add_if_set (getParamAtHardfork cfg ''txCreationGas'' hf) fee else Inr fee) (\<lambda>fee1.
     bindR (if tx_type t \<noteq> 0 then bindR (getAccessListGas (accessList t) tx) (\<lambda>n. Inr (fee1 + n)) else Inr fee1) (\<lambda>fee2.
     bindR (getAuthorizationListGas tx) (\<lambda>n. Inr (fee2 + n)))))))"

definition blobGas :: "rlp_data \<Rightarrow> int" where
  "blobGas hashes = 131072 * int (item_length hashes)"

definition getUpfrontCost :: "tx_inner \<Rightarrow> int" where
  "getUpfrontCost t = (let f = tx_fields_of t in tx_gasLimit f * gasFeeCap t + tx_value f
     + (case t of BlobTxData _ _ _ _ b hs \<Rightarrow> blobGas hs * b | _ \<Rightarrow> 0))"

definition getEffectivePriorityFee :: "tx_inner \<Rightarrow> int option \<Rightarrow> int" where
  "getEffectivePriorityFee t baseFee = (let fee = option_or baseFee 0 in
     if supportsFeeMarket t then (if gasTipCap t < gasFeeCap t - fee then gasTipCap t else gasFeeCap t - fee) else tx_gasPrice t - fee)"

definition maxFeePerBlobGas :: "tx_inner \<Rightarrow> int option" where
  "maxFeePerBlobGas t = (case t of BlobTxData _ _ _ _ b _ \<Rightarrow> Some b | _ \<Rightarrow> None)"

definition numBlobs :: "tx_inner \<Rightarrow> nat" where
  "numBlobs t = (case t of BlobTxData _ _ _ _ _ hs \<Rightarrow> item_length hs | _ \<Rightarrow> 0)"

section \<open>Validation\<close>

definition data_tokens :: "rlp_data \<Rightarrow> int" where
  "data_tokens d = (\<Sum>z\<leftarrow>zero_flags d. if z then 1 else 4)"

definition floor_cost :: "frozen_tx \<Rightarrow> exn + int" where
  "floor_cost tx = bindR (need (getParamAtHardfork (ft_common tx) ''txGas'' (ft_fork tx))) (\<lambda>base.
     bindR (need (getParamAtHardfork (ft_common tx) ''totalCostFloorPerToken'' (ft_fork tx))) (\<lambda>n. Inr (base + n * data_tokens (tx_data (tx_fields_of (ft_inner tx))))))"

definition minimum_gas :: "frozen_tx \<Rightarrow> exn + int" where
  "minimum_gas tx = bindR (getIntrinsicGas tx) (\<lambda>intrinsicGas.
     if isEIPActiveAtHardfork (ft_common tx) 7623 (ft_fork tx) then bindR (floor_cost tx) (\<lambda>n. Inr (bigIntMax intrinsicGas [n]))
     else Inr intrinsicGas)"

definition getValidationErrors :: "externals \<Rightarrow> ecdsa \<Rightarrow> (frozen_tx, string list) sx" where
  "getValidationErrors x E tx = (let (invalid, tx1) = (if isSigned (ft_inner tx) then (case verifySignature x E tx of (ok, t) \<Rightarrow> (\<not> ok, t)) else (False, tx)) in
     case minimum_gas tx1 of Inl e \<Rightarrow> (Inl e, tx1)
     | Inr n \<Rightarrow> (Inr ((if invalid then [''Invalid Signature''] else [])
         @ (if n > tx_gasLimit (tx_fields_of (ft_inner tx1)) then [''gasLimit is too low''] else [])), tx1))"

definition tx_isValid :: "externals \<Rightarrow> ecdsa \<Rightarrow> (frozen_tx, bool) sx" where
  "tx_isValid x E tx = (case getValidationErrors x E tx of (Inl e, t) \<Rightarrow> (Inl e, t) | (Inr es, t) \<Rightarrow> (Inr (es = []), t))"

section \<open>Reading transactions\<close>

text \<open>The values of a decoded list by position; a missing one is undefined and a list is no byte array for the library.\<close>

definition at :: "rlp_data list \<Rightarrow> nat \<Rightarrow> rlp_data option" where
  "at vs i = (if i < length vs then Some (vs ! i) else None)"

definition as_bytes :: "rlp_data option \<Rightarrow> bytes option" where
  "as_bytes v = (case v of Some (DBytes bs) \<Rightarrow> Some bs | _ \<Rightarrow> None)"

definition no_leading_zeroes :: "externals \<Rightarrow> rlp_data list \<Rightarrow> (string \<times> nat) list \<Rightarrow> exn + unit" where
  "no_leading_zeroes x vs names = validateNoLeadingZeroes x (map (\<lambda>(name, i). (name, as_bytes (at vs i))) names)"

definition int_of_value :: "externals \<Rightarrow> rlp_data option \<Rightarrow> exn + int" where
  "int_of_value x v = (case v of None \<Rightarrow> Inr (bytesToBigInt x []) | Some (DBytes bs) \<Rightarrow> Inr (bytesToBigInt x bs) | Some (DList _) \<Rightarrow> Inl (PlainError ''Uint8Array expected''))"

definition value_present :: "rlp_data option \<Rightarrow> bool" where
  "value_present v \<longleftrightarrow> (case v of None \<Rightarrow> False | Some d \<Rightarrow> item_length d > 0)"

definition bytesToAddress :: "rlp_data \<Rightarrow> exn + address" where
  "bytesToAddress d = (if item_length d > 20 then Inl (PlainError ''Invalid address, too long'')
     else case d of DBytes bs \<Rightarrow> new_Address (setLengthLeft bs 20) | DList _ \<Rightarrow> Inl (PlainError ''This method only supports Uint8Array''))"

definition address_of_value :: "rlp_data option \<Rightarrow> exn + address option" where
  "address_of_value v = (case v of Some d \<Rightarrow> if item_length d > 0 then map_sum id Some (bytesToAddress d) else Inr None | None \<Rightarrow> Inr None)"

definition required_address :: "rlp_data option \<Rightarrow> exn + address" where
  "required_address v = (case v of Some d \<Rightarrow> if item_length d = 0 then Inl (PlainError ''transactions require a to address'') else bytesToAddress d
     | None \<Rightarrow> Inl (PlainError ''transactions require a to address''))"

definition sig_of_value :: "externals \<Rightarrow> rlp_data option \<Rightarrow> exn + int option" where
  "sig_of_value x v = (if value_present v then map_sum id Some (int_of_value x v) else Inr None)"

definition value_or_empty :: "rlp_data option \<Rightarrow> rlp_data \<Rightarrow> rlp_data" where
  "value_or_empty v missing = (case v of None \<Rightarrow> missing | Some d \<Rightarrow> d)"

definition createLegacyTxManagerFromBytesArray :: "externals \<Rightarrow> rlp_data list \<Rightarrow> tx_options \<Rightarrow> exn + frozen_tx" where
  "createLegacyTxManagerFromBytesArray x vs opts =
     (if length vs \<noteq> 6 \<and> length vs \<noteq> 9 then Inl (PlainError ''Invalid transaction. Only expecting 6 values (for unsigned tx) or 9 values (for signed tx).'')
      else let v = at vs in
        bindR (no_leading_zeroes x vs [(''nonce'', 0), (''gasPrice'', 1), (''gasLimit'', 2), (''value'', 4), (''v'', 6), (''r'', 7), (''s'', 8)]) (\<lambda>_.
        bindR (int_of_value x (v 0)) (\<lambda>nonce. bindR (int_of_value x (v 1)) (\<lambda>gasPrice. bindR (int_of_value x (v 2)) (\<lambda>gasLimit.
        bindR (address_of_value (v 3)) (\<lambda>to. bindR (int_of_value x (v 4)) (\<lambda>value.
        bindR (sig_of_value x (v 6)) (\<lambda>vv. bindR (sig_of_value x (v 7)) (\<lambda>r. bindR (sig_of_value x (v 8)) (\<lambda>s.
          Inr (newTx (LegacyTxData \<lparr>tx_chainId = 0, tx_nonce = nonce, tx_gasLimit = gasLimit, tx_to = to, tx_value = value,
            tx_data = value_or_empty (v 5) (DBytes []), tx_v = vv, tx_r = r, tx_s = s\<rparr> gasPrice) opts)))))))))))"

text \<open>\<open>RLP.decode(serialized)\<close>, which must be an array.\<close>

definition decoded_list :: "bytes \<Rightarrow> exn + rlp_data list" where
  "decoded_list bs = bindR (decode (RBytes bs) False) (\<lambda>d. case d of Plain (DList vs) \<Rightarrow> Inr vs
     | _ \<Rightarrow> Inl (PlainError ''Invalid serialized tx input. Must be array''))"

definition createLegacyTxManagerFromRLP :: "externals \<Rightarrow> bytes \<Rightarrow> tx_options \<Rightarrow> exn + frozen_tx" where
  "createLegacyTxManagerFromRLP x bs opts = bindR (decoded_list bs) (\<lambda>vs. createLegacyTxManagerFromBytesArray x vs opts)"

text \<open>The signature of a typed transaction, at position \<open>i\<close>: absent unless \<open>r\<close> and \<open>s\<close> are there.\<close>

definition typed_signature :: "externals \<Rightarrow> rlp_data list \<Rightarrow> nat \<Rightarrow> exn + int option \<times> int option \<times> int option" where
  "typed_signature x vs i =
     (if value_present (at vs (i + 1)) \<and> value_present (at vs (i + 2))
      then bindR (int_of_value x (at vs i)) (\<lambda>v. bindR (int_of_value x (at vs (i + 1))) (\<lambda>r. bindR (int_of_value x (at vs (i + 2))) (\<lambda>s.
        Inr (Some v, Some r, Some s))))
      else Inr (None, None, None))"

definition createAccessListTxManagerFromRLP :: "externals \<Rightarrow> bytes \<Rightarrow> tx_options \<Rightarrow> exn + frozen_tx" where
  "createAccessListTxManagerFromRLP x serialized opts = bindR (decoded_list (drop 1 serialized)) (\<lambda>vs. let v = at vs in
     bindR (no_leading_zeroes x vs
       [(''chainId'', 0), (''nonce'', 1), (''gasPrice'', 2), (''gasLimit'', 3), (''value'', 5), (''v'', 8), (''r'', 9), (''s'', 10)]) (\<lambda>_.
     bindR (int_of_value x (v 0)) (\<lambda>chainId. bindR (int_of_value x (v 1)) (\<lambda>nonce. bindR (int_of_value x (v 2)) (\<lambda>gasPrice.
     bindR (int_of_value x (v 3)) (\<lambda>gasLimit. bindR (address_of_value (v 4)) (\<lambda>to. bindR (int_of_value x (v 5)) (\<lambda>value.
     bindR (typed_signature x vs 8) (\<lambda>(vv, r, s).
       Inr (newTx (AccessListTxData \<lparr>tx_chainId = chainId, tx_nonce = nonce, tx_gasLimit = gasLimit, tx_to = to, tx_value = value,
         tx_data = value_or_empty (v 6) (DBytes []), tx_v = vv, tx_r = r, tx_s = s\<rparr> gasPrice (value_or_empty (v 7) (DList []))) opts))))))))))"

definition createDynamicFeeTxManagerFromRLP :: "externals \<Rightarrow> bytes \<Rightarrow> tx_options \<Rightarrow> exn + frozen_tx" where
  "createDynamicFeeTxManagerFromRLP x serialized opts = bindR (decoded_list (drop 1 serialized)) (\<lambda>vs. let v = at vs in
     bindR (no_leading_zeroes x vs
       [(''chainId'', 0), (''nonce'', 1), (''maxPriorityFeePerGas'', 2), (''maxFeePerGas'', 3), (''gasLimit'', 4), (''value'', 6), (''v'', 9), (''r'', 10), (''s'', 11)]) (\<lambda>_.
     bindR (int_of_value x (v 0)) (\<lambda>chainId. bindR (int_of_value x (v 1)) (\<lambda>nonce. bindR (int_of_value x (v 2)) (\<lambda>tip.
     bindR (int_of_value x (v 3)) (\<lambda>maxFee. bindR (int_of_value x (v 4)) (\<lambda>gasLimit. bindR (address_of_value (v 5)) (\<lambda>to.
     bindR (int_of_value x (v 6)) (\<lambda>value. bindR (typed_signature x vs 9) (\<lambda>(vv, r, s).
       Inr (newTx (DynamicFeeTxData \<lparr>tx_chainId = chainId, tx_nonce = nonce, tx_gasLimit = gasLimit, tx_to = to, tx_value = value,
         tx_data = value_or_empty (v 7) (DBytes []), tx_v = vv, tx_r = r, tx_s = s\<rparr> tip maxFee (value_or_empty (v 8) (DList []))) opts)))))))))))"

text \<open>The hashes go through hexadecimal text and back, which only byte arrays survive.\<close>

definition blob_hashes :: "rlp_data option \<Rightarrow> exn + rlp_data" where
  "blob_hashes v = (case v of None \<Rightarrow> Inr (DList []) | Some (DBytes []) \<Rightarrow> Inr (DBytes [])
     | Some (DList hs) \<Rightarrow> if \<forall>h\<in>set hs. \<exists>bs. h = DBytes bs then Inr (DList hs) else Inl (PlainError ''Uint8Array expected'')
     | _ \<Rightarrow> Inl (PlainError ''Uint8Array expected''))"

definition createBlobTxManagerFromRLP :: "externals \<Rightarrow> bytes \<Rightarrow> tx_options \<Rightarrow> exn + frozen_tx" where
  "createBlobTxManagerFromRLP x serialized opts = bindR (decoded_list (drop 1 serialized)) (\<lambda>vs. let v = at vs in
     bindR (no_leading_zeroes x vs
       [(''chainId'', 0), (''nonce'', 1), (''maxPriorityFeePerGas'', 2), (''maxFeePerGas'', 3), (''gasLimit'', 4), (''value'', 6), (''maxFeePerBlobGas'', 9), (''v'', 11), (''r'', 12), (''s'', 13)]) (\<lambda>_.
     bindR (required_address (v 5)) (\<lambda>to.
     bindR (int_of_value x (v 0)) (\<lambda>chainId. bindR (int_of_value x (v 1)) (\<lambda>nonce. bindR (int_of_value x (v 2)) (\<lambda>tip.
     bindR (int_of_value x (v 3)) (\<lambda>maxFee. bindR (int_of_value x (v 4)) (\<lambda>gasLimit. bindR (int_of_value x (v 6)) (\<lambda>value.
     bindR (int_of_value x (v 9)) (\<lambda>maxBlobFee. bindR (blob_hashes (v 10)) (\<lambda>hashes. bindR (typed_signature x vs 11) (\<lambda>(vv, r, s).
       Inr (newTx (BlobTxData \<lparr>tx_chainId = chainId, tx_nonce = nonce, tx_gasLimit = gasLimit, tx_to = Some to, tx_value = value,
         tx_data = value_or_empty (v 7) (DBytes []), tx_v = vv, tx_r = r, tx_s = s\<rparr> tip maxFee (value_or_empty (v 8) (DList [])) maxBlobFee hashes) opts)))))))))))))"

definition createSetCodeTxManagerFromRLP :: "externals \<Rightarrow> bytes \<Rightarrow> tx_options \<Rightarrow> exn + frozen_tx" where
  "createSetCodeTxManagerFromRLP x serialized opts = bindR (decoded_list (drop 1 serialized)) (\<lambda>vs. let v = at vs in
     bindR (no_leading_zeroes x vs
       [(''chainId'', 0), (''nonce'', 1), (''maxPriorityFeePerGas'', 2), (''maxFeePerGas'', 3), (''gasLimit'', 4), (''value'', 6), (''v'', 10), (''r'', 11), (''s'', 12)]) (\<lambda>_.
     bindR (required_address (v 5)) (\<lambda>to.
     bindR (int_of_value x (v 0)) (\<lambda>chainId. bindR (int_of_value x (v 1)) (\<lambda>nonce. bindR (int_of_value x (v 2)) (\<lambda>tip.
     bindR (int_of_value x (v 3)) (\<lambda>maxFee. bindR (int_of_value x (v 4)) (\<lambda>gasLimit. bindR (int_of_value x (v 6)) (\<lambda>value.
     bindR (typed_signature x vs 10) (\<lambda>(vv, r, s).
       Inr (newTx (SetCodeTxData \<lparr>tx_chainId = chainId, tx_nonce = nonce, tx_gasLimit = gasLimit, tx_to = Some to, tx_value = value,
         tx_data = value_or_empty (v 7) (DBytes []), tx_v = vv, tx_r = r, tx_s = s\<rparr> tip maxFee (value_or_empty (v 8) (DList [])) (value_or_empty (v 9) (DList []))) opts)))))))))))"

definition createTxManagerFromRLP :: "externals \<Rightarrow> bytes \<Rightarrow> tx_options \<Rightarrow> exn + frozen_tx" where
  "createTxManagerFromRLP x bs opts = (case bs of
       b # _ \<Rightarrow> if b \<le> 0x7f then
           (if b = 1 then createAccessListTxManagerFromRLP x bs opts
            else if b = 2 then createDynamicFeeTxManagerFromRLP x bs opts
            else if b = 3 then createBlobTxManagerFromRLP x bs opts
            else if b = 4 then createSetCodeTxManagerFromRLP x bs opts
            else Inl (PlainError ''TypedTransaction unknown''))
         else createLegacyTxManagerFromRLP x bs opts
     | [] \<Rightarrow> createLegacyTxManagerFromRLP x bs opts)"

definition createTxManagerFromBlockBodyData :: "externals \<Rightarrow> rlp_data \<Rightarrow> tx_options \<Rightarrow> exn + frozen_tx" where
  "createTxManagerFromBlockBodyData x d opts = (case d of DBytes bs \<Rightarrow> createTxManagerFromRLP x bs opts
     | DList vs \<Rightarrow> createLegacyTxManagerFromBytesArray x vs opts)"


section \<open>Reading back what is written\<close>

text \<open>The values of the raw form, and the transactions a node can hold: numbers are not negative, an address has twenty
  bytes, data is a byte array, and the signature is absent or complete, with \<open>r\<close> and \<open>s\<close> (and the legacy
  \<open>v\<close>) not zero.\<close>

definition sig_value :: "int option \<Rightarrow> rlp_data" where
  "sig_value v = (case v of None \<Rightarrow> DBytes [] | Some n \<Rightarrow> DBytes (int_bytes n))"

definition to_value :: "address option \<Rightarrow> rlp_data" where
  "to_value to = (case to of None \<Rightarrow> DBytes [] | Some a \<Rightarrow> DBytes a)"

fun message_values :: "tx_inner \<Rightarrow> rlp_data list" where
  "message_values (LegacyTxData f p) =
     [DBytes (int_bytes (tx_nonce f)), DBytes (int_bytes p), DBytes (int_bytes (tx_gasLimit f)), to_value (tx_to f), DBytes (int_bytes (tx_value f)), tx_data f]"
| "message_values (AccessListTxData f p l) =
     [DBytes (int_bytes (tx_chainId f)), DBytes (int_bytes (tx_nonce f)), DBytes (int_bytes p), DBytes (int_bytes (tx_gasLimit f)), to_value (tx_to f),
      DBytes (int_bytes (tx_value f)), tx_data f, l]"
| "message_values (DynamicFeeTxData f t m l) =
     [DBytes (int_bytes (tx_chainId f)), DBytes (int_bytes (tx_nonce f)), DBytes (int_bytes t), DBytes (int_bytes m), DBytes (int_bytes (tx_gasLimit f)),
      to_value (tx_to f), DBytes (int_bytes (tx_value f)), tx_data f, l]"
| "message_values (BlobTxData f t m l b hs) =
     [DBytes (int_bytes (tx_chainId f)), DBytes (int_bytes (tx_nonce f)), DBytes (int_bytes t), DBytes (int_bytes m), DBytes (int_bytes (tx_gasLimit f)),
      to_value (tx_to f), DBytes (int_bytes (tx_value f)), tx_data f, l, DBytes (int_bytes b), hs]"
| "message_values (SetCodeTxData f t m l auths) =
     [DBytes (int_bytes (tx_chainId f)), DBytes (int_bytes (tx_nonce f)), DBytes (int_bytes t), DBytes (int_bytes m), DBytes (int_bytes (tx_gasLimit f)),
      to_value (tx_to f), DBytes (int_bytes (tx_value f)), tx_data f, l, auths]"

definition tx_values :: "tx_inner \<Rightarrow> rlp_data list" where
  "tx_values t = (let f = tx_fields_of t in message_values t @ [sig_value (tx_v f), sig_value (tx_r f), sig_value (tx_s f)])"

fun tx_numbers :: "tx_inner \<Rightarrow> int list" where
  "tx_numbers (LegacyTxData f p) = [p]"
| "tx_numbers (AccessListTxData f p l) = [p]"
| "tx_numbers (DynamicFeeTxData f t m l) = [t, m]"
| "tx_numbers (BlobTxData f t m l b hs) = [t, m, b]"
| "tx_numbers (SetCodeTxData f t m l auths) = [t, m]"

definition signature_wf :: "bool \<Rightarrow> tx_fields \<Rightarrow> bool" where
  "signature_wf legacy f \<longleftrightarrow> (tx_v f = None \<and> tx_r f = None \<and> tx_s f = None)
     \<or> (\<exists>v r s. tx_v f = Some v \<and> tx_r f = Some r \<and> tx_s f = Some s \<and> 0 < r \<and> 0 < s \<and> 0 \<le> v \<and> (legacy \<longrightarrow> 0 < v))"

definition tx_wf :: "tx_inner \<Rightarrow> bool" where
  "tx_wf t \<longleftrightarrow> (let f = tx_fields_of t in
     (\<forall>n\<in>set (tx_numbers t @ [tx_chainId f, tx_nonce f, tx_gasLimit f, tx_value f]). 0 \<le> n)
   \<and> (\<forall>a. tx_to f = Some a \<longrightarrow> length a = 20) \<and> (3 \<le> tx_type t \<longrightarrow> tx_to f \<noteq> None)
   \<and> (\<exists>bs. tx_data f = DBytes bs) \<and> signature_wf (tx_type t = 0) f \<and> (tx_type t = 0 \<longrightarrow> tx_chainId f = 0)
   \<and> (case t of BlobTxData _ _ _ _ _ hs \<Rightarrow> (\<exists>bss. hs = DList (map DBytes bss)) | _ \<Rightarrow> True))"

lemma data_item: "data_input (DBytes bs) = RBytes bs" "to_item to = data_input (to_value to)"
  by (simp_all add: to_item_def to_value_def split: option.split)

lemma sig_item_run: "noble_ok x \<Longrightarrow> (\<forall>n. v = Some n \<longrightarrow> 0 \<le> n) \<Longrightarrow> sig_item x v = Inr (data_input (sig_value v))"
  by (cases v) (simp_all add: sig_item_def sig_value_def int_item_run)

lemma tx_raw_run:
  assumes "noble_ok x" "tx_wf t"
  shows "tx_raw x t = Inr (map data_input (tx_values t))"
proof -
  let ?f = "tx_fields_of t"
  have sig: "sig_item x (tx_v ?f) = Inr (data_input (sig_value (tx_v ?f)))" "sig_item x (tx_r ?f) = Inr (data_input (sig_value (tx_r ?f)))"
    "sig_item x (tx_s ?f) = Inr (data_input (sig_value (tx_s ?f)))"
    using assms(2) by (intro sig_item_run [OF assms(1)]; auto simp: tx_wf_def signature_wf_def Let_def)+
  have "message_items x t = map Inr (map data_input (message_values t))"
    using assms by (cases t) (simp_all add: tx_wf_def Let_def int_item_run data_item)
  then show ?thesis using sig all_right_Inr [of "map data_input (tx_values t)"] by (simp add: tx_raw_def tx_values_def Let_def)
qed


lemma at_Cons [simp]: "at (v # vs) 0 = Some v" "at (v # vs) (Suc i) = at vs i" "at [] i = None"
  by (simp_all add: at_def)

lemma at_numeral [simp]: "at (v # vs) (numeral n) = at vs (pred_numeral n)"
  by (simp add: at_def numeral_eq_Suc)

lemma int_of_value_run [simp]: "noble_ok x \<Longrightarrow> 0 \<le> n \<Longrightarrow> int_of_value x (Some (DBytes (int_bytes n))) = Inr n"
  by (simp add: int_of_value_def)

lemma address_of_value_run [simp]: "(\<forall>a. to = Some a \<longrightarrow> length a = 20) \<Longrightarrow> address_of_value (Some (to_value to)) = Inr to"
  by (cases to) (auto simp: address_of_value_def to_value_def bytesToAddress_def new_Address_def setLengthLeft_long)

lemma required_address_run [simp]: "to \<noteq> None \<Longrightarrow> (\<forall>a. to = Some a \<longrightarrow> length a = 20) \<Longrightarrow> required_address (Some (to_value to)) = Inr (the to)"
  by (cases to) (auto simp: required_address_def to_value_def bytesToAddress_def new_Address_def setLengthLeft_long)

lemma blob_hashes_run [simp]: "blob_hashes (Some (DList (map DBytes bss))) = Inr (DList (map DBytes bss))"
  by (auto simp: blob_hashes_def)

lemma no_leading_zeroes_run:
  assumes "\<And>name i b bs. (name, i) \<in> set names \<Longrightarrow> at vs i = Some (DBytes (b # bs)) \<Longrightarrow> b \<noteq> 0"
  shows "no_leading_zeroes x vs names = Inr ()"
proof -
  have "List.find (\<lambda>(k, v). case v of Some (b # _) \<Rightarrow> b = 0 | _ \<Rightarrow> False) (map (\<lambda>(name, i). (name, as_bytes (at vs i))) names) = None"
    using assms by (fastforce simp: find_None_iff as_bytes_def split: option.splits rlp_data.splits list.splits)
  then show ?thesis by (simp add: no_leading_zeroes_def validateNoLeadingZeroes_def)
qed

lemma sig_value_head: "sig_value v = DBytes (b # bs) \<Longrightarrow> b \<noteq> 0"
  by (auto simp: sig_value_def split: option.splits dest: int_bytes_head)

text \<open>Where a value of the raw form starts with a zero byte, it is the address or the data.\<close>

lemma legacy_signature:
  assumes "noble_ok x" "signature_wf True f"
  shows "sig_of_value x (Some (sig_value (tx_v f))) = Inr (tx_v f)" "sig_of_value x (Some (sig_value (tx_r f))) = Inr (tx_r f)"
    "sig_of_value x (Some (sig_value (tx_s f))) = Inr (tx_s f)"
  using assms by (auto simp: signature_wf_def sig_of_value_def sig_value_def value_present_def)

lemma typed_signature_run:
  assumes "noble_ok x" "signature_wf False f" "at vs i = Some (sig_value (tx_v f))" "at vs (i + 1) = Some (sig_value (tx_r f))"
    "at vs (i + 2) = Some (sig_value (tx_s f))"
  shows "typed_signature x vs i = Inr (tx_v f, tx_r f, tx_s f)"
  using assms by (auto simp: signature_wf_def typed_signature_def sig_value_def value_present_def)


lemma decoded_list_run: "decode (RBytes bs) False = Inr (Plain (DList vs)) \<Longrightarrow> decoded_list bs = Inr vs"
  by (simp add: decoded_list_def)

lemmas read_simps = tx_wf_def tx_values_def Let_def value_or_empty_def newTx_def

lemma read_legacy:
  assumes "noble_ok x" "tx_wf (LegacyTxData f p)"
  shows "createLegacyTxManagerFromBytesArray x (tx_values (LegacyTxData f p)) opts = Inr (newTx (LegacyTxData f p) opts)"
proof -
  have z: "no_leading_zeroes x (tx_values (LegacyTxData f p))
      [(''nonce'', 0), (''gasPrice'', 1), (''gasLimit'', 2), (''value'', 4), (''v'', 6), (''r'', 7), (''s'', 8)] = Inr ()"
    by (rule no_leading_zeroes_run) (auto simp: tx_values_def Let_def dest: int_bytes_head sig_value_head)
  have s: "signature_wf True f" "tx_chainId f = 0" using assms(2) by (simp_all add: tx_wf_def Let_def)
  show ?thesis using assms s(2) unfolding createLegacyTxManagerFromBytesArray_def z Let_def
    by (simp add: read_simps legacy_signature [OF assms(1) s(1)])
qed

lemma read_access_list:
  assumes "noble_ok x" "tx_wf (AccessListTxData f p l)" "decode (RBytes bs) False = Inr (Plain (DList (tx_values (AccessListTxData f p l))))"
  shows "createAccessListTxManagerFromRLP x (b # bs) opts = Inr (newTx (AccessListTxData f p l) opts)"
proof -
  let ?vs = "tx_values (AccessListTxData f p l)"
  have z: "no_leading_zeroes x ?vs [(''chainId'', 0), (''nonce'', 1), (''gasPrice'', 2), (''gasLimit'', 3), (''value'', 5), (''v'', 8), (''r'', 9), (''s'', 10)] = Inr ()"
    by (rule no_leading_zeroes_run) (auto simp: tx_values_def Let_def dest: int_bytes_head sig_value_head)
  have s: "typed_signature x ?vs 8 = Inr (tx_v f, tx_r f, tx_s f)"
    using assms(2) by (intro typed_signature_run [OF assms(1)]) (simp_all add: tx_wf_def tx_values_def Let_def)
  show ?thesis using assms decoded_list_run [OF assms(3)] z s
    by (simp add: createAccessListTxManagerFromRLP_def) (simp add: read_simps)
qed

lemma read_dynamic_fee:
  assumes "noble_ok x" "tx_wf (DynamicFeeTxData f t m l)" "decode (RBytes bs) False = Inr (Plain (DList (tx_values (DynamicFeeTxData f t m l))))"
  shows "createDynamicFeeTxManagerFromRLP x (b # bs) opts = Inr (newTx (DynamicFeeTxData f t m l) opts)"
proof -
  let ?vs = "tx_values (DynamicFeeTxData f t m l)"
  have z: "no_leading_zeroes x ?vs [(''chainId'', 0), (''nonce'', 1), (''maxPriorityFeePerGas'', 2), (''maxFeePerGas'', 3), (''gasLimit'', 4),
      (''value'', 6), (''v'', 9), (''r'', 10), (''s'', 11)] = Inr ()"
    by (rule no_leading_zeroes_run) (auto simp: tx_values_def Let_def dest: int_bytes_head sig_value_head)
  have s: "typed_signature x ?vs 9 = Inr (tx_v f, tx_r f, tx_s f)"
    using assms(2) by (intro typed_signature_run [OF assms(1)]) (simp_all add: tx_wf_def tx_values_def Let_def)
  show ?thesis using assms decoded_list_run [OF assms(3)] z s
    by (simp add: createDynamicFeeTxManagerFromRLP_def) (simp add: read_simps)
qed

lemma read_blob:
  assumes "noble_ok x" "tx_wf (BlobTxData f t m l c hs)" "decode (RBytes bs) False = Inr (Plain (DList (tx_values (BlobTxData f t m l c hs))))"
  shows "createBlobTxManagerFromRLP x (b # bs) opts = Inr (newTx (BlobTxData f t m l c hs) opts)"
proof -
  let ?vs = "tx_values (BlobTxData f t m l c hs)"
  have z: "no_leading_zeroes x ?vs [(''chainId'', 0), (''nonce'', 1), (''maxPriorityFeePerGas'', 2), (''maxFeePerGas'', 3), (''gasLimit'', 4),
      (''value'', 6), (''maxFeePerBlobGas'', 9), (''v'', 11), (''r'', 12), (''s'', 13)] = Inr ()"
    by (rule no_leading_zeroes_run) (auto simp: tx_values_def Let_def dest: int_bytes_head sig_value_head)
  have s: "typed_signature x ?vs 11 = Inr (tx_v f, tx_r f, tx_s f)"
    using assms(2) by (intro typed_signature_run [OF assms(1)]) (simp_all add: tx_wf_def tx_values_def Let_def)
  obtain bss where hs: "hs = DList (map DBytes bss)" using assms(2) by (auto simp: tx_wf_def Let_def)
  obtain a where a: "tx_to f = Some a" "length a = 20" using assms(2) by (auto simp: tx_wf_def Let_def)
  show ?thesis using assms decoded_list_run [OF assms(3)] z s hs a
    by (simp add: createBlobTxManagerFromRLP_def) (simp add: read_simps)
qed

lemma read_set_code:
  assumes "noble_ok x" "tx_wf (SetCodeTxData f t m l auths)" "decode (RBytes bs) False = Inr (Plain (DList (tx_values (SetCodeTxData f t m l auths))))"
  shows "createSetCodeTxManagerFromRLP x (b # bs) opts = Inr (newTx (SetCodeTxData f t m l auths) opts)"
proof -
  let ?vs = "tx_values (SetCodeTxData f t m l auths)"
  have z: "no_leading_zeroes x ?vs [(''chainId'', 0), (''nonce'', 1), (''maxPriorityFeePerGas'', 2), (''maxFeePerGas'', 3), (''gasLimit'', 4),
      (''value'', 6), (''v'', 10), (''r'', 11), (''s'', 12)] = Inr ()"
    by (rule no_leading_zeroes_run) (auto simp: tx_values_def Let_def dest: int_bytes_head sig_value_head)
  have s: "typed_signature x ?vs 10 = Inr (tx_v f, tx_r f, tx_s f)"
    using assms(2) by (intro typed_signature_run [OF assms(1)]) (simp_all add: tx_wf_def tx_values_def Let_def)
  obtain a where a: "tx_to f = Some a" "length a = 20" using assms(2) by (auto simp: tx_wf_def Let_def)
  show ?thesis using assms decoded_list_run [OF assms(3)] z s a
    by (simp add: createSetCodeTxManagerFromRLP_def) (simp add: read_simps)
qed


lemma reads_back:
  assumes "noble_ok x" "tx_wf t"
  obtains bs where "tx_serialize x t = Inr bs" "bs \<noteq> []" "length bs < 2 ^ 64 \<Longrightarrow> createTxManagerFromRLP x bs opts = Inr (newTx t opts)"
proof -
  obtain bs where bs: "encode (RArray (map data_input (tx_values t))) = Inr bs" "bs \<noteq> []"
    "length bs < 2 ^ 64 \<longrightarrow> decode (RBytes bs) False = Inr (Plain (DList (tx_values t)))" using encoded_list by blast
  have ser: "tx_serialize x t = Inr (typed t bs)" using tx_raw_run [OF assms] bs(1) by (simp add: tx_serialize_def del: encode.simps)
  have "createTxManagerFromRLP x (typed t bs) opts = Inr (newTx t opts)" if len: "length (typed t bs) < 2 ^ 64"
  proof -
    have "length bs \<le> length (typed t bs)" by (simp add: typed_def)
    then have d: "decode (RBytes bs) False = Inr (Plain (DList (tx_values t)))" using bs(3) len by (meson le_less_trans)
    show ?thesis
    proof (cases t)
      case (LegacyTxData f p)
      obtain b cs where "bs = b # cs" "\<not> b \<le> 0x7f" using bs(2) d list_first_byte by (cases bs) blast+
      then show ?thesis using read_legacy [of x f p opts] assms LegacyTxData d
        by (simp add: createTxManagerFromRLP_def createLegacyTxManagerFromRLP_def typed_def decoded_list_run)
    qed (use assms d in \<open>simp_all add: createTxManagerFromRLP_def typed_def read_access_list read_dynamic_fee read_blob read_set_code\<close>)
  qed
  then show ?thesis using that ser bs(2) by (simp add: typed_def)
qed

lemma newTx_inner [simp]: "ft_inner (newTx t opts) = t"
  by (simp add: newTx_def)

text \<open>C34: every well-formed transaction, of each of the five kinds, signed or not, is serialised, and reading the
  bytes back gives the same transaction: the kind from its first byte, all fields, access list, blob hashes,
  authorisations and signature. So no two well-formed transactions have the same bytes.\<close>

theorem tx_roundtrip:
  assumes "noble_ok x" "tx_wf t"
  shows "\<exists>bs. tx_serialize x t = Inr bs \<and> (length bs < 2 ^ 64 \<longrightarrow> createTxManagerFromRLP x bs opts = Inr (newTx t opts)
    \<and> (\<forall>u. tx_wf u \<and> tx_serialize x u = Inr bs \<longrightarrow> u = t))"
proof -
  obtain bs where bs: "tx_serialize x t = Inr bs" "length bs < 2 ^ 64 \<Longrightarrow> createTxManagerFromRLP x bs opts = Inr (newTx t opts)"
    using reads_back [OF assms] by blast
  have "u = t" if "length bs < 2 ^ 64" "tx_wf u" "tx_serialize x u = Inr bs" for u
    using reads_back [OF assms(1) that(2), of opts] that(1,3) bs(2) newTx_inner by (metis sum.inject(2))
  then show ?thesis using bs by blast
qed

section \<open>Signing and recovering\<close>

lemma or_byte: "0 \<le> a \<Longrightarrow> push_bit 8 a OR uint (b :: byte) = a * 256 + uint b" for a :: int
proof -
  have "push_bit 8 a AND uint b = 0" by (rule bit_eqI) (auto simp: bit_and_iff bit_push_bit_iff bit_uint_iff)
  then show ?thesis by (simp add: disjunctive_add_eq_or [symmetric] push_bit_eq_mult)
qed

lemma bytes_to_int_eq: "0 \<le> a \<Longrightarrow> bytes_to_int bs a = a * 256 ^ length bs + be_value bs"
  by (induction bs arbitrary: a) (simp_all add: or_byte be_value_Cons algebra_simps)

lemma bytes_to_int_0 [simp]: "bytes_to_int bs 0 = be_value bs"
  by (simp add: bytes_to_int_eq)


lemma take_be_bytes: "length bs = 32 \<Longrightarrow> setLengthLeft (int_bytes (be_value bs)) 32 = bs"
proof -
  assume len: "length bs = 32"
  have "length (stripZeros ws) \<le> length ws" for ws :: bytes by (induction ws) auto
  moreover have "nat (be_value bs) < 256 ^ 32" using be_value_bounds(2) [of bs] len be_value_bounds(1) [of bs] by (simp add: nat_less_iff)
  ultimately have "length (int_bytes (be_value bs)) \<le> 32"
    using length_be_bytes_le [of "nat (be_value bs)" 32] unfolding int_bytes_def by (meson le_trans zero_less_numeral)
  then show ?thesis using len be_value_bounds(1) [of bs]
    by (intro be_value_inj) (simp_all add: length_setLengthLeft)
qed

lemma message_unsigned: "message_items x (setSignatureValues v r s t) = message_items x t"
  by (cases t) (simp_all add: with_vrs_def)

lemma type_unsigned [simp]: "tx_type (setSignatureValues v r s t) = tx_type t"
  by (cases t) simp_all

lemma typed_unsigned: "typed (setSignatureValues v r s t) = typed t"
  by (cases t) (simp_all add: typed_def fun_eq_iff)

lemma sigHash_unsigned: "sigHash x c (setSignatureValues v r s t) = sigHash x c t"
  by (simp add: sigHash_def getMessageToSign_def message_unsigned typed_unsigned)

lemma fields_signed [simp]: "tx_v (tx_fields_of (setSignatureValues v r s t)) = Some v" "tx_r (tx_fields_of (setSignatureValues v r s t)) = Some r"
  "tx_s (tx_fields_of (setSignatureValues v r s t)) = Some s" "tx_chainId (tx_fields_of (setSignatureValues v r s t)) = tx_chainId (tx_fields_of t)"
  by (cases t; simp add: with_vrs_def)+

lemma chainID_signed: "chainID (setSignatureValues v r s t) = (if tx_type t = 0 then legacy_chainID (Some v) else chainID t)"
  by (cases t) (simp_all add: with_vrs_def)

text \<open>What the curve library promises for a hash and a private key: a signature with a recovery bit, \<open>s\<close> in the lower half
  of the order, from which the public key is recovered.\<close>

definition signs_well :: "ecdsa \<Rightarrow> bytes \<Rightarrow> bytes \<Rightarrow> bool" where
  "signs_well E h k \<longleftrightarrow> (\<exists>compact n. ec_sign E h k = Inr (compact, Some n) \<and> length compact = 64 \<and> n \<le> 1
     \<and> be_value (drop 32 compact) \<le> SECP256K1_ORDER_DIV_2
     \<and> (\<exists>key. ec_recover E compact n h = Inr key \<and> length key = 65 \<and> drop 1 key = ec_public E k))"

lemma recovered_run:
  assumes "noble_ok x" "length compact = 64" "n \<le> 1" "calculateSigRecovery v chainId = int n"
    "ec_recover E compact n h = Inr key" "length key = 65" "length (keccak256 x (drop 1 key)) = 32"
  shows "recovered x E h v (be_value (take 32 compact)) (be_value (drop 32 compact)) chainId = Inr (drop 12 (keccak256 x (drop 1 key)))"
proof -
  have u: "bigIntToUnpaddedBytes x (be_value bs) = Inr (int_bytes (be_value bs))" for bs
    using assms(1) be_value_bounds(1) [of bs] by (simp add: bigIntToUnpaddedBytes_def int_bytes_def unpadBytes_def)
  have "setLengthLeft (int_bytes (be_value (take 32 compact))) 32 @ setLengthLeft (int_bytes (be_value (drop 32 compact))) 32 = compact"
    using assms(2) by (simp add: take_be_bytes)
  then have "ecrecover E h v (int_bytes (be_value (take 32 compact))) (int_bytes (be_value (drop 32 compact))) chainId = Inr (drop 1 key)"
    using assms(3-5) by (auto simp: ecrecover_def Let_def isValidSigRecovery_def le_Suc_eq)
  then show ?thesis using assms(6,7) by (simp add: recovered_def u pubToAddress_def new_Address_def subarray_last_def)
qed


lemma hash_total:
  assumes "noble_ok x" "tx_wf t" "0 \<le> c"
  obtains h where "sigHash x c t = Inr h"
proof -
  have m: "message_items x t = map Inr (map data_input (message_values t))"
    using assms by (cases t) (simp_all add: tx_wf_def Let_def int_item_run data_item)
  obtain ds where "getMessageToSign x c t = Inr (map data_input ds)"
  proof (cases "tx_type t = 0 \<and> 0 < c")
    case True
    then show ?thesis using that [of "message_values t @ [DBytes (int_bytes c), DBytes [], DBytes []]"]
        all_right_Inr [of "map data_input (message_values t @ [DBytes (int_bytes c), DBytes [], DBytes []])"] assms(1,3)
      by (simp add: getMessageToSign_def m int_item_run)
  next
    case False
    then show ?thesis using that [of "message_values t"] all_right_Inr [of "map data_input (message_values t)"]
      unfolding getMessageToSign_def m if_not_P [OF False] by simp
  qed
  then show ?thesis using encoded_list [of ds] that by (auto simp: sigHash_def simp del: encode.simps)
qed

definition recovery_offset :: "signer \<Rightarrow> nat \<Rightarrow> int" where
  "recovery_offset s n = (case signer_chainID s of None \<Rightarrow> 27 | Some c \<Rightarrow> if n = 0 then 35 + c * 2 else 0)"

lemma signatureValues_run:
  assumes "length compact = 64" "n \<le> 1" "supportsType s (tx_type t)"
    and "\<And>c. signer_chainID s = Some c \<Longrightarrow> 0 < c \<and> (tx_type t \<noteq> 0 \<longrightarrow> chainID t = c)"
  shows "signatureValues s t (compact @ [of_nat n]) = Inr (be_value (take 32 compact), be_value (drop 32 compact), int n + recovery_offset s (tx_type t))"
proof -
  have "n = 0 \<or> n = 1" using assms(2) by auto
  then have "uint (of_nat n :: byte) = int n" by auto
  then have split: "split_signature (compact @ [of_nat n]) k = Inr (be_value (take 32 compact), be_value (drop 32 compact), int n + k)" for k
    using assms(1) by (simp add: split_signature_def nth_append)
  show ?thesis using assms(3,4) split
    by (cases s) (auto simp: eip155_signatureValues_def modern_signatureValues_def recovery_offset_def)
qed

lemma signed_sender:
  assumes "noble_ok x" "length compact = 64" "n \<le> 1" "supportsType s (tx_type t)"
    and chain: "\<And>c. signer_chainID s = Some c \<Longrightarrow> 0 < c \<and> (tx_type t \<noteq> 0 \<longrightarrow> chainID t = c)"
    and hash: "signer_hash x s t = Inr h" "length (keccak256 x (drop 1 key)) = 32"
    and curve: "be_value (drop 32 compact) \<le> SECP256K1_ORDER_DIV_2" "ec_recover E compact n h = Inr key" "length key = 65"
    and u: "u = setSignatureValues (int n + recovery_offset s (tx_type t)) (be_value (take 32 compact)) (be_value (drop 32 compact)) t"
  shows "signer_sender x E s u = Inr (drop 12 (keccak256 x (drop 1 key)))"
proof -
  let ?r = "be_value (take 32 compact)" and ?s = "be_value (drop 32 compact)"
  have n: "n = 0 \<or> n = 1" using assms(3) by auto
  have run: "calculateSigRecovery v c = int n \<Longrightarrow> recovered x E h v ?r ?s c = Inr (drop 12 (keccak256 x (drop 1 key)))" for v c
    using recovered_run [OF assms(1-3) _ curve(2,3) hash(2)] by blast
  have h: "signer_hash x s u = Inr h" using hash(1) by (simp add: u signer_hash_def sigHash_unsigned)
  have w: "with_signature_of u f = f (int n + recovery_offset s (tx_type t)) ?r ?s" for f by (simp add: with_signature_of_def u)
  have type: "tx_type u = tx_type t" by (simp add: u)
  show ?thesis
  proof (cases "signer_chainID s")
    case None
    then have s: "s = FrontierSigner \<or> s = HomesteadSigner" by (cases s) auto
    have "calculateSigRecovery (int n + 27) None = int n" by (simp add: calculateSigRecovery_def)
    then show ?thesis using s assms(4) h w run [of "int n + 27" None] None curve(1) type
      by (auto simp: frontier_sender_def homestead_sender_def recoverPlain_def low_s_def recovery_offset_def signer_hash_def)
  next
    case (Some c)
    then have c: "0 < c" "tx_type t \<noteq> 0 \<Longrightarrow> chainID t = c" using chain by auto
    show ?thesis
    proof (cases "tx_type t = 0")
      case True
      let ?v = "int n + (35 + c * 2)"
      have v: "isProtected u" "chainID u = c" "calculateSigRecovery ?v (Some c) = int n"
        using True c(1) n Some
        by (auto simp: isProtected_def isProtectedV_def u chainID_signed legacy_chainID_def calculateSigRecovery_def recovery_offset_def sdiv_eq_div)
      have "eip155_sender x E c u = Inr (drop 12 (keccak256 x (drop 1 key)))"
        using True v run [OF v(3)] w h Some curve(1) type by (simp add: eip155_sender_def low_s_def recovery_offset_def signer_hash_def)
      then show ?thesis using Some True type by (cases s) (simp_all add: modern_sender_def)
    next
      case False
      have "calculateSigRecovery (int n + 27) None = int n" by (simp add: calculateSigRecovery_def)
      then have "modern_sender x E s c u = Inr (drop 12 (keccak256 x (drop 1 key)))"
        using False c(2) w h run [of "int n + 27" None] Some type assms(4)
        by (simp add: modern_sender_def chainID_signed u recovery_offset_def)
      then show ?thesis using Some False type assms(4) by (cases s) simp_all
    qed
  qed
qed


text \<open>A signature that names a chain is refused by the signers of every other chain.\<close>

lemma other_chain_refused:
  assumes "signer_chainID s' = Some c'" "isProtected u" "chainID u \<noteq> c'"
  shows "\<exists>e. signer_sender x E s' u = Inl e"
  using assms by (cases s') (auto simp: eip155_sender_def modern_sender_def)

text \<open>C35: a transaction that is signed with a key for a hardfork and a chain is accepted there, and its sender is the
  address of that key; and when the signer has a chain id (EIP-155 and the typed transactions), no signer of another chain
  accepts it. The hypotheses: the curve library signs and recovers as documented, hashes have 32 bytes, the
  signer supports the kind of transaction, and a typed one names the chain.\<close>

theorem signed_for_one_chain:
  assumes "noble_ok x" "\<And>bs. length (keccak256 x bs) = 32" "length k = 32"
    and t: "tx_wf t" "ft_inner tx = t" "supportsType s (tx_type t)" "\<And>c. signer_chainID s = Some c \<Longrightarrow> 0 < c \<and> (tx_type t \<noteq> 0 \<longrightarrow> chainID t = c)"
    and curve: "\<And>h. signer_hash x s t = Inr h \<Longrightarrow> signs_well E h k"
  shows "\<exists>tx'. signTx x E s k tx = Inr tx' \<and> signer_sender x E s (ft_inner tx') = Inr (drop 12 (keccak256 x (ec_public E k)))
    \<and> (\<forall>c s' c'. signer_chainID s = Some c \<and> signer_chainID s' = Some c' \<and> c' \<noteq> c \<longrightarrow> (\<exists>e. signer_sender x E s' (ft_inner tx') = Inl e))"
proof -
  have "0 \<le> (case signer_chainID s of None \<Rightarrow> 0 | Some c \<Rightarrow> c)" using t(4) by (cases "signer_chainID s") auto
  then obtain h where h: "signer_hash x s t = Inr h" using hash_total [OF assms(1) t(1)] by (auto simp: signer_hash_def)
  obtain compact n key where lib: "ec_sign E h k = Inr (compact, Some n)" "length compact = 64" "n \<le> 1"
    "be_value (drop 32 compact) \<le> SECP256K1_ORDER_DIV_2" "ec_recover E compact n h = Inr key" "length key = 65" "drop 1 key = ec_public E k"
    using curve [OF h] unfolding signs_well_def by blast
  let ?v = "int n + recovery_offset s (tx_type t)"
  let ?u = "setSignatureValues ?v (be_value (take 32 compact)) (be_value (drop 32 compact)) t"
  have sig: "(compact @ replicate (65 - length compact) 0)[64 := of_nat n] = compact @ [of_nat n]"
    using lib(2) by (simp add: list_update_append)
  have "signTx x E s k tx = Inr (tx\<lparr>ft_inner := ?u, ft_senderCache := None\<rparr>)"
    using assms(3) t(2) h lib(1,2) sig signatureValues_run [OF lib(2,3) t(3,4)] by (simp add: signTx_def withSignature_def)
  moreover have "signer_sender x E s ?u = Inr (drop 12 (keccak256 x (ec_public E k)))"
    using signed_sender [OF assms(1) lib(2,3) t(3,4) h _ lib(4,5,6) refl] assms(2) lib(7) by simp
  moreover have "\<exists>e. signer_sender x E s' ?u = Inl e" if "signer_chainID s = Some c" "signer_chainID s' = Some c'" "c' \<noteq> c" for c s' c'
  proof -
    have "n = 0 \<or> n = 1" using lib(3) by auto
    then have "isProtected ?u" "chainID ?u = c"
      using that(1) t(4) [OF that(1)]
      by (auto simp: isProtected_def isProtectedV_def chainID_signed legacy_chainID_def recovery_offset_def sdiv_eq_div)
    then show ?thesis using other_chain_refused [OF that(2), of ?u x E] that(3) by metis
  qed
  ultimately show ?thesis by (intro exI [of _ "tx\<lparr>ft_inner := ?u, ft_senderCache := None\<rparr>"]) simp
qed


section \<open>Concrete transactions\<close>

definition sample_fields :: tx_fields where
  "sample_fields = \<lparr>tx_chainId = 1, tx_nonce = 7, tx_gasLimit = 21000, tx_to = Some (replicate 20 9), tx_value = 5, tx_data = DBytes [1, 0],
     tx_v = None, tx_r = None, tx_s = None\<rparr>"

definition sample_tx :: tx_inner where
  "sample_tx = DynamicFeeTxData sample_fields 2 30 (DList [DList [DBytes (replicate 20 3), DList []]])"

definition sample_tx_options :: tx_options where
  "sample_tx_options = \<lparr>to_common = london_config, to_hardfork = ByName ''london''\<rparr>"

definition sample_ecdsa :: ecdsa where
  "sample_ecdsa = \<lparr>ec_sign = (\<lambda>h k. Inr (replicate 64 1, Some 1)), ec_recover = (\<lambda>compact n h. Inr (4 # replicate 64 7)), ec_public = (\<lambda>k. replicate 64 7)\<rparr>"

lemma sample_tx_wf: "tx_wf sample_tx"
  by (simp add: tx_wf_def sample_tx_def sample_fields_def signature_wf_def)

theorem tx_roundtrip_witness:
  "\<exists>bs. tx_serialize sample_externals sample_tx = Inr bs
    \<and> (length bs < 2 ^ 64 \<longrightarrow> createTxManagerFromRLP sample_externals bs sample_tx_options = Inr (newTx sample_tx sample_tx_options))"
  using tx_roundtrip [OF noble_ok_sample sample_tx_wf] by blast

lemma sample_hash_length: "length (keccak256 sample_externals bs) = 32"
  by (simp add: sample_externals_def length_setLengthLeft)

lemma sample_signs_well: "signs_well sample_ecdsa h k"
proof -
  have "drop 32 (replicate 64 (1 :: byte)) = replicate 32 1" by simp
  moreover have "be_value (replicate 32 1) \<le> SECP256K1_ORDER_DIV_2"
    by (simp add: SECP256K1_ORDER_DIV_2_def SECP256K1_ORDER_def signed_divide_int_def numeral_eq_Suc be_value_Cons)
  ultimately show ?thesis by (simp add: signs_well_def sample_ecdsa_def)
qed

theorem signed_for_one_chain_witness:
  "\<exists>tx'. signTx sample_externals sample_ecdsa (LondonSigner 1) (replicate 32 5) (newTx sample_tx sample_tx_options) = Inr tx'
    \<and> signer_sender sample_externals sample_ecdsa (LondonSigner 1) (ft_inner tx') = Inr (drop 12 (keccak256 sample_externals (replicate 64 7)))
    \<and> (\<exists>e. signer_sender sample_externals sample_ecdsa (PragueSigner 5) (ft_inner tx') = Inl e)"
proof -
  have k: "length (replicate 32 (5 :: byte)) = 32" by simp
  have t: "supportsType (LondonSigner 1) (tx_type sample_tx)"
    "\<And>c. signer_chainID (LondonSigner 1) = Some c \<Longrightarrow> 0 < c \<and> (tx_type sample_tx \<noteq> 0 \<longrightarrow> chainID sample_tx = c)"
    by (simp_all add: sample_tx_def sample_fields_def)
  obtain tx' where tx': "signTx sample_externals sample_ecdsa (LondonSigner 1) (replicate 32 5) (newTx sample_tx sample_tx_options) = Inr tx'"
    "signer_sender sample_externals sample_ecdsa (LondonSigner 1) (ft_inner tx') = Inr (drop 12 (keccak256 sample_externals (ec_public sample_ecdsa (replicate 32 5))))"
    "\<forall>c s' c'. signer_chainID (LondonSigner 1) = Some c \<and> signer_chainID s' = Some c' \<and> c' \<noteq> c
      \<longrightarrow> (\<exists>e. signer_sender sample_externals sample_ecdsa s' (ft_inner tx') = Inl e)"
    using signed_for_one_chain [OF noble_ok_sample sample_hash_length k sample_tx_wf newTx_inner t sample_signs_well] by blast
  then show ?thesis using tx'(3) [rule_format, of 1 "PragueSigner 5" 5] by (simp add: sample_ecdsa_def)
qed

section \<open>Where the code departs from the protocol\<close>

text \<open>An unprotected legacy signature with \<open>v\<close> one is taken as the one with \<open>v\<close> 28: the same signature makes a second
  transaction with other bytes and another hash.\<close>

lemma legacy_v_one_accepted:
  "tx_type t = 0 \<Longrightarrow> eip155_sender x E c (setSignatureValues 1 r s t) = eip155_sender x E c (setSignatureValues 28 r s t)"
  by (simp add: eip155_sender_def isProtected_def isProtectedV_def homestead_sender_def with_signature_of_def signer_hash_def sigHash_unsigned
      recovered_def ecrecover_def calculateSigRecovery_def)

text \<open>The signature of a typed transaction is not checked for a low \<open>s\<close>.\<close>

lemma typed_high_s_accepted:
  assumes "tx_type t \<noteq> 0" "supportsType sg (tx_type t)" "chainID t = c" "signer_hash x sg t = Inr h" "recovered x E h (v + 27) r s None = Inr a"
  shows "modern_sender x E sg c (setSignatureValues v r s t) = Inr a"
  using assms by (simp add: modern_sender_def chainID_signed with_signature_of_def signer_hash_def sigHash_unsigned)

text \<open>Superfluous values at the end of a typed transaction are ignored, so one transaction has many serialisations.\<close>

lemma extra_values_ignored:
  assumes "decoded_list (drop 1 bs) = Inr vs" "decoded_list (drop 1 bs') = Inr (vs @ extra)" "length vs = 11"
  shows "createAccessListTxManagerFromRLP x bs' opts = createAccessListTxManagerFromRLP x bs opts"
proof -
  have "at (vs @ extra) i = at vs i" if "i < 11" for i using that assms(3) by (simp add: at_def nth_append)
  then show ?thesis using assms(1,2) by (simp add: createAccessListTxManagerFromRLP_def no_leading_zeroes_def typed_signature_def Let_def)
qed

text \<open>An authorisation is charged 12500 gas at most; the protocol charges 25000 each (\<open>perEmptyAccountCost\<close>) and gives back
  12500 for an account that exists.\<close>

definition auth_value :: "string \<times> param_value \<Rightarrow> bool" where
  "auth_value e \<longleftrightarrow> (fst e = ''perAuthBaseGas'' \<longrightarrow> snd e = PBig 12500)"

lemma auth_tables: "list_all (\<lambda>(eip, ps). list_all auth_value ps) EIP_PARAMS_entries" "list_all auth_value EIP1_PARAMS"
  by (simp_all add: EIP_PARAMS_entries_def param_tables auth_value_def)

lemma authorization_undercharged:
  assumes "ft_inner tx = SetCodeTxData f t m l auths" "getAuthorizationListGas tx = Inr n"
  shows "n \<le> 12500 * int (item_length auths)"
proof -
  have "getParamAtHardfork (ft_common tx) ''perAuthBaseGas'' (ft_fork tx) = Some p \<Longrightarrow> p = PBig 12500" for p
    using getParam_in_tables [of "ft_common tx" "''perAuthBaseGas''" "ft_fork tx" p] auth_tables by (fastforce simp: list_all_iff auth_value_def)
  then show ?thesis using assms
    by (cases "getParamAtHardfork (ft_common tx) ''perAuthBaseGas'' (ft_fork tx)")
       (auto simp: getAuthorizationListGas_def param_or_def value_or_def split: if_splits)
qed


section \<open>The sender cache\<close>

text \<open>A signer that equals the one that filled the cache would recover the same address.\<close>

lemma cached_sender_sound:
  assumes "signer_equal s0 s" "signer_sender x E s0 t = Inr a"
  shows "signer_sender x E s t = Inr a"
proof -
  have "signer_rank s0 \<le> signer_rank s' \<Longrightarrow> 0 < signer_rank s0 \<Longrightarrow> supportsType s0 n \<Longrightarrow> supportsType s' n" for s' n
    by (cases s0; cases s') auto
  then show ?thesis using assms
    by (cases s0; cases s) (auto simp: modern_sender_def signer_hash_def split: if_splits)
qed

lemma sender_transparent:
  assumes "\<And>s0 a. ft_senderCache tx = Some (s0, a) \<Longrightarrow> signer_sender x E s0 (ft_inner tx) = Inr a"
  shows "fst (sender x E s tx) = signer_sender x E s (ft_inner tx)"
  using assms cached_sender_sound [of _ s x E "ft_inner tx"]
  by (auto simp: sender_def split: option.split sum.split prod.split if_splits)

end
