(* ===== verification/Blocks.thy ===== *)
theory Blocks
  imports TrieLaws BlockHeader Transactions
begin

text \<open>
  Blocks, \<open>packages/block/src\<close>: the roots of transactions, withdrawals and requests (\<open>helpers.ts\<close> over the trie),
  blocks with their raw form, reading them from bytes with the checks of \<open>validation/block\<close>, and the validity
  checks of \<open>block-functional/helpers\<close>. The sender caches of the transactions of a block only repeat what is
  recovered (\<open>sender_transparent\<close>) and are left out of the results.
\<close>

section \<open>Withdrawals\<close>

record withdrawal =
  wd_index :: int
  wd_validatorIndex :: int
  wd_address :: address
  wd_amount :: "int option"

text \<open>\<open>Uint8Array.from\<close> of a decoded list: each item becomes a number by way of its text.\<close>

fun coerced :: "rlp_data \<Rightarrow> byte" where
  "coerced (DBytes bs) = (case bs of [b] \<Rightarrow> b | _ \<Rightarrow> 0)"
| "coerced (DList ds) = (case ds of [d] \<Rightarrow> coerced d | _ \<Rightarrow> 0)"

definition toBytes_data :: "rlp_data \<Rightarrow> bytes" where
  "toBytes_data d = (case d of DBytes bs \<Rightarrow> bs | DList ds \<Rightarrow> map coerced ds)"

text \<open>\<open>toBytes\<close> of a bigint.\<close>

definition toBytes_bigint :: "externals \<Rightarrow> int \<Rightarrow> exn + bytes" where
  "toBytes_bigint x v = (if v < 0 then Inl (PlainError ''Cannot convert negative bigint to Uint8Array'')
     else unprefixedHexToBytes x (padToEven (nat_hex (nat v))))"

definition number_item :: "externals \<Rightarrow> int \<Rightarrow> exn + rlp_input" where
  "number_item x n = (if n = 0 then Inr (RBytes []) else map_sum id RBytes (toBytes_bigint x n))"

definition withdrawalToBytesArray :: "externals \<Rightarrow> withdrawal \<Rightarrow> exn + rlp_input list" where
  "withdrawalToBytesArray x w = all_right [number_item x (wd_index w), number_item x (wd_validatorIndex w), Inr (RBytes (wd_address w)),
     case wd_amount w of None \<Rightarrow> Inr RNull | Some n \<Rightarrow> number_item x n]"

text \<open>\<open>createWithdrawal\<close> on an entry of a decoded list, destructured by position; a byte array gives numbers, of which the
  address fails.\<close>

definition createWithdrawal :: "externals \<Rightarrow> rlp_data \<Rightarrow> exn + withdrawal" where
  "createWithdrawal x entry = (case entry of
       DBytes _ \<Rightarrow> Inl (PlainError ''Invalid address length'')
     | DList vs \<Rightarrow> (case at vs 2 of None \<Rightarrow> Inl (PlainError ''Invalid address length'')
         | Some a \<Rightarrow> bindR (new_Address (toBytes_data a)) (\<lambda>address.
             Inr \<lparr>wd_index = bytesToBigInt x (toBytes_data (vs ! 0)), wd_validatorIndex = bytesToBigInt x (toBytes_data (vs ! 1)), wd_address = address,
               wd_amount = map_option (\<lambda>d. bytesToBigInt x (toBytes_data d)) (at vs 3)\<rparr>)))"

section \<open>Roots\<close>

text \<open>\<open>for (const [i, v] of values.entries()) await trie.put(RLP.encode(i), v)\<close>; each value may throw.\<close>

fun put_entries :: "externals \<Rightarrow> 'c lru \<Rightarrow> nat \<Rightarrow> (exn + bytes) list \<Rightarrow> ('c, unit) mptM" where
  "put_entries x L i [] = returnE ()"
| "put_entries x L i (v # vs) = bindE (liftE (encode (RNumber (int i)))) (\<lambda>key. bindE (liftE v) (\<lambda>val.
     seqE (mpt_put x L key (Some val) False) (put_entries x L (i + 1) vs)))"

definition root_after :: "('c, unit) mptM \<Rightarrow> 'c mpt \<Rightarrow> exn + bytes" where
  "root_after m trie = (case m trie of (Inl e, _) \<Rightarrow> Inl e | (Inr _, s) \<Rightarrow> Inr (mpt_root s))"

definition empty_trie_or_new :: "externals \<Rightarrow> 'c lru \<Rightarrow> 'c mpt option \<Rightarrow> exn + 'c mpt" where
  "empty_trie_or_new x L emptyTrie = (case emptyTrie of Some t \<Rightarrow> Inr t | None \<Rightarrow> new_mpt x L default_opts None None)"

definition genTransactionsTrieRoot :: "externals \<Rightarrow> 'c lru \<Rightarrow> frozen_tx list \<Rightarrow> 'c mpt option \<Rightarrow> exn + bytes" where
  "genTransactionsTrieRoot x L txs emptyTrie = bindR (empty_trie_or_new x L emptyTrie)
     (root_after (put_entries x L 0 (map (\<lambda>tx. tx_serialize x (ft_inner tx)) txs)))"

definition withdrawal_value :: "externals \<Rightarrow> withdrawal \<Rightarrow> exn + bytes" where
  "withdrawal_value x w = bindR (withdrawalToBytesArray x w) (\<lambda>items. encode (RArray items))"

definition genWithdrawalsTrieRoot :: "externals \<Rightarrow> 'c lru \<Rightarrow> withdrawal list \<Rightarrow> 'c mpt option \<Rightarrow> exn + bytes" where
  "genWithdrawalsTrieRoot x L wts emptyTrie = bindR (empty_trie_or_new x L emptyTrie) (root_after (put_entries x L 0 (map (withdrawal_value x) wts)))"

text \<open>A request is its bytes, whose first one is the type.\<close>

fun ascending :: "bytes list \<Rightarrow> bool" where
  "ascending (r # r' # rs) \<longleftrightarrow> \<not> hd r' < hd r \<and> ascending (r' # rs)"
| "ascending _ \<longleftrightarrow> True"

definition genRequestsRoot :: "bytes list \<Rightarrow> (bytes \<Rightarrow> bytes) \<Rightarrow> exn + bytes" where
  "genRequestsRoot requests sha256 = (if \<not> ascending requests then Inl (PlainError ''requests are not sorted in ascending order'')
     else Inr (sha256 (foldl (\<lambda>flat r. if length r > 1 then concatBytes [flat, sha256 r] else flat) [] requests)))"

section \<open>Blocks\<close>

record frozen_block =
  fb_header :: frozen_header
  fb_transactions :: "frozen_tx list"
  fb_uncleHeaders :: "frozen_header list"
  fb_withdrawals :: "withdrawal list option"
  fb_manager :: frozen_config
  fb_txTrieRoot :: "bytes option"
  fb_withdrawalsTrieRoot :: "bytes option"

record block_opts =
  bo_manager :: frozen_config
  bo_calcDifficulty :: "parent_header option"
  bo_skipConsensus :: bool
  bo_freeze :: bool

abbreviation block_data :: "frozen_block \<Rightarrow> header_data" where
  "block_data b \<equiv> fh_data (fb_header b)"

definition block_isEIPActive :: "frozen_block \<Rightarrow> nat \<Rightarrow> bool" where
  "block_isEIPActive b eip = isEIPActiveAtBlock (fb_manager b) eip (Some (bh_number (block_data b), Some (bh_timestamp (block_data b))))"

definition block_getHardfork :: "frozen_block \<Rightarrow> string" where
  "block_getHardfork b = manager_getHardforkByBlock (fb_manager b) (Some (bh_number (block_data b))) (Some (bh_timestamp (block_data b)))"

definition block_param_or :: "frozen_block \<Rightarrow> string \<Rightarrow> int \<Rightarrow> exn + int" where
  "block_param_or b name d = param_or (fb_manager b) name (block_getHardfork b) d"

text \<open>The raw form: header, transactions (typed ones as bytes), uncles and, when the block has them, withdrawals.\<close>

definition tx_item :: "externals \<Rightarrow> frozen_tx \<Rightarrow> exn + rlp_input" where
  "tx_item x tx = (if supports tx 2718 then map_sum id RBytes (tx_serialize x (ft_inner tx)) else map_sum id RArray (tx_raw x (ft_inner tx)))"

definition block_toRaw :: "externals \<Rightarrow> frozen_block \<Rightarrow> exn + rlp_input list" where
  "block_toRaw x b =
     bindR (toRaw x (fb_header b)) (\<lambda>header.
     bindR (all_right (map (tx_item x) (fb_transactions b))) (\<lambda>txs.
     bindR (all_right (map (\<lambda>u. map_sum id RArray (toRaw x u)) (fb_uncleHeaders b))) (\<lambda>uncles.
       case fb_withdrawals b of None \<Rightarrow> Inr [RArray header, RArray txs, RArray uncles]
       | Some ws \<Rightarrow> bindR (all_right (map (\<lambda>w. map_sum id RArray (withdrawalToBytesArray x w)) ws)) (\<lambda>wds.
           Inr [RArray header, RArray txs, RArray uncles, RArray wds]))))"

definition block_serialize :: "externals \<Rightarrow> frozen_block \<Rightarrow> exn + bytes" where
  "block_serialize x b = bindR (block_toRaw x b) (\<lambda>items. encode (RArray items))"

definition block_getHash :: "externals \<Rightarrow> frozen_block \<Rightarrow> exn + bytes" where
  "block_getHash x b = getHash x (fb_header b)"

section \<open>The checks of the constructor\<close>

text \<open>The hashes are compared one by one; an uncle whose hash fails is skipped by the constructor.\<close>

fun duplicate_uncles :: "(exn + bytes) list \<Rightarrow> bytes list \<Rightarrow> bool" where
  "duplicate_uncles [] seen \<longleftrightarrow> False"
| "duplicate_uncles (Inl e # hs) seen \<longleftrightarrow> duplicate_uncles hs seen"
| "duplicate_uncles (Inr h # hs) seen \<longleftrightarrow> h \<in> set seen \<or> duplicate_uncles hs (h # seen)"

definition MAX_UNCLE_HEADERS :: nat where
  "MAX_UNCLE_HEADERS = 2"

text \<open>\<open>timestamp\<close> is what the caller gives: \<open>fromBytesArray\<close> gives none. When several rules fail, the message of the error
  names them all; here it is the first.\<close>

definition validateBlockConstructor ::
  "externals \<Rightarrow> frozen_config \<Rightarrow> frozen_header list \<Rightarrow> withdrawal list option \<Rightarrow> bool \<Rightarrow> int \<Rightarrow> int option \<Rightarrow> exn + withdrawal list option" where
  "validateBlockConstructor x cfg uncles withdrawals genesis number timestamp =
     (case spec_chain (cfg_spec cfg) of None \<Rightarrow> Inl TypeError
      | Some chain \<Rightarrow> let eip4895 = isEIPActiveAtBlock cfg 4895 (Some (number, timestamp)) in
          if length uncles > MAX_UNCLE_HEADERS then Inl (PlainError ''too many uncle headers'')
          else if length uncles > 1 \<and> duplicate_uncles (map (getHash x) uncles) [] then Inl (PlainError ''duplicate uncles'')
          else if \<not> genesis \<and> uncles \<noteq> [] \<and> consensus_type chain = ''poa''
          then Inl (PlainError ''Block initialization with uncleHeaders on a PoA network is not allowed'')
          else if \<not> genesis \<and> uncles \<noteq> [] \<and> consensus_type chain = ''pos''
          then Inl (PlainError ''Block initialization with uncleHeaders on a PoS network is not allowed'')
          else if \<not> eip4895 \<and> withdrawals \<noteq> None then Inl (PlainError ''Cannot have a withdrawals field if EIP 4895 is not active'')
          else Inr (case withdrawals of Some ws \<Rightarrow> Some ws | None \<Rightarrow> if eip4895 then Some [] else None))"

fun strict_duplicates :: "(exn + bytes) list \<Rightarrow> bytes list \<Rightarrow> exn + bool" where
  "strict_duplicates [] seen = Inr True"
| "strict_duplicates (h # hs) seen = bindR h (\<lambda>v. if v \<in> set seen then Inl (PlainError ''duplicate uncles'') else strict_duplicates hs (v # seen))"

definition validateUncleHeaders :: "externals \<Rightarrow> frozen_header list \<Rightarrow> exn + bool" where
  "validateUncleHeaders x uncles =
     (if length uncles > MAX_UNCLE_HEADERS then Inl (PlainError ''too many uncle headers'')
      else if length uncles > 1 then strict_duplicates (map (getHash x) uncles) [] else Inr True)"

definition validateUncles :: "externals \<Rightarrow> frozen_block \<Rightarrow> exn + unit" where
  "validateUncles x b = (if bh_number (block_data b) = 0 then Inr () else bindR (validateUncleHeaders x (fb_uncleHeaders b)) (\<lambda>_. Inr ()))"


section \<open>Reading blocks\<close>

text \<open>A part of the block that is iterated over: a byte array gives numbers, which nothing accepts.\<close>

definition parts :: "rlp_data option \<Rightarrow> (rlp_data \<Rightarrow> exn + 'a) \<Rightarrow> exn + 'a list" where
  "parts d f = (case d of None \<Rightarrow> Inr [] | Some (DList ds) \<Rightarrow> all_right (map f ds)
     | Some (DBytes []) \<Rightarrow> Inr [] | Some (DBytes _) \<Rightarrow> Inl (PlainError ''Cannot decode: unknown type input''))"

definition header_of_part :: "externals \<Rightarrow> bytes \<Rightarrow> header_opts \<Rightarrow> rlp_data option \<Rightarrow> exn + frozen_header" where
  "header_of_part x sha256_null opts d = (case d of Some (DList vs) \<Rightarrow> fromBytesArray x sha256_null opts vs
     | Some (DBytes _) \<Rightarrow> Inl (PlainError ''invalid header'') | None \<Rightarrow> Inl TypeError)"

definition block_tx_options :: "block_opts \<Rightarrow> tx_options" where
  "block_tx_options opts = \<lparr>to_common = bo_manager opts, to_hardfork = NoContext\<rparr>"

definition header_opts_of :: "block_opts \<Rightarrow> parent_header option \<Rightarrow> header_opts" where
  "header_opts_of opts parent = \<lparr>ho_manager = bo_manager opts, ho_calcDifficulty = parent, ho_skipConsensus = bo_skipConsensus opts, ho_freeze = bo_freeze opts\<rparr>"

definition block_fromBytesArray :: "externals \<Rightarrow> bytes \<Rightarrow> block_opts \<Rightarrow> rlp_data list \<Rightarrow> exn + frozen_block" where
  "block_fromBytesArray x sha256_null opts vs =
     (if length vs > 5 then Inl (PlainError ''invalid: More values than expected were received (at most 5)'')
      else bindR (header_of_part x sha256_null (header_opts_of opts (bo_calcDifficulty opts)) (at vs 0)) (\<lambda>header.
        let eip4895 = header_isEIPActive header 4895; withdrawalBytes = (if eip4895 then at vs 3 else None) in
        bindR (if eip4895 \<and> \<not> (\<exists>ds. withdrawalBytes = Some (DList ds))
               then Inl (PlainError ''Invalid serialized block input: EIP-4895 is active, and no withdrawals were provided as array'') else Inr ()) (\<lambda>_.
        bindR (parts (at vs 1) (\<lambda>d. createTxManagerFromBlockBodyData x d (block_tx_options opts))) (\<lambda>transactions.
        bindR (parts (at vs 2) (\<lambda>d. header_of_part x sha256_null (header_opts_of opts None) (Some d))) (\<lambda>uncles.
        bindR (case withdrawalBytes of None \<Rightarrow> Inr None | w \<Rightarrow> map_sum id Some (parts w (createWithdrawal x))) (\<lambda>withdrawals.
        bindR (validateBlockConstructor x (bo_manager opts) uncles withdrawals (isGenesis header) (bh_number (fh_data header)) None) (\<lambda>finalWithdrawals.
          Inr \<lparr>fb_header = header, fb_transactions = transactions, fb_uncleHeaders = uncles, fb_withdrawals = finalWithdrawals,
            fb_manager = bo_manager opts, fb_txTrieRoot = None, fb_withdrawalsTrieRoot = None\<rparr>)))))))"

definition block_size_limit :: "frozen_config \<Rightarrow> nat \<Rightarrow> exn + unit" where
  "block_size_limit cfg n = (if isEIPActiveAtHardfork cfg 7934 ''osaka''
     then bindR (param_or cfg ''maxRlpBlockSize'' ''osaka'' 1000000000) (\<lambda>m. if int n > m then Inl (PlainError ''Block size exceeds limit'') else Inr ())
     else Inr ())"

definition block_fromRLP :: "externals \<Rightarrow> bytes \<Rightarrow> block_opts \<Rightarrow> bytes \<Rightarrow> exn + frozen_block" where
  "block_fromRLP x sha256_null opts bs = bindR (block_size_limit (bo_manager opts) (length bs)) (\<lambda>_.
     bindR (decode (RBytes bs) False) (\<lambda>d. case d of
         Plain (DList vs) \<Rightarrow> block_fromBytesArray x sha256_null opts vs
       | _ \<Rightarrow> Inl (PlainError ''Invalid serialized block input. Must be array'')))"

section \<open>Validity of a block\<close>

definition genTxTrie :: "externals \<Rightarrow> 'c lru \<Rightarrow> frozen_block \<Rightarrow> exn + bytes" where
  "genTxTrie x L b = bindR (new_mpt x L default_opts None None) (\<lambda>t. genTransactionsTrieRoot x L (fb_transactions b) (Some t))"

definition transactionsTrieIsValid :: "externals \<Rightarrow> 'c lru \<Rightarrow> frozen_block \<Rightarrow> exn + bool" where
  "transactionsTrieIsValid x L b =
     (if fb_transactions b = [] then Inr (equalsBytes (bh_transactionsTrie (block_data b)) KECCAK256_RLP)
      else case fb_txTrieRoot b of
          None \<Rightarrow> bindR (genTxTrie x L b) (\<lambda>root. Inr (equalsBytes root (bh_transactionsTrie (block_data b))))
        | Some root \<Rightarrow> Inr (equalsBytes root (bh_transactionsTrie (block_data b))))"

definition uncleHashIsValid :: "externals \<Rightarrow> frozen_block \<Rightarrow> exn + bool" where
  "uncleHashIsValid x b =
     (if fb_uncleHeaders b = [] then Inr (equalsBytes KECCAK256_RLP_ARRAY (bh_uncleHash (block_data b)))
      else bindR (all_right (map (\<lambda>u. map_sum id RArray (toRaw x u)) (fb_uncleHeaders b))) (\<lambda>uncles. bindR (encode (RArray uncles)) (\<lambda>raw.
        Inr (equalsBytes (keccak256 x raw) (bh_uncleHash (block_data b))))))"

text \<open>Comparing with an absent root is a TypeError.\<close>

definition equals_optional :: "bytes \<Rightarrow> bytes option \<Rightarrow> exn + bool" where
  "equals_optional a b = (case b of None \<Rightarrow> Inl TypeError | Some v \<Rightarrow> Inr (equalsBytes a v))"

definition withdrawalsTrieIsValid :: "externals \<Rightarrow> 'c lru \<Rightarrow> frozen_block \<Rightarrow> exn + bool" where
  "withdrawalsTrieIsValid x L b =
     (if \<not> block_isEIPActive b 4895 then Inl (PlainError ''EIP 4895 is not activated'')
      else if fb_withdrawals b = None \<or> fb_withdrawals b = Some [] then equals_optional KECCAK256_RLP (bh_withdrawalsRoot (block_data b))
      else case fb_withdrawalsTrieRoot b of
          None \<Rightarrow> bindR (new_mpt x L default_opts None None) (\<lambda>t. bindR (genWithdrawalsTrieRoot x L (the (fb_withdrawals b)) (Some t)) (\<lambda>root.
            equals_optional root (bh_withdrawalsRoot (block_data b))))
        | Some root \<Rightarrow> equals_optional root (bh_withdrawalsRoot (block_data b)))"

text \<open>The validation errors of the transactions, with the blob gas used so far. A comparison with an absent base fee is false.\<close>

definition fee_errors :: "frozen_block \<Rightarrow> tx_inner \<Rightarrow> string list" where
  "fee_errors b t = (case bh_baseFeePerGas (block_data b) of None \<Rightarrow> []
     | Some baseFee \<Rightarrow> if tx_type t = 2 then (if gasFeeCap t < baseFee then [''tx unable to pay base fee (EIP-1559 tx)''] else [])
         else if tx_gasPrice t < baseFee then [''tx unable to pay base fee (non EIP-1559 tx)''] else [])"

definition blob_limits :: "frozen_block \<Rightarrow> exn + int \<times> int" where
  "blob_limits b = bindR (block_param_or b ''maxBlobGasPerBlock'' 0) (\<lambda>limit. bindR (block_param_or b ''blobGasPerBlob'' 131072) (\<lambda>perBlob. Inr (limit, perBlob)))"

fun tx_errors_loop :: "externals \<Rightarrow> ecdsa \<Rightarrow> frozen_block \<Rightarrow> frozen_tx list \<Rightarrow> int \<Rightarrow> string list \<Rightarrow> exn + int \<times> string list" where
  "tx_errors_loop x E b [] blobGasUsed errors = Inr (blobGasUsed, errors)"
| "tx_errors_loop x E b (tx # txs) blobGasUsed errors =
     bindR (fst (getValidationErrors x E tx)) (\<lambda>errs.
     let errs1 = errs @ (if block_isEIPActive b 1559 then fee_errors b (ft_inner tx) else []) in
     bindR (if block_isEIPActive b 4844 then bindR (blob_limits b) (\<lambda>(limit, perBlob).
              if tx_type (ft_inner tx) = 3 then let used = blobGasUsed + int (numBlobs (ft_inner tx)) * perBlob in
                Inr (used, if used > limit then errs1 @ [''tx causes total blob gas to exceed maximum blob gas per block''] else errs1)
              else Inr (blobGasUsed, errs1))
            else Inr (blobGasUsed, errs1)) (\<lambda>(used, errs2).
       tx_errors_loop x E b txs used (if errs2 \<noteq> [] then errors @ [concat errs2] else errors)))"

definition getTransactionsValidationErrors :: "externals \<Rightarrow> ecdsa \<Rightarrow> frozen_block \<Rightarrow> exn + string list" where
  "getTransactionsValidationErrors x E b = bindR (tx_errors_loop x E b (fb_transactions b) 0 []) (\<lambda>(used, errors).
     Inr (if block_isEIPActive b 4844 \<and> Some used \<noteq> bh_blobGasUsed (block_data b) then errors @ [''invalid blobGasUsed''] else errors))"

definition transactionsAreValid :: "externals \<Rightarrow> ecdsa \<Rightarrow> frozen_block \<Rightarrow> exn + bool" where
  "transactionsAreValid x E b = bindR (getTransactionsValidationErrors x E b) (\<lambda>errors. Inr (errors = []))"

definition require :: "exn + bool \<Rightarrow> string \<Rightarrow> exn + unit" where
  "require r msg = bindR r (\<lambda>ok. if ok then Inr () else Inl (PlainError msg))"

definition validateData :: "externals \<Rightarrow> 'c lru \<Rightarrow> ecdsa \<Rightarrow> bool \<Rightarrow> bool \<Rightarrow> bool \<Rightarrow> frozen_block \<Rightarrow> exn + unit" where
  "validateData x L E onlyHeader verifyTxs validateBlockSize b =
     bindR (if validateBlockSize \<and> block_isEIPActive b 7934
            then bindR (block_serialize x b) (\<lambda>bs. bindR (block_param_or b ''maxRlpBlockSize'' 1000000000) (\<lambda>m.
              if int (length bs) > m then Inl (PlainError ''Block size exceeds maximum RLP block size limit'') else Inr ())) else Inr ()) (\<lambda>_.
     bindR (if verifyTxs then require (transactionsAreValid x E b) ''invalid transactions'' else Inr ()) (\<lambda>_.
     if onlyHeader then Inr ()
     else if verifyTxs \<and> (\<exists>tx\<in>set (fb_transactions b). \<not> isSigned (ft_inner tx)) then Inl (PlainError ''invalid transactions: transaction is unsigned'')
     else bindR (require (transactionsTrieIsValid x L b) ''invalid transaction trie'') (\<lambda>_.
       bindR (require (uncleHashIsValid x b) ''invalid uncle hash'') (\<lambda>_.
       if block_isEIPActive b 4895 then require (withdrawalsTrieIsValid x L b) ''invalid withdrawals trie'' else Inr ()))))"

text \<open>The blob rules against the parent; the price of a blob is that of the parent.\<close>

fun blob_loop :: "frozen_header \<Rightarrow> int \<Rightarrow> int \<Rightarrow> frozen_tx list \<Rightarrow> int \<Rightarrow> exn + int" where
  "blob_loop parent limit perBlob [] used = Inr used"
| "blob_loop parent limit perBlob (tx # txs) used =
     (case maxFeePerBlobGas (ft_inner tx) of None \<Rightarrow> blob_loop parent limit perBlob txs used
      | Some cap \<Rightarrow> bindR (getBlobGasPrice parent) (\<lambda>price.
          if cap < price then Inl (PlainError ''blob transaction maxFeePerBlobGas < than block blob gas price'')
          else let used1 = used + int (numBlobs (ft_inner tx)) * perBlob in
            if used1 > limit then Inl (PlainError ''tx causes total blob gas to exceed maximum blob gas per block'')
            else blob_loop parent limit perBlob txs used1))"

definition validateBlobTransactions :: "frozen_block \<Rightarrow> frozen_header \<Rightarrow> exn + unit" where
  "validateBlobTransactions b parent =
     (if \<not> block_isEIPActive b 4844 then Inr ()
      else bindR (blob_limits b) (\<lambda>(limit, perBlob). bindR (calcNextExcessBlobGas parent (block_getHardfork b)) (\<lambda>expected.
        if bh_excessBlobGas (block_data b) \<noteq> Some expected then Inl (PlainError ''block excessBlobGas mismatch'')
        else bindR (blob_loop parent limit perBlob (fb_transactions b) 0) (\<lambda>used.
          if bh_blobGasUsed (block_data b) \<noteq> Some used then Inl (PlainError ''block blobGasUsed mismatch'') else Inr ()))))"

definition block_validateGasLimit :: "frozen_block \<Rightarrow> frozen_block \<Rightarrow> exn + unit" where
  "block_validateGasLimit b parent = validateGasLimit (fb_header b) (bh_gasLimit (block_data parent))"


section \<open>The context of execution, and other helpers\<close>

record block_context =
  bc_blockNumber :: int
  bc_timestamp :: int
  bc_coinbase :: address
  bc_gasLimit :: int
  bc_difficulty :: int
  bc_baseFeePerGas :: "int option"
  bc_blobBaseFeePerGas :: "int option"
  bc_random :: "bytes option"

text \<open>The function for block hashes is handed through and not part of the record.\<close>

definition createBlockContext :: "frozen_header \<Rightarrow> frozen_config \<Rightarrow> exn + block_context" where
  "createBlockContext h cfg = (let d = fh_data h; hardfork = manager_getHardforkByBlock cfg (Some (bh_number d)) (Some (bh_timestamp d)) in
     bindR (case bh_excessBlobGas d of None \<Rightarrow> Inr None | Some e \<Rightarrow> map_sum id Some (computeBlobGasPrice e cfg hardfork)) (\<lambda>blobBaseFee.
       Inr \<lparr>bc_blockNumber = bh_number d, bc_timestamp = bh_timestamp d, bc_coinbase = bh_coinbase d, bc_gasLimit = bh_gasLimit d,
         bc_difficulty = bh_difficulty d, bc_baseFeePerGas = bh_baseFeePerGas d, bc_blobBaseFeePerGas = blobBaseFee,
         bc_random = (if bh_difficulty d = 0 then Some (bh_mixHash d) else None)\<rparr>))"

definition getHardforkFromBlockContext :: "block_context \<Rightarrow> frozen_config \<Rightarrow> string" where
  "getHardforkFromBlockContext c cfg = manager_getHardforkByBlock cfg (Some (bc_blockNumber c)) (Some (bc_timestamp c))"

definition getNumBlobs :: "frozen_tx list \<Rightarrow> nat" where
  "getNumBlobs txs = foldl (\<lambda>n tx. if tx_type (ft_inner tx) = 3 then n + numBlobs (ft_inner tx) else n) 0 txs"

definition createWithdrawalFromBytesArray :: "externals \<Rightarrow> rlp_data list \<Rightarrow> exn + withdrawal" where
  "createWithdrawalFromBytesArray x vs = (if length vs \<noteq> 4 then Inl (PlainError ''Invalid withdrawalArray length'') else createWithdrawal x (DList vs))"

definition validateWithdrawals :: "withdrawal list option \<Rightarrow> frozen_config \<Rightarrow> int \<Rightarrow> exn + withdrawal list option" where
  "validateWithdrawals withdrawals cfg number = (let eip4895 = isEIPActiveAtBlock cfg 4895 (Some (number, None)) in
     if \<not> eip4895 \<and> withdrawals \<noteq> None then Inl (PlainError ''Cannot have a withdrawals field if EIP 4895 is not active'')
     else Inr (case withdrawals of Some ws \<Rightarrow> Some ws | None \<Rightarrow> if eip4895 then Some [] else None))"

definition block_fromHeader :: "frozen_header \<Rightarrow> frozen_config option \<Rightarrow> frozen_block" where
  "block_fromHeader h cfg = \<lparr>fb_header = h, fb_transactions = [], fb_uncleHeaders = [], fb_withdrawals = None,
     fb_manager = (case cfg of None \<Rightarrow> fh_manager h | Some c \<Rightarrow> c), fb_txTrieRoot = None, fb_withdrawalsTrieRoot = None\<rparr>"

text \<open>A block made from a header and the execution context made from that header are under the same hardfork.\<close>

lemma context_hardfork: "createBlockContext (fb_header b) (fb_manager b) = Inr c \<Longrightarrow> getHardforkFromBlockContext c (fb_manager b) = block_getHardfork b"
  by (auto simp: createBlockContext_def getHardforkFromBlockContext_def block_getHardfork_def bindR_eq_Inr Let_def)

section \<open>What the roots commit to\<close>

text \<open>The keys: the encodings of the positions.\<close>

definition position_key :: "nat \<Rightarrow> bytes" where
  "position_key i = (let bs = (if i = 0 then [] else be_bytes i) in if length bs = 1 \<and> unat (bs ! 0) < 128 then bs else of_nat (length bs + 128) # bs)"

lemma encode_position: "i < 2 ^ 32 \<Longrightarrow> encode (RNumber (int i)) = Inr (position_key i)"
  using length_be_bytes_le [of i 4] by (auto simp: encode_number encode_bytes_eq position_key_def Let_def simp del: encode.simps)


lemma position_key_inj:
  assumes "i < 2 ^ 32" "j < 2 ^ 32" "position_key i = position_key j"
  shows "i = j"
proof -
  have len: "length (position_key k) < 2 ^ 64" if "k < 2 ^ 32" for k
    using that length_be_bytes_le [of k 4] by (auto simp: position_key_def Let_def)
  have "encode (data_input (DBytes (if k = 0 then [] else be_bytes k))) = Inr (position_key k)" if "k < 2 ^ 32" for k
    using encode_position [OF that] encode_number [of "int k"] by (cases "k = 0") (simp_all add: toBytes_def)
  from decode_encode [OF this [OF assms(1)], of "[]"] decode_encode [OF this [OF assms(2)], of "[]"]
  have "(if i = 0 then [] else be_bytes i) = (if j = 0 then [] else be_bytes j)" using assms len by simp
  moreover have "be_value (if k = 0 then [] else be_bytes k) = int k" for k by (simp add: be_value_Nil)
  ultimately show ?thesis by (metis of_nat_eq_iff)
qed

fun entries :: "nat \<Rightarrow> bytes list \<Rightarrow> (bytes \<times> bytes) list" where
  "entries i [] = []"
| "entries i (v # vs) = (position_key i, v) # entries (i + 1) vs"

lemma bind_lift: "bindE (liftE (Inr a)) f = f a"
  by (simp add: bindE_def liftE_def)

lemma put_entries_loop:
  "i + length vs \<le> 2 ^ 32 \<Longrightarrow> put_entries x L i (map Inr vs) = mpt_batch_loop x L (put_ops (entries i vs)) False"
  by (induction vs arbitrary: i) (simp_all add: encode_position bind_lift del: encode.simps)

lemma entries_content:
  "i + length vs \<le> 2 ^ 32 \<Longrightarrow> j < 2 ^ 32 \<Longrightarrow>
    map_puts x default_opts (entries i vs) m (bytesToNibbles (position_key j))
    = (if i \<le> j \<and> j < i + length vs then Some (vs ! (j - i)) else m (bytesToNibbles (position_key j)))"
proof (induction vs arbitrary: i m)
  case (Cons v vs)
  have "i < 2 ^ 32" using Cons.prems(1) by simp
  then have "bytesToNibbles (position_key i) = bytesToNibbles (position_key j) \<longleftrightarrow> i = j" by (metis position_key_inj packed_of_nibbles Cons.prems(2))
  then show ?case using Cons.prems Cons.IH [of "i + 1"] by (cases "i = j") (auto simp: nth_Cons')
qed auto

lemma entries_take: "take n (entries i vs) = entries i (take n vs)"
  by (induction vs arbitrary: i n) (simp_all add: take_Cons split: nat.split)

lemma entries_values [simp]: "length (entries i vs) = length vs" "snd ` set (entries i vs) = set vs"
  by (induction vs arbitrary: i) simp_all

definition list_trie :: "externals \<Rightarrow> bytes list \<Rightarrow> trie option" where
  "list_trie x vs = with_puts x default_opts (entries 0 vs) None"

text \<open>The root of a list of values, and when two lists have the same.\<close>

lemma new_trie:
  assumes "hash32 x"
  obtains s :: "'c mpt" where "new_mpt x (L :: 'c lru) default_opts None None = Inr s" "ready x s" "holds x s None" "mpt_options s = default_opts"
  using assms by (simp add: new_mpt_def ready_def holds_def new_checkpoint_db_def db_ok_def cd_view_def disk_view_def default_opts_def
    hash32_def EMPTY_TRIE_ROOT_def mpt_hash_def)

lemma root_of_list:
  fixes L :: "'c lru"
  assumes "hash32 x" "noble_ok x" "length vs \<le> 2 ^ 32" "[] \<notin> set vs" "\<forall>n\<le>length vs. sound_trie x (list_trie x (take n vs))"
  obtains s' :: "'c mpt" where "bindR (new_mpt x L default_opts None None) (root_after (put_entries x L 0 (map Inr vs))) = Inr (mpt_root s')"
    "holds x s' (list_trie x vs)" "content (list_trie x vs) = map_puts x default_opts (entries 0 vs) (\<lambda>_. None)"
proof -
  obtain s where s: "new_mpt x L default_opts None None = Inr s" "ready x s" "holds x s None" "mpt_options s = default_opts"
    using new_trie [OF assms(1)] by blast
  have "\<forall>(k, v)\<in>set (entries 0 vs). v \<noteq> []" using assms(4) entries_values(2) [of 0 vs] by (force simp del: entries_values)
  from batch_loop_holds [OF assms(1,2) s(2,3) this, of L] assms(5) s(4)
  obtain s' where "mpt_batch_loop x L (put_ops (entries 0 vs)) False s = (Inr (), s')" "becomes x s s' (list_trie x vs)"
    "content (list_trie x vs) = map_puts x default_opts (entries 0 vs) (content None)"
    by (auto simp: list_trie_def entries_take)
  then show ?thesis using that [of s'] s(1) put_entries_loop [of 0 vs x L] assms(3) by (simp add: root_after_def becomes_def content_def)
qed

lemma same_list:
  assumes "length vs \<le> 2 ^ 32" "length vs' \<le> 2 ^ 32"
    "map_puts x default_opts (entries 0 vs) (\<lambda>_. None) = map_puts x default_opts (entries 0 vs') (\<lambda>_. None)"
  shows "vs = vs'"
proof -
  have at: "(if j < length vs then Some (vs ! j) else None) = (if j < length vs' then Some (vs' ! j) else None)" if "j < 2 ^ 32" for j
    using entries_content [of 0 vs j x "\<lambda>_. None"] entries_content [of 0 vs' j x "\<lambda>_. None"] assms that
    by (simp only: add_0 diff_zero le0 simp_thms)
  have "\<not> length vs < length vs'" "\<not> length vs' < length vs" using at [of "length vs"] at [of "length vs'"] assms(1,2) by (force split: if_splits)+
  then have len: "length vs = length vs'" by simp
  moreover have "vs ! j = vs' ! j" if "j < length vs" for j using at [of j] that assms(1) len by simp
  ultimately show ?thesis by (intro nth_equalityI) simp_all
qed


abbreviation tx_bytes :: "externals \<Rightarrow> frozen_tx \<Rightarrow> bytes" where
  "tx_bytes x tx \<equiv> (case tx_serialize x (ft_inner tx) of Inr bs \<Rightarrow> bs | Inl _ \<Rightarrow> [])"

definition tx_trie :: "externals \<Rightarrow> frozen_tx list \<Rightarrow> trie option" where
  "tx_trie x txs = list_trie x (map (tx_bytes x) txs)"

definition commitment_ok :: "externals \<Rightarrow> frozen_block \<Rightarrow> bool" where
  "commitment_ok x b \<longleftrightarrow> fb_txTrieRoot b = None \<and> length (fb_transactions b) \<le> 2 ^ 32
     \<and> (\<forall>tx\<in>set (fb_transactions b). tx_wf (ft_inner tx) \<and> length (tx_bytes x tx) < 2 ^ 64)
     \<and> (\<forall>n\<le>length (fb_transactions b). sound_trie x (tx_trie x (take n (fb_transactions b))))"

lemma same_bytes:
  assumes "noble_ok x" "tx_wf (ft_inner tx)" "tx_wf (ft_inner tx')" "tx_bytes x tx = tx_bytes x tx'" "length (tx_bytes x tx) < 2 ^ 64"
  shows "ft_inner tx = ft_inner tx'"
proof -
  let ?o = "undefined :: tx_options"
  obtain bs where bs: "tx_serialize x (ft_inner tx) = Inr bs" "length bs < 2 ^ 64 \<Longrightarrow> createTxManagerFromRLP x bs ?o = Inr (newTx (ft_inner tx) ?o)"
    by (rule reads_back [OF assms(1,2), where opts = ?o]) blast
  obtain bs' where bs': "tx_serialize x (ft_inner tx') = Inr bs'" "length bs' < 2 ^ 64 \<Longrightarrow> createTxManagerFromRLP x bs' ?o = Inr (newTx (ft_inner tx') ?o)"
    by (rule reads_back [OF assms(1,3), where opts = ?o]) blast
  show ?thesis using bs bs' assms(4,5) by (simp add: newTx_def)
qed

lemma valid_root:
  fixes L :: "'c lru"
  assumes x: "hash32 x" "noble_ok x" "keccak256 x [0x80] = KECCAK256_RLP" and b: "commitment_ok x b" "transactionsTrieIsValid x L b = Inr True"
  obtains s :: "'c mpt" where "holds x s (tx_trie x (fb_transactions b))" "mpt_root s = bh_transactionsTrie (block_data b)"
    "content (tx_trie x (fb_transactions b)) = map_puts x default_opts (entries 0 (map (tx_bytes x) (fb_transactions b))) (\<lambda>_. None)"
proof -
  let ?vs = "map (tx_bytes x) (fb_transactions b)"
  have wf: "tx_serialize x (ft_inner tx) = Inr (tx_bytes x tx) \<and> tx_bytes x tx \<noteq> []" if "tx \<in> set (fb_transactions b)" for tx
    using that b(1) reads_back [OF x(2), of "ft_inner tx"] unfolding commitment_ok_def by (metis (no_types, lifting) sum.simps(6))
  then have vs: "map (\<lambda>tx. tx_serialize x (ft_inner tx)) (fb_transactions b) = map Inr ?vs" "[] \<notin> set ?vs" by force+
  have sound: "\<forall>n\<le>length ?vs. sound_trie x (list_trie x (take n ?vs))" using b(1) by (simp add: commitment_ok_def tx_trie_def take_map)
  have len: "length ?vs \<le> 2 ^ 32" using b(1) by (simp add: commitment_ok_def)
  obtain s :: "'c mpt" where s: "bindR (new_mpt x L default_opts None None) (root_after (put_entries x L 0 (map Inr ?vs))) = Inr (mpt_root s)"
    "holds x s (list_trie x ?vs)" "content (list_trie x ?vs) = map_puts x default_opts (entries 0 ?vs) (\<lambda>_. None)"
    by (rule root_of_list [OF x(1,2) len vs(2) sound])
  have "mpt_root s = bh_transactionsTrie (block_data b)"
  proof (cases "fb_transactions b = []")
    case True
    then show ?thesis using s(2) b(2) x(3) by (simp add: transactionsTrieIsValid_def equalsBytes_def holds_def list_trie_def with_puts_def
      EMPTY_TRIE_ROOT_def mpt_hash_def RLP_EMPTY_STRING_def)
  next
    case False
    obtain t :: "'c mpt" where t: "new_mpt x L default_opts None None = Inr t" using new_trie [OF x(1)] by blast
    have "put_entries x L 0 (map (\<lambda>tx. tx_serialize x (ft_inner tx)) (fb_transactions b)) = put_entries x L 0 (map Inr ?vs)" by (simp only: vs(1))
    then have "genTxTrie x L b = Inr (mpt_root s)" using s(1) t by (simp add: genTxTrie_def genTransactionsTrieRoot_def empty_trie_or_new_def)
    then show ?thesis using False b by (simp add: transactionsTrieIsValid_def commitment_ok_def equalsBytes_def)
  qed
  then show ?thesis using that s(2,3) by (simp add: tx_trie_def)
qed

text \<open>C36: the header commits to the transactions: when two blocks carry the same transactions root and the check of the
  root accepts both, they have the same transactions in the same order, whatever their number, as long as no two of
  the encodings involved (transactions within the codec's limit of 2^64 bytes) have the same hash.\<close>

theorem header_commits_to_transactions:
  fixes L :: "'c lru"
  assumes "hash32 x" "noble_ok x" "keccak256 x [0x80] = KECCAK256_RLP" "commitment_ok x b" "commitment_ok x b'"
    and "collision_free x ((case tx_trie x (fb_transactions b) of None \<Rightarrow> {} | Some t \<Rightarrow> encs x t) \<union>
           (case tx_trie x (fb_transactions b') of None \<Rightarrow> {} | Some t \<Rightarrow> encs x t))"
    and "transactionsTrieIsValid x L b = Inr True" "transactionsTrieIsValid x L b' = Inr True"
    and "bh_transactionsTrie (block_data b) = bh_transactionsTrie (block_data b')"
  shows "map ft_inner (fb_transactions b) = map ft_inner (fb_transactions b')"
proof -
  let ?vs = "\<lambda>b. map (tx_bytes x) (fb_transactions b)"
  obtain s :: "'c mpt" where s: "holds x s (tx_trie x (fb_transactions b))" "mpt_root s = bh_transactionsTrie (block_data b)"
    "content (tx_trie x (fb_transactions b)) = map_puts x default_opts (entries 0 (?vs b)) (\<lambda>_. None)" by (rule valid_root [OF assms(1-4,7)])
  obtain s' :: "'c mpt" where s': "holds x s' (tx_trie x (fb_transactions b'))" "mpt_root s' = bh_transactionsTrie (block_data b')"
    "content (tx_trie x (fb_transactions b')) = map_puts x default_opts (entries 0 (?vs b')) (\<lambda>_. None)" by (rule valid_root [OF assms(1-3,5,8)])
  have "tx_trie x (fb_transactions b) = tx_trie x (fb_transactions b')" using same_content [OF assms(1) s(1) s'(1) _ assms(6)] s(2) s'(2) assms(9) by simp
  then have vs: "?vs b = ?vs b'" using same_list [of "?vs b" "?vs b'" x] s(3) s'(3) assms(4,5) by (simp add: commitment_ok_def)
  then have "list_all2 (\<lambda>tx tx'. tx_bytes x tx = tx_bytes x tx') (fb_transactions b) (fb_transactions b')" by (simp add: list_all2_conv_all_nth list_eq_iff_nth_eq)
  moreover have "ft_inner tx = ft_inner tx'" if "tx_bytes x tx = tx_bytes x tx'" "tx \<in> set (fb_transactions b)" "tx' \<in> set (fb_transactions b')" for tx tx'
    by (rule same_bytes [OF assms(2)]) (use that assms(4,5) in \<open>auto simp: commitment_ok_def\<close>)
  ultimately have "list_all2 (\<lambda>tx tx'. ft_inner tx = ft_inner tx') (fb_transactions b) (fb_transactions b')" by (rule list.rel_mono_strong)
  then show ?thesis by (simp add: list_all2_conv_all_nth list_eq_iff_nth_eq)
qed


text \<open>An example: one transaction.\<close>

definition hashing_externals :: externals where
  "hashing_externals = sample_externals\<lparr>keccak256 := (\<lambda>bs. if bs = [0x80] then KECCAK256_RLP else setLengthLeft (take 32 bs) 32)\<rparr>"

lemma hashing_ok: "hash32 hashing_externals" "noble_ok hashing_externals" "keccak256 hashing_externals [0x80] = KECCAK256_RLP"
proof -
  show "noble_ok hashing_externals" using noble_ok_sample unfolding hashing_externals_def noble_ok_def by (simp cong: option.case_cong)
qed (simp_all add: hashing_externals_def hash32_def length_setLengthLeft KECCAK256_RLP_def)

definition sample_legacy :: tx_inner where
  "sample_legacy = LegacyTxData \<lparr>tx_chainId = 0, tx_nonce = 0, tx_gasLimit = 0, tx_to = None, tx_value = 0, tx_data = DBytes [], tx_v = None, tx_r = None, tx_s = None\<rparr> 0"

lemma sample_legacy_wf: "tx_wf sample_legacy"
  by (simp add: tx_wf_def sample_legacy_def signature_wf_def)

lemma sample_legacy_bytes: "tx_serialize hashing_externals sample_legacy = Inr [0xc9, 0x80, 0x80, 0x80, 0x80, 0x80, 0x80, 0x80, 0x80, 0x80]"
  by code_simp



definition sample_block :: "bytes \<Rightarrow> hf_context \<Rightarrow> frozen_block" where
  "sample_block root h = \<lparr>fb_header = sample_block_header\<lparr>fh_data := sample_header_data\<lparr>bh_transactionsTrie := root\<rparr>\<rparr>,
     fb_transactions = [newTx sample_legacy \<lparr>to_common = london_config, to_hardfork = h\<rparr>], fb_uncleHeaders = [], fb_withdrawals = None, fb_manager = london_config,
     fb_txTrieRoot = None, fb_withdrawalsTrieRoot = None\<rparr>"

abbreviation tx_leaf :: trie where
  "tx_leaf \<equiv> TLeaf [8, 0] [0xc9, 0x80, 0x80, 0x80, 0x80, 0x80, 0x80, 0x80, 0x80, 0x80]"

lemma tx_leaf_sound: "sound_trie hashing_externals (Some tx_leaf)" "collision_free hashing_externals (encs hashing_externals tx_leaf)"
proof -
  have e: "enc hashing_externals tx_leaf = [0xce, 0x82, 0x20, 0x80, 0x8a, 0xc9, 0x80, 0x80, 0x80, 0x80, 0x80, 0x80, 0x80, 0x80, 0x80]" by code_simp
  have "inj_on (keccak256 hashing_externals) {[0x80], [0xce, 0x82, 0x20, 0x80, 0x8a, 0xc9, 0x80, 0x80, 0x80, 0x80, 0x80, 0x80, 0x80, 0x80, 0x80]}"
    by (simp add: hashing_externals_def setLengthLeft_short KECCAK256_RLP_def)
  then show "collision_free hashing_externals (encs hashing_externals tx_leaf)" "sound_trie hashing_externals (Some tx_leaf)"
    using e by (simp_all add: sound_trie_def fits_def collision_free_def encs_def RLP_EMPTY_STRING_def)
qed

lemma sample_tx_trie: "tx_trie hashing_externals (fb_transactions (sample_block root h)) = Some tx_leaf"
proof -
  have "bytesToNibbles (position_key 0) = [8, 0]" by code_simp
  then show ?thesis by (simp add: tx_trie_def list_trie_def with_puts_def inserted_def sample_block_def newTx_def sample_legacy_bytes)
qed

lemma sample_commitment: "commitment_ok hashing_externals (sample_block root h)"
proof -
  have "tx_trie hashing_externals (take n (fb_transactions (sample_block root h))) \<in> {None, Some tx_leaf}" for n
    using sample_tx_trie [of root h] by (cases n) (simp_all add: tx_trie_def list_trie_def with_puts_def sample_block_def)
  moreover have "sound_trie hashing_externals T" if "T \<in> {None, Some tx_leaf}" for T using that tx_leaf_sound unfolding sound_trie_def by auto
  ultimately have "\<forall>n. sound_trie hashing_externals (tx_trie hashing_externals (take n (fb_transactions (sample_block root h))))" by blast
  then show ?thesis unfolding commitment_ok_def by (simp add: sample_block_def newTx_def sample_legacy_wf sample_legacy_bytes)
qed

theorem header_commits_witness:
  "\<exists>root. transactionsTrieIsValid hashing_externals no_lru (sample_block root NoContext) = Inr True
    \<and> transactionsTrieIsValid hashing_externals no_lru (sample_block root (ByName ''london'')) = Inr True
    \<and> map ft_inner (fb_transactions (sample_block root NoContext)) = map ft_inner (fb_transactions (sample_block root (ByName ''london'')))"
proof -
  have vs: "map (tx_bytes hashing_externals) (fb_transactions (sample_block [] NoContext)) = [[0xc9, 0x80, 0x80, 0x80, 0x80, 0x80, 0x80, 0x80, 0x80, 0x80]]"
    by (simp add: sample_block_def newTx_def sample_legacy_bytes)
  obtain root where root: "genTxTrie hashing_externals no_lru (sample_block r h) = Inr root" for r h
  proof -
    have "\<forall>n\<le>length (fb_transactions (sample_block [] NoContext)). sound_trie hashing_externals (tx_trie hashing_externals (take n (fb_transactions (sample_block [] NoContext))))"
      using sample_commitment [of "[]" NoContext] by (simp add: commitment_ok_def)
    then have "\<forall>n\<le>length [[0xc9, 0x80, 0x80, 0x80, 0x80, 0x80, 0x80, 0x80, 0x80, 0x80 :: byte]]. sound_trie hashing_externals
        (list_trie hashing_externals (take n [[0xc9, 0x80, 0x80, 0x80, 0x80, 0x80, 0x80, 0x80, 0x80, 0x80]]))"
      by (metis vs tx_trie_def take_map length_map)
    then obtain s :: "unit mpt" where s: "bindR (new_mpt hashing_externals no_lru default_opts None None) (root_after (put_entries hashing_externals no_lru 0
        (map Inr [[0xc9, 0x80, 0x80, 0x80, 0x80, 0x80, 0x80, 0x80, 0x80, 0x80]]))) = Inr (mpt_root s)"
      by (rule root_of_list [OF hashing_ok(1,2), rotated 2, where L = no_lru]) simp_all
    have "genTxTrie hashing_externals no_lru (sample_block r h) = Inr (mpt_root s)" for r h
      using s by (cases "new_mpt hashing_externals no_lru default_opts None None")
        (simp_all add: genTxTrie_def genTransactionsTrieRoot_def empty_trie_or_new_def sample_block_def newTx_def sample_legacy_bytes)
    then show ?thesis by (rule that)
  qed
  have valid: "transactionsTrieIsValid hashing_externals no_lru (sample_block root h) = Inr True" for h
    using root [of root h] by (simp add: transactionsTrieIsValid_def equalsBytes_def) (simp add: sample_block_def)
  have "map ft_inner (fb_transactions (sample_block root NoContext)) = map ft_inner (fb_transactions (sample_block root (ByName ''london'')))"
    by (rule header_commits_to_transactions [OF hashing_ok sample_commitment sample_commitment _ valid valid])
      (simp_all add: sample_tx_trie tx_leaf_sound(2), simp add: sample_block_def)
  then show ?thesis using valid by blast
qed


section \<open>Reading back what is written\<close>

definition wd_bytes :: "int \<Rightarrow> bytes" where
  "wd_bytes n = (if n = 0 then [] else be_bytes (nat n))"

definition withdrawal_wf :: "withdrawal \<Rightarrow> bool" where
  "withdrawal_wf w \<longleftrightarrow> 0 \<le> wd_index w \<and> 0 \<le> wd_validatorIndex w \<and> length (wd_address w) = 20 \<and> (\<exists>n\<ge>0. wd_amount w = Some n)"

definition wd_values :: "withdrawal \<Rightarrow> rlp_data list" where
  "wd_values w = map DBytes [wd_bytes (wd_index w), wd_bytes (wd_validatorIndex w), wd_address w, wd_bytes (the (wd_amount w))]"

lemma unprefixed_run: "noble_ok x \<Longrightarrow> unprefixedHexToBytes x (hex_of_bytes bs) = Inr bs"
  using hex_pairs_of_bytes [of bs] hex_not_prefixed [of bs]
  by (auto simp: unprefixedHexToBytes_def noble_ok_def padToEven_def dest: spec [of _ "hex_of_bytes bs"])

lemma number_item_run: "noble_ok x \<Longrightarrow> 0 \<le> n \<Longrightarrow> number_item x n = Inr (RBytes (wd_bytes n))"
  by (simp add: number_item_def toBytes_bigint_def unprefixed_run wd_bytes_def padToEven_nat_hex)

lemma withdrawal_written: "noble_ok x \<Longrightarrow> withdrawal_wf w \<Longrightarrow> withdrawalToBytesArray x w = Inr (map data_input (wd_values w))"
  by (auto simp: withdrawalToBytesArray_def withdrawal_wf_def number_item_run wd_values_def)

lemma be_value_wd [simp]: "0 \<le> n \<Longrightarrow> be_value (wd_bytes n) = n"
  by (simp add: wd_bytes_def be_value_Nil)

lemma withdrawal_read: "noble_ok x \<Longrightarrow> withdrawal_wf w \<Longrightarrow> createWithdrawal x (DList (wd_values w)) = Inr w"
  by (cases w) (auto simp: createWithdrawal_def withdrawal_wf_def wd_values_def toBytes_data_def at_def new_Address_def bytesToBigInt_le_eq)



definition header_readable :: "block_opts \<Rightarrow> frozen_header \<Rightarrow> bool" where
  "header_readable opts h \<longleftrightarrow> header_wf h \<and> fields_aligned h \<and> fh_manager h = bo_manager opts
     \<and> check_fields (bo_manager opts) (\<not> bo_skipConsensus opts) (fh_data h) = Inr ()"

definition reread :: "externals \<Rightarrow> block_opts \<Rightarrow> frozen_header \<Rightarrow> frozen_header" where
  "reread x opts h = h\<lparr>fh_hash := if bo_freeze opts then (case computeHash x h of Inr v \<Rightarrow> Some v | Inl _ \<Rightarrow> None) else None\<rparr>"

lemma header_part_run:
  assumes "noble_ok x" "header_readable opts h"
  shows "header_of_part x sha (header_opts_of opts None) (Some (DList (map DBytes (raw_fields h)))) = Inr (reread x opts h)"
proof -
  obtain bs where bs: "serialize_header x h = Inr bs" using serialize_run [OF assms(1)] assms(2) by (auto simp: header_readable_def)
  then show ?thesis using header_reads_back [OF assms(1) _ _ _ _ _ bs, of "header_opts_of opts None" sha] assms(2)
    by (simp add: header_of_part_def header_readable_def header_opts_of_def reread_def computeHash_def)
qed

lemma all_right_map: "(\<And>v. v \<in> set vs \<Longrightarrow> f v = Inr (g v)) \<Longrightarrow> all_right (map f vs) = Inr (map g vs)"
  by (induction vs) simp_all

definition tx_value :: "externals \<Rightarrow> frozen_tx \<Rightarrow> rlp_data" where
  "tx_value x tx = (if tx_type (ft_inner tx) = 0 then DList (tx_values (ft_inner tx)) else DBytes (tx_bytes x tx))"

definition tx_readable :: "externals \<Rightarrow> frozen_tx \<Rightarrow> bool" where
  "tx_readable x tx \<longleftrightarrow> tx_wf (ft_inner tx) \<and> length (tx_bytes x tx) < 2 ^ 64"

lemma tx_written: "noble_ok x \<Longrightarrow> tx_readable x tx \<Longrightarrow> tx_item x tx = Inr (data_input (tx_value x tx))"
  using reads_back [of x "ft_inner tx"] tx_raw_run [of x "ft_inner tx"] by (force simp: tx_item_def supports_def tx_value_def tx_readable_def Let_def)

lemma tx_read:
  assumes "noble_ok x" "tx_readable x tx"
  shows "createTxManagerFromBlockBodyData x (tx_value x tx) opts = Inr (newTx (ft_inner tx) opts)"
proof (cases "tx_type (ft_inner tx) = 0")
  case True
  then obtain f p where "ft_inner tx = LegacyTxData f p" by (cases "ft_inner tx") simp_all
  then show ?thesis using read_legacy [OF assms(1)] assms(2) by (simp add: createTxManagerFromBlockBodyData_def tx_value_def tx_readable_def)
next
  case False
  obtain bs where "tx_serialize x (ft_inner tx) = Inr bs" "length bs < 2 ^ 64 \<Longrightarrow> createTxManagerFromRLP x bs opts = Inr (newTx (ft_inner tx) opts)"
    using reads_back [OF assms(1), of "ft_inner tx" opts] assms(2) by (auto simp: tx_readable_def)
  then show ?thesis using False assms(2) by (simp add: createTxManagerFromBlockBodyData_def tx_value_def tx_readable_def)
qed

definition block_readable :: "externals \<Rightarrow> block_opts \<Rightarrow> frozen_block \<Rightarrow> bool" where
  "block_readable x opts b \<longleftrightarrow> bo_calcDifficulty opts = None \<and> (\<forall>h\<in>set (fb_header b # fb_uncleHeaders b). header_readable opts h)
     \<and> (\<forall>tx\<in>set (fb_transactions b). tx_readable x tx)
     \<and> (case fb_withdrawals b of None \<Rightarrow> \<not> header_isEIPActive (fb_header b) 4895
        | Some ws \<Rightarrow> header_isEIPActive (fb_header b) 4895 \<and> (\<forall>w\<in>set ws. withdrawal_wf w))
     \<and> validateBlockConstructor x (bo_manager opts) (map (reread x opts) (fb_uncleHeaders b)) (fb_withdrawals b) (isGenesis (fb_header b))
         (bh_number (block_data b)) None = Inr (fb_withdrawals b)"

definition reread_block :: "externals \<Rightarrow> block_opts \<Rightarrow> frozen_block \<Rightarrow> frozen_block" where
  "reread_block x opts b = \<lparr>fb_header = reread x opts (fb_header b),
     fb_transactions = map (\<lambda>tx. newTx (ft_inner tx) (block_tx_options opts)) (fb_transactions b),
     fb_uncleHeaders = map (reread x opts) (fb_uncleHeaders b), fb_withdrawals = fb_withdrawals b, fb_manager = bo_manager opts,
     fb_txTrieRoot = None, fb_withdrawalsTrieRoot = None\<rparr>"

definition block_values :: "externals \<Rightarrow> frozen_block \<Rightarrow> rlp_data list" where
  "block_values x b = [DList (map DBytes (raw_fields (fb_header b))), DList (map (tx_value x) (fb_transactions b)),
     DList (map (\<lambda>u. DList (map DBytes (raw_fields u))) (fb_uncleHeaders b))]
     @ (case fb_withdrawals b of None \<Rightarrow> [] | Some ws \<Rightarrow> [DList (map (\<lambda>w. DList (wd_values w)) ws)])"

lemma block_written:
  assumes x: "noble_ok x" and b: "block_readable x opts b"
  shows "block_toRaw x b = Inr (map data_input (block_values x b))"
proof -
  have wf: "header_wf h" if "h \<in> set (fb_header b # fb_uncleHeaders b)" for h using b that by (auto simp: block_readable_def header_readable_def)
  have "all_right (map (tx_item x) (fb_transactions b)) = Inr (map (\<lambda>tx. data_input (tx_value x tx)) (fb_transactions b))"
    using b tx_written [OF x] by (intro all_right_map) (auto simp: block_readable_def)
  moreover have "all_right (map (\<lambda>u. map_sum id RArray (toRaw x u)) (fb_uncleHeaders b)) = Inr (map (\<lambda>u. RArray (map RBytes (raw_fields u))) (fb_uncleHeaders b))"
    using toRaw_run [OF x wf] by (intro all_right_map) simp
  moreover have "all_right (map (\<lambda>w. map_sum id RArray (withdrawalToBytesArray x w)) ws) = Inr (map (\<lambda>w. RArray (map data_input (wd_values w))) ws)"
    if "fb_withdrawals b = Some ws" for ws
    using b that withdrawal_written [OF x] by (intro all_right_map) (auto simp: block_readable_def)
  ultimately show ?thesis using toRaw_run [OF x wf, of "fb_header b"]
    by (simp add: block_toRaw_def block_values_def map_data_input comp_def split: option.split)
qed

lemma block_read:
  assumes x: "noble_ok x" and b: "block_readable x opts b"
  shows "block_fromBytesArray x sha opts (block_values x b) = Inr (reread_block x opts b)"
proof -
  have h: "header_of_part x sha (header_opts_of opts None) (Some (DList (map DBytes (raw_fields h)))) = Inr (reread x opts h)"
    if "h \<in> set (fb_header b # fb_uncleHeaders b)" for h using b that header_part_run [OF x] by (auto simp: block_readable_def)
  have txs: "all_right (map (\<lambda>d. createTxManagerFromBlockBodyData x d (block_tx_options opts)) (map (tx_value x) (fb_transactions b)))
      = Inr (map (\<lambda>tx. newTx (ft_inner tx) (block_tx_options opts)) (fb_transactions b))"
    using b tx_read [OF x] unfolding list.map_comp comp_def by (intro all_right_map) (auto simp: block_readable_def)
  have uncles: "all_right (map (\<lambda>d. header_of_part x sha (header_opts_of opts None) (Some d)) (map (\<lambda>u. DList (map DBytes (raw_fields u))) (fb_uncleHeaders b)))
      = Inr (map (reread x opts) (fb_uncleHeaders b))"
    using h unfolding list.map_comp comp_def by (intro all_right_map) simp
  have wds: "all_right (map (createWithdrawal x) (map (\<lambda>w. DList (wd_values w)) ws)) = Inr ws" if "fb_withdrawals b = Some ws" for ws
    using all_right_map [of ws "\<lambda>w. createWithdrawal x (DList (wd_values w))" "\<lambda>w. w"] b that withdrawal_read [OF x]
    unfolding list.map_comp comp_def by (auto simp: block_readable_def)
  have same: "header_isEIPActive (reread x opts h) = header_isEIPActive h" "fh_data (reread x opts h) = fh_data h" "isGenesis (reread x opts h) = isGenesis h" for h
    by (simp_all add: reread_def hash_irrelevant isGenesis_def)
  show ?thesis
  proof (cases "fb_withdrawals b")
    case None
    then show ?thesis using b h [of "fb_header b"] txs uncles
      by (simp add: block_fromBytesArray_def block_values_def at_def parts_def block_readable_def reread_block_def same Let_def del: map_map)
  next
    case (Some ws)
    then show ?thesis using b h [of "fb_header b"] txs uncles wds [OF Some]
      by (simp add: block_fromBytesArray_def block_values_def at_def parts_def block_readable_def reread_block_def same Let_def del: map_map)
  qed
qed

text \<open>C37: a block is serialised to bytes from which the reader makes the same block again: the header and the uncles with
  their hashes, the transactions of all kinds in order, the withdrawals. The block must pass the checks that the
  reader makes (\<open>block_readable\<close>): well-formed parts, withdrawals exactly when their EIP is active, and the rules
  of the constructor at a block number without timestamp.\<close>

theorem block_roundtrip:
  assumes "noble_ok x" "block_readable x opts b"
  shows "\<exists>bs. block_serialize x b = Inr bs \<and> (length bs < 2 ^ 64 \<and> block_size_limit (bo_manager opts) (length bs) = Inr ()
    \<longrightarrow> block_fromRLP x sha opts bs = Inr (reread_block x opts b))"
proof -
  obtain bs where bs: "encode (RArray (map data_input (block_values x b))) = Inr bs"
    "length bs < 2 ^ 64 \<longrightarrow> decode (RBytes bs) False = Inr (Plain (DList (block_values x b)))" using encoded_list by blast
  have "block_serialize x b = Inr bs" using block_written [OF assms] bs(1) by (simp add: block_serialize_def del: encode.simps)
  then show ?thesis using bs(2) block_read [OF assms, of sha] by (auto simp: block_fromRLP_def)
qed


definition dev_config :: frozen_config where
  "dev_config = london_config\<lparr>cfg_spec := london_spec\<lparr>spec_chain := Some \<lparr>chain_cfg_name = ''dev'', chain_cfg_chainId = 1, defaultHardfork = None,
     consensus_type = ''pow'', consensus_algorithm = ''ethash'', chain_cfg_hardforks = spec_hardforks london_spec\<rparr>\<rparr>\<rparr>"

definition dev_block :: frozen_block where
  "dev_block = \<lparr>fb_header = \<lparr>fh_data = sample_header_data, fh_manager = dev_config, fh_hash = None\<rparr>,
     fb_transactions = [newTx sample_legacy \<lparr>to_common = dev_config, to_hardfork = NoContext\<rparr>], fb_uncleHeaders = [], fb_withdrawals = None,
     fb_manager = dev_config, fb_txTrieRoot = None, fb_withdrawalsTrieRoot = None\<rparr>"

definition dev_opts :: block_opts where
  "dev_opts = \<lparr>bo_manager = dev_config, bo_calcDifficulty = None, bo_skipConsensus = True, bo_freeze = True\<rparr>"

lemma dev_chain: "\<exists>c. spec_chain (cfg_spec dev_config) = Some c"
  by (simp add: dev_config_def)

lemma dev_hardfork: "getHardforkByBlock dev_config (Some 7) t = ''london''"
  by (cases t) (simp_all add: getHardforkByBlock_def result_index_def default_index_def dev_config_def london_spec_def reached_block_def reached_time_def
      Let_def numeral_2_eq_2)

lemma dev_eips: "isEIPActiveAtBlock dev_config eip (Some (7, t)) \<longleftrightarrow> eip \<in> {1, 1559, 3198, 3529, 3541}"
  by (simp add: isEIPActiveAtBlock_def isEIPActiveAtHardfork_def dev_hardfork) (simp add: dev_config_def london_table)

lemma dev_readable: "block_readable sample_externals dev_opts dev_block"
proof -
  have "hardforkBlock dev_config ''london'' = Some 0"
    by (simp add: hardforkBlock_def dev_config_def london_spec_def find_entry_def)
  then have "check_fields dev_config False sample_header_data = Inr ()" by (simp add: check_fields_def sample_header_data_def)
  moreover have "header_wf (fb_header dev_block)" "fields_aligned (fb_header dev_block)" "\<not> header_isEIPActive (fb_header dev_block) 4895"
    by (simp_all add: header_wf_def fields_aligned_def Let_def has_field_def header_isEIPActive_def dev_block_def sample_header_data_def dev_eips
      KECCAK256_RLP_ARRAY_def KECCAK256_RLP_def)
  moreover have "tx_serialize sample_externals sample_legacy = Inr [0xc9, 0x80, 0x80, 0x80, 0x80, 0x80, 0x80, 0x80, 0x80, 0x80]" by code_simp
  moreover have "validateBlockConstructor sample_externals dev_config [] None False 7 None = Inr None"
    using dev_chain by (auto simp: validateBlockConstructor_def dev_eips)
  ultimately show ?thesis
    by (simp add: block_readable_def header_readable_def tx_readable_def dev_block_def dev_opts_def newTx_def sample_legacy_wf isGenesis_def sample_header_data_def)
qed

lemma dev_size_limit: "block_size_limit (bo_manager dev_opts) n = Inr ()"
  by (simp add: block_size_limit_def isEIPActiveAtHardfork_def dev_opts_def dev_config_def london_config_def london_spec_def add_hardfork_def
    empty_config_def Let_def)

theorem block_roundtrip_witness:
  "\<exists>bs. block_serialize sample_externals dev_block = Inr bs \<and> (length bs < 2 ^ 64 \<longrightarrow>
    (\<exists>b. block_fromRLP sample_externals (replicate 32 0) dev_opts bs = Inr b \<and> fb_withdrawals b = None \<and> map ft_inner (fb_transactions b) = [sample_legacy]))"
  using block_roundtrip [OF noble_ok_sample dev_readable, of "replicate 32 0"] dev_size_limit by (auto simp: reread_block_def dev_block_def newTx_def)

section \<open>What the reader guarantees\<close>

abbreviation sized :: "nat \<Rightarrow> bytes \<Rightarrow> bool" where
  "sized n b \<equiv> length b = n \<or> b = []"

text \<open>A field of fixed length may be empty (\<open>empty_field_accepted\<close>).\<close>

definition header_typed :: "frozen_header \<Rightarrow> bool" where
  "header_typed h \<longleftrightarrow> (let d = fh_data h; active = header_isEIPActive h in
     sized 32 (bh_parentHash d) \<and> sized 32 (bh_uncleHash d) \<and> length (bh_coinbase d) = 20 \<and> sized 32 (bh_stateRoot d)
   \<and> sized 32 (bh_transactionsTrie d) \<and> sized 32 (bh_receiptTrie d) \<and> sized 256 (bh_logsBloom d)
   \<and> 0 \<le> bh_number d \<and> 0 \<le> bh_gasUsed d \<and> bh_gasUsed d \<le> bh_gasLimit d \<and> 0 \<le> bh_timestamp d
   \<and> sized 32 (bh_mixHash d) \<and> sized 8 (bh_nonce d)
   \<and> has_field (active 1559) (bh_baseFeePerGas d) (\<lambda>n. 0 \<le> n) \<and> has_field (active 4895) (bh_withdrawalsRoot d) (sized 32)
   \<and> has_field (active 4844) (bh_blobGasUsed d) (\<lambda>n. 0 \<le> n) \<and> has_field (active 4844) (bh_excessBlobGas d) (\<lambda>n. 0 \<le> n)
   \<and> has_field (active 4788) (bh_parentBeaconBlockRoot d) (sized 32) \<and> has_field (active 7685) (bh_requestsHash d) (sized 32))"

lemma zBytes_sized: "zBytes (Some n) d v = Inr b \<Longrightarrow> length d = n \<Longrightarrow> sized n b"
  by (auto simp: zBytes_def bindR_eq_Inr split: if_splits option.splits rlp_data.splits)

lemma zAddress_length: "zAddress v = Inr a \<Longrightarrow> length a = 20"
  by (auto simp: zAddress_def split: if_splits option.splits rlp_data.splits)

lemma zBigInt_nonneg: "noble_ok x \<Longrightarrow> zBigInt x d v = Inr n \<Longrightarrow> 0 \<le> n"
  by (auto simp: zBigInt_def bindR_eq_Inr bytesToBigInt_le_eq be_value_bounds)

lemma when_active_sized: "when_active active (zBytes (Some n) d) v = Inr w \<Longrightarrow> length d = n \<Longrightarrow> has_field active w (sized n)"
  using zBytes_sized by (fastforce simp: when_active_def has_field_def bindR_eq_Inr split: if_splits)

lemma when_active_typed: "when_active active p v = Inr w \<Longrightarrow> (\<And>a. p v = Inr a \<Longrightarrow> good a) \<Longrightarrow> has_field active w good"
  by (auto simp: when_active_def has_field_def bindR_eq_Inr split: if_splits)


lemma map_sum_Inr: "map_sum id f r = Inr b \<longleftrightarrow> (\<exists>a. r = Inr a \<and> b = f a)"
  by (cases r) auto

lemma validated_typed:
  assumes x: "noble_ok x" "length sha = 32" and v: "validate_fields x sha cfg vs = Inr d" "value_at vs 11 \<noteq> None" "bh_gasUsed d \<le> bh_gasLimit d"
  shows "header_typed \<lparr>fh_data = d\<lparr>bh_difficulty := n\<rparr>, fh_manager = cfg, fh_hash = hash\<rparr>"
proof -
  obtain t where t: "value_at vs 11 = Some t" using v(2) by blast
  obtain number time parentHash uncleHash coinbase stateRoot transactionsTrie receiptTrie logsBloom difficulty gasLimit gasUsed extraData mixHash
      nonce baseFee withdrawalsRoot blobGasUsed excessBlobGas beaconRoot requestsHash where
    d: "d = \<lparr>bh_parentHash = parentHash, bh_uncleHash = uncleHash, bh_coinbase = coinbase, bh_stateRoot = stateRoot,
         bh_transactionsTrie = transactionsTrie, bh_receiptTrie = receiptTrie, bh_logsBloom = logsBloom, bh_difficulty = difficulty,
         bh_number = number, bh_gasLimit = gasLimit, bh_gasUsed = gasUsed, bh_timestamp = time, bh_extraData = extraData,
         bh_mixHash = mixHash, bh_nonce = nonce, bh_baseFeePerGas = baseFee, bh_withdrawalsRoot = withdrawalsRoot,
         bh_blobGasUsed = blobGasUsed, bh_excessBlobGas = excessBlobGas, bh_parentBeaconBlockRoot = beaconRoot, bh_requestsHash = requestsHash\<rparr>"
    and z: "zBigInt x 0 (value_at vs 8) = Inr number" "zBigInt x 0 (Some t) = Inr time" "zBigInt x 0 (value_at vs 10) = Inr gasUsed"
    "zBytes (Some 32) (replicate 32 0) (value_at vs 0) = Inr parentHash" "zBytes (Some 32) KECCAK256_RLP_ARRAY (value_at vs 1) = Inr uncleHash"
    "zAddress (value_at vs 2) = Inr coinbase" "zBytes (Some 32) (replicate 32 0) (value_at vs 3) = Inr stateRoot"
    "zBytes (Some 32) KECCAK256_RLP (value_at vs 4) = Inr transactionsTrie" "zBytes (Some 32) KECCAK256_RLP (value_at vs 5) = Inr receiptTrie"
    "zBytes (Some 256) (replicate 256 0) (value_at vs 6) = Inr logsBloom" "zBytes (Some 32) (replicate 32 0) (value_at vs 13) = Inr mixHash"
    "zBytes (Some 8) (replicate 8 0) (value_at vs 14) = Inr nonce"
    and a: "when_active (isEIPActiveAtBlock cfg 1559 (Some (number, Some time))) (zBigInt x 7) (value_at vs 15) = Inr baseFee"
    "when_active (isEIPActiveAtBlock cfg 4895 (Some (number, Some time))) (zBytes (Some 32) KECCAK256_RLP) (value_at vs 16) = Inr withdrawalsRoot"
    "when_active (isEIPActiveAtBlock cfg 4844 (Some (number, Some time))) (zBigInt x 0) (value_at vs 17) = Inr blobGasUsed"
    "when_active (isEIPActiveAtBlock cfg 4844 (Some (number, Some time))) (zBigInt x 0) (value_at vs 18) = Inr excessBlobGas"
    "when_active (isEIPActiveAtBlock cfg 4788 (Some (number, Some time))) (zBytes (Some 32) (replicate 32 0)) (value_at vs 19) = Inr beaconRoot"
    "when_active (isEIPActiveAtBlock cfg 7685 (Some (number, Some time))) (zBytes (Some 32) sha) (value_at vs 20) = Inr requestsHash"
    using v(1) t by (auto simp: validate_fields_def bindR_eq_Inr Let_def map_sum_Inr)
  have k: "length KECCAK256_RLP = 32" "length KECCAK256_RLP_ARRAY = 32" by (simp_all add: KECCAK256_RLP_def KECCAK256_RLP_ARRAY_def)
  note n = zBigInt_nonneg [OF x(1)]
  note b = zBytes_sized
  have "has_field (isEIPActiveAtBlock cfg 1559 (Some (number, Some time))) baseFee (\<lambda>n. 0 \<le> n)" by (rule when_active_typed [OF a(1) n])
  moreover have "has_field (isEIPActiveAtBlock cfg 4895 (Some (number, Some time))) withdrawalsRoot (sized 32)" by (rule when_active_sized [OF a(2) k(1)])
  moreover have "has_field (isEIPActiveAtBlock cfg 4844 (Some (number, Some time))) blobGasUsed (\<lambda>n. 0 \<le> n)" by (rule when_active_typed [OF a(3) n])
  moreover have "has_field (isEIPActiveAtBlock cfg 4844 (Some (number, Some time))) excessBlobGas (\<lambda>n. 0 \<le> n)" by (rule when_active_typed [OF a(4) n])
  moreover have "has_field (isEIPActiveAtBlock cfg 4788 (Some (number, Some time))) beaconRoot (sized 32)" by (rule when_active_sized [OF a(5)]) simp
  moreover have "has_field (isEIPActiveAtBlock cfg 7685 (Some (number, Some time))) requestsHash (sized 32)" by (rule when_active_sized [OF a(6) x(2)])
  ultimately show ?thesis using n [OF z(1)] n [OF z(2)] n [OF z(3)] b [OF z(4)] b [OF z(5) k(2)] zAddress_length [OF z(6)] b [OF z(7)] b [OF z(8) k(1)]
      b [OF z(9) k(1)] b [OF z(10)] b [OF z(11)] b [OF z(12)] v(3)
    by (simp add: header_typed_def header_isEIPActive_def d Let_def)
qed

lemma read_header_typed:
  assumes x: "noble_ok x" "length sha = 32" and h: "fromBytesArray x sha opts vs = Inr h"
  shows "header_typed h \<and> fh_manager h = ho_manager opts"
proof -
  obtain d n where d: "validate_fields x sha (ho_manager opts) vs = Inr d" "\<not> bh_gasUsed d > bh_gasLimit d" "15 \<le> length vs"
    "\<exists>hash. h = \<lparr>fh_data = d\<lparr>bh_difficulty := n\<rparr>, fh_manager = ho_manager opts, fh_hash = hash\<rparr>"
    using h by (auto simp: fromBytesArray_def fromHeaderData_def validateBlockHeader_def check_fields_def check_length_def bindR_eq_Inr Let_def split: if_splits)
  then show ?thesis using validated_typed [OF x d(1)] by (auto simp: value_at_def)
qed


lemma all_right_all: "all_right (map f xs) = Inr ys \<Longrightarrow> y \<in> set ys \<Longrightarrow> \<exists>v\<in>set xs. f v = Inr y"
  by (induction xs arbitrary: ys) (auto simp: bindR_eq_Inr)

lemma parts_all: "parts d f = Inr ys \<Longrightarrow> y \<in> set ys \<Longrightarrow> \<exists>v. f v = Inr y"
  by (auto simp: parts_def split: option.splits rlp_data.splits list.splits dest: all_right_all)

definition withdrawal_typed :: "withdrawal \<Rightarrow> bool" where
  "withdrawal_typed w \<longleftrightarrow> 0 \<le> wd_index w \<and> 0 \<le> wd_validatorIndex w \<and> length (wd_address w) = 20 \<and> (\<forall>n. wd_amount w = Some n \<longrightarrow> 0 \<le> n)"

lemma created_withdrawal: "noble_ok x \<Longrightarrow> createWithdrawal x d = Inr w \<Longrightarrow> withdrawal_typed w"
  by (auto simp: createWithdrawal_def withdrawal_typed_def new_Address_def bindR_eq_Inr bytesToBigInt_le_eq be_value_bounds
      split: rlp_data.splits option.splits if_splits)

lemma constructor_checks:
  assumes "validateBlockConstructor x cfg uncles ws genesis n t = Inr ws'"
  shows "length uncles \<le> 2" "ws' \<noteq> None \<longleftrightarrow> isEIPActiveAtBlock cfg 4895 (Some (n, t))" "ws \<noteq> None \<longrightarrow> ws' = ws" "ws = None \<longrightarrow> ws' = None \<or> ws' = Some []"
  using assms by (auto simp: validateBlockConstructor_def MAX_UNCLE_HEADERS_def Let_def split: option.splits if_splits)

lemma read_parts:
  assumes "block_fromBytesArray x sha opts vs = Inr b"
  obtains ws where "header_of_part x sha (header_opts_of opts (bo_calcDifficulty opts)) (at vs 0) = Inr (fb_header b)"
    "parts (at vs 2) (\<lambda>d. header_of_part x sha (header_opts_of opts None) (Some d)) = Inr (fb_uncleHeaders b)"
    "ws \<noteq> None \<longleftrightarrow> header_isEIPActive (fb_header b) 4895" "\<And>w wds. ws = Some wds \<Longrightarrow> w \<in> set wds \<Longrightarrow> \<exists>d. createWithdrawal x d = Inr w"
    "validateBlockConstructor x (fb_manager b) (fb_uncleHeaders b) ws (isGenesis (fb_header b)) (bh_number (block_data b)) None = Inr (fb_withdrawals b)"
    "fb_manager b = bo_manager opts"
proof -
  obtain header uncles ws ws' where p: "header_of_part x sha (header_opts_of opts (bo_calcDifficulty opts)) (at vs 0) = Inr header"
    "header_isEIPActive header 4895 \<longrightarrow> (\<exists>ds. at vs 3 = Some (DList ds))"
    "parts (at vs 2) (\<lambda>d. header_of_part x sha (header_opts_of opts None) (Some d)) = Inr uncles"
    "(case (if header_isEIPActive header 4895 then at vs 3 else None) of None \<Rightarrow> Inr None
      | w \<Rightarrow> map_sum id Some (parts w (createWithdrawal x))) = Inr ws"
    "validateBlockConstructor x (bo_manager opts) uncles ws (isGenesis header) (bh_number (fh_data header)) None = Inr ws'"
    "fb_header b = header" "fb_uncleHeaders b = uncles" "fb_manager b = bo_manager opts" "fb_withdrawals b = ws'"
    using assms by (fastforce simp: block_fromBytesArray_def bindR_eq_Inr Let_def split: if_splits)
  have "\<exists>d. createWithdrawal x d = Inr w" if "ws = Some wds" "w \<in> set wds" for w wds
    using p(4) that parts_all [of _ "createWithdrawal x" wds w] by (auto simp: map_sum_Inr split: option.splits if_splits)
  moreover have "ws \<noteq> None \<longleftrightarrow> header_isEIPActive header 4895" using p(2,4) by (auto simp: map_sum_Inr split: option.splits if_splits)
  ultimately show ?thesis using that p by metis
qed

text \<open>The reader asks whether the withdrawals are active at the block number alone: a block of a chain that activates them by
  timestamp is never read, \<open>fromBytesArray\<close> fails whatever the bytes.\<close>

lemma withdrawals_by_timestamp_unreadable:
  assumes "noble_ok x" "length sha = 32" "block_fromBytesArray x sha opts vs = Inr b" "block_isEIPActive b 4895"
  shows "isEIPActiveAtBlock (fb_manager b) 4895 (Some (bh_number (block_data b), None))"
proof -
  obtain ws where p: "header_of_part x sha (header_opts_of opts (bo_calcDifficulty opts)) (at vs 0) = Inr (fb_header b)"
    "ws \<noteq> None \<longleftrightarrow> header_isEIPActive (fb_header b) 4895" "fb_manager b = bo_manager opts"
    "validateBlockConstructor x (fb_manager b) (fb_uncleHeaders b) ws (isGenesis (fb_header b)) (bh_number (block_data b)) None = Inr (fb_withdrawals b)"
    using read_parts [OF assms(3)] by metis
  obtain hs where "fromBytesArray x sha (header_opts_of opts (bo_calcDifficulty opts)) hs = Inr (fb_header b)"
    using p(1) by (auto simp: header_of_part_def split: option.splits rlp_data.splits)
  then have "fh_manager (fb_header b) = bo_manager opts" using read_header_typed [OF assms(1,2)] by (auto simp: header_opts_of_def)
  then have "ws \<noteq> None" using p(2,3) assms(4) by (simp add: block_isEIPActive_def header_isEIPActive_def)
  then show ?thesis using constructor_checks [OF p(4)] by auto
qed

text \<open>The transactions of a block get the latest hardfork of the chain, whatever the block.\<close>

lemma block_transactions_fork: "createTxManagerFromBlockBodyData x (tx_value x tx) (block_tx_options opts) = Inr tx' \<Longrightarrow> noble_ok x \<Longrightarrow> tx_readable x tx \<Longrightarrow>
    ft_fork tx' = getLatestHardfork (bo_manager opts)"
  by (auto simp: tx_read newTx_def block_tx_options_def getHardforkFromContext_def)

text \<open>C38: what \<open>fromRLP\<close> accepts is well typed: the header and every uncle have fields of their sizes, numbers that are not
  negative, gas used within the limit, and exactly the fields of the EIPs that are active at the header's number and time;
  there are at most two uncles; withdrawals are present exactly when their EIP is active at the block number, and each
  has non-negative numbers and an address of twenty bytes.\<close>

theorem read_block_typed:
  assumes "noble_ok x" "length sha = 32" "block_fromRLP x sha opts bs = Inr b"
  shows "(\<forall>h\<in>set (fb_header b # fb_uncleHeaders b). header_typed h \<and> fh_manager h = fb_manager b) \<and> length (fb_uncleHeaders b) \<le> 2
    \<and> (fb_withdrawals b \<noteq> None \<longleftrightarrow> isEIPActiveAtBlock (fb_manager b) 4895 (Some (bh_number (block_data b), None)))
    \<and> (\<forall>ws w. fb_withdrawals b = Some ws \<and> w \<in> set ws \<longrightarrow> withdrawal_typed w)"
proof -
  obtain vs where vs: "block_fromBytesArray x sha opts vs = Inr b"
  proof -
    obtain d where "decode (RBytes bs) False = Inr d" "(case d of Plain (DList vs) \<Rightarrow> block_fromBytesArray x sha opts vs
        | _ \<Rightarrow> Inl (PlainError ''Invalid serialized block input. Must be array'')) = Inr b"
      using assms(3) by (auto simp: block_fromRLP_def bindR_eq_Inr)
    then show ?thesis using that by (cases d; cases "case d of Plain r \<Rightarrow> r | _ \<Rightarrow> DBytes []") auto
  qed
  obtain ws where p: "header_of_part x sha (header_opts_of opts (bo_calcDifficulty opts)) (at vs 0) = Inr (fb_header b)"
    "parts (at vs 2) (\<lambda>d. header_of_part x sha (header_opts_of opts None) (Some d)) = Inr (fb_uncleHeaders b)"
    "\<And>w wds. ws = Some wds \<Longrightarrow> w \<in> set wds \<Longrightarrow> \<exists>d. createWithdrawal x d = Inr w"
    "validateBlockConstructor x (fb_manager b) (fb_uncleHeaders b) ws (isGenesis (fb_header b)) (bh_number (block_data b)) None = Inr (fb_withdrawals b)"
    "fb_manager b = bo_manager opts" using read_parts [OF vs] by metis
  have h: "header_typed h \<and> fh_manager h = bo_manager opts" if "header_of_part x sha (header_opts_of opts q) d = Inr h" for d h q
    using that read_header_typed [OF assms(1,2)] by (fastforce simp: header_of_part_def header_opts_of_def split: option.splits rlp_data.splits)
  have "\<forall>h\<in>set (fb_header b # fb_uncleHeaders b). header_typed h \<and> fh_manager h = fb_manager b"
    using h [OF p(1)] parts_all [OF p(2)] h p(5) by auto
  moreover have "\<forall>wds w. fb_withdrawals b = Some wds \<and> w \<in> set wds \<longrightarrow> withdrawal_typed w"
    using constructor_checks(3,4) [OF p(4)] p(3) created_withdrawal [OF assms(1)] by fastforce
  ultimately show ?thesis using constructor_checks(1,2) [OF p(4)] by blast
qed

theorem read_block_typed_witness:
  "\<exists>bs. block_serialize sample_externals dev_block = Inr bs \<and> (length bs < 2 ^ 64 \<longrightarrow>
    (\<exists>b. block_fromRLP sample_externals (replicate 32 0) dev_opts bs = Inr b \<and> header_typed (fb_header b) \<and> length (fb_uncleHeaders b) \<le> 2))"
proof -
  obtain bs where bs: "encode (RArray (map data_input (block_values sample_externals dev_block))) = Inr bs"
    "length bs < 2 ^ 64 \<longrightarrow> decode (RBytes bs) False = Inr (Plain (DList (block_values sample_externals dev_block)))" using encoded_list by blast
  have ser: "block_serialize sample_externals dev_block = Inr bs"
    using block_written [OF noble_ok_sample dev_readable] bs(1) by (simp add: block_serialize_def del: encode.simps)
  have "header_typed (fb_header b) \<and> length (fb_uncleHeaders b) \<le> 2"
    if "block_fromRLP sample_externals (replicate 32 0) dev_opts bs = Inr b" for b
    using read_block_typed [OF noble_ok_sample _ that] by simp
  moreover have "\<exists>b. block_fromRLP sample_externals (replicate 32 0) dev_opts bs = Inr b" if "length bs < 2 ^ 64"
    using bs(2) that block_read [OF noble_ok_sample dev_readable, of "replicate 32 0"] dev_size_limit by (simp add: block_fromRLP_def)
  ultimately show ?thesis using ser by blast
qed

end
