(* ===== verification/Bloom.thy ===== *)
theory Bloom
  imports Items RunState
begin

text \<open>
  The bloom filter of logs, \<open>packages/vm/src/bloom/index.ts\<close>, and the filter of a transaction's logs
  (\<open>txLogsBloom\<close> of \<open>runTx.ts\<close>). The hash is the parameter \<open>externals\<close>.
\<close>

definition BYTE_SIZE :: nat where
  "BYTE_SIZE = 256"

definition new_bloom :: "bytes option \<Rightarrow> exn + bytes" where
  "new_bloom bitvector = (case bitvector of None \<Rightarrow> Inr (replicate BYTE_SIZE 0)
     | Some v \<Rightarrow> if length v \<noteq> BYTE_SIZE then Inl (PlainError ''bitvectors must be 2048 bits long'') else Inr v)"

text \<open>\<open>getUint16(i * 2)\<close> under the mask of eleven bits.\<close>

definition bloom_loc :: "bytes \<Rightarrow> nat \<Rightarrow> nat" where
  "bloom_loc h i = (unat (h ! (i * 2)) * 256 + unat (h ! (i * 2 + 1))) AND 2047"

definition set_bit_at :: "nat \<Rightarrow> bytes \<Rightarrow> bytes" where
  "set_bit_at loc v = (let p = BYTE_SIZE - loc div 8 - 1 in v[p := v ! p OR push_bit (loc mod 8) 1])"

definition bit_at :: "nat \<Rightarrow> bytes \<Rightarrow> bool" where
  "bit_at loc v \<longleftrightarrow> v ! (BYTE_SIZE - loc div 8 - 1) AND push_bit (loc mod 8) 1 \<noteq> 0"

definition bloom_add :: "externals \<Rightarrow> bytes \<Rightarrow> bytes \<Rightarrow> bytes" where
  "bloom_add x e v = (let h = keccak256 x e in foldl (\<lambda>v i. set_bit_at (bloom_loc h i) v) v [0, 1, 2])"

definition bloom_check :: "externals \<Rightarrow> bytes \<Rightarrow> bytes \<Rightarrow> bool" where
  "bloom_check x e v = (let h = keccak256 x e in list_all (\<lambda>i. bit_at (bloom_loc h i) v) [0, 1, 2])"

definition multiCheck :: "externals \<Rightarrow> bytes list \<Rightarrow> bytes \<Rightarrow> bool" where
  "multiCheck x topics v = list_all (\<lambda>t. bloom_check x t v) topics"

text \<open>The loop runs one step too far, where a write has no effect.\<close>

definition bloom_or :: "bytes \<Rightarrow> bytes \<Rightarrow> bytes" where
  "bloom_or v other = map2 (OR) v other"

definition log_bloom :: "externals \<Rightarrow> log_entry \<Rightarrow> bytes \<Rightarrow> bytes" where
  "log_bloom x log v = (case log of (address, topics, _) \<Rightarrow> foldl (\<lambda>v t. bloom_add x t v) (bloom_add x address v) topics)"

definition txLogsBloom :: "externals \<Rightarrow> log_entry list option \<Rightarrow> bytes" where
  "txLogsBloom x logs = foldl (\<lambda>v log. log_bloom x log v) (replicate BYTE_SIZE 0) (case logs of None \<Rightarrow> [] | Some ls \<Rightarrow> ls)"

section \<open>No false negatives\<close>

definition bits_le :: "bytes \<Rightarrow> bytes \<Rightarrow> bool" where
  "bits_le v w \<longleftrightarrow> length v = length w \<and> (\<forall>loc. bit_at loc v \<longrightarrow> bit_at loc w)"

lemma bits_le_refl [simp]: "bits_le v v"
  by (simp add: bits_le_def)

lemma bits_le_trans: "bits_le u v \<Longrightarrow> bits_le v w \<Longrightarrow> bits_le u w"
  by (simp add: bits_le_def)

lemma bit_at_eq: "bit_at loc v \<longleftrightarrow> bit (v ! (BYTE_SIZE - loc div 8 - 1)) (loc mod 8)"
  by (simp add: bit_at_def and_exp_eq_0_iff_not_bit)

lemma set_bit_grows:
  assumes "length v = BYTE_SIZE"
  shows "bits_le v (set_bit_at loc v)" "bit_at loc (set_bit_at loc v)"
proof -
  have len: "BYTE_SIZE - k - 1 < length v" for k using assms by (simp add: BYTE_SIZE_def)
  have mod: "loc mod 8 < 8" by simp
  show "bits_le v (set_bit_at loc v)"
    using len by (auto simp: bits_le_def bit_at_eq set_bit_at_def Let_def nth_list_update bit_or_iff)
  show "bit_at loc (set_bit_at loc v)"
    using len mod by (simp add: bit_at_eq set_bit_at_def Let_def bit_or_iff bit_exp_iff)
qed

lemma add_grows:
  assumes "length v = BYTE_SIZE"
  shows "bits_le v (bloom_add x e v)" "bloom_check x e (bloom_add x e v)"
proof -
  let ?l = "bloom_loc (keccak256 x e)"
  let ?a = "set_bit_at (?l 0) v" and ?b = "\<lambda>v. set_bit_at (?l 1) v" and ?c = "\<lambda>v. set_bit_at (?l 2) v"
  have a: "bits_le v ?a" "bit_at (?l 0) ?a" using set_bit_grows [OF assms] by blast+
  then have la: "length ?a = BYTE_SIZE" using assms by (simp add: bits_le_def)
  have b: "bits_le ?a (?b ?a)" "bit_at (?l 1) (?b ?a)" using set_bit_grows [OF la] by blast+
  then have lb: "length (?b ?a) = BYTE_SIZE" using la by (simp add: bits_le_def)
  have c: "bits_le (?b ?a) (?c (?b ?a))" "bit_at (?l 2) (?c (?b ?a))" using set_bit_grows [OF lb] by blast+
  show "bits_le v (bloom_add x e v)" using a b c by (simp add: bloom_add_def Let_def) (blast intro: bits_le_trans)
  show "bloom_check x e (bloom_add x e v)" using a b c by (simp add: bloom_add_def bloom_check_def Let_def bits_le_def)
qed

lemma check_mono: "bits_le v w \<Longrightarrow> bloom_check x e v \<Longrightarrow> bloom_check x e w"
  by (auto simp: bloom_check_def Let_def bits_le_def)

lemma multi_mono: "bits_le v w \<Longrightarrow> multiCheck x ts v \<Longrightarrow> multiCheck x ts w"
  using check_mono by (auto simp: multiCheck_def list_all_iff)

lemma topics_grow:
  "length v = BYTE_SIZE \<Longrightarrow> bits_le v (foldl (\<lambda>v t. bloom_add x t v) v ts) \<and> multiCheck x ts (foldl (\<lambda>v t. bloom_add x t v) v ts)"
proof (induction ts arbitrary: v)
  case (Cons t ts)
  have v: "bits_le v (bloom_add x t v)" "bloom_check x t (bloom_add x t v)" using add_grows [OF Cons.prems] by blast+
  then have "length (bloom_add x t v) = BYTE_SIZE" using Cons.prems by (simp add: bits_le_def)
  from Cons.IH [OF this] show ?case using v check_mono bits_le_trans by (auto simp: multiCheck_def)
qed (simp add: multiCheck_def)

lemma log_grows:
  assumes "length v = BYTE_SIZE" "log = (address, topics, data)"
  shows "bits_le v (log_bloom x log v)" "bloom_check x address (log_bloom x log v) \<and> multiCheck x topics (log_bloom x log v)"
proof -
  have v: "bits_le v (bloom_add x address v)" "bloom_check x address (bloom_add x address v)" using add_grows [OF assms(1)] by blast+
  then have "length (bloom_add x address v) = BYTE_SIZE" using assms(1) by (simp add: bits_le_def)
  from topics_grow [OF this, of x topics]
  show "bits_le v (log_bloom x log v)" "bloom_check x address (log_bloom x log v) \<and> multiCheck x topics (log_bloom x log v)"
    using v check_mono bits_le_trans assms(2) by (auto simp: log_bloom_def)
qed

lemma logs_grow:
  "length v = BYTE_SIZE \<Longrightarrow> bits_le v (foldl (\<lambda>v log. log_bloom x log v) v ls)
    \<and> (\<forall>(address, topics, data)\<in>set ls. bloom_check x address (foldl (\<lambda>v log. log_bloom x log v) v ls)
        \<and> multiCheck x topics (foldl (\<lambda>v log. log_bloom x log v) v ls))"
proof (induction ls arbitrary: v)
  case (Cons log ls)
  obtain address topics data where log: "log = (address, topics, data)" by (cases log)
  note g = log_grows [OF Cons.prems log, of x]
  then have "length (log_bloom x log v) = BYTE_SIZE" using Cons.prems by (simp add: bits_le_def)
  note ih = Cons.IH [OF this]
  have "bits_le v (foldl (\<lambda>v log. log_bloom x log v) v (log # ls))" using bits_le_trans g(1) ih by simp
  moreover have "bloom_check x a (foldl (\<lambda>v log. log_bloom x log v) v (log # ls)) \<and> multiCheck x ts (foldl (\<lambda>v log. log_bloom x log v) v (log # ls))"
    if "(a, ts, d) \<in> set (log # ls)" for a ts d
    using that ih g(2) log check_mono [OF conjunct1 [OF ih]] multi_mono [OF conjunct1 [OF ih]] by auto
  ultimately show ?case by blast
qed simp

lemma or_grows: "length v = length w \<Longrightarrow> length v = BYTE_SIZE \<Longrightarrow> bits_le v (bloom_or v w) \<and> bits_le w (bloom_or v w)"
  by (auto simp: bits_le_def bloom_or_def bit_at_eq bit_or_iff BYTE_SIZE_def)

text \<open>The bloom filter of a transaction has no false negatives: it matches the address and every topic of every one of its logs,
  and so does the filter of a block, into which it is merged with those of other transactions in any order.\<close>

theorem bloom_no_false_negatives:
  assumes "(address, topics, data) \<in> set logs" "length others = BYTE_SIZE"
  shows "bloom_check x address (txLogsBloom x (Some logs)) \<and> multiCheck x topics (txLogsBloom x (Some logs))
    \<and> bloom_check x address (bloom_or others (txLogsBloom x (Some logs))) \<and> multiCheck x topics (bloom_or (txLogsBloom x (Some logs)) others)"
proof -
  have g: "bits_le (replicate BYTE_SIZE 0) (txLogsBloom x (Some logs))" "bloom_check x address (txLogsBloom x (Some logs))"
    "multiCheck x topics (txLogsBloom x (Some logs))" using logs_grow [of "replicate BYTE_SIZE 0" x logs] assms(1) by (auto simp: txLogsBloom_def)
  then have "length (txLogsBloom x (Some logs)) = BYTE_SIZE" by (simp add: bits_le_def)
  then have "bits_le (txLogsBloom x (Some logs)) (bloom_or others (txLogsBloom x (Some logs)))"
    "bits_le (txLogsBloom x (Some logs)) (bloom_or (txLogsBloom x (Some logs)) others)" using or_grows assms(2) by metis+
  then show ?thesis using g check_mono multi_mono by blast
qed

theorem bloom_no_false_negatives_witness:
  "bloom_check sample_externals [7] (txLogsBloom sample_externals (Some [([7], [[1], [2]], [])]))
    \<and> multiCheck sample_externals [[1], [2]] (bloom_or (txLogsBloom sample_externals (Some [([7], [[1], [2]], [])])) (replicate BYTE_SIZE 0))"
  using bloom_no_false_negatives [of "[7]" "[[1], [2]]" "[]" "[([7], [[1], [2]], [])]" "replicate BYTE_SIZE 0" sample_externals] by simp

end
