(* ===== verification/RunTx.thy ===== *)
theory RunTx
  imports EvmSafety Blocks Bloom
begin

text \<open>
  Running a transaction, \<open>packages/vm/src/runTx.ts\<close>: the checks before it, the fees, the authorisations of EIP-7702, the
  message, refunds, the reward of the block's beneficiary, the deletion of accounts, and the receipt. The VM's state
  manager and the one of its EVM are the same object, as the constructor of the VM makes them. What a transaction
  caches of its sender only repeats what is recovered (\<open>sender_transparent\<close>). Events, the profiler and debug output are not
  modelled; the access witness (EIP-7864 here) ends in an error value.
\<close>

section \<open>Options and results\<close>

record vm =
  vm_manager :: frozen_config
  vm_evm :: evm_object
  vm_precompiles :: "address list"

record run_tx_opts =
  rt_block :: "frozen_block option"
  rt_blockContext :: "block_context option"
  rt_tx :: frozen_tx
  rt_skipNonce :: bool
  rt_skipBalance :: bool
  rt_skipBlockGasLimitValidation :: bool
  rt_skipHardForkValidation :: bool
  rt_reportAccessList :: bool
  rt_reportPreimages :: bool
  rt_blockGasUsed :: "int option"

record tx_receipt =
  rc_cumulativeBlockGasUsed :: int
  rc_bitvector :: bytes
  rc_logs :: "log_entry list"
  rc_status :: "int option"
  rc_stateRoot :: "bytes option"
  rc_blobGasUsed :: "int option"
  rc_blobGasPrice :: "int option"

record run_tx_result =
  tr_message :: evm_result
  tr_bloom :: bytes
  tr_totalGasSpent :: int
  tr_gasRefund :: int
  tr_amountSpent :: int
  tr_minerValue :: int
  tr_blobGasUsed :: "int option"
  tr_accessList :: "(bytes \<Rightarrow> bytes set option) option"
  tr_receipt :: tx_receipt

abbreviation rt_inner :: "run_tx_opts \<Rightarrow> tx_inner" where
  "rt_inner opts \<equiv> ft_inner (rt_tx opts)"

abbreviation rt_fields :: "run_tx_opts \<Rightarrow> tx_fields" where
  "rt_fields opts \<equiv> tx_fields_of (rt_inner opts)"

abbreviation vm_ext :: "vm \<Rightarrow> externals" where
  "vm_ext v \<equiv> ctx_ext (eo_ctx (vm_evm v))"

abbreviation vm_active :: "vm \<Rightarrow> string \<Rightarrow> nat \<Rightarrow> bool" where
  "vm_active v hf eip \<equiv> isEIPActiveAtHardfork (vm_manager v) eip hf"

section \<open>The block of the transaction\<close>

definition tx_block_context :: "vm \<Rightarrow> run_tx_opts \<Rightarrow> exn + block_context \<times> string" where
  "tx_block_context v opts = (case rt_blockContext opts of
       Some c \<Rightarrow> Inr (c, getHardforkFromBlockContext c (vm_manager v))
     | None \<Rightarrow> (case rt_block opts of
         None \<Rightarrow> Inl (PlainError ''BlockContext or block is required for transaction execution'')
       | Some b \<Rightarrow> bindR (createBlockContext (fb_header b) (vm_manager v)) (\<lambda>c. let hf = getHardforkFromBlockContext c (vm_manager v) in
           if \<not> rt_skipHardForkValidation opts \<and> spec_chainId (cfg_spec (fb_manager b)) \<noteq> spec_chainId (cfg_spec (vm_manager v))
           then Inl (PlainError ''block and vm have different chain IDs'')
           else if \<not> rt_skipHardForkValidation opts \<and>
             hf \<noteq> manager_getHardforkByBlock (vm_manager v) (Some (bh_number (block_data b))) (Some (bh_timestamp (block_data b)))
           then Inl (PlainError ''block hardfork does not match VM hardfork manager'')
           else Inr (c, hf))))"

text \<open>\<open>DEFAULT_HEADER\<close>, of zeros, stands in when there is no block, also when there is a block context.\<close>

definition rt_coinbase :: "run_tx_opts \<Rightarrow> address" where
  "rt_coinbase opts = (case rt_block opts of None \<Rightarrow> replicate 20 0 | Some b \<Rightarrow> bh_coinbase (block_data b))"

definition rt_baseFee :: "run_tx_opts \<Rightarrow> int" where
  "rt_baseFee opts = (case rt_block opts of None \<Rightarrow> 0 | Some b \<Rightarrow> option_or (bh_baseFeePerGas (block_data b)) 0)"

definition rt_blobGasPrice :: "run_tx_opts \<Rightarrow> exn + int" where
  "rt_blobGasPrice opts = (case rt_block opts of None \<Rightarrow> Inr 0 | Some b \<Rightarrow> getBlobGasPrice (fb_header b))"

definition rt_gasUsed :: "run_tx_opts \<Rightarrow> int" where
  "rt_gasUsed opts = (case rt_blockGasUsed opts of Some n \<Rightarrow> n
     | None \<Rightarrow> (case rt_block opts of None \<Rightarrow> 0 | Some b \<Rightarrow> bh_gasUsed (block_data b)))"

text \<open>The header as the EVM reads it.\<close>

definition evm_header :: "frozen_header \<Rightarrow> block_header" where
  "evm_header h = (let d = fh_data h in \<lparr>hdr_number = bh_number d, hdr_coinbase = bh_coinbase d, hdr_timestamp = bh_timestamp d,
     hdr_difficulty = bh_difficulty d, hdr_prevRandao = bh_mixHash d, hdr_gasLimit = bh_gasLimit d, hdr_baseFeePerGas = bh_baseFeePerGas d,
     hdr_blobGasPrice = (case getBlobGasPrice h of Inr p \<Rightarrow> Some p | Inl _ \<Rightarrow> None)\<rparr>)"

section \<open>Warm addresses\<close>

definition warm_always :: "address \<Rightarrow> bool \<Rightarrow> (evm_state, unit) sx" where
  "warm_always a report = on_world (on_journal (modifyE (addAlwaysWarmAddress a report)))"

definition warm_slot :: "address \<Rightarrow> bytes \<Rightarrow> (evm_state, unit) sx" where
  "warm_slot a key = on_world (on_journal (modifyE (addAlwaysWarmSlot a key True)))"

text \<open>The access list as it was decoded: what is not a byte array cannot be turned into hex.\<close>

fun warm_keys :: "address \<Rightarrow> rlp_data list \<Rightarrow> (evm_state, unit) sx" where
  "warm_keys a [] = returnE ()"
| "warm_keys a (DBytes k # ks) = seqE (warm_slot a k) (warm_keys a ks)"
| "warm_keys a (DList _ # ks) = throwE (PlainError ''invalid storage key'')"

definition warm_entry :: "rlp_data \<Rightarrow> (evm_state, unit) sx" where
  "warm_entry entry = (case entry of
       DList (DBytes a # rest) \<Rightarrow> seqE (warm_always a True) (case rest of
           DList ks # _ \<Rightarrow> warm_keys a ks | DBytes [] # _ \<Rightarrow> returnE () | DBytes _ # _ \<Rightarrow> throwE (PlainError ''invalid storage key'')
         | [] \<Rightarrow> throwE TypeError)
     | _ \<Rightarrow> throwE (PlainError ''invalid address''))"

fun warm_entries :: "rlp_data list \<Rightarrow> (evm_state, unit) sx" where
  "warm_entries [] = returnE ()"
| "warm_entries (d # ds) = seqE (warm_entry d) (warm_entries ds)"

definition warm_access_list :: "tx_inner \<Rightarrow> (evm_state, unit) sx" where
  "warm_access_list t = (case accessList t of None \<Rightarrow> returnE () | Some (DList ds) \<Rightarrow> warm_entries ds
     | Some (DBytes []) \<Rightarrow> returnE () | Some (DBytes _) \<Rightarrow> throwE TypeError)"

fun warm_all :: "address list \<Rightarrow> (evm_state, unit) sx" where
  "warm_all [] = returnE ()"
| "warm_all (a # as) = seqE (warm_always a False) (warm_all as)"

definition warm_tx_addresses :: "vm \<Rightarrow> string \<Rightarrow> run_tx_opts \<Rightarrow> address \<Rightarrow> (evm_state, unit) sx" where
  "warm_tx_addresses v hf opts caller = whenE (vm_active v hf 2929) (warm_all (vm_precompiles v @ [caller]
     @ (case tx_to (rt_fields opts) of None \<Rightarrow> [] | Some a \<Rightarrow> [a]) @ (if vm_active v hf 3651 then [rt_coinbase opts] else [])))"

section \<open>Checks\<close>

definition block_floor :: "vm \<Rightarrow> string \<Rightarrow> run_tx_opts \<Rightarrow> exn + int" where
  "block_floor v hf opts = (if vm_active v hf 7623
     then bindR (need (getParamAtHardfork (vm_manager v) ''txGas'' hf)) (\<lambda>base.
       bindR (need (getParamAtHardfork (vm_manager v) ''totalCostFloorPerToken'' hf)) (\<lambda>n. Inr (base + n * data_tokens (tx_data (rt_fields opts)))))
     else Inr 0)"

text \<open>The gas for the message and the intrinsic gas, with the floor.\<close>

definition check_gas :: "vm \<Rightarrow> string \<Rightarrow> run_tx_opts \<Rightarrow> exn + int \<times> int" where
  "check_gas v hf opts = bindR (getIntrinsicGas (rt_tx opts)) (\<lambda>intrinsicGas. bindR (block_floor v hf opts) (\<lambda>floorCost.
     if tx_gasLimit (rt_fields opts) < bigIntMax intrinsicGas [floorCost] then Inl (PlainError ''tx gas limit is lower than the minimum gas limit'')
     else Inr (intrinsicGas, floorCost)))"

definition check_base_fee :: "vm \<Rightarrow> string \<Rightarrow> run_tx_opts \<Rightarrow> exn + unit" where
  "check_base_fee v hf opts =
     (if vm_active v hf 1559 \<and> (if tx_type (rt_inner opts) = 2 then gasFeeCap (rt_inner opts) else tx_gasPrice (rt_inner opts)) < rt_baseFee opts
      then Inl (PlainError ''less than the block's baseFeePerGas'') else Inr ())"

text \<open>EIP-3607: with EIP-7702 the code is read, but both outcomes of the comparison leave the switch.\<close>

definition check_eoa :: "vm \<Rightarrow> string \<Rightarrow> address \<Rightarrow> account \<Rightarrow> (evm_state, unit) sx" where
  "check_eoa v hf caller acc =
     (if acc_codeHash acc \<noteq> KECCAK256_NULL
      then if vm_active v hf 7702 then seqE (on_world (on_sm (sm_getCode caller))) (returnE ())
           else throwE (PlainError ''invalid sender address, address is not EOA (EIP-3607)'')
      else returnE ())"

definition check_upfront :: "run_tx_opts \<Rightarrow> address \<Rightarrow> account \<Rightarrow> (evm_state, account) sx" where
  "check_upfront opts caller acc = (let cost = getUpfrontCost (rt_inner opts) in
     if acc_balance acc < cost then
       (if rt_skipBalance opts then
          (if \<not> supports (rt_tx opts) 1559
           then seqE (on_world (journal_putAccount caller (Some (acc\<lparr>acc_balance := cost\<rparr>)))) (returnE (acc\<lparr>acc_balance := cost\<rparr>))
           else returnE acc)
        else throwE (PlainError ''sender doesn't have enough funds to send tx (upfront cost)''))
     else returnE acc)"

text \<open>The blob gas and its price.\<close>

definition check_blobs :: "vm \<Rightarrow> string \<Rightarrow> run_tx_opts \<Rightarrow> exn + int \<times> int" where
  "check_blobs v hf opts = (case maxFeePerBlobGas (rt_inner opts) of None \<Rightarrow> Inr (0, 0)
     | Some cap \<Rightarrow> if \<not> vm_active v hf 4844 then Inl (PlainError ''blob transactions are only valid with EIP4844 active'')
         else bindR (need (getParamAtHardfork (vm_manager v) ''blobGasPerBlob'' hf)) (\<lambda>perBlob. bindR (rt_blobGasPrice opts) (\<lambda>price.
           if cap < price then Inl (PlainError ''maxFeePerBlobGas is less than block blobGasPrice'')
           else Inr (perBlob * int (numBlobs (rt_inner opts)), price))))"

definition max_cost :: "run_tx_opts \<Rightarrow> int \<Rightarrow> int" where
  "max_cost opts blobs = tx_fields.tx_value (rt_fields opts)
     + (if supports (rt_tx opts) 1559 then tx_gasLimit (rt_fields opts) * gasFeeCap (rt_inner opts) else 0)
     + (case maxFeePerBlobGas (rt_inner opts) of None \<Rightarrow> 0 | Some cap \<Rightarrow> blobs * cap)"

definition check_max_cost :: "run_tx_opts \<Rightarrow> address \<Rightarrow> int \<Rightarrow> account \<Rightarrow> (evm_state, account) sx" where
  "check_max_cost opts caller maxCost acc =
     (if acc_balance acc < maxCost then
        (if rt_skipBalance opts
         then seqE (on_world (journal_putAccount caller (Some (acc\<lparr>acc_balance := maxCost\<rparr>)))) (returnE (acc\<lparr>acc_balance := maxCost\<rparr>))
         else throwE (PlainError ''sender doesn't have enough funds to send tx (max cost)''))
      else returnE acc)"

definition check_nonce :: "run_tx_opts \<Rightarrow> account \<Rightarrow> exn + unit" where
  "check_nonce opts acc = (if \<not> rt_skipNonce opts \<and> acc_nonce acc \<noteq> tx_nonce (rt_fields opts)
     then Inl (PlainError ''the tx doesn't have the correct nonce'') else Inr ())"

text \<open>The price per gas, and the part of it that goes to the block's beneficiary from EIP-1559 on.\<close>

definition gas_prices :: "vm \<Rightarrow> string \<Rightarrow> run_tx_opts \<Rightarrow> int \<times> int option" where
  "gas_prices v hf opts = (let baseFee = rt_baseFee opts; t = rt_inner opts in
     if supports (rt_tx opts) 1559 then let fee = getEffectivePriorityFee t (Some baseFee) in (fee + baseFee, Some fee)
     else (tx_gasPrice t, if vm_active v hf 1559 then Some (tx_gasPrice t - baseFee) else None))"

section \<open>Authorisations (EIP-7702)\<close>

definition auth_field :: "rlp_data \<Rightarrow> nat \<Rightarrow> exn + bytes" where
  "auth_field d i = (case d of DBytes _ \<Rightarrow> Inl TypeError
     | DList vs \<Rightarrow> (case at vs i of Some (DBytes b) \<Rightarrow> Inr b | _ \<Rightarrow> Inl TypeError))"

text \<open>\<open>eoaCode7702RecoverAuthority\<close>.\<close>

definition recover_authority :: "externals \<Rightarrow> ecdsa \<Rightarrow> rlp_data \<Rightarrow> exn + address" where
  "recover_authority x E d =
     bindR (auth_field d 0) (\<lambda>chainId. bindR (auth_field d 1) (\<lambda>address. bindR (auth_field d 2) (\<lambda>nonce.
     bindR (auth_field d 3) (\<lambda>yParity. bindR (auth_field d 4) (\<lambda>r. bindR (auth_field d 5) (\<lambda>s.
       if length address \<noteq> 20 then Inl (PlainError ''Cannot sign authority: address length should be 20 bytes'')
       else bindR (encode (RArray [RBytes (stripZeros chainId), RBytes address, RBytes (stripZeros nonce)])) (\<lambda>msg.
         bindR (ecrecover E (keccak256 x (5 # msg)) (bytesToBigInt x yParity) r s None) (\<lambda>key. bindR (pubToAddress x key) new_Address))))))))"

definition delegation_code :: "bytes \<Rightarrow> bytes" where
  "delegation_code address = (if equalsBytes address (replicate 20 0) then [] else concatBytes [DELEGATION_7702_FLAG, address])"

text \<open>The refund for an authority whose account exists.\<close>

definition auth_refund :: "vm \<Rightarrow> string \<Rightarrow> exn + int" where
  "auth_refund v hf = bindR (need (getParamAtHardfork (vm_manager v) ''perEmptyAccountCost'' hf)) (\<lambda>empty.
     bindR (need (getParamAtHardfork (vm_manager v) ''perAuthBaseGas'' hf)) (\<lambda>auth. Inr (empty - auth)))"

definition delegate :: "vm \<Rightarrow> string \<Rightarrow> address \<Rightarrow> address \<Rightarrow> rlp_data \<Rightarrow> int \<Rightarrow> (evm_state, int) sx" where
  "delegate v hf caller authority d nonce =
     bindE (on_world (on_sm (sm_getAccount authority))) (\<lambda>found. let account = (case found of None \<Rightarrow> new_account | Some a \<Rightarrow> a) in
     seqE (warm_always authority False)
    (bindE (if isContract account then bindE (on_world (on_sm (sm_getCode authority))) (\<lambda>code. returnE (take 3 code \<noteq> DELEGATION_7702_FLAG))
            else returnE False) (\<lambda>foreign.
       if foreign then returnE 0
       else if (if caller = authority then acc_nonce account + 1 else acc_nonce account) \<noteq> nonce then returnE 0
       else bindE (liftE (if found = None then Inr 0 else auth_refund v hf)) (\<lambda>refund.
         seqE (on_world (journal_putAccount authority (Some (account\<lparr>acc_nonce := acc_nonce account + 1\<rparr>))))
        (bindE (liftE (auth_field d 1)) (\<lambda>address.
         seqE (on_world (on_sm (sm_putCode (vm_ext v) authority (delegation_code address)))) (returnE refund)))))))"

definition authorize :: "vm \<Rightarrow> ecdsa \<Rightarrow> string \<Rightarrow> address \<Rightarrow> rlp_data \<Rightarrow> (evm_state, int) sx" where
  "authorize v E hf caller d = (let num = bytesToBigInt (vm_ext v) in
     bindE (liftE (auth_field d 0)) (\<lambda>chainId.
     if num chainId \<noteq> 0 \<and> num chainId \<noteq> spec_chainId (cfg_spec (vm_manager v)) then returnE 0
     else bindE (liftE (auth_field d 2)) (\<lambda>nonce. if num nonce \<ge> MAX_UINT64 then returnE 0
     else bindE (liftE (auth_field d 5)) (\<lambda>s. if num s > SECP256K1_ORDER_DIV_2 then returnE 0
     else bindE (liftE (auth_field d 3)) (\<lambda>yParity. if num yParity > 1 then returnE 0
     else case recover_authority (vm_ext v) E d of Inl _ \<Rightarrow> returnE 0
       | Inr authority \<Rightarrow> delegate v hf caller authority d (num nonce))))))"

fun authorize_all :: "vm \<Rightarrow> ecdsa \<Rightarrow> string \<Rightarrow> address \<Rightarrow> rlp_data list \<Rightarrow> int \<Rightarrow> (evm_state, int) sx" where
  "authorize_all v E hf caller [] refund = returnE refund"
| "authorize_all v E hf caller (d # ds) refund = bindE (authorize v E hf caller d) (\<lambda>n. authorize_all v E hf caller ds (refund + n))"

definition authorizations :: "vm \<Rightarrow> ecdsa \<Rightarrow> string \<Rightarrow> run_tx_opts \<Rightarrow> address \<Rightarrow> (evm_state, int) sx" where
  "authorizations v E hf opts caller = (case rt_inner opts of
       SetCodeTxData _ _ _ _ (DList ds) \<Rightarrow> authorize_all v E hf caller ds 0
     | SetCodeTxData _ _ _ _ (DBytes bs) \<Rightarrow> if bs = [] then returnE 0 else throwE TypeError
     | _ \<Rightarrow> returnE 0)"

section \<open>The parts of \<open>_runTx\<close>\<close>

record tx_terms =
  tt_caller :: address
  tt_account :: account
  tt_intrinsicGas :: int
  tt_floorCost :: int
  tt_gasPrice :: int
  tt_inclusionFee :: "int option"
  tt_blobGas :: int
  tt_blobGasPrice :: int

text \<open>From the sender to the nonce: everything that can reject the transaction.\<close>

definition tx_checks :: "vm \<Rightarrow> ecdsa \<Rightarrow> string \<Rightarrow> run_tx_opts \<Rightarrow> (evm_state, tx_terms) sx" where
  "tx_checks v E hf opts =
     (if vm_active v hf 7864 then throwE (PlainError ''Binary tree access witness needed for execution of binary tree blocks'')
      else bindE (liftE (fst (getSenderAddress (vm_ext v) E (rt_tx opts)))) (\<lambda>caller.
        seqE (warm_tx_addresses v hf opts caller)
       (bindE (liftE (check_gas v hf opts)) (\<lambda>(intrinsicGas, floorCost).
        seqE (liftE (check_base_fee v hf opts))
       (bindE (get_or_new caller) (\<lambda>acc0.
        seqE (check_eoa v hf caller acc0)
       (bindE (check_upfront opts caller acc0) (\<lambda>acc1.
        bindE (liftE (check_blobs v hf opts)) (\<lambda>(blobs, blobPrice).
        bindE (check_max_cost opts caller (max_cost opts blobs) acc1) (\<lambda>acc2.
        seqE (liftE (check_nonce opts acc0))
          (returnE \<lparr>tt_caller = caller, tt_account = acc2, tt_intrinsicGas = intrinsicGas, tt_floorCost = floorCost,
             tt_gasPrice = fst (gas_prices v hf opts), tt_inclusionFee = snd (gas_prices v hf opts), tt_blobGas = blobs,
             tt_blobGasPrice = blobPrice\<rparr>)))))))))))"

definition tx_cost :: "run_tx_opts \<Rightarrow> tx_terms \<Rightarrow> int" where
  "tx_cost opts terms = tx_gasLimit (rt_fields opts) * tt_gasPrice terms"

definition charge_sender :: "run_tx_opts \<Rightarrow> tx_terms \<Rightarrow> (evm_state, unit) sx" where
  "charge_sender opts terms = (let acc = tt_account terms;
       rest = acc_balance acc - tx_cost opts terms - tt_blobGas terms * tt_blobGasPrice terms in
     on_world (journal_putAccount (tt_caller terms) (Some (acc\<lparr>acc_balance := (if rt_skipBalance opts \<and> rest < 0 then 0 else rest)\<rparr>))))"

text \<open>Hashes of blobs are hexadecimal text.\<close>

definition blob_hash_texts :: "externals \<Rightarrow> tx_inner \<Rightarrow> string list" where
  "blob_hash_texts x t = (case t of BlobTxData _ _ _ _ _ (DList ds) \<Rightarrow> map (\<lambda>d. case d of DBytes b \<Rightarrow> bytesToHex x b | DList _ \<Rightarrow> []) ds | _ \<Rightarrow> [])"

definition tx_call_opts :: "vm \<Rightarrow> block_context \<Rightarrow> run_tx_opts \<Rightarrow> tx_terms \<Rightarrow> bytes \<Rightarrow> run_call_opts" where
  "tx_call_opts v c opts terms data = \<lparr>opt_blockContext = Some (bc_blockNumber c, Some (bc_timestamp c)),
     opt_block = map_option (\<lambda>b. evm_header (fb_header b)) (rt_block opts), opt_message = None, opt_gasPrice = Some (tt_gasPrice terms),
     opt_origin = None, opt_caller = Some (tt_caller terms), opt_to = tx_to (rt_fields opts), opt_value = Some (tx_fields.tx_value (rt_fields opts)),
     opt_data = data, opt_gasLimit = Some (tx_gasLimit (rt_fields opts) - tt_intrinsicGas terms), opt_code = None, opt_depth = 0,
     opt_isStatic = False, opt_salt = None, opt_selfdestruct = None, opt_createdAddresses = None, opt_delegatecall = False,
     opt_blobVersionedHashes = blob_hash_texts (vm_ext v) (rt_inner opts), opt_skipBalance = False\<rparr>"

text \<open>Data that is a list, which a decoded transaction may have, is not executable.\<close>

definition tx_message :: "vm \<Rightarrow> unreached \<Rightarrow> nat \<Rightarrow> block_context \<Rightarrow> run_tx_opts \<Rightarrow> tx_terms \<Rightarrow> (evm_state, evm_result) sx" where
  "tx_message v u levels c opts terms = (case tx_data (rt_fields opts) of
       DBytes data \<Rightarrow> runCall (vm_evm v) u levels (tx_call_opts v c opts terms data)
     | DList _ \<Rightarrow> throwE TypeError)"

text \<open>The gas that is paid for: what was used, less the capped refund, at least the floor; with the refund to report.\<close>

definition gas_spent :: "vm \<Rightarrow> string \<Rightarrow> tx_terms \<Rightarrow> exec_result \<Rightarrow> int \<Rightarrow> exn + int \<times> int" where
  "gas_spent v hf terms r authRefund =
     (let used = er_executionGasUsed r + tt_intrinsicGas terms; refund = authRefund + option_or (er_gasRefund r) 0 in
      bindR (if refund \<noteq> 0
             then bindR (need (getParamAtHardfork (vm_manager v) ''maxRefundQuotient'' hf)) (\<lambda>q. bindR (bigint_div used q) (\<lambda>maxRefund.
               Inr (used - (if refund < maxRefund then refund else maxRefund))))
             else Inr used) (\<lambda>spent.
      Inr (if vm_active v hf 7623 \<and> spent < tt_floorCost terms then (tt_floorCost terms, 0) else (spent, refund))))"

definition refund_sender :: "run_tx_opts \<Rightarrow> tx_terms \<Rightarrow> int \<Rightarrow> (evm_state, unit) sx" where
  "refund_sender opts terms spent = bindE (get_or_new (tt_caller terms)) (\<lambda>acc.
     on_world (journal_putAccount (tt_caller terms) (Some (acc\<lparr>acc_balance := acc_balance acc + (tx_cost opts terms - spent * tt_gasPrice terms)\<rparr>))))"

text \<open>The beneficiary. The coinbase of \<open>DEFAULT_HEADER\<close> is no \<open>Address\<close>: its text, and so its key, is
  ``[object Object]''.\<close>

definition beneficiary :: "vm \<Rightarrow> run_tx_opts \<Rightarrow> exn + address option" where
  "beneficiary v opts = (case spec_chain (cfg_spec (vm_manager v)) of None \<Rightarrow> Inl TypeError
     | Some chain \<Rightarrow> if consensus_type chain = ''poa''
         then (case rt_block opts of None \<Rightarrow> Inl TypeError | Some b \<Rightarrow> Inr (Some (ctx_cliqueSigner (eo_ctx (vm_evm v)) (evm_header (fb_header b)))))
         else Inr (map_option (\<lambda>b. bh_coinbase (block_data b)) (rt_block opts)))"

definition miner_value :: "vm \<Rightarrow> string \<Rightarrow> tx_terms \<Rightarrow> int \<Rightarrow> exn + int" where
  "miner_value v hf terms spent = (if vm_active v hf 1559
     then (case tt_inclusionFee terms of None \<Rightarrow> Inl TypeError | Some fee \<Rightarrow> Inr (spent * fee))
     else Inr (spent * tt_gasPrice terms))"

text \<open>An entry under the key ``[object Object]'' is the account of no address, and nothing but the cleanup meets it again.\<close>

definition pay_miner :: "vm \<Rightarrow> string \<Rightarrow> run_tx_opts \<Rightarrow> tx_terms \<Rightarrow> int \<Rightarrow> (evm_state, int) sx" where
  "pay_miner v hf opts terms spent = bindE (liftE (beneficiary v opts)) (\<lambda>miner. case miner of
       None \<Rightarrow> liftE (miner_value v hf terms spent)
     | Some a \<Rightarrow> bindE (get_or_new a) (\<lambda>acc. bindE (liftE (miner_value v hf terms spent)) (\<lambda>reward.
         seqE (on_world (journal_putAccount a (Some (acc\<lparr>acc_balance := acc_balance acc + reward\<rparr>)))) (returnE reward))))"

fun delete_destroyed :: "vm \<Rightarrow> string \<Rightarrow> address list option \<Rightarrow> address list \<Rightarrow> (evm_state, unit) sx" where
  "delete_destroyed v hf created [] = returnE ()"
| "delete_destroyed v hf created (a # as) =
     bindE (liftE (if vm_active v hf 6780 then (case created of None \<Rightarrow> Inl TypeError | Some cs \<Rightarrow> Inr (a \<in> set cs)) else Inr True)) (\<lambda>gone.
     seqE (whenE gone (on_world (journal_deleteAccount a))) (delete_destroyed v hf created as))"

definition report_access_list :: "vm \<Rightarrow> string \<Rightarrow> run_tx_opts \<Rightarrow> (evm_state, (bytes \<Rightarrow> bytes set option) option) sx" where
  "report_access_list v hf opts = (if rt_reportAccessList opts \<and> vm_active v hf 2930
     then bindE (getsE (\<lambda>s. jr_accessList (wl_journal (fst s)))) (\<lambda>al. case al of None \<Rightarrow> throwE TypeError | Some m \<Rightarrow> returnE (Some m))
     else returnE None)"

definition tx_cleanup :: "vm \<Rightarrow> (evm_state, unit) sx" where
  "tx_cleanup v = on_world (journal_cleanup (ctx_common (eo_ctx (vm_evm v))) (ctx_fork (eo_ctx (vm_evm v))))"

text \<open>From Spurious Dragon on the cleanup reads the touched keys as hexadecimal text and fails on the key ``[object Object]''
  of a beneficiary without block.\<close>

definition end_cleanup :: "vm \<Rightarrow> run_tx_opts \<Rightarrow> (evm_state, unit) sx" where
  "end_cleanup v opts = (if rt_block opts = None \<and> hardforkGte (ctx_common (eo_ctx (vm_evm v))) (ctx_fork (eo_ctx (vm_evm v))) ''spuriousDragon''
     then bindE (getsE (\<lambda>s. jr_touched (wl_journal (fst s)))) (\<lambda>touched. seqE (on_world (cleanup_loop touched)) (throwE (PlainError ''invalid hexadecimal text'')))
     else tx_cleanup v)"

definition clear_original :: "(evm_state, unit) sx" where
  "clear_original = on_world (on_sm (modifyE sm_clearOriginal))"

text \<open>The simple state manager has no state root: a receipt from before Byzantium fails.\<close>

definition generateTxReceipt :: "vm \<Rightarrow> string \<Rightarrow> frozen_tx \<Rightarrow> exec_result \<Rightarrow> bytes \<Rightarrow> int \<Rightarrow> int \<Rightarrow> int \<Rightarrow> exn + tx_receipt" where
  "generateTxReceipt v hf tx r bloom cumulativeGasUsed blobs blobPrice =
     (let base = \<lparr>rc_cumulativeBlockGasUsed = cumulativeGasUsed, rc_bitvector = bloom, rc_logs = (case er_logs r of None \<Rightarrow> [] | Some ls \<Rightarrow> ls),
            rc_status = Some (if er_exceptionError r \<noteq> None then 0 else 1), rc_stateRoot = None, rc_blobGasUsed = None, rc_blobGasPrice = None\<rparr> in
      if \<not> supports tx 2718 then
        (if hardforkGte (vm_manager v) hf ''byzantium'' then Inr base else Inl (PlainError ''Method not implemented.''))
      else if tx_type (ft_inner tx) = 3 then Inr (base\<lparr>rc_blobGasUsed := Some blobs, rc_blobGasPrice := Some blobPrice\<rparr>)
      else Inr base)"

text \<open>From the result of the message to the result of the transaction.\<close>

definition settle :: "vm \<Rightarrow> string \<Rightarrow> run_tx_opts \<Rightarrow> tx_terms \<Rightarrow> int \<Rightarrow> evm_result \<Rightarrow> (evm_state, run_tx_result) sx" where
  "settle v hf opts terms authRefund results =
     (let r = ev_execResult results; bloom = txLogsBloom (vm_ext v) (er_logs r) in
      bindE (liftE (gas_spent v hf terms r authRefund)) (\<lambda>(spent, refund).
      seqE (refund_sender opts terms spent)
     (bindE (pay_miner v hf opts terms spent) (\<lambda>minerValue.
      seqE (delete_destroyed v hf (er_createdAddresses r) (case er_selfdestruct r of None \<Rightarrow> [] | Some as \<Rightarrow> as))
     (bindE (report_access_list v hf opts) (\<lambda>al.
      seqE (end_cleanup v opts)
     (seqE clear_original
     (bindE (liftE (generateTxReceipt v hf (rt_tx opts) r bloom (rt_gasUsed opts + spent) (tt_blobGas terms) (tt_blobGasPrice terms))) (\<lambda>receipt.
        returnE \<lparr>tr_message = results, tr_bloom = bloom, tr_totalGasSpent = spent, tr_gasRefund = refund, tr_amountSpent = spent * tt_gasPrice terms,
          tr_minerValue = minerValue, tr_blobGasUsed = (if tx_type (rt_inner opts) = 3 then Some (tt_blobGas terms) else None),
          tr_accessList = al, tr_receipt = receipt\<rparr>)))))))))"

definition run_tx_inner :: "vm \<Rightarrow> ecdsa \<Rightarrow> unreached \<Rightarrow> nat \<Rightarrow> string \<Rightarrow> block_context \<Rightarrow> run_tx_opts \<Rightarrow> (evm_state, run_tx_result) sx" where
  "run_tx_inner v E u levels hf c opts =
     bindE (tx_checks v E hf opts) (\<lambda>terms.
     seqE (charge_sender opts terms)
    (bindE (authorizations v E hf opts (tt_caller terms)) (\<lambda>authRefund.
     bindE (tx_message v u levels c opts terms) (settle v hf opts terms authRefund))))"

section \<open>\<open>runTx\<close>\<close>

text \<open>\<open>try { const r = await m; await commit(); return r } catch (e) { await revert(); throw e }\<close>\<close>

definition commit_or_revert :: "(evm_state, 'a) sx \<Rightarrow> (evm_state, 'a) sx" where
  "commit_or_revert m = (\<lambda>s. case bindE m (\<lambda>r. seqE (on_world journal_commit) (returnE r)) s of
       (Inr r, t) \<Rightarrow> (Inr r, t)
     | (Inl e, t) \<Rightarrow> (case on_world journal_revert t of (Inl e', w) \<Rightarrow> (Inl e', w) | (Inr _, w) \<Rightarrow> (Inl e, w)))"

definition finally_do :: "(evm_state, 'a) sx \<Rightarrow> (evm_state, unit) sx \<Rightarrow> (evm_state, 'a) sx" where
  "finally_do m fin = (\<lambda>s. case m s of (r, t) \<Rightarrow> (case fin t of (Inl e, w) \<Rightarrow> (Inl e, w) | (Inr _, w) \<Rightarrow> (r, w)))"

definition reject_with_revert :: "string \<Rightarrow> (evm_state, unit) sx" where
  "reject_with_revert msg = seqE (on_world journal_revert) (throwE (PlainError msg))"

text \<open>The checks on typed transactions, and the warm addresses and slots of their access list. These are outside of the try block.\<close>

definition typed_setup :: "vm \<Rightarrow> string \<Rightarrow> run_tx_opts \<Rightarrow> (evm_state, unit) sx" where
  "typed_setup v hf opts = whenE (supports (rt_tx opts) 2718 \<and> vm_active v hf 2718)
     (if \<not> vm_active v hf 2930 then reject_with_revert ''Cannot run transaction: EIP 2930 is not activated.''
      else if supports (rt_tx opts) 1559 \<and> \<not> vm_active v hf 1559 then reject_with_revert ''Cannot run transaction: EIP 1559 is not activated.''
      else warm_access_list (rt_inner opts))"

definition start_tx :: "vm \<Rightarrow> run_tx_opts \<Rightarrow> (evm_state, unit) sx" where
  "start_tx v opts = seqE (tx_cleanup v)
     (seqE (whenE (rt_reportAccessList opts) (on_world (on_journal (modifyE startReportingAccessList))))
     (seqE (whenE (rt_reportPreimages opts) (on_world (on_journal (modifyE startReportingPreimages))))
       (on_world journal_checkpoint)))"

definition end_tx :: "vm \<Rightarrow> string \<Rightarrow> (evm_state, unit) sx" where
  "end_tx v hf = seqE (whenE (vm_active v hf 2929) (on_world (on_journal (modifyE cleanJournal)))) clear_original"

definition runTx :: "vm \<Rightarrow> ecdsa \<Rightarrow> unreached \<Rightarrow> nat \<Rightarrow> run_tx_opts \<Rightarrow> (evm_state, run_tx_result) sx" where
  "runTx v E u levels opts =
     bindE (liftE (tx_block_context v opts)) (\<lambda>(c, hf).
     if \<not> rt_skipBlockGasLimitValidation opts \<and> bc_gasLimit c < tx_gasLimit (rt_fields opts)
     then throwE (PlainError ''tx has a higher gas limit than the block'')
     else seqE (start_tx v opts)
         (seqE (typed_setup v hf opts)
           (finally_do (commit_or_revert (run_tx_inner v E u levels hf c opts)) (end_tx v hf))))"

end
