(* ===== verification/TxSafety.thy ===== *)
theory TxSafety
  imports RunTx
begin

text \<open>
  Rejected and accepted transactions: a transaction that fails a check leaves the accounts, code and storage as the
  cleanup before it left them; one that is accepted passed every check, and pays for at most its gas limit.
\<close>

section \<open>An invariant of whole computations\<close>

text \<open>Kept whether the computation returns or throws.\<close>

definition steady :: "('s \<Rightarrow> bool) \<Rightarrow> ('s, 'a) sx \<Rightarrow> bool" where
  "steady I m \<longleftrightarrow> (\<forall>s. I s \<longrightarrow> I (snd (m s)))"

named_theorems steady_rules

lemma steadyD: "steady I m \<Longrightarrow> I s \<Longrightarrow> m s = (r, t) \<Longrightarrow> I t"
  by (auto simp: steady_def dest!: spec [of _ s])

lemma steady_bind:
  assumes "steady I m" "\<And>x s t. I s \<Longrightarrow> m s = (Inr x, t) \<Longrightarrow> steady I (f x)"
  shows "steady I (bindE m f)"
  unfolding steady_def
proof (intro allI impI)
  fix s assume s: "I s"
  obtain r t where m: "m s = (r, t)" by fastforce
  then show "I (snd (bindE m f s))"
    using steadyD [OF assms(1) s m] assms(2) [OF s] by (cases r) (auto simp: bindE_run steady_def)
qed

lemma steady_seq [steady_rules]: "steady I m \<Longrightarrow> steady I k \<Longrightarrow> steady I (seqE m k)"
  unfolding seqE_def by (rule steady_bind)

lemma steady_basic [steady_rules]: "steady I (returnE x)" "steady I (throwE e)" "steady I (liftE r)"
  "steady I m \<Longrightarrow> steady I (whenE b m)" "steady I (Pair r)"
  by (simp_all add: steady_def liftE_def split: sum.split)

lemma steady_if [steady_rules]: "(b \<Longrightarrow> steady I m) \<Longrightarrow> (\<not> b \<Longrightarrow> steady I k) \<Longrightarrow> steady I (if b then m else k)"
  by simp

lemma steady_option [steady_rules]: "steady I m \<Longrightarrow> (\<And>x. p = Some x \<Longrightarrow> steady I (f x)) \<Longrightarrow> steady I (case p of None \<Rightarrow> m | Some x \<Rightarrow> f x)"
  by (cases p) simp_all

lemma steady_world: "(\<And>w ts. I (w, ts) \<Longrightarrow> I (snd (m w), ts)) \<Longrightarrow> steady I (on_world m)"
  by (simp add: steady_def on_world_def split: prod.split) (metis snd_conv)

section \<open>The checks keep the checkpoints below\<close>

definition tx_open :: "below \<Rightarrow> transient_storage \<Rightarrow> evm_state \<Rightarrow> bool" where
  "tx_open F ts s \<longleftrightarrow> world_ok F (fst s) \<and> snd s = ts"

lemma always_slot_keeps:
  assumes "j_ok F j" shows "j_ok F (addAlwaysWarmSlot a key b j)"
proof -
  let ?j = "addAlwaysWarmAddress a b j" and ?k = "addAlwaysWarmSlot a key b j"
  have "jr_journal ?k = jr_journal ?j \<and> jr_touched ?k = jr_touched ?j \<and> jr_diff ?k = jr_diff ?j \<and> jr_height ?k = jr_height ?j"
    by (simp add: addAlwaysWarmSlot_def Let_def split: option.split)
  moreover from this have "Journal.frame_at ?k = Journal.frame_at ?j"
    by (intro ext) (simp add: Journal.frame_at_def j_current_def)
  ultimately have "j_frames ?k = j_frames ?j \<and> j_wf ?k = j_wf ?j" by (simp add: j_frames_def j_wf_def j_current_def)
  then show ?thesis using always_warm_keeps [OF assms] by (simp add: j_ok_def)
qed

lemma warm_stable [steady_rules]: "steady (tx_open F ts) (warm_always a b)" "steady (tx_open F ts) (warm_slot a key)"
  unfolding warm_always_def warm_slot_def
  by (rule steady_world; simp add: tx_open_def on_journal_def world_ok_def always_warm_keeps always_slot_keeps)+

lemma warm_keeps_sm [steady_rules]: "steady (\<lambda>s. wl_sm (fst s) = m) (warm_always a b)" "steady (\<lambda>s. wl_sm (fst s) = m) (warm_slot a key)"
  unfolding warm_always_def warm_slot_def by (rule steady_world; simp add: on_journal_def)+

text \<open>So it is for the addresses of a transaction and for its access list.\<close>

lemma warm_lists_stable:
  assumes "\<And>a b. steady I (warm_always a b)" "\<And>a k. steady I (warm_slot a k)"
  shows "steady I (warm_tx_addresses v hf opts caller)" "steady I (warm_access_list t)"
proof -
  have all: "steady I (warm_all as)" for as by (induction as) (auto intro: steady_rules assms)
  then show "steady I (warm_tx_addresses v hf opts caller)" unfolding warm_tx_addresses_def by (intro steady_rules)
  have keys: "steady I (warm_keys a ks)" for a ks
    by (induction a ks rule: warm_keys.induct) (auto intro: steady_rules assms)
  have entry: "steady I (warm_entry d)" for d
    by (auto simp: warm_entry_def split: rlp_data.split list.split intro!: steady_rules assms keys)
  have "steady I (warm_entries ds)" for ds by (induction ds) (auto intro: steady_rules entry)
  then show "steady I (warm_access_list t)"
    by (auto simp: warm_access_list_def split: option.split rlp_data.split list.split intro: steady_rules)
qed

lemma put_stable:
  assumes "0 \<le> acc_balance acc" shows "steady (tx_open F ts) (on_world (journal_putAccount a (Some acc)))"
proof (rule steady_world)
  fix w ts' assume "tx_open F ts (w, ts')"
  then show "tx_open F ts (snd (journal_putAccount a (Some acc) w), ts')"
    using put_account_run(1) [of F w acc a] assms by (auto simp: tx_open_def split: prod.splits) (metis prod.collapse)
qed

lemma reads_stable [steady_rules]: "steady (tx_open F ts) (get_or_new a)" "steady (tx_open F ts) (on_world (on_sm (sm_getCode a)))"
proof -
  show "steady (tx_open F ts) (get_or_new a)"
    unfolding steady_def tx_open_def using get_or_new_run [of F] by (auto split: prod.splits)
  have "snd (on_sm (sm_getCode a) w) = w" for w
    by (auto simp: on_sm_def sm_getCode_def split: if_splits option.splits)
  then show "steady (tx_open F ts) (on_world (on_sm (sm_getCode a)))" by (intro steady_world) simp
qed

definition sm_account :: "address \<Rightarrow> simple_sm \<Rightarrow> account" where
  "sm_account a sm = (case top_map (accountStack sm) a of None \<Rightarrow> new_account | Some acc \<Rightarrow> acc)"

lemma get_or_new_account:
  assumes "tx_open F ts s" "get_or_new a s = (Inr acc, t)"
  shows "acc = sm_account a (wl_sm (fst s))" "t = s" "0 \<le> acc_balance acc"
proof -
  have w: "world_ok F (fst s)" using assms(1) by (simp add: tx_open_def)
  show "acc = sm_account a (wl_sm (fst s))" "t = s"
    using assms(2) get_or_new_run [OF w, of a "snd s"] by (simp_all add: sm_account_def)
  then show "0 \<le> acc_balance acc" using top_balance [OF w, of a] by (simp add: balance_of_def sm_account_def)
qed

lemma topped_up_stable:
  assumes "0 \<le> acc_balance acc"
  shows "steady (tx_open F ts) (check_upfront opts caller acc)" "steady (tx_open F ts) (check_max_cost opts caller maxCost acc)"
  using assms by (auto simp: check_upfront_def check_max_cost_def Let_def intro!: steady_rules put_stable)

lemma topped_up_balance:
  assumes "0 \<le> acc_balance acc"
  shows "check_upfront opts caller acc s = (Inr acc', t) \<Longrightarrow> 0 \<le> acc_balance acc'"
    "check_max_cost opts caller maxCost acc s = (Inr acc', t) \<Longrightarrow> 0 \<le> acc_balance acc'"
  using assms by (auto simp: check_upfront_def check_max_cost_def Let_def seqE_run split: if_splits prod.splits sum.splits)

lemma check_eoa_stable [steady_rules]: "steady (tx_open F ts) (check_eoa v hf caller acc)"
  by (auto simp: check_eoa_def intro!: steady_rules)

lemma tx_checks_stable: "steady (tx_open F ts) (tx_checks v E hf opts)"
proof -
  have rest: "steady (tx_open F ts) (bindE (check_upfront opts caller acc) (\<lambda>acc1. bindE (liftE (check_blobs v hf opts))
      (\<lambda>(blobs, price). bindE (check_max_cost opts caller (max_cost opts blobs) acc1) (\<lambda>acc2. seqE (liftE (check_nonce opts acc))
        (returnE (g blobs price acc2))))))" if "0 \<le> acc_balance acc" for caller acc and g :: "int \<Rightarrow> int \<Rightarrow> account \<Rightarrow> tx_terms"
    by (intro steady_bind topped_up_stable(1) [OF that])
       (auto intro!: steady_bind steady_rules topped_up_stable(2) dest: topped_up_balance(1) [OF that])
  show ?thesis
    unfolding tx_checks_def
    by (intro steady_if steady_basic steady_bind steady_seq warm_lists_stable warm_stable)
       (auto intro!: steady_bind steady_seq steady_basic reads_stable check_eoa_stable rest dest: get_or_new_account(3))
qed

section \<open>Before and after the try block\<close>

lemma world_checkpoint:
  assumes "world_ok F w"
  obtains w' where "journal_checkpoint w = (Inr (), w')" "world_ok (sm_frames (wl_sm w), j_frames (wl_journal w), X) w'"
    "top_map (accountStack (wl_sm w')) = top_map (accountStack (wl_sm w))"
proof -
  have wf: "j_wf (wl_journal w)" "sm_wf (wl_sm w)" "balances_ok (wl_sm w)"
    using assms by (simp_all add: world_ok_def sm_ok_def j_ok_def)
  obtain j where j: "j_checkpoint (wl_journal w) = (Inr (), j)" "j_wf j" "j_frames j = hd (j_frames (wl_journal w)) # j_frames (wl_journal w)"
    using jr.checkpoint_law [OF wf(1)] by blast
  obtain m where m: "sm_checkpoint (wl_sm w) = (Inr (), m)" "sm_wf m" "sm_frames m = hd (sm_frames (wl_sm w)) # sm_frames (wl_sm w)"
    using sm.checkpoint_law [OF wf(2)] by blast
  have ne: "accountStack (wl_sm w) \<noteq> []" using wf(2) by (simp add: sm_wf_def)
  have acc: "accountStack m = accountStack (wl_sm w) @ [last (accountStack (wl_sm w))]"
    using m(1) ne by (auto simp: sm_checkpoint_def checkpointSync_def top_map_def)
  have "balances_ok m" using wf(3) last_in_set [OF ne] by (auto simp: balances_ok_def acc)
  then have "world_ok (sm_frames (wl_sm w), j_frames (wl_journal w), X) (w\<lparr>wl_journal := j, wl_sm := m\<rparr>)"
    using j(2,3) m(2,3) by (simp add: world_ok_def sm_ok_def j_ok_def)
  moreover have "journal_checkpoint w = (Inr (), w\<lparr>wl_journal := j, wl_sm := m\<rparr>)"
    using j(1) m(1) by (simp add: world_op_run)
  moreover have "top_map (accountStack m) = top_map (accountStack (wl_sm w))" using ne by (simp add: top_map_def acc)
  ultimately show thesis using that by simp
qed

text \<open>The cleanup deletes accounts of the top level only and forgets the checkpoints of the journal.\<close>

lemma cleanup_loop_sm: "sm_ok F (wl_sm w) \<Longrightarrow> sm_ok F (wl_sm (snd (cleanup_loop as w)))"
proof (induction as arbitrary: w)
  case (Cons a as)
  have get: "snd (on_sm (sm_getAccount a) w) = w" by (simp add: on_sm_def sm_getAccount_def)
  have del: "sm_ok F (wl_sm (snd (journal_deleteAccount a w)))"
  proof -
    obtain r j where j: "touchAccount a (wl_journal w) = (r, j)" by fastforce
    obtain q m where m: "sm_deleteAccount a (wl_sm w) = (q, m)" by fastforce
    have "sm_ok F m"
    proof (cases q)
      case (Inl e)
      then show ?thesis using m Cons.prems by (auto simp: sm_deleteAccount_def sm_putAccount_def split: if_splits)
    next
      case (Inr x)
      then show ?thesis
        using m yieldsD [OF putAccount_yields [where acc = None and F = F and a = a] Cons.prems Cons.prems]
        by (simp add: acc_ok_def sm_deleteAccount_def)
    qed
    then show ?thesis using Cons.prems j m by (cases r) (auto simp: journal_deleteAccount_def seqE_run on_journal_def on_sm_def)
  qed
  show ?case
    using Cons.IH [OF Cons.prems] Cons.IH [OF del] Cons.prems get del
    by (auto simp: bindE_run seqE_run split: prod.splits sum.splits if_splits)
qed simp

lemma cleanup_keeps:
  assumes "world_ok (G, [], T) (fst s)" "tx_cleanup v s = (Inr (), t)"
  shows "world_ok (G, [], T) (fst t)" "snd t = snd s"
proof -
  obtain w ts where s: "s = (w, ts)" by fastforce
  have sm: "sm_ok (G, [], T) (wl_sm w)" using assms(1) by (simp add: s world_ok_def)
  obtain w' where w': "t = (w', ts)" "journal_cleanup (ctx_common (eo_ctx (vm_evm v))) (ctx_fork (eo_ctx (vm_evm v))) w = (Inr (), w')"
    using assms(2) by (auto simp: tx_cleanup_def on_world_def s split: prod.splits)
  show "snd t = snd s" by (simp add: s w'(1))
  have "sm_ok (G, [], T) (wl_sm w')"
    using w'(2) sm cleanup_loop_sm [OF sm, of "jr_touched (wl_journal w)"]
    by (auto simp: journal_cleanup_def seqE_run bindE_run on_journal_def split: prod.splits sum.splits if_splits)
  moreover have "j_ok (G, [], T) (wl_journal w')"
    using w'(2) by (auto simp: journal_cleanup_def seqE_run bindE_run on_journal_def j_ok_def j_wf_def j_frames_def cleanJournal_def
      split: prod.splits sum.splits if_splits)
  ultimately show "world_ok (G, [], T) (fst t)" by (simp add: w'(1) world_ok_def)
qed

text \<open>What \<open>runTx\<close> has when it enters the try block; \<open>sc\<close> is the state after the cleanup.\<close>

definition tx_entered :: "vm \<Rightarrow> string \<Rightarrow> run_tx_opts \<Rightarrow> evm_state \<Rightarrow> evm_state \<Rightarrow> evm_state \<Rightarrow> bool" where
  "tx_entered v hf opts s0 sc s \<longleftrightarrow> tx_cleanup v s0 = (Inr (), sc) \<and> seqE (start_tx v opts) (typed_setup v hf opts) s0 = (Inr (), s)"

lemma reporting_keeps: "world_ok F w \<Longrightarrow> world_ok F (w\<lparr>wl_journal := startReportingAccessList (wl_journal w)\<rparr>)"
  "world_ok F w \<Longrightarrow> world_ok F (w\<lparr>wl_journal := startReportingPreimages (wl_journal w)\<rparr>)"
proof -
  have "j_ok F j \<Longrightarrow> j_ok F (startReportingAccessList j) \<and> j_ok F (startReportingPreimages j)" for j
  proof -
    have "Journal.frame_at (startReportingAccessList j) = Journal.frame_at j" "Journal.frame_at (startReportingPreimages j) = Journal.frame_at j"
      by (intro ext; simp add: Journal.frame_at_def j_current_def startReportingAccessList_def startReportingPreimages_def)+
    then show "j_ok F j \<Longrightarrow> j_ok F (startReportingAccessList j) \<and> j_ok F (startReportingPreimages j)"
      by (simp add: j_ok_def j_frames_def j_wf_def j_current_def startReportingAccessList_def startReportingPreimages_def)
  qed
  then show "world_ok F w \<Longrightarrow> world_ok F (w\<lparr>wl_journal := startReportingAccessList (wl_journal w)\<rparr>)"
    "world_ok F w \<Longrightarrow> world_ok F (w\<lparr>wl_journal := startReportingPreimages (wl_journal w)\<rparr>)"
    by (simp_all add: world_ok_def)
qed

lemma typed_setup_keeps:
  assumes "steady I (warm_access_list (rt_inner opts))" "I s" "typed_setup v hf opts s = (Inr (), t)"
  shows "I t"
  using assms(2,3) steadyD [OF assms(1,2)] by (auto simp: typed_setup_def reject_with_revert_def seqE_run split: if_splits prod.splits sum.splits)

text \<open>The state before the checkpoint is \<open>b\<close>: after the cleanup, with the reports started.\<close>

lemma tx_entered_open:
  assumes "tx_entered v hf opts s0 sc s" "world_ok (G, [], T) (fst s0)"
  obtains b where "world_ok (G, [], T) b" "wl_sm b = wl_sm (fst sc)"
    "tx_open (sm_frames (wl_sm b), j_frames (wl_journal b), X) (snd s0) s"
    "top_map (accountStack (wl_sm (fst s))) = top_map (accountStack (wl_sm (fst sc)))"
proof -
  note cl = cleanup_keeps [OF assms(2)]
  have c: "tx_cleanup v s0 = (Inr (), sc)" using assms(1) by (simp add: tx_entered_def)
  define b1 where "b1 = (if rt_reportAccessList opts then (fst sc)\<lparr>wl_journal := startReportingAccessList (wl_journal (fst sc))\<rparr> else fst sc)"
  define b where "b = (if rt_reportPreimages opts then b1\<lparr>wl_journal := startReportingPreimages (wl_journal b1)\<rparr> else b1)"
  have b: "world_ok (G, [], T) b" "wl_sm b = wl_sm (fst sc)"
    using cl(1) [OF c] by (simp_all add: b_def b1_def reporting_keeps)
  obtain w where w: "journal_checkpoint b = (Inr (), w)" "world_ok (sm_frames (wl_sm b), j_frames (wl_journal b), X) w"
    "top_map (accountStack (wl_sm w)) = top_map (accountStack (wl_sm b))" using world_checkpoint [OF b(1)] by blast
  have "start_tx v opts s0 = (Inr (), (w, snd s0))"
    using c w(1) cl(2) [OF c] by (cases sc; cases "rt_reportPreimages opts"; cases "rt_reportAccessList opts")
      (simp_all add: start_tx_def seqE_run on_world_def on_journal_def b_def b1_def)
  then have "typed_setup v hf opts (w, snd s0) = (Inr (), s)" using assms(1) by (simp add: tx_entered_def seqE_run)
  note keep = typed_setup_keeps [OF _ _ this]
  have "tx_open (sm_frames (wl_sm b), j_frames (wl_journal b), X) (snd s0) s"
    by (rule keep [OF warm_lists_stable(2) [OF warm_stable]]) (use w(2) in \<open>simp add: tx_open_def\<close>)
  moreover have "wl_sm (fst s) = wl_sm w"
    by (rule keep [OF warm_lists_stable(2) [OF warm_keeps_sm]]) simp
  ultimately show thesis using that b w(3) by simp
qed

lemma end_tx_run: "\<exists>t. end_tx v hf s = (Inr (), t) \<and> sm_frames (wl_sm (fst t)) = sm_frames (wl_sm (fst s)) \<and> snd t = snd s"
  by (cases s) (simp add: end_tx_def clear_original_def seqE_run on_world_def on_journal_def on_sm_def sm_clearOriginal_def sm_frames_def)

text \<open>An error of the try block, at the level of its checkpoint, restores the state before it.\<close>

lemma failed_try_restores:
  assumes "world_ok F b" "tx_open (sm_frames (wl_sm b), j_frames (wl_journal b), X) ts s'" "m s = (Inl e, s')"
  shows "\<exists>t. finally_do (commit_or_revert m) (end_tx v hf) s = (Inl e, t) \<and> sm_frames (wl_sm (fst t)) = sm_frames (wl_sm b) \<and> snd t = ts"
proof -
  obtain w where w: "s' = (w, ts)" "world_ok (sm_frames (wl_sm b), j_frames (wl_journal b), X) w"
    using assms(2) by (cases s') (simp add: tx_open_def)
  obtain w' where "journal_revert w = (Inr (), w')" "sm_frames (wl_sm w') = sm_frames (wl_sm b)"
    using end_world(1) [OF assms(1) w(2)] by blast
  then show ?thesis
    using end_tx_run [of v hf "(w', ts)"] assms(3) w(1) by (auto simp: finally_do_def commit_or_revert_def bindE_run on_world_def)
qed

section \<open>Rejected transactions\<close>

text \<open>C39: A transaction that fails one of the checks of its sender, gas, fees, funds or nonce leaves the accounts, code and
  storage of every checkpoint level as the cleanup before the transaction left them, and the transient storage
  untouched, whatever it had already written (with \<open>skipBalance\<close> a check may top up the sender).\<close>

theorem rejected_tx_leaves_no_trace:
  assumes "world_ok (G, [], T) (fst s0)" "tx_block_context v opts = Inr (c, hf)"
    and "rt_skipBlockGasLimitValidation opts \<or> tx_gasLimit (rt_fields opts) \<le> bc_gasLimit c"
    and "tx_entered v hf opts s0 sc s" "tx_checks v E hf opts s = (Inl e, s')"
  shows "\<exists>t. runTx v E u levels opts s0 = (Inl e, t) \<and> sm_frames (wl_sm (fst t)) = sm_frames (wl_sm (fst sc)) \<and> snd t = snd s0"
proof -
  obtain b where b: "world_ok (G, [], T) b" "wl_sm b = wl_sm (fst sc)"
    "tx_open (sm_frames (wl_sm b), j_frames (wl_journal b), T) (snd s0) s" using tx_entered_open [OF assms(4,1)] by metis
  have "run_tx_inner v E u levels hf c opts s = (Inl e, s')" by (simp add: run_tx_inner_def bindE_run assms(5))
  from failed_try_restores [where m = "run_tx_inner v E u levels hf c opts", OF b(1) steadyD [OF tx_checks_stable b(3) assms(5)] this]
  obtain t where t: "finally_do (commit_or_revert (run_tx_inner v E u levels hf c opts)) (end_tx v hf) s = (Inl e, t)"
    "sm_frames (wl_sm (fst t)) = sm_frames (wl_sm b)" "snd t = snd s0" by blast
  have "runTx v E u levels opts s0 = seqE (seqE (start_tx v opts) (typed_setup v hf opts))
      (finally_do (commit_or_revert (run_tx_inner v E u levels hf c opts)) (end_tx v hf)) s0"
    using assms(2,3) by (auto simp: runTx_def bindE_run seqE_run split: prod.split sum.split)
  then show ?thesis using t b(2) assms(4) by (auto simp: tx_entered_def seqE_run)
qed

section \<open>Accepted transactions\<close>

lemma bind_returns: "bindE m f s = (Inr r, t) \<longleftrightarrow> (\<exists>x u. m s = (Inr x, u) \<and> f x u = (Inr r, t))"
  by (auto simp: bindE_run split: prod.splits sum.splits)

lemma seq_returns: "seqE m k s = (Inr r, t) \<longleftrightarrow> (\<exists>x u. m s = (Inr x, u) \<and> k u = (Inr r, t))"
  by (simp add: seqE_def bind_returns)

lemma lift_returns: "liftE q s = (Inr r, t) \<longleftrightarrow> q = Inr r \<and> t = s"
  by (auto simp: liftE_def split: sum.split)

lemmas returns = bind_returns seq_returns lift_returns

text \<open>What holds of the terms of a transaction that passed the checks, in the state \<open>m\<close> of the accounts.\<close>

definition tx_valid :: "vm \<Rightarrow> ecdsa \<Rightarrow> string \<Rightarrow> run_tx_opts \<Rightarrow> simple_sm \<Rightarrow> tx_terms \<Rightarrow> bool" where
  "tx_valid v E hf opts m terms \<longleftrightarrow> (let acc = sm_account (tt_caller terms) m; limit = tx_gasLimit (rt_fields opts) in
     fst (getSenderAddress (vm_ext v) E (rt_tx opts)) = Inr (tt_caller terms)
   \<and> check_gas v hf opts = Inr (tt_intrinsicGas terms, tt_floorCost terms) \<and> tt_intrinsicGas terms \<le> limit \<and> tt_floorCost terms \<le> limit
   \<and> check_blobs v hf opts = Inr (tt_blobGas terms, tt_blobGasPrice terms)
   \<and> (vm_active v hf 1559 \<longrightarrow> rt_baseFee opts \<le> (if tx_type (rt_inner opts) = 2 then gasFeeCap (rt_inner opts) else tx_gasPrice (rt_inner opts)))
   \<and> (rt_skipNonce opts \<or> acc_nonce acc = tx_nonce (rt_fields opts))
   \<and> (rt_skipBalance opts \<or> getUpfrontCost (rt_inner opts) \<le> acc_balance acc \<and> max_cost opts (tt_blobGas terms) \<le> acc_balance acc
        \<and> tt_account terms = acc)
   \<and> (tt_gasPrice terms, tt_inclusionFee terms) = gas_prices v hf opts)"

lemma warm_same_sm: "warm_tx_addresses v hf opts caller s = (r, t) \<Longrightarrow> wl_sm (fst t) = wl_sm (fst s)"
  using steadyD [OF warm_lists_stable(1) [where I = "\<lambda>u. wl_sm (fst u) = wl_sm (fst s)", OF warm_keeps_sm]] by blast

lemma tx_checks_pass:
  assumes "tx_open F ts s" "tx_checks v E hf opts s = (Inr terms, t)"
  shows "tx_valid v E hf opts (wl_sm (fst s)) terms"
proof -
  from assms(2) obtain caller s1 intr floor acc0 s2 u2 s3 acc1 s4 blobs price acc2 s5 where
    sender: "fst (getSenderAddress (vm_ext v) E (rt_tx opts)) = Inr caller"
    and warm: "warm_tx_addresses v hf opts caller s = (Inr (), s1)" and gas: "check_gas v hf opts = Inr (intr, floor)"
    and fee: "check_base_fee v hf opts = Inr ()" and acc0: "get_or_new caller s1 = (Inr acc0, s2)"
    and up: "check_upfront opts caller acc0 s3 = (Inr acc1, s4)" and blobs: "check_blobs v hf opts = Inr (blobs, price)"
    and max: "check_max_cost opts caller (max_cost opts blobs) acc1 s4 = (Inr acc2, s5)" and nonce: "check_nonce opts acc0 = Inr ()"
    and terms: "terms = \<lparr>tt_caller = caller, tt_account = acc2, tt_intrinsicGas = intr, tt_floorCost = floor,
             tt_gasPrice = fst (gas_prices v hf opts), tt_inclusionFee = snd (gas_prices v hf opts), tt_blobGas = blobs, tt_blobGasPrice = price\<rparr>"
    by (auto simp: tx_checks_def returns split: if_splits prod.splits)
  have open1: "tx_open F ts s1" using steadyD [OF warm_lists_stable(1) [OF warm_stable] assms(1) warm] .
  have acc: "acc0 = sm_account caller (wl_sm (fst s))"
    using get_or_new_account(1) [OF open1 acc0] warm_same_sm [OF warm] by simp
  have limits: "intr \<le> tx_gasLimit (rt_fields opts) \<and> floor \<le> tx_gasLimit (rt_fields opts)"
    using gas by (auto simp: check_gas_def bindR_eq_Inr bigIntMax_def split: if_splits)
  have funds: "rt_skipBalance opts \<or> getUpfrontCost (rt_inner opts) \<le> acc_balance acc0 \<and> max_cost opts blobs \<le> acc_balance acc0 \<and> acc2 = acc0"
    using up max by (auto simp: check_upfront_def check_max_cost_def Let_def split: if_splits)
  show ?thesis
    using sender gas fee blobs nonce limits funds
    by (auto simp: tx_valid_def terms acc check_base_fee_def check_nonce_def Let_def split: if_splits)
qed

text \<open>The parts of a transaction that returns: \<open>a\<close> is the state after the checks, \<open>b\<close> after the authorisations.\<close>

lemma runTx_returns:
  assumes "runTx v E u levels opts s0 = (Inr r, t)"
  obtains c hf sc s terms s1 s2 refund s3 msg s4 s5 where
    "tx_block_context v opts = Inr (c, hf)" "rt_skipBlockGasLimitValidation opts \<or> tx_gasLimit (rt_fields opts) \<le> bc_gasLimit c"
    "tx_entered v hf opts s0 sc s" "tx_checks v E hf opts s = (Inr terms, s1)" "charge_sender opts terms s1 = (Inr (), s2)"
    "authorizations v E hf opts (tt_caller terms) s2 = (Inr refund, s3)" "tx_message v u levels c opts terms s3 = (Inr msg, s4)"
    "settle v hf opts terms refund msg s4 = (Inr r, s5)" "finally_do (\<lambda>s. seqE (on_world journal_commit) (returnE r) s) (end_tx v hf) s5 = (Inr r, t)"
proof -
  obtain c hf s1 where c: "tx_block_context v opts = Inr (c, hf)" "rt_skipBlockGasLimitValidation opts \<or> tx_gasLimit (rt_fields opts) \<le> bc_gasLimit c"
    and s: "seqE (start_tx v opts) (typed_setup v hf opts) s0 = (Inr (), s1)"
    and t: "finally_do (commit_or_revert (run_tx_inner v E u levels hf c opts)) (end_tx v hf) s1 = (Inr r, t)"
    using assms by (auto simp: runTx_def returns not_less split: if_splits)
  obtain sc where sc: "tx_cleanup v s0 = (Inr (), sc)" using s by (auto simp: start_tx_def returns)
  obtain s2 where run: "run_tx_inner v E u levels hf c opts s1 = (Inr r, s2)"
    and e: "finally_do (\<lambda>s. seqE (on_world journal_commit) (returnE r) s) (end_tx v hf) s2 = (Inr r, t)"
    using t by (auto simp: finally_do_def commit_or_revert_def bindE_run seqE_run split: prod.splits sum.splits)
  from run obtain terms u1 u2 refund u3 msg u4 where parts: "tx_checks v E hf opts s1 = (Inr terms, u1)" "charge_sender opts terms u1 = (Inr (), u2)"
    "authorizations v E hf opts (tt_caller terms) u2 = (Inr refund, u3)" "tx_message v u levels c opts terms u3 = (Inr msg, u4)"
    "settle v hf opts terms refund msg u4 = (Inr r, s2)"
    by (auto simp: run_tx_inner_def returns)
  have "tx_entered v hf opts s0 sc s1" using s sc by (simp add: tx_entered_def)
  from that [OF c this parts e] show thesis .
qed

lemma pay_miner_value: "pay_miner v hf opts terms spent s = (Inr reward, t) \<Longrightarrow> miner_value v hf terms spent = Inr reward"
  by (auto simp: pay_miner_def returns split: option.splits)

lemma receipt_gas: "generateTxReceipt v hf tx q bloom n b p = Inr receipt \<Longrightarrow> rc_cumulativeBlockGasUsed receipt = n"
  by (auto simp: generateTxReceipt_def Let_def split: if_splits)

lemma settle_result:
  assumes "settle v hf opts terms refund msg s = (Inr r, t)"
  shows "gas_spent v hf terms (ev_execResult msg) refund = Inr (tr_totalGasSpent r, tr_gasRefund r)"
    "tr_message r = msg" "tr_amountSpent r = tr_totalGasSpent r * tt_gasPrice terms"
    "miner_value v hf terms (tr_totalGasSpent r) = Inr (tr_minerValue r)"
    "tr_bloom r = txLogsBloom (vm_ext v) (er_logs (ev_execResult msg))"
    "rc_cumulativeBlockGasUsed (tr_receipt r) = rt_gasUsed opts + tr_totalGasSpent r"
  using assms by (auto simp: settle_def returns Let_def dest!: pay_miner_value receipt_gas)

text \<open>A transaction that is accepted passed every check, against the accounts as the cleanup before it left them: its sender
  is the one its signature gives, its gas limit covers the intrinsic gas and the floor of the data and fits in the
  block, it offers the base fee, its nonce is the sender's, the sender can pay for the gas, the value and the blobs;
  what it pays is the gas it spent at its price, which is what its receipt adds to the gas of the block.\<close>

theorem accepted_tx_valid:
  assumes "world_ok (G, [], T) (fst s0)" "runTx v E u levels opts s0 = (Inr r, t)"
  shows "\<exists>c hf sc terms. tx_block_context v opts = Inr (c, hf) \<and> tx_cleanup v s0 = (Inr (), sc)
    \<and> (rt_skipBlockGasLimitValidation opts \<or> tx_gasLimit (rt_fields opts) \<le> bc_gasLimit c)
    \<and> tx_valid v E hf opts (wl_sm (fst sc)) terms
    \<and> tr_amountSpent r = tr_totalGasSpent r * tt_gasPrice terms
    \<and> miner_value v hf terms (tr_totalGasSpent r) = Inr (tr_minerValue r)
    \<and> (vm_active v hf 7623 \<longrightarrow> tt_floorCost terms \<le> tr_totalGasSpent r)
    \<and> rc_cumulativeBlockGasUsed (tr_receipt r) = rt_gasUsed opts + tr_totalGasSpent r"
  using assms(2)
proof (rule runTx_returns)
  fix c hf sc s terms s1 s2 refund s3 msg s4 s5
  assume c: "tx_block_context v opts = Inr (c, hf)" "rt_skipBlockGasLimitValidation opts \<or> tx_gasLimit (rt_fields opts) \<le> bc_gasLimit c"
    and s: "tx_entered v hf opts s0 sc s" and checks: "tx_checks v E hf opts s = (Inr terms, s1)"
    and settle: "settle v hf opts terms refund msg s4 = (Inr r, s5)"
  obtain b where "world_ok (G, [], T) b" "wl_sm b = wl_sm (fst sc)"
    and b: "tx_open (sm_frames (wl_sm b), j_frames (wl_journal b), T) (snd s0) s"
      "top_map (accountStack (wl_sm (fst s))) = top_map (accountStack (wl_sm (fst sc)))" by (rule tx_entered_open [OF s assms(1)])
  have "sm_account a (wl_sm (fst s)) = sm_account a (wl_sm (fst sc))" for a using b(2) by (simp add: sm_account_def)
  then have valid: "tx_valid v E hf opts (wl_sm (fst sc)) terms"
    using tx_checks_pass [OF b(1) checks] by (simp add: tx_valid_def)
  have "vm_active v hf 7623 \<longrightarrow> tt_floorCost terms \<le> tr_totalGasSpent r"
    using settle_result(1) [OF settle] by (auto simp: gas_spent_def Let_def bindR_eq_Inr split: if_splits)
  then show ?thesis using c s valid settle_result(3,4,6) [OF settle] by (auto simp: tx_entered_def)
qed

text \<open>A finding: from Spurious Dragon on no transaction runs without a block, although the options ask for a block or a block
  context only. The text of the default coinbase is no address, and the cleanup fails on it.\<close>

lemma no_block_no_transaction:
  assumes "rt_block opts = None" "hardforkGte (ctx_common (eo_ctx (vm_evm v))) (ctx_fork (eo_ctx (vm_evm v))) ''spuriousDragon''"
  shows "runTx v E u levels opts s \<noteq> (Inr r, t)"
proof
  have fails: "end_cleanup v opts w \<noteq> (Inr (), w')" for w w'
    using assms by (simp add: end_cleanup_def bindE_run seqE_run split: prod.splits sum.splits)
  assume "runTx v E u levels opts s = (Inr r, t)"
  then show False by (rule runTx_returns) (auto simp: settle_def returns Let_def fails)
qed

end
