(* ===== verification/TxLimits.thy ===== *)
theory TxLimits
  imports TxSafety
begin

text \<open>
  What an accepted transaction costs: between none and all of its gas limit, at a price between none and the fee cap,
  so that no balance becomes negative. Rests on what a message promises (\<open>run_message_returns\<close>).
\<close>

section \<open>Intrinsic gas is not negative\<close>

lemma need_nonneg: "need (getParamAtHardfork cfg name hf) = Inr n \<Longrightarrow> 0 \<le> n"
  using getParam_nonneg [of cfg name hf] by (auto simp: need_def value_ok_def split: option.splits param_value.splits)

lemma add_if_set_nonneg: "add_if_set (getParamAtHardfork cfg name hf) fee = Inr n \<Longrightarrow> 0 \<le> fee \<Longrightarrow> 0 \<le> n"
  using getParam_nonneg [of cfg name hf] by (auto simp: add_if_set_def value_ok_def split: option.splits param_value.splits if_splits)

lemma param_or_nonneg: "param_or cfg name hf d = Inr n \<Longrightarrow> 0 \<le> d \<Longrightarrow> 0 \<le> n"
  using getParam_nonneg [of cfg name hf] by (auto simp: param_or_def value_or_def value_ok_def split: option.splits param_value.splits)

lemma data_cost_nonneg:
  "data_cost zs (getParamAtHardfork cfg zero hf) (getParamAtHardfork cfg nonzero hf) cost = Inr n \<Longrightarrow> 0 \<le> cost \<Longrightarrow> 0 \<le> n"
proof (induction zs arbitrary: cost)
  case (Cons z zs)
  then obtain m where "need (if z then getParamAtHardfork cfg zero hf else getParamAtHardfork cfg nonzero hf) = Inr m"
    "data_cost zs (getParamAtHardfork cfg zero hf) (getParamAtHardfork cfg nonzero hf) (cost + m) = Inr n"
    by (auto simp: bindR_eq_Inr)
  then show ?case using Cons.IH [of "cost + m"] Cons.prems(2) by (auto dest: need_nonneg split: if_splits)
qed simp

lemma access_cost_nonneg: "access_cost_loop ds a k cost = Inr n \<Longrightarrow> 0 \<le> a \<Longrightarrow> 0 \<le> k \<Longrightarrow> 0 \<le> cost \<Longrightarrow> 0 \<le> n"
  by (induction ds a k cost rule: access_cost_loop.induct) (auto simp: bindR_eq_Inr)

lemma intrinsic_nonneg: "getIntrinsicGas tx = Inr n \<Longrightarrow> 0 \<le> n"
proof -
  have data: "getDataGas tx = Inr a \<Longrightarrow> 0 \<le> a" for a
    by (auto simp: getDataGas_def Let_def bindR_eq_Inr dest!: need_nonneg dest: data_cost_nonneg split: if_splits)
  have list: "0 \<le> a" if "getAccessListGas l tx = Inr a" for l a
  proof (cases l)
    case (Some d)
    then show ?thesis using that
      by (cases d) (auto simp: getAccessListGas_def bindR_eq_Inr split: if_splits dest!: param_or_nonneg dest: access_cost_nonneg)
  qed (use that in \<open>simp add: getAccessListGas_def\<close>)
  have auths: "getAuthorizationListGas tx = Inr a \<Longrightarrow> 0 \<le> a" for a
    by (auto simp: getAuthorizationListGas_def bindR_eq_Inr split: tx_inner.splits if_splits dest!: param_or_nonneg)
  assume "getIntrinsicGas tx = Inr n"
  then show "0 \<le> n"
    by (auto simp: getIntrinsicGas_def Let_def bindR_eq_Inr split: if_splits dest!: add_if_set_nonneg data list auths)
qed

lemma floor_nonneg: "block_floor v hf opts = Inr n \<Longrightarrow> 0 \<le> n"
proof -
  have "0 \<le> data_tokens d" for d by (auto simp: data_tokens_def intro!: sum_list_nonneg)
  then show "block_floor v hf opts = Inr n \<Longrightarrow> 0 \<le> n"
    by (auto simp: block_floor_def bindR_eq_Inr split: if_splits dest!: need_nonneg)
qed

section \<open>Prices\<close>

definition fees_ok :: "run_tx_opts \<Rightarrow> bool" where
  "fees_ok opts \<longleftrightarrow> tx_wf (rt_inner opts) \<and> 0 \<le> rt_baseFee opts \<and> (\<forall>p. rt_blobGasPrice opts = Inr p \<longrightarrow> 0 \<le> p)"

lemma tx_wf_nonneg: "tx_wf t \<Longrightarrow> 0 \<le> gasFeeCap t \<and> 0 \<le> gasTipCap t \<and> 0 \<le> tx_gasLimit (tx_fields_of t) \<and> 0 \<le> tx_fields.tx_value (tx_fields_of t)"
  by (cases t) (auto simp: tx_wf_def Let_def)

text \<open>The price is at most the cap, and the part of the beneficiary is not negative.\<close>

lemma price_bounds:
  assumes "fees_ok opts"
  shows "0 \<le> fst (gas_prices v hf opts)" "fst (gas_prices v hf opts) \<le> gasFeeCap (rt_inner opts)"
    "check_base_fee v hf opts = Inr () \<Longrightarrow> vm_active v hf 1559 \<Longrightarrow> snd (gas_prices v hf opts) = Some fee \<Longrightarrow> 0 \<le> fee"
  using assms tx_wf_nonneg [of "rt_inner opts"]
  by (auto simp: fees_ok_def gas_prices_def getEffectivePriorityFee_def option_or_def Let_def supports_def check_base_fee_def tx_gasPrice_def
      split: if_splits)

text \<open>A sender with the maximal cost keeps the value after paying for gas and blobs.\<close>

lemma paid_balance:
  assumes "fees_ok opts" "check_blobs v hf opts = Inr (blobs, blobPrice)" "max_cost opts blobs \<le> b" "getUpfrontCost (rt_inner opts) \<le> b"
  shows "tx_fields.tx_value (rt_fields opts) \<le> b - tx_gasLimit (rt_fields opts) * fst (gas_prices v hf opts) - blobs * blobPrice"
proof -
  let ?t = "rt_inner opts" and ?f = "rt_fields opts"
  note nn = tx_wf_nonneg [of ?t] price_bounds(1,2) [OF assms(1), of v hf]
  have wf: "tx_wf ?t" using assms(1) by (simp add: fees_ok_def)
  have gas: "tx_gasLimit ?f * fst (gas_prices v hf opts) \<le> tx_gasLimit ?f * gasFeeCap ?t"
    using nn(1) [OF wf] nn(3) by (intro mult_left_mono) auto
  show ?thesis
  proof (cases "maxFeePerBlobGas ?t")
    case None
    then have "blobs = 0" using assms(2) by (simp add: check_blobs_def)
    moreover have "tx_fields.tx_value ?f + tx_gasLimit ?f * gasFeeCap ?t \<le> b"
      using assms(4) None by (cases ?t) (auto simp: getUpfrontCost_def Let_def maxFeePerBlobGas_def)
    ultimately show ?thesis using gas by simp
  next
    case (Some cap)
    then have p: "blobPrice \<le> cap" "0 \<le> blobs"
      using assms(2) by (auto simp: check_blobs_def bindR_eq_Inr split: if_splits dest!: need_nonneg)
    then have "blobs * blobPrice \<le> blobs * cap" by (intro mult_left_mono)
    moreover have "tx_fields.tx_value ?f + tx_gasLimit ?f * gasFeeCap ?t + blobs * cap \<le> b"
      using assms(3) Some by (cases ?t) (auto simp: max_cost_def maxFeePerBlobGas_def supports_def supportsFeeMarket_def)
    ultimately show ?thesis using gas by simp
  qed
qed

lemma div_le_dividend_int: "0 \<le> (a :: int) \<Longrightarrow> 0 < b \<Longrightarrow> a div b \<le> a"
  using zdiv_mono2 [of a 1 b] by simp

section \<open>The gas spent\<close>

lemma capped_refund: "bindR (need p) (\<lambda>q. bindR (bigint_div used q) (\<lambda>m. Inr (f m))) = Inr w \<Longrightarrow>
    \<exists>q. need p = Inr q \<and> q \<noteq> 0 \<and> w = f (used sdiv q)"
  by (auto simp: bindR_eq_Inr bigint_div_def split: if_split_asm)

lemma gas_spent_bounds:
  assumes "gas_spent v hf terms r a = Inr (spent, refund)" "0 \<le> refund" "0 \<le> er_executionGasUsed r"
    "er_executionGasUsed r + tt_intrinsicGas terms \<le> limit" "tt_floorCost terms \<le> limit" "0 \<le> tt_intrinsicGas terms" "0 \<le> tt_floorCost terms"
  shows "0 \<le> spent \<and> spent \<le> limit"
proof -
  let ?used = "er_executionGasUsed r + tt_intrinsicGas terms" and ?refund = "a + option_or (er_gasRefund r) 0"
  have used: "0 \<le> ?used" using assms(3,6) by simp
  obtain w where w: "(if ?refund \<noteq> 0 then bindR (need (getParamAtHardfork (vm_manager v) ''maxRefundQuotient'' hf)) (\<lambda>q.
      bindR (bigint_div ?used q) (\<lambda>maxRefund. Inr (?used - (if ?refund < maxRefund then ?refund else maxRefund)))) else Inr ?used) = Inr w"
    and s: "(if vm_active v hf 7623 \<and> w < tt_floorCost terms then (tt_floorCost terms, 0) else (w, ?refund)) = (spent, refund)"
    using assms(1) unfolding gas_spent_def Let_def bindR_eq_Inr by blast
  consider "spent = tt_floorCost terms" | "spent = w" "refund = ?refund" using s by (auto split: if_splits)
  then show ?thesis
  proof cases
    case 2
    show ?thesis
    proof (cases "?refund = 0")
      case False
      obtain q where q: "need (getParamAtHardfork (vm_manager v) ''maxRefundQuotient'' hf) = Inr q" "q \<noteq> 0"
        "w = ?used - (if ?refund < ?used sdiv q then ?refund else ?used sdiv q)"
        using capped_refund [OF w [unfolded if_P [OF False]]] by blast
      have "0 \<le> q" using q(1) by (rule need_nonneg)
      then have d: "?used sdiv q = ?used div q" "0 \<le> ?used div q" "?used div q \<le> ?used"
        using used q(2) by (simp_all add: sdiv_eq_div pos_imp_zdiv_nonneg_iff div_le_dividend_int del: minus_add_distrib)
      show ?thesis
      proof (cases "?refund < ?used div q")
        case True
        then have "w = ?used - ?refund" using q(3) by (simp add: d(1))
        then show ?thesis using 2 assms(2,4) d(3) True by linarith
      next
        case False
        then have "w = ?used - ?used div q" using q(3) by (simp add: d(1))
        then show ?thesis using 2 assms(4) d(2,3) by linarith
      qed
    qed (use 2 w used assms(4) in simp)
  qed (use assms(5,7) in simp)
qed

section \<open>From the charge to the message\<close>

lemma need_errors: "need p = Inl e \<Longrightarrow> \<not> is_evm_error e"
  by (auto simp: need_def is_evm_error_def split: option.splits param_value.splits)

lemma auth_errors: "auth_field d i = Inl e \<Longrightarrow> \<not> is_evm_error e" "auth_refund v hf = Inl e \<Longrightarrow> \<not> is_evm_error e"
  by (auto simp: auth_field_def auth_refund_def bindR_def is_evm_error_def split: rlp_data.splits option.splits sum.splits dest!: need_errors)

lemma find_d: "delivers (state_ok F) (on_world (on_sm (sm_getAccount a))) (state_ok F) acc_ok"
  by (rule world_d, rule on_sm_yields, rule getAccount_yields) (auto simp: on_sm_def sm_getAccount_def is_evm_error_def split: if_splits)

lemma auth_field_d: "delivers (state_ok F) (liftE (auth_field d i)) (state_ok F) (\<lambda>_. True)"
  by (rule delivers_lift) (auto dest: auth_errors)

lemma delegate_d: "delivers (state_ok F) (delegate v hf caller authority d nonce) (state_ok F) (\<lambda>_. True)"
  unfolding delegate_def warm_always_def Let_def
proof (rule delivers_bind [OF find_d], rule delivers_seq [OF always_warm_d], rule delivers_bind)
  fix found assume found: "acc_ok found"
  let ?acc = "case found of None \<Rightarrow> new_account | Some a \<Rightarrow> a"
  show "delivers (state_ok F) (if isContract ?acc then bindE (on_world (on_sm (sm_getCode authority)))
      (\<lambda>code. returnE (take 3 code \<noteq> DELEGATION_7702_FLAG)) else returnE False) (state_ok F) (\<lambda>_. True)"
    by (rule delivers_if) (rule delivers_bind [OF get_code_d] delivers_value TrueI)+
  have "0 \<le> acc_balance ?acc" using found by (auto simp: acc_ok_def new_account_def account_of_def split: option.splits)
  then have put: "0 \<le> acc_balance (?acc\<lparr>acc_nonce := acc_nonce ?acc + 1\<rparr>)" by simp
  have refund: "delivers (state_ok F) (liftE (if found = None then Inr 0 else auth_refund v hf)) (state_ok F) (\<lambda>_. True)"
    by (rule delivers_lift) (auto dest: auth_errors split: if_splits)
  show "delivers (state_ok F) (if foreign then returnE 0
       else if (if caller = authority then acc_nonce ?acc + 1 else acc_nonce ?acc) \<noteq> nonce then returnE 0
       else bindE (liftE (if found = None then Inr 0 else auth_refund v hf)) (\<lambda>refund.
         seqE (on_world (journal_putAccount authority (Some (?acc\<lparr>acc_nonce := acc_nonce ?acc + 1\<rparr>))))
        (bindE (liftE (auth_field d 1)) (\<lambda>address.
         seqE (on_world (on_sm (sm_putCode (vm_ext v) authority (delegation_code address)))) (returnE refund))))) (state_ok F) (\<lambda>_. True)" for foreign
    by (rule delivers_if delivers_value TrueI delivers_bind [OF refund] delivers_seq [OF put_d [OF put]] delivers_bind [OF auth_field_d]
        delivers_seq [OF put_code_d])+
qed

lemma authorize_d: "delivers (state_ok F) (authorize v E hf caller d) (state_ok F) (\<lambda>_. True)"
  unfolding authorize_def Let_def
  by (rule delivers_bind [OF auth_field_d] delivers_if delivers_value TrueI delegate_d
      | simp split: sum.split add: delivers_value delegate_d)+

lemma authorizations_d: "delivers (state_ok F) (authorizations v E hf opts caller) (state_ok F) (\<lambda>_. True)"
proof -
  have all: "delivers (state_ok F) (authorize_all v E hf caller ds refund) (state_ok F) (\<lambda>_. True)" for ds refund
    by (induction ds arbitrary: refund) (auto intro: delivers_value delivers_bind [OF authorize_d])
  show ?thesis
    unfolding authorizations_def
    by (auto split: tx_inner.split rlp_data.split intro!: delivers_value all delivers_throw simp: is_evm_error_def)
qed

text \<open>The EVM of the transaction, with the fork of the block and that of the EVM agreeing on transient storage.\<close>

definition tx_ready :: "vm \<Rightarrow> run_tx_opts \<Rightarrow> bool" where
  "tx_ready v opts \<longleftrightarrow> evm_ok (vm_evm v) \<and> fees_ok opts
     \<and> (case rt_block opts of None \<Rightarrow> True | Some b \<Rightarrow> header_ok (evm_header (fb_header b)))
     \<and> (case tx_block_context v opts of Inl _ \<Rightarrow> True
          | Inr (c, hf) \<Rightarrow> isEIPActiveAtHardfork (ctx_common (eo_ctx (vm_evm v))) 1153
                (manager_getHardforkByBlock (ctx_common (eo_ctx (vm_evm v))) (Some (bc_blockNumber c)) (Some (bc_timestamp c)))
              = eip_active (eo_ctx (vm_evm v)) 1153)"

lemma call_of_tx:
  assumes "tx_ready v opts" "tx_block_context v opts = Inr (c, hf)" "0 \<le> tt_gasPrice terms"
  shows "evm_ok (for_call (vm_evm v) (tx_call_opts v c opts terms data))"
    "agrees_1153 (for_call (vm_evm v) (tx_call_opts v c opts terms data))
       (execution_hardfork (for_call (vm_evm v) (tx_call_opts v c opts terms data)) (tx_call_opts v c opts terms data))"
proof -
  have "header_ok defaultBlock" by (simp add: header_ok_def defaultBlock_def opt_nonneg_def)
  then show "evm_ok (for_call (vm_evm v) (tx_call_opts v c opts terms data))"
    using assms(1,3) by (cases "rt_block opts") (simp_all add: tx_ready_def evm_ok_def for_call_def tx_call_opts_def or_else_def precompiles_ok_def)
  show "agrees_1153 (for_call (vm_evm v) (tx_call_opts v c opts terms data))
      (execution_hardfork (for_call (vm_evm v) (tx_call_opts v c opts terms data)) (tx_call_opts v c opts terms data))"
    using assms(1,2) by (simp add: tx_ready_def agrees_1153_def execution_hardfork_def for_call_def tx_call_opts_def)
qed

lemma message_of_tx:
  assumes "tx_ready v opts" "tx_block_context v opts = Inr (c, hf)" "run_call_ok (un_call u)" "0 \<le> tt_gasPrice terms"
    and "tt_intrinsicGas terms \<le> tx_gasLimit (rt_fields opts)" "state_ok F s"
    and "tx_to (rt_fields opts) = None \<Longrightarrow> tx_fields.tx_value (rt_fields opts) \<le> balance_of (tt_caller terms) (fst s)"
    and "tx_message v u levels c opts terms s = (Inr msg, t)"
  shows "0 \<le> er_executionGasUsed (ev_execResult msg)"
    "er_executionGasUsed (ev_execResult msg) + tt_intrinsicGas terms \<le> tx_gasLimit (rt_fields opts)" "world_ok F (fst t)"
proof -
  obtain data where data: "tx_data (rt_fields opts) = DBytes data" "runCall (vm_evm v) u levels (tx_call_opts v c opts terms data) s = (Inr msg, t)"
    using assms(8) by (auto simp: tx_message_def split: rlp_data.splits)
  let ?o = "tx_call_opts v c opts terms data"
  let ?e = "for_call (vm_evm v) ?o"
  let ?m = "opts_message ?o"
  have m: "msg_gasLimit ?m = tx_gasLimit (rt_fields opts) - tt_intrinsicGas terms" "msg_value ?m = tx_fields.tx_value (rt_fields opts)"
    "msg_to ?m = tx_to (rt_fields opts)" "msg_caller ?m = tt_caller terms"
    by (simp_all add: opts_message_def tx_call_opts_def or_else_def default_message_def)
  have val: "0 \<le> tx_fields.tx_value (rt_fields opts)" using assms(1) tx_wf_nonneg by (simp add: tx_ready_def fees_ok_def)
  then have "message_validate ?m = Inr ?m" by (simp add: message_validate_def m)
  then have run: "run_message ?e u (execution_hardfork ?e ?o) (run_messages ?e u levels) ?m s = (Inr msg, t)"
    using data(2) by (simp add: runCall_def Let_def bindE_run seqE_run fund_caller_def tx_call_opts_def)
  note call = call_of_tx [OF assms(1,2,4), of data]
  have "funded ?m s" using assms(7) by (simp add: funded_def m)
  from run_message_returns [OF call(1) run_messages_ok [OF call(1) assms(3)] _ _ call(2) assms(6) this run] assms(5) val m
  show "0 \<le> er_executionGasUsed (ev_execResult msg)"
    "er_executionGasUsed (ev_execResult msg) + tt_intrinsicGas terms \<le> tx_gasLimit (rt_fields opts)" "world_ok F (fst t)"
    by (auto simp: gas_within_def message_left_def)
qed

section \<open>From the message to the end\<close>

text \<open>Balances stay nonnegative at every level, also when the journal has forgotten its checkpoints.\<close>

definition rich :: "evm_state \<Rightarrow> bool" where
  "rich s \<longleftrightarrow> sm_wf (wl_sm (fst s)) \<and> balances_ok (wl_sm (fst s))"

lemma rich_balance: "rich s \<Longrightarrow> 0 \<le> balance_of a (fst s)"
  by (auto simp: rich_def sm_wf_def balance_of_def balances_ok_def top_map_def new_account_def account_of_def split: option.split dest: last_in_set)

lemma rich_put: "acc_ok acc \<Longrightarrow> rich (w, ts) \<Longrightarrow> sm_putAccount a acc (wl_sm w) = (r, m) \<Longrightarrow> rich (w\<lparr>wl_journal := j, wl_sm := m\<rparr>, ts)"
  using balances_ok_top [of "wl_sm w" acc a] by (auto simp: rich_def sm_putAccount_def sm_wf_def set_top_def split: if_splits)

lemma put_rich:
  assumes "acc_ok acc" shows "steady rich (on_world (seqE (on_journal k) (on_sm (sm_putAccount a acc))))"
proof (rule steady_world)
  fix w ts assume r: "rich (w, ts)"
  obtain q j where j: "k (wl_journal w) = (q, j)" by fastforce
  obtain p m where m: "sm_putAccount a acc (wl_sm w) = (p, m)" by fastforce
  show "rich (snd (seqE (on_journal k) (on_sm (sm_putAccount a acc)) w), ts)"
    using r rich_put [OF assms r m] j m by (cases q) (auto simp: seqE_run on_journal_def on_sm_def rich_def)
qed

lemma writes_rich: "0 \<le> acc_balance acc \<Longrightarrow> steady rich (on_world (journal_putAccount a (Some acc)))" "steady rich (on_world (journal_deleteAccount a))"
  unfolding journal_putAccount_def journal_deleteAccount_def sm_deleteAccount_def by (rule put_rich; simp add: acc_ok_def)+

lemma get_rich: "steady rich (get_or_new a)" "rich s \<Longrightarrow> get_or_new a s = (Inr acc, t) \<Longrightarrow> 0 \<le> acc_balance acc"
proof -
  have run: "get_or_new a s = (Inr acc, t) \<Longrightarrow> rich s \<Longrightarrow> acc_balance acc = balance_of a (fst s)" for s acc t
    by (cases s) (auto simp: get_or_new_def returns on_world_def on_sm_def sm_getAccount_def balance_of_def rich_def sm_wf_def top_map_def split: if_splits)
  show "steady rich (get_or_new a)"
    by (auto simp: steady_def get_or_new_def bindE_run on_world_def on_sm_def sm_getAccount_def split: prod.splits)
  show "rich s \<Longrightarrow> get_or_new a s = (Inr acc, t) \<Longrightarrow> 0 \<le> acc_balance acc" using run rich_balance by metis
qed

lemma destroyed_rich: "steady rich (delete_destroyed v hf created as)"
  by (induction as) (auto intro!: steady_bind steady_seq steady_basic writes_rich)

lemma touched_rich: "rich (w, ts) \<Longrightarrow> rich (snd (cleanup_loop as w), ts)"
proof (induction as arbitrary: w)
  case (Cons a as)
  have del: "rich (w, ts) \<Longrightarrow> rich (snd (journal_deleteAccount a w), ts)" for w
    using steadyD [OF writes_rich(2) [of a], of "(w, ts)" _ "(snd (journal_deleteAccount a w), ts)"] by (simp add: on_world_def case_prod_beta)
  have "snd (on_sm (sm_getAccount a) w) = w" by (simp add: on_sm_def sm_getAccount_def)
  then show ?case using Cons.IH [OF Cons.prems] Cons.IH [OF del [OF Cons.prems]] Cons.prems del [OF Cons.prems]
    by (auto simp: bindE_run seqE_run intro: Cons.IH split: prod.splits sum.splits if_splits)
qed simp

lemma cleanup_rich: "steady rich (tx_cleanup v)"
proof -
  show ?thesis
    unfolding tx_cleanup_def
  proof (rule steady_world)
    fix w ts assume r: "rich (w, ts)"
    then show "rich (snd (journal_cleanup (ctx_common (eo_ctx (vm_evm v))) (ctx_fork (eo_ctx (vm_evm v))) w), ts)"
      using touched_rich [OF r, of "jr_touched (wl_journal w)"]
      by (auto simp: journal_cleanup_def seqE_run bindE_run on_journal_def rich_def split: prod.splits sum.splits if_splits)
  qed
qed

lemma end_cleanup_rich: "steady rich (end_cleanup v opts)"
proof -
  have "steady rich (on_world (cleanup_loop as))" for as
    by (rule steady_world, rule touched_rich)
  then show ?thesis
    unfolding end_cleanup_def by (intro steady_if steady_bind steady_seq steady_basic cleanup_rich) (simp add: steady_def)
qed

lemma small_rich: "steady rich clear_original" "steady rich (report_access_list v hf opts)"
proof -
  show "steady rich clear_original"
    unfolding clear_original_def by (rule steady_world) (simp add: on_sm_def rich_def sm_clearOriginal_def balances_ok_def sm_wf_def)
  show "steady rich (report_access_list v hf opts)"
    by (auto simp: steady_def report_access_list_def bindE_run getsE_def split: option.split)
qed

lemma end_balances:
  assumes "rich s" "finally_do (\<lambda>s. seqE (on_world journal_commit) (returnE r) s) (end_tx v hf) s = (Inr r, t)"
  shows "0 \<le> balance_of a (fst t)"
proof -
  obtain w ts where s: "s = (w, ts)" by fastforce
  obtain w1 where w1: "journal_commit w = (Inr (), w1)" "end_tx v hf (w1, ts) = (Inr (), t)"
    using assms(2) by (auto simp: finally_do_def seqE_run on_world_def s split: prod.splits sum.splits)
  have "balances_ok (wl_sm w1)"
    using assms(1) w1(1) by (auto simp: s rich_def world_op_run sm_commit_def balances_ok_def dest!: subsetD [OF splice_subset])
  moreover have "accountStack (wl_sm (fst t)) = accountStack (wl_sm w1)"
    using w1(2) by (auto simp: end_tx_def clear_original_def seqE_run on_world_def on_journal_def on_sm_def sm_clearOriginal_def split: if_splits)
  ultimately show ?thesis
    by (auto simp: balance_of_def balances_ok_def top_map_def new_account_def account_of_def split: option.split dest: last_in_set)
qed

lemma lift_steady: "r = Inr x \<Longrightarrow> steady I (f x) \<Longrightarrow> steady I (bindE (liftE r) f)"
  by (simp add: steady_def bindE_run)

lemma settle_rich:
  assumes "gas_spent v hf terms (ev_execResult msg) a = Inr (spent, refund)" "spent \<le> tx_gasLimit (rt_fields opts)" "0 \<le> tt_gasPrice terms"
    and "\<And>reward. miner_value v hf terms spent = Inr reward \<Longrightarrow> 0 \<le> reward"
  shows "steady rich (settle v hf opts terms a msg)"
proof -
  have "0 \<le> tx_cost opts terms - spent * tt_gasPrice terms"
    using assms(2,3) by (simp add: tx_cost_def mult_right_mono)
  then have sender: "steady rich (refund_sender opts terms spent)"
    unfolding refund_sender_def by (intro steady_bind get_rich(1) writes_rich) (auto dest: get_rich(2) [rotated])
  have rewarded: "0 \<le> acc_balance acc + reward" if "rich s" "get_or_new m s = (Inr acc, t)" "liftE (miner_value v hf terms spent) q = (Inr reward, q')"
    for s m acc t q q' reward using get_rich(2) [OF that(1,2)] assms(4) [of reward] that(3) by simp
  have miner: "steady rich (pay_miner v hf opts terms spent)"
    unfolding pay_miner_def
    by (intro steady_bind steady_basic steady_option get_rich(1) steady_seq writes_rich) (simp add: rewarded)
  show ?thesis
    unfolding settle_def Let_def
    by (rule lift_steady [OF assms(1)], unfold prod.case,
        intro steady_seq steady_bind sender miner destroyed_rich small_rich end_cleanup_rich steady_basic)
qed

section \<open>The property\<close>

lemma charged:
  assumes "state_ok F s" "0 \<le> acc_balance (tt_account terms) - tx_cost opts terms - tt_blobGas terms * tt_blobGasPrice terms"
    and "charge_sender opts terms s = (Inr (), t)"
  shows "state_ok F t" "balance_of (tt_caller terms) (fst t) = acc_balance (tt_account terms) - tx_cost opts terms - tt_blobGas terms * tt_blobGasPrice terms"
proof -
  obtain w ts where s: "s = (w, ts)" by fastforce
  let ?acc = "(tt_account terms)\<lparr>acc_balance := acc_balance (tt_account terms) - tx_cost opts terms - tt_blobGas terms * tt_blobGasPrice terms\<rparr>"
  have run: "on_world (journal_putAccount (tt_caller terms) (Some ?acc)) s = (Inr (), t)"
    using assms(2,3) by (simp add: charge_sender_def Let_def)
  have nn: "0 \<le> acc_balance ?acc" using assms(2) by simp
  show "state_ok F t" using deliversD [OF put_d [OF nn] assms(1) run] by simp
  obtain w' where "journal_putAccount (tt_caller terms) (Some ?acc) w = (Inr (), w')" "t = (w', ts)"
    using run by (auto simp: s on_world_def split: prod.splits)
  then show "balance_of (tt_caller terms) (fst t) = acc_balance (tt_account terms) - tx_cost opts terms - tt_blobGas terms * tt_blobGasPrice terms"
    using put_account_run(3) [of F w ?acc "tt_caller terms" "Inr ()" w' "tt_caller terms"] nn assms(1) by (simp add: s state_ok_def)
qed

text \<open>Without a recipient there are no authorisations.\<close>

lemma creation_unauthorised:
  assumes "tx_wf (rt_inner opts)" "tx_to (rt_fields opts) = None" "authorizations v E hf opts caller s = (Inr n, t)"
  shows "t = s"
proof -
  have "tx_type (rt_inner opts) < 3" using assms(1,2) by (auto simp: tx_wf_def Let_def not_less)
  then show ?thesis using assms(3) by (cases "rt_inner opts") (auto simp: authorizations_def)
qed

text \<open>C40: An accepted transaction (that nobody has excused from paying) spends at most its gas limit and at least
  nothing, pays the beneficiary no negative reward, and leaves no account with a negative balance, provided the EVM does not
  report a negative refund.\<close>

theorem tx_pays_within_limits:
  assumes "state_ok (G, [], T) s0" "run_call_ok (un_call u)" "tx_ready v opts" "\<not> rt_skipBalance opts"
    and "runTx v E u levels opts s0 = (Inr r, t)" "0 \<le> tr_gasRefund r"
  shows "0 \<le> tr_totalGasSpent r \<and> tr_totalGasSpent r \<le> tx_gasLimit (rt_fields opts) \<and> 0 \<le> tr_amountSpent r \<and> 0 \<le> tr_minerValue r
    \<and> (\<forall>a. 0 \<le> balance_of a (fst t))"
  using assms(5)
proof (rule runTx_returns)
  fix c hf sc s terms s1 s2 refund s3 msg s4 s5
  assume c: "tx_block_context v opts = Inr (c, hf)" and s: "tx_entered v hf opts s0 sc s"
    and checks: "tx_checks v E hf opts s = (Inr terms, s1)" and charge: "charge_sender opts terms s1 = (Inr (), s2)"
    and auths: "authorizations v E hf opts (tt_caller terms) s2 = (Inr refund, s3)"
    and message: "tx_message v u levels c opts terms s3 = (Inr msg, s4)"
    and settle: "settle v hf opts terms refund msg s4 = (Inr r, s5)"
    and fin: "finally_do (\<lambda>s. seqE (on_world journal_commit) (returnE r) s) (end_tx v hf) s5 = (Inr r, t)"
  have w0: "world_ok (G, [], T) (fst s0)" and ts: "ts_ok (G, [], T) (snd s0)" using assms(1) by (simp_all add: state_ok_def)
  have fees: "fees_ok opts" using assms(3) by (simp add: tx_ready_def)
  obtain b where "world_ok (G, [], T) b" "wl_sm b = wl_sm (fst sc)"
    and b: "tx_open (sm_frames (wl_sm b), j_frames (wl_journal b), T) (snd s0) s"
      "top_map (accountStack (wl_sm (fst s))) = top_map (accountStack (wl_sm (fst sc)))" by (rule tx_entered_open [OF s w0])
  define F where "F = (sm_frames (wl_sm b), j_frames (wl_journal b), T)"
  have ok1: "state_ok F s1"
    using steadyD [OF tx_checks_stable b(1) checks] ts by (simp add: F_def tx_open_def state_ok_def ts_ok_def)
  have valid: "tx_valid v E hf opts (wl_sm (fst s)) terms" by (rule tx_checks_pass [OF b(1) checks])
  then have price: "tt_gasPrice terms = fst (gas_prices v hf opts)" "tt_inclusionFee terms = snd (gas_prices v hf opts)"
    and gas: "check_gas v hf opts = Inr (tt_intrinsicGas terms, tt_floorCost terms)" "tt_intrinsicGas terms \<le> tx_gasLimit (rt_fields opts)"
      "tt_floorCost terms \<le> tx_gasLimit (rt_fields opts)"
    and blobs: "check_blobs v hf opts = Inr (tt_blobGas terms, tt_blobGasPrice terms)"
    and funds: "getUpfrontCost (rt_inner opts) \<le> acc_balance (tt_account terms)"
      "max_cost opts (tt_blobGas terms) \<le> acc_balance (tt_account terms)"
    and base: "check_base_fee v hf opts = Inr ()"
    using assms(4) by (auto simp: tx_valid_def Let_def check_base_fee_def prod_eq_iff not_less split: if_splits)
  have pay: "tx_fields.tx_value (rt_fields opts) \<le> acc_balance (tt_account terms) - tx_cost opts terms - tt_blobGas terms * tt_blobGasPrice terms"
    using paid_balance [OF fees blobs funds(2,1)] by (simp add: tx_cost_def price(1))
  have val: "0 \<le> tx_fields.tx_value (rt_fields opts)" using fees tx_wf_nonneg by (simp add: fees_ok_def)
  have p0: "0 \<le> tt_gasPrice terms" unfolding price(1) by (rule price_bounds(1) [OF fees])
  note ch = charged [OF ok1 order_trans [OF val pay] charge]
  have ok3: "state_ok F s3" using deliversD [OF authorizations_d ch(1) auths] by simp
  have fund: "tx_to (rt_fields opts) = None \<Longrightarrow> tx_fields.tx_value (rt_fields opts) \<le> balance_of (tt_caller terms) (fst s3)"
    using creation_unauthorised [OF _ _ auths] fees ch(2) pay by (simp add: fees_ok_def)
  note msg = message_of_tx [OF assms(3) c assms(2) p0 gas(2) ok3 fund message]
  have intr: "0 \<le> tt_intrinsicGas terms" "0 \<le> tt_floorCost terms"
    using gas(1) by (auto simp: check_gas_def bindR_eq_Inr split: if_splits intro: intrinsic_nonneg floor_nonneg)
  note res = settle_result [OF settle]
  have spent: "0 \<le> tr_totalGasSpent r" "tr_totalGasSpent r \<le> tx_gasLimit (rt_fields opts)"
    using gas_spent_bounds [OF res(1) assms(6) msg(1,2) gas(3) intr] by simp_all
  have reward: "0 \<le> n" if "miner_value v hf terms (tr_totalGasSpent r) = Inr n" for n
    using that spent(1) p0 price_bounds(3) [OF fees base] by (auto simp: miner_value_def price(2) split: if_splits option.splits)
  have "rich s4" using msg(3) by (simp add: rich_def world_ok_def sm_ok_def)
  then have "rich s5" using steadyD [OF settle_rich [OF res(1) spent(2) p0 reward] _ settle] by blast
  then show ?thesis using end_balances [OF _ fin] spent res(3) p0 reward [OF res(4)] by simp
qed

section \<open>A transaction that runs\<close>

definition sample_chain :: chain_config where
  "sample_chain = \<lparr>chain_cfg_name = ''tiny'', chain_cfg_chainId = 7, defaultHardfork = None, consensus_type = ''pos'',
     consensus_algorithm = ''casper'', chain_cfg_hardforks = []\<rparr>"

definition staked_config :: frozen_config where
  "staked_config = tiny_config\<lparr>cfg_spec := tiny_spec\<lparr>spec_chain := Some sample_chain\<rparr>\<rparr>"

lemma staked_active: "isEIPActiveAtHardfork staked_config eip ''shanghai'' \<longleftrightarrow> eip \<in> {1, 606, 3651, 3855, 3860, 4895}"
  using tiny_active [of eip] by (simp add: isEIPActiveAtHardfork_def staked_config_def)

lemma staked_fork: "manager_getHardforkByBlock staked_config (Some 9) (Some 200) = ''shanghai''"
   "manager_getHardforkByBlock tiny_config (Some 9) (Some 200) = ''shanghai''"
  by (simp_all add: manager_getHardforkByBlock_def getHardforkByBlock_def result_index_def default_index_def staked_config_def tiny_spec_hardforks tiny_spec_def
      sample_chain_def reached_block_def reached_time_def Let_def numeral_3_eq_3)

lemma staked_gas: "getParamAtHardfork cfg ''txGas'' hf = Some (PBig 21000)"
  by (rule getParam_only_eip1, simp add: only_eip1_def later_names_list, simp only: EIP1_PARAMS_def table_lookup)

text \<open>A transfer of nothing at no price, with its sender in the cache.\<close>

definition free_tx :: "int \<Rightarrow> frozen_tx" where
  "free_tx nonce = \<lparr>ft_inner = AccessListTxData \<lparr>tx_chainId = 7, tx_nonce = nonce, tx_gasLimit = 50000, tx_to = Some (replicate 20 9), tx_value = 0,
       tx_data = DBytes [], tx_v = Some 0, tx_r = Some 1, tx_s = Some 1\<rparr> 0 (DList []),
     ft_common = staked_config, ft_fork = ''shanghai'', ft_senderCache = Some (makeSigner staked_config (ByName ''shanghai''), replicate 20 5)\<rparr>"

definition free_block :: frozen_block where
  "free_block = \<lparr>fb_header = \<lparr>fh_data = sample_header_data\<lparr>bh_number := 9, bh_timestamp := 200, bh_gasLimit := 60000, bh_baseFeePerGas := None\<rparr>,
       fh_manager = staked_config, fh_hash = None\<rparr>,
     fb_transactions = [], fb_uncleHeaders = [], fb_withdrawals = None, fb_manager = staked_config, fb_txTrieRoot = None, fb_withdrawalsTrieRoot = None\<rparr>"

definition free_opts :: "int \<Rightarrow> run_tx_opts" where
  "free_opts nonce = \<lparr>rt_block = Some free_block, rt_blockContext = None,
     rt_tx = free_tx nonce, rt_skipNonce = False, rt_skipBalance = False, rt_skipBlockGasLimitValidation = False, rt_skipHardForkValidation = False,
     rt_reportAccessList = False, rt_reportPreimages = False, rt_blockGasUsed = None\<rparr>"

definition free_ctx :: block_context where
  "free_ctx = \<lparr>bc_blockNumber = 9, bc_timestamp = 200, bc_coinbase = replicate 20 2, bc_gasLimit = 60000,
     bc_difficulty = 0, bc_baseFeePerGas = None, bc_blobBaseFeePerGas = None, bc_random = Some (replicate 32 4)\<rparr>"

definition sample_vm :: "jump_table \<Rightarrow> vm" where
  "sample_vm table = \<lparr>vm_manager = staked_config, vm_evm = sample_evm table, vm_precompiles = []\<rparr>"

lemma signer_equal_refl: "signer_equal s s"
  by (cases s) simp_all

lemma free_checks:
  assumes "world_ok F w" "top_map (accountStack (wl_sm w)) (replicate 20 5) = None"
  shows "tx_checks (sample_vm table) E ''shanghai'' (free_opts nonce) (w, ts) = (if nonce = 0 then (Inr
      \<lparr>tt_caller = replicate 20 5, tt_account = new_account, tt_intrinsicGas = 21000, tt_floorCost = 0, tt_gasPrice = 0, tt_inclusionFee = None,
        tt_blobGas = 0, tt_blobGasPrice = 0\<rparr>, (w, ts)) else (Inl (PlainError ''the tx doesn't have the correct nonce''), (w, ts)))"
proof -
  have gas: "getIntrinsicGas (free_tx nonce) = Inr 21000"
    by (simp add: getIntrinsicGas_def getDataGas_def free_tx_def toCreationAddress_def add_if_set_def staked_gas getAccessListGas_def getAuthorizationListGas_def Let_def bindR_def)
  let ?v = "sample_vm table" and ?o = "free_opts nonce"
  have off: "\<not> vm_active ?v ''shanghai'' eip" if "eip \<in> {7864, 2929, 7623, 1559}" for eip
    using that by (auto simp: sample_vm_def staked_active)
  have tx: "rt_tx ?o = free_tx nonce" "rt_skipBalance ?o = False" "rt_skipNonce ?o = False" by (simp_all add: free_opts_def)
  have sender: "fst (getSenderAddress (vm_ext ?v) E (free_tx nonce)) = Inr (replicate 20 5)"
    by (simp add: getSenderAddress_def sender_def free_tx_def signer_equal_refl)
  have warm: "warm_tx_addresses ?v ''shanghai'' ?o caller s = (Inr (), s)" for caller and s :: evm_state
    by (simp add: warm_tx_addresses_def off)
  have "check_gas ?v ''shanghai'' ?o = Inr (21000, 0)"
    by (simp add: check_gas_def block_floor_def off tx gas bindR_def bigIntMax_def) (simp add: free_tx_def)
  moreover have "check_base_fee ?v ''shanghai'' ?o = Inr ()" by (simp add: check_base_fee_def off)
  moreover have "get_or_new (replicate 20 5) (w, ts) = (Inr new_account, (w, ts))" by (simp add: get_or_new_run [OF assms(1)] assms(2))
  moreover have "check_eoa ?v ''shanghai'' (replicate 20 5) new_account = returnE ()" by (simp add: check_eoa_def new_account_def account_of_def)
  moreover have "check_upfront ?o (replicate 20 5) new_account = returnE new_account"
    by (simp add: check_upfront_def tx getUpfrontCost_def free_tx_def new_account_def account_of_def)
  moreover have "check_blobs ?v ''shanghai'' ?o = Inr (0, 0)" by (simp add: check_blobs_def tx free_tx_def maxFeePerBlobGas_def)
  moreover have "check_max_cost ?o (replicate 20 5) (max_cost ?o 0) new_account = returnE new_account"
    by (simp add: check_max_cost_def max_cost_def tx free_tx_def maxFeePerBlobGas_def supports_def supportsFeeMarket_def new_account_def account_of_def)
  moreover have "check_nonce ?o new_account = (if nonce = 0 then Inr () else Inl (PlainError ''the tx doesn't have the correct nonce''))"
    by (simp add: check_nonce_def tx) (simp add: free_tx_def new_account_def account_of_def)
  moreover have "gas_prices ?v ''shanghai'' ?o = (0, None)"
    by (simp add: gas_prices_def Let_def tx off) (simp add: free_tx_def tx_gasPrice_def supports_def supportsFeeMarket_def)
  ultimately show ?thesis
    by (simp add: tx_checks_def off tx sender warm bindE_run seqE_run)
qed

section \<open>A run to its end\<close>

definition runs :: "(evm_state \<Rightarrow> bool) \<Rightarrow> (evm_state, 'a) sx \<Rightarrow> (evm_state \<Rightarrow> bool) \<Rightarrow> ('a \<Rightarrow> bool) \<Rightarrow> bool" where
  "runs P m Q A \<longleftrightarrow> (\<forall>s. P s \<longrightarrow> (\<exists>r t. m s = (Inr r, t) \<and> Q t \<and> A r))"

lemma runsD: "runs P m Q A \<Longrightarrow> P s \<Longrightarrow> \<exists>r t. m s = (Inr r, t) \<and> Q t \<and> A r"
  unfolding runs_def by blast

lemma runs_bind: "runs P m Q A \<Longrightarrow> (\<And>r. A r \<Longrightarrow> runs Q (f r) R B) \<Longrightarrow> runs P (bindE m f) R B"
  unfolding runs_def by (metis bindE_Inr)

lemma runs_seq: "runs P m Q A \<Longrightarrow> runs Q k R B \<Longrightarrow> runs P (seqE m k) R B"
  unfolding seqE_def by (rule runs_bind)

lemma runs_return: "A x \<Longrightarrow> runs P (returnE x) P A"
  by (simp add: runs_def)

lemma runs_lift: "r = Inr x \<Longrightarrow> A x \<Longrightarrow> runs P (liftE r) P A"
  by (simp add: runs_def)

lemma runs_given: "\<exists>q. p = Inr q \<Longrightarrow> (\<And>q. runs P (f q) Q A) \<Longrightarrow> runs P (bindE (liftE p) f) Q A"
  by (auto simp: bind_lift)

text \<open>Stacks of \<open>n\<close> levels without code and without money.\<close>

definition calm :: "nat \<Rightarrow> evm_state \<Rightarrow> bool" where
  "calm n s \<longleftrightarrow> (let m = wl_sm (fst s) in 0 < n \<and> length (accountStack m) = n \<and> length (codeStack m) = n \<and> length (storageStack m) = n
     \<and> (\<forall>f\<in>set (accountStack m). \<forall>a acc. f a = Some acc \<longrightarrow> acc_balance acc = 0) \<and> (\<forall>f\<in>set (codeStack m). f = (\<lambda>_. None))
     \<and> \<not> jr_reportPreimages (wl_journal (fst s)))"

lemma get_calm: "runs (calm n) (get_or_new a) (calm n) (\<lambda>acc. acc_balance acc = 0)"
  by (auto simp: runs_def calm_def Let_def get_or_new_def bindE_run on_world_def on_sm_def sm_getAccount_def new_account_def account_of_def
      split: option.split dest: last_in_set)

lemma write_calm:
  assumes "case acc of None \<Rightarrow> True | Some b \<Rightarrow> acc_balance b = 0"
  shows "runs (calm n) (on_world (seqE (on_journal (touchAccount a)) (on_sm (sm_putAccount a acc)))) (calm n) (\<lambda>_. True)"
  using assms
  by (auto simp: runs_def calm_def Let_def seqE_run on_world_def on_journal_def on_sm_def sm_putAccount_def touchAccount_def
      set_top_def update_last_diff_def split: if_splits option.splits dest: last_in_set in_set_butlastD)

lemma put_calm: "acc_balance acc = 0 \<Longrightarrow> runs (calm n) (on_world (journal_putAccount a (Some acc))) (calm n) (\<lambda>_. True)"
  unfolding journal_putAccount_def by (rule write_calm) simp

lemma delete_calm: "runs (calm n) (on_world (journal_deleteAccount a)) (calm n) (\<lambda>_. True)"
  unfolding journal_deleteAccount_def sm_deleteAccount_def by (rule write_calm) simp

lemma checkpoint_calm: "runs (calm n) (on_world journal_checkpoint) (calm (Suc n)) (\<lambda>_. True)"
  by (auto simp: runs_def calm_def Let_def journal_checkpoint_def seqE_run on_world_def on_journal_def on_sm_def j_checkpoint_def j_push_def
      sm_checkpoint_def checkpointSync_def top_map_def dest: last_in_set)

lemma splice_below_top_len: "length (splice_below_top xs) = length xs - 1"
  by (simp add: splice_below_top_def) linarith

lemma commit_calm:
  assumes "0 < n" shows "runs (calm (Suc n)) (on_world journal_commit) (calm n) (\<lambda>_. True)"
proof -
  have part: "calm n (w\<lparr>wl_journal := j_push h (wl_journal w), wl_sm := (wl_sm w)\<lparr>accountStack := splice_below_top (accountStack (wl_sm w)),
      codeStack := splice_below_top (codeStack (wl_sm w)), storageStack := splice_below_top (storageStack (wl_sm w))\<rparr>\<rparr>, ts)" if "calm (Suc n) (w, ts)" for w ts h
    using that assms splice_subset [of "accountStack (wl_sm w)"] splice_subset [of "codeStack (wl_sm w)"]
    by (simp add: calm_def Let_def splice_below_top_len j_push_def) blast
  show ?thesis
    unfolding runs_def
    by (auto simp: journal_commit_def seqE_run on_world_def on_journal_def on_sm_def j_commit_def sm_commit_def intro: part)
qed

lemma code_calm: "runs (calm n) (on_world (on_sm (sm_getCode a))) (calm n) (\<lambda>code. code = [])"
proof -
  have "last S a = None" if "S \<noteq> []" "\<forall>f\<in>set S. f = (\<lambda>_. None)" for S :: "(address \<Rightarrow> bytes option) list"
    using that last_in_set by fastforce
  then show ?thesis by (auto simp: runs_def calm_def Let_def on_world_def on_sm_def sm_getCode_def)
qed

lemma cleanup_calm: "runs (calm n) (tx_cleanup v) (calm n) (\<lambda>_. True)"
proof -
  have loop: "\<exists>w'. cleanup_loop as w = (Inr (), w') \<and> calm n (w', ts)" if "calm n (w, ts)" for as w ts
    using that
  proof (induction as arbitrary: w)
    case (Cons a as)
    obtain r t where "on_world (journal_deleteAccount a) (w, ts) = (Inr r, t)" "calm n t"
      using delete_calm [of n a] Cons.prems unfolding runs_def by blast
    then obtain w1 where w1: "journal_deleteAccount a w = (Inr (), w1)" "calm n (w1, ts)"
      by (auto simp: on_world_def split: prod.splits)
    have "on_sm (sm_getAccount a) w = (Inr (last (accountStack (wl_sm w)) a), w)"
      using Cons.prems by (auto simp: on_sm_def sm_getAccount_def calm_def Let_def)
    moreover obtain w2 where "cleanup_loop as w = (Inr (), w2)" "calm n (w2, ts)" using Cons.IH [OF Cons.prems] by blast
    moreover obtain w3 where "cleanup_loop as w1 = (Inr (), w3)" "calm n (w3, ts)" using Cons.IH [OF w1(2)] by blast
    ultimately show ?case using w1(1) by (simp add: bindE_run seqE_run)
  qed simp
  show ?thesis
    unfolding runs_def
  proof (intro allI impI)
    fix s assume s: "calm n s"
    obtain w ts where ws: "s = (w, ts)" by fastforce
    obtain w' where w': "cleanup_loop (jr_touched (wl_journal w)) w = (Inr (), w')" "calm n (w', ts)"
      using loop [of w ts] s ws by blast
    show "\<exists>r t. tx_cleanup v s = (Inr r, t) \<and> calm n t \<and> True"
      using w' s by (auto simp: ws tx_cleanup_def on_world_def journal_cleanup_def bindE_run seqE_run on_journal_def calm_def Let_def)
  qed
qed

section \<open>The transfer succeeds\<close>

lemma runs_when: "(b \<Longrightarrow> runs P m P (\<lambda>_. True)) \<Longrightarrow> runs P (whenE b m) P (\<lambda>_. True)"
  by (cases b) (simp_all add: runs_def)

lemma runs_post: "runs P m Q A \<Longrightarrow> (\<And>r. A r \<Longrightarrow> B r) \<Longrightarrow> runs P m Q B"
  unfolding runs_def by metis

lemma runs_catch: "runs P m Q A \<Longrightarrow> runs P (catchE m) Q (\<lambda>e. e = None)"
  by (fastforce simp: runs_def catchE_def)

lemma sample_off: "eip \<in> {1153, 6800, 7702, 2929, 6780} \<Longrightarrow> \<not> eip_active (eo_ctx (for_call (sample_evm table) opts)) eip"
  by (cases "opt_message opts") (auto simp: for_call_def sample_evm_def sample_ctx_def eip_active_def tiny_active)

lemma free_transfer:
  assumes "msg_value msg = 0" "\<not> msg_delegatecall msg"
  shows "runs (calm n) (transfer_value msg to) (calm n) (\<lambda>e. e = None)"
proof -
  have out: "runs (calm n) (reduceSenderBalance acc msg) (calm n) (\<lambda>_. True)" if "acc_balance acc = 0" for acc
    using put_calm [of "acc\<lparr>acc_balance := 0\<rparr>" n "msg_caller msg"] that by (simp add: reduceSenderBalance_def assms(1))
  have into: "runs (calm n) (addToBalance acc msg to) (calm n) (\<lambda>_. True)" if "acc_balance acc = 0" for acc
    using put_calm [of "acc\<lparr>acc_balance := 0\<rparr>" n to] that by (simp add: addToBalance_def assms(1) MAX_INTEGER_BIGINT_def)
  show ?thesis
    unfolding transfer_value_def using assms(2)
    by (auto intro!: runs_bind [OF get_calm] runs_bind [OF runs_catch [OF out]] runs_bind [OF runs_catch [OF into]] runs_return)
qed

lemma free_message:
  assumes "msg_value msg = 0" "msg_depth msg = 0" "msg_to msg = Some a" "msg_code msg = None" "\<not> msg_delegatecall msg" "msg_codeAddress msg = None" "0 < n"
  shows "runs (calm n) (run_message (for_call (sample_evm table) opts) u ''shanghai'' rc msg) (calm n)
    (\<lambda>res. ev_execResult res = early_result msg None)"
proof -
  let ?e = "for_call (sample_evm table) opts"
  note off = sample_off [of _ table opts]
  have pre: "eo_precompiles ?e = (\<lambda>_. None)" "ctx_common (eo_ctx ?e) = tiny_config" by (cases "opt_message opts"; simp add: for_call_def sample_evm_def sample_ctx_def)+
  have bump: "runs (calm n) (bump_nonce msg) (calm n) (\<lambda>_. True)"
    unfolding bump_nonce_def by (rule runs_bind [OF get_calm]) (simp add: put_calm)
  have warm: "runs (calm n) (warm_new_address ?e ''shanghai'' msg) (calm n) (\<lambda>_. True)"
    by (simp add: warm_new_address_def assms(3) runs_return)
  have cp: "runs (calm n) (message_checkpoint ?e ''shanghai'') (calm (Suc n)) (\<lambda>_. True)"
    unfolding message_checkpoint_def by (rule runs_seq [OF checkpoint_calm], rule runs_when) (simp add: pre tiny_active)
  have load: "runs (calm (Suc n)) (loadCode ?e msg) (calm (Suc n)) (\<lambda>(code, charge). no_code code)"
    unfolding loadCode_def using off assms(3,4,6)
    by (simp add: message_codeAddress_def getPrecompile_def pre bind_lift) (rule runs_bind [OF code_calm], simp add: runs_def no_code_def)
  have call: "runs (calm (Suc n)) (execute_message ?e u rc msg) (calm (Suc n)) (\<lambda>res. ev_execResult res = early_result msg None)"
  proof -
    have rest: "runs (calm (Suc n)) (case p of (code, charge) \<Rightarrow> if no_code code \<or> err \<noteq> None then returnE (evm_result_of None (early_result msg err, shared_sets msg)) else f code charge err)
        (calm (Suc n)) (\<lambda>res. ev_execResult res = early_result msg None)" if "err = None" "case p of (code, charge) \<Rightarrow> no_code code" for p err and f :: "loaded_code \<Rightarrow> bool \<Rightarrow> exn option \<Rightarrow> (evm_state, evm_result) sx"
      using that by (cases p) (simp add: runs_def evm_result_of_def shared_sets_def)
    show ?thesis
      unfolding execute_message_def assms(3) option.case executeCall_def if_not_P [OF off [of 6800, simplified]]
      by (rule runs_bind [OF free_transfer [OF assms(1,5)]], rule runs_bind [OF load], rule rest)
  qed
  have fin: "runs (calm (Suc n)) (end_message ?e res) (calm n) (\<lambda>res. ev_execResult res = early_result msg None)" if "ev_execResult res = early_result msg None" for res
  proof -
    have "forfeit (ev_execResult res) = early_result msg None" "\<not> reverts ?e (early_result msg None)"
      by (simp_all add: that forfeit_def reverts_def early_result_def)
    then show ?thesis
      unfolding end_message_def Let_def using off [of 1153]
      by simp (rule runs_seq [OF commit_calm [OF assms(7)]], simp add: runs_def seqE_run)
  qed
  show ?thesis
    unfolding run_message_def
    by (rule runs_seq [OF runs_when [OF bump]], rule runs_seq [OF warm], rule runs_seq [OF cp], rule runs_bind [OF call], rule fin)
qed

section \<open>The transaction goes through\<close>

definition first_state :: evm_state where
  "first_state = (sample_world, new_transient_storage)"

definition free_terms :: tx_terms where
  "free_terms = \<lparr>tt_caller = replicate 20 5, tt_account = new_account, tt_intrinsicGas = 21000, tt_floorCost = 0, tt_gasPrice = 0,
     tt_inclusionFee = None, tt_blobGas = 0, tt_blobGasPrice = 0\<rparr>"

lemma staked_off: "eip \<notin> {1, 606, 3651, 3855, 3860, 4895} \<Longrightarrow> \<not> vm_active (sample_vm table) ''shanghai'' eip"
  by (simp add: sample_vm_def staked_active)

lemma free_context: "tx_block_context (sample_vm table) (free_opts nonce) =
    Inr (free_ctx, ''shanghai'')"
proof -
  have "createBlockContext (fb_header free_block) staked_config = Inr free_ctx"
    by (simp add: createBlockContext_def free_block_def free_ctx_def sample_header_data_def Let_def bindR_def)
  moreover have "getHardforkFromBlockContext free_ctx staked_config = ''shanghai''"
    by (simp add: getHardforkFromBlockContext_def free_ctx_def staked_fork)
  ultimately show ?thesis
    by (simp add: tx_block_context_def free_opts_def sample_vm_def bindR_def Let_def) (simp add: free_block_def sample_header_data_def staked_fork)
qed

lemma free_gas: "tx_gasLimit (rt_fields (free_opts nonce)) = 50000" "bc_gasLimit free_ctx = 60000"
  by (simp_all add: free_opts_def free_tx_def free_ctx_def)

lemma first_calm: "calm 1 first_state"
  by (simp add: first_state_def calm_def sample_world_def new_simple_sm_def new_journal_def Let_def cleanJournal_def checkpointSync_def top_map_def)

lemma first_ok: "world_ok ([], [], tl (ts_frames new_transient_storage)) (fst first_state)" "state_ok sample_below first_state"
proof -
  obtain table where "buildJumpTable sample_ctx [] = Inr table" using sample_table by blast
  from sample_evm_facts(4) [OF this] show "state_ok sample_below first_state" by (simp add: first_state_def)
  then show "world_ok ([], [], tl (ts_frames new_transient_storage)) (fst first_state)" by (simp add: state_ok_def sample_below_def)
qed

lemma free_cleanup: "\<exists>j. tx_cleanup v first_state = (Inr (), (sample_world\<lparr>wl_journal := j\<rparr>, new_transient_storage))"
  by (simp add: tx_cleanup_def first_state_def on_world_def journal_cleanup_def seqE_run bindE_run on_journal_def sample_world_def new_journal_def cleanJournal_def)

lemma free_enters:
  obtains sc s F where "tx_entered (sample_vm table) ''shanghai'' (free_opts nonce) first_state sc s" "calm 2 s" "tx_open F (snd first_state) s"
    "top_map (accountStack (wl_sm (fst s))) (replicate 20 5) = None"
proof -
  have opts: "\<not> rt_reportAccessList (free_opts nonce)" "\<not> rt_reportPreimages (free_opts nonce)" by (simp_all add: free_opts_def)
  have "runs (calm 1) (seqE (start_tx (sample_vm table) (free_opts nonce)) (typed_setup (sample_vm table) ''shanghai'' (free_opts nonce))) (calm 2) (\<lambda>_. True)"
    unfolding start_tx_def typed_setup_def using checkpoint_calm [of 1]
    by (intro runs_seq [of _ _ "calm 2"] runs_seq [OF cleanup_calm] runs_seq [OF runs_when] runs_when) (auto simp: opts staked_off numeral_2_eq_2)
  then obtain s where s: "seqE (start_tx (sample_vm table) (free_opts nonce)) (typed_setup (sample_vm table) ''shanghai'' (free_opts nonce)) first_state = (Inr (), s)" "calm 2 s"
    using first_calm unfolding runs_def by (metis (full_types) old.unit.exhaust)
  obtain j where j: "tx_cleanup (sample_vm table) first_state = (Inr (), (sample_world\<lparr>wl_journal := j\<rparr>, new_transient_storage))" using free_cleanup by blast
  have e: "tx_entered (sample_vm table) ''shanghai'' (free_opts nonce) first_state (sample_world\<lparr>wl_journal := j\<rparr>, new_transient_storage) s"
    using s(1) j by (simp add: tx_entered_def)
  show thesis
  proof (rule tx_entered_open [OF e first_ok(1)])
    fix b assume "tx_open (sm_frames (wl_sm b), j_frames (wl_journal b), tl (ts_frames new_transient_storage)) (snd first_state) s"
      "top_map (accountStack (wl_sm (fst s))) = top_map (accountStack (wl_sm (fst (sample_world\<lparr>wl_journal := j\<rparr>, new_transient_storage))))"
    then show thesis using that [OF e s(2)] by (simp add: sample_world_def new_simple_sm_def checkpointSync_def top_map_def)
  qed
qed

lemma free_checked:
  assumes "tx_open F (snd first_state) s" "top_map (accountStack (wl_sm (fst s))) (replicate 20 5) = None"
  shows "tx_checks (sample_vm table) E ''shanghai'' (free_opts nonce) s =
    (if nonce = 0 then (Inr free_terms, s) else (Inl (PlainError ''the tx doesn't have the correct nonce''), s))"
  using free_checks [of F "fst s" table E nonce "snd s", unfolded prod.collapse] assms by (simp add: tx_open_def free_terms_def)

lemma clear_calm: "runs (calm n) clear_original (calm n) (\<lambda>_. True)"
  by (auto simp: runs_def clear_original_def on_world_def on_sm_def calm_def Let_def sm_clearOriginal_def)

lemma free_settles:
  assumes "ev_execResult msg = early_result (opts_message (tx_call_opts v' c opts' terms' data)) None"
  shows "runs (calm 2) (settle (sample_vm table) ''shanghai'' (free_opts 0) free_terms 0 msg) (calm 2) (\<lambda>r. tr_gasRefund r = 0)"
proof -
  let ?v = "sample_vm table" and ?o = "free_opts 0" and ?r = "ev_execResult msg"
  have r: "er_executionGasUsed ?r = 0" "er_gasRefund ?r = Some 0" "er_selfdestruct ?r = None" "er_exceptionError ?r = None"
    by (simp_all add: assms early_result_def opts_message_def default_message_def)
  have opts: "\<not> rt_skipBalance ?o" "rt_reportAccessList ?o = False" "rt_block ?o = Some free_block" "supports (rt_tx ?o) 2718" "tx_type (ft_inner (rt_tx ?o)) = 1"
    by (simp_all add: free_opts_def free_tx_def supports_def)
  have spent: "gas_spent ?v ''shanghai'' free_terms ?r 0 = Inr (21000, 0)"
    by (simp add: gas_spent_def r option_or_def free_terms_def staked_off bindR_def)
  have sender: "runs (calm 2) (refund_sender ?o free_terms 21000) (calm 2) (\<lambda>_. True)"
    unfolding refund_sender_def by (rule runs_bind [OF get_calm]) (simp add: tx_cost_def free_terms_def put_calm)
  have "beneficiary ?v ?o = Inr (Some (replicate 20 2))"
    by (simp add: beneficiary_def sample_vm_def staked_config_def sample_chain_def opts free_block_def sample_header_data_def)
  moreover have "miner_value ?v ''shanghai'' free_terms 21000 = Inr 0" by (simp add: miner_value_def staked_off free_terms_def)
  ultimately have miner: "runs (calm 2) (pay_miner ?v ''shanghai'' ?o free_terms 21000) (calm 2) (\<lambda>_. True)"
    unfolding pay_miner_def
    by (auto simp: bind_lift intro!: runs_bind [OF get_calm] runs_seq [OF put_calm] runs_return)
  have receipt: "\<exists>q. generateTxReceipt ?v ''shanghai'' (rt_tx ?o) ?r bloom n b p = Inr q" for bloom n b p
    by (simp add: generateTxReceipt_def opts)
  have gone: "runs (calm 2) (delete_destroyed ?v ''shanghai'' cs (case er_selfdestruct ?r of None \<Rightarrow> [] | Some as \<Rightarrow> as)) (calm 2) (\<lambda>_. True)" for cs
    by (simp add: r runs_return)
  have cleaned: "runs (calm 2) (end_cleanup ?v ?o) (calm 2) (\<lambda>_. True)" using cleanup_calm by (simp add: end_cleanup_def opts)
  have report: "runs (calm 2) (report_access_list ?v ''shanghai'' ?o) (calm 2) (\<lambda>_. True)" by (simp add: report_access_list_def opts runs_return)
  show ?thesis
    unfolding settle_def Let_def spent bind_lift prod.case
    by (rule runs_seq [OF sender], rule runs_bind [OF miner], rule runs_seq [OF gone], rule runs_bind [OF report],
        rule runs_seq [OF cleaned], rule runs_seq [OF clear_calm], rule runs_given [OF receipt])
      (simp add: runs_def)
qed

lemma free_run:
  obtains r t where "runTx (sample_vm table) E u levels (free_opts 0) first_state = (Inr r, t)" "tr_gasRefund r = 0"
proof -
  let ?v = "sample_vm table" and ?o = "free_opts 0" and ?c = "free_ctx"
  obtain sc s F where s: "tx_entered ?v ''shanghai'' ?o first_state sc s" "calm 2 s" "tx_open F (snd first_state) s"
    "top_map (accountStack (wl_sm (fst s))) (replicate 20 5) = None" by (rule free_enters)
  have checks: "tx_checks ?v E ''shanghai'' ?o s = (Inr free_terms, s)" using free_checked [OF s(3,4), of table E 0] by simp
  have charge: "runs (calm 2) (charge_sender ?o free_terms) (calm 2) (\<lambda>_. True)"
    unfolding charge_sender_def Let_def by (rule put_calm) (simp add: tx_cost_def free_terms_def free_opts_def new_account_def account_of_def)
  have auths: "authorizations ?v E ''shanghai'' ?o caller = returnE 0" for caller by (simp add: authorizations_def free_opts_def free_tx_def)
  let ?call = "tx_call_opts ?v ?c ?o free_terms []"
  have evm: "vm_evm ?v = sample_evm table" by (simp add: sample_vm_def)
  have first: "bindE (seqE (returnE ()) (liftE (Inr m))) f = f m" for m and f :: "message \<Rightarrow> (evm_state, evm_result) sx"
    by (simp add: fun_eq_iff bindE_run seqE_run)
  have "message_validate (opts_message ?call) = Inr (opts_message ?call)"
    by (simp add: message_validate_def opts_message_def tx_call_opts_def or_else_def default_message_def free_opts_def free_tx_def)
  moreover have "execution_hardfork (for_call (sample_evm table) ?call) ?call = ''shanghai''"
    by (simp add: execution_hardfork_def for_call_def tx_call_opts_def sample_evm_def sample_ctx_def free_ctx_def staked_fork)
  moreover have "tx_data (rt_fields ?o) = DBytes []" "opt_message ?call = None" "fund_caller ?call = returnE ()"
    by (simp_all add: free_opts_def free_tx_def tx_call_opts_def fund_caller_def)
  ultimately have "tx_message ?v u levels ?c ?o free_terms = run_message (for_call (sample_evm table) ?call) u ''shanghai''
      (run_messages (for_call (sample_evm table) ?call) u levels) (opts_message ?call)"
    by (simp add: tx_message_def runCall_def Let_def evm first)
  then have message: "runs (calm 2) (tx_message ?v u levels ?c ?o free_terms) (calm 2) (\<lambda>msg. ev_execResult msg = early_result (opts_message ?call) None)"
    by simp (rule free_message; simp add: opts_message_def tx_call_opts_def or_else_def default_message_def free_opts_def free_tx_def)
  have "runs (calm 2) (seqE (charge_sender ?o free_terms) (bindE (authorizations ?v E ''shanghai'' ?o (tt_caller free_terms)) (\<lambda>refund.
      bindE (tx_message ?v u levels ?c ?o free_terms) (settle ?v ''shanghai'' ?o free_terms refund)))) (calm 2) (\<lambda>r. tr_gasRefund r = 0)"
    unfolding auths bindE_returnE by (rule runs_seq [OF charge], rule runs_bind [OF message], rule free_settles)
  from runsD [OF this s(2)] obtain r t where inner: "run_tx_inner ?v E u levels ''shanghai'' ?c ?o s = (Inr r, t)" "calm 2 t" "tr_gasRefund r = 0"
    using checks by (auto simp: run_tx_inner_def bindE_run [of "tx_checks v E hf ops" for v E hf ops])
  obtain t1 where t1: "on_world journal_commit t = (Inr (), t1)" "calm 1 t1"
    using runsD [OF commit_calm [of 1], of t] inner(2) by (auto simp: numeral_2_eq_2)
  obtain t2 where t2: "end_tx ?v ''shanghai'' t1 = (Inr (), t2)" using end_tx_run by blast
  have "runTx ?v E u levels ?o first_state = (Inr r, t2)"
    using s(1) inner(1) t1(1) t2
    by (auto simp: runTx_def free_context bind_lift free_gas tx_entered_def finally_do_def commit_or_revert_def bindE_run seqE_run split: prod.splits sum.splits)
  then show thesis using that inner(3) by blast
qed

lemma free_ready:
  assumes "buildJumpTable sample_ctx [] = Inr table" shows "tx_ready (sample_vm table) (free_opts 0)"
proof -
  have "fees_ok (free_opts 0)"
    by (simp add: fees_ok_def free_opts_def free_tx_def tx_wf_def signature_wf_def rt_baseFee_def rt_blobGasPrice_def Let_def free_block_def sample_header_data_def option_or_def getBlobGasPrice_def)
  moreover have "evm_ok (vm_evm (sample_vm table))" using sample_evm_facts(1) [OF assms] by (simp add: sample_vm_def)
  ultimately show ?thesis
    by (simp add: tx_ready_def free_context)
      (simp add: free_opts_def free_ctx_def sample_vm_def sample_evm_def sample_ctx_def staked_fork eip_active_def
        free_block_def sample_header_data_def evm_header_def header_ok_def opt_nonneg_def getBlobGasPrice_def Let_def)
qed

theorem tx_pays_within_limits_witness:
  "\<exists>table r t. runTx (sample_vm table) sample_ecdsa sample_unreached 0 (free_opts 0) first_state = (Inr r, t)
     \<and> tr_totalGasSpent r \<le> 50000 \<and> (\<forall>a. 0 \<le> balance_of a (fst t))"
proof -
  obtain table where table: "buildJumpTable sample_ctx [] = Inr table" using sample_table by blast
  obtain r t where run: "runTx (sample_vm table) sample_ecdsa sample_unreached 0 (free_opts 0) first_state = (Inr r, t)" "tr_gasRefund r = 0"
    by (rule free_run)
  have "tr_totalGasSpent r \<le> tx_gasLimit (rt_fields (free_opts 0)) \<and> (\<forall>a. 0 \<le> balance_of a (fst t))"
    using tx_pays_within_limits [OF first_ok(2) [unfolded sample_below_def] sample_evm_facts(2) [OF table] free_ready [OF table] _ run(1)] run(2)
    by (simp add: free_opts_def)
  then show ?thesis using run(1) unfolding free_gas by blast
qed

theorem rejected_tx_leaves_no_trace_witness:
  "\<exists>table t. buildJumpTable sample_ctx [] = Inr table
     \<and> runTx (sample_vm table) sample_ecdsa sample_unreached 0 (free_opts 1) first_state = (Inl (PlainError ''the tx doesn't have the correct nonce''), t)
     \<and> sm_frames (wl_sm (fst t)) = sm_frames (wl_sm (fst first_state))"
proof -
  obtain table where table: "buildJumpTable sample_ctx [] = Inr table" using sample_table by blast
  obtain sc s F where s: "tx_entered (sample_vm table) ''shanghai'' (free_opts 1) first_state sc s" "tx_open F (snd first_state) s"
    "top_map (accountStack (wl_sm (fst s))) (replicate 20 5) = None" by (rule free_enters)
  have "rt_skipBlockGasLimitValidation (free_opts 1) \<or> tx_gasLimit (rt_fields (free_opts 1)) \<le> bc_gasLimit (free_ctx)"
    by (simp add: free_gas)
  moreover have "tx_checks (sample_vm table) sample_ecdsa ''shanghai'' (free_opts 1) s = (Inl (PlainError ''the tx doesn't have the correct nonce''), s)"
    using free_checked [OF s(2,3), of table sample_ecdsa 1] by simp
  moreover have "wl_sm (fst sc) = wl_sm (fst first_state)"
    using s(1) free_cleanup [of "sample_vm table"] by (auto simp: tx_entered_def first_state_def)
  ultimately show ?thesis
    using table rejected_tx_leaves_no_trace [OF first_ok(1) free_context _ s(1), of sample_ecdsa _ s sample_unreached 0] by auto
qed

lemma accepted_tx_valid_example:
  "\<exists>r t (terms :: tx_terms). runTx (sample_vm table) sample_ecdsa sample_unreached 0 (free_opts 0) first_state = (Inr r, t)
     \<and> tt_intrinsicGas terms \<le> 50000 \<and> tr_amountSpent r = tr_totalGasSpent r * tt_gasPrice terms"
proof -
  obtain r t where run: "runTx (sample_vm table) sample_ecdsa sample_unreached 0 (free_opts 0) first_state = (Inr r, t)"
    by (rule free_run)
  obtain hf and sc :: evm_state and terms where "tx_valid (sample_vm table) sample_ecdsa hf (free_opts 0) (wl_sm (fst sc)) terms"
    "tr_amountSpent r = tr_totalGasSpent r * tt_gasPrice terms"
    using accepted_tx_valid [OF first_ok(1) run] by metis
  moreover from this(1) have "tt_intrinsicGas terms \<le> 50000" unfolding tx_valid_def Let_def free_gas by blast
  ultimately show ?thesis using run by metis
qed

end
