(* ===== verification/Spec2Isabelle.thy ===== *)
theory Spec2Isabelle
  imports ChainPresets TrieLaws TxLimits
begin

text \<open>
  A model of the execution core of ts-ethereum and the theorems that make it correct.

  The program. \<open>src/packages/chain-config\<close> holds the chain rules: the order of the hardforks, the
  EIPs each one activates, the numeric parameters each EIP changes, and the hardfork manager that
  answers questions about them. \<open>src/packages/evm\<close> executes bytecode: \<open>evm.ts\<close> runs messages,
  \<open>interpreter.ts\<close> runs one frame with an operand stack, a byte memory and a jump table of
  operations, \<open>journal.ts\<close> keeps warm addresses and checkpoints over the state manager, and
  \<open>transientStorage.ts\<close> the storage of EIP-1153. \<open>src/packages/state-manager\<close> stores accounts, code
  and storage. \<open>src/packages/rlp\<close> encodes nested byte strings and \<open>src/packages/merkel-trie\<close> keeps maps of
  them under one root hash. \<open>src/packages/tx\<close> and \<open>src/packages/block\<close> make, sign, serialise and check
  transactions, headers and blocks; \<open>src/packages/vm\<close> runs a transaction on the state; \<open>src/packages/utils\<close> has the byte and number conversions all of them use.

  The theories, in the order of the code:
    \<open>Prelude\<close>  errors as values, the state-and-exception functions \<open>sx\<close>, bigint shifts and
      truncations;
    \<open>Bytes\<close>  \<open>utils/src/bytes.ts\<close>, \<open>internal.ts\<close>; the third-party big-endian conversion is the
      parameter \<open>externals\<close> with the law \<open>noble_ok\<close>;
    \<open>EvmStack\<close>, \<open>EvmMemory\<close>  \<open>evm/src/stack.ts\<close>, \<open>memory.ts\<close>, refining a list and an array;
    \<open>ChainTables\<close>, \<open>Hardforks\<close>, \<open>ChainPresets\<close>  \<open>chain-config/src\<close>: tables, manager, presets;
    \<open>Checkpoints\<close>  the contract of a checkpoint stack as a locale, with what follows for any
      well-nested sequence of operations; \<open>TransientStorage\<close>, \<open>StateManager\<close>, \<open>Journal\<close>,
      \<open>CheckpointDb\<close> and \<open>MptCheckpoints\<close> model \<open>transientStorage.ts\<close>, \<open>simpleStateManager.ts\<close> (with
      \<open>originalStorageCache.ts\<close>), \<open>journal.ts\<close>, the databases below the trie and the checkpoints of the trie, and
      interpret it;
    \<open>RunState\<close>  the frame of \<open>interpreter.ts\<close> and its gas, storage and result methods;
    \<open>Arithmetic\<close>, \<open>Bitwise\<close>, \<open>OpcodeUtil\<close>, \<open>Instructions\<close>, \<open>Calls\<close>  the handlers of
      \<open>evm/src/opcodes/instructions\<close> and \<open>opcodes/util.ts\<close>; \<open>FrameFacts\<close> and \<open>StorageFacts\<close> their
      lemmas;
    \<open>DynamicGas\<close>  \<open>instructions/gas.ts\<close> and the gas rules of EIP-1283, 2200 and 2929;
    \<open>JumpTables\<close>  \<open>opcodes/tables\<close>, \<open>opcodes/eips\<close> and \<open>codes.ts\<close>;
    \<open>Interpreter\<close>  the main loop and the jump analysis; \<open>JumpAnalysis\<close> what the analysis computes;
    \<open>FrameLogic\<close>  a logic of frames with outcomes and errors; \<open>GasSafety\<close>, \<open>HandlerSafety\<close>, \<open>TableSafety\<close> apply
      it to the gas handlers, the instructions and the whole table; \<open>Termination\<close> draws the bound of the loop;
    \<open>Evm\<close>, \<open>EvmSafety\<close>  \<open>evm.ts\<close>: calls, creations, and what a message keeps of the world;
    \<open>Rlp\<close>  \<open>rlp/src\<close>: encoding and decoding, inverse to each other;
    \<open>MptNodes\<close>, \<open>Mpt\<close>  \<open>merkel-trie/src\<close>: nibbles, nodes and the operations of the trie; \<open>MptTrie\<close>, \<open>MptStore\<close>,
      \<open>MptUpdate\<close>, \<open>MptSafety\<close>, \<open>TrieLaws\<close>  the abstract trie, how a database holds it, the simulation of the
      operations and the laws that follow;
    \<open>Items\<close>, \<open>BlockHeader\<close>, \<open>Transactions\<close>, \<open>Blocks\<close>  \<open>block/src\<close> and \<open>tx/src/tx-functional.ts\<close> with its signers;
    \<open>Bloom\<close>, \<open>RunTx\<close>  \<open>vm/src/bloom\<close> and \<open>vm/src/runTx.ts\<close>; \<open>TxSafety\<close> shows what a rejected transaction leaves and what an
      accepted one has passed, \<open>TxLimits\<close> what it pays.

  How the parts interact. A message of the EVM works on the world (state manager and journal) and the
  transient storage; its frame runs the interpreter, whose call instructions send messages again, through the
  parameter \<open>run_call\<close>. \<open>Evm.run_messages\<close> ties this knot, and \<open>EvmSafety\<close> shows that its messages have what the
  safety of a frame asks of \<open>run_call\<close>. Blocks and transactions read the chain rules through the hardfork manager, are
  serialised with RLP, and a block commits to its parts through the roots of tries. \<open>RunTx.runTx\<close> puts them together: it recovers
  the sender, checks and charges it, sends the message to the EVM, pays the beneficiary of the block, and cleans up through the journal.

  How the state corresponds. A JavaScript bigint is an \<open>int\<close>, a \<open>Uint8Array\<close> a list of 8-bit
  words; division of bigints truncates. An exception does not undo what was written before it: a
  method is a function from the state to a result, error or value, and the state it leaves. Hex
  strings that only serve as keys of maps are the byte arrays they denote. Conversions from bigint
  to number are exact: the property on the memory charge bounds every offset that can be paid for. The exception is
  \<open>MCOPY\<close>, which the jump table leaves without a memory charge: there a memory that would outgrow the longest array of
  the engine (\<open>ctx_maxArrayLength\<close>) is the RangeError of \<open>memory.ts\<close>. Decoded fields that
  nothing has validated yet stay \<open>rlp_data\<close>, byte arrays or lists.

  What is a parameter: the hash and hex functions (\<open>externals\<close>), the elliptic curve (\<open>ecdsa\<close>, with \<open>signs_well\<close> for a
  key and a hash that it signs and recovers as documented), the cache behind the databases (\<open>lru\<close>; the laws of the
  trie are for databases without a cache, \<open>cd_cache d = None\<close> in \<open>db_ok\<close>, since a read through the cache can be stale:
  lemma \<open>cached_read_is_stale\<close>), precompiled contracts, and the context of the EVM (\<open>evm_ctx\<close>).
  That a root determines the contents holds up to hash collisions: \<open>collision_free\<close> says that the hash is
  injective on the finitely many encodings at hand.

  Fuel. The interpreter loop runs on fuel. A message gives it \<open>(gas + 1) * (length code + 1)\<close>, and \<open>Termination\<close>
  shows that this is always enough, since every step burns gas or moves forward in the code. The record
  \<open>unreached\<close> names what stands in for exhausted bounds: no theorem depends on its loop and its extra fuel, and its call,
  below the last of \<open>levels\<close> nested calls, needs only to be a sound call itself. The walk along a trie is a
  \<open>partial_function\<close>, with \<open>None\<close> for a database whose nodes form a cycle; a call that waits for a lock that nobody
  returns is the error \<open>NeverReturns\<close>.

  Not modelled: EOF frames (active from Osaka only, they end in an error value), the access witness
  of EIP-6800 (active in no hardfork, likewise), precompiled contracts (third-party cryptography),
  the Merkle and binary-tree state managers (the simple one stands behind the same interface); of the
  trie the walks over all nodes, pruning checks and range proofs; JSON and RPC forms, sealing and building of
  blocks, the deprecated transaction classes; events, debug output and profiling; the block
  processing around single transactions (\<open>runBlock.ts\<close>, \<open>buildBlock.ts\<close>), the blockchain and its consensus engines, and everything around the
  core: networking, peer discovery, databases, servers and the command line.
\<close>

end
